(* ===== verification/Prelude.thy ===== *)
theory Prelude
  imports Main "HOL-Library.Word"
begin

text \<open>
  Shared layer of the development: the machine integers the receiver uses, the outcome of a
  Rust function (a value, a panic, or no return), the arithmetic of \<open>usize\<close> and \<open>u32\<close> on a
  build target, slicing and indexing with their panics, and the pieces of the standard
  library the code formats strings with. Every component theory imports this one.
\<close>

section \<open>Collections of rewrite rules\<close>

named_theorems outcome_simps \<open>unfolding of outcome-valued code\<close>
named_theorems fmt_simps \<open>string formatting\<close>

section \<open>Machine integers, bytes and strings\<close>

type_synonym u8 = "8 word"
type_synonym u16 = "16 word"
type_synonym u32 = "32 word"
type_synonym u64 = "64 word"
type_synonym i32 = "32 word"
type_synonym bytes = "u8 list"

text \<open>
  A Rust \<open>String\<close> is the list of its UTF-8 bytes, held as an Isabelle \<open>string\<close> so that
  literals read as in the source; \<open>into_bytes\<close> and its inverse change the element type only.
\<close>

definition bytes_of_str :: "string \<Rightarrow> bytes" where
  "bytes_of_str s = map of_char s"

definition str_of_bytes :: "bytes \<Rightarrow> string" where
  "str_of_bytes bs = map (\<lambda>b. char_of (unat b)) bs"

lemma byte_bound [simp]: "unat (b :: u8) < 256"
  using unsigned_less [of b] by simp

lemma u32_bound [simp]: "unat (x :: u32) < 4294967296"
  using unsigned_less [of x] by simp

lemma unat_of_nat_u8: "unat (word_of_nat n :: u8) = n mod 256"
  by (simp only: unat_of_nat) simp

lemma unat_of_nat_u32: "unat (word_of_nat n :: u32) = n mod 4294967296"
  by (simp only: unat_of_nat) simp

lemma of_char_less: "(of_char c :: nat) < 256"
  by (simp add: of_char_def horner_sum_of_bool_2_less [of "[_, _, _, _, _, _, _, _]", simplified])

lemma unat_of_char [simp]: "unat (of_char c :: u8) = of_char c"
proof -
  have "(of_char c :: u8) = word_of_nat (of_char c)"
    by (simp only: of_nat_of_char)
  then have "unat (of_char c :: u8) = of_char c mod 2 ^ LENGTH(8)"
    by (simp only: unat_of_nat)
  also have "\<dots> = of_char c" using of_char_less [of c] by simp
  finally show ?thesis .
qed

lemma str_of_bytes_of_str [simp]: "str_of_bytes (bytes_of_str s) = s"
  by (simp add: str_of_bytes_def bytes_of_str_def comp_def)

lemma of_char_char_of_byte [simp]: "(of_char (char_of (unat (b :: u8)) :: char) :: u8) = b"
proof -
  have "unat (of_char (char_of (unat b) :: char) :: u8) = unat b mod 256" by simp
  also have "\<dots> = unat b" by simp
  finally show ?thesis by (simp only: word_unat_eq_iff)
qed

lemma bytes_of_str_of_bytes [simp]: "bytes_of_str (str_of_bytes bs) = bs"
  by (simp add: str_of_bytes_def bytes_of_str_def comp_def)

lemma length_bytes_of_str [simp]: "length (bytes_of_str s) = length s"
  by (simp add: bytes_of_str_def)

lemma length_str_of_bytes [simp]: "length (str_of_bytes s) = length s"
  by (simp add: str_of_bytes_def)

lemma bytes_of_str_inject [simp]: "bytes_of_str s = bytes_of_str t \<longleftrightarrow> s = t"
  by (metis str_of_bytes_of_str)

lemma unat_ucast_u64 [simp]: "unat (ucast (x :: u32) :: u64) = unat x"
proof -
  have "unat x < 2 ^ 64" by (rule order_less_trans [OF u32_bound]) simp
  then show ?thesis by (simp add: unsigned_ucast_eq take_bit_nat_eq_self_iff del: numeral_power_less_of_nat_cancel_iff)
qed

lemma unat_ucast_u32 [simp]: "unat (ucast (x :: u16) :: u32) = unat x"
proof -
  have "unat x < 2 ^ 16" using unsigned_less [of x] by simp
  then show ?thesis by (simp add: unsigned_ucast_eq take_bit_nat_eq_self_iff)
qed

text \<open>Big-endian bytes of a \<open>u32\<close>: \<open>u32::to_be_bytes\<close> and \<open>u32::from_be_bytes\<close>.\<close>

definition to_be_bytes :: "u32 \<Rightarrow> bytes" where
  "to_be_bytes x =
     [word_of_nat (unat x div 16777216), word_of_nat (unat x div 65536),
      word_of_nat (unat x div 256), word_of_nat (unat x)]"

definition from_be_bytes :: "u8 \<Rightarrow> u8 \<Rightarrow> u8 \<Rightarrow> u8 \<Rightarrow> u32" where
  "from_be_bytes a b c d =
     word_of_nat (unat a * 16777216 + unat b * 65536 + unat c * 256 + unat d)"

lemma length_to_be_bytes [simp]: "length (to_be_bytes x) = 4"
  by (simp add: to_be_bytes_def)

lemma unat_from_be_bytes:
  "unat (from_be_bytes a b c d) = unat a * 16777216 + unat b * 65536 + unat c * 256 + unat d"
proof -
  have "unat a * 16777216 + unat b * 65536 + unat c * 256 + unat d < 4294967296"
    using byte_bound [of a] byte_bound [of b] byte_bound [of c] byte_bound [of d] by linarith
  then show ?thesis by (simp only: from_be_bytes_def unat_of_nat_u32 mod_less)
qed

lemma base256_digits:
  assumes "(n :: nat) < 4294967296"
  shows "(n div 16777216 mod 256) * 16777216 + (n div 65536 mod 256) * 65536
          + (n div 256 mod 256) * 256 + n mod 256 = n"
proof -
  have e: "n div 65536 = n div 256 div 256" "n div 16777216 = n div 256 div 256 div 256"
    by (simp_all add: div_mult2_eq [symmetric])
  have "n div 256 div 256 div 256 < 256"
    using assms by (simp add: div_mult2_eq [symmetric] less_mult_imp_div_less)
  then have m: "n div 256 div 256 div 256 mod 256 = n div 256 div 256 div 256" by simp
  have "n = n div 256 * 256 + n mod 256"
    and "n div 256 = n div 256 div 256 * 256 + n div 256 mod 256"
    and "n div 256 div 256 = n div 256 div 256 div 256 * 256 + n div 256 div 256 mod 256"
    by (simp_all only: div_mult_mod_eq)
  then show ?thesis unfolding e m by linarith
qed

lemma base256_div: "d < 256 \<Longrightarrow> (k * 256 + d) div 256 = (k :: nat)"
  by simp

lemma base256_div2:
  assumes "(c :: nat) < 256" and "d < 256"
  shows "((k * 256 + c) * 256 + d) div 65536 = k"
proof -
  have "((k * 256 + c) * 256 + d) div (256 * 256) = ((k * 256 + c) * 256 + d) div 256 div 256"
    by (simp only: div_mult2_eq)
  then show ?thesis using assms by simp
qed

lemma base256_div3:
  assumes "(b :: nat) < 256" and "c < 256" and "d < 256"
  shows "(((a * 256 + b) * 256 + c) * 256 + d) div 16777216 = a"
proof -
  have "(((a * 256 + b) * 256 + c) * 256 + d) div (65536 * 256)
          = (((a * 256 + b) * 256 + c) * 256 + d) div 65536 div 256"
    by (simp only: div_mult2_eq)
  then show ?thesis using assms by (simp add: base256_div2)
qed

lemma base256_mod: "d < 256 \<Longrightarrow> (k * 256 + d) mod 256 = (d :: nat)"
  by simp

lemma from_be_bytes_to_be_bytes:
  "from_be_bytes (to_be_bytes x ! 0) (to_be_bytes x ! 1) (to_be_bytes x ! 2) (to_be_bytes x ! 3) = x"
  using base256_digits [OF u32_bound [of x]]
  by (simp only: word_unat_eq_iff unat_from_be_bytes to_be_bytes_def unat_of_nat_u8
      nth_Cons_0 nth_Cons_Suc numeral_2_eq_2 numeral_3_eq_3 One_nat_def)

lemma byte_eq_word_of_nat: "(word_of_nat n :: u8) = b \<longleftrightarrow> n mod 256 = unat b"
  by (simp only: word_unat_eq_iff unat_of_nat_u8)

lemma to_be_bytes_from_be_bytes: "to_be_bytes (from_be_bytes a b c d) = [a, b, c, d]"
proof -
  let ?k1 = "unat a * 256 + unat b"
  let ?k2 = "?k1 * 256 + unat c"
  have n: "unat (from_be_bytes a b c d) = ?k2 * 256 + unat d"
    by (simp only: unat_from_be_bytes) simp
  have d1: "(?k2 * 256 + unat d) div 256 = ?k2" by (rule base256_div) (rule byte_bound)
  have d2: "(?k2 * 256 + unat d) div 65536 = ?k1" by (rule base256_div2) (rule byte_bound)+
  have d3: "(?k2 * 256 + unat d) div 16777216 = unat a" by (rule base256_div3) (rule byte_bound)+
  show ?thesis
    by (simp only: to_be_bytes_def n d1 d2 d3 byte_eq_word_of_nat list.inject base256_mod
        byte_bound mod_less simp_thms)
qed

section \<open>Outcomes\<close>

text \<open>
  A call returns a value, panics, or does not return. A panic on the boards ends in the
  panic handler's endless loop; on the laptop it unwinds the thread.
\<close>

datatype 'a outcome = Ok 'a | Panic | Diverges

fun and_then :: "'a outcome \<Rightarrow> ('a \<Rightarrow> 'b outcome) \<Rightarrow> 'b outcome" where
  "and_then (Ok x) f = f x"
| "and_then Panic f = Panic"
| "and_then Diverges f = Diverges"

lemma and_then_cong [fundef_cong]:
  "m = m' \<Longrightarrow> (\<And>x. m' = Ok x \<Longrightarrow> f x = g x) \<Longrightarrow> and_then m f = and_then m' g"
  by (cases m') auto

lemma and_then_eq_Ok: "and_then m f = Ok y \<longleftrightarrow> (\<exists>x. m = Ok x \<and> f x = Ok y)"
  by (cases m) auto

lemma and_then_eq_Panic: "and_then m f = Panic \<longleftrightarrow> m = Panic \<or> (\<exists>x. m = Ok x \<and> f x = Panic)"
  by (cases m) auto

lemma and_then_eq_Diverges:
  "and_then m f = Diverges \<longleftrightarrow> m = Diverges \<or> (\<exists>x. m = Ok x \<and> f x = Diverges)"
  by (cases m) auto

lemmas and_then_iffs [outcome_simps] = and_then_eq_Ok and_then_eq_Panic and_then_eq_Diverges

lemma and_then_assoc: "and_then (and_then m f) g = and_then m (\<lambda>x. and_then (f x) g)"
  by (cases m) auto

fun returns :: "'a outcome \<Rightarrow> bool" where
  "returns (Ok x) = True"
| "returns Panic = False"
| "returns Diverges = False"

lemma returns_iff: "returns m \<longleftrightarrow> (\<exists>x. m = Ok x)"
  by (cases m) auto

section \<open>Build targets and their arithmetic\<close>

text \<open>
  What the arithmetic operators do on overflow depends on the build: with overflow checks
  (a debug build) they panic, without (a release build) they wrap. \<open>usize\<close> has 32 bits
  on the boards and 64 on the laptop. A target also says how many bytes its allocator can
  hand out at most: the boards give their heap a fixed size at start-up (200 KB on the
  ESP32-C3, 150 KB on the RP2040), and an allocation that cannot be served panics.
\<close>

record target =
  usize_bits :: nat
  overflow_checks :: bool
  heap_bytes :: nat

definition esp32c3_release :: target where
  "esp32c3_release = \<lparr>usize_bits = 32, overflow_checks = False, heap_bytes = 204800\<rparr>"

definition rp2040_release :: target where
  "rp2040_release = \<lparr>usize_bits = 32, overflow_checks = False, heap_bytes = 153600\<rparr>"

definition laptop_release :: target where
  "laptop_release = \<lparr>usize_bits = 64, overflow_checks = False, heap_bytes = 2 ^ 40\<rparr>"

definition laptop_debug :: target where
  "laptop_debug = \<lparr>usize_bits = 64, overflow_checks = True, heap_bytes = 2 ^ 40\<rparr>"

lemmas target_defs =
  esp32c3_release_def rp2040_release_def laptop_release_def laptop_debug_def

text \<open>\<open>vec![0u8; n]\<close>: capacity overflow and an allocator that cannot serve \<open>n\<close> bytes panic.\<close>

definition alloc_zeroed :: "target \<Rightarrow> nat \<Rightarrow> bytes outcome" where
  "alloc_zeroed t n =
     (if n < 2 ^ (usize_bits t - 1) \<and> n \<le> heap_bytes t then Ok (replicate n 0) else Panic)"

definition usize_add :: "target \<Rightarrow> nat \<Rightarrow> nat \<Rightarrow> nat outcome" where
  "usize_add t a b =
     (if a + b < 2 ^ usize_bits t then Ok (a + b)
      else if overflow_checks t then Panic
      else Ok ((a + b) mod 2 ^ usize_bits t))"

definition u32_add :: "target \<Rightarrow> u32 \<Rightarrow> u32 \<Rightarrow> u32 outcome" where
  "u32_add t a b =
     (if unat a + unat b < 4294967296 then Ok (a + b)
      else if overflow_checks t then Panic
      else Ok (a + b))"

lemma usize_add_small [simp]: "a + b < 2 ^ usize_bits t \<Longrightarrow> usize_add t a b = Ok (a + b)"
  by (simp add: usize_add_def)

lemma usize_add_32 [simp]:
  "32 \<le> usize_bits t \<Longrightarrow> a + b < 4294967296 \<Longrightarrow> usize_add t a b = Ok (a + b)"
proof -
  assume t: "32 \<le> usize_bits t" and ab: "a + b < 4294967296"
  have "(2 :: nat) ^ 32 \<le> 2 ^ usize_bits t" using t by (rule power_increasing) simp
  with ab show ?thesis by simp
qed

lemma usize_add_le: "usize_add t a b = Ok p \<Longrightarrow> p \<le> a + b"
  by (auto simp: usize_add_def split: if_splits)

lemma u32_add_le: "u32_add t a b = Ok c \<Longrightarrow> unat c \<le> unat a + unat b"
  by (auto simp: u32_add_def unat_word_ariths split: if_splits)

lemma unat_u32_add_small: "unat a + unat b < 4294967296 \<Longrightarrow> unat (a + b :: u32) = unat a + unat b"
  by (simp add: unat_word_ariths)

section \<open>Slices\<close>

definition slice_from :: "'a list \<Rightarrow> nat \<Rightarrow> 'a list outcome" where
  "slice_from xs a = (if a \<le> length xs then Ok (drop a xs) else Panic)"

definition slice_range :: "'a list \<Rightarrow> nat \<Rightarrow> nat \<Rightarrow> 'a list outcome" where
  "slice_range xs a b = (if a \<le> b \<and> b \<le> length xs then Ok (take (b - a) (drop a xs)) else Panic)"

definition index :: "'a list \<Rightarrow> nat \<Rightarrow> 'a outcome" where
  "index xs i = (if i < length xs then Ok (xs ! i) else Panic)"

text \<open>\<open>xs[a..b].copy_from_slice(ys)\<close>: panics when the range is bad or the lengths differ.\<close>

definition copy_at :: "'a list \<Rightarrow> nat \<Rightarrow> nat \<Rightarrow> 'a list \<Rightarrow> 'a list outcome" where
  "copy_at xs a b ys =
     (if a \<le> b \<and> b \<le> length xs \<and> length ys = b - a
      then Ok (take a xs @ ys @ drop b xs) else Panic)"

lemma slice_range_past_end: "length xs < b \<Longrightarrow> slice_range xs a b = Panic"
  by (simp add: slice_range_def)

lemma slice_range_reversed: "b < a \<Longrightarrow> slice_range xs a b = Panic"
  by (simp add: slice_range_def)

lemma copy_at_length: "copy_at xs a b ys = Ok zs \<Longrightarrow> length zs = length xs"
  by (auto simp: copy_at_def split: if_splits)

lemma copy_at_nth:
  assumes "copy_at xs a b ys = Ok zs" and "i < length xs"
  shows "zs ! i = (if a \<le> i \<and> i < b then ys ! (i - a) else xs ! i)"
  using assms by (auto simp: copy_at_def nth_append min_def split: if_splits)

section \<open>UTF-8\<close>

text \<open>
  \<open>core::str::from_utf8\<close>: the byte sequences of the Unicode scalar values, without
  overlong forms and surrogates.
\<close>

definition cont_byte :: "u8 \<Rightarrow> bool" where
  "cont_byte b \<longleftrightarrow> 128 \<le> unat b \<and> unat b \<le> 191"

definition second_ok :: "nat \<Rightarrow> u8 \<Rightarrow> bool" where
  "second_ok lead b \<longleftrightarrow> cont_byte b \<and>
     (lead = 224 \<longrightarrow> 160 \<le> unat b) \<and> (lead = 237 \<longrightarrow> unat b \<le> 159) \<and>
     (lead = 240 \<longrightarrow> 144 \<le> unat b) \<and> (lead = 244 \<longrightarrow> unat b \<le> 143)"

fun utf8_valid :: "bytes \<Rightarrow> bool" where
  "utf8_valid [] = True"
| "utf8_valid (b # r) =
     (if unat b < 128 then utf8_valid r
      else if 194 \<le> unat b \<and> unat b \<le> 223 then
        (case r of c # r1 \<Rightarrow> cont_byte c \<and> utf8_valid r1 | _ \<Rightarrow> False)
      else if 224 \<le> unat b \<and> unat b \<le> 239 then
        (case r of c # d # r2 \<Rightarrow> second_ok (unat b) c \<and> cont_byte d \<and> utf8_valid r2 | _ \<Rightarrow> False)
      else if 240 \<le> unat b \<and> unat b \<le> 244 then
        (case r of c # d # e # r3 \<Rightarrow>
           second_ok (unat b) c \<and> cont_byte d \<and> cont_byte e \<and> utf8_valid r3 | _ \<Rightarrow> False)
      else False)"

definition from_utf8 :: "bytes \<Rightarrow> string option" where
  "from_utf8 bs = (if utf8_valid bs then Some (str_of_bytes bs) else None)"

lemma utf8_valid_ascii: "\<forall>b \<in> set bs. unat b < 128 \<Longrightarrow> utf8_valid bs"
  by (induction bs) auto

section \<open>Formatting\<close>

text \<open>\<open>{}\<close> of an unsigned integer, and the hexadecimal \<open>{:02x}\<close> and \<open>{:04x}\<close>.\<close>

definition digit_char :: "nat \<Rightarrow> char" where
  "digit_char d = char_of (48 + d)"

fun dec :: "nat \<Rightarrow> string" where
  "dec n = (if n < 10 then [digit_char n] else dec (n div 10) @ [digit_char (n mod 10)])"

declare dec.simps [simp del]

definition hex_char :: "nat \<Rightarrow> char" where
  "hex_char d = (if d < 10 then char_of (48 + d) else char_of (87 + d))"

definition hex2 :: "nat \<Rightarrow> string" where
  "hex2 n = [hex_char (n div 16), hex_char (n mod 16)]"

definition hex4 :: "nat \<Rightarrow> string" where
  "hex4 n = [hex_char (n div 4096), hex_char (n div 256 mod 16),
             hex_char (n div 16 mod 16), hex_char (n mod 16)]"

lemma dec_nonempty [simp]: "dec n \<noteq> []"
  by (subst dec.simps) simp

text \<open>Joining with a separator, as the code does with an \<open>if i > 0\<close> test in its loops.\<close>

fun join :: "string \<Rightarrow> string list \<Rightarrow> string" where
  "join sep [] = []"
| "join sep [x] = x"
| "join sep (x # y # xs) = x @ sep @ join sep (y # xs)"

end
