(* ===== verification/Hardware.thy ===== *)
theory Hardware
  imports Prelude
begin

text \<open>
  The \<open>MiloHardware\<close> trait of \<open>receiver/src/lib.rs\<close> as a record of its operations over a
  backend state, its default methods, and the contract the runtime relies on: a slice that
  is lent as \<open>&mut [u8]\<close> comes back with the length it had.
\<close>

record 'h hardware =
  hw_gpio_set :: "u32 \<Rightarrow> u32 \<Rightarrow> 'h \<Rightarrow> 'h"
  hw_gpio_get :: "u32 \<Rightarrow> 'h \<Rightarrow> u32 \<times> 'h"
  hw_delay_ms :: "u32 \<Rightarrow> 'h \<Rightarrow> 'h"
  hw_get_uptime_us :: "'h \<Rightarrow> u64"
  hw_i2c_transfer :: "u8 \<Rightarrow> bytes \<Rightarrow> bytes \<Rightarrow> 'h \<Rightarrow> i32 \<times> bytes \<times> 'h"
  hw_log :: "string \<Rightarrow> 'h \<Rightarrow> 'h"
  hw_pwm_set :: "u32 \<Rightarrow> u32 \<Rightarrow> 'h \<Rightarrow> 'h"
  hw_adc_read :: "u32 \<Rightarrow> 'h \<Rightarrow> u32 \<times> 'h"
  hw_spi_transfer :: "u32 \<Rightarrow> bytes \<Rightarrow> bytes \<Rightarrow> 'h \<Rightarrow> i32 \<times> bytes \<times> 'h"
  hw_uart_write :: "u32 \<Rightarrow> bytes \<Rightarrow> 'h \<Rightarrow> i32 \<times> 'h"
  hw_uart_read :: "u32 \<Rightarrow> bytes \<Rightarrow> u32 \<Rightarrow> 'h \<Rightarrow> i32 \<times> bytes \<times> 'h"

section \<open>Default methods\<close>

definition default_pwm_set :: "u32 \<Rightarrow> u32 \<Rightarrow> 'h \<Rightarrow> 'h" where
  "default_pwm_set channel duty h = h"

definition default_adc_read :: "u32 \<Rightarrow> 'h \<Rightarrow> u32 \<times> 'h" where
  "default_adc_read channel h = (0, h)"

definition default_spi_transfer :: "u32 \<Rightarrow> bytes \<Rightarrow> bytes \<Rightarrow> 'h \<Rightarrow> i32 \<times> bytes \<times> 'h" where
  "default_spi_transfer bus tx rx h = (-1, rx, h)"

definition default_uart_write :: "u32 \<Rightarrow> bytes \<Rightarrow> 'h \<Rightarrow> i32 \<times> 'h" where
  "default_uart_write bus data h = (-1, h)"

definition default_uart_read :: "u32 \<Rightarrow> bytes \<Rightarrow> u32 \<Rightarrow> 'h \<Rightarrow> i32 \<times> bytes \<times> 'h" where
  "default_uart_read bus buf timeout_ms h = (-1, buf, h)"

section \<open>The contract\<close>

text \<open>A call of any method that can change the backend leads from one state to the other.\<close>

inductive hw_step :: "'h hardware \<Rightarrow> 'h \<Rightarrow> 'h \<Rightarrow> bool" for hw where
  gpio_set: "hw_step hw h (hw_gpio_set hw pin state h)"
| gpio_get: "hw_gpio_get hw pin h = (v, h') \<Longrightarrow> hw_step hw h h'"
| delay_ms: "hw_step hw h (hw_delay_ms hw ms h)"
| i2c_transfer: "hw_i2c_transfer hw addr tx rx h = (r, rx', h') \<Longrightarrow> hw_step hw h h'"
| log: "hw_step hw h (hw_log hw message h)"
| pwm_set: "hw_step hw h (hw_pwm_set hw channel duty h)"
| adc_read: "hw_adc_read hw channel h = (v, h') \<Longrightarrow> hw_step hw h h'"
| spi_transfer: "hw_spi_transfer hw bus tx rx h = (r, rx', h') \<Longrightarrow> hw_step hw h h'"
| uart_write: "hw_uart_write hw bus data h = (r, h') \<Longrightarrow> hw_step hw h h'"
| uart_read: "hw_uart_read hw bus buf timeout h = (r, buf', h') \<Longrightarrow> hw_step hw h h'"

text \<open>
  In the good states of a backend (all of them, unless it is assembled from parts) lent
  slices keep their length, and every method leads to a good state.
\<close>

locale milo_hardware =
  fixes hw :: "'h hardware" and good :: "'h \<Rightarrow> bool"
  assumes i2c_length: "good h \<Longrightarrow> hw_i2c_transfer hw addr tx rx h = (r, rx', h') \<Longrightarrow> length rx' = length rx"
    and spi_length: "good h \<Longrightarrow> hw_spi_transfer hw bus tx rx h = (r, rx', h') \<Longrightarrow> length rx' = length rx"
    and uart_length: "good h \<Longrightarrow> hw_uart_read hw bus rx timeout h = (r, rx', h') \<Longrightarrow> length rx' = length rx"
    and stays_good: "good h \<Longrightarrow> hw_step hw h h' \<Longrightarrow> good h'"

end
