(* ===== verification/Mock.thy ===== *)
theory Mock
  imports Hardware
begin

text \<open>
  The laptop backend \<open>receiver/src/targets/mock/mod.rs\<close>: every operation reports itself on
  standard error and answers with a fixed value. The reports are kept as events with the
  values they show; the formatting of the lines is not modelled. The clock it was created
  with is its only state, here the uptime the next call will see.
\<close>

datatype mock_event =
    EGpioSet u32 bool
  | EGpioRead u32
  | ETimer u32
  | EI2c u8 nat nat
  | ELog string
  | EPwm u32 u32
  | EAdc u32
  | ESpi u32 nat nat
  | EUartWrite u32 nat
  | EUartRead u32 nat u32

record mock =
  mock_uptime_us :: u64
  mock_events :: "mock_event list"

definition new_mock :: mock where
  "new_mock = \<lparr>mock_uptime_us = 0, mock_events = []\<rparr>"

definition report :: "mock_event \<Rightarrow> mock \<Rightarrow> mock" where
  "report e m = m\<lparr>mock_events := mock_events m @ [e]\<rparr>"

definition mock_delay_ms :: "u32 \<Rightarrow> mock \<Rightarrow> mock" where
  "mock_delay_ms ms m =
     (report (ETimer ms) m)\<lparr>mock_uptime_us := mock_uptime_us m + ucast ms * 1000\<rparr>"

definition mock_spi_transfer :: "u32 \<Rightarrow> bytes \<Rightarrow> bytes \<Rightarrow> mock \<Rightarrow> i32 \<times> bytes \<times> mock" where
  "mock_spi_transfer bus tx rx m =
     (let m = report (ESpi bus (length tx) (length rx)) m;
          n = min (length tx) (length rx)
      in (0, take n tx @ drop n rx, m))"

definition laptop_mock :: "mock hardware" where
  "laptop_mock = \<lparr>
     hw_gpio_set = (\<lambda>pin state m. report (EGpioSet pin (state \<noteq> 0)) m),
     hw_gpio_get = (\<lambda>pin m. (0, report (EGpioRead pin) m)),
     hw_delay_ms = mock_delay_ms,
     hw_get_uptime_us = mock_uptime_us,
     hw_i2c_transfer = (\<lambda>addr tx rx m. (0, rx, report (EI2c addr (length tx) (length rx)) m)),
     hw_log = (\<lambda>message m. report (ELog message) m),
     hw_pwm_set = (\<lambda>channel duty m. report (EPwm channel duty) m),
     hw_adc_read = (\<lambda>channel m. (2048, report (EAdc channel) m)),
     hw_spi_transfer = mock_spi_transfer,
     hw_uart_write = (\<lambda>bus data m. (word_of_nat (length data), report (EUartWrite bus (length data)) m)),
     hw_uart_read = (\<lambda>bus buf timeout_ms m. (0, buf, report (EUartRead bus (length buf) timeout_ms) m))\<rparr>"

interpretation mock_hw: milo_hardware laptop_mock "\<lambda>_. True"
  by unfold_locales (auto simp: laptop_mock_def mock_spi_transfer_def Let_def)

end
