(* ===== verification/Params.thy ===== *)
theory Params
  imports Prelude
begin

text \<open>
  The shared parameter slots of \<open>receiver/src/engine/executor.rs\<close>: eight \<open>u32\<close> cells the host
  writes with \<open>OP_SET_PARAM\<close> and the running module reads with the \<open>get_param\<close> syscall.
\<close>

type_synonym params = "u32 list"

definition PARAM_SLOTS :: params where
  "PARAM_SLOTS = [0, 0, 0, 0, 0, 0, 0, 0]"

definition get_param :: "u32 \<Rightarrow> params \<Rightarrow> u32" where
  "get_param slot ps = (if unat slot < length ps then ps ! unat slot else 0)"

definition set_param :: "u32 \<Rightarrow> u32 \<Rightarrow> params \<Rightarrow> params" where
  "set_param slot value ps = (if unat slot < length ps then ps[unat slot := value] else ps)"

lemma length_set_param [simp]: "length (set_param slot v ps) = length ps"
  by (simp add: set_param_def)

text \<open>
  The slots behave as a store of eight cells: a write to a slot below 8 is what the next
  read of that slot returns and changes no other slot, a write outside is ignored and a read
  outside is 0, and the number of slots never changes.
\<close>
theorem param_store_laws:
  assumes "length ps = length PARAM_SLOTS"
  shows "get_param s (set_param s v ps) = (if unat s < 8 then v else 0)
    \<and> (s' \<noteq> s \<longrightarrow> get_param s' (set_param s v ps) = get_param s' ps)
    \<and> (8 \<le> unat s \<longrightarrow> set_param s v ps = ps)
    \<and> length (set_param s v ps) = 8"
  using assms
  by (auto simp: get_param_def set_param_def PARAM_SLOTS_def nth_list_update word_unat_eq_iff)

theorem param_store_laws_witness:
  "get_param 7 (set_param 7 300 PARAM_SLOTS) = 300 \<and> set_param 8 1 PARAM_SLOTS = PARAM_SLOTS"
  using param_store_laws [OF refl, of 7 300] param_store_laws [OF refl, of 8 1] by simp

end
