(* ===== verification/Syscalls.thy ===== *)
theory Syscalls
  imports Mock Params
begin

text \<open>
  The twelve syscalls \<open>MiloRuntime::register_syscalls\<close> of \<open>receiver/src/lib.rs\<close> registers, on
  \<open>HostState\<close> and the guest's memory: their pointer arithmetic at its width, the slices that
  panic when they are out of bounds, the guest-sized buffers, and the hardware calls. Then
  what a syscall can and cannot do to the guest's memory and to the log.
\<close>

section \<open>Syscalls\<close>

datatype syscall =
    GpioSet u32 u32
  | GpioGet u32
  | DelayMs u32
  | GetUptimeUs
  | I2cTransfer u32 u32 u32 u32 u32
  | LogMsg u32 u32
  | PwmSet u32 u32
  | AdcRead u32
  | SpiTransfer u32 u32 u32 u32 u32
  | UartWrite u32 u32 u32
  | UartRead u32 u32 u32 u32
  | GetParam u32

datatype sysret = RetUnit | RetU32 u32 | RetU64 u64 | RetI32 i32

record 'h host_state =
  hs_hw :: 'h
  hs_memory :: bool
  hs_logs :: "string list"

text \<open>
  The bodies of the two bus transfers after the memory lookup, with the transfer passed in:
  the transmit slice (its end computed in \<open>u32\<close>), the receive buffer sized by the guest, and
  the copy back of a successful non-empty read.
\<close>

definition bus_transfer ::
  "target \<Rightarrow> (bytes \<Rightarrow> bytes \<Rightarrow> 'h \<Rightarrow> i32 \<times> bytes \<times> 'h) \<Rightarrow> u32 \<Rightarrow> u32 \<Rightarrow> u32 \<Rightarrow> u32 \<Rightarrow>
   bytes \<Rightarrow> 'h host_state \<Rightarrow> (sysret \<times> bytes \<times> 'h host_state) outcome" where
  "bus_transfer t transfer tx_ptr tx_len rx_ptr rx_len mem st =
     (if \<not> hs_memory st then Ok (RetI32 (-1), mem, st)
      else
        and_then (u32_add t tx_ptr tx_len) (\<lambda>tx_end.
        and_then (slice_range mem (unat tx_ptr) (unat tx_end)) (\<lambda>tx_owned.
        and_then (alloc_zeroed t (unat rx_len)) (\<lambda>rx_buf.
          let (result, rx_buf, h) = transfer tx_owned rx_buf (hs_hw st);
              st = st\<lparr>hs_hw := h\<rparr>
          in if result = 0 \<and> rx_len > 0 then
               and_then (u32_add t rx_ptr rx_len) (\<lambda>rx_end.
               and_then (copy_at mem (unat rx_ptr) (unat rx_end) rx_buf) (\<lambda>mem.
                 Ok (RetI32 result, mem, st)))
             else Ok (RetI32 result, mem, st)))))"

definition sys_i2c_transfer ::
  "target \<Rightarrow> 'h hardware \<Rightarrow> u32 \<Rightarrow> u32 \<Rightarrow> u32 \<Rightarrow> u32 \<Rightarrow> u32 \<Rightarrow>
   bytes \<Rightarrow> 'h host_state \<Rightarrow> (sysret \<times> bytes \<times> 'h host_state) outcome" where
  "sys_i2c_transfer t hw addr tx_ptr tx_len rx_ptr rx_len mem st =
     bus_transfer t (hw_i2c_transfer hw (ucast addr)) tx_ptr tx_len rx_ptr rx_len mem st"

definition sys_spi_transfer ::
  "target \<Rightarrow> 'h hardware \<Rightarrow> u32 \<Rightarrow> u32 \<Rightarrow> u32 \<Rightarrow> u32 \<Rightarrow> u32 \<Rightarrow>
   bytes \<Rightarrow> 'h host_state \<Rightarrow> (sysret \<times> bytes \<times> 'h host_state) outcome" where
  "sys_spi_transfer t hw bus tx_ptr tx_len rx_ptr rx_len mem st =
     bus_transfer t (hw_spi_transfer hw bus) tx_ptr tx_len rx_ptr rx_len mem st"

definition sys_log_msg ::
  "target \<Rightarrow> 'h hardware \<Rightarrow> u32 \<Rightarrow> u32 \<Rightarrow> bytes \<Rightarrow> 'h host_state \<Rightarrow>
   (sysret \<times> bytes \<times> 'h host_state) outcome" where
  "sys_log_msg t hw ptr len mem st =
     (if \<not> hs_memory st then Ok (RetUnit, mem, st)
      else
        let start = unat ptr in
        and_then (usize_add t start (unat len)) (\<lambda>stop.
          if stop > length mem then Ok (RetUnit, mem, st)
          else
            and_then (slice_range mem start stop) (\<lambda>s.
              case from_utf8 s of
                Some msg \<Rightarrow>
                  Ok (RetUnit, mem,
                      st\<lparr>hs_hw := hw_log hw msg (hs_hw st), hs_logs := hs_logs st @ [msg]\<rparr>)
              | None \<Rightarrow> Ok (RetUnit, mem, st))))"

definition sys_uart_write ::
  "target \<Rightarrow> 'h hardware \<Rightarrow> u32 \<Rightarrow> u32 \<Rightarrow> u32 \<Rightarrow> bytes \<Rightarrow> 'h host_state \<Rightarrow>
   (sysret \<times> bytes \<times> 'h host_state) outcome" where
  "sys_uart_write t hw bus ptr len mem st =
     (if \<not> hs_memory st then Ok (RetI32 (-1), mem, st)
      else
        let start = unat ptr in
        and_then (usize_add t start (unat len)) (\<lambda>stop.
          if stop > length mem then Ok (RetI32 (-1), mem, st)
          else
            and_then (slice_range mem start stop) (\<lambda>owned.
              let (r, h) = hw_uart_write hw bus owned (hs_hw st)
              in Ok (RetI32 r, mem, st\<lparr>hs_hw := h\<rparr>))))"

definition sys_uart_read ::
  "target \<Rightarrow> 'h hardware \<Rightarrow> u32 \<Rightarrow> u32 \<Rightarrow> u32 \<Rightarrow> u32 \<Rightarrow> bytes \<Rightarrow> 'h host_state \<Rightarrow>
   (sysret \<times> bytes \<times> 'h host_state) outcome" where
  "sys_uart_read t hw bus ptr len_max timeout_ms mem st =
     (if \<not> hs_memory st then Ok (RetI32 (-1), mem, st)
      else
        and_then (alloc_zeroed t (unat len_max)) (\<lambda>rx_buf.
          let (n, rx_buf, h) = hw_uart_read hw bus rx_buf timeout_ms (hs_hw st);
              st = st\<lparr>hs_hw := h\<rparr>
          in if 0 < sint n then
               let copy_len = min (unat n) (unat len_max);
                   start = unat ptr
               in and_then (usize_add t start copy_len) (\<lambda>stop.
                    if stop \<le> length mem then
                      and_then (slice_range rx_buf 0 copy_len) (\<lambda>data.
                      and_then (copy_at mem start stop data) (\<lambda>mem.
                        Ok (RetI32 n, mem, st)))
                    else Ok (RetI32 n, mem, st))
             else Ok (RetI32 n, mem, st)))"

text \<open>The dispatch of a guest's call to the function registered for it.\<close>

definition host_call ::
  "target \<Rightarrow> 'h hardware \<Rightarrow> params \<Rightarrow> syscall \<Rightarrow> bytes \<Rightarrow> 'h host_state \<Rightarrow>
   (sysret \<times> bytes \<times> 'h host_state) outcome" where
  "host_call t hw ps sc mem st = (case sc of
     GpioSet pin state \<Rightarrow> Ok (RetUnit, mem, st\<lparr>hs_hw := hw_gpio_set hw pin state (hs_hw st)\<rparr>)
   | GpioGet pin \<Rightarrow>
       (let (v, h) = hw_gpio_get hw pin (hs_hw st) in Ok (RetU32 v, mem, st\<lparr>hs_hw := h\<rparr>))
   | DelayMs ms \<Rightarrow> Ok (RetUnit, mem, st\<lparr>hs_hw := hw_delay_ms hw ms (hs_hw st)\<rparr>)
   | GetUptimeUs \<Rightarrow> Ok (RetU64 (hw_get_uptime_us hw (hs_hw st)), mem, st)
   | I2cTransfer addr tx_ptr tx_len rx_ptr rx_len \<Rightarrow>
       sys_i2c_transfer t hw addr tx_ptr tx_len rx_ptr rx_len mem st
   | LogMsg ptr len \<Rightarrow> sys_log_msg t hw ptr len mem st
   | PwmSet channel duty \<Rightarrow> Ok (RetUnit, mem, st\<lparr>hs_hw := hw_pwm_set hw channel duty (hs_hw st)\<rparr>)
   | AdcRead channel \<Rightarrow>
       (let (v, h) = hw_adc_read hw channel (hs_hw st) in Ok (RetU32 v, mem, st\<lparr>hs_hw := h\<rparr>))
   | SpiTransfer bus tx_ptr tx_len rx_ptr rx_len \<Rightarrow>
       sys_spi_transfer t hw bus tx_ptr tx_len rx_ptr rx_len mem st
   | UartWrite bus ptr len \<Rightarrow> sys_uart_write t hw bus ptr len mem st
   | UartRead bus ptr len_max timeout_ms \<Rightarrow> sys_uart_read t hw bus ptr len_max timeout_ms mem st
   | GetParam slot \<Rightarrow> Ok (RetU32 (get_param slot ps), mem, st))"

text \<open>What the linker defines, all in module \<open>env\<close>.\<close>

definition linker_definitions :: "(string \<times> string) list" where
  "linker_definitions = map (\<lambda>n. (''env'', n))
     [''gpio_set'', ''gpio_get'', ''delay_ms'', ''get_uptime_us'', ''i2c_transfer'', ''log_msg'',
      ''pwm_set'', ''adc_read'', ''spi_transfer'', ''uart_write'', ''uart_read'', ''get_param'']"

section \<open>Confinement of the syscalls\<close>

text \<open>
  The part of its own memory a guest lends to a syscall for writing, and the contract of a
  syscall step: memory keeps its size and everything outside the lent part.
\<close>

definition writable :: "syscall \<Rightarrow> nat \<Rightarrow> bool" where
  "writable sc = (case sc of
     I2cTransfer addr tx_ptr tx_len rx_ptr rx_len \<Rightarrow>
       (\<lambda>i. unat rx_ptr \<le> i \<and> i < unat rx_ptr + unat rx_len)
   | SpiTransfer bus tx_ptr tx_len rx_ptr rx_len \<Rightarrow>
       (\<lambda>i. unat rx_ptr \<le> i \<and> i < unat rx_ptr + unat rx_len)
   | UartRead bus ptr len_max timeout_ms \<Rightarrow> (\<lambda>i. unat ptr \<le> i \<and> i < unat ptr + unat len_max)
   | _ \<Rightarrow> (\<lambda>i. False))"

definition confined :: "(nat \<Rightarrow> bool) \<Rightarrow> bytes \<Rightarrow> bytes \<Rightarrow> bool" where
  "confined w mem mem' \<longleftrightarrow>
     length mem' = length mem \<and> (\<forall>i < length mem. \<not> w i \<longrightarrow> mem' ! i = mem ! i)"

lemma confined_refl [simp]: "confined w mem mem"
  by (simp add: confined_def)

lemma confined_copy:
  assumes "copy_at mem a b ys = Ok mem'" and "b \<le> c"
  shows "confined (\<lambda>i. a \<le> i \<and> i < c) mem mem'"
  using copy_at_length [OF assms(1)] copy_at_nth [OF assms(1)] assms(2)
  unfolding confined_def by auto

lemma bus_transfer_no_memory:
  "\<not> hs_memory st \<Longrightarrow> bus_transfer t f tx_ptr tx_len rx_ptr rx_len mem st = Ok (RetI32 (-1), mem, st)"
  by (simp add: bus_transfer_def)

lemma bus_transfer_Ok:
  assumes "bus_transfer t f tx_ptr tx_len rx_ptr rx_len mem st = Ok (r, mem', st')" and "hs_memory st"
  obtains tx_end tx rx res rx' h where
    "u32_add t tx_ptr tx_len = Ok tx_end" "slice_range mem (unat tx_ptr) (unat tx_end) = Ok tx"
    "alloc_zeroed t (unat rx_len) = Ok rx" "f tx rx (hs_hw st) = (res, rx', h)"
    "r = RetI32 res" "st' = st\<lparr>hs_hw := h\<rparr>"
    "if res = 0 \<and> rx_len > 0
     then \<exists>rx_end. u32_add t rx_ptr rx_len = Ok rx_end \<and>
            copy_at mem (unat rx_ptr) (unat rx_end) rx' = Ok mem'
     else mem' = mem"
proof -
  from assms obtain tx_end tx rx where
    b: "u32_add t tx_ptr tx_len = Ok tx_end" "slice_range mem (unat tx_ptr) (unat tx_end) = Ok tx"
    "alloc_zeroed t (unat rx_len) = Ok rx"
    by (auto simp: bus_transfer_def and_then_eq_Ok)
  obtain res rx' h where f: "f tx rx (hs_hw st) = (res, rx', h)" by (cases "f tx rx (hs_hw st)")
  with assms b have c: "r = RetI32 res \<and> st' = st\<lparr>hs_hw := h\<rparr> \<and>
     (if res = 0 \<and> rx_len > 0
      then \<exists>rx_end. u32_add t rx_ptr rx_len = Ok rx_end \<and>
            copy_at mem (unat rx_ptr) (unat rx_end) rx' = Ok mem'
      else mem' = mem)"
    by (auto simp: bus_transfer_def and_then_eq_Ok split: if_splits)
  from c show ?thesis using that [OF b f] by blast
qed

lemma bus_transfer_confined:
  assumes "bus_transfer t f tx_ptr tx_len rx_ptr rx_len mem st = Ok (r, mem', st')"
  shows "confined (\<lambda>i. unat rx_ptr \<le> i \<and> i < unat rx_ptr + unat rx_len) mem mem'"
proof (cases "hs_memory st")
  case True
  show ?thesis
    by (rule bus_transfer_Ok [OF assms True])
       (auto split: if_splits dest: u32_add_le intro: confined_copy)
next
  case False
  with assms show ?thesis by (simp add: bus_transfer_no_memory)
qed

lemma bus_transfer_frame:
  assumes "bus_transfer t f tx_ptr tx_len rx_ptr rx_len mem st = Ok (r, mem', st')"
  shows "hs_logs st' = hs_logs st \<and> hs_memory st' = hs_memory st"
proof (cases "hs_memory st")
  case True
  show ?thesis by (rule bus_transfer_Ok [OF assms True]) simp
next
  case False
  with assms show ?thesis by (simp add: bus_transfer_no_memory)
qed

lemma sys_uart_read_Ok:
  assumes "sys_uart_read t hw bus ptr len_max timeout_ms mem st = Ok (r, mem', st')" and "hs_memory st"
  obtains rx n rx' h where
    "alloc_zeroed t (unat len_max) = Ok rx" "hw_uart_read hw bus rx timeout_ms (hs_hw st) = (n, rx', h)"
    "r = RetI32 n" "st' = st\<lparr>hs_hw := h\<rparr>"
    "mem' = mem \<or> (\<exists>stop data. usize_add t (unat ptr) (min (unat n) (unat len_max)) = Ok stop \<and>
        copy_at mem (unat ptr) stop data = Ok mem')"
proof -
  from assms obtain rx where b: "alloc_zeroed t (unat len_max) = Ok rx"
    by (auto simp: sys_uart_read_def and_then_eq_Ok)
  obtain n rx' h where f: "hw_uart_read hw bus rx timeout_ms (hs_hw st) = (n, rx', h)"
    by (cases "hw_uart_read hw bus rx timeout_ms (hs_hw st)")
  with assms b have "r = RetI32 n \<and> st' = st\<lparr>hs_hw := h\<rparr> \<and>
     (mem' = mem \<or> (\<exists>stop data. usize_add t (unat ptr) (min (unat n) (unat len_max)) = Ok stop \<and>
        copy_at mem (unat ptr) stop data = Ok mem'))"
    by (auto simp: sys_uart_read_def and_then_eq_Ok Let_def split: if_splits)
  then show ?thesis using that [OF b f] by blast
qed

lemma sys_uart_read_confined:
  assumes "sys_uart_read t hw bus ptr len_max timeout_ms mem st = Ok (r, mem', st')"
  shows "confined (\<lambda>i. unat ptr \<le> i \<and> i < unat ptr + unat len_max) mem mem'"
proof (cases "hs_memory st")
  case True
  show ?thesis
  proof (rule sys_uart_read_Ok [OF assms True], elim disjE exE conjE)
    fix n :: i32 and stop data
    assume a: "usize_add t (unat ptr) (min (unat n) (unat len_max)) = Ok stop"
      and c: "copy_at mem (unat ptr) stop data = Ok mem'"
    from usize_add_le [OF a] have "stop \<le> unat ptr + unat len_max" by simp
    with c show ?thesis by (rule confined_copy)
  qed simp
next
  case False
  with assms show ?thesis by (simp add: sys_uart_read_def)
qed

lemma sys_uart_read_frame:
  assumes "sys_uart_read t hw bus ptr len_max timeout_ms mem st = Ok (r, mem', st')"
  shows "hs_logs st' = hs_logs st \<and> hs_memory st' = hs_memory st"
proof (cases "hs_memory st")
  case True
  show ?thesis by (rule sys_uart_read_Ok [OF assms True]) simp
next
  case False
  with assms show ?thesis by (simp add: sys_uart_read_def)
qed

lemma sys_uart_write_frame:
  assumes "sys_uart_write t hw bus ptr len mem st = Ok (r, mem', st')"
  shows "mem' = mem \<and> hs_logs st' = hs_logs st \<and> hs_memory st' = hs_memory st"
  using assms by (auto simp: sys_uart_write_def and_then_eq_Ok Let_def case_prod_beta split: if_splits)

text \<open>
  C10: whatever pointers and lengths a guest passes, a syscall that returns keeps the size of
  the guest's memory and changes it only inside the receive window the guest named.
\<close>
theorem host_call_confined:
  assumes "host_call t hw ps sc mem st = Ok (r, mem', st')"
  shows "length mem' = length mem \<and> (\<forall>i < length mem. \<not> writable sc i \<longrightarrow> mem' ! i = mem ! i)"
proof -
  have "confined (writable sc) mem mem'"
  proof (cases sc)
    case (I2cTransfer a b c d e)
    with assms show ?thesis
      by (auto simp: host_call_def sys_i2c_transfer_def writable_def dest!: bus_transfer_confined)
  next
    case (SpiTransfer a b c d e)
    with assms show ?thesis
      by (auto simp: host_call_def sys_spi_transfer_def writable_def dest!: bus_transfer_confined)
  next
    case (UartRead a b c d)
    with assms show ?thesis
      by (auto simp: host_call_def writable_def dest!: sys_uart_read_confined)
  next
    case (UartWrite a b c)
    with assms show ?thesis
      by (auto simp: host_call_def writable_def dest!: sys_uart_write_frame)
  next
    case (LogMsg a b)
    with assms show ?thesis
      by (auto simp: host_call_def sys_log_msg_def and_then_eq_Ok Let_def split: if_splits option.splits)
  qed (use assms in \<open>auto simp: host_call_def split: prod.splits\<close>)
  then show ?thesis by (simp add: confined_def)
qed

theorem host_call_confined_witness:
  "\<exists>r mem' st'. host_call laptop_release laptop_mock PARAM_SLOTS (SpiTransfer 0 0 2 4 2)
       [1, 2, 3, 4, 5, 6, 7, 8] \<lparr>hs_hw = new_mock, hs_memory = True, hs_logs = []\<rparr> = Ok (r, mem', st')
     \<and> mem' = [1, 2, 3, 4, 1, 2, 7, 8] \<and> length mem' = 8 \<and> mem' ! 0 = 1"
proof -
  let ?m = "[1, 2, 3, 4, 5, 6, 7, 8] :: bytes"
  let ?st = "\<lparr>hs_hw = new_mock, hs_memory = True, hs_logs = []\<rparr>"
  obtain r mem' st' where c: "host_call laptop_release laptop_mock PARAM_SLOTS (SpiTransfer 0 0 2 4 2) ?m ?st
      = Ok (r, mem', st')" and m: "mem' = [1, 2, 3, 4, 1, 2, 7, 8]"
    by (simp add: host_call_def sys_spi_transfer_def bus_transfer_def u32_add_def slice_range_def
        alloc_zeroed_def laptop_release_def laptop_mock_def mock_spi_transfer_def copy_at_def Let_def)
  from host_call_confined [OF c] have "length mem' = 8 \<and> mem' ! 0 = 1" by (simp add: writable_def)
  with c m show ?thesis by blast
qed

section \<open>The log\<close>

lemma usize_add_ge:
  assumes "usize_add t a b = Ok c" and "a \<le> c" and "a < 2 ^ usize_bits t" and "b < 2 ^ usize_bits t"
  shows "c = a + b"
proof (cases "a + b < 2 ^ usize_bits t")
  case False
  have "(a + b) mod 2 ^ usize_bits t = a + b - 2 ^ usize_bits t"
    using False assms(3,4) by (simp add: mod_if not_less)
  with False assms show ?thesis by (auto simp: usize_add_def split: if_splits)
qed (use assms in \<open>simp add: usize_add_def\<close>)

text \<open>
  What a syscall owes the log: for \<open>log_msg\<close> the text at the guest's pointer, if the guest has a memory,
  the text lies inside it and is UTF-8; for the others nothing.
\<close>

definition logged :: "syscall \<Rightarrow> bytes \<Rightarrow> 'h host_state \<Rightarrow> string list" where
  "logged sc mem st = (case sc of
     LogMsg ptr len \<Rightarrow>
       if hs_memory st \<and> unat ptr + unat len \<le> length mem
       then (case from_utf8 (take (unat len) (drop (unat ptr) mem)) of Some msg \<Rightarrow> [msg] | None \<Rightarrow> [])
       else []
   | _ \<Rightarrow> [])"

lemma sys_log_msg_logs:
  assumes "sys_log_msg t hw ptr len mem st = Ok (r, mem', st')" and "32 \<le> usize_bits t"
  shows "hs_logs st' = hs_logs st @ logged (LogMsg ptr len) mem st"
proof (cases "hs_memory st")
  case False
  then show ?thesis using assms(1) by (simp add: sys_log_msg_def logged_def)
next
  case True
  then obtain stop where a: "usize_add t (unat ptr) (unat len) = Ok stop"
    using assms(1) by (auto simp: sys_log_msg_def Let_def and_then_eq_Ok)
  show ?thesis
  proof (cases "stop > length mem")
    case beyond: True
    then have "\<not> unat ptr + unat len \<le> length mem" using usize_add_le [OF a] by simp
    then show ?thesis using beyond True a assms(1) by (simp add: sys_log_msg_def logged_def Let_def)
  next
    case False
    then obtain s where s: "slice_range mem (unat ptr) stop = Ok s"
      using True a assms(1) by (auto simp: sys_log_msg_def Let_def and_then_eq_Ok)
    have p: "(2 :: nat) ^ 32 \<le> 2 ^ usize_bits t" using assms(2) by (rule power_increasing) simp
    have b: "unat x < 2 ^ usize_bits t" for x :: u32
      by (rule order_less_le_trans [OF u32_bound]) (use p in simp)
    have "stop = unat ptr + unat len"
      using a s b by (auto intro: usize_add_ge simp: slice_range_def split: if_splits)
    then show ?thesis using True False a s assms(1)
      by (auto simp: sys_log_msg_def logged_def Let_def slice_range_def split: if_splits option.splits)
  qed
qed

text \<open>
  C23: the log a module's result carries is written by \<open>log_msg\<close> alone, and it always is: a call of
  \<open>log_msg\<close> whose text lies inside the guest's memory and is UTF-8 appends exactly that text, one
  that leaves the memory or is not UTF-8 appends nothing, and every other syscall leaves the log as it was.
\<close>
theorem host_call_logs:
  assumes "host_call t hw ps sc mem st = Ok (r, mem', st')" and "32 \<le> usize_bits t"
  shows "hs_logs st' = hs_logs st @ logged sc mem st"
proof (cases sc)
  case (LogMsg ptr len)
  with assms have "sys_log_msg t hw ptr len mem st = Ok (r, mem', st')" by (simp add: host_call_def)
  from sys_log_msg_logs [OF this assms(2)] LogMsg show ?thesis by simp
qed (use assms in \<open>auto simp: host_call_def logged_def sys_i2c_transfer_def sys_spi_transfer_def case_prod_beta
      dest!: bus_transfer_frame sys_uart_read_frame sys_uart_write_frame\<close>)

theorem host_call_logs_witness:
  "\<exists>r mem' st'. host_call esp32c3_release laptop_mock PARAM_SLOTS (LogMsg 1 2)
       (bytes_of_str ''ahi'') \<lparr>hs_hw = new_mock, hs_memory = True, hs_logs = [''a'']\<rparr> = Ok (r, mem', st')
     \<and> hs_logs st' = [''a'', ''hi'']"
proof -
  let ?st = "\<lparr>hs_hw = new_mock, hs_memory = True, hs_logs = [''a'']\<rparr>"
  let ?m = "bytes_of_str ''ahi''"
  obtain r mem' st' where c: "host_call esp32c3_release laptop_mock PARAM_SLOTS (LogMsg 1 2) ?m ?st
      = Ok (r, mem', st')"
    by (simp add: host_call_def sys_log_msg_def usize_add_def slice_range_def esp32c3_release_def
        bytes_of_str_def from_utf8_def Let_def)
  have "hs_logs st' = [''a'', ''hi'']"
    using host_call_logs [OF c] by (simp add: logged_def esp32c3_release_def bytes_of_str_def from_utf8_def
        str_of_bytes_def char_of_def bit_0)
  with c show ?thesis by blast
qed

section \<open>When syscalls panic\<close>

text \<open>Pointers a guest may pass to get an answer rather than a panic.\<close>

definition pointers_ok :: "target \<Rightarrow> bytes \<Rightarrow> syscall \<Rightarrow> bool" where
  "pointers_ok t mem sc = (case sc of
     I2cTransfer addr tx_ptr tx_len rx_ptr rx_len \<Rightarrow>
       unat tx_ptr + unat tx_len \<le> length mem \<and> unat rx_ptr + unat rx_len \<le> length mem
       \<and> returns (alloc_zeroed t (unat rx_len))
   | SpiTransfer bus tx_ptr tx_len rx_ptr rx_len \<Rightarrow>
       unat tx_ptr + unat tx_len \<le> length mem \<and> unat rx_ptr + unat rx_len \<le> length mem
       \<and> returns (alloc_zeroed t (unat rx_len))
   | UartRead bus ptr len_max timeout_ms \<Rightarrow>
       unat ptr + unat len_max \<le> length mem \<and> returns (alloc_zeroed t (unat len_max))
   | LogMsg ptr len \<Rightarrow> unat ptr + unat len \<le> length mem
   | UartWrite bus ptr len \<Rightarrow> unat ptr + unat len \<le> length mem
   | _ \<Rightarrow> True)"

lemma alloc_zeroed_length: "alloc_zeroed t n = Ok b \<Longrightarrow> length b = n"
  by (auto simp: alloc_zeroed_def split: if_splits)

lemma bus_transfer_returns:
  assumes len: "\<And>tx rx r rx' h'. f tx rx (hs_hw st) = (r, rx', h') \<Longrightarrow> length rx' = length rx"
    and tx: "unat tx_ptr + unat tx_len \<le> length mem" and rx: "unat rx_ptr + unat rx_len \<le> length mem"
    and m: "length mem < 4294967296" and a: "returns (alloc_zeroed t (unat rx_len))"
  shows "returns (bus_transfer t f tx_ptr tx_len rx_ptr rx_len mem st)"
proof (cases "hs_memory st")
  case True
  obtain rx where r: "alloc_zeroed t (unat rx_len) = Ok rx" using a by (auto simp: returns_iff)
  let ?tx = "take (unat tx_len) (drop (unat tx_ptr) mem)"
  obtain res rx' h where f: "f ?tx rx (hs_hw st) = (res, rx', h)" by (cases "f ?tx rx (hs_hw st)")
  have l: "length rx' = unat rx_len" using len [OF f] alloc_zeroed_length [OF r] by simp
  have e1: "u32_add t tx_ptr tx_len = Ok (tx_ptr + tx_len)" "unat (tx_ptr + tx_len) = unat tx_ptr + unat tx_len"
    and e2: "u32_add t rx_ptr rx_len = Ok (rx_ptr + rx_len)" "unat (rx_ptr + rx_len) = unat rx_ptr + unat rx_len"
    using assms(2-4) by (simp_all add: u32_add_def unat_u32_add_small)
  show ?thesis
    using True tx \<open>unat rx_ptr + unat rx_len \<le> length mem\<close> l
    by (simp add: bus_transfer_def e1 e2 r f slice_range_def copy_at_def Let_def)
qed (simp add: bus_transfer_no_memory)

context milo_hardware
begin

text \<open>
  Over a backend that keeps the contract, a syscall with pointers inside the guest's memory
  returns: neither the slices nor the copies panic.
\<close>

lemma host_call_returns:
  assumes g: "good (hs_hw st)" and p: "pointers_ok t mem sc" and m: "length mem < 4294967296"
    and t: "32 \<le> usize_bits t"
  shows "returns (host_call t hw ps sc mem st)"
proof (cases sc)
  case (I2cTransfer a b c d e)
  with p m show ?thesis
    by (auto simp: host_call_def sys_i2c_transfer_def pointers_ok_def
        intro!: bus_transfer_returns dest: i2c_length [OF g])
next
  case (SpiTransfer a b c d e)
  with p m show ?thesis
    by (auto simp: host_call_def sys_spi_transfer_def pointers_ok_def
        intro!: bus_transfer_returns dest: spi_length [OF g])
next
  case (LogMsg a b)
  with p m have "unat a + unat b < 4294967296" by (simp add: pointers_ok_def)
  with LogMsg p t show ?thesis
    by (simp add: host_call_def sys_log_msg_def pointers_ok_def Let_def slice_range_def split: option.splits)
next
  case (UartWrite a b c)
  with p m have "unat b + unat c < 4294967296" by (simp add: pointers_ok_def)
  with UartWrite p t show ?thesis
    by (simp add: host_call_def sys_uart_write_def pointers_ok_def Let_def slice_range_def case_prod_beta)
next
  case (UartRead a b c d)
  show ?thesis
  proof (cases "hs_memory st")
    case True
    obtain rx where r: "alloc_zeroed t (unat c) = Ok rx"
      using p UartRead by (auto simp: returns_iff pointers_ok_def)
    obtain n rx' h where f: "hw_uart_read hw a rx d (hs_hw st) = (n, rx', h)"
      by (cases "hw_uart_read hw a rx d (hs_hw st)")
    have "length rx' = unat c" using uart_length [OF g f] alloc_zeroed_length [OF r] by simp
    moreover have "unat b + min (unat n) (unat c) \<le> length mem"
      using p UartRead min.cobounded2 [of "unat n" "unat c"] by (simp add: pointers_ok_def del: min.cobounded2)
    moreover from this m have "usize_add t (unat b) (min (unat n) (unat c))
        = Ok (unat b + min (unat n) (unat c))" using t by simp
    ultimately show ?thesis using UartRead True
      by (simp add: host_call_def sys_uart_read_def pointers_ok_def Let_def r f slice_range_def copy_at_def)
  qed (simp add: host_call_def sys_uart_read_def UartRead)
qed (simp_all add: host_call_def case_prod_beta)

lemma bus_transfer_good:
  assumes "bus_transfer t f tx_ptr tx_len rx_ptr rx_len mem st = Ok (r, mem', st')" and "good (hs_hw st)"
    and "\<And>tx rx r rx' h'. f tx rx (hs_hw st) = (r, rx', h') \<Longrightarrow> good h'"
  shows "good (hs_hw st')"
proof (cases "hs_memory st")
  case True
  show ?thesis by (rule bus_transfer_Ok [OF assms(1) True]) (use assms(3) in auto)
next
  case False
  with assms show ?thesis by (simp add: bus_transfer_no_memory)
qed

lemma host_call_good:
  assumes "host_call t hw ps sc mem st = Ok (r, mem', st')" and g: "good (hs_hw st)"
  shows "good (hs_hw st')"
proof -
  have steps: "good h'" if "hw_step hw (hs_hw st) h'" for h' using stays_good [OF g that] .
  note simple = steps [OF hw_step.gpio_set] steps [OF hw_step.delay_ms] steps [OF hw_step.log] steps [OF hw_step.pwm_set]
  show ?thesis
  proof (cases sc)
    case (I2cTransfer a b c d e)
    with assms(1) have b: "bus_transfer t (hw_i2c_transfer hw (ucast a)) b c d e mem st = Ok (r, mem', st')"
      by (simp add: host_call_def sys_i2c_transfer_def)
    show ?thesis by (rule bus_transfer_good [OF b g]) (auto intro: steps hw_step.intros)
  next
    case (SpiTransfer a b c d e)
    with assms(1) have b: "bus_transfer t (hw_spi_transfer hw a) b c d e mem st = Ok (r, mem', st')"
      by (simp add: host_call_def sys_spi_transfer_def)
    show ?thesis by (rule bus_transfer_good [OF b g]) (auto intro: steps hw_step.intros)
  next
    case (UartRead a b c d)
    then have u: "sys_uart_read t hw a b c d mem st = Ok (r, mem', st')" using assms(1) by (simp add: host_call_def)
    show ?thesis
    proof (cases "hs_memory st")
      case True
      show ?thesis by (rule sys_uart_read_Ok [OF u True]) (auto intro: steps hw_step.intros)
    qed (use u g in \<open>simp add: sys_uart_read_def\<close>)
  next
    case (UartWrite a b c)
    have w: "good (snd (hw_uart_write hw bus d (hs_hw st)))" for bus d
      by (rule steps, rule hw_step.uart_write, rule prod.collapse [symmetric])
    from UartWrite assms(1) g w show ?thesis
      by (auto simp: host_call_def sys_uart_write_def and_then_eq_Ok Let_def case_prod_beta split: if_splits)
  next
    case (LogMsg a b)
    with assms(1) g simple show ?thesis
      by (auto simp: host_call_def sys_log_msg_def and_then_eq_Ok Let_def split: if_splits option.splits)
  qed (use assms simple in \<open>auto simp: host_call_def split: prod.splits
        dest: steps [OF hw_step.gpio_get] steps [OF hw_step.adc_read]\<close>)
qed

end

text \<open>
  The bus transfers do not check the guest's pointers: one byte past the end of a 64 KB
  guest memory panics the receiver in \<open>i2c_transfer\<close> and \<open>spi_transfer\<close>, on every target and
  over every backend, while \<open>uart_write\<close> refuses the same pointer with -1.
\<close>
theorem bus_pointer_panics:
  assumes "length mem = 65536" and "hs_memory st" and "32 \<le> usize_bits t"
  shows "host_call t hw ps (I2cTransfer 0x3C 65536 1 0 0) mem st = Panic
   \<and> host_call t hw ps (SpiTransfer 0 65536 1 0 0) mem st = Panic
   \<and> host_call t hw ps (UartWrite 0 65536 1) mem st = Ok (RetI32 (-1), mem, st)"
  using assms
  by (simp add: host_call_def sys_i2c_transfer_def sys_spi_transfer_def bus_transfer_def u32_add_def
      slice_range_past_end sys_uart_write_def Let_def)

theorem bus_pointer_panics_witness:
  "host_call rp2040_release laptop_mock PARAM_SLOTS (I2cTransfer 0x3C 65536 1 0 0) (replicate 65536 0)
     \<lparr>hs_hw = new_mock, hs_memory = True, hs_logs = []\<rparr> = Panic"
  using bus_pointer_panics [of "replicate 65536 0" "\<lparr>hs_hw = new_mock, hs_memory = True, hs_logs = []\<rparr>"
      rp2040_release laptop_mock PARAM_SLOTS]
  by (simp only: length_replicate host_state.simps rp2040_release_def target.simps simp_thms order.refl)

text \<open>
  On the 32-bit boards in a release build the bounds check of \<open>log_msg\<close> itself wraps: a
  pointer near the top of the address space passes it and the slice panics; the laptop's
  64-bit arithmetic ignores the same call.
\<close>
theorem log_msg_wrap_panics:
  assumes "length mem = 65536" and "hs_memory st"
  shows "host_call esp32c3_release hw ps (LogMsg 0xFFFFFFF0 0x20) mem st = Panic
   \<and> host_call laptop_release hw ps (LogMsg 0xFFFFFFF0 0x20) mem st = Ok (RetUnit, mem, st)"
  using assms
  by (simp add: host_call_def sys_log_msg_def slice_range_reversed usize_add_def laptop_release_def
      esp32c3_release_def Let_def)

theorem log_msg_wrap_panics_witness:
  "host_call esp32c3_release laptop_mock PARAM_SLOTS (LogMsg 0xFFFFFFF0 0x20) (replicate 65536 0)
     \<lparr>hs_hw = new_mock, hs_memory = True, hs_logs = []\<rparr> = Panic"
  using log_msg_wrap_panics [of "replicate 65536 0" "\<lparr>hs_hw = new_mock, hs_memory = True, hs_logs = []\<rparr>"
      laptop_mock PARAM_SLOTS]
  by (simp only: length_replicate host_state.simps simp_thms)

end
