(* ===== verification/Fuel.thy ===== *)
theory Fuel
  imports Prelude
begin

text \<open>
  Gas metering: \<open>patches/wasmi_core/src/fuel.rs\<close>, the counter the receiver's runtime arms
  with its fuel budget. The cost tables with their defaults, the errors, and the counter
  with its checked and unchecked consumption. A \<open>&dyn FuelCosts\<close> is a record of its answers.
\<close>

section \<open>Costs\<close>

record fuel_costs =
  cost_base :: u64
  cost_load :: u64
  cost_instance :: u64
  cost_store :: u64
  cost_call :: u64
  cost_simd :: u64
  cost_bytes_per_fuel :: u64

text \<open>The trait's default methods answer with the base cost.\<close>

definition fuel_costs_of_base :: "u64 \<Rightarrow> u64 \<Rightarrow> fuel_costs" where
  "fuel_costs_of_base base bytes_per_fuel =
     \<lparr>cost_base = base, cost_load = base, cost_instance = base, cost_store = base,
      cost_call = base, cost_simd = base, cost_bytes_per_fuel = bytes_per_fuel\<rparr>"

definition default_fuel_costs :: fuel_costs where
  "default_fuel_costs = fuel_costs_of_base 1 64"

record fuel_costs_provider =
  custom :: "fuel_costs option"

definition provider_apply :: "(fuel_costs \<Rightarrow> u64) \<Rightarrow> fuel_costs_provider \<Rightarrow> u64" where
  "provider_apply f p = (case custom p of Some c \<Rightarrow> f c | None \<Rightarrow> f default_fuel_costs)"

definition provider_bytes_per_fuel :: "fuel_costs_provider \<Rightarrow> u64" where
  "provider_bytes_per_fuel p = (case custom p of
     Some c \<Rightarrow> cost_bytes_per_fuel c | None \<Rightarrow> cost_bytes_per_fuel default_fuel_costs)"

definition fuel_for_copying_bytes :: "fuel_costs_provider \<Rightarrow> u64 \<Rightarrow> u64" where
  "fuel_for_copying_bytes p len_bytes = len_bytes div provider_bytes_per_fuel p"

definition saturating_mul :: "u64 \<Rightarrow> u64 \<Rightarrow> u64" where
  "saturating_mul a b =
     (if unat a * unat b < 2 ^ 64 then a * b else 0xFFFFFFFFFFFFFFFF)"

definition fuel_for_copying_values :: "nat \<Rightarrow> fuel_costs_provider \<Rightarrow> u64 \<Rightarrow> u64" where
  "fuel_for_copying_values size_of_val p len_values =
     (if size_of_val < 2 ^ 64
      then fuel_for_copying_bytes p (saturating_mul len_values (word_of_nat size_of_val))
      else 0xFFFFFFFFFFFFFFFF)"

section \<open>Errors\<close>

datatype fuel_error = FuelMeteringDisabled | OutOfFuel (required_fuel: u64)

definition fuel_error_display :: "fuel_error \<Rightarrow> string" where
  "fuel_error_display e = (case e of
     FuelMeteringDisabled \<Rightarrow> ''fuel metering is disabled''
   | OutOfFuel r \<Rightarrow> ''ouf of fuel. required='' @ dec (unat r))"

section \<open>The counter\<close>

record fuel =
  remaining :: u64
  enabled :: bool
  costs :: fuel_costs_provider

definition new_fuel :: "bool \<Rightarrow> fuel_costs_provider \<Rightarrow> fuel" where
  "new_fuel en c = \<lparr>remaining = 0, enabled = en, costs = c\<rparr>"

definition check_fuel_metering_enabled :: "fuel \<Rightarrow> fuel_error + unit" where
  "check_fuel_metering_enabled f = (if \<not> enabled f then Inl FuelMeteringDisabled else Inr ())"

definition set_fuel :: "u64 \<Rightarrow> fuel \<Rightarrow> (fuel_error + unit) \<times> fuel" where
  "set_fuel n f = (case check_fuel_metering_enabled f of
     Inl e \<Rightarrow> (Inl e, f) | Inr _ \<Rightarrow> (Inr (), f\<lparr>remaining := n\<rparr>))"

definition get_fuel :: "fuel \<Rightarrow> fuel_error + u64" where
  "get_fuel f = (case check_fuel_metering_enabled f of
     Inl e \<Rightarrow> Inl e | Inr _ \<Rightarrow> Inr (remaining f))"

definition consume_fuel_unchecked :: "u64 \<Rightarrow> fuel \<Rightarrow> (fuel_error + u64) \<times> fuel" where
  "consume_fuel_unchecked delta f =
     (if delta \<le> remaining f
      then (Inr (remaining f - delta), f\<lparr>remaining := remaining f - delta\<rparr>)
      else (Inl (OutOfFuel delta), f))"

definition consume_fuel :: "(fuel_costs_provider \<Rightarrow> u64) \<Rightarrow> fuel \<Rightarrow> (fuel_error + u64) \<times> fuel" where
  "consume_fuel g f = (case check_fuel_metering_enabled f of
     Inl e \<Rightarrow> (Inl e, f) | Inr _ \<Rightarrow> consume_fuel_unchecked (g (costs f)) f)"

definition consume_fuel_if :: "(fuel_costs_provider \<Rightarrow> u64) \<Rightarrow> fuel \<Rightarrow> (fuel_error + unit) \<times> fuel" where
  "consume_fuel_if g f =
     (if \<not> enabled f then (Inr (), f)
      else (case consume_fuel_unchecked (g (costs f)) f of
              (Inl e, f) \<Rightarrow> (Inl e, f) | (Inr _, f) \<Rightarrow> (Inr (), f)))"

section \<open>Lemmas\<close>

lemma consume_fuel_if_Inr:
  "consume_fuel_if g f = (Inr (), f') \<Longrightarrow>
     enabled f' = enabled f \<and> costs f' = costs f \<and>
     (if enabled f then unat (remaining f) = unat (remaining f') + unat (g (costs f)) else f' = f)"
  by (auto simp: consume_fuel_if_def consume_fuel_unchecked_def word_le_nat_alt unat_sub
      split: if_splits)

lemma consume_fuel_if_Inl:
  "consume_fuel_if g f = (Inl e, f') \<Longrightarrow>
     f' = f \<and> enabled f \<and> e = OutOfFuel (g (costs f)) \<and> unat (remaining f) < unat (g (costs f))"
  by (auto simp: consume_fuel_if_def consume_fuel_unchecked_def word_le_nat_alt split: if_splits)

text \<open>A run of charges, stopping at the first that cannot be paid.\<close>

fun charge_all :: "u64 list \<Rightarrow> fuel \<Rightarrow> (fuel_error + unit) \<times> fuel" where
  "charge_all [] f = (Inr (), f)"
| "charge_all (c # cs) f = (case consume_fuel (\<lambda>_. c) f of
     (Inl e, f) \<Rightarrow> (Inl e, f) | (Inr _, f) \<Rightarrow> charge_all cs f)"

lemma consume_fuel_enabled:
  "enabled f \<Longrightarrow> consume_fuel (\<lambda>_. c) f =
     (if unat c \<le> unat (remaining f)
      then (Inr (remaining f - c), f\<lparr>remaining := remaining f - c\<rparr>) else (Inl (OutOfFuel c), f))"
  by (simp add: consume_fuel_def check_fuel_metering_enabled_def consume_fuel_unchecked_def
      word_le_nat_alt)

text \<open>
  With metering enabled, a sequence of charges succeeds exactly when the budget covers
  their sum as natural numbers, with no wrap-around, and then leaves the difference.
\<close>
theorem fuel_conservation:
  assumes "enabled f"
  shows "(fst (charge_all cs f) = Inr ()) = (sum_list (map unat cs) \<le> unat (remaining f))
    \<and> (sum_list (map unat cs) \<le> unat (remaining f) \<longrightarrow>
         unat (remaining (snd (charge_all cs f))) + sum_list (map unat cs) = unat (remaining f))
    \<and> unat (remaining (snd (charge_all cs f))) \<le> unat (remaining f)"
  using assms
proof (induction cs arbitrary: f)
  case Nil
  then show ?case by simp
next
  case (Cons c cs)
  show ?case
  proof (cases "unat c \<le> unat (remaining f)")
    case True
    let ?f = "f\<lparr>remaining := remaining f - c\<rparr>"
    have u: "unat (remaining f - c) = unat (remaining f) - unat c"
      using True by (simp add: unat_sub word_le_nat_alt)
    have "charge_all (c # cs) f = charge_all cs ?f"
      using Cons.prems True by (simp add: consume_fuel_enabled)
    moreover have "enabled ?f" using Cons.prems by simp
    ultimately show ?thesis using Cons.IH [of ?f] u True by simp linarith
  next
    case False
    then show ?thesis using Cons.prems by (simp add: consume_fuel_enabled)
  qed
qed

theorem fuel_conservation_witness:
  "let f = \<lparr>remaining = 10, enabled = True, costs = \<lparr>custom = None\<rparr>\<rparr>
   in fst (charge_all [4, 5] f) = Inr () \<and> unat (remaining (snd (charge_all [4, 5] f))) = 1"
proof -
  let ?f = "\<lparr>remaining = 10, enabled = True, costs = \<lparr>custom = None\<rparr>\<rparr>"
  have "enabled ?f" by simp
  from fuel_conservation [OF this, of "[4, 5]"] show ?thesis by simp
qed

end
