(* ===== verification/Runtime.thy ===== *)
theory Runtime
  imports Syscalls Fuel
begin

text \<open>
  The wasm runtime of \<open>receiver/src/lib.rs\<close>: \<open>MiloError\<close>, \<open>MiloRuntime::new\<close>, \<open>execute\<close> and
  \<open>into_hardware\<close>. The wasm engine itself is a parameter: what it answers to parsing and instantiating a module, and
  what an entered function does next (finish, trap, work for some fuel, call a syscall).
\<close>

section \<open>Errors\<close>

datatype milo_error =
    ModuleInvalid string
  | MissingExport string
  | FuelExhausted
  | Trapped string

definition milo_error_display :: "milo_error \<Rightarrow> string" where
  "milo_error_display e = (case e of
     ModuleInvalid t \<Rightarrow> ''invalid wasm module: '' @ t
   | MissingExport name \<Rightarrow> ''missing export: '' @ name
   | FuelExhausted \<Rightarrow> ''fuel exhausted (gas limit reached)''
   | Trapped t \<Rightarrow> ''execution trapped: '' @ t)"

section \<open>The wasm engine\<close>

datatype 'g guest_event =
    Finished 'g
  | Trap string
  | Work u64 'g
  | HostCall syscall "sysret \<Rightarrow> 'g"

record ('m, 'g) wasm_engine =
  parse_module :: "bytes \<Rightarrow> string + 'm"
  instantiate :: "(string \<times> string) list \<Rightarrow> 'm \<Rightarrow> string + 'g"
  enter_start :: "'g \<Rightarrow> 'g option"
  exports_memory :: "'g \<Rightarrow> bool"
  enter_export :: "string \<Rightarrow> 'g \<Rightarrow> 'g option"
  next_event :: "'g \<Rightarrow> 'g guest_event"
  guest_memory :: "'g \<Rightarrow> bytes"
  with_memory :: "bytes \<Rightarrow> 'g \<Rightarrow> 'g"

record ('m, 'g, 'h) machine =
  mc_target :: target
  mc_engine :: "('m, 'g) wasm_engine"
  mc_hw :: "'h hardware"

text \<open>The trap the engine raises when a charge cannot be paid (\<open>TrapCode::OutOfFuel\<close>).\<close>

definition out_of_fuel_text :: string where
  "out_of_fuel_text = ''all fuel consumed by WebAssembly''"

text \<open>
  The parameter slots may be written while a module runs, so an entered function sees a trace
  of them: what its k-th step finds there.
\<close>

type_synonym param_trace = "nat \<Rightarrow> params"

partial_function (option) run_guest ::
  "('m, 'g, 'h) machine \<Rightarrow> param_trace \<Rightarrow> fuel \<Rightarrow> 'g \<Rightarrow> 'h host_state \<Rightarrow>
   ((string + 'g) \<times> fuel \<times> 'h host_state) outcome option" where
  "run_guest mc ps fu g st =
     (case next_event (mc_engine mc) g of
        Finished g' \<Rightarrow> Some (Ok (Inr g', fu, st))
      | Trap msg \<Rightarrow> Some (Ok (Inl msg, fu, st))
      | Work c g' \<Rightarrow>
          (case consume_fuel_if (\<lambda>_. c) fu of
             (Inl e, fu') \<Rightarrow> Some (Ok (Inl out_of_fuel_text, fu', st))
           | (Inr _, fu') \<Rightarrow> run_guest mc (\<lambda>k. ps (Suc k)) fu' g' st)
      | HostCall sc k \<Rightarrow>
          (case consume_fuel_if (\<lambda>c. provider_apply cost_call c) fu of
             (Inl e, fu') \<Rightarrow> Some (Ok (Inl out_of_fuel_text, fu', st))
           | (Inr _, fu') \<Rightarrow>
               (case host_call (mc_target mc) (mc_hw mc) (ps 0) sc (guest_memory (mc_engine mc) g) st of
                  Ok (r, mem, st') \<Rightarrow> run_guest mc (\<lambda>k. ps (Suc k)) fu' (with_memory (mc_engine mc) mem (k r)) st'
                | Panic \<Rightarrow> Some Panic
                | Diverges \<Rightarrow> Some Diverges)))"

definition call_guest ::
  "('m, 'g, 'h) machine \<Rightarrow> param_trace \<Rightarrow> fuel \<Rightarrow> 'g \<Rightarrow> 'h host_state \<Rightarrow>
   ((string + 'g) \<times> fuel \<times> 'h host_state) outcome" where
  "call_guest mc ps fu g st = (case run_guest mc ps fu g st of Some r \<Rightarrow> r | None \<Rightarrow> Diverges)"

section \<open>MiloRuntime\<close>

record 'h runtime =
  rt_fuel :: fuel
  rt_host :: "'h host_state"

definition new_runtime :: "'h \<Rightarrow> u64 option \<Rightarrow> 'h runtime" where
  "new_runtime hw fuel_opt =
     (let fu = new_fuel (fuel_opt \<noteq> None) \<lparr>custom = None\<rparr>;
          host = \<lparr>hs_hw = hw, hs_memory = False, hs_logs = []\<rparr>
      in \<lparr>rt_fuel = (case fuel_opt of Some amount \<Rightarrow> snd (set_fuel amount fu) | None \<Rightarrow> fu),
          rt_host = host\<rparr>)"

fun str_contains :: "string \<Rightarrow> string \<Rightarrow> bool" where
  "str_contains [] needle = (needle = [])"
| "str_contains (c # cs) needle =
     (take (length needle) (c # cs) = needle \<or> str_contains cs needle)"

definition wasm_error :: "string \<Rightarrow> milo_error" where
  "wasm_error msg = (if str_contains msg ''fuel'' then FuelExhausted else Trapped msg)"

definition instantiate_and_start ::
  "('m, 'g, 'h) machine \<Rightarrow> param_trace \<Rightarrow> 'm \<Rightarrow> 'h runtime \<Rightarrow> ((string + 'g) \<times> 'h runtime) outcome" where
  "instantiate_and_start mc ps m rt =
     (case instantiate (mc_engine mc) linker_definitions m of
        Inl e \<Rightarrow> Ok (Inl e, rt)
      | Inr g \<Rightarrow>
          (case enter_start (mc_engine mc) g of
             None \<Rightarrow> Ok (Inr g, rt)
           | Some g' \<Rightarrow>
               and_then (call_guest mc ps (rt_fuel rt) g' (rt_host rt)) (\<lambda>(r, fu, st).
                 Ok (r, \<lparr>rt_fuel = fu, rt_host = st\<rparr>))))"

definition execute ::
  "('m, 'g, 'h) machine \<Rightarrow> param_trace \<Rightarrow> param_trace \<Rightarrow> bytes \<Rightarrow> string \<Rightarrow> 'h runtime \<Rightarrow>
   ((milo_error + string list) \<times> 'h runtime) outcome" where
  "execute mc ps_start ps wasm_bytes export rt =
     (let rt = rt\<lparr>rt_host := (rt_host rt)\<lparr>hs_logs := [], hs_memory := False\<rparr>\<rparr> in
      case parse_module (mc_engine mc) wasm_bytes of
        Inl e \<Rightarrow> Ok (Inl (ModuleInvalid e), rt)
      | Inr m \<Rightarrow>
          and_then (instantiate_and_start mc ps_start m rt) (\<lambda>(r, rt).
            case r of
              Inl e \<Rightarrow> Ok (Inl (wasm_error e), rt)
            | Inr g \<Rightarrow>
                let rt = (if exports_memory (mc_engine mc) g
                          then rt\<lparr>rt_host := (rt_host rt)\<lparr>hs_memory := True\<rparr>\<rparr> else rt)
                in case enter_export (mc_engine mc) export g of
                     None \<Rightarrow> Ok (Inl (MissingExport export), rt)
                   | Some g' \<Rightarrow>
                       and_then (call_guest mc ps (rt_fuel rt) g' (rt_host rt)) (\<lambda>(r, fu, st).
                         let rt = \<lparr>rt_fuel = fu, rt_host = st\<rparr> in
                         case r of
                           Inl e \<Rightarrow> Ok (Inl (wasm_error e), rt)
                         | Inr _ \<Rightarrow> Ok (Inr (hs_logs st), rt))))"

definition into_hardware :: "'h runtime \<Rightarrow> 'h" where
  "into_hardware rt = hs_hw (rt_host rt)"

section \<open>Metered runs return\<close>

lemma host_call_not_Diverges [simp]: "host_call t hw ps sc mem st \<noteq> Diverges"
  by (cases sc)
    (auto simp: host_call_def sys_i2c_transfer_def sys_spi_transfer_def bus_transfer_def
      sys_log_msg_def sys_uart_write_def sys_uart_read_def and_then_eq_Diverges Let_def
      u32_add_def usize_add_def slice_range_def copy_at_def alloc_zeroed_def
      split: if_splits option.splits prod.splits)

text \<open>
  The contract of metering: an engine charges at least one unit of fuel for every piece of work it reports.
  For the code its translator emits this is \<open>metered\<close> in \<open>Metered_Code\<close>: every entry of a function and every
  jump back lands on a charge.
\<close>

definition charges :: "('m, 'g) wasm_engine \<Rightarrow> bool" where
  "charges e \<longleftrightarrow> (\<forall>g c g'. next_event e g = Work c g' \<longrightarrow> 0 < c)"

text \<open>No syscall the guests of an engine make panics the receiver, on any state of the hardware.\<close>

definition syscalls_return :: "('m, 'g, 'h) machine \<Rightarrow> bool" where
  "syscalls_return mc \<longleftrightarrow>
     (\<forall>g sc k ps st. next_event (mc_engine mc) g = HostCall sc k
        \<longrightarrow> host_call (mc_target mc) (mc_hw mc) ps sc (guest_memory (mc_engine mc) g) st \<noteq> Panic)"

definition metered :: "fuel \<Rightarrow> bool" where
  "metered fu \<longleftrightarrow> enabled fu \<and> custom (costs fu) = None"

lemma metered_new_runtime: "metered (rt_fuel (new_runtime hw (Some n)))"
  by (simp add: metered_def new_runtime_def new_fuel_def set_fuel_def check_fuel_metering_enabled_def Let_def)

lemma charge_metered:
  assumes "consume_fuel_if f fu = (Inr (), fu')" and "metered fu" and "0 < f (costs fu)"
  shows "unat (remaining fu') < unat (remaining fu) \<and> metered fu'"
proof -
  have "0 < unat (f (costs fu))" using assms(3) by (simp add: word_gt_0 unat_gt_0)
  with consume_fuel_if_Inr [OF assms(1)] assms(2) show ?thesis
    by (auto simp: metered_def split: if_splits)
qed

lemma call_cost_metered: "metered fu \<Longrightarrow> provider_apply cost_call (costs fu) = 1"
  by (simp add: metered_def provider_apply_def default_fuel_costs_def fuel_costs_of_base_def)

lemma run_guest_metered:
  assumes "charges (mc_engine mc)" and "metered fu"
  shows "\<exists>r. run_guest mc ps fu g st = Some r \<and> r \<noteq> Diverges \<and> (r = Panic \<longrightarrow> \<not> syscalls_return mc)
           \<and> (\<forall>x fu' st'. r = Ok (x, fu', st') \<longrightarrow> metered fu' \<and> unat (remaining fu') \<le> unat (remaining fu))"
  using assms(2)
proof (induction "unat (remaining fu)" arbitrary: ps fu g st rule: less_induct)
  case less
  note unfold = run_guest.simps [of mc ps fu g st]
  have step: "\<exists>r. run_guest mc ps' fu' g' st' = Some r \<and> r \<noteq> Diverges \<and> (r = Panic \<longrightarrow> \<not> syscalls_return mc)
       \<and> (\<forall>x f s. r = Ok (x, f, s) \<longrightarrow> metered f \<and> unat (remaining f) \<le> unat (remaining fu))"
    if "consume_fuel_if f fu = (Inr (), fu')" "0 < f (costs fu)" for f fu' ps' g' st'
  proof -
    from charge_metered [OF that(1) less.prems that(2)]
    have "unat (remaining fu') < unat (remaining fu)" "metered fu'" by auto
    from less.hyps [OF this, of ps' g' st'] \<open>unat (remaining fu') < _\<close> show ?thesis by fastforce
  qed
  have stop: "metered fu' \<and> unat (remaining fu') \<le> unat (remaining fu)"
    if "consume_fuel_if f fu = (Inl e, fu')" for f e fu'
    using consume_fuel_if_Inl [OF that] less.prems by simp
  show ?case
  proof (cases "next_event (mc_engine mc) g")
    case (Finished g')
    with less.prems show ?thesis by (simp add: unfold)
  next
    case (Trap msg)
    with less.prems show ?thesis by (simp add: unfold)
  next
    case (Work c g')
    then have "0 < c" using assms(1) by (auto simp: charges_def)
    with Work step [of "\<lambda>_. c"] stop [of "\<lambda>_. c"] show ?thesis
      by (auto simp: unfold split: prod.split sum.split)
  next
    case (HostCall sc k)
    let ?f = "\<lambda>c. provider_apply cost_call c"
    have "0 < ?f (costs fu)" using call_cost_metered [OF less.prems] by simp
    moreover have "\<not> syscalls_return mc"
      if "host_call (mc_target mc) (mc_hw mc) ps' sc (guest_memory (mc_engine mc) g) st = Panic" for ps'
      using that HostCall unfolding syscalls_return_def by blast
    ultimately show ?thesis using HostCall step [of ?f] stop [of ?f]
      by (auto simp: unfold split: prod.split sum.split outcome.split)
  qed
qed

lemma call_guest_metered:
  assumes "charges (mc_engine mc)" and "metered fu"
  shows "call_guest mc ps fu g st \<noteq> Diverges" and "call_guest mc ps fu g st = Panic \<Longrightarrow> \<not> syscalls_return mc"
    and "call_guest mc ps fu g st = Ok (x, fu', st') \<Longrightarrow>
           metered fu' \<and> unat (remaining fu') \<le> unat (remaining fu)"
  using run_guest_metered [OF assms, of ps g st] by (auto simp: call_guest_def)

definition bounded_run :: "bool \<Rightarrow> u64 \<Rightarrow> ('a \<times> 'h runtime) outcome \<Rightarrow> bool" where
  "bounded_run may_panic budget r = (case r of
     Ok (x, rt) \<Rightarrow> metered (rt_fuel rt) \<and> unat (remaining (rt_fuel rt)) \<le> unat budget
   | Panic \<Rightarrow> may_panic | Diverges \<Rightarrow> False)"

lemma bounded_run_simps [simp]:
  "bounded_run may_panic budget (Ok (x, rt)) \<longleftrightarrow> metered (rt_fuel rt) \<and> unat (remaining (rt_fuel rt)) \<le> unat budget"
  "bounded_run may_panic budget Panic = may_panic" "\<not> bounded_run may_panic budget Diverges"
  by (simp_all add: bounded_run_def)

lemma bounded_run_and_then:
  assumes "bounded_run may_panic budget m"
    and "\<And>x rt. bounded_run may_panic budget (Ok (x, rt)) \<Longrightarrow> bounded_run may_panic budget (f (x, rt))"
  shows "bounded_run may_panic budget (and_then m f)"
  using assms by (cases m) (auto simp: bounded_run_def)

lemma call_guest_bounded:
  assumes "charges (mc_engine mc)" and "metered fu" and "unat (remaining fu) \<le> unat budget"
    and "\<And>x fu' st'. metered fu' \<Longrightarrow> unat (remaining fu') \<le> unat budget \<Longrightarrow> bounded_run (\<not> syscalls_return mc) budget (f (x, fu', st'))"
  shows "bounded_run (\<not> syscalls_return mc) budget (and_then (call_guest mc ps fu g st) f)"
proof (cases "call_guest mc ps fu g st")
  case (Ok y)
  obtain x fu' st' where y: "y = (x, fu', st')" by (cases y)
  with call_guest_metered(3) [OF assms(1,2)] Ok have "metered fu'" "unat (remaining fu') \<le> unat (remaining fu)"
    by blast+
  with assms(3,4) show ?thesis by (simp add: Ok y)
next
  case Diverges
  with call_guest_metered(1) [OF assms(1,2)] show ?thesis by blast
next
  case Panic
  with call_guest_metered(2) [OF assms(1,2)] show ?thesis by simp
qed

lemma execute_bounded:
  assumes "charges (mc_engine mc)" and "metered (rt_fuel rt)" and "unat (remaining (rt_fuel rt)) \<le> unat budget"
  shows "bounded_run (\<not> syscalls_return mc) budget (execute mc ps_start ps wasm_bytes export rt)"
proof -
  have start: "bounded_run (\<not> syscalls_return mc) budget (instantiate_and_start mc ps_start m rt')"
    if "rt_fuel rt' = rt_fuel rt" for m rt'
    using assms that
    by (auto simp: instantiate_and_start_def intro!: call_guest_bounded split: sum.split option.split)
  show ?thesis
    unfolding execute_def Let_def
    using assms
    by (auto intro!: bounded_run_and_then start call_guest_bounded split: sum.split option.split if_splits
        simp del: bounded_run_simps(1)) (simp_all)
qed


text \<open>A module that spins, for an engine whose instances are their memories.\<close>

definition spinning_engine :: "(unit, bytes) wasm_engine" where
  "spinning_engine = \<lparr>
     parse_module = (\<lambda>bs. if bs = [] then Inl ''empty'' else Inr ()),
     instantiate = (\<lambda>imports m. Inr []),
     enter_start = (\<lambda>g. None),
     exports_memory = (\<lambda>g. True),
     enter_export = (\<lambda>name g. if name = ''run'' then Some g else None),
     next_event = (\<lambda>g. Work 1 g),
     guest_memory = (\<lambda>g. g),
     with_memory = (\<lambda>mem g. mem)\<rparr>"

definition spinning_machine :: "(unit, bytes, mock) machine" where
  "spinning_machine = \<lparr>mc_target = esp32c3_release, mc_engine = spinning_engine, mc_hw = laptop_mock\<rparr>"

text \<open>
  A module that blinks forever: it works for five units, sets the pin by a syscall, works again and
  clears it. Its state is where it is in this round.
\<close>

definition blinking_engine :: "(unit, nat) wasm_engine" where
  "blinking_engine = \<lparr>
     parse_module = (\<lambda>bs. if bs = [] then Inl ''empty'' else Inr ()),
     instantiate = (\<lambda>imports m. if (''env'', ''gpio_set'') \<in> set imports then Inr 0 else Inl ''cannot find gpio_set''),
     enter_start = (\<lambda>g. None),
     exports_memory = (\<lambda>g. False),
     enter_export = (\<lambda>name g. if name = ''run'' then Some g else None),
     next_event = (\<lambda>g.
       if g = 0 then Work 5 1 else if g = 1 then HostCall (GpioSet 25 1) (\<lambda>_. 2)
       else if g = 2 then Work 5 3 else HostCall (GpioSet 25 0) (\<lambda>_. 0)),
     guest_memory = (\<lambda>g. []),
     with_memory = (\<lambda>mem g. g)\<rparr>"

definition blinking_machine :: "(unit, nat, mock) machine" where
  "blinking_machine = \<lparr>mc_target = rp2040_release, mc_engine = blinking_engine, mc_hw = laptop_mock\<rparr>"


lemma run_guest_spins:
  assumes "next_event (mc_engine mc) g = Work c g" and "\<not> enabled fu"
  shows "run_guest mc ps fu g st = None"
proof (rule ccontr)
  assume "run_guest mc ps fu g st \<noteq> None"
  then obtain r where "run_guest mc ps fu g st = Some r" by blast
  then have "mc = mc \<longrightarrow> fu = fu \<longrightarrow> g \<noteq> g"
  proof (rule run_guest.raw_induct
      [where P = "\<lambda>mc' ps' fu' g' st' r'. mc' = mc \<longrightarrow> fu' = fu \<longrightarrow> g' \<noteq> g", rotated])
    fix rec mc' ps' fu' g' st' r'
    assume IH: "\<And>mc' ps' fu' g' st' r'. rec mc' ps' fu' g' st' = Some r' \<Longrightarrow>
        mc' = mc \<longrightarrow> fu' = fu \<longrightarrow> g' \<noteq> g"
      and eq: "(case next_event (mc_engine mc') g' of
        Finished g'' \<Rightarrow> Some (Ok (Inr g'', fu', st'))
      | Trap msg \<Rightarrow> Some (Ok (Inl msg, fu', st'))
      | Work c g'' \<Rightarrow>
          (case consume_fuel_if (\<lambda>_. c) fu' of
             (Inl e, fu'') \<Rightarrow> Some (Ok (Inl out_of_fuel_text, fu'', st'))
           | (Inr _, fu'') \<Rightarrow> rec mc' (\<lambda>k. ps' (Suc k)) fu'' g'' st')
      | HostCall sc k \<Rightarrow>
          (case consume_fuel_if (\<lambda>c. provider_apply cost_call c) fu' of
             (Inl e, fu'') \<Rightarrow> Some (Ok (Inl out_of_fuel_text, fu'', st'))
           | (Inr _, fu'') \<Rightarrow>
               (case host_call (mc_target mc') (mc_hw mc') (ps' 0) sc (guest_memory (mc_engine mc') g') st' of
                  Ok (r, mem, st'') \<Rightarrow>
                    rec mc' (\<lambda>k. ps' (Suc k)) fu'' (with_memory (mc_engine mc') mem (k r)) st''
                | Panic \<Rightarrow> Some Panic
                | Diverges \<Rightarrow> Some Diverges))) = Some r'"
    show "mc' = mc \<longrightarrow> fu' = fu \<longrightarrow> g' \<noteq> g"
      using eq assms by (auto simp: consume_fuel_if_def dest: IH)
  qed
  then show False by simp
qed

text \<open>
  Without a budget (the \<open>None\<close> a caller may pass to \<open>MiloRuntime::new\<close>) nothing stops a
  spinning module: the same call never returns.
\<close>
theorem execute_unmetered_spins:
  "execute spinning_machine (\<lambda>_. PARAM_SLOTS) (\<lambda>_. PARAM_SLOTS) [1] ''run'' (new_runtime new_mock None) = Diverges"
proof -
  have "run_guest spinning_machine (\<lambda>_. PARAM_SLOTS) (rt_fuel (new_runtime new_mock None)) [] st = None" for st
    by (rule run_guest_spins [where c = 1])
      (simp_all add: spinning_machine_def spinning_engine_def new_runtime_def new_fuel_def Let_def)
  then show ?thesis
    by (simp add: execute_def instantiate_and_start_def spinning_machine_def spinning_engine_def
        call_guest_def Let_def)
qed

section \<open>Results and their logs\<close>

text \<open>
  What a run returns does not depend on what earlier runs left in the host state: the
  log buffer and the memory handle are reset on entry.
\<close>
theorem execute_forgets_previous_run:
  "execute mc ps_start ps wasm_bytes export
     \<lparr>rt_fuel = fu, rt_host = \<lparr>hs_hw = h, hs_memory = m, hs_logs = ls\<rparr>\<rparr>
   = execute mc ps_start ps wasm_bytes export
       \<lparr>rt_fuel = fu, rt_host = \<lparr>hs_hw = h, hs_memory = False, hs_logs = []\<rparr>\<rparr>"
  by (simp add: execute_def)

text \<open>
  The runtime tells fuel exhaustion from other failures by looking for the word in the
  error's text, so a module that fails to link for a reason whose text contains \<open>fuel\<close> (the
  name of the import that is missing) is reported as out of fuel with its budget untouched.
\<close>
theorem link_error_read_as_fuel:
  assumes "parse_module (mc_engine mc) wasm_bytes = Inr m"
    and "instantiate (mc_engine mc) linker_definitions m = Inl msg" and "str_contains msg ''fuel''"
  shows "\<exists>rt'. execute mc ps_start ps wasm_bytes export rt = Ok (Inl FuelExhausted, rt')
           \<and> rt_fuel rt' = rt_fuel rt"
  using assms by (simp add: execute_def instantiate_and_start_def wasm_error_def)

theorem link_error_read_as_fuel_witness:
  "\<exists>rt'. execute \<lparr>mc_target = esp32c3_release,
       mc_engine = spinning_engine\<lparr>instantiate := \<lambda>imports m. Inl ''cannot find definition for import env::refuel''\<rparr>,
       mc_hw = laptop_mock\<rparr> (\<lambda>_. PARAM_SLOTS) (\<lambda>_. PARAM_SLOTS) [1] ''run''
       (new_runtime new_mock (Some 500)) = Ok (Inl FuelExhausted, rt')
     \<and> rt_fuel rt' = rt_fuel (new_runtime new_mock (Some 500))"
  by (rule link_error_read_as_fuel [where m = "()" and msg = "''cannot find definition for import env::refuel''"])
    (simp_all add: spinning_engine_def)

end
