(* ===== verification/Executor.thy ===== *)
theory Executor
  imports Runtime
begin

text \<open>
  The executor interface of \<open>receiver/src/engine/executor.rs\<close> (\<open>MiloExecutor\<close>) and the single-core
  executor. A module run is what every executor does with the hardware it took: create a
  runtime, execute \<open>run_logic\<close>, take the hardware back. The executors are given the run as a
  function, since what it computes depends on the parameter writes that happen during it.
\<close>

section \<open>Results and the interface\<close>

record exec_result =
  er_ok :: bool
  er_logs :: "string list"
  er_error :: "string option"

datatype exec_status = Idle | Running | Completed | Stopped

type_synonym 'h run = "u64 option \<Rightarrow> bytes \<Rightarrow> 'h \<Rightarrow> ('h \<times> exec_result) outcome"

definition failure :: "string \<Rightarrow> exec_result" where
  "failure msg = \<lparr>er_ok = False, er_logs = [], er_error = Some msg\<rparr>"

definition result_of :: "milo_error + string list \<Rightarrow> exec_result" where
  "result_of r = (case r of
     Inr logs \<Rightarrow> \<lparr>er_ok = True, er_logs = logs, er_error = None\<rparr>
   | Inl e \<Rightarrow> failure (milo_error_display e))"

definition run_module ::
  "('m, 'g, 'h) machine \<Rightarrow> param_trace \<Rightarrow> param_trace \<Rightarrow> 'h run" where
  "run_module mc ps_start ps fuel_opt bytecode hw =
     and_then (execute mc ps_start ps bytecode ''run_logic'' (new_runtime hw fuel_opt)) (\<lambda>(r, rt).
       Ok (into_hardware rt, result_of r))"

record ('e, 'h) executor =
  ex_submit :: "'h run \<Rightarrow> bytes \<Rightarrow> 'e \<Rightarrow> 'e outcome"
  ex_poll_result :: "'e \<Rightarrow> (exec_result option \<times> 'e) outcome"
  ex_is_running :: "'e \<Rightarrow> bool"
  ex_stop :: "'e \<Rightarrow> 'e"
  ex_status :: "'e \<Rightarrow> exec_status"
  ex_take_hardware :: "'e \<Rightarrow> ('h option \<times> 'e) outcome"
  ex_give_hardware :: "'h \<Rightarrow> 'e \<Rightarrow> 'e"

section \<open>The contract of the main loop\<close>

text \<open>
  What the main loop needs of an executor to keep a property of it: every operation the loop
  uses keeps the property, a submission when the module is one the loop may submit.
\<close>

locale executor_keeps =
  fixes ex :: "('e, 'h) executor"
    and keeps :: "'e \<Rightarrow> bool"
    and admissible :: "bytes \<Rightarrow> bool"
  assumes submit_keeps: "keeps e \<Longrightarrow> admissible wasm \<Longrightarrow> ex_submit ex run wasm e = Ok e' \<Longrightarrow> keeps e'"
    and poll_keeps: "keeps e \<Longrightarrow> ex_poll_result ex e = Ok (r, e') \<Longrightarrow> keeps e'"
    and stop_keeps: "keeps e \<Longrightarrow> keeps (ex_stop ex e)"

section \<open>The single-core executor\<close>

record 'h single_core =
  sc_hardware :: "'h option"
  sc_fuel :: "u64 option"
  sc_status :: exec_status
  sc_last_result :: "exec_result option"

definition new_single_core :: "'h \<Rightarrow> u64 option \<Rightarrow> 'h single_core" where
  "new_single_core hw fuel_opt =
     \<lparr>sc_hardware = Some hw, sc_fuel = fuel_opt, sc_status = Idle, sc_last_result = None\<rparr>"

definition sc_submit :: "'h run \<Rightarrow> bytes \<Rightarrow> 'h single_core \<Rightarrow> 'h single_core outcome" where
  "sc_submit run bytecode e = (case sc_hardware e of
     None \<Rightarrow> Ok (e\<lparr>sc_last_result := Some (failure ''no hardware available''), sc_status := Completed\<rparr>)
   | Some hw \<Rightarrow>
       let e = e\<lparr>sc_hardware := None, sc_status := Running\<rparr> in
       and_then (run (sc_fuel e) bytecode hw) (\<lambda>(hw, result).
         Ok (e\<lparr>sc_hardware := Some hw, sc_last_result := Some result, sc_status := Completed\<rparr>)))"

definition sc_poll_result :: "'h single_core \<Rightarrow> exec_result option \<times> 'h single_core" where
  "sc_poll_result e =
     (if sc_status e = Completed
      then (sc_last_result e, e\<lparr>sc_status := Idle, sc_last_result := None\<rparr>)
      else (None, e))"

definition sc_is_running :: "'h single_core \<Rightarrow> bool" where
  "sc_is_running e \<longleftrightarrow> sc_status e = Running"

definition sc_stop :: "'h single_core \<Rightarrow> 'h single_core" where
  "sc_stop e = e\<lparr>sc_status := Stopped\<rparr>"

definition sc_take_hardware :: "'h single_core \<Rightarrow> 'h option \<times> 'h single_core" where
  "sc_take_hardware e = (sc_hardware e, e\<lparr>sc_hardware := None\<rparr>)"

definition sc_give_hardware :: "'h \<Rightarrow> 'h single_core \<Rightarrow> 'h single_core" where
  "sc_give_hardware hw e = e\<lparr>sc_hardware := Some hw\<rparr>"

definition single_core_executor :: "('h single_core, 'h) executor" where
  "single_core_executor = \<lparr>
     ex_submit = sc_submit,
     ex_poll_result = (\<lambda>e. Ok (sc_poll_result e)),
     ex_is_running = sc_is_running,
     ex_stop = sc_stop,
     ex_status = sc_status,
     ex_take_hardware = (\<lambda>e. Ok (sc_take_hardware e)),
     ex_give_hardware = sc_give_hardware\<rparr>"

lemmas single_core_ops = sc_submit_def sc_poll_result_def sc_is_running_def sc_stop_def
  sc_take_hardware_def sc_give_hardware_def

text \<open>Between two calls of the loop the executor owns its hardware and is not running.\<close>

definition sc_ready :: "'h single_core \<Rightarrow> bool" where
  "sc_ready e \<longleftrightarrow> sc_hardware e \<noteq> None \<and> sc_status e \<noteq> Running
     \<and> (sc_status e = Completed \<longrightarrow> sc_last_result e \<noteq> None)"

interpretation sc_loop: executor_keeps single_core_executor sc_ready "\<lambda>_. True"
  by unfold_locales
    (auto simp: single_core_executor_def single_core_ops sc_ready_def and_then_eq_Ok Let_def
      split: option.splits if_splits)

text \<open>
  On a single core a submitted module has run to its end when \<open>submit\<close> returns: the next
  poll gives exactly its result, the hardware is back as the run left it, the executor is
  idle again, and a second poll gives nothing.
\<close>
theorem single_core_submit_poll:
  assumes "sc_hardware e = Some hw" and "run (sc_fuel e) wasm hw = Ok (hw', result)"
  shows "\<exists>e' e''. sc_submit run wasm e = Ok e' \<and> sc_status e' = Completed \<and> \<not> sc_is_running e'
    \<and> sc_poll_result e' = (Some result, e'') \<and> sc_hardware e'' = Some hw' \<and> sc_status e'' = Idle
    \<and> fst (sc_poll_result e'') = None"
  using assms by (simp add: single_core_ops Let_def)

theorem single_core_submit_poll_witness:
  "\<exists>e' e''. sc_submit (\<lambda>f w h. Ok (Suc h, failure ''boom'')) [0] (new_single_core (1 :: nat) None) = Ok e'
    \<and> sc_poll_result e' = (Some (failure ''boom''), e'') \<and> sc_hardware e'' = Some 2"
  using single_core_submit_poll [of "new_single_core 1 None" 1 "\<lambda>f w h. Ok (Suc h, failure ''boom'')" "[0]" 2 "failure ''boom''"]
  by (fastforce simp: new_single_core_def)

text \<open>
  A run that panics takes the single-core receiver with it: \<open>submit\<close> panics exactly when
  the run does, and does not return exactly when the run does not.
\<close>
theorem single_core_run_panics:
  assumes "sc_hardware e = Some hw"
  shows "(sc_submit run wasm e = Panic \<longleftrightarrow> run (sc_fuel e) wasm hw = Panic)
    \<and> (sc_submit run wasm e = Diverges \<longleftrightarrow> run (sc_fuel e) wasm hw = Diverges)"
  using assms by (auto simp: sc_submit_def and_then_iffs Let_def)

theorem single_core_run_panics_witness:
  "sc_submit (\<lambda>f w h. Panic) [0] (new_single_core (1 :: nat) None) = Panic"
proof -
  have "sc_hardware (new_single_core (1 :: nat) None) = Some 1" by (simp add: new_single_core_def)
  from single_core_run_panics [OF this] show ?thesis by blast
qed

text \<open>
  With a fuel budget the single-core receiver always answers: for every engine that
  charges for its work, every module and every state of the executor, \<open>submit\<close> does not
  run forever.
\<close>
theorem single_core_metered_answers:
  assumes "charges (mc_engine mc)" and "sc_fuel e = Some budget"
  shows "sc_submit (run_module mc ps_start ps) wasm e \<noteq> Diverges"
proof (cases "sc_hardware e")
  case (Some hw)
  have "bounded_run (\<not> syscalls_return mc) budget (execute mc ps_start ps wasm ''run_logic'' (new_runtime hw (Some budget)))"
    by (rule execute_bounded [OF assms(1) metered_new_runtime])
      (simp add: new_runtime_def new_fuel_def set_fuel_def check_fuel_metering_enabled_def Let_def)
  then have "execute mc ps_start ps wasm ''run_logic'' (new_runtime hw (Some budget)) \<noteq> Diverges"
    by auto
  with Some assms(2) show ?thesis
    by (auto simp: sc_submit_def run_module_def and_then_eq_Diverges Let_def)
qed (simp add: sc_submit_def)

theorem single_core_metered_answers_witness:
  "sc_submit (run_module spinning_machine (\<lambda>_. PARAM_SLOTS) (\<lambda>_. PARAM_SLOTS)) [1]
     (new_single_core new_mock (Some 500000000)) \<noteq> Diverges"
  by (rule single_core_metered_answers)
    (simp_all add: charges_def spinning_machine_def spinning_engine_def new_single_core_def)

end
