(* ===== verification/Dual_Core.thy ===== *)
theory Dual_Core
  imports Executor
begin

text \<open>
  The RP2040 executor \<open>receiver/src/engine/executor_dual.rs\<close>. Its flags are statics shared with the
  second core: they are part of the state, and a step of the other core is a step of the
  environment. Without the second core it runs modules inline, like the single-core one.
\<close>

section \<open>State and operations\<close>

definition CMD_EXECUTE :: u32 where "CMD_EXECUTE = 0x01"
definition CMD_STOP :: u32 where "CMD_STOP = 0x02"
definition RSP_DONE :: u32 where "RSP_DONE = 0x10"
definition RSP_ERROR :: u32 where "RSP_ERROR = 0x11"
definition MAX_BYTECODE_SIZE :: nat where "MAX_BYTECODE_SIZE = 128 * 1024"

record statics =
  EXEC_STATE :: u8
  STOP_FLAG :: bool
  RESULT_READY :: bool

record 'h dual_core =
  dc_hardware :: "'h option"
  dc_fuel :: "u64 option"
  dc_status :: exec_status
  dc_last_result :: "exec_result option"
  dc_core1_available :: bool
  dc_statics :: statics

definition new_dual_core :: "'h \<Rightarrow> u64 option \<Rightarrow> bool \<Rightarrow> statics \<Rightarrow> 'h dual_core" where
  "new_dual_core hw fuel_opt core1_available st =
     \<lparr>dc_hardware = Some hw, dc_fuel = fuel_opt, dc_status = Idle, dc_last_result = None,
      dc_core1_available = core1_available,
      dc_statics = st\<lparr>STOP_FLAG := False, RESULT_READY := False, EXEC_STATE := 0\<rparr>\<rparr>"

definition dc_submit :: "'h run \<Rightarrow> bytes \<Rightarrow> 'h dual_core \<Rightarrow> 'h dual_core outcome" where
  "dc_submit run bytecode e =
     (if \<not> dc_core1_available e then
        (case dc_hardware e of
           None \<Rightarrow> Ok (e\<lparr>dc_last_result := Some (failure ''no hardware available''), dc_status := Completed\<rparr>)
         | Some hw \<Rightarrow>
             let e = e\<lparr>dc_hardware := None, dc_status := Running,
                       dc_statics := (dc_statics e)\<lparr>STOP_FLAG := False\<rparr>\<rparr> in
             and_then (run (dc_fuel e) bytecode hw) (\<lambda>(hw, result).
               Ok (e\<lparr>dc_hardware := Some hw, dc_last_result := Some result, dc_status := Completed\<rparr>)))
      else
        Ok (e\<lparr>dc_status := Running,
              dc_statics := (dc_statics e)\<lparr>STOP_FLAG := False, RESULT_READY := False, EXEC_STATE := 1\<rparr>\<rparr>))"

definition dc_poll_result :: "'h dual_core \<Rightarrow> exec_result option \<times> 'h dual_core" where
  "dc_poll_result e =
     (if dc_status e = Completed
      then (dc_last_result e, e\<lparr>dc_status := Idle, dc_last_result := None\<rparr>)
      else if dc_core1_available e \<and> RESULT_READY (dc_statics e)
      then (let e = e\<lparr>dc_statics := (dc_statics e)\<lparr>RESULT_READY := False\<rparr>\<rparr>;
                e = e\<lparr>dc_status := Completed\<rparr>;
                e = e\<lparr>dc_status := Idle\<rparr>
            in (dc_last_result e, e\<lparr>dc_last_result := None\<rparr>))
      else (None, e))"

definition dc_is_running :: "'h dual_core \<Rightarrow> bool" where
  "dc_is_running e \<longleftrightarrow> dc_status e = Running"

definition dc_stop :: "'h dual_core \<Rightarrow> 'h dual_core" where
  "dc_stop e = e\<lparr>dc_statics := (dc_statics e)\<lparr>STOP_FLAG := True\<rparr>, dc_status := Stopped\<rparr>"

definition dc_take_hardware :: "'h dual_core \<Rightarrow> 'h option \<times> 'h dual_core" where
  "dc_take_hardware e = (dc_hardware e, e\<lparr>dc_hardware := None\<rparr>)"

definition dc_give_hardware :: "'h \<Rightarrow> 'h dual_core \<Rightarrow> 'h dual_core" where
  "dc_give_hardware hw e = e\<lparr>dc_hardware := Some hw\<rparr>"

definition is_stop_requested :: "'h dual_core \<Rightarrow> bool" where
  "is_stop_requested e = STOP_FLAG (dc_statics e)"

definition dual_core_executor :: "('h dual_core, 'h) executor" where
  "dual_core_executor = \<lparr>
     ex_submit = dc_submit,
     ex_poll_result = (\<lambda>e. Ok (dc_poll_result e)),
     ex_is_running = dc_is_running,
     ex_stop = dc_stop,
     ex_status = dc_status,
     ex_take_hardware = (\<lambda>e. Ok (dc_take_hardware e)),
     ex_give_hardware = dc_give_hardware\<rparr>"

lemmas dual_core_ops = dc_submit_def dc_poll_result_def dc_is_running_def dc_stop_def
  dc_take_hardware_def dc_give_hardware_def

section \<open>Without the second core: the single-core executor\<close>

definition as_single_core :: "'h dual_core \<Rightarrow> 'h single_core" where
  "as_single_core e = \<lparr>sc_hardware = dc_hardware e, sc_fuel = dc_fuel e, sc_status = dc_status e,
     sc_last_result = dc_last_result e\<rparr>"

definition fallback :: "'h dual_core \<Rightarrow> bool" where
  "fallback e \<longleftrightarrow> \<not> dc_core1_available e"

interpretation dc_loop: executor_keeps dual_core_executor fallback "\<lambda>_. True"
  by unfold_locales
    (auto simp: dual_core_executor_def dual_core_ops fallback_def and_then_eq_Ok Let_def
      split: option.splits if_splits)

text \<open>
  Without the second core the RP2040 executor is the single-core executor: read through
  the fields the two share, every operation does the same, panics and endless runs included.
\<close>
theorem dual_core_fallback_refines_single_core:
  assumes "\<not> dc_core1_available e"
  shows "map_outcome as_single_core (dc_submit run wasm e) = sc_submit run wasm (as_single_core e)
    \<and> fst (dc_poll_result e) = fst (sc_poll_result (as_single_core e))
    \<and> as_single_core (snd (dc_poll_result e)) = snd (sc_poll_result (as_single_core e))
    \<and> as_single_core (dc_stop e) = sc_stop (as_single_core e)
    \<and> dc_is_running e = sc_is_running (as_single_core e)
    \<and> as_single_core (snd (dc_take_hardware e)) = snd (sc_take_hardware (as_single_core e))
    \<and> as_single_core (dc_give_hardware hw e) = sc_give_hardware hw (as_single_core e)"
proof -
  have "map_outcome as_single_core (dc_submit run wasm e) = sc_submit run wasm (as_single_core e)"
  proof (cases "dc_hardware e")
    case None
    with assms show ?thesis by (simp add: dc_submit_def sc_submit_def as_single_core_def)
  next
    case (Some h)
    with assms show ?thesis
      by (cases "run (dc_fuel e) wasm h")
        (auto simp: dc_submit_def sc_submit_def as_single_core_def Let_def)
  qed
  with assms show ?thesis
    by (simp add: dual_core_ops single_core_ops as_single_core_def)
qed

theorem dual_core_fallback_refines_single_core_witness:
  "let e = new_dual_core (1 :: nat) None False \<lparr>EXEC_STATE = 3, STOP_FLAG = True, RESULT_READY = True\<rparr>
   in map_outcome as_single_core (dc_submit (\<lambda>f w h. Ok (h + 1, failure ''x'')) [0] e)
        = sc_submit (\<lambda>f w h. Ok (h + 1, failure ''x'')) [0] (as_single_core e)"
proof -
  have "\<not> dc_core1_available (new_dual_core (1 :: nat) None False
      \<lparr>EXEC_STATE = 3, STOP_FLAG = True, RESULT_READY = True\<rparr>)"
    by (simp add: new_dual_core_def)
  from dual_core_fallback_refines_single_core [OF this, THEN conjunct1]
  show ?thesis unfolding Let_def .
qed

section \<open>With the second core\<close>

text \<open>What the main loop may do after a submission, until the next one.\<close>

datatype dual_op = DPoll | DStop | DQuery

fun dc_op :: "dual_op \<Rightarrow> 'h dual_core \<Rightarrow> exec_result option \<times> 'h dual_core" where
  "dc_op DPoll e = dc_poll_result e"
| "dc_op DStop e = (None, dc_stop e)"
| "dc_op DQuery e = (None, e)"

fun dc_ops :: "dual_op list \<Rightarrow> 'h dual_core \<Rightarrow> exec_result option list \<times> 'h dual_core" where
  "dc_ops [] e = ([], e)"
| "dc_ops (x # xs) e = (let (r, e) = dc_op x e; (rs, e) = dc_ops xs e in (r # rs, e))"

definition waiting :: "'h dual_core \<Rightarrow> bool" where
  "waiting e \<longleftrightarrow> dc_status e \<in> {Running, Stopped} \<and> \<not> RESULT_READY (dc_statics e)"

lemma dc_op_waiting: "waiting e \<Longrightarrow> fst (dc_op x e) = None \<and> waiting (snd (dc_op x e))"
  by (cases x) (auto simp: waiting_def dual_core_ops)

lemma dc_ops_waiting: "waiting e \<Longrightarrow> (\<forall>r \<in> set (fst (dc_ops xs e)). r = None) \<and> waiting (snd (dc_ops xs e))"
proof (induction xs arbitrary: e)
  case (Cons x xs)
  obtain r e' where o: "dc_op x e = (r, e')" by (cases "dc_op x e")
  obtain rs e'' where os: "dc_ops xs e' = (rs, e'')" by (cases "dc_ops xs e'")
  from dc_op_waiting [OF Cons.prems, of x] o have "r = None" "waiting e'" by auto
  with Cons.IH [of e'] o os show ?case by simp
qed simp

text \<open>
  Told that the second core is available, the executor accepts a module and never runs
  it: nothing in the code hands the bytes over or sets the flag of a ready result, so the
  submission leaves no trace of the module and no later poll, stop or query of the main loop
  ever produces a result for it.
\<close>
theorem dual_core_module_never_runs:
  assumes "dc_core1_available e"
  shows "\<exists>e'. dc_submit run wasm e = Ok e' \<and> dc_submit run' wasm' e = Ok e'
    \<and> dc_is_running e' \<and> (\<forall>xs. \<forall>r \<in> set (fst (dc_ops xs e')). r = None)"
proof -
  let ?e = "e\<lparr>dc_status := Running,
      dc_statics := (dc_statics e)\<lparr>STOP_FLAG := False, RESULT_READY := False, EXEC_STATE := 1\<rparr>\<rparr>"
  have "dc_submit run wasm e = Ok ?e" for run wasm
    using assms by (simp add: dc_submit_def)
  moreover have "waiting ?e" by (simp add: waiting_def)
  ultimately show ?thesis using dc_ops_waiting [of ?e] by (fastforce simp: dc_is_running_def)
qed

theorem dual_core_module_never_runs_witness:
  "\<exists>e'. dc_submit (\<lambda>f w h. Ok (h, failure ''x'')) [0]
     (new_dual_core (1 :: nat) None True \<lparr>EXEC_STATE = 0, STOP_FLAG = False, RESULT_READY = False\<rparr>) = Ok e'
   \<and> fst (dc_ops [DPoll, DStop, DPoll] e') = [None, None, None]"
proof -
  have "dc_core1_available (new_dual_core (1 :: nat) None True
      \<lparr>EXEC_STATE = 0, STOP_FLAG = False, RESULT_READY = False\<rparr>)"
    by (simp add: new_dual_core_def)
  from dual_core_module_never_runs [OF this, of "\<lambda>f w h. Ok (h, failure ''x'')" "[0]"]
  obtain e' where s: "dc_submit (\<lambda>f w h. Ok (h, failure ''x'')) [0]
     (new_dual_core (1 :: nat) None True \<lparr>EXEC_STATE = 0, STOP_FLAG = False, RESULT_READY = False\<rparr>) = Ok e'"
    and n: "\<forall>r \<in> set (fst (dc_ops [DPoll, DStop, DPoll] e')). r = None" by blast
  have "length (fst (dc_ops [DPoll, DStop, DPoll] e')) = 3" by (simp add: case_prod_beta Let_def)
  with n have "fst (dc_ops [DPoll, DStop, DPoll] e') = [None, None, None]"
    by (auto simp: numeral_3_eq_3 length_Suc_conv)
  with s show ?thesis by blast
qed

end
