(* ===== verification/Json.thy ===== *)
theory Json
  imports Prelude
begin

text \<open>
  JSON as the specification of what the receiver writes by hand: values, their compact text,
  and a parser that is its inverse. The escaping is the code's own (\<open>json_escape\<close> of
  \<open>receiver/src/lib.rs\<close>); the rest of this theory is specification.
\<close>

section \<open>Escaping\<close>

text \<open>
  The code walks the characters; every byte of a multi-byte character is at least 128 and
  passes through, so walking the UTF-8 bytes is the same.
\<close>

definition escape_char :: "char \<Rightarrow> string" where
  "escape_char c =
     (if c = CHR 0x22 then [CHR 0x5C, CHR 0x22]
      else if c = CHR 0x5C then [CHR 0x5C, CHR 0x5C]
      else if c = CHR 0x0A then [CHR 0x5C, CHR ''n'']
      else if c = CHR 0x0D then [CHR 0x5C, CHR ''r'']
      else if c = CHR 0x09 then [CHR 0x5C, CHR ''t'']
      else if of_char c < (32 :: nat) then [CHR 0x5C, CHR ''u''] @ hex4 (of_char c)
      else [c])"

fun json_escape :: "string \<Rightarrow> string" where
  "json_escape [] = []"
| "json_escape (c # cs) = escape_char c @ json_escape cs"

section \<open>Values and their text\<close>

datatype json =
    JBool bool
  | JNum nat
  | JStr string
  | JArr "json list"
  | JObj "(string \<times> json) list"

definition quoted :: "string \<Rightarrow> string" where
  "quoted s = [CHR 0x22] @ json_escape s @ [CHR 0x22]"

fun render :: "json \<Rightarrow> string" where
  "render (JBool b) = (if b then ''true'' else ''false'')"
| "render (JNum n) = dec n"
| "render (JStr s) = quoted s"
| "render (JArr vs) = ''['' @ join '','' (map render vs) @ '']''"
| "render (JObj fs) = ''{'' @ join '','' (map (\<lambda>(k, v). quoted k @ '':'' @ render v) fs) @ ''}''"

section \<open>Parsing\<close>

definition hex_val :: "char \<Rightarrow> nat option" where
  "hex_val c = (let n = of_char c in
     if 48 \<le> n \<and> n \<le> 57 then Some (n - 48)
     else if 97 \<le> n \<and> n \<le> 102 then Some (n - 87)
     else if 65 \<le> n \<and> n \<le> 70 then Some (n - 55) else None)"

definition hex4_val :: "char \<Rightarrow> char \<Rightarrow> char \<Rightarrow> char \<Rightarrow> nat option" where
  "hex4_val a b c d = (case (hex_val a, hex_val b, hex_val c, hex_val d) of
     (Some w, Some x, Some y, Some z) \<Rightarrow> Some (w * 4096 + x * 256 + y * 16 + z) | _ \<Rightarrow> None)"

definition simple_escape :: "char \<Rightarrow> char option" where
  "simple_escape e =
     (if e = CHR 0x22 \<or> e = CHR 0x5C \<or> e = CHR ''/'' then Some e
      else if e = CHR ''n'' then Some (CHR 0x0A) else if e = CHR ''r'' then Some (CHR 0x0D)
      else if e = CHR ''t'' then Some (CHR 0x09) else if e = CHR ''b'' then Some (CHR 0x08)
      else if e = CHR ''f'' then Some (CHR 0x0C) else None)"

text \<open>One character of a string's text, escapes of characters above 127 aside.\<close>

definition next_char :: "string \<Rightarrow> (char \<times> string) option" where
  "next_char s = (case s of [] \<Rightarrow> None
     | c # r \<Rightarrow>
        if c = CHR 0x22 \<or> of_char c < (32 :: nat) then None
        else if c = CHR 0x5C then
          (case r of
             [] \<Rightarrow> None
           | e # r1 \<Rightarrow>
               if e = CHR ''u'' then
                 (case r1 of
                    h1 # h2 # h3 # h4 # r2 \<Rightarrow>
                      (case hex4_val h1 h2 h3 h4 of
                         Some n \<Rightarrow> if n < 128 then Some (char_of n, r2) else None
                       | None \<Rightarrow> None)
                  | _ \<Rightarrow> None)
               else map_option (\<lambda>x. (x, r1)) (simple_escape e))
        else Some (c, r))"

fun parse_string :: "nat \<Rightarrow> string \<Rightarrow> (string \<times> string) option" where
  "parse_string 0 s = None"
| "parse_string (Suc n) s =
     (case s of
        [] \<Rightarrow> None
      | c # r \<Rightarrow>
          if c = CHR 0x22 then Some ([], r)
          else (case next_char s of
                  None \<Rightarrow> None
                | Some (x, r) \<Rightarrow> map_option (\<lambda>(xs, r'). (x # xs, r')) (parse_string n r)))"

definition is_digit :: "char \<Rightarrow> bool" where
  "is_digit c \<longleftrightarrow> 48 \<le> (of_char c :: nat) \<and> of_char c \<le> (57 :: nat)"

definition digits_val :: "string \<Rightarrow> nat" where
  "digits_val ds = foldl (\<lambda>n c. n * 10 + (of_char c - 48)) 0 ds"

definition literal :: "string \<Rightarrow> 'a \<Rightarrow> string \<Rightarrow> ('a \<times> string) option" where
  "literal text x s =
     (if take (length text) s = text then Some (x, drop (length text) s) else None)"

fun parse_value :: "nat \<Rightarrow> string \<Rightarrow> (json \<times> string) option"
and parse_elements :: "nat \<Rightarrow> string \<Rightarrow> (json list \<times> string) option"
and parse_members :: "nat \<Rightarrow> string \<Rightarrow> ((string \<times> json) list \<times> string) option" where
  "parse_value 0 s = None"
| "parse_value (Suc n) s =
     (case s of
        [] \<Rightarrow> None
      | c # r \<Rightarrow>
          if c = CHR 0x22 then map_option (\<lambda>(x, r'). (JStr x, r')) (parse_string (length s) r)
          else if c = CHR ''['' then
            (if r \<noteq> [] \<and> hd r = CHR '']'' then Some (JArr [], tl r)
             else map_option (\<lambda>(vs, r'). (JArr vs, r')) (parse_elements n r))
          else if c = CHR ''{'' then
            (if r \<noteq> [] \<and> hd r = CHR ''}'' then Some (JObj [], tl r)
             else map_option (\<lambda>(fs, r'). (JObj fs, r')) (parse_members n r))
          else if c = CHR ''t'' then literal ''true'' (JBool True) s
          else if c = CHR ''f'' then literal ''false'' (JBool False) s
          else if is_digit c then
            Some (JNum (digits_val (takeWhile is_digit s)), dropWhile is_digit s)
          else None)"
| "parse_elements 0 s = None"
| "parse_elements (Suc n) s =
     (case parse_value n s of
        Some (v, CHR '','' # r) \<Rightarrow> map_option (\<lambda>(vs, r'). (v # vs, r')) (parse_elements n r)
      | Some (v, CHR '']'' # r) \<Rightarrow> Some ([v], r)
      | _ \<Rightarrow> None)"
| "parse_members 0 s = None"
| "parse_members (Suc n) s =
     (case s of
        CHR 0x22 # r \<Rightarrow>
          (case parse_string (length s) r of
             Some (k, CHR '':'' # r1) \<Rightarrow>
               (case parse_value n r1 of
                  Some (v, CHR '','' # r2) \<Rightarrow>
                    map_option (\<lambda>(fs, r'). ((k, v) # fs, r')) (parse_members n r2)
                | Some (v, CHR ''}'' # r2) \<Rightarrow> Some ([(k, v)], r2)
                | _ \<Rightarrow> None)
           | _ \<Rightarrow> None)
      | _ \<Rightarrow> None)"

definition parse_json :: "string \<Rightarrow> json option" where
  "parse_json s = (case parse_value (Suc (length s)) s of Some (v, []) \<Rightarrow> Some v | _ \<Rightarrow> None)"

section \<open>Characters and numbers\<close>

lemma of_char_char_of_small: "n < 256 \<Longrightarrow> of_char (char_of n) = (n :: nat)"
  by simp

lemma hex_val_hex_char: "d < 16 \<Longrightarrow> hex_val (hex_char d) = Some d"
  by (simp add: hex_val_def hex_char_def Let_def)

lemma hex4_val_hex4:
  assumes "n < 65536"
  shows "\<exists>a b c d. hex4 n = [a, b, c, d] \<and> hex4_val a b c d = Some n"
proof -
  have e: "n div 256 = n div 16 div 16" "n div 4096 = n div 16 div 16 div 16"
    by (simp_all add: div_mult2_eq [symmetric])
  have "n div 4096 < 16" using assms by (simp add: less_mult_imp_div_less)
  moreover have "n div 4096 * 4096 + n div 256 mod 16 * 256 + n div 16 mod 16 * 16 + n mod 16 = n"
    using div_mult_mod_eq [of n 16] div_mult_mod_eq [of "n div 16" 16]
      div_mult_mod_eq [of "n div 16 div 16" 16] unfolding e by linarith
  ultimately show ?thesis by (simp add: hex4_def hex4_val_def hex_val_hex_char)
qed

lemma escape_char_first: "\<exists>c' r. escape_char c = c' # r \<and> c' \<noteq> CHR 0x22"
  by (auto simp: escape_char_def)

lemma next_char_escape: "next_char (escape_char c @ rest) = Some (c, rest)"
proof (cases "of_char c < (32 :: nat) \<and> c \<noteq> CHR 0x0A \<and> c \<noteq> CHR 0x0D \<and> c \<noteq> CHR 0x09")
  case True
  then have c: "c \<noteq> CHR 0x22" "c \<noteq> CHR 0x5C" by auto
  obtain h1 h2 h3 h4 where "hex4 (of_char c) = [h1, h2, h3, h4]" "hex4_val h1 h2 h3 h4 = Some (of_char c)"
    using hex4_val_hex4 [of "of_char c"] True by auto
  with True c show ?thesis by (simp add: escape_char_def next_char_def)
next
  case False
  then show ?thesis by (auto simp: escape_char_def next_char_def simple_escape_def)
qed

lemma parse_string_escape:
  "length s < n \<Longrightarrow> parse_string n (json_escape s @ CHR 0x22 # rest) = Some (s, rest)"
proof (induction s arbitrary: n)
  case Nil
  then show ?case by (cases n) simp_all
next
  case (Cons c cs)
  then obtain m where n: "n = Suc m" "length cs < m" by (cases n) auto
  obtain c' r where e: "escape_char c = c' # r" "c' \<noteq> CHR 0x22" using escape_char_first by blast
  have "next_char (c' # r @ json_escape cs @ CHR 0x22 # rest) = Some (c, json_escape cs @ CHR 0x22 # rest)"
    using next_char_escape [of c "json_escape cs @ CHR 0x22 # rest"] by (simp add: e)
  with Cons.IH [OF n(2)] e show ?case by (simp add: n(1))
qed

lemma length_json_escape: "length s \<le> length (json_escape s)"
proof (induction s)
  case (Cons c cs)
  have "1 \<le> length (escape_char c)" using escape_char_first [of c] by auto
  with Cons show ?case by simp
qed simp

lemma parse_string_bound:
  "length (json_escape s) < n \<Longrightarrow> parse_string n (json_escape s @ CHR 0x22 # rest) = Some (s, rest)"
  by (rule parse_string_escape) (use length_json_escape [of s] in simp)

lemma dec_digits: "\<forall>c \<in> set (dec n). is_digit c"
proof (induction n rule: dec.induct)
  case (1 n)
  then show ?case by (subst dec.simps) (auto simp: digit_char_def is_digit_def)
qed

lemma digits_val_dec: "digits_val (dec n) = n"
proof (induction n rule: dec.induct)
  case (1 n)
  show ?case
  proof (cases "n < 10")
    case True
    then show ?thesis by (subst dec.simps) (simp add: digits_val_def digit_char_def)
  next
    case False
    with 1 show ?thesis
      by (subst dec.simps) (simp add: digits_val_def digit_char_def)
  qed
qed

lemma takeWhile_dec: "rest = [] \<or> \<not> is_digit (hd rest) \<Longrightarrow>
    takeWhile is_digit (dec n @ rest) = dec n \<and> dropWhile is_digit (dec n @ rest) = rest"
  using dec_digits [of n] by (cases rest) (auto simp: takeWhile_append2 dropWhile_append2)

lemma dec_first: "\<exists>c r. dec n = c # r \<and> is_digit c"
  using dec_digits [of n] dec_nonempty [of n] by (cases "dec n") auto

section \<open>The round trip\<close>

text \<open>Fuel the parser needs for a value.\<close>

fun need :: "json \<Rightarrow> nat" where
  "need (JArr vs) = Suc (sum_list (map (\<lambda>v. Suc (need v)) vs))"
| "need (JObj fs) = Suc (sum_list (map (\<lambda>(k, v). Suc (need v)) fs))"
| "need _ = 1"

definition ends :: "string \<Rightarrow> bool" where
  "ends rest \<longleftrightarrow> rest = [] \<or> \<not> is_digit (hd rest)"

lemma ends_simps [simp]:
  "ends []" "ends (CHR '','' # r)" "ends (CHR '']'' # r)" "ends (CHR ''}'' # r)"
  by (simp_all add: ends_def is_digit_def)

lemma render_first:
  "\<exists>c r. render v = c # r \<and> c \<noteq> CHR '']'' \<and> c \<noteq> CHR ''}''"
proof (cases v)
  case (JNum n)
  obtain c r where "dec n = c # r" "is_digit c" using dec_first by blast
  with JNum show ?thesis by (auto simp: is_digit_def)
qed (auto simp: quoted_def)

lemma join_Cons: "xs \<noteq> [] \<Longrightarrow> join sep (x # xs) = x @ sep @ join sep xs"
  by (cases xs) simp_all

lemma parse_elements_render:
  assumes "\<And>v n rest. v \<in> set vs \<Longrightarrow> need v \<le> n \<Longrightarrow> ends rest \<Longrightarrow>
      parse_value n (render v @ rest) = Some (v, rest)"
    and "vs \<noteq> []" and "sum_list (map (\<lambda>v. Suc (need v)) vs) \<le> n"
  shows "parse_elements n (join '','' (map render vs) @ CHR '']'' # rest) = Some (vs, rest)"
  using assms
proof (induction vs arbitrary: n)
  case (Cons v vs)
  then obtain m where n: "n = Suc m" "need v \<le> m" by (cases n) auto
  show ?case
  proof (cases "vs = []")
    case True
    then show ?thesis using Cons.prems(1) [of v m] n by simp
  next
    case False
    have "sum_list (map (\<lambda>v. Suc (need v)) vs) \<le> m" using Cons.prems(3) n by simp
    from Cons.IH [OF _ False this] Cons.prems(1)
    have "parse_elements m (join '','' (map render vs) @ CHR '']'' # rest) = Some (vs, rest)" by simp
    then show ?thesis using Cons.prems(1) [of v m] n False by (simp add: join_Cons)
  qed
qed simp

lemma parse_members_render:
  assumes "\<And>k v n rest. (k, v) \<in> set fs \<Longrightarrow> need v \<le> n \<Longrightarrow> ends rest \<Longrightarrow>
      parse_value n (render v @ rest) = Some (v, rest)"
    and "fs \<noteq> []" and "sum_list (map (\<lambda>(k, v). Suc (need v)) fs) \<le> n"
  shows "parse_members n (join '','' (map (\<lambda>(k, v). quoted k @ '':'' @ render v) fs) @ CHR ''}'' # rest)
      = Some (fs, rest)"
  using assms
proof (induction fs arbitrary: n)
  case (Cons f fs)
  obtain k v where f: "f = (k, v)" by (cases f)
  with Cons.prems obtain m where n: "n = Suc m" "need v \<le> m" by (cases n) auto
  note key = parse_string_bound [of k]
  show ?case
  proof (cases "fs = []")
    case True
    then show ?thesis using Cons.prems(1) [of k v m] n f key by (simp add: quoted_def del: parse_string.simps)
  next
    case False
    have le: "sum_list (map (\<lambda>(k, v). Suc (need v)) fs) \<le> m" using Cons.prems(3) n f by simp
    have "parse_members m (join '','' (map (\<lambda>(k, v). quoted k @ '':'' @ render v) fs) @ CHR ''}'' # rest)
        = Some (fs, rest)"
      by (rule Cons.IH [OF _ False le]) (rule Cons.prems(1), auto)
    then show ?thesis using Cons.prems(1) [of k v m] n f False key
      by (simp add: join_Cons quoted_def del: parse_string.simps)
  qed
qed simp

lemma parse_value_str:
  "parse_value (Suc n) (quoted s @ rest) = Some (JStr s, rest)"
  using parse_string_bound [of s] by (simp add: quoted_def del: parse_string.simps)

lemma parse_value_num:
  assumes "ends rest"
  shows "parse_value (Suc n) (dec k @ rest) = Some (JNum k, rest)"
proof -
  obtain c r where d: "dec k = c # r" "is_digit c" using dec_first by blast
  then have "c \<noteq> CHR 0x22 \<and> c \<noteq> CHR ''['' \<and> c \<noteq> CHR ''{'' \<and> c \<noteq> CHR ''t'' \<and> c \<noteq> CHR ''f''"
    by (auto simp: is_digit_def)
  moreover have "takeWhile is_digit (c # r @ rest) = dec k" "dropWhile is_digit (c # r @ rest) = rest"
    using takeWhile_dec [of rest k] assms d by (auto simp: ends_def)
  ultimately show ?thesis using d digits_val_dec [of k] by simp
qed

lemma parse_value_render:
  "need v \<le> n \<Longrightarrow> ends rest \<Longrightarrow> parse_value n (render v @ rest) = Some (v, rest)"
proof (induction v arbitrary: n rest)
  case (JBool b)
  then obtain m where "n = Suc m" by (cases n) auto
  then show ?case by (auto simp: literal_def)
next
  case (JNum k)
  then obtain m where "n = Suc m" by (cases n) auto
  with JNum show ?case by (simp only: render.simps parse_value_num)
next
  case (JStr s)
  then obtain m where "n = Suc m" by (cases n) auto
  then show ?case by (simp only: render.simps parse_value_str)
next
  case (JArr vs)
  then obtain m where n: "n = Suc m" "sum_list (map (\<lambda>v. Suc (need v)) vs) \<le> m" by (cases n) auto
  show ?case
  proof (cases vs)
    case Nil
    then show ?thesis using n by simp
  next
    case (Cons w ws)
    obtain c r where f: "render w = c # r" "c \<noteq> CHR '']''" using render_first [of w] by blast
    then obtain r' where j: "join '','' (map render vs) = c # r'"
      using Cons by (cases ws) auto
    have "parse_elements m (join '','' (map render vs) @ CHR '']'' # rest) = Some (vs, rest)"
      by (rule parse_elements_render) (use JArr.IH n Cons in auto)
    then show ?thesis using n f by (simp add: j)
  qed
next
  case (JObj fs)
  then obtain m where n: "n = Suc m" "sum_list (map (\<lambda>(k, v). Suc (need v)) fs) \<le> m" by (cases n) auto
  let ?j = "join '','' (map (\<lambda>(k, v). quoted k @ '':'' @ render v) fs)"
  show ?case
  proof (cases fs)
    case Nil
    then show ?thesis using n by simp
  next
    case (Cons f gs)
    obtain k w where f: "f = (k, w)" by (cases f)
    obtain r' where j: "?j = CHR 0x22 # r'"
      using Cons f by (cases gs) (auto simp: quoted_def)
    have "parse_members m (?j @ CHR ''}'' # rest) = Some (fs, rest)"
      by (rule parse_members_render) (use JObj.IH n Cons in auto)
    then have "parse_members m (CHR 0x22 # r' @ CHR ''}'' # rest) = Some (fs, rest)"
      unfolding j by (simp only: append_Cons)
    moreover have "render (JObj fs) = CHR ''{'' # CHR 0x22 # r' @ [CHR ''}'']"
      unfolding render.simps j by simp
    ultimately show ?thesis using n by (simp del: render.simps)
  qed
qed

lemma length_join_bound:
  "sum_list (map (\<lambda>x. Suc (f x)) xs) \<le> Suc (length (join '','' (map g xs)))"
  if "\<And>x. x \<in> set xs \<Longrightarrow> f x \<le> length (g x)"
  using that
proof (induction xs)
  case (Cons x xs)
  then have "sum_list (map (\<lambda>x. Suc (f x)) xs) \<le> Suc (length (join '','' (map g xs)))" "f x \<le> length (g x)"
    by auto
  then show ?case by (cases "xs = []") (auto simp: join_Cons)
qed simp

lemma need_le_length: "need v \<le> length (render v)"
proof (induction v)
  case (JNum n)
  then show ?case by (cases "dec n") (use dec_nonempty [of n] in auto)
next
  case (JArr vs)
  from length_join_bound [of vs need render] JArr show ?case by auto
next
  case (JObj fs)
  have "sum_list (map (\<lambda>f. Suc (need (snd f))) fs)
      \<le> Suc (length (join '','' (map (\<lambda>f. quoted (fst f) @ '':'' @ render (snd f)) fs)))"
    by (rule length_join_bound) (use JObj in \<open>fastforce simp: snds.intros intro: trans_le_add2\<close>)
  then show ?case by (simp add: case_prod_unfold)
qed (auto simp: quoted_def)

lemma parse_json_render: "parse_json (render v) = Some v"
  using parse_value_render [of v "Suc (length (render v))" "[]"] need_le_length [of v]
  by (simp add: parse_json_def)

section \<open>Text written piece by piece\<close>

text \<open>The loops that put a comma before every element but the first.\<close>

fun comma_loop :: "nat \<Rightarrow> ('a \<Rightarrow> string) \<Rightarrow> 'a list \<Rightarrow> string \<Rightarrow> string" where
  "comma_loop i f [] s = s"
| "comma_loop i f (x # xs) s =
     comma_loop (Suc i) f xs ((if i > 0 then s @ '','' else s) @ f x)"

lemma concat_escape [simp]: "concat (map escape_char s) = json_escape s"
  by (induction s) simp_all

lemma join_Cons_concat: "join sep (x # xs) = x @ concat (map (\<lambda>y. sep @ y) xs)"
  by (induction xs arbitrary: x) simp_all

lemma comma_loop_Suc: "comma_loop (Suc i) f xs s = s @ concat (map (\<lambda>x. '','' @ f x) xs)"
  by (induction xs arbitrary: i s) simp_all

lemma comma_loop_join: "comma_loop 0 f xs s = s @ join '','' (map f xs)"
  by (cases xs) (simp_all add: comma_loop_Suc join_Cons_concat comp_def)

lemma escape_literals [simp]: "escape_char c = [c]" if "c \<in> set ''0123456789abcdefghijklmnopqrstuvwxyz_''"
  using that by (auto simp: escape_char_def)

definition member_text :: "string \<times> json \<Rightarrow> string" where
  "member_text = (\<lambda>(k, v). quoted k @ '':'' @ render v)"

lemma render_obj: "render (JObj fs) = ''{'' @ join '','' (map member_text fs) @ ''}''"
  by (simp add: member_text_def)

lemma escape_hex_char: "d < 16 \<Longrightarrow> escape_char (hex_char d) = [hex_char d]"
proof -
  assume "d < 16"
  then have "(of_char (hex_char d) :: nat) \<ge> 48 \<and> (of_char (hex_char d) :: nat) \<noteq> 92"
    by (simp add: hex_char_def)
  then have "hex_char d \<noteq> CHR 0x22 \<and> hex_char d \<noteq> CHR 0x5C \<and> hex_char d \<noteq> CHR 0x0A
      \<and> hex_char d \<noteq> CHR 0x0D \<and> hex_char d \<noteq> CHR 0x09 \<and> \<not> of_char (hex_char d) < (32 :: nat)"
    by auto
  then show ?thesis by (simp add: escape_char_def)
qed

lemma escape_hex2 [simp]: "json_escape (hex2 (unat (b :: u8))) = hex2 (unat b)"
proof -
  have "unat b div 16 < 16" using byte_bound [of b] by (simp add: less_mult_imp_div_less)
  then show ?thesis by (simp add: hex2_def escape_hex_char)
qed

end
