(* ===== verification/Validation.thy ===== *)
theory Validation
  imports Prelude
begin

unbundle bit_operations_syntax

text \<open>
  The import whitelist: \<open>receiver/src/engine/validation.rs\<close>. The LEB128 reader, the walk over
  the sections of a module and over the entries of its import section, and the verdict. Every
  slice and index of the source is a panic point here; the positions are \<open>usize\<close> values of
  the build target, so that the walk's termination depends on the target.
\<close>

section \<open>The Alphabet\<close>

definition ALLOWED_IMPORTS :: "string list" where
  "ALLOWED_IMPORTS =
     [''gpio_set'', ''gpio_get'', ''delay_ms'', ''get_uptime_us'', ''i2c_transfer'', ''log_msg'',
      ''pwm_set'', ''adc_read'', ''spi_transfer'', ''uart_write'', ''uart_read'', ''get_param'']"

record validation_result =
  valid :: bool
  rejected_imports :: "string list"

section \<open>LEB128\<close>

function leb_loop :: "bytes \<Rightarrow> u32 \<Rightarrow> nat \<Rightarrow> nat \<Rightarrow> u32 \<times> nat" where
  "leb_loop data result shift pos =
     (if pos \<ge> length data then (result, pos)
      else
        let byte = data ! pos;
            pos = pos + 1;
            result = result OR push_bit shift (ucast (byte AND 0x7F))
        in if byte AND 0x80 = 0 then (result, pos)
           else let shift = shift + 7
                in if shift \<ge> 35 then (result, pos) else leb_loop data result shift pos)"
  by pat_completeness auto
termination
  by (relation "measure (\<lambda>(data, result, shift, pos). length data - pos)") auto

declare leb_loop.simps [simp del]

definition read_leb128_u32 :: "bytes \<Rightarrow> u32 \<times> nat" where
  "read_leb128_u32 data = leb_loop data 0 0 0"

section \<open>The import section\<close>

definition read_leb_at :: "target \<Rightarrow> bytes \<Rightarrow> nat \<Rightarrow> (u32 \<times> nat) outcome" where
  "read_leb_at t wasm pos =
     and_then (slice_from wasm pos) (\<lambda>data.
       let (v, br) = read_leb128_u32 data
       in and_then (usize_add t pos br) (\<lambda>pos. Ok (v, pos)))"

definition read_name :: "target \<Rightarrow> bytes \<Rightarrow> nat \<Rightarrow> (string \<times> nat) outcome" where
  "read_name t wasm pos =
     and_then (read_leb_at t wasm pos) (\<lambda>(len, pos).
       and_then (usize_add t pos (unat len)) (\<lambda>stop.
         and_then (slice_range wasm pos stop) (\<lambda>s.
           Ok (case from_utf8 s of Some n \<Rightarrow> n | None \<Rightarrow> '''', stop))))"

definition skip_descriptor :: "target \<Rightarrow> bytes \<Rightarrow> u8 \<Rightarrow> nat \<Rightarrow> nat outcome" where
  "skip_descriptor t wasm kind pos =
     (if kind = 0x00 then
        and_then (read_leb_at t wasm pos) (\<lambda>(_, pos). Ok pos)
      else if kind = 0x01 then
        and_then (usize_add t pos 1) (\<lambda>pos.
          and_then (read_leb_at t wasm pos) (\<lambda>(_, pos).
            and_then (read_leb_at t wasm pos) (\<lambda>(_, pos). Ok pos)))
      else if kind = 0x02 then
        and_then (read_leb_at t wasm pos) (\<lambda>(flags, pos).
          and_then (read_leb_at t wasm pos) (\<lambda>(_, pos).
            if flags AND 1 \<noteq> 0
            then and_then (read_leb_at t wasm pos) (\<lambda>(_, pos). Ok pos)
            else Ok pos))
      else if kind = 0x03 then
        and_then (usize_add t pos 1) (\<lambda>pos. usize_add t pos 1)
      else Ok pos)"

definition import_entry :: "target \<Rightarrow> bytes \<Rightarrow> nat \<Rightarrow> (u8 \<times> string \<times> nat) outcome" where
  "import_entry t wasm pos =
     and_then (read_name t wasm pos) (\<lambda>(_, pos).
       and_then (read_name t wasm pos) (\<lambda>(field, pos).
         and_then (index wasm pos) (\<lambda>kind.
           and_then (usize_add t pos 1) (\<lambda>pos.
             and_then (skip_descriptor t wasm kind pos) (\<lambda>pos.
               Ok (kind, field, pos))))))"

fun imports_loop :: "target \<Rightarrow> bytes \<Rightarrow> nat \<Rightarrow> nat \<Rightarrow> string list \<Rightarrow> string list outcome" where
  "imports_loop t wasm 0 pos rejected = Ok rejected"
| "imports_loop t wasm (Suc n) pos rejected =
     and_then (import_entry t wasm pos) (\<lambda>(kind, field, pos).
       imports_loop t wasm n pos
         (if kind = 0x00 \<and> field \<notin> set ALLOWED_IMPORTS then rejected @ [field] else rejected))"

definition import_section :: "target \<Rightarrow> bytes \<Rightarrow> u32 \<Rightarrow> nat \<Rightarrow> string list outcome" where
  "import_section t wasm section_size pos =
     and_then (usize_add t pos (unat section_size)) (\<lambda>section_end.
       and_then (read_leb_at t wasm pos) (\<lambda>(num_imports, pos).
         imports_loop t wasm (unat num_imports) pos []))"

section \<open>The walk over the sections\<close>

definition section_header :: "target \<Rightarrow> bytes \<Rightarrow> nat \<Rightarrow> (u8 \<times> u32 \<times> nat) outcome" where
  "section_header t wasm pos =
     and_then (index wasm pos) (\<lambda>section_id.
       and_then (usize_add t pos 1) (\<lambda>pos.
         and_then (read_leb_at t wasm pos) (\<lambda>(size, pos). Ok (section_id, size, pos))))"

text \<open>One iteration of the \<open>while\<close>: the verdict, or the position to go on from.\<close>

definition section_step :: "target \<Rightarrow> bytes \<Rightarrow> nat \<Rightarrow> (string list + nat) outcome" where
  "section_step t wasm pos =
     (if pos < length wasm then
        and_then (section_header t wasm pos) (\<lambda>(section_id, size, pos).
          if section_id = 2
          then and_then (import_section t wasm size pos) (\<lambda>rejected. Ok (Inl rejected))
          else and_then (usize_add t pos (unat size)) (\<lambda>pos. Ok (Inr pos)))
      else Ok (Inl []))"

partial_function (option) sections_loop :: "target \<Rightarrow> bytes \<Rightarrow> nat \<Rightarrow> string list outcome option" where
  "sections_loop t wasm pos =
     (case section_step t wasm pos of
        Ok (Inl rejected) \<Rightarrow> Some (Ok rejected)
      | Ok (Inr pos') \<Rightarrow> sections_loop t wasm pos'
      | Panic \<Rightarrow> Some Panic
      | Diverges \<Rightarrow> Some Diverges)"

definition walk_sections :: "target \<Rightarrow> bytes \<Rightarrow> nat \<Rightarrow> string list outcome" where
  "walk_sections t wasm pos =
     (case sections_loop t wasm pos of Some r \<Rightarrow> r | None \<Rightarrow> Diverges)"

definition validate_wasm_imports :: "target \<Rightarrow> bytes \<Rightarrow> validation_result outcome" where
  "validate_wasm_imports t wasm =
     (if length wasm < 8 then
        Ok \<lparr>valid = False, rejected_imports = [''invalid wasm: too short'']\<rparr>
      else if take 4 wasm \<noteq> [0x00, 0x61, 0x73, 0x6D] then
        Ok \<lparr>valid = False, rejected_imports = [''invalid wasm: bad magic'']\<rparr>
      else
        and_then (walk_sections t wasm 8) (\<lambda>rejected.
          Ok \<lparr>valid = (rejected = []), rejected_imports = rejected\<rparr>))"

section \<open>LEB128: lemmas\<close>

text \<open>The unsigned LEB128 encoding the wasm format prescribes.\<close>

function leb128_encode :: "nat \<Rightarrow> bytes" where
  "leb128_encode n =
     (if n < 128 then [word_of_nat n]
      else word_of_nat (n mod 128 + 128) # leb128_encode (n div 128))"
  by pat_completeness auto
termination by (relation "measure id") auto

declare leb128_encode.simps [simp del]

lemma unat_and_7F: "unat ((b :: u8) AND 0x7F) = unat b mod 128"
proof -
  have "b AND 0x7F = take_bit 7 b" by (simp add: take_bit_eq_mask mask_eq_exp_minus_1)
  then have "unat (b AND 0x7F) = take_bit 7 (unat b)" by (simp only: unsigned_take_bit_eq)
  then show ?thesis by (simp add: take_bit_eq_mod)
qed

lemma and_80_eq_0: "(b :: u8) AND 0x80 = 0 \<longleftrightarrow> unat b < 128"
proof -
  have "(b AND 0x80 = 0) \<longleftrightarrow> \<not> bit b 7"
    using and_exp_eq_0_iff_not_bit [of b 7] by simp
  also have "\<dots> \<longleftrightarrow> \<not> bit (unat b) 7" by (simp add: bit_unsigned_iff)
  also have "\<dots> \<longleftrightarrow> even (unat b div 128)" by (simp add: bit_iff_odd)
  also have "\<dots> \<longleftrightarrow> unat b < 128"
  proof (cases "unat b < 128")
    case False
    have "unat b div 128 < 2" using byte_bound [of b] by (simp add: less_mult_imp_div_less)
    moreover have "unat b div 128 \<noteq> 0" using False by simp
    ultimately have "unat b div 128 = 1" by linarith
    then show ?thesis using False by simp
  qed simp
  finally show ?thesis .
qed

lemma join_7: "push_bit s (word_of_nat (n mod 128) :: u32) OR push_bit (s + 7) (word_of_nat (n div 128))
   = push_bit s (word_of_nat n)"
proof (rule bit_eqI)
  fix k
  have m: "n mod 128 = take_bit 7 n" "n div 128 = drop_bit 7 n"
    by (simp_all add: take_bit_eq_mod drop_bit_eq_div)
  have k: "7 + (k - (s + 7)) = k - s" if "s + 7 \<le> k" using that by simp
  show "bit (push_bit s (word_of_nat (n mod 128) :: u32) OR push_bit (s + 7) (word_of_nat (n div 128))) k
        = bit (push_bit s (word_of_nat n :: u32)) k"
    unfolding m by (cases "s + 7 \<le> k") (auto simp: bit_simps k)
qed

lemma ucast_7F: "(ucast ((b::u8) AND 0x7F) :: u32) = word_of_nat (unat b mod 128)"
  by (simp only: unat_and_7F [symmetric]) simp

lemma enc_byte_last: "n < 128 \<Longrightarrow> unat (word_of_nat n :: u8) = n" by (simp only: unat_of_nat_u8) simp

lemma enc_byte_more: "unat (word_of_nat (n mod 128 + 128) :: u8) = n mod 128 + 128"
  by (simp only: unat_of_nat_u8) simp

lemma leb_loop_encode:
  assumes "n * 2 ^ shift < 4294967296" "shift \<le> 28" "7 dvd shift"
  shows "leb_loop (pre @ leb128_encode n @ rest) r shift (length pre)
     = (r OR push_bit shift (word_of_nat n), length pre + length (leb128_encode n))"
  using assms
proof (induction n arbitrary: pre r shift rule: leb128_encode.induct)
  case (1 n)
  show ?case
  proof (cases "n < 128")
    case True
    then show ?thesis
      by (subst leb_loop.simps)
         (simp add: leb128_encode.simps [of n] Let_def nth_append and_80_eq_0 ucast_7F enc_byte_last del: unsigned_of_nat of_nat_unat)
  next
    case False
    let ?b = "word_of_nat (n mod 128 + 128) :: u8"
    have eq: "pre @ leb128_encode n @ rest = (pre @ [?b]) @ leb128_encode (n div 128) @ rest"
      using False by (simp add: leb128_encode.simps [of n])
    have s: "shift + 7 \<le> 28"
    proof (rule ccontr)
      assume "\<not> shift + 7 \<le> 28"
      then have "shift = 28" using "1.prems"(2,3) by presburger
      then show False using "1.prems"(1) False by simp
    qed
    have p: "(n div 128) * 2 ^ (shift + 7) < 4294967296"
    proof -
      have "(n div 128) * 2 ^ (shift + 7) = (n div 128 * 128) * 2 ^ shift" by (simp add: power_add)
      also have "\<dots> \<le> n * 2 ^ shift" by (intro mult_right_mono) simp_all
      finally show ?thesis using "1.prems"(1) by simp
    qed
    have IH: "leb_loop ((pre @ [?b]) @ leb128_encode (n div 128) @ rest) r' (shift + 7) (length (pre @ [?b]))
        = (r' OR push_bit (shift + 7) (word_of_nat (n div 128)), length (pre @ [?b]) + length (leb128_encode (n div 128)))" for r'
      using False s p "1.prems"(3) by (intro "1.IH") simp_all
    have b: "(ucast (?b AND 0x7F) :: u32) = word_of_nat (n mod 128)"
      by (simp only: ucast_7F enc_byte_more) simp
    have nz: "?b AND 0x80 \<noteq> 0" by (simp only: and_80_eq_0 enc_byte_more)
    have "leb_loop (pre @ leb128_encode n @ rest) r shift (length pre)
        = leb_loop (pre @ leb128_encode n @ rest) (r OR push_bit shift (word_of_nat (n mod 128))) (shift + 7) (Suc (length pre))"
      using s nz b unfolding eq
      by (subst leb_loop.simps) (simp add: Let_def nth_append del: unsigned_of_nat of_nat_add of_nat_mod)
    also have "\<dots> = (r OR push_bit shift (word_of_nat n), length pre + length (leb128_encode n))"
      using IH [of "r OR push_bit shift (word_of_nat (n mod 128))"] False unfolding eq
      by (simp add: join_7 or.assoc leb128_encode.simps [of n] del: of_nat_mod)
    finally show ?thesis .
  qed
qed

lemma read_leb128_encode:
  "n < 4294967296 \<Longrightarrow>
     read_leb128_u32 (leb128_encode n @ rest) = (word_of_nat n, length (leb128_encode n))"
  using leb_loop_encode [of n 0 "[]" rest 0] by (simp add: read_leb128_u32_def)

lemma leb_loop_pos:
  "pos \<le> length data \<Longrightarrow> pos \<le> snd (leb_loop data r s pos) \<and> snd (leb_loop data r s pos) \<le> length data"
proof (induction data r s pos rule: leb_loop.induct)
  case (1 data r s pos)
  show ?case
  proof (cases "pos < length data \<and> data ! pos AND 0x80 \<noteq> 0 \<and> s + 7 < 35")
    case True
    with "1.IH" [OF _ refl refl refl _ refl]
    have "Suc pos \<le> snd (leb_loop data (r OR push_bit s (ucast (data ! pos AND 0x7F))) (s + 7) (Suc pos))
        \<and> snd (leb_loop data (r OR push_bit s (ucast (data ! pos AND 0x7F))) (s + 7) (Suc pos)) \<le> length data"
      by (simp add: not_le)
    with True show ?thesis by (subst (1 2) leb_loop.simps) (simp add: Let_def not_le)
  next
    case False
    with "1.prems" show ?thesis by (subst (1 2) leb_loop.simps) (auto simp: Let_def not_le)
  qed
qed

lemma read_leb128_le: "snd (read_leb128_u32 data) \<le> length data"
  using leb_loop_pos [of 0 data 0 0] by (simp add: read_leb128_u32_def)

section \<open>The binary format, as an encoder\<close>

text \<open>
  The specification the walk is checked against: the WebAssembly binary format of the
  sections before the import section and of its entries. A table or memory type carries its
  limits as a flag, a minimum and, when the flag is 1, a maximum.
\<close>

datatype import_desc =
    FuncImport nat
  | TableImport u8 nat "nat option"
  | MemImport nat "nat option"
  | GlobalImport u8 u8

record wasm_import =
  im_module :: string
  im_field :: string
  im_desc :: import_desc

definition encode_limits :: "nat \<Rightarrow> nat option \<Rightarrow> bytes" where
  "encode_limits mi ma = (case ma of
     None \<Rightarrow> leb128_encode 0 @ leb128_encode mi
   | Some m \<Rightarrow> leb128_encode 1 @ leb128_encode mi @ leb128_encode m)"

fun encode_desc :: "import_desc \<Rightarrow> bytes" where
  "encode_desc (FuncImport n) = 0x00 # leb128_encode n"
| "encode_desc (TableImport ty mi ma) = 0x01 # ty # encode_limits mi ma"
| "encode_desc (MemImport mi ma) = 0x02 # encode_limits mi ma"
| "encode_desc (GlobalImport ty mut) = [0x03, ty, mut]"

definition encode_name :: "string \<Rightarrow> bytes" where
  "encode_name n = leb128_encode (length n) @ bytes_of_str n"

definition encode_import :: "wasm_import \<Rightarrow> bytes" where
  "encode_import i = encode_name (im_module i) @ encode_name (im_field i) @ encode_desc (im_desc i)"

definition encode_imports :: "wasm_import list \<Rightarrow> bytes" where
  "encode_imports is = leb128_encode (length is) @ concat (map encode_import is)"

definition encode_section :: "u8 \<times> bytes \<Rightarrow> bytes" where
  "encode_section s = fst s # leb128_encode (length (snd s)) @ snd s"

definition wasm_header :: bytes where
  "wasm_header = [0x00, 0x61, 0x73, 0x6D, 0x01, 0x00, 0x00, 0x00]"

definition encode_module :: "(u8 \<times> bytes) list \<Rightarrow> wasm_import list \<Rightarrow> bytes \<Rightarrow> bytes" where
  "encode_module pre is rest =
     wasm_header @ concat (map encode_section pre) @ encode_section (2, encode_imports is) @ rest"

fun limits_ok :: "nat \<Rightarrow> nat option \<Rightarrow> bool" where
  "limits_ok mi None = (mi < 4294967296)"
| "limits_ok mi (Some m) = (mi < 4294967296 \<and> m < 4294967296)"

fun desc_ok :: "import_desc \<Rightarrow> bool" where
  "desc_ok (FuncImport n) = (n < 4294967296)"
| "desc_ok (TableImport ty mi ma) = (limits_ok mi ma \<and> ma = None)"
| "desc_ok (MemImport mi ma) = limits_ok mi ma"
| "desc_ok (GlobalImport ty mut) = True"

definition name_ok :: "string \<Rightarrow> bool" where
  "name_ok n \<longleftrightarrow> length n < 4294967296 \<and> utf8_valid (bytes_of_str n)"

definition import_ok :: "wasm_import \<Rightarrow> bool" where
  "import_ok i \<longleftrightarrow> name_ok (im_module i) \<and> name_ok (im_field i) \<and> desc_ok (im_desc i)"

fun is_func :: "import_desc \<Rightarrow> bool" where
  "is_func (FuncImport n) = True"
| "is_func _ = False"

text \<open>The verdict the whitelist owes: the fields of the function imports it does not list.\<close>

definition outside_alphabet :: "wasm_import list \<Rightarrow> string list" where
  "outside_alphabet is =
     map im_field (filter (\<lambda>i. is_func (im_desc i) \<and> im_field i \<notin> set ALLOWED_IMPORTS) is)"

section \<open>The walk reads what the encoder wrote\<close>

text \<open>\<open>unread wasm pos xs\<close>: the input from \<open>pos\<close> on is \<open>xs\<close>.\<close>

definition unread :: "bytes \<Rightarrow> nat \<Rightarrow> bytes \<Rightarrow> bool" where
  "unread wasm pos xs \<longleftrightarrow> pos \<le> length wasm \<and> drop pos wasm = xs"

lemma unread_append: "unread wasm pos (xs @ ys) \<Longrightarrow> unread wasm (pos + length xs) ys"
  unfolding unread_def
  by (metis add.commute append_eq_conv_conj drop_drop le_add1 length_append length_drop
      add_le_cancel_left le_add_diff_inverse)

lemma unread_Cons: "unread wasm pos (x # ys) \<Longrightarrow> unread wasm (Suc pos) ys"
  using unread_append [of wasm pos "[x]" ys] by simp

lemma unread_bound: "unread wasm pos (xs @ ys) \<Longrightarrow> pos + length xs \<le> length wasm"
  using unread_append unread_def by blast

lemma unread_index: "unread wasm pos (x # ys) \<Longrightarrow> index wasm pos = Ok x"
  unfolding unread_def index_def
  by (metis drop_all list.discI not_le nth_via_drop)

lemma unread_slice: "unread wasm pos (xs @ ys) \<Longrightarrow> slice_range wasm pos (pos + length xs) = Ok xs"
  using unread_bound [of wasm pos xs ys] by (auto simp: unread_def slice_range_def)

lemma usize_add_in: "p + n \<le> length wasm \<Longrightarrow> length wasm < 2 ^ usize_bits t \<Longrightarrow> usize_add t p n = Ok (p + n)"
  by simp

lemma read_leb_at_unread:
  assumes "unread wasm pos (leb128_encode n @ rest)" "n < 4294967296" "length wasm < 2 ^ usize_bits t"
  shows "read_leb_at t wasm pos = Ok (word_of_nat n, pos + length (leb128_encode n))"
proof -
  have "slice_from wasm pos = Ok (leb128_encode n @ rest)"
    using assms(1) by (simp add: unread_def slice_from_def)
  then show ?thesis
    using unread_bound [OF assms(1)] assms(2,3)
    by (simp add: read_leb_at_def read_leb128_encode)
qed

lemma read_name_unread:
  assumes u: "unread wasm pos (encode_name n @ rest)" and n: "name_ok n"
    and w: "length wasm < 2 ^ usize_bits t"
  shows "read_name t wasm pos = Ok (n, pos + length (encode_name n))"
proof -
  let ?p = "pos + length (leb128_encode (length n))"
  have u1: "unread wasm pos (leb128_encode (length n) @ bytes_of_str n @ rest)"
    using u by (simp add: encode_name_def)
  have u2: "unread wasm ?p (bytes_of_str n @ rest)" using unread_append [OF u1] .
  have len: "unat (word_of_nat (length n) :: u32) = length n"
    using n by (simp only: name_ok_def unat_of_nat_u32) simp
  have b: "?p + length n \<le> length wasm" using unread_bound [OF u2] by simp
  have r: "read_leb_at t wasm pos = Ok (word_of_nat (length n), ?p)"
    using u1 n w by (simp add: read_leb_at_unread name_ok_def)
  have s: "slice_range wasm ?p (?p + length n) = Ok (bytes_of_str n)"
    using unread_slice [OF u2] by simp
  show ?thesis
    using n w b unfolding read_name_def
    by (simp add: r len s [unfolded add.assoc] from_utf8_def name_ok_def encode_name_def add.assoc
        del: unsigned_of_nat)
qed

lemma skip_limits:
  assumes u: "unread wasm pos (encode_limits mi ma @ rest)" and l: "limits_ok mi ma"
    and w: "length wasm < 2 ^ usize_bits t"
  shows "read_leb_at t wasm pos = Ok (of_bool (ma \<noteq> None), pos + length (leb128_encode (of_bool (ma \<noteq> None))))"
    and "read_leb_at t wasm (pos + length (leb128_encode (of_bool (ma \<noteq> None))))
           = Ok (word_of_nat mi, pos + length (leb128_encode (of_bool (ma \<noteq> None))) + length (leb128_encode mi))"
    and "ma = Some m \<Longrightarrow>
           read_leb_at t wasm (pos + length (leb128_encode (of_bool (ma \<noteq> None))) + length (leb128_encode mi))
           = Ok (word_of_nat m, pos + length (encode_limits mi ma))"
proof -
  let ?f = "of_bool (ma \<noteq> None) :: nat"
  define tl where "tl = (case ma of None \<Rightarrow> [] | Some m \<Rightarrow> leb128_encode m) @ rest"
  have u0: "unread wasm pos (leb128_encode ?f @ leb128_encode mi @ tl)"
    using u by (cases ma) (simp_all add: encode_limits_def tl_def)
  have u1: "unread wasm (pos + length (leb128_encode ?f)) (leb128_encode mi @ tl)"
    using unread_append [OF u0] .
  have u2: "unread wasm (pos + length (leb128_encode ?f) + length (leb128_encode mi)) tl"
    using unread_append [OF u1] .
  have mi: "mi < 4294967296" using l by (cases ma) auto
  show "read_leb_at t wasm pos = Ok (of_bool (ma \<noteq> None), pos + length (leb128_encode ?f))"
    using read_leb_at_unread [OF u0 _ w] by (cases ma) simp_all
  show "read_leb_at t wasm (pos + length (leb128_encode ?f))
      = Ok (word_of_nat mi, pos + length (leb128_encode ?f) + length (leb128_encode mi))"
    using read_leb_at_unread [OF u1 mi w] .
  show "read_leb_at t wasm (pos + length (leb128_encode ?f) + length (leb128_encode mi))
      = Ok (word_of_nat m, pos + length (encode_limits mi ma))" if "ma = Some m"
  proof -
    have m: "m < 4294967296" using l that by simp
    have "unread wasm (pos + length (leb128_encode ?f) + length (leb128_encode mi)) (leb128_encode m @ rest)"
      using u2 that by (simp add: tl_def)
    from read_leb_at_unread [OF this m w] show ?thesis
      using that by (simp add: encode_limits_def add.assoc)
  qed
qed

fun kind_byte :: "import_desc \<Rightarrow> u8" where
  "kind_byte (FuncImport n) = 0x00"
| "kind_byte (TableImport ty mi ma) = 0x01"
| "kind_byte (MemImport mi ma) = 0x02"
| "kind_byte (GlobalImport ty mut) = 0x03"

lemma kind_byte_func: "kind_byte d = 0 \<longleftrightarrow> is_func d"
  by (cases d) auto

lemma encode_desc_kind: "encode_desc d = kind_byte d # tl (encode_desc d)"
  by (cases d) auto

lemma skip_descriptor_unread:
  assumes u: "unread wasm pos (tl (encode_desc d) @ rest)" and d: "desc_ok d"
    and w: "length wasm < 2 ^ usize_bits t"
  shows "skip_descriptor t wasm (kind_byte d) pos = Ok (pos + length (tl (encode_desc d)))"
proof (cases d)
  case (FuncImport n)
  with u d have "read_leb_at t wasm pos = Ok (word_of_nat n, pos + length (leb128_encode n))"
    by (intro read_leb_at_unread [where rest = rest] w) simp_all
  with FuncImport show ?thesis by (simp add: skip_descriptor_def)
next
  case (TableImport ty mi ma)
  with d have ma: "ma = None" by simp
  with d TableImport have l: "limits_ok mi None" by simp
  have u1: "unread wasm (Suc pos) (encode_limits mi None @ rest)"
    using u TableImport ma by (auto dest: unread_Cons)
  have b: "Suc pos \<le> length wasm" using u1 by (simp add: unread_def)
  show ?thesis
    using skip_limits(1,2) [OF u1 l w] b w TableImport ma
    by (simp add: skip_descriptor_def encode_limits_def)
next
  case (MemImport mi ma)
  with d u have l: "limits_ok mi ma" and u1: "unread wasm pos (encode_limits mi ma @ rest)"
    by simp_all
  show ?thesis
  proof (cases ma)
    case None
    then show ?thesis using skip_limits(1,2) [OF u1 l w] MemImport
      by (simp add: skip_descriptor_def encode_limits_def)
  next
    case (Some m)
    then show ?thesis using skip_limits [OF u1 l w] MemImport
      by (simp add: skip_descriptor_def encode_limits_def)
  qed
next
  case (GlobalImport ty mut)
  with u have "pos + 2 \<le> length wasm"
    using unread_bound [of wasm pos "[ty, mut]" rest] by simp
  with GlobalImport w show ?thesis by (simp add: skip_descriptor_def)
qed

lemma import_entry_unread:
  assumes u: "unread wasm pos (encode_import i @ rest)" and i: "import_ok i"
    and w: "length wasm < 2 ^ usize_bits t"
  shows "import_entry t wasm pos = Ok (kind_byte (im_desc i), im_field i, pos + length (encode_import i))"
proof -
  let ?d = "im_desc i"
  let ?p1 = "pos + length (encode_name (im_module i))"
  let ?p2 = "?p1 + length (encode_name (im_field i))"
  from i have n1: "name_ok (im_module i)" and n2: "name_ok (im_field i)" and d: "desc_ok ?d"
    by (simp_all add: import_ok_def)
  have u0: "unread wasm pos (encode_name (im_module i) @ encode_name (im_field i) @ encode_desc ?d @ rest)"
    using u by (simp add: encode_import_def)
  have u1: "unread wasm ?p1 (encode_name (im_field i) @ encode_desc ?d @ rest)"
    using unread_append [OF u0] .
  have u2: "unread wasm ?p2 (kind_byte ?d # tl (encode_desc ?d) @ rest)"
    using unread_append [OF u1] by (subst (asm) encode_desc_kind) simp
  have u3: "unread wasm (Suc ?p2) (tl (encode_desc ?d) @ rest)" using unread_Cons [OF u2] .
  have b: "Suc ?p2 \<le> length wasm" using u3 by (simp add: unread_def)
  have a: "usize_add t ?p2 1 = Ok (Suc ?p2)" using b w by simp
  have e: "Suc ?p2 + length (tl (encode_desc ?d)) = pos + length (encode_import i)"
    by (cases ?d) (simp_all add: encode_import_def)
  show ?thesis
    unfolding import_entry_def
    by (simp only: and_then.simps prod.case read_name_unread [OF u0 n1 w] read_name_unread [OF u1 n2 w]
        unread_index [OF u2] a skip_descriptor_unread [OF u3 d w] e)
qed

lemma imports_loop_unread:
  assumes "unread wasm pos (concat (map encode_import is) @ rest)" "\<forall>i \<in> set is. import_ok i"
    and w: "length wasm < 2 ^ usize_bits t"
  shows "imports_loop t wasm (length is) pos rejected = Ok (rejected @ outside_alphabet is)"
  using assms(1,2)
proof (induction "is" arbitrary: pos rejected)
  case Nil
  then show ?case by (simp add: outside_alphabet_def)
next
  case (Cons i "is")
  have u: "unread wasm pos (encode_import i @ concat (map encode_import is) @ rest)"
    using Cons.prems(1) by simp
  have "import_entry t wasm pos = Ok (kind_byte (im_desc i), im_field i, pos + length (encode_import i))"
    using import_entry_unread [OF u _ w] Cons.prems(2) by simp
  with Cons.IH [OF unread_append [OF u]] Cons.prems(2) show ?case
    by (simp add: outside_alphabet_def kind_byte_func)
qed

lemma section_header_unread:
  assumes u: "unread wasm pos (encode_section (k, c) @ rest)" and c: "length c < 4294967296"
    and w: "length wasm < 2 ^ usize_bits t"
  shows "section_header t wasm pos
           = Ok (k, word_of_nat (length c), Suc pos + length (leb128_encode (length c)))"
    and "unread wasm (Suc pos + length (leb128_encode (length c))) (c @ rest)"
proof -
  have u0: "unread wasm pos (k # leb128_encode (length c) @ c @ rest)"
    using u by (simp add: encode_section_def)
  note u1 = unread_Cons [OF u0]
  have "Suc pos \<le> length wasm" using u1 by (simp add: unread_def)
  then show "section_header t wasm pos
      = Ok (k, word_of_nat (length c), Suc pos + length (leb128_encode (length c)))"
    using w unfolding section_header_def
    by (simp add: unread_index [OF u0] read_leb_at_unread [OF u1 c w])
  show "unread wasm (Suc pos + length (leb128_encode (length c))) (c @ rest)"
    using unread_append [OF u1] by simp
qed

lemma unread_pos_lt: "unread wasm pos (x # xs) \<Longrightarrow> pos < length wasm"
  by (auto simp: unread_def intro: ccontr)

lemma section_step_unread:
  assumes u: "unread wasm pos (encode_section (k, c) @ rest)" and c: "length c < 4294967296"
    and w: "length wasm < 2 ^ usize_bits t" and k: "k \<noteq> 2"
  shows "section_step t wasm pos = Ok (Inr (pos + length (encode_section (k, c))))"
proof -
  note h = section_header_unread [OF u c w]
  have len: "unat (word_of_nat (length c) :: u32) = length c"
    using c by (simp only: unat_of_nat_u32 mod_less)
  have "pos < length wasm" using u by (intro unread_pos_lt) (simp add: encode_section_def)
  moreover have "Suc pos + length (leb128_encode (length c)) + length c \<le> length wasm"
    using unread_bound [OF h(2)] .
  ultimately show ?thesis
    using w k unfolding section_step_def
    by (simp add: h(1) len encode_section_def del: unsigned_of_nat)
qed

lemma import_section_unread:
  assumes u: "unread wasm pos (encode_imports is @ rest)" and i: "\<forall>i \<in> set is. import_ok i"
    and l: "length (encode_imports is) < 4294967296" "length is < 4294967296"
    and w: "length wasm < 2 ^ usize_bits t"
  shows "import_section t wasm (word_of_nat (length (encode_imports is))) pos = Ok (outside_alphabet is)"
proof -
  have u0: "unread wasm pos (leb128_encode (length is) @ concat (map encode_import is) @ rest)"
    using u by (simp add: encode_imports_def)
  have "pos + length (encode_imports is) \<le> length wasm" using unread_bound [OF u] .
  then have "usize_add t pos (unat (word_of_nat (length (encode_imports is)) :: u32))
      = Ok (pos + length (encode_imports is))"
    using w l(1) by (simp only: unat_of_nat_u32 mod_less) simp
  moreover have "unat (word_of_nat (length is) :: u32) = length is"
    using l(2) by (simp only: unat_of_nat_u32 mod_less)
  ultimately show ?thesis
    using imports_loop_unread [OF unread_append [OF u0] i w]
    unfolding import_section_def by (simp add: read_leb_at_unread [OF u0 l(2) w])
qed

lemma sections_loop_Inr:
  "section_step t wasm pos = Ok (Inr p) \<Longrightarrow> sections_loop t wasm pos = sections_loop t wasm p"
  by (subst sections_loop.simps) simp

lemma sections_loop_Inl:
  "section_step t wasm pos = Ok (Inl rej) \<Longrightarrow> sections_loop t wasm pos = Some (Ok rej)"
  by (subst sections_loop.simps) simp

lemma sections_loop_unread:
  assumes "unread wasm pos (concat (map encode_section pre) @ encode_section (2, encode_imports is) @ rest)"
    and "\<forall>s \<in> set pre. fst s \<noteq> 2 \<and> length (snd s) < 4294967296"
    and i: "\<forall>i \<in> set is. import_ok i"
    and l: "length (encode_imports is) < 4294967296" "length is < 4294967296"
    and w: "length wasm < 2 ^ usize_bits t"
  shows "sections_loop t wasm pos = Some (Ok (outside_alphabet is))"
  using assms(1,2)
proof (induction pre arbitrary: pos)
  case Nil
  let ?c = "encode_imports is"
  have u: "unread wasm pos (encode_section (2, ?c) @ rest)" using Nil by simp
  note h = section_header_unread [OF u l(1) w]
  have "pos < length wasm" using u by (intro unread_pos_lt) (simp add: encode_section_def)
  then have "section_step t wasm pos = Ok (Inl (outside_alphabet is))"
    using import_section_unread [OF h(2) i l w] unfolding section_step_def by (simp add: h(1))
  then show ?case by (rule sections_loop_Inl)
next
  case (Cons s pre)
  obtain k c where s: "s = (k, c)" by (cases s)
  have u: "unread wasm pos (encode_section (k, c) @ concat (map encode_section pre)
      @ encode_section (2, encode_imports is) @ rest)"
    using Cons.prems(1) s by simp
  have "section_step t wasm pos = Ok (Inr (pos + length (encode_section (k, c))))"
    using Cons.prems(2) s by (intro section_step_unread [OF u _ w]) simp_all
  moreover have "sections_loop t wasm (pos + length (encode_section (k, c))) = Some (Ok (outside_alphabet is))"
    using Cons.IH [OF unread_append [OF u]] Cons.prems(2) by simp
  ultimately show ?case by (simp add: sections_loop_Inr)
qed

section \<open>Properties\<close>


definition sample_imports :: "wasm_import list" where
  "sample_imports =
     [\<lparr>im_module = ''env'', im_field = ''gpio_set'', im_desc = FuncImport 0\<rparr>,
      \<lparr>im_module = ''env'', im_field = ''memory'', im_desc = MemImport 1 (Some 2)\<rparr>,
      \<lparr>im_module = ''wasi'', im_field = ''fd_write'', im_desc = FuncImport 1\<rparr>]"


text \<open>Nothing below the walk over the sections fails to return.\<close>

lemma base_not_Diverges [simp]:
  "slice_from xs a \<noteq> Diverges" "slice_range xs a b \<noteq> Diverges" "index xs a \<noteq> Diverges"
  "usize_add t a b \<noteq> Diverges"
  by (simp_all add: slice_from_def slice_range_def index_def usize_add_def)

lemma read_leb_at_not_Diverges [simp]: "read_leb_at t wasm pos \<noteq> Diverges"
  by (auto simp: read_leb_at_def outcome_simps split: prod.splits)

lemma read_name_not_Diverges [simp]: "read_name t wasm pos \<noteq> Diverges"
  by (auto simp: read_name_def outcome_simps)

lemma skip_descriptor_not_Diverges [simp]: "skip_descriptor t wasm k pos \<noteq> Diverges"
  by (auto simp: skip_descriptor_def outcome_simps split: if_splits)

lemma import_entry_not_Diverges [simp]: "import_entry t wasm pos \<noteq> Diverges"
  by (auto simp: import_entry_def outcome_simps)

lemma imports_loop_not_Diverges [simp]: "imports_loop t wasm n pos rej \<noteq> Diverges"
  by (induction t wasm n pos rej rule: imports_loop.induct) (auto simp: outcome_simps)

lemma section_step_not_Diverges [simp]: "section_step t wasm pos \<noteq> Diverges"
  by (auto simp: section_step_def section_header_def import_section_def outcome_simps split: if_splits)

text \<open>Where positions cannot wrap, every iteration moves forward.\<close>

definition no_wrap :: "target \<Rightarrow> bytes \<Rightarrow> bool" where
  "no_wrap t wasm \<longleftrightarrow> overflow_checks t \<or> length wasm + 4294967296 \<le> 2 ^ usize_bits t"

lemma read_leb_at_Ok:
  assumes "read_leb_at t wasm pos = Ok (v, p)" and "length wasm < 2 ^ usize_bits t"
  shows "pos \<le> p \<and> p \<le> length wasm"
proof -
  from assms(1) have pos: "pos \<le> length wasm"
    by (auto simp: read_leb_at_def slice_from_def outcome_simps split: if_splits)
  then have "snd (read_leb128_u32 (drop pos wasm)) \<le> length wasm - pos"
    using read_leb128_le [of "drop pos wasm"] by simp
  with pos assms show ?thesis
    by (auto simp: read_leb_at_def slice_from_def outcome_simps split: prod.splits)
qed

lemma section_step_forward:
  assumes "section_step t wasm pos = Ok (Inr p)" and nw: "no_wrap t wasm"
    and w: "length wasm < 2 ^ usize_bits t"
  shows "pos < p \<and> pos < length wasm"
proof -
  from assms(1) obtain k size p0 where lt: "pos < length wasm"
    and h: "section_header t wasm pos = Ok (k, size, p0)" and p: "usize_add t p0 (unat size) = Ok p"
    by (auto simp: section_step_def outcome_simps split: if_splits)
  from lt have "usize_add t pos 1 = Ok (Suc pos)" using w by simp
  with h have "read_leb_at t wasm (Suc pos) = Ok (size, p0)"
    by (auto simp: section_header_def outcome_simps)
  from read_leb_at_Ok [OF this w] have p0: "Suc pos \<le> p0" "p0 \<le> length wasm" by auto
  have "p0 + unat size < length wasm + 4294967296" using p0 u32_bound [of size] by linarith
  with nw p have "p = p0 + unat size"
    by (auto simp: no_wrap_def usize_add_def split: if_splits)
  with p0 lt show ?thesis by simp
qed

lemma sections_loop_returns:
  assumes nw: "no_wrap t wasm" and w: "length wasm < 2 ^ usize_bits t"
  shows "\<exists>r. sections_loop t wasm pos = Some r \<and> r \<noteq> Diverges"
proof (induction "length wasm - pos" arbitrary: pos rule: less_induct)
  case less
  show ?case
  proof (cases "section_step t wasm pos")
    case (Ok x)
    show ?thesis
    proof (cases x)
      case (Inl rej)
      with Ok show ?thesis by (simp add: sections_loop_Inl)
    next
      case (Inr p)
      with section_step_forward [OF _ nw w] Ok have "pos < p" "pos < length wasm" by auto
      then have "length wasm - p < length wasm - pos" by linarith
      with less [of p] Ok Inr show ?thesis by (simp add: sections_loop_Inr)
    qed
  qed (auto simp: sections_loop.simps [of t wasm pos])
qed

text \<open>
  C19: where \<open>usize\<close> positions cannot wrap (a build with overflow checks, or a 64-bit target)
  the validator terminates on every input, well-formed or not, with a verdict or a panic.
\<close>
theorem validate_terminates:
  assumes "overflow_checks t \<or> length wasm + 4294967296 \<le> 2 ^ usize_bits t"
    and "length wasm < 2 ^ usize_bits t"
  shows "validate_wasm_imports t wasm \<noteq> Diverges"
  using sections_loop_returns [of t wasm 8] assms
  by (auto simp: validate_wasm_imports_def walk_sections_def no_wrap_def outcome_simps split: option.splits)

theorem validate_terminates_witness:
  "validate_wasm_imports laptop_release [0x00, 0x61, 0x73, 0x6D, 1, 0, 0, 0, 2, 0xFF] \<noteq> Diverges"
  by (rule validate_terminates) (simp_all add: laptop_release_def)

text \<open>
  On the 32-bit boards in a release build the position wraps around: a section whose size
  leads back to its own header makes the walk start over.
\<close>

definition wrapping_module :: bytes where
  "wrapping_module = wasm_header @ [0x00, 0xFA, 0xFF, 0xFF, 0xFF, 0x0F]"

lemma wrapping_leb: "read_leb128_u32 [0xFA, 0xFF, 0xFF, 0xFF, 0x0F] = (0xFFFFFFFA, 5)"
  using read_leb128_encode [of 4294967290 "[]"] by (simp add: leb128_encode.simps)

lemma wrapping_step: "section_step esp32c3_release wrapping_module 8 = Ok (Inr 8)"
  by (simp add: section_step_def section_header_def read_leb_at_def wrapping_module_def wasm_header_def
      index_def slice_from_def wrapping_leb usize_add_def esp32c3_release_def)

lemma wrapping_loop: "sections_loop esp32c3_release wrapping_module 8 = None"
proof (rule ccontr)
  assume "sections_loop esp32c3_release wrapping_module 8 \<noteq> None"
  then obtain r where r: "sections_loop esp32c3_release wrapping_module 8 = Some r" by blast
  have "esp32c3_release = esp32c3_release \<longrightarrow> wrapping_module = wrapping_module \<longrightarrow> (8 :: nat) \<noteq> 8"
  proof (rule sections_loop.raw_induct
      [where P = "\<lambda>t wasm pos r. t = esp32c3_release \<longrightarrow> wasm = wrapping_module \<longrightarrow> pos \<noteq> 8", OF _ r])
    fix f :: "target \<Rightarrow> bytes \<Rightarrow> nat \<Rightarrow> string list outcome option" and t wasm pos r
    assume IH: "\<And>t wasm pos r. f t wasm pos = Some r \<Longrightarrow>
        t = esp32c3_release \<longrightarrow> wasm = wrapping_module \<longrightarrow> pos \<noteq> 8"
      and eq: "(case section_step t wasm pos of
        Ok (Inl rejected) \<Rightarrow> Some (Ok rejected) | Ok (Inr pos') \<Rightarrow> f t wasm pos'
      | Panic \<Rightarrow> Some Panic | Diverges \<Rightarrow> Some Diverges) = Some r"
    show "t = esp32c3_release \<longrightarrow> wasm = wrapping_module \<longrightarrow> pos \<noteq> 8"
      using IH [of esp32c3_release wrapping_module 8] eq by (auto simp: wrapping_step)
  qed
  then show False by simp
qed

text \<open>
  C26: a 14-byte module, not even well-formed, makes the validator of a release build for a
  32-bit board loop forever: the walk is not protected against its position wrapping.
\<close>
theorem validate_wraps_forever:
  "validate_wasm_imports esp32c3_release wrapping_module = Diverges \<and> length wrapping_module = 14"
  using wrapping_loop
  by (simp add: validate_wasm_imports_def walk_sections_def wrapping_module_def wasm_header_def)

text \<open>
  A table import that has a maximum is not skipped completely: the walk takes the maximum
  for the length of the next import's module name.
\<close>

definition table_max_imports :: "wasm_import list" where
  "table_max_imports =
     [\<lparr>im_module = ''env'', im_field = ''t'', im_desc = TableImport 0x70 0 (Some 0)\<rparr>,
      \<lparr>im_module = ''env'', im_field = ''evil'', im_desc = FuncImport 0\<rparr>]"

lemma and_then_weak_cong: "m = m' \<Longrightarrow> and_then m f = and_then m' f"
  by simp

lemma read_leb128_one: "unat b < 128 \<Longrightarrow> read_leb128_u32 (b # r) = (ucast b, 1)"
  using read_leb128_encode [of "unat b" r] by (simp add: leb128_encode.simps)

lemma table_max_module:
  "encode_module [] table_max_imports [] =
     [0, 0x61, 0x73, 0x6D, 1, 0, 0, 0, 2, 23, 2, 3, 0x65, 0x6E, 0x76, 1, 0x74, 1, 0x70, 1, 0, 0,
      3, 0x65, 0x6E, 0x76, 4, 0x65, 0x76, 0x69, 0x6C, 0, 0]"
  by (simp add: table_max_imports_def encode_imports_def encode_import_def encode_name_def
      wasm_header_def encode_limits_def leb128_encode.simps encode_module_def encode_section_def
      bytes_of_str_def)

lemma imports_loop_2:
  "import_entry t wasm p = Ok (k, f, p') \<Longrightarrow> import_entry t wasm p' = Ok (k', f', p'') \<Longrightarrow>
     k \<noteq> 0 \<Longrightarrow> k' \<noteq> 0 \<Longrightarrow> imports_loop t wasm 2 p rej = Ok rej"
  by (simp add: numeral_2_eq_2)

lemmas walk_eval =
  read_name_def read_leb_at_def index_def slice_from_def slice_range_def read_leb128_one
  from_utf8_def str_of_bytes_def skip_descriptor_def import_entry_def section_header_def

lemma table_max_accepted:
  assumes t: "32 \<le> usize_bits t"
  shows "validate_wasm_imports t (encode_module [] table_max_imports [])
           = Ok \<lparr>valid = True, rejected_imports = []\<rparr>"
proof -
  let ?w = "encode_module [] table_max_imports []"
  have e1: "import_entry t ?w 11 = Ok (1, ''t'', 21)"
    by (simp add: t walk_eval table_max_module char_of_def bit_0 cong: and_then_weak_cong)
  have e2: "import_entry t ?w 21 = Ok (4, ''env'', 27)"
    by (simp add: t walk_eval table_max_module char_of_def bit_0 cong: and_then_weak_cong)
  have h: "section_header t ?w 8 = Ok (2, 23, 10)"
    by (simp add: t walk_eval table_max_module cong: and_then_weak_cong)
  have n: "read_leb_at t ?w 10 = Ok (2, 11)"
    by (simp add: t walk_eval table_max_module cong: and_then_weak_cong)
  have l: "imports_loop t ?w 2 11 [] = Ok []"
    using e1 e2 by (rule imports_loop_2) simp_all
  have "import_section t ?w 23 10 = Ok []"
    by (simp add: t import_section_def n l)
  then have "section_step t ?w 8 = Ok (Inl [])"
    by (simp add: section_step_def h)
  then have "sections_loop t ?w 8 = Some (Ok [])" by (rule sections_loop_Inl)
  then show ?thesis
    by (simp add: validate_wasm_imports_def walk_sections_def) (simp add: table_max_module)
qed

text \<open>
  The whitelist can be bypassed: a module that imports a table with a maximum and then
  the function \<open>env.evil\<close> is accepted on the boards and on the laptop, although the only
  function it imports is outside the Alphabet.
\<close>
theorem validate_table_max_bypass:
  "validate_wasm_imports esp32c3_release (encode_module [] table_max_imports [])
     = Ok \<lparr>valid = True, rejected_imports = []\<rparr>
   \<and> validate_wasm_imports laptop_release (encode_module [] table_max_imports [])
     = Ok \<lparr>valid = True, rejected_imports = []\<rparr>
   \<and> outside_alphabet table_max_imports = [''evil'']"
  by (simp add: table_max_accepted esp32c3_release_def laptop_release_def)
     (simp add: outside_alphabet_def table_max_imports_def ALLOWED_IMPORTS_def)

text \<open>
  An import section that is cut short makes the validator panic instead of answering:
  here the section announces one import and the module ends.
\<close>
theorem validate_truncated_panics:
  "validate_wasm_imports esp32c3_release (wasm_header @ [2, 1, 1]) = Panic
   \<and> validate_wasm_imports laptop_release (wasm_header @ [2, 1, 1]) = Panic"
proof -
  let ?w = "wasm_header @ [2, 1, 1]"
  have "validate_wasm_imports t ?w = Panic" if t: "32 \<le> usize_bits t" for t
  proof -
    have h: "section_header t ?w 8 = Ok (2, 1, 10)"
      by (simp add: t walk_eval wasm_header_def cong: and_then_weak_cong)
    have e: "read_leb128_u32 [] = (0, 0)" by (simp add: read_leb128_u32_def leb_loop.simps)
    have n: "read_leb_at t ?w 10 = Ok (1, 11)"
      by (simp add: t walk_eval wasm_header_def cong: and_then_weak_cong)
    have nm: "read_name t ?w 11 = Ok ([], 11)"
      by (simp add: t walk_eval wasm_header_def e cong: and_then_weak_cong)
    have "import_entry t ?w 11 = Panic"
      by (simp add: import_entry_def nm) (simp add: index_def wasm_header_def)
    then have "import_section t ?w 1 10 = Panic" by (simp add: t import_section_def n)
    then have "section_step t ?w 8 = Panic"
      by (simp add: section_step_def h) (simp add: wasm_header_def)
    then have "sections_loop t ?w 8 = Some Panic" by (simp add: sections_loop.simps)
    then show ?thesis
      by (simp add: validate_wasm_imports_def walk_sections_def) (simp add: wasm_header_def)
  qed
  then show ?thesis by (simp add: esp32c3_release_def laptop_release_def)
qed

end
