(* ===== verification/Link.thy ===== *)
theory Link
  imports Prelude
begin

text \<open>
  MILO-Link frames: \<open>receiver/src/engine/link.rs\<close>. The opcodes, the frame type and its
  serialisation, the error type with its \<open>Display\<close>, and the blocking reader and writer.
  The byte stream a reader is given is the list of what its \<open>read\<close> calls deliver: bytes
  and I/O errors, with the end of the list as end of file. The writer accepts bytes until
  its room is used up. Buffers sized from the wire are recorded as they are allocated.
\<close>

section \<open>Opcodes and frames\<close>

definition OP_DISCOVERY :: u8 where "OP_DISCOVERY = 0x01"
definition OP_BYTECODE_PUSH :: u8 where "OP_BYTECODE_PUSH = 0x02"
definition OP_EXEC_RESULT :: u8 where "OP_EXEC_RESULT = 0x03"
definition OP_STREAM_DATA :: u8 where "OP_STREAM_DATA = 0x04"
definition OP_STOP :: u8 where "OP_STOP = 0x05"
definition OP_QUERY_STATUS :: u8 where "OP_QUERY_STATUS = 0x06"
definition OP_STATUS_RESPONSE :: u8 where "OP_STATUS_RESPONSE = 0x07"
definition OP_SET_PARAM :: u8 where "OP_SET_PARAM = 0x08"
definition OP_HOT_SWAP :: u8 where "OP_HOT_SWAP = 0x09"
definition OP_SIGNED_PUSH :: u8 where "OP_SIGNED_PUSH = 0x0A"
definition OP_SIGNED_SWAP :: u8 where "OP_SIGNED_SWAP = 0x0B"

lemmas opcode_defs =
  OP_DISCOVERY_def OP_BYTECODE_PUSH_def OP_EXEC_RESULT_def OP_STREAM_DATA_def OP_STOP_def
  OP_QUERY_STATUS_def OP_STATUS_RESPONSE_def OP_SET_PARAM_def OP_HOT_SWAP_def
  OP_SIGNED_PUSH_def OP_SIGNED_SWAP_def

definition MAX_FRAME_LEN :: nat where "MAX_FRAME_LEN = 512 * 1024"

record frame =
  opcode :: u8
  payload :: bytes

definition new_frame :: "u8 \<Rightarrow> bytes \<Rightarrow> frame" where
  "new_frame op p = \<lparr>opcode = op, payload = p\<rparr>"

definition serialize :: "frame \<Rightarrow> bytes" where
  "serialize f =
     (let len = (word_of_nat (length (payload f)) :: u32)
      in [opcode f] @ to_be_bytes len @ payload f)"

section \<open>Errors\<close>

datatype link_error = Io string | UnexpectedOpcode (expected: u8) (got: u8) | ConnectionClosed

definition link_error_display :: "link_error \<Rightarrow> string" where
  "link_error_display e = (case e of
     Io t \<Rightarrow> ''link I/O error: '' @ t
   | UnexpectedOpcode ex g \<Rightarrow> ''expected opcode 0x'' @ hex2 (unat ex) @ '', got 0x'' @ hex2 (unat g)
   | ConnectionClosed \<Rightarrow> ''connection closed'')"

text \<open>\<open>std::io::Error\<close>, as far as the code looks at it: its kind and its text.\<close>

datatype io_kind = UnexpectedEof | WouldBlock | TimedOut | OtherKind

record io_error =
  kind :: io_kind
  io_text :: string

section \<open>Reading\<close>

type_synonym stream = "(io_error + u8) list"

record reader =
  input :: stream
  allocs :: "nat list"

definition byte_stream :: "bytes \<Rightarrow> stream" where
  "byte_stream bs = map Inr bs"

text \<open>\<open>Read::read_exact\<close>: fills the whole buffer or fails.\<close>

fun std_read_exact :: "nat \<Rightarrow> stream \<Rightarrow> (io_error + bytes) \<times> stream" where
  "std_read_exact 0 s = (Inr [], s)"
| "std_read_exact (Suc n) [] =
     (Inl \<lparr>kind = UnexpectedEof, io_text = ''failed to fill whole buffer''\<rparr>, [])"
| "std_read_exact (Suc n) (Inl e # s) = (Inl e, s)"
| "std_read_exact (Suc n) (Inr b # s) =
     (case std_read_exact n s of
        (Inl e, s') \<Rightarrow> (Inl e, s')
      | (Inr bs, s') \<Rightarrow> (Inr (b # bs), s'))"

definition read_exact :: "nat \<Rightarrow> reader \<Rightarrow> (link_error + bytes) \<times> reader" where
  "read_exact n r = (case std_read_exact n (input r) of
     (Inr bs, s) \<Rightarrow> (Inr bs, r\<lparr>input := s\<rparr>)
   | (Inl e, s) \<Rightarrow>
       (Inl (if kind e = UnexpectedEof then ConnectionClosed else Io (io_text e)), r\<lparr>input := s\<rparr>))"

definition oversize_text :: "nat \<Rightarrow> string" where
  "oversize_text len =
     ''frame payload '' @ dec len @ '' exceeds MAX_FRAME_LEN '' @ dec MAX_FRAME_LEN"

definition header_len :: "bytes \<Rightarrow> nat" where
  "header_len h = unat (from_be_bytes (h ! 1) (h ! 2) (h ! 3) (h ! 4))"

definition read_frame :: "reader \<Rightarrow> (link_error + frame) \<times> reader" where
  "read_frame r = (case read_exact 5 r of
     (Inl e, r) \<Rightarrow> (Inl e, r)
   | (Inr header, r) \<Rightarrow>
       (let op = header ! 0; len = header_len header in
        if len > MAX_FRAME_LEN then (Inl (Io (oversize_text len)), r)
        else
          let r = r\<lparr>allocs := allocs r @ [len]\<rparr> in
          if len > 0 then
            (case read_exact len r of
               (Inl e, r) \<Rightarrow> (Inl e, r)
             | (Inr p, r) \<Rightarrow> (Inr \<lparr>opcode = op, payload = p\<rparr>, r))
          else (Inr \<lparr>opcode = op, payload = []\<rparr>, r)))"

section \<open>Writing\<close>

record writer =
  written :: bytes
  room :: "nat option"
  write_error :: io_error
  flush_error :: "io_error option"

definition write_all :: "bytes \<Rightarrow> writer \<Rightarrow> (io_error + unit) \<times> writer" where
  "write_all bs w = (case room w of
     None \<Rightarrow> (Inr (), w\<lparr>written := written w @ bs\<rparr>)
   | Some n \<Rightarrow>
       if length bs \<le> n then (Inr (), w\<lparr>written := written w @ bs, room := Some (n - length bs)\<rparr>)
       else (Inl (write_error w), w\<lparr>written := written w @ take n bs, room := Some 0\<rparr>))"

definition write_frame :: "frame \<Rightarrow> writer \<Rightarrow> (link_error + unit) \<times> writer" where
  "write_frame f w = (case write_all (serialize f) w of
     (Inl e, w) \<Rightarrow> (Inl (Io (io_text e)), w)
   | (Inr _, w) \<Rightarrow>
       (case flush_error w of
          Some e \<Rightarrow> (Inl (Io (io_text e)), w)
        | None \<Rightarrow> (Inr (), w)))"

section \<open>Lemmas\<close>

lemma length_serialize [simp]: "length (serialize f) = 5 + length (payload f)"
  by (simp add: serialize_def Let_def)

lemma std_read_exact_bytes:
  "std_read_exact (length bs) (byte_stream bs @ s) = (Inr bs, s)"
  by (induction bs) (auto simp: byte_stream_def)

lemma std_read_exact_append:
  "length bs = n \<Longrightarrow> std_read_exact n (byte_stream bs @ s) = (Inr bs, s)"
  using std_read_exact_bytes by blast

lemma std_read_exact_Inr:
  "std_read_exact n s = (Inr bs, s') \<Longrightarrow> length bs = n \<and> s = byte_stream bs @ s'"
  by (induction n s arbitrary: bs rule: std_read_exact.induct)
     (auto simp: byte_stream_def split: prod.splits sum.splits)

lemma std_read_exact_short:
  "length bs < n \<Longrightarrow> \<exists>e. std_read_exact n (byte_stream bs) = (Inl e, []) \<and> kind e = UnexpectedEof"
proof (induction bs arbitrary: n)
  case Nil
  then show ?case by (cases n) (auto simp: byte_stream_def)
next
  case (Cons b bs)
  then obtain m where m: "n = Suc m" "length bs < m" by (cases n) auto
  with Cons.IH [of m] show ?case by (auto simp: byte_stream_def)
qed

lemma read_exact_append:
  "length bs = n \<Longrightarrow> input r = byte_stream bs @ s \<Longrightarrow> read_exact n r = (Inr bs, r\<lparr>input := s\<rparr>)"
  by (simp add: read_exact_def std_read_exact_append)

lemma read_exact_0 [simp]: "read_exact 0 r = (Inr [], r)"
  by (simp add: read_exact_def)

lemma read_exact_Inr:
  "read_exact n r = (Inr bs, r') \<Longrightarrow>
     length bs = n \<and> input r = byte_stream bs @ input r' \<and> allocs r' = allocs r"
  by (auto simp: read_exact_def dest: std_read_exact_Inr split: prod.splits sum.splits)

lemma read_exact_allocs: "read_exact n r = (x, r') \<Longrightarrow> allocs r' = allocs r"
  by (auto simp: read_exact_def split: prod.splits sum.splits)

lemma byte_stream_append: "byte_stream (xs @ ys) = byte_stream xs @ byte_stream ys"
  by (simp add: byte_stream_def)

lemma byte_stream_Nil [simp]: "byte_stream [] = []"
  by (simp add: byte_stream_def)

lemma header_len_cons: "header_len (op # to_be_bytes x) = unat x"
proof -
  have "header_len (op # to_be_bytes x)
      = unat (from_be_bytes (to_be_bytes x ! 0) (to_be_bytes x ! 1) (to_be_bytes x ! 2) (to_be_bytes x ! 3))"
    by (simp only: header_len_def nth_Cons_Suc nth_Cons_0 One_nat_def numeral_2_eq_2 numeral_3_eq_3
        numeral_eq_Suc pred_numeral_simps BitM.simps)
  then show ?thesis by (simp only: from_be_bytes_to_be_bytes)
qed

lemma serialize_split:
  "serialize f = (opcode f # to_be_bytes (word_of_nat (length (payload f)))) @ payload f"
  by (simp add: serialize_def Let_def)

section \<open>Properties\<close>

lemma read_frame_serialize:
  assumes len: "length (payload f) \<le> MAX_FRAME_LEN"
    and inp: "input r = byte_stream (serialize f) @ s"
  shows "read_frame r = (Inr f, \<lparr>input = s, allocs = allocs r @ [length (payload f)]\<rparr>)"
proof -
  let ?h = "opcode f # to_be_bytes (word_of_nat (length (payload f)))"
  from len have small: "length (payload f) < 4294967296" by (simp add: MAX_FRAME_LEN_def)
  have hl: "header_len ?h = length (payload f)"
    using small by (simp only: header_len_cons unat_of_nat_u32 mod_less)
  have "read_exact 5 r = (Inr ?h, r\<lparr>input := byte_stream (payload f) @ s\<rparr>)"
    using inp by (intro read_exact_append) (simp_all add: serialize_split byte_stream_def)
  then show ?thesis
    using len hl read_exact_append [OF refl, of _ "payload f" s]
    by (cases r; cases f) (auto simp: read_frame_def Let_def)
qed

lemma header5:
  assumes "length h = 5"
  shows "\<exists>op a b c d. h = [op, a, b, c, d]"
  using assms by (auto simp: length_Suc_conv numeral_eq_Suc)

lemma header_len_bytes: "header_len [op, a, b, c, d] = unat (from_be_bytes a b c d)"
  by (simp add: header_len_def numeral_eq_Suc del: of_nat_numeral)

lemma serialize_header:
  assumes "length h = 5" and "length p = header_len h"
  shows "serialize \<lparr>opcode = h ! 0, payload = p\<rparr> = h @ p"
proof -
  obtain op a b c d where h: "h = [op, a, b, c, d]" using header5 [OF assms(1)] by blast
  have "(word_of_nat (length p) :: u32) = from_be_bytes a b c d"
    using assms(2) by (simp add: h header_len_bytes)
  then show ?thesis by (simp add: serialize_split h to_be_bytes_from_be_bytes)
qed

lemma read_frame_Inr:
  assumes "read_frame r = (Inr f, r')"
  shows "length (payload f) \<le> MAX_FRAME_LEN" and "input r = byte_stream (serialize f) @ input r'"
    and "allocs r' = allocs r @ [length (payload f)]"
proof -
  obtain h r1 where h: "read_exact 5 r = (Inr h, r1)"
    using assms by (auto simp: read_frame_def split: prod.splits sum.splits)
  note h' = read_exact_Inr [OF h]
  have le: "header_len h \<le> MAX_FRAME_LEN"
    using assms by (auto simp: read_frame_def h Let_def split: if_splits)
  let ?r2 = "r1\<lparr>allocs := allocs r1 @ [header_len h]\<rparr>"
  have "read_exact (header_len h) ?r2 = (Inr (payload f), r') \<and> opcode f = h ! 0"
  proof (cases "header_len h = 0")
    case True
    then show ?thesis using assms
      by (auto simp: read_frame_def h Let_def)
  next
    case False
    then show ?thesis using assms le
      by (auto simp: read_frame_def h Let_def split: prod.splits sum.splits)
  qed
  then have p: "read_exact (header_len h) ?r2 = (Inr (payload f), r')" and op: "opcode f = h ! 0"
    by auto
  note p' = read_exact_Inr [OF p]
  show "length (payload f) \<le> MAX_FRAME_LEN" using le p' by simp
  have "serialize f = h @ payload f"
    using serialize_header [of h "payload f"] h' p' op by (cases f) simp
  then show "input r = byte_stream (serialize f) @ input r'"
    using h' p' by (simp add: byte_stream_append)
  show "allocs r' = allocs r @ [length (payload f)]" using h' p' by simp
qed

text \<open>
  C11: \<open>read_frame\<close> accepts exactly the serialised frames with a payload of at most
  \<open>MAX_FRAME_LEN\<close> bytes: it returns a frame and leaves \<open>s\<close> unread if and only if the input
  is that frame's serialisation followed by \<open>s\<close>.
\<close>
theorem read_frame_iff_serialize:
  "(\<exists>al. read_frame r = (Inr f, \<lparr>input = s, allocs = al\<rparr>))
     \<longleftrightarrow> length (payload f) \<le> MAX_FRAME_LEN \<and> input r = byte_stream (serialize f) @ s"
  using read_frame_Inr [of r f] read_frame_serialize [of f r s] by auto

text \<open>
  Whatever bytes and I/O errors arrive, every payload buffer \<open>read_frame\<close> allocates is
  at most \<open>MAX_FRAME_LEN\<close> bytes: the length is checked before the allocation.
\<close>
theorem read_frame_alloc_bounded:
  "\<exists>ns. allocs (snd (read_frame r)) = allocs r @ ns \<and> length ns \<le> 1 \<and> (\<forall>n \<in> set ns. n \<le> MAX_FRAME_LEN)"
proof (cases "read_exact 5 r")
  case (Pair x r1)
  have a1: "allocs r1 = allocs r" using read_exact_allocs [OF Pair] .
  show ?thesis
  proof (cases x)
    case (Inl e)
    then show ?thesis using Pair a1 by (simp add: read_frame_def)
  next
    case (Inr h)
    show ?thesis
    proof (cases "header_len h > MAX_FRAME_LEN")
      case True
      then show ?thesis using Pair Inr a1 by (simp add: read_frame_def Let_def)
    next
      case False
      then have "allocs (snd (read_frame r)) = allocs r @ [header_len h]"
        using Pair Inr a1
        by (auto simp: read_frame_def Let_def split: prod.splits sum.splits dest: read_exact_allocs)
      then show ?thesis using False by simp
    qed
  qed
qed

theorem read_frame_alloc_bounded_witness:
  "\<exists>ns. allocs (snd (read_frame \<lparr>input = byte_stream [2, 0xFF, 0xFF, 0xFF, 0xFF], allocs = []\<rparr>)) = ns
     \<and> length ns \<le> 1 \<and> (\<forall>n \<in> set ns. n \<le> 524288)"
  using read_frame_alloc_bounded [of "\<lparr>input = byte_stream [2, 0xFF, 0xFF, 0xFF, 0xFF], allocs = []\<rparr>"]
  by (simp add: MAX_FRAME_LEN_def)

text \<open>
  An oversized header is refused with the error text of the code; only its five bytes are
  consumed, so the next call reads the sender's payload as if it were a header.
\<close>

lemma read_frame_oversize:
  assumes "input r = byte_stream [op, a, b, c, d] @ s"
    and "unat (from_be_bytes a b c d) > MAX_FRAME_LEN"
  shows "read_frame r = (Inl (Io (oversize_text (unat (from_be_bytes a b c d)))), r\<lparr>input := s\<rparr>)"
proof -
  have "read_exact 5 r = (Inr [op, a, b, c, d], r\<lparr>input := s\<rparr>)"
    using assms(1) by (intro read_exact_append) simp_all
  then show ?thesis using assms(2) by (simp add: read_frame_def Let_def header_len_bytes)
qed

section \<open>Whole conversations\<close>

text \<open>Reading until the first error, as the callers' loops do, and writing frames in order.\<close>

fun read_frames :: "nat \<Rightarrow> reader \<Rightarrow> frame list \<times> link_error option" where
  "read_frames 0 r = ([], None)"
| "read_frames (Suc n) r = (case read_frame r of
     (Inl e, r) \<Rightarrow> ([], Some e)
   | (Inr f, r) \<Rightarrow> (let (fs, e) = read_frames n r in (f # fs, e)))"

fun write_frames :: "frame list \<Rightarrow> writer \<Rightarrow> writer" where
  "write_frames [] w = w"
| "write_frames (f # fs) w = write_frames fs (snd (write_frame f w))"

lemma write_frames_written:
  "room w = None \<Longrightarrow> written (write_frames fs w) = written w @ concat (map serialize fs)"
proof (induction fs arbitrary: w)
  case (Cons f fs)
  have "room (snd (write_frame f w)) = None" and "written (snd (write_frame f w)) = written w @ serialize f"
    using Cons.prems by (auto simp: write_frame_def write_all_def split: option.splits)
  then show ?case using Cons.IH by simp
qed simp

lemma read_frame_eof: "read_frame \<lparr>input = [], allocs = al\<rparr> = (Inl ConnectionClosed, \<lparr>input = [], allocs = al\<rparr>)"
  by (simp add: read_frame_def read_exact_def numeral_eq_Suc)

lemma read_frames_concat:
  assumes "\<forall>f \<in> set fs. length (payload f) \<le> MAX_FRAME_LEN"
    and "input r = byte_stream (concat (map serialize fs))" and "length fs < n"
  shows "read_frames n r = (fs, Some ConnectionClosed)"
  using assms
proof (induction fs arbitrary: n r)
  case Nil
  then obtain m where "n = Suc m" by (cases n) auto
  with Nil show ?case by (cases r) (simp add: read_frame_eof)
next
  case (Cons f fs)
  then obtain m where n: "n = Suc m" and m: "length fs < m" by (cases n) auto
  let ?s = "byte_stream (concat (map serialize fs))"
  have "read_frame r = (Inr f, \<lparr>input = ?s, allocs = allocs r @ [length (payload f)]\<rparr>)"
    using Cons.prems by (intro read_frame_serialize) (simp_all add: byte_stream_append)
  moreover have "read_frames m \<lparr>input = ?s, allocs = allocs r @ [length (payload f)]\<rparr>
      = (fs, Some ConnectionClosed)"
    using Cons.prems m by (intro Cons.IH) simp_all
  ultimately show ?case by (simp add: n)
qed

text \<open>
  C22: frames written one after another to a writer that does not fail, and read back from
  the bytes it received, come out unchanged and in order, and then the connection is
  reported closed.
\<close>
theorem link_roundtrip:
  assumes "\<forall>f \<in> set fs. length (payload f) \<le> MAX_FRAME_LEN"
    and "room w = None" and "written w = []" and "length fs < n"
  shows "read_frames n \<lparr>input = byte_stream (written (write_frames fs w)), allocs = al\<rparr>
           = (fs, Some ConnectionClosed)"
  using assms by (intro read_frames_concat) (simp_all add: write_frames_written)

theorem link_roundtrip_witness:
  "let fs = [\<lparr>opcode = OP_SET_PARAM, payload = [0, 0, 0, 3, 0, 0, 1, 44]\<rparr>, \<lparr>opcode = OP_STOP, payload = []\<rparr>];
       w = \<lparr>written = [], room = None, write_error = \<lparr>kind = OtherKind, io_text = []\<rparr>, flush_error = None\<rparr>
   in read_frames 3 \<lparr>input = byte_stream (written (write_frames fs w)), allocs = []\<rparr>
        = (fs, Some ConnectionClosed)"
  unfolding Let_def by (rule link_roundtrip) (simp_all add: MAX_FRAME_LEN_def)

end
