(* ===== verification/Replies.thy ===== *)
theory Replies
  imports Executor Json Validation Link
begin

text \<open>
  The JSON the main loop answers with (\<open>receiver/src/lib.rs\<close>): results of runs, rejected
  imports, the status, refusals. The specification is again the JSON value meant.
\<close>

section \<open>Texts\<close>

definition rejected_imports_json :: "string list \<Rightarrow> string" where
  "rejected_imports_json rejected =
     ''{\"ok\":false,\"error\":\"rejected imports: '' @ json_escape (join '', '' rejected) @ ''\"}''"

definition exec_result_to_json :: "exec_result \<Rightarrow> string" where
  "exec_result_to_json result =
     (if er_ok result then
        comma_loop 0 (\<lambda>log. [CHR 0x22] @ json_escape log @ [CHR 0x22]) (er_logs result)
          ''{\"ok\":true,\"logs\":['' @ '']}''
      else
        ''{\"ok\":false,\"error\":\"''
        @ json_escape (case er_error result of Some e \<Rightarrow> e | None \<Rightarrow> ''unknown'') @ ''\"}'')"

definition status_name :: "exec_status \<Rightarrow> string" where
  "status_name s = (case s of Idle \<Rightarrow> ''idle'' | Running \<Rightarrow> ''running''
     | Completed \<Rightarrow> ''completed'' | Stopped \<Rightarrow> ''stopped'')"

definition status_json :: "exec_status \<Rightarrow> bool \<Rightarrow> string" where
  "status_json s running =
     ''{\"status\":\"'' @ status_name s @ ''\",\"running\":'' @ (if running then ''true'' else ''false'') @ ''}''"

definition stopped_json :: string where
  "stopped_json = ''{\"stopped\":true}''"

definition unknown_opcode_json :: "u8 \<Rightarrow> string" where
  "unknown_opcode_json op = ''{\"error\":\"unknown opcode 0x'' @ hex2 (unat op) @ ''\"}''"

definition no_key_json :: string where
  "no_key_json = ''{\"ok\":false,\"error\":\"no trusted key provisioned\"}''"

definition signature_rejected_json :: "string \<Rightarrow> string" where
  "signature_rejected_json e = ''{\"ok\":false,\"error\":\"signature rejected: '' @ e @ ''\"}''"

definition unsigned_rejected_json :: string where
  "unsigned_rejected_json =
     ''{\"ok\":false,\"error\":\"unsigned module rejected: policy requires signed bytecode\"}''"

section \<open>Values\<close>

definition exec_result_value :: "exec_result \<Rightarrow> json" where
  "exec_result_value r =
     (if er_ok r then JObj [(''ok'', JBool True), (''logs'', JArr (map JStr (er_logs r)))]
      else JObj [(''ok'', JBool False),
                 (''error'', JStr (case er_error r of Some e \<Rightarrow> e | None \<Rightarrow> ''unknown''))])"

definition error_value :: "string \<Rightarrow> json" where
  "error_value e = JObj [(''ok'', JBool False), (''error'', JStr e)]"

lemma json_escape_append: "json_escape (xs @ ys) = json_escape xs @ json_escape ys"
  by (induction xs) simp_all

lemma escape_punctuation [simp]: "escape_char c = [c]" if "c \<in> set '' :,''"
  using that by (auto simp: escape_char_def)

lemma error_text: "render (error_value e) = ''{\"ok\":false,\"error\":\"'' @ json_escape e @ ''\"}''"
  by (simp add: error_value_def quoted_def)

lemma exec_result_text: "exec_result_to_json r = render (exec_result_value r)"
  by (simp add: exec_result_to_json_def exec_result_value_def comma_loop_join quoted_def comp_def)

lemma rejected_imports_text:
  "rejected_imports_json names = render (error_value (''rejected imports: '' @ join '', '' names))"
  by (simp add: rejected_imports_json_def error_text json_escape_append)

text \<open>
  C24: the answer to a module that was run is well-formed JSON, and reading it back gives the
  log lines or the error text byte for byte, whatever a module logs (quotes, backslashes,
  line breaks and control characters included).
\<close>
theorem exec_result_roundtrip: "parse_json (exec_result_to_json r) = Some (exec_result_value r)"
  by (simp only: exec_result_text parse_json_render)

text \<open>
  The answer to a module with rejected imports is well-formed JSON too, and its error
  text is the list of their names, whatever bytes the module put into them.
\<close>
theorem rejected_imports_roundtrip:
  "parse_json (rejected_imports_json names) = Some (error_value (''rejected imports: '' @ join '', '' names))"
  by (simp only: rejected_imports_text parse_json_render)

lemma status_text: "status_json s running
    = render (JObj [(''status'', JStr (status_name s)), (''running'', JBool running)])"
  by (cases s) (simp_all add: status_json_def status_name_def quoted_def)

end
