(* ===== verification/Signing.thy ===== *)
theory Signing
  imports Prelude
begin

text \<open>
  Signed bytecode (\<open>receiver/src/engine/signing.rs\<close>): the payload is a 64-byte signature followed by
  the module. Ed25519 is the crate \<open>ed25519_dalek\<close>, a parameter here: the parsing of keys and
  signatures and the verification. A build without the feature \<open>signing\<close> has no such
  parameter and refuses every payload.
\<close>

definition SIG_LEN :: nat where "SIG_LEN = 64"
definition PUBKEY_LEN :: nat where "PUBKEY_LEN = 32"

record ('k, 's) ed25519 =
  vk_from_bytes :: "bytes \<Rightarrow> 'k option"
  sig_from_slice :: "bytes \<Rightarrow> 's option"
  vk_verify :: "'k \<Rightarrow> bytes \<Rightarrow> 's \<Rightarrow> bool"

definition split_signed :: "bytes \<Rightarrow> (bytes \<times> bytes) option" where
  "split_signed payload =
     (if length payload \<le> SIG_LEN then None
      else Some (take SIG_LEN payload, drop SIG_LEN payload))"

definition verify_signed_dalek :: "('k, 's) ed25519 \<Rightarrow> bytes \<Rightarrow> bytes \<Rightarrow> string + bytes" where
  "verify_signed_dalek ed payload pubkey =
     (case split_signed payload of
        None \<Rightarrow> Inl ''signed payload too short''
      | Some (sig_bytes, wasm) \<Rightarrow>
          (case vk_from_bytes ed pubkey of
             None \<Rightarrow> Inl ''malformed trusted key''
           | Some key \<Rightarrow>
               (case sig_from_slice ed sig_bytes of
                  None \<Rightarrow> Inl ''malformed signature''
                | Some sig \<Rightarrow>
                    if vk_verify ed key wasm sig then Inr wasm
                    else Inl ''signature verification failed'')))"

definition verify_signed_disabled :: "bytes \<Rightarrow> bytes \<Rightarrow> string + bytes" where
  "verify_signed_disabled payload pubkey = Inl ''signing not supported in this build''"

definition verify_signed :: "('k, 's) ed25519 option \<Rightarrow> bytes \<Rightarrow> bytes \<Rightarrow> string + bytes" where
  "verify_signed feature = (case feature of
     Some ed \<Rightarrow> verify_signed_dalek ed | None \<Rightarrow> verify_signed_disabled)"

text \<open>The specification: a signature of the module under the key, in front of it.\<close>

definition signs :: "('k, 's) ed25519 \<Rightarrow> bytes \<Rightarrow> bytes \<Rightarrow> bytes \<Rightarrow> bool" where
  "signs ed pubkey sig_bytes wasm \<longleftrightarrow>
     (case (vk_from_bytes ed pubkey, sig_from_slice ed sig_bytes) of
        (Some key, Some sig) \<Rightarrow> vk_verify ed key wasm sig
      | _ \<Rightarrow> False)"

lemma split_signed_Some:
  "split_signed payload = Some (s, w) \<longleftrightarrow> payload = s @ w \<and> length s = 64 \<and> w \<noteq> []"
  by (auto simp: split_signed_def SIG_LEN_def append_eq_conv_conj)

lemma verify_signed_Some:
  "verify_signed (Some ed) payload pubkey = Inr wasm \<longleftrightarrow>
     (\<exists>sig_bytes. payload = sig_bytes @ wasm \<and> length sig_bytes = SIG_LEN \<and> wasm \<noteq> []
        \<and> signs ed pubkey sig_bytes wasm)"
proof (cases "split_signed payload")
  case None
  then show ?thesis by (auto simp: verify_signed_def verify_signed_dalek_def split_signed_def
        SIG_LEN_def split: if_splits)
next
  case (Some p)
  obtain s w where "p = (s, w)" by (cases p)
  with Some have "payload = s @ w" "length s = 64" "w \<noteq> []" "split_signed payload = Some (s, w)"
    by (auto simp: split_signed_Some)
  then show ?thesis
    by (auto simp: verify_signed_def verify_signed_dalek_def signs_def SIG_LEN_def
        split: option.splits)
qed

lemma verify_signed_None: "verify_signed None payload pubkey \<noteq> Inr wasm"
  by (simp add: verify_signed_def verify_signed_disabled_def)

text \<open>
  C21: signature checking accepts exactly the payloads that are a 64-byte signature valid for
  the rest of the payload under the trusted key, with a non-empty rest, and hands on that
  rest unchanged; a build without the feature accepts nothing.
\<close>
theorem verify_signed_iff:
  "(verify_signed feature payload pubkey = Inr wasm) =
     (\<exists>ed sig_bytes. feature = Some ed \<and> payload = sig_bytes @ wasm \<and> length sig_bytes = SIG_LEN
        \<and> wasm \<noteq> [] \<and> signs ed pubkey sig_bytes wasm)"
  by (cases feature) (simp_all add: verify_signed_Some verify_signed_None)

end
