(* ===== verification/Main_Loop.thy ===== *)
theory Main_Loop
  imports Replies Signing
begin

text \<open>
  The receiver's main loop (\<open>receiver/src/lib.rs\<close>: \<open>SecurityPolicy\<close>, \<open>authorize_module\<close>,
  \<open>main_loop_with_policy\<close> and its two wrappers). The loop never ends: it is modelled by its
  iteration, a step on the transport, the executor and the parameter slots. Transport and
  executor are the interfaces \<open>MiloTransport\<close> and \<open>MiloExecutor\<close>; each iteration is given the
  run a module submitted in it will perform.
\<close>

section \<open>Policy and authorisation\<close>

record security_policy =
  trusted_key :: "bytes option"
  require_signed :: bool

definition open_policy :: security_policy where
  "open_policy = \<lparr>trusted_key = None, require_signed = False\<rparr>"

definition signed_only :: "bytes \<Rightarrow> security_policy" where
  "signed_only key = \<lparr>trusted_key = Some key, require_signed = True\<rparr>"

definition authorize_module ::
  "target \<Rightarrow> ('k, 's) ed25519 option \<Rightarrow> bytes \<Rightarrow> bool \<Rightarrow> security_policy \<Rightarrow> (string + bytes) outcome" where
  "authorize_module t feature data is_signed policy =
     (let wasm =
        (if is_signed then
           (case trusted_key policy of
              None \<Rightarrow> Inl no_key_json
            | Some key \<Rightarrow>
                (case verify_signed feature data key of
                   Inl e \<Rightarrow> Inl (signature_rejected_json e)
                 | Inr wasm \<Rightarrow> Inr wasm))
         else if require_signed policy then Inl unsigned_rejected_json
         else Inr data)
      in case wasm of
           Inl err \<Rightarrow> Ok (Inl err)
         | Inr wasm \<Rightarrow>
             and_then (validate_wasm_imports t wasm) (\<lambda>v.
               if \<not> valid v then Ok (Inl (rejected_imports_json (rejected_imports v)))
               else Ok (Inr wasm)))"

section \<open>The loop\<close>

record 't transport =
  tp_read_frame :: "'t \<Rightarrow> ((link_error + frame) \<times> 't) outcome"
  tp_write_frame :: "frame \<Rightarrow> 't \<Rightarrow> (link_error + unit) \<times> 't"

record ('t, 'e, 'h, 'k, 's) board =
  bd_target :: target
  bd_signing :: "('k, 's) ed25519 option"
  bd_transport :: "'t transport"
  bd_executor :: "('e, 'h) executor"
  bd_manifest :: string
  bd_policy :: security_policy

record ('t, 'e) loop_state =
  ls_transport :: 't
  ls_exec :: 'e
  ls_params :: params

text \<open>\<open>let _ = transport.write_frame(..)\<close>: a failed write is ignored.\<close>

definition send :: "('t, 'e, 'h, 'k, 's) board \<Rightarrow> u8 \<Rightarrow> string \<Rightarrow> ('t, 'e) loop_state \<Rightarrow> ('t, 'e) loop_state" where
  "send bd op text st =
     st\<lparr>ls_transport := snd (tp_write_frame (bd_transport bd) (new_frame op (bytes_of_str text)) (ls_transport st))\<rparr>"

definition poll_and_reply ::
  "('t, 'e, 'h, 'k, 's) board \<Rightarrow> ('t, 'e) loop_state \<Rightarrow> ('t, 'e) loop_state outcome" where
  "poll_and_reply bd st =
     and_then (ex_poll_result (bd_executor bd) (ls_exec st)) (\<lambda>(r, e).
       let st = st\<lparr>ls_exec := e\<rparr> in
       case r of
         Some result \<Rightarrow> Ok (send bd OP_EXEC_RESULT (exec_result_to_json result) st)
       | None \<Rightarrow> Ok st)"

definition handle_push ::
  "('t, 'e, 'h, 'k, 's) board \<Rightarrow> 'h run \<Rightarrow> frame \<Rightarrow> ('t, 'e) loop_state \<Rightarrow> ('t, 'e) loop_state outcome" where
  "handle_push bd run f st =
     (let is_signed = (opcode f = OP_SIGNED_PUSH) in
      and_then (authorize_module (bd_target bd) (bd_signing bd) (payload f) is_signed (bd_policy bd)) (\<lambda>a.
        case a of
          Inl err_msg \<Rightarrow> Ok (send bd OP_EXEC_RESULT err_msg st)
        | Inr wasm \<Rightarrow>
            and_then (ex_submit (bd_executor bd) run wasm (ls_exec st)) (\<lambda>e.
              poll_and_reply bd (st\<lparr>ls_exec := e\<rparr>))))"

definition handle_stop ::
  "('t, 'e, 'h, 'k, 's) board \<Rightarrow> ('t, 'e) loop_state \<Rightarrow> ('t, 'e) loop_state" where
  "handle_stop bd st =
     send bd OP_STATUS_RESPONSE stopped_json (st\<lparr>ls_exec := ex_stop (bd_executor bd) (ls_exec st)\<rparr>)"

definition handle_query ::
  "('t, 'e, 'h, 'k, 's) board \<Rightarrow> ('t, 'e) loop_state \<Rightarrow> ('t, 'e) loop_state" where
  "handle_query bd st =
     send bd OP_STATUS_RESPONSE
       (status_json (ex_status (bd_executor bd) (ls_exec st)) (ex_is_running (bd_executor bd) (ls_exec st))) st"

definition handle_set_param :: "frame \<Rightarrow> ('t, 'e) loop_state \<Rightarrow> ('t, 'e) loop_state" where
  "handle_set_param f st =
     (let p = payload f in
      if length p \<ge> 8 then
        (let slot = from_be_bytes (p ! 0) (p ! 1) (p ! 2) (p ! 3);
             value = from_be_bytes (p ! 4) (p ! 5) (p ! 6) (p ! 7)
         in st\<lparr>ls_params := set_param slot value (ls_params st)\<rparr>)
      else st)"

definition handle_swap ::
  "('t, 'e, 'h, 'k, 's) board \<Rightarrow> 'h run \<Rightarrow> frame \<Rightarrow> ('t, 'e) loop_state \<Rightarrow> ('t, 'e) loop_state outcome" where
  "handle_swap bd run f st =
     (let is_signed = (opcode f = OP_SIGNED_SWAP) in
      and_then (authorize_module (bd_target bd) (bd_signing bd) (payload f) is_signed (bd_policy bd)) (\<lambda>a.
        case a of
          Inl err_msg \<Rightarrow> Ok (send bd OP_EXEC_RESULT err_msg st)
        | Inr wasm \<Rightarrow>
            let e = ex_stop (bd_executor bd) (ls_exec st) in
            and_then (ex_submit (bd_executor bd) run wasm e) (\<lambda>e.
              poll_and_reply bd (st\<lparr>ls_exec := e\<rparr>))))"

definition handle_frame ::
  "('t, 'e, 'h, 'k, 's) board \<Rightarrow> 'h run \<Rightarrow> frame \<Rightarrow> ('t, 'e) loop_state \<Rightarrow> ('t, 'e) loop_state outcome" where
  "handle_frame bd run f st =
     (if opcode f = OP_DISCOVERY then Ok (send bd OP_DISCOVERY (bd_manifest bd) st)
      else if opcode f = OP_BYTECODE_PUSH \<or> opcode f = OP_SIGNED_PUSH then handle_push bd run f st
      else if opcode f = OP_STOP then Ok (handle_stop bd st)
      else if opcode f = OP_QUERY_STATUS then Ok (handle_query bd st)
      else if opcode f = OP_SET_PARAM then Ok (handle_set_param f st)
      else if opcode f = OP_HOT_SWAP \<or> opcode f = OP_SIGNED_SWAP then handle_swap bd run f st
      else Ok (send bd OP_EXEC_RESULT (unknown_opcode_json (opcode f)) st))"

definition loop_step ::
  "('t, 'e, 'h, 'k, 's) board \<Rightarrow> 'h run \<Rightarrow> ('t, 'e) loop_state \<Rightarrow> ('t, 'e) loop_state outcome" where
  "loop_step bd run st =
     and_then (tp_read_frame (bd_transport bd) (ls_transport st)) (\<lambda>(r, t).
       let st = st\<lparr>ls_transport := t\<rparr> in
       case r of
         Inr f \<Rightarrow> handle_frame bd run f st
       | Inl _ \<Rightarrow> poll_and_reply bd st)"

fun main_loop_with_policy ::
  "('t, 'e, 'h, 'k, 's) board \<Rightarrow> 'h run list \<Rightarrow> ('t, 'e) loop_state \<Rightarrow> ('t, 'e) loop_state outcome" where
  "main_loop_with_policy bd [] st = Ok st"
| "main_loop_with_policy bd (run # runs) st =
     and_then (loop_step bd run st) (main_loop_with_policy bd runs)"

definition main_loop_with_executor ::
  "('t, 'e, 'h, 'k, 's) board \<Rightarrow> 'h run list \<Rightarrow> ('t, 'e) loop_state \<Rightarrow> ('t, 'e) loop_state outcome" where
  "main_loop_with_executor bd = main_loop_with_policy (bd\<lparr>bd_policy := open_policy\<rparr>)"

definition main_loop ::
  "target \<Rightarrow> 't transport \<Rightarrow> 'h \<Rightarrow> string \<Rightarrow> 'h run list \<Rightarrow> 't \<Rightarrow> params \<Rightarrow>
   ('t, 'h single_core) loop_state outcome" where
  "main_loop t tp hal manifest_json runs transport ps =
     main_loop_with_policy
       \<lparr>bd_target = t, bd_signing = None :: (unit, unit) ed25519 option, bd_transport = tp,
        bd_executor = single_core_executor, bd_manifest = manifest_json, bd_policy = open_policy\<rparr> runs
       \<lparr>ls_transport = transport, ls_exec = new_single_core hal (Some 500000000), ls_params = ps\<rparr>"

lemmas loop_defs = handle_frame_def handle_push_def handle_swap_def handle_stop_def handle_query_def
  handle_set_param_def

lemma send_fields [simp]:
  "ls_exec (send bd op text st) = ls_exec st" "ls_params (send bd op text st) = ls_params st"
  by (simp_all add: send_def)

section \<open>Authorisation\<close>

text \<open>What the gates in front of the executor promise of a module.\<close>

definition authorized ::
  "target \<Rightarrow> ('k, 's) ed25519 option \<Rightarrow> security_policy \<Rightarrow> bytes \<Rightarrow> bool" where
  "authorized t feature policy wasm \<longleftrightarrow>
     (\<exists>v. validate_wasm_imports t wasm = Ok v \<and> valid v)
     \<and> (require_signed policy \<longrightarrow>
          (\<exists>ed key sig_bytes. feature = Some ed \<and> trusted_key policy = Some key
             \<and> length sig_bytes = SIG_LEN \<and> signs ed key sig_bytes wasm))"

lemma authorize_module_Inr:
  assumes "authorize_module t feature data is_signed policy = Ok (Inr wasm)"
  shows "authorized t feature policy wasm"
proof -
  have v: "\<exists>v. validate_wasm_imports t wasm = Ok v \<and> valid v"
    using assms by (auto simp: authorize_module_def and_then_eq_Ok Let_def split: sum.splits if_splits)
  moreover have "\<exists>ed key sig_bytes. feature = Some ed \<and> trusted_key policy = Some key
             \<and> length sig_bytes = SIG_LEN \<and> signs ed key sig_bytes wasm" if "require_signed policy"
  proof -
    have is_signed using assms that by (auto simp: authorize_module_def Let_def split: if_splits)
    then obtain key where k: "trusted_key policy = Some key" "verify_signed feature data key = Inr wasm"
      using assms
      by (auto simp: authorize_module_def and_then_eq_Ok Let_def split: sum.splits if_splits option.splits)
    show ?thesis
    proof (cases feature)
      case None
      with k verify_signed_None show ?thesis by blast
    next
      case (Some ed)
      with k verify_signed_Some [of ed data key wasm] show ?thesis by blast
    qed
  qed
  ultimately show ?thesis by (simp add: authorized_def)
qed

lemma poll_and_reply_Ok:
  assumes "poll_and_reply bd st = Ok st'"
  shows "\<exists>r. ex_poll_result (bd_executor bd) (ls_exec st) = Ok (r, ls_exec st')"
proof -
  obtain r e where "ex_poll_result (bd_executor bd) (ls_exec st) = Ok (r, e)"
    using assms by (auto simp: poll_and_reply_def and_then_eq_Ok)
  with assms show ?thesis by (auto simp: poll_and_reply_def Let_def split: option.splits)
qed

text \<open>
  What a handled frame does to the executor: nothing, a stop, or, for an authorised module, a
  submission (after a stop, for a swap) and a poll.
\<close>

definition frame_effect ::
  "('t, 'e, 'h, 'k, 's) board \<Rightarrow> 'h run \<Rightarrow> ('t, 'e) loop_state \<Rightarrow> ('t, 'e) loop_state \<Rightarrow> bool" where
  "frame_effect bd run st st' \<longleftrightarrow>
     ls_exec st' \<in> {ls_exec st, ex_stop (bd_executor bd) (ls_exec st)}
      \<or> (\<exists>e0 \<in> {ls_exec st, ex_stop (bd_executor bd) (ls_exec st)}. \<exists>wasm e1.
           authorized (bd_target bd) (bd_signing bd) (bd_policy bd) wasm
           \<and> ex_submit (bd_executor bd) run wasm e0 = Ok e1
           \<and> poll_and_reply bd (st\<lparr>ls_exec := e1\<rparr>) = Ok st')"

lemma handle_push_effect:
  assumes "handle_push bd run f st = Ok st'"
  shows "frame_effect bd run st st'"
proof -
  obtain a where a: "authorize_module (bd_target bd) (bd_signing bd) (payload f)
      (opcode f = OP_SIGNED_PUSH) (bd_policy bd) = Ok a"
    using assms by (auto simp: handle_push_def and_then_eq_Ok)
  with assms show ?thesis
  proof (cases a)
    case (Inr wasm)
    with a have "authorized (bd_target bd) (bd_signing bd) (bd_policy bd) wasm"
      by (blast intro: authorize_module_Inr)
    with assms a Inr show ?thesis
      by (auto simp: handle_push_def frame_effect_def and_then_eq_Ok)
  qed (auto simp: handle_push_def frame_effect_def)
qed

lemma handle_swap_effect:
  assumes "handle_swap bd run f st = Ok st'"
  shows "frame_effect bd run st st'"
proof -
  obtain a where a: "authorize_module (bd_target bd) (bd_signing bd) (payload f)
      (opcode f = OP_SIGNED_SWAP) (bd_policy bd) = Ok a"
    using assms by (auto simp: handle_swap_def and_then_eq_Ok)
  with assms show ?thesis
  proof (cases a)
    case (Inr wasm)
    with a have "authorized (bd_target bd) (bd_signing bd) (bd_policy bd) wasm"
      by (blast intro: authorize_module_Inr)
    with assms a Inr show ?thesis
      by (auto simp: handle_swap_def frame_effect_def and_then_eq_Ok Let_def)
  qed (auto simp: handle_swap_def frame_effect_def)
qed

lemma handle_frame_effect:
  assumes "handle_frame bd run f st = Ok st'"
  shows "frame_effect bd run st st'"
proof -
  have f: "frame_effect bd run st st'" if "ls_exec st' = ls_exec st \<or> ls_exec st' = ex_stop (bd_executor bd) (ls_exec st)"
    using that by (auto simp: frame_effect_def)
  show ?thesis
    using assms handle_push_effect [of bd run f st st'] handle_swap_effect [of bd run f st st'] f
    by (auto simp: handle_frame_def handle_stop_def handle_query_def handle_set_param_def Let_def
        split: if_splits)
qed

context executor_keeps
begin

lemma poll_and_reply_keeps:
  "bd_executor bd = ex \<Longrightarrow> keeps (ls_exec st) \<Longrightarrow> poll_and_reply bd st = Ok st' \<Longrightarrow> keeps (ls_exec st')"
  using poll_and_reply_Ok [of bd st st'] poll_keeps by blast

lemma handle_frame_keeps:
  assumes ex: "bd_executor bd = ex"
    and adm: "\<And>wasm. authorized (bd_target bd) (bd_signing bd) (bd_policy bd) wasm \<Longrightarrow> admissible wasm"
    and k: "keeps (ls_exec st)" and h: "handle_frame bd run f st = Ok st'"
  shows "keeps (ls_exec st')"
proof -
  let ?es = "{ls_exec st, ex_stop ex (ls_exec st)}"
  have es: "\<forall>e \<in> ?es. keeps e" using k stop_keeps by blast
  from handle_frame_effect [OF h] consider "ls_exec st' \<in> ?es"
    | e0 wasm e1 where "e0 \<in> ?es" "authorized (bd_target bd) (bd_signing bd) (bd_policy bd) wasm"
        "ex_submit ex run wasm e0 = Ok e1" "poll_and_reply bd (st\<lparr>ls_exec := e1\<rparr>) = Ok st'"
    unfolding frame_effect_def Let_def ex by blast
  then show ?thesis
  proof cases
    case 2
    then have "keeps e1" using es adm submit_keeps by blast
    then show ?thesis using poll_and_reply_keeps [OF ex _ 2(4)] by simp
  qed (use es in blast)
qed

lemma loop_step_keeps:
  assumes ex: "bd_executor bd = ex"
    and adm: "\<And>wasm. authorized (bd_target bd) (bd_signing bd) (bd_policy bd) wasm \<Longrightarrow> admissible wasm"
    and k: "keeps (ls_exec st)" and s: "loop_step bd run st = Ok st'"
  shows "keeps (ls_exec st')"
proof -
  obtain r t where "tp_read_frame (bd_transport bd) (ls_transport st) = Ok (r, t)"
    using s by (auto simp: loop_step_def and_then_eq_Ok)
  with s have c: "(case r of Inr f \<Rightarrow> handle_frame bd run f (st\<lparr>ls_transport := t\<rparr>)
      | Inl _ \<Rightarrow> poll_and_reply bd (st\<lparr>ls_transport := t\<rparr>)) = Ok st'"
    by (simp add: loop_step_def Let_def)
  have k': "keeps (ls_exec (st\<lparr>ls_transport := t\<rparr>))" using k by simp
  show ?thesis
  proof (cases r)
    case (Inl e)
    with c show ?thesis using poll_and_reply_keeps [OF ex k'] by simp
  next
    case (Inr f)
    with c have "handle_frame bd run f (st\<lparr>ls_transport := t\<rparr>) = Ok st'" by simp
    from handle_frame_keeps [OF ex adm k' this] show ?thesis by simp
  qed
qed

lemma loop_keeps:
  assumes "bd_executor bd = ex"
    and adm: "\<And>wasm. authorized (bd_target bd) (bd_signing bd) (bd_policy bd) wasm \<Longrightarrow> admissible wasm"
    and "keeps (ls_exec st)" and "main_loop_with_policy bd runs st = Ok st'"
  shows "keeps (ls_exec st')"
  using assms(3,4)
proof (induction runs arbitrary: st)
  case (Cons run runs)
  then obtain st1 where "loop_step bd run st = Ok st1" "main_loop_with_policy bd runs st1 = Ok st'"
    by (auto simp: and_then_eq_Ok)
  with Cons loop_step_keeps [OF assms(1) adm] show ?case by blast
qed simp

end

section \<open>Only authorised modules are submitted\<close>

text \<open>An executor that also records the modules it is given.\<close>

definition recording :: "('e, 'h) executor \<Rightarrow> ('e \<times> bytes list, 'h) executor" where
  "recording ex = \<lparr>
     ex_submit = (\<lambda>run wasm (e, ws). and_then (ex_submit ex run wasm e) (\<lambda>e. Ok (e, ws @ [wasm]))),
     ex_poll_result = (\<lambda>(e, ws). and_then (ex_poll_result ex e) (\<lambda>(r, e). Ok (r, e, ws))),
     ex_is_running = (\<lambda>(e, ws). ex_is_running ex e),
     ex_stop = (\<lambda>(e, ws). (ex_stop ex e, ws)),
     ex_status = (\<lambda>(e, ws). ex_status ex e),
     ex_take_hardware = (\<lambda>(e, ws). and_then (ex_take_hardware ex e) (\<lambda>(h, e). Ok (h, e, ws))),
     ex_give_hardware = (\<lambda>h (e, ws). (ex_give_hardware ex h e, ws))\<rparr>"

definition recorded_all :: "(bytes \<Rightarrow> bool) \<Rightarrow> 'e \<times> bytes list \<Rightarrow> bool" where
  "recorded_all P e \<longleftrightarrow> (\<forall>w \<in> set (snd e). P w)"

interpretation rec_loop: executor_keeps "recording ex" "recorded_all P" P for ex P
  by unfold_locales
    (auto simp: recording_def recorded_all_def and_then_eq_Ok split: prod.splits)

text \<open>
  C1: under a signed-only policy, whatever frames arrive in whatever order and whatever the
  executor does, every module that reaches the executor passed the import check and carries
  a 64-byte signature of exactly its bytes under the trusted key; in a build without
  signature support none reaches it.
\<close>
theorem signed_only_modules_are_signed:
  assumes "main_loop_with_policy bd runs st = Ok st'"
    and "bd_executor bd = recording ex" and "bd_policy bd = signed_only key" and "snd (ls_exec st) = []"
    and "wasm \<in> set (snd (ls_exec st'))"
  shows "(\<exists>v. validate_wasm_imports (bd_target bd) wasm = Ok v \<and> valid v)
    \<and> (\<exists>ed sig_bytes. bd_signing bd = Some ed \<and> length sig_bytes = SIG_LEN \<and> signs ed key sig_bytes wasm)"
proof -
  have "recorded_all (authorized (bd_target bd) (bd_signing bd) (bd_policy bd)) (ls_exec st')"
    by (rule rec_loop.loop_keeps [OF assms(2) _ _ assms(1)]) (simp_all add: recorded_all_def assms(4))
  then show ?thesis
    using assms(3,5) by (auto simp: recorded_all_def authorized_def signed_only_def)
qed

text \<open>
  Under every policy, the open one included, only modules that passed the import check
  reach the executor.
\<close>
theorem submitted_modules_are_validated:
  assumes "main_loop_with_policy bd runs st = Ok st'"
    and "bd_executor bd = recording ex" and "snd (ls_exec st) = []"
    and "wasm \<in> set (snd (ls_exec st'))"
  shows "\<exists>v. validate_wasm_imports (bd_target bd) wasm = Ok v \<and> valid v"
proof -
  have "recorded_all (authorized (bd_target bd) (bd_signing bd) (bd_policy bd)) (ls_exec st')"
    by (rule rec_loop.loop_keeps [OF assms(2) _ _ assms(1)]) (simp_all add: recorded_all_def assms(3))
  then show ?thesis using assms(4) by (auto simp: recorded_all_def authorized_def)
qed

section \<open>Requests and replies\<close>

text \<open>A transport that also records the frames written to it.\<close>

definition recording_transport :: "'t transport \<Rightarrow> ('t \<times> frame list) transport" where
  "recording_transport tp = \<lparr>
     tp_read_frame = (\<lambda>(t, out). and_then (tp_read_frame tp t) (\<lambda>(r, t). Ok (r, t, out))),
     tp_write_frame = (\<lambda>f (t, out). (let (r, t) = tp_write_frame tp f t in (r, t, out @ [f])))\<rparr>"

lemma send_recorded:
  "bd_transport bd = recording_transport tp \<Longrightarrow>
     snd (ls_transport (send bd op text st)) = snd (ls_transport st) @ [new_frame op (bytes_of_str text)]"
  by (simp add: send_def recording_transport_def case_prod_beta Let_def)

definition reply_opcode :: "u8 \<Rightarrow> u8" where
  "reply_opcode op =
     (if op = OP_DISCOVERY then OP_DISCOVERY
      else if op = OP_STOP \<or> op = OP_QUERY_STATUS then OP_STATUS_RESPONSE
      else OP_EXEC_RESULT)"

definition replied ::
  "('t \<times> frame list, 'e) loop_state \<Rightarrow> ('t \<times> frame list, 'e) loop_state \<Rightarrow> u8 \<Rightarrow> bool" where
  "replied st st' op \<longleftrightarrow> (\<exists>text v. snd (ls_transport st') = snd (ls_transport st) @ [new_frame op (bytes_of_str text)]
      \<and> parse_json text = Some v)"

lemma replied_send:
  "bd_transport bd = recording_transport tp \<Longrightarrow> snd (ls_transport st1) = snd (ls_transport st) \<Longrightarrow>
   text = render v \<Longrightarrow> replied st (send bd op text st1) op"
  unfolding replied_def by (metis send_recorded parse_json_render)

lemma error_texts:
  "no_key_json = render (error_value ''no trusted key provisioned'')"
  "unsigned_rejected_json = render (error_value ''unsigned module rejected: policy requires signed bytecode'')"
  "stopped_json = render (JObj [(''stopped'', JBool True)])"
  by (simp_all add: no_key_json_def unsigned_rejected_json_def error_text stopped_json_def quoted_def)

lemma signature_text:
  assumes "verify_signed feature data key = Inl e"
  shows "signature_rejected_json e = render (error_value (''signature rejected: '' @ e))"
proof -
  have "json_escape e = e"
    using assms by (auto simp: verify_signed_def verify_signed_dalek_def verify_signed_disabled_def
        split: option.splits prod.splits if_splits)
  then show ?thesis by (simp add: signature_rejected_json_def error_text json_escape_append)
qed

lemma authorize_error_text:
  assumes "authorize_module t feature data is_signed policy = Ok (Inl err)"
  shows "\<exists>v. err = render v"
  using assms error_texts signature_text rejected_imports_text
  by (fastforce simp: authorize_module_def and_then_eq_Ok Let_def split: if_splits option.splits sum.splits)

lemma unknown_opcode_text:
  "unknown_opcode_json op = render (JObj [(''error'', JStr (''unknown opcode 0x'' @ hex2 (unat op)))])"
  by (simp add: unknown_opcode_json_def quoted_def json_escape_append escape_hex2)

lemma single_core_poll_after_submit:
  assumes "sc_submit run wasm e = Ok e1"
  shows "\<exists>r e2. sc_poll_result e1 = (Some r, e2)"
  using assms by (auto simp: sc_submit_def sc_poll_result_def and_then_eq_Ok Let_def split: option.splits)

lemma single_core_reply:
  assumes "bd_transport bd = recording_transport tp" and "bd_executor bd = single_core_executor"
    and "sc_submit run wasm e = Ok e1" and "poll_and_reply bd (st\<lparr>ls_exec := e1\<rparr>) = Ok st'"
  shows "replied st st' OP_EXEC_RESULT"
proof -
  obtain r e2 where p: "sc_poll_result e1 = (Some r, e2)"
    using single_core_poll_after_submit [OF assms(3)] by blast
  with assms(2,4) have "st' = send bd OP_EXEC_RESULT (exec_result_to_json r) (st\<lparr>ls_exec := e2\<rparr>)"
    by (simp add: poll_and_reply_def single_core_executor_def Let_def)
  then show ?thesis using replied_send [OF assms(1) _ exec_result_text] by simp
qed

lemma push_reply:
  assumes "bd_transport bd = recording_transport tp" and "bd_executor bd = single_core_executor"
    and "handle_push bd run f st = Ok st' \<or> handle_swap bd run f st = Ok st'"
  shows "replied st st' OP_EXEC_RESULT"
proof -
  from assms(3) obtain is_signed a where
    a: "authorize_module (bd_target bd) (bd_signing bd) (payload f) is_signed (bd_policy bd) = Ok a"
    and c: "case a of Inl err_msg \<Rightarrow> st' = send bd OP_EXEC_RESULT err_msg st
      | Inr wasm \<Rightarrow> \<exists>e e1. sc_submit run wasm e = Ok e1 \<and> poll_and_reply bd (st\<lparr>ls_exec := e1\<rparr>) = Ok st'"
    using assms(2)
    by (fastforce simp: handle_push_def handle_swap_def and_then_eq_Ok Let_def single_core_executor_def
        split: sum.splits)
  show ?thesis
  proof (cases a)
    case (Inl err)
    then obtain v where "err = render v" using a authorize_error_text by blast
    with c Inl show ?thesis using replied_send [OF assms(1) refl] by simp
  next
    case (Inr wasm)
    with c show ?thesis using single_core_reply [OF assms(1,2)] by auto
  qed
qed

text \<open>
  C12: the protocol of the single-core receiver: every frame it handles without a panic is answered by
  exactly one frame (a parameter write by none), with the opcode its kind of request calls for, and except for
  the manifest, which the caller supplies, the text of the answer is well-formed JSON. This
  holds for refused, failed and unknown requests too.
\<close>
theorem every_request_is_answered:
  assumes "bd_transport bd = recording_transport tp" and "bd_executor bd = single_core_executor"
    and "handle_frame bd run f st = Ok st'"
  shows "if opcode f = OP_SET_PARAM then ls_transport st' = ls_transport st
    else \<exists>text. snd (ls_transport st')
             = snd (ls_transport st) @ [new_frame (reply_opcode (opcode f)) (bytes_of_str text)]
           \<and> (if opcode f = OP_DISCOVERY then text = bd_manifest bd else parse_json text \<noteq> None)"
proof -
  let ?op = "opcode f"
  note distinct = opcode_defs
  have status: "\<exists>text. snd (ls_transport (send bd op text' st1))
             = snd (ls_transport st) @ [new_frame op (bytes_of_str text)] \<and> parse_json text \<noteq> None"
    if "text' = render v" "ls_transport st1 = ls_transport st" for op text' v st1
    using send_recorded [OF assms(1), of op text' st1] that by (auto intro!: exI [of _ text'] simp: parse_json_render)
  consider "?op = OP_DISCOVERY" | "?op = OP_SET_PARAM" | "?op = OP_STOP" | "?op = OP_QUERY_STATUS"
    | "handle_push bd run f st = Ok st' \<or> handle_swap bd run f st = Ok st'" "reply_opcode ?op = OP_EXEC_RESULT"
      "?op \<noteq> OP_SET_PARAM" "?op \<noteq> OP_DISCOVERY"
    | "st' = send bd OP_EXEC_RESULT (unknown_opcode_json ?op) st" "reply_opcode ?op = OP_EXEC_RESULT"
      "?op \<noteq> OP_SET_PARAM" "?op \<noteq> OP_DISCOVERY"
    using assms(3) by (auto simp: handle_frame_def reply_opcode_def distinct split: if_splits)
  then show ?thesis
  proof cases
    case 1
    with assms(3) have "st' = send bd OP_DISCOVERY (bd_manifest bd) st" by (simp add: handle_frame_def)
    with 1 show ?thesis using send_recorded [OF assms(1)] by (simp add: reply_opcode_def distinct)
  next
    case 2
    with assms(3) have "st' = handle_set_param f st" by (simp add: handle_frame_def distinct)
    with 2 show ?thesis by (simp add: handle_set_param_def Let_def)
  next
    case 3
    with assms(3) have "st' = handle_stop bd st" by (simp add: handle_frame_def distinct)
    with 3 status [OF error_texts(3)] show ?thesis by (simp add: handle_stop_def reply_opcode_def distinct)
  next
    case 4
    with assms(3) have "st' = handle_query bd st" by (simp add: handle_frame_def distinct)
    with 4 status [OF status_text] show ?thesis by (simp add: handle_query_def reply_opcode_def distinct)
  next
    case 5
    with push_reply [OF assms(1,2) 5(1)] show ?thesis by (auto simp: replied_def)
  next
    case 6
    with status [OF unknown_opcode_text] show ?thesis by simp
  qed
qed

text \<open>
  A parameter frame of eight bytes or more sets the slot its first word names to its
  second word, so that a \<open>get_param\<close> of a running module reads the host's value (and only a
  slot below 8 changes); a shorter one does nothing; the executor is not touched and nothing
  is answered.
\<close>
theorem set_param_frame:
  assumes "length (ls_params st) = 8"
    and "handle_frame bd run \<lparr>opcode = OP_SET_PARAM, payload = p\<rparr> st = Ok st'"
  shows "ls_exec st' = ls_exec st \<and> ls_transport st' = ls_transport st
    \<and> (length p < 8 \<longrightarrow> st' = st)
    \<and> (\<forall>slot value rest. p = to_be_bytes slot @ to_be_bytes value @ rest \<longrightarrow>
         ls_params st' = set_param slot value (ls_params st)
         \<and> (unat slot < 8 \<longrightarrow> get_param slot (ls_params st') = value))"
proof -
  have st': "st' = handle_set_param \<lparr>opcode = OP_SET_PARAM, payload = p\<rparr> st"
    using assms(2) by (simp add: handle_frame_def opcode_defs)
  have "ls_params st' = set_param slot v (ls_params st)"
    if p: "p = to_be_bytes slot @ to_be_bytes v @ rest" for slot v rest
  proof -
    have "p ! n = to_be_bytes slot ! n" if "n < 4" for n using that p by (simp add: nth_append)
    moreover have "p ! (4 + n) = to_be_bytes v ! n" if "n < 4" for n
      using that p nth_append_length_plus [of "to_be_bytes slot" "to_be_bytes v @ rest" n]
      by (simp add: nth_append)
    from this [of 0] this [of 1] this [of 2] this [of 3]
    have "p ! 4 = to_be_bytes v ! 0" "p ! 5 = to_be_bytes v ! 1"
      "p ! 6 = to_be_bytes v ! 2" "p ! 7 = to_be_bytes v ! 3" by simp_all
    ultimately show ?thesis
      using p by (simp add: st' handle_set_param_def from_be_bytes_to_be_bytes
          del: One_nat_def)
  qed
  moreover have "get_param slot (set_param slot v (ls_params st)) = v" if "unat slot < 8" for slot v
    using that assms(1) by (simp add: get_param_def set_param_def)
  ultimately show ?thesis by (simp add: st' handle_set_param_def Let_def)
qed

section \<open>A concrete receiver\<close>

text \<open>A transport that plays a script of arrivals.\<close>

definition script_transport :: "(link_error + frame) list transport" where
  "script_transport = \<lparr>
     tp_read_frame = (\<lambda>s. Ok (case s of [] \<Rightarrow> (Inl ConnectionClosed, []) | x # xs \<Rightarrow> (x, xs))),
     tp_write_frame = (\<lambda>f s. (Inr (), s))\<rparr>"

text \<open>A signature scheme with one signature per key, enough to run the gates.\<close>

definition toy_scheme :: "(bytes, bytes) ed25519" where
  "toy_scheme = \<lparr>vk_from_bytes = Some, sig_from_slice = Some, vk_verify = (\<lambda>k w s. s = k @ k)\<rparr>"

definition toy_key :: bytes where "toy_key = replicate 32 7"

definition empty_module :: bytes where
  "empty_module = [0x00, 0x61, 0x73, 0x6D, 0x01, 0x00, 0x00, 0x00]"

definition toy_board ::
  "((link_error + frame) list \<times> frame list, nat single_core \<times> bytes list, nat, bytes, bytes) board" where
  "toy_board = \<lparr>bd_target = esp32c3_release, bd_signing = Some toy_scheme,
     bd_transport = recording_transport script_transport, bd_executor = recording single_core_executor,
     bd_manifest = ''{}'', bd_policy = signed_only toy_key\<rparr>"

lemma empty_module_valid:
  "validate_wasm_imports t empty_module = Ok \<lparr>valid = True, rejected_imports = []\<rparr>"
proof -
  have "section_step t empty_module 8 = Ok (Inl [])" by (simp add: section_step_def empty_module_def)
  from sections_loop_Inl [OF this] show ?thesis
    by (simp add: validate_wasm_imports_def walk_sections_def) (simp add: empty_module_def)
qed

lemma toy_signed:
  "verify_signed (Some toy_scheme) (toy_key @ toy_key @ empty_module) toy_key = Inr empty_module"
  by (simp add: verify_signed_def verify_signed_dalek_def split_signed_def SIG_LEN_def toy_scheme_def
      toy_key_def empty_module_def)

definition toy_state :: "frame list \<Rightarrow> ((link_error + frame) list \<times> frame list, nat single_core \<times> bytes list) loop_state" where
  "toy_state fs = \<lparr>ls_transport = (map Inr fs, []), ls_exec = (new_single_core 0 None, []),
     ls_params = PARAM_SLOTS\<rparr>"

definition toy_run :: "nat run" where
  "toy_run f w h = Ok (Suc h, \<lparr>er_ok = True, er_logs = [], er_error = None\<rparr>)"

lemma toy_authorized:
  "authorize_module esp32c3_release (Some toy_scheme) (toy_key @ toy_key @ empty_module) True (signed_only toy_key)
     = Ok (Inr empty_module)"
  by (simp add: authorize_module_def signed_only_def toy_signed empty_module_valid)

lemma toy_push:
  "\<exists>st'. main_loop_with_policy toy_board [toy_run]
      (toy_state [\<lparr>opcode = OP_SIGNED_PUSH, payload = toy_key @ toy_key @ empty_module\<rparr>]) = Ok st'
    \<and> snd (ls_exec st') = [empty_module]"
proof -
  have "OP_SIGNED_PUSH \<noteq> OP_DISCOVERY" by (simp add: opcode_defs)
  then show ?thesis
    by (simp add: loop_step_def toy_state_def toy_board_def recording_transport_def script_transport_def
        handle_frame_def handle_push_def toy_authorized recording_def single_core_executor_def
        new_single_core_def sc_submit_def toy_run_def poll_and_reply_def sc_poll_result_def Let_def)
qed

theorem signed_only_modules_are_signed_witness:
  "\<exists>st'. main_loop_with_policy toy_board [toy_run]
      (toy_state [\<lparr>opcode = OP_SIGNED_PUSH, payload = toy_key @ toy_key @ empty_module\<rparr>]) = Ok st'
    \<and> empty_module \<in> set (snd (ls_exec st'))
    \<and> (\<exists>sig_bytes. length sig_bytes = 64 \<and> signs toy_scheme toy_key sig_bytes empty_module)"
proof -
  obtain st' where r: "main_loop_with_policy toy_board [toy_run]
      (toy_state [\<lparr>opcode = OP_SIGNED_PUSH, payload = toy_key @ toy_key @ empty_module\<rparr>]) = Ok st'"
    and m: "snd (ls_exec st') = [empty_module]" using toy_push by blast
  have "\<exists>ed sig_bytes. bd_signing toy_board = Some ed \<and> length sig_bytes = SIG_LEN \<and> signs ed toy_key sig_bytes empty_module"
    using signed_only_modules_are_signed [OF r, of single_core_executor toy_key empty_module] m
    by (simp add: toy_board_def toy_state_def)
  with r m show ?thesis by (auto simp: toy_board_def SIG_LEN_def)
qed

theorem submitted_modules_are_validated_witness:
  "\<exists>st'. main_loop_with_policy toy_board [toy_run]
      (toy_state [\<lparr>opcode = OP_SIGNED_PUSH, payload = toy_key @ toy_key @ empty_module\<rparr>]) = Ok st'
    \<and> empty_module \<in> set (snd (ls_exec st'))
    \<and> (\<exists>v. validate_wasm_imports esp32c3_release empty_module = Ok v \<and> valid v)"
proof -
  obtain st' where r: "main_loop_with_policy toy_board [toy_run]
      (toy_state [\<lparr>opcode = OP_SIGNED_PUSH, payload = toy_key @ toy_key @ empty_module\<rparr>]) = Ok st'"
    and m: "snd (ls_exec st') = [empty_module]" using toy_push by blast
  have "\<exists>v. validate_wasm_imports (bd_target toy_board) empty_module = Ok v \<and> valid v"
    using submitted_modules_are_validated [OF r, of single_core_executor empty_module] m
    by (simp add: toy_board_def toy_state_def)
  with r m show ?thesis by (auto simp: toy_board_def)
qed

definition plain_board :: "((link_error + frame) list \<times> frame list, nat single_core, nat, bytes, bytes) board" where
  "plain_board = \<lparr>bd_target = esp32c3_release, bd_signing = None,
     bd_transport = recording_transport script_transport, bd_executor = single_core_executor,
     bd_manifest = ''{}'', bd_policy = open_policy\<rparr>"

definition plain_state :: "((link_error + frame) list \<times> frame list, nat single_core) loop_state" where
  "plain_state = \<lparr>ls_transport = ([], []), ls_exec = new_single_core 0 None, ls_params = PARAM_SLOTS\<rparr>"

theorem every_request_is_answered_witness:
  "\<exists>st' text. handle_frame plain_board toy_run \<lparr>opcode = OP_QUERY_STATUS, payload = []\<rparr> plain_state = Ok st'
    \<and> snd (ls_transport st') = [new_frame OP_STATUS_RESPONSE (bytes_of_str text)] \<and> parse_json text \<noteq> None"
proof -
  obtain st' where h: "handle_frame plain_board toy_run \<lparr>opcode = OP_QUERY_STATUS, payload = []\<rparr> plain_state = Ok st'"
    by (simp add: handle_frame_def opcode_defs)
  have "OP_QUERY_STATUS \<noteq> OP_SET_PARAM" "OP_QUERY_STATUS \<noteq> OP_DISCOVERY"
    "reply_opcode OP_QUERY_STATUS = OP_STATUS_RESPONSE"
    by (simp_all add: opcode_defs reply_opcode_def)
  with every_request_is_answered [OF _ _ h, of script_transport] h show ?thesis
    by (auto simp: plain_board_def plain_state_def)
qed

theorem set_param_frame_witness:
  "\<exists>st'. handle_frame plain_board toy_run
      \<lparr>opcode = OP_SET_PARAM, payload = to_be_bytes 3 @ to_be_bytes 300 @ []\<rparr> plain_state = Ok st'
    \<and> get_param 3 (ls_params st') = 300"
proof -
  obtain st' where h: "handle_frame plain_board toy_run
      \<lparr>opcode = OP_SET_PARAM, payload = to_be_bytes 3 @ to_be_bytes 300 @ []\<rparr> plain_state = Ok st'"
    by (simp add: handle_frame_def opcode_defs)
  have "length (ls_params plain_state) = 8" by (simp add: plain_state_def PARAM_SLOTS_def)
  from set_param_frame [OF this h] have "unat (3 :: u32) < 8 \<longrightarrow> get_param 3 (ls_params st') = 300" by blast
  with h show ?thesis by auto
qed

section \<open>Handling frames in order\<close>

text \<open>The specification of a receiver's loop: the frames are handled one after the other.\<close>

fun handle_all :: "(frame \<Rightarrow> 's \<Rightarrow> 's outcome) \<Rightarrow> frame list \<Rightarrow> 's \<Rightarrow> 's outcome" where
  "handle_all handle [] st = Ok st"
| "handle_all handle (f # fs) st = and_then (handle f st) (handle_all handle fs)"

lemma handle_all_append:
  "handle_all handle (xs @ ys) st = and_then (handle_all handle xs st) (handle_all handle ys)"
proof (induction xs arbitrary: st)
  case (Cons f xs)
  then show ?case by (cases "handle f st") simp_all
qed simp

end
