(* ===== verification/Provisioning.thy ===== *)
theory Provisioning
  imports Main_Loop
begin

text \<open>
  Provisioning of the trusted key in the entry points (\<open>receiver/src/main.rs\<close>): the two parsers
  of a hexadecimal key and the security policies they lead to, baked in at build time on the
  ESP32-C3 and read from the environment in the fleet emulator.
\<close>

section \<open>The key baked in at build time\<close>

definition byte_in :: "char \<Rightarrow> char \<Rightarrow> u8 \<Rightarrow> bool" where
  "byte_in lo hi c \<longleftrightarrow> of_char lo \<le> c \<and> c \<le> of_char hi"

definition hex_nibble :: "u8 \<Rightarrow> u8 option" where
  "hex_nibble c =
     (if byte_in CHR ''0'' CHR ''9'' c then Some (c - of_char CHR ''0'')
      else if byte_in CHR ''a'' CHR ''f'' c then Some (c - of_char CHR ''a'' + 10)
      else if byte_in CHR ''A'' CHR ''F'' c then Some (c - of_char CHR ''A'' + 10)
      else None)"

text \<open>The loop over the pairs of digits, which fills the key from the left.\<close>

fun hex_pairs :: "bytes \<Rightarrow> bytes option" where
  "hex_pairs (a # b # r) =
     Option.bind (hex_nibble a) (\<lambda>hi. Option.bind (hex_nibble b) (\<lambda>lo.
       map_option ((#) (or (push_bit 4 hi) lo)) (hex_pairs r)))"
| "hex_pairs r = Some []"

definition parse_hex_key_const :: "string \<Rightarrow> bytes option" where
  "parse_hex_key_const hex =
     (let bs = bytes_of_str hex in if length bs \<noteq> 64 then None else hex_pairs bs)"

definition esp_policy :: "string option \<Rightarrow> security_policy" where
  "esp_policy milo_trusted_key = (case milo_trusted_key of
     Some hex \<Rightarrow> (case parse_hex_key_const hex of Some key \<Rightarrow> signed_only key | None \<Rightarrow> open_policy)
   | None \<Rightarrow> open_policy)"

section \<open>The key in the environment\<close>

text \<open>
  \<open>str::trim\<close>: the encodings of the characters with the Unicode property White_Space, taken
  off both ends.
\<close>

definition white_space :: "bytes list" where
  "white_space = [[9], [10], [11], [12], [13], [32], [0xC2, 0x85], [0xC2, 0xA0], [0xE1, 0x9A, 0x80],
     [0xE2, 0x80, 0x80], [0xE2, 0x80, 0x81], [0xE2, 0x80, 0x82], [0xE2, 0x80, 0x83], [0xE2, 0x80, 0x84],
     [0xE2, 0x80, 0x85], [0xE2, 0x80, 0x86], [0xE2, 0x80, 0x87], [0xE2, 0x80, 0x88], [0xE2, 0x80, 0x89],
     [0xE2, 0x80, 0x8A], [0xE2, 0x80, 0xA8], [0xE2, 0x80, 0xA9], [0xE2, 0x80, 0xAF], [0xE2, 0x81, 0x9F],
     [0xE3, 0x80, 0x80]]"

definition white_prefix :: "bytes list \<Rightarrow> bytes \<Rightarrow> nat" where
  "white_prefix ws bs = (case find (\<lambda>w. take (length w) bs = w) ws of None \<Rightarrow> 0 | Some w \<Rightarrow> length w)"

function trim_start :: "bytes list \<Rightarrow> bytes \<Rightarrow> bytes" where
  "trim_start ws bs =
     (let n = white_prefix ws bs in if n = 0 \<or> bs = [] then bs else trim_start ws (drop n bs))"
  by auto
termination by (relation "measure (\<lambda>(ws, bs). length bs)") auto

declare trim_start.simps [simp del]

definition trim :: "string \<Rightarrow> bytes" where
  "trim s = rev (trim_start (map rev white_space) (rev (trim_start white_space (bytes_of_str s))))"

text \<open>
  \<open>u8::from_str_radix(_, 16)\<close> on two bytes: one sign \<open>+\<close> is allowed before the digits; a
  minus sign, a digit that is none and an empty number are errors.
\<close>

definition hex_digit :: "u8 \<Rightarrow> u8 option" where
  "hex_digit = hex_nibble"

definition from_str_radix_16 :: "u8 \<Rightarrow> u8 \<Rightarrow> u8 option" where
  "from_str_radix_16 a b =
     (if a = of_char CHR ''+'' then hex_digit b
      else Option.bind (hex_digit a) (\<lambda>hi. map_option (\<lambda>lo. hi * 16 + lo) (hex_digit b)))"

text \<open>Slicing a string where no character starts panics.\<close>

definition char_boundary :: "bytes \<Rightarrow> bool" where
  "char_boundary rest \<longleftrightarrow> (case rest of [] \<Rightarrow> True | b # r \<Rightarrow> \<not> cont_byte b)"

fun key_loop :: "bytes \<Rightarrow> bytes option outcome" where
  "key_loop (a # b # r) =
     (if \<not> char_boundary (a # b # r) \<or> \<not> char_boundary r then Panic
      else case from_str_radix_16 a b of
        None \<Rightarrow> Ok None
      | Some v \<Rightarrow> and_then (key_loop r) (\<lambda>k. Ok (map_option ((#) v) k)))"
| "key_loop r = Ok (Some [])"

definition parse_hex_key :: "string \<Rightarrow> bytes option outcome" where
  "parse_hex_key hex =
     (let hex = trim hex in if length hex \<noteq> 64 then Ok None else key_loop hex)"

text \<open>
  The emulator's policy from the two environment variables; a malformed key panics, and a
  variable that is not set, or not Unicode, is \<open>None\<close>.
\<close>

definition sim_policy :: "string option \<Rightarrow> string option \<Rightarrow> security_policy outcome" where
  "sim_policy milo_trusted_key milo_require_signed = (case milo_trusted_key of
     Some hex \<Rightarrow>
       and_then (parse_hex_key hex) (\<lambda>key.
         case key of
           None \<Rightarrow> Panic
         | Some key \<Rightarrow>
             if milo_require_signed = Some ''1'' then Ok (signed_only key)
             else Ok \<lparr>trusted_key = Some key, require_signed = False\<rparr>)
   | None \<Rightarrow> Ok open_policy)"

section \<open>Hexadecimal keys\<close>

definition hex_encode :: "bytes \<Rightarrow> string" where
  "hex_encode key = concat (map (\<lambda>b. hex2 (unat b)) key)"

text \<open>The digits by their numbers.\<close>

lemma hex_nibble_unat:
  "hex_nibble c =
     (let n = unat c in
      if 48 \<le> n \<and> n \<le> 57 then Some (word_of_nat (n - 48))
      else if 97 \<le> n \<and> n \<le> 102 then Some (word_of_nat (n - 87))
      else if 65 \<le> n \<and> n \<le> 70 then Some (word_of_nat (n - 55))
      else None)"
proof -
  have le: "byte_in lo hi c \<longleftrightarrow> of_char lo \<le> unat c \<and> unat c \<le> of_char hi" for lo hi
    by (simp only: byte_in_def word_le_nat_alt unat_of_char)
  have c: "c = word_of_nat m + word_of_nat (unat c - m)" if "m \<le> unat c" for m
    using that by (simp only: of_nat_add [symmetric] le_add_diff_inverse) simp
  have "c - 48 = word_of_nat (unat c - 48)" if "48 \<le> unat c"
    using c [OF that] by (metis add_diff_cancel_left' of_nat_numeral)
  moreover have "c - 97 + 10 = word_of_nat (unat c - 87)" if "97 \<le> unat c"
    using c [of 87] that by (simp only: of_nat_numeral) (simp add: algebra_simps)
  moreover have "c - 65 + 10 = word_of_nat (unat c - 55)" if "65 \<le> unat c"
    using c [of 55] that by (simp only: of_nat_numeral) (simp add: algebra_simps)
  ultimately show ?thesis
    unfolding hex_nibble_def le Let_def by simp
qed

lemma hex_nibble_hex_char: "d < 16 \<Longrightarrow> hex_nibble (of_char (hex_char d)) = Some (word_of_nat d)"
  by (auto simp: hex_nibble_unat hex_char_def of_char_char_of_small)

lemma hex_bounds: "unat (b :: u8) div 16 < 16" "unat (b :: u8) mod 16 < 16"
  using byte_bound [of b] by (simp_all add: less_mult_imp_div_less)

lemma nibbles_join:
  "or (push_bit 4 (word_of_nat (unat (b :: u8) div 16))) (word_of_nat (unat b mod 16)) = b
   \<and> word_of_nat (unat b div 16) * 16 + word_of_nat (unat b mod 16) = b"
proof -
  have hi: "(word_of_nat (unat b div 16) :: u8) = drop_bit 4 b"
    using hex_bounds [of b] by (simp add: word_unat_eq_iff unat_drop_bit_eq drop_bit_eq_div unat_of_nat_u8 unat_div)
  have lo: "(word_of_nat (unat b mod 16) :: u8) = take_bit 4 b"
    by (simp add: word_unat_eq_iff take_bit_eq_mod unat_of_nat_u8 unat_mod)
  have "or (push_bit 4 (drop_bit 4 b)) (take_bit 4 b) = b"
    by (rule bit_word_eqI) (auto simp: bit_or_iff bit_push_bit_iff bit_drop_bit_eq bit_take_bit_iff)
  moreover have "drop_bit 4 b * 16 + take_bit 4 b = b"
    using bits_ident [of 4 b] by (simp add: push_bit_eq_mult)
  ultimately show ?thesis by (simp only: hi lo)
qed

lemma bytes_of_hex2:
  "bytes_of_str (hex2 n @ s) = of_char (hex_char (n div 16)) # of_char (hex_char (n mod 16)) # bytes_of_str s"
  by (simp add: hex2_def bytes_of_str_def)

lemma hex_pairs_encode: "hex_pairs (bytes_of_str (hex_encode key)) = Some key"
proof (induction key)
  case (Cons b key)
  then show ?case
    by (simp add: hex_encode_def bytes_of_hex2 hex_nibble_hex_char hex_bounds nibbles_join)
qed (simp add: hex_encode_def bytes_of_str_def)

lemma length_hex_encode: "length (hex_encode key) = 2 * length key"
  by (induction key) (simp_all add: hex_encode_def hex2_def)

lemma hex_pairs_digits:
  "even (length bs) \<Longrightarrow> hex_pairs bs \<noteq> None \<longleftrightarrow> (\<forall>b \<in> set bs. hex_nibble b \<noteq> None)"
  by (induction bs rule: hex_pairs.induct) (auto simp: bind_eq_None_conv split: Option.bind_split)

text \<open>A hexadecimal digit is ASCII and no white space, and no sign.\<close>

lemma hex_nibble_digit:
  assumes "hex_nibble b = Some v"
  shows "unat b \<in> {48..57} \<union> {65..70} \<union> {97..102} \<and> unat v < 16"
  using assms by (auto simp: hex_nibble_unat Let_def unat_of_nat_u8 simp del: of_nat_diff split: if_splits)

lemma white_space_not_hex:
  "\<forall>w \<in> set white_space. w \<noteq> [] \<and> unat (hd w) \<notin> {48..57} \<union> {65..70} \<union> {97..102}
     \<and> unat (last w) \<notin> {48..57} \<union> {65..70} \<union> {97..102}"
  by (simp add: white_space_def)

lemma hex_digit_ascii:
  assumes "hex_nibble b = Some v"
  shows "\<not> cont_byte b \<and> b \<noteq> of_char CHR ''+'' \<and> white_prefix white_space (b # r) = 0
     \<and> white_prefix (map rev white_space) (b # r) = 0"
proof -
  note d = hex_nibble_digit [OF assms, THEN conjunct1]
  have b: "\<not> cont_byte b" "b \<noteq> of_char CHR ''+''" using d by (auto simp: cont_byte_def)
  have ws: "\<forall>w \<in> set white_space. w \<noteq> [] \<and> hd w \<noteq> b \<and> last w \<noteq> b"
    using d white_space_not_hex by metis
  have "white_prefix ws (b # r) = 0" if "\<forall>w \<in> set ws. w \<noteq> [] \<and> hd w \<noteq> b" for ws
  proof -
    have "take (length w) (b # r) \<noteq> w" if "w \<in> set ws" for w
      using \<open>\<forall>w \<in> set ws. w \<noteq> [] \<and> hd w \<noteq> b\<close> that by (cases w) auto
    then have "find (\<lambda>w. take (length w) (b # r) = w) ws = None" by (auto simp: find_None_iff)
    then show ?thesis by (simp add: white_prefix_def)
  qed
  with b ws show ?thesis by (simp add: hd_rev)
qed

lemma trim_start_digit: "white_prefix ws bs = 0 \<Longrightarrow> trim_start ws bs = bs"
  by (subst trim_start.simps) simp

lemma trim_digits:
  assumes "\<forall>b \<in> set (bytes_of_str s). hex_nibble b \<noteq> None"
  shows "trim s = bytes_of_str s"
proof (cases "bytes_of_str s = []")
  case True
  then show ?thesis by (simp add: trim_def trim_start.simps [of _ "[]"])
next
  case False
  then obtain a r where a: "bytes_of_str s = a # r" by (cases "bytes_of_str s") auto
  from False obtain z q where z: "rev (bytes_of_str s) = z # q" by (cases "rev (bytes_of_str s)") auto
  have "hex_nibble a \<noteq> None" using assms a by simp
  moreover have "z \<in> set (bytes_of_str s)" using z by (metis list.set_intros(1) set_rev)
  then have "hex_nibble z \<noteq> None" using assms by blast
  ultimately show ?thesis
    using hex_digit_ascii [of a _ r] hex_digit_ascii [of z _ q] a z
    by (auto simp: trim_def trim_start_digit)
qed

lemma hex_nibble_less: "hex_nibble b = Some v \<Longrightarrow> unat v < 16"
  using hex_nibble_digit by blast

lemma nibble_sum:
  assumes "unat hi < 16" and "unat lo < 16"
  shows "hi * 16 + lo = (or (push_bit 4 hi) lo :: u8)"
proof -
  let ?c = "hi * 16 + lo"
  have u: "unat ?c = unat hi * 16 + unat lo"
    using assms by (simp add: unat_word_ariths)
  then have "unat ?c div 16 = unat hi" "unat ?c mod 16 = unat lo" using assms by simp_all
  then have "(word_of_nat (unat ?c div 16) :: u8) = hi" "(word_of_nat (unat ?c mod 16) :: u8) = lo" by simp_all
  with nibbles_join [of ?c] show ?thesis by metis
qed

lemma key_loop_hex_pairs:
  "\<forall>b \<in> set bs. hex_nibble b \<noteq> None \<Longrightarrow> even (length bs) \<Longrightarrow> key_loop bs = Ok (hex_pairs bs)"
proof (induction bs rule: key_loop.induct)
  case (1 a b r)
  obtain hi lo where n: "hex_nibble a = Some hi" "hex_nibble b = Some lo" using "1.prems" by auto
  have bd: "char_boundary (a # b # r)" using hex_digit_ascii [OF n(1)] by (simp add: char_boundary_def)
  have br: "char_boundary r"
  proof (cases r)
    case (Cons c q)
    then obtain v where "hex_nibble c = Some v" using "1.prems" by auto
    then show ?thesis using hex_digit_ascii Cons by (simp add: char_boundary_def)
  qed (simp add: char_boundary_def)
  have v: "from_str_radix_16 a b = Some (or (push_bit 4 hi) lo)"
    using n hex_digit_ascii [OF n(1)] nibble_sum [OF hex_nibble_less [OF n(1)] hex_nibble_less [OF n(2)]]
    by (simp add: from_str_radix_16_def hex_digit_def)
  have "key_loop r = Ok (hex_pairs r)" using bd br v "1.prems" by (intro "1.IH") auto
  then show ?case using bd br v n by simp
qed auto

lemma parse_hex_key_const_iff:
  "parse_hex_key_const hex = Some key \<longleftrightarrow>
     length hex = 64 \<and> (\<forall>b \<in> set (bytes_of_str hex). hex_nibble b \<noteq> None) \<and> hex_pairs (bytes_of_str hex) = Some key"
  using hex_pairs_digits [of "bytes_of_str hex"] by (auto simp: parse_hex_key_const_def Let_def)

lemma parse_hex_key_agrees: "parse_hex_key_const hex = Some key \<Longrightarrow> parse_hex_key hex = Ok (Some key)"
  by (simp add: parse_hex_key_const_iff parse_hex_key_def trim_digits key_loop_hex_pairs)

section \<open>Properties\<close>

text \<open>
  The hexadecimal text of a 32-byte key provisions exactly that key, in both parsers: the
  ESP32-C3 that has it baked in and the emulator that requires signatures accept signed
  modules only, under that key.
\<close>
theorem key_provisioning:
  assumes "length key = 32"
  shows "parse_hex_key_const (hex_encode key) = Some key \<and> parse_hex_key (hex_encode key) = Ok (Some key)
    \<and> esp_policy (Some (hex_encode key)) = signed_only key
    \<and> sim_policy (Some (hex_encode key)) (Some ''1'') = Ok (signed_only key)"
proof -
  have k: "parse_hex_key_const (hex_encode key) = Some key"
    using assms by (simp add: parse_hex_key_const_def length_hex_encode hex_pairs_encode)
  then show ?thesis by (simp add: parse_hex_key_agrees esp_policy_def sim_policy_def)
qed

theorem key_provisioning_witness:
  "esp_policy (Some (hex_encode (replicate 32 0xAB))) = signed_only (replicate 32 0xAB)"
  using key_provisioning [of "replicate 32 0xAB"] by simp

text \<open>
  A malformed key makes the ESP32-C3 accept everything: a key text that is not 64
  hexadecimal digits gives the open policy, as if no key had been provisioned, while the
  emulator never falls back to the open policy when the variable is set: it panics.
\<close>
theorem malformed_key_opens_board:
  assumes "length hex \<noteq> 64 \<or> (\<exists>b \<in> set (bytes_of_str hex). hex_nibble b = None)"
  shows "esp_policy (Some hex) = open_policy \<and> sim_policy (Some hex) required \<noteq> Ok open_policy"
proof -
  have "parse_hex_key_const hex = None"
  proof (cases "parse_hex_key_const hex")
    case (Some key)
    with parse_hex_key_const_iff [of hex key] assms show ?thesis by blast
  qed
  moreover have "sim_policy (Some hex) required \<noteq> Ok open_policy"
    by (auto simp: sim_policy_def and_then_eq_Ok open_policy_def signed_only_def split: option.splits if_splits)
  ultimately show ?thesis by (simp add: esp_policy_def)
qed

theorem malformed_key_opens_board_witness:
  "esp_policy (Some (''0x'' @ hex_encode (replicate 31 0xAB))) = open_policy"
proof -
  have "\<exists>b \<in> set (bytes_of_str (''0x'' @ hex_encode (replicate 31 0xAB))). hex_nibble b = None"
    by (rule bexI [of _ "of_char CHR ''x''"]) (simp_all add: hex_nibble_def byte_in_def bytes_of_str_def)
  with malformed_key_opens_board [of "''0x'' @ hex_encode (replicate 31 0xAB)"] show ?thesis by blast
qed

text \<open>
  The two parsers differ: the emulator's takes a plus sign for a digit and panics on text
  that is not ASCII.
\<close>

lemma plus_sign_key:
  "parse_hex_key (concat (replicate 32 ''+f'')) = Ok (Some (replicate 32 15))
   \<and> parse_hex_key_const (concat (replicate 32 ''+f'')) = None"
  by code_simp

end
