(* ===== verification/Transports.thy ===== *)
theory Transports
  imports Main_Loop
begin

text \<open>
  The transports of \<open>receiver/src/transport\<close>: embedded I/O (USB serial of the boards), stdio,
  the TCP server and the Wi-Fi placeholder, each as an instance of the main loop's transport
  interface. What a peer or a device will deliver is a script of answers; the specification
  of a reading transport is that it cuts the bytes into frames wherever the answers split.
\<close>

section \<open>Embedded I/O\<close>

text \<open>
  A read returns some bytes, at most as many as it was asked for (the rest comes with the
  next read), none, or an error; when the script is over it delivers nothing any more.
\<close>

datatype read_answer = Data bytes | ReadFailed

function fill :: "nat \<Rightarrow> read_answer list \<Rightarrow> (bytes \<times> read_answer list) outcome" where
  "fill n s =
     (if n = 0 then Ok ([], s)
      else (case s of
              [] \<Rightarrow> Diverges
            | ReadFailed # s \<Rightarrow> fill n s
            | Data c # s \<Rightarrow>
                if c = [] then fill n s
                else if n < length c then Ok (take n c, Data (drop n c) # s)
                else and_then (fill (n - length c) s) (\<lambda>(bs, s). Ok (c @ bs, s))))"
  by pat_completeness auto

termination by (relation "measure (\<lambda>(n, s). length s)") auto

declare fill.simps [simp del]

record embedded_io =
  eio_answers :: "read_answer list"
  eio_writer :: writer

definition read_exact_bytes :: "nat \<Rightarrow> embedded_io \<Rightarrow> (bytes \<times> embedded_io) outcome" where
  "read_exact_bytes n io =
     and_then (fill n (eio_answers io)) (\<lambda>(bs, s). Ok (bs, io\<lparr>eio_answers := s\<rparr>))"

definition eio_read_frame :: "target \<Rightarrow> embedded_io \<Rightarrow> ((link_error + frame) \<times> embedded_io) outcome" where
  "eio_read_frame t io =
     and_then (read_exact_bytes 5 io) (\<lambda>(header, io).
       let op = header ! 0; len = header_len header in
       and_then (alloc_zeroed t len) (\<lambda>_.
         if len > 0 then
           and_then (read_exact_bytes len io) (\<lambda>(p, io). Ok (Inr (new_frame op p), io))
         else Ok (Inr (new_frame op []), io)))"

definition eio_write_frame :: "frame \<Rightarrow> embedded_io \<Rightarrow> (link_error + unit) \<times> embedded_io" where
  "eio_write_frame f io = (case write_all (serialize f) (eio_writer io) of
     (Inl e, w) \<Rightarrow> (Inl (Io ''write failed''), io\<lparr>eio_writer := w\<rparr>)
   | (Inr _, w) \<Rightarrow> (Inr (), io\<lparr>eio_writer := w\<rparr>))"

definition embedded_io_transport :: "target \<Rightarrow> embedded_io transport" where
  "embedded_io_transport t = \<lparr>tp_read_frame = eio_read_frame t, tp_write_frame = eio_write_frame\<rparr>"

section \<open>Stdio\<close>

record stdio =
  sio_stdin :: reader
  sio_stdout :: writer

definition stdio_transport :: "stdio transport" where
  "stdio_transport = \<lparr>
     tp_read_frame = (\<lambda>s. let (r, i) = read_frame (sio_stdin s) in Ok (r, s\<lparr>sio_stdin := i\<rparr>)),
     tp_write_frame = (\<lambda>f s. let (r, w) = write_frame f (sio_stdout s) in (r, s\<lparr>sio_stdout := w\<rparr>))\<rparr>"

section \<open>Wi-Fi placeholder\<close>

definition MILO_TCP_PORT :: u16 where "MILO_TCP_PORT = 9100"

record wifi_config =
  wc_ssid :: string
  wc_password :: string

record wifi_tcp =
  wf_rx_buf :: bytes
  wf_tx_buf :: bytes
  wf_connected :: bool

definition new_wifi_tcp :: wifi_tcp where
  "new_wifi_tcp = \<lparr>wf_rx_buf = replicate 1536 0, wf_tx_buf = replicate 1536 0, wf_connected = False\<rparr>"

definition is_client_connected :: "wifi_tcp \<Rightarrow> bool" where
  "is_client_connected w = wf_connected w"

definition wifi_transport :: "wifi_tcp transport" where
  "wifi_transport = \<lparr>
     tp_read_frame = (\<lambda>w. Ok (Inl (Io ''wifi transport not yet active''), w)),
     tp_write_frame = (\<lambda>f w. (Inl (Io ''wifi transport not yet active''), w))\<rparr>"

section \<open>TCP server\<close>

text \<open>
  A read of a connection delivers some bytes, the end (an empty chunk) or an error; a
  connection whose script is over stays idle. A write fails or not. The listener has a
  script of arrivals and refuses (would block) when it is over.
\<close>

datatype tcp_read = Chunk bytes | TcpError io_error

record tcp_stream =
  ts_reads :: "tcp_read list"
  ts_write_errors :: "string option list"
  ts_written :: bytes

datatype tcp_accept = Connects tcp_stream | AcceptError io_error

record tcp_server =
  srv_listener :: "tcp_accept list"
  srv_client :: "tcp_stream option"
  srv_buf :: bytes

text \<open>\<open>bind\<close> succeeded: a listener, no client, an empty buffer.\<close>

definition tcp_bind :: "tcp_accept list \<Rightarrow> tcp_server" where
  "tcp_bind l = \<lparr>srv_listener = l, srv_client = None, srv_buf = []\<rparr>"

definition accept :: "tcp_accept list \<Rightarrow> (io_error + tcp_stream) \<times> tcp_accept list" where
  "accept l = (case l of
     [] \<Rightarrow> (Inl \<lparr>kind = WouldBlock, io_text = ''would block''\<rparr>, [])
   | Connects c # r \<Rightarrow> (Inr c, r)
   | AcceptError e # r \<Rightarrow> (Inl e, r))"

definition ensure_client :: "tcp_server \<Rightarrow> (link_error + unit) \<times> tcp_server" where
  "ensure_client s =
     (if srv_client s \<noteq> None then (Inr (), s)
      else (case accept (srv_listener s) of
              (Inr stream, l) \<Rightarrow>
                (Inr (), s\<lparr>srv_listener := l, srv_buf := [], srv_client := Some stream\<rparr>)
            | (Inl e, l) \<Rightarrow>
                (Inl (Io (if kind e = WouldBlock then ''no client'' else io_text e)),
                 s\<lparr>srv_listener := l\<rparr>)))"

definition drop_client :: "tcp_server \<Rightarrow> tcp_server" where
  "drop_client s = s\<lparr>srv_client := None, srv_buf := []\<rparr>"

definition take_frame :: "tcp_server \<Rightarrow> frame option \<times> tcp_server" where
  "take_frame s =
     (let buf = srv_buf s in
      if length buf < 5 then (None, s)
      else
        let len = header_len buf in
        if len > MAX_FRAME_LEN then (None, drop_client s)
        else if length buf < 5 + len then (None, s)
        else (Some (new_frame (buf ! 0) (take len (drop 5 buf))), s\<lparr>srv_buf := drop (5 + len) buf\<rparr>))"

text \<open>\<open>stream.read\<close> into a chunk of 4096 bytes.\<close>

definition stream_read :: "tcp_stream \<Rightarrow> (io_error + bytes) \<times> tcp_stream" where
  "stream_read c = (case ts_reads c of
     [] \<Rightarrow> (Inl \<lparr>kind = WouldBlock, io_text = ''would block''\<rparr>, c)
   | TcpError e # r \<Rightarrow> (Inl e, c\<lparr>ts_reads := r\<rparr>)
   | Chunk bs # r \<Rightarrow>
       if length bs \<le> 4096 then (Inr bs, c\<lparr>ts_reads := r\<rparr>)
       else (Inr (take 4096 bs), c\<lparr>ts_reads := Chunk (drop 4096 bs) # r\<rparr>))"

definition tcp_read_frame :: "tcp_server \<Rightarrow> ((link_error + frame) \<times> tcp_server) outcome" where
  "tcp_read_frame s = (case ensure_client s of
     (Inl e, s) \<Rightarrow> Ok (Inl e, s)
   | (Inr _, s) \<Rightarrow>
       (case take_frame s of
          (Some f, s) \<Rightarrow> Ok (Inr f, s)
        | (None, s) \<Rightarrow>
            (case srv_client s of
               None \<Rightarrow> Panic
             | Some stream \<Rightarrow>
                 (case stream_read stream of
                    (Inr chunk, stream) \<Rightarrow>
                      if chunk = [] then Ok (Inl ConnectionClosed, drop_client s)
                      else
                        let s = s\<lparr>srv_client := Some stream, srv_buf := srv_buf s @ chunk\<rparr> in
                        (case take_frame s of
                           (Some f, s) \<Rightarrow> Ok (Inr f, s)
                         | (None, s) \<Rightarrow> Ok (Inl (Io ''partial frame''), s))
                  | (Inl e, stream) \<Rightarrow>
                      if kind e = WouldBlock \<or> kind e = TimedOut
                      then Ok (Inl (Io ''idle''), s\<lparr>srv_client := Some stream\<rparr>)
                      else Ok (Inl (Io (io_text e)), drop_client s)))))"

definition tcp_write_frame :: "frame \<Rightarrow> tcp_server \<Rightarrow> (link_error + unit) \<times> tcp_server" where
  "tcp_write_frame f s = (case srv_client s of
     None \<Rightarrow> (Inl ConnectionClosed, s)
   | Some stream \<Rightarrow>
       (case ts_write_errors stream of
          Some e # r \<Rightarrow> (Inl (Io e), drop_client s)
        | es \<Rightarrow> (Inr (), s\<lparr>srv_client := Some (stream\<lparr>ts_write_errors := tl es,
                     ts_written := ts_written stream @ serialize f\<rparr>)\<rparr>)))"

definition tcp_server_transport :: "tcp_server transport" where
  "tcp_server_transport = \<lparr>tp_read_frame = tcp_read_frame, tp_write_frame = tcp_write_frame\<rparr>"

section \<open>Embedded I/O: frames do not depend on how the bytes arrive\<close>

text \<open>The bytes a script will deliver.\<close>

definition delivered :: "read_answer list \<Rightarrow> bytes" where
  "delivered s = concat (map (\<lambda>a. case a of Data c \<Rightarrow> c | ReadFailed \<Rightarrow> []) s)"

lemma delivered_simps [simp]:
  "delivered [] = []" "delivered (Data c # s) = c @ delivered s" "delivered (ReadFailed # s) = delivered s"
  by (simp_all add: delivered_def)

lemma fill_delivered:
  "n \<le> length (delivered s) \<Longrightarrow>
     \<exists>s'. fill n s = Ok (take n (delivered s), s') \<and> delivered s' = drop n (delivered s)"
proof (induction n s rule: fill.induct)
  case (1 n s)
  show ?case
  proof (cases "n = 0 \<or> s = []")
    case True
    with 1 show ?thesis by (subst fill.simps) auto
  next
    case False
    then obtain a r where s: "s = a # r" by (cases s) auto
    show ?thesis
    proof (cases a)
      case ReadFailed
      with "1.IH" "1.prems" False s show ?thesis by (subst fill.simps) auto
    next
      case (Data c)
      consider "c = []" | "c \<noteq> []" "n < length c" | "c \<noteq> []" "length c \<le> n" by linarith
      then show ?thesis
      proof cases
        case 1
        with "1.IH"(1) [OF _ s Data] "1.prems" False s Data show ?thesis by (subst fill.simps) simp
      next
        case 2
        with False s Data show ?thesis by (subst fill.simps) simp
      next
        case 3
        with "1.prems" s Data have "n - length c \<le> length (delivered r)" by simp
        with 3 "1.IH"(2) [OF _ s Data] False obtain s' where
          "fill (n - length c) r = Ok (take (n - length c) (delivered r), s')"
          "delivered s' = drop (n - length c) (delivered r)" by auto
        with 3 s Data False show ?thesis by (subst fill.simps) simp
      qed
    qed
  qed
qed

lemma fill_starved:
  "length (delivered s) < n \<Longrightarrow> fill n s = Diverges"
proof (induction n s rule: fill.induct)
  case (1 n s)
  show ?case
  proof (cases s)
    case Nil
    with 1 show ?thesis by (subst fill.simps) auto
  next
    case (Cons a r)
    show ?thesis
    proof (cases a)
      case ReadFailed
      with "1.IH" "1.prems" Cons show ?thesis by (subst fill.simps) auto
    next
      case (Data c)
      with 1(1,2) [OF _ Cons Data] 1(4) Cons show ?thesis by (subst fill.simps) auto
    qed
  qed
qed

lemma eio_read_whole:
  assumes "length (payload f) < 4294967296" and "alloc_zeroed t (length (payload f)) \<noteq> Panic"
  shows "delivered (eio_answers io) = serialize f @ rest \<Longrightarrow>
      \<exists>s. eio_read_frame t io = Ok (Inr f, io\<lparr>eio_answers := s\<rparr>) \<and> delivered s = rest"
    (is "?D \<Longrightarrow> ?R")
proof -
  assume d: ?D
  let ?h = "opcode f # to_be_bytes (word_of_nat (length (payload f)))"
  have ser: "serialize f = ?h @ payload f" by (rule serialize_split)
  have hl: "header_len ?h = length (payload f)"
    using assms(1) by (simp only: header_len_cons unat_of_nat_u32 mod_less)
  obtain s1 where s1: "fill 5 (eio_answers io) = Ok (?h, s1)" "delivered s1 = payload f @ rest"
    using fill_delivered [of 5 "eio_answers io"] d by (auto simp: ser)
  obtain s2 where s2: "fill (length (payload f)) s1 = Ok (payload f, s2)" "delivered s2 = rest"
    using fill_delivered [of "length (payload f)" s1] s1 by auto
  have a: "alloc_zeroed t (length (payload f)) = Ok (replicate (length (payload f)) 0)"
    using assms(2) by (auto simp: alloc_zeroed_def split: if_splits)
  have "fill 0 s1 = Ok ([], s1)" by (subst fill.simps) simp
  then show ?R
    using s1 s2 hl a
    by (cases f) (auto simp: eio_read_frame_def read_exact_bytes_def new_frame_def Let_def)
qed

text \<open>
  On the boards' serial link a frame is read the same however the driver splits its bytes
  over reads, and with whatever empty and failed reads in between: the frame comes out
  unchanged, and the bytes after it are what is left. Bytes missing from the frame keep the
  call from returning.
\<close>
theorem eio_read_frame_chunking:
  assumes "length (payload f) < 4294967296" and "alloc_zeroed t (length (payload f)) \<noteq> Panic"
    and "delivered (eio_answers io) = serialize f @ rest"
  shows "\<exists>s. eio_read_frame t io = Ok (Inr f, io\<lparr>eio_answers := s\<rparr>) \<and> delivered s = rest"
  using assms by (rule eio_read_whole)

theorem eio_read_frame_chunking_witness:
  "\<exists>s. eio_read_frame esp32c3_release
      \<lparr>eio_answers = [Data [5, 0], ReadFailed, Data [], Data [0, 0, 1, 7, 9]],
       eio_writer = \<lparr>written = [], room = None, write_error = \<lparr>kind = OtherKind, io_text = []\<rparr>, flush_error = None\<rparr>\<rparr>
     = Ok (Inr \<lparr>opcode = 5, payload = [7]\<rparr>, \<lparr>eio_answers = s, eio_writer =
        \<lparr>written = [], room = None, write_error = \<lparr>kind = OtherKind, io_text = []\<rparr>, flush_error = None\<rparr>\<rparr>)
     \<and> delivered s = [9]"
proof -
  let ?io = "\<lparr>eio_answers = [Data [5, 0], ReadFailed, Data [], Data [0, 0, 1, 7, 9]],
       eio_writer = \<lparr>written = [], room = None, write_error = \<lparr>kind = OtherKind, io_text = []\<rparr>, flush_error = None\<rparr>\<rparr>"
  let ?f = "\<lparr>opcode = 5, payload = [7]\<rparr>"
  have 1: "length (payload ?f) < 4294967296" by simp
  have 2: "alloc_zeroed esp32c3_release (length (payload ?f)) \<noteq> Panic"
    by (simp add: alloc_zeroed_def esp32c3_release_def)
  have 3: "delivered (eio_answers ?io) = serialize ?f @ [9]"
    by (simp add: serialize_def to_be_bytes_def)
  from eio_read_frame_chunking [OF 1 2 3] show ?thesis by simp
qed

text \<open>
  The boards' reader does not have the frame bound: a five-byte header that announces more
  bytes than the heap holds panics the receiver, before any payload byte arrives. The
  bounded reader refuses the same header with an error.
\<close>
theorem eio_oversize_panics:
  assumes "delivered (eio_answers io) = [op, a, b, c, d] @ rest"
    and "heap_bytes t < unat (from_be_bytes a b c d)"
  shows "eio_read_frame t io = Panic"
proof -
  obtain s1 where "fill 5 (eio_answers io) = Ok ([op, a, b, c, d], s1)"
    using fill_delivered [of 5 "eio_answers io"] assms(1) by auto
  moreover have "alloc_zeroed t (unat (from_be_bytes a b c d)) = Panic"
    using assms(2) by (simp add: alloc_zeroed_def)
  ultimately show ?thesis
    by (simp add: eio_read_frame_def read_exact_bytes_def header_len_bytes Let_def)
qed

theorem eio_oversize_panics_witness:
  "eio_read_frame esp32c3_release \<lparr>eio_answers = [Data [2, 0, 4, 0, 0]],
     eio_writer = \<lparr>written = [], room = None, write_error = \<lparr>kind = OtherKind, io_text = []\<rparr>, flush_error = None\<rparr>\<rparr>
   = Panic"
  by (rule eio_oversize_panics [of _ 2 0 4 0 0 "[]"])
    (simp_all add: unat_from_be_bytes esp32c3_release_def)

section \<open>TCP: frames are reassembled from any chunks\<close>

definition small :: "frame \<Rightarrow> bool" where
  "small f \<longleftrightarrow> length (payload f) \<le> MAX_FRAME_LEN"

lemma header_len_take: "5 \<le> length xs \<Longrightarrow> header_len (xs @ ys) = header_len xs"
  by (simp add: header_len_def nth_append)

lemma header_len_serialize:
  assumes "small f"
  shows "header_len (serialize f @ ys) = length (payload f)"
proof -
  have "length (payload f) < 4294967296" using assms by (simp add: small_def MAX_FRAME_LEN_def)
  then have "header_len (opcode f # to_be_bytes (word_of_nat (length (payload f)))) = length (payload f)"
    by (simp only: header_len_cons unat_of_nat_u32 mod_less)
  then show ?thesis by (simp add: serialize_split header_len_def nth_append)
qed

lemma take_frame_whole:
  assumes "small f" and "srv_buf s = serialize f @ tail"
  shows "take_frame s = (Some f, s\<lparr>srv_buf := tail\<rparr>)"
proof -
  have "header_len (srv_buf s) = length (payload f)"
    using header_len_serialize [OF assms(1)] assms(2) by simp
  moreover have "srv_buf s ! 0 = opcode f" "take (length (payload f)) (drop 5 (srv_buf s)) = payload f"
    by (simp_all add: assms(2) serialize_split)
  ultimately show ?thesis
    using assms by (simp add: take_frame_def small_def new_frame_def Let_def)
qed

lemma take_frame_part:
  assumes "small f" and "srv_buf s @ tail = serialize f @ after" and "length (srv_buf s) < length (serialize f)"
  shows "take_frame s = (None, s)"
proof (cases "length (srv_buf s) < 5")
  case False
  then have "header_len (srv_buf s) = length (payload f)"
    using header_len_take [of "srv_buf s" tail] header_len_serialize [OF assms(1), of after] assms(2) by simp
  with assms False show ?thesis by (simp add: take_frame_def small_def Let_def)
qed (simp add: take_frame_def)

fun tcp_frames :: "nat \<Rightarrow> tcp_server \<Rightarrow> frame list outcome" where
  "tcp_frames 0 s = Ok []"
| "tcp_frames (Suc n) s =
     and_then (tcp_read_frame s) (\<lambda>(r, s).
       and_then (tcp_frames n s) (\<lambda>fs. Ok ((case r of Inr f \<Rightarrow> [f] | Inl _ \<Rightarrow> []) @ fs)))"

text \<open>A connection that delivers the chunks and then stays idle.\<close>

definition connected :: "bytes list \<Rightarrow> tcp_server \<Rightarrow> bool" where
  "connected cs s \<longleftrightarrow> (\<exists>c. srv_client s = Some c \<and> ts_reads c = map Chunk cs) \<and> (\<forall>b \<in> set cs. b \<noteq> [])"

lemma connected_buf [simp]: "connected cs (s\<lparr>srv_buf := b\<rparr>) = connected cs s"
  by (simp add: connected_def)

lemma tcp_read_pending:
  assumes "connected cs s" and "take_frame s = (None, s)"
  shows "case cs of [] \<Rightarrow> tcp_read_frame s = Ok (Inl (Io ''idle''), s)
    | b # bs \<Rightarrow> \<exists>b1 cs1 s1. b1 \<noteq> [] \<and> b1 @ concat cs1 = concat cs \<and> connected cs1 s1
        \<and> srv_buf s1 = srv_buf s @ b1
        \<and> tcp_read_frame s = (case take_frame s1 of
             (Some f, s2) \<Rightarrow> Ok (Inr f, s2) | (None, s2) \<Rightarrow> Ok (Inl (Io ''partial frame''), s2))"
proof -
  obtain c where c: "srv_client s = Some c" "ts_reads c = map Chunk cs"
    using assms(1) by (auto simp: connected_def)
  have e: "ensure_client s = (Inr (), s)" by (simp add: ensure_client_def c)
  show ?thesis
  proof (cases cs)
    case Nil
    with c e assms(2) show ?thesis by (cases s) (simp add: tcp_read_frame_def stream_read_def)
  next
    case (Cons b bs)
    have b: "b \<noteq> []" "\<forall>b \<in> set bs. b \<noteq> []" using assms(1) Cons by (auto simp: connected_def)
    show ?thesis
    proof (cases "length b \<le> 4096")
      case True
      let ?s1 = "s\<lparr>srv_client := Some (c\<lparr>ts_reads := map Chunk bs\<rparr>), srv_buf := srv_buf s @ b\<rparr>"
      have "connected bs ?s1" using b by (simp add: connected_def)
      moreover have "tcp_read_frame s = (case take_frame ?s1 of
             (Some f, s2) \<Rightarrow> Ok (Inr f, s2) | (None, s2) \<Rightarrow> Ok (Inl (Io ''partial frame''), s2))"
        using c e assms(2) Cons True b by (simp add: tcp_read_frame_def stream_read_def Let_def)
      moreover have "b @ concat bs = concat cs" using Cons by simp
      moreover have "srv_buf ?s1 = srv_buf s @ b" by simp
      ultimately show ?thesis using b(1) unfolding Cons list.case by blast
    next
      case False
      let ?cs = "drop 4096 b # bs"
      let ?s1 = "s\<lparr>srv_client := Some (c\<lparr>ts_reads := map Chunk ?cs\<rparr>), srv_buf := srv_buf s @ take 4096 b\<rparr>"
      have "connected ?cs ?s1" using b False by (simp add: connected_def)
      moreover have "tcp_read_frame s = (case take_frame ?s1 of
             (Some f, s2) \<Rightarrow> Ok (Inr f, s2) | (None, s2) \<Rightarrow> Ok (Inl (Io ''partial frame''), s2))"
        using c e assms(2) Cons False b by (simp add: tcp_read_frame_def stream_read_def Let_def)
      moreover have "take 4096 b \<noteq> []" using b by simp
      moreover have "take 4096 b @ concat ?cs = concat cs" using Cons by simp
      moreover have "srv_buf ?s1 = srv_buf s @ take 4096 b" by simp
      ultimately show ?thesis unfolding Cons list.case by blast
    qed
  qed
qed

lemma tcp_read_whole:
  assumes "connected cs s" and "take_frame s = (Some f, s')"
  shows "tcp_read_frame s = Ok (Inr f, s')"
  using assms by (auto simp: tcp_read_frame_def ensure_client_def connected_def)

lemma prefix_split:
  assumes "xs @ t = ys @ z" and "length ys \<le> length xs"
  shows "xs = ys @ drop (length ys) xs"
proof -
  have "take (length ys) (xs @ t) = ys" using assms(1) by simp
  then have "take (length ys) xs = ys" using assms(2) by simp
  with append_take_drop_id [of "length ys" xs] show ?thesis by simp
qed

lemma tcp_frames_reassembled:
  assumes "connected cs s" and "\<forall>f \<in> set fs. small f"
    and "srv_buf s @ concat cs = concat (map serialize fs)"
    and "length (concat cs) + length fs \<le> n"
  shows "tcp_frames n s = Ok fs"
  using assms
proof (induction n arbitrary: cs s fs)
  case 0
  then show ?case by simp
next
  case (Suc n)
  note con = Suc.prems(1)
  show ?case
  proof (cases "\<exists>f gs. fs = f # gs \<and> length (serialize f) \<le> length (srv_buf s)")
    case True
    then obtain f gs where f: "fs = f # gs" "length (serialize f) \<le> length (srv_buf s)" by blast
    define tail where "tail = drop (length (serialize f)) (srv_buf s)"
    have b: "srv_buf s = serialize f @ tail"
      unfolding tail_def by (rule prefix_split [of _ "concat cs" _ "concat (map serialize gs)"])
        (use Suc.prems(3) f in simp_all)
    from f Suc.prems(2) have "take_frame s = (Some f, s\<lparr>srv_buf := tail\<rparr>)"
      by (intro take_frame_whole b) simp
    from tcp_read_whole [OF con this] have r: "tcp_read_frame s = Ok (Inr f, s\<lparr>srv_buf := tail\<rparr>)" .
    have "tcp_frames n (s\<lparr>srv_buf := tail\<rparr>) = Ok gs"
      by (rule Suc.IH [of cs]) (use Suc.prems f b in auto)
    with r f show ?thesis by simp
  next
    case False
    have part: "take_frame s = (None, s)"
    proof (cases fs)
      case Nil
      with Suc.prems(3) show ?thesis by (simp add: take_frame_def)
    next
      case (Cons f gs)
      with False have "length (srv_buf s) < length (serialize f)" by auto
      with Cons Suc.prems(2,3) show ?thesis by (intro take_frame_part) auto
    qed
    show ?thesis
    proof (cases cs)
      case Nil
      have "fs = []"
      proof (cases fs)
        case (Cons f gs)
        with Nil Suc.prems(3) have "srv_buf s = serialize f @ concat (map serialize gs)" by simp
        with False Cons show ?thesis by simp
      qed
      moreover from tcp_read_pending [OF con part] Nil
      have "tcp_read_frame s = Ok (Inl (Io ''idle''), s)" by simp
      moreover have "tcp_frames n s = Ok []"
        by (rule Suc.IH [OF con]) (use Suc.prems Nil \<open>fs = []\<close> in simp_all)
      ultimately show ?thesis by simp
    next
      case (Cons b bs)
      from tcp_read_pending [OF con part] Cons obtain b1 cs1 s1 where
        s1: "b1 \<noteq> []" "b1 @ concat cs1 = concat cs" "connected cs1 s1" "srv_buf s1 = srv_buf s @ b1"
        and r: "tcp_read_frame s = (case take_frame s1 of
             (Some f, s2) \<Rightarrow> Ok (Inr f, s2) | (None, s2) \<Rightarrow> Ok (Inl (Io ''partial frame''), s2))" by auto
      have inv: "srv_buf s1 @ concat cs1 = concat (map serialize fs)" using s1 Suc.prems(3) by simp
      have "length (concat cs) = length b1 + length (concat cs1)" using s1(2) by (metis length_append)
      moreover have "1 \<le> length b1" using s1(1) by (cases b1) auto
      ultimately have n: "length (concat cs1) + length fs \<le> n" using Suc.prems(4) by linarith
      show ?thesis
      proof (cases "\<exists>f gs. fs = f # gs \<and> length (serialize f) \<le> length (srv_buf s1)")
        case True
        then obtain f gs where f: "fs = f # gs" "length (serialize f) \<le> length (srv_buf s1)" by blast
        define tail where "tail = drop (length (serialize f)) (srv_buf s1)"
        have t: "srv_buf s1 = serialize f @ tail"
          unfolding tail_def by (rule prefix_split [of _ "concat cs1" _ "concat (map serialize gs)"])
            (use inv f in simp_all)
        from f Suc.prems(2) have "take_frame s1 = (Some f, s1\<lparr>srv_buf := tail\<rparr>)"
          by (intro take_frame_whole t) simp
        moreover have "tcp_frames n (s1\<lparr>srv_buf := tail\<rparr>) = Ok gs"
          by (rule Suc.IH [of cs1]) (use Suc.prems(2) s1(3) inv n f t in auto)
        ultimately show ?thesis using r f by simp
      next
        case False
        have "take_frame s1 = (None, s1)"
        proof (cases fs)
          case Nil
          with inv show ?thesis by (simp add: take_frame_def)
        next
          case (Cons f gs)
          with False have "length (srv_buf s1) < length (serialize f)" by auto
          with Cons Suc.prems(2) inv show ?thesis by (intro take_frame_part) auto
        qed
        moreover have "tcp_frames n s1 = Ok fs"
          by (rule Suc.IH [OF s1(3) Suc.prems(2) inv n])
        ultimately show ?thesis using r by simp
      qed
    qed
  qed
qed

text \<open>
  C27: over TCP the frames a client sends come out of the transport unchanged and in order,
  however the network cuts their bytes into chunks (inside headers, across frames, several
  frames at once), as soon as \<open>read_frame\<close> has been called as often as there are bytes and
  frames.
\<close>
theorem tcp_reassembles_frames:
  assumes "\<forall>f \<in> set fs. length (payload f) \<le> MAX_FRAME_LEN"
    and "concat cs = concat (map serialize fs)" and "\<forall>b \<in> set cs. b \<noteq> []"
    and "srv_client s = Some stream" and "ts_reads stream = map Chunk cs" and "srv_buf s = []"
    and "length (concat cs) + length fs \<le> n"
  shows "tcp_frames n s = Ok fs"
  using assms by (intro tcp_frames_reassembled [of cs]) (auto simp: connected_def small_def)

theorem tcp_reassembles_frames_witness:
  "tcp_frames 20 \<lparr>srv_listener = [], srv_client = Some
       \<lparr>ts_reads = map Chunk [[5, 0], [0, 0, 0, 6, 0, 0], [0, 1, 7]], ts_write_errors = [], ts_written = []\<rparr>,
     srv_buf = []\<rparr> = Ok [\<lparr>opcode = 5, payload = []\<rparr>, \<lparr>opcode = 6, payload = [7]\<rparr>]"
  by (rule tcp_reassembles_frames [where cs = "[[5, 0], [0, 0, 0, 6, 0, 0], [0, 1, 7]]"
        and stream = "\<lparr>ts_reads = map Chunk [[5, 0], [0, 0, 0, 6, 0, 0], [0, 1, 7]], ts_write_errors = [], ts_written = []\<rparr>"])
    (simp_all add: MAX_FRAME_LEN_def serialize_def to_be_bytes_def)

text \<open>
  The bound on buffered input: whatever a client sends, the TCP transport never holds
  more than one maximal frame and one chunk.
\<close>
theorem tcp_buffer_bounded:
  assumes "tcp_read_frame s = Ok (r, s')" and "length (srv_buf s) \<le> 5 + MAX_FRAME_LEN + 4096"
  shows "length (srv_buf s') \<le> 5 + MAX_FRAME_LEN + 4096"
proof -
  have take: "length (srv_buf (snd (take_frame s1))) \<le> length (srv_buf s1)" for s1
    by (simp add: take_frame_def drop_client_def Let_def)
  have none: "length (srv_buf s2) \<le> 5 + MAX_FRAME_LEN" if "take_frame s1 = (None, s2)" for s1 s2
    using that by (auto simp: take_frame_def drop_client_def Let_def MAX_FRAME_LEN_def split: if_splits)
  have ens: "length (srv_buf (snd (ensure_client s))) \<le> length (srv_buf s)"
    by (simp add: ensure_client_def split: prod.split sum.split)
  have chunk: "length b \<le> 4096" if "stream_read c = (Inr b, c')" for c b c'
    using that by (auto simp: stream_read_def split: list.splits tcp_read.splits if_splits)
  obtain x s1 where e: "ensure_client s = (x, s1)" by (cases "ensure_client s")
  have l1: "length (srv_buf s1) \<le> 5 + MAX_FRAME_LEN + 4096" using ens e assms(2) by simp
  show ?thesis
  proof (cases x)
    case (Inl err)
    with assms(1) e l1 show ?thesis by (simp add: tcp_read_frame_def)
  next
    case (Inr u)
    obtain fo s2 where t: "take_frame s1 = (fo, s2)" by (cases "take_frame s1")
    show ?thesis
    proof (cases fo)
      case (Some f)
      with assms(1) e Inr t l1 take [of s1] show ?thesis by (simp add: tcp_read_frame_def)
    next
      case None
      have l2: "length (srv_buf s2) \<le> 5 + MAX_FRAME_LEN" using none t None by blast
      from assms(1) e Inr t None obtain c where c: "srv_client s2 = Some c"
        by (auto simp: tcp_read_frame_def split: option.splits)
      obtain y c' where r: "stream_read c = (y, c')" by (cases "stream_read c")
      show ?thesis
      proof (cases y)
        case (Inl err)
        with assms(1) e Inr t None c r l2 show ?thesis
          by (auto simp: tcp_read_frame_def drop_client_def split: if_splits)
      next
        case (Inr b)
        let ?s3 = "s2\<lparr>srv_client := Some c', srv_buf := srv_buf s2 @ b\<rparr>"
        have "length (srv_buf ?s3) \<le> 5 + MAX_FRAME_LEN + 4096" using l2 chunk r Inr by fastforce
        with take [of ?s3] have "length (srv_buf (snd (take_frame ?s3))) \<le> 5 + MAX_FRAME_LEN + 4096" by linarith
        with assms(1) e \<open>x = Inr u\<close> t None c r Inr show ?thesis
          by (auto simp: tcp_read_frame_def drop_client_def Let_def split: if_splits prod.splits option.splits)
      qed
    qed
  qed
qed

theorem tcp_buffer_bounded_witness:
  "\<exists>r s'. tcp_read_frame \<lparr>srv_listener = [], srv_client = Some
       \<lparr>ts_reads = [Chunk [5, 0]], ts_write_errors = [], ts_written = []\<rparr>, srv_buf = []\<rparr> = Ok (r, s')
     \<and> length (srv_buf s') \<le> 528389"
proof -
  let ?s = "\<lparr>srv_listener = [], srv_client = Some
       \<lparr>ts_reads = [Chunk [5, 0]], ts_write_errors = [], ts_written = []\<rparr>, srv_buf = []\<rparr>"
  obtain r s' where r: "tcp_read_frame ?s = Ok (r, s')"
    by (simp add: tcp_read_frame_def ensure_client_def take_frame_def stream_read_def Let_def)
  from tcp_buffer_bounded [OF r] r show ?thesis by (simp add: MAX_FRAME_LEN_def)
qed

text \<open>
  An oversized header that follows a complete frame in the same chunk panics the TCP
  server: the first \<open>read_frame\<close> returns the frame, the second drops the connection while it
  looks for the next frame and then expects it to be there. Alone in its chunk, the same
  header is refused with an error.
\<close>
theorem tcp_oversize_after_frame_panics:
  assumes "length (payload f) \<le> MAX_FRAME_LEN" and "unat (from_be_bytes a b c d) > MAX_FRAME_LEN"
    and "length (payload f) \<le> 4000"
    and "srv_client s = Some stream" and "ts_reads stream = [Chunk (serialize f @ [op, a, b, c, d])]"
    and "srv_buf s = []"
  shows "\<exists>s1. tcp_read_frame s = Ok (Inr f, s1) \<and> tcp_read_frame s1 = Panic"
proof -
  let ?c = "serialize f @ [op, a, b, c, d]"
  let ?s0 = "s\<lparr>srv_client := Some (stream\<lparr>ts_reads := []\<rparr>), srv_buf := ?c\<rparr>"
  let ?s1 = "?s0\<lparr>srv_buf := [op, a, b, c, d]\<rparr>"
  have e: "ensure_client s = (Inr (), s)" "take_frame s = (None, s)"
    using assms(4,6) by (simp_all add: ensure_client_def take_frame_def)
  have "take_frame ?s0 = (Some f, ?s1)"
    using take_frame_whole [of f ?s0 "[op, a, b, c, d]"] assms(1) by (simp add: small_def)
  then have "tcp_read_frame s = Ok (Inr f, ?s1)"
    using e assms by (simp add: tcp_read_frame_def stream_read_def Let_def)
  moreover have "take_frame ?s1 = (None, drop_client ?s1)"
    using assms(2) by (simp add: take_frame_def header_len_bytes Let_def)
  then have "tcp_read_frame ?s1 = Panic"
    by (simp add: tcp_read_frame_def ensure_client_def drop_client_def)
  ultimately show ?thesis by blast
qed

theorem tcp_oversize_after_frame_panics_witness:
  "\<exists>s1. tcp_read_frame \<lparr>srv_listener = [], srv_client = Some
       \<lparr>ts_reads = [Chunk (serialize \<lparr>opcode = 6, payload = []\<rparr> @ [2, 0xFF, 0xFF, 0xFF, 0xFF])],
        ts_write_errors = [], ts_written = []\<rparr>, srv_buf = []\<rparr>
     = Ok (Inr \<lparr>opcode = 6, payload = []\<rparr>, s1) \<and> tcp_read_frame s1 = Panic"
  by (rule tcp_oversize_after_frame_panics [where op = 2 and a = "0xFF" and b = "0xFF" and c = "0xFF" and d = "0xFF"
        and stream = "\<lparr>ts_reads = [Chunk (serialize \<lparr>opcode = 6, payload = []\<rparr> @ [2, 0xFF, 0xFF, 0xFF, 0xFF])],
          ts_write_errors = [], ts_written = []\<rparr>"]) (simp_all add: MAX_FRAME_LEN_def unat_from_be_bytes)

end
