(* ===== verification/Ordered_Map.thy ===== *)
theory Ordered_Map
  imports Prelude
begin

text \<open>
  The ordered map of the standard library (\<open>BTreeMap\<close>) as the adapter uses it: insertion that
  replaces, lookup, and the keys in ascending order. A sorted association list implements the
  interface.
\<close>

section \<open>The interface\<close>

locale ordered_map =
  fixes empty :: 'm
    and insert :: "'k::linorder \<Rightarrow> 'v \<Rightarrow> 'm \<Rightarrow> 'm"
    and get :: "'k \<Rightarrow> 'm \<Rightarrow> 'v option"
    and keys :: "'m \<Rightarrow> 'k list"
    and well_formed :: "'m \<Rightarrow> bool"
  assumes wf_empty: "well_formed empty"
    and wf_insert: "well_formed m \<Longrightarrow> well_formed (insert k v m)"
    and get_empty: "get k empty = None"
    and get_insert: "well_formed m \<Longrightarrow> get k (insert k' v m) = (if k = k' then Some v else get k m)"
    and keys_sorted: "well_formed m \<Longrightarrow> sorted (keys m) \<and> distinct (keys m)"
    and keys_get: "well_formed m \<Longrightarrow> k \<in> set (keys m) \<longleftrightarrow> get k m \<noteq> None"
begin

definition insert_all :: "('k \<times> 'v) list \<Rightarrow> 'm" where
  "insert_all kvs = fold (\<lambda>(k, v) m. insert k v m) kvs empty"

lemma insert_all_snoc: "insert_all (kvs @ [(k, v)]) = insert k v (insert_all kvs)"
  by (simp add: insert_all_def)

lemma wf_insert_all: "well_formed (insert_all kvs)"
  by (induction kvs rule: rev_induct) (auto simp: insert_all_snoc wf_insert, simp add: insert_all_def wf_empty)

text \<open>The last registration of a key wins.\<close>

lemma get_insert_all: "get k (insert_all kvs) = map_of (rev kvs) k"
proof (induction kvs rule: rev_induct)
  case Nil
  then show ?case by (simp add: insert_all_def get_empty)
next
  case (snoc kv kvs)
  obtain k' v where "kv = (k', v)" by (cases kv)
  with snoc show ?case by (simp add: insert_all_snoc get_insert wf_insert_all)
qed

lemma keys_insert_all: "keys (insert_all kvs) = sorted_list_of_set (fst ` set kvs)"
proof (rule sorted_distinct_set_unique)
  show "sorted (keys (insert_all kvs))" "distinct (keys (insert_all kvs))"
    using keys_sorted [OF wf_insert_all] by auto
  show "set (keys (insert_all kvs)) = set (sorted_list_of_set (fst ` set kvs))"
    using keys_get [OF wf_insert_all, of _ kvs] by (auto simp: get_insert_all map_of_eq_None_iff)
qed simp_all

end

section \<open>Sorted association lists\<close>

type_synonym ('k, 'v) btree = "('k \<times> 'v) list"

fun bt_insert :: "'k::linorder \<Rightarrow> 'v \<Rightarrow> ('k, 'v) btree \<Rightarrow> ('k, 'v) btree" where
  "bt_insert k v [] = [(k, v)]"
| "bt_insert k v ((k', v') # m) =
     (if k < k' then (k, v) # (k', v') # m
      else if k = k' then (k, v) # m
      else (k', v') # bt_insert k v m)"

definition bt_get :: "'k \<Rightarrow> ('k, 'v) btree \<Rightarrow> 'v option" where
  "bt_get k m = map_of m k"

definition bt_keys :: "('k, 'v) btree \<Rightarrow> 'k list" where
  "bt_keys m = map fst m"

definition bt_sorted :: "('k::linorder, 'v) btree \<Rightarrow> bool" where
  "bt_sorted m \<longleftrightarrow> sorted_wrt (<) (map fst m)"

lemma set_bt_insert: "fst ` set (bt_insert k v m) = Set.insert k (fst ` set m)"
  by (induction k v m rule: bt_insert.induct) auto

lemma bt_insert_sorted: "bt_sorted m \<Longrightarrow> bt_sorted (bt_insert k v m)"
proof (induction k v m rule: bt_insert.induct)
  case (2 k v k' v' m)
  have "fst ` set (bt_insert k v m) = Set.insert k (fst ` set m)" by (rule set_bt_insert)
  then have "\<forall>x \<in> set (bt_insert k v m). fst x = k \<or> fst x \<in> fst ` set m" by blast
  with 2 show ?case by (fastforce simp: bt_sorted_def)
qed (simp add: bt_sorted_def)

lemma map_of_bt_insert: "bt_sorted m \<Longrightarrow> map_of (bt_insert k v m) = (map_of m)(k \<mapsto> v)"
  by (induction k v m rule: bt_insert.induct) (auto simp: bt_sorted_def fun_eq_iff)

interpretation btree: ordered_map "[]" bt_insert bt_get bt_keys bt_sorted
proof
  fix m :: "('a, 'b) btree" and k
  assume "bt_sorted m"
  then show "sorted (bt_keys m) \<and> distinct (bt_keys m)"
    by (simp add: bt_sorted_def bt_keys_def strict_sorted_iff)
  show "k \<in> set (bt_keys m) \<longleftrightarrow> bt_get k m \<noteq> None"
    by (auto simp: bt_keys_def bt_get_def map_of_eq_None_iff)
qed (auto simp: bt_sorted_def [of "[]"] bt_insert_sorted bt_get_def map_of_bt_insert)

end
