(* ===== verification/Adapter.thy ===== *)
theory Adapter
  imports Ordered_Map Syscalls
begin

text \<open>
  The board-independent backend \<open>receiver/src/hal/adapter.rs\<close>: peripherals registered by number
  in ordered maps, the \<open>MiloHardware\<close> methods that look them up, the denials for numbers that
  are not registered, the bus scan, the builder, and the adapters from \<open>embedded-hal\<close>
  drivers. A boxed peripheral is the record of its methods on the world the boards live in;
  \<open>embedded-hal\<close> drivers are parameters of the same kind.
\<close>

section \<open>Object-safe peripherals\<close>

record 'w dyn_pin =
  pin_set :: "bool \<Rightarrow> 'w \<Rightarrow> 'w"
  pin_get :: "'w \<Rightarrow> bool \<times> 'w"

record 'w dyn_delay = delay_for_ms :: "u32 \<Rightarrow> 'w \<Rightarrow> 'w"

record 'w dyn_i2c = i2c_transfer :: "u8 \<Rightarrow> bytes \<Rightarrow> bytes \<Rightarrow> 'w \<Rightarrow> i32 \<times> bytes \<times> 'w"

record 'w dyn_spi = spi_transfer :: "bytes \<Rightarrow> bytes \<Rightarrow> 'w \<Rightarrow> i32 \<times> bytes \<times> 'w"

record 'w dyn_uart =
  uart_write :: "bytes \<Rightarrow> 'w \<Rightarrow> i32 \<times> 'w"
  uart_read :: "bytes \<Rightarrow> u32 \<Rightarrow> 'w \<Rightarrow> i32 \<times> bytes \<times> 'w"

record 'w dyn_pwm =
  pwm_set_duty :: "u32 \<Rightarrow> 'w \<Rightarrow> 'w"
  pwm_max_duty :: "'w \<Rightarrow> u32"

definition default_max_duty :: "'w \<Rightarrow> u32" where
  "default_max_duty w = 10000"

record 'w dyn_adc =
  adc_read :: "'w \<Rightarrow> u32 \<times> 'w"
  adc_resolution :: u8

definition default_adc_resolution :: u8 where
  "default_adc_resolution = 12"

definition default_log_sink :: "string \<Rightarrow> 'w \<Rightarrow> 'w" where
  "default_log_sink msg w = w"

definition default_uptime :: "'w \<Rightarrow> u64" where
  "default_uptime w = 0"

section \<open>The adapter\<close>

record 'w adapter =
  pins :: "(u32, 'w dyn_pin) btree"
  pwm_channels :: "(u32, 'w dyn_pwm) btree"
  adc_channels :: "(u32, 'w dyn_adc) btree"
  i2c_buses :: "(u32, 'w dyn_i2c) btree"
  spi_buses :: "(u32, 'w dyn_spi) btree"
  uart_buses :: "(u32, 'w dyn_uart) btree"
  ad_delay :: "'w dyn_delay"
  uptime_fn :: "'w \<Rightarrow> u64"
  log_sink :: "string \<Rightarrow> 'w \<Rightarrow> 'w"
  last_log :: "string option"
  world :: 'w

definition register_pin :: "u32 \<Rightarrow> 'w dyn_pin \<Rightarrow> 'w adapter \<Rightarrow> 'w adapter" where
  "register_pin n p a = a\<lparr>pins := bt_insert n p (pins a)\<rparr>"

definition register_pwm :: "u32 \<Rightarrow> 'w dyn_pwm \<Rightarrow> 'w adapter \<Rightarrow> 'w adapter" where
  "register_pwm n p a = a\<lparr>pwm_channels := bt_insert n p (pwm_channels a)\<rparr>"

definition register_adc :: "u32 \<Rightarrow> 'w dyn_adc \<Rightarrow> 'w adapter \<Rightarrow> 'w adapter" where
  "register_adc n p a = a\<lparr>adc_channels := bt_insert n p (adc_channels a)\<rparr>"

definition register_i2c :: "u32 \<Rightarrow> 'w dyn_i2c \<Rightarrow> 'w adapter \<Rightarrow> 'w adapter" where
  "register_i2c n p a = a\<lparr>i2c_buses := bt_insert n p (i2c_buses a)\<rparr>"

definition register_spi :: "u32 \<Rightarrow> 'w dyn_spi \<Rightarrow> 'w adapter \<Rightarrow> 'w adapter" where
  "register_spi n p a = a\<lparr>spi_buses := bt_insert n p (spi_buses a)\<rparr>"

definition register_uart :: "u32 \<Rightarrow> 'w dyn_uart \<Rightarrow> 'w adapter \<Rightarrow> 'w adapter" where
  "register_uart n p a = a\<lparr>uart_buses := bt_insert n p (uart_buses a)\<rparr>"

definition registered_pin_ids :: "'w adapter \<Rightarrow> u32 list" where
  "registered_pin_ids a = bt_keys (pins a)"

definition registered_pwm_ids :: "'w adapter \<Rightarrow> u32 list" where
  "registered_pwm_ids a = bt_keys (pwm_channels a)"

definition registered_adc_ids :: "'w adapter \<Rightarrow> u32 list" where
  "registered_adc_ids a = bt_keys (adc_channels a)"

definition registered_i2c_buses :: "'w adapter \<Rightarrow> u32 list" where
  "registered_i2c_buses a = bt_keys (i2c_buses a)"

definition registered_spi_buses :: "'w adapter \<Rightarrow> u32 list" where
  "registered_spi_buses a = bt_keys (spi_buses a)"

definition registered_uart_buses :: "'w adapter \<Rightarrow> u32 list" where
  "registered_uart_buses a = bt_keys (uart_buses a)"

text \<open>The scan of a bus: a write probe, then a read probe, for each address 0x08 to 0x77.\<close>

definition probe :: "'w dyn_i2c \<Rightarrow> u8 \<Rightarrow> 'w \<Rightarrow> bool \<times> 'w" where
  "probe bus addr w =
     (let (r, rx, w) = i2c_transfer bus addr [0x00] [] w in
      if r = 0 then (True, w)
      else (let (r, rx, w) = i2c_transfer bus addr [] [0] w in (r = 0, w)))"

fun scan_addresses :: "'w dyn_i2c \<Rightarrow> u8 list \<Rightarrow> 'w \<Rightarrow> u8 list \<times> 'w" where
  "scan_addresses bus [] w = ([], w)"
| "scan_addresses bus (addr # addrs) w =
     (let (present, w) = probe bus addr w; (found, w) = scan_addresses bus addrs w
      in (if present then addr # found else found, w))"

definition scan_range :: "u8 list" where
  "scan_range = map word_of_nat [0x08..<0x78]"

definition scan_i2c_bus :: "u32 \<Rightarrow> 'w adapter \<Rightarrow> u8 list \<times> 'w adapter" where
  "scan_i2c_bus bus a = (case bt_get bus (i2c_buses a) of
     None \<Rightarrow> ([], a)
   | Some b \<Rightarrow> (let (found, w) = scan_addresses b scan_range (world a) in (found, a\<lparr>world := w\<rparr>)))"

definition denial :: "string \<Rightarrow> u32 \<Rightarrow> string" where
  "denial syscall n = ''denied: '' @ syscall @ '' '' @ dec (unat n) @ '' not in manifest''"

definition deny :: "string \<Rightarrow> u32 \<Rightarrow> 'w adapter \<Rightarrow> 'w adapter" where
  "deny syscall n a =
     (let msg = denial syscall n in a\<lparr>world := log_sink a msg (world a), last_log := Some msg\<rparr>)"

section \<open>The hardware methods\<close>

definition ad_gpio_set :: "u32 \<Rightarrow> u32 \<Rightarrow> 'w adapter \<Rightarrow> 'w adapter" where
  "ad_gpio_set pin state a = (case bt_get pin (pins a) of
     Some p \<Rightarrow> a\<lparr>world := pin_set p (state \<noteq> 0) (world a)\<rparr>
   | None \<Rightarrow> deny ''gpio_set'' pin a)"

definition ad_gpio_get :: "u32 \<Rightarrow> 'w adapter \<Rightarrow> u32 \<times> 'w adapter" where
  "ad_gpio_get pin a = (case bt_get pin (pins a) of
     Some p \<Rightarrow> (let (level, w) = pin_get p (world a) in (if level then 1 else 0, a\<lparr>world := w\<rparr>))
   | None \<Rightarrow> (0, deny ''gpio_get'' pin a))"

definition ad_delay_ms :: "u32 \<Rightarrow> 'w adapter \<Rightarrow> 'w adapter" where
  "ad_delay_ms ms a = a\<lparr>world := delay_for_ms (ad_delay a) ms (world a)\<rparr>"

definition ad_get_uptime_us :: "'w adapter \<Rightarrow> u64" where
  "ad_get_uptime_us a = uptime_fn a (world a)"

definition ad_i2c_transfer :: "u8 \<Rightarrow> bytes \<Rightarrow> bytes \<Rightarrow> 'w adapter \<Rightarrow> i32 \<times> bytes \<times> 'w adapter" where
  "ad_i2c_transfer addr tx rx a = (case bt_get 0 (i2c_buses a) of
     Some bus \<Rightarrow> (let (r, rx, w) = i2c_transfer bus addr tx rx (world a) in (r, rx, a\<lparr>world := w\<rparr>))
   | None \<Rightarrow> (-1, rx, a))"

definition ad_log :: "string \<Rightarrow> 'w adapter \<Rightarrow> 'w adapter" where
  "ad_log message a = a\<lparr>world := log_sink a message (world a), last_log := Some message\<rparr>"

definition ad_pwm_set :: "u32 \<Rightarrow> u32 \<Rightarrow> 'w adapter \<Rightarrow> 'w adapter" where
  "ad_pwm_set channel duty a = (case bt_get channel (pwm_channels a) of
     Some p \<Rightarrow> a\<lparr>world := pwm_set_duty p duty (world a)\<rparr>
   | None \<Rightarrow> deny ''pwm_set'' channel a)"

definition ad_adc_read :: "u32 \<Rightarrow> 'w adapter \<Rightarrow> u32 \<times> 'w adapter" where
  "ad_adc_read channel a = (case bt_get channel (adc_channels a) of
     Some c \<Rightarrow> (let (v, w) = adc_read c (world a) in (v, a\<lparr>world := w\<rparr>))
   | None \<Rightarrow> (0, deny ''adc_read'' channel a))"

definition ad_spi_transfer :: "u32 \<Rightarrow> bytes \<Rightarrow> bytes \<Rightarrow> 'w adapter \<Rightarrow> i32 \<times> bytes \<times> 'w adapter" where
  "ad_spi_transfer bus tx rx a = (case bt_get bus (spi_buses a) of
     Some b \<Rightarrow> (let (r, rx, w) = spi_transfer b tx rx (world a) in (r, rx, a\<lparr>world := w\<rparr>))
   | None \<Rightarrow> (-1, rx, a))"

definition ad_uart_write :: "u32 \<Rightarrow> bytes \<Rightarrow> 'w adapter \<Rightarrow> i32 \<times> 'w adapter" where
  "ad_uart_write bus data a = (case bt_get bus (uart_buses a) of
     Some u \<Rightarrow> (let (r, w) = uart_write u data (world a) in (r, a\<lparr>world := w\<rparr>))
   | None \<Rightarrow> (-1, a))"

definition ad_uart_read :: "u32 \<Rightarrow> bytes \<Rightarrow> u32 \<Rightarrow> 'w adapter \<Rightarrow> i32 \<times> bytes \<times> 'w adapter" where
  "ad_uart_read bus buf timeout_ms a = (case bt_get bus (uart_buses a) of
     Some u \<Rightarrow> (let (r, buf, w) = uart_read u buf timeout_ms (world a) in (r, buf, a\<lparr>world := w\<rparr>))
   | None \<Rightarrow> (-1, buf, a))"

definition adapter_hardware :: "'w adapter hardware" where
  "adapter_hardware = \<lparr>
     hw_gpio_set = ad_gpio_set,
     hw_gpio_get = ad_gpio_get,
     hw_delay_ms = ad_delay_ms,
     hw_get_uptime_us = ad_get_uptime_us,
     hw_i2c_transfer = ad_i2c_transfer,
     hw_log = ad_log,
     hw_pwm_set = ad_pwm_set,
     hw_adc_read = ad_adc_read,
     hw_spi_transfer = ad_spi_transfer,
     hw_uart_write = ad_uart_write,
     hw_uart_read = ad_uart_read\<rparr>"

lemmas adapter_ops = ad_gpio_set_def ad_gpio_get_def ad_delay_ms_def ad_get_uptime_us_def
  ad_i2c_transfer_def ad_log_def ad_pwm_set_def ad_adc_read_def ad_spi_transfer_def
  ad_uart_write_def ad_uart_read_def deny_def

section \<open>The builder\<close>

record 'w adapter_builder =
  bd_pins :: "(u32, 'w dyn_pin) btree"
  bd_pwm_channels :: "(u32, 'w dyn_pwm) btree"
  bd_adc_channels :: "(u32, 'w dyn_adc) btree"
  bd_i2c_buses :: "(u32, 'w dyn_i2c) btree"
  bd_spi_buses :: "(u32, 'w dyn_spi) btree"
  bd_uart_buses :: "(u32, 'w dyn_uart) btree"
  bd_delay :: "'w dyn_delay option"
  bd_uptime_fn :: "'w \<Rightarrow> u64"
  bd_log_sink :: "string \<Rightarrow> 'w \<Rightarrow> 'w"

definition builder :: "'w adapter_builder" where
  "builder = \<lparr>bd_pins = [], bd_pwm_channels = [], bd_adc_channels = [], bd_i2c_buses = [],
     bd_spi_buses = [], bd_uart_buses = [], bd_delay = None, bd_uptime_fn = default_uptime,
     bd_log_sink = default_log_sink\<rparr>"

definition with_pin :: "u32 \<Rightarrow> 'w dyn_pin \<Rightarrow> 'w adapter_builder \<Rightarrow> 'w adapter_builder" where
  "with_pin n p b = b\<lparr>bd_pins := bt_insert n p (bd_pins b)\<rparr>"

definition with_pwm :: "u32 \<Rightarrow> 'w dyn_pwm \<Rightarrow> 'w adapter_builder \<Rightarrow> 'w adapter_builder" where
  "with_pwm n p b = b\<lparr>bd_pwm_channels := bt_insert n p (bd_pwm_channels b)\<rparr>"

definition with_adc :: "u32 \<Rightarrow> 'w dyn_adc \<Rightarrow> 'w adapter_builder \<Rightarrow> 'w adapter_builder" where
  "with_adc n p b = b\<lparr>bd_adc_channels := bt_insert n p (bd_adc_channels b)\<rparr>"

definition with_i2c :: "u32 \<Rightarrow> 'w dyn_i2c \<Rightarrow> 'w adapter_builder \<Rightarrow> 'w adapter_builder" where
  "with_i2c n p b = b\<lparr>bd_i2c_buses := bt_insert n p (bd_i2c_buses b)\<rparr>"

definition with_spi :: "u32 \<Rightarrow> 'w dyn_spi \<Rightarrow> 'w adapter_builder \<Rightarrow> 'w adapter_builder" where
  "with_spi n p b = b\<lparr>bd_spi_buses := bt_insert n p (bd_spi_buses b)\<rparr>"

definition with_uart :: "u32 \<Rightarrow> 'w dyn_uart \<Rightarrow> 'w adapter_builder \<Rightarrow> 'w adapter_builder" where
  "with_uart n p b = b\<lparr>bd_uart_buses := bt_insert n p (bd_uart_buses b)\<rparr>"

definition with_delay :: "'w dyn_delay \<Rightarrow> 'w adapter_builder \<Rightarrow> 'w adapter_builder" where
  "with_delay d b = b\<lparr>bd_delay := Some d\<rparr>"

definition with_uptime_fn :: "('w \<Rightarrow> u64) \<Rightarrow> 'w adapter_builder \<Rightarrow> 'w adapter_builder" where
  "with_uptime_fn f b = b\<lparr>bd_uptime_fn := f\<rparr>"

definition with_log_sink :: "(string \<Rightarrow> 'w \<Rightarrow> 'w) \<Rightarrow> 'w adapter_builder \<Rightarrow> 'w adapter_builder" where
  "with_log_sink f b = b\<lparr>bd_log_sink := f\<rparr>"

definition noop_delay :: "'w dyn_delay" where
  "noop_delay = \<lparr>delay_for_ms = (\<lambda>ms w. w)\<rparr>"

definition build_adapter :: "'w \<Rightarrow> 'w adapter_builder \<Rightarrow> 'w adapter" where
  "build_adapter w b = \<lparr>pins = bd_pins b, pwm_channels = bd_pwm_channels b,
     adc_channels = bd_adc_channels b, i2c_buses = bd_i2c_buses b, spi_buses = bd_spi_buses b,
     uart_buses = bd_uart_buses b,
     ad_delay = (case bd_delay b of Some d \<Rightarrow> d | None \<Rightarrow> noop_delay),
     uptime_fn = bd_uptime_fn b, log_sink = bd_log_sink b, last_log = None, world = w\<rparr>"

lemmas builder_defs = builder_def with_pin_def with_pwm_def with_adc_def with_i2c_def with_spi_def
  with_uart_def with_delay_def with_uptime_fn_def with_log_sink_def build_adapter_def

section \<open>Adapters from embedded-hal drivers\<close>

text \<open>The drivers' methods; a driver error is \<open>False\<close> or \<open>None\<close>, its kind is never looked at.\<close>

record 'w output_pin =
  set_high :: "'w \<Rightarrow> bool \<times> 'w"
  set_low :: "'w \<Rightarrow> bool \<times> 'w"
  is_set_high :: "'w \<Rightarrow> bool option \<times> 'w"

definition output_pin_adapter :: "'w output_pin \<Rightarrow> 'w dyn_pin" where
  "output_pin_adapter p = \<lparr>
     pin_set = (\<lambda>level w. if level then snd (set_high p w) else snd (set_low p w)),
     pin_get = (\<lambda>w. let (r, w) = is_set_high p w in (case r of Some b \<Rightarrow> b | None \<Rightarrow> False, w))\<rparr>"

record 'w input_pin = is_high :: "'w \<Rightarrow> bool option \<times> 'w"

definition input_pin_adapter :: "'w input_pin \<Rightarrow> 'w dyn_pin" where
  "input_pin_adapter p = \<lparr>
     pin_set = (\<lambda>level w. w),
     pin_get = (\<lambda>w. let (r, w) = is_high p w in (case r of Some b \<Rightarrow> b | None \<Rightarrow> False, w))\<rparr>"

definition delay_adapter :: "(u32 \<Rightarrow> 'w \<Rightarrow> 'w) \<Rightarrow> 'w dyn_delay" where
  "delay_adapter delay_ns_ms = \<lparr>delay_for_ms = delay_ns_ms\<rparr>"

record 'w i2c_driver =
  write_read :: "u8 \<Rightarrow> bytes \<Rightarrow> bytes \<Rightarrow> 'w \<Rightarrow> bool \<times> bytes \<times> 'w"
  bus_write :: "u8 \<Rightarrow> bytes \<Rightarrow> 'w \<Rightarrow> bool \<times> 'w"
  bus_read :: "u8 \<Rightarrow> bytes \<Rightarrow> 'w \<Rightarrow> bool \<times> bytes \<times> 'w"

text \<open>The transaction of a write and a read, the plain write, the plain read, or nothing.\<close>

definition i2c_do_transfer :: "'w i2c_driver \<Rightarrow> u8 \<Rightarrow> bytes \<Rightarrow> bytes \<Rightarrow> 'w \<Rightarrow> bool \<times> bytes \<times> 'w" where
  "i2c_do_transfer d addr tx rx w =
     (if tx \<noteq> [] \<and> rx \<noteq> [] then write_read d addr tx rx w
      else if tx \<noteq> [] then (let (ok, w) = bus_write d addr tx w in (ok, rx, w))
      else if rx \<noteq> [] then bus_read d addr rx w
      else (True, rx, w))"

definition i2c_adapter :: "'w i2c_driver \<Rightarrow> 'w dyn_i2c" where
  "i2c_adapter d = \<lparr>i2c_transfer = (\<lambda>addr tx rx w.
     let (ok, rx, w) = i2c_do_transfer d addr tx rx w in (if ok then 0 else -1, rx, w))\<rparr>"

text \<open>\<open>SpiBus::transfer\<close> fills a slice from another of the same length.\<close>

definition spi_adapter :: "(bytes \<Rightarrow> bytes \<Rightarrow> 'w \<Rightarrow> bool \<times> bytes \<times> 'w) \<Rightarrow> 'w dyn_spi" where
  "spi_adapter driver = \<lparr>spi_transfer = (\<lambda>tx rx w.
     let len = min (length tx) (length rx);
         (ok, got, w) = driver (take len rx) (take len tx) w
     in (if ok then 0 else -1, got @ drop len rx, w))\<rparr>"

record 'w pwm_driver =
  max_duty_cycle :: "'w \<Rightarrow> u16"
  set_duty_cycle :: "u16 \<Rightarrow> 'w \<Rightarrow> bool \<times> 'w"

definition scale_duty :: "u32 \<Rightarrow> u16 \<Rightarrow> u16" where
  "scale_duty duty max_cycle =
     (let clamped = min duty 10000 in
      ucast ((ucast clamped * ucast (ucast max_cycle :: u32) :: u64) div 10000))"

definition pwm_adapter :: "'w pwm_driver \<Rightarrow> 'w dyn_pwm" where
  "pwm_adapter p = \<lparr>
     pwm_set_duty = (\<lambda>duty w. snd (set_duty_cycle p (scale_duty duty (max_duty_cycle p w)) w)),
     pwm_max_duty = default_max_duty\<rparr>"

section \<open>The adapter keeps the hardware contract\<close>

definition i2c_good :: "'w dyn_i2c \<Rightarrow> bool" where
  "i2c_good b \<longleftrightarrow> (\<forall>addr tx rx w. length (fst (snd (i2c_transfer b addr tx rx w))) = length rx)"

definition spi_good :: "'w dyn_spi \<Rightarrow> bool" where
  "spi_good b \<longleftrightarrow> (\<forall>tx rx w. length (fst (snd (spi_transfer b tx rx w))) = length rx)"

definition uart_good :: "'w dyn_uart \<Rightarrow> bool" where
  "uart_good u \<longleftrightarrow> (\<forall>buf t w. length (fst (snd (uart_read u buf t w))) = length buf)"

definition devices_good :: "'w adapter \<Rightarrow> bool" where
  "devices_good a \<longleftrightarrow>
     (\<forall>n b. bt_get n (i2c_buses a) = Some b \<longrightarrow> i2c_good b)
   \<and> (\<forall>n b. bt_get n (spi_buses a) = Some b \<longrightarrow> spi_good b)
   \<and> (\<forall>n u. bt_get n (uart_buses a) = Some u \<longrightarrow> uart_good u)"

lemma i2c_goodD: "i2c_good b \<Longrightarrow> i2c_transfer b addr tx rx w = (r, rx', w') \<Longrightarrow> length rx' = length rx"
  unfolding i2c_good_def by (metis fst_conv snd_conv)

lemma spi_goodD: "spi_good b \<Longrightarrow> spi_transfer b tx rx w = (r, rx', w') \<Longrightarrow> length rx' = length rx"
  unfolding spi_good_def by (metis fst_conv snd_conv)

lemma uart_goodD: "uart_good u \<Longrightarrow> uart_read u buf t w = (r, buf', w') \<Longrightarrow> length buf' = length buf"
  unfolding uart_good_def by (metis fst_conv snd_conv)

lemma adapter_fields:
  assumes "hw_step adapter_hardware a a'"
  shows "i2c_buses a' = i2c_buses a \<and> spi_buses a' = spi_buses a \<and> uart_buses a' = uart_buses a"
  using assms
  by cases (auto simp: adapter_hardware_def adapter_ops Let_def split: option.splits prod.splits)

interpretation adapter: milo_hardware adapter_hardware devices_good
proof
  fix a a' :: "'w adapter" and addr tx rx r rx'
  assume g: "devices_good a" and h: "hw_i2c_transfer adapter_hardware addr tx rx a = (r, rx', a')"
  then show "length rx' = length rx"
    by (auto simp: adapter_hardware_def ad_i2c_transfer_def devices_good_def split: option.splits prod.splits dest: i2c_goodD)
next
  fix a a' :: "'w adapter" and bus tx rx r rx'
  assume g: "devices_good a" and h: "hw_spi_transfer adapter_hardware bus tx rx a = (r, rx', a')"
  show "length rx' = length rx"
  proof (cases "bt_get bus (spi_buses a)")
    case None
    with h show ?thesis by (simp add: adapter_hardware_def ad_spi_transfer_def)
  next
    case (Some b)
    with g have "spi_good b" by (simp add: devices_good_def)
    moreover obtain w where "spi_transfer b tx rx (world a) = (r, rx', w)"
      using h Some by (auto simp: adapter_hardware_def ad_spi_transfer_def split: prod.splits)
    ultimately show ?thesis by (rule spi_goodD)
  qed
next
  fix a a' :: "'w adapter" and bus rx timeout r rx'
  assume g: "devices_good a" and h: "hw_uart_read adapter_hardware bus rx timeout a = (r, rx', a')"
  show "length rx' = length rx"
  proof (cases "bt_get bus (uart_buses a)")
    case None
    with h show ?thesis by (simp add: adapter_hardware_def ad_uart_read_def)
  next
    case (Some u)
    with g have "uart_good u" by (simp add: devices_good_def)
    moreover obtain w where "uart_read u rx timeout (world a) = (r, rx', w)"
      using h Some by (auto simp: adapter_hardware_def ad_uart_read_def split: prod.splits)
    ultimately show ?thesis by (rule uart_goodD)
  qed
next
  fix a a' :: "'w adapter"
  assume "devices_good a" and "hw_step adapter_hardware a a'"
  with adapter_fields [OF this(2)] show "devices_good a'" by (simp add: devices_good_def)
qed

section \<open>Properties\<close>

text \<open>
  A module that names a peripheral the board does not have reaches no device: a GPIO, PWM
  or ADC call only reports the denial, with its text, to the log sink and reads 0, and a bus
  call does nothing at all and returns -1.
\<close>
theorem unmapped_ids_reach_no_device:
  assumes "bt_get n (pins a) = None" and "bt_get n (pwm_channels a) = None" and "bt_get n (adc_channels a) = None"
    and "bt_get n (spi_buses a) = None" and "bt_get n (uart_buses a) = None"
  shows "hw_gpio_set adapter_hardware n v a = deny ''gpio_set'' n a
    \<and> hw_gpio_get adapter_hardware n a = (0, deny ''gpio_get'' n a)
    \<and> hw_pwm_set adapter_hardware n v a = deny ''pwm_set'' n a
    \<and> hw_adc_read adapter_hardware n a = (0, deny ''adc_read'' n a)
    \<and> hw_spi_transfer adapter_hardware n tx rx a = (-1, rx, a)
    \<and> hw_uart_write adapter_hardware n tx a = (-1, a)
    \<and> hw_uart_read adapter_hardware n rx v a = (-1, rx, a)
    \<and> world (deny s n a) = log_sink a (''denied: '' @ s @ '' '' @ dec (unat n) @ '' not in manifest'') (world a)
    \<and> last_log (deny s n a) = Some (''denied: '' @ s @ '' '' @ dec (unat n) @ '' not in manifest'')"
  using assms by (simp add: adapter_hardware_def adapter_ops denial_def Let_def)

definition bare_adapter :: "string list adapter" where
  "bare_adapter = build_adapter [] (with_log_sink (\<lambda>m w. w @ [m]) builder)"

theorem unmapped_ids_reach_no_device_witness:
  "world (hw_gpio_set adapter_hardware 99 1 bare_adapter)
     = [''denied: '' @ ''gpio_set'' @ '' '' @ dec (unat (99 :: u32)) @ '' not in manifest'']"
proof -
  have n: "bt_get 99 (pins bare_adapter) = None" "bt_get 99 (pwm_channels bare_adapter) = None"
    "bt_get 99 (adc_channels bare_adapter) = None" "bt_get 99 (spi_buses bare_adapter) = None"
    "bt_get 99 (uart_buses bare_adapter) = None"
    by (simp_all add: bare_adapter_def builder_defs bt_get_def)
  from unmapped_ids_reach_no_device [OF n, of 1 _ _ "''gpio_set''"] show ?thesis
    by (simp add: bare_adapter_def builder_defs)
qed

text \<open>
  The denial the adapter reports does not reach the host: the log that goes into the
  result frame is the runtime's, and a denied syscall leaves it as it was.
\<close>
theorem denial_not_in_result_log:
  assumes "bt_get pin (pins (hs_hw st)) = None"
  shows "\<exists>st'. host_call t adapter_hardware ps (GpioSet pin v) mem st = Ok (RetUnit, mem, st')
    \<and> last_log (hs_hw st') = Some (''denied: gpio_set '' @ dec (unat pin) @ '' not in manifest'')
    \<and> hs_logs st' = hs_logs st"
  using assms by (simp add: host_call_def adapter_hardware_def adapter_ops denial_def Let_def)

theorem denial_not_in_result_log_witness:
  "\<exists>st'. host_call esp32c3_release adapter_hardware PARAM_SLOTS (GpioSet 99 1) []
      \<lparr>hs_hw = bare_adapter, hs_memory = True, hs_logs = []\<rparr> = Ok (RetUnit, [], st') \<and> hs_logs st' = []"
proof -
  let ?st = "\<lparr>hs_hw = bare_adapter, hs_memory = True, hs_logs = []\<rparr>"
  have "bt_get 99 (pins (hs_hw ?st)) = None" by (simp add: bare_adapter_def builder_defs bt_get_def)
  from denial_not_in_result_log [OF this, of esp32c3_release PARAM_SLOTS 1 "[]"] show ?thesis by auto
qed

text \<open>
  What a board registers is what its modules find: a number leads to the peripheral
  registered for it last, a number that was never registered leads to none, and the
  registered numbers are listed once each in ascending order.
\<close>
theorem registration_routes:
  assumes "pins a = []"
  shows "let a' = fold (\<lambda>(n, p). register_pin n p) regs a
    in bt_get n (pins a') = map_of (rev regs) n
      \<and> registered_pin_ids a' = sorted_list_of_set (fst ` set regs)"
proof -
  have "pins (fold (\<lambda>(n, p). register_pin n p) regs a) = btree.insert_all regs"
  proof (induction regs rule: rev_induct)
    case Nil
    then show ?case using assms by (simp add: btree.insert_all_def)
  next
    case (snoc r regs)
    then show ?case by (cases r) (simp add: btree.insert_all_snoc register_pin_def)
  qed
  then show ?thesis
    by (simp add: Let_def registered_pin_ids_def btree.get_insert_all btree.keys_insert_all)
qed

definition fixed_pin :: "bool \<Rightarrow> 'w dyn_pin" where
  "fixed_pin level = \<lparr>pin_set = (\<lambda>b w. w), pin_get = (\<lambda>w. (level, w))\<rparr>"

theorem registration_routes_witness:
  "let a' = fold (\<lambda>(n, p). register_pin n p) [(9, fixed_pin True), (2, fixed_pin False), (9, fixed_pin False)] bare_adapter
   in bt_get 9 (pins a') = Some (fixed_pin False) \<and> registered_pin_ids a' = [2, 9]"
proof -
  have "pins bare_adapter = []" by (simp add: bare_adapter_def builder_defs)
  from registration_routes [OF this, of "[(9, fixed_pin True), (2, fixed_pin False), (9, fixed_pin False)]" 9]
  show ?thesis by (simp add: Let_def insert_Diff_if)
qed

lemma scan_addresses_filter:
  assumes "\<And>addr tx rx w. fst (i2c_transfer b addr tx rx w) = (if acks addr tx then 0 else e)" and "e \<noteq> 0"
  shows "fst (scan_addresses b addrs w) = filter (\<lambda>a. acks a [0] \<or> acks a []) addrs"
proof (induction addrs arbitrary: w)
  case (Cons a addrs)
  have "fst (probe b a w) = (acks a [0] \<or> acks a [])" for w
    using assms by (simp add: probe_def case_prod_beta Let_def)
  with Cons show ?case by (simp add: case_prod_beta Let_def)
qed simp

text \<open>
  The boot scan finds exactly the 7-bit addresses from 0x08 to 0x77 at which a device
  answers a one-byte write or, failing that, a one-byte read, in ascending order.
\<close>
theorem scan_finds_devices:
  assumes "\<And>addr tx rx w. fst (i2c_transfer b addr tx rx w) = (if acks addr tx then 0 else e)" and "e \<noteq> 0"
    and "bt_get bus (i2c_buses a) = Some b"
  shows "fst (scan_i2c_bus bus a) = filter (\<lambda>x. acks x [0] \<or> acks x []) (map word_of_nat [8..<120])"
proof -
  have "fst (scan_addresses b scan_range w) = filter (\<lambda>a. acks a [0] \<or> acks a []) scan_range" for w
    using assms(1,2) by (rule scan_addresses_filter)
  then show ?thesis
    unfolding scan_i2c_bus_def scan_range_def assms(3)
    by (simp only: option.case case_prod_beta Let_def fst_conv)
qed

definition probe_bus :: "'w dyn_i2c" where
  "probe_bus = \<lparr>i2c_transfer = (\<lambda>addr tx rx w. (if addr = 0x68 \<and> tx = [] \<or> addr = 0x76 then 0 else -1, rx, w))\<rparr>"

theorem scan_finds_devices_witness:
  "fst (scan_i2c_bus 0 (register_i2c 0 probe_bus bare_adapter)) = [0x68, 0x76]"
proof -
  have e: "(-1 :: i32) \<noteq> 0" by simp
  have d: "fst (i2c_transfer probe_bus addr tx rx w) = (if addr = 0x68 \<and> tx = [] \<or> addr = 0x76 then 0 else -1)"
    for addr tx rx and w :: "string list" by (simp add: probe_bus_def)
  have r: "bt_get 0 (i2c_buses (register_i2c 0 probe_bus bare_adapter)) = Some probe_bus"
    by (simp add: register_i2c_def bare_adapter_def builder_defs bt_get_def)
  show ?thesis
    unfolding scan_finds_devices [where acks = "\<lambda>addr tx. addr = 0x68 \<and> tx = [] \<or> addr = 0x76", OF d e r]
    by code_simp
qed

text \<open>
  Duty cycles are scaled without overflow for every timer resolution: the result never
  exceeds the timer's maximum, is 0 at 0, the maximum from 10000 on, and never falls as the duty grows.
\<close>
theorem duty_scaling:
  "scale_duty duty m \<le> m \<and> scale_duty 0 m = 0 \<and> (10000 \<le> duty \<longrightarrow> scale_duty duty m = m)
   \<and> (duty \<le> duty' \<longrightarrow> scale_duty duty m \<le> scale_duty duty' m)"
proof -
  have u: "unat (scale_duty d m) = min (unat d) 10000 * unat m div 10000" for d
  proof -
    let ?c = "min d 10000"
    have c: "unat ?c = min (unat d) 10000" by (simp add: min_def word_le_nat_alt)
    then have cm: "unat ?c * unat m \<le> 10000 * unat m" by simp
    have m16: "unat m < 65536" using unsigned_less [of m] by simp
    have "unat ?c * unat m < 2 ^ 64" by (rule order_le_less_trans [OF cm]) (use m16 in simp)
    then have "unat (ucast ?c * ucast (ucast m :: u32) :: u64) = unat ?c * unat m"
      by (simp add: unat_word_ariths)
    then have q: "unat ((ucast ?c * ucast (ucast m :: u32) :: u64) div 10000) = unat ?c * unat m div 10000"
      by (simp add: unat_div)
    have "unat ?c * unat m div 10000 \<le> unat m" using cm by (simp add: div_le_mono [of _ "10000 * unat m" 10000, simplified])
    then have "unat ?c * unat m div 10000 < 65536" using m16 by simp
    then show ?thesis using c q by (simp add: scale_duty_def Let_def unsigned_ucast_eq take_bit_nat_eq_self_iff)
  qed
  have le: "min (unat d) 10000 * unat m div 10000 \<le> unat m" for d :: u32
    using div_le_mono [of "min (unat d) 10000 * unat m" "10000 * unat m" 10000] by simp
  have mono: "min (unat duty) 10000 * unat m div 10000 \<le> min (unat duty') 10000 * unat m div 10000"
    if "duty \<le> duty'"
    using that by (intro div_le_mono mult_le_mono1) (simp add: word_le_nat_alt)
  show ?thesis
    using le mono by (auto simp: word_le_nat_alt word_unat_eq_iff u)
qed

theorem duty_scaling_witness:
  "scale_duty 5000 1000 \<le> scale_duty 10000 1000 \<and> scale_duty 10000 1000 = 1000"
  using duty_scaling [of 5000 1000 10000] duty_scaling [of 10000 1000 0] by simp

end
