(* ===== verification/Esp32c3.thy ===== *)
theory Esp32c3
  imports Adapter
begin

text \<open>
  The ESP32-C3 board (\<open>receiver/src/targets/esp32c3/mod.rs\<close>): the assembly of its adapter and
  the hardware methods, which forward to the adapter except that setting GPIO 5 drives the LED's
  PWM channel. The peripherals of \<open>esp-hal\<close> are parameters: operations on the world they
  belong to.
\<close>

section \<open>Assembly\<close>

definition esp_silent_log :: "string \<Rightarrow> 'w \<Rightarrow> 'w" where
  "esp_silent_log msg w = w"

text \<open>\<open>nb::block!\<close> turns the one-shot conversion into a blocking read, \<open>None\<close> when it fails.\<close>

definition esp32_adc_adapter :: "('w \<Rightarrow> u16 option \<times> 'w) \<Rightarrow> 'w dyn_adc" where
  "esp32_adc_adapter read_oneshot = \<lparr>
     adc_read = (\<lambda>w. let (r, w) = read_oneshot w in (ucast (case r of Some v \<Rightarrow> v | None \<Rightarrow> 0), w)),
     adc_resolution = 12\<rparr>"

record 'w esp32c3_peripherals =
  esp_led_pwm :: "'w dyn_pwm"
  esp_i2c :: "'w i2c_driver"
  esp_adc_oneshot :: "'w \<Rightarrow> u16 option \<times> 'w"
  esp_delay :: "u32 \<Rightarrow> 'w \<Rightarrow> 'w"
  esp_uptime_us :: "'w \<Rightarrow> u64"

definition esp32c3_new :: "'w esp32c3_peripherals \<Rightarrow> 'w \<Rightarrow> 'w adapter" where
  "esp32c3_new p w =
     build_adapter w
       (with_log_sink esp_silent_log
       (with_uptime_fn (esp_uptime_us p)
       (with_delay (delay_adapter (esp_delay p))
       (with_adc 0 (esp32_adc_adapter (esp_adc_oneshot p))
       (with_i2c 0 (i2c_adapter (esp_i2c p))
       (with_pwm 5 (esp_led_pwm p) builder))))))"

section \<open>Hardware methods\<close>

definition esp_gpio_set :: "u32 \<Rightarrow> u32 \<Rightarrow> 'w adapter \<Rightarrow> 'w adapter" where
  "esp_gpio_set pin state a =
     (if pin = 5 then ad_pwm_set 5 (if state \<noteq> 0 then 10000 else 0) a
      else ad_gpio_set pin state a)"

definition esp32c3_hardware :: "'w adapter hardware" where
  "esp32c3_hardware = \<lparr>
     hw_gpio_set = esp_gpio_set,
     hw_gpio_get = ad_gpio_get,
     hw_delay_ms = ad_delay_ms,
     hw_get_uptime_us = ad_get_uptime_us,
     hw_i2c_transfer = ad_i2c_transfer,
     hw_log = ad_log,
     hw_pwm_set = ad_pwm_set,
     hw_adc_read = ad_adc_read,
     hw_spi_transfer = ad_spi_transfer,
     hw_uart_write = ad_uart_write,
     hw_uart_read = ad_uart_read\<rparr>"

text \<open>
  The busy wait of \<open>InstantDelay\<close>: \<open>now\<close> reads the microsecond clock, and every reading
  takes time. A wait on a clock that stands still does not return.
\<close>

partial_function (option) instant_wait :: "('w \<Rightarrow> u64 \<times> 'w) \<Rightarrow> u64 \<Rightarrow> u64 \<Rightarrow> 'w \<Rightarrow> 'w option" where
  "instant_wait now start us w =
     (let (t, w) = now w in if t - start < us then instant_wait now start us w else Some w)"

definition instant_delay_ms :: "('w \<Rightarrow> u64 \<times> 'w) \<Rightarrow> u32 \<Rightarrow> 'w \<Rightarrow> 'w option" where
  "instant_delay_ms now ms w = (let (start, w) = now w in instant_wait now start (ucast ms * 1000) w)"

section \<open>The board keeps the hardware contract\<close>

lemma esp32c3_step:
  assumes "hw_step esp32c3_hardware a a'"
  shows "hw_step adapter_hardware a a'"
  using assms
proof cases
  case (gpio_set pin state)
  then show ?thesis
    using hw_step.gpio_set [of adapter_hardware a pin state]
      hw_step.pwm_set [of adapter_hardware a 5 "if state \<noteq> 0 then 10000 else 0"]
    by (auto simp: esp32c3_hardware_def adapter_hardware_def esp_gpio_set_def split: if_splits)
qed (auto simp: esp32c3_hardware_def adapter_hardware_def intro: hw_step.intros [of adapter_hardware, unfolded adapter_hardware_def, simplified])

interpretation esp32c3: milo_hardware esp32c3_hardware devices_good
proof
  show "length rx' = length rx"
    if "devices_good a" "hw_i2c_transfer esp32c3_hardware addr tx rx a = (r, rx', a')"
    for a a' :: "'w adapter" and addr tx rx r rx'
    using adapter.i2c_length [OF that(1), of addr tx rx r rx' a'] that(2)
    by (simp add: esp32c3_hardware_def adapter_hardware_def)
  show "length rx' = length rx"
    if "devices_good a" "hw_spi_transfer esp32c3_hardware bus tx rx a = (r, rx', a')"
    for a a' :: "'w adapter" and bus tx rx r rx'
    using adapter.spi_length [OF that(1), of bus tx rx r rx' a'] that(2)
    by (simp add: esp32c3_hardware_def adapter_hardware_def)
  show "length rx' = length rx"
    if "devices_good a" "hw_uart_read esp32c3_hardware bus rx timeout a = (r, rx', a')"
    for a a' :: "'w adapter" and bus rx timeout r rx'
    using adapter.uart_length [OF that(1), of bus rx timeout r rx' a'] that(2)
    by (simp add: esp32c3_hardware_def adapter_hardware_def)
  show "devices_good a'" if "devices_good a" "hw_step esp32c3_hardware a a'" for a a' :: "'w adapter"
    using adapter.stays_good [OF that(1) esp32c3_step [OF that(2)]] .
qed

lemma esp32c3_new_good:
  assumes "i2c_good (i2c_adapter (esp_i2c p))"
  shows "devices_good (esp32c3_new p w)"
  using assms
  by (auto simp: devices_good_def esp32c3_new_def builder_defs bt_get_def split: if_splits)

section \<open>Properties\<close>

text \<open>
  On the ESP32-C3 setting GPIO 5 drives the LED's PWM channel, to full scale or to off,
  and every number but PWM channel 5, I2C bus 0 and ADC channel 0 is denied. That holds for
  reading GPIO 5 too, which the board's manifest advertises: the read is denied and gives 0.
\<close>
theorem esp32c3_pin_map:
  "hw_gpio_set esp32c3_hardware 5 v (esp32c3_new p w)
      = (esp32c3_new p w)\<lparr>world := pwm_set_duty (esp_led_pwm p) (if v = 0 then 0 else 10000) w\<rparr>
   \<and> hw_gpio_get esp32c3_hardware n (esp32c3_new p w) = (0, deny ''gpio_get'' n (esp32c3_new p w))
   \<and> (n \<noteq> 5 \<longrightarrow> hw_gpio_set esp32c3_hardware n v (esp32c3_new p w) = deny ''gpio_set'' n (esp32c3_new p w)
        \<and> hw_pwm_set esp32c3_hardware n v (esp32c3_new p w) = deny ''pwm_set'' n (esp32c3_new p w))
   \<and> (n \<noteq> 0 \<longrightarrow> hw_adc_read esp32c3_hardware n (esp32c3_new p w) = (0, deny ''adc_read'' n (esp32c3_new p w)))
   \<and> hw_spi_transfer esp32c3_hardware n tx rx (esp32c3_new p w) = (-1, rx, esp32c3_new p w)
   \<and> hw_uart_write esp32c3_hardware n tx (esp32c3_new p w) = (-1, esp32c3_new p w)
   \<and> world (deny s n (esp32c3_new p w)) = w"
  by (auto simp: esp32c3_hardware_def esp_gpio_set_def adapter_ops esp32c3_new_def builder_defs bt_get_def
      esp_silent_log_def Let_def)

definition still_board :: "nat esp32c3_peripherals" where
  "still_board = \<lparr>esp_led_pwm = \<lparr>pwm_set_duty = (\<lambda>d w. unat d), pwm_max_duty = default_max_duty\<rparr>,
     esp_i2c = \<lparr>write_read = (\<lambda>a tx rx w. (True, rx, w)), bus_write = (\<lambda>a tx w. (True, w)),
       bus_read = (\<lambda>a rx w. (True, rx, w))\<rparr>,
     esp_adc_oneshot = (\<lambda>w. (Some 7, w)), esp_delay = (\<lambda>ms w. w), esp_uptime_us = (\<lambda>w. 0)\<rparr>"

theorem esp32c3_pin_map_witness:
  "world (hw_gpio_set esp32c3_hardware 5 1 (esp32c3_new still_board 3)) = 10000
   \<and> world (snd (hw_gpio_get esp32c3_hardware 5 (esp32c3_new still_board 3))) = 3
   \<and> hw_gpio_set esp32c3_hardware 4 1 (esp32c3_new still_board 3) = deny ''gpio_set'' 4 (esp32c3_new still_board 3)"
  using esp32c3_pin_map [of 1 still_board 3 5] esp32c3_pin_map [of 1 still_board 3 4]
  by (simp add: still_board_def)

text \<open>
  The busy wait returns on every clock that moves on between two readings until the time is
  up, and not before the time is up: the last reading is the time asked for or later.
\<close>

lemma instant_wait_returns:
  assumes reads: "\<And>w. unat (fst (now w)) = clk w"
    and advances: "\<And>w. clk w < unat start + unat us \<Longrightarrow> clk w < clk (snd (now w))"
    and "unat start \<le> clk w"
  shows "\<exists>w0. instant_wait now start us w = Some (snd (now w0)) \<and> unat start + unat us \<le> clk w0"
  using assms(3)
proof (induction "unat start + unat us - clk w" arbitrary: w rule: less_induct)
  case less
  obtain t w1 where w1: "now w = (t, w1)" by (cases "now w")
  have t: "unat t = clk w" using reads [of w] w1 by simp
  have "t - start < us \<longleftrightarrow> clk w < unat start + unat us"
    using less.prems t by (auto simp: word_less_nat_alt unat_sub word_le_nat_alt)
  note cond = this
  show ?case
  proof (cases "clk w < unat start + unat us")
    case True
    then have adv: "clk w < clk w1" using advances [of w] w1 by simp
    have "\<exists>w0. instant_wait now start us w1 = Some (snd (now w0)) \<and> unat start + unat us \<le> clk w0"
      using adv True less.prems by (intro less.hyps) linarith+
    then show ?thesis using w1 True cond by (subst instant_wait.simps) simp
  next
    case False
    then have "instant_wait now start us w = Some (snd (now w))"
      using w1 cond by (subst instant_wait.simps) simp
    then show ?thesis using False by auto
  qed
qed

lemma instant_delay_example:
  "\<exists>w. instant_delay_ms (\<lambda>w. (word_of_nat w, min (w + 400) 100000)) 2 (0 :: nat) = Some w"
  by (simp add: instant_delay_ms_def instant_wait.simps)

end
