(* ===== verification/Manifest.thy ===== *)
theory Manifest
  imports Json
begin

text \<open>
  The discovery manifest of \<open>receiver/src/engine/manifest.rs\<close>: the capability records and
  the hand-written JSON, piece by piece as the code appends it. The specification is the JSON
  value the host is meant to read; the text is the rendering of that value, so the parser of
  theory Json recovers every field.
\<close>

section \<open>Capabilities\<close>

record manifest_header =
  mh_board :: string
  mh_family :: string
  mh_firmware_version :: string
  mh_ram_kb :: u32
  mh_flash_kb :: u32
  mh_max_wasm_memory_kb :: u32
  mh_max_wasm_stack_kb :: u32
  mh_fuel_default :: u64

record gpio_capability = gpio_pins :: "u32 list"

record pwm_capability =
  pwm_pins :: "u32 list"
  pwm_resolution_bits :: u8

record adc_capability =
  adc_pins :: "u32 list"
  adc_resolution_bits :: u8
  adc_vref_mv :: u32

record i2c_capability =
  i2c_bus_id :: u32
  i2c_sda_pin :: u32
  i2c_scl_pin :: u32
  i2c_devices_present :: "u8 list"

record spi_capability =
  spi_bus_id :: u32
  spi_mosi_pin :: u32
  spi_miso_pin :: u32
  spi_sck_pin :: u32

record uart_capability =
  uart_bus_id :: u32
  uart_tx_pin :: u32
  uart_rx_pin :: u32

record capabilities =
  cap_gpio :: gpio_capability
  cap_pwm :: pwm_capability
  cap_adc :: adc_capability
  cap_i2c :: "i2c_capability list"
  cap_spi :: "spi_capability list"
  cap_uart :: "uart_capability list"

definition no_capabilities :: capabilities where
  "no_capabilities = \<lparr>cap_gpio = \<lparr>gpio_pins = []\<rparr>,
     cap_pwm = \<lparr>pwm_pins = [], pwm_resolution_bits = 0\<rparr>,
     cap_adc = \<lparr>adc_pins = [], adc_resolution_bits = 0, adc_vref_mv = 0\<rparr>,
     cap_i2c = [], cap_spi = [], cap_uart = []\<rparr>"

definition ALPHABET :: "string list" where
  "ALPHABET = [''gpio_set'', ''gpio_get'', ''delay_ms'', ''get_uptime_us'', ''i2c_transfer'',
     ''log_msg'', ''pwm_set'', ''adc_read'', ''spi_transfer'', ''uart_write'', ''uart_read'',
     ''get_param'']"

text \<open>\<open>env!("CARGO_PKG_VERSION")\<close>, the version in \<open>receiver/Cargo.toml\<close>.\<close>

definition CARGO_PKG_VERSION :: string where
  "CARGO_PKG_VERSION = ''0.1.0''"

section \<open>Writing the text\<close>

definition json_string :: "string \<Rightarrow> string \<Rightarrow> string \<Rightarrow> string" where
  "json_string s key value =
     s @ [CHR 0x22] @ key @ ''\":\"'' @ concat (map escape_char value) @ [CHR 0x22]"

definition json_array_u32 :: "string \<Rightarrow> string \<Rightarrow> u32 list \<Rightarrow> string" where
  "json_array_u32 s prefix vs =
     comma_loop 0 (\<lambda>v. dec (unat v)) vs (s @ prefix @ ''['') @ '']''"

definition json_u32_array_field :: "string \<Rightarrow> string \<Rightarrow> u32 list \<Rightarrow> string" where
  "json_u32_array_field s key vs =
     comma_loop 0 (\<lambda>v. dec (unat v)) vs (s @ [CHR 0x22] @ key @ ''\":['') @ '']''"

definition i2c_text :: "i2c_capability \<Rightarrow> string" where
  "i2c_text bus =
     comma_loop 0 (\<lambda>a. ''\"0x'' @ hex2 (unat a) @ [CHR 0x22]) (i2c_devices_present bus)
       (''{\"bus_id\":'' @ dec (unat (i2c_bus_id bus)) @ '',\"sda_pin\":'' @ dec (unat (i2c_sda_pin bus))
        @ '',\"scl_pin\":'' @ dec (unat (i2c_scl_pin bus)) @ '',\"devices_present\":['')
     @ '']}''"

definition spi_text :: "spi_capability \<Rightarrow> string" where
  "spi_text bus =
     ''{\"bus_id\":'' @ dec (unat (spi_bus_id bus)) @ '',\"mosi_pin\":'' @ dec (unat (spi_mosi_pin bus))
     @ '',\"miso_pin\":'' @ dec (unat (spi_miso_pin bus)) @ '',\"sck_pin\":''
     @ dec (unat (spi_sck_pin bus)) @ ''}''"

definition uart_text :: "uart_capability \<Rightarrow> string" where
  "uart_text bus =
     ''{\"bus_id\":'' @ dec (unat (uart_bus_id bus)) @ '',\"tx_pin\":'' @ dec (unat (uart_tx_pin bus))
     @ '',\"rx_pin\":'' @ dec (unat (uart_rx_pin bus)) @ ''}''"

definition bus_list :: "string \<Rightarrow> ('a \<Rightarrow> string) \<Rightarrow> 'a list \<Rightarrow> string \<Rightarrow> string" where
  "bus_list opening f buses s =
     (if buses \<noteq> [] then comma_loop 0 f buses (s @ '','' @ opening) @ '']'' else s)"

definition build :: "manifest_header \<Rightarrow> capabilities \<Rightarrow> string" where
  "build header caps =
     (let s = ''{'';
          s = json_string s ''board'' (mh_board header) @ '','';
          s = json_string s ''family'' (mh_family header) @ '','';
          s = json_string s ''firmware_version'' (mh_firmware_version header) @ '','';
          s = s @ ''\"capabilities\":{'';
          s = json_array_u32 s ''\"gpio\":{\"pins\":'' (gpio_pins (cap_gpio caps)) @ ''}'' @ '','';
          s = s @ ''\"pwm\":{'';
          s = json_u32_array_field s ''pins'' (pwm_pins (cap_pwm caps)) @ '','';
          s = s @ ''\"resolution_bits\":'' @ dec (unat (pwm_resolution_bits (cap_pwm caps)));
          s = s @ ''}'' @ '','';
          s = s @ ''\"adc\":{'';
          s = json_u32_array_field s ''pins'' (adc_pins (cap_adc caps)) @ '','';
          s = s @ ''\"resolution_bits\":'' @ dec (unat (adc_resolution_bits (cap_adc caps)))
                @ '',\"vref_mv\":'' @ dec (unat (adc_vref_mv (cap_adc caps)));
          s = s @ ''}'';
          s = bus_list ''\"i2c\":['' i2c_text (cap_i2c caps) s;
          s = bus_list ''\"spi\":['' spi_text (cap_spi caps) s;
          s = bus_list ''\"uart\":['' uart_text (cap_uart caps) s;
          s = s @ ''}'' @ '','';
          s = s @ ''\"memory\":{\"ram_kb\":'' @ dec (unat (mh_ram_kb header)) @ '',\"flash_kb\":''
                @ dec (unat (mh_flash_kb header)) @ ''}'' @ '','';
          s = s @ ''\"wasm_limits\":{\"max_memory_kb\":'' @ dec (unat (mh_max_wasm_memory_kb header))
                @ '',\"max_stack_kb\":'' @ dec (unat (mh_max_wasm_stack_kb header))
                @ '',\"fuel_default\":'' @ dec (unat (mh_fuel_default header)) @ ''}'' @ '','';
          s = comma_loop 0 (\<lambda>name. [CHR 0x22] @ name @ [CHR 0x22]) ALPHABET (s @ ''\"alphabet\":['') @ '']''
      in s @ ''}'')"

section \<open>What the host is meant to read\<close>

definition num :: "'a :: len word \<Rightarrow> json" where
  "num w = JNum (unat w)"

definition i2c_value :: "i2c_capability \<Rightarrow> json" where
  "i2c_value bus = JObj
     [(''bus_id'', num (i2c_bus_id bus)), (''sda_pin'', num (i2c_sda_pin bus)),
      (''scl_pin'', num (i2c_scl_pin bus)),
      (''devices_present'', JArr (map (\<lambda>a. JStr (''0x'' @ hex2 (unat a))) (i2c_devices_present bus)))]"

definition spi_value :: "spi_capability \<Rightarrow> json" where
  "spi_value bus = JObj
     [(''bus_id'', num (spi_bus_id bus)), (''mosi_pin'', num (spi_mosi_pin bus)),
      (''miso_pin'', num (spi_miso_pin bus)), (''sck_pin'', num (spi_sck_pin bus))]"

definition uart_value :: "uart_capability \<Rightarrow> json" where
  "uart_value bus = JObj
     [(''bus_id'', num (uart_bus_id bus)), (''tx_pin'', num (uart_tx_pin bus)),
      (''rx_pin'', num (uart_rx_pin bus))]"

definition bus_field :: "string \<Rightarrow> ('a \<Rightarrow> json) \<Rightarrow> 'a list \<Rightarrow> (string \<times> json) list" where
  "bus_field key f buses = (if buses = [] then [] else [(key, JArr (map f buses))])"

definition manifest_value :: "manifest_header \<Rightarrow> capabilities \<Rightarrow> json" where
  "manifest_value header caps = JObj
     [(''board'', JStr (mh_board header)),
      (''family'', JStr (mh_family header)),
      (''firmware_version'', JStr (mh_firmware_version header)),
      (''capabilities'', JObj
        ([(''gpio'', JObj [(''pins'', JArr (map num (gpio_pins (cap_gpio caps))))]),
          (''pwm'', JObj [(''pins'', JArr (map num (pwm_pins (cap_pwm caps)))),
                          (''resolution_bits'', num (pwm_resolution_bits (cap_pwm caps)))]),
          (''adc'', JObj [(''pins'', JArr (map num (adc_pins (cap_adc caps)))),
                          (''resolution_bits'', num (adc_resolution_bits (cap_adc caps))),
                          (''vref_mv'', num (adc_vref_mv (cap_adc caps)))])]
         @ bus_field ''i2c'' i2c_value (cap_i2c caps)
         @ bus_field ''spi'' spi_value (cap_spi caps)
         @ bus_field ''uart'' uart_value (cap_uart caps))),
      (''memory'', JObj [(''ram_kb'', num (mh_ram_kb header)), (''flash_kb'', num (mh_flash_kb header))]),
      (''wasm_limits'', JObj [(''max_memory_kb'', num (mh_max_wasm_memory_kb header)),
                              (''max_stack_kb'', num (mh_max_wasm_stack_kb header)),
                              (''fuel_default'', num (mh_fuel_default header))]),
      (''alphabet'', JArr (map JStr ALPHABET))]"

section \<open>The text is the value\<close>

lemma render_nums: "map (render \<circ> num) vs = map (\<lambda>v. dec (unat v)) vs"
  by (simp add: num_def comp_def)

lemma json_string_eq:
  "json_escape key = key \<Longrightarrow> json_string s key v = s @ quoted key @ '':'' @ quoted v"
  by (simp add: json_string_def quoted_def)

lemma i2c_text_eq: "i2c_text bus = render (i2c_value bus)"
  by (simp add: i2c_text_def i2c_value_def num_def comma_loop_join quoted_def comp_def)

lemma spi_text_eq: "spi_text bus = render (spi_value bus)"
  by (simp add: spi_text_def spi_value_def num_def quoted_def)

lemma uart_text_eq: "uart_text bus = render (uart_value bus)"
  by (simp add: uart_text_def uart_value_def num_def quoted_def)

lemma bus_list_eq:
  assumes "\<And>b. text b = render (val b)" and "opening = quoted key @ '':[''"
  shows "bus_list opening text buses s
    = s @ concat (map (\<lambda>f. '','' @ member_text f) (bus_field key val buses))"
proof -
  have "text = (\<lambda>b. render (val b))" using assms(1) by blast
  with assms(2) show ?thesis
    by (simp add: bus_list_def bus_field_def comma_loop_join member_text_def comp_def)
qed

lemma manifest_text: "build header caps = render (manifest_value header caps)"
proof -
  note texts = i2c_text_eq spi_text_eq uart_text_eq
  have b: "bus_list ''\"i2c\":['' i2c_text (cap_i2c caps) s
        = s @ concat (map (\<lambda>f. '','' @ member_text f) (bus_field ''i2c'' i2c_value (cap_i2c caps)))"
      "bus_list ''\"spi\":['' spi_text (cap_spi caps) s
        = s @ concat (map (\<lambda>f. '','' @ member_text f) (bus_field ''spi'' spi_value (cap_spi caps)))"
      "bus_list ''\"uart\":['' uart_text (cap_uart caps) s
        = s @ concat (map (\<lambda>f. '','' @ member_text f) (bus_field ''uart'' uart_value (cap_uart caps)))" for s
    by (rule bus_list_eq; simp add: texts quoted_def)+
  show ?thesis
    unfolding build_def manifest_value_def Let_def render_obj b
    by (simp add: json_string_eq json_array_u32_def json_u32_array_field_def comma_loop_join
        join_Cons_concat member_text_def num_def comp_def quoted_def ALPHABET_def)
qed

text \<open>
  C18: the manifest the receiver answers a discovery with is well-formed JSON, and reading it
  back gives every field of the header and of the capabilities with its value, whatever
  characters the board's names hold and however many buses there are.
\<close>
theorem manifest_roundtrip: "parse_json (build header caps) = Some (manifest_value header caps)"
  by (simp only: manifest_text parse_json_render)

end
