(* ===== verification/Esp32_Entry.thy ===== *)
theory Esp32_Entry
  imports Provisioning Transports Esp32c3 Manifest
begin

text \<open>
  The ESP32-C3 entry point (module \<open>esp_entry\<close> of \<open>receiver/src/main.rs\<close>): the boot sequence after
  the peripherals are configured, the board's manifest with the devices the bus scan found,
  the policy baked in at build time, and the shared main loop on the serial port. Configuring
  the chip is left to \<open>esp-hal\<close>; what it hands over is the parameter \<open>esp32c3_peripherals\<close>.
\<close>

section \<open>Boot\<close>

definition esp_header :: manifest_header where
  "esp_header = \<lparr>mh_board = ''esp32c3'', mh_family = ''esp32'', mh_firmware_version = CARGO_PKG_VERSION,
     mh_ram_kb = 400, mh_flash_kb = 4096, mh_max_wasm_memory_kb = 64, mh_max_wasm_stack_kb = 8,
     mh_fuel_default = 500000000\<rparr>"

definition esp_caps :: "u8 list \<Rightarrow> capabilities" where
  "esp_caps i2c_devices = no_capabilities\<lparr>
     cap_gpio := \<lparr>gpio_pins = [5]\<rparr>,
     cap_pwm := \<lparr>pwm_pins = [5], pwm_resolution_bits = 10\<rparr>,
     cap_adc := \<lparr>adc_pins = [0], adc_resolution_bits = 12, adc_vref_mv = 3300\<rparr>,
     cap_i2c := [\<lparr>i2c_bus_id = 0, i2c_sda_pin = 8, i2c_scl_pin = 9, i2c_devices_present = i2c_devices\<rparr>]\<rparr>"

definition esp_boot :: "'w esp32c3_peripherals \<Rightarrow> 'w \<Rightarrow> u8 list \<times> 'w adapter" where
  "esp_boot p w = scan_i2c_bus 0 (esp32c3_new p w)"

definition esp_board ::
  "('k, 's) ed25519 option \<Rightarrow> string option \<Rightarrow> u8 list \<Rightarrow>
   (embedded_io, 'w adapter single_core, 'w adapter, 'k, 's) board" where
  "esp_board signing milo_trusted_key i2c_devices = \<lparr>
     bd_target = esp32c3_release,
     bd_signing = signing,
     bd_transport = embedded_io_transport esp32c3_release,
     bd_executor = single_core_executor,
     bd_manifest = build esp_header (esp_caps i2c_devices),
     bd_policy = esp_policy milo_trusted_key\<rparr>"

definition esp_main ::
  "('k, 's) ed25519 option \<Rightarrow> string option \<Rightarrow> 'w esp32c3_peripherals \<Rightarrow> 'w \<Rightarrow> embedded_io \<Rightarrow>
   'w adapter run list \<Rightarrow> (embedded_io, 'w adapter single_core) loop_state outcome" where
  "esp_main signing milo_trusted_key p w serial runs =
     (let (i2c_devices, hal) = esp_boot p w in
      main_loop_with_policy (esp_board signing milo_trusted_key i2c_devices) runs
        \<lparr>ls_transport = serial, ls_exec = new_single_core hal (Some 500000000), ls_params = PARAM_SLOTS\<rparr>)"

section \<open>A board that runs nothing\<close>

definition untouched :: "'h \<Rightarrow> 'h single_core \<Rightarrow> bool" where
  "untouched hal e \<longleftrightarrow> sc_hardware e = Some hal \<and> sc_last_result e = None"

interpretation untouched: executor_keeps single_core_executor "untouched hal" "\<lambda>_. False" for hal
  by unfold_locales
    (auto simp: single_core_executor_def untouched_def sc_poll_result_def sc_stop_def split: if_splits)

text \<open>
  The documented hardware build with a key baked in (\<open>--no-default-features --features
  esp32c3\<close>, which leaves the feature \<open>signing\<close> out) runs no module at all: whatever arrives,
  signed or not, the hardware stays as it was after the boot scan and no result is produced.
\<close>
theorem esp_key_without_signing_runs_nothing:
  assumes "parse_hex_key_const hex \<noteq> None"
    and "esp_main (None :: ('k, 's) ed25519 option) (Some hex) p w serial runs = Ok st"
  shows "sc_hardware (ls_exec st) = Some (snd (esp_boot p w)) \<and> sc_last_result (ls_exec st) = None"
proof -
  obtain devs hal where boot: "esp_boot p w = (devs, hal)" by (cases "esp_boot p w")
  let ?bd = "esp_board (None :: ('k, 's) ed25519 option) (Some hex) devs"
  have none: False if "authorized (bd_target ?bd) (bd_signing ?bd) (bd_policy ?bd) wasm" for wasm
    using that assms(1) by (auto simp: authorized_def esp_board_def esp_policy_def signed_only_def)
  have ex: "bd_executor ?bd = single_core_executor" by (simp add: esp_board_def)
  have "untouched hal (ls_exec st)"
  proof (rule untouched.loop_keeps [OF ex none])
    show "main_loop_with_policy ?bd runs
        \<lparr>ls_transport = serial, ls_exec = new_single_core hal (Some 500000000), ls_params = PARAM_SLOTS\<rparr> = Ok st"
      using assms(2) by (simp only: esp_main_def boot Let_def prod.case)
  qed (simp_all add: untouched_def new_single_core_def)
  then show ?thesis using boot by (simp add: untouched_def)
qed

definition quiet_serial :: "bytes \<Rightarrow> embedded_io" where
  "quiet_serial bs = \<lparr>eio_answers = [Data bs], eio_writer = \<lparr>written = [], room = None,
     write_error = \<lparr>kind = OtherKind, io_text = []\<rparr>, flush_error = None\<rparr>\<rparr>"

lemma quiet_push:
  "\<exists>io. eio_read_frame esp32c3_release (quiet_serial [2, 0, 0, 0, 0]) = Ok (Inr \<lparr>opcode = 2, payload = []\<rparr>, io)"
proof -
  let ?f = "\<lparr>opcode = 2, payload = []\<rparr>"
  have "delivered (eio_answers (quiet_serial [2, 0, 0, 0, 0])) = serialize ?f @ []"
    by (simp add: quiet_serial_def serialize_def to_be_bytes_def)
  from eio_read_whole [OF _ _ this, of esp32c3_release] show ?thesis
    by (auto simp: alloc_zeroed_def esp32c3_release_def)
qed

theorem esp_key_without_signing_runs_nothing_witness:
  "\<exists>st. esp_main (None :: (unit, unit) ed25519 option) (Some (hex_encode (replicate 32 0xAB))) still_board 0
      (quiet_serial [2, 0, 0, 0, 0]) [\<lambda>f w h. Ok (h, failure ''ran'')] = Ok st
    \<and> sc_last_result (ls_exec st) = None"
proof -
  have key: "parse_hex_key_const (hex_encode (replicate 32 0xAB)) = Some (replicate 32 0xAB)"
    by (simp add: parse_hex_key_const_def length_hex_encode hex_pairs_encode)
  obtain devs hal where boot: "esp_boot still_board 0 = (devs, hal)" by (cases "esp_boot still_board 0")
  obtain io where io: "eio_read_frame esp32c3_release (quiet_serial [2, 0, 0, 0, 0]) = Ok (Inr \<lparr>opcode = 2, payload = []\<rparr>, io)"
    using quiet_push by blast
  obtain st where st: "esp_main (None :: (unit, unit) ed25519 option) (Some (hex_encode (replicate 32 0xAB))) still_board 0
      (quiet_serial [2, 0, 0, 0, 0]) [\<lambda>f w h. Ok (h, failure ''ran'')] = Ok st"
    using boot io key
    by (simp add: esp_main_def loop_step_def esp_board_def embedded_io_transport_def handle_frame_def opcode_defs
        handle_push_def authorize_module_def esp_policy_def signed_only_def Let_def)
  with esp_key_without_signing_runs_nothing [OF _ st] key show ?thesis by simp
qed

text \<open>
  What the host discovers: the answer to a discovery parses back to the board's manifest, with
  the devices the boot scan found.
\<close>

lemma esp_manifest: "parse_json (bd_manifest (esp_board sg key devs)) = Some (manifest_value esp_header (esp_caps devs))"
  by (simp add: esp_board_def manifest_text parse_json_render)

end
