(* ===== verification/Rp2040.thy ===== *)
theory Rp2040
  imports Adapter
begin

text \<open>
  The Raspberry Pi Pico board (\<open>receiver/src/targets/rp2040/mod.rs\<close>): the statics for the timer
  and the USB poll callback, the recovery of a stuck I2C bus as the sequence of register
  accesses it makes, the retrying I2C wrapper, the delay that keeps USB alive, and the
  assembly of the adapter. The chip itself is a parameter, the operations of its registers,
  its clock and its cycle delay on a state of its own.
\<close>

section \<open>Chip and statics\<close>

datatype reg_write =
    FuncSio nat | FuncI2c nat
  | OeSet u32 | OeClr u32 | OutSet u32 | OutClr u32
  | IcEnable bool

record 'w soc_ops =
  soc_write :: "reg_write \<Rightarrow> 'w \<Rightarrow> 'w"
  soc_gpio_in :: "'w \<Rightarrow> u32 \<times> 'w"
  soc_clr_tx_abrt :: "'w \<Rightarrow> 'w"
  soc_delay :: "u32 \<Rightarrow> 'w \<Rightarrow> 'w"
  soc_ticks :: "'w \<Rightarrow> u64"

record ('c, 'w) pico =
  TIMER_PTR :: bool
  USB_POLL_FN :: "('c \<Rightarrow> 'w \<Rightarrow> 'w) option"
  USB_POLL_CTX :: "'c option"
  soc :: 'w

definition set_usb_poll :: "('c \<Rightarrow> 'w \<Rightarrow> 'w) \<Rightarrow> 'c \<Rightarrow> ('c, 'w) pico \<Rightarrow> ('c, 'w) pico" where
  "set_usb_poll f ctx p = p\<lparr>USB_POLL_CTX := Some ctx, USB_POLL_FN := Some f\<rparr>"

definition clear_usb_poll :: "('c, 'w) pico \<Rightarrow> ('c, 'w) pico" where
  "clear_usb_poll p = p\<lparr>USB_POLL_FN := None, USB_POLL_CTX := None\<rparr>"

text \<open>
  A callback without a context would be called with a null pointer; the two statics are only
  written together, so that case (the pointer is \<open>None\<close> here) does not arise.
\<close>

definition poll_usb_if_available :: "('c, 'w) pico \<Rightarrow> ('c, 'w) pico" where
  "poll_usb_if_available p = (case USB_POLL_FN p of
     None \<Rightarrow> p
   | Some f \<Rightarrow> (case USB_POLL_CTX p of None \<Rightarrow> p | Some ctx \<Rightarrow> p\<lparr>soc := f ctx (soc p)\<rparr>))"

definition rp2040_uptime_us :: "'w soc_ops \<Rightarrow> ('c, 'w) pico \<Rightarrow> u64" where
  "rp2040_uptime_us ops p = (if TIMER_PTR p then soc_ticks ops (soc p) else 0)"

definition rp2040_silent_log :: "string \<Rightarrow> 'w \<Rightarrow> 'w" where
  "rp2040_silent_log msg w = w"

section \<open>Bus recovery and retry\<close>

definition SDA :: nat where "SDA = 4"
definition SCL :: nat where "SCL = 5"

abbreviation bit_mask :: "nat \<Rightarrow> u32" where
  "bit_mask n \<equiv> push_bit n 1"

fun clock_out :: "'w soc_ops \<Rightarrow> nat \<Rightarrow> 'w \<Rightarrow> 'w" where
  "clock_out ops 0 w = w"
| "clock_out ops (Suc n) w =
     (let w = soc_write ops (OutClr (bit_mask SCL)) w;
          w = soc_delay ops 665 w;
          w = soc_write ops (OutSet (bit_mask SCL)) w;
          w = soc_delay ops 665 w;
          (bits, w) = soc_gpio_in ops w
      in if and bits (bit_mask SDA) \<noteq> 0 then w else clock_out ops n w)"

definition i2c_bus_recover :: "'w soc_ops \<Rightarrow> 'w \<Rightarrow> 'w" where
  "i2c_bus_recover ops w =
     (let w = soc_write ops (FuncSio SCL) w;
          w = soc_write ops (OeSet (bit_mask SCL)) w;
          w = soc_write ops (FuncSio SDA) w;
          w = soc_write ops (OeClr (bit_mask SDA)) w;
          w = clock_out ops 9 w;
          w = soc_write ops (OeSet (bit_mask SDA)) w;
          w = soc_write ops (OutClr (bit_mask SDA)) w;
          w = soc_delay ops 665 w;
          w = soc_write ops (OutSet (bit_mask SCL)) w;
          w = soc_delay ops 665 w;
          w = soc_write ops (OutSet (bit_mask SDA)) w;
          w = soc_delay ops 665 w;
          w = soc_write ops (FuncI2c SDA) w;
          w = soc_write ops (FuncI2c SCL) w;
          w = soc_clr_tx_abrt ops w;
          w = soc_write ops (IcEnable False) w;
          w = soc_delay ops 133 w
      in soc_write ops (IcEnable True) w)"

text \<open>The board's \<open>i2c_do_transfer\<close> is the same four-way choice the adapter's \<open>I2cAdapter\<close> makes.\<close>

definition pico_i2c_do_transfer ::
  "'w i2c_driver \<Rightarrow> u8 \<Rightarrow> bytes \<Rightarrow> bytes \<Rightarrow> 'w \<Rightarrow> bool \<times> bytes \<times> 'w" where
  "pico_i2c_do_transfer d addr tx rx w =
     (case (tx = [], rx = []) of
        (False, False) \<Rightarrow> write_read d addr tx rx w
      | (False, True) \<Rightarrow> (let (ok, w) = bus_write d addr tx w in (ok, rx, w))
      | (True, False) \<Rightarrow> bus_read d addr rx w
      | (True, True) \<Rightarrow> (True, rx, w))"

definition recovering_i2c :: "'w soc_ops \<Rightarrow> ('c, 'w) pico i2c_driver \<Rightarrow> ('c, 'w) pico dyn_i2c" where
  "recovering_i2c ops d = \<lparr>i2c_transfer = (\<lambda>addr tx rx p.
     let (ok, rx, p) = pico_i2c_do_transfer d addr tx rx p in
     if ok then (0, rx, p)
     else
       let p = p\<lparr>soc := i2c_bus_recover ops (soc p)\<rparr>;
           (ok, rx, p) = pico_i2c_do_transfer d addr tx rx p
       in if ok then (0, rx, p) else (-1, rx, p))\<rparr>"

section \<open>Analog input and delay\<close>

definition rp2040_adc_channel :: "('w \<Rightarrow> u16 option \<times> 'w) \<Rightarrow> 'w dyn_adc" where
  "rp2040_adc_channel read_adc = \<lparr>
     adc_read = (\<lambda>w. let (r, w) = read_adc w; raw = (case r of Some v \<Rightarrow> v | None \<Rightarrow> 0) in (ucast raw, w)),
     adc_resolution = 12\<rparr>"

text \<open>
  The delay polls USB about once a millisecond until the clock has reached the target. A
  clock that stands still keeps it in its loop for ever, which is \<open>None\<close>. The multiplication
  for the cycle delay without a timer wraps, as in the release build of the board.
\<close>

partial_function (option) wait_polling :: "'w soc_ops \<Rightarrow> u64 \<Rightarrow> ('c, 'w) pico \<Rightarrow> ('c, 'w) pico option" where
  "wait_polling ops target p =
     (if soc_ticks ops (soc p) < target then
        (let p = poll_usb_if_available p in
         wait_polling ops target (p\<lparr>soc := soc_delay ops 133000 (soc p)\<rparr>))
      else Some p)"

definition rp2040_delay_ms :: "'w soc_ops \<Rightarrow> u32 \<Rightarrow> ('c, 'w) pico \<Rightarrow> ('c, 'w) pico option" where
  "rp2040_delay_ms ops ms p =
     (if \<not> TIMER_PTR p then Some (p\<lparr>soc := soc_delay ops (ms * 133000) (soc p)\<rparr>)
      else
        let start = soc_ticks ops (soc p); target = start + ucast ms * 1000
        in wait_polling ops target p)"

text \<open>
  As a \<open>DynDelay\<close> the delay is total: the value for a delay that does not return is never
  observed, since nothing runs after it.
\<close>

definition rp2040_delay :: "'w soc_ops \<Rightarrow> ('c, 'w) pico dyn_delay" where
  "rp2040_delay ops = \<lparr>delay_for_ms = (\<lambda>ms p. case rp2040_delay_ms ops ms p of Some p' \<Rightarrow> p' | None \<Rightarrow> p)\<rparr>"

section \<open>Assembly and hardware methods\<close>

record ('c, 'w) rp2040_peripherals =
  rp_led_pin :: "('c, 'w) pico output_pin"
  rp_i2c :: "('c, 'w) pico i2c_driver"
  rp_adc :: "('c, 'w) pico \<Rightarrow> u16 option \<times> ('c, 'w) pico"

definition rp2040_new :: "'w soc_ops \<Rightarrow> ('c, 'w) rp2040_peripherals \<Rightarrow> ('c, 'w) pico \<Rightarrow> ('c, 'w) pico adapter" where
  "rp2040_new ops d p =
     build_adapter (p\<lparr>TIMER_PTR := True\<rparr>)
       (with_log_sink rp2040_silent_log
       (with_uptime_fn (rp2040_uptime_us ops)
       (with_delay (rp2040_delay ops)
       (with_adc 26 (rp2040_adc_channel (rp_adc d))
       (with_i2c 0 (recovering_i2c ops (rp_i2c d))
       (with_pin 25 (output_pin_adapter (rp_led_pin d)) builder))))))"

definition rp2040_hardware :: "('c, 'w) pico adapter hardware" where
  "rp2040_hardware = \<lparr>
     hw_gpio_set = ad_gpio_set,
     hw_gpio_get = ad_gpio_get,
     hw_delay_ms = ad_delay_ms,
     hw_get_uptime_us = ad_get_uptime_us,
     hw_i2c_transfer = ad_i2c_transfer,
     hw_log = ad_log,
     hw_pwm_set = ad_pwm_set,
     hw_adc_read = ad_adc_read,
     hw_spi_transfer = ad_spi_transfer,
     hw_uart_write = ad_uart_write,
     hw_uart_read = ad_uart_read\<rparr>"

lemma rp2040_is_adapter: "rp2040_hardware = adapter_hardware"
  by (simp add: rp2040_hardware_def adapter_hardware_def)

interpretation rp2040: milo_hardware rp2040_hardware devices_good
  unfolding rp2040_is_adapter by (rule adapter.milo_hardware_axioms)

section \<open>Properties\<close>

lemma do_transfer_is_adapter: "pico_i2c_do_transfer d addr tx rx w = i2c_do_transfer d addr tx rx w"
  by (auto simp: pico_i2c_do_transfer_def i2c_do_transfer_def)

text \<open>
  An I2C transfer on the Pico answers 0 exactly when the first attempt or, after one
  recovery of the bus, the second attempt succeeds; a first attempt that succeeds touches
  neither the bus nor the buffer again, and there is never a third.
\<close>
theorem recovering_i2c_retries_once:
  "i2c_transfer (recovering_i2c ops d) addr tx rx p =
     (let (ok1, rx1, p1) = i2c_do_transfer d addr tx rx p;
          (ok2, rx2, p2) = i2c_do_transfer d addr tx rx1 (p1\<lparr>soc := i2c_bus_recover ops (soc p1)\<rparr>)
      in if ok1 then (0, rx1, p1) else (if ok2 then 0 else -1, rx2, p2))"
  by (simp add: recovering_i2c_def do_transfer_is_adapter Let_def split: prod.split)

subsection \<open>The recovery sequence\<close>

text \<open>
  A chip that records its register writes and plays a given sequence of levels of the data
  line shows what the recovery does on the pins.
\<close>

record bench =
  bench_writes :: "reg_write list"
  bench_sda :: "bool list"
  bench_clock :: nat

definition bench_ops :: "bench soc_ops" where
  "bench_ops = \<lparr>
     soc_write = (\<lambda>r w. w\<lparr>bench_writes := bench_writes w @ [r]\<rparr>),
     soc_gpio_in = (\<lambda>w. (case bench_sda w of [] \<Rightarrow> 0 | b # bs \<Rightarrow> if b then bit_mask SDA else 0,
                          w\<lparr>bench_sda := tl (bench_sda w)\<rparr>)),
     soc_clr_tx_abrt = (\<lambda>w. w),
     soc_delay = (\<lambda>n w. w\<lparr>bench_clock := min (bench_clock w + unat n div 133) (2 ^ 63)\<rparr>),
     soc_ticks = (\<lambda>w. word_of_nat (bench_clock w))\<rparr>"

definition pulse :: "reg_write list" where
  "pulse = [OutClr (bit_mask SCL), OutSet (bit_mask SCL)]"

definition pulses_needed :: "nat \<Rightarrow> bool list \<Rightarrow> nat" where
  "pulses_needed n levels = min n (Suc (length (takeWhile Not levels)))"

lemma clock_out_pulses:
  "n \<le> length (bench_sda w) \<Longrightarrow>
     bench_writes (clock_out bench_ops n w)
       = bench_writes w @ concat (replicate (pulses_needed n (bench_sda w)) pulse)"
proof (induction n arbitrary: w)
  case (Suc n)
  then obtain b bs where b: "bench_sda w = b # bs" "n \<le> length bs" by (cases "bench_sda w") auto
  show ?case
  proof (cases b)
    case True
    with b show ?thesis
      by (simp add: bench_ops_def pulse_def pulses_needed_def SDA_def SCL_def Let_def)
  next
    case False
    let ?w = "w\<lparr>bench_writes := bench_writes w @ pulse, bench_sda := bs,
       bench_clock := min (min (bench_clock w + 5) (2 ^ 63) + 5) (2 ^ 63)\<rparr>"
    have "clock_out bench_ops (Suc n) w = clock_out bench_ops n ?w"
      using b False by (cases w) (simp add: bench_ops_def pulse_def Let_def)
    with Suc.IH [of ?w] b False show ?thesis by (simp add: pulses_needed_def)
  qed
qed (simp add: pulses_needed_def)

text \<open>
  The recovery takes both lines from the I2C controller, gives clock pulses until the
  slave lets the data line go, nine at most, generates a stop condition (data rises while
  the clock is high), and gives the lines back to the controller, which it restarts.
\<close>
theorem i2c_recovery_sequence:
  assumes "9 \<le> length levels"
  shows "bench_writes (i2c_bus_recover bench_ops \<lparr>bench_writes = [], bench_sda = levels, bench_clock = t\<rparr>)
    = [FuncSio SCL, OeSet (bit_mask SCL), FuncSio SDA, OeClr (bit_mask SDA)]
      @ concat (replicate (min 9 (Suc (length (takeWhile Not levels)))) [OutClr (bit_mask SCL), OutSet (bit_mask SCL)])
      @ [OeSet (bit_mask SDA), OutClr (bit_mask SDA), OutSet (bit_mask SCL), OutSet (bit_mask SDA),
         FuncI2c SDA, FuncI2c SCL, IcEnable False, IcEnable True]"
proof -
  let ?w = "\<lparr>bench_writes = [FuncSio SCL, OeSet (bit_mask SCL), FuncSio SDA, OeClr (bit_mask SDA)],
     bench_sda = levels, bench_clock = t\<rparr>"
  have w: "soc_write bench_ops r w = w\<lparr>bench_writes := bench_writes w @ [r]\<rparr>"
    "bench_writes (soc_delay bench_ops n w) = bench_writes w" "soc_clr_tx_abrt bench_ops w = w" for r w n
    by (simp_all add: bench_ops_def)
  have "bench_writes (clock_out bench_ops 9 ?w) = bench_writes ?w @ concat (replicate (pulses_needed 9 levels) pulse)"
    using clock_out_pulses [of 9 ?w] assms by simp
  then show ?thesis
    by (simp add: i2c_bus_recover_def w Let_def pulses_needed_def pulse_def)
qed

theorem i2c_recovery_sequence_witness:
  "length (bench_writes (i2c_bus_recover bench_ops
     \<lparr>bench_writes = [], bench_sda = [False, False, True] @ replicate 6 False, bench_clock = 0\<rparr>)) = 18"
  using i2c_recovery_sequence [of "[False, False, True] @ replicate 6 False" 0] by simp

subsection \<open>The delay\<close>

text \<open>
  On a running clock the Pico's delay returns, and not before its time: when every cycle
  delay moves the clock on (by at least a microsecond, up to the end of the delay), polling
  USB does not turn it back, and the target time is in its range, the delay ends with the
  clock at the target or later.
\<close>
theorem rp2040_delay_waits:
  assumes "TIMER_PTR p"
    and "unat (soc_ticks ops (soc p)) + unat ms * 1000 < 2 ^ 64"
    and "\<And>w. unat (soc_ticks ops w) < unat (soc_ticks ops (soc p)) + unat ms * 1000 \<Longrightarrow>
           soc_ticks ops w < soc_ticks ops (soc_delay ops 133000 w)"
    and "\<And>f ctx w. USB_POLL_FN p = Some f \<Longrightarrow> USB_POLL_CTX p = Some ctx \<Longrightarrow> soc_ticks ops (f ctx w) = soc_ticks ops w"
  shows "\<exists>p'. rp2040_delay_ms ops ms p = Some p' \<and>
           unat (soc_ticks ops (soc p)) + unat ms * 1000 \<le> unat (soc_ticks ops (soc p'))"
proof -
  let ?finish = "unat (soc_ticks ops (soc p)) + unat ms * 1000"
  let ?target = "soc_ticks ops (soc p) + ucast ms * 1000"
  have "unat (ucast ms * 1000 :: u64) = unat ms * 1000"
    using assms(2) by (simp add: unat_word_ariths)
  then have target: "unat ?target = ?finish" using assms(2) by (simp add: unat_word_ariths)
  have "\<exists>p'. wait_polling ops ?target q = Some p' \<and> ?finish \<le> unat (soc_ticks ops (soc p'))"
    if "USB_POLL_FN q = USB_POLL_FN p" and "USB_POLL_CTX q = USB_POLL_CTX p" for q
    using that
  proof (induction "?finish - unat (soc_ticks ops (soc q))" arbitrary: q rule: less_induct)
    case less
    let ?q = "poll_usb_if_available q"
    let ?q' = "?q\<lparr>soc := soc_delay ops 133000 (soc ?q)\<rparr>"
    have ticks: "soc_ticks ops (soc ?q) = soc_ticks ops (soc q)"
      using assms(4) less.prems by (simp add: poll_usb_if_available_def split: option.split)
    have fields: "USB_POLL_FN ?q' = USB_POLL_FN p" "USB_POLL_CTX ?q' = USB_POLL_CTX p"
      using less.prems by (simp_all add: poll_usb_if_available_def split: option.split)
    show ?case
    proof (cases "soc_ticks ops (soc q) < ?target")
      case True
      then have lt: "unat (soc_ticks ops (soc q)) < ?finish" using target by (simp add: word_less_nat_alt)
      then have "unat (soc_ticks ops (soc q)) < unat (soc_ticks ops (soc ?q'))"
        using assms(3) [of "soc ?q"] ticks by (simp add: word_less_nat_alt)
      then have "?finish - unat (soc_ticks ops (soc ?q')) < ?finish - unat (soc_ticks ops (soc q))" using lt by linarith
      from less.hyps [OF this fields] show ?thesis
        using True by (subst wait_polling.simps) (simp add: Let_def)
    next
      case False
      then show ?thesis using target
        by (subst wait_polling.simps) (simp add: word_less_nat_alt)
    qed
  qed
  then show ?thesis using assms(1) by (simp add: rp2040_delay_ms_def Let_def)
qed

lemma bench_clock_advances:
  assumes "unat (soc_ticks bench_ops w) < 3500"
  shows "soc_ticks bench_ops w < soc_ticks bench_ops (soc_delay bench_ops 133000 w)"
proof -
  let ?c = "bench_clock w"
  have t: "unat (word_of_nat n :: u64) = n" if "n \<le> 2 ^ 63" for n
    using that by (simp add: unat_of_nat take_bit_nat_eq_self_iff)
  have "unat (word_of_nat (min (?c + 1000) (2 ^ 63)) :: u64) = min (?c + 1000) (2 ^ 63)" by (rule t) simp
  then have d: "unat (soc_ticks bench_ops (soc_delay bench_ops 133000 w)) = min (?c + 1000) (2 ^ 63)"
    by (simp add: bench_ops_def)
  show ?thesis
  proof (cases "?c \<le> 2 ^ 63")
    case True
    then have "unat (soc_ticks bench_ops w) = ?c" using t by (simp add: bench_ops_def)
    with assms d show ?thesis by (simp add: word_less_nat_alt)
  next
    case False
    with assms d show ?thesis by (simp add: word_less_nat_alt)
  qed
qed

theorem rp2040_delay_waits_witness:
  "\<exists>p'. rp2040_delay_ms bench_ops 3
       \<lparr>TIMER_PTR = True, USB_POLL_FN = Some (\<lambda>c w. w\<lparr>bench_writes := [] \<rparr>), USB_POLL_CTX = Some (),
        soc = \<lparr>bench_writes = [], bench_sda = [], bench_clock = 500\<rparr>\<rparr> = Some p'
     \<and> 3500 \<le> unat (soc_ticks bench_ops (soc p'))"
proof -
  let ?p = "\<lparr>TIMER_PTR = True, USB_POLL_FN = Some (\<lambda>c w. w\<lparr>bench_writes := [] \<rparr>), USB_POLL_CTX = Some (),
        soc = \<lparr>bench_writes = [], bench_sda = [], bench_clock = 500\<rparr>\<rparr>"
  have t: "unat (soc_ticks bench_ops (soc ?p)) = 500" by (simp add: bench_ops_def)
  have poll: "soc_ticks bench_ops (f c w) = soc_ticks bench_ops w" if "USB_POLL_FN ?p = Some f" for f c w
    using that by (auto simp: bench_ops_def)
  have "\<exists>p'. rp2040_delay_ms bench_ops 3 ?p = Some p' \<and>
      unat (soc_ticks bench_ops (soc ?p)) + unat (3 :: u32) * 1000 \<le> unat (soc_ticks bench_ops (soc p'))"
    by (rule rp2040_delay_waits) (use t poll bench_clock_advances in simp_all)
  then show ?thesis using t by simp
qed

end
