(* ===== verification/Board_Heap.thy ===== *)
theory Board_Heap
  imports Prelude "HOL-Library.Multiset"
begin

text \<open>
  Byte vectors on the heap of a board. The global allocator (\<open>embedded_alloc\<close>, outside the repository) is
  an argument with the operations of the trait \<open>GlobalAlloc\<close>, which may answer null; a \<open>Vec<u8>\<close> is its
  block and what it holds, and grows as the standard library grows it. An allocation that fails
  panics. The contract of an allocator says how many bytes it can have handed out at a time.
\<close>

section \<open>The allocator\<close>

text \<open>Blocks are given back and moved with the size they were asked for.\<close>

record ('p, 'm) heap_ops =
  hp_alloc :: "nat \<Rightarrow> 'm \<Rightarrow> ('p \<times> 'm) option"
  hp_realloc :: "'p \<Rightarrow> nat \<Rightarrow> nat \<Rightarrow> 'm \<Rightarrow> ('p \<times> 'm) option"
  hp_dealloc :: "'p \<Rightarrow> nat \<Rightarrow> 'm \<Rightarrow> 'm"

section \<open>Vectors of bytes\<close>

text \<open>A block has its capacity beside it; a vector without one has no capacity.\<close>

record 'p byte_vec =
  bv_block :: "('p \<times> nat) option"
  bv_bytes :: bytes

definition bv_capacity :: "'p byte_vec \<Rightarrow> nat" where
  "bv_capacity v = (case bv_block v of Some (p, cap) \<Rightarrow> cap | None \<Rightarrow> 0)"

definition byte_vec_new :: "'p byte_vec" where
  "byte_vec_new = \<lparr>bv_block = None, bv_bytes = []\<rparr>"

text \<open>
  Without room for the additional bytes the capacity is doubled, or raised to what is needed where that is
  more, and to 8 at least; \<open>isize::MAX\<close> bytes are the most an allocation may have.
\<close>

definition isize_max :: "target \<Rightarrow> nat" where
  "isize_max t = 2 ^ (usize_bits t - 1) - 1"

definition byte_vec_reserve ::
  "target \<Rightarrow> ('p, 'm) heap_ops \<Rightarrow> nat \<Rightarrow> 'p byte_vec \<Rightarrow> 'm \<Rightarrow> ('p byte_vec \<times> 'm) outcome" where
  "byte_vec_reserve t hp additional v m =
     (if additional \<le> bv_capacity v - length (bv_bytes v) then Ok (v, m)
      else
        let cap = max 8 (max (2 * bv_capacity v) (length (bv_bytes v) + additional))
        in if cap > isize_max t then Panic
           else case (case bv_block v of
                        None \<Rightarrow> hp_alloc hp cap m
                      | Some (p, old) \<Rightarrow> hp_realloc hp p old cap m) of
                  None \<Rightarrow> Panic
                | Some (p, m) \<Rightarrow> Ok (v\<lparr>bv_block := Some (p, cap)\<rparr>, m))"

definition extend_from_slice ::
  "target \<Rightarrow> ('p, 'm) heap_ops \<Rightarrow> bytes \<Rightarrow> 'p byte_vec \<Rightarrow> 'm \<Rightarrow> ('p byte_vec \<times> 'm) outcome" where
  "extend_from_slice t hp c v m =
     and_then (byte_vec_reserve t hp (length c) v m) (\<lambda>(v, m). Ok (v\<lparr>bv_bytes := bv_bytes v @ c\<rparr>, m))"

text \<open>A copy takes exactly its length, an empty one no block.\<close>

definition to_vec :: "('p, 'm) heap_ops \<Rightarrow> bytes \<Rightarrow> 'm \<Rightarrow> ('p byte_vec \<times> 'm) outcome" where
  "to_vec hp bs m =
     (if bs = [] then Ok (byte_vec_new, m)
      else case hp_alloc hp (length bs) m of
             None \<Rightarrow> Panic
           | Some (p, m) \<Rightarrow> Ok (\<lparr>bv_block = Some (p, length bs), bv_bytes = bs\<rparr>, m))"

definition drop_vec :: "('p, 'm) heap_ops \<Rightarrow> 'p byte_vec \<Rightarrow> 'm \<Rightarrow> 'm" where
  "drop_vec hp v m = (case bv_block v of Some (p, cap) \<Rightarrow> hp_dealloc hp p cap m | None \<Rightarrow> m)"

section \<open>What an allocator promises\<close>

text \<open>
  The blocks handed out at a time, and the bytes in them. An allocator has room for a number of bytes
  when it serves every request that, with the blocks that are out, stays below it; while a block
  moves, the old and the new one are both out.
\<close>

type_synonym 'p blocks = "('p \<times> nat) multiset"

definition bytes_out :: "'p blocks \<Rightarrow> nat" where
  "bytes_out B = (\<Sum>b\<in>#B. snd b)"

lemma bytes_out_simps [simp]:
  "bytes_out {#} = 0" "bytes_out (add_mset b B) = snd b + bytes_out B"
  "bytes_out (A + B) = bytes_out A + bytes_out B"
  by (simp_all add: bytes_out_def)

definition has_room :: "('p, 'm) heap_ops \<Rightarrow> nat \<Rightarrow> ('p blocks \<Rightarrow> 'm \<Rightarrow> bool) \<Rightarrow> bool" where
  "has_room hp room owns \<longleftrightarrow>
     (\<forall>B m n. owns B m \<and> 0 < n \<and> bytes_out B + n \<le> room \<longrightarrow>
        (\<exists>p m'. hp_alloc hp n m = Some (p, m') \<and> owns (add_mset (p, n) B) m'))
     \<and> (\<forall>B m p old n. owns (add_mset (p, old) B) m \<and> old < n \<and> old + bytes_out B + n \<le> room \<longrightarrow>
        (\<exists>p' m'. hp_realloc hp p old n m = Some (p', m') \<and> owns (add_mset (p', n) B) m'))
     \<and> (\<forall>B m p n. owns (add_mset (p, n) B) m \<longrightarrow> owns B (hp_dealloc hp p n m))"

lemma has_roomD:
  assumes "has_room hp room owns"
  shows "owns B m \<Longrightarrow> 0 < n \<Longrightarrow> bytes_out B + n \<le> room \<Longrightarrow>
      \<exists>p m'. hp_alloc hp n m = Some (p, m') \<and> owns (add_mset (p, n) B) m'"
    and "owns (add_mset (p, old) B) m \<Longrightarrow> old < n \<Longrightarrow> old + bytes_out B + n \<le> room \<Longrightarrow>
      \<exists>p' m'. hp_realloc hp p old n m = Some (p', m') \<and> owns (add_mset (p', n) B) m'"
    and "owns (add_mset (p, n) B) m \<Longrightarrow> owns B (hp_dealloc hp p n m)"
  using assms unfolding has_room_def by blast+

text \<open>The block of a vector among those that are out.\<close>

definition vec_blocks :: "'p byte_vec \<Rightarrow> 'p blocks" where
  "vec_blocks v = (case bv_block v of Some b \<Rightarrow> {#b#} | None \<Rightarrow> {#})"

definition byte_vec_ok :: "'p byte_vec \<Rightarrow> bool" where
  "byte_vec_ok v \<longleftrightarrow> length (bv_bytes v) \<le> bv_capacity v"

lemma byte_vec_new_simps [simp]:
  "bv_bytes byte_vec_new = []" "bv_capacity byte_vec_new = 0" "vec_blocks byte_vec_new = {#}"
  "byte_vec_ok byte_vec_new"
  by (simp_all add: byte_vec_new_def bv_capacity_def vec_blocks_def byte_vec_ok_def)

lemma bv_capacity_update [simp]: "bv_capacity (v\<lparr>bv_bytes := bs\<rparr>) = bv_capacity v"
  by (simp add: bv_capacity_def)

lemma vec_blocks_update [simp]: "vec_blocks (v\<lparr>bv_bytes := bs\<rparr>) = vec_blocks v"
  by (simp add: vec_blocks_def)

lemma bytes_out_vec [simp]: "bytes_out (vec_blocks v) = bv_capacity v"
  by (auto simp: vec_blocks_def bv_capacity_def split: option.split)

text \<open>
  A vector that is to hold at most \<open>n\<close> bytes gets no more than twice that capacity, and needs three times
  that room while it moves.
\<close>

lemma extend_served:
  assumes "has_room hp room owns" and "owns (vec_blocks v) m" and "byte_vec_ok v"
    and "bv_capacity v \<le> 2 * n" and "length (bv_bytes v) + length c \<le> n"
    and "3 * n \<le> room" and "8 \<le> n" and "room \<le> isize_max t"
  shows "\<exists>v' m'. extend_from_slice t hp c v m = Ok (v', m') \<and> bv_bytes v' = bv_bytes v @ c
    \<and> byte_vec_ok v' \<and> bv_capacity v' \<le> 2 * n \<and> owns (vec_blocks v') m'"
proof (cases "length c \<le> bv_capacity v - length (bv_bytes v)")
  case True
  then show ?thesis using assms(2-4)
    by (simp add: extend_from_slice_def byte_vec_reserve_def byte_vec_ok_def)
next
  case False
  let ?cap = "max 8 (max (2 * bv_capacity v) (length (bv_bytes v) + length c))"
  have old: "bv_capacity v < length (bv_bytes v) + length c" using False assms(3) by (simp add: byte_vec_ok_def)
  then have cap: "?cap \<le> 2 * n" "bv_capacity v < ?cap" "bv_capacity v + ?cap \<le> room"
    using assms(5-7) by auto
  have lim: "\<not> ?cap > isize_max t" using cap(3) assms(8) by linarith
  obtain p m' where a: "(case bv_block v of None \<Rightarrow> hp_alloc hp ?cap m
      | Some (p, old) \<Rightarrow> hp_realloc hp p old ?cap m) = Some (p, m')" "owns {#(p, ?cap)#} m'"
  proof (cases "bv_block v")
    case None
    then show thesis
      using has_roomD(1) [OF assms(1), of "{#}" m ?cap] assms(2) cap that
      by (auto simp: vec_blocks_def bv_capacity_def)
  next
    case (Some b)
    obtain p old where b: "b = (p, old)" by (cases b)
    then have "bv_capacity v = old" using Some by (simp add: bv_capacity_def)
    then show thesis
      using has_roomD(2) [OF assms(1), of p old "{#}" m ?cap] assms(2) cap that Some b
      by (auto simp: vec_blocks_def)
  qed
  let ?v = "v\<lparr>bv_block := Some (p, ?cap), bv_bytes := bv_bytes v @ c\<rparr>"
  have "extend_from_slice t hp c v m = Ok (?v, m')"
    using False lim a(1) by (simp add: extend_from_slice_def byte_vec_reserve_def Let_def)
  moreover have "bv_capacity ?v = ?cap" "vec_blocks ?v = {#(p, ?cap)#}"
    by (simp_all add: bv_capacity_def vec_blocks_def)
  ultimately show ?thesis using a(2) cap(1) by (simp add: byte_vec_ok_def)
qed

lemma to_vec_served:
  assumes "has_room hp room owns" and "owns B m" and "bytes_out B + length bs \<le> room"
  shows "\<exists>v m'. to_vec hp bs m = Ok (v, m') \<and> bv_bytes v = bs \<and> bv_capacity v = length bs
    \<and> owns (B + vec_blocks v) m'"
proof (cases "bs = []")
  case False
  then obtain p m' where "hp_alloc hp (length bs) m = Some (p, m')" "owns (add_mset (p, length bs) B) m'"
    using has_roomD(1) [OF assms(1,2) _ assms(3)] by auto
  then show ?thesis using False by (simp add: to_vec_def vec_blocks_def bv_capacity_def)
qed (use assms(2) in \<open>simp add: to_vec_def\<close>)

lemma drop_vec_served:
  assumes "has_room hp room owns" and "owns (B + vec_blocks v) m"
  shows "owns B (drop_vec hp v m)"
  using assms(2) has_roomD(3) [OF assms(1)]
  by (auto simp: drop_vec_def vec_blocks_def split: option.splits prod.splits)

text \<open>An allocator that never hands out more than some bytes at once bounds every vector.\<close>

definition at_most :: "('p, 'm) heap_ops \<Rightarrow> nat \<Rightarrow> bool" where
  "at_most hp limit \<longleftrightarrow>
     (\<forall>n m. limit < n \<longrightarrow> hp_alloc hp n m = None \<and> (\<forall>p old. hp_realloc hp p old n m = None))"

lemma extend_bounded:
  assumes "at_most hp limit" and "byte_vec_ok v" and "bv_capacity v \<le> limit"
    and "extend_from_slice t hp c v m = Ok (v', m')"
  shows "bv_bytes v' = bv_bytes v @ c \<and> byte_vec_ok v' \<and> bv_capacity v' \<le> limit"
proof (cases "length c \<le> bv_capacity v - length (bv_bytes v)")
  case True
  then show ?thesis using assms(2-4)
    by (auto simp: extend_from_slice_def byte_vec_reserve_def byte_vec_ok_def)
next
  case False
  let ?cap = "max 8 (max (2 * bv_capacity v) (length (bv_bytes v) + length c))"
  obtain p m1 where a: "(case bv_block v of None \<Rightarrow> hp_alloc hp ?cap m
      | Some (p, old) \<Rightarrow> hp_realloc hp p old ?cap m) = Some (p, m1)"
      "v' = v\<lparr>bv_block := Some (p, ?cap), bv_bytes := bv_bytes v @ c\<rparr>"
    using False assms(4)
    by (auto simp: extend_from_slice_def byte_vec_reserve_def Let_def and_then_eq_Ok split: if_splits option.splits)
  have "?cap \<le> limit"
  proof (rule ccontr)
    assume "\<not> ?cap \<le> limit"
    then have "limit < ?cap" by (simp only: not_le)
    then have "hp_alloc hp ?cap m = None" "\<And>p old. hp_realloc hp p old ?cap m = None"
      using assms(1) unfolding at_most_def by blast+
    then show False using a(1) by (auto split: option.splits prod.splits)
  qed
  then show ?thesis using a(2) by (simp add: byte_vec_ok_def bv_capacity_def)
qed

lemma extend_returns: "extend_from_slice t hp c v m \<noteq> Diverges"
  by (auto simp: extend_from_slice_def byte_vec_reserve_def Let_def and_then_eq_Diverges split: option.split)

end
