(* ===== verification/Pico_Entry.thy ===== *)
theory Pico_Entry
  imports Transports Rp2040 Manifest Board_Heap
begin

text \<open>
  The Raspberry Pi Pico entry point (module \<open>pico_entry\<close> of \<open>receiver/src/main.rs\<close>), which has a
  loop of its own: it assembles frames from USB packets of at most 64 bytes, answers
  discoveries, runs pushed modules on the spot and writes its replies packet by packet. The
  USB stack is a script of what its reads and writes answer; the heap allocator is an argument
  (\<open>Board_Heap\<close>), and the frame buffer and the copies of payloads live on it. Bringing up clocks, pins and USB
  is left to \<open>rp2040-hal\<close>; what it hands over is the parameter of \<open>rp2040_new\<close>.
\<close>

section \<open>The board\<close>

definition HEAP_SIZE :: nat where
  "HEAP_SIZE = 150 * 1024"

definition pico_header :: manifest_header where
  "pico_header = \<lparr>mh_board = ''rp2040-pico'', mh_family = ''rp2040'', mh_firmware_version = CARGO_PKG_VERSION,
     mh_ram_kb = 264, mh_flash_kb = 2048, mh_max_wasm_memory_kb = 64, mh_max_wasm_stack_kb = 8,
     mh_fuel_default = 500000000\<rparr>"

definition pico_caps :: capabilities where
  "pico_caps = no_capabilities\<lparr>
     cap_gpio := \<lparr>gpio_pins = [25]\<rparr>,
     cap_adc := \<lparr>adc_pins = [26], adc_resolution_bits = 12, adc_vref_mv = 3300\<rparr>,
     cap_i2c := [\<lparr>i2c_bus_id = 0, i2c_sda_pin = 4, i2c_scl_pin = 5, i2c_devices_present = [0x3C]\<rparr>]\<rparr>"

definition pico_manifest :: string where
  "pico_manifest = build pico_header pico_caps"

section \<open>USB serial\<close>

text \<open>
  A write takes some of the bytes offered, none, or fails; when the script is over the host
  does not drain the port any more and the loop never ends.
\<close>

record usb_serial =
  usb_writes :: "nat option list"
  usb_sent :: bytes

fun usb_write_loop :: "bytes \<Rightarrow> nat option list \<Rightarrow> bytes \<Rightarrow> usb_serial outcome" where
  "usb_write_loop [] ws sent = Ok \<lparr>usb_writes = ws, usb_sent = sent\<rparr>"
| "usb_write_loop (b # data) [] sent = Diverges"
| "usb_write_loop (b # data) (None # ws) sent = usb_write_loop (b # data) ws sent"
| "usb_write_loop (b # data) (Some n # ws) sent =
     usb_write_loop (drop n (b # data)) ws (sent @ take n (b # data))"

definition usb_write_all :: "bytes \<Rightarrow> usb_serial \<Rightarrow> usb_serial outcome" where
  "usb_write_all data serial = usb_write_loop data (usb_writes serial) (usb_sent serial)"

section \<open>Handling a frame\<close>

record 'h pico_state =
  px_hal :: 'h
  px_serial :: usb_serial

definition pico_reply :: "u8 \<Rightarrow> string \<Rightarrow> 'h pico_state \<Rightarrow> 'h pico_state outcome" where
  "pico_reply op text st =
     and_then (usb_write_all (serialize (new_frame op (bytes_of_str text))) (px_serial st)) (\<lambda>serial.
       Ok (st\<lparr>px_serial := serial\<rparr>))"

definition unexpected_opcode_json :: "u8 \<Rightarrow> string" where
  "unexpected_opcode_json op = ''{\"error\":\"unexpected opcode 0x'' @ hex2 (unat op) @ ''\"}''"

text \<open>
  The callback that polls USB during delays is registered around the run; the run is the
  creation of the runtime, the execution and the return of the hardware.
\<close>

definition pico_run ::
  "('c \<Rightarrow> 'w \<Rightarrow> 'w) \<Rightarrow> 'c \<Rightarrow> ('c, 'w) pico adapter run \<Rightarrow> bytes \<Rightarrow> ('c, 'w) pico adapter pico_state \<Rightarrow>
   ('c, 'w) pico adapter pico_state outcome" where
  "pico_run usb_poll_cb usb_ctx run wasm st =
     (let hal = px_hal st; hal = hal\<lparr>world := set_usb_poll usb_poll_cb usb_ctx (world hal)\<rparr> in
      and_then (run (Some 500000000) wasm hal) (\<lambda>(hal, exec_result).
        let result_json = exec_result_to_json exec_result;
            hal = hal\<lparr>world := clear_usb_poll (world hal)\<rparr>
        in pico_reply OP_EXEC_RESULT result_json (st\<lparr>px_hal := hal\<rparr>)))"

definition pico_frame ::
  "('c \<Rightarrow> 'w \<Rightarrow> 'w) \<Rightarrow> 'c \<Rightarrow> ('c, 'w) pico adapter run \<Rightarrow> frame \<Rightarrow> ('c, 'w) pico adapter pico_state \<Rightarrow>
   ('c, 'w) pico adapter pico_state outcome" where
  "pico_frame cb ctx run f st =
     (if opcode f = OP_DISCOVERY then pico_reply OP_DISCOVERY pico_manifest st
      else if opcode f \<noteq> OP_BYTECODE_PUSH then pico_reply OP_EXEC_RESULT (unexpected_opcode_json (opcode f)) st
      else
        and_then (validate_wasm_imports rp2040_release (payload f)) (\<lambda>v.
          if \<not> valid v then pico_reply OP_EXEC_RESULT (rejected_imports_json (rejected_imports v)) st
          else pico_run cb ctx run (payload f) st))"

section \<open>Assembling frames\<close>

text \<open>
  The frames in the buffer are handled one by one: the payload is copied out of the buffer, which
  keeps its capacity, and given back to the heap with its frame. What the handling of a frame
  leaves of the heap it says itself.
\<close>

function pico_drain ::
  "('p, 'm) heap_ops \<Rightarrow> (frame \<Rightarrow> 's \<times> 'm \<Rightarrow> ('s \<times> 'm) outcome) \<Rightarrow> 'p byte_vec \<Rightarrow> 's \<times> 'm \<Rightarrow>
   ('p byte_vec \<times> 's \<times> 'm) outcome" where
  "pico_drain hp handle frame_buf (st, m) =
     (let buf = bv_bytes frame_buf in
      if length buf < 5 then Ok (frame_buf, st, m)
      else
        let op = buf ! 0; plen = header_len buf in
        if plen > MAX_FRAME_LEN then Ok (frame_buf\<lparr>bv_bytes := []\<rparr>, st, m)
        else if length buf < 5 + plen then Ok (frame_buf, st, m)
        else
          and_then (to_vec hp (take plen (drop 5 buf)) m) (\<lambda>(payload_vec, m).
          and_then (handle (new_frame op (bv_bytes payload_vec)) (st, m)) (\<lambda>(st, m).
            pico_drain hp handle (frame_buf\<lparr>bv_bytes := drop (5 + plen) buf\<rparr>)
              (st, drop_vec hp payload_vec m))))"
  by pat_completeness auto

termination
  by (relation "measure (\<lambda>(hp, h, v, st). length (bv_bytes v))") (auto simp: diff_less)

declare pico_drain.simps [simp del]

text \<open>
  The loop over what \<open>serial.read\<close> answers into its 64-byte buffer: the rest of a longer
  packet comes with the next read, an empty or failed read is passed over.
\<close>

definition read_work :: "read_answer \<Rightarrow> nat" where
  "read_work a = (case a of Data c \<Rightarrow> Suc (length c) | ReadFailed \<Rightarrow> 1)"

function pico_loop ::
  "('p, 'm) heap_ops \<Rightarrow> (frame \<Rightarrow> 's \<times> 'm \<Rightarrow> ('s \<times> 'm) outcome) \<Rightarrow> read_answer list \<Rightarrow> 'p byte_vec \<Rightarrow> 's \<times> 'm \<Rightarrow>
   ('p byte_vec \<times> 's \<times> 'm) outcome" where
  "pico_loop hp handle [] frame_buf st = Ok (frame_buf, st)"
| "pico_loop hp handle (ReadFailed # rs) frame_buf st = pico_loop hp handle rs frame_buf st"
| "pico_loop hp handle (Data c # rs) frame_buf st =
     (if c = [] then pico_loop hp handle rs frame_buf st
      else
        and_then (extend_from_slice rp2040_release hp (take 64 c) frame_buf (snd st)) (\<lambda>(frame_buf, m).
        and_then (pico_drain hp handle frame_buf (fst st, m)) (\<lambda>(frame_buf, st).
          pico_loop hp handle (if length c \<le> 64 then rs else Data (drop 64 c) # rs) frame_buf st)))"
  by pat_completeness auto

termination
  by (relation "measure (\<lambda>(hp, h, rs, v, st). sum_list (map read_work rs))")
    (auto simp: read_work_def)

text \<open>
  What the handling of a frame allocates (the texts of the replies, the runtime, the memory of the guest)
  is an argument: the heap it leaves, or a panic where the heap does not suffice.
\<close>

definition with_heap ::
  "(frame \<Rightarrow> 's \<Rightarrow> 'm \<Rightarrow> 'm outcome) \<Rightarrow> (frame \<Rightarrow> 's \<Rightarrow> 's outcome) \<Rightarrow> frame \<Rightarrow> 's \<times> 'm \<Rightarrow> ('s \<times> 'm) outcome" where
  "with_heap allocates handle f s =
     and_then (allocates f (fst s) (snd s)) (\<lambda>m.
     and_then (handle f (fst s)) (\<lambda>st. Ok (st, m)))"

definition pico_main ::
  "'w soc_ops \<Rightarrow> ('c, 'w) rp2040_peripherals \<Rightarrow> ('c, 'w) pico \<Rightarrow> usb_serial \<Rightarrow> ('c \<Rightarrow> 'w \<Rightarrow> 'w) \<Rightarrow> 'c \<Rightarrow>
   ('c, 'w) pico adapter run \<Rightarrow> ('p, 'm) heap_ops \<Rightarrow>
   (frame \<Rightarrow> ('c, 'w) pico adapter pico_state \<Rightarrow> 'm \<Rightarrow> 'm outcome) \<Rightarrow> 'm \<Rightarrow> read_answer list \<Rightarrow>
   ('p byte_vec \<times> ('c, 'w) pico adapter pico_state \<times> 'm) outcome" where
  "pico_main ops d p serial usb_poll_cb usb_ctx run hp allocates m rs =
     pico_loop hp (with_heap allocates (pico_frame usb_poll_cb usb_ctx run)) rs byte_vec_new
       (\<lparr>px_hal = rp2040_new ops d p, px_serial = serial\<rparr>, m)"

section \<open>Writing\<close>

lemma usb_write_loop_sends:
  "usb_write_loop data ws sent = Ok s \<Longrightarrow> usb_sent s = sent @ data"
  by (induction data ws sent rule: usb_write_loop.induct) auto

lemma usb_write_loop_stuck:
  "usb_write_loop data ws sent = Diverges \<or> (\<exists>s. usb_write_loop data ws sent = Ok s)"
  by (induction data ws sent rule: usb_write_loop.induct) auto

lemma pico_reply_sends:
  "pico_reply op text st = Ok st' \<Longrightarrow>
     usb_sent (px_serial st') = usb_sent (px_serial st) @ serialize (new_frame op (bytes_of_str text))
     \<and> px_hal st' = px_hal st"
  by (auto simp: pico_reply_def usb_write_all_def and_then_eq_Ok dest: usb_write_loop_sends)

section \<open>Frames come out in order\<close>

text \<open>What draining the buffer means when there is no heap to run out of.\<close>

function split_frames :: "(frame \<Rightarrow> 's \<Rightarrow> 's outcome) \<Rightarrow> bytes \<Rightarrow> 's \<Rightarrow> (bytes \<times> 's) outcome" where
  "split_frames handle buf st =
     (if length buf < 5 then Ok (buf, st)
      else
        let plen = header_len buf in
        if plen > MAX_FRAME_LEN then Ok ([], st)
        else if length buf < 5 + plen then Ok (buf, st)
        else
          and_then (handle (new_frame (buf ! 0) (take plen (drop 5 buf))) st)
            (split_frames handle (drop (5 + plen) buf)))"
  by pat_completeness auto

termination
  by (relation "measure (\<lambda>(h, buf, st). length buf)") (auto simp: diff_less)

declare split_frames.simps [simp del]

lemma drain_part:
  assumes "small f" and "buf @ t = serialize f @ r" and "length buf < length (serialize f)"
  shows "split_frames handle buf st = Ok (buf, st)"
proof (cases "length buf < 5")
  case True
  then show ?thesis by (subst split_frames.simps) simp
next
  case False
  then have "header_len buf = length (payload f)"
    using header_len_take [of buf t] header_len_serialize [OF assms(1), of r] assms(2) by simp
  with assms False show ?thesis by (subst split_frames.simps) (simp add: small_def Let_def)
qed

lemma drain_whole:
  assumes "small f"
  shows "split_frames handle (serialize f @ tail) st = and_then (handle f st) (split_frames handle tail)"
proof -
  let ?buf = "serialize f @ tail"
  have "header_len ?buf = length (payload f)" using assms by (rule header_len_serialize)
  moreover have "?buf ! 0 = opcode f" "take (length (payload f)) (drop 5 ?buf) = payload f"
    by (simp_all add: serialize_split)
  moreover have "drop (length (serialize f)) ?buf = tail" by (simp del: length_serialize)
  then have "drop (5 + length (payload f)) ?buf = tail" by (simp only: length_serialize)
  moreover have "handle \<lparr>opcode = opcode f, payload = payload f\<rparr> st = handle f st" by (cases f) simp
  ultimately show ?thesis
    using assms by (subst split_frames.simps) (simp add: small_def new_frame_def Let_def del: drop_append take_append)
qed

text \<open>Handling every complete frame of the buffer leaves a proper beginning of the next.\<close>

lemma drain_frames:
  assumes "\<forall>f \<in> set fs. small f" and "buf @ t = concat (map serialize fs)"
  shows "\<exists>fs1 fs2 tail. fs = fs1 @ fs2 \<and> tail @ t = concat (map serialize fs2) \<and> length tail \<le> length buf
    \<and> (case fs2 of [] \<Rightarrow> tail = [] | f # _ \<Rightarrow> length tail < length (serialize f))
    \<and> split_frames handle buf st = and_then (handle_all handle fs1 st) (\<lambda>st. Ok (tail, st))"
  using assms
proof (induction fs arbitrary: buf st)
  case Nil
  then show ?case by (subst split_frames.simps) simp
next
  case (Cons f fs)
  have sm: "small f" using Cons.prems by simp
  show ?case
  proof (cases "length buf < length (serialize f)")
    case True
    with Cons.prems have "split_frames handle buf st = Ok (buf, st)"
      by (intro drain_part [OF sm, of _ t "concat (map serialize fs)"]) simp_all
    with True Cons.prems show ?thesis
      by (intro exI [of _ "[]"] exI [of _ "f # fs"] exI [of _ buf]) simp
  next
    case False
    define rest where "rest = drop (length (serialize f)) buf"
    have b: "buf = serialize f @ rest"
      unfolding rest_def by (rule prefix_split [of _ t _ "concat (map serialize fs)"])
        (use Cons.prems False in simp_all)
    have r: "rest @ t = concat (map serialize fs)" using Cons.prems(2) b by simp
    have len: "length rest \<le> length buf" by (simp add: rest_def)
    have all: "\<forall>g \<in> set fs. small g" using Cons.prems(1) by simp
    have step: "split_frames handle buf st = and_then (handle f st) (split_frames handle rest)"
      unfolding b by (rule drain_whole [OF sm])
    show ?thesis
    proof (cases "handle f st")
      case (Ok st1)
      obtain fs1 fs2 tail where i: "fs = fs1 @ fs2" "tail @ t = concat (map serialize fs2)" "length tail \<le> length rest"
        "case fs2 of [] \<Rightarrow> tail = [] | f # _ \<Rightarrow> length tail < length (serialize f)"
        "split_frames handle rest st1 = and_then (handle_all handle fs1 st1) (\<lambda>st. Ok (tail, st))"
        using Cons.IH [OF all r, of st1] by blast
      show ?thesis
        using i step Ok len by (intro exI [of _ "f # fs1"] exI [of _ fs2] exI [of _ tail]) simp
    next
      case Panic
      with Cons.IH [OF all r, of undefined] step len show ?thesis
        by (fastforce intro: exI [of _ "f # _"])
    next
      case Diverges
      with Cons.IH [OF all r, of undefined] step len show ?thesis
        by (fastforce intro: exI [of _ "f # _"])
    qed
  qed
qed

lemma and_then_return: "and_then (and_then m (\<lambda>x. Ok (g x))) f = and_then m (\<lambda>x. f (g x))"
  by (cases m) simp_all

text \<open>
  A handler on the heap does what a handler without one does, as long as what is out is below the
  room there is, and gives back what it took.
\<close>

definition handles_as ::
  "('p blocks \<Rightarrow> 'm \<Rightarrow> bool) \<Rightarrow> nat \<Rightarrow> (frame \<Rightarrow> 's \<times> 'm \<Rightarrow> ('s \<times> 'm) outcome) \<Rightarrow> (frame \<Rightarrow> 's \<Rightarrow> 's outcome) \<Rightarrow> bool" where
  "handles_as owns space handle h \<longleftrightarrow>
     (\<forall>f st B m. owns B m \<and> bytes_out B \<le> space \<longrightarrow>
        (case h f st of
           Ok st' \<Rightarrow> \<exists>m'. handle f (st, m) = Ok (st', m') \<and> owns B m'
         | Panic \<Rightarrow> handle f (st, m) = Panic
         | Diverges \<Rightarrow> handle f (st, m) = Diverges))"

text \<open>A vector with at most \<open>n\<close> bytes that is out alone, and a run that ends with one.\<close>

definition buffer_ok :: "('p blocks \<Rightarrow> 'm \<Rightarrow> bool) \<Rightarrow> nat \<Rightarrow> 'p byte_vec \<Rightarrow> 'm \<Rightarrow> bool" where
  "buffer_ok owns n v m \<longleftrightarrow> byte_vec_ok v \<and> bv_capacity v \<le> 2 * n \<and> owns (vec_blocks v) m"

definition runs_as ::
  "('p blocks \<Rightarrow> 'm \<Rightarrow> bool) \<Rightarrow> nat \<Rightarrow> ('p byte_vec \<times> 's \<times> 'm) outcome \<Rightarrow> (bytes \<times> 's) outcome \<Rightarrow> bool" where
  "runs_as owns n r a \<longleftrightarrow> (case a of
     Ok (buf, st) \<Rightarrow> \<exists>v m. r = Ok (v, st, m) \<and> bv_bytes v = buf \<and> buffer_ok owns n v m
   | Panic \<Rightarrow> r = Panic | Diverges \<Rightarrow> r = Diverges)"

lemma runs_as_simps [simp]:
  "runs_as owns n r (Ok (buf, st)) \<longleftrightarrow> (\<exists>v m. r = Ok (v, st, m) \<and> bv_bytes v = buf \<and> buffer_ok owns n v m)"
  "runs_as owns n r Panic \<longleftrightarrow> r = Panic" "runs_as owns n r Diverges \<longleftrightarrow> r = Diverges"
  by (simp_all add: runs_as_def)

lemma drain_refines:
  assumes "has_room hp space owns" and "handles_as owns space handle h" and "3 * n \<le> space"
    and "buffer_ok owns n v m" and "length (bv_bytes v) \<le> n"
  shows "runs_as owns n (pico_drain hp handle v (st, m)) (split_frames h (bv_bytes v) st)"
  using assms(4,5)
proof (induction "length (bv_bytes v)" arbitrary: v m st rule: less_induct)
  case less
  let ?buf = "bv_bytes v" and ?plen = "header_len (bv_bytes v)"
  let ?pl = "take ?plen (drop 5 ?buf)"
  let ?f = "new_frame (?buf ! 0) ?pl"
  let ?v = "v\<lparr>bv_bytes := drop (5 + ?plen) ?buf\<rparr>"
  show ?case
  proof (cases "length ?buf < 5 \<or> ?plen > MAX_FRAME_LEN \<or> length ?buf < 5 + ?plen")
    case True
    then show ?thesis using less.prems
      by (subst pico_drain.simps, subst split_frames.simps) (auto simp: Let_def buffer_ok_def byte_vec_ok_def)
  next
    case False
    have ok: "byte_vec_ok v" "bv_capacity v \<le> 2 * n" "owns (vec_blocks v) m"
      using less.prems(1) by (simp_all add: buffer_ok_def)
    have fit: "bytes_out (vec_blocks v) + length ?pl \<le> space"
      using ok(2) less.prems(2) assms(3) by simp
    obtain pv m1 where p: "to_vec hp ?pl m = Ok (pv, m1)" "bv_bytes pv = ?pl" "bv_capacity pv = length ?pl"
        "owns (vec_blocks v + vec_blocks pv) m1"
      using to_vec_served [OF assms(1) ok(3) fit] by blast
    have out: "bytes_out (vec_blocks v + vec_blocks pv) \<le> space" using fit p(3) by simp
    have "0 < length ?buf" using False by linarith
    then have shorter: "length (bv_bytes ?v) < length ?buf" by (simp del: length_greater_0_conv)
    have drain: "pico_drain hp handle v (st, m) = and_then (handle ?f (st, m1)) (\<lambda>(st, m).
        pico_drain hp handle ?v (st, drop_vec hp pv m))"
      using False p(1,2) by (subst pico_drain.simps) (simp add: Let_def)
    have split: "split_frames h ?buf st = and_then (h ?f st) (split_frames h (bv_bytes ?v))"
      using False by (subst split_frames.simps) (simp add: Let_def)
    have H: "case h ?f st of
           Ok st' \<Rightarrow> \<exists>m'. handle ?f (st, m1) = Ok (st', m') \<and> owns (vec_blocks v + vec_blocks pv) m'
         | Panic \<Rightarrow> handle ?f (st, m1) = Panic
         | Diverges \<Rightarrow> handle ?f (st, m1) = Diverges"
      using assms(2) p(4) out unfolding handles_as_def by blast
    show ?thesis
    proof (cases "h ?f st")
      case (Ok st1)
      then obtain m2 where m2: "handle ?f (st, m1) = Ok (st1, m2)" "owns (vec_blocks v + vec_blocks pv) m2"
        using H by auto
      have "owns (vec_blocks v) (drop_vec hp pv m2)" by (rule drop_vec_served [OF assms(1) m2(2)])
      then have "buffer_ok owns n ?v (drop_vec hp pv m2)"
        using ok by (simp add: buffer_ok_def byte_vec_ok_def)
      from less.hyps [OF shorter this, of st1] less.prems(2)
      show ?thesis unfolding drain split by (simp add: Ok m2(1))
    qed (use H in \<open>simp_all add: drain split\<close>)
  qed
qed

lemma room_for:
  assumes "3 * (length (payload f) + 69) \<le> space" and "space \<le> HEAP_SIZE"
  shows "small f" and "length (serialize f) + 64 \<le> space div 3"
  using assms by (simp_all add: small_def MAX_FRAME_LEN_def HEAP_SIZE_def)

lemma loop_frames:
  assumes "has_room hp space owns" and "handles_as owns space handle h" and "space \<le> HEAP_SIZE"
    and "\<forall>f \<in> set fs. 3 * (length (payload f) + 69) \<le> space"
    and "bv_bytes v @ delivered rs = concat (map serialize fs)"
    and "case fs of [] \<Rightarrow> bv_bytes v = [] | f # _ \<Rightarrow> length (bv_bytes v) < length (serialize f)"
    and "buffer_ok owns (space div 3) v (snd st)"
  shows "runs_as owns (space div 3) (pico_loop hp handle rs v st)
    (and_then (handle_all h fs (fst st)) (\<lambda>st. Ok ([], st)))"
  using assms(1,2,4-)
proof (induction hp handle rs v st arbitrary: fs rule: pico_loop.induct)
  case (1 hp handle v st)
  show ?case
  proof (cases fs)
    case Nil
    then show ?thesis using "1.prems" by (cases st) simp
  next
    case (Cons f gs)
    with "1.prems" have "length (serialize f) \<le> length (bv_bytes v)" by simp
    with "1.prems" Cons show ?thesis by simp
  qed
next
  case (2 hp handle rs v st)
  from "2.IH" [OF "2.prems"(1,2,3)] "2.prems"(4-) show ?case by simp
next
  case (3 hp handle c rs v st)
  show ?case
  proof (cases "c = []")
    case True
    with "3.IH"(1) [OF True "3.prems"(1,2,3)] "3.prems"(4-) show ?thesis by simp
  next
    case False
    let ?n = "space div 3"
    let ?rs = "if length c \<le> 64 then rs else Data (drop 64 c) # rs"
    let ?buf = "bv_bytes v @ take 64 c"
    have d: "take 64 c @ delivered ?rs = c @ delivered rs" by simp
    have "bv_bytes v @ take 64 c @ delivered ?rs = concat (map serialize fs)"
      using "3.prems"(4) unfolding d by simp
    then have eq: "?buf @ delivered ?rs = concat (map serialize fs)" by (simp only: append_assoc)
    have "fs \<noteq> []" using "3.prems"(4) False by (cases fs) simp_all
    then obtain f gs where f: "fs = f # gs" by (cases fs) auto
    have "3 * (length (payload f) + 69) \<le> space" using "3.prems"(3) f by simp
    then have "length (serialize f) + 64 \<le> ?n" by (rule room_for(2) [OF _ assms(3)])
    then have n: "length ?buf \<le> ?n" "8 \<le> ?n" using "3.prems"(5) f by simp_all
    have sp: "3 * ?n \<le> space" by simp
    have lim: "space \<le> isize_max rp2040_release"
      using assms(3) by (simp add: isize_max_def rp2040_release_def HEAP_SIZE_def)
    have ok: "byte_vec_ok v" "bv_capacity v \<le> 2 * ?n" "owns (vec_blocks v) (snd st)"
      using "3.prems"(6) by (simp_all add: buffer_ok_def)
    have len: "length (bv_bytes v) + length (take 64 c) \<le> ?n" using n(1) by simp
    obtain v1 m1 where x: "extend_from_slice rp2040_release hp (take 64 c) v (snd st) = Ok (v1, m1)"
        "bv_bytes v1 = ?buf" "byte_vec_ok v1" "bv_capacity v1 \<le> 2 * ?n" "owns (vec_blocks v1) m1"
      using extend_served [OF "3.prems"(1) ok(3,1,2) len sp n(2) lim] by blast
    have b1: "buffer_ok owns ?n v1 m1" using x(3-5) by (simp add: buffer_ok_def)
    have D: "runs_as owns ?n (pico_drain hp handle v1 (fst st, m1)) (split_frames h ?buf (fst st))"
      using drain_refines [OF "3.prems"(1) "3.prems"(2) sp b1] n(1) x(2) by simp
    have all: "\<forall>f \<in> set fs. small f" using "3.prems"(3) room_for(1) [OF _ assms(3)] by blast
    obtain fs1 fs2 tail where i: "fs = fs1 @ fs2" "tail @ delivered ?rs = concat (map serialize fs2)"
      "case fs2 of [] \<Rightarrow> tail = [] | f # _ \<Rightarrow> length tail < length (serialize f)"
      "split_frames h ?buf (fst st) = and_then (handle_all h fs1 (fst st)) (\<lambda>st. Ok (tail, st))"
      using drain_frames [OF all eq, of h "fst st"] by blast
    have loop: "pico_loop hp handle (Data c # rs) v st =
        and_then (pico_drain hp handle v1 (fst st, m1)) (\<lambda>(v, st). pico_loop hp handle ?rs v st)"
      using False x(1) by simp
    have fs: "and_then (handle_all h fs (fst st)) (\<lambda>st. Ok ([], st)) =
        and_then (handle_all h fs1 (fst st)) (\<lambda>st. and_then (handle_all h fs2 st) (\<lambda>st. Ok ([], st)))"
      unfolding i(1) handle_all_append by (cases "handle_all h fs1 (fst st)") simp_all
    show ?thesis
    proof (cases "handle_all h fs1 (fst st)")
      case (Ok st1)
      with D i(4) obtain v2 m2 where v2: "pico_drain hp handle v1 (fst st, m1) = Ok (v2, st1, m2)"
          "bv_bytes v2 = tail" "buffer_ok owns ?n v2 m2"
        by auto
      have "runs_as owns ?n (pico_loop hp handle ?rs v2 (st1, m2))
          (and_then (handle_all h fs2 (fst (st1, m2))) (\<lambda>st. Ok ([], st)))"
      proof (rule "3.IH"(2) [OF False x(1) refl v2(1) refl "3.prems"(1,2)])
        show "\<forall>f \<in> set fs2. 3 * (length (payload f) + 69) \<le> space" using "3.prems"(3) i(1) by simp
        show "case fs2 of [] \<Rightarrow> bv_bytes v2 = [] | f # _ \<Rightarrow> length (bv_bytes v2) < length (serialize f)"
          unfolding v2(2) by (rule i(3))
        show "bv_bytes v2 @ delivered ?rs = concat (map serialize fs2)" unfolding v2(2) by (rule i(2))
      qed (use v2(3) in simp)
      then show ?thesis unfolding loop fs by (simp add: Ok v2(1))
    next
      case Panic
      then show ?thesis using D i(4) unfolding loop fs by simp
    next
      case Diverges
      then show ?thesis using D i(4) unfolding loop fs by simp
    qed
  qed
qed

section \<open>Properties\<close>

text \<open>
  C39: the Pico handles exactly the frames a host sends, unchanged and in order, however USB
  cuts them into packets and whatever empty and failed reads come between. The frame buffer doubles
  as it grows and each payload is copied out of it while it is still there: what the loop needs
  of the heap is three times the largest frame with the packet after it, and with an allocator that has this
  room, and a handler that gets by with the rest, it never runs out.
\<close>
theorem pico_handles_frames_in_order:
  assumes "has_room hp space owns" and "owns {#} m" and "space \<le> HEAP_SIZE"
    and "handles_as owns space handle h"
    and "\<forall>f \<in> set fs. 3 * (length (payload f) + 69) \<le> space"
    and "delivered rs = concat (map serialize fs)"
  shows "and_then (pico_loop hp handle rs byte_vec_new (st, m)) (\<lambda>(v, st, m). Ok (bv_bytes v, st))
    = and_then (handle_all h fs st) (\<lambda>st. Ok ([], st))"
proof -
  have "runs_as owns (space div 3) (pico_loop hp handle rs byte_vec_new (st, m))
      (and_then (handle_all h fs (fst (st, m))) (\<lambda>st. Ok ([], st)))"
    by (rule loop_frames [OF assms(1,4,3,5)])
      (use assms(2,6) in \<open>simp_all add: buffer_ok_def split: list.split\<close>)
  then show ?thesis by (cases "handle_all h fs st") auto
qed

text \<open>A heap that counts what is out, and a handler that collects the frames.\<close>

definition counting_heap :: "(nat, nat) heap_ops" where
  "counting_heap = \<lparr>
     hp_alloc = (\<lambda>n out. if out + n \<le> HEAP_SIZE then Some (out, out + n) else None),
     hp_realloc = (\<lambda>p old n out. if out + n \<le> HEAP_SIZE then Some (out, out + n - old) else None),
     hp_dealloc = (\<lambda>p n out. out - n)\<rparr>"

definition counted :: "nat blocks \<Rightarrow> nat \<Rightarrow> bool" where
  "counted B out \<longleftrightarrow> bytes_out B = out"

definition collect_frames :: "frame \<Rightarrow> frame list \<Rightarrow> frame list outcome" where
  "collect_frames f seen = Ok (seen @ [f])"

lemma counting_heap_has_room: "has_room counting_heap HEAP_SIZE counted"
  unfolding has_room_def by (simp add: counting_heap_def counted_def)

theorem pico_handles_frames_in_order_witness:
  "and_then (pico_loop counting_heap (with_heap (\<lambda>_ _. Ok) collect_frames)
       [Data [1, 0], ReadFailed, Data [0, 0, 0, 6, 0, 0], Data [], Data [0, 1, 7]] byte_vec_new ([], 0))
       (\<lambda>(v, st, m). Ok (bv_bytes v, st))
     = Ok ([], [\<lparr>opcode = 1, payload = []\<rparr>, \<lparr>opcode = 6, payload = [7]\<rparr>])"
proof -
  let ?fs = "[\<lparr>opcode = 1, payload = []\<rparr>, \<lparr>opcode = 6, payload = [7]\<rparr>]"
  let ?rs = "[Data [1, 0], ReadFailed, Data [0, 0, 0, 6, 0, 0], Data [], Data [0, 1, 7]]"
  have "and_then (pico_loop counting_heap (with_heap (\<lambda>_ _. Ok) collect_frames) ?rs byte_vec_new ([], 0))
       (\<lambda>(v, st, m). Ok (bv_bytes v, st)) = and_then (handle_all collect_frames ?fs []) (\<lambda>st. Ok ([], st))"
  proof (rule pico_handles_frames_in_order [OF counting_heap_has_room _ order_refl])
    show "counted {#} 0" by (simp add: counted_def)
    show "handles_as counted HEAP_SIZE (with_heap (\<lambda>_ _. Ok) collect_frames) collect_frames"
      by (simp add: handles_as_def with_heap_def collect_frames_def)
    show "\<forall>f \<in> set ?fs. 3 * (length (payload f) + 69) \<le> HEAP_SIZE" by (simp add: HEAP_SIZE_def)
    show "delivered ?rs = concat (map serialize ?fs)" by (simp add: serialize_def to_be_bytes_def)
  qed
  then show ?thesis by (simp add: collect_frames_def del: pico_loop.simps)
qed

text \<open>
  The bound on a frame, 512 KB, is above the Pico's heap of 150 KB: a frame between the two is
  not refused, it panics the board while its bytes arrive.
\<close>

lemma loop_large:
  assumes "header_len h = plen" and "length h = 5" and "plen \<le> MAX_FRAME_LEN"
    and "length p < plen" and "HEAP_SIZE < 5 + length p" and "at_most hp HEAP_SIZE"
    and "bv_bytes v @ delivered rs = h @ p" and "byte_vec_ok v" and "bv_capacity v \<le> HEAP_SIZE"
  shows "pico_loop hp handle rs v st = Panic"
  using assms(6-9)
proof (induction hp handle rs v st rule: pico_loop.induct)
  case (1 hp handle v st)
  then have "length (bv_bytes v) = 5 + length p" using assms(2) by simp
  with 1 assms(5) show ?case by (simp add: byte_vec_ok_def)
next
  case (2 hp handle rs v st)
  then show ?case by simp
next
  case (3 hp handle c rs v st)
  show ?case
  proof (cases "c = []")
    case True
    with 3 show ?thesis by simp
  next
    case False
    let ?rs = "if length c \<le> 64 then rs else Data (drop 64 c) # rs"
    let ?buf = "bv_bytes v @ take 64 c"
    show ?thesis
    proof (cases "extend_from_slice rp2040_release hp (take 64 c) v (snd st)")
      case (Ok y)
      obtain v1 m1 where y: "y = (v1, m1)" by (cases y)
      note E = extend_bounded [OF "3.prems"(1,3,4) Ok [unfolded y]]
      have d: "take 64 c @ delivered ?rs = c @ delivered rs" by simp
      have "bv_bytes v @ take 64 c @ delivered ?rs = h @ p" using "3.prems"(2) unfolding d by simp
      then have eq: "?buf @ delivered ?rs = h @ p" by (simp only: append_assoc)
      have drain: "pico_drain hp handle v1 (fst st, m1) = Ok (v1, fst st, m1)"
      proof (cases "length ?buf < 5")
        case True
        then show ?thesis using E by (subst pico_drain.simps) (simp add: Let_def del: length_append)
      next
        case False
        have "header_len ?buf = header_len (?buf @ delivered ?rs)" using False by (intro header_len_take [symmetric]) simp
        also have "\<dots> = plen" unfolding eq using assms(1,2) header_len_take [of h p] by simp
        finally have "header_len (bv_bytes v1) = plen" using E by simp
        moreover have "length (?buf @ delivered ?rs) = 5 + length p" unfolding eq using assms(2) by simp
        then have "length (bv_bytes v1) < 5 + plen" using assms(4) E by simp
        ultimately show ?thesis using False assms(3) E by (subst pico_drain.simps) (simp add: Let_def)
      qed
      have "pico_loop hp handle ?rs v1 (fst st, m1) = Panic"
        by (rule "3.IH"(2) [OF False Ok y [symmetric] drain refl "3.prems"(1)]) (use E eq in simp_all)
      with drain Ok y False show ?thesis by simp
    qed (simp_all add: False extend_returns)
  qed
qed

text \<open>
  On the Pico a frame that passes the 512 KB bound but not the 150 KB heap panics the
  board: its header is accepted, and its bytes are collected until they do not fit any more.
\<close>
theorem pico_large_frame_panics:
  assumes "unat (from_be_bytes a b c d) \<le> MAX_FRAME_LEN" and "length p < unat (from_be_bytes a b c d)"
    and "HEAP_SIZE < 5 + length p" and "delivered rs = [op, a, b, c, d] @ p" and "at_most hp HEAP_SIZE"
  shows "pico_loop hp handle rs byte_vec_new st = Panic"
  by (rule loop_large [of "[op, a, b, c, d]" "unat (from_be_bytes a b c d)" p])
    (use assms in \<open>simp_all add: header_len_bytes\<close>)

theorem pico_large_frame_panics_witness:
  "pico_loop counting_heap (with_heap (\<lambda>_ _. Ok) collect_frames)
     [Data ([2, 0, 3, 0, 0] @ replicate 153600 0)] byte_vec_new ([], 0) = Panic"
proof (rule pico_large_frame_panics [of 0 3 0 0 "replicate 153600 0" _ 2])
  show "unat (from_be_bytes 0 3 0 0) \<le> MAX_FRAME_LEN" by (simp add: unat_from_be_bytes MAX_FRAME_LEN_def)
  show "length (replicate 153600 (0 :: u8)) < unat (from_be_bytes 0 3 0 0)" by ((simp only: length_replicate unat_from_be_bytes); simp)
  show "HEAP_SIZE < 5 + length (replicate 153600 (0 :: u8))" by ((simp only: length_replicate HEAP_SIZE_def); simp)
  show "delivered [Data ([2, 0, 3, 0, 0] @ replicate 153600 0)] = [2, 0, 3, 0, 0] @ replicate 153600 0"
    by (simp only: delivered_simps append_Nil2)
  show "at_most counting_heap HEAP_SIZE" by (simp add: at_most_def counting_heap_def)
qed

text \<open>An oversized header clears the buffer, with whatever came after it in the same packets.\<close>

lemma pico_resynchronises:
  assumes "unat (from_be_bytes a b c d) > MAX_FRAME_LEN" and "bv_bytes v = [op, a, b, c, d] @ rest"
  shows "pico_drain hp handle v (st, m) = Ok (v\<lparr>bv_bytes := []\<rparr>, st, m)"
  using header_len_take [of "[op, a, b, c, d]" rest] assms
  by (subst pico_drain.simps) (simp add: header_len_bytes Let_def)

text \<open>
  The Pico has no signature gate: the signed opcodes are refused as unexpected, and an
  unsigned module that passes the import check runs, whatever keys there are.
\<close>
theorem pico_runs_unsigned:
  "pico_frame cb ctx run \<lparr>opcode = OP_SIGNED_PUSH, payload = wasm\<rparr> st
      = pico_reply OP_EXEC_RESULT ''{\"error\":\"unexpected opcode 0x0a\"}'' st
   \<and> pico_frame cb ctx run \<lparr>opcode = OP_BYTECODE_PUSH, payload = empty_module\<rparr> st
      = pico_run cb ctx run empty_module st"
proof -
  have "unexpected_opcode_json OP_SIGNED_PUSH = ''{\"error\":\"unexpected opcode 0x0a\"}''" by code_simp
  moreover have "OP_SIGNED_PUSH \<noteq> OP_DISCOVERY" "OP_SIGNED_PUSH \<noteq> OP_BYTECODE_PUSH" "OP_BYTECODE_PUSH \<noteq> OP_DISCOVERY"
    by (simp_all add: opcode_defs)
  ultimately show ?thesis by (simp add: pico_frame_def empty_module_valid)
qed

end
