(* ===== verification/Threaded.thy ===== *)
theory Threaded
  imports Executor
begin

text \<open>
  The threaded executor \<open>receiver/src/engine/executor_threaded.rs\<close>. A worker thread is a join handle:
  what its run will come to, and whether it has come to it yet. The worker's progress is a
  step of the environment. The start and stop hooks act on a world outside the executor.
  The abstract specification runs the submitted modules one after the other.
\<close>

section \<open>State and operations\<close>

record 'h join_handle =
  jh_run :: "('h \<times> exec_result) outcome"
  jh_finished :: bool

record ('h, 'w) threaded =
  th_hardware :: "'h option"
  th_fuel :: "u64 option"
  th_status :: exec_status
  th_handle :: "'h join_handle option"
  th_results :: "exec_result list"
  th_stop_hook :: "('w \<Rightarrow> 'w) option"
  th_start_hook :: "('w \<Rightarrow> 'w) option"
  th_world :: 'w

definition new_threaded ::
  "'h \<Rightarrow> u64 option \<Rightarrow> ('w \<Rightarrow> 'w) option \<Rightarrow> ('w \<Rightarrow> 'w) option \<Rightarrow> 'w \<Rightarrow> ('h, 'w) threaded" where
  "new_threaded hw fuel_opt stop_hook start_hook w =
     \<lparr>th_hardware = Some hw, th_fuel = fuel_opt, th_status = Idle, th_handle = None,
      th_results = [], th_stop_hook = stop_hook, th_start_hook = start_hook, th_world = w\<rparr>"

definition call_hook :: "('w \<Rightarrow> 'w) option \<Rightarrow> ('h, 'w) threaded \<Rightarrow> ('h, 'w) threaded" where
  "call_hook hook e = (case hook of Some f \<Rightarrow> e\<lparr>th_world := f (th_world e)\<rparr> | None \<Rightarrow> e)"

text \<open>\<open>join\<close> waits for the worker: it does not return when the worker does not.\<close>

definition th_reap :: "('h, 'w) threaded \<Rightarrow> ('h, 'w) threaded outcome" where
  "th_reap e = (case th_handle e of
     None \<Rightarrow> Ok e
   | Some handle \<Rightarrow>
       let e = e\<lparr>th_handle := None\<rparr>;
           done = (\<lambda>e. Ok (if th_status e \<noteq> Stopped then e\<lparr>th_status := Completed\<rparr> else e))
       in case jh_run handle of
            Ok (hw, result) \<Rightarrow> done (e\<lparr>th_hardware := Some hw, th_results := th_results e @ [result]\<rparr>)
          | Panic \<Rightarrow> done (e\<lparr>th_results := th_results e @ [failure ''executor thread panicked'']\<rparr>)
          | Diverges \<Rightarrow> Diverges)"

definition th_submit :: "'h run \<Rightarrow> bytes \<Rightarrow> ('h, 'w) threaded \<Rightarrow> ('h, 'w) threaded outcome" where
  "th_submit run bytecode e =
     and_then (if th_handle e \<noteq> None then th_reap (call_hook (th_stop_hook e) e) else Ok e) (\<lambda>e.
       case th_hardware e of
         None \<Rightarrow> Ok (e\<lparr>th_results := th_results e @ [failure ''no hardware available''], th_status := Completed\<rparr>)
       | Some hw \<Rightarrow>
           let e = call_hook (th_start_hook e) (e\<lparr>th_hardware := None\<rparr>) in
           Ok (e\<lparr>th_status := Running,
                 th_handle := Some \<lparr>jh_run = run (th_fuel e) bytecode hw, jh_finished = False\<rparr>\<rparr>))"

definition th_poll_result :: "('h, 'w) threaded \<Rightarrow> (exec_result option \<times> ('h, 'w) threaded) outcome" where
  "th_poll_result e =
     and_then (case th_handle e of
                 Some handle \<Rightarrow> (if jh_finished handle then th_reap e else Ok e)
               | None \<Rightarrow> Ok e) (\<lambda>e.
       if th_handle e = None then
         (case th_results e of
            result # rest \<Rightarrow> Ok (Some result, e\<lparr>th_results := rest, th_status := Idle\<rparr>)
          | [] \<Rightarrow> Ok (None, e))
       else Ok (None, e))"

definition th_is_running :: "('h, 'w) threaded \<Rightarrow> bool" where
  "th_is_running e = (case th_handle e of Some h \<Rightarrow> \<not> jh_finished h | None \<Rightarrow> False)"

definition th_stop :: "('h, 'w) threaded \<Rightarrow> ('h, 'w) threaded" where
  "th_stop e = (call_hook (th_stop_hook e) e)\<lparr>th_status := Stopped\<rparr>"

definition th_query_status :: "('h, 'w) threaded \<Rightarrow> exec_status" where
  "th_query_status e = (if th_is_running e then Running else th_status e)"

definition th_take_hardware :: "('h, 'w) threaded \<Rightarrow> ('h option \<times> ('h, 'w) threaded) outcome" where
  "th_take_hardware e =
     and_then (if th_handle e \<noteq> None then th_reap (call_hook (th_stop_hook e) e) else Ok e) (\<lambda>e.
       Ok (th_hardware e, e\<lparr>th_hardware := None\<rparr>))"

definition th_give_hardware :: "'h \<Rightarrow> ('h, 'w) threaded \<Rightarrow> ('h, 'w) threaded" where
  "th_give_hardware hw e = e\<lparr>th_hardware := Some hw\<rparr>"

definition threaded_executor :: "(('h, 'w) threaded, 'h) executor" where
  "threaded_executor = \<lparr>
     ex_submit = th_submit,
     ex_poll_result = th_poll_result,
     ex_is_running = th_is_running,
     ex_stop = th_stop,
     ex_status = th_query_status,
     ex_take_hardware = th_take_hardware,
     ex_give_hardware = th_give_hardware\<rparr>"

text \<open>The worker comes to its end; one that does not return never finishes.\<close>

definition worker_finishes :: "('h, 'w) threaded \<Rightarrow> ('h, 'w) threaded \<Rightarrow> bool" where
  "worker_finishes e e' \<longleftrightarrow> (\<exists>h. th_handle e = Some h \<and> jh_run h \<noteq> Diverges
     \<and> e' = e\<lparr>th_handle := Some (h\<lparr>jh_finished := True\<rparr>)\<rparr>)"

lemma call_hook_fields [simp]:
  "th_hardware (call_hook hk e) = th_hardware e" "th_fuel (call_hook hk e) = th_fuel e"
  "th_status (call_hook hk e) = th_status e" "th_handle (call_hook hk e) = th_handle e"
  "th_results (call_hook hk e) = th_results e" "th_stop_hook (call_hook hk e) = th_stop_hook e"
  "th_start_hook (call_hook hk e) = th_start_hook e"
  by (simp_all add: call_hook_def split: option.split)

section \<open>The specification: one module after the other\<close>

text \<open>
  What each submission comes to when the modules run in sequence on the hardware the previous
  one left: a panic loses the hardware for good, a run that does not return gives no result.
\<close>

definition seq_run :: "u64 option \<Rightarrow> 'h run \<times> bytes \<Rightarrow> 'h option \<Rightarrow> exec_result list \<times> 'h option" where
  "seq_run fuel_opt m hw = (case hw of
     None \<Rightarrow> ([failure ''no hardware available''], None)
   | Some h \<Rightarrow>
       (case fst m fuel_opt (snd m) h of
          Ok (h', r) \<Rightarrow> ([r], Some h')
        | Panic \<Rightarrow> ([failure ''executor thread panicked''], None)
        | Diverges \<Rightarrow> ([], None)))"

fun seq_runs :: "u64 option \<Rightarrow> ('h run \<times> bytes) list \<Rightarrow> 'h option \<Rightarrow> exec_result list \<times> 'h option" where
  "seq_runs fuel_opt [] hw = ([], hw)"
| "seq_runs fuel_opt (m # ms) hw =
     (let (r, hw) = seq_run fuel_opt m hw; (rs, hw) = seq_runs fuel_opt ms hw in (r @ rs, hw))"

lemma seq_runs_snoc:
  "seq_runs f (ms @ [m]) hw =
     (let (rs, hw) = seq_runs f ms hw; (r, hw) = seq_run f m hw in (rs @ r, hw))"
  by (induction ms arbitrary: hw) (auto simp: Let_def split: prod.split)

section \<open>Traces\<close>

text \<open>
  The states an executor can reach from its creation, with the modules submitted and the
  results the main loop has got so far.
\<close>

inductive reach ::
  "('h, 'w) threaded \<Rightarrow> ('h run \<times> bytes) list \<Rightarrow> exec_result list \<Rightarrow> ('h, 'w) threaded \<Rightarrow> bool"
  for e0 where
  start: "reach e0 [] [] e0"
| submit: "reach e0 ms rs e \<Longrightarrow> th_submit run wasm e = Ok e' \<Longrightarrow> reach e0 (ms @ [(run, wasm)]) rs e'"
| poll: "reach e0 ms rs e \<Longrightarrow> th_poll_result e = Ok (r, e') \<Longrightarrow>
         reach e0 ms (rs @ (case r of Some x \<Rightarrow> [x] | None \<Rightarrow> [])) e'"
| stop: "reach e0 ms rs e \<Longrightarrow> reach e0 ms rs (th_stop e)"
| finish: "reach e0 ms rs e \<Longrightarrow> worker_finishes e e' \<Longrightarrow> reach e0 ms rs e'"

text \<open>What the running worker will add to the results and leave of the hardware.\<close>

definition pending :: "('h, 'w) threaded \<Rightarrow> exec_result list" where
  "pending e = (case th_handle e of
     None \<Rightarrow> []
   | Some h \<Rightarrow> (case jh_run h of Ok (hw, r) \<Rightarrow> [r] | Panic \<Rightarrow> [failure ''executor thread panicked''] | Diverges \<Rightarrow> []))"

definition eventual_hardware :: "('h, 'w) threaded \<Rightarrow> 'h option" where
  "eventual_hardware e = (case th_handle e of
     None \<Rightarrow> th_hardware e
   | Some h \<Rightarrow> (case jh_run h of Ok (hw, r) \<Rightarrow> Some hw | _ \<Rightarrow> None))"

definition exclusive :: "('h, 'w) threaded \<Rightarrow> bool" where
  "exclusive e \<longleftrightarrow> (th_handle e \<noteq> None \<longrightarrow> th_hardware e = None)
     \<and> (\<forall>h. th_handle e = Some h \<longrightarrow> jh_finished h \<longrightarrow> jh_run h \<noteq> Diverges)"

definition simulates ::
  "u64 option \<Rightarrow> 'h option \<Rightarrow> ('h run \<times> bytes) list \<Rightarrow> exec_result list \<Rightarrow> ('h, 'w) threaded \<Rightarrow> bool" where
  "simulates f hw0 ms rs e \<longleftrightarrow> exclusive e \<and> th_fuel e = f
     \<and> seq_runs f ms hw0 = (rs @ th_results e @ pending e, eventual_hardware e)"

lemma th_reap_Ok:
  assumes "th_reap e = Ok e'" and "exclusive e"
  shows "th_handle e' = None \<and> exclusive e' \<and> th_fuel e' = th_fuel e
    \<and> th_results e' = th_results e @ pending e \<and> th_hardware e' = eventual_hardware e"
  using assms
  by (auto simp: th_reap_def pending_def eventual_hardware_def exclusive_def Let_def
      split: option.splits outcome.splits if_splits)

lemma th_submit_Ok:
  assumes "th_submit run wasm e = Ok e'"
  obtains e1 where
    "(if th_handle e \<noteq> None then th_reap (call_hook (th_stop_hook e) e) else Ok e) = Ok e1"
    "(case th_hardware e1 of
         None \<Rightarrow> Ok (e1\<lparr>th_results := th_results e1 @ [failure ''no hardware available''], th_status := Completed\<rparr>)
       | Some hw \<Rightarrow>
           let e = call_hook (th_start_hook e1) (e1\<lparr>th_hardware := None\<rparr>) in
           Ok (e\<lparr>th_status := Running,
                 th_handle := Some \<lparr>jh_run = run (th_fuel e) wasm hw, jh_finished = False\<rparr>\<rparr>)) = Ok e'"
  using assms by (auto simp: th_submit_def and_then_eq_Ok)

lemma th_poll_Ok:
  assumes "th_poll_result e = Ok (r, e')"
  obtains e1 where
    "(case th_handle e of Some handle \<Rightarrow> (if jh_finished handle then th_reap e else Ok e) | None \<Rightarrow> Ok e) = Ok e1"
    "(if th_handle e1 = None then
         (case th_results e1 of
            result # rest \<Rightarrow> Ok (Some result, e1\<lparr>th_results := rest, th_status := Idle\<rparr>)
          | [] \<Rightarrow> Ok (None, e1))
       else Ok (None, e1)) = Ok (r, e')"
  using assms by (auto simp: th_poll_result_def and_then_eq_Ok)

lemma reap_simulates:
  assumes "simulates f hw0 ms rs e" and "th_reap e = Ok e'"
  shows "simulates f hw0 ms rs e' \<and> th_handle e' = None"
  using th_reap_Ok [OF assms(2)] assms(1)
  by (auto simp: simulates_def pending_def eventual_hardware_def)

lemma hook_simulates [simp]: "simulates f hw0 ms rs (call_hook hk e) = simulates f hw0 ms rs e"
  by (cases "th_handle e") (simp_all add: simulates_def exclusive_def pending_def eventual_hardware_def)

lemma submit_simulates:
  assumes "simulates f hw0 ms rs e" and "th_submit run wasm e = Ok e'"
  shows "simulates f hw0 (ms @ [(run, wasm)]) rs e'"
proof -
  obtain e1 where e1: "(if th_handle e \<noteq> None then th_reap (call_hook (th_stop_hook e) e) else Ok e) = Ok e1"
    and e': "(case th_hardware e1 of
         None \<Rightarrow> Ok (e1\<lparr>th_results := th_results e1 @ [failure ''no hardware available''], th_status := Completed\<rparr>)
       | Some hw \<Rightarrow>
           let e = call_hook (th_start_hook e1) (e1\<lparr>th_hardware := None\<rparr>) in
           Ok (e\<lparr>th_status := Running,
                 th_handle := Some \<lparr>jh_run = run (th_fuel e) wasm hw, jh_finished = False\<rparr>\<rparr>)) = Ok e'"
    using assms(2) by (rule th_submit_Ok)
  have s: "simulates f hw0 ms rs e1" "th_handle e1 = None"
    using e1 assms(1) reap_simulates [of f hw0 ms rs "call_hook (th_stop_hook e) e" e1]
    by (auto split: if_splits)
  show ?thesis
    using s e'
    by (auto simp: simulates_def seq_runs_snoc seq_run_def exclusive_def pending_def
        eventual_hardware_def Let_def split: option.splits outcome.splits)
qed

lemma poll_simulates:
  assumes "simulates f hw0 ms rs e" and "th_poll_result e = Ok (r, e')"
  shows "simulates f hw0 ms (rs @ (case r of Some x \<Rightarrow> [x] | None \<Rightarrow> [])) e'"
proof -
  obtain e1 where e1: "(case th_handle e of
        Some handle \<Rightarrow> (if jh_finished handle then th_reap e else Ok e) | None \<Rightarrow> Ok e) = Ok e1"
    and r: "(if th_handle e1 = None then
         (case th_results e1 of
            result # rest \<Rightarrow> Ok (Some result, e1\<lparr>th_results := rest, th_status := Idle\<rparr>)
          | [] \<Rightarrow> Ok (None, e1))
       else Ok (None, e1)) = Ok (r, e')"
    using assms(2) by (rule th_poll_Ok)
  have "simulates f hw0 ms rs e1"
    using e1 assms(1) reap_simulates [of f hw0 ms rs e e1] by (auto split: if_splits option.splits)
  then show ?thesis
    using r by (auto simp: simulates_def exclusive_def pending_def eventual_hardware_def
        split: if_splits list.splits)
qed

lemma stop_simulates: "simulates f hw0 ms rs e \<Longrightarrow> simulates f hw0 ms rs (th_stop e)"
  by (cases "th_handle e") (auto simp: th_stop_def simulates_def exclusive_def pending_def eventual_hardware_def)

lemma finish_simulates: "simulates f hw0 ms rs e \<Longrightarrow> worker_finishes e e' \<Longrightarrow> simulates f hw0 ms rs e'"
  by (auto simp: worker_finishes_def simulates_def exclusive_def pending_def eventual_hardware_def)

lemma reach_simulates:
  assumes "reach e0 ms rs e" and "e0 = new_threaded hw f stop_hook start_hook w"
  shows "simulates f (Some hw) ms rs e"
  using assms
proof induction
  case start
  then show ?case
    by (simp add: simulates_def new_threaded_def exclusive_def pending_def eventual_hardware_def)
qed (blast intro: submit_simulates poll_simulates stop_simulates finish_simulates)+

section \<open>Properties\<close>

text \<open>
  C2: the threaded executor gives the main loop the results of its submissions in the order
  they were made, none lost, none twice, and each the result of running that module on the
  hardware the previous one left: at every moment what has been delivered is a beginning of
  the sequential results, and what is left is in the queue when no worker holds the rest.
\<close>
theorem threaded_refines_sequential:
  assumes "reach (new_threaded hw f stop_hook start_hook w) ms rs e"
  shows "\<exists>rest. fst (seq_runs f ms (Some hw)) = rs @ rest
    \<and> (th_handle e = None \<longrightarrow> rest = th_results e \<and> snd (seq_runs f ms (Some hw)) = th_hardware e)"
proof -
  have "seq_runs f ms (Some hw) = (rs @ th_results e @ pending e, eventual_hardware e)"
    using reach_simulates [OF assms refl] by (simp add: simulates_def)
  then show ?thesis by (auto simp: pending_def eventual_hardware_def)
qed

text \<open>A run of two modules where the second is swapped in while the first still works.\<close>

definition count_run :: "nat run" where
  "count_run f wasm h = Ok (h + length wasm, \<lparr>er_ok = True, er_logs = [dec h], er_error = None\<rparr>)"

theorem threaded_refines_sequential_witness:
  "\<exists>e rest. reach (new_threaded (5 :: nat) None None None ()) [(count_run, [0, 0]), (count_run, [0])] [] e
    \<and> fst (seq_runs None [(count_run, [0, 0]), (count_run, [0])] (Some 5)) = rest"
proof -
  let ?e0 = "new_threaded (5 :: nat) None None None ()"
  obtain e1 where e1: "th_submit count_run [0, 0] ?e0 = Ok e1"
    by (simp add: th_submit_def new_threaded_def Let_def)
  then obtain e2 where e2: "th_submit count_run [0] e1 = Ok e2"
    by (auto simp: th_submit_def new_threaded_def call_hook_def th_reap_def count_run_def Let_def)
  have "reach ?e0 ([] @ [(count_run, [0, 0])]) [] e1" by (rule reach.submit [OF reach.start e1])
  from reach.submit [OF this e2]
  have r: "reach ?e0 [(count_run, [0, 0]), (count_run, [0])] [] e2" by simp
  from threaded_refines_sequential [OF r] r show ?thesis by auto
qed

lemma simulates_poll_idle:
  assumes "simulates f hw0 ms rs e" and "\<not> th_is_running e"
  shows "\<exists>e'. (case th_results e @ pending e of
       [] \<Rightarrow> th_poll_result e = Ok (None, e') \<and> th_results e' = []
     | r # rest \<Rightarrow> th_poll_result e = Ok (Some r, e') \<and> th_results e' = rest) \<and> th_handle e' = None"
proof (cases "th_handle e")
  case None
  then show ?thesis
    by (cases "th_results e") (simp_all add: th_poll_result_def pending_def)
next
  case (Some h)
  then have fin: "jh_finished h" using assms(2) by (simp add: th_is_running_def)
  with Some assms(1) have "jh_run h \<noteq> Diverges" by (simp add: simulates_def exclusive_def)
  then obtain e1 where e1: "th_reap e = Ok e1"
    using Some by (cases "jh_run h") (auto simp: th_reap_def Let_def)
  have "th_handle e1 = None" "th_results e1 = th_results e @ pending e"
    using th_reap_Ok [OF e1] assms(1) by (auto simp: simulates_def)
  then show ?thesis
    using Some fin e1 by (cases "th_results e @ pending e") (simp_all add: th_poll_result_def)
qed

fun polls :: "nat \<Rightarrow> ('h, 'w) threaded \<Rightarrow> exec_result list \<times> ('h, 'w) threaded" where
  "polls 0 e = ([], e)"
| "polls (Suc n) e = (case th_poll_result e of
     Ok (Some r, e') \<Rightarrow> (let (rs, e'') = polls n e' in (r # rs, e''))
   | Ok (None, e') \<Rightarrow> polls n e'
   | _ \<Rightarrow> ([], e))"

lemma polls_queue: "th_handle e = None \<Longrightarrow> fst (polls (length (th_results e)) e) = th_results e"
proof (induction "th_results e" arbitrary: e)
  case (Cons r rest)
  let ?e = "e\<lparr>th_results := rest, th_status := Idle\<rparr>"
  have p: "th_poll_result e = Ok (Some r, ?e)"
    by (simp add: th_poll_result_def Cons(2) [symmetric] Cons.prems)
  have "fst (polls (length rest) ?e) = rest" using Cons(1) [of ?e] Cons.prems by simp
  with p Cons(2) [symmetric] show ?case by (simp add: case_prod_beta)
qed simp

text \<open>
  C20: no result stays behind: once the last worker has finished, polling as many times as
  there are results not delivered yet delivers all of them, in order.
\<close>
theorem threaded_results_drain:
  assumes "reach (new_threaded hw f stop_hook start_hook w) ms rs e" and "\<not> th_is_running e"
    and "fst (seq_runs f ms (Some hw)) = rs @ rest"
  shows "fst (polls (length rest) e) = rest"
proof -
  have s: "simulates f (Some hw) ms rs e" by (rule reach_simulates [OF assms(1) refl])
  then have rest: "rest = th_results e @ pending e" using assms(3) by (simp add: simulates_def)
  show ?thesis
  proof (cases rest)
    case (Cons r rest')
    then have q: "th_results e @ pending e = r # rest'" using rest by simp
    obtain e' where e': "th_poll_result e = Ok (Some r, e')" "th_results e' = rest'" "th_handle e' = None"
      using simulates_poll_idle [OF s assms(2)] unfolding q by auto
    with polls_queue [of e'] Cons show ?thesis by (simp add: case_prod_beta)
  qed simp
qed

theorem threaded_results_drain_witness:
  "\<exists>e. reach (new_threaded (5 :: nat) None None None ()) [(count_run, [0, 0])] [] e
    \<and> fst (polls 1 e) = [\<lparr>er_ok = True, er_logs = [dec 5], er_error = None\<rparr>]"
proof -
  let ?e0 = "new_threaded (5 :: nat) None None None ()"
  obtain e1 where e1: "th_submit count_run [0, 0] ?e0 = Ok e1"
    and h: "th_handle e1 = Some \<lparr>jh_run = count_run None [0, 0] 5, jh_finished = False\<rparr>"
    by (simp add: th_submit_def new_threaded_def call_hook_def Let_def)
  have r1: "reach ?e0 ([] @ [(count_run, [0, 0])]) [] e1" by (rule reach.submit [OF reach.start e1])
  define e2 where "e2 = e1\<lparr>th_handle := Some \<lparr>jh_run = count_run None [0, 0] 5, jh_finished = True\<rparr>\<rparr>"
  have "worker_finishes e1 e2" by (simp add: worker_finishes_def h e2_def count_run_def)
  from reach.finish [OF r1 this] have r2: "reach ?e0 [(count_run, [0, 0])] [] e2" by simp
  have "\<not> th_is_running e2" by (simp add: e2_def th_is_running_def)
  from threaded_results_drain [OF r2 this, of "[\<lparr>er_ok = True, er_logs = [dec 5], er_error = None\<rparr>]"]
  have "fst (polls 1 e2) = [\<lparr>er_ok = True, er_logs = [dec 5], er_error = None\<rparr>]"
    by (simp add: seq_run_def count_run_def)
  with r2 show ?thesis by blast
qed

lemma seq_runs_no_hardware:
  "seq_runs f ms None = (replicate (length ms) (failure ''no hardware available''), None)"
  by (induction ms) (simp_all add: seq_run_def)

lemma seq_runs_append:
  "seq_runs f (ms @ ms') hw =
     (let (rs, hw) = seq_runs f ms hw; (rs', hw) = seq_runs f ms' hw in (rs @ rs', hw))"
  by (induction ms arbitrary: hw) (auto simp: Let_def split: prod.split)

text \<open>
  C25: a run that panics in its worker does not take the receiver down, but takes the hardware
  with it: it is reported once, and every module submitted afterwards fails for want of
  hardware, for as long as the executor lives.
\<close>
theorem threaded_panic_loses_hardware:
  assumes "reach (new_threaded hw f stop_hook start_hook w) (ms @ [(run, wasm)] @ ms') rs e"
    and "snd (seq_runs f ms (Some hw)) = Some h" and "run f wasm h = Panic"
  shows "\<exists>rest. rs @ rest = fst (seq_runs f ms (Some hw)) @ [failure ''executor thread panicked'']
      @ replicate (length ms') (failure ''no hardware available'')"
proof -
  obtain rs0 where "seq_runs f ms (Some hw) = (rs0, Some h)"
    using assms(2) by (cases "seq_runs f ms (Some hw)") simp
  with assms(3) have "fst (seq_runs f (ms @ [(run, wasm)] @ ms') (Some hw))
      = rs0 @ [failure ''executor thread panicked''] @ replicate (length ms') (failure ''no hardware available'')"
    by (simp add: seq_runs_append seq_run_def seq_runs_no_hardware)
  with reach_simulates [OF assms(1) refl] \<open>seq_runs f ms (Some hw) = (rs0, Some h)\<close> show ?thesis
    by (auto simp: simulates_def)
qed

theorem threaded_panic_loses_hardware_witness:
  "\<exists>e rest. reach (new_threaded (5 :: nat) None None None ()) ([] @ [(\<lambda>f w h. Panic, [0])] @ [(count_run, [0])]) [] e
    \<and> rest = [failure ''executor thread panicked'', failure ''no hardware available'']"
proof -
  let ?e0 = "new_threaded (5 :: nat) None None None ()"
  let ?p = "\<lambda>f w h. Panic :: (nat \<times> exec_result) outcome"
  obtain e1 where e1: "th_submit ?p [0] ?e0 = Ok e1"
    by (simp add: th_submit_def new_threaded_def Let_def)
  then obtain e2 where e2: "th_submit count_run [0] e1 = Ok e2"
    by (auto simp: th_submit_def new_threaded_def call_hook_def th_reap_def Let_def)
  have r1: "reach ?e0 ([] @ [(?p, [0])]) [] e1" by (rule reach.submit [OF reach.start e1])
  from reach.submit [OF r1 e2]
  have r: "reach ?e0 ([] @ [(?p, [0])] @ [(count_run, [0])]) [] e2" by simp
  from threaded_panic_loses_hardware [OF r, of 5] have "\<exists>rest. [] @ rest =
      [failure ''executor thread panicked'', failure ''no hardware available'']"
    by simp
  with r show ?thesis by blast
qed

text \<open>
  The hardware is in one place: in no reachable state does the executor hold it while a
  worker has it, so a module never runs beside another on the same hardware.
\<close>
theorem threaded_hardware_exclusive:
  assumes "reach (new_threaded hw f stop_hook start_hook w) ms rs e"
  shows "th_handle e = None \<or> th_hardware e = None"
  using reach_simulates [OF assms refl] by (auto simp: simulates_def exclusive_def)

theorem threaded_hardware_exclusive_witness:
  "\<exists>e. reach (new_threaded (5 :: nat) None None None ()) [(count_run, [0])] [] e
    \<and> th_is_running e \<and> th_hardware e = None"
proof -
  let ?e0 = "new_threaded (5 :: nat) None None None ()"
  obtain e1 where e1: "th_submit count_run [0] ?e0 = Ok e1" "th_handle e1 \<noteq> None" "th_is_running e1"
    by (simp add: th_submit_def new_threaded_def call_hook_def th_is_running_def Let_def)
  have "reach ?e0 ([] @ [(count_run, [0])]) [] e1" by (rule reach.submit [OF reach.start e1(1)])
  then have r: "reach ?e0 [(count_run, [0])] [] e1" by simp
  from threaded_hardware_exclusive [OF r] e1 r show ?thesis by blast
qed

interpretation th_loop: executor_keeps threaded_executor exclusive "\<lambda>_. True"
proof
  fix e e' :: "('a, 'b) threaded" and run wasm r
  assume x: "exclusive e"
  have reap: "exclusive e2 \<and> th_handle e2 = None" if "th_reap e1 = Ok e2" "exclusive e1" for e1 e2 :: "('a, 'b) threaded"
    using th_reap_Ok [OF that] by blast
  have hook: "exclusive (call_hook hk e)" for hk using x by (simp add: exclusive_def)
  show "exclusive (ex_stop threaded_executor e)"
    using x by (simp add: threaded_executor_def th_stop_def exclusive_def)
  show "exclusive e'" if p: "ex_poll_result threaded_executor e = Ok (r, e')"
  proof -
    have "th_poll_result e = Ok (r, e')" using p by (simp add: threaded_executor_def)
    then show ?thesis
    proof (rule th_poll_Ok)
      fix e1
      assume 1: "(case th_handle e of
            Some handle \<Rightarrow> (if jh_finished handle then th_reap e else Ok e) | None \<Rightarrow> Ok e) = Ok e1"
        and 2: "(if th_handle e1 = None then
         (case th_results e1 of
            result # rest \<Rightarrow> Ok (Some result, e1\<lparr>th_results := rest, th_status := Idle\<rparr>)
          | [] \<Rightarrow> Ok (None, e1))
       else Ok (None, e1)) = Ok (r, e')"
      from 1 x have "exclusive e1" using reap [of e e1] by (auto split: option.splits if_splits)
      with 2 show ?thesis by (auto simp: exclusive_def split: if_splits list.splits)
    qed
  qed
  show "exclusive e'" if p: "ex_submit threaded_executor run wasm e = Ok e'"
  proof -
    have "th_submit run wasm e = Ok e'" using p by (simp add: threaded_executor_def)
    then show ?thesis
    proof (rule th_submit_Ok)
      fix e1
      assume 1: "(if th_handle e \<noteq> None then th_reap (call_hook (th_stop_hook e) e) else Ok e) = Ok e1"
        and 2: "(case th_hardware e1 of
         None \<Rightarrow> Ok (e1\<lparr>th_results := th_results e1 @ [failure ''no hardware available''], th_status := Completed\<rparr>)
       | Some hw \<Rightarrow>
           let e = call_hook (th_start_hook e1) (e1\<lparr>th_hardware := None\<rparr>) in
           Ok (e\<lparr>th_status := Running,
                 th_handle := Some \<lparr>jh_run = run (th_fuel e) wasm hw, jh_finished = False\<rparr>\<rparr>)) = Ok e'"
      have "exclusive e1 \<and> th_handle e1 = None"
        using 1 x reap [OF _ hook, of "th_stop_hook e" e1] by (auto split: if_splits)
      with 2 show ?thesis by (auto simp: exclusive_def Let_def split: option.splits)
    qed
  qed
qed

end
