(* ===== verification/F64.thy ===== *)
theory F64
  imports Prelude "HOL-Library.Log_Nat"
begin

text \<open>
  Rust's \<open>f64\<close> on the values the simulated hardware computes with: finite numbers, which are
  rationals, each operation followed by the rounding of IEEE 754 binary64 (to nearest, ties
  to even). Overflow to infinity and NaN do not arise in the program: its numbers stay below
  a few thousands (the clock apart). The two zeros are one number here. The laws of rounding
  are stated as an interface, proved of the rounding, and used by the simulation.
\<close>

section \<open>The interface of a rounding\<close>

locale rounding =
  fixes rnd :: "rat \<Rightarrow> rat"
  assumes mono: "x \<le> y \<Longrightarrow> rnd x \<le> rnd y"
    and idem: "rnd (rnd x) = rnd x"
    and neg: "rnd (- x) = - rnd x"
    and small_int: "\<bar>k\<bar> \<le> 2 ^ 53 \<Longrightarrow> rnd (of_int k) = of_int k"
    and quarter: "rnd (1 / 4) = 1 / 4"
    and at_most_double: "0 \<le> x \<Longrightarrow> rnd x \<le> 2 * x"
begin

lemma zero: "rnd 0 = 0"
  using small_int [of 0] by simp

lemma nonneg: "0 \<le> x \<Longrightarrow> 0 \<le> rnd x"
  using mono [of 0 x] zero by simp

lemma nonpos: "x \<le> 0 \<Longrightarrow> rnd x \<le> 0"
  using mono [of x 0] zero by simp

lemma upper: "x \<le> y \<Longrightarrow> rnd y = y \<Longrightarrow> rnd x \<le> y"
  using mono [of x y] by simp

lemma lower: "y \<le> x \<Longrightarrow> rnd y = y \<Longrightarrow> y \<le> rnd x"
  using mono [of y x] by simp

text \<open>
  A relaxation step, which adds a fraction of the distance to a target, never passes the
  target: the fraction is at most a quarter, so the two roundings cannot make up for it.
\<close>

lemma relax_up:
  assumes "rnd y = y" and "rnd t = t" and "y \<le> t" and "0 \<le> f" and "f \<le> 1 / 4"
  shows "y \<le> rnd (y + rnd (rnd (t - y) * f)) \<and> rnd (y + rnd (rnd (t - y) * f)) \<le> t"
proof -
  have d: "0 \<le> rnd (t - y)" "rnd (t - y) \<le> 2 * (t - y)"
    using assms nonneg at_most_double [of "t - y"] by simp_all
  have "rnd (t - y) * f \<le> (2 * (t - y)) * (1 / 4)"
    using d assms by (intro mult_mono) simp_all
  then have "rnd (rnd (t - y) * f) \<le> rnd ((t - y) / 2)" by (intro mono) simp
  also have "\<dots> \<le> t - y" using at_most_double [of "(t - y) / 2"] assms(3) by simp
  finally have "y + rnd (rnd (t - y) * f) \<le> t" by simp
  moreover have "0 \<le> rnd (rnd (t - y) * f)" using d assms(4) by (intro nonneg) simp
  ultimately show ?thesis using assms(1,2) lower [of y] upper [of _ t] by simp
qed

lemma relax_between:
  assumes "rnd y = y" and "rnd t = t" and "0 \<le> f" and "f \<le> 1 / 4"
  shows "min y t \<le> rnd (y + rnd (rnd (t - y) * f)) \<and> rnd (y + rnd (rnd (t - y) * f)) \<le> max y t"
proof (cases "y \<le> t")
  case True
  with relax_up [of y t f] assms show ?thesis by (simp add: min_def max_def)
next
  case False
  have n: "rnd (- y) = - y" "rnd (- t) = - t" using assms neg by simp_all
  have "rnd (- y + rnd (rnd (- t - - y) * f)) = - rnd (y + rnd (rnd (t - y) * f))"
  proof -
    have "rnd (- t - - y) = - rnd (t - y)" using neg [of "t - y"] by simp
    then have "rnd (rnd (- t - - y) * f) = - rnd (rnd (t - y) * f)" using neg [of "rnd (t - y) * f"] by simp
    then show ?thesis using neg [of "y + rnd (rnd (t - y) * f)"] by simp
  qed
  with relax_up [of "- y" "- t" f] assms n False show ?thesis by (simp add: min_def max_def)
qed

end

section \<open>Rounding to binary64\<close>

abbreviation pow2 :: "int \<Rightarrow> rat" where
  "pow2 e \<equiv> power_int 2 e"

text \<open>The exponent \<open>e\<close> with \<open>2^e \<le> x < 2^(e+1)\<close> of a positive number.\<close>

definition binade :: "rat \<Rightarrow> int" where
  "binade x = (let (p, q) = quotient_of x; k = bitlen p - bitlen q in if pow2 k \<le> x then k else k - 1)"

definition ulp_exp :: "rat \<Rightarrow> int" where
  "ulp_exp x = max (binade x - 52) (-1074)"

definition round_even :: "rat \<Rightarrow> int" where
  "round_even y =
     (let f = \<lfloor>y\<rfloor>; r = y - of_int f in
      if r < 1 / 2 then f else if 1 / 2 < r then f + 1 else if even f then f else f + 1)"

definition round_pos :: "rat \<Rightarrow> rat" where
  "round_pos x = of_int (round_even (x / pow2 (ulp_exp x))) * pow2 (ulp_exp x)"

definition f64_round :: "rat \<Rightarrow> rat" where
  "f64_round x = (if x = 0 then 0 else if 0 < x then round_pos x else - round_pos (- x))"

lemma binade_bounds:
  assumes "0 < x"
  shows "pow2 (binade x) \<le> x \<and> x < pow2 (binade x + 1)"
proof -
  obtain p q where pq: "quotient_of x = (p, q)" by (cases "quotient_of x")
  have q: "0 < q" using quotient_of_denom_pos [OF pq] .
  have x: "x = of_int p / of_int q" using quotient_of_div [OF pq] .
  with assms q have p: "0 < p" by (simp add: zero_less_divide_iff)
  have bl: "pow2 (bitlen n - 1) \<le> of_int n \<and> of_int n < pow2 (bitlen n)" if "0 < n" for n :: int
  proof -
    have b: "2 ^ nat (bitlen n - 1) \<le> n" "n < 2 ^ nat (bitlen n)" using bitlen_bounds [OF that] by auto
    have pos: "0 < bitlen n" using bitlen_nonneg [of n] bitlen_eq_zero_iff [of n] that by linarith
    have "pow2 (bitlen n - 1) = of_int (2 ^ nat (bitlen n - 1))" "pow2 (bitlen n) = of_int (2 ^ nat (bitlen n))"
      using pos by (simp_all add: power_int_def)
    then show ?thesis using b by (simp only: of_int_le_iff of_int_less_iff)
  qed
  let ?k = "bitlen p - bitlen q"
  have qpos: "(0 :: rat) < of_int q" using q by simp
  have "x < pow2 (?k + 1)"
  proof -
    have "x < pow2 (bitlen p) / of_int q" using x bl [OF p] qpos by (simp add: divide_strict_right_mono)
    also have "\<dots> \<le> pow2 (bitlen p) / pow2 (bitlen q - 1)"
      using bl [OF q] qpos by (intro divide_left_mono mult_pos_pos) simp_all
    also have "\<dots> = pow2 (?k + 1)" by (simp add: power_int_diff [symmetric] algebra_simps)
    finally show ?thesis .
  qed
  moreover have "pow2 (?k - 1) \<le> x"
  proof -
    have "pow2 (?k - 1) = pow2 (bitlen p - 1) / pow2 (bitlen q)" by (simp add: power_int_diff [symmetric] algebra_simps)
    also have "\<dots> \<le> of_int p / pow2 (bitlen q)" using bl [OF p] by (intro divide_right_mono) simp_all
    also have "\<dots> \<le> of_int p / of_int q" using bl [OF q] p qpos by (intro divide_left_mono) simp_all
    finally show ?thesis using x by simp
  qed
  ultimately show ?thesis by (auto simp: binade_def pq Let_def not_le)
qed

lemma pow2_less_iff [simp]: "pow2 a < pow2 b \<longleftrightarrow> a < b"
  using power_int_strict_increasing [of a b "2 :: rat"] power_int_increasing [of b a "2 :: rat"]
  by (cases "a < b") (auto simp: not_less)

lemma pow2_le_iff [simp]: "pow2 a \<le> pow2 b \<longleftrightarrow> a \<le> b"
  using pow2_less_iff [of b a] by (simp only: linorder_not_less [symmetric])

lemma binade_le:
  assumes "0 < x" and "x \<le> y"
  shows "binade x \<le> binade y"
proof -
  have "pow2 (binade x) < pow2 (binade y + 1)"
    using binade_bounds [of x] binade_bounds [of y] assms by (meson order_le_less_trans order_less_le_trans order_trans)
  then have "binade x < binade y + 1" by (metis linorder_not_less pow2_le_iff)
  then show ?thesis by simp
qed

lemma pow2_int: "0 \<le> e \<Longrightarrow> \<exists>k. pow2 e = of_int k"
  by (rule exI [of _ "2 ^ nat e"]) (simp add: power_int_def)


lemma round_even_int [simp]: "round_even (of_int k) = k"
  by (simp add: round_even_def)

lemma round_even_floor: "\<lfloor>y\<rfloor> \<le> round_even y \<and> round_even y \<le> \<lfloor>y\<rfloor> + 1"
  by (simp add: round_even_def Let_def)

lemma round_even_mono:
  assumes "x \<le> y"
  shows "round_even x \<le> round_even y"
proof (cases "\<lfloor>x\<rfloor> = \<lfloor>y\<rfloor>")
  case True
  then show ?thesis using assms by (auto simp: round_even_def Let_def)
next
  case False
  then have "\<lfloor>x\<rfloor> + 1 \<le> \<lfloor>y\<rfloor>" using floor_mono [OF assms] by linarith
  then show ?thesis using round_even_floor [of x] round_even_floor [of y] by linarith
qed

lemma round_even_le_int: "y \<le> of_int k \<Longrightarrow> round_even y \<le> k"
  using round_even_mono [of y "of_int k"] by simp

lemma round_even_ge_int: "of_int k \<le> y \<Longrightarrow> k \<le> round_even y"
  using round_even_mono [of "of_int k" y] by simp

lemma round_even_near: "\<bar>of_int (round_even y) - y\<bar> \<le> 1 / 2"
proof -
  have "of_int \<lfloor>y\<rfloor> \<le> y" "y < of_int \<lfloor>y\<rfloor> + 1" by linarith+
  then show ?thesis by (auto simp: round_even_def Let_def abs_le_iff)
qed

lemma ulp_exp_le_binade: "-1074 \<le> binade x \<Longrightarrow> ulp_exp x \<le> binade x"
  by (simp add: ulp_exp_def)

text \<open>A number on the grid of a value rounds to itself.\<close>

lemma round_pos_grid:
  assumes "x = of_int k * pow2 (ulp_exp x)"
  shows "round_pos x = x"
proof -
  have "x / pow2 (ulp_exp x) = of_int k" using assms by (simp add: field_simps)
  then show ?thesis using assms by (simp add: round_pos_def)
qed

lemma round_pos_mono:
  assumes "0 < x" and "x \<le> y"
  shows "round_pos x \<le> round_pos y"
proof (cases "ulp_exp x = ulp_exp y")
  case True
  have "x / pow2 (ulp_exp x) \<le> y / pow2 (ulp_exp x)" using assms by (intro divide_right_mono) simp_all
  then have "round_even (x / pow2 (ulp_exp x)) \<le> round_even (y / pow2 (ulp_exp x))" by (rule round_even_mono)
  then show ?thesis unfolding round_pos_def True by (intro mult_right_mono) simp_all
next
  case False
  have bl: "binade x \<le> binade y" using assms by (rule binade_le)
  with False have lt: "binade x < binade y" "ulp_exp x < ulp_exp y" "-1074 < ulp_exp y" "ulp_exp y = binade y - 52"
    by (auto simp: ulp_exp_def max_def split: if_splits)
  let ?e = "binade y"
  have xe: "x < pow2 ?e"
  proof -
    have "x < pow2 (binade x + 1)" using binade_bounds assms(1) by blast
    also have "\<dots> \<le> pow2 ?e" using lt by (simp only: pow2_le_iff)
    finally show ?thesis .
  qed
  have ye: "pow2 ?e \<le> y" using binade_bounds [of y] assms by simp
  have grid: "\<exists>k. pow2 ?e = of_int k * pow2 m" if m: "m \<le> ?e" for m
  proof -
    obtain k where "pow2 (?e - m) = of_int k" using pow2_int [of "?e - m"] m by auto
    then show ?thesis by (intro exI [of _ k]) (simp add: power_int_diff field_simps)
  qed
  obtain k where k: "pow2 ?e = of_int k * pow2 (ulp_exp x)" using grid [of "ulp_exp x"] lt by auto
  obtain l where l: "pow2 ?e = of_int l * pow2 (ulp_exp y)" using grid [of "ulp_exp y"] lt by auto
  have "x / pow2 (ulp_exp x) \<le> of_int k" using xe k by (simp add: field_simps)
  then have "round_even (x / pow2 (ulp_exp x)) \<le> k" by (rule round_even_le_int)
  then have "round_pos x \<le> pow2 ?e" unfolding round_pos_def k by (intro mult_right_mono) simp_all
  moreover have "of_int l \<le> y / pow2 (ulp_exp y)" using ye l by (simp add: field_simps)
  then have "l \<le> round_even (y / pow2 (ulp_exp y))" by (rule round_even_ge_int)
  then have "pow2 ?e \<le> round_pos y" unfolding round_pos_def l by (intro mult_right_mono) simp_all
  ultimately show ?thesis by simp
qed

lemma round_pos_nonneg: "0 < x \<Longrightarrow> 0 \<le> round_pos x"
  unfolding round_pos_def
  by (intro mult_nonneg_nonneg) (simp_all add: round_even_ge_int [of 0, simplified])

text \<open>The numbers with a significand of at most 53 bits are exact.\<close>

lemma round_pos_exact:
  assumes x: "x = of_int k * pow2 m" and k: "0 < k" "k \<le> 2 ^ 53" and m: "-1074 \<le> m"
  shows "round_pos x = x"
proof -
  have pos: "0 < x" using x k by simp
  have grid: "round_pos x = x" if n: "ulp_exp x \<le> n" "x = of_int j * pow2 n" for n j
  proof -
    obtain i where i: "pow2 (n - ulp_exp x) = of_int i" using pow2_int [of "n - ulp_exp x"] n by auto
    have "pow2 n = of_int i * pow2 (ulp_exp x)" using i by (simp add: power_int_diff field_simps)
    then have "x = of_int (j * i) * pow2 (ulp_exp x)" using n by simp
    then show ?thesis by (rule round_pos_grid)
  qed
  show ?thesis
  proof (cases "k = 2 ^ 53")
    case True
    then have x53: "x = of_int 1 * pow2 (m + 53)" using x by (simp add: power_int_add)
    have "pow2 (binade x) \<le> pow2 (m + 53)" using binade_bounds [OF pos] x53 by simp
    then have "ulp_exp x \<le> m + 53" using m by (simp add: ulp_exp_def)
    then show ?thesis using x53 by (rule grid)
  next
    case False
    then have "(of_int k :: rat) < of_int (2 ^ 53)" using k by (simp only: of_int_less_iff)
    then have "x < pow2 53 * pow2 m" using x by simp
    then have "x < pow2 (m + 53)" by (simp add: power_int_add)
    then have "pow2 (binade x) < pow2 (m + 53)" using binade_bounds [OF pos] by linarith
    then have "ulp_exp x \<le> m" using m by (simp add: ulp_exp_def)
    then show ?thesis using x by (rule grid)
  qed
qed

lemma round_pos_idem:
  assumes "0 < x" and "0 < round_pos x"
  shows "round_pos (round_pos x) = round_pos x"
proof (rule round_pos_exact)
  let ?k = "round_even (x / pow2 (ulp_exp x))"
  show "round_pos x = of_int ?k * pow2 (ulp_exp x)" by (simp add: round_pos_def)
  have "(0 :: rat) < pow2 (ulp_exp x)" by simp
  then show "0 < ?k" using assms(2) zero_less_mult_pos2 [of "of_int ?k" "pow2 (ulp_exp x)"]
    by (simp only: round_pos_def of_int_0_less_iff)
  show "-1074 \<le> ulp_exp x" by (simp add: ulp_exp_def)
  have "x < pow2 (binade x + 1)" using binade_bounds assms(1) by blast
  also have "\<dots> \<le> pow2 (ulp_exp x + 53)" by (simp add: ulp_exp_def del: power_int_add_1)
  also have "\<dots> = of_int (2 ^ 53) * pow2 (ulp_exp x)" by (simp add: power_int_add)
  finally have "x / pow2 (ulp_exp x) \<le> of_int (2 ^ 53)" by (simp add: field_simps)
  then show "?k \<le> 2 ^ 53" by (rule round_even_le_int)
qed

text \<open>Between 0 and the smallest positive number rounding at most doubles.\<close>

lemma round_pos_double:
  assumes "0 < x"
  shows "round_pos x \<le> 2 * x"
proof -
  let ?y = "x / pow2 (ulp_exp x)"
  have y: "0 < ?y" using assms by simp
  have "of_int (round_even ?y) \<le> 2 * ?y"
  proof (cases "?y \<le> 1 / 2")
    case True
    then have "\<lfloor>?y\<rfloor> = 0" using y by linarith
    then have "round_even ?y = 0" using True by (auto simp: round_even_def Let_def)
    then show ?thesis using y by simp
  next
    case False
    then have "1 / 2 < ?y" by (simp only: not_le)
    then show ?thesis using round_even_near [of ?y] y by (simp only: abs_le_iff) linarith
  qed
  then have "of_int (round_even ?y) * pow2 (ulp_exp x) \<le> (2 * ?y) * pow2 (ulp_exp x)" by (rule mult_right_mono) simp
  then show ?thesis by (simp add: round_pos_def)
qed

lemma f64_round_neg: "f64_round (- x) = - f64_round x"
  by (auto simp: f64_round_def)

lemma f64_round_mono:
  assumes "x \<le> y"
  shows "f64_round x \<le> f64_round y"
proof -
  consider "0 < x" | "y < 0" | "x \<le> 0" "0 \<le> y" by linarith
  then show ?thesis
  proof cases
    case 1
    with assms round_pos_mono [of x y] show ?thesis by (simp add: f64_round_def)
  next
    case 2
    with assms round_pos_mono [of "- y" "- x"] show ?thesis by (simp add: f64_round_def)
  next
    case 3
    have "f64_round x \<le> 0" using 3 round_pos_nonneg [of "- x"] by (simp add: f64_round_def)
    moreover have "0 \<le> f64_round y" using 3 round_pos_nonneg [of y] by (simp add: f64_round_def)
    ultimately show ?thesis by simp
  qed
qed

lemma f64_round_idem: "f64_round (f64_round x) = f64_round x"
proof -
  have pos: "f64_round (round_pos z) = round_pos z" if "0 < z" for z
    using round_pos_idem [OF that] round_pos_nonneg [OF that] by (cases "round_pos z = 0") (simp_all add: f64_round_def)
  show ?thesis
    using pos [of x] pos [of "- x"] f64_round_neg [of "round_pos (- x)"]
    by (cases "x = 0"; cases "0 < x") (auto simp: f64_round_def [of x] f64_round_def [of 0])
qed

lemma f64_round_exact:
  assumes "\<bar>k\<bar> \<le> 2 ^ 53" and "-1074 \<le> m"
  shows "f64_round (of_int k * pow2 m) = of_int k * pow2 m"
proof -
  have pos: "f64_round (of_int j * pow2 m) = of_int j * pow2 m" if "0 < j" "j \<le> 2 ^ 53" for j
    using round_pos_exact [OF refl that assms(2)] that by (simp add: f64_round_def)
  consider "0 < k" | "k = 0" | "0 < - k" by linarith
  then show ?thesis
  proof cases
    case 1 with pos [of k] assms show ?thesis by simp
  next
    case 2 then show ?thesis by (simp add: f64_round_def)
  next
    case 3
    with pos [of "- k"] f64_round_neg [of "of_int k * pow2 m"] assms show ?thesis by simp
  qed
qed

interpretation f64: rounding f64_round
proof
  show "f64_round x \<le> 2 * x" if "0 \<le> x" for x
    using that round_pos_double [of x] by (auto simp: f64_round_def)
  show "f64_round (of_int k) = of_int k" if "\<bar>k\<bar> \<le> 2 ^ 53" for k
    using f64_round_exact [OF that, of 0] by simp
  show "f64_round (1 / 4) = 1 / 4"
    using f64_round_exact [of 1 "-2"] by (simp add: power_int_minus)
qed (auto simp: f64_round_mono f64_round_idem f64_round_neg)

section \<open>Operations\<close>

definition f_add :: "rat \<Rightarrow> rat \<Rightarrow> rat" where "f_add x y = f64_round (x + y)"
definition f_sub :: "rat \<Rightarrow> rat \<Rightarrow> rat" where "f_sub x y = f64_round (x - y)"
definition f_mul :: "rat \<Rightarrow> rat \<Rightarrow> rat" where "f_mul x y = f64_round (x * y)"
definition f_div :: "rat \<Rightarrow> rat \<Rightarrow> rat" where "f_div x y = f64_round (x / y)"

lemmas f_ops = f_add_def f_sub_def f_mul_def f_div_def

text \<open>\<open>Duration::as_secs_f64\<close> of a number of nanoseconds; \<open>as u32\<close> and \<open>as u16\<close> saturate.\<close>

definition as_secs_f64 :: "nat \<Rightarrow> rat" where
  "as_secs_f64 ns = f_add (f64_round (of_nat (ns div 1000000000))) (f_div (of_nat (ns mod 1000000000)) 1000000000)"

definition f64_to_u32 :: "rat \<Rightarrow> u32" where
  "f64_to_u32 x = word_of_int (max 0 (min \<lfloor>x\<rfloor> 4294967295))"

definition f64_to_u16 :: "rat \<Rightarrow> u16" where
  "f64_to_u16 x = word_of_int (max 0 (min \<lfloor>x\<rfloor> 65535))"

definition f64_clamp :: "rat \<Rightarrow> rat \<Rightarrow> rat \<Rightarrow> rat" where
  "f64_clamp x lo hi = (if x < lo then lo else if hi < x then hi else x)"

text \<open>\<open>{:.d}\<close>: the exact decimal value rounded to \<open>d\<close> places, ties to even.\<close>

definition fmt_fixed :: "nat \<Rightarrow> rat \<Rightarrow> string" where
  "fmt_fixed d x =
     (let m = nat (round_even (\<bar>x\<bar> * 10 ^ d)); frac = dec (m mod 10 ^ d)
      in (if x < 0 then ''-'' else []) @ dec (m div 10 ^ d)
         @ (if d = 0 then [] else ''.'' @ replicate (d - length frac) CHR ''0'' @ frac))"

lemma f64_exact_int: "\<bar>k\<bar> \<le> 9007199254740992 \<Longrightarrow> f64_round (of_int k) = of_int k"
  using f64.small_int [of k] by simp

lemma f64_numeral [simp]:
  "f64_round 0 = 0" "f64_round 1 = 1"
  "(numeral n :: int) \<le> 9007199254740992 \<Longrightarrow> f64_round (numeral n) = numeral n"
  using f64_exact_int [of 0] f64_exact_int [of 1] f64_exact_int [of "numeral n"] by simp_all

lemma unat_f64_to_u32: "unat (f64_to_u32 x) = nat (max 0 (min \<lfloor>x\<rfloor> 4294967295))"
proof -
  let ?n = "max 0 (min \<lfloor>x\<rfloor> 4294967295)"
  have "uint (word_of_int ?n :: u32) = ?n" by (simp add: uint_word_of_int)
  then show ?thesis by (simp only: f64_to_u32_def unat_eq_nat_uint)
qed

lemma f64_to_u32_le: "x \<le> of_nat n \<Longrightarrow> unat (f64_to_u32 x) \<le> n"
proof -
  assume "x \<le> of_nat n"
  then have "\<lfloor>x\<rfloor> \<le> int n" by (simp add: floor_le_iff)
  then show ?thesis by (simp add: unat_f64_to_u32)
qed

text \<open>Below 256 the rounding error is at most \<open>2^-46\<close>.\<close>

lemma f64_round_error:
  assumes "\<bar>x\<bar> < 256"
  shows "\<bar>f64_round x - x\<bar> \<le> 1 / 2 ^ 46"
proof -
  have pos: "\<bar>round_pos z - z\<bar> \<le> 1 / 2 ^ 46" if "0 < z" "z < 256" for z
  proof -
    have "pow2 (binade z) \<le> z" using binade_bounds that by blast
    also have "z < pow2 8" using that by simp
    finally have "binade z < 8" by (simp only: pow2_less_iff)
    then have e: "ulp_exp z \<le> -45" by (simp add: ulp_exp_def)
    let ?u = "pow2 (ulp_exp z)"
    have u: "0 < ?u" "?u \<le> pow2 (-45)" using e by (simp_all only: pow2_le_iff) simp_all
    have "round_pos z - z = (of_int (round_even (z / ?u)) - z / ?u) * ?u"
      by (simp add: round_pos_def field_simps)
    then have "\<bar>round_pos z - z\<bar> = \<bar>of_int (round_even (z / ?u)) - z / ?u\<bar> * ?u"
      by (simp add: abs_mult)
    also have "\<dots> \<le> 1 / 2 * pow2 (-45)"
      using round_even_near [of "z / ?u"] u by (intro mult_mono) simp_all
    finally show ?thesis by (simp add: power_int_minus)
  qed
  show ?thesis
    using assms pos [of x] pos [of "- x"] abs_minus_commute [of "- round_pos (- x)" x]
    by (auto simp: f64_round_def add.commute)
qed

end
