(* ===== verification/Sim.thy ===== *)
theory Sim
  imports F64 Hardware Params Manifest
begin

text \<open>
  The simulated backend of the virtual fleet (\<open>receiver/src/targets/sim/mod.rs\<close>): four machines
  whose physics advances with the wall clock whenever the module touches the hardware. The
  arithmetic is \<open>f64\<close> with its rounding (theory F64). The state holds what the code reads from
  outside: the reading the clock will give next, the shared parameter slots, the stop flag and
  the lines handed to the telemetry file and to standard error. Time passes in a delay and
  between the calls.
\<close>

section \<open>Profiles and state\<close>

datatype sim_profile = Drone | Conveyor | Oven | Arm

definition parse_profile :: "string \<Rightarrow> sim_profile option" where
  "parse_profile name =
     (if name = ''drone'' then Some Drone
      else if name = ''conveyor'' then Some Conveyor
      else if name = ''oven'' then Some Oven
      else if name = ''arm'' then Some Arm
      else None)"

fun profile_str :: "sim_profile \<Rightarrow> string" where
  "profile_str Drone = ''drone''"
| "profile_str Conveyor = ''conveyor''"
| "profile_str Oven = ''oven''"
| "profile_str Arm = ''arm''"

definition FAULT_SLOT :: u32 where "FAULT_SLOT = 7"

record sim =
  profile :: sim_profile
  sim_name :: string
  elapsed_ns :: nat
  last_step :: rat
  telemetry :: "string list option"
  last_telemetry :: rat
  pwm :: "rat list"
  gpio :: "u32 list"
  altitude_m :: rat
  vertical_v :: rat
  battery_mv :: rat
  belt_pos :: rat
  items_passed :: u64
  motor_temp_c :: rat
  oven_temp_c :: rat
  joints_deg :: "rat list"
  SIM_STOPPED :: bool
  slots :: params
  stderr_lines :: "string list"

definition sim_stop_hook :: "sim \<Rightarrow> sim" where
  "sim_stop_hook s = s\<lparr>SIM_STOPPED := True\<rparr>"

definition sim_start_hook :: "sim \<Rightarrow> sim" where
  "sim_start_hook s = s\<lparr>SIM_STOPPED := False\<rparr>"

text \<open>
  \<open>telemetry_file\<close> is what the environment variable leads to: nothing, or a file that can be
  opened or not, in which case \<open>expect\<close> panics.
\<close>

definition sim_new :: "sim_profile \<Rightarrow> string \<Rightarrow> bool option \<Rightarrow> bool \<Rightarrow> params \<Rightarrow> sim outcome" where
  "sim_new prof name telemetry_file stopped ps =
     (case telemetry_file of
        Some False \<Rightarrow> Panic
      | _ \<Rightarrow> Ok \<lparr>profile = prof, sim_name = name, elapsed_ns = 0, last_step = 0,
          telemetry = (case telemetry_file of None \<Rightarrow> None | Some _ \<Rightarrow> Some []), last_telemetry = 0,
          pwm = replicate 8 0, gpio = replicate 32 0, altitude_m = 0, vertical_v = 0, battery_mv = 4200,
          belt_pos = 0, items_passed = 0, motor_temp_c = 25, oven_temp_c = 25, joints_deg = replicate 3 0,
          SIM_STOPPED = stopped, slots = ps, stderr_lines = []\<rparr>)"

definition now_s :: "sim \<Rightarrow> rat" where
  "now_s s = as_secs_f64 (elapsed_ns s)"

definition fault_active :: "sim \<Rightarrow> bool" where
  "fault_active s \<longleftrightarrow> get_param FAULT_SLOT (slots s) \<noteq> 0"

section \<open>Physics\<close>

definition thrust_of :: "sim \<Rightarrow> rat" where
  "thrust_of s =
     (let p = pwm s in
      if fault_active s then
        f_div (f_add (f_add (f_add (p ! 0) (p ! 1)) (f_mul (p ! 2) (f64_round (4 / 10)))) (p ! 3)) 4
      else f_div (foldl f_add 0 (take 4 p)) 4)"

definition step_drone :: "rat \<Rightarrow> sim \<Rightarrow> sim" where
  "step_drone dt s =
     (let thrust = thrust_of s;
          accel = f_sub (f_mul (f_sub thrust (1 / 2)) 12) (f_mul (vertical_v s) (f64_round (8 / 10)));
          v = f_add (vertical_v s) (f_mul accel dt);
          alt = f_add (altitude_m s) (f_mul v dt);
          (alt, v) = (if alt < 0 then (0, if v < 0 then 0 else v) else (alt, v));
          battery = f_sub (battery_mv s) (f_mul (f_mul thrust 25) dt);
          battery = (if battery < 3300 then 3300 else battery)
      in s\<lparr>vertical_v := v, altitude_m := alt, battery_mv := battery\<rparr>)"

text \<open>The loop that counts the items past the sensor; a loop that never ends is \<open>None\<close>.\<close>

partial_function (option) belt_loop :: "rat \<Rightarrow> u64 \<Rightarrow> (rat \<times> u64) option" where
  "belt_loop pos items = (if 1 \<le> pos then belt_loop (f_sub pos 1) (items + 1) else Some (pos, items))"

definition relax :: "rat \<Rightarrow> rat \<Rightarrow> rat \<Rightarrow> rat \<Rightarrow> rat" where
  "relax y target dt tau = f_add y (f_mul (f_sub target y) (f_div dt tau))"

definition step_conveyor :: "rat \<Rightarrow> sim \<Rightarrow> sim" where
  "step_conveyor dt s =
     (let speed = pwm s ! 0;
          pos = f_add (belt_pos s) (f_mul (f_mul speed 2) dt);
          (pos, items) = (case belt_loop pos (items_passed s) of Some r \<Rightarrow> r | None \<Rightarrow> (pos, items_passed s));
          target = f_add 25 (f_mul (pwm s ! 0) 55)
      in s\<lparr>belt_pos := pos, items_passed := items, motor_temp_c := relax (motor_temp_c s) target dt 8\<rparr>)"

definition step_oven :: "rat \<Rightarrow> sim \<Rightarrow> sim" where
  "step_oven dt s =
     (let eff = (if fault_active s then f64_round (135 / 100) else 1);
          target = f_add 25 (f_mul (f_mul (pwm s ! 0) 300) eff)
      in s\<lparr>oven_temp_c := relax (oven_temp_c s) target dt 6\<rparr>)"

definition step_joint :: "rat \<Rightarrow> rat \<Rightarrow> rat \<Rightarrow> rat" where
  "step_joint dt p joint =
     (let target = f_mul p 180; diff = f_sub target joint; max_step = f_mul 90 dt
      in f_add joint (f64_clamp diff (- max_step) max_step))"

definition step_arm :: "rat \<Rightarrow> sim \<Rightarrow> sim" where
  "step_arm dt s = s\<lparr>joints_deg := map (\<lambda>j. step_joint dt (pwm s ! j) (joints_deg s ! j)) [0..<3]\<rparr>"

fun step_profile :: "sim_profile \<Rightarrow> rat \<Rightarrow> sim \<Rightarrow> sim" where
  "step_profile Drone = step_drone"
| "step_profile Conveyor = step_conveyor"
| "step_profile Oven = step_oven"
| "step_profile Arm = step_arm"

section \<open>Telemetry\<close>

definition fault_text :: "sim \<Rightarrow> string" where
  "fault_text s = dec (unat (get_param FAULT_SLOT (slots s)))"

definition state_text :: "sim \<Rightarrow> string" where
  "state_text s = (case profile s of
     Drone \<Rightarrow> ''{\"alt_m\":'' @ fmt_fixed 3 (altitude_m s) @ '',\"vz\":'' @ fmt_fixed 3 (vertical_v s)
       @ '',\"battery_mv\":'' @ fmt_fixed 0 (battery_mv s) @ '',\"thrust\":['' @ fmt_fixed 3 (pwm s ! 0)
       @ '','' @ fmt_fixed 3 (pwm s ! 1) @ '','' @ fmt_fixed 3 (pwm s ! 2) @ '','' @ fmt_fixed 3 (pwm s ! 3)
       @ ''],\"fault\":'' @ fault_text s @ ''}''
   | Conveyor \<Rightarrow> ''{\"belt_duty\":'' @ fmt_fixed 3 (pwm s ! 0) @ '',\"items\":'' @ dec (unat (items_passed s))
       @ '',\"motor_temp_c\":'' @ fmt_fixed 2 (motor_temp_c s) @ '',\"fault\":'' @ fault_text s @ ''}''
   | Oven \<Rightarrow> ''{\"heater_duty\":'' @ fmt_fixed 3 (pwm s ! 0) @ '',\"temp_c\":'' @ fmt_fixed 2 (oven_temp_c s)
       @ '',\"fault\":'' @ fault_text s @ ''}''
   | Arm \<Rightarrow> ''{\"joints_deg\":['' @ fmt_fixed 1 (joints_deg s ! 0) @ '','' @ fmt_fixed 1 (joints_deg s ! 1)
       @ '','' @ fmt_fixed 1 (joints_deg s ! 2) @ '']}'')"

definition telemetry_line :: "rat \<Rightarrow> sim \<Rightarrow> string" where
  "telemetry_line now s =
     ''{\"t\":'' @ fmt_fixed 3 now @ '',\"device\":\"'' @ sim_name s @ ''\",\"profile\":\"''
     @ profile_str (profile s) @ ''\",\"state\":'' @ state_text s @ ''}'' @ [CHR 0x0A]"

definition emit_telemetry :: "rat \<Rightarrow> sim \<Rightarrow> sim" where
  "emit_telemetry now s =
     (if f_sub now (last_telemetry s) < f64_round (5 / 100) then s
      else
        let s = s\<lparr>last_telemetry := now\<rparr> in
        case telemetry s of
          None \<Rightarrow> s
        | Some file \<Rightarrow> s\<lparr>telemetry := Some (file @ [telemetry_line now s])\<rparr>)"

definition sim_step :: "sim \<Rightarrow> sim" where
  "sim_step s =
     (let now = now_s s; dt = f_sub now (last_step s); s = s\<lparr>last_step := now\<rparr> in
      if dt \<le> 0 then s
      else
        let dt = (if 1 / 2 < dt then 1 / 2 else dt)
        in emit_telemetry now (step_profile (profile s) dt s))"

section \<open>The hardware methods\<close>

definition sim_gpio_set :: "u32 \<Rightarrow> u32 \<Rightarrow> sim \<Rightarrow> sim" where
  "sim_gpio_set pin state s =
     (let s = sim_step s in
      if unat pin < length (gpio s) then s\<lparr>gpio := (gpio s)[unat pin := state]\<rparr> else s)"

definition bool_u32 :: "bool \<Rightarrow> u32" where
  "bool_u32 b = (if b then 1 else 0)"

definition sim_gpio_get :: "u32 \<Rightarrow> sim \<Rightarrow> u32 \<times> sim" where
  "sim_gpio_get pin s =
     (let s = sim_step s in
      (if profile s = Conveyor \<and> pin = 26 then
         (if fault_active s then 0 else bool_u32 (belt_pos s < f64_round (2 / 10)))
       else if profile s = Arm \<and> pin = 20 then bool_u32 (joints_deg s ! 0 \<le> 1)
       else if profile s = Arm \<and> pin = 21 then bool_u32 (179 \<le> joints_deg s ! 0)
       else if unat pin < length (gpio s) then gpio s ! unat pin
       else 0, s))"

definition sim_delay_ms :: "u32 \<Rightarrow> sim \<Rightarrow> sim" where
  "sim_delay_ms ms s =
     sim_step (if SIM_STOPPED s then s else s\<lparr>elapsed_ns := elapsed_ns s + unat ms * 1000000\<rparr>)"

definition sim_get_uptime_us :: "sim \<Rightarrow> u64" where
  "sim_get_uptime_us s = word_of_nat (elapsed_ns s div 1000)"

definition imu_bytes :: "sim \<Rightarrow> bytes \<Rightarrow> bytes" where
  "imu_bytes s rx =
     (let alt_cm = unat (f64_to_u16 (f64_clamp (f_mul (altitude_m s) 100) 0 65535));
          rx = (if length rx \<ge> 2 then [word_of_nat (alt_cm div 256), word_of_nat alt_cm] @ drop 2 rx else rx)
      in if length rx \<ge> 3 then rx[2 := if vertical_v s \<ge> 0 then 1 else 0] else rx)"

definition sim_i2c_transfer :: "u8 \<Rightarrow> bytes \<Rightarrow> bytes \<Rightarrow> sim \<Rightarrow> i32 \<times> bytes \<times> sim" where
  "sim_i2c_transfer addr tx rx s =
     (let s = sim_step s in
      if profile s = Drone \<and> addr = 0x68 then (0, imu_bytes s rx, s) else (-1, rx, s))"

definition sim_log :: "string \<Rightarrow> sim \<Rightarrow> sim" where
  "sim_log message s =
     (let now = now_s s;
          s = (case telemetry s of
                 None \<Rightarrow> s
               | Some file \<Rightarrow> s\<lparr>telemetry := Some (file @
                   [''{\"t\":'' @ fmt_fixed 3 now @ '',\"device\":\"'' @ sim_name s @ ''\",\"log\":\"''
                    @ json_escape message @ ''\"}'' @ [CHR 0x0A]])\<rparr>)
      in s\<lparr>stderr_lines := stderr_lines s @ [''['' @ sim_name s @ ''] '' @ message]\<rparr>)"

definition sim_pwm_set :: "u32 \<Rightarrow> u32 \<Rightarrow> sim \<Rightarrow> sim" where
  "sim_pwm_set channel duty s =
     (let s = sim_step s in
      if unat channel < length (pwm s)
      then s\<lparr>pwm := (pwm s)[unat channel := f_div (of_nat (unat (min duty 10000))) 10000]\<rparr> else s)"

definition sim_adc_read :: "u32 \<Rightarrow> sim \<Rightarrow> u32 \<times> sim" where
  "sim_adc_read channel s =
     (let s = sim_step s in
      (if profile s = Drone \<and> channel = 0 then f64_to_u32 (f_div (battery_mv s) 2)
       else if profile s = Conveyor \<and> channel = 1 then f64_to_u32 (f_mul (motor_temp_c s) 10)
       else if profile s = Oven \<and> channel = 0 then f64_to_u32 (f_mul (oven_temp_c s) 10)
       else if profile s = Arm \<and> channel = 0 then f64_to_u32 (f_mul (pwm s ! 3) 4095)
       else 0, s))"

definition sim_spi_transfer :: "u32 \<Rightarrow> bytes \<Rightarrow> bytes \<Rightarrow> sim \<Rightarrow> i32 \<times> bytes \<times> sim" where
  "sim_spi_transfer bus tx rx s =
     (let n = min (length tx) (length rx) in (0, take n tx @ drop n rx, s))"

definition sim_hal :: "sim hardware" where
  "sim_hal = \<lparr>
     hw_gpio_set = sim_gpio_set,
     hw_gpio_get = sim_gpio_get,
     hw_delay_ms = sim_delay_ms,
     hw_get_uptime_us = sim_get_uptime_us,
     hw_i2c_transfer = sim_i2c_transfer,
     hw_log = sim_log,
     hw_pwm_set = sim_pwm_set,
     hw_adc_read = sim_adc_read,
     hw_spi_transfer = sim_spi_transfer,
     hw_uart_write = (\<lambda>bus data s. (word_of_nat (length data), s)),
     hw_uart_read = (\<lambda>bus buf timeout_ms s. (0, buf, s))\<rparr>"

section \<open>The discovery manifest of a machine\<close>

fun sim_board :: "sim_profile \<Rightarrow> string" where
  "sim_board Drone = ''sim-drone''"
| "sim_board Conveyor = ''sim-conveyor''"
| "sim_board Oven = ''sim-oven''"
| "sim_board Arm = ''sim-arm''"

definition sim_header :: "sim_profile \<Rightarrow> manifest_header" where
  "sim_header prof = \<lparr>mh_board = sim_board prof, mh_family = ''sim'', mh_firmware_version = CARGO_PKG_VERSION,
     mh_ram_kb = 4096, mh_flash_kb = 0, mh_max_wasm_memory_kb = 64, mh_max_wasm_stack_kb = 8,
     mh_fuel_default = 500000000\<rparr>"

fun sim_caps :: "sim_profile \<Rightarrow> capabilities" where
  "sim_caps Drone = no_capabilities\<lparr>cap_gpio := \<lparr>gpio_pins = [25]\<rparr>,
     cap_pwm := \<lparr>pwm_pins = [0, 1, 2, 3], pwm_resolution_bits = 14\<rparr>,
     cap_adc := \<lparr>adc_pins = [0], adc_resolution_bits = 12, adc_vref_mv = 3300\<rparr>,
     cap_i2c := [\<lparr>i2c_bus_id = 0, i2c_sda_pin = 4, i2c_scl_pin = 5, i2c_devices_present = [0x68]\<rparr>]\<rparr>"
| "sim_caps Conveyor = no_capabilities\<lparr>cap_gpio := \<lparr>gpio_pins = [25, 26]\<rparr>,
     cap_pwm := \<lparr>pwm_pins = [0], pwm_resolution_bits = 14\<rparr>,
     cap_adc := \<lparr>adc_pins = [1], adc_resolution_bits = 12, adc_vref_mv = 3300\<rparr>\<rparr>"
| "sim_caps Oven = no_capabilities\<lparr>cap_gpio := \<lparr>gpio_pins = [25]\<rparr>,
     cap_pwm := \<lparr>pwm_pins = [0], pwm_resolution_bits = 14\<rparr>,
     cap_adc := \<lparr>adc_pins = [0], adc_resolution_bits = 12, adc_vref_mv = 3300\<rparr>\<rparr>"
| "sim_caps Arm = no_capabilities\<lparr>cap_gpio := \<lparr>gpio_pins = [20, 21, 25]\<rparr>,
     cap_pwm := \<lparr>pwm_pins = [0, 1, 2, 3], pwm_resolution_bits = 14\<rparr>,
     cap_adc := \<lparr>adc_pins = [0], adc_resolution_bits = 12, adc_vref_mv = 3300\<rparr>\<rparr>"

text \<open>\<open>replace_range(0..1, ..)\<close> replaces the opening brace by a brace and the name.\<close>

definition sim_manifest :: "sim_profile \<Rightarrow> string \<Rightarrow> string" where
  "sim_manifest prof name =
     ''{\"name\":\"'' @ json_escape name @ ''\",'' @ drop 1 (build (sim_header prof) (sim_caps prof))"

section \<open>Numbers in range\<close>

definition in_range :: "rat \<Rightarrow> rat \<Rightarrow> rat \<Rightarrow> bool" where
  "in_range lo hi x \<longleftrightarrow> lo \<le> x \<and> x \<le> hi \<and> f64_round x = x"

lemma f64_half [simp]: "f64_round (1 / 2) = 1 / 2"
  using f64_round_exact [of 1 "-1"] by (simp add: power_int_minus)

lemma in_range_round:
  "lo \<le> x \<Longrightarrow> x \<le> hi \<Longrightarrow> f64_round lo = lo \<Longrightarrow> f64_round hi = hi \<Longrightarrow> in_range lo hi (f64_round x)"
  by (simp add: in_range_def f64.lower f64.upper f64.idem)

lemma in_range_add:
  "in_range a b x \<Longrightarrow> in_range c d y \<Longrightarrow> f64_round (a + c) = a + c \<Longrightarrow> f64_round (b + d) = b + d \<Longrightarrow>
     in_range (a + c) (b + d) (f_add x y)"
  unfolding f_add_def by (rule in_range_round) (auto simp: in_range_def)

lemma in_range_mul:
  assumes "in_range 0 a x" and "in_range 0 b y" and "f64_round (a * b) = c"
  shows "in_range 0 c (f_mul x y)"
proof -
  have "x * y \<le> a * b" using assms by (intro mult_mono) (auto simp: in_range_def)
  then have "f64_round (x * y) \<le> c" using f64.mono assms(3) by metis
  moreover have "0 \<le> f64_round (x * y)" using assms by (intro f64.nonneg) (auto simp: in_range_def)
  ultimately show ?thesis by (simp add: in_range_def f_mul_def f64.idem)
qed

lemma in_range_div4: "in_range 0 4 x \<Longrightarrow> in_range 0 1 (f_div x 4)"
  unfolding f_div_def by (rule in_range_round) (auto simp: in_range_def)

lemma in_range_weaken: "in_range a b x \<Longrightarrow> c \<le> a \<Longrightarrow> b \<le> d \<Longrightarrow> in_range c d x"
  by (simp add: in_range_def)

lemma in_range_numeral: "in_range 0 (numeral n) (numeral n)" if "(numeral n :: int) \<le> 9007199254740992"
  using that by (simp add: in_range_def)

lemma in_range_relax:
  assumes y: "in_range lo hi y" and t: "in_range lo hi target" and dt: "in_range 0 (1 / 2) dt" and tau: "2 \<le> tau"
  shows "in_range lo hi (relax y target dt tau)"
proof -
  have "dt / tau \<le> (1 / 2) / 2" using dt tau by (intro frac_le) (auto simp: in_range_def)
  then have f: "0 \<le> f_div dt tau" "f_div dt tau \<le> 1 / 4"
    using dt tau f64.nonneg [of "dt / tau"] f64.upper [OF _ f64.quarter, of "dt / tau"]
    by (simp_all add: in_range_def f_div_def)
  have "min y target \<le> relax y target dt tau \<and> relax y target dt tau \<le> max y target"
    using f64.relax_between [OF _ _ f, of y target] y t
    by (simp add: in_range_def relax_def f_add_def f_mul_def f_sub_def)
  moreover have "f64_round (relax y target dt tau) = relax y target dt tau"
    by (simp add: relax_def f_add_def f64.idem)
  ultimately show ?thesis using y t by (auto simp: in_range_def)
qed

section \<open>What the physics keeps\<close>

definition sim_good :: "sim \<Rightarrow> bool" where
  "sim_good s \<longleftrightarrow>
     length (pwm s) = 8 \<and> (\<forall>x \<in> set (pwm s). in_range 0 1 x) \<and> length (gpio s) = 32
   \<and> 0 \<le> altitude_m s \<and> in_range 3300 4200 (battery_mv s)
   \<and> in_range 0 1 (belt_pos s) \<and> belt_pos s < 1 \<and> in_range 25 80 (motor_temp_c s)
   \<and> in_range 25 430 (oven_temp_c s)
   \<and> length (joints_deg s) = 3 \<and> (\<forall>x \<in> set (joints_deg s). in_range 0 180 x)"

lemma sim_good_pwm: "sim_good s \<Longrightarrow> i < 8 \<Longrightarrow> in_range 0 1 (pwm s ! i)"
  by (simp add: sim_good_def)

lemma sim_good_joint: "sim_good s \<Longrightarrow> i < 3 \<Longrightarrow> in_range 0 180 (joints_deg s ! i)"
  by (simp add: sim_good_def)

lemma sum4:
  assumes "in_range 0 1 a" and "in_range 0 1 b" and "in_range 0 1 c" and "in_range 0 1 d"
  shows "in_range 0 4 (f_add (f_add (f_add a b) c) d)"
proof -
  have "in_range 0 2 (f_add a b)" using in_range_add [OF assms(1,2)] by simp
  then have "in_range 0 3 (f_add (f_add a b) c)" using in_range_add [OF _ assms(3), of 0 2] by simp
  then show ?thesis using in_range_add [OF _ assms(4), of 0 3] by simp
qed

lemma thrust_in_range:
  assumes "sim_good s"
  shows "in_range 0 1 (thrust_of s)"
proof -
  note p = sim_good_pwm [OF assms]
  have four: "f64_round (4 / 10) \<le> 1" using f64.upper [of "4 / 10" 1] by simp
  have four0: "in_range 0 (f64_round (4 / 10)) (f64_round (4 / 10))"
    using f64.nonneg [of "4 / 10"] by (simp add: in_range_def f64.idem)
  have "in_range 0 (f64_round (4 / 10)) (f_mul (pwm s ! 2) (f64_round (4 / 10)))"
    using in_range_mul [OF p [of 2] four0] f64.idem by simp
  then have "in_range 0 1 (f_mul (pwm s ! 2) (f64_round (4 / 10)))"
    using four by (auto intro: in_range_weaken)
  then have faulty: "in_range 0 4 (f_add (f_add (f_add (pwm s ! 0) (pwm s ! 1)) (f_mul (pwm s ! 2) (f64_round (4 / 10)))) (pwm s ! 3))"
    using p by (intro sum4) simp_all
  have "length (pwm s) = 8" using assms by (simp add: sim_good_def)
  then have "take 4 (pwm s) = [pwm s ! 0, pwm s ! 1, pwm s ! 2, pwm s ! 3]"
    by (auto simp: length_Suc_conv numeral_eq_Suc)
  moreover have "f_add 0 (pwm s ! 0) = pwm s ! 0" using p [of 0] by (simp add: f_add_def in_range_def)
  ultimately have "foldl f_add 0 (take 4 (pwm s)) = f_add (f_add (f_add (pwm s ! 0) (pwm s ! 1)) (pwm s ! 2)) (pwm s ! 3)"
    by simp
  moreover have "in_range 0 4 (f_add (f_add (f_add (pwm s ! 0) (pwm s ! 1)) (pwm s ! 2)) (pwm s ! 3))"
    using p by (intro sum4) simp_all
  ultimately show ?thesis
    using faulty by (simp add: thrust_of_def Let_def in_range_div4)
qed

lemma step_drone_good:
  assumes g: "sim_good s" and dt: "in_range 0 (1 / 2) dt"
  shows "sim_good (step_drone dt s)"
proof -
  have "in_range 0 25 (f_mul (thrust_of s) 25)"
    using in_range_mul [OF thrust_in_range [OF g] in_range_numeral] by simp
  then have drain: "0 \<le> f_mul (f_mul (thrust_of s) 25) dt"
    using dt by (auto simp: f_mul_def in_range_def intro!: f64.nonneg mult_nonneg_nonneg)
  let ?b = "f_sub (battery_mv s) (f_mul (f_mul (thrust_of s) 25) dt)"
  have b: "in_range 3300 4200 (battery_mv s)" using g by (simp add: sim_good_def)
  then have "?b \<le> 4200" using drain unfolding f_sub_def by (intro f64.upper) (auto simp: in_range_def)
  then have "in_range 3300 4200 (if ?b < 3300 then 3300 else ?b)"
    by (auto simp: in_range_def f_sub_def f64.idem)
  then show ?thesis using g by (simp add: step_drone_def sim_good_def Let_def)
qed

text \<open>The belt moves by at most one item a step, so the loop turns at most twice.\<close>

lemma belt_loop_below: "pos < 1 \<Longrightarrow> belt_loop pos items = Some (pos, items)"
  by (subst belt_loop.simps) simp

lemma belt_loop_again: "1 \<le> pos \<Longrightarrow> belt_loop pos items = belt_loop (f_sub pos 1) (items + 1)"
  by (subst belt_loop.simps) simp

lemma belt_loop_returns:
  assumes "in_range 0 2 pos"
  shows "\<exists>p i. belt_loop pos items = Some (p, i) \<and> in_range 0 1 p \<and> p < 1"
proof (cases "pos < 1")
  case True
  then show ?thesis using belt_loop_below assms by (auto simp: in_range_def)
next
  case False
  let ?p = "f_sub pos 1"
  have p: "in_range 0 1 ?p" unfolding f_sub_def using assms False by (intro in_range_round) (auto simp: in_range_def)
  have l: "belt_loop pos items = belt_loop ?p (items + 1)" using False by (intro belt_loop_again) simp
  show ?thesis
  proof (cases "?p < 1")
    case True
    with l p belt_loop_below show ?thesis by auto
  next
    case False
    with p have one: "?p = 1" by (simp add: in_range_def)
    have "belt_loop 1 (items + 1) = belt_loop 0 (items + 1 + 1)"
      using belt_loop_again [of 1 "items + 1"] by (simp add: f_sub_def)
    with l one show ?thesis by (simp add: belt_loop_below in_range_def)
  qed
qed

lemma step_conveyor_good:
  assumes g: "sim_good s" and dt: "in_range 0 (1 / 2) dt"
  shows "sim_good (step_conveyor dt s)"
proof -
  note p0 = sim_good_pwm [OF g, of 0, simplified]
  have "in_range 0 2 (f_mul (pwm s ! 0) 2)" using in_range_mul [OF p0 in_range_numeral] by simp
  then have move: "in_range 0 1 (f_mul (f_mul (pwm s ! 0) 2) dt)" by (rule in_range_mul [OF _ dt]) simp
  have "in_range 0 1 (belt_pos s)" using g by (simp add: sim_good_def)
  from in_range_add [OF this move] have pos: "in_range 0 2 (f_add (belt_pos s) (f_mul (f_mul (pwm s ! 0) 2) dt))" by simp
  have "in_range 0 55 (f_mul (pwm s ! 0) 55)" using in_range_mul [OF p0 in_range_numeral] by simp
  then have "in_range (25 + 0) (25 + 55) (f_add 25 (f_mul (pwm s ! 0) 55))"
    by (intro in_range_add) (simp_all add: in_range_def)
  then have "in_range 25 80 (f_add 25 (f_mul (pwm s ! 0) 55))" by simp
  then have temp: "in_range 25 80 (relax (motor_temp_c s) (f_add 25 (f_mul (pwm s ! 0) 55)) dt 8)"
    using g dt by (intro in_range_relax) (simp_all add: sim_good_def)
  from belt_loop_returns [OF pos] obtain p i where
    "belt_loop (f_add (belt_pos s) (f_mul (f_mul (pwm s ! 0) 2) dt)) (items_passed s) = Some (p, i)"
    "in_range 0 1 p" "p < 1" by blast
  with g temp show ?thesis by (simp add: step_conveyor_def sim_good_def Let_def)
qed

lemma oven_rating: "f64_round (300 * f64_round (135 / 100)) = 405"
  by code_simp

lemma step_oven_good:
  assumes g: "sim_good s" and dt: "in_range 0 (1 / 2) dt"
  shows "sim_good (step_oven dt s)"
proof -
  let ?eff = "if fault_active s then f64_round (135 / 100) else 1"
  have r: "1 \<le> f64_round (135 / 100)" using f64.lower [of 1 "135 / 100"] by simp
  have eff: "in_range 0 (f64_round (135 / 100)) ?eff" using r by (simp add: in_range_def f64.idem)
  have "in_range 0 300 (f_mul (pwm s ! 0) 300)"
    using in_range_mul [OF sim_good_pwm [OF g, of 0] in_range_numeral] by simp
  then have "in_range 0 405 (f_mul (f_mul (pwm s ! 0) 300) ?eff)" using eff oven_rating by (rule in_range_mul)
  then have "in_range (25 + 0) (25 + 405) (f_add 25 (f_mul (f_mul (pwm s ! 0) 300) ?eff))"
    by (intro in_range_add) (simp_all add: in_range_def)
  then have "in_range 25 430 (relax (oven_temp_c s) (f_add 25 (f_mul (f_mul (pwm s ! 0) 300) ?eff)) dt 6)"
    using g dt by (intro in_range_relax) (simp_all add: sim_good_def)
  with g show ?thesis by (simp add: step_oven_def sim_good_def Let_def)
qed

lemma joint_top:
  assumes "0 \<le> j" and "j \<le> 180"
  shows "f64_round (j + f64_round (180 - j)) \<le> 180"
proof -
  have "\<bar>f64_round (180 - j) - (180 - j)\<bar> \<le> 1 / 2 ^ 46"
    using assms by (intro f64_round_error) (simp add: abs_less_iff)
  then have "j + f64_round (180 - j) \<le> 180 + 1 / 2 ^ 46" by linarith
  then have "f64_round (j + f64_round (180 - j)) \<le> f64_round (180 + 1 / 2 ^ 46)" by (rule f64.mono)
  also have "\<dots> = 180" by code_simp
  finally show ?thesis .
qed

lemma step_joint_range:
  assumes p: "in_range 0 1 p" and j: "in_range 0 180 j" and dt: "in_range 0 (1 / 2) dt"
  shows "in_range 0 180 (step_joint dt p j)"
proof -
  have t: "in_range 0 180 (f_mul p 180)" using in_range_mul [OF p in_range_numeral] by simp
  have m: "0 \<le> f_mul 90 dt" using dt unfolding f_mul_def in_range_def by (intro f64.nonneg) simp
  let ?c = "f64_clamp (f_sub (f_mul p 180) j) (- f_mul 90 dt) (f_mul 90 dt)"
  have "f_sub (f_mul p 180) j \<le> f64_round (180 - j)"
    unfolding f_sub_def using t by (intro f64.mono) (simp add: in_range_def)
  moreover have "0 \<le> f64_round (180 - j)" using j by (intro f64.nonneg) (simp add: in_range_def)
  ultimately have "?c \<le> f64_round (180 - j)" using m by (auto simp: f64_clamp_def)
  then have up: "f64_round (j + ?c) \<le> f64_round (j + f64_round (180 - j))" by (intro f64.mono) simp
  have "f64_round (- j) \<le> f_sub (f_mul p 180) j"
    unfolding f_sub_def using t by (intro f64.mono) (simp add: in_range_def)
  then have "- j \<le> f_sub (f_mul p 180) j" using j f64.neg [of j] by (simp add: in_range_def)
  then have "- j \<le> ?c" using m j by (auto simp: f64_clamp_def in_range_def)
  then have "0 \<le> f64_round (j + ?c)" by (intro f64.nonneg) simp
  with up joint_top [of j] j show ?thesis
    by (simp add: step_joint_def in_range_def f_add_def f64.idem Let_def)
qed

lemma step_arm_good:
  assumes g: "sim_good s" and dt: "in_range 0 (1 / 2) dt"
  shows "sim_good (step_arm dt s)"
proof -
  have "in_range 0 180 (step_joint dt (pwm s ! j) (joints_deg s ! j))" if "j < 3" for j
    using that sim_good_pwm [OF g, of j] sim_good_joint [OF g, of j] dt by (intro step_joint_range) simp_all
  with g show ?thesis by (auto simp: step_arm_def sim_good_def)
qed

lemma step_profile_good: "sim_good s \<Longrightarrow> in_range 0 (1 / 2) dt \<Longrightarrow> sim_good (step_profile p dt s)"
  by (cases p) (simp_all add: step_drone_good step_conveyor_good step_oven_good step_arm_good)

lemma emit_telemetry_good: "sim_good (emit_telemetry now s) = sim_good s"
  by (simp add: emit_telemetry_def sim_good_def Let_def split: option.split)

lemma sim_step_good:
  assumes "sim_good s"
  shows "sim_good (sim_step s)"
proof -
  let ?dt = "f_sub (now_s s) (last_step s)"
  have good: "sim_good (s\<lparr>last_step := now_s s\<rparr>)" using assms by (simp add: sim_good_def)
  have "in_range 0 (1 / 2) (if 1 / 2 < ?dt then 1 / 2 else ?dt)" if "\<not> ?dt \<le> 0"
    using that by (simp add: in_range_def f_sub_def f64.idem)
  with good show ?thesis
    by (simp add: sim_step_def Let_def emit_telemetry_good step_profile_good)
qed

lemma sim_good_update:
  "sim_good s \<Longrightarrow> sim_good (s\<lparr>elapsed_ns := n\<rparr>)" "sim_good s \<Longrightarrow> sim_good (s\<lparr>telemetry := t\<rparr>)"
  "sim_good s \<Longrightarrow> sim_good (s\<lparr>stderr_lines := e\<rparr>)" "sim_good s \<Longrightarrow> sim_good (s\<lparr>SIM_STOPPED := b\<rparr>)"
  "sim_good s \<Longrightarrow> sim_good (s\<lparr>slots := ps\<rparr>)" "sim_good s \<Longrightarrow> sim_good (s\<lparr>gpio := (gpio s)[i := v]\<rparr>)"
  by (simp_all add: sim_good_def)

lemma duty_in_range: "in_range 0 1 (f_div (of_nat (unat (min (d :: u32) 10000))) 10000)"
proof -
  have "unat (min d 10000) \<le> 10000" by (simp add: min_def word_le_nat_alt)
  then have "(of_nat (unat (min d 10000)) :: rat) \<le> 10000" by (metis of_nat_le_iff of_nat_numeral)
  moreover have "(0 :: rat) \<le> of_nat (unat (min d 10000))" by (rule of_nat_0_le_iff)
  ultimately show ?thesis unfolding f_div_def by (intro in_range_round) (simp_all del: of_nat_unat)
qed

lemma sim_pwm_set_good:
  assumes "sim_good s"
  shows "sim_good (sim_pwm_set c d s)"
proof -
  have s1: "sim_good (sim_step s)" using assms by (rule sim_step_good)
  then have "\<forall>x \<in> set ((pwm (sim_step s))[unat c := f_div (of_nat (unat (min d 10000))) 10000]). in_range 0 1 x"
    using duty_in_range [of d] by (auto simp: sim_good_def dest!: set_update_subset_insert [THEN subsetD])
  with s1 show ?thesis by (simp add: sim_pwm_set_def Let_def sim_good_def)
qed

lemma sim_hw_step_good:
  assumes "hw_step sim_hal s s'" and "sim_good s"
  shows "sim_good s'"
  using assms
proof cases
  case (log message)
  have "sim_good (sim_log message s)"
    using assms(2) by (cases "telemetry s") (simp_all add: sim_log_def Let_def sim_good_update)
  with log show ?thesis by (simp add: sim_hal_def)
next
  case (pwm_set channel duty)
  with sim_pwm_set_good assms(2) show ?thesis by (simp add: sim_hal_def)
qed (use assms(2) in \<open>auto simp: sim_hal_def sim_gpio_set_def sim_gpio_get_def sim_delay_ms_def
  sim_i2c_transfer_def sim_adc_read_def sim_spi_transfer_def Let_def sim_step_good sim_good_update split: if_splits\<close>)

interpretation sim_hw: milo_hardware sim_hal sim_good
proof
  show "length rx' = length rx" if "hw_i2c_transfer sim_hal addr tx rx s = (r, rx', s')"
    for s s' and addr tx rx r rx'
    using that by (auto simp: sim_hal_def sim_i2c_transfer_def imu_bytes_def Let_def split: if_splits)
  show "length rx' = length rx" if "hw_spi_transfer sim_hal bus tx rx s = (r, rx', s')"
    for s s' and bus tx rx r rx'
    using that by (auto simp: sim_hal_def sim_spi_transfer_def Let_def)
  show "length rx' = length rx" if "hw_uart_read sim_hal bus rx t s = (r, rx', s')"
    for s s' and bus rx t r rx'
    using that by (simp add: sim_hal_def)
qed (rule sim_hw_step_good)

section \<open>Properties\<close>

text \<open>
  Everything that can happen to a simulated machine: a call of the running module, the passing
  of time, a parameter the host writes, a stop and a start.
\<close>

inductive sim_reachable :: "sim \<Rightarrow> bool" where
  new: "sim_new prof name file stopped ps = Ok s \<Longrightarrow> sim_reachable s"
| call: "sim_reachable s \<Longrightarrow> hw_step sim_hal s s' \<Longrightarrow> sim_reachable s'"
| time: "sim_reachable s \<Longrightarrow> elapsed_ns s \<le> n \<Longrightarrow> sim_reachable (s\<lparr>elapsed_ns := n\<rparr>)"
| param: "sim_reachable s \<Longrightarrow> sim_reachable (s\<lparr>slots := set_param slot v (slots s)\<rparr>)"
| stop: "sim_reachable s \<Longrightarrow> sim_reachable (sim_stop_hook s)"
| start: "sim_reachable s \<Longrightarrow> sim_reachable (sim_start_hook s)"

lemma sim_new_good: "sim_new prof name file stopped ps = Ok s \<Longrightarrow> sim_good s"
  by (auto simp: sim_new_def sim_good_def in_range_def split: option.splits bool.splits)

lemma sim_reachable_good: "sim_reachable s \<Longrightarrow> sim_good s"
proof (induction rule: sim_reachable.induct)
  case (call s s')
  then show ?case using sim_hw.stays_good by blast
qed (auto simp: sim_new_good sim_good_update sim_stop_hook_def sim_start_hook_def)

lemma adc_bounds:
  assumes "sim_good s"
  shows "unat (fst (sim_adc_read c s)) \<le> (if profile (sim_step s) = Oven then 4300 else 4095)"
proof -
  have g: "sim_good (sim_step s)" using assms by (rule sim_step_good)
  let ?s = "sim_step s"
  have "f_div (battery_mv ?s) 2 \<le> of_nat 2100" unfolding f_div_def
    using g by (intro f64.upper) (auto simp: sim_good_def in_range_def)
  then have b: "unat (f64_to_u32 (f_div (battery_mv ?s) 2)) \<le> 2100" by (rule f64_to_u32_le)
  have "f_mul (motor_temp_c ?s) 10 \<le> of_nat 800" unfolding f_mul_def
    using g by (intro f64.upper) (auto simp: sim_good_def in_range_def)
  then have m: "unat (f64_to_u32 (f_mul (motor_temp_c ?s) 10)) \<le> 800" by (rule f64_to_u32_le)
  have "f_mul (oven_temp_c ?s) 10 \<le> of_nat 4300" unfolding f_mul_def
    using g by (intro f64.upper) (auto simp: sim_good_def in_range_def)
  then have o: "unat (f64_to_u32 (f_mul (oven_temp_c ?s) 10)) \<le> 4300" by (rule f64_to_u32_le)
  have "f_mul (pwm ?s ! 3) 4095 \<le> of_nat 4095" unfolding f_mul_def
    using sim_good_pwm [OF g, of 3] by (intro f64.upper) (auto simp: in_range_def)
  then have p: "unat (f64_to_u32 (f_mul (pwm ?s ! 3) 4095)) \<le> 4095" by (rule f64_to_u32_le)
  show ?thesis using b m o p by (simp add: sim_adc_read_def Let_def)
qed

text \<open>
  C38: the simulated machines stay physical, with the rounding of every \<open>f64\<close> operation: over
  any interleaving of module calls, passing time, host parameters, stops and starts, the
  drone is never below ground, its battery stays between 3.3 and 4.2 V, the belt between two
  items, the temperatures between the room's and those of full power, the joints in their
  range, and an ADC value needs 12 bits, except that of the oven, whose faulty heater takes
  it to 4300.
\<close>
theorem sim_stays_physical:
  assumes "sim_reachable s"
  shows "0 \<le> altitude_m s \<and> 3300 \<le> battery_mv s \<and> battery_mv s \<le> 4200
    \<and> 0 \<le> belt_pos s \<and> belt_pos s < 1 \<and> 25 \<le> motor_temp_c s \<and> motor_temp_c s \<le> 80
    \<and> 25 \<le> oven_temp_c s \<and> oven_temp_c s \<le> 430
    \<and> (\<forall>x \<in> set (joints_deg s). 0 \<le> x \<and> x \<le> 180) \<and> (\<forall>x \<in> set (pwm s). 0 \<le> x \<and> x \<le> 1)
    \<and> unat (fst (sim_adc_read c s)) \<le> (if profile (sim_step s) = Oven then 4300 else 4095)"
  using sim_reachable_good [OF assms] adc_bounds [of s c] by (simp add: sim_good_def in_range_def)

theorem sim_stays_physical_witness:
  "\<exists>s. sim_new Conveyor ''belt'' None False PARAM_SLOTS = Ok s
     \<and> motor_temp_c (sim_delay_ms 400 (sim_pwm_set 0 10000 s)) \<le> 80"
proof -
  obtain s where s: "sim_new Conveyor ''belt'' None False PARAM_SLOTS = Ok s" by (simp add: sim_new_def)
  have "hw_step sim_hal s (sim_pwm_set 0 10000 s)"
    using hw_step.pwm_set [of sim_hal s 0 10000] by (simp add: sim_hal_def)
  moreover have "hw_step sim_hal (sim_pwm_set 0 10000 s) (sim_delay_ms 400 (sim_pwm_set 0 10000 s))"
    using hw_step.delay_ms [of sim_hal _ 400] by (simp add: sim_hal_def)
  ultimately have "sim_reachable (sim_delay_ms 400 (sim_pwm_set 0 10000 s))"
    using s sim_reachable.intros(1,2) by blast
  from sim_stays_physical [OF this] s show ?thesis by blast
qed

text \<open>
  A joint of the arm moves at 90 degrees a second at most and never away from its target:
  in a step of \<open>dt\<close> seconds it moves by no more than \<open>90 dt\<close> degrees (and the rounding of the
  last addition, below 2 to the -46).
\<close>
theorem arm_slew_rate:
  assumes "in_range 0 1 p" and "in_range 0 180 j" and "in_range 0 (1 / 2) dt"
  shows "\<bar>step_joint dt p j - j\<bar> \<le> f_mul 90 dt + 1 / 2 ^ 46
    \<and> (j \<le> f_mul p 180 \<longrightarrow> j \<le> step_joint dt p j) \<and> (f_mul p 180 \<le> j \<longrightarrow> step_joint dt p j \<le> j)"
proof -
  let ?m = "f_mul 90 dt" and ?t = "f_mul p 180"
  let ?c = "f64_clamp (f_sub ?t j) (- ?m) ?m"
  have "in_range 0 45 ?m"
    using in_range_mul [OF in_range_numeral assms(3), of "num.Bit0 (num.Bit1 (num.Bit0 (num.Bit1 (num.Bit1 (num.Bit0 num.One)))))"] by simp
  then have m: "0 \<le> ?m" "?m \<le> 45" by (simp_all add: in_range_def)
  then have c: "\<bar>?c\<bar> \<le> ?m" by (auto simp: f64_clamp_def abs_le_iff)
  have j: "0 \<le> j" "j \<le> 180" "f64_round j = j" using assms(2) by (simp_all add: in_range_def)
  have "\<bar>f64_round (j + ?c) - (j + ?c)\<bar> \<le> 1 / 2 ^ 46"
    using c m j by (intro f64_round_error) linarith
  then have "\<bar>f64_round (j + ?c) - j\<bar> \<le> ?m + 1 / 2 ^ 46" using c by linarith
  moreover have "j \<le> f64_round (j + ?c)" if "j \<le> ?t"
  proof -
    have "0 \<le> f_sub ?t j" unfolding f_sub_def using that by (intro f64.nonneg) simp
    then show ?thesis using m j by (intro f64.lower) (auto simp: f64_clamp_def)
  qed
  moreover have "f64_round (j + ?c) \<le> j" if "?t \<le> j"
  proof -
    have "f_sub ?t j \<le> 0" unfolding f_sub_def using that by (intro f64.nonpos) simp
    then show ?thesis using m j by (intro f64.upper) (auto simp: f64_clamp_def)
  qed
  ultimately show ?thesis by (simp add: step_joint_def f_add_def Let_def)
qed

theorem arm_slew_rate_witness:
  "step_joint (1 / 2) 1 0 \<le> 45 + 1 / 2 ^ 46 \<and> 0 \<le> step_joint (1 / 2) 1 0"
proof -
  have "in_range 0 1 1" "in_range 0 180 0" "in_range 0 (1 / 2) (1 / 2)" by (simp_all add: in_range_def)
  note slew = arm_slew_rate [OF this]
  have "\<bar>step_joint (1 / 2) 1 0\<bar> \<le> 45 + 1 / 2 ^ 46" using slew [THEN conjunct1] by (simp add: f_mul_def)
  moreover have "0 \<le> step_joint (1 / 2) 1 0" using slew by (simp add: f_mul_def)
  ultimately show ?thesis by linarith
qed

text \<open>A stopped module's delays take no time; a running one's take theirs.\<close>

lemma stopped_delay:
  "elapsed_ns (sim_delay_ms ms (sim_stop_hook s)) = elapsed_ns s
   \<and> elapsed_ns (sim_delay_ms ms (sim_start_hook s)) = elapsed_ns s + unat ms * 1000000"
proof -
  have "elapsed_ns (sim_step t) = elapsed_ns t" for t
    by (cases "profile t")
      (simp_all add: sim_step_def Let_def emit_telemetry_def step_drone_def step_conveyor_def step_oven_def
        step_arm_def case_prod_beta split: option.split)
  then show ?thesis by (simp add: sim_delay_ms_def sim_stop_hook_def sim_start_hook_def)
qed

fun tagged :: "string \<Rightarrow> json \<Rightarrow> json" where
  "tagged name (JObj fs) = JObj ((''name'', JStr name) # fs)"
| "tagged name v = v"

lemma tag_text:
  assumes "fs \<noteq> []"
  shows "''{\"name\":\"'' @ json_escape name @ ''\",'' @ drop 1 (render (JObj fs)) = render (tagged name (JObj fs))"
  using assms by (simp add: render_obj member_text_def join_Cons quoted_def)

text \<open>
  The manifest of a simulated machine parses back to the manifest of its header and
  capabilities with its name in front, whatever characters the name has.
\<close>
theorem sim_manifest_roundtrip:
  "parse_json (sim_manifest prof name) = Some (tagged name (manifest_value (sim_header prof) (sim_caps prof)))"
proof -
  obtain fs where f: "manifest_value (sim_header prof) (sim_caps prof) = JObj fs" "fs \<noteq> []"
    by (simp add: manifest_value_def)
  show ?thesis
    unfolding sim_manifest_def manifest_text f(1) tag_text [OF f(2)] by (rule parse_json_render)
qed

end
