(* ===== verification/Laptop_Entry.thy ===== *)
theory Laptop_Entry
  imports Provisioning Transports Threaded Sim
begin

text \<open>
  The laptop entry point (\<open>main\<close> of \<open>receiver/src/main.rs\<close> with the feature \<open>std\<close>): the command
  line, the fleet emulator on a TCP port, the loop over frames on standard input, and the run
  of a file. \<open>serde_json::to_string\<close> and the file system are parameters; banners on standard
  error are not modelled.
\<close>

section \<open>The manifest of the mock\<close>

definition laptop_header :: manifest_header where
  "laptop_header = \<lparr>mh_board = ''laptop-mock'', mh_family = ''mock'', mh_firmware_version = CARGO_PKG_VERSION,
     mh_ram_kb = 4096, mh_flash_kb = 0, mh_max_wasm_memory_kb = 256, mh_max_wasm_stack_kb = 32,
     mh_fuel_default = 10000000\<rparr>"

definition laptop_caps :: capabilities where
  "laptop_caps = no_capabilities\<lparr>
     cap_gpio := \<lparr>gpio_pins = [0, 1, 2, 3, 4, 5]\<rparr>,
     cap_pwm := \<lparr>pwm_pins = [0, 1, 2, 3, 4, 5], pwm_resolution_bits = 16\<rparr>,
     cap_adc := \<lparr>adc_pins = [0, 1, 2, 3], adc_resolution_bits = 12, adc_vref_mv = 3300\<rparr>,
     cap_uart := [\<lparr>uart_bus_id = 1, uart_tx_pin = 0, uart_rx_pin = 0\<rparr>]\<rparr>"

definition hardware_manifest :: string where
  "hardware_manifest = build laptop_header laptop_caps"

section \<open>The command line\<close>

text \<open>\<open>str::parse\<close> of an unsigned integer: an optional plus sign, digits, no overflow.\<close>

fun digits_from :: "nat \<Rightarrow> nat \<Rightarrow> string \<Rightarrow> nat option" where
  "digits_from bound acc [] = Some acc"
| "digits_from bound acc (c # s) =
     (if is_digit c then
        (let n = acc * 10 + (of_char c - 48) in if n < bound then digits_from bound n s else None)
      else None)"

definition parse_unsigned :: "nat \<Rightarrow> string \<Rightarrow> nat option" where
  "parse_unsigned bound s = (case s of
     [] \<Rightarrow> None
   | c # r \<Rightarrow>
       if c = CHR ''+'' then (if r = [] then None else digits_from bound 0 r)
       else digits_from bound 0 s)"

record options =
  opt_fuel :: "u64 option"
  opt_wasm_path :: "string option"
  opt_stdin_mode :: bool
  opt_listen_port :: "u16 option"
  opt_profile_name :: "string option"
  opt_device_name :: "string option"

definition default_options :: options where
  "default_options = \<lparr>opt_fuel = Some 10000000, opt_wasm_path = None, opt_stdin_mode = False,
     opt_listen_port = None, opt_profile_name = None, opt_device_name = None\<rparr>"

text \<open>A flag at the end of the line without its value indexes past the arguments.\<close>

fun parse_args :: "string list \<Rightarrow> options \<Rightarrow> options outcome" where
  "parse_args [] opts = Ok opts"
| "parse_args (a # rest) opts =
     (if a = ''--stdin'' then parse_args rest (opts\<lparr>opt_stdin_mode := True\<rparr>)
      else if a \<in> {''--fuel'', ''--listen'', ''--profile'', ''--name''} then
        (case rest of
           [] \<Rightarrow> Panic
         | v # rest \<Rightarrow>
             if a = ''--fuel'' then
               (case parse_unsigned (2 ^ 64) v of
                  None \<Rightarrow> Panic
                | Some n \<Rightarrow> parse_args rest (opts\<lparr>opt_fuel := Some (word_of_nat n)\<rparr>))
             else if a = ''--listen'' then
               (case parse_unsigned (2 ^ 16) v of
                  None \<Rightarrow> Panic
                | Some n \<Rightarrow> parse_args rest (opts\<lparr>opt_listen_port := Some (word_of_nat n)\<rparr>))
             else if a = ''--profile'' then parse_args rest (opts\<lparr>opt_profile_name := Some v\<rparr>)
             else parse_args rest (opts\<lparr>opt_device_name := Some v\<rparr>))
      else parse_args rest (opts\<lparr>opt_wasm_path := Some a\<rparr>))"

section \<open>The fleet emulator\<close>

text \<open>The static \<open>SIM_STOPPED\<close>, which the hooks write, is the world outside the executor.\<close>

record sim_env =
  env_trusted_key :: "string option"
  env_require_signed :: "string option"
  env_telemetry :: "bool option"

definition sim_setup ::
  "('k, 's) ed25519 option \<Rightarrow> u16 \<Rightarrow> options \<Rightarrow> sim_env \<Rightarrow>
   ((tcp_server, (sim, bool) threaded, sim, 'k, 's) board \<times> (sim, bool) threaded) outcome" where
  "sim_setup signing port opts env =
     (let profile_name = (case opt_profile_name opts of Some p \<Rightarrow> p | None \<Rightarrow> ''drone'') in
      case parse_profile profile_name of
        None \<Rightarrow> Panic
      | Some prof \<Rightarrow>
          let name = (case opt_device_name opts of
                        Some n \<Rightarrow> n | None \<Rightarrow> profile_name @ ''-'' @ dec (unat port)) in
          and_then (sim_new prof name (env_telemetry env) False PARAM_SLOTS) (\<lambda>hal.
          and_then (sim_policy (env_trusted_key env) (env_require_signed env)) (\<lambda>policy.
            Ok (\<lparr>bd_target = laptop_release, bd_signing = signing, bd_transport = tcp_server_transport,
                 bd_executor = threaded_executor, bd_manifest = sim_manifest prof name, bd_policy = policy\<rparr>,
                new_threaded hal (Some 500000000) (Some (\<lambda>_. True)) (Some (\<lambda>_. False)) False))))"

text \<open>Binding the port can fail, which ends the program with the error.\<close>

definition sim_receiver ::
  "('k, 's) ed25519 option \<Rightarrow> u16 \<Rightarrow> options \<Rightarrow> sim_env \<Rightarrow> string + tcp_server \<Rightarrow> sim run list \<Rightarrow>
   (string + (tcp_server, (sim, bool) threaded) loop_state) outcome" where
  "sim_receiver signing port opts env bound runs =
     and_then (sim_setup signing port opts env) (\<lambda>(bd, exec).
       case bound of
         Inl e \<Rightarrow> Ok (Inl e)
       | Inr server \<Rightarrow>
           and_then (main_loop_with_policy bd runs
             \<lparr>ls_transport = server, ls_exec = exec, ls_params = PARAM_SLOTS\<rparr>) (\<lambda>st. Ok (Inr st)))"

section \<open>Frames on standard input\<close>

text \<open>
  A run is what a fresh mock with a fresh runtime makes of a module: \<open>MiloRuntime::execute\<close> of
  \<open>run_logic\<close>, logs or an error.
\<close>

type_synonym stdin_run = "bytes \<Rightarrow> (milo_error + string list) outcome"

definition mock_run ::
  "('m, 'g, mock) machine \<Rightarrow> param_trace \<Rightarrow> param_trace \<Rightarrow> u64 option \<Rightarrow> stdin_run" where
  "mock_run mc ps_start ps fuel_opt wasm =
     and_then (execute mc ps_start ps wasm ''run_logic'' (new_runtime new_mock fuel_opt)) (\<lambda>(r, rt). Ok r)"

definition stdin_error_json :: "string \<Rightarrow> string" where
  "stdin_error_json e = ''{\"error\":\"'' @ e @ ''\"}''"

definition stdin_opcode_json :: "u8 \<Rightarrow> string" where
  "stdin_opcode_json op =
     ''{\"error\":\"unexpected opcode 0x'' @ hex2 (unat op) @ '', expected 0x01 or 0x02\"}''"

definition stdin_result_json :: "(string list \<Rightarrow> string option) \<Rightarrow> milo_error + string list \<Rightarrow> string" where
  "stdin_result_json to_json r = (case r of
     Inr logs \<Rightarrow> ''{\"ok\":true,\"logs\":'' @ (case to_json logs of Some t \<Rightarrow> t | None \<Rightarrow> ''[]'') @ ''}''
   | Inl e \<Rightarrow> ''{\"ok\":false,\"error\":\"'' @ milo_error_display e @ ''\"}'')"

definition stdin_reply :: "u8 \<Rightarrow> string \<Rightarrow> writer \<Rightarrow> writer" where
  "stdin_reply op text w = snd (write_frame (new_frame op (bytes_of_str text)) w)"

definition stdin_frame ::
  "target \<Rightarrow> (string list \<Rightarrow> string option) \<Rightarrow> stdin_run \<Rightarrow> frame \<Rightarrow> writer \<Rightarrow> writer outcome" where
  "stdin_frame t to_json run f w =
     (if opcode f = OP_DISCOVERY then Ok (stdin_reply OP_DISCOVERY hardware_manifest w)
      else if opcode f \<noteq> OP_BYTECODE_PUSH then Ok (stdin_reply OP_EXEC_RESULT (stdin_opcode_json (opcode f)) w)
      else
        and_then (validate_wasm_imports t (payload f)) (\<lambda>v.
          if \<not> valid v then Ok (stdin_reply OP_EXEC_RESULT (rejected_imports_json (rejected_imports v)) w)
          else
            and_then (run (payload f)) (\<lambda>r.
              Ok (stdin_reply OP_EXEC_RESULT (stdin_result_json to_json r) w))))"

text \<open>Every frame read, and every failed read but the last, consumes input.\<close>

lemma std_read_exact_shorter:
  "std_read_exact n s = (r, s') \<Longrightarrow> length s' \<le> length s
     \<and> (0 < n \<and> r \<noteq> Inl \<lparr>kind = UnexpectedEof, io_text = ''failed to fill whole buffer''\<rparr> \<longrightarrow> length s' < length s)"
proof (induction n s arbitrary: r s' rule: std_read_exact.induct)
  case (4 n b s)
  then show ?case by (auto split: prod.splits sum.splits)
qed auto

lemma read_exact_shorter:
  assumes "read_exact n r = (x, r')"
  shows "length (input r') \<le> length (input r) \<and> (0 < n \<and> x \<noteq> Inl ConnectionClosed \<longrightarrow> length (input r') < length (input r))"
  using assms std_read_exact_shorter [of n "input r"]
  by (auto simp: read_exact_def split: prod.splits sum.splits if_splits)

lemma read_frame_shorter:
  assumes "read_frame r = (x, r')" and "x \<noteq> Inl ConnectionClosed"
  shows "length (input r') < length (input r)"
proof -
  obtain y r1 where h: "read_exact 5 r = (y, r1)" by (cases "read_exact 5 r")
  have y: "y \<noteq> Inl ConnectionClosed" using assms h by (auto simp: read_frame_def)
  then have l: "length (input r1) < length (input r)" using read_exact_shorter [OF h] by simp
  show ?thesis
  proof (cases y)
    case (Inl e)
    with assms h l show ?thesis by (simp add: read_frame_def)
  next
    case (Inr header)
    have "length (input r') \<le> length (input r1)"
      using assms(1) h Inr read_exact_shorter [of "header_len header" "r1\<lparr>allocs := allocs r1 @ [header_len header]\<rparr>"]
      by (auto simp: read_frame_def Let_def split: if_splits prod.splits sum.splits)
    with l show ?thesis by linarith
  qed
qed

function stdin_loop ::
  "(frame \<Rightarrow> writer \<Rightarrow> writer outcome) \<Rightarrow> stdio \<Rightarrow> stdio outcome" where
  "stdin_loop handle s =
     (let (r, i) = read_frame (sio_stdin s) in
      if r = Inl ConnectionClosed then Ok (s\<lparr>sio_stdin := i\<rparr>)
      else
        case r of
          Inl e \<Rightarrow> stdin_loop handle \<lparr>sio_stdin = i,
              sio_stdout = stdin_reply OP_EXEC_RESULT (stdin_error_json (link_error_display e)) (sio_stdout s)\<rparr>
        | Inr f \<Rightarrow>
            and_then (handle f (sio_stdout s)) (\<lambda>w. stdin_loop handle \<lparr>sio_stdin = i, sio_stdout = w\<rparr>))"
  by pat_completeness auto

termination
  by (relation "measure (\<lambda>(h, s). length (input (sio_stdin s)))") (auto dest!: read_frame_shorter [OF sym])

declare stdin_loop.simps [simp del]

section \<open>The modes of the program\<close>

datatype laptop_exit = Returned | Failed string | Exited nat

definition run_file :: "(string \<Rightarrow> string + bytes) \<Rightarrow> stdin_run \<Rightarrow> string \<Rightarrow> laptop_exit outcome" where
  "run_file read_file run path = (case read_file path of
     Inl e \<Rightarrow> Ok (Failed e)
   | Inr wasm_bytes \<Rightarrow>
       and_then (run wasm_bytes) (\<lambda>r. Ok (case r of Inr logs \<Rightarrow> Returned | Inl e \<Rightarrow> Exited 1)))"

datatype laptop_mode = ListenMode u16 | StdinMode | FileMode string | UsageMode

definition select_mode :: "options \<Rightarrow> laptop_mode" where
  "select_mode opts =
     (case opt_listen_port opts of
        Some port \<Rightarrow> ListenMode port
      | None \<Rightarrow>
          if opt_stdin_mode opts then StdinMode
          else case opt_wasm_path opts of Some path \<Rightarrow> FileMode path | None \<Rightarrow> UsageMode)"

text \<open>
  The emulator's main loop has no end: after any number of iterations the program has not
  returned.
\<close>

definition laptop_main ::
  "('m, 'g, mock) machine \<Rightarrow> param_trace \<Rightarrow> param_trace \<Rightarrow> (string list \<Rightarrow> string option) \<Rightarrow>
   (string \<Rightarrow> string + bytes) \<Rightarrow> ('k, 's) ed25519 option \<Rightarrow> sim_env \<Rightarrow> (u16 \<Rightarrow> string + tcp_server) \<Rightarrow>
   sim run list \<Rightarrow> string list \<Rightarrow> stdio \<Rightarrow> (laptop_exit \<times> stdio) outcome" where
  "laptop_main mc ps_start ps to_json read_file signing env bind runs args s =
     and_then (parse_args (drop 1 args) default_options) (\<lambda>opts.
       let run = mock_run mc ps_start ps (opt_fuel opts) in
       case select_mode opts of
         ListenMode port \<Rightarrow>
           and_then (sim_receiver signing port opts env (bind port) runs) (\<lambda>r.
             case r of Inl e \<Rightarrow> Ok (Failed e, s) | Inr st \<Rightarrow> Diverges)
       | StdinMode \<Rightarrow>
           and_then (stdin_loop (stdin_frame laptop_release to_json run) s) (\<lambda>s. Ok (Returned, s))
       | FileMode path \<Rightarrow> and_then (run_file read_file run path) (\<lambda>e. Ok (e, s))
       | UsageMode \<Rightarrow> Ok (Exited 1, s))"

section \<open>Properties\<close>

lemma stdin_loop_frame:
  assumes "small f" and "input (sio_stdin s) = byte_stream (serialize f) @ rest"
  shows "stdin_loop handle s = and_then (handle f (sio_stdout s)) (\<lambda>w. stdin_loop handle
      \<lparr>sio_stdin = \<lparr>input = rest, allocs = allocs (sio_stdin s) @ [length (payload f)]\<rparr>, sio_stdout = w\<rparr>)"
  using read_frame_serialize [of f "sio_stdin s" rest] assms
  by (subst stdin_loop.simps) (simp add: small_def)

lemma stdin_loop_frames:
  assumes "\<forall>f \<in> set fs. small f" and "input (sio_stdin s) = byte_stream (concat (map serialize fs))"
  shows "and_then (stdin_loop handle s) (\<lambda>s. Ok (sio_stdout s)) = handle_all handle fs (sio_stdout s)"
  using assms
proof (induction fs arbitrary: s)
  case Nil
  then have "sio_stdin s = \<lparr>input = [], allocs = allocs (sio_stdin s)\<rparr>" by simp
  then have "read_frame (sio_stdin s) = (Inl ConnectionClosed, sio_stdin s)" by (metis read_frame_eof)
  then show ?case by (subst stdin_loop.simps) simp
next
  case (Cons f fs)
  have inp: "input (sio_stdin s) = byte_stream (serialize f) @ byte_stream (concat (map serialize fs))"
    using Cons.prems(2) by (simp add: byte_stream_append)
  have sm: "small f" using Cons.prems(1) by simp
  show ?case
  proof (cases "handle f (sio_stdout s)")
    case (Ok w)
    let ?s = "\<lparr>sio_stdin = \<lparr>input = byte_stream (concat (map serialize fs)), allocs = allocs (sio_stdin s) @ [length (payload f)]\<rparr>,
      sio_stdout = w\<rparr>"
    have "and_then (stdin_loop handle ?s) (\<lambda>s. Ok (sio_stdout s)) = handle_all handle fs (sio_stdout ?s)"
      using Cons.prems by (intro Cons.IH) simp_all
    with Ok show ?thesis by (simp add: stdin_loop_frame [OF sm inp])
  qed (simp_all add: stdin_loop_frame [OF sm inp])
qed

text \<open>
  C40: on standard input the receiver answers exactly the frames it is sent, one after the
  other in order, and returns when the input ends.
\<close>
theorem stdin_answers_frames_in_order:
  assumes "\<forall>f \<in> set fs. length (payload f) \<le> MAX_FRAME_LEN"
    and "input (sio_stdin s) = byte_stream (concat (map serialize fs))"
  shows "and_then (stdin_loop handle s) (\<lambda>s. Ok (sio_stdout s)) = handle_all handle fs (sio_stdout s)"
  using assms by (intro stdin_loop_frames) (simp_all add: small_def)

definition quiet_stdio :: "bytes \<Rightarrow> stdio" where
  "quiet_stdio bs = \<lparr>sio_stdin = \<lparr>input = byte_stream bs, allocs = []\<rparr>,
     sio_stdout = \<lparr>written = [], room = None, write_error = \<lparr>kind = OtherKind, io_text = []\<rparr>, flush_error = None\<rparr>\<rparr>"

theorem stdin_answers_frames_in_order_witness:
  "and_then (stdin_loop (stdin_frame laptop_release (\<lambda>logs. None) (\<lambda>w. Ok (Inr []))) (quiet_stdio [6, 0, 0, 0, 0]))
     (\<lambda>s. Ok (sio_stdout s))
   = Ok (stdin_reply OP_EXEC_RESULT (stdin_opcode_json 6) (sio_stdout (quiet_stdio [])))"
proof -
  let ?f = "\<lparr>opcode = 6, payload = []\<rparr>"
  have "input (sio_stdin (quiet_stdio [6, 0, 0, 0, 0])) = byte_stream (concat (map serialize [?f]))"
    by (simp add: quiet_stdio_def serialize_def to_be_bytes_def)
  from stdin_answers_frames_in_order [OF _ this, of "stdin_frame laptop_release (\<lambda>logs. None) (\<lambda>w. Ok (Inr []))"]
  show ?thesis by (simp add: stdin_frame_def opcode_defs quiet_stdio_def)
qed

text \<open>
  An oversized frame on standard input is refused after its header only, so its payload is
  read as frames: a frame hidden in the payload is handled like one that was sent.
\<close>
theorem stdin_refused_payload_is_handled:
  assumes "unat (from_be_bytes a b c d) > MAX_FRAME_LEN" and "length (payload f) \<le> MAX_FRAME_LEN"
    and "input (sio_stdin s) = byte_stream ([op, a, b, c, d] @ serialize f @ rest)"
  shows "\<exists>w1 r1. w1 = stdin_reply OP_EXEC_RESULT
        (stdin_error_json (link_error_display (Io (oversize_text (unat (from_be_bytes a b c d)))))) (sio_stdout s)
    \<and> input r1 = byte_stream rest
    \<and> stdin_loop handle s = and_then (handle f w1) (\<lambda>w. stdin_loop handle \<lparr>sio_stdin = r1, sio_stdout = w\<rparr>)"
proof -
  let ?i = "(sio_stdin s)\<lparr>input := byte_stream (serialize f @ rest)\<rparr>"
  let ?w = "stdin_reply OP_EXEC_RESULT
        (stdin_error_json (link_error_display (Io (oversize_text (unat (from_be_bytes a b c d)))))) (sio_stdout s)"
  have "input (sio_stdin s) = byte_stream [op, a, b, c, d] @ byte_stream (serialize f @ rest)"
    using assms(3) by (simp only: byte_stream_append)
  from read_frame_oversize [OF this assms(1)]
  have "stdin_loop handle s = stdin_loop handle \<lparr>sio_stdin = ?i, sio_stdout = ?w\<rparr>"
    by (subst stdin_loop.simps) simp
  also have "\<dots> = and_then (handle f ?w) (\<lambda>w. stdin_loop handle
      \<lparr>sio_stdin = \<lparr>input = byte_stream rest, allocs = allocs (sio_stdin s) @ [length (payload f)]\<rparr>, sio_stdout = w\<rparr>)"
    using assms(2) stdin_loop_frame [of f "\<lparr>sio_stdin = ?i, sio_stdout = ?w\<rparr>" "byte_stream rest" handle]
    by (simp add: small_def byte_stream_append)
  finally show ?thesis
    by (intro exI [of _ ?w] exI [of _ "\<lparr>input = byte_stream rest, allocs = allocs (sio_stdin s) @ [length (payload f)]\<rparr>"]) simp
qed

theorem stdin_refused_payload_is_handled_witness:
  "\<exists>w1 r1. input r1 = []
    \<and> stdin_loop (\<lambda>f w. Ok w) (quiet_stdio ([2, 0xFF, 0, 0, 0] @ [2, 0, 0, 0, 1, 7]))
        = and_then (Ok w1) (\<lambda>w. stdin_loop (\<lambda>f w. Ok w) \<lparr>sio_stdin = r1, sio_stdout = w\<rparr>)"
proof -
  have 1: "unat (from_be_bytes 0xFF 0 0 0) > MAX_FRAME_LEN" by (simp add: unat_from_be_bytes MAX_FRAME_LEN_def)
  have 2: "length (payload \<lparr>opcode = 2, payload = [7]\<rparr>) \<le> MAX_FRAME_LEN" by (simp add: MAX_FRAME_LEN_def)
  have 3: "input (sio_stdin (quiet_stdio ([2, 0xFF, 0, 0, 0] @ [2, 0, 0, 0, 1, 7])))
      = byte_stream ([2, 0xFF, 0, 0, 0] @ serialize \<lparr>opcode = 2, payload = [7]\<rparr> @ [])"
    by (simp add: quiet_stdio_def serialize_def to_be_bytes_def)
  from stdin_refused_payload_is_handled [OF 1 2 3, of "\<lambda>f w. Ok w"] show ?thesis
    by (auto simp only: byte_stream_Nil)
qed

text \<open>
  The replies of this mode are not escaped: an engine error with a quotation mark in it is not
  JSON on the wire.
\<close>

lemma stdin_error_not_json:
  "parse_json (stdin_result_json to_json (Inl (Trapped ''a\"b''))) = None"
  by (simp add: stdin_result_json_def milo_error_display_def) code_simp

text \<open>What the command line accepts and what it panics on.\<close>

lemma parse_args_examples:
  "parse_args [''--fuel''] opts = Panic" "parse_args [''--listen'', ''65536''] opts = Panic"
  "parse_args [''--fuel'', ''-1''] opts = Panic"
  "parse_args [''--stdin'', ''--fuel'', ''+20''] opts = Ok (opts\<lparr>opt_stdin_mode := True, opt_fuel := Some 20\<rparr>)"
  by (simp_all add: parse_unsigned_def is_digit_def Let_def)

end
