(* ===== verification/Engine_Errors.thy ===== *)
theory Engine_Errors
  imports Fuel
begin

text \<open>
  The error values of the patched wasm engine: trap codes
  (\<open>patches/wasmi_core/src/trap.rs\<close>), the errors of memories, tables and resource limiters with
  their texts and conversions (\<open>memory/error.rs\<close>, \<open>table/error.rs\<close>, \<open>limiter.rs\<close>).
\<close>

section \<open>Trap codes\<close>

datatype trap_code =
    UnreachableCodeReached
  | MemoryOutOfBounds
  | TableOutOfBounds
  | IndirectCallToNull
  | IntegerDivisionByZero
  | IntegerOverflow
  | BadConversionToInteger
  | StackOverflow
  | BadSignature
  | OutOfFuel
  | GrowthOperationLimited

fun u8_of_trap_code :: "trap_code \<Rightarrow> u8" where
  "u8_of_trap_code UnreachableCodeReached = 0"
| "u8_of_trap_code MemoryOutOfBounds = 1"
| "u8_of_trap_code TableOutOfBounds = 2"
| "u8_of_trap_code IndirectCallToNull = 3"
| "u8_of_trap_code IntegerDivisionByZero = 4"
| "u8_of_trap_code IntegerOverflow = 5"
| "u8_of_trap_code BadConversionToInteger = 6"
| "u8_of_trap_code StackOverflow = 7"
| "u8_of_trap_code BadSignature = 8"
| "u8_of_trap_code trap_code.OutOfFuel = 9"
| "u8_of_trap_code GrowthOperationLimited = 10"

definition trap_code_of_u8 :: "u8 \<Rightarrow> trap_code option" where
  "trap_code_of_u8 v =
     (if v = 0 then Some UnreachableCodeReached
      else if v = 1 then Some MemoryOutOfBounds
      else if v = 2 then Some TableOutOfBounds
      else if v = 3 then Some IndirectCallToNull
      else if v = 4 then Some IntegerDivisionByZero
      else if v = 5 then Some IntegerOverflow
      else if v = 6 then Some BadConversionToInteger
      else if v = 7 then Some StackOverflow
      else if v = 8 then Some BadSignature
      else if v = 9 then Some trap_code.OutOfFuel
      else if v = 10 then Some GrowthOperationLimited
      else None)"

fun trap_message :: "trap_code \<Rightarrow> string" where
  "trap_message UnreachableCodeReached = ''wasm `unreachable` instruction executed''"
| "trap_message MemoryOutOfBounds = ''out of bounds memory access''"
| "trap_message TableOutOfBounds = ''undefined element: out of bounds table access''"
| "trap_message IndirectCallToNull = ''uninitialized element 2''"
| "trap_message IntegerDivisionByZero = ''integer divide by zero''"
| "trap_message IntegerOverflow = ''integer overflow''"
| "trap_message BadConversionToInteger = ''invalid conversion to integer''"
| "trap_message StackOverflow = ''call stack exhausted''"
| "trap_message BadSignature = ''indirect call type mismatch''"
| "trap_message trap_code.OutOfFuel = ''all fuel consumed by WebAssembly''"
| "trap_message GrowthOperationLimited = ''growth operation limited''"

lemma trap_code_roundtrip: "trap_code_of_u8 (u8_of_trap_code c) = Some c"
  by (cases c) (simp_all add: trap_code_of_u8_def)

lemma trap_code_of_u8_Some: "trap_code_of_u8 v = Some c \<Longrightarrow> u8_of_trap_code c = v"
  by (auto simp: trap_code_of_u8_def split: if_splits)

section \<open>Errors of memories, tables and limiters\<close>

datatype memory_error =
    OutOfSystemMemory
  | OutOfBoundsGrowth
  | OutOfBoundsAccess
  | InvalidMemoryType
  | InvalidStaticBufferSize
  | ResourceLimiterDeniedAllocation
  | MinimumSizeOverflow
  | MaximumSizeOverflow
  | OutOfFuel u64

datatype table_error =
    OutOfSystemMemory
  | MinimumSizeOverflow
  | MaximumSizeOverflow
  | ResourceLimiterDeniedAllocation
  | GrowOutOfBounds
  | InitOutOfBounds
  | FillOutOfBounds
  | SetOutOfBounds
  | CopyOutOfBounds
  | ElementTypeMismatch
  | OutOfFuel u64

datatype limiter_error =
    OutOfSystemMemory
  | OutOfBoundsGrowth
  | ResourceLimiterDeniedAllocation
  | OutOfFuel u64

fun memory_error_display :: "memory_error \<Rightarrow> string" where
  "memory_error_display memory_error.OutOfSystemMemory =
     ''tried to allocate more virtual memory than available on the system''"
| "memory_error_display memory_error.OutOfBoundsGrowth = ''out of bounds memory growth''"
| "memory_error_display OutOfBoundsAccess = ''out of bounds memory access''"
| "memory_error_display InvalidMemoryType = ''tried to create an invalid linear memory type''"
| "memory_error_display InvalidStaticBufferSize = ''tried to use too small static buffer''"
| "memory_error_display memory_error.ResourceLimiterDeniedAllocation =
     ''a resource limiter denied to allocate or grow the linear memory''"
| "memory_error_display memory_error.MinimumSizeOverflow =
     ''the minimum size of the memory type overflows the system index type''"
| "memory_error_display memory_error.MaximumSizeOverflow =
     ''the maximum size of the memory type overflows the system index type''"
| "memory_error_display (memory_error.OutOfFuel required) =
     ''not enough fuel. required='' @ dec (unat required)"

fun table_error_display :: "table_error \<Rightarrow> string" where
  "table_error_display table_error.OutOfSystemMemory =
     ''tried to allocate more virtual memory than available on the system''"
| "table_error_display table_error.MinimumSizeOverflow =
     ''the minimum table size overflows the system bounds''"
| "table_error_display table_error.MaximumSizeOverflow =
     ''the maximum table size overflows the system bounds''"
| "table_error_display table_error.ResourceLimiterDeniedAllocation =
     ''a resource limiter denied to allocate or grow the table''"
| "table_error_display GrowOutOfBounds = ''out of bounds table access: `table.growth`''"
| "table_error_display InitOutOfBounds = ''out of bounds table access: `table.init`''"
| "table_error_display FillOutOfBounds = ''out of bounds table access: `table.fill`''"
| "table_error_display CopyOutOfBounds = ''out of bounds table access: `table.copy`''"
| "table_error_display SetOutOfBounds = ''out of bounds table access: `table.set`''"
| "table_error_display ElementTypeMismatch = ''encountered mismatching table element type''"
| "table_error_display (table_error.OutOfFuel required) =
     ''not enough fuel: required='' @ dec (unat required)"

fun limiter_error_display :: "limiter_error \<Rightarrow> string" where
  "limiter_error_display limiter_error.OutOfSystemMemory = ''out of system memory''"
| "limiter_error_display limiter_error.OutOfBoundsGrowth = ''out of bounds growth''"
| "limiter_error_display limiter_error.ResourceLimiterDeniedAllocation =
     ''resource limiter denied allocation''"
| "limiter_error_display (limiter_error.OutOfFuel required) =
     ''not enough fuel. required='' @ dec (unat required)"

text \<open>The conversions between them; those towards the limiter panic on what it cannot express.\<close>

fun memory_error_of_limiter :: "limiter_error \<Rightarrow> memory_error" where
  "memory_error_of_limiter limiter_error.OutOfSystemMemory = memory_error.OutOfSystemMemory"
| "memory_error_of_limiter limiter_error.OutOfBoundsGrowth = memory_error.OutOfBoundsGrowth"
| "memory_error_of_limiter limiter_error.ResourceLimiterDeniedAllocation =
     memory_error.ResourceLimiterDeniedAllocation"
| "memory_error_of_limiter (limiter_error.OutOfFuel r) = memory_error.OutOfFuel r"

fun table_error_of_limiter :: "limiter_error \<Rightarrow> table_error" where
  "table_error_of_limiter limiter_error.OutOfSystemMemory = table_error.OutOfSystemMemory"
| "table_error_of_limiter limiter_error.OutOfBoundsGrowth = GrowOutOfBounds"
| "table_error_of_limiter limiter_error.ResourceLimiterDeniedAllocation =
     table_error.ResourceLimiterDeniedAllocation"
| "table_error_of_limiter (limiter_error.OutOfFuel r) = table_error.OutOfFuel r"

fun table_error_of_fuel :: "fuel_error \<Rightarrow> table_error outcome" where
  "table_error_of_fuel (fuel_error.OutOfFuel r) = Ok (table_error.OutOfFuel r)"
| "table_error_of_fuel FuelMeteringDisabled = Panic"

fun limiter_error_of_memory :: "memory_error \<Rightarrow> limiter_error outcome" where
  "limiter_error_of_memory memory_error.OutOfSystemMemory = Ok limiter_error.OutOfSystemMemory"
| "limiter_error_of_memory memory_error.OutOfBoundsGrowth = Ok limiter_error.OutOfBoundsGrowth"
| "limiter_error_of_memory memory_error.ResourceLimiterDeniedAllocation =
     Ok limiter_error.ResourceLimiterDeniedAllocation"
| "limiter_error_of_memory (memory_error.OutOfFuel r) = Ok (limiter_error.OutOfFuel r)"
| "limiter_error_of_memory _ = Panic"

fun limiter_error_of_table :: "table_error \<Rightarrow> limiter_error outcome" where
  "limiter_error_of_table table_error.OutOfSystemMemory = Ok limiter_error.OutOfSystemMemory"
| "limiter_error_of_table GrowOutOfBounds = Ok limiter_error.OutOfBoundsGrowth"
| "limiter_error_of_table CopyOutOfBounds = Ok limiter_error.OutOfBoundsGrowth"
| "limiter_error_of_table FillOutOfBounds = Ok limiter_error.OutOfBoundsGrowth"
| "limiter_error_of_table InitOutOfBounds = Ok limiter_error.OutOfBoundsGrowth"
| "limiter_error_of_table table_error.ResourceLimiterDeniedAllocation =
     Ok limiter_error.ResourceLimiterDeniedAllocation"
| "limiter_error_of_table (table_error.OutOfFuel r) = Ok (limiter_error.OutOfFuel r)"
| "limiter_error_of_table _ = Panic"

lemma memory_error_limiter_roundtrip:
  "limiter_error_of_memory (memory_error_of_limiter e) = Ok e"
  by (cases e) simp_all

end
