(* ===== verification/Linear_Memory.thy ===== *)
theory Linear_Memory
  imports Engine_Errors
begin

text \<open>
  The linear memory of a guest in the patched \<open>wasmi_core\<close>: memory types and their builder
  (\<open>memory/ty.rs\<close>, \<open>index_ty.rs\<close>), the byte buffer (\<open>memory/buffer.rs\<close>), creating, growing, reading and
  writing a memory (\<open>memory/mod.rs\<close>), and the resource limiter it asks (\<open>limiter.rs\<close>, with the
  \<open>StoreLimits\<close> of \<open>patches/wasmi/src/limits.rs\<close>). A \<open>u128\<close> is a natural number here: the sizes
  computed stay below 2 to the power of 80. What the allocator can serve is an argument.
\<close>

section \<open>Memory types\<close>

datatype index_type = I32 | I64

definition is_64 :: "index_type \<Rightarrow> bool" where
  "is_64 it = (it = I64)"

definition index_max_size :: "index_type \<Rightarrow> nat" where
  "index_max_size it = (case it of I32 \<Rightarrow> 2 ^ 32 | I64 \<Rightarrow> 2 ^ 64)"

definition index_min :: "index_type \<Rightarrow> index_type \<Rightarrow> index_type" where
  "index_min a b = (case (a, b) of (I64, I64) \<Rightarrow> I64 | _ \<Rightarrow> I32)"

record memory_type =
  mt_minimum :: u64
  mt_maximum :: "u64 option"
  mt_page_size_log2 :: u8
  mt_index_type :: index_type

definition absolute_max :: "memory_type \<Rightarrow> nat" where
  "absolute_max ty = index_max_size (mt_index_type ty) div 2 ^ unat (mt_page_size_log2 ty)"

text \<open>\<open>None\<close> is the error \<open>SizeOverflow\<close>.\<close>

definition minimum_byte_size :: "memory_type \<Rightarrow> nat option" where
  "minimum_byte_size ty =
     (let mn = unat (mt_minimum ty)
      in if mn > absolute_max ty then None else Some (mn * 2 ^ unat (mt_page_size_log2 ty)))"

definition maximum_byte_size :: "memory_type \<Rightarrow> nat option" where
  "maximum_byte_size ty =
     (case mt_maximum ty of
        Some maximum \<Rightarrow>
          (let mx = unat maximum
           in if mx > absolute_max ty then None else Some (mx * 2 ^ unat (mt_page_size_log2 ty)))
      | None \<Rightarrow> Some (index_max_size (mt_index_type ty)))"

text \<open>\<open>1 << page_size_log2\<close> in \<open>u32\<close>.\<close>

definition page_size :: "memory_type \<Rightarrow> u32" where
  "page_size ty = push_bit (unat (mt_page_size_log2 ty)) 1"

text \<open>The builder: its default, its setters, and the validation of \<open>build\<close>.\<close>

definition memory_type_builder :: memory_type where
  "memory_type_builder =
     \<lparr>mt_minimum = 0, mt_maximum = None, mt_page_size_log2 = 16, mt_index_type = I32\<rparr>"

definition set_memory64 :: "bool \<Rightarrow> memory_type \<Rightarrow> memory_type" where
  "set_memory64 memory64 b = b\<lparr>mt_index_type := (if memory64 then I64 else I32)\<rparr>"

definition set_min :: "u64 \<Rightarrow> memory_type \<Rightarrow> memory_type" where
  "set_min minimum b = b\<lparr>mt_minimum := minimum\<rparr>"

definition set_max :: "u64 option \<Rightarrow> memory_type \<Rightarrow> memory_type" where
  "set_max maximum b = b\<lparr>mt_maximum := maximum\<rparr>"

definition set_page_size_log2 :: "u8 \<Rightarrow> memory_type \<Rightarrow> memory_type" where
  "set_page_size_log2 log2 b = b\<lparr>mt_page_size_log2 := log2\<rparr>"

definition validate_memory_type :: "memory_type \<Rightarrow> memory_error + unit" where
  "validate_memory_type b =
     (if \<not> (mt_page_size_log2 b = 0 \<or> mt_page_size_log2 b = 16) then Inl InvalidMemoryType
      else if minimum_byte_size b = None then Inl InvalidMemoryType
      else (case mt_maximum b of
              Some maximum \<Rightarrow>
                if maximum_byte_size b = None then Inl InvalidMemoryType
                else if mt_minimum b > maximum then Inl InvalidMemoryType
                else Inr ()
            | None \<Rightarrow> Inr ()))"

definition build_memory_type :: "memory_type \<Rightarrow> memory_error + memory_type" where
  "build_memory_type b = (case validate_memory_type b of Inl e \<Rightarrow> Inl e | Inr _ \<Rightarrow> Inr b)"

definition is_subtype_of :: "memory_type \<Rightarrow> memory_type \<Rightarrow> bool" where
  "is_subtype_of ty other =
     (if is_64 (mt_index_type ty) \<noteq> is_64 (mt_index_type other) then False
      else if page_size ty \<noteq> page_size other then False
      else if mt_minimum ty < mt_minimum other then False
      else (case (mt_maximum ty, mt_maximum other) of
              (_, None) \<Rightarrow> True
            | (Some mx, Some other_max) \<Rightarrow> mx \<le> other_max
            | _ \<Rightarrow> False))"

section \<open>Resource limiters\<close>

text \<open>\<open>dyn ResourceLimiter\<close>: the operations of an implementation over its state.\<close>

record 'l limiter =
  lim_memory_growing :: "nat \<Rightarrow> nat \<Rightarrow> nat option \<Rightarrow> 'l \<Rightarrow> (limiter_error + bool) \<times> 'l"
  lim_table_growing :: "nat \<Rightarrow> nat \<Rightarrow> nat option \<Rightarrow> 'l \<Rightarrow> (limiter_error + bool) \<times> 'l"
  lim_memory_grow_failed :: "limiter_error \<Rightarrow> 'l \<Rightarrow> 'l"
  lim_table_grow_failed :: "limiter_error \<Rightarrow> 'l \<Rightarrow> 'l"
  lim_instances :: "'l \<Rightarrow> nat"
  lim_tables :: "'l \<Rightarrow> nat"
  lim_memories :: "'l \<Rightarrow> nat"

record store_limits =
  sl_memory_size :: "nat option"
  sl_table_elements :: "nat option"
  sl_instances :: nat
  sl_tables :: nat
  sl_memories :: nat
  sl_trap_on_grow_failure :: bool

definition default_store_limits :: store_limits where
  "default_store_limits =
     \<lparr>sl_memory_size = None, sl_table_elements = None, sl_instances = 10000, sl_tables = 10000,
      sl_memories = 10000, sl_trap_on_grow_failure = False\<rparr>"

text \<open>The common body of \<open>memory_growing\<close> and \<open>table_growing\<close>, on the limit it looks at.\<close>

definition limits_allow :: "nat option \<Rightarrow> nat \<Rightarrow> nat option \<Rightarrow> bool" where
  "limits_allow limit desired maximum =
     (case limit of
        Some l \<Rightarrow> if desired > l then False
                  else (case maximum of Some m \<Rightarrow> \<not> desired > m | None \<Rightarrow> True)
      | None \<Rightarrow> (case maximum of Some m \<Rightarrow> \<not> desired > m | None \<Rightarrow> True))"

definition limits_growing ::
  "nat option \<Rightarrow> nat \<Rightarrow> nat option \<Rightarrow> store_limits \<Rightarrow> (limiter_error + bool) \<times> store_limits" where
  "limits_growing limit desired maximum s =
     (let allow = limits_allow limit desired maximum
      in if \<not> allow \<and> sl_trap_on_grow_failure s
         then (Inl limiter_error.ResourceLimiterDeniedAllocation, s) else (Inr allow, s))"

definition store_limits :: "store_limits limiter" where
  "store_limits =
     \<lparr>lim_memory_growing = (\<lambda>_ desired maximum s. limits_growing (sl_memory_size s) desired maximum s),
      lim_table_growing = (\<lambda>_ desired maximum s. limits_growing (sl_table_elements s) desired maximum s),
      lim_memory_grow_failed = (\<lambda>_ s. s), lim_table_grow_failed = (\<lambda>_ s. s),
      lim_instances = sl_instances, lim_tables = sl_tables, lim_memories = sl_memories\<rparr>"

section \<open>The byte buffer\<close>

text \<open>
  A buffer is a vector or a window on a static array, whose length is its capacity. A static
  array's bytes beyond the window are overwritten before they become visible. The bytes a vector
  has spare are up to the allocator; \<open>al n\<close> says that it can give the vector room for n bytes.
\<close>

record byte_buffer =
  buf_bytes :: bytes
  buf_static :: "nat option"

type_synonym allocator = "nat \<Rightarrow> bool"

definition try_reserve :: "target \<Rightarrow> allocator \<Rightarrow> nat \<Rightarrow> nat \<Rightarrow> bool" where
  "try_reserve t al len additional \<longleftrightarrow>
     additional = 0 \<or> (len + additional < 2 ^ (usize_bits t - 1) \<and> al (len + additional))"

definition buffer_new :: "target \<Rightarrow> allocator \<Rightarrow> nat \<Rightarrow> memory_error + byte_buffer" where
  "buffer_new t al initial_size =
     (if \<not> try_reserve t al 0 initial_size then Inl memory_error.OutOfSystemMemory
      else Inr \<lparr>buf_bytes = replicate initial_size 0, buf_static = None\<rparr>)"

definition buffer_new_static :: "bytes \<Rightarrow> nat \<Rightarrow> memory_error + byte_buffer" where
  "buffer_new_static buffer initial_size =
     (if initial_size \<le> length buffer
      then Inr \<lparr>buf_bytes = replicate initial_size 0, buf_static = Some (length buffer)\<rparr>
      else Inl InvalidStaticBufferSize)"

definition buffer_grow_vec ::
  "target \<Rightarrow> allocator \<Rightarrow> nat \<Rightarrow> byte_buffer \<Rightarrow> (memory_error + unit) \<times> byte_buffer" where
  "buffer_grow_vec t al new_size b =
     (let additional = new_size - length (buf_bytes b)
      in if \<not> try_reserve t al (length (buf_bytes b)) additional
         then (Inl memory_error.OutOfSystemMemory, b)
         else (Inr (), b\<lparr>buf_bytes := buf_bytes b @ replicate additional 0\<rparr>))"

definition buffer_grow_static ::
  "nat \<Rightarrow> nat \<Rightarrow> byte_buffer \<Rightarrow> (memory_error + unit) \<times> byte_buffer" where
  "buffer_grow_static capacity new_size b =
     (if capacity < new_size then (Inl InvalidStaticBufferSize, b)
      else (Inr (), b\<lparr>buf_bytes := buf_bytes b @ replicate (new_size - length (buf_bytes b)) 0\<rparr>))"

definition buffer_grow ::
  "target \<Rightarrow> allocator \<Rightarrow> nat \<Rightarrow> byte_buffer \<Rightarrow> ((memory_error + unit) \<times> byte_buffer) outcome" where
  "buffer_grow t al new_size b =
     (if \<not> length (buf_bytes b) \<le> new_size then Panic
      else Ok (case buf_static b of
                 None \<Rightarrow> buffer_grow_vec t al new_size b
               | Some capacity \<Rightarrow> buffer_grow_static capacity new_size b))"

section \<open>The memory\<close>

record memory =
  mem_buffer :: byte_buffer
  mem_type :: memory_type

abbreviation mem_data :: "memory \<Rightarrow> bytes" where
  "mem_data m \<equiv> buf_bytes (mem_buffer m)"

definition checked_add64 :: "u64 \<Rightarrow> u64 \<Rightarrow> u64 option" where
  "checked_add64 a b = (if unat a + unat b < 2 ^ 64 then Some (a + b) else None)"

definition checked_mul64 :: "u64 \<Rightarrow> u64 \<Rightarrow> u64 option" where
  "checked_mul64 a b = (if unat a * unat b < 2 ^ 64 then Some (a * b) else None)"

text \<open>\<open>u64\<close> to \<open>usize\<close> with \<open>as\<close>, which drops the high bits.\<close>

definition as_usize :: "target \<Rightarrow> u64 \<Rightarrow> nat" where
  "as_usize t x = unat x mod 2 ^ usize_bits t"

definition notify_limiter :: "'l limiter option \<Rightarrow> memory_error \<Rightarrow> 'l \<Rightarrow> 'l outcome" where
  "notify_limiter lim e l =
     (case lim of
        None \<Rightarrow> Ok l
      | Some f \<Rightarrow> and_then (limiter_error_of_memory e) (\<lambda>le. Ok (lim_memory_grow_failed f le l)))"

definition memory_new_impl ::
  "target \<Rightarrow> (nat \<Rightarrow> memory_error + byte_buffer) \<Rightarrow> 'l limiter option \<Rightarrow> memory_type \<Rightarrow> 'l \<Rightarrow>
   ((memory_error + memory) \<times> 'l) outcome" where
  "memory_new_impl t make_buffer lim ty l =
     (case minimum_byte_size ty of
        None \<Rightarrow> Ok (Inl memory_error.MinimumSizeOverflow, l)
      | Some min_size \<Rightarrow>
          if \<not> min_size < 2 ^ usize_bits t then Ok (Inl memory_error.MinimumSizeOverflow, l)
          else if (case mt_maximum ty of Some mx \<Rightarrow> unat mx > absolute_max ty | None \<Rightarrow> False)
          then Ok (Inl memory_error.MaximumSizeOverflow, l)
          else
            let max_size = map_option (\<lambda>mx.
                  let bytes = unat mx * 2 ^ unat (mt_page_size_log2 ty)
                  in if bytes < 2 ^ usize_bits t then bytes else 2 ^ usize_bits t - 1) (mt_maximum ty);
                allocate = (\<lambda>l. case make_buffer min_size of
                  Inr buffer \<Rightarrow> Ok (Inr \<lparr>mem_buffer = buffer, mem_type = ty\<rparr>, l)
                | Inl e \<Rightarrow> and_then (notify_limiter lim e l) (\<lambda>l. Ok (Inl e, l)))
            in (case lim of
                  None \<Rightarrow> allocate l
                | Some f \<Rightarrow>
                    (case lim_memory_growing f 0 min_size max_size l of
                       (Inl e, l) \<Rightarrow> Ok (Inl (memory_error_of_limiter e), l)
                     | (Inr ok, l) \<Rightarrow>
                         if \<not> ok then Ok (Inl memory_error.ResourceLimiterDeniedAllocation, l)
                         else allocate l)))"

definition memory_new ::
  "target \<Rightarrow> allocator \<Rightarrow> 'l limiter option \<Rightarrow> memory_type \<Rightarrow> 'l \<Rightarrow>
   ((memory_error + memory) \<times> 'l) outcome" where
  "memory_new t al lim ty l = memory_new_impl t (buffer_new t al) lim ty l"

definition memory_new_static ::
  "target \<Rightarrow> bytes \<Rightarrow> 'l limiter option \<Rightarrow> memory_type \<Rightarrow> 'l \<Rightarrow>
   ((memory_error + memory) \<times> 'l) outcome" where
  "memory_new_static t buffer lim ty l = memory_new_impl t (buffer_new_static buffer) lim ty l"

text \<open>The size in pages and in bytes, and the maximum in bytes; the products panic on overflow.\<close>

definition memory_size :: "memory \<Rightarrow> u64" where
  "memory_size m = drop_bit (unat (mt_page_size_log2 (mem_type m))) (word_of_nat (length (mem_data m)))"

definition bytes_per_page :: "memory \<Rightarrow> u64" where
  "bytes_per_page m = ucast (page_size (mem_type m))"

definition size_in_bytes :: "memory \<Rightarrow> u64 outcome" where
  "size_in_bytes m =
     (case checked_mul64 (memory_size m) (bytes_per_page m) of Some n \<Rightarrow> Ok n | None \<Rightarrow> Panic)"

definition max_size_in_bytes :: "memory \<Rightarrow> u64 option outcome" where
  "max_size_in_bytes m =
     (case mt_maximum (mem_type m) of
        None \<Rightarrow> Ok None
      | Some max_pages \<Rightarrow>
          (case checked_mul64 max_pages (bytes_per_page m) of
             Some n \<Rightarrow> Ok (Some n) | None \<Rightarrow> Panic))"

definition dynamic_ty :: "memory \<Rightarrow> memory_type outcome" where
  "dynamic_ty m =
     (let b = set_min (memory_size m) memory_type_builder;
          b = set_max (mt_maximum (mem_type m)) b;
          b = set_page_size_log2 (mt_page_size_log2 (mem_type m)) b;
          b = set_memory64 (is_64 (mt_index_type (mem_type m))) b
      in case build_memory_type b of Inr ty \<Rightarrow> Ok ty | Inl e \<Rightarrow> Panic)"

text \<open>Growing: the checks on the size, the limiter, the fuel, and the buffer.\<close>

definition desired_byte_size :: "target \<Rightarrow> memory \<Rightarrow> u64 \<Rightarrow> memory_error + nat" where
  "desired_byte_size t m additional =
     (case checked_add64 (memory_size m) additional of
        None \<Rightarrow> Inl memory_error.OutOfBoundsGrowth
      | Some desired \<Rightarrow>
          if unat desired > absolute_max (mem_type m) then Inl memory_error.OutOfBoundsGrowth
          else if (case mt_maximum (mem_type m) of Some mx \<Rightarrow> desired > mx | None \<Rightarrow> False)
          then Inl memory_error.OutOfBoundsGrowth
          else (case checked_mul64 desired (bytes_per_page m) of
                  None \<Rightarrow> Inl memory_error.OutOfBoundsGrowth
                | Some n \<Rightarrow> if unat n < 2 ^ usize_bits t then Inr (unat n)
                            else Inl memory_error.OutOfBoundsGrowth))"

definition ask_limiter ::
  "'l limiter option \<Rightarrow> nat \<Rightarrow> nat \<Rightarrow> nat option \<Rightarrow> 'l \<Rightarrow> (memory_error + unit) \<times> 'l" where
  "ask_limiter lim current desired maximum l =
     (case lim of
        None \<Rightarrow> (Inr (), l)
      | Some f \<Rightarrow>
          (case lim_memory_growing f current desired maximum l of
             (Inr True, l) \<Rightarrow> (Inr (), l)
           | (Inr False, l) \<Rightarrow> (Inl memory_error.OutOfBoundsGrowth, l)
           | (Inl e, l) \<Rightarrow> (Inl (memory_error_of_limiter e), l)))"

definition charge_growth ::
  "memory \<Rightarrow> u64 \<Rightarrow> fuel option \<Rightarrow> ((memory_error + unit) \<times> fuel option) outcome" where
  "charge_growth m additional fu =
     (case fu of
        None \<Rightarrow> Ok (Inr (), None)
      | Some f \<Rightarrow>
          (case checked_mul64 additional (bytes_per_page m) of
             None \<Rightarrow> Panic
           | Some additional_bytes \<Rightarrow>
               (case consume_fuel_if (\<lambda>c. fuel_for_copying_bytes c additional_bytes) f of
                  (Inl (fuel_error.OutOfFuel r), f) \<Rightarrow> Ok (Inl (memory_error.OutOfFuel r), Some f)
                | (_, f) \<Rightarrow> Ok (Inr (), Some f))))"

text \<open>The last two steps: paying for the new bytes, and growing the buffer.\<close>

definition grow_buffer ::
  "target \<Rightarrow> allocator \<Rightarrow> 'l limiter option \<Rightarrow> nat \<Rightarrow> memory \<Rightarrow> fuel option \<Rightarrow> 'l \<Rightarrow>
   ((memory_error + u64) \<times> memory \<times> fuel option \<times> 'l) outcome" where
  "grow_buffer t al lim desired m fu l =
     and_then (buffer_grow t al desired (mem_buffer m)) (\<lambda>(r, buffer).
       case r of
         Inl e \<Rightarrow> and_then (notify_limiter lim e l) (\<lambda>l. Ok (Inl e, m\<lparr>mem_buffer := buffer\<rparr>, fu, l))
       | Inr _ \<Rightarrow> Ok (Inr (memory_size m), m\<lparr>mem_buffer := buffer\<rparr>, fu, l))"

definition grow_paid ::
  "target \<Rightarrow> allocator \<Rightarrow> 'l limiter option \<Rightarrow> u64 \<Rightarrow> nat \<Rightarrow> memory \<Rightarrow> fuel option \<Rightarrow> 'l \<Rightarrow>
   ((memory_error + u64) \<times> memory \<times> fuel option \<times> 'l) outcome" where
  "grow_paid t al lim additional desired m fu l =
     and_then (charge_growth m additional fu) (\<lambda>(r, fu).
       case r of
         Inl e \<Rightarrow> and_then (notify_limiter lim e l) (\<lambda>l. Ok (Inl e, m, fu, l))
       | Inr _ \<Rightarrow> grow_buffer t al lim desired m fu l)"

definition memory_grow ::
  "target \<Rightarrow> allocator \<Rightarrow> 'l limiter option \<Rightarrow> u64 \<Rightarrow> memory \<Rightarrow> fuel option \<Rightarrow> 'l \<Rightarrow>
   ((memory_error + u64) \<times> memory \<times> fuel option \<times> 'l) outcome" where
  "memory_grow t al lim additional m fu l =
     (if additional = 0 then Ok (Inr (memory_size m), m, fu, l)
      else
        and_then (size_in_bytes m) (\<lambda>current_bytes.
        and_then (max_size_in_bytes m) (\<lambda>maximum_bytes.
          case desired_byte_size t m additional of
            Inl e \<Rightarrow> Ok (Inl e, m, fu, l)
          | Inr desired \<Rightarrow>
              (case ask_limiter lim (as_usize t current_bytes) desired
                      (map_option (as_usize t) maximum_bytes) l of
                 (Inl e, l) \<Rightarrow> Ok (Inl e, m, fu, l)
               | (Inr _, l) \<Rightarrow> grow_paid t al lim additional desired m fu l))))"

text \<open>Reading and writing a span of bytes.\<close>

definition access_span :: "target \<Rightarrow> nat \<Rightarrow> nat \<Rightarrow> memory_error + nat \<times> nat" where
  "access_span t start len =
     (if start + len < 2 ^ usize_bits t then Inr (start, start + len) else Inl OutOfBoundsAccess)"

definition memory_read :: "target \<Rightarrow> nat \<Rightarrow> nat \<Rightarrow> memory \<Rightarrow> memory_error + bytes" where
  "memory_read t offset n m =
     (case access_span t offset n of
        Inl e \<Rightarrow> Inl e
      | Inr (a, b) \<Rightarrow>
          if b \<le> length (mem_data m) then Inr (take (b - a) (drop a (mem_data m)))
          else Inl OutOfBoundsAccess)"

definition memory_write ::
  "target \<Rightarrow> nat \<Rightarrow> bytes \<Rightarrow> memory \<Rightarrow> (memory_error + unit) \<times> memory" where
  "memory_write t offset bs m =
     (case access_span t offset (length bs) of
        Inl e \<Rightarrow> (Inl e, m)
      | Inr (a, b) \<Rightarrow>
          if b \<le> length (mem_data m)
          then (Inr (), m\<lparr>mem_buffer := (mem_buffer m)
                  \<lparr>buf_bytes := take a (mem_data m) @ bs @ drop b (mem_data m)\<rparr>\<rparr>)
          else (Inl OutOfBoundsAccess, m))"

section \<open>Well-formed memories\<close>

definition page :: "memory_type \<Rightarrow> nat" where
  "page ty = 2 ^ unat (mt_page_size_log2 ty)"

definition pages :: "memory \<Rightarrow> nat" where
  "pages m = length (mem_data m) div page (mem_type m)"

definition page_limit :: "memory_type \<Rightarrow> nat" where
  "page_limit ty =
     (case mt_maximum ty of Some mx \<Rightarrow> min (unat mx) (absolute_max ty) | None \<Rightarrow> absolute_max ty)"

definition valid_type :: "memory_type \<Rightarrow> bool" where
  "valid_type ty = (validate_memory_type ty = Inr ())"

definition memory_ok :: "target \<Rightarrow> memory \<Rightarrow> bool" where
  "memory_ok t m \<longleftrightarrow>
     valid_type (mem_type m) \<and> length (mem_data m) mod page (mem_type m) = 0 \<and>
     length (mem_data m) < 2 ^ usize_bits t \<and> usize_bits t \<le> 64 \<and>
     unat (mt_minimum (mem_type m)) \<le> pages m \<and> pages m \<le> page_limit (mem_type m)"

lemma valid_type_log2: "valid_type ty \<Longrightarrow> mt_page_size_log2 ty = 0 \<or> mt_page_size_log2 ty = 16"
  by (auto simp: valid_type_def validate_memory_type_def split: if_splits)

lemma page_cases: "valid_type ty \<Longrightarrow> page ty = 1 \<or> page ty = 65536"
  using valid_type_log2 [of ty] by (auto simp: page_def)

lemma page_pos [simp]: "0 < page ty"
  by (simp add: page_def)

lemma valid_type_minimum: "valid_type ty \<Longrightarrow> unat (mt_minimum ty) \<le> page_limit ty"
  by (auto simp: valid_type_def validate_memory_type_def page_limit_def minimum_byte_size_def
      maximum_byte_size_def Let_def word_less_nat_alt split: if_splits option.splits)

lemma absolute_max_bound: "absolute_max ty \<le> 2 ^ 64"
  unfolding absolute_max_def
  by (rule order_trans [OF div_le_dividend]) (simp add: index_max_size_def split: index_type.split)

lemma unat_bytes_per_page: "valid_type (mem_type m) \<Longrightarrow> unat (bytes_per_page m) = page (mem_type m)"
  using valid_type_log2 [of "mem_type m"]
  by (auto simp: bytes_per_page_def page_size_def page_def)

lemma less_usize_u64: "n < 2 ^ usize_bits t \<Longrightarrow> usize_bits t \<le> 64 \<Longrightarrow> n < (2 :: nat) ^ 64"
  by (rule order_less_le_trans [OF _ power_increasing]) simp_all

lemma unat_of_nat_u64: "n < 2 ^ 64 \<Longrightarrow> unat (word_of_nat n :: u64) = n"
  by (simp add: unat_of_nat)

lemma memory_ok_u64: "memory_ok t m \<Longrightarrow> length (mem_data m) < 2 ^ 64"
  by (rule less_usize_u64 [of _ t]) (simp_all only: memory_ok_def)

lemma unat_memory_size:
  assumes "memory_ok t m"
  shows "unat (memory_size m) = pages m"
proof -
  have "length (mem_data m) < 2 ^ 64" by (rule memory_ok_u64 [OF assms])
  then show ?thesis
    unfolding memory_size_def pages_def page_def
    by (simp only: unat_drop_bit_eq unat_of_nat_u64) (simp only: drop_bit_eq_div)
qed

lemma memory_ok_length: "memory_ok t m \<Longrightarrow> length (mem_data m) = pages m * page (mem_type m)"
  using div_mult_mod_eq [of "length (mem_data m)" "page (mem_type m)"]
  by (simp add: memory_ok_def pages_def)

lemma size_in_bytes_ok:
  assumes "memory_ok t m"
  shows "size_in_bytes m = Ok (word_of_nat (length (mem_data m)))"
proof -
  have v: "valid_type (mem_type m)" using assms by (simp add: memory_ok_def)
  have l: "length (mem_data m) < 2 ^ 64" by (rule memory_ok_u64 [OF assms])
  have p: "unat (memory_size m) * unat (bytes_per_page m) = length (mem_data m)"
    using unat_memory_size [OF assms] unat_bytes_per_page [OF v] memory_ok_length [OF assms]
    by simp
  then have "memory_size m * bytes_per_page m = word_of_nat (length (mem_data m))"
    by (metis of_nat_mult of_nat_unat ucast_id)
  with p l show ?thesis by (simp add: size_in_bytes_def checked_mul64_def)
qed

text \<open>
  The maximum in bytes fits 64 bits, except for the largest maximum a 64-bit memory may declare:
  there the code panics instead of growing.
\<close>

definition max_fits :: "memory_type \<Rightarrow> bool" where
  "max_fits ty = (case mt_maximum ty of Some mx \<Rightarrow> unat mx * page ty < 2 ^ 64 | None \<Rightarrow> True)"

lemma max_size_in_bytes_ok:
  assumes "valid_type (mem_type m)"
  shows "max_size_in_bytes m =
    (if max_fits (mem_type m) then Ok (map_option (\<lambda>mx. mx * bytes_per_page m) (mt_maximum (mem_type m)))
     else Panic)"
  using unat_bytes_per_page [OF assms]
  by (simp add: max_size_in_bytes_def max_fits_def checked_mul64_def split: option.split)

lemma max_fits_32:
  assumes "valid_type ty" and "mt_index_type ty = I32"
  shows "max_fits ty"
proof (cases "mt_maximum ty")
  case (Some mx)
  then have "unat mx \<le> absolute_max ty"
    using assms(1) by (auto simp: valid_type_def validate_memory_type_def maximum_byte_size_def
        Let_def split: if_splits)
  then have "unat mx * page ty \<le> absolute_max ty * page ty" by (rule mult_le_mono1)
  also have "absolute_max ty * page ty \<le> 2 ^ 32"
    using div_times_less_eq_dividend [of "2 ^ 32" "page ty"] assms(2)
    by (simp add: absolute_max_def index_max_size_def page_def)
  finally show ?thesis using Some by (simp add: max_fits_def)
qed (simp add: max_fits_def)

lemma charge_growth_fits:
  "unat additional * unat (bytes_per_page m) < 2 ^ 64 \<Longrightarrow>
   charge_growth m additional (Some f) =
     Ok (case consume_fuel_if (\<lambda>c. fuel_for_copying_bytes c (additional * bytes_per_page m)) f of
           (Inl (fuel_error.OutOfFuel r), f) \<Rightarrow> (Inl (memory_error.OutOfFuel r), Some f)
         | (_, f) \<Rightarrow> (Inr (), Some f))"
  by (auto simp: charge_growth_def checked_mul64_def split: prod.split sum.split fuel_error.split)

lemma desired_byte_size_Inr:
  assumes "memory_ok t m" and "desired_byte_size t m additional = Inr n"
  shows "pages m + unat additional \<le> page_limit (mem_type m)
    \<and> n = (pages m + unat additional) * page (mem_type m) \<and> n < 2 ^ usize_bits t"
proof -
  have v: "valid_type (mem_type m)" using assms(1) by (simp add: memory_ok_def)
  have s: "unat (memory_size m) = pages m" by (rule unat_memory_size [OF assms(1)])
  have sum: "unat (memory_size m + additional) = pages m + unat additional"
    if "pages m + unat additional < 2 ^ 64"
    using that s by (simp add: unat_word_ariths)
  have prod: "unat (x * bytes_per_page m) = unat x * page (mem_type m)"
    if "unat x * page (mem_type m) < 2 ^ 64" for x
    using that unat_bytes_per_page [OF v] by (simp add: unat_word_ariths)
  show ?thesis
    using assms(2) sum prod s unat_bytes_per_page [OF v]
    by (auto simp: desired_byte_size_def checked_add64_def checked_mul64_def page_limit_def
        word_less_nat_alt split: if_splits option.splits)
qed

section \<open>Growing\<close>

text \<open>What a charge of n units does to the fuel of a call.\<close>

definition paid :: "nat \<Rightarrow> fuel \<Rightarrow> fuel \<Rightarrow> bool" where
  "paid n f f' \<longleftrightarrow> enabled f' = enabled f \<and> costs f' = costs f \<and>
     (if enabled f then unat (remaining f) = unat (remaining f') + n else f' = f)"

definition growth_cost :: "memory \<Rightarrow> u64 \<Rightarrow> fuel \<Rightarrow> nat" where
  "growth_cost m additional f =
     unat (fuel_for_copying_bytes (costs f) (additional * bytes_per_page m))"

lemma paid_refl: "paid 0 f f"
  by (simp add: paid_def)

lemma charge_growth_cases:
  assumes "charge_growth m additional fu = Ok (r, fu')"
  shows "(r = Inr () \<and> rel_option (\<lambda>f f'. paid (growth_cost m additional f) f f') fu fu')
    \<or> ((\<exists>n. r = Inl (memory_error.OutOfFuel n)) \<and> fu' = fu)"
proof (cases fu)
  case None
  then show ?thesis using assms by (simp add: charge_growth_def)
next
  case (Some f)
  let ?b = "additional * bytes_per_page m"
  have fits: "checked_mul64 additional (bytes_per_page m) = Some ?b"
    using assms Some by (auto simp: charge_growth_def checked_mul64_def split: if_splits)
  obtain c f' where c: "consume_fuel_if (\<lambda>c. fuel_for_copying_bytes c ?b) f = (c, f')" by fastforce
  show ?thesis
  proof (cases c)
    case (Inl e)
    with c have "f' = f \<and> e = fuel_error.OutOfFuel (fuel_for_copying_bytes (costs f) ?b)"
      using consume_fuel_if_Inl by blast
    then show ?thesis using assms Some fits c Inl by (auto simp: charge_growth_def)
  next
    case (Inr u)
    with c have "paid (growth_cost m additional f) f f'"
      using consume_fuel_if_Inr [of "\<lambda>c. fuel_for_copying_bytes c ?b" f f']
      by (simp add: paid_def growth_cost_def)
    then show ?thesis using assms Some fits c Inr by (auto simp: charge_growth_def)
  qed
qed

lemma charge_growth_returns:
  assumes "unat additional * unat (bytes_per_page m) < 2 ^ 64"
  shows "\<exists>r fu'. charge_growth m additional fu = Ok (r, fu')"
proof (cases fu)
  case None
  then show ?thesis by (simp add: charge_growth_def)
next
  case (Some f)
  show ?thesis unfolding Some charge_growth_fits [OF assms] outcome.inject by (rule surj_pair)
qed

lemma buffer_grow_cases:
  assumes "buffer_grow t al n b = Ok (r, b')"
  shows "(r = Inr () \<and> length (buf_bytes b) \<le> n \<and> buf_static b' = buf_static b
           \<and> buf_bytes b' = buf_bytes b @ replicate (n - length (buf_bytes b)) 0)
    \<or> (b' = b \<and> (r = Inl memory_error.OutOfSystemMemory
          \<or> (r = Inl InvalidStaticBufferSize \<and> buf_static b \<noteq> None)))"
  using assms
  by (auto simp: buffer_grow_def buffer_grow_vec_def buffer_grow_static_def Let_def
      split: if_splits option.splits)

text \<open>The outcome of growing: all or nothing.\<close>

definition grown :: "memory \<Rightarrow> u64 \<Rightarrow> memory \<Rightarrow> bool" where
  "grown m n m' \<longleftrightarrow> mem_type m' = mem_type m
     \<and> buf_static (mem_buffer m') = buf_static (mem_buffer m)
     \<and> mem_data m' = mem_data m @ replicate (unat n * page (mem_type m)) 0
     \<and> pages m + unat n \<le> page_limit (mem_type m)"

lemma grown_zero: "memory_ok t m \<Longrightarrow> grown m 0 m"
  by (simp add: grown_def memory_ok_def)

lemma grown_ok:
  assumes "memory_ok t m" and "grown m n m'" and "length (mem_data m') < 2 ^ usize_bits t"
  shows "memory_ok t m'" and "pages m' = pages m + unat n"
proof -
  have l: "length (mem_data m') = (pages m + unat n) * page (mem_type m)"
    using assms(2) memory_ok_length [OF assms(1)] by (simp add: grown_def distrib_right)
  show p: "pages m' = pages m + unat n"
    using l assms(2) by (simp add: pages_def grown_def)
  show "memory_ok t m'"
    using assms l p by (simp add: memory_ok_def grown_def)
qed

lemma memory_grow_zero [simp]: "memory_grow t al lim 0 m fu l = Ok (Inr (memory_size m), m, fu, l)"
  by (simp add: memory_grow_def)

text \<open>Where a result of growing comes from.\<close>

lemma grow_buffer_cases:
  assumes "grow_buffer t al lim desired m fu l = Ok (r, m', fu', l')"
  obtains (grows) b where "r = Inr (memory_size m)" "m' = m\<lparr>mem_buffer := b\<rparr>" "fu' = fu"
      "buffer_grow t al desired (mem_buffer m) = Ok (Inr (), b)"
    | (fails) e where "r = Inl e" "m' = m" "fu' = fu"
      "buf_static (mem_buffer m) = None \<Longrightarrow> e = memory_error.OutOfSystemMemory"
proof -
  obtain c b where b: "buffer_grow t al desired (mem_buffer m) = Ok (c, b)"
    and rest: "(case c of
         Inl e \<Rightarrow> and_then (notify_limiter lim e l) (\<lambda>l. Ok (Inl e, m\<lparr>mem_buffer := b\<rparr>, fu, l))
       | Inr _ \<Rightarrow> Ok (Inr (memory_size m), m\<lparr>mem_buffer := b\<rparr>, fu, l)) = Ok (r, m', fu', l')"
    using assms by (auto simp: grow_buffer_def and_then_eq_Ok)
  show thesis
  proof (cases c)
    case (Inl e)
    have b': "b = mem_buffer m"
      and st: "buf_static (mem_buffer m) = None \<Longrightarrow> e = memory_error.OutOfSystemMemory"
      using buffer_grow_cases [OF b] Inl by auto
    have "r = Inl e" "m' = m" "fu' = fu" using rest Inl b' by (auto simp: and_then_eq_Ok)
    then show thesis by (rule fails) (rule st)
  next
    case (Inr u)
    with rest b show thesis by (intro grows [of b]) auto
  qed
qed

lemma grow_paid_cases:
  assumes "grow_paid t al lim n desired m fu l = Ok (r, m', fu', l')"
  obtains (grows) b where "r = Inr (memory_size m)" "m' = m\<lparr>mem_buffer := b\<rparr>"
      "charge_growth m n fu = Ok (Inr (), fu')"
      "buffer_grow t al desired (mem_buffer m) = Ok (Inr (), b)"
    | (fails) e c where "r = Inl e" "m' = m" "charge_growth m n fu = Ok (c, fu')"
      "buf_static (mem_buffer m) = None \<Longrightarrow>
         e = memory_error.OutOfSystemMemory \<or> (\<exists>k. e = memory_error.OutOfFuel k)"
proof -
  obtain c fu1 where c: "charge_growth m n fu = Ok (c, fu1)"
    and rest: "(case c of
         Inl e \<Rightarrow> and_then (notify_limiter lim e l) (\<lambda>l. Ok (Inl e, m, fu1, l))
       | Inr _ \<Rightarrow> grow_buffer t al lim desired m fu1 l) = Ok (r, m', fu', l')"
    using assms by (auto simp: grow_paid_def and_then_eq_Ok)
  show thesis
  proof (cases c)
    case (Inl e)
    have k: "\<exists>k. e = memory_error.OutOfFuel k" using charge_growth_cases [OF c] Inl by auto
    have "r = Inl e" "m' = m" "charge_growth m n fu = Ok (c, fu')"
      using rest Inl c by (auto simp: and_then_eq_Ok)
    then show thesis by (rule fails) (use k in blast)
  next
    case (Inr u)
    with rest have "grow_buffer t al lim desired m fu1 l = Ok (r, m', fu', l')" by simp
    then show thesis
    proof (cases rule: grow_buffer_cases)
      case (grows b)
      with c Inr show thesis by (intro that(1)) auto
    next
      case (fails e)
      with c Inr show thesis by (intro that(2)) auto
    qed
  qed
qed

lemma memory_grow_cases:
  assumes "memory_grow t al lim n m fu l = Ok (r, m', fu', l')"
  obtains (nothing) "n = 0" "r = Inr (memory_size m)" "m' = m" "fu' = fu"
    | (grows) desired b where "n \<noteq> 0" "r = Inr (memory_size m)" "m' = m\<lparr>mem_buffer := b\<rparr>"
      "desired_byte_size t m n = Inr desired" "charge_growth m n fu = Ok (Inr (), fu')"
      "buffer_grow t al desired (mem_buffer m) = Ok (Inr (), b)"
    | (refused) e where "r = Inl e" "m' = m" "fu' = fu"
      "lim = None \<Longrightarrow> e = memory_error.OutOfBoundsGrowth"
    | (fails) e c where "r = Inl e" "m' = m" "charge_growth m n fu = Ok (c, fu')"
      "buf_static (mem_buffer m) = None \<Longrightarrow>
         e = memory_error.OutOfSystemMemory \<or> (\<exists>k. e = memory_error.OutOfFuel k)"
proof (cases "n = 0")
  case True
  with assms have "r = Inr (memory_size m)" "m' = m" "fu' = fu"
    by (auto simp: memory_grow_def)
  with True show thesis by (rule nothing)
next
  case False
  obtain cur mx where rest: "(case desired_byte_size t m n of
            Inl e \<Rightarrow> Ok (Inl e, m, fu, l)
          | Inr desired \<Rightarrow>
              (case ask_limiter lim (as_usize t cur) desired (map_option (as_usize t) mx) l of
                 (Inl e, l) \<Rightarrow> Ok (Inl e, m, fu, l)
               | (Inr _, l) \<Rightarrow> grow_paid t al lim n desired m fu l)) = Ok (r, m', fu', l')"
    using assms False by (auto simp: memory_grow_def and_then_eq_Ok)
  show thesis
  proof (cases "desired_byte_size t m n")
    case (Inl e)
    then have "e = memory_error.OutOfBoundsGrowth"
      by (auto simp: desired_byte_size_def split: if_splits option.splits)
    with Inl rest show thesis by (intro refused) auto
  next
    case (Inr desired)
    obtain a l1 where a: "ask_limiter lim (as_usize t cur) desired (map_option (as_usize t) mx) l = (a, l1)"
      by fastforce
    show thesis
    proof (cases a)
      case (Inl e)
      have none: "lim = None \<Longrightarrow> e = memory_error.OutOfBoundsGrowth"
        using a Inl by (simp add: ask_limiter_def)
      have "r = Inl e" "m' = m" "fu' = fu" using rest Inr a Inl by auto
      then show thesis by (rule refused) (rule none)
    next
      case I: (Inr u)
      with rest Inr a have "grow_paid t al lim n desired m fu l1 = Ok (r, m', fu', l')" by simp
      then show thesis
      proof (cases rule: grow_paid_cases)
        case (grows b)
        with Inr False show thesis by (intro that(2)) auto
      next
        case (fails e c)
        then show thesis by (intro that(4)) auto
      qed
    qed
  qed
qed

lemma memory_grow_Inr:
  assumes ok: "memory_ok t m" and g: "memory_grow t al lim n m fu l = Ok (Inr k, m', fu', l')"
  shows "unat k = pages m \<and> grown m n m' \<and> memory_ok t m'
    \<and> rel_option (\<lambda>f f'. paid (if n = 0 then 0 else growth_cost m n f) f f') fu fu'"
  using g
proof (cases rule: memory_grow_cases)
  case nothing
  then show ?thesis
    using ok unat_memory_size [OF ok] by (simp add: grown_zero option.rel_refl paid_refl)
next
  case (grows desired b)
  note D = desired_byte_size_Inr [OF ok grows(4)]
  have b: "buf_static b = buf_static (mem_buffer m)"
    "buf_bytes b = mem_data m @ replicate (desired - length (mem_data m)) 0"
    using buffer_grow_cases [OF grows(6)] by auto
  have "desired - length (mem_data m) = unat n * page (mem_type m)"
    using D memory_ok_length [OF ok] by (simp add: distrib_right)
  with b have gr: "grown m n m'" using grows(3) D by (simp add: grown_def)
  moreover have "length (mem_data m') < 2 ^ usize_bits t"
    using gr D memory_ok_length [OF ok] by (simp add: grown_def distrib_right)
  ultimately have "memory_ok t m'" using grown_ok(1) [OF ok] by blast
  with gr show ?thesis
    using charge_growth_cases [OF grows(5)] grows(1,2) unat_memory_size [OF ok] by simp
qed simp_all

lemma memory_grow_Inl:
  assumes "memory_grow t al lim n m fu l = Ok (Inl e, m', fu', l')"
  shows "m' = m \<and> (fu' = fu \<or> rel_option (\<lambda>f f'. paid (growth_cost m n f) f f') fu fu')"
  using assms
proof (cases rule: memory_grow_cases)
  case (fails e c)
  then show ?thesis using charge_growth_cases [OF fails(3)] by blast
qed simp_all

lemma memory_grow_errors:
  assumes "memory_grow t al None n m fu l = Ok (Inl e, m', fu', l')"
    and "buf_static (mem_buffer m) = None"
  shows "e = memory_error.OutOfBoundsGrowth \<or> e = memory_error.OutOfSystemMemory
    \<or> (\<exists>k. e = memory_error.OutOfFuel k)"
  using assms(1) by (cases rule: memory_grow_cases) (use assms(2) in auto)

text \<open>When growing is possible, as a mathematical statement.\<close>

definition affordable :: "memory \<Rightarrow> u64 \<Rightarrow> fuel option \<Rightarrow> bool" where
  "affordable m n fu =
     (case fu of None \<Rightarrow> True | Some f \<Rightarrow> \<not> enabled f \<or> growth_cost m n f \<le> unat (remaining f))"

definition can_grow :: "target \<Rightarrow> allocator \<Rightarrow> u64 \<Rightarrow> memory \<Rightarrow> fuel option \<Rightarrow> bool" where
  "can_grow t al n m fu \<longleftrightarrow> n = 0 \<or>
     (pages m + unat n \<le> page_limit (mem_type m)
      \<and> (pages m + unat n) * page (mem_type m) < 2 ^ usize_bits t
      \<and> affordable m n fu
      \<and> try_reserve t al (length (mem_data m)) (unat n * page (mem_type m)))"

lemma bytes_less_u64:
  assumes "memory_ok t m" and "x * page (mem_type m) < 2 ^ usize_bits t"
  shows "x * page (mem_type m) < 2 ^ 64" and "x < 2 ^ 64"
proof -
  show p: "x * page (mem_type m) < 2 ^ 64"
    using assms by (intro less_usize_u64 [of _ t]) (simp_all add: memory_ok_def)
  have "x * 1 \<le> x * page (mem_type m)" by (rule mult_le_mono2) (simp add: Suc_leI)
  with p show "x < 2 ^ 64" by linarith
qed

lemma desired_byte_size_iff:
  assumes ok: "memory_ok t m"
  shows "desired_byte_size t m n =
    (if pages m + unat n \<le> page_limit (mem_type m)
        \<and> (pages m + unat n) * page (mem_type m) < 2 ^ usize_bits t
     then Inr ((pages m + unat n) * page (mem_type m)) else Inl memory_error.OutOfBoundsGrowth)"
    (is "_ = (if ?c then _ else _)")
proof (cases "desired_byte_size t m n")
  case (Inr d)
  then show ?thesis using desired_byte_size_Inr [OF ok Inr] by simp
next
  case (Inl e)
  have e: "e = memory_error.OutOfBoundsGrowth"
    using Inl by (auto simp: desired_byte_size_def split: if_splits option.splits)
  have v: "valid_type (mem_type m)" using ok by (simp add: memory_ok_def)
  have "\<not> ?c"
  proof
    assume c: ?c
    note b = bytes_less_u64 [OF ok conjunct2 [OF c]]
    have s: "unat (memory_size m + n) = pages m + unat n"
      using b(2) unat_memory_size [OF ok] by (simp add: unat_word_ariths)
    have p: "unat ((memory_size m + n) * bytes_per_page m) = (pages m + unat n) * page (mem_type m)"
      using b(1) s unat_bytes_per_page [OF v] by (simp add: unat_word_ariths)
    show False
      using Inl c b s p unat_memory_size [OF ok] unat_bytes_per_page [OF v]
      by (auto simp: desired_byte_size_def checked_add64_def checked_mul64_def page_limit_def
          word_less_nat_alt split: if_splits option.splits)
  qed
  then show ?thesis using Inl e by auto
qed

lemma consume_fuel_if_iff:
  "consume_fuel_if g f =
     (if \<not> enabled f then (Inr (), f)
      else if unat (g (costs f)) \<le> unat (remaining f)
      then (Inr (), f\<lparr>remaining := remaining f - g (costs f)\<rparr>)
      else (Inl (fuel_error.OutOfFuel (g (costs f))), f))"
  by (simp add: consume_fuel_if_def consume_fuel_unchecked_def word_le_nat_alt)

lemma charge_growth_iff:
  assumes "unat n * unat (bytes_per_page m) < 2 ^ 64"
  shows "\<exists>r fu'. charge_growth m n fu = Ok (r, fu')
    \<and> (if affordable m n fu then r = Inr () else (\<exists>k. r = Inl (memory_error.OutOfFuel k)))"
proof (cases fu)
  case None
  then show ?thesis by (simp add: charge_growth_def affordable_def)
next
  case (Some f)
  then show ?thesis
    by (simp add: charge_growth_fits [OF assms] consume_fuel_if_iff affordable_def growth_cost_def)
qed

lemma notify_out_of_memory:
  obtains l' where "notify_limiter lim memory_error.OutOfSystemMemory l = Ok l'"
  by (cases lim) (auto simp: notify_limiter_def)

lemma notify_out_of_fuel:
  obtains l' where "notify_limiter lim (memory_error.OutOfFuel k) l = Ok l'"
  by (cases lim) (auto simp: notify_limiter_def)

lemma grow_buffer_vec:
  assumes "buf_static (mem_buffer m) = None" and "length (mem_data m) \<le> desired"
  shows "\<exists>r m' l'. grow_buffer t al lim desired m fu l = Ok (r, m', fu, l')
    \<and> (isl r = (\<not> try_reserve t al (length (mem_data m)) (desired - length (mem_data m))))"
proof -
  let ?ok = "try_reserve t al (length (mem_data m)) (desired - length (mem_data m))"
  obtain l1 where l1: "notify_limiter lim memory_error.OutOfSystemMemory l = Ok l1"
    by (rule notify_out_of_memory)
  have b: "buffer_grow t al desired (mem_buffer m) =
      Ok (if ?ok then (Inr (), (mem_buffer m)\<lparr>buf_bytes :=
            mem_data m @ replicate (desired - length (mem_data m)) 0\<rparr>)
          else (Inl memory_error.OutOfSystemMemory, mem_buffer m))"
    using assms by (simp add: buffer_grow_def buffer_grow_vec_def)
  show ?thesis by (cases ?ok) (simp_all add: grow_buffer_def b l1)
qed

lemma grow_paid_vec:
  assumes "buf_static (mem_buffer m) = None" and "length (mem_data m) \<le> desired"
    and "unat n * unat (bytes_per_page m) < 2 ^ 64"
  shows "\<exists>r m' fu' l'. grow_paid t al lim n desired m fu l = Ok (r, m', fu', l')
    \<and> (isl r = (\<not> (affordable m n fu
         \<and> try_reserve t al (length (mem_data m)) (desired - length (mem_data m)))))"
proof -
  obtain c fu1 where c: "charge_growth m n fu = Ok (c, fu1)"
    and a: "if affordable m n fu then c = Inr () else (\<exists>k. c = Inl (memory_error.OutOfFuel k))"
    using charge_growth_iff [OF assms(3)] by blast
  show ?thesis
  proof (cases "affordable m n fu")
    case True
    then show ?thesis
      using a c grow_buffer_vec [OF assms(1,2), of t al lim fu1 l] by (auto simp: grow_paid_def)
  next
    case False
    then obtain k where k: "c = Inl (memory_error.OutOfFuel k)" using a by auto
    obtain l1 where "notify_limiter lim (memory_error.OutOfFuel k) l = Ok l1"
      by (rule notify_out_of_fuel)
    then show ?thesis using False c k by (simp add: grow_paid_def)
  qed
qed

lemma memory_grow_vec:
  assumes ok: "memory_ok t m" and fits: "max_fits (mem_type m)"
    and vec: "buf_static (mem_buffer m) = None"
  shows "\<exists>r m' fu' l'. memory_grow t al lim n m fu l = Ok (r, m', fu', l')"
    and "lim = None \<Longrightarrow> \<exists>r m' fu' l'. memory_grow t al lim n m fu l = Ok (r, m', fu', l')
          \<and> (isl r = (\<not> can_grow t al n m fu))"
proof -
  have v: "valid_type (mem_type m)" using ok by (simp add: memory_ok_def)
  obtain cur where cur: "size_in_bytes m = Ok cur" using size_in_bytes_ok [OF ok] by blast
  obtain mx where mx: "max_size_in_bytes m = Ok mx" using max_size_in_bytes_ok [OF v] fits by simp
  let ?d = "(pages m + unat n) * page (mem_type m)"
  have len: "length (mem_data m) \<le> ?d" and diff: "?d - length (mem_data m) = unat n * page (mem_type m)"
    using memory_ok_length [OF ok] by (simp_all add: distrib_right)
  have mult: "unat n * unat (bytes_per_page m) < 2 ^ 64" if "?d < 2 ^ usize_bits t"
  proof -
    have "unat n * page (mem_type m) \<le> ?d" by (simp add: distrib_right)
    also have "?d < 2 ^ 64" by (rule bytes_less_u64(1) [OF ok that])
    finally show ?thesis by (simp only: unat_bytes_per_page [OF v])
  qed
  let ?room = "pages m + unat n \<le> page_limit (mem_type m) \<and> ?d < 2 ^ usize_bits t"
  have paid: "\<exists>r m' fu' l'. grow_paid t al lim n ?d m fu l = Ok (r, m', fu', l')
      \<and> (isl r = (\<not> (affordable m n fu
         \<and> try_reserve t al (length (mem_data m)) (unat n * page (mem_type m)))))"
    if ?room for l
    using grow_paid_vec [OF vec len mult, of t al lim fu l] that diff by simp
  have start: "memory_grow t al lim n m fu l =
      (if n = 0 then Ok (Inr (memory_size m), m, fu, l)
       else if \<not> ?room then Ok (Inl memory_error.OutOfBoundsGrowth, m, fu, l)
       else (case ask_limiter lim (as_usize t cur) ?d (map_option (as_usize t) mx) l of
               (Inl e, l) \<Rightarrow> Ok (Inl e, m, fu, l)
             | (Inr _, l) \<Rightarrow> grow_paid t al lim n ?d m fu l))"
    by (simp add: memory_grow_def cur mx desired_byte_size_iff [OF ok])
  show "\<exists>r m' fu' l'. memory_grow t al lim n m fu l = Ok (r, m', fu', l')"
    unfolding start using paid by (fastforce split: prod.split sum.split)
  show "\<exists>r m' fu' l'. memory_grow t al lim n m fu l = Ok (r, m', fu', l')
          \<and> (isl r = (\<not> can_grow t al n m fu))" if "lim = None"
    unfolding start using paid [of l] that by (auto simp: ask_limiter_def can_grow_def)
qed

definition one_page :: memory where
  "one_page = \<lparr>mem_buffer = \<lparr>buf_bytes = [7], buf_static = None\<rparr>,
     mem_type = \<lparr>mt_minimum = 1, mt_maximum = Some 3, mt_page_size_log2 = 0, mt_index_type = I32\<rparr>\<rparr>"

lemma one_page_ok: "memory_ok esp32c3_release one_page"
  by (simp add: memory_ok_def one_page_def valid_type_def validate_memory_type_def
      minimum_byte_size_def maximum_byte_size_def absolute_max_def index_max_size_def
      page_limit_def pages_def page_def esp32c3_release_def Let_def)

section \<open>Reachable memories\<close>

text \<open>
  The memories a store can hold: created from a type that passed the builder, on the heap or in
  a static array, then grown and written.
\<close>

inductive memory_reachable :: "target \<Rightarrow> 'l limiter option \<Rightarrow> memory \<Rightarrow> bool"
  for t :: target and lim :: "'l limiter option" where
  created: "build_memory_type b = Inr ty \<Longrightarrow> memory_new t al lim ty l = Ok (Inr m, l') \<Longrightarrow>
     memory_reachable t lim m"
| created_static: "build_memory_type b = Inr ty \<Longrightarrow>
     memory_new_static t buffer lim ty l = Ok (Inr m, l') \<Longrightarrow> memory_reachable t lim m"
| grew: "memory_reachable t lim m \<Longrightarrow>
     memory_grow t al lim n m fu l = Ok (r, m', fu', l') \<Longrightarrow> memory_reachable t lim m'"
| written: "memory_reachable t lim m \<Longrightarrow> memory_write t offset bs m = (r, m') \<Longrightarrow>
     memory_reachable t lim m'"

lemma memory_new_impl_Inr:
  assumes "memory_new_impl t mk lim ty l = Ok (Inr m, l')"
  shows "unat (mt_minimum ty) * page ty < 2 ^ usize_bits t \<and> mem_type m = ty
    \<and> mk (unat (mt_minimum ty) * page ty) = Inr (mem_buffer m)"
  using assms
  by (auto simp: memory_new_impl_def minimum_byte_size_def page_def Let_def and_then_eq_Ok
      split: option.splits sum.splits prod.splits if_splits)

lemma memory_new_impl_ok:
  assumes "valid_type ty" and "usize_bits t \<le> 64"
    and "memory_new_impl t mk lim ty l = Ok (Inr m, l')"
    and mk: "\<And>n b. mk n = Inr b \<Longrightarrow> length (buf_bytes b) = n"
  shows "memory_ok t m"
proof -
  note new = memory_new_impl_Inr [OF assms(3)]
  then have len: "length (mem_data m) = unat (mt_minimum ty) * page ty"
    using mk [of "unat (mt_minimum ty) * page ty" "mem_buffer m"] by simp
  then have "pages m = unat (mt_minimum ty)" using new by (simp add: pages_def)
  then show ?thesis
    using new len assms(1,2) valid_type_minimum [OF assms(1)] by (simp add: memory_ok_def)
qed

lemma build_memory_type_valid: "build_memory_type b = Inr ty \<Longrightarrow> ty = b \<and> valid_type ty"
  by (auto simp: build_memory_type_def valid_type_def split: sum.splits)

lemma memory_write_length:
  "memory_write t offset bs m = (r, m') \<Longrightarrow>
     mem_type m' = mem_type m \<and> length (mem_data m') = length (mem_data m)"
  by (auto simp: memory_write_def access_span_def split: if_splits)

lemma memory_reachable_ok:
  assumes "memory_reachable t lim m" and "usize_bits t \<le> 64"
  shows "memory_ok t m"
  using assms
proof (induction rule: memory_reachable.induct)
  case (created b ty al l m l')
  have ty: "valid_type ty" using build_memory_type_valid [OF created.hyps(1)] by (rule conjunct2)
  show ?case
    by (rule memory_new_impl_ok [OF ty created.prems created.hyps(2) [unfolded memory_new_def]])
      (auto simp: buffer_new_def split: if_splits)
next
  case (created_static b ty buffer l m l')
  have ty: "valid_type ty" using build_memory_type_valid [OF created_static.hyps(1)] by (rule conjunct2)
  show ?case
    by (rule memory_new_impl_ok [OF ty created_static.prems
          created_static.hyps(2) [unfolded memory_new_static_def]])
      (auto simp: buffer_new_static_def split: if_splits)
next
  case (grew m al n fu l r m' fu' l')
  then show ?case
    using memory_grow_Inr [of t m al lim n fu l] memory_grow_Inl [of t al lim n m fu l]
    by (cases r) auto
next
  case (written m offset bs r m')
  then show ?case
    using memory_write_length [OF written.hyps(2)] by (simp add: memory_ok_def pages_def)
qed

lemma page_limit_valid:
  assumes "valid_type ty" and "unat k \<le> page_limit ty"
  shows "valid_type (ty\<lparr>mt_minimum := k\<rparr>)"
  using assms
  by (auto simp: valid_type_def validate_memory_type_def page_limit_def minimum_byte_size_def
      maximum_byte_size_def absolute_max_def Let_def word_less_nat_alt
      split: if_splits option.splits)

lemma dynamic_ty_ok:
  assumes "memory_ok t m"
  shows "dynamic_ty m = Ok ((mem_type m)\<lparr>mt_minimum := memory_size m\<rparr>)"
proof -
  let ?ty = "(mem_type m)\<lparr>mt_minimum := memory_size m\<rparr>"
  have "valid_type ?ty"
    using assms unat_memory_size [OF assms] by (intro page_limit_valid) (simp_all add: memory_ok_def)
  moreover have "mt_index_type ?ty = (if is_64 (mt_index_type (mem_type m)) then I64 else I32)"
    by (cases "mt_index_type (mem_type m)") (simp_all add: is_64_def)
  then have "set_memory64 (is_64 (mt_index_type (mem_type m)))
      (set_page_size_log2 (mt_page_size_log2 (mem_type m))
        (set_max (mt_maximum (mem_type m)) (set_min (memory_size m) memory_type_builder))) = ?ty"
    by (simp add: set_memory64_def set_page_size_log2_def set_max_def set_min_def
        memory_type_builder_def)
  ultimately show ?thesis
    by (simp add: dynamic_ty_def Let_def build_memory_type_def valid_type_def)
qed

text \<open>
  C37: whatever happens to a memory, its dynamic type exists (the \<open>expect\<close> of \<open>dynamic_ty\<close> never
  fires), has the current size as its minimum, and is a subtype of the declared type, so a
  memory that was grown may be imported wherever its declaration may.
\<close>
theorem dynamic_type_is_subtype:
  assumes "memory_reachable t lim m" and "usize_bits t \<le> 64"
  shows "\<exists>ty. dynamic_ty m = Ok ty \<and> unat (mt_minimum ty) * page ty = length (mem_data m)
    \<and> is_subtype_of ty (mem_type m)"
proof -
  have ok: "memory_ok t m" by (rule memory_reachable_ok [OF assms])
  let ?ty = "(mem_type m)\<lparr>mt_minimum := memory_size m\<rparr>"
  have s: "unat (memory_size m) = pages m" by (rule unat_memory_size [OF ok])
  have "is_subtype_of ?ty (mem_type m)"
    using ok s by (auto simp: is_subtype_of_def page_size_def memory_ok_def word_less_nat_alt
        split: option.split)
  moreover have "unat (mt_minimum ?ty) * page ?ty = length (mem_data m)"
    using s memory_ok_length [OF ok] by (simp add: page_def)
  ultimately show ?thesis using dynamic_ty_ok [OF ok] by blast
qed

theorem dynamic_type_is_subtype_witness:
  "\<exists>ty. dynamic_ty \<lparr>mem_buffer = \<lparr>buf_bytes = [0, 0], buf_static = None\<rparr>,
            mem_type = \<lparr>mt_minimum = 2, mt_maximum = Some 3, mt_page_size_log2 = 0,
                        mt_index_type = I32\<rparr>\<rparr> = Ok ty
    \<and> unat (mt_minimum ty) * page ty = 2
    \<and> is_subtype_of ty \<lparr>mt_minimum = 2, mt_maximum = Some 3, mt_page_size_log2 = 0,
                        mt_index_type = I32\<rparr>"
proof -
  let ?ty = "\<lparr>mt_minimum = 2, mt_maximum = Some 3, mt_page_size_log2 = 0, mt_index_type = I32\<rparr>"
  let ?m = "\<lparr>mem_buffer = \<lparr>buf_bytes = [0, 0], buf_static = None\<rparr>, mem_type = ?ty\<rparr>"
  have "build_memory_type ?ty = Inr ?ty"
    by (simp add: build_memory_type_def validate_memory_type_def minimum_byte_size_def
        maximum_byte_size_def absolute_max_def index_max_size_def Let_def)
  moreover have "replicate 2 (0 :: u8) = [0, 0]" by (simp add: numeral_2_eq_2)
  then have "memory_new esp32c3_release (\<lambda>_. True) (None :: unit limiter option) ?ty ()
      = Ok (Inr ?m, ())"
    by (simp add: memory_new_def memory_new_impl_def minimum_byte_size_def absolute_max_def
        index_max_size_def buffer_new_def try_reserve_def esp32c3_release_def Let_def)
  ultimately have "memory_reachable esp32c3_release (None :: unit limiter option) ?m"
    by (rule memory_reachable.created)
  from dynamic_type_is_subtype [OF this] show ?thesis
    by (simp add: esp32c3_release_def numeral_2_eq_2)
qed

section \<open>What fuel buys\<close>

text \<open>A run of \<open>memory.grow\<close> instructions, each with the pages it asks for.\<close>

fun grow_all ::
  "target \<Rightarrow> allocator \<Rightarrow> 'l limiter option \<Rightarrow> u64 list \<Rightarrow> memory \<Rightarrow> fuel option \<Rightarrow> 'l \<Rightarrow>
   (memory \<times> fuel option \<times> 'l) outcome" where
  "grow_all t al lim [] m fu l = Ok (m, fu, l)"
| "grow_all t al lim (n # ns) m fu l =
     and_then (memory_grow t al lim n m fu l) (\<lambda>(r, m, fu, l). grow_all t al lim ns m fu l)"

lemma growth_cost_default:
  assumes "valid_type (mem_type m)" and "custom (costs f) = None"
    and "unat n * page (mem_type m) < 2 ^ 64"
  shows "unat n * page (mem_type m) < 64 * growth_cost m n f + 64"
proof -
  have u: "unat (n * bytes_per_page m) = unat n * page (mem_type m)"
    using assms unat_bytes_per_page [OF assms(1)] by (simp add: unat_word_ariths)
  have "growth_cost m n f = unat n * page (mem_type m) div 64"
    using assms(2) u by (simp add: growth_cost_def fuel_for_copying_bytes_def
        provider_bytes_per_fuel_def default_fuel_costs_def fuel_costs_of_base_def unat_div)
  then show ?thesis using div_mult_mod_eq [of "unat n * page (mem_type m)" 64]
      mod_less_divisor [of 64 "unat n * page (mem_type m)"] by linarith
qed

lemma growth_cost_pages:
  assumes "valid_type (mem_type m)" and "custom (costs f) = None"
    and "unat n * page (mem_type m) < 2 ^ 64" and "mt_page_size_log2 (mem_type m) = 16"
  shows "64 * growth_cost m n f = unat n * page (mem_type m)"
proof -
  have u: "unat (n * bytes_per_page m) = unat n * page (mem_type m)"
    using assms unat_bytes_per_page [OF assms(1)] by (simp add: unat_word_ariths)
  have "growth_cost m n f = unat n * page (mem_type m) div 64"
    using assms(2) u by (simp add: growth_cost_def fuel_for_copying_bytes_def
        provider_bytes_per_fuel_def default_fuel_costs_def fuel_costs_of_base_def unat_div)
  then show ?thesis using assms(4) by (simp add: page_def)
qed

text \<open>What one growth may gain beyond what its fuel pays for: nothing with pages of 64 KB.\<close>

definition unpaid :: "memory \<Rightarrow> nat" where
  "unpaid m = (if mt_page_size_log2 (mem_type m) = 16 then 0 else 63)"

lemma growth_cost_unpaid:
  assumes "valid_type (mem_type m)" and "custom (costs f) = None"
    and "unat n * page (mem_type m) < 2 ^ 64"
  shows "unat n * page (mem_type m) \<le> 64 * growth_cost m n f + unpaid m"
proof (cases "mt_page_size_log2 (mem_type m) = 16")
  case True
  then show ?thesis using growth_cost_pages [OF assms True] by simp
next
  case False
  then show ?thesis using growth_cost_default [OF assms] by (simp add: unpaid_def)
qed

lemma grow_step_bound:
  assumes ok: "memory_ok t m" and "custom (costs f) = None" and "enabled f"
    and g: "memory_grow t al lim n m (Some f) l = Ok (r, m', fu', l')"
  obtains f' where "fu' = Some f'" "memory_ok t m'" "costs f' = costs f" "enabled f'"
    "mem_type m' = mem_type m" "unat (remaining f') \<le> unat (remaining f)"
    "length (mem_data m') + 64 * unat (remaining f') \<le> length (mem_data m) + 64 * unat (remaining f) + unpaid m"
proof (cases r)
  case (Inl e)
  have m: "m' = m" and fu: "fu' = Some f \<or> rel_option (\<lambda>f f'. paid (growth_cost m n f) f f') (Some f) fu'"
    using memory_grow_Inl [OF g [unfolded Inl]] by simp_all
  from fu obtain f' c where "fu' = Some f'" "paid c f f'"
    using paid_refl by (auto simp: option_rel_Some1)
  then show thesis using that [of f'] m ok assms(3) by (simp add: paid_def)
next
  case (Inr k)
  note G = memory_grow_Inr [OF ok g [unfolded Inr]]
  then obtain f' where f': "fu' = Some f'" and p: "paid (if n = 0 then 0 else growth_cost m n f) f f'"
    by (auto simp: option_rel_Some1)
  have v: "valid_type (mem_type m)" using ok by (simp add: memory_ok_def)
  have len: "length (mem_data m') = length (mem_data m) + unat n * page (mem_type m)"
    using G by (simp add: grown_def)
  then have "unat n * page (mem_type m) < 2 ^ 64" using memory_ok_u64 [of t m'] G by linarith
  from growth_cost_unpaid [OF v assms(2) this] p len assms(3)
  have "length (mem_data m') + 64 * unat (remaining f')
      \<le> length (mem_data m) + 64 * unat (remaining f) + unpaid m"
    by (simp add: paid_def split: if_splits)
  then show thesis using that [OF f'] G p assms(3) by (simp add: paid_def grown_def)
qed

text \<open>
  C28: fuel bounds what \<open>memory.grow\<close> can gain. With metering on and the default costs, any sequence of
  \<open>memory.grow\<close> on a memory, each by any number of pages, served or refused, gains at most 64 bytes for each
  unit of fuel it used up; with pages of another size than 64 KB, as the custom page sizes allow,
  each of them may gain up to 63 bytes more, the remainder its cost rounds away.
\<close>
theorem fuel_bounds_memory:
  assumes "memory_ok t m" and "custom (costs f) = None" and "enabled f"
    and "grow_all t al lim ns m (Some f) l = Ok (m', fu', l')"
  shows "\<exists>f'. fu' = Some f' \<and> unat (remaining f') \<le> unat (remaining f)
    \<and> length (mem_data m') \<le> length (mem_data m) + 64 * (unat (remaining f) - unat (remaining f'))
        + (if mt_page_size_log2 (mem_type m) = 16 then 0 else 63 * length ns)"
proof -
  have "\<exists>f'. fu' = Some f' \<and> unat (remaining f') \<le> unat (remaining f)
     \<and> length (mem_data m') + 64 * unat (remaining f')
         \<le> length (mem_data m) + 64 * unat (remaining f) + unpaid m * length ns"
    using assms
  proof (induction ns arbitrary: m f l)
    case Nil
    then show ?case by auto
  next
    case (Cons n ns)
    obtain r m1 fu1 l1 where g: "memory_grow t al lim n m (Some f) l = Ok (r, m1, fu1, l1)"
      and rest: "grow_all t al lim ns m1 fu1 l1 = Ok (m', fu', l')"
      using Cons.prems(4) by (auto simp: and_then_eq_Ok)
    from Cons.prems(1-3) g show ?case
    proof (rule grow_step_bound)
      fix f1
      assume f1: "fu1 = Some f1" "memory_ok t m1" "costs f1 = costs f" "enabled f1"
        "mem_type m1 = mem_type m" "unat (remaining f1) \<le> unat (remaining f)"
        "length (mem_data m1) + 64 * unat (remaining f1)
           \<le> length (mem_data m) + 64 * unat (remaining f) + unpaid m"
      have "custom (costs f1) = None" and u: "unpaid m1 = unpaid m"
        using f1 Cons.prems by (simp_all add: unpaid_def)
      from Cons.IH [OF f1(2) this(1) f1(4) rest [unfolded f1(1)]] f1(6,7) u
      show ?thesis by (auto intro: order_trans)
    qed
  qed
  then obtain f' where f': "fu' = Some f'" "unat (remaining f') \<le> unat (remaining f)"
    "length (mem_data m') + 64 * unat (remaining f')
       \<le> length (mem_data m) + 64 * unat (remaining f) + unpaid m * length ns"
    by blast
  then show ?thesis
    by (intro exI [of _ f']) (auto simp: unpaid_def)
qed

theorem fuel_bounds_memory_witness:
  "\<exists>m' f' l'. grow_all laptop_release (\<lambda>_. True) None [1, 0]
      \<lparr>mem_buffer = \<lparr>buf_bytes = [], buf_static = None\<rparr>,
       mem_type = \<lparr>mt_minimum = 0, mt_maximum = None, mt_page_size_log2 = 16, mt_index_type = I32\<rparr>\<rparr>
      (Some \<lparr>remaining = 2000, enabled = True, costs = \<lparr>custom = None\<rparr>\<rparr>) () = Ok (m', Some f', l')
    \<and> length (mem_data m') \<le> 64 * (2000 - unat (remaining f'))"
proof -
  let ?m = "\<lparr>mem_buffer = \<lparr>buf_bytes = [], buf_static = None\<rparr>,
       mem_type = \<lparr>mt_minimum = 0, mt_maximum = None, mt_page_size_log2 = 16, mt_index_type = I32\<rparr>\<rparr>"
  let ?f = "\<lparr>remaining = 2000, enabled = True, costs = \<lparr>custom = None\<rparr>\<rparr> :: fuel"
  have ok: "memory_ok laptop_release ?m"
    by (simp add: memory_ok_def valid_type_def validate_memory_type_def minimum_byte_size_def
        absolute_max_def index_max_size_def page_limit_def pages_def page_def laptop_release_def
        Let_def)
  have fits: "max_fits (mem_type ?m)" by (simp add: max_fits_def)
  have vec: "buf_static (mem_buffer ?m) = None" by simp
  obtain r m1 fu1 l1 where g: "memory_grow laptop_release (\<lambda>_. True) None 1 ?m (Some ?f) ()
      = Ok (r, m1, fu1, l1)"
    using memory_grow_vec(1) [OF ok fits vec, of "\<lambda>_. True" None 1 "Some ?f" "()"] by (elim exE)
  have "grow_all laptop_release (\<lambda>_. True) None [1, 0] ?m (Some ?f) () = Ok (m1, fu1, l1)"
    by (simp only: grow_all.simps g and_then.simps prod.case memory_grow_zero)
  from fuel_bounds_memory [OF ok _ _ this] this show ?thesis
    by (simp del: grow_all.simps) (elim exE conjE, intro exI conjI, assumption+)
qed

section \<open>Corners\<close>

text \<open>
  The largest maximum a 64-bit memory may declare, 2 to the power of 48 pages: the type is valid
  and the memory is created, but growing it panics instead of answering.
\<close>

lemma huge_maximum_panics:
  assumes "memory_ok t m" and "\<not> max_fits (mem_type m)" and "n \<noteq> 0"
  shows "memory_grow t al lim n m fu l = Panic"
proof -
  have "valid_type (mem_type m)" using assms(1) by (simp add: memory_ok_def)
  then show ?thesis
    using assms(2,3) max_size_in_bytes_ok [of m]
    by (simp add: memory_grow_def size_in_bytes_ok [OF assms(1)])
qed

lemma huge_maximum_is_valid:
  "valid_type \<lparr>mt_minimum = 0, mt_maximum = Some 0x1000000000000, mt_page_size_log2 = 16,
               mt_index_type = I64\<rparr>
   \<and> \<not> max_fits \<lparr>mt_minimum = 0, mt_maximum = Some 0x1000000000000, mt_page_size_log2 = 16,
               mt_index_type = I64\<rparr>"
  by (simp add: valid_type_def validate_memory_type_def minimum_byte_size_def
      maximum_byte_size_def absolute_max_def index_max_size_def max_fits_def page_def Let_def)

text \<open>
  On a 32-bit board a memory with the usual largest maximum of 65536 pages: creating it tells the
  limiter the maximum clipped to \<open>usize::MAX\<close>, growing it tells it the maximum cut down to 32
  bits, which is 0, so that the library's own limiter refuses every growth.
\<close>

lemma limiter_refuses_growth_on_boards:
  assumes "memory_ok t m" and "usize_bits t = 32" and "n \<noteq> 0"
    and "mt_maximum (mem_type m) = Some 65536" and "mt_page_size_log2 (mem_type m) = 16"
    and "\<not> sl_trap_on_grow_failure l"
  shows "memory_grow t al (Some store_limits) n m fu l = Ok (Inl memory_error.OutOfBoundsGrowth, m, fu, l)"
proof -
  have v: "valid_type (mem_type m)" using assms(1) by (simp add: memory_ok_def)
  have b: "bytes_per_page m = 65536" using assms(5) by (simp add: bytes_per_page_def page_size_def)
  have "max_fits (mem_type m)" using assms(4,5) by (simp add: max_fits_def page_def)
  then have mx: "max_size_in_bytes m = Ok (Some 0x100000000)"
    using max_size_in_bytes_ok [OF v] assms(4) b by simp
  have cut: "as_usize t 0x100000000 = 0" using assms(2) by (simp add: as_usize_def)
  show ?thesis
  proof (cases "desired_byte_size t m n")
    case (Inl e)
    then show ?thesis
      using assms(3) mx desired_byte_size_iff [OF assms(1), of n]
      by (simp add: memory_grow_def size_in_bytes_ok [OF assms(1)] split: if_splits)
  next
    case (Inr d)
    have "unat n \<noteq> 0" using assms(3) by (simp add: unat_eq_0)
    then have "0 < d" using desired_byte_size_Inr [OF assms(1) Inr] by simp
    then have "limits_allow k d (Some 0) = False" for k
      by (simp add: limits_allow_def split: option.split)
    then show ?thesis
      using assms(3,6) mx cut Inr
      by (simp add: memory_grow_def size_in_bytes_ok [OF assms(1)] ask_limiter_def store_limits_def
          limits_growing_def Let_def)
  qed
qed

text \<open>A memory in a static array: growing it past the array panics once there is a limiter.\<close>

lemma static_growth_panics:
  assumes "memory_ok t m" and "max_fits (mem_type m)" and "buf_static (mem_buffer m) = Some capacity"
    and "desired_byte_size t m n = Inr desired" and "n \<noteq> 0" and "capacity < desired"
    and "lim_memory_growing f (length (mem_data m)) desired mx l = (Inr True, l')"
    and "mx = map_option (\<lambda>x. as_usize t (x * bytes_per_page m)) (mt_maximum (mem_type m))"
  shows "memory_grow t al (Some f) n m None l = Panic"
proof -
  have v: "valid_type (mem_type m)" using assms(1) by (simp add: memory_ok_def)
  have le: "length (mem_data m) \<le> desired"
    using desired_byte_size_Inr [OF assms(1,4)] memory_ok_length [OF assms(1)]
    by (simp add: distrib_right)
  have len: "as_usize t (word_of_nat (length (mem_data m))) = length (mem_data m)"
    using assms(1) memory_ok_u64 [OF assms(1)] unat_of_nat_u64
    by (simp add: as_usize_def memory_ok_def)
  show ?thesis
    using assms(3-8) max_size_in_bytes_ok [OF v] assms(2) le len
    by (simp add: memory_grow_def size_in_bytes_ok [OF assms(1)] ask_limiter_def grow_paid_def
        charge_growth_def grow_buffer_def buffer_grow_def buffer_grow_static_def notify_limiter_def
        option.map_comp comp_def)
qed

end
