(* ===== verification/Memory_Access.thy ===== *)
theory Memory_Access
  imports Linear_Memory
begin

unbundle bit_operations_syntax

text \<open>
  Loads and stores of guest code on a linear memory: \<open>patches/wasmi_core/src/memory/access.rs\<close> and
  the load and store instructions of \<open>wasmi_core/src/wasm.rs\<close>. The effective address at its width,
  the bounds check, the little-endian bytes of a value of any width, and the widening and
  wrapping between the type in memory and the type on the stack.
\<close>

section \<open>Little-endian bytes\<close>

definition to_le_bytes :: "'a::len word \<Rightarrow> bytes" where
  "to_le_bytes w = map (\<lambda>i. ucast (drop_bit (8 * i) w)) [0..<LENGTH('a) div 8]"

definition from_le_bytes :: "bytes \<Rightarrow> 'a::len word" where
  "from_le_bytes bs = foldr (\<lambda>b w. ucast b OR push_bit 8 w) bs 0"

lemma length_to_le_bytes [simp]: "length (to_le_bytes (w :: 'a::len word)) = LENGTH('a) div 8"
  by (simp add: to_le_bytes_def)

lemma bit_from_le_bytes:
  "bit (from_le_bytes bs :: 'a::len word) n \<longleftrightarrow>
     n < LENGTH('a) \<and> n div 8 < length bs \<and> bit (bs ! (n div 8)) (n mod 8)"
proof (induction bs arbitrary: n)
  case Nil
  then show ?case by (simp add: from_le_bytes_def)
next
  case (Cons b bs)
  have rec: "from_le_bytes (b # bs) = (ucast b OR push_bit 8 (from_le_bytes bs) :: 'a word)"
    by (simp add: from_le_bytes_def)
  show ?case
  proof (cases "n < 8")
    case True
    then show ?thesis unfolding rec by (auto simp: bit_simps)
  next
    case False
    then have n: "n div 8 = Suc ((n - 8) div 8)" "n mod 8 = (n - 8) mod 8"
      by (simp_all add: le_div_geq le_mod_geq)
    have "\<not> bit b n" using False bit_imp_le_length [of b n] by auto
    then show ?thesis
      unfolding rec n using False Cons.IH [of "n - 8"] by (auto simp: bit_simps)
  qed
qed

lemma from_le_to_le:
  assumes "8 dvd LENGTH('a)"
  shows "from_le_bytes (to_le_bytes w) = (w :: 'a::len word)"
proof (rule bit_eqI)
  fix n
  assume "possible_bit TYPE('a word) n"
  then have n: "n < LENGTH('a)" by simp
  then have d: "n div 8 < LENGTH('a) div 8"
    using assms by (auto simp: dvd_def)
  have "8 * (n div 8) + n mod 8 = n" by simp
  then show "bit (from_le_bytes (to_le_bytes w) :: 'a word) n = bit w n"
    using n d by (simp add: bit_from_le_bytes to_le_bytes_def bit_simps)
qed

lemma to_le_from_le:
  assumes "8 dvd LENGTH('a)" and "length bs = LENGTH('a) div 8"
  shows "to_le_bytes (from_le_bytes bs :: 'a::len word) = bs"
proof (rule nth_equalityI)
  show "length (to_le_bytes (from_le_bytes bs :: 'a word)) = length bs" using assms(2) by simp
next
  fix i
  assume "i < length (to_le_bytes (from_le_bytes bs :: 'a word))"
  then have i: "i < LENGTH('a) div 8" by simp
  show "to_le_bytes (from_le_bytes bs :: 'a word) ! i = bs ! i"
  proof (rule bit_eqI)
    fix n
    assume "possible_bit TYPE(u8) n"
    then have n: "n < 8" by simp
    have "8 * i + n < LENGTH('a)" using i n by linarith
    moreover have "(8 * i + n) div 8 = i" "(8 * i + n) mod 8 = n" using n by simp_all
    ultimately show "bit (to_le_bytes (from_le_bytes bs :: 'a word) ! i) n = bit (bs ! i) n"
      using i n assms(2) by (simp add: to_le_bytes_def bit_simps bit_from_le_bytes)
  qed
qed

section \<open>Bounds-checked access\<close>

definition effective_address :: "target \<Rightarrow> u64 \<Rightarrow> u64 \<Rightarrow> trap_code + nat" where
  "effective_address t ptr offset =
     (case checked_add64 ptr offset of
        None \<Rightarrow> Inl MemoryOutOfBounds
      | Some address \<Rightarrow>
          if unat address < 2 ^ usize_bits t then Inr (unat address) else Inl MemoryOutOfBounds)"

text \<open>\<open>load_into\<close> and \<open>store_from\<close>: \<open>memory.get(address..)\<close> and then its first n bytes.\<close>

definition load_into :: "nat \<Rightarrow> bytes \<Rightarrow> nat \<Rightarrow> trap_code + bytes" where
  "load_into n memory address =
     (if address \<le> length memory \<and> n \<le> length (drop address memory)
      then Inr (take n (drop address memory)) else Inl MemoryOutOfBounds)"

definition store_from :: "bytes \<Rightarrow> bytes \<Rightarrow> nat \<Rightarrow> trap_code + bytes" where
  "store_from bs memory address =
     (if address \<le> length memory \<and> length bs \<le> length (drop address memory)
      then Inr (take address memory @ bs @ drop (address + length bs) memory)
      else Inl MemoryOutOfBounds)"

definition load_at :: "bytes \<Rightarrow> nat \<Rightarrow> trap_code + 'a::len word" where
  "load_at memory address =
     (case load_into (LENGTH('a) div 8) memory address of
        Inl e \<Rightarrow> Inl e | Inr buffer \<Rightarrow> Inr (from_le_bytes buffer))"

definition store_at :: "bytes \<Rightarrow> nat \<Rightarrow> 'a::len word \<Rightarrow> trap_code + bytes" where
  "store_at memory address v = store_from (to_le_bytes v) memory address"

definition load :: "target \<Rightarrow> bytes \<Rightarrow> u64 \<Rightarrow> u64 \<Rightarrow> trap_code + 'a::len word" where
  "load t memory ptr offset =
     (case effective_address t ptr offset of
        Inl e \<Rightarrow> Inl e | Inr address \<Rightarrow> load_at memory address)"

definition store :: "target \<Rightarrow> bytes \<Rightarrow> u64 \<Rightarrow> u64 \<Rightarrow> 'a::len word \<Rightarrow> trap_code + bytes" where
  "store t memory ptr offset v =
     (case effective_address t ptr offset of
        Inl e \<Rightarrow> Inl e | Inr address \<Rightarrow> store_at memory address v)"

text \<open>
  The variants between two widths; \<open>ExtendInto\<close> is \<open>ucast\<close> from an unsigned type in memory and
  \<open>scast\<close> from a signed one, \<open>WrapInto\<close> is \<open>ucast\<close> to the narrower type.
\<close>

definition load_extend_at ::
  "('u::len word \<Rightarrow> 'a::len word) \<Rightarrow> bytes \<Rightarrow> nat \<Rightarrow> trap_code + 'a word" where
  "load_extend_at widen memory address =
     (case load_at memory address of Inl e \<Rightarrow> Inl e | Inr u \<Rightarrow> Inr (widen u))"

definition load_extend ::
  "('u::len word \<Rightarrow> 'a::len word) \<Rightarrow> target \<Rightarrow> bytes \<Rightarrow> u64 \<Rightarrow> u64 \<Rightarrow> trap_code + 'a word" where
  "load_extend widen t memory ptr offset =
     (case effective_address t ptr offset of
        Inl e \<Rightarrow> Inl e | Inr address \<Rightarrow> load_extend_at widen memory address)"

definition store_wrap_at ::
  "('a::len word \<Rightarrow> 'u::len word) \<Rightarrow> bytes \<Rightarrow> nat \<Rightarrow> 'a word \<Rightarrow> trap_code + bytes" where
  "store_wrap_at wrap memory address v = store_at memory address (wrap v)"

definition store_wrap ::
  "('a::len word \<Rightarrow> 'u::len word) \<Rightarrow> target \<Rightarrow> bytes \<Rightarrow> u64 \<Rightarrow> u64 \<Rightarrow> 'a word \<Rightarrow> trap_code + bytes" where
  "store_wrap wrap t memory ptr offset v =
     (case effective_address t ptr offset of
        Inl e \<Rightarrow> Inl e | Inr address \<Rightarrow> store_wrap_at wrap memory address v)"

section \<open>The instructions\<close>

definition i32_load8_s :: "target \<Rightarrow> bytes \<Rightarrow> u64 \<Rightarrow> u64 \<Rightarrow> trap_code + u32" where
  "i32_load8_s = load_extend (scast :: 8 word \<Rightarrow> 32 word)"

definition i32_load8_u :: "target \<Rightarrow> bytes \<Rightarrow> u64 \<Rightarrow> u64 \<Rightarrow> trap_code + u32" where
  "i32_load8_u = load_extend (ucast :: 8 word \<Rightarrow> 32 word)"

definition i32_load16_s :: "target \<Rightarrow> bytes \<Rightarrow> u64 \<Rightarrow> u64 \<Rightarrow> trap_code + u32" where
  "i32_load16_s = load_extend (scast :: 16 word \<Rightarrow> 32 word)"

definition i32_load16_u :: "target \<Rightarrow> bytes \<Rightarrow> u64 \<Rightarrow> u64 \<Rightarrow> trap_code + u32" where
  "i32_load16_u = load_extend (ucast :: 16 word \<Rightarrow> 32 word)"

definition i64_load8_s :: "target \<Rightarrow> bytes \<Rightarrow> u64 \<Rightarrow> u64 \<Rightarrow> trap_code + u64" where
  "i64_load8_s = load_extend (scast :: 8 word \<Rightarrow> 64 word)"

definition i64_load8_u :: "target \<Rightarrow> bytes \<Rightarrow> u64 \<Rightarrow> u64 \<Rightarrow> trap_code + u64" where
  "i64_load8_u = load_extend (ucast :: 8 word \<Rightarrow> 64 word)"

definition i64_load16_s :: "target \<Rightarrow> bytes \<Rightarrow> u64 \<Rightarrow> u64 \<Rightarrow> trap_code + u64" where
  "i64_load16_s = load_extend (scast :: 16 word \<Rightarrow> 64 word)"

definition i64_load16_u :: "target \<Rightarrow> bytes \<Rightarrow> u64 \<Rightarrow> u64 \<Rightarrow> trap_code + u64" where
  "i64_load16_u = load_extend (ucast :: 16 word \<Rightarrow> 64 word)"

definition i64_load32_s :: "target \<Rightarrow> bytes \<Rightarrow> u64 \<Rightarrow> u64 \<Rightarrow> trap_code + u64" where
  "i64_load32_s = load_extend (scast :: 32 word \<Rightarrow> 64 word)"

definition i64_load32_u :: "target \<Rightarrow> bytes \<Rightarrow> u64 \<Rightarrow> u64 \<Rightarrow> trap_code + u64" where
  "i64_load32_u = load_extend (ucast :: 32 word \<Rightarrow> 64 word)"

definition load32 :: "target \<Rightarrow> bytes \<Rightarrow> u64 \<Rightarrow> u64 \<Rightarrow> trap_code + u32" where
  "load32 = load"

definition load64 :: "target \<Rightarrow> bytes \<Rightarrow> u64 \<Rightarrow> u64 \<Rightarrow> trap_code + u64" where
  "load64 = load"

definition i32_store8 :: "target \<Rightarrow> bytes \<Rightarrow> u64 \<Rightarrow> u64 \<Rightarrow> u32 \<Rightarrow> trap_code + bytes" where
  "i32_store8 = store_wrap (ucast :: 32 word \<Rightarrow> 8 word)"

definition i32_store16 :: "target \<Rightarrow> bytes \<Rightarrow> u64 \<Rightarrow> u64 \<Rightarrow> u32 \<Rightarrow> trap_code + bytes" where
  "i32_store16 = store_wrap (ucast :: 32 word \<Rightarrow> 16 word)"

definition i64_store8 :: "target \<Rightarrow> bytes \<Rightarrow> u64 \<Rightarrow> u64 \<Rightarrow> u64 \<Rightarrow> trap_code + bytes" where
  "i64_store8 = store_wrap (ucast :: 64 word \<Rightarrow> 8 word)"

definition i64_store16 :: "target \<Rightarrow> bytes \<Rightarrow> u64 \<Rightarrow> u64 \<Rightarrow> u64 \<Rightarrow> trap_code + bytes" where
  "i64_store16 = store_wrap (ucast :: 64 word \<Rightarrow> 16 word)"

definition i64_store32 :: "target \<Rightarrow> bytes \<Rightarrow> u64 \<Rightarrow> u64 \<Rightarrow> u64 \<Rightarrow> trap_code + bytes" where
  "i64_store32 = store_wrap (ucast :: 64 word \<Rightarrow> 32 word)"

definition store32 :: "target \<Rightarrow> bytes \<Rightarrow> u64 \<Rightarrow> u64 \<Rightarrow> u32 \<Rightarrow> trap_code + bytes" where
  "store32 = store"

definition store64 :: "target \<Rightarrow> bytes \<Rightarrow> u64 \<Rightarrow> u64 \<Rightarrow> u64 \<Rightarrow> trap_code + bytes" where
  "store64 = store"

lemmas load_instr_defs =
  i32_load8_s_def i32_load8_u_def i32_load16_s_def i32_load16_u_def i64_load8_s_def
  i64_load8_u_def i64_load16_s_def i64_load16_u_def i64_load32_s_def i64_load32_u_def
  load32_def load64_def

lemmas store_instr_defs =
  i32_store8_def i32_store16_def i64_store8_def i64_store16_def i64_store32_def
  store32_def store64_def

section \<open>Reads and writes at an address\<close>

text \<open>The bytes a guest addresses with a pointer and an offset, and whether they are in bounds.\<close>

definition addr :: "u64 \<Rightarrow> u64 \<Rightarrow> nat" where
  "addr ptr offset = unat ptr + unat offset"

definition in_bounds :: "bytes \<Rightarrow> u64 \<Rightarrow> u64 \<Rightarrow> nat \<Rightarrow> bool" where
  "in_bounds memory ptr offset n \<longleftrightarrow> addr ptr offset + n \<le> length memory"

definition fits_machine :: "target \<Rightarrow> bytes \<Rightarrow> bool" where
  "fits_machine t memory \<longleftrightarrow> length memory < 2 ^ usize_bits t \<and> usize_bits t \<le> 64"

lemma effective_address_in_bounds:
  assumes "fits_machine t memory" and "addr ptr offset \<le> length memory"
  shows "effective_address t ptr offset = Inr (addr ptr offset)"
proof -
  have b: "addr ptr offset < 2 ^ usize_bits t" and w: "usize_bits t \<le> 64"
    using assms by (simp_all add: fits_machine_def)
  have "unat ptr + unat offset < 2 ^ 64"
    using less_usize_u64 [OF b w] by (simp only: addr_def)
  then show ?thesis
    using b by (simp add: effective_address_def checked_add64_def addr_def unat_word_ariths)
qed

lemma effective_address_Inr: "effective_address t ptr offset = Inr a \<Longrightarrow> a = addr ptr offset"
  by (auto simp: effective_address_def checked_add64_def addr_def unat_word_ariths
      split: if_splits option.splits)

lemma effective_address_Inl: "effective_address t ptr offset = Inl e \<Longrightarrow> e = MemoryOutOfBounds"
  by (auto simp: effective_address_def split: if_splits option.splits)

lemma load_extend_eq:
  assumes "fits_machine t memory"
  shows "load_extend (widen :: 'u::len word \<Rightarrow> 'a::len word) t memory ptr offset =
    (if in_bounds memory ptr offset (LENGTH('u) div 8)
     then Inr (widen (from_le_bytes (take (LENGTH('u) div 8) (drop (addr ptr offset) memory))))
     else Inl MemoryOutOfBounds)"
proof (cases "effective_address t ptr offset")
  case (Inl e)
  have "\<not> in_bounds memory ptr offset (LENGTH('u) div 8)"
  proof
    assume "in_bounds memory ptr offset (LENGTH('u) div 8)"
    then have "addr ptr offset \<le> length memory" by (simp add: in_bounds_def)
    from effective_address_in_bounds [OF assms this] Inl show False by simp
  qed
  then show ?thesis using Inl effective_address_Inl [OF Inl] by (simp add: load_extend_def)
next
  case (Inr a)
  then show ?thesis
    using effective_address_Inr [OF Inr]
    by (auto simp: load_extend_def load_extend_at_def load_at_def load_into_def in_bounds_def)
qed

lemma load_eq_load_extend: "load = load_extend (\<lambda>w. w)"
  by (intro ext) (simp add: load_def load_extend_def load_extend_at_def split: sum.split)

lemma store_wrap_eq:
  assumes "fits_machine t memory"
  shows "store_wrap (wrap :: 'a::len word \<Rightarrow> 'u::len word) t memory ptr offset v =
    (if in_bounds memory ptr offset (LENGTH('u) div 8)
     then Inr (take (addr ptr offset) memory @ to_le_bytes (wrap v)
                 @ drop (addr ptr offset + LENGTH('u) div 8) memory)
     else Inl MemoryOutOfBounds)"
proof (cases "effective_address t ptr offset")
  case (Inl e)
  have "\<not> in_bounds memory ptr offset (LENGTH('u) div 8)"
  proof
    assume "in_bounds memory ptr offset (LENGTH('u) div 8)"
    then have "addr ptr offset \<le> length memory" by (simp add: in_bounds_def)
    from effective_address_in_bounds [OF assms this] Inl show False by simp
  qed
  then show ?thesis using Inl effective_address_Inl [OF Inl] by (simp add: store_wrap_def)
next
  case (Inr a)
  then show ?thesis
    using effective_address_Inr [OF Inr]
    by (auto simp: store_wrap_def store_wrap_at_def store_at_def store_from_def in_bounds_def)
qed

lemma store_eq_store_wrap: "store = store_wrap (\<lambda>w. w)"
  by (intro ext) (simp add: store_def store_wrap_def store_wrap_at_def split: sum.split)

text \<open>
  C30: a load and a store trap exactly when one of the bytes they reach lies beyond the memory, the sum
  of pointer, offset and width taken as natural numbers: no wrap-around of the 64-bit address, and
  no truncation to a 32-bit machine, lets an access through, and none refuses one in bounds.
  What a load reads is the little-endian value of those bytes, widened; what a store leaves is the
  memory with those bytes replaced by the little-endian bytes of the value, wrapped.
\<close>
theorem accesses_trap_exactly_out_of_bounds:
  assumes "length memory < 2 ^ usize_bits t" and "usize_bits t \<le> 64"
  shows "load_extend (widen :: 'u::len word \<Rightarrow> 'a::len word) t memory ptr offset =
    (if unat ptr + unat offset + LENGTH('u) div 8 \<le> length memory
     then Inr (widen (from_le_bytes (take (LENGTH('u) div 8)
                  (drop (unat ptr + unat offset) memory))))
     else Inl MemoryOutOfBounds)
   \<and> store_wrap (wrap :: 'b::len word \<Rightarrow> 'v::len word) t memory ptr offset v =
    (if unat ptr + unat offset + LENGTH('v) div 8 \<le> length memory
     then Inr (take (unat ptr + unat offset) memory @ to_le_bytes (wrap v)
                 @ drop (unat ptr + unat offset + LENGTH('v) div 8) memory)
     else Inl MemoryOutOfBounds)
   \<and> load t memory ptr offset = load_extend (\<lambda>w. w :: 'u word) t memory ptr offset
   \<and> store t memory ptr offset w = store_wrap (\<lambda>w. w :: 'v word) t memory ptr offset w"
  using load_extend_eq [of t memory widen ptr offset] store_wrap_eq [of t memory wrap ptr offset v] assms
  by (simp add: fits_machine_def in_bounds_def addr_def load_eq_load_extend store_eq_store_wrap)

theorem accesses_trap_exactly_out_of_bounds_witness:
  "i32_load16_s rp2040_release [1, 2, 0xFE, 0xFF] 1 1 = Inr 0xFFFFFFFE
   \<and> i32_load16_s rp2040_release [1, 2, 0xFE, 0xFF] 2 1 = Inl MemoryOutOfBounds
   \<and> i32_load16_s rp2040_release [1, 2, 0xFE, 0xFF] 0xFFFFFFFFFFFFFFFF 3 = Inl MemoryOutOfBounds
   \<and> i32_store8 rp2040_release [1, 2, 0xFE, 0xFF] 2 1 0x1234 = Inr [1, 2, 0xFE, 0x34]
   \<and> i32_store8 rp2040_release [1, 2, 0xFE, 0xFF] 0xFFFFFFFFFFFFFFFF 3 0x1234 = Inl MemoryOutOfBounds"
proof -
  have fits: "length [1, 2, 0xFE, 0xFF :: u8] < 2 ^ usize_bits rp2040_release"
      "usize_bits rp2040_release \<le> 64"
    by (simp_all add: rp2040_release_def)
  note loads = accesses_trap_exactly_out_of_bounds [OF fits, THEN conjunct1]
    and stores = accesses_trap_exactly_out_of_bounds [OF fits, THEN conjunct2, THEN conjunct1]
  show ?thesis
    unfolding i32_load16_s_def i32_store8_def loads stores
    by (simp add: from_le_bytes_def to_le_bytes_def)
qed

text \<open>
  A store that does not trap changes exactly the bytes it addresses, keeps the size of the
  memory, and the load of the same width at the same place returns the stored value (for a
  narrow store: the value wrapped to that width, widened again by the load).
\<close>
theorem stored_value_is_loaded:
  assumes "length memory < 2 ^ usize_bits t" and "usize_bits t \<le> 64" and "8 dvd LENGTH('u)"
    and "store_wrap (wrap :: 'a::len word \<Rightarrow> 'u::len word) t memory ptr offset v = Inr memory'"
  shows "load_extend (widen :: 'u word \<Rightarrow> 'b::len word) t memory' ptr offset = Inr (widen (wrap v))
    \<and> length memory' = length memory
    \<and> (\<forall>i. \<not> (unat ptr + unat offset \<le> i \<and> i < unat ptr + unat offset + LENGTH('u) div 8)
            \<longrightarrow> i < length memory \<longrightarrow> memory' ! i = memory ! i)"
proof -
  let ?a = "addr ptr offset" and ?n = "LENGTH('u) div 8"
  have fits: "fits_machine t memory" using assms(1,2) by (simp add: fits_machine_def)
  have b: "in_bounds memory ptr offset ?n"
    and m: "memory' = take ?a memory @ to_le_bytes (wrap v) @ drop (?a + ?n) memory"
    using assms(4) store_wrap_eq [OF fits, of wrap ptr offset v] by (simp_all split: if_splits)
  have a: "?a + ?n \<le> length memory" using b by (simp add: in_bounds_def)
  have len: "length memory' = length memory" using m a by simp
  have bytes: "take ?n (drop ?a memory') = to_le_bytes (wrap v)" using m a by simp
  have fits': "fits_machine t memory'" using fits len by (simp add: fits_machine_def)
  have "load_extend widen t memory' ptr offset = Inr (widen (wrap v))"
    using load_extend_eq [OF fits', of widen ptr offset] b len bytes from_le_to_le [OF assms(3)]
    by (simp add: in_bounds_def)
  moreover have "memory' ! i = memory ! i"
    if "\<not> (?a \<le> i \<and> i < ?a + ?n)" and "i < length memory" for i
    using m a that by (auto simp: nth_append min_def)
  ultimately show ?thesis using len by (auto simp: addr_def)
qed

theorem stored_value_is_loaded_witness:
  "i64_load32_s esp32c3_release [9, 0xFE, 0xFF, 0xFF, 0xFF, 7] 1 0 = Inr 0xFFFFFFFFFFFFFFFE
   \<and> i64_store32 esp32c3_release [9, 8, 8, 8, 8, 7] 1 0 0xFFFFFFFE
       = Inr [9, 0xFE, 0xFF, 0xFF, 0xFF, 7]"
proof -
  have fits: "length [9, 8, 8, 8, 8, 7 :: u8] < 2 ^ usize_bits esp32c3_release"
      "usize_bits esp32c3_release \<le> 64"
    by (simp_all add: esp32c3_release_def)
  have le: "to_le_bytes (0xFFFFFFFE :: 32 word) = [0xFE, 0xFF, 0xFF, 0xFF]"
    by (simp add: to_le_bytes_def upt_rec)
  have st: "store_wrap (ucast :: 64 word \<Rightarrow> 32 word) esp32c3_release [9, 8, 8, 8, 8, 7] 1 0 0xFFFFFFFE
      = Inr [9, 0xFE, 0xFF, 0xFF, 0xFF, 7]"
    by (simp add: store_wrap_eq fits_machine_def esp32c3_release_def in_bounds_def addr_def le)
  from stored_value_is_loaded [OF fits _ st, where widen = "scast :: 32 word \<Rightarrow> 64 word"]
  show ?thesis using st by (simp add: i64_load32_s_def i64_store32_def)
qed

end
