(* ===== verification/Error_Reports.thy ===== *)
theory Error_Reports
  imports Runtime Engine_Errors
begin

text \<open>
  How an error of the wasm engine reaches the receiver: the root error with its texts
  (\<open>patches/wasmi/src/error.rs\<close>), the traps of \<open>wasmi_core/src/trap.rs\<close>, and the step that turns
  a resumable error into the error of a plain call (\<open>engine/resumable.rs\<close>,
  \<open>engine/executor/mod.rs\<close>). The receiver (\<open>MiloRuntime::execute\<close>) looks for the word fuel in the
  text; the last section shows for which errors it finds it. Errors of the parts that are not
  modelled (linker, parser, translation and so on) are the text they display.
\<close>

section \<open>The root error\<close>

datatype error_kind =
    EK_TrapCode trap_code
  | EK_Message string
  | EK_I32ExitStatus i32
  | EK_Host string
  | EK_ResumableHostTrap error_kind
  | EK_ResumableOutOfFuel u64
  | EK_Global string
  | EK_Memory memory_error
  | EK_Table table_error
  | EK_Linker string
  | EK_Instantiation string
  | EK_Fuel fuel_error
  | EK_Func string
  | EK_Read string
  | EK_Wasm string
  | EK_Translation string
  | EK_Limits string
  | EK_Ir string

definition dec_i32 :: "i32 \<Rightarrow> string" where
  "dec_i32 x = (if sint x < 0 then CHR 0x2D # dec (nat (- sint x)) else dec (nat (sint x)))"

fun error_display :: "error_kind \<Rightarrow> string" where
  "error_display (EK_TrapCode code) = trap_message code"
| "error_display (EK_I32ExitStatus status) =
     ''Exited with i32 exit status '' @ dec_i32 status @ [CHR 0x0A]"
| "error_display (EK_Message msg) = msg"
| "error_display (EK_Host text) = text"
| "error_display (EK_Global text) = text"
| "error_display (EK_Memory e) = memory_error_display e"
| "error_display (EK_Table e) = table_error_display e"
| "error_display (EK_Linker text) = text"
| "error_display (EK_Func text) = text"
| "error_display (EK_Instantiation text) = text"
| "error_display (EK_Fuel e) = fuel_error_display e"
| "error_display (EK_Read text) = text"
| "error_display (EK_Wasm text) = text"
| "error_display (EK_Translation text) = text"
| "error_display (EK_Limits text) = text"
| "error_display (EK_ResumableHostTrap e) = error_display e"
| "error_display (EK_ResumableOutOfFuel required) =
     ''ran out of fuel while calling a resumable function: required_fuel='' @ dec (unat required)"
| "error_display (EK_Ir text) = text"

fun as_trap_code :: "error_kind \<Rightarrow> trap_code option" where
  "as_trap_code (EK_TrapCode code) = Some code"
| "as_trap_code (EK_Fuel (fuel_error.OutOfFuel _)) = Some trap_code.OutOfFuel"
| "as_trap_code (EK_Table (table_error.OutOfFuel _)) = Some trap_code.OutOfFuel"
| "as_trap_code (EK_Memory (memory_error.OutOfFuel _)) = Some trap_code.OutOfFuel"
| "as_trap_code (EK_Memory OutOfBoundsAccess) = Some MemoryOutOfBounds"
| "as_trap_code (EK_Memory memory_error.OutOfBoundsGrowth) = Some MemoryOutOfBounds"
| "as_trap_code (EK_Table ElementTypeMismatch) = Some BadSignature"
| "as_trap_code (EK_Table SetOutOfBounds) = Some TableOutOfBounds"
| "as_trap_code (EK_Table FillOutOfBounds) = Some TableOutOfBounds"
| "as_trap_code (EK_Table GrowOutOfBounds) = Some TableOutOfBounds"
| "as_trap_code (EK_Table InitOutOfBounds) = Some TableOutOfBounds"
| "as_trap_code (EK_ResumableOutOfFuel _) = Some trap_code.OutOfFuel"
| "as_trap_code _ = None"

fun as_i32_exit_status :: "error_kind \<Rightarrow> i32 option" where
  "as_i32_exit_status (EK_I32ExitStatus status) = Some status"
| "as_i32_exit_status _ = None"

fun is_out_of_fuel :: "error_kind \<Rightarrow> bool" where
  "is_out_of_fuel (EK_TrapCode trap_code.OutOfFuel) = True"
| "is_out_of_fuel (EK_ResumableOutOfFuel _) = True"
| "is_out_of_fuel (EK_Memory (memory_error.OutOfFuel _)) = True"
| "is_out_of_fuel (EK_Table (table_error.OutOfFuel _)) = True"
| "is_out_of_fuel (EK_Fuel (fuel_error.OutOfFuel _)) = True"
| "is_out_of_fuel _ = False"

section \<open>Leaving a call\<close>

datatype resumable_error = HostTrap error_kind | OutOfFuel u64

fun into_resumable :: "error_kind \<Rightarrow> error_kind + resumable_error" where
  "into_resumable (EK_ResumableHostTrap e) = Inr (HostTrap e)"
| "into_resumable (EK_ResumableOutOfFuel r) = Inr (resumable_error.OutOfFuel r)"
| "into_resumable (EK_Table (table_error.OutOfFuel r)) = Inr (resumable_error.OutOfFuel r)"
| "into_resumable (EK_Memory (memory_error.OutOfFuel r)) = Inr (resumable_error.OutOfFuel r)"
| "into_resumable (EK_Fuel (fuel_error.OutOfFuel r)) = Inr (resumable_error.OutOfFuel r)"
| "into_resumable e = Inl e"

fun into_error :: "resumable_error \<Rightarrow> error_kind" where
  "into_error (HostTrap e) = e"
| "into_error (resumable_error.OutOfFuel r) = EK_TrapCode trap_code.OutOfFuel"

text \<open>\<open>execute_func\<close>: the error of a plain call.\<close>

definition call_error :: "error_kind \<Rightarrow> error_kind" where
  "call_error e = (case into_resumable e of Inr r \<Rightarrow> into_error r | Inl e \<Rightarrow> e)"

text \<open>What the receiver makes of the error of a call (\<open>MiloRuntime::execute\<close>).\<close>

definition reported :: "error_kind \<Rightarrow> milo_error" where
  "reported e = wasm_error (error_display (call_error e))"

section \<open>Looking for the word fuel\<close>

lemma str_contains_infix: "str_contains (xs @ needle @ ys) needle"
proof (induction xs)
  case Nil
  have "take (length needle) (needle @ ys) = needle" by simp
  then show ?case by (cases "needle @ ys") simp_all
next
  case (Cons x xs)
  then show ?case by simp
qed

lemma str_contains_set: "str_contains s needle \<Longrightarrow> set needle \<subseteq> set s"
proof (induction s)
  case Nil
  then show ?case by simp
next
  case (Cons c cs)
  show ?case
  proof (cases "take (length needle) (c # cs) = needle")
    case True
    then show ?thesis using set_take_subset [of "length needle" "c # cs"] by simp
  next
    case False
    with Cons show ?thesis by auto
  qed
qed

lemma digit_not_f: "d < 10 \<Longrightarrow> digit_char d \<noteq> CHR ''f''"
proof
  assume "d < 10" and "digit_char d = CHR ''f''"
  then have "(of_char (digit_char d) :: nat) = 102" by simp
  moreover have "(of_char (digit_char d) :: nat) = 48 + d"
    using \<open>d < 10\<close> by (simp add: digit_char_def of_char_of)
  ultimately show False using \<open>d < 10\<close> by simp
qed

lemma dec_without_f: "CHR ''f'' \<notin> set (dec n)"
proof (induction n rule: dec.induct)
  case (1 n)
  show ?case
  proof (cases "n < 10")
    case True
    then show ?thesis using digit_not_f [of n] by (subst dec.simps) auto
  next
    case False
    then show ?thesis using 1 digit_not_f [of "n mod 10"] by (subst dec.simps) auto
  qed
qed

lemma exit_status_without_fuel: "\<not> str_contains (error_display (EK_I32ExitStatus status)) ''fuel''"
proof
  assume "str_contains (error_display (EK_I32ExitStatus status)) ''fuel''"
  then have "set ''fuel'' \<subseteq> set (error_display (EK_I32ExitStatus status))" by (rule str_contains_set)
  moreover have "CHR ''f'' \<notin> set (error_display (EK_I32ExitStatus status))"
    using dec_without_f by (simp add: dec_i32_def)
  ultimately show False by simp
qed

lemma required_fuel_texts:
  "str_contains (''not enough fuel. required='' @ n) ''fuel''"
  "str_contains (''not enough fuel: required='' @ n) ''fuel''"
  "str_contains (''ouf of fuel. required='' @ n) ''fuel''"
  by (simp_all only: append.simps str_contains.simps) simp_all

lemma trap_message_fuel: "str_contains (trap_message c) ''fuel'' = (c = trap_code.OutOfFuel)"
  by (cases c) simp_all

lemma memory_error_fuel:
  "str_contains (memory_error_display e) ''fuel'' = (\<exists>r. e = memory_error.OutOfFuel r)"
  by (cases e) simp_all

lemma table_error_fuel:
  "str_contains (table_error_display e) ''fuel'' = (\<exists>r. e = table_error.OutOfFuel r)"
  by (cases e) simp_all

text \<open>The errors whose text the engine itself writes.\<close>

fun own_text :: "error_kind \<Rightarrow> bool" where
  "own_text (EK_TrapCode _) = True"
| "own_text (EK_I32ExitStatus _) = True"
| "own_text (EK_ResumableOutOfFuel _) = True"
| "own_text (EK_Memory _) = True"
| "own_text (EK_Table _) = True"
| "own_text (EK_Fuel _) = True"
| "own_text _ = False"

lemma is_out_of_fuel_trap_code: "is_out_of_fuel e = (as_trap_code e = Some trap_code.OutOfFuel)"
  by (cases e rule: is_out_of_fuel.cases) simp_all

lemma call_error_out_of_fuel:
  "is_out_of_fuel e \<Longrightarrow> call_error e = EK_TrapCode trap_code.OutOfFuel"
  by (cases e rule: is_out_of_fuel.cases) (simp_all add: call_error_def)

lemma call_error_other: "own_text e \<Longrightarrow> \<not> is_out_of_fuel e \<Longrightarrow> call_error e = e"
  by (cases e rule: into_resumable.cases) (simp_all add: call_error_def)

lemma own_text_fuel:
  assumes "own_text e" and "\<not> is_out_of_fuel e"
  shows "str_contains (error_display e) ''fuel'' = (e = EK_Fuel FuelMeteringDisabled)"
proof (cases e)
  case (EK_TrapCode c)
  then show ?thesis using assms(2) trap_message_fuel [of c] by (cases c) simp_all
next
  case (EK_I32ExitStatus status)
  then show ?thesis using exit_status_without_fuel by (simp del: error_display.simps)
next
  case (EK_Memory m)
  then show ?thesis using assms(2) memory_error_fuel [of m] by (cases m) simp_all
next
  case (EK_Table t)
  then show ?thesis using assms(2) table_error_fuel [of t] by (cases t) simp_all
next
  case (EK_Fuel f)
  then show ?thesis using assms(2) by (cases f) (simp_all add: fuel_error_display_def)
next
  case (EK_ResumableOutOfFuel r)
  then show ?thesis using assms(2) by simp
qed (use assms(1) in simp_all)

lemma reported_out_of_fuel: "is_out_of_fuel e \<Longrightarrow> reported e = FuelExhausted"
  using trap_message_fuel [of trap_code.OutOfFuel]
  by (simp add: reported_def wasm_error_def call_error_out_of_fuel)

text \<open>
  The receiver finds the end of the fuel by looking for the word in the text of the error.
  For the errors whose text the engine writes, this is exact: a call that ran out of fuel, be it
  in an instruction, in growing a memory or a table, or in compiling a function, is reported as
  fuel exhaustion, every other one as a trap with its text; only the complaint that metering is
  switched off would be misread.
\<close>
theorem fuel_exhaustion_is_recognised:
  assumes "own_text e"
  shows "reported e =
    (if is_out_of_fuel e \<or> e = EK_Fuel FuelMeteringDisabled then FuelExhausted
     else Trapped (error_display e))"
proof (cases "is_out_of_fuel e")
  case True
  then show ?thesis using reported_out_of_fuel by simp
next
  case False
  then show ?thesis
    using assms own_text_fuel [OF assms False]
    by (simp add: reported_def wasm_error_def call_error_other)
qed

theorem fuel_exhaustion_is_recognised_witness:
  "reported (EK_Memory (memory_error.OutOfFuel 1024)) = FuelExhausted
   \<and> reported (EK_TrapCode MemoryOutOfBounds) = Trapped ''out of bounds memory access''"
  using fuel_exhaustion_is_recognised [of "EK_Memory (memory_error.OutOfFuel 1024)"]
    fuel_exhaustion_is_recognised [of "EK_TrapCode MemoryOutOfBounds"]
  by simp

text \<open>
  An error of a host function keeps its own text, so there the word alone decides.
\<close>

lemma host_error_by_text:
  "reported (EK_ResumableHostTrap (EK_Host text)) =
     (if str_contains text ''fuel'' then FuelExhausted else Trapped text)"
  by (simp add: reported_def wasm_error_def call_error_def)

end
