(* ===== verification/Memory_Ops.thy ===== *)
theory Memory_Ops
  imports Memory_Access Error_Reports
begin

text \<open>
  The bulk memory instructions of the patched wasm engine
  (\<open>patches/wasmi/src/engine/executor/instrs/memory.rs\<close>): growing and measuring a memory, copying,
  filling and initialising it from a data segment, with the bounds checks, the fuel, and the
  errors that leave the instruction. The registers an instruction reads and writes are its
  arguments and its result.
\<close>

section \<open>Instructions\<close>

text \<open>\<open>usize::try_from\<close> of a register.\<close>

definition usize_of :: "target \<Rightarrow> 'a::len word \<Rightarrow> error_kind + nat" where
  "usize_of t x =
     (if unat x < 2 ^ usize_bits t then Inr (unat x) else Inl (EK_TrapCode MemoryOutOfBounds))"

text \<open>\<open>get(start..)\<close> and then \<open>get(..len)\<close>: is there such a slice?\<close>

definition has_span :: "bytes \<Rightarrow> nat \<Rightarrow> nat \<Rightarrow> bool" where
  "has_span xs start len \<longleftrightarrow> start \<le> length xs \<and> len \<le> length (drop start xs)"

definition overwrite :: "bytes \<Rightarrow> nat \<Rightarrow> bytes \<Rightarrow> bytes" where
  "overwrite xs start ys = take start xs @ ys @ drop (start + length ys) xs"

text \<open>\<open>copy_within(a..b, dst)\<close>, which panics on a bad range.\<close>

definition copy_within :: "bytes \<Rightarrow> nat \<Rightarrow> nat \<Rightarrow> nat \<Rightarrow> bytes outcome" where
  "copy_within xs a b dst =
     (if a \<le> b \<and> b \<le> length xs \<and> dst \<le> length xs - (b - a)
      then Ok (overwrite xs dst (take (b - a) (drop a xs))) else Panic)"

definition charge_bytes :: "nat \<Rightarrow> fuel \<Rightarrow> (error_kind + unit) \<times> fuel" where
  "charge_bytes len fu =
     (case consume_fuel_if (\<lambda>c. fuel_for_copying_bytes c (word_of_nat len)) fu of
        (Inl e, fu) \<Rightarrow> (Inl (EK_Fuel e), fu) | (Inr _, fu) \<Rightarrow> (Inr (), fu))"

definition exec_memory_size :: "memory \<Rightarrow> u64" where
  "exec_memory_size m = memory_size m"

definition exec_memory_grow ::
  "target \<Rightarrow> allocator \<Rightarrow> 'l limiter option \<Rightarrow> u64 \<Rightarrow> memory \<Rightarrow> fuel \<Rightarrow> 'l \<Rightarrow>
   ((error_kind + u64) \<times> memory \<times> fuel option \<times> 'l) outcome" where
  "exec_memory_grow t al lim delta m fu l =
     (if delta = 0 then Ok (Inr (exec_memory_size m), m, Some fu, l)
      else
        and_then (memory_grow t al lim delta m (Some fu) l) (\<lambda>(r, m, fu, l).
          case r of
            Inr return_value \<Rightarrow> Ok (Inr return_value, m, fu, l)
          | Inl e \<Rightarrow>
              (case e of
                 memory_error.OutOfBoundsGrowth \<Rightarrow>
                   Ok (Inr (if is_64 (mt_index_type (mem_type m)) then 0xFFFFFFFFFFFFFFFF
                            else 0xFFFFFFFF), m, fu, l)
               | memory_error.OutOfSystemMemory \<Rightarrow>
                   Ok (Inr (if is_64 (mt_index_type (mem_type m)) then 0xFFFFFFFFFFFFFFFF
                            else 0xFFFFFFFF), m, fu, l)
               | memory_error.OutOfFuel required \<Rightarrow> Ok (Inl (EK_ResumableOutOfFuel required), m, fu, l)
               | memory_error.ResourceLimiterDeniedAllocation \<Rightarrow>
                   Ok (Inl (EK_TrapCode GrowthOperationLimited), m, fu, l)
               | _ \<Rightarrow> Panic)))"

definition exec_copy_within_impl ::
  "target \<Rightarrow> nat \<Rightarrow> nat \<Rightarrow> nat \<Rightarrow> bytes \<Rightarrow> fuel \<Rightarrow> ((error_kind + bytes) \<times> fuel) outcome" where
  "exec_copy_within_impl t dst_index src_index len mem fu =
     (if \<not> has_span mem src_index len then Ok (Inl (EK_TrapCode MemoryOutOfBounds), fu)
      else if \<not> has_span mem dst_index len then Ok (Inl (EK_TrapCode MemoryOutOfBounds), fu)
      else
        (case charge_bytes len fu of
           (Inl e, fu) \<Rightarrow> Ok (Inl e, fu)
         | (Inr _, fu) \<Rightarrow>
             and_then (copy_within mem src_index ((src_index + len) mod 2 ^ usize_bits t) dst_index)
               (\<lambda>mem. Ok (Inr mem, fu))))"

text \<open>\<open>memory.copy\<close> within one memory, and from one memory to another.\<close>

definition exec_memory_copy_within ::
  "target \<Rightarrow> u64 \<Rightarrow> u64 \<Rightarrow> u64 \<Rightarrow> bytes \<Rightarrow> fuel \<Rightarrow> ((error_kind + bytes) \<times> fuel) outcome" where
  "exec_memory_copy_within t dst src len mem fu =
     (case usize_of t dst of Inl e \<Rightarrow> Ok (Inl e, fu) | Inr dst_index \<Rightarrow>
     (case usize_of t src of Inl e \<Rightarrow> Ok (Inl e, fu) | Inr src_index \<Rightarrow>
     (case usize_of t len of Inl e \<Rightarrow> Ok (Inl e, fu) | Inr len \<Rightarrow>
        exec_copy_within_impl t dst_index src_index len mem fu)))"

definition exec_memory_copy ::
  "target \<Rightarrow> u64 \<Rightarrow> u64 \<Rightarrow> u64 \<Rightarrow> bytes \<Rightarrow> bytes \<Rightarrow> fuel \<Rightarrow> (error_kind + bytes) \<times> fuel" where
  "exec_memory_copy t dst src len src_bytes dst_bytes fu =
     (case usize_of t dst of Inl e \<Rightarrow> (Inl e, fu) | Inr dst_index \<Rightarrow>
     (case usize_of t src of Inl e \<Rightarrow> (Inl e, fu) | Inr src_index \<Rightarrow>
     (case usize_of t len of Inl e \<Rightarrow> (Inl e, fu) | Inr len \<Rightarrow>
        if \<not> has_span src_bytes src_index len then (Inl (EK_TrapCode MemoryOutOfBounds), fu)
        else if \<not> has_span dst_bytes dst_index len then (Inl (EK_TrapCode MemoryOutOfBounds), fu)
        else
          (case charge_bytes len fu of
             (Inl e, fu) \<Rightarrow> (Inl e, fu)
           | (Inr _, fu) \<Rightarrow>
               (Inr (overwrite dst_bytes dst_index (take len (drop src_index src_bytes))), fu)))))"

definition exec_memory_fill ::
  "target \<Rightarrow> u64 \<Rightarrow> u8 \<Rightarrow> u64 \<Rightarrow> bytes \<Rightarrow> fuel \<Rightarrow> (error_kind + bytes) \<times> fuel" where
  "exec_memory_fill t dst v len mem fu =
     (case usize_of t dst of Inl e \<Rightarrow> (Inl e, fu) | Inr dst \<Rightarrow>
     (case usize_of t len of Inl e \<Rightarrow> (Inl e, fu) | Inr len \<Rightarrow>
        if \<not> has_span mem dst len then (Inl (EK_TrapCode MemoryOutOfBounds), fu)
        else
          (case charge_bytes len fu of
             (Inl e, fu) \<Rightarrow> (Inl e, fu)
           | (Inr _, fu) \<Rightarrow> (Inr (overwrite mem dst (replicate len v)), fu))))"

definition exec_memory_init ::
  "target \<Rightarrow> u64 \<Rightarrow> u32 \<Rightarrow> u32 \<Rightarrow> bytes \<Rightarrow> bytes \<Rightarrow> fuel \<Rightarrow> (error_kind + bytes) \<times> fuel" where
  "exec_memory_init t dst src len mem data fu =
     (case usize_of t dst of Inl e \<Rightarrow> (Inl e, fu) | Inr dst_index \<Rightarrow>
     (case usize_of t src of Inl e \<Rightarrow> (Inl e, fu) | Inr src_index \<Rightarrow>
     (case usize_of t len of Inl e \<Rightarrow> (Inl e, fu) | Inr len \<Rightarrow>
        if \<not> has_span mem dst_index len then (Inl (EK_TrapCode MemoryOutOfBounds), fu)
        else if \<not> has_span data src_index len then (Inl (EK_TrapCode MemoryOutOfBounds), fu)
        else
          (case charge_bytes len fu of
             (Inl e, fu) \<Rightarrow> (Inl e, fu)
           | (Inr _, fu) \<Rightarrow>
               (Inr (overwrite mem dst_index (take len (drop src_index data))), fu)))))"

section \<open>What they do\<close>

lemma length_overwrite: "start + length ys \<le> length xs \<Longrightarrow> length (overwrite xs start ys) = length xs"
  by (simp add: overwrite_def)

lemma nth_overwrite:
  "start + length ys \<le> length xs \<Longrightarrow> i < length xs \<Longrightarrow>
   overwrite xs start ys ! i = (if start \<le> i \<and> i < start + length ys then ys ! (i - start) else xs ! i)"
  by (auto simp: overwrite_def nth_append min_def)

lemma has_span_iff: "has_span xs a n \<longleftrightarrow> a + n \<le> length xs"
  by (auto simp: has_span_def)

lemma charge_bytes_iff:
  "charge_bytes len fu =
     (let cost = fuel_for_copying_bytes (costs fu) (word_of_nat len)
      in if \<not> enabled fu then (Inr (), fu)
         else if unat cost \<le> unat (remaining fu) then (Inr (), fu\<lparr>remaining := remaining fu - cost\<rparr>)
         else (Inl (EK_Fuel (fuel_error.OutOfFuel cost)), fu))"
  by (simp add: charge_bytes_def consume_fuel_if_iff Let_def)

text \<open>The bytes a bulk instruction writes, and those it reads from the memory itself.\<close>

definition bulk_copied :: "bytes \<Rightarrow> nat \<Rightarrow> nat \<Rightarrow> nat \<Rightarrow> bytes \<Rightarrow> bool" where
  "bulk_copied mem dst src len mem' \<longleftrightarrow> length mem' = length mem \<and>
     (\<forall>i < length mem. mem' ! i = (if dst \<le> i \<and> i < dst + len then mem ! (src + (i - dst)) else mem ! i))"

lemma bulk_copied_overwrite:
  assumes "src + len \<le> length mem" and "dst + len \<le> length mem"
  shows "bulk_copied mem dst src len (overwrite mem dst (take len (drop src mem)))"
proof -
  have l: "length (take len (drop src mem)) = len" using assms(1) by simp
  show ?thesis
    using assms by (auto simp: bulk_copied_def length_overwrite nth_overwrite l)
qed

text \<open>
  C29: \<open>memory.copy\<close> within a memory never panics. It traps exactly when the source or the
  destination leaves the memory, stops when the fuel does not cover the bytes (both before
  anything is written), and otherwise moves the bytes as if through a buffer, also when the two
  regions overlap, and touches no other byte.
\<close>
theorem memory_copy_correct:
  assumes "length mem < 2 ^ usize_bits t" and "usize_bits t \<le> 64"
  shows "\<exists>r fu'. exec_memory_copy_within t dst src len mem fu = Ok (r, fu')
    \<and> (if length mem < unat src + unat len \<or> length mem < unat dst + unat len
       then r = Inl (EK_TrapCode MemoryOutOfBounds) \<and> fu' = fu
       else if fst (charge_bytes (unat len) fu) \<noteq> Inr ()
       then (\<exists>n. r = Inl (EK_Fuel (fuel_error.OutOfFuel n))) \<and> fu' = fu
       else (\<exists>mem'. r = Inr mem' \<and> bulk_copied mem (unat dst) (unat src) (unat len) mem')
            \<and> fu' = snd (charge_bytes (unat len) fu))"
proof (cases "length mem < unat src + unat len \<or> length mem < unat dst + unat len")
  case True
  then have "\<not> (has_span mem (unat src) (unat len) \<and> has_span mem (unat dst) (unat len))"
    by (auto simp: has_span_iff)
  then show ?thesis
    using True by (auto simp: exec_memory_copy_within_def usize_of_def exec_copy_within_impl_def)
next
  case False
  then have s: "unat src + unat len \<le> length mem" and d: "unat dst + unat len \<le> length mem"
    by simp_all
  have u: "usize_of t dst = Inr (unat dst)" "usize_of t src = Inr (unat src)"
    "usize_of t len = Inr (unat len)"
    using s d assms(1) by (simp_all add: usize_of_def)
  have m: "(unat src + unat len) mod 2 ^ usize_bits t = unat src + unat len"
    using s assms(1) by simp
  have c: "copy_within mem (unat src) (unat src + unat len) (unat dst)
      = Ok (overwrite mem (unat dst) (take (unat len) (drop (unat src) mem)))"
    using s d by (simp add: copy_within_def)
  have e: "exec_memory_copy_within t dst src len mem fu =
      (case charge_bytes (unat len) fu of
         (Inl e, fu) \<Rightarrow> Ok (Inl e, fu)
       | (Inr _, fu) \<Rightarrow>
           Ok (Inr (overwrite mem (unat dst) (take (unat len) (drop (unat src) mem))), fu))"
    using s d u m c
    by (simp add: exec_memory_copy_within_def exec_copy_within_impl_def has_span_iff
        split: prod.split sum.split)
  show ?thesis
    using False bulk_copied_overwrite [OF s d]
    by (simp add: e charge_bytes_iff Let_def)
qed

theorem memory_copy_correct_witness:
  "\<exists>mem'. exec_memory_copy_within esp32c3_release 1 0 3 [1, 2, 3, 4, 5]
       \<lparr>remaining = 7, enabled = True, costs = \<lparr>custom = None\<rparr>\<rparr>
     = Ok (Inr mem', \<lparr>remaining = 7, enabled = True, costs = \<lparr>custom = None\<rparr>\<rparr>)
     \<and> bulk_copied [1, 2, 3, 4, 5] 1 0 3 mem'"
proof -
  have "length [1, 2, 3, 4, 5 :: u8] < 2 ^ usize_bits esp32c3_release" "usize_bits esp32c3_release \<le> 64"
    by (simp_all add: esp32c3_release_def)
  from memory_copy_correct [OF this, of 1 0 3 "\<lparr>remaining = 7, enabled = True, costs = \<lparr>custom = None\<rparr>\<rparr>"]
  show ?thesis
    by (auto simp: charge_bytes_iff fuel_for_copying_bytes_def provider_bytes_per_fuel_def
        default_fuel_costs_def fuel_costs_of_base_def)
qed

text \<open>Filling and initialising: exact, and confined to the addressed bytes.\<close>

lemma memory_fill_Inr:
  assumes "exec_memory_fill t dst v len mem fu = (Inr mem', fu')"
  shows "unat dst + unat len \<le> length mem \<and> length mem' = length mem
    \<and> (\<forall>i < length mem. mem' ! i =
         (if unat dst \<le> i \<and> i < unat dst + unat len then v else mem ! i))"
  using assms
  by (auto simp: exec_memory_fill_def usize_of_def has_span_iff nth_overwrite length_overwrite
      split: if_splits prod.splits sum.splits)

lemma memory_init_Inr:
  assumes "exec_memory_init t dst src len mem data fu = (Inr mem', fu')"
  shows "unat dst + unat len \<le> length mem \<and> unat src + unat len \<le> length data
    \<and> length mem' = length mem
    \<and> (\<forall>i < length mem. mem' ! i =
         (if unat dst \<le> i \<and> i < unat dst + unat len then data ! (unat src + (i - unat dst))
          else mem ! i))"
  using assms
  by (auto simp: exec_memory_init_def usize_of_def has_span_iff nth_overwrite length_overwrite
      split: if_splits prod.splits sum.splits)

text \<open>
  \<open>memory.grow\<close> of a guest, as the receiver runs it (no resource limiter, memory on the heap),
  never panics and is all or nothing. It succeeds exactly when the new size is within the
  declared maximum and the index type, fits the machine, is paid for by the fuel and is served
  by the allocator; then the guest gets the old size, its bytes stay and zeros follow. Otherwise
  the memory is untouched, and the guest reads -1 or the run ends and is reported as fuel
  exhaustion.
\<close>
theorem guest_memory_grow:
  assumes "memory_ok t m" and "max_fits (mem_type m)" and "buf_static (mem_buffer m) = None"
  shows "\<exists>r m' fu' l'. exec_memory_grow t al None delta m fu l = Ok (r, m', fu', l')
    \<and> (case r of
         Inr v \<Rightarrow>
           if can_grow t al delta m (Some fu)
           then unat v = pages m
             \<and> mem_data m' = mem_data m @ replicate (unat delta * page (mem_type m)) 0
           else v = (if is_64 (mt_index_type (mem_type m)) then 0xFFFFFFFFFFFFFFFF else 0xFFFFFFFF)
                \<and> m' = m
       | Inl e \<Rightarrow> \<not> can_grow t al delta m (Some fu) \<and> m' = m \<and> reported e = FuelExhausted)"
proof (cases "delta = 0")
  case True
  then show ?thesis
    using assms(1) unat_memory_size [OF assms(1)]
    by (simp add: exec_memory_grow_def exec_memory_size_def can_grow_def)
next
  case False
  obtain r m' fu' l' where g: "memory_grow t al None delta m (Some fu) l = Ok (r, m', fu', l')"
    and iff: "isl r = (\<not> can_grow t al delta m (Some fu))"
    using memory_grow_vec(2) [OF assms refl, of al delta "Some fu" l] by blast
  show ?thesis
  proof (cases r)
    case (Inr v)
    then have "can_grow t al delta m (Some fu)" using iff by simp
    then show ?thesis
      using False Inr g memory_grow_Inr [OF assms(1) g [unfolded Inr]]
      by (simp add: exec_memory_grow_def grown_def)
  next
    case (Inl e)
    have no: "\<not> can_grow t al delta m (Some fu)" using iff Inl by simp
    have m: "m' = m" using memory_grow_Inl [OF g [unfolded Inl]] by simp
    have rep: "reported (EK_ResumableOutOfFuel k) = FuelExhausted" for k
      by (rule reported_out_of_fuel) simp
    from memory_grow_errors [OF g [unfolded Inl] assms(3)] show ?thesis
      using False Inl g no m rep by (elim disjE exE) (simp_all add: exec_memory_grow_def)
  qed
qed

theorem guest_memory_grow_witness:
  "\<exists>m' fu' l'. exec_memory_grow esp32c3_release (\<lambda>n. n \<le> 200000) None 2 one_page
        \<lparr>remaining = 7, enabled = True, costs = \<lparr>custom = None\<rparr>\<rparr> () = Ok (Inr 1, m', fu', l')
    \<and> mem_data m' = [7, 0, 0]"
proof -
  let ?f = "\<lparr>remaining = 7, enabled = True, costs = \<lparr>custom = None\<rparr>\<rparr> :: fuel"
  have "max_fits (mem_type one_page)" "buf_static (mem_buffer one_page) = None"
    by (simp_all add: one_page_def max_fits_def page_def)
  note grow = guest_memory_grow [OF one_page_ok this, of "\<lambda>n. n \<le> 200000" 2 ?f "()"]
  have can: "can_grow esp32c3_release (\<lambda>n. n \<le> 200000) 2 one_page (Some ?f)"
    by (simp add: can_grow_def pages_def page_def page_limit_def absolute_max_def
        index_max_size_def affordable_def growth_cost_def bytes_per_page_def page_size_def
        fuel_for_copying_bytes_def provider_bytes_per_fuel_def default_fuel_costs_def
        fuel_costs_of_base_def try_reserve_def esp32c3_release_def one_page_def)
  have one: "unat v = pages one_page \<longleftrightarrow> v = 1" for v :: u64
    using word_unat_eq_iff [of v 1] by (simp add: pages_def page_def one_page_def)
  have r2: "replicate 2 (0 :: u8) = [0, 0]" by (simp add: numeral_2_eq_2)
  have data: "mem_data one_page @ replicate (unat (2 :: u64) * page (mem_type one_page)) 0 = [7, 0, 0]"
    using r2 by (simp add: page_def one_page_def)
  from grow obtain r m' fu' l' where r: "exec_memory_grow esp32c3_release (\<lambda>n. n \<le> 200000) None 2
        one_page ?f () = Ok (r, m', fu', l')"
    and c: "case r of
         Inr v \<Rightarrow>
           if can_grow esp32c3_release (\<lambda>n. n \<le> 200000) 2 one_page (Some ?f)
           then unat v = pages one_page
             \<and> mem_data m' = mem_data one_page @ replicate (unat (2 :: u64) * page (mem_type one_page)) 0
           else v = (if is_64 (mt_index_type (mem_type one_page)) then 0xFFFFFFFFFFFFFFFF
                     else 0xFFFFFFFF) \<and> m' = one_page
       | Inl e \<Rightarrow> \<not> can_grow esp32c3_release (\<lambda>n. n \<le> 200000) 2 one_page (Some ?f)
           \<and> m' = one_page \<and> reported e = FuelExhausted"
    by (elim exE conjE)
  from c can one data have "r = Inr 1 \<and> mem_data m' = [7, 0, 0]" by (cases r) simp_all
  with r show ?thesis by simp
qed

text \<open>
  The corner the engine does not handle: a memory in a static array. Growing it past the array
  is an error the instruction does not expect, so it panics where -1 is due.
\<close>

lemma static_memory_grow_panics:
  assumes "memory_ok t m" and "max_fits (mem_type m)" and "buf_static (mem_buffer m) = Some capacity"
    and "desired_byte_size t m delta = Inr desired" and "delta \<noteq> 0" and "capacity < desired"
    and "\<not> enabled fu"
  shows "exec_memory_grow t al None delta m fu l = Panic"
proof -
  have v: "valid_type (mem_type m)" using assms(1) by (simp add: memory_ok_def)
  have D: "pages m + unat delta \<le> page_limit (mem_type m) \<and>
      desired = (pages m + unat delta) * page (mem_type m) \<and> desired < 2 ^ usize_bits t"
    by (rule desired_byte_size_Inr [OF assms(1,4)])
  have le: "length (mem_data m) \<le> desired"
    using D memory_ok_length [OF assms(1)] by (simp add: distrib_right)
  have "unat delta * page (mem_type m) \<le> desired" using D by (simp add: distrib_right)
  also have "desired < 2 ^ 64"
    using D assms(1) by (intro less_usize_u64 [of _ t]) (simp_all add: memory_ok_def)
  finally have "unat delta * unat (bytes_per_page m) < 2 ^ 64"
    by (simp only: unat_bytes_per_page [OF v])
  from charge_growth_fits [OF this, of fu] have "charge_growth m delta (Some fu) = Ok (Inr (), Some fu)"
    using assms(7) by (simp add: consume_fuel_if_def)
  then have "memory_grow t al None delta m (Some fu) l
      = Ok (Inl InvalidStaticBufferSize, m, Some fu, l)"
    using assms(3-6) max_size_in_bytes_ok [OF v] assms(2) le
    by (simp add: memory_grow_def size_in_bytes_ok [OF assms(1)] ask_limiter_def grow_paid_def
        grow_buffer_def buffer_grow_def buffer_grow_static_def notify_limiter_def)
  then show ?thesis using assms(5) by (simp add: exec_memory_grow_def)
qed

end
