(* ===== verification/Wasm_Reader.thy ===== *)
theory Wasm_Reader
  imports Memory_Access
begin

unbundle bit_operations_syntax

text \<open>
  The byte reader of the wasm engine's own parser: \<open>BinaryReader\<close> of
  \<open>patches/wasmparser/src/binary_reader.rs\<close>. Fixed-width and LEB128 integers, strings, slices and
  sub-readers, with the errors and with the \<open>usize\<close> arithmetic of the build target, whose
  overflow the slices turn into panics. Of the \<open>features\<close> only the flag a reader looks at is kept.
  Offsets into the original input appear in errors only.
\<close>

section \<open>Errors\<close>

datatype reader_error_kind = Custom | Invalid

record reader_error =
  re_message :: string
  re_kind :: reader_error_kind
  re_offset :: nat
  re_needed_hint :: "nat option"

definition error_new :: "string \<Rightarrow> nat \<Rightarrow> reader_error" where
  "error_new message offset =
     \<lparr>re_message = message, re_kind = Custom, re_offset = offset, re_needed_hint = None\<rparr>"

definition error_invalid :: "string \<Rightarrow> nat \<Rightarrow> reader_error" where
  "error_invalid message offset =
     \<lparr>re_message = message, re_kind = Invalid, re_offset = offset, re_needed_hint = None\<rparr>"

definition error_eof :: "nat \<Rightarrow> nat \<Rightarrow> reader_error" where
  "error_eof offset hint = (error_new ''unexpected end-of-file'' offset)\<lparr>re_needed_hint := Some hint\<rparr>"

definition set_message :: "string \<Rightarrow> reader_error \<Rightarrow> reader_error" where
  "set_message message e = e\<lparr>re_message := message\<rparr>"

section \<open>The reader\<close>

record reader =
  rd_buffer :: bytes
  rd_position :: nat
  rd_original_offset :: nat
  rd_shared_everything_threads :: bool

text \<open>
  A read returns a value and the reader moved on, or an error (after which the reader is not
  used any more), or panics.
\<close>

type_synonym 'a read = "reader \<Rightarrow> (reader_error + 'a \<times> reader) outcome"

definition rd_return :: "'a \<Rightarrow> 'a read" where
  "rd_return x r = Ok (Inr (x, r))"

definition rd_fail :: "reader_error \<Rightarrow> 'a read" where
  "rd_fail e r = Ok (Inl e)"

definition rd_bind :: "'a read \<Rightarrow> ('a \<Rightarrow> 'b read) \<Rightarrow> 'b read" where
  "rd_bind p f r = and_then (p r) (\<lambda>x. case x of Inl e \<Rightarrow> Ok (Inl e) | Inr (a, r) \<Rightarrow> f a r)"

lemma rd_bind_Ok:
  assumes "rd_bind p f r = Ok (Inr y)"
  obtains a s where "p r = Ok (Inr (a, s))" "f a s = Ok (Inr y)"
proof (cases "p r")
  case (Ok x)
  then show thesis using assms that by (cases x) (auto simp: rd_bind_def)
qed (use assms in \<open>simp_all add: rd_bind_def\<close>)

text \<open>\<open>map_err\<close>.\<close>

definition rd_map_err :: "(reader_error \<Rightarrow> reader_error) \<Rightarrow> 'a read \<Rightarrow> 'a read" where
  "rd_map_err f p r = and_then (p r) (\<lambda>x. Ok (case x of Inl e \<Rightarrow> Inl (f e) | Inr y \<Rightarrow> Inr y))"

definition original_position :: "reader \<Rightarrow> nat" where
  "original_position r = rd_original_offset r + rd_position r"

definition ensure_has_byte :: "unit read" where
  "ensure_has_byte r =
     (if rd_position r < length (rd_buffer r) then Ok (Inr ((), r))
      else Ok (Inl (error_eof (original_position r) 1)))"

definition ensure_has_bytes :: "target \<Rightarrow> nat \<Rightarrow> unit read" where
  "ensure_has_bytes t len r =
     and_then (usize_add t (rd_position r) len) (\<lambda>stop.
       if stop \<le> length (rd_buffer r) then Ok (Inr ((), r))
       else Ok (Inl (error_eof (original_position r) (stop - length (rd_buffer r)))))"

definition rd_eof :: "reader \<Rightarrow> bool" where
  "rd_eof r = (rd_position r \<ge> length (rd_buffer r))"

definition bytes_remaining :: "reader \<Rightarrow> nat" where
  "bytes_remaining r = length (rd_buffer r) - rd_position r"

definition read_u8 :: "u8 read" where
  "read_u8 r =
     (if rd_position r < length (rd_buffer r)
      then Ok (Inr (rd_buffer r ! rd_position r, r\<lparr>rd_position := rd_position r + 1\<rparr>))
      else Ok (Inl (error_eof (original_position r) 1)))"

definition peek :: "u8 read" where
  "peek = rd_bind ensure_has_byte (\<lambda>_ r.
     and_then (index (rd_buffer r) (rd_position r)) (\<lambda>b. Ok (Inr (b, r))))"

definition read_u7 :: "u8 read" where
  "read_u7 = rd_bind read_u8 (\<lambda>b r.
     if b AND 0x80 \<noteq> 0 then Ok (Inl (error_new ''invalid u7'' (original_position r - 1)))
     else Ok (Inr (b, r)))"

definition read_bytes :: "target \<Rightarrow> nat \<Rightarrow> bytes read" where
  "read_bytes t n = rd_bind (ensure_has_bytes t n) (\<lambda>_ r.
     and_then (usize_add t (rd_position r) n) (\<lambda>stop.
     and_then (slice_range (rd_buffer r) (rd_position r) stop) (\<lambda>bs.
       Ok (Inr (bs, r\<lparr>rd_position := stop\<rparr>)))))"

definition read_u32 :: "target \<Rightarrow> u32 read" where
  "read_u32 t = rd_bind (ensure_has_bytes t 4) (\<lambda>_ r.
     and_then (slice_range (rd_buffer r) (rd_position r) (rd_position r + 4)) (\<lambda>bs.
       Ok (Inr (from_le_bytes bs, r\<lparr>rd_position := rd_position r + 4\<rparr>))))"

section \<open>LEB128\<close>

lemma read_u8_step:
  "read_u8 r = Ok (Inr (b, r')) \<Longrightarrow>
     rd_position r < length (rd_buffer r) \<and> b = rd_buffer r ! rd_position r
     \<and> r' = r\<lparr>rd_position := Suc (rd_position r)\<rparr>"
  by (auto simp: read_u8_def split: if_splits)

text \<open>The loop of \<open>read_var_u32_big\<close>.\<close>

function var_u32_loop :: "u32 \<Rightarrow> nat \<Rightarrow> u32 read" where
  "var_u32_loop result shift r =
     (case read_u8 r of
        Ok (Inr (byte, r)) \<Rightarrow>
          let result = result OR push_bit shift (ucast (byte AND 0x7F))
          in if shift \<ge> 25 \<and> drop_bit (32 - shift) byte \<noteq> 0
             then Ok (Inl (error_new
                    (if byte AND 0x80 \<noteq> 0 then ''invalid var_u32: integer representation too long''
                     else ''invalid var_u32: integer too large'') (original_position r - 1)))
             else if byte AND 0x80 = 0 then Ok (Inr (result, r))
             else var_u32_loop result (shift + 7) r
      | Ok (Inl e) \<Rightarrow> Ok (Inl e)
      | Panic \<Rightarrow> Panic
      | Diverges \<Rightarrow> Diverges)"
  by pat_completeness auto
termination
  by (relation "measure (\<lambda>(result, shift, r). length (rd_buffer r) - rd_position r)")
    (auto dest!: read_u8_step)

declare var_u32_loop.simps [simp del]

definition read_var_u32 :: "u32 read" where
  "read_var_u32 = rd_bind read_u8 (\<lambda>byte.
     if byte AND 0x80 = 0 then rd_return (ucast byte) else var_u32_loop (ucast (byte AND 0x7F)) 7)"

function var_u64_loop :: "u64 \<Rightarrow> nat \<Rightarrow> u64 read" where
  "var_u64_loop result shift r =
     (case read_u8 r of
        Ok (Inr (byte, r)) \<Rightarrow>
          let result = result OR push_bit shift (ucast (byte AND 0x7F))
          in if shift \<ge> 57 \<and> drop_bit (64 - shift) (ucast byte :: u64) \<noteq> 0
             then Ok (Inl (error_new
                    (if byte AND 0x80 \<noteq> 0 then ''invalid var_u64: integer representation too long''
                     else ''invalid var_u64: integer too large'') (original_position r - 1)))
             else if byte AND 0x80 = 0 then Ok (Inr (result, r))
             else var_u64_loop result (shift + 7) r
      | Ok (Inl e) \<Rightarrow> Ok (Inl e)
      | Panic \<Rightarrow> Panic
      | Diverges \<Rightarrow> Diverges)"
  by pat_completeness auto
termination
  by (relation "measure (\<lambda>(result, shift, r). length (rd_buffer r) - rd_position r)")
    (auto dest!: read_u8_step)

declare var_u64_loop.simps [simp del]

definition read_var_u64 :: "u64 read" where
  "read_var_u64 = rd_bind read_u8 (\<lambda>byte.
     if byte AND 0x80 = 0 then rd_return (ucast byte) else var_u64_loop (ucast (byte AND 0x7F)) 7)"

text \<open>
  The signed 33-bit variant, an \<open>i64\<close>: the sign bit and the unused bits of the fifth byte are
  looked at with an arithmetic shift of the byte as \<open>i8\<close>; shorter numbers are sign-extended.
\<close>

definition sign_and_unused :: "u8 \<Rightarrow> nat \<Rightarrow> u8" where
  "sign_and_unused byte n = signed_drop_bit n (push_bit 1 byte)"

function var_s33_loop :: "u64 \<Rightarrow> nat \<Rightarrow> u64 read" where
  "var_s33_loop result shift r =
     (case read_u8 r of
        Ok (Inr (byte, r)) \<Rightarrow>
          let result = result OR push_bit shift (ucast (byte AND 0x7F));
              cont = byte AND 0x80 \<noteq> 0
          in if shift \<ge> 25 then
               (let s = sign_and_unused byte (33 - shift)
                in if cont \<or> (s \<noteq> 0 \<and> s \<noteq> 0xFF)
                   then Ok (Inl (error_new ''invalid var_s33: integer representation too long''
                               (original_position r - 1)))
                   else Ok (Inr (result, r)))
             else if \<not> cont
             then Ok (Inr (signed_drop_bit (64 - (shift + 7)) (push_bit (64 - (shift + 7)) result), r))
             else var_s33_loop result (shift + 7) r
      | Ok (Inl e) \<Rightarrow> Ok (Inl e)
      | Panic \<Rightarrow> Panic
      | Diverges \<Rightarrow> Diverges)"
  by pat_completeness auto
termination
  by (relation "measure (\<lambda>(result, shift, r). length (rd_buffer r) - rd_position r)")
    (auto dest!: read_u8_step)

declare var_s33_loop.simps [simp del]

definition read_var_s33 :: "u64 read" where
  "read_var_s33 = rd_bind read_u8 (\<lambda>byte.
     if byte AND 0x80 = 0 then rd_return (signed_drop_bit 1 (scast (push_bit 1 byte)))
     else var_s33_loop (ucast (byte AND 0x7F)) 7)"

section \<open>Strings and sub-readers\<close>

definition MAX_WASM_STRING_SIZE :: nat where
  "MAX_WASM_STRING_SIZE = 100000"

definition internal_read_string :: "target \<Rightarrow> nat \<Rightarrow> string read" where
  "internal_read_string t len = rd_bind (read_bytes t len) (\<lambda>bs r.
     case from_utf8 bs of
       Some s \<Rightarrow> Ok (Inr (s, r))
     | None \<Rightarrow> Ok (Inl (error_new ''malformed UTF-8 encoding'' (original_position r - 1))))"

definition read_string :: "target \<Rightarrow> string read" where
  "read_string t = rd_bind read_var_u32 (\<lambda>len r.
     if unat len > MAX_WASM_STRING_SIZE
     then Ok (Inl (error_new ''string size out of bounds'' (original_position r - 1)))
     else internal_read_string t (unat len) r)"

text \<open>\<open>skip\<close>: run a read and return a reader over the bytes it passed.\<close>

definition rd_skip :: "'a read \<Rightarrow> reader read" where
  "rd_skip f r =
     and_then (f r) (\<lambda>x. case x of
       Inl e \<Rightarrow> Ok (Inl e)
     | Inr (_, r') \<Rightarrow>
         and_then (slice_range (rd_buffer r) (rd_position r) (rd_position r')) (\<lambda>bs.
           Ok (Inr (r'\<lparr>rd_buffer := bs, rd_position := 0,
                       rd_original_offset := rd_original_offset r + rd_position r\<rparr>, r'))))"

definition read_reader :: "target \<Rightarrow> reader read" where
  "read_reader t = rd_bind read_var_u32 (\<lambda>n. rd_skip (read_bytes t (unat n)))"

section \<open>Reads only move forward\<close>

text \<open>
  What every read keeps of its reader: only the position changes, it never moves back, and it
  moves past the end only by not moving at all. A read always returns or panics.
\<close>

named_theorems moves_intros \<open>reads that only move forward\<close>

definition moved :: "reader \<Rightarrow> reader \<Rightarrow> bool" where
  "moved r r' \<longleftrightarrow> (\<exists>q. r' = r\<lparr>rd_position := q\<rparr> \<and> rd_position r \<le> q
     \<and> q \<le> max (rd_position r) (length (rd_buffer r)))"

fun moves :: "reader \<Rightarrow> (reader_error + 'a \<times> reader) outcome \<Rightarrow> bool" where
  "moves r (Ok (Inr (a, r'))) = moved r r'"
| "moves r (Ok (Inl e)) = True"
| "moves r Panic = True"
| "moves r Diverges = False"

lemma moved_refl [simp]: "moved r r"
  by (auto simp: moved_def intro!: exI [of _ "rd_position r"])

lemma moved_trans: "moved r s \<Longrightarrow> moved s u \<Longrightarrow> moved r u"
  by (auto simp: moved_def)

lemma moved_fields:
  assumes "moved r r'"
  shows "rd_buffer r' = rd_buffer r" "rd_original_offset r' = rd_original_offset r"
    "rd_shared_everything_threads r' = rd_shared_everything_threads r"
    "rd_position r \<le> rd_position r'"
    "rd_position r \<le> length (rd_buffer r) \<Longrightarrow> rd_position r' \<le> length (rd_buffer r)"
  using assms by (auto simp: moved_def)

lemma moves_return [moves_intros]: "moves r (rd_return a r)"
  by (simp add: rd_return_def)

lemma moves_fail [moves_intros]: "moves r (rd_fail e r)"
  by (simp add: rd_fail_def)

lemma moves_bind [moves_intros]:
  assumes "moves r (p r)" and "\<And>a r'. moved r r' \<Longrightarrow> p r = Ok (Inr (a, r')) \<Longrightarrow> moves r' (f a r')"
  shows "moves r (rd_bind p f r)"
proof (cases "(r, p r)" rule: moves.cases)
  case (1 r0 a r')
  then have pr: "p r = Ok (Inr (a, r'))" by auto
  then have m: "moved r r'" using assms(1) by simp
  have "moves r' (f a r')" by (rule assms(2) [OF m pr])
  moreover have "moves r x" if "moves r' x" for x :: "(reader_error + 'b \<times> reader) outcome"
    using that moved_trans [OF m] by (cases "(r, x)" rule: moves.cases) auto
  ultimately show ?thesis by (simp add: rd_bind_def pr)
qed (use assms(1) in \<open>auto simp: rd_bind_def\<close>)

lemma moves_map_err [moves_intros]: "moves r (p r) \<Longrightarrow> moves r (rd_map_err f p r)"
  by (cases "(r, p r)" rule: moves.cases) (auto simp: rd_map_err_def)

lemma moves_if [moves_intros]:
  "(c \<Longrightarrow> moves r x) \<Longrightarrow> (\<not> c \<Longrightarrow> moves r y) \<Longrightarrow> moves r (if c then x else y)"
  by simp

lemma moves_if_read [moves_intros]:
  "(c \<Longrightarrow> moves r (p r)) \<Longrightarrow> (\<not> c \<Longrightarrow> moves r (q r)) \<Longrightarrow> moves r ((if c then p else q) r)"
  by simp

lemma moves_ok_eof [moves_intros]: "moves r (Ok (Inl e))"
  by simp

lemma moves_stay [moves_intros]: "moves r (Ok (Inr (a, r)))"
  by simp

lemma moves_read_u8 [moves_intros]: "moves r (read_u8 r)"
  by (auto simp: read_u8_def moved_def)

lemma moves_ensure_has_byte [moves_intros]: "moves r (ensure_has_byte r)"
  by (simp add: ensure_has_byte_def)

lemma moves_and_then [moves_intros]:
  "m \<noteq> Diverges \<Longrightarrow> (\<And>x. m = Ok x \<Longrightarrow> moves r (f x)) \<Longrightarrow> moves r (and_then m f)"
  by (cases m) auto

lemma usize_add_not_Diverges [simp]: "usize_add t a b \<noteq> Diverges"
  by (simp add: usize_add_def)

lemma slice_range_not_Diverges [simp]: "slice_range xs a b \<noteq> Diverges"
  by (simp add: slice_range_def)

lemma index_not_Diverges [simp]: "index xs i \<noteq> Diverges"
  by (simp add: index_def)

lemma moves_peek [moves_intros]: "moves r (peek r)"
  unfolding peek_def by (intro moves_intros) simp_all

lemma moves_ensure_has_bytes [moves_intros]: "moves r (ensure_has_bytes t n r)"
  unfolding ensure_has_bytes_def by (intro moves_intros) simp_all

lemma moves_forward: "rd_position r \<le> q \<Longrightarrow> q \<le> length (rd_buffer r) \<Longrightarrow> moved r (r\<lparr>rd_position := q\<rparr>)"
  by (auto simp: moved_def intro!: exI [of _ q])

lemma moves_read_bytes [moves_intros]: "moves r (read_bytes t n r)"
  unfolding read_bytes_def
  by (intro moves_intros) (auto simp: slice_range_def intro!: moves_forward split: if_splits)

lemma moves_read_u32 [moves_intros]: "moves r (read_u32 t r)"
  unfolding read_u32_def
  by (intro moves_intros) (auto simp: slice_range_def intro!: moves_forward split: if_splits)

lemma read_u8_moved: "read_u8 r = Ok (Inr (b, r')) \<Longrightarrow> moved r r'"
  using moves_read_u8 [of r] by simp

lemma moves_loop_step:
  assumes "\<And>byte r'. read_u8 r = Ok (Inr (byte, r')) \<Longrightarrow> moves r' (f byte r')"
  shows "moves r (case read_u8 r of Ok (Inr (byte, r)) \<Rightarrow> f byte r | Ok (Inl e) \<Rightarrow> Ok (Inl e)
     | Panic \<Rightarrow> Panic | Diverges \<Rightarrow> Diverges)"
proof -
  have "moves r (rd_bind read_u8 f r)" by (rule moves_bind [OF moves_read_u8]) (rule assms)
  then show ?thesis by (auto simp: rd_bind_def read_u8_def)
qed

lemma moves_var_u32_loop: "moves r (var_u32_loop result shift r)"
proof (induction result shift r rule: var_u32_loop.induct)
  case (1 result shift r)
  show ?case
    by (subst var_u32_loop.simps, rule moves_loop_step)
      (auto simp: Let_def intro: 1 [OF _ _ _ refl])
qed

lemma moves_var_u64_loop: "moves r (var_u64_loop result shift r)"
proof (induction result shift r rule: var_u64_loop.induct)
  case (1 result shift r)
  show ?case
    by (subst var_u64_loop.simps, rule moves_loop_step)
      (auto simp: Let_def intro: 1 [OF _ _ _ refl])
qed

lemma moves_var_s33_loop: "moves r (var_s33_loop result shift r)"
proof (induction result shift r rule: var_s33_loop.induct)
  case (1 result shift r)
  show ?case
    by (subst var_s33_loop.simps, rule moves_loop_step)
      (auto simp: Let_def intro: 1 [OF _ _ _ refl refl])
qed

lemma moves_read_var [moves_intros]:
  "moves r (read_var_u32 r)" "moves r (read_var_u64 r)" "moves r (read_var_s33 r)"
  unfolding read_var_u32_def read_var_u64_def read_var_s33_def
  by (intro moves_intros moves_var_u32_loop moves_var_u64_loop moves_var_s33_loop)+

lemma moves_internal_read_string [moves_intros]: "moves r (internal_read_string t n r)"
  unfolding internal_read_string_def by (intro moves_intros) (simp split: option.split)

lemma moves_read_string [moves_intros]: "moves r (read_string t r)"
  unfolding read_string_def by (intro moves_intros)

lemma moves_rd_skip [moves_intros]:
  assumes "moves r (f r)"
  shows "moves r (rd_skip f r)"
  using assms by (cases "(r, f r)" rule: moves.cases) (auto simp: rd_skip_def slice_range_def)

lemma moves_read_reader [moves_intros]: "moves r (read_reader t r)"
  unfolding read_reader_def by (intro moves_intros)

end
