(* ===== verification/Wasm_Sections.thy ===== *)
theory Wasm_Sections
  imports Wasm_Reader
begin

unbundle bit_operations_syntax

text \<open>
  The readers of the wasm engine's parser for what an import section holds: value, reference and
  heap types (\<open>patches/wasmparser/src/readers/core/types.rs\<close>), table, memory, global and tag types
  (\<open>tables.rs\<close>, \<open>memories.rs\<close>, \<open>globals.rs\<close>, \<open>tags.rs\<close>), external kinds (\<open>exports.rs\<close>), imports
  (\<open>imports.rs\<close>), and the counted sections of \<open>readers.rs\<close>. A reference type, packed into three
  bytes in the code, is the pair it stands for.
\<close>

section \<open>Value types\<close>

datatype abstract_heap_type =
    HtFunc | HtExtern | HtAny | HtNone | HtNoExtern | HtNoFunc | HtEq | HtStruct | HtArray | HtI31
  | HtExn | HtNoExn | HtCont | HtNoCont

datatype heap_type = HtAbstract bool abstract_heap_type | HtConcrete u32

datatype ref_type = RefType bool heap_type

datatype val_type = VtI32 | VtI64 | VtF32 | VtF64 | VtV128 | VtRef ref_type

definition read_abstract_heap_type :: "abstract_heap_type read" where
  "read_abstract_heap_type = rd_bind read_u8 (\<lambda>b.
     if b = 0x70 then rd_return HtFunc
     else if b = 0x6F then rd_return HtExtern
     else if b = 0x6E then rd_return HtAny
     else if b = 0x71 then rd_return HtNone
     else if b = 0x72 then rd_return HtNoExtern
     else if b = 0x73 then rd_return HtNoFunc
     else if b = 0x6D then rd_return HtEq
     else if b = 0x6B then rd_return HtStruct
     else if b = 0x6A then rd_return HtArray
     else if b = 0x6C then rd_return HtI31
     else if b = 0x69 then rd_return HtExn
     else if b = 0x74 then rd_return HtNoExn
     else if b = 0x68 then rd_return HtCont
     else if b = 0x75 then rd_return HtNoCont
     else (\<lambda>r. Ok (Inl (error_invalid ''invalid abstract heap type'' (original_position r - 1)))))"

text \<open>Renaming an error of the kind \<open>Invalid\<close>, as the type readers do.\<close>

definition reclassify :: "string \<Rightarrow> reader_error \<Rightarrow> reader_error" where
  "reclassify message e = (if re_kind e = Invalid then set_message message e else e)"

definition can_represent_index :: "u32 \<Rightarrow> bool" where
  "can_represent_index i = (i AND 0xFFFFF = i)"

definition read_heap_type :: "heap_type read" where
  "read_heap_type r =
     and_then (read_var_s33 r) (\<lambda>x. case x of
       Inl e \<Rightarrow> Ok (Inl e)
     | Inr (s33, clone) \<Rightarrow>
         if 0 \<le> sint s33 \<and> sint s33 < 2 ^ 32 then
           (let idx = ucast s33 :: u32
            in if can_represent_index idx then Ok (Inr (HtConcrete idx, clone))
               else Ok (Inl (error_new ''type index greater than implementation limits''
                          (original_position clone))))
         else
           rd_bind peek (\<lambda>b.
             if b = 0x65
             then rd_bind read_u8 (\<lambda>_. rd_bind read_abstract_heap_type (\<lambda>ty.
                    rd_return (HtAbstract True ty)))
             else rd_bind (rd_map_err (reclassify ''invalid heap type'') read_abstract_heap_type)
                    (\<lambda>ty. rd_return (HtAbstract False ty))) r)"

definition read_ref_type :: "ref_type read" where
  "read_ref_type = rd_bind peek (\<lambda>b.
     if b = 0x63 \<or> b = 0x64
     then rd_bind read_u8 (\<lambda>b. rd_bind read_heap_type (\<lambda>h. rd_return (RefType (b = 0x63) h)))
     else rd_bind (rd_map_err (reclassify ''malformed reference type'') read_heap_type)
            (\<lambda>h. rd_return (RefType True h)))"

definition read_val_type :: "val_type read" where
  "read_val_type = rd_bind peek (\<lambda>b.
     if b = 0x7F then rd_bind read_u8 (\<lambda>_. rd_return VtI32)
     else if b = 0x7E then rd_bind read_u8 (\<lambda>_. rd_return VtI64)
     else if b = 0x7D then rd_bind read_u8 (\<lambda>_. rd_return VtF32)
     else if b = 0x7C then rd_bind read_u8 (\<lambda>_. rd_return VtF64)
     else if b = 0x7B then rd_bind read_u8 (\<lambda>_. rd_return VtV128)
     else rd_bind (rd_map_err (reclassify ''invalid value type'') read_ref_type)
            (\<lambda>ty. rd_return (VtRef ty)))"

section \<open>Types of imports\<close>

record wp_table_type =
  wt_element_type :: ref_type
  wt_table64 :: bool
  wt_initial :: u64
  wt_maximum :: "u64 option"
  wt_shared :: bool

record wp_memory_type =
  wm_memory64 :: bool
  wm_shared :: bool
  wm_initial :: u64
  wm_maximum :: "u64 option"
  wm_page_size_log2 :: "u32 option"

record wp_global_type =
  wg_content_type :: val_type
  wg_mutable :: bool
  wg_shared :: bool

datatype wp_tag_type = TagType (func_type_idx: u32)

text \<open>A size of a table or memory: 64 bits wide or 32.\<close>

definition read_limit :: "bool \<Rightarrow> u64 read" where
  "read_limit wide =
     (if wide then read_var_u64 else rd_bind read_var_u32 (\<lambda>n. rd_return (ucast n)))"

definition read_optional :: "bool \<Rightarrow> 'a read \<Rightarrow> 'a option read" where
  "read_optional present p =
     (if \<not> present then rd_return None else rd_bind p (\<lambda>x. rd_return (Some x)))"

definition read_table_type :: "wp_table_type read" where
  "read_table_type = rd_bind read_ref_type (\<lambda>element_type r.
     let pos = original_position r
     in rd_bind read_u8 (\<lambda>flags.
          if flags AND NOT 7 \<noteq> 0
          then rd_fail (error_new ''invalid table resizable limits flags'' pos)
          else
            let has_max = flags AND 1 \<noteq> 0; shared = flags AND 2 \<noteq> 0; table64 = flags AND 4 \<noteq> 0
            in rd_bind (read_limit table64) (\<lambda>initial.
               rd_bind (read_optional has_max (read_limit table64)) (\<lambda>maximum.
                 rd_return \<lparr>wt_element_type = element_type, wt_table64 = table64,
                   wt_initial = initial, wt_maximum = maximum, wt_shared = shared\<rparr>))) r)"

definition read_memory_type :: "wp_memory_type read" where
  "read_memory_type r =
     (let pos = original_position r
      in rd_bind read_u8 (\<lambda>flags.
          if flags AND NOT 15 \<noteq> 0
          then rd_fail (error_new ''invalid memory limits flags'' pos)
          else
            let memory64 = flags AND 4 \<noteq> 0; shared = flags AND 2 \<noteq> 0;
                has_max = flags AND 1 \<noteq> 0; has_page_size = flags AND 8 \<noteq> 0
            in rd_bind (read_limit memory64) (\<lambda>initial.
               rd_bind (read_optional has_max (read_limit memory64)) (\<lambda>maximum.
               rd_bind (read_optional has_page_size read_var_u32) (\<lambda>page_size_log2.
                 rd_return \<lparr>wm_memory64 = memory64, wm_shared = shared, wm_initial = initial,
                   wm_maximum = maximum, wm_page_size_log2 = page_size_log2\<rparr>)))) r)"

definition read_global_type :: "wp_global_type read" where
  "read_global_type = rd_bind read_val_type (\<lambda>content_type.
     rd_bind read_u8 (\<lambda>flags r.
       if rd_shared_everything_threads r \<and> flags > 3
       then Ok (Inl (error_new ''malformed global flags'' (original_position r - 1)))
       else if \<not> rd_shared_everything_threads r \<and> flags > 1
       then Ok (Inl (error_new
              (''malformed mutability -- or shared globals '' @
               ''require the shared-everything-threads proposal'') (original_position r - 1)))
       else Ok (Inr (\<lparr>wg_content_type = content_type, wg_mutable = flags AND 1 > 0,
                      wg_shared = flags AND 2 > 0\<rparr>, r))))"

definition read_tag_type :: "wp_tag_type read" where
  "read_tag_type = rd_bind read_u8 (\<lambda>attribute r.
     if attribute \<noteq> 0
     then Ok (Inl (error_new ''invalid tag attributes'' (original_position r - 1)))
     else rd_bind read_var_u32 (\<lambda>idx. rd_return (TagType idx)) r)"

section \<open>Imports\<close>

datatype external_kind = KFunc | KTable | KMemory | KGlobal | KTag

text \<open>\<open>{:x}\<close>.\<close>

fun hex_nat :: "nat \<Rightarrow> string" where
  "hex_nat n = (if n < 16 then [hex_char n] else hex_nat (n div 16) @ [hex_char (n mod 16)])"

declare hex_nat.simps [simp del]

definition hex_digits :: "u8 \<Rightarrow> string" where
  "hex_digits b = hex_nat (unat b)"

definition external_kind_from_byte :: "u8 \<Rightarrow> nat \<Rightarrow> reader_error + external_kind" where
  "external_kind_from_byte byte offset =
     (if byte = 0 then Inr KFunc
      else if byte = 1 then Inr KTable
      else if byte = 2 then Inr KMemory
      else if byte = 3 then Inr KGlobal
      else if byte = 4 then Inr KTag
      else Inl (error_new (''invalid leading byte (0x'' @ hex_digits byte @
                  '') for external kind'') offset))"

definition read_external_kind :: "external_kind read" where
  "read_external_kind r =
     (let offset = original_position r
      in rd_bind read_u8 (\<lambda>byte r.
           Ok (case external_kind_from_byte byte offset of Inl e \<Rightarrow> Inl e | Inr k \<Rightarrow> Inr (k, r))) r)"

datatype type_ref =
    TrFunc u32 | TrTable wp_table_type | TrMemory wp_memory_type | TrGlobal wp_global_type
  | TrTag wp_tag_type

definition read_type_ref :: "type_ref read" where
  "read_type_ref = rd_bind read_external_kind (\<lambda>k. case k of
     KFunc \<Rightarrow> rd_bind read_var_u32 (\<lambda>idx. rd_return (TrFunc idx))
   | KTable \<Rightarrow> rd_bind read_table_type (\<lambda>ty. rd_return (TrTable ty))
   | KMemory \<Rightarrow> rd_bind read_memory_type (\<lambda>ty. rd_return (TrMemory ty))
   | KGlobal \<Rightarrow> rd_bind read_global_type (\<lambda>ty. rd_return (TrGlobal ty))
   | KTag \<Rightarrow> rd_bind read_tag_type (\<lambda>ty. rd_return (TrTag ty)))"

record wp_import =
  wi_module :: string
  wi_name :: string
  wi_ty :: type_ref

definition read_import :: "target \<Rightarrow> wp_import read" where
  "read_import t = rd_bind (read_string t) (\<lambda>module. rd_bind (read_string t) (\<lambda>name.
     rd_bind read_type_ref (\<lambda>ty.
       rd_return \<lparr>wi_module = module, wi_name = name, wi_ty = ty\<rparr>)))"

section \<open>Counted sections\<close>

record section_limited =
  sec_reader :: reader
  sec_count :: u32

definition section_limited_new :: "reader \<Rightarrow> (reader_error + section_limited) outcome" where
  "section_limited_new r =
     and_then (read_var_u32 r) (\<lambda>x. Ok (case x of
       Inl e \<Rightarrow> Inl e
     | Inr (count, r) \<Rightarrow> Inr \<lparr>sec_reader = r, sec_count = count\<rparr>))"

text \<open>Running the iterator of a section to its end, or to the first error.\<close>

fun section_items :: "'a read \<Rightarrow> nat \<Rightarrow> reader \<Rightarrow> (reader_error + 'a list) outcome" where
  "section_items p 0 r =
     Ok (if rd_eof r then Inr []
         else Inl (error_new ''section size mismatch: unexpected data at the end of the section''
                (original_position r)))"
| "section_items p (Suc n) r =
     and_then (p r) (\<lambda>x. case x of
       Inl e \<Rightarrow> Ok (Inl e)
     | Inr (a, r) \<Rightarrow> and_then (section_items p n r) (\<lambda>y. Ok (map_sum id ((#) a) y)))"

definition section_collect :: "'a read \<Rightarrow> section_limited \<Rightarrow> (reader_error + 'a list) outcome" where
  "section_collect p s = section_items p (unat (sec_count s)) (sec_reader s)"

section \<open>These reads only move forward\<close>

lemma moves_read_abstract_heap_type [moves_intros]: "moves r (read_abstract_heap_type r)"
  unfolding read_abstract_heap_type_def by (intro moves_intros)

lemma moves_read_heap_type [moves_intros]: "moves r (read_heap_type r)"
proof -
  have "moves r (rd_bind peek (\<lambda>b.
             if b = 0x65
             then rd_bind read_u8 (\<lambda>_. rd_bind read_abstract_heap_type (\<lambda>ty.
                    rd_return (HtAbstract True ty)))
             else rd_bind (rd_map_err (reclassify ''invalid heap type'') read_abstract_heap_type)
                    (\<lambda>ty. rd_return (HtAbstract False ty))) r)"
    by (intro moves_intros)
  moreover have "moves r (read_var_s33 r)" by (intro moves_intros)
  ultimately show ?thesis
    unfolding read_heap_type_def by (cases "(r, read_var_s33 r)" rule: moves.cases) (auto simp: Let_def)
qed

lemma moves_read_ref_type [moves_intros]: "moves r (read_ref_type r)"
  unfolding read_ref_type_def by (intro moves_intros)

lemma moves_read_val_type [moves_intros]: "moves r (read_val_type r)"
  unfolding read_val_type_def by (intro moves_intros)

lemma moves_read_limit [moves_intros]: "moves r (read_limit wide r)"
  unfolding read_limit_def by (intro moves_intros)

lemma moves_read_optional [moves_intros]: "moves r (p r) \<Longrightarrow> moves r (read_optional b p r)"
  unfolding read_optional_def by (intro moves_intros)

lemma moves_read_table_type [moves_intros]: "moves r (read_table_type r)"
  unfolding read_table_type_def Let_def by (intro moves_intros)

lemma moves_read_memory_type [moves_intros]: "moves r (read_memory_type r)"
  unfolding read_memory_type_def Let_def by (intro moves_intros)

lemma moves_read_global_type [moves_intros]: "moves r (read_global_type r)"
  unfolding read_global_type_def by (intro moves_intros)

lemma moves_read_tag_type [moves_intros]: "moves r (read_tag_type r)"
  unfolding read_tag_type_def by (intro moves_intros)

lemma moves_read_external_kind [moves_intros]: "moves r (read_external_kind r)"
  unfolding read_external_kind_def Let_def by (intro moves_intros) (simp split: sum.split)

lemma moves_read_type_ref [moves_intros]: "moves r (read_type_ref r)"
  unfolding read_type_ref_def
  by (rule moves_bind, intro moves_intros, split external_kind.split) (intro conjI impI moves_intros)

lemma moves_read_import [moves_intros]: "moves r (read_import t r)"
  unfolding read_import_def by (intro moves_intros)

end
