(* ===== verification/Wasm_Parser.thy ===== *)
theory Wasm_Parser
  imports Wasm_Sections
begin

unbundle bit_operations_syntax

text \<open>
  The incremental parser of the wasm engine (\<open>patches/wasmparser/src/parser.rs\<close>): one payload per
  call, a module header, a section, or an entry of the code section. The build leaves out the
  component model, so that a component's sections are unknown ones. Then the loop of the
  engine's own module parser that hands the payloads on up to the import section
  (\<open>patches/wasmi/src/module/parser/buffered.rs\<close>, \<open>mod.rs\<close>); what the engine's validator and module
  builder say to a payload is an argument.
\<close>

section \<open>State and payloads\<close>

datatype encoding = EncModule | EncComponent

datatype parse_state = Header | SectionStart | FunctionBody u32 u32

text \<open>\<open>max_size\<close> starts at \<open>u64::MAX\<close>, and no buffer is longer, so that a natural number serves.\<close>

record parser =
  ps_state :: parse_state
  ps_offset :: nat
  ps_max_size :: nat
  ps_encoding :: encoding
  ps_shared_everything_threads :: bool

definition parser_new :: "nat \<Rightarrow> parser" where
  "parser_new offset =
     \<lparr>ps_state = Header, ps_offset = offset, ps_max_size = 2 ^ 64 - 1, ps_encoding = EncModule,
      ps_shared_everything_threads = True\<rparr>"

definition set_features :: "bool \<Rightarrow> parser \<Rightarrow> parser" where
  "set_features shared_everything_threads p =
     p\<lparr>ps_shared_everything_threads := shared_everything_threads\<rparr>"

text \<open>
  The payloads; the ranges in some of them serve the messages of errors and are left out. The
  counted sections differ in the type of their items only, which their identifier gives.
\<close>

datatype parsed =
    PVersion u16 encoding
  | PSection u8 section_limited
  | PCustomSection string reader
  | PStartSection u32
  | PDataCountSection u32
  | PCodeSectionStart u32 u32
  | PCodeSectionEntry reader
  | PUnknownSection u8 bytes
  | PEnd nat

section \<open>Reading a section\<close>

definition clear_hint :: "reader_error \<Rightarrow> reader_error" where
  "clear_hint e = e\<lparr>re_needed_hint := None\<rparr>"

text \<open>\<open>{:#x?}\<close> of four bytes.\<close>

definition hex_list :: "bytes \<Rightarrow> string" where
  "hex_list bs = [CHR ''['', CHR 0x0A] @ concat (map (\<lambda>b. ''    0x'' @ hex_digits b @ [CHR '','', CHR 0x0A]) bs)
     @ '']''"

definition read_magic :: "target \<Rightarrow> u32 read" where
  "read_magic t = rd_bind (read_bytes t 4) (\<lambda>magic_number r.
     if magic_number \<noteq> [0x00, 0x61, 0x73, 0x6D]
     then Ok (Inl (error_new (''magic header not detected: bad magic number - expected='' @
                     hex_list [0x00, 0x61, 0x73, 0x6D] @ '' actual='' @ hex_list magic_number)
                   (original_position r - 4)))
     else read_u32 t r)"

text \<open>A section: its bytes become a reader of their own, which a constructor looks at.\<close>

definition section_of ::
  "target \<Rightarrow> u32 \<Rightarrow> (reader \<Rightarrow> (reader_error + 'a) outcome) \<Rightarrow> ('a \<Rightarrow> parsed) \<Rightarrow> parsed read" where
  "section_of t len ctor variant =
     rd_bind (rd_skip (read_bytes t (unat len))) (\<lambda>content r.
       and_then (ctor content) (\<lambda>x. Ok (case x of
         Inl e \<Rightarrow> Inl (clear_hint e) | Inr a \<Rightarrow> Inr (variant a, r))))"

definition custom_section_new :: "target \<Rightarrow> reader \<Rightarrow> (reader_error + string \<times> reader) outcome" where
  "custom_section_new t r = read_string t r"

definition single_item :: "target \<Rightarrow> u32 \<Rightarrow> string \<Rightarrow> u32 read" where
  "single_item t len desc r =
     and_then (usize_add t (original_position r) (unat len)) (\<lambda>_.
       rd_bind (rd_skip (read_bytes t (unat len))) (\<lambda>content r.
         and_then (read_var_u32 content) (\<lambda>x. Ok (case x of
           Inl e \<Rightarrow> Inl (clear_hint e)
         | Inr (ret, content) \<Rightarrow>
             if \<not> rd_eof content
             then Inl (error_new (''unexpected content in the '' @ desc @ '' section'')
                    (original_position content))
             else Inr (ret, r)))) r)"

text \<open>\<open>delimited\<close>: the bytes a read takes off a length.\<close>

definition delimited :: "u32 \<Rightarrow> 'a read \<Rightarrow> ('a \<times> u32) read" where
  "delimited len f r =
     (let start = original_position r
      in rd_bind f (\<lambda>ret r.
           let n = original_position r - start
           in if n < 2 ^ 32 \<and> n \<le> unat len then Ok (Inr ((ret, len - word_of_nat n), r))
              else Ok (Inl (error_new ''unexpected end-of-file'' start))) r)"

section \<open>One payload\<close>

text \<open>\<open>{:#10x}\<close>: at least ten columns.\<close>

definition pad_left :: "nat \<Rightarrow> string \<Rightarrow> string" where
  "pad_left w s = replicate (w - length s) CHR '' '' @ s"

definition parse_header :: "target \<Rightarrow> parser \<Rightarrow> (parsed \<times> parser) read" where
  "parse_header t p r =
     (let start = original_position r
      in rd_bind (read_magic t) (\<lambda>header_version.
           let kind = ucast (drop_bit 16 header_version) :: u16; num = ucast header_version :: u16
           in if kind = 0
              then rd_return (PVersion num EncModule, p\<lparr>ps_encoding := EncModule, ps_state := SectionStart\<rparr>)
              else if kind = 1
              then rd_return (PVersion num EncComponent,
                     p\<lparr>ps_encoding := EncComponent, ps_state := SectionStart\<rparr>)
              else rd_fail (error_new (''unknown binary version: '' @ pad_left 10 (''0x'' @ hex_nat (unat header_version)))
                     (start + 4))) r)"

text \<open>The content of a section, by the encoding and the identifier.\<close>

definition parse_content :: "target \<Rightarrow> parser \<Rightarrow> u8 \<Rightarrow> u32 \<Rightarrow> (parsed \<times> parser) read" where
  "parse_content t p i len =
     (let plain = (\<lambda>q. rd_bind q (\<lambda>x. rd_return (x, p)))
      in if i = 0
         then plain (section_of t len (custom_section_new t) (\<lambda>(name, r). PCustomSection name r))
         else if ps_encoding p = EncModule \<and> i \<in> {1, 2, 3, 4, 5, 6, 7, 9, 11, 13}
         then plain (section_of t len section_limited_new (PSection i))
         else if ps_encoding p = EncModule \<and> i = 8
         then rd_bind (single_item t len ''start'') (\<lambda>f. rd_return (PStartSection f, p))
         else if ps_encoding p = EncModule \<and> i = 10
         then rd_bind (delimited len read_var_u32) (\<lambda>(count, len) r.
                and_then (usize_add t (original_position r) (unat len)) (\<lambda>_.
                  rd_return (PCodeSectionStart count len,
                    p\<lparr>ps_state := FunctionBody count len\<rparr>) r))
         else if ps_encoding p = EncModule \<and> i = 12
         then rd_bind (single_item t len ''data count'') (\<lambda>n. rd_return (PDataCountSection n, p))
         else (\<lambda>r. let offset = original_position r
              in rd_bind (read_bytes t (unat len)) (\<lambda>contents r.
                   and_then (usize_add t offset (unat len)) (\<lambda>_.
                     rd_return (PUnknownSection i contents, p) r)) r))"

definition parse_section :: "target \<Rightarrow> bool \<Rightarrow> parser \<Rightarrow> (parsed \<times> parser) read" where
  "parse_section t eof p r =
     (if eof \<and> bytes_remaining r = 0 then Ok (Inr ((PEnd (original_position r), p), r))
      else
        let id_pos = original_position r
        in rd_bind read_u8 (\<lambda>i r.
             if i AND 0x80 \<noteq> 0 then Ok (Inl (error_new ''malformed section id'' id_pos))
             else
               let len_pos = original_position r
               in rd_bind read_var_u32 (\<lambda>len r.
                    let consumed = original_position r - id_pos
                    in if ps_max_size p < consumed + unat len
                       then Ok (Inl (error_new ''section too large'' len_pos))
                       else parse_content t p i len r) r) r)"

definition parse_reader :: "target \<Rightarrow> bool \<Rightarrow> parser \<Rightarrow> (parsed \<times> parser) read" where
  "parse_reader t eof p =
     (case ps_state p of
        Header \<Rightarrow> parse_header t p
      | SectionStart \<Rightarrow> parse_section t eof p
      | FunctionBody left len \<Rightarrow>
          if left = 0 \<and> len = 0
          then parse_section t eof (p\<lparr>ps_state := SectionStart\<rparr>)
          else if left = 0
          then (\<lambda>r. Ok (Inl (error_new ''trailing bytes at end of section'' (original_position r))))
          else rd_bind (delimited len (read_reader t)) (\<lambda>(body, len).
                 rd_return (PCodeSectionEntry body, p\<lparr>ps_state := FunctionBody (left - 1) len\<rparr>)))"

datatype chunk = NeedMoreData nat | Parsed nat parsed

definition parse :: "target \<Rightarrow> bytes \<Rightarrow> bool \<Rightarrow> parser \<Rightarrow> (reader_error + chunk \<times> parser) outcome" where
  "parse t data eof p =
     (let (data, eof) = (if length data > ps_max_size p then (take (ps_max_size p) data, True)
                         else (data, eof));
          starting_offset = ps_offset p mod 2 ^ usize_bits t;
          reader = \<lparr>rd_buffer = data, rd_position = 0, rd_original_offset = starting_offset,
                    rd_shared_everything_threads = ps_shared_everything_threads p\<rparr>
      in and_then (parse_reader t eof p reader) (\<lambda>x. Ok (case x of
           Inr ((payload, p), r) \<Rightarrow>
             (let consumed = original_position r - starting_offset
              in Inr (Parsed consumed payload,
                   p\<lparr>ps_offset := ps_offset p + consumed, ps_max_size := ps_max_size p - consumed\<rparr>))
         | Inl e \<Rightarrow>
             (if eof then Inl e
              else case re_needed_hint e of
                     Some hint \<Rightarrow> Inr (NeedMoreData hint, p) | None \<Rightarrow> Inl e))))"

section \<open>Each payload takes at least one byte\<close>

lemma moves_rd_skip_bytes [moves_intros]: "moves r (rd_skip (read_bytes t n) r)"
  by (intro moves_intros)

lemma section_limited_new_not_Diverges [simp]: "section_limited_new r \<noteq> Diverges"
proof -
  have "moves r (read_var_u32 r)" by (intro moves_intros)
  then show ?thesis
    by (cases "(r, read_var_u32 r)" rule: moves.cases) (auto simp: section_limited_new_def)
qed

lemma read_string_not_Diverges [simp]: "read_string t r \<noteq> Diverges"
  using moves_read_string [of r t] by auto

lemma read_var_u32_not_Diverges [simp]: "read_var_u32 r \<noteq> Diverges"
  using moves_read_var(1) [of r] by auto

lemma moves_section_of [moves_intros]:
  "(\<And>c. ctor c \<noteq> Diverges) \<Longrightarrow> moves r (section_of t len ctor variant r)"
  unfolding section_of_def by (intro moves_intros) (simp_all split: sum.split)

lemma moves_single_item [moves_intros]: "moves r (single_item t len desc r)"
  unfolding single_item_def by (intro moves_intros) (simp_all split: sum.split)

lemma moves_delimited [moves_intros]: "moves r (f r) \<Longrightarrow> moves r (delimited len f r)"
  unfolding delimited_def Let_def by (intro moves_intros)

lemma moves_read_magic [moves_intros]: "moves r (read_magic t r)"
  unfolding read_magic_def by (intro moves_intros)

lemma moves_parse_header [moves_intros]: "moves r (parse_header t p r)"
  unfolding parse_header_def Let_def by (intro moves_intros)

lemma moves_parse_content [moves_intros]: "moves r (parse_content t p i len r)"
  unfolding parse_content_def Let_def custom_section_new_def
  by (intro moves_intros) (simp_all split: prod.split add: moves_intros)

lemma moves_parse_section [moves_intros]: "moves r (parse_section t eof p r)"
  unfolding parse_section_def Let_def by (intro moves_intros)

lemma moves_parse_reader [moves_intros]: "moves r (parse_reader t eof p r)"
proof (cases "ps_state p")
  case (FunctionBody left len)
  then show ?thesis
    unfolding parse_reader_def FunctionBody parse_state.case
    by (intro moves_intros) (simp_all split: prod.split add: moves_intros)
qed (simp_all add: parse_reader_def moves_intros)

end
