(* ===== verification/Guest_Table.thy ===== *)
theory Guest_Table
  imports Memory_Ops
begin

text \<open>
  The tables of a guest in the patched \<open>wasmi_core\<close>: value types (\<open>value.rs\<close>), table types
  (\<open>table/ty.rs\<close>), element segments (\<open>table/element.rs\<close>), and creating, growing, reading, writing,
  initialising, copying and filling a table (\<open>table/mod.rs\<close>). Without the feature \<open>simd\<close>, which the
  receiver does not ask for, an untyped value is 64 bits.
\<close>

section \<open>Values and table types\<close>

datatype core_val_type = TyI32 | TyI64 | TyF32 | TyF64 | TyV128 | TyFuncRef | TyExternRef

definition is_num :: "core_val_type \<Rightarrow> bool" where
  "is_num ty \<longleftrightarrow> ty = TyI32 \<or> ty = TyI64 \<or> ty = TyF32 \<or> ty = TyF64"

definition is_ref :: "core_val_type \<Rightarrow> bool" where
  "is_ref ty \<longleftrightarrow> ty = TyExternRef \<or> ty = TyFuncRef"

type_synonym untyped_val = u64

record typed_val =
  tv_ty :: core_val_type
  tv_value :: untyped_val

record table_type =
  tt_element :: core_val_type
  tt_min :: u64
  tt_max :: "u64 option"
  tt_index_ty :: index_type

text \<open>The assertions of \<open>new_impl\<close> are panics.\<close>

definition table_type_new_impl ::
  "core_val_type \<Rightarrow> index_type \<Rightarrow> u64 \<Rightarrow> u64 option \<Rightarrow> table_type outcome" where
  "table_type_new_impl element index_ty mn mx =
     (if \<not> unat mn \<le> index_max_size index_ty then Panic
      else if (case mx of Some mx \<Rightarrow> \<not> (mn \<le> mx \<and> unat mx \<le> index_max_size index_ty) | None \<Rightarrow> False)
      then Panic
      else Ok \<lparr>tt_element = element, tt_min = mn, tt_max = mx, tt_index_ty = index_ty\<rparr>)"

definition table_type_new :: "core_val_type \<Rightarrow> u32 \<Rightarrow> u32 option \<Rightarrow> table_type outcome" where
  "table_type_new element mn mx = table_type_new_impl element I32 (ucast mn) (map_option ucast mx)"

definition table_type_new64 :: "core_val_type \<Rightarrow> u64 \<Rightarrow> u64 option \<Rightarrow> table_type outcome" where
  "table_type_new64 element mn mx = table_type_new_impl element I64 mn mx"

definition ensure_element_type_matches :: "table_type \<Rightarrow> core_val_type \<Rightarrow> table_error + unit" where
  "ensure_element_type_matches ty vt = (if tt_element ty \<noteq> vt then Inl ElementTypeMismatch else Inr ())"

definition table_is_subtype_of :: "table_type \<Rightarrow> table_type \<Rightarrow> bool" where
  "table_is_subtype_of ty other =
     (if is_64 (tt_index_ty ty) \<noteq> is_64 (tt_index_ty other) then False
      else if tt_element ty \<noteq> tt_element other then False
      else if tt_min ty < tt_min other then False
      else (case (tt_max ty, tt_max other) of
              (_, None) \<Rightarrow> True
            | (Some mx, Some other_max) \<Rightarrow> mx \<le> other_max
            | _ \<Rightarrow> False))"

section \<open>Element segments\<close>

record element_segment =
  es_ty :: core_val_type
  es_items :: "untyped_val list"

definition element_segment_new :: "core_val_type \<Rightarrow> untyped_val list \<Rightarrow> element_segment outcome" where
  "element_segment_new ty items =
     (if length items < 2 ^ 32 then Ok \<lparr>es_ty = ty, es_items = items\<rparr> else Panic)"

definition element_segment_size :: "element_segment \<Rightarrow> u32 outcome" where
  "element_segment_size s =
     (if length (es_items s) < 2 ^ 32 then Ok (word_of_nat (length (es_items s))) else Panic)"

definition drop_items :: "element_segment \<Rightarrow> element_segment" where
  "drop_items s = s\<lparr>es_items := []\<rparr>"

section \<open>Tables\<close>

record table =
  tab_ty :: table_type
  tab_elements :: "untyped_val list"

text \<open>\<open>usize::try_from\<close> of a \<open>u64\<close>, on an optional value too.\<close>

definition try_usize :: "target \<Rightarrow> u64 \<Rightarrow> nat option" where
  "try_usize t x = (if unat x < 2 ^ usize_bits t then Some (unat x) else None)"

definition try_usize_opt :: "target \<Rightarrow> u64 option \<Rightarrow> nat option option" where
  "try_usize_opt t x = (case x of None \<Rightarrow> Some None | Some x \<Rightarrow> map_option Some (try_usize t x))"

text \<open>Room for values of eight bytes each, which is what the allocator is asked in bytes.\<close>

definition reserve_values :: "target \<Rightarrow> allocator \<Rightarrow> nat \<Rightarrow> nat \<Rightarrow> bool" where
  "reserve_values t al len additional \<longleftrightarrow> try_reserve t al (8 * len) (8 * additional)"

definition notify_table_limiter :: "'l limiter option \<Rightarrow> table_error \<Rightarrow> 'l \<Rightarrow> 'l outcome" where
  "notify_table_limiter lim e l =
     (case lim of
        None \<Rightarrow> Ok l
      | Some f \<Rightarrow> and_then (limiter_error_of_table e) (\<lambda>le. Ok (lim_table_grow_failed f le l)))"

definition table_allocate ::
  "target \<Rightarrow> allocator \<Rightarrow> 'l limiter option \<Rightarrow> table_type \<Rightarrow> typed_val \<Rightarrow> nat \<Rightarrow> 'l \<Rightarrow>
   ((table_error + table) \<times> 'l) outcome" where
  "table_allocate t al lim ty init min_size l =
     (if \<not> reserve_values t al 0 min_size
      then and_then (notify_table_limiter lim table_error.OutOfSystemMemory l) (\<lambda>l.
             Ok (Inl table_error.OutOfSystemMemory, l))
      else Ok (Inr \<lparr>tab_ty = ty, tab_elements = replicate min_size (tv_value init)\<rparr>, l))"

definition table_new ::
  "target \<Rightarrow> allocator \<Rightarrow> 'l limiter option \<Rightarrow> table_type \<Rightarrow> typed_val \<Rightarrow> 'l \<Rightarrow>
   ((table_error + table) \<times> 'l) outcome" where
  "table_new t al lim ty init l =
     (case ensure_element_type_matches ty (tv_ty init) of
        Inl e \<Rightarrow> Ok (Inl e, l)
      | Inr _ \<Rightarrow>
     (case try_usize t (tt_min ty) of
        None \<Rightarrow> Ok (Inl table_error.MinimumSizeOverflow, l)
      | Some min_size \<Rightarrow>
     (case try_usize_opt t (tt_max ty) of
        None \<Rightarrow> Ok (Inl table_error.MaximumSizeOverflow, l)
      | Some max_size \<Rightarrow>
     (case lim of
        None \<Rightarrow> table_allocate t al lim ty init min_size l
      | Some f \<Rightarrow>
          (case lim_table_growing f 0 min_size max_size l of
             (Inl e, l) \<Rightarrow> Ok (Inl (table_error_of_limiter e), l)
           | (Inr ok, l) \<Rightarrow>
               if \<not> ok then Ok (Inl table_error.ResourceLimiterDeniedAllocation, l)
               else table_allocate t al lim ty init min_size l)))))"

definition table_size :: "table \<Rightarrow> u64" where
  "table_size tab = word_of_nat (length (tab_elements tab))"

definition table_dynamic_ty :: "table \<Rightarrow> table_type outcome" where
  "table_dynamic_ty tab =
     table_type_new_impl (tt_element (tab_ty tab)) (tt_index_ty (tab_ty tab)) (table_size tab)
       (tt_max (tab_ty tab))"

text \<open>Growing: what the sizes allow, what the limiter says, the fuel and the allocation.\<close>

definition table_desired :: "target \<Rightarrow> u64 \<Rightarrow> table \<Rightarrow> table_error + nat \<times> nat \<times> nat option" where
  "table_desired t delta tab =
     (case try_usize t delta of None \<Rightarrow> Inl GrowOutOfBounds | Some delta_size \<Rightarrow>
     (case checked_add64 (table_size tab) delta of None \<Rightarrow> Inl GrowOutOfBounds | Some desired \<Rightarrow>
        if unat desired \<ge> index_max_size (tt_index_ty (tab_ty tab)) then Inl GrowOutOfBounds
        else
     (case try_usize t desired of None \<Rightarrow> Inl GrowOutOfBounds | Some desired \<Rightarrow>
     (case try_usize_opt t (tt_max (tab_ty tab)) of None \<Rightarrow> Inl GrowOutOfBounds | Some maximum \<Rightarrow>
        Inr (delta_size, desired, maximum)))))"

definition ask_table_limiter ::
  "'l limiter option \<Rightarrow> nat \<Rightarrow> nat \<Rightarrow> nat option \<Rightarrow> 'l \<Rightarrow> (table_error + unit) \<times> 'l" where
  "ask_table_limiter lim current desired maximum l =
     (case lim of
        None \<Rightarrow> (Inr (), l)
      | Some f \<Rightarrow>
          (case lim_table_growing f current desired maximum l of
             (Inr True, l) \<Rightarrow> (Inr (), l)
           | (Inr False, l) \<Rightarrow> (Inl GrowOutOfBounds, l)
           | (Inl _, l) \<Rightarrow> (Inl table_error.ResourceLimiterDeniedAllocation, l)))"

text \<open>\<open>Some r\<close> is the fuel that was missing.\<close>

definition charge_values :: "u64 \<Rightarrow> fuel option \<Rightarrow> u64 option \<times> fuel option" where
  "charge_values n fu =
     (case fu of
        None \<Rightarrow> (None, None)
      | Some f \<Rightarrow>
          (case consume_fuel (\<lambda>c. fuel_for_copying_values 8 c n) f of
             (Inl (fuel_error.OutOfFuel r), f) \<Rightarrow> (Some r, Some f)
           | (_, f) \<Rightarrow> (None, Some f)))"

definition table_grow_granted ::
  "target \<Rightarrow> allocator \<Rightarrow> 'l limiter option \<Rightarrow> u64 \<Rightarrow> untyped_val \<Rightarrow> nat \<times> nat \<times> nat option \<Rightarrow>
   table \<Rightarrow> fuel option \<Rightarrow> 'l \<Rightarrow> ((table_error + u64) \<times> table \<times> fuel option \<times> 'l) outcome" where
  "table_grow_granted t al lim delta init sizes tab fu l =
     (let (delta_size, desired, maximum) = sizes;
          refuse = (\<lambda>e fu. and_then (notify_table_limiter lim e l) (\<lambda>l. Ok (Inl e, tab, fu, l)))
      in if (case maximum of Some maximum \<Rightarrow> desired > maximum | None \<Rightarrow> False)
         then refuse GrowOutOfBounds fu
         else
           (case charge_values delta fu of
              (Some r, fu) \<Rightarrow> refuse (table_error.OutOfFuel r) fu
            | (None, fu) \<Rightarrow>
                if \<not> reserve_values t al (length (tab_elements tab)) delta_size
                then refuse table_error.OutOfSystemMemory fu
                else Ok (Inr (table_size tab),
                       tab\<lparr>tab_elements := tab_elements tab @
                              replicate (desired - length (tab_elements tab)) init\<rparr>, fu, l)))"

definition table_grow_untyped ::
  "target \<Rightarrow> allocator \<Rightarrow> 'l limiter option \<Rightarrow> u64 \<Rightarrow> untyped_val \<Rightarrow> table \<Rightarrow> fuel option \<Rightarrow> 'l \<Rightarrow>
   ((table_error + u64) \<times> table \<times> fuel option \<times> 'l) outcome" where
  "table_grow_untyped t al lim delta init tab fu l =
     (if delta = 0 then Ok (Inr (table_size tab), tab, fu, l)
      else
        (case table_desired t delta tab of
           Inl e \<Rightarrow> Ok (Inl e, tab, fu, l)
         | Inr (delta_size, desired, maximum) \<Rightarrow>
             (case ask_table_limiter lim (length (tab_elements tab)) desired maximum l of
                (Inl e, l) \<Rightarrow> Ok (Inl e, tab, fu, l)
              | (Inr _, l) \<Rightarrow>
                  table_grow_granted t al lim delta init (delta_size, desired, maximum) tab fu l)))"

definition table_grow ::
  "target \<Rightarrow> allocator \<Rightarrow> 'l limiter option \<Rightarrow> u64 \<Rightarrow> typed_val \<Rightarrow> table \<Rightarrow> fuel option \<Rightarrow> 'l \<Rightarrow>
   ((table_error + u64) \<times> table \<times> fuel option \<times> 'l) outcome" where
  "table_grow t al lim delta init tab fu l =
     (case ensure_element_type_matches (tab_ty tab) (tv_ty init) of
        Inl e \<Rightarrow> Ok (Inl e, tab, fu, l)
      | Inr _ \<Rightarrow> table_grow_untyped t al lim delta (tv_value init) tab fu l)"

text \<open>Reading and writing one element. Writing cuts the index down to \<open>usize\<close>.\<close>

definition table_get_untyped :: "target \<Rightarrow> u64 \<Rightarrow> table \<Rightarrow> untyped_val option" where
  "table_get_untyped t i tab =
     (case try_usize t i of
        None \<Rightarrow> None
      | Some i \<Rightarrow> if i < length (tab_elements tab) then Some (tab_elements tab ! i) else None)"

definition table_get :: "target \<Rightarrow> u64 \<Rightarrow> table \<Rightarrow> typed_val option" where
  "table_get t i tab =
     map_option (\<lambda>v. \<lparr>tv_ty = tt_element (tab_ty tab), tv_value = v\<rparr>) (table_get_untyped t i tab)"

definition table_set_untyped :: "target \<Rightarrow> u64 \<Rightarrow> untyped_val \<Rightarrow> table \<Rightarrow> (table_error + unit) \<times> table" where
  "table_set_untyped t i v tab =
     (if as_usize t i < length (tab_elements tab)
      then (Inr (), tab\<lparr>tab_elements := (tab_elements tab)[as_usize t i := v]\<rparr>)
      else (Inl SetOutOfBounds, tab))"

definition table_set :: "target \<Rightarrow> u64 \<Rightarrow> typed_val \<Rightarrow> table \<Rightarrow> (table_error + unit) \<times> table" where
  "table_set t i v tab =
     (case ensure_element_type_matches (tab_ty tab) (tv_ty v) of
        Inl e \<Rightarrow> (Inl e, tab) | Inr _ \<Rightarrow> table_set_untyped t i (tv_value v) tab)"

section \<open>Bulk operations\<close>

text \<open>\<open>consume_fuel_if(...)?\<close> on an optional counter.\<close>

definition pay_values :: "u64 \<Rightarrow> fuel option \<Rightarrow> ((table_error + unit) \<times> fuel option) outcome" where
  "pay_values n fu =
     (case fu of
        None \<Rightarrow> Ok (Inr (), None)
      | Some f \<Rightarrow>
          (case consume_fuel_if (\<lambda>c. fuel_for_copying_values 8 c n) f of
             (Inl e, f) \<Rightarrow> and_then (table_error_of_fuel e) (\<lambda>e. Ok (Inl e, Some f))
           | (Inr _, f) \<Rightarrow> Ok (Inr (), Some f)))"

text \<open>\<open>get(start..)\<close> and then \<open>get(..len)\<close>, and \<open>copy_from_slice\<close> into such a window.\<close>

definition has_window :: "'a list \<Rightarrow> nat \<Rightarrow> nat \<Rightarrow> bool" where
  "has_window xs start len \<longleftrightarrow> start \<le> length xs \<and> len \<le> length (drop start xs)"

definition put_window :: "'a list \<Rightarrow> nat \<Rightarrow> 'a list \<Rightarrow> 'a list" where
  "put_window xs start ys = take start xs @ ys @ drop (start + length ys) xs"

definition table_init ::
  "target \<Rightarrow> element_segment \<Rightarrow> u64 \<Rightarrow> u32 \<Rightarrow> u32 \<Rightarrow> table \<Rightarrow> fuel option \<Rightarrow>
   ((table_error + unit) \<times> table \<times> fuel option) outcome" where
  "table_init t element dst src len tab fu =
     (let fail = (\<lambda>e. Ok (Inl e, tab, fu))
      in if \<not> is_ref (tt_element (tab_ty tab)) then Panic
         else
     (case ensure_element_type_matches (tab_ty tab) (es_ty element) of Inl e \<Rightarrow> fail e | Inr _ \<Rightarrow>
     (case try_usize t dst of None \<Rightarrow> fail InitOutOfBounds | Some dst_index \<Rightarrow>
     (case try_usize t (ucast src) of None \<Rightarrow> fail InitOutOfBounds | Some src_index \<Rightarrow>
     (case try_usize t (ucast len) of None \<Rightarrow> fail InitOutOfBounds | Some len_size \<Rightarrow>
        if \<not> has_window (tab_elements tab) dst_index len_size then fail InitOutOfBounds
        else if \<not> has_window (es_items element) src_index len_size then fail InitOutOfBounds
        else if len = 0 then Ok (Inr (), tab, fu)
        else
          and_then (pay_values (ucast len) fu) (\<lambda>(r, fu). Ok (case r of
            Inl e \<Rightarrow> (Inl e, tab, fu)
          | Inr _ \<Rightarrow>
              (Inr (), tab\<lparr>tab_elements := put_window (tab_elements tab) dst_index
                 (take len_size (drop src_index (es_items element)))\<rparr>, fu))))))))"

definition table_copy ::
  "target \<Rightarrow> u64 \<Rightarrow> table \<Rightarrow> u64 \<Rightarrow> u64 \<Rightarrow> table \<Rightarrow> fuel option \<Rightarrow>
   ((table_error + unit) \<times> table \<times> fuel option) outcome" where
  "table_copy t dst src_table src len dst_table fu =
     (let fail = (\<lambda>e. Ok (Inl e, dst_table, fu))
      in
     (case ensure_element_type_matches (tab_ty dst_table) (tt_element (tab_ty src_table)) of
        Inl e \<Rightarrow> fail e | Inr _ \<Rightarrow>
     (case try_usize t src of None \<Rightarrow> fail CopyOutOfBounds | Some src_index \<Rightarrow>
     (case try_usize t dst of None \<Rightarrow> fail CopyOutOfBounds | Some dst_index \<Rightarrow>
     (case try_usize t len of None \<Rightarrow> fail CopyOutOfBounds | Some len_size \<Rightarrow>
        if \<not> has_window (tab_elements dst_table) dst_index len_size then fail CopyOutOfBounds
        else if \<not> has_window (tab_elements src_table) src_index len_size then fail CopyOutOfBounds
        else
          and_then (pay_values len fu) (\<lambda>(r, fu). Ok (case r of
            Inl e \<Rightarrow> (Inl e, dst_table, fu)
          | Inr _ \<Rightarrow>
              (Inr (), dst_table\<lparr>tab_elements := put_window (tab_elements dst_table) dst_index
                 (take len_size (drop src_index (tab_elements src_table)))\<rparr>, fu))))))))"

text \<open>\<open>copy_within(a..b, dst)\<close> panics on a bad range.\<close>

definition elements_copy_within :: "'a list \<Rightarrow> nat \<Rightarrow> nat \<Rightarrow> nat \<Rightarrow> 'a list outcome" where
  "elements_copy_within xs a b dst =
     (if a \<le> b \<and> b \<le> length xs \<and> dst \<le> length xs - (b - a)
      then Ok (put_window xs dst (take (b - a) (drop a xs))) else Panic)"

definition table_copy_within ::
  "target \<Rightarrow> u64 \<Rightarrow> u64 \<Rightarrow> u64 \<Rightarrow> table \<Rightarrow> fuel option \<Rightarrow>
   ((table_error + unit) \<times> table \<times> fuel option) outcome" where
  "table_copy_within t dst src len tab fu =
     (let fail = (\<lambda>e. Ok (Inl e, tab, fu))
      in
     (case checked_add64 (max dst src) len of None \<Rightarrow> fail CopyOutOfBounds | Some offset \<Rightarrow>
        if \<not> offset \<le> table_size tab then fail CopyOutOfBounds
        else
     (case try_usize t src of None \<Rightarrow> fail CopyOutOfBounds | Some src_index \<Rightarrow>
     (case try_usize t dst of None \<Rightarrow> fail CopyOutOfBounds | Some dst_index \<Rightarrow>
     (case try_usize t len of None \<Rightarrow> fail CopyOutOfBounds | Some len_size \<Rightarrow>
        and_then (pay_values len fu) (\<lambda>(r, fu). case r of
            Inl e \<Rightarrow> Ok (Inl e, tab, fu)
          | Inr _ \<Rightarrow>
              and_then (elements_copy_within (tab_elements tab) src_index
                  ((src_index + len_size) mod 2 ^ usize_bits t) dst_index) (\<lambda>elements.
                Ok (Inr (), tab\<lparr>tab_elements := elements\<rparr>, fu))))))))"

definition table_fill_untyped ::
  "target \<Rightarrow> u64 \<Rightarrow> untyped_val \<Rightarrow> u64 \<Rightarrow> table \<Rightarrow> fuel option \<Rightarrow>
   ((table_error + unit) \<times> table \<times> fuel option) outcome" where
  "table_fill_untyped t dst v len tab fu =
     (let fail = (\<lambda>e. Ok (Inl e, tab, fu))
      in
     (case try_usize t dst of None \<Rightarrow> fail FillOutOfBounds | Some dst_index \<Rightarrow>
     (case try_usize t len of None \<Rightarrow> fail FillOutOfBounds | Some len_size \<Rightarrow>
        if \<not> has_window (tab_elements tab) dst_index len_size then fail FillOutOfBounds
        else
          and_then (pay_values len fu) (\<lambda>(r, fu). Ok (case r of
            Inl e \<Rightarrow> (Inl e, tab, fu)
          | Inr _ \<Rightarrow> (Inr (), tab\<lparr>tab_elements := put_window (tab_elements tab) dst_index
                        (replicate len_size v)\<rparr>, fu))))))"

definition table_fill ::
  "target \<Rightarrow> u64 \<Rightarrow> typed_val \<Rightarrow> u64 \<Rightarrow> table \<Rightarrow> fuel option \<Rightarrow>
   ((table_error + unit) \<times> table \<times> fuel option) outcome" where
  "table_fill t dst v len tab fu =
     (case ensure_element_type_matches (tab_ty tab) (tv_ty v) of
        Inl e \<Rightarrow> Ok (Inl e, tab, fu) | Inr _ \<Rightarrow> table_fill_untyped t dst (tv_value v) len tab fu)"

end
