(* ===== verification/Table_Ops.thy ===== *)
theory Table_Ops
  imports Guest_Table
begin

text \<open>
  The table instructions of the engine (\<open>patches/wasmi/src/engine/executor/instrs/table.rs\<close>): get, size, set, copy, init, fill, grow and dropping an element
  segment, on the values their operands have, with the traps and errors they end in; and what
  they do to a table: the invariant of tables, reading back what was written, copying. Which table
  an instruction names is resolved before.
\<close>

section \<open>The instructions\<close>

definition exec_table_get :: "target \<Rightarrow> u64 \<Rightarrow> table \<Rightarrow> error_kind + untyped_val" where
  "exec_table_get t i tab =
     (case table_get_untyped t i tab of
        Some v \<Rightarrow> Inr v | None \<Rightarrow> Inl (EK_TrapCode TableOutOfBounds))"

definition exec_table_size :: "table \<Rightarrow> u64" where
  "exec_table_size tab = table_size tab"

definition exec_table_set :: "target \<Rightarrow> u64 \<Rightarrow> untyped_val \<Rightarrow> table \<Rightarrow> (error_kind + unit) \<times> table" where
  "exec_table_set t i v tab =
     (case table_set_untyped t i v tab of
        (Inl _, tab) \<Rightarrow> (Inl (EK_TrapCode TableOutOfBounds), tab)
      | (Inr _, tab) \<Rightarrow> (Inr (), tab))"

text \<open>The \<open>?\<close> on the result of a bulk operation.\<close>

definition raise_table_error ::
  "((table_error + unit) \<times> table \<times> fuel option) outcome \<Rightarrow>
   ((error_kind + unit) \<times> table \<times> fuel option) outcome" where
  "raise_table_error x = and_then x (\<lambda>(r, tab, fu). Ok (map_sum EK_Table id r, tab, fu))"

definition exec_table_copy_within ::
  "target \<Rightarrow> u64 \<Rightarrow> u64 \<Rightarrow> u64 \<Rightarrow> table \<Rightarrow> fuel \<Rightarrow> ((error_kind + unit) \<times> table \<times> fuel option) outcome" where
  "exec_table_copy_within t dst src len tab fu =
     raise_table_error (table_copy_within t dst src len tab (Some fu))"

definition exec_table_copy ::
  "target \<Rightarrow> u64 \<Rightarrow> u64 \<Rightarrow> u64 \<Rightarrow> table \<Rightarrow> table \<Rightarrow> fuel \<Rightarrow>
   ((error_kind + unit) \<times> table \<times> fuel option) outcome" where
  "exec_table_copy t dst src len src_table dst_table fu =
     raise_table_error (table_copy t dst src_table src len dst_table (Some fu))"

definition exec_table_init ::
  "target \<Rightarrow> u64 \<Rightarrow> u32 \<Rightarrow> u32 \<Rightarrow> element_segment \<Rightarrow> table \<Rightarrow> fuel \<Rightarrow>
   ((error_kind + unit) \<times> table \<times> fuel option) outcome" where
  "exec_table_init t dst src len element tab fu =
     raise_table_error (table_init t element dst src len tab (Some fu))"

definition exec_table_fill ::
  "target \<Rightarrow> u64 \<Rightarrow> u64 \<Rightarrow> untyped_val \<Rightarrow> table \<Rightarrow> fuel \<Rightarrow>
   ((error_kind + unit) \<times> table \<times> fuel option) outcome" where
  "exec_table_fill t dst len v tab fu =
     raise_table_error (table_fill_untyped t dst v len tab (Some fu))"

definition exec_table_grow ::
  "target \<Rightarrow> allocator \<Rightarrow> 'l limiter option \<Rightarrow> u64 \<Rightarrow> untyped_val \<Rightarrow> table \<Rightarrow> fuel \<Rightarrow> 'l \<Rightarrow>
   ((error_kind + u64) \<times> table \<times> fuel option \<times> 'l) outcome" where
  "exec_table_grow t al lim delta v tab fu l =
     (if delta = 0 then Ok (Inr (exec_table_size tab), tab, Some fu, l)
      else
        and_then (table_grow_untyped t al lim delta v tab (Some fu) l) (\<lambda>(r, tab, fu, l).
          case r of
            Inr return_value \<Rightarrow> Ok (Inr return_value, tab, fu, l)
          | Inl e \<Rightarrow>
              if e = GrowOutOfBounds \<or> e = table_error.OutOfSystemMemory
              then Ok (Inr (if is_64 (tt_index_ty (tab_ty tab)) then 0xFFFFFFFFFFFFFFFF
                            else 0xFFFFFFFF), tab, fu, l)
              else (case e of
                      table_error.OutOfFuel r \<Rightarrow> Ok (Inl (EK_ResumableOutOfFuel r), tab, fu, l)
                    | table_error.ResourceLimiterDeniedAllocation \<Rightarrow>
                        Ok (Inl (EK_TrapCode GrowthOperationLimited), tab, fu, l)
                    | _ \<Rightarrow> Panic)))"

definition exec_element_drop :: "element_segment \<Rightarrow> element_segment" where
  "exec_element_drop s = drop_items s"

section \<open>Well-formed tables\<close>

definition valid_table_type :: "table_type \<Rightarrow> bool" where
  "valid_table_type ty \<longleftrightarrow>
     unat (tt_min ty) \<le> index_max_size (tt_index_ty ty) \<and>
     (case tt_max ty of Some mx \<Rightarrow> tt_min ty \<le> mx \<and> unat mx \<le> index_max_size (tt_index_ty ty) | None \<Rightarrow> True)"

definition table_ok :: "target \<Rightarrow> table \<Rightarrow> bool" where
  "table_ok t tab \<longleftrightarrow>
     valid_table_type (tab_ty tab) \<and> usize_bits t \<le> 64 \<and>
     length (tab_elements tab) < 2 ^ usize_bits t \<and>
     unat (tt_min (tab_ty tab)) \<le> length (tab_elements tab) \<and>
     length (tab_elements tab) \<le> index_max_size (tt_index_ty (tab_ty tab)) \<and>
     (case tt_max (tab_ty tab) of Some mx \<Rightarrow> length (tab_elements tab) \<le> unat mx | None \<Rightarrow> True)"

text \<open>What an operation other than growing keeps: the type and the number of elements.\<close>

definition same_shape :: "table \<Rightarrow> table \<Rightarrow> bool" where
  "same_shape tab tab' \<longleftrightarrow> tab_ty tab' = tab_ty tab \<and> length (tab_elements tab') = length (tab_elements tab)"

lemma same_shape_refl [simp]: "same_shape tab tab"
  by (simp add: same_shape_def)

lemma same_shape_ok: "same_shape tab tab' \<Longrightarrow> table_ok t tab \<Longrightarrow> table_ok t tab'"
  by (auto simp: same_shape_def table_ok_def split: option.split)

lemma table_type_new_impl_iff:
  "table_type_new_impl el it mn mx = Ok ty \<longleftrightarrow>
     ty = \<lparr>tt_element = el, tt_min = mn, tt_max = mx, tt_index_ty = it\<rparr> \<and> valid_table_type ty"
  by (auto simp: table_type_new_impl_def valid_table_type_def split: if_splits option.splits)

lemma table_type_new_valid:
  "table_type_new el mn mx = Ok ty \<Longrightarrow> valid_table_type ty"
  "table_type_new64 el mn' mx' = Ok ty \<Longrightarrow> valid_table_type ty"
  by (auto simp: table_type_new_def table_type_new64_def table_type_new_impl_iff)

lemma table_size_unat: "table_ok t tab \<Longrightarrow> unat (table_size tab) = length (tab_elements tab)"
  using less_usize_u64 [of "length (tab_elements tab)" t]
  by (simp add: table_size_def table_ok_def unat_of_nat_u64)

lemma has_window_iff: "has_window xs a n \<longleftrightarrow> a + n \<le> length xs"
  by (auto simp: has_window_def)

lemma length_put_window: "a + length ys \<le> length xs \<Longrightarrow> length (put_window xs a ys) = length xs"
  by (simp add: put_window_def)

lemma nth_put_window:
  "a + length ys \<le> length xs \<Longrightarrow> i < length xs \<Longrightarrow>
   put_window xs a ys ! i = (if a \<le> i \<and> i < a + length ys then ys ! (i - a) else xs ! i)"
  by (auto simp: put_window_def nth_append min_def)

lemma pay_values_Ok: "\<exists>r fu'. pay_values n fu = Ok (r, fu')"
  by (auto simp: pay_values_def consume_fuel_if_def consume_fuel_unchecked_def
      split: option.split prod.split sum.split if_splits)

lemma pay_values_cases:
  obtains fu' where "pay_values n fu = Ok (Inr (), fu')"
  | r where "pay_values n fu = Ok (Inl (table_error.OutOfFuel r), fu)"
  using pay_values_Ok [of n fu]
  by (cases fu) (auto simp: pay_values_def consume_fuel_if_def consume_fuel_unchecked_def
      split: if_splits)

lemma table_set_shape: "table_set_untyped t i v tab = (r, tab') \<Longrightarrow> same_shape tab tab'"
  by (auto simp: table_set_untyped_def same_shape_def split: if_splits)

text \<open>The bulk operations, each on the windows it reaches.\<close>

lemma table_copy_within_cases:
  assumes ok: "table_ok t tab"
  shows "table_copy_within t dst src len tab fu =
    (if length (tab_elements tab) < max (unat dst) (unat src) + unat len
     then Ok (Inl CopyOutOfBounds, tab, fu)
     else and_then (pay_values len fu) (\<lambda>(r, fu). Ok (case r of
            Inl e \<Rightarrow> (Inl e, tab, fu)
          | Inr _ \<Rightarrow> (Inr (), tab\<lparr>tab_elements := put_window (tab_elements tab) (unat dst)
              (take (unat len) (drop (unat src) (tab_elements tab)))\<rparr>, fu))))"
proof -
  let ?n = "length (tab_elements tab)"
  have b: "?n < 2 ^ usize_bits t" and b64: "?n < 2 ^ 64"
    using ok less_usize_u64 [of ?n t] by (simp_all add: table_ok_def)
  have mx: "unat (max dst src) = max (unat dst) (unat src)"
    by (simp add: max_def word_le_nat_alt)
  show ?thesis
  proof (cases "?n < max (unat dst) (unat src) + unat len")
    case True
    have "checked_add64 (max dst src) len = None
      \<or> (\<exists>off. checked_add64 (max dst src) len = Some off \<and> \<not> off \<le> table_size tab)"
    proof (cases "unat (max dst src) + unat len < 2 ^ 64")
      case sum: True
      then have "unat (max dst src + len) = unat (max dst src) + unat len"
        by (simp add: unat_word_ariths)
      then show ?thesis using True sum mx table_size_unat [OF ok]
        by (simp add: checked_add64_def word_le_nat_alt)
    qed (simp add: checked_add64_def)
    then show ?thesis using True by (auto simp: table_copy_within_def Let_def)
  next
    case False
    then have le: "unat (max dst src) + unat len \<le> ?n" by (simp add: mx)
    then have s: "unat (max dst src + len) = unat (max dst src) + unat len"
      using b64 by (simp add: unat_word_ariths)
    have c: "checked_add64 (max dst src) len = Some (max dst src + len)"
      using le b64 by (simp add: checked_add64_def)
    have o: "max dst src + len \<le> table_size tab"
      using le s table_size_unat [OF ok] by (simp add: word_le_nat_alt)
    have d: "unat dst + unat len \<le> ?n" and sr: "unat src + unat len \<le> ?n"
      using le by (simp_all add: mx)
    have u: "try_usize t dst = Some (unat dst)" "try_usize t src = Some (unat src)"
      "try_usize t len = Some (unat len)"
      using d sr b by (simp_all add: try_usize_def)
    have w: "elements_copy_within (tab_elements tab) (unat src)
        ((unat src + unat len) mod 2 ^ usize_bits t) (unat dst)
      = Ok (put_window (tab_elements tab) (unat dst)
          (take (unat len) (drop (unat src) (tab_elements tab))))"
      using d sr b by (simp add: elements_copy_within_def)
    show ?thesis
      using False by (cases rule: pay_values_cases [of len fu])
        (simp_all add: table_copy_within_def c o u w)
  qed
qed

lemma table_copy_within_shape:
  assumes "table_ok t tab" and "table_copy_within t dst src len tab fu = Ok (r, tab', fu')"
  shows "same_shape tab tab'"
  using assms(2) unfolding table_copy_within_cases [OF assms(1)]
  by (cases rule: pay_values_cases [of len fu])
    (auto simp: same_shape_def length_put_window split: if_splits)

lemma table_init_shape:
  assumes "table_init t element dst src len tab fu = Ok (r, tab', fu')"
  shows "same_shape tab tab'"
  using assms
  by (cases rule: pay_values_cases [of "ucast len" fu])
    (auto simp: table_init_def Let_def same_shape_def length_put_window has_window_iff
      split: if_splits sum.splits option.splits)

lemma table_copy_shape:
  assumes "table_copy t dst src_table src len tab fu = Ok (r, tab', fu')"
  shows "same_shape tab tab'"
  using assms
  by (cases rule: pay_values_cases [of len fu])
    (auto simp: table_copy_def Let_def same_shape_def length_put_window has_window_iff
      split: if_splits sum.splits option.splits)

lemma table_fill_shape:
  assumes "table_fill_untyped t dst v len tab fu = Ok (r, tab', fu')"
  shows "same_shape tab tab'"
  using assms
  by (cases rule: pay_values_cases [of len fu])
    (auto simp: table_fill_untyped_def Let_def same_shape_def length_put_window has_window_iff
      split: if_splits sum.splits option.splits)

section \<open>Growing\<close>

definition table_grown :: "table \<Rightarrow> nat \<Rightarrow> untyped_val \<Rightarrow> table \<Rightarrow> bool" where
  "table_grown tab n v tab' \<longleftrightarrow> tab' = tab\<lparr>tab_elements := tab_elements tab @ replicate n v\<rparr>"

lemma try_usize_opt_Some:
  "try_usize_opt t x = Some y \<Longrightarrow> y = map_option unat x"
  by (auto simp: try_usize_opt_def try_usize_def split: option.splits if_splits)

lemma table_desired_Inr:
  assumes ok: "table_ok t tab" and d: "table_desired t delta tab = Inr (n, desired, maximum)"
  shows "n = unat delta \<and> desired = length (tab_elements tab) + unat delta
    \<and> desired < 2 ^ usize_bits t \<and> desired < index_max_size (tt_index_ty (tab_ty tab))
    \<and> maximum = map_option unat (tt_max (tab_ty tab))"
proof -
  have s: "unat (table_size tab + delta) = length (tab_elements tab) + unat delta"
    if "unat (table_size tab) + unat delta < 2 ^ 64"
    using that table_size_unat [OF ok] by (simp add: unat_word_ariths)
  show ?thesis
    using d s table_size_unat [OF ok]
    by (auto simp: table_desired_def try_usize_def checked_add64_def dest!: try_usize_opt_Some
        split: option.splits if_splits)
qed

lemma table_grow_granted_cases:
  assumes "table_grow_granted t al lim delta v (n, desired, maximum) tab fu l = Ok (r, tab', fu', l')"
  obtains (refused) e where "r = Inl e" "tab' = tab"
  | (grown) "r = Inr (table_size tab)" "fst (charge_values delta fu) = None"
      "fu' = snd (charge_values delta fu)" "case maximum of Some mx \<Rightarrow> desired \<le> mx | None \<Rightarrow> True"
      "table_grown tab (desired - length (tab_elements tab)) v tab'"
proof -
  let ?over = "case maximum of Some mx \<Rightarrow> desired > mx | None \<Rightarrow> False"
  obtain c fu2 where c: "charge_values delta fu = (c, fu2)" by (cases "charge_values delta fu") auto
  have refuse: thesis
    if "and_then (notify_table_limiter lim e l) (\<lambda>l. Ok (Inl e, tab, fu3, l)) = Ok (r, tab', fu', l')"
    for e fu3
    by (rule refused) (use that in \<open>auto simp: and_then_eq_Ok\<close>)
  note G = assms [unfolded table_grow_granted_def Let_def prod.case c]
  show thesis
  proof (cases ?over)
    case True
    show thesis by (rule refuse) (use G in \<open>simp only: True if_True\<close>)
  next
    case over: False
    note G1 = G [unfolded if_not_P [OF over]]
    show thesis
    proof (cases c)
      case (Some k)
      show thesis by (rule refuse) (use G1 in \<open>simp only: Some option.case\<close>)
    next
      case None
      note G2 = G1 [unfolded None option.case]
      show thesis
      proof (cases "reserve_values t al (length (tab_elements tab)) n")
        case False
        show thesis by (rule refuse) (use G2 in \<open>simp only: False not_False_eq_True if_True\<close>)
      next
        case True
        then have "r = Inr (table_size tab)" "fu' = fu2"
          "tab' = tab\<lparr>tab_elements := tab_elements tab @ replicate (desired - length (tab_elements tab)) v\<rparr>"
          using G2 by simp_all
        moreover have "case maximum of Some mx \<Rightarrow> desired \<le> mx | None \<Rightarrow> True"
          using over by (cases maximum) simp_all
        ultimately show thesis using grown c None by (simp add: table_grown_def)
      qed
    qed
  qed
qed

lemma table_grow_cases:
  assumes ok: "table_ok t tab"
    and g: "table_grow_untyped t al lim delta v tab fu l = Ok (r, tab', fu', l')"
  obtains (refused) e where "r = Inl e" "tab' = tab"
  | (grown) "r = Inr (table_size tab)" "table_grown tab (unat delta) v tab'" "table_ok t tab'"
proof (cases "delta = 0")
  case True
  then show thesis using g ok grown by (auto simp: table_grow_untyped_def table_grown_def)
next
  case False
  show thesis
  proof (cases "table_desired t delta tab")
    case (Inl e)
    then show thesis using g False refused by (auto simp: table_grow_untyped_def)
  next
    case (Inr sizes)
    obtain n desired maximum where sz: "sizes = (n, desired, maximum)" by (cases sizes) auto
    note D = table_desired_Inr [OF ok Inr [unfolded sz]]
    obtain a l2 where ask: "ask_table_limiter lim (length (tab_elements tab)) desired maximum l = (a, l2)"
      by (cases "ask_table_limiter lim (length (tab_elements tab)) desired maximum l") auto
    show thesis
    proof (cases a)
      case (Inl e)
      then show thesis using g False \<open>table_desired t delta tab = Inr sizes\<close> sz ask refused
        by (auto simp: table_grow_untyped_def)
    next
      case a: (Inr u)
      have G: "table_grow_granted t al lim delta v (n, desired, maximum) tab fu l2 = Ok (r, tab', fu', l')"
        using g False Inr sz ask a by (simp add: table_grow_untyped_def)
      show thesis
      proof (cases rule: table_grow_granted_cases [OF G])
        case (1 e)
        then show thesis by (rule refused)
      next
        case 2
        have tg: "table_grown tab (unat delta) v tab'" using 2 D by simp
        then have "table_ok t tab'"
          using ok D 2(4) by (auto simp: table_ok_def table_grown_def split: option.splits)
        with 2(1) tg show thesis by (rule grown)
      qed
    qed
  qed
qed

section \<open>Reachable tables\<close>

lemma table_new_cases:
  assumes "table_new t al lim ty init l = Ok (Inr tab, l')"
  shows "tab = \<lparr>tab_ty = ty, tab_elements = replicate (unat (tt_min ty)) (tv_value init)\<rparr>
    \<and> unat (tt_min ty) < 2 ^ usize_bits t"
  using assms
  by (auto simp: table_new_def table_allocate_def try_usize_def and_then_iffs
      split: sum.splits option.splits if_splits prod.splits)

lemma table_new_ok:
  assumes "valid_table_type ty" and "usize_bits t \<le> 64"
    and "table_new t al lim ty init l = Ok (Inr tab, l')"
  shows "table_ok t tab"
  using assms(1,2) table_new_cases [OF assms(3)]
  by (auto simp: table_ok_def valid_table_type_def word_le_nat_alt split: option.splits)

text \<open>A table as a guest can make it: created with a type, and changed by any sequence of instructions.\<close>

inductive table_reachable :: "target \<Rightarrow> 'l limiter option \<Rightarrow> table_type \<Rightarrow> table \<Rightarrow> bool"
  for t :: target and lim :: "'l limiter option" and ty :: table_type where
  created: "\<lbrakk>table_type_new_impl el it mn mx = Ok ty; table_new t al lim ty init l = Ok (Inr tab, l')\<rbrakk>
     \<Longrightarrow> table_reachable t lim ty tab"
| set: "\<lbrakk>table_reachable t lim ty tab; exec_table_set t i v tab = (r, tab')\<rbrakk>
     \<Longrightarrow> table_reachable t lim ty tab'"
| grow: "\<lbrakk>table_reachable t lim ty tab; exec_table_grow t al lim delta v tab fu l = Ok (r2, tab', fu', l')\<rbrakk>
     \<Longrightarrow> table_reachable t lim ty tab'"
| fill: "\<lbrakk>table_reachable t lim ty tab; exec_table_fill t dst len v tab fu = Ok (r, tab', fu')\<rbrakk>
     \<Longrightarrow> table_reachable t lim ty tab'"
| init: "\<lbrakk>table_reachable t lim ty tab; exec_table_init t dst src2 len2 element tab fu = Ok (r, tab', fu')\<rbrakk>
     \<Longrightarrow> table_reachable t lim ty tab'"
| copy_within: "\<lbrakk>table_reachable t lim ty tab; exec_table_copy_within t dst src len tab fu = Ok (r, tab', fu')\<rbrakk>
     \<Longrightarrow> table_reachable t lim ty tab'"
| copy: "\<lbrakk>table_reachable t lim ty tab; exec_table_copy t dst src len src_table tab fu = Ok (r, tab', fu')\<rbrakk>
     \<Longrightarrow> table_reachable t lim ty tab'"

lemma raise_table_error_Ok:
  "raise_table_error x = Ok (r, tab, fu) \<Longrightarrow> \<exists>r'. x = Ok (r', tab, fu)"
  by (auto simp: raise_table_error_def and_then_iffs)

lemma exec_table_set_shape: "exec_table_set t i v tab = (r, tab') \<Longrightarrow> same_shape tab tab'"
  using table_set_shape [of t i v tab]
  by (auto simp: exec_table_set_def split: prod.splits sum.splits)

lemma exec_table_grow_ok:
  assumes ok: "table_ok t tab" and g: "exec_table_grow t al lim delta v tab fu l = Ok (r, tab', fu', l')"
  shows "table_ok t tab' \<and> tab_ty tab' = tab_ty tab"
proof (cases "delta = 0")
  case True
  then show ?thesis using ok g by (simp add: exec_table_grow_def)
next
  case False
  obtain r1 tab1 fu1 l1 where
    G: "table_grow_untyped t al lim delta v tab (Some fu) l = Ok (r1, tab1, fu1, l1)"
    using g False by (auto simp: exec_table_grow_def and_then_iffs)
  have "tab' = tab1"
    using g False by (auto simp: exec_table_grow_def G split: sum.splits if_splits table_error.splits)
  moreover have "table_ok t tab1 \<and> tab_ty tab1 = tab_ty tab"
    by (cases rule: table_grow_cases [OF ok G]) (use ok in \<open>simp_all add: table_grown_def\<close>)
  ultimately show ?thesis by simp
qed

lemma same_shape_typed:
  "same_shape tab tab' \<Longrightarrow> table_ok t tab \<and> tab_ty tab = ty \<Longrightarrow> table_ok t tab' \<and> tab_ty tab' = ty"
  using same_shape_ok [of tab tab' t] by (simp add: same_shape_def)

lemma table_reachable_ok:
  assumes "table_reachable t lim ty tab" and "usize_bits t \<le> 64"
  shows "table_ok t tab \<and> tab_ty tab = ty"
  using assms(1)
proof (induction rule: table_reachable.induct)
  case (created el it mn mx al init l tab l')
  then show ?case using table_new_ok [OF _ assms(2) created(2)] table_new_cases [OF created(2)]
    by (auto simp: table_type_new_impl_iff)
next
  case (set tab i v r tab')
  then show ?case using same_shape_typed [OF exec_table_set_shape] by blast
next
  case (grow tab al delta v fu l r2 tab' fu' l')
  then show ?case using exec_table_grow_ok [OF _ grow(2)] by simp
next
  case (fill tab dst len v fu r tab' fu')
  then show ?case unfolding exec_table_fill_def
    using same_shape_typed [OF table_fill_shape] raise_table_error_Ok by metis
next
  case (init tab dst src2 len2 element fu r tab' fu')
  then show ?case unfolding exec_table_init_def
    using same_shape_typed [OF table_init_shape] raise_table_error_Ok by metis
next
  case (copy_within tab dst src len fu r tab' fu')
  then show ?case unfolding exec_table_copy_within_def
    using same_shape_typed [OF table_copy_within_shape] raise_table_error_Ok by metis
next
  case (copy tab dst src len src_table fu r tab' fu')
  then show ?case unfolding exec_table_copy_def
    using same_shape_typed [OF table_copy_shape] raise_table_error_Ok by metis
qed

text \<open>
  C32: whatever instructions a guest runs on a table, the table keeps the type it was created with, and
  the number of its elements stays between the minimum and the maximum of that type, so that the dynamic
  type the engine checks imports against can be built (its assertions never panic), says the true
  size, and is a subtype of the type of creation.
\<close>
theorem table_keeps_its_type:
  assumes "table_reachable t lim ty tab" and "usize_bits t \<le> 64"
  shows "tab_ty tab = ty \<and> unat (tt_min ty) \<le> length (tab_elements tab)
    \<and> (case tt_max ty of Some mx \<Rightarrow> length (tab_elements tab) \<le> unat mx | None \<Rightarrow> True)
    \<and> (\<exists>dyn. table_dynamic_ty tab = Ok dyn \<and> unat (tt_min dyn) = length (tab_elements tab)
         \<and> table_is_subtype_of dyn ty)"
proof -
  have ok: "table_ok t tab" and ty: "tab_ty tab = ty" using table_reachable_ok [OF assms] by simp_all
  let ?ty = "\<lparr>tt_element = tt_element (tab_ty tab), tt_min = table_size tab,
      tt_max = tt_max (tab_ty tab), tt_index_ty = tt_index_ty (tab_ty tab)\<rparr>"
  have s: "unat (table_size tab) = length (tab_elements tab)" by (rule table_size_unat [OF ok])
  have "valid_table_type ?ty"
    using ok s by (auto simp: table_ok_def valid_table_type_def word_le_nat_alt split: option.splits)
  then have "table_dynamic_ty tab = Ok ?ty"
    by (simp add: table_dynamic_ty_def table_type_new_impl_iff)
  moreover have "table_is_subtype_of ?ty ty"
    using ok s ty by (auto simp: table_is_subtype_of_def table_ok_def word_less_nat_alt split: option.split)
  moreover have "unat (tt_min ty) \<le> length (tab_elements tab)"
    "case tt_max ty of Some mx \<Rightarrow> length (tab_elements tab) \<le> unat mx | None \<Rightarrow> True"
    using ok ty by (auto simp: table_ok_def split: option.splits)
  ultimately show ?thesis using s ty by auto
qed

theorem table_keeps_its_type_witness:
  "\<exists>ty. table_dynamic_ty \<lparr>tab_ty = \<lparr>tt_element = TyFuncRef, tt_min = 2, tt_max = Some 4,
            tt_index_ty = I32\<rparr>, tab_elements = [7, 7]\<rparr> = Ok ty
    \<and> unat (tt_min ty) = 2
    \<and> table_is_subtype_of ty \<lparr>tt_element = TyFuncRef, tt_min = 2, tt_max = Some 4, tt_index_ty = I32\<rparr>"
proof -
  let ?ty = "\<lparr>tt_element = TyFuncRef, tt_min = 2, tt_max = Some 4, tt_index_ty = I32\<rparr>"
  have "table_type_new_impl TyFuncRef I32 2 (Some 4) = Ok ?ty"
    by (simp add: table_type_new_impl_def index_max_size_def)
  moreover have "replicate 2 (7 :: u64) = [7, 7]" by (simp add: numeral_2_eq_2)
  then have "table_new esp32c3_release (\<lambda>_. True) (None :: unit limiter option) ?ty
      \<lparr>tv_ty = TyFuncRef, tv_value = 7\<rparr> () = Ok (Inr \<lparr>tab_ty = ?ty, tab_elements = [7, 7]\<rparr>, ())"
    by (simp add: table_new_def ensure_element_type_matches_def try_usize_def try_usize_opt_def
        table_allocate_def reserve_values_def try_reserve_def esp32c3_release_def)
  ultimately have "table_reachable esp32c3_release (None :: unit limiter option) ?ty
      \<lparr>tab_ty = ?ty, tab_elements = [7, 7]\<rparr>"
    by (rule table_reachable.created)
  from table_keeps_its_type [OF this] show ?thesis
    by (simp add: esp32c3_release_def numeral_2_eq_2)
qed

section \<open>Reading back\<close>

text \<open>
  With an index that fits the machine's \<open>usize\<close>, \<open>table.set\<close> traps exactly when the index is
  out of bounds and then changes nothing; otherwise a later \<open>table.get\<close> reads the value back
  there, and what it had read at every other index.
\<close>
theorem table_set_is_read_back:
  assumes "exec_table_set t i v tab = (r, tab')" and "unat i < 2 ^ usize_bits t"
  shows "r = (if unat i < length (tab_elements tab) then Inr () else Inl (EK_TrapCode TableOutOfBounds))
    \<and> exec_table_get t j tab' =
        (if j = i \<and> unat i < length (tab_elements tab) then Inr v else exec_table_get t j tab)"
proof -
  have i: "as_usize t i = unat i" using assms(2) by (simp add: as_usize_def)
  have eq: "unat i = unat j \<longleftrightarrow> j = i" by (auto simp: word_unat_eq_iff)
  show ?thesis
    using assms i eq
    by (cases "unat i < length (tab_elements tab)")
      (auto simp: exec_table_set_def table_set_untyped_def exec_table_get_def table_get_untyped_def
        try_usize_def nth_list_update split: option.splits if_splits)
qed

theorem table_set_is_read_back_witness:
  "exec_table_get esp32c3_release 1
     (snd (exec_table_set esp32c3_release 1 9 \<lparr>tab_ty = \<lparr>tt_element = TyFuncRef, tt_min = 2,
        tt_max = None, tt_index_ty = I32\<rparr>, tab_elements = [0, 0]\<rparr>)) = Inr 9"
  using table_set_is_read_back [of esp32c3_release 1 9 "\<lparr>tab_ty = \<lparr>tt_element = TyFuncRef, tt_min = 2,
        tt_max = None, tt_index_ty = I32\<rparr>, tab_elements = [0, 0]\<rparr>" "fst (exec_table_set esp32c3_release 1 9
        \<lparr>tab_ty = \<lparr>tt_element = TyFuncRef, tt_min = 2, tt_max = None, tt_index_ty = I32\<rparr>, tab_elements = [0, 0]\<rparr>)"
      "snd (exec_table_set esp32c3_release 1 9 \<lparr>tab_ty = \<lparr>tt_element = TyFuncRef, tt_min = 2,
        tt_max = None, tt_index_ty = I32\<rparr>, tab_elements = [0, 0]\<rparr>)" 1]
  by (simp add: esp32c3_release_def)

text \<open>
  On the 32-bit boards an index of a 64-bit table that does not fit is cut down instead: a guest
  that writes at index 4294967296 changes element 0 where it should trap, while reading at that
  index does trap.
\<close>

definition wide_table :: table where
  "wide_table = \<lparr>tab_ty = \<lparr>tt_element = TyFuncRef, tt_min = 1, tt_max = None, tt_index_ty = I64\<rparr>,
     tab_elements = [0]\<rparr>"

lemma wide_index_is_cut_down:
  "exec_table_set esp32c3_release 4294967296 9 wide_table = (Inr (), wide_table\<lparr>tab_elements := [9]\<rparr>)
   \<and> exec_table_get esp32c3_release 4294967296 wide_table = Inl (EK_TrapCode TableOutOfBounds)"
  by (simp add: exec_table_set_def table_set_untyped_def as_usize_def exec_table_get_def
      table_get_untyped_def try_usize_def esp32c3_release_def wide_table_def)

text \<open>
  An out-of-bounds \<open>table.copy\<close> is the one table error that carries no trap code.
\<close>

lemma copy_error_has_no_trap_code:
  "as_trap_code (EK_Table CopyOutOfBounds) = None"
  "as_trap_code (EK_Table FillOutOfBounds) = Some TableOutOfBounds"
  by simp_all

text \<open>
  \<open>table.copy\<close> within a table never panics. It fails exactly when a region leaves the table,
  stops when the fuel does not cover the elements, and otherwise moves the elements as if through
  a buffer, also between overlapping regions, and touches no other element.
\<close>
theorem table_copy_correct:
  assumes "table_ok t tab"
  shows "\<exists>r tab' fu'. exec_table_copy_within t dst src len tab fu = Ok (r, tab', fu')
    \<and> tab_ty tab' = tab_ty tab \<and> length (tab_elements tab') = length (tab_elements tab)
    \<and> (r \<noteq> Inr () \<longrightarrow> tab' = tab)
    \<and> (r = Inl (EK_Table CopyOutOfBounds) \<longleftrightarrow>
         length (tab_elements tab) < max (unat dst) (unat src) + unat len)
    \<and> (r = Inr () \<longrightarrow> (\<forall>i < length (tab_elements tab). tab_elements tab' ! i =
         (if unat dst \<le> i \<and> i < unat dst + unat len
          then tab_elements tab ! (unat src + (i - unat dst)) else tab_elements tab ! i)))"
proof (cases "length (tab_elements tab) < max (unat dst) (unat src) + unat len")
  case True
  then show ?thesis
    by (simp add: exec_table_copy_within_def raise_table_error_def table_copy_within_cases [OF assms])
next
  case False
  then have d: "unat dst + unat len \<le> length (tab_elements tab)"
    and s: "unat src + unat len \<le> length (tab_elements tab)" by simp_all
  have l: "length (take (unat len) (drop (unat src) (tab_elements tab))) = unat len"
    using s by simp
  show ?thesis
    using False d s
    by (cases rule: pay_values_cases [of len "Some fu"])
      (auto simp: exec_table_copy_within_def raise_table_error_def table_copy_within_cases [OF assms]
        length_put_window nth_put_window l)
qed

theorem table_copy_correct_witness:
  "\<exists>r tab' fu'. exec_table_copy_within esp32c3_release 0 0 1 wide_table
       \<lparr>remaining = 7, enabled = True, costs = \<lparr>custom = None\<rparr>\<rparr> = Ok (r, tab', fu')
     \<and> r \<noteq> Inl (EK_Table CopyOutOfBounds)"
proof -
  have "table_ok esp32c3_release wide_table"
    by (simp add: table_ok_def wide_table_def valid_table_type_def index_max_size_def
        esp32c3_release_def)
  from table_copy_correct [OF this, of 0 0 1 "\<lparr>remaining = 7, enabled = True, costs = \<lparr>custom = None\<rparr>\<rparr>"]
  show ?thesis by (auto simp: wide_table_def)
qed

end
