(* ===== verification/Module_Imports.thy ===== *)
theory Module_Imports
  imports Wasm_Parser Table_Ops
begin

unbundle bit_operations_syntax

text \<open>
  How the wasm engine gets from the bytes of a module to the list of its imports: the loop over
  the payloads before the code (\<open>patches/wasmi/src/module/parser/buffered.rs\<close>), the conversion of
  the parser's types (\<open>module/utils.rs\<close>, \<open>module/import.rs\<close>) with its panics, and the module header
  under construction (\<open>module/builder.rs\<close>). What the validator and the builder do with the other
  payloads is an argument, \<open>process\<close>, over their state.
\<close>

section \<open>Types\<close>

record func_type =
  ft_params :: "core_val_type list"
  ft_results :: "core_val_type list"

datatype mutability = Const | Var

record global_type =
  gt_content :: core_val_type
  gt_mutability :: mutability

text \<open>\<open>from_wasmparser\<close> and \<open>WasmiValueType::from\<close>.\<close>

definition core_of_ref_type :: "ref_type \<Rightarrow> core_val_type outcome" where
  "core_of_ref_type ty =
     (if ty = RefType True (HtAbstract False HtFunc) then Ok TyFuncRef
      else if ty = RefType True (HtAbstract False HtExtern) then Ok TyExternRef
      else Panic)"

definition core_of_val_type :: "val_type \<Rightarrow> core_val_type outcome" where
  "core_of_val_type ty = (case ty of
     VtI32 \<Rightarrow> Ok TyI32 | VtI64 \<Rightarrow> Ok TyI64 | VtF32 \<Rightarrow> Ok TyF32 | VtF64 \<Rightarrow> Ok TyF64
   | VtV128 \<Rightarrow> Ok TyV128 | VtRef r \<Rightarrow> core_of_ref_type r)"

definition try_u32 :: "u64 \<Rightarrow> u32 option" where
  "try_u32 x = (if unat x < 2 ^ 32 then Some (ucast x) else None)"

definition table_type_from :: "wp_table_type \<Rightarrow> table_type outcome" where
  "table_type_from ty =
     and_then (core_of_ref_type (wt_element_type ty)) (\<lambda>element.
       if wt_table64 ty then table_type_new64 element (wt_initial ty) (wt_maximum ty)
       else (case try_u32 (wt_initial ty) of
               None \<Rightarrow> Panic
             | Some minimum \<Rightarrow>
                 (case wt_maximum ty of
                    None \<Rightarrow> table_type_new element minimum None
                  | Some mx \<Rightarrow>
                      (case try_u32 mx of
                         None \<Rightarrow> Panic
                       | Some mx \<Rightarrow> table_type_new element minimum (Some mx)))))"

definition memory_type_from :: "wp_memory_type \<Rightarrow> memory_type outcome" where
  "memory_type_from ty =
     (if wm_shared ty then Panic
      else
        let b = set_min (wm_initial ty) memory_type_builder;
            b = set_max (wm_maximum ty) b;
            b = set_memory64 (wm_memory64 ty) b;
            build = (\<lambda>b. case build_memory_type b of Inr ty \<Rightarrow> Ok ty | Inl _ \<Rightarrow> Panic)
        in (case wm_page_size_log2 ty of
              None \<Rightarrow> build b
            | Some p \<Rightarrow> if unat p < 256 then build (set_page_size_log2 (ucast p) b) else Panic))"

definition global_type_from :: "wp_global_type \<Rightarrow> global_type outcome" where
  "global_type_from ty =
     and_then (core_of_val_type (wg_content_type ty)) (\<lambda>content.
       Ok \<lparr>gt_content = content, gt_mutability = (if wg_mutable ty then Var else Const)\<rparr>)"

section \<open>Imports\<close>

record import_name =
  in_module :: string
  in_field :: string

definition import_name_display :: "import_name \<Rightarrow> string" where
  "import_name_display n = in_module n @ ''::'' @ in_field n"

datatype extern_type_idx =
  EtiFunc u32 | EtiTable table_type | EtiMemory memory_type | EtiGlobal global_type

definition import_from :: "wp_import \<Rightarrow> (import_name \<times> extern_type_idx) outcome" where
  "import_from i =
     and_then (case wi_ty i of
         TrFunc ty \<Rightarrow> Ok (EtiFunc ty)
       | TrTable ty \<Rightarrow> and_then (table_type_from ty) (\<lambda>ty. Ok (EtiTable ty))
       | TrMemory ty \<Rightarrow> and_then (memory_type_from ty) (\<lambda>ty. Ok (EtiMemory ty))
       | TrGlobal ty \<Rightarrow> and_then (global_type_from ty) (\<lambda>ty. Ok (EtiGlobal ty))
       | TrTag _ \<Rightarrow> Panic)
     (\<lambda>kind. Ok (\<lparr>in_module = wi_module i, in_field = wi_name i\<rparr>, kind))"

text \<open>The imports of the header under construction, with the types they are declared at.\<close>

record header_imports =
  hi_funcs :: "(import_name \<times> func_type) list"
  hi_tables :: "(import_name \<times> table_type) list"
  hi_memories :: "(import_name \<times> memory_type) list"
  hi_globals :: "(import_name \<times> global_type) list"

definition no_imports :: header_imports where
  "no_imports = \<lparr>hi_funcs = [], hi_tables = [], hi_memories = [], hi_globals = []\<rparr>"

definition push_import ::
  "func_type list \<Rightarrow> import_name \<times> extern_type_idx \<Rightarrow> header_imports \<Rightarrow> header_imports outcome" where
  "push_import func_types i h = (case i of (name, kind) \<Rightarrow>
     (case kind of
        EtiFunc idx \<Rightarrow> and_then (index func_types (unat idx)) (\<lambda>ty.
          Ok (h\<lparr>hi_funcs := hi_funcs h @ [(name, ty)]\<rparr>))
      | EtiTable ty \<Rightarrow> Ok (h\<lparr>hi_tables := hi_tables h @ [(name, ty)]\<rparr>)
      | EtiMemory ty \<Rightarrow> Ok (h\<lparr>hi_memories := hi_memories h @ [(name, ty)]\<rparr>)
      | EtiGlobal ty \<Rightarrow> Ok (h\<lparr>hi_globals := hi_globals h @ [(name, ty)]\<rparr>)))"

text \<open>\<open>Error::from\<close> of a parser's error keeps its text.\<close>

definition reader_error_display :: "reader_error \<Rightarrow> string" where
  "reader_error_display e = re_message e @ '' (at offset 0x'' @ hex_nat (re_offset e) @ '')''"

definition wasm_error_of :: "reader_error \<Rightarrow> error_kind" where
  "wasm_error_of e = EK_Wasm (reader_error_display e)"

fun push_imports_loop ::
  "target \<Rightarrow> func_type list \<Rightarrow> nat \<Rightarrow> reader \<Rightarrow> header_imports \<Rightarrow> (error_kind + header_imports) outcome" where
  "push_imports_loop t func_types 0 r h =
     Ok (if rd_eof r then Inr h
         else Inl (wasm_error_of (error_new
                ''section size mismatch: unexpected data at the end of the section''
                (original_position r))))"
| "push_imports_loop t func_types (Suc n) r h =
     and_then (read_import t r) (\<lambda>x. case x of
       Inl e \<Rightarrow> Ok (Inl (wasm_error_of e))
     | Inr (i, r) \<Rightarrow>
         and_then (import_from i) (\<lambda>i.
         and_then (push_import func_types i h) (\<lambda>h.
           push_imports_loop t func_types n r h)))"

definition push_imports ::
  "target \<Rightarrow> func_type list \<Rightarrow> section_limited \<Rightarrow> header_imports \<Rightarrow> (error_kind + header_imports) outcome" where
  "push_imports t func_types s h =
     push_imports_loop t func_types (unat (sec_count s)) (sec_reader s) h"

section \<open>The loop over the header\<close>

text \<open>
  The state of the module parser: its parser, what is left of the buffer, the imports, and the
  state of the validator and of the rest of the builder, from which the function types are read.
\<close>

record 's module_parser =
  mp_parser :: parser
  mp_buffer :: bytes
  mp_imports :: header_imports
  mp_rest :: 's

type_synonym 's process = "parsed \<Rightarrow> 's \<Rightarrow> (error_kind + 's) outcome"

definition next_payload ::
  "target \<Rightarrow> bytes \<Rightarrow> parser \<Rightarrow> (error_kind + nat \<times> parsed \<times> parser) outcome" where
  "next_payload t buffer p =
     and_then (parse t buffer True p) (\<lambda>x. case x of
       Inl e \<Rightarrow> Ok (Inl (wasm_error_of e))
     | Inr (Parsed consumed payload, p) \<Rightarrow> Ok (Inr (consumed, payload, p))
     | Inr (NeedMoreData _, p) \<Rightarrow> Panic)"

definition consume_buffer :: "nat \<Rightarrow> bytes \<Rightarrow> bytes outcome" where
  "consume_buffer consumed buffer = slice_from buffer consumed"

text \<open>The payloads that end the loop: consumed, or left for the next one.\<close>

fun is_import_section :: "parsed \<Rightarrow> bool" where
  "is_import_section (PSection i s) = (i = 2)"
| "is_import_section _ = False"

fun ends_header :: "parsed \<Rightarrow> bool" where
  "ends_header (PCodeSectionStart _ _) = True"
| "ends_header (PSection i _) = (i = 11)"
| "ends_header (PEnd _) = True"
| "ends_header _ = False"

definition process_imports ::
  "target \<Rightarrow> 's process \<Rightarrow> ('s \<Rightarrow> func_type list) \<Rightarrow> section_limited \<Rightarrow> header_imports \<Rightarrow> 's \<Rightarrow>
   (error_kind + header_imports \<times> 's) outcome" where
  "process_imports t process func_types s h rest =
     and_then (process (PSection 2 s) rest) (\<lambda>x. case x of
       Inl e \<Rightarrow> Ok (Inl e)
     | Inr rest \<Rightarrow>
         and_then (push_imports t (func_types rest) s h) (\<lambda>y. Ok (case y of
           Inl e \<Rightarrow> Inl e | Inr h \<Rightarrow> Inr (h, rest))))"

text \<open>One payload of the loop: an error, the end of the loop, or the state to go on from.\<close>

definition header_step ::
  "target \<Rightarrow> 's process \<Rightarrow> ('s \<Rightarrow> func_type list) \<Rightarrow> 's module_parser \<Rightarrow>
   (error_kind + 's module_parser + 's module_parser) outcome" where
  "header_step t process func_types mp =
     and_then (next_payload t (mp_buffer mp) (mp_parser mp)) (\<lambda>x. case x of
       Inl e \<Rightarrow> Ok (Inl e)
     | Inr (consumed, payload, p) \<Rightarrow>
         (let mp = mp\<lparr>mp_parser := p\<rparr>
          in case payload of
               PCodeSectionStart _ _ \<Rightarrow>
                 and_then (process payload (mp_rest mp)) (\<lambda>x. case x of
                   Inl e \<Rightarrow> Ok (Inl e)
                 | Inr rest \<Rightarrow> and_then (consume_buffer consumed (mp_buffer mp)) (\<lambda>buffer.
                     Ok (Inr (Inl (mp\<lparr>mp_buffer := buffer, mp_rest := rest\<rparr>)))))
             | PEnd _ \<Rightarrow> Ok (Inr (Inl mp))
             | PSection i s \<Rightarrow>
                 if i = 11 then Ok (Inr (Inl mp))
                 else if i = 2 then
                   and_then (process_imports t process func_types s (mp_imports mp) (mp_rest mp)) (\<lambda>x. case x of
                     Inl e \<Rightarrow> Ok (Inl e)
                   | Inr (h, rest) \<Rightarrow> and_then (consume_buffer consumed (mp_buffer mp)) (\<lambda>buffer.
                       Ok (Inr (Inr (mp\<lparr>mp_buffer := buffer, mp_imports := h, mp_rest := rest\<rparr>)))))
                 else
                   and_then (process payload (mp_rest mp)) (\<lambda>x. case x of
                     Inl e \<Rightarrow> Ok (Inl e)
                   | Inr rest \<Rightarrow> and_then (consume_buffer consumed (mp_buffer mp)) (\<lambda>buffer.
                       Ok (Inr (Inr (mp\<lparr>mp_buffer := buffer, mp_rest := rest\<rparr>)))))
             | _ \<Rightarrow>
                 and_then (process payload (mp_rest mp)) (\<lambda>x. case x of
                   Inl e \<Rightarrow> Ok (Inl e)
                 | Inr rest \<Rightarrow> and_then (consume_buffer consumed (mp_buffer mp)) (\<lambda>buffer.
                     Ok (Inr (Inr (mp\<lparr>mp_buffer := buffer, mp_rest := rest\<rparr>)))))))"

partial_function (option) header_loop ::
  "target \<Rightarrow> 's process \<Rightarrow> ('s \<Rightarrow> func_type list) \<Rightarrow> 's module_parser \<Rightarrow>
   (error_kind + 's module_parser) outcome option" where
  "header_loop t process func_types mp =
     (case header_step t process func_types mp of
        Ok (Inl e) \<Rightarrow> Some (Ok (Inl e))
      | Ok (Inr (Inl mp')) \<Rightarrow> Some (Ok (Inr mp'))
      | Ok (Inr (Inr mp')) \<Rightarrow> header_loop t process func_types mp'
      | Panic \<Rightarrow> Some Panic
      | Diverges \<Rightarrow> Some Diverges)"

text \<open>\<open>ModuleParser::new\<close> on a module: what the configuration says of the features is kept as one flag.\<close>

definition module_parser_new :: "bool \<Rightarrow> bytes \<Rightarrow> 's \<Rightarrow> 's module_parser" where
  "module_parser_new shared_everything_threads wasm rest =
     \<lparr>mp_parser = set_features shared_everything_threads (parser_new 0), mp_buffer = wasm,
      mp_imports = no_imports, mp_rest = rest\<rparr>"

definition parse_buffered_header ::
  "target \<Rightarrow> 's process \<Rightarrow> ('s \<Rightarrow> func_type list) \<Rightarrow> bool \<Rightarrow> bytes \<Rightarrow> 's \<Rightarrow>
   (error_kind + 's module_parser) outcome" where
  "parse_buffered_header t process func_types features wasm rest =
     (case header_loop t process func_types (module_parser_new features wasm rest) of
        Some r \<Rightarrow> r | None \<Rightarrow> Diverges)"

end
