(* ===== verification/Import_Decoding.thy ===== *)
theory Import_Decoding
  imports Module_Imports Validation
begin

unbundle bit_operations_syntax

text \<open>
  The receiver's own import check (\<open>Validation\<close>) and the wasm engine's parser
  (\<open>Module_Imports\<close>) read the same bytes with two different readers. This theory relates them
  piece by piece: integers, names, descriptors, the entries of an import section and the section
  itself.
\<close>

section \<open>A reader inside the module\<close>

definition embedded :: "bytes \<Rightarrow> nat \<Rightarrow> reader \<Rightarrow> bool" where
  "embedded wasm base r \<longleftrightarrow> base + length (rd_buffer r) \<le> length wasm
     \<and> rd_position r \<le> length (rd_buffer r)
     \<and> take (length (rd_buffer r)) (drop base wasm) = rd_buffer r"

lemma embedded_moved: "embedded wasm base r \<Longrightarrow> moved r r' \<Longrightarrow> embedded wasm base r'"
  by (auto simp: embedded_def moved_def)

lemma embedded_nth:
  "embedded wasm base r \<Longrightarrow> q < length (rd_buffer r) \<Longrightarrow> rd_buffer r ! q = wasm ! (base + q)"
  unfolding embedded_def by (metis add_leD1 nth_drop nth_take)

lemma embedded_slice:
  assumes "embedded wasm base r" and "b \<le> length (rd_buffer r)"
  shows "take (b - a) (drop a (rd_buffer r)) = take (b - a) (drop (base + a) wasm)"
proof -
  have "take (b - a) (drop a (rd_buffer r)) = take (b - a) (drop a (take (length (rd_buffer r)) (drop base wasm)))"
    using assms(1) by (simp add: embedded_def)
  also have "\<dots> = take (b - a) (drop (base + a) wasm)"
    using assms(2) by (simp add: drop_take add.commute min_absorb1)
  finally show ?thesis .
qed

lemma embedded_u8:
  assumes "embedded wasm base r" and "read_u8 r = Ok (Inr (b, r'))"
  shows "base + rd_position r < length wasm" "wasm ! (base + rd_position r) = b"
    "rd_position r' = Suc (rd_position r)" "embedded wasm base r'"
proof -
  have p: "rd_position r < length (rd_buffer r)" "b = rd_buffer r ! rd_position r"
    "r' = r\<lparr>rd_position := Suc (rd_position r)\<rparr>"
    using read_u8_step [OF assms(2)] by simp_all
  show "base + rd_position r < length wasm" using assms(1) p(1) by (simp add: embedded_def)
  show "wasm ! (base + rd_position r) = b" using embedded_nth [OF assms(1) p(1)] p(2) by simp
  show "rd_position r' = Suc (rd_position r)" using p(3) by simp
  show "embedded wasm base r'" by (rule embedded_moved [OF assms(1) read_u8_moved [OF assms(2)]])
qed

section \<open>LEB128\<close>

lemma small_byte: "drop_bit 4 (b :: u8) = 0 \<Longrightarrow> b AND 0x80 = 0"
proof -
  assume "drop_bit 4 b = 0"
  then have "unat (drop_bit 4 b) = 0" by simp
  then have "drop_bit 4 (unat b) = 0" by (simp only: unat_drop_bit_eq)
  then have "unat b < 16" by (simp add: drop_bit_eq_div div_eq_0_iff)
  then show ?thesis unfolding and_80_eq_0 by simp
qed

lemma bytes_7F:
  assumes "(b :: u8) AND 0x80 = 0"
  shows "b AND 0x7F = b"
proof -
  have "unat b < 128" using assms by (simp only: and_80_eq_0)
  then have "unat (b AND 0x7F) = unat b" by (simp only: unat_and_7F mod_less)
  then show ?thesis by (simp only: word_unat_eq_iff)
qed

lemma var_u32_loop_leb:
  assumes "embedded wasm base r" and "k \<le> base + rd_position r"
    and "7 dvd shift" and "shift \<le> 28"
    and "var_u32_loop result shift r = Ok (Inr (v, r'))"
  shows "leb_loop (drop k wasm) result shift (base + rd_position r - k) = (v, base + rd_position r' - k)"
  using assms
proof (induction result shift r rule: var_u32_loop.induct)
  case (1 result shift r)
  obtain b s where u: "read_u8 r = Ok (Inr (b, s))"
    using "1.prems"(5) by (subst (asm) var_u32_loop.simps) (auto split: outcome.splits sum.splits)
  note E = embedded_u8 [OF "1.prems"(1) u]
  let ?j = "base + rd_position r - k" and ?res = "result OR push_bit shift (ucast (b AND 0x7F))"
  have j: "?j < length (drop k wasm)" "drop k wasm ! ?j = b"
    using E(1,2) "1.prems"(2) by simp_all
  have sj: "?j + 1 = base + rd_position s - k" using E(3) "1.prems"(2) by simp
  have ok: "\<not> (shift \<ge> 25 \<and> drop_bit (32 - shift) b \<noteq> 0)"
    using "1.prems"(5) u by (subst (asm) var_u32_loop.simps) (auto simp: Let_def split: if_splits)
  show ?case
  proof (cases "b AND 0x80 = 0")
    case True
    then have "v = ?res" "r' = s"
      using "1.prems"(5) u ok by (subst (asm) var_u32_loop.simps, auto simp: Let_def split: if_splits)+
    then show ?thesis using True j sj by (subst leb_loop.simps) (simp add: Let_def)
  next
    case False
    have sh: "shift \<le> 21"
    proof (rule ccontr)
      assume "\<not> shift \<le> 21"
      then have "shift = 28" using "1.prems"(3,4) by presburger
      then show False using ok small_byte [of b] False by simp
    qed
    have rec: "var_u32_loop ?res (shift + 7) s = Ok (Inr (v, r'))"
      using "1.prems"(5) u ok False by (subst (asm) var_u32_loop.simps) (auto simp: Let_def)
    have "leb_loop (drop k wasm) ?res (shift + 7) (base + rd_position s - k) = (v, base + rd_position r' - k)"
      by (rule "1.IH" [OF u _ _ refl ok False]) (use sh rec E "1.prems" in auto)
    then show ?thesis using False j sj sh by (subst leb_loop.simps) (simp add: Let_def)
  qed
qed

text \<open>Where the engine reads a \<open>u32\<close>, the check reads the same number and moves as far.\<close>

lemma read_leb_at_agrees:
  assumes emb: "embedded wasm base r" and v: "read_var_u32 r = Ok (Inr (v, r'))"
    and len: "length wasm < 2 ^ usize_bits t"
  shows "read_leb_at t wasm (base + rd_position r) = Ok (v, base + rd_position r')" "embedded wasm base r'"
proof -
  obtain b s where u: "read_u8 r = Ok (Inr (b, s))"
    by (rule rd_bind_Ok [OF v [unfolded read_var_u32_def]])
  note E = embedded_u8 [OF emb u]
  let ?k = "base + rd_position r"
  have m: "moved r r'" using moves_read_var(1) [of r] v by simp
  show emb': "embedded wasm base r'" by (rule embedded_moved [OF emb m])
  have le: "?k \<le> base + rd_position r'" using moved_fields(4) [OF m] by simp
  have b: "drop ?k wasm ! 0 = b" "0 < length (drop ?k wasm)" using E(1,2) by simp_all
  have leb: "read_leb128_u32 (drop ?k wasm) = (v, base + rd_position r' - ?k)"
  proof (cases "b AND 0x80 = 0")
    case True
    then have "v = ucast b" "r' = s" using v u by (auto simp: read_var_u32_def rd_bind_def rd_return_def)
    then show ?thesis using True b E(3) bytes_7F [OF True]
      by (simp add: read_leb128_u32_def leb_loop.simps [of _ 0 0 0] Let_def)
  next
    case False
    then have L: "var_u32_loop (ucast (b AND 0x7F)) 7 s = Ok (Inr (v, r'))"
      using v u by (simp add: read_var_u32_def rd_bind_def)
    have "leb_loop (drop ?k wasm) (ucast (b AND 0x7F)) 7 (base + rd_position s - ?k)
        = (v, base + rd_position r' - ?k)"
      by (rule var_u32_loop_leb [OF E(4) _ _ _ L]) (use E(3) in simp_all)
    then show ?thesis using False b E(3)
      by (simp add: read_leb128_u32_def leb_loop.simps [of _ 0 0 0] Let_def)
  qed
  have "base + rd_position r' \<le> length wasm" using emb' by (simp add: embedded_def)
  then show "read_leb_at t wasm ?k = Ok (v, base + rd_position r')"
    using leb le E(1) len by (simp add: read_leb_at_def slice_from_def)
qed

section \<open>Names\<close>

text \<open>The targets are at least 32 bits wide, so that a slice the engine reads did not wrap.\<close>

lemma read_bytes_span:
  assumes "read_bytes t n r = Ok (Inr (bs, r'))" and "n < 2 ^ usize_bits t"
    and "rd_position r < 2 ^ usize_bits t"
  shows "rd_position r' = rd_position r + n" "rd_position r + n \<le> length (rd_buffer r)"
    "bs = take n (drop (rd_position r) (rd_buffer r))" "rd_position r + n < 2 ^ usize_bits t"
proof -
  obtain s where e: "ensure_has_bytes t n r = Ok (Inr ((), s))"
    and f: "and_then (usize_add t (rd_position s) n) (\<lambda>stop.
       and_then (slice_range (rd_buffer s) (rd_position s) stop) (\<lambda>bs.
         Ok (Inr (bs, s\<lparr>rd_position := stop\<rparr>)))) = (Ok (Inr (bs, r')) :: (reader_error + _) outcome)"
    by (rule rd_bind_Ok [OF assms(1) [unfolded read_bytes_def]]) simp
  have s: "s = r"
    using e by (auto simp: ensure_has_bytes_def and_then_eq_Ok split: if_splits)
  have w: "rd_position r + n < 2 ^ usize_bits t"
  proof (rule ccontr)
    assume big: "\<not> rd_position r + n < 2 ^ usize_bits t"
    then have "usize_add t (rd_position r) n = Panic
      \<or> usize_add t (rd_position r) n = Ok (rd_position r + n - 2 ^ usize_bits t)"
      using assms(2,3) by (auto simp: usize_add_def mod_if)
    then show False using f s assms(2,3) big by (auto simp: slice_range_def split: if_splits)
  qed
  show "rd_position r + n < 2 ^ usize_bits t" by (rule w)
  show "rd_position r' = rd_position r + n" "rd_position r + n \<le> length (rd_buffer r)"
    "bs = take n (drop (rd_position r) (rd_buffer r))"
    using f s w by (auto simp: slice_range_def split: if_splits)
qed

lemma read_name_agrees:
  assumes emb: "embedded wasm base r" and v: "read_string t r = Ok (Inr (n, r'))"
    and len: "length wasm < 2 ^ usize_bits t" and t: "32 \<le> usize_bits t"
  shows "read_name t wasm (base + rd_position r) = Ok (n, base + rd_position r')" "embedded wasm base r'"
proof -
  obtain l s where l: "read_var_u32 r = Ok (Inr (l, s))"
    and w: "(if unat l > MAX_WASM_STRING_SIZE
       then Ok (Inl (error_new ''string size out of bounds'' (original_position s - 1)))
       else internal_read_string t (unat l) s) = Ok (Inr (n, r'))"
    by (rule rd_bind_Ok [OF v [unfolded read_string_def]])
  note L = read_leb_at_agrees [OF emb l len]
  have w2: "internal_read_string t (unat l) s = Ok (Inr (n, r'))"
    using w by (simp split: if_splits)
  obtain bs u where bs: "read_bytes t (unat l) s = Ok (Inr (bs, u))"
    and d: "(case from_utf8 bs of Some z \<Rightarrow> Ok (Inr (z, u))
       | None \<Rightarrow> Ok (Inl (error_new ''malformed UTF-8 encoding'' (original_position u - 1)))) = Ok (Inr (n, r'))"
    by (rule rd_bind_Ok [OF w2 [unfolded internal_read_string_def]])
  have n: "from_utf8 bs = Some n" "u = r'" using d by (auto split: option.splits)
  have "(2 :: nat) ^ 32 \<le> 2 ^ usize_bits t" using t by (rule power_increasing) simp
  then have lt: "unat l < 2 ^ usize_bits t" by (rule order_less_le_trans [rotated]) simp
  have e: "rd_position s \<le> length (rd_buffer s)" "base + length (rd_buffer s) \<le> length wasm"
    using L(2) by (simp_all add: embedded_def)
  have "rd_position s < 2 ^ usize_bits t" using e len by linarith
  note B = read_bytes_span [OF bs lt this]
  have m: "moved s u" using moves_read_bytes [of s t "unat l"] bs by simp
  show "embedded wasm base r'" using embedded_moved [OF L(2) m] n(2) by simp
  have sl: "bs = take (unat l) (drop (base + rd_position s) wasm)"
    using embedded_slice [OF L(2) B(2), of "rd_position s"] B(3) by simp
  have "base + rd_position s + unat l \<le> length wasm" using B(2) e by linarith
  then show "read_name t wasm (base + rd_position r) = Ok (n, base + rd_position r')"
    using len n B(1) sl by (simp add: read_name_def L(1) slice_range_def add.assoc)
qed

section \<open>Descriptors\<close>

text \<open>The descriptors the check skips correctly, as the engine decodes them.\<close>

fun plain_type :: "type_ref \<Rightarrow> bool" where
  "plain_type (TrFunc idx) = True"
| "plain_type (TrMemory ty) = (\<not> wm_memory64 ty \<and> wm_page_size_log2 ty = None)"
| "plain_type (TrGlobal ty) = (\<forall>r. wg_content_type ty \<noteq> VtRef r)"
| "plain_type _ = False"

fun is_func_type :: "type_ref \<Rightarrow> bool" where
  "is_func_type (TrFunc idx) = True"
| "is_func_type _ = False"

lemma read_external_kind_byte:
  assumes "read_external_kind r = Ok (Inr (k, r'))"
  obtains b where "read_u8 r = Ok (Inr (b, r'))"
    "b = (case k of KFunc \<Rightarrow> 0 | KTable \<Rightarrow> 1 | KMemory \<Rightarrow> 2 | KGlobal \<Rightarrow> 3 | KTag \<Rightarrow> 4)"
proof -
  obtain b s where u: "read_u8 r = Ok (Inr (b, s))"
    and e: "Ok (case external_kind_from_byte b (original_position r) of Inl e \<Rightarrow> Inl e | Inr k \<Rightarrow> Inr (k, s))
      = Ok (Inr (k, r'))"
    by (rule rd_bind_Ok [OF assms [unfolded read_external_kind_def Let_def]])
  have k: "external_kind_from_byte b (original_position r) = Inr k" "s = r'"
    using e by (simp_all split: sum.splits)
  then show thesis using u that by (auto simp: external_kind_from_byte_def split: if_splits)
qed

text \<open>A global of a number type: one byte for the type and one for the mutability.\<close>

lemma read_global_type_two_bytes:
  assumes "read_global_type r = Ok (Inr (ty, r'))" and "\<forall>q. wg_content_type ty \<noteq> VtRef q"
  obtains a s b where "read_u8 r = Ok (Inr (a, s))" "read_u8 s = Ok (Inr (b, r'))"
proof -
  obtain c s where c: "read_val_type r = Ok (Inr (c, s))"
    and g: "rd_bind read_u8 (\<lambda>flags r.
       if rd_shared_everything_threads r \<and> flags > 3
       then Ok (Inl (error_new ''malformed global flags'' (original_position r - 1)))
       else if \<not> rd_shared_everything_threads r \<and> flags > 1
       then Ok (Inl (error_new
              (''malformed mutability -- or shared globals '' @
               ''require the shared-everything-threads proposal'') (original_position r - 1)))
       else Ok (Inr (\<lparr>wg_content_type = c, wg_mutable = flags AND 1 > 0,
                      wg_shared = flags AND 2 > 0\<rparr>, r))) s = Ok (Inr (ty, r'))"
    by (rule rd_bind_Ok [OF assms(1) [unfolded read_global_type_def]])
  obtain b u where b: "read_u8 s = Ok (Inr (b, u))"
    and bu: "(if rd_shared_everything_threads u \<and> b > 3
       then Ok (Inl (error_new ''malformed global flags'' (original_position u - 1)))
       else if \<not> rd_shared_everything_threads u \<and> b > 1
       then Ok (Inl (error_new
              (''malformed mutability -- or shared globals '' @
               ''require the shared-everything-threads proposal'') (original_position u - 1)))
       else Ok (Inr (\<lparr>wg_content_type = c, wg_mutable = b AND 1 > 0,
                      wg_shared = b AND 2 > 0\<rparr>, u))) = Ok (Inr (ty, r'))"
    by (rule rd_bind_Ok [OF g])
  have "wg_content_type ty = c" "u = r'" using bu by (auto split: if_splits)
  then have nref: "\<forall>q. c \<noteq> VtRef q" using assms(2) by simp
  have "\<exists>a. read_u8 r = Ok (Inr (a, s))"
  proof -
    obtain p u where p: "peek r = Ok (Inr (p, u))" and rest:
      "(if p = 0x7F then rd_bind read_u8 (\<lambda>_. rd_return VtI32)
     else if p = 0x7E then rd_bind read_u8 (\<lambda>_. rd_return VtI64)
     else if p = 0x7D then rd_bind read_u8 (\<lambda>_. rd_return VtF32)
     else if p = 0x7C then rd_bind read_u8 (\<lambda>_. rd_return VtF64)
     else if p = 0x7B then rd_bind read_u8 (\<lambda>_. rd_return VtV128)
     else rd_bind (rd_map_err (reclassify ''invalid value type'') read_ref_type)
            (\<lambda>ty. rd_return (VtRef ty))) u = Ok (Inr (c, s))"
      by (rule rd_bind_Ok [OF c [unfolded read_val_type_def]])
    have u: "u = r" using p by (auto simp: peek_def rd_bind_def ensure_has_byte_def and_then_eq_Ok
          split: if_splits)
    have one: "\<exists>a. read_u8 r = Ok (Inr (a, s))"
      if "rd_bind read_u8 (\<lambda>_. rd_return x) r = Ok (Inr (c, s))" for x
      by (rule rd_bind_Ok [OF that]) (auto simp: rd_return_def)
    have noref: False
      if "rd_bind (rd_map_err (reclassify ''invalid value type'') read_ref_type)
            (\<lambda>ty. rd_return (VtRef ty)) r = Ok (Inr (c, s))"
      by (rule rd_bind_Ok [OF that]) (use nref in \<open>auto simp: rd_return_def\<close>)
    show ?thesis using rest one noref unfolding u by (simp split: if_splits)
  qed
  then show thesis using b \<open>u = r'\<close> that by blast
qed

lemma read_optional_None:
  assumes "read_optional b q r = Ok (Inr (None, r'))"
  shows "\<not> b" "r' = r"
proof -
  show b: "\<not> b"
  proof
    assume b
    then have "rd_bind q (\<lambda>x. rd_return (Some x)) r = Ok (Inr (None, r'))"
      using assms by (simp add: read_optional_def)
    then show False by (rule rd_bind_Ok) (simp add: rd_return_def)
  qed
  show "r' = r" using assms b by (simp add: read_optional_def rd_return_def)
qed

lemma read_limit_32:
  assumes "read_limit False r = Ok (Inr (n, r'))"
  obtains v where "read_var_u32 r = Ok (Inr (v, r'))"
proof -
  have "rd_bind read_var_u32 (\<lambda>n. rd_return (ucast n)) r = Ok (Inr (n, r'))"
    using assms by (simp add: read_limit_def)
  then show thesis by (rule rd_bind_Ok) (use that in \<open>simp add: rd_return_def\<close>)
qed

text \<open>A memory of the plain kind: the flags, the minimum and, if the flags say so, the maximum.\<close>

lemma read_memory_type_steps:
  assumes "read_memory_type r = Ok (Inr (ty, r'))" and "\<not> wm_memory64 ty" and "wm_page_size_log2 ty = None"
  obtains flags s mn u where "read_u8 r = Ok (Inr (flags, s))" "flags AND NOT 15 = 0"
    "read_var_u32 s = Ok (Inr (mn, u))"
    "if flags AND 1 \<noteq> 0 then \<exists>mx. read_var_u32 u = Ok (Inr (mx, r')) else r' = u"
proof -
  let ?build = "\<lambda>flags initial maximum page_size_log2.
      \<lparr>wm_memory64 = flags AND 4 \<noteq> 0, wm_shared = flags AND 2 \<noteq> 0, wm_initial = initial,
       wm_maximum = maximum, wm_page_size_log2 = page_size_log2\<rparr>"
  obtain flags s where f: "read_u8 r = Ok (Inr (flags, s))"
    and g: "(if flags AND NOT 15 \<noteq> 0
          then rd_fail (error_new ''invalid memory limits flags'' (original_position r))
          else rd_bind (read_limit (flags AND 4 \<noteq> 0)) (\<lambda>initial.
               rd_bind (read_optional (flags AND 1 \<noteq> 0) (read_limit (flags AND 4 \<noteq> 0))) (\<lambda>maximum.
               rd_bind (read_optional (flags AND 8 \<noteq> 0) read_var_u32) (\<lambda>page_size_log2.
                 rd_return (?build flags initial maximum page_size_log2))))) s = Ok (Inr (ty, r'))"
    by (rule rd_bind_Ok [OF assms(1) [unfolded read_memory_type_def Let_def]])
  have fl: "flags AND NOT 15 = 0" using g by (simp add: rd_fail_def split: if_splits)
  then have nf: "\<not> flags AND NOT 15 \<noteq> 0" by simp
  obtain i u where i: "read_limit (flags AND 4 \<noteq> 0) s = Ok (Inr (i, u))"
    and h: "rd_bind (read_optional (flags AND 1 \<noteq> 0) (read_limit (flags AND 4 \<noteq> 0))) (\<lambda>maximum.
               rd_bind (read_optional (flags AND 8 \<noteq> 0) read_var_u32) (\<lambda>page_size_log2.
                 rd_return (?build flags i maximum page_size_log2))) u = Ok (Inr (ty, r'))"
    by (rule rd_bind_Ok [OF g [unfolded if_not_P [OF nf]]])
  obtain m w where m: "read_optional (flags AND 1 \<noteq> 0) (read_limit (flags AND 4 \<noteq> 0)) u = Ok (Inr (m, w))"
    and k: "rd_bind (read_optional (flags AND 8 \<noteq> 0) read_var_u32) (\<lambda>page_size_log2.
                 rd_return (?build flags i m page_size_log2)) w = Ok (Inr (ty, r'))"
    by (rule rd_bind_Ok [OF h])
  obtain p x where p: "read_optional (flags AND 8 \<noteq> 0) read_var_u32 w = Ok (Inr (p, x))"
    and q: "rd_return (?build flags i m p) x = Ok (Inr (ty, r'))"
    by (rule rd_bind_Ok [OF k])
  have ty: "ty = ?build flags i m p" "x = r'" using q by (simp_all add: rd_return_def)
  have wide: "(flags AND 4 \<noteq> 0) = False" using assms(2) ty by simp
  have "p = None" using assms(3) ty by simp
  then have wr: "w = r'" using read_optional_None [of "flags AND 8 \<noteq> 0" read_var_u32 w x] p ty(2) by simp
  obtain mn where mn: "read_var_u32 s = Ok (Inr (mn, u))"
    using i unfolding wide by (rule read_limit_32)
  have mx: "if flags AND 1 \<noteq> 0 then \<exists>mx. read_var_u32 u = Ok (Inr (mx, r')) else r' = u"
  proof (cases "flags AND 1 \<noteq> 0")
    case True
    then have b: "rd_bind (read_limit False) (\<lambda>x. rd_return (Some x)) u = Ok (Inr (m, r'))"
      using m wr wide by (simp add: read_optional_def)
    obtain y z where y: "read_limit False u = Ok (Inr (y, z))" and z: "rd_return (Some y) z = Ok (Inr (m, r'))"
      by (rule rd_bind_Ok [OF b])
    have "z = r'" using z by (simp add: rd_return_def)
    then obtain v where "read_var_u32 u = Ok (Inr (v, r'))" using read_limit_32 [OF y] by blast
    then show ?thesis using True by auto
  next
    case False
    then show ?thesis using m wr by (simp add: read_optional_def rd_return_def)
  qed
  show thesis by (rule that [OF f fl mn mx])
qed

lemma flags_small:
  assumes "(flags :: u8) AND NOT 15 = 0"
  shows "unat flags < 128" "((ucast flags :: u32) AND 1 \<noteq> 0) = (flags AND 1 \<noteq> 0)"
proof -
  have "flags AND 0x80 = (flags AND NOT 15) AND 0x80" by (simp add: and.assoc)
  then show "unat flags < 128" using assms by (simp only: and_80_eq_0 [symmetric]) simp
  have one: "x AND 1 \<noteq> 0 \<longleftrightarrow> bit x 0" for x :: "'a :: len word"
    using and_exp_eq_0_iff_not_bit [of x 0] by simp
  show "((ucast flags :: u32) AND 1 \<noteq> 0) = (flags AND 1 \<noteq> 0)"
    unfolding one by (simp only: bit_simps) simp
qed

lemma read_leb_at_flags:
  assumes emb: "embedded wasm base r" and u: "read_u8 r = Ok (Inr (flags, s))" and f: "flags AND NOT 15 = 0"
    and len: "length wasm < 2 ^ usize_bits t"
  shows "read_leb_at t wasm (base + rd_position r) = Ok (ucast flags, base + rd_position s)"
proof -
  note E = embedded_u8 [OF emb u]
  have "drop (base + rd_position r) wasm = flags # drop (Suc (base + rd_position r)) wasm"
    using E(1,2) Cons_nth_drop_Suc [of "base + rd_position r" wasm] by simp
  then have "read_leb128_u32 (drop (base + rd_position r) wasm) = (ucast flags, 1)"
    using read_leb128_one [OF flags_small(1) [OF f]] by simp
  then show ?thesis using E(1,3) len by (simp add: read_leb_at_def slice_from_def)
qed

lemma embedded_step: "embedded wasm base r \<Longrightarrow> length wasm < 2 ^ usize_bits t \<Longrightarrow>
  n \<le> length wasm - base - rd_position r \<Longrightarrow>
  usize_add t (base + rd_position r) n = Ok (base + rd_position r + n)"
  by (rule usize_add_in) (auto simp: embedded_def)

lemma skip_memory_agrees:
  assumes emb: "embedded wasm base r" and m: "read_memory_type r = Ok (Inr (ty, r'))"
    and plain: "\<not> wm_memory64 ty" "wm_page_size_log2 ty = None"
    and len: "length wasm < 2 ^ usize_bits t"
  shows "skip_descriptor t wasm 0x02 (base + rd_position r) = Ok (base + rd_position r')"
proof (rule read_memory_type_steps [OF m plain])
  fix flags s mn u
  assume f: "read_u8 r = Ok (Inr (flags, s))" and z: "flags AND NOT 15 = 0"
    and mn: "read_var_u32 s = Ok (Inr (mn, u))"
    and mx: "if flags AND 1 \<noteq> 0 then \<exists>mx. read_var_u32 u = Ok (Inr (mx, r')) else r' = u"
  note F = read_leb_at_flags [OF emb f z len] and S = embedded_u8(4) [OF emb f]
  note M = read_leb_at_agrees [OF S mn len]
  show ?thesis
  proof (cases "flags AND 1 \<noteq> 0")
    case True
    then obtain v where v: "read_var_u32 u = Ok (Inr (v, r'))" using mx by auto
    note X = read_leb_at_agrees [OF M(2) v len]
    show ?thesis using True flags_small(2) [OF z] F M(1) X(1) by (simp add: skip_descriptor_def)
  next
    case False
    then have "r' = u" using mx by simp
    then show ?thesis using False flags_small(2) [OF z] F M(1) by (simp add: skip_descriptor_def)
  qed
qed

lemma skip_global_agrees:
  assumes emb: "embedded wasm base r" and g: "read_global_type r = Ok (Inr (ty, r'))"
    and plain: "\<forall>q. wg_content_type ty \<noteq> VtRef q" and len: "length wasm < 2 ^ usize_bits t"
  shows "skip_descriptor t wasm 0x03 (base + rd_position r) = Ok (base + rd_position r')"
proof (rule read_global_type_two_bytes [OF g plain])
  fix a s b
  assume a: "read_u8 r = Ok (Inr (a, s))" and b: "read_u8 s = Ok (Inr (b, r'))"
  note A = embedded_u8 [OF emb a]
  note B = embedded_u8 [OF A(4) b]
  show ?thesis using A(1,3) B(1,3) len by (simp add: skip_descriptor_def)
qed

definition kind_byte_of :: "type_ref \<Rightarrow> u8" where
  "kind_byte_of ty = (case ty of TrFunc _ \<Rightarrow> 0 | TrTable _ \<Rightarrow> 1 | TrMemory _ \<Rightarrow> 2 | TrGlobal _ \<Rightarrow> 3 | TrTag _ \<Rightarrow> 4)"

text \<open>The kind byte and the descriptor behind it.\<close>

lemma type_ref_agrees:
  assumes emb: "embedded wasm base r" and v: "read_type_ref r = Ok (Inr (ty, r'))"
    and plain: "plain_type ty" and len: "length wasm < 2 ^ usize_bits t"
  shows "index wasm (base + rd_position r) = Ok (kind_byte_of ty)"
    "usize_add t (base + rd_position r) 1 = Ok (Suc (base + rd_position r))"
    "skip_descriptor t wasm (kind_byte_of ty) (Suc (base + rd_position r)) = Ok (base + rd_position r')"
proof -
  obtain k s where k: "read_external_kind r = Ok (Inr (k, s))"
    and d: "(case k of
     KFunc \<Rightarrow> rd_bind read_var_u32 (\<lambda>idx. rd_return (TrFunc idx))
   | KTable \<Rightarrow> rd_bind read_table_type (\<lambda>ty. rd_return (TrTable ty))
   | KMemory \<Rightarrow> rd_bind read_memory_type (\<lambda>ty. rd_return (TrMemory ty))
   | KGlobal \<Rightarrow> rd_bind read_global_type (\<lambda>ty. rd_return (TrGlobal ty))
   | KTag \<Rightarrow> rd_bind read_tag_type (\<lambda>ty. rd_return (TrTag ty))) s = Ok (Inr (ty, r'))"
    by (rule rd_bind_Ok [OF v [unfolded read_type_ref_def]])
  obtain b where b: "read_u8 r = Ok (Inr (b, s))"
    and bk: "b = (case k of KFunc \<Rightarrow> 0 | KTable \<Rightarrow> 1 | KMemory \<Rightarrow> 2 | KGlobal \<Rightarrow> 3 | KTag \<Rightarrow> 4)"
    by (rule read_external_kind_byte [OF k])
  note E = embedded_u8 [OF emb b]
  have inner: "\<exists>a. p s = Ok (Inr (a, r')) \<and> ty = c a" if "rd_bind p (\<lambda>a. rd_return (c a)) s = Ok (Inr (ty, r'))"
    for p :: "'a read" and c
    by (rule rd_bind_Ok [OF that]) (auto simp: rd_return_def)
  have desc: "kind_byte_of ty = b
    \<and> skip_descriptor t wasm b (base + rd_position s) = Ok (base + rd_position r')"
  proof (cases k)
    case KFunc
    then obtain idx where "read_var_u32 s = Ok (Inr (idx, r'))" "ty = TrFunc idx"
      using d inner by fastforce
    then show ?thesis using read_leb_at_agrees [OF E(4) _ len] KFunc bk
      by (simp add: kind_byte_of_def skip_descriptor_def)
  next
    case KTable
    then obtain a where "ty = TrTable a" using d inner [of read_table_type TrTable] by auto
    then show ?thesis using plain by simp
  next
    case KMemory
    then obtain a where a: "read_memory_type s = Ok (Inr (a, r'))" "ty = TrMemory a"
      using d inner [of read_memory_type TrMemory] by auto
    then show ?thesis using skip_memory_agrees [OF E(4) a(1) _ _ len] plain KMemory bk
      by (simp add: kind_byte_of_def)
  next
    case KGlobal
    then obtain a where a: "read_global_type s = Ok (Inr (a, r'))" "ty = TrGlobal a"
      using d inner [of read_global_type TrGlobal] by auto
    then show ?thesis using skip_global_agrees [OF E(4) a(1) _ len] plain KGlobal bk
      by (simp add: kind_byte_of_def)
  next
    case KTag
    then obtain a where "ty = TrTag a" using d inner [of read_tag_type TrTag] by auto
    then show ?thesis using plain by simp
  qed
  show "index wasm (base + rd_position r) = Ok (kind_byte_of ty)"
    using desc E(1,2) by (simp add: index_def)
  show "usize_add t (base + rd_position r) 1 = Ok (Suc (base + rd_position r))"
    using E(1) len by simp
  show "skip_descriptor t wasm (kind_byte_of ty) (Suc (base + rd_position r)) = Ok (base + rd_position r')"
    using desc E(3) by simp
qed

text \<open>One import.\<close>

lemma import_entry_agrees:
  assumes emb: "embedded wasm base r" and v: "read_import t r = Ok (Inr (i, r'))"
    and plain: "plain_type (wi_ty i)" and len: "length wasm < 2 ^ usize_bits t" and t: "32 \<le> usize_bits t"
  shows "import_entry t wasm (base + rd_position r) = Ok (kind_byte_of (wi_ty i), wi_name i, base + rd_position r')"
    "embedded wasm base r'"
proof -
  obtain m s where m: "read_string t r = Ok (Inr (m, s))"
    and v2: "rd_bind (read_string t) (\<lambda>name. rd_bind read_type_ref (\<lambda>ty.
       rd_return \<lparr>wi_module = m, wi_name = name, wi_ty = ty\<rparr>)) s = Ok (Inr (i, r'))"
    by (rule rd_bind_Ok [OF v [unfolded read_import_def]])
  obtain n u where n: "read_string t s = Ok (Inr (n, u))"
    and v3: "rd_bind read_type_ref (\<lambda>ty. rd_return \<lparr>wi_module = m, wi_name = n, wi_ty = ty\<rparr>) u
      = Ok (Inr (i, r'))"
    by (rule rd_bind_Ok [OF v2])
  obtain ty w where ty: "read_type_ref u = Ok (Inr (ty, w))"
    and q: "rd_return \<lparr>wi_module = m, wi_name = n, wi_ty = ty\<rparr> w = Ok (Inr (i, r'))"
    by (rule rd_bind_Ok [OF v3])
  have i: "wi_ty i = ty" "wi_name i = n" "w = r'" using q by (auto simp: rd_return_def)
  note M = read_name_agrees [OF emb m len t]
  note N = read_name_agrees [OF M(2) n len t]
  note T = type_ref_agrees [OF N(2) ty plain [unfolded i] len]
  show "import_entry t wasm (base + rd_position r) = Ok (kind_byte_of (wi_ty i), wi_name i, base + rd_position r')"
    using i by (simp add: import_entry_def M(1) N(1) T T(2) [unfolded One_nat_def])
  have "moved r r'" using moves_read_import [of r t] v by simp
  then show "embedded wasm base r'" by (rule embedded_moved [OF emb])
qed

lemma kind_byte_of_func: "kind_byte_of ty = 0 \<longleftrightarrow> is_func_type ty"
  by (cases ty) (simp_all add: kind_byte_of_def)

definition refused_imports :: "wp_import list \<Rightarrow> string list" where
  "refused_imports is =
     filter (\<lambda>n. n \<notin> set ALLOWED_IMPORTS) (map wi_name (filter (\<lambda>i. is_func_type (wi_ty i)) is))"

lemma section_items_Suc:
  assumes "section_items p (Suc n) r = Ok (Inr xs)"
  obtains a s ys where "p r = Ok (Inr (a, s))" "section_items p n s = Ok (Inr ys)" "xs = a # ys"
proof -
  obtain x where x: "p r = Ok x" and
    f: "(case x of Inl e \<Rightarrow> Ok (Inl e)
       | Inr (a, r) \<Rightarrow> and_then (section_items p n r) (\<lambda>y. Ok (map_sum id ((#) a) y))) = Ok (Inr xs)"
    using assms by (auto simp: and_then_eq_Ok)
  obtain a s where as: "x = Inr (a, s)" using f by (cases x) auto
  obtain y where y: "section_items p n s = Ok y" and g: "map_sum id ((#) a) y = Inr xs"
    using f as by (auto simp: and_then_eq_Ok)
  show thesis using g y x as that by (cases y) auto
qed

lemma imports_loop_agrees:
  assumes "embedded wasm base r" and "section_items (read_import t) n r = Ok (Inr is)"
    and "\<forall>i \<in> set is. plain_type (wi_ty i)" and "length wasm < 2 ^ usize_bits t" and "32 \<le> usize_bits t"
  shows "imports_loop t wasm n (base + rd_position r) rejected = Ok (rejected @ refused_imports is)"
  using assms
proof (induction n arbitrary: r "is" rejected)
  case 0
  then show ?case by (auto simp: refused_imports_def split: if_splits)
next
  case (Suc n)
  obtain i s js where i: "read_import t r = Ok (Inr (i, s))"
    and js: "section_items (read_import t) n s = Ok (Inr js)" and items: "is = i # js"
    by (rule section_items_Suc [OF Suc.prems(2)])
  have p: "plain_type (wi_ty i)" using Suc.prems(3) items by simp
  note E = import_entry_agrees [OF Suc.prems(1) i p Suc.prems(4,5)]
  have "imports_loop t wasm n (base + rd_position s) rejected' = Ok (rejected' @ refused_imports js)" for rejected'
    by (rule Suc.IH [OF E(2) js _ Suc.prems(4,5)]) (use Suc.prems(3) items in simp)
  then show ?case by (simp add: E(1) items refused_imports_def kind_byte_of_func)
qed

section \<open>Sections\<close>

text \<open>The payloads that are not the end: identifier, length and content.\<close>

lemma parse_section_steps:
  assumes "parse_section t True p r = Ok (Inr ((payload, p'), r'))" and "\<not> ends_header payload"
  obtains i s len u where "read_u8 r = Ok (Inr (i, s))" "read_var_u32 s = Ok (Inr (len, u))"
    "parse_content t p i len u = Ok (Inr ((payload, p'), r'))"
proof -
  have ne: "\<not> (True \<and> bytes_remaining r = 0)"
    by (cases "bytes_remaining r = 0") (use assms in \<open>auto simp: parse_section_def\<close>)
  note G = assms(1) [unfolded parse_section_def Let_def if_not_P [OF ne]]
  obtain i s where i: "read_u8 r = Ok (Inr (i, s))"
    and g: "(if i AND 0x80 \<noteq> 0 then Ok (Inl (error_new ''malformed section id'' (original_position r)))
             else rd_bind read_var_u32 (\<lambda>len u.
                    if ps_max_size p < original_position u - original_position r + unat len
                    then Ok (Inl (error_new ''section too large'' (original_position s)))
                    else parse_content t p i len u) s) = Ok (Inr ((payload, p'), r'))"
    by (rule rd_bind_Ok [OF G])
  have "rd_bind read_var_u32 (\<lambda>len u.
                    if ps_max_size p < original_position u - original_position r + unat len
                    then Ok (Inl (error_new ''section too large'' (original_position s)))
                    else parse_content t p i len u) s = Ok (Inr ((payload, p'), r'))"
    using g by (simp split: if_splits)
  then obtain len u where l: "read_var_u32 s = Ok (Inr (len, u))"
    and h: "(if ps_max_size p < original_position u - original_position r + unat len
             then Ok (Inl (error_new ''section too large'' (original_position s)))
             else parse_content t p i len u) = Ok (Inr ((payload, p'), r'))"
    by (rule rd_bind_Ok)
  have "parse_content t p i len u = Ok (Inr ((payload, p'), r'))" using h by (simp split: if_splits)
  with i l show thesis by (rule that)
qed

lemma rd_skip_span:
  assumes "rd_skip (read_bytes t n) r = Ok (Inr (content, r'))"
  obtains bs where "read_bytes t n r = Ok (Inr (bs, r'))"
    "content = r'\<lparr>rd_buffer := take (rd_position r' - rd_position r) (drop (rd_position r) (rd_buffer r)),
       rd_position := 0, rd_original_offset := rd_original_offset r + rd_position r\<rparr>"
    "rd_position r' \<le> length (rd_buffer r)"
proof (cases "read_bytes t n r")
  case (Ok x)
  then show thesis using assms that
    by (cases x) (auto simp: rd_skip_def slice_range_def split: if_splits)
qed (use assms in \<open>simp_all add: rd_skip_def\<close>)

lemma section_of_span:
  assumes "section_of t len ctor variant r = Ok (Inr (x, r'))"
  obtains content a where "rd_skip (read_bytes t (unat len)) r = Ok (Inr (content, r'))"
    "ctor content = Ok (Inr a)" "x = variant a"
proof -
  obtain content s where c: "rd_skip (read_bytes t (unat len)) r = Ok (Inr (content, s))"
    and f: "and_then (ctor content) (\<lambda>y. Ok (case y of
         Inl e \<Rightarrow> Inl (clear_hint e) | Inr a \<Rightarrow> Inr (variant a, s))) = Ok (Inr (x, r'))"
    by (rule rd_bind_Ok [OF assms [unfolded section_of_def]])
  obtain y where y: "ctor content = Ok y"
    and g: "(case y of Inl e \<Rightarrow> Inl (clear_hint e) | Inr a \<Rightarrow> Inr (variant a, s)) = Inr (x, r')"
    using f by (auto simp: and_then_eq_Ok)
  show thesis using that c y g by (cases y) auto
qed

lemma single_item_span:
  assumes "single_item t len desc r = Ok (Inr (x, r'))"
  obtains content where "rd_skip (read_bytes t (unat len)) r = Ok (Inr (content, r'))"
proof -
  have "rd_bind (rd_skip (read_bytes t (unat len))) (\<lambda>content r.
         and_then (read_var_u32 content) (\<lambda>x. Ok (case x of
           Inl e \<Rightarrow> Inl (clear_hint e)
         | Inr (ret, content) \<Rightarrow>
             if \<not> rd_eof content
             then Inl (error_new (''unexpected content in the '' @ desc @ '' section'')
                    (original_position content))
             else Inr (ret, r)))) r = Ok (Inr (x, r'))"
    using assms by (auto simp: single_item_def and_then_eq_Ok)
  then obtain content s where c: "rd_skip (read_bytes t (unat len)) r = Ok (Inr (content, s))"
    and f: "and_then (read_var_u32 content) (\<lambda>x. Ok (case x of
           Inl e \<Rightarrow> Inl (clear_hint e)
         | Inr (ret, content) \<Rightarrow>
             if \<not> rd_eof content
             then Inl (error_new (''unexpected content in the '' @ desc @ '' section'')
                    (original_position content))
             else Inr (ret, s))) = Ok (Inr (x, r'))"
    by (rule rd_bind_Ok)
  obtain y where "(case y of
           Inl e \<Rightarrow> Inl (clear_hint e)
         | Inr (ret, content) \<Rightarrow>
             if \<not> rd_eof content
             then Inl (error_new (''unexpected content in the '' @ desc @ '' section'')
                    (original_position content))
             else Inr (ret, s)) = Inr (x, r')"
    using f by (auto simp: and_then_eq_Ok)
  then have "s = r'" by (cases y) (auto split: if_splits)
  then show thesis using that c by simp
qed

lemma rd_bind_return:
  assumes "rd_bind q (\<lambda>x. rd_return (c x)) r = Ok (Inr (y, r'))"
  obtains x where "q r = Ok (Inr (x, r'))" "y = c x"
  by (rule rd_bind_Ok [OF assms]) (use that in \<open>auto simp: rd_return_def\<close>)

text \<open>Behind the length, a payload takes exactly that many bytes, and leaves the parser alone.\<close>

lemma parse_content_span:
  assumes c: "parse_content t p i len r = Ok (Inr ((payload, p'), r'))" and "\<not> ends_header payload"
  obtains bs where "read_bytes t (unat len) r = Ok (Inr (bs, r'))" "p' = p"
proof -
  note G = c [unfolded parse_content_def Let_def]
  consider (custom) "i = 0"
    | (counted) "i \<noteq> 0" "ps_encoding p = EncModule \<and> i \<in> {1, 2, 3, 4, 5, 6, 7, 9, 11, 13}"
    | (start) "i \<noteq> 0" "\<not> (ps_encoding p = EncModule \<and> i \<in> {1, 2, 3, 4, 5, 6, 7, 9, 11, 13})"
        "ps_encoding p = EncModule \<and> i = 8"
    | (code) "i \<noteq> 0" "\<not> (ps_encoding p = EncModule \<and> i \<in> {1, 2, 3, 4, 5, 6, 7, 9, 11, 13})"
        "\<not> (ps_encoding p = EncModule \<and> i = 8)" "ps_encoding p = EncModule \<and> i = 10"
    | (data_count) "i \<noteq> 0" "\<not> (ps_encoding p = EncModule \<and> i \<in> {1, 2, 3, 4, 5, 6, 7, 9, 11, 13})"
        "\<not> (ps_encoding p = EncModule \<and> i = 8)" "\<not> (ps_encoding p = EncModule \<and> i = 10)"
        "ps_encoding p = EncModule \<and> i = 12"
    | (unknown) "i \<noteq> 0" "\<not> (ps_encoding p = EncModule \<and> i \<in> {1, 2, 3, 4, 5, 6, 7, 9, 11, 13})"
        "\<not> (ps_encoding p = EncModule \<and> i = 8)" "\<not> (ps_encoding p = EncModule \<and> i = 10)"
        "\<not> (ps_encoding p = EncModule \<and> i = 12)"
    by blast
  then show thesis
  proof cases
    case custom
    note H = G [unfolded if_P [OF custom]]
    show thesis
      by (rule rd_bind_return [OF H], erule section_of_span, erule rd_skip_span) (auto intro: that)
  next
    case counted
    note H = G [unfolded if_not_P [OF counted(1)] if_P [OF counted(2)]]
    show thesis
      by (rule rd_bind_return [OF H], erule section_of_span, erule rd_skip_span) (auto intro: that)
  next
    case start
    note H = G [unfolded if_not_P [OF start(1)] if_not_P [OF start(2)] if_P [OF start(3)]]
    show thesis
      by (rule rd_bind_return [OF H], erule single_item_span, erule rd_skip_span) (auto intro: that)
  next
    case code
    note H = G [unfolded if_not_P [OF code(1)] if_not_P [OF code(2)] if_not_P [OF code(3)] if_P [OF code(4)]]
    show thesis
      by (rule rd_bind_Ok [OF H])
        (use assms(2) in \<open>auto simp: and_then_eq_Ok rd_return_def split: prod.splits\<close>)
  next
    case data_count
    note H = G [unfolded if_not_P [OF data_count(1)] if_not_P [OF data_count(2)]
        if_not_P [OF data_count(3)] if_not_P [OF data_count(4)] if_P [OF data_count(5)]]
    show thesis
      by (rule rd_bind_return [OF H], erule single_item_span, erule rd_skip_span) (auto intro: that)
  next
    case unknown
    note H = G [unfolded if_not_P [OF unknown(1)] if_not_P [OF unknown(2)]
        if_not_P [OF unknown(3)] if_not_P [OF unknown(4)] if_not_P [OF unknown(5)]]
    show thesis
      by (rule rd_bind_Ok [OF H]) (auto simp: and_then_eq_Ok rd_return_def intro: that)
  qed
qed

text \<open>The import section: its content is a reader of its own inside the module.\<close>

lemma parse_content_imports:
  assumes c: "parse_content t p i len r = Ok (Inr ((PSection 2 sec, p'), r'))"
  obtains content where "i = 2" "ps_encoding p = EncModule"
    "rd_skip (read_bytes t (unat len)) r = Ok (Inr (content, r'))"
    "read_var_u32 content = Ok (Inr (sec_count sec, sec_reader sec))"
proof -
  obtain bs where nothing: "p' = p"
    by (rule parse_content_span [OF c]) simp_all
  have i: "i = 2 \<and> ps_encoding p = EncModule"
  proof (rule ccontr)
    assume "\<not> (i = 2 \<and> ps_encoding p = EncModule)"
    then show False
      using c by (auto simp: parse_content_def Let_def rd_return_def and_then_eq_Ok
          split: if_splits prod.splits elim!: rd_bind_Ok section_of_span)
  qed
  then have H: "rd_bind (section_of t len section_limited_new (PSection i)) (\<lambda>x. rd_return (x, p)) r
      = Ok (Inr ((PSection 2 sec, p'), r'))"
    using c by (simp add: parse_content_def Let_def)
  obtain x where s: "section_of t len section_limited_new (PSection i) r = Ok (Inr (x, r'))"
    and x: "(PSection 2 sec, p') = (x, p)"
    by (rule rd_bind_return [OF H])
  obtain content a where k: "rd_skip (read_bytes t (unat len)) r = Ok (Inr (content, r'))"
    and a: "section_limited_new content = Ok (Inr a)" and xa: "x = PSection i a"
    by (rule section_of_span [OF s])
  have "a = sec" using x xa by simp
  then have "read_var_u32 content = Ok (Inr (sec_count sec, sec_reader sec))"
  proof (cases "read_var_u32 content")
    case (Ok y)
    then show ?thesis using a \<open>a = sec\<close> by (cases y) (auto simp: section_limited_new_def)
  qed (use a in \<open>simp_all add: section_limited_new_def\<close>)
  then show thesis using i k that by blast
qed

lemma section_header_agrees:
  assumes emb: "embedded wasm base r" and i: "read_u8 r = Ok (Inr (i, s))"
    and l: "read_var_u32 s = Ok (Inr (len, u))" and len: "length wasm < 2 ^ usize_bits t"
  shows "section_header t wasm (base + rd_position r) = Ok (i, len, base + rd_position u)"
    "embedded wasm base u" "base + rd_position r < length wasm"
proof -
  note E = embedded_u8 [OF emb i]
  note L = read_leb_at_agrees [OF E(4) l len]
  show "embedded wasm base u" by (rule L(2))
  show "base + rd_position r < length wasm" by (rule E(1))
  show "section_header t wasm (base + rd_position r) = Ok (i, len, base + rd_position u)"
    using E(1,2,3) L(1) len by (simp add: section_header_def index_def)
qed

lemma less_usize:
  assumes "32 \<le> usize_bits t"
  shows "unat (len :: u32) < 2 ^ usize_bits t"
proof -
  have "(2 :: nat) ^ 32 \<le> 2 ^ usize_bits t" using assms by (rule power_increasing) simp
  then show ?thesis by (rule order_less_le_trans [rotated]) simp
qed

lemma embedded_position:
  "embedded wasm base r \<Longrightarrow> length wasm < 2 ^ usize_bits t \<Longrightarrow> rd_position r < 2 ^ usize_bits t"
  by (auto simp: embedded_def)

text \<open>A payload other than the import section: the check steps over the same bytes.\<close>

lemma section_step_agrees:
  assumes emb: "embedded wasm base r"
    and s: "parse_section t True p r = Ok (Inr ((payload, p'), r'))" and "\<not> ends_header payload"
    and "\<not> is_import_section payload" and "ps_encoding p = EncModule"
    and len: "length wasm < 2 ^ usize_bits t" and t: "32 \<le> usize_bits t"
  shows "section_step t wasm (base + rd_position r) = Ok (Inr (base + rd_position r'))" "p' = p"
proof -
  obtain i q len' u where i: "read_u8 r = Ok (Inr (i, q))" and l: "read_var_u32 q = Ok (Inr (len', u))"
    and c: "parse_content t p i len' u = Ok (Inr ((payload, p'), r'))"
    by (rule parse_section_steps [OF s assms(3)])
  note H = section_header_agrees [OF emb i l len]
  obtain bs where bs: "read_bytes t (unat len') u = Ok (Inr (bs, r'))" and p: "p' = p"
    by (rule parse_content_span [OF c assms(3)])
  note B = read_bytes_span [OF bs less_usize [OF t] embedded_position [OF H(2) len]]
  have i2: "i \<noteq> 2"
  proof
    assume "i = 2"
    then have "rd_bind (section_of t len' section_limited_new (PSection i)) (\<lambda>x. rd_return (x, p)) u
        = Ok (Inr ((payload, p'), r'))"
      using c assms(5) by (simp add: parse_content_def Let_def)
    then show False
      by (rule rd_bind_return, elim section_of_span) (use assms(4) \<open>i = 2\<close> in auto)
  qed
  have "base + rd_position u + unat len' \<le> length wasm"
    using B(2) H(2) by (simp add: embedded_def)
  then have "usize_add t (base + rd_position u) (unat len') = Ok (base + rd_position r')"
    using len B(1) by simp
  then show "section_step t wasm (base + rd_position r) = Ok (Inr (base + rd_position r'))"
    using H(1,3) i2 by (simp add: section_step_def)
  show "p' = p" by (rule p)
qed

text \<open>The import section: the check ends with the verdict on the imports the engine reads.\<close>

lemma import_section_agrees:
  assumes emb: "embedded wasm base r"
    and s: "parse_section t True p r = Ok (Inr ((PSection 2 sec, p'), r'))"
    and items: "section_collect (read_import t) sec = Ok (Inr is)"
    and plain: "\<forall>i \<in> set is. plain_type (wi_ty i)"
    and len: "length wasm < 2 ^ usize_bits t" and t: "32 \<le> usize_bits t"
  shows "section_step t wasm (base + rd_position r) = Ok (Inl (refused_imports is))"
proof -
  obtain i q len' u where i: "read_u8 r = Ok (Inr (i, q))" and l: "read_var_u32 q = Ok (Inr (len', u))"
    and c: "parse_content t p i len' u = Ok (Inr ((PSection 2 sec, p'), r'))"
    by (rule parse_section_steps [OF s]) simp
  note H = section_header_agrees [OF emb i l len]
  obtain content where i2: "i = 2"
    and sk: "rd_skip (read_bytes t (unat len')) u = Ok (Inr (content, r'))"
    and n: "read_var_u32 content = Ok (Inr (sec_count sec, sec_reader sec))"
    by (rule parse_content_imports [OF c])
  obtain bs where bs: "read_bytes t (unat len') u = Ok (Inr (bs, r'))"
    and ct: "content = r'\<lparr>rd_buffer := take (rd_position r' - rd_position u) (drop (rd_position u) (rd_buffer u)),
       rd_position := 0, rd_original_offset := rd_original_offset u + rd_position u\<rparr>"
    and le: "rd_position r' \<le> length (rd_buffer u)"
    by (rule rd_skip_span [OF sk])
  note B = read_bytes_span [OF bs less_usize [OF t] embedded_position [OF H(2) len]]
  have in_wasm: "base + rd_position u + unat len' \<le> length wasm"
    using B(2) H(2) by (simp add: embedded_def)
  have emb': "embedded wasm (base + rd_position u) content"
  proof -
    have "take (rd_position r' - rd_position u) (drop (rd_position u) (rd_buffer u))
        = take (rd_position r' - rd_position u) (drop (base + rd_position u) wasm)"
      by (rule embedded_slice [OF H(2) le])
    then show ?thesis using in_wasm B(1,2) by (simp add: embedded_def ct)
  qed
  note N = read_leb_at_agrees [OF emb' n len]
  have loop: "imports_loop t wasm (unat (sec_count sec)) (base + rd_position u + rd_position (sec_reader sec)) []
      = Ok (refused_imports is)"
    using imports_loop_agrees [OF N(2) items [unfolded section_collect_def] plain len t, of "[]"] by simp
  have z: "rd_position content = 0" by (simp add: ct)
  have "usize_add t (base + rd_position u) (unat len') = Ok (base + rd_position u + unat len')"
    using in_wasm len by simp
  then have "import_section t wasm len' (base + rd_position u) = Ok (refused_imports is)"
    using N(1) loop z by (simp add: import_section_def)
  then show ?thesis using H(1,3) i2 by (simp add: section_step_def)
qed

end
