(* ===== verification/Import_Agreement.thy ===== *)
theory Import_Agreement
  imports Import_Decoding
begin

unbundle bit_operations_syntax

text \<open>
  Where the engine reads an import section, the receiver's import check reads the same imports,
  for the kinds of imports the check skips correctly: the walk of both over the sections before
  it, the agreement of the verdict with what the engine links, and the modules on which they part.
\<close>

section \<open>The walk\<close>

text \<open>One call of \<open>parse\<close> on a buffer that fits.\<close>

definition start_reader :: "target \<Rightarrow> bytes \<Rightarrow> parser \<Rightarrow> reader" where
  "start_reader t buffer p =
     \<lparr>rd_buffer = buffer, rd_position = 0, rd_original_offset = ps_offset p mod 2 ^ usize_bits t,
      rd_shared_everything_threads = ps_shared_everything_threads p\<rparr>"

lemma next_payload_steps:
  assumes n: "next_payload t buffer p = Ok (Inr (consumed, payload, p'))"
    and fits: "length buffer \<le> ps_max_size p"
  obtains q r' where "parse_reader t True p (start_reader t buffer p) = Ok (Inr ((payload, q), r'))"
    "consumed = rd_position r'" "moved (start_reader t buffer p) r'"
    "p' = q\<lparr>ps_offset := ps_offset q + consumed, ps_max_size := ps_max_size q - consumed\<rparr>"
proof -
  let ?r = "start_reader t buffer p"
  obtain x where px: "parse t buffer True p = Ok x"
    and f: "(case x of Inl e \<Rightarrow> Ok (Inl (wasm_error_of e))
     | Inr (Parsed consumed payload, p) \<Rightarrow> Ok (Inr (consumed, payload, p))
     | Inr (NeedMoreData _, p) \<Rightarrow> Panic) = Ok (Inr (consumed, payload, p'))"
    using n by (auto simp: next_payload_def and_then_eq_Ok)
  then have x: "x = Inr (Parsed consumed payload, p')"
    by (cases x) (auto split: prod.splits chunk.splits)
  obtain y where y: "parse_reader t True p ?r = Ok y"
    and g: "(case y of
           Inr ((payload, p), r) \<Rightarrow>
             (let consumed = original_position r - ps_offset p0 mod 2 ^ usize_bits t
              in Inr (Parsed consumed payload,
                   p\<lparr>ps_offset := ps_offset p + consumed, ps_max_size := ps_max_size p - consumed\<rparr>))
         | Inl e \<Rightarrow>
             (if True then Inl e
              else case re_needed_hint e of
                     Some hint \<Rightarrow> Inr (NeedMoreData hint, p) | None \<Rightarrow> Inl e)) = x" if "p0 = p" for p0
    using px fits that by (auto simp: parse_def start_reader_def Let_def and_then_eq_Ok split: if_splits)
  obtain pl q r' where yr: "y = Inr ((pl, q), r')"
    using g [OF refl] x by (cases y) auto
  have m: "moved ?r r'" using moves_parse_reader [of ?r t True p] y yr by simp
  have "original_position r' - ps_offset p mod 2 ^ usize_bits t = rd_position r'"
    using moved_fields(2) [OF m] by (simp add: original_position_def start_reader_def)
  then have "pl = payload" "consumed = rd_position r'"
    "p' = q\<lparr>ps_offset := ps_offset q + consumed, ps_max_size := ps_max_size q - consumed\<rparr>"
    using g [OF refl] x yr by (auto simp: Let_def)
  then show thesis using that y yr m by simp
qed

lemma parse_header_steps:
  assumes h: "parse_header t p r = Ok (Inr ((payload, q), r'))" and z: "rd_position r = 0"
    and t: "32 \<le> usize_bits t"
  obtains n e where "payload = PVersion n e" "q = p\<lparr>ps_encoding := e, ps_state := SectionStart\<rparr>"
    "rd_position r' = 8" "8 \<le> length (rd_buffer r)" "take 4 (rd_buffer r) = [0x00, 0x61, 0x73, 0x6D]"
proof -
  have big: "(2 :: nat) ^ 32 \<le> 2 ^ usize_bits t" using t by (rule power_increasing) simp
  then have b4: "4 < (2 :: nat) ^ usize_bits t" by (rule order_less_le_trans [rotated]) simp
  obtain v s where v: "read_magic t r = Ok (Inr (v, s))"
    and f: "(if ucast (drop_bit 16 v) = (0 :: u16)
              then rd_return (PVersion (ucast v) EncModule, p\<lparr>ps_encoding := EncModule, ps_state := SectionStart\<rparr>)
              else if ucast (drop_bit 16 v) = (1 :: u16)
              then rd_return (PVersion (ucast v) EncComponent,
                     p\<lparr>ps_encoding := EncComponent, ps_state := SectionStart\<rparr>)
              else rd_fail (error_new (''unknown binary version: '' @ pad_left 10 (''0x'' @ hex_nat (unat v)))
                     (original_position r + 4))) s = Ok (Inr ((payload, q), r'))"
    by (rule rd_bind_Ok [OF h [unfolded parse_header_def Let_def]])
  obtain m u where m: "read_bytes t 4 r = Ok (Inr (m, u))"
    and g: "(if m \<noteq> [0x00, 0x61, 0x73, 0x6D]
     then Ok (Inl (error_new (''magic header not detected: bad magic number - expected='' @
                     hex_list [0x00, 0x61, 0x73, 0x6D] @ '' actual='' @ hex_list m)
                   (original_position u - 4)))
     else read_u32 t u) = Ok (Inr (v, s))"
    by (rule rd_bind_Ok [OF v [unfolded read_magic_def]])
  have m4: "m = [0x00, 0x61, 0x73, 0x6D]" and w: "read_u32 t u = Ok (Inr (v, s))"
    using g by (simp_all split: if_splits)
  note B = read_bytes_span [OF m b4]
  have zero: "rd_position r < 2 ^ usize_bits t" using z b4 by simp
  have u: "rd_position u = 4" "take 4 (rd_buffer r) = m" using B(1,3) [OF zero] z by simp_all
  have ub: "rd_buffer u = rd_buffer r"
    using moved_fields(1) [of r u] moves_read_bytes [of r t 4] m by simp
  obtain a x where e: "ensure_has_bytes t 4 u = Ok (Inr (a, x))"
    and k: "and_then (slice_range (rd_buffer x) (rd_position x) (rd_position x + 4)) (\<lambda>bs.
       Ok (Inr (from_le_bytes bs, x\<lparr>rd_position := rd_position x + 4\<rparr>)))
       = (Ok (Inr (v, s)) :: (reader_error + _) outcome)"
    by (rule rd_bind_Ok [OF w [unfolded read_u32_def]])
  have x: "x = u" using e by (auto simp: ensure_has_bytes_def and_then_eq_Ok split: if_splits)
  have s8: "rd_position s = 8" "8 \<le> length (rd_buffer r)"
    using k x u(1) ub by (auto simp: slice_range_def split: if_splits)
  have "s = r'" using f by (auto simp: rd_return_def rd_fail_def split: if_splits)
  moreover have "\<exists>n e. payload = PVersion n e \<and> q = p\<lparr>ps_encoding := e, ps_state := SectionStart\<rparr>"
    using f by (auto simp: rd_return_def rd_fail_def split: if_splits)
  ultimately show thesis using that s8 u(2) m4 by auto
qed

text \<open>The shape of the question mark operator.\<close>

lemma and_then_try_Ok:
  "and_then m (\<lambda>x. case x of Inl e \<Rightarrow> Ok (Inl e) | Inr a \<Rightarrow> f a) = Ok (Inr y) \<longleftrightarrow>
     (\<exists>a. m = Ok (Inr a) \<and> f a = Ok (Inr y))"
proof (cases m)
  case (Ok x)
  then show ?thesis by (cases x) auto
qed simp_all

lemma and_then_consume_Ok:
  "and_then (consume_buffer n b) f = Ok y \<longleftrightarrow> n \<le> length b \<and> f (drop n b) = Ok y"
  by (auto simp: consume_buffer_def slice_from_def)

text \<open>What one round of the loop over the header does, for the payloads it goes on from.\<close>

lemma header_step_continues:
  assumes "header_step t process func_types mp = Ok (Inr (Inr mp'))"
    and "next_payload t (mp_buffer mp) (mp_parser mp) = Ok (Inr (consumed, payload, p))"
  shows "\<not> ends_header payload \<and> mp_parser mp' = p
    \<and> consumed \<le> length (mp_buffer mp) \<and> mp_buffer mp' = drop consumed (mp_buffer mp)
    \<and> (\<not> is_import_section payload \<longrightarrow> mp_imports mp' = mp_imports mp)"
  using assms
  by (cases payload)
    (auto simp: header_step_def Let_def and_then_try_Ok and_then_consume_Ok split: if_splits)

text \<open>The states of the module parser before the import section.\<close>

inductive header_reaches ::
  "target \<Rightarrow> 's process \<Rightarrow> ('s \<Rightarrow> func_type list) \<Rightarrow> 's module_parser \<Rightarrow> 's module_parser \<Rightarrow> bool"
  for t :: target and process :: "'s process" and func_types :: "'s \<Rightarrow> func_type list"
    and mp0 :: "'s module_parser" where
  start: "header_reaches t process func_types mp0 mp0"
| step: "\<lbrakk>header_reaches t process func_types mp0 mp;
     next_payload t (mp_buffer mp) (mp_parser mp) = Ok (Inr (consumed, payload, p));
     \<not> is_import_section payload; header_step t process func_types mp = Ok (Inr (Inr mp'))\<rbrakk>
     \<Longrightarrow> header_reaches t process func_types mp0 mp'"

definition walk_inv :: "target \<Rightarrow> bytes \<Rightarrow> 's module_parser \<Rightarrow> bool" where
  "walk_inv t wasm mp \<longleftrightarrow> (\<exists>pos. pos \<le> length wasm \<and> mp_buffer mp = drop pos wasm
     \<and> ps_max_size (mp_parser mp) + pos = 2 ^ 64 - 1 \<and> ps_state (mp_parser mp) = SectionStart
     \<and> 8 \<le> length wasm \<and> take 4 wasm = [0x00, 0x61, 0x73, 0x6D] \<and> mp_imports mp = no_imports
     \<and> (ps_encoding (mp_parser mp) = EncModule \<longrightarrow> walk_sections t wasm 8 = walk_sections t wasm pos))"

lemma embedded_start: "pos \<le> length wasm \<Longrightarrow> embedded wasm pos (start_reader t (drop pos wasm) p)"
  by (simp add: embedded_def start_reader_def)

lemma walk_sections_Inr:
  "section_step t wasm pos = Ok (Inr pos') \<Longrightarrow> walk_sections t wasm pos = walk_sections t wasm pos'"
  by (simp add: walk_sections_def sections_loop_Inr)

lemma walk_sections_Inl:
  "section_step t wasm pos = Ok (Inl rejected) \<Longrightarrow> walk_sections t wasm pos = Ok rejected"
  by (simp add: walk_sections_def sections_loop_Inl)

lemma walk_inv_first:
  assumes n: "next_payload t wasm (mp_parser (module_parser_new features wasm rest)) = Ok (Inr (consumed, payload, p))"
    and h: "header_step t process func_types (module_parser_new features wasm rest) = Ok (Inr (Inr mp'))"
    and len: "length wasm < 2 ^ usize_bits t" and t: "32 \<le> usize_bits t" "usize_bits t \<le> 64"
  shows "walk_inv t wasm mp'" "\<not> is_import_section payload"
proof -
  let ?mp = "module_parser_new features wasm rest"
  let ?p = "mp_parser ?mp" and ?r = "start_reader t wasm (mp_parser ?mp)"
  have len64: "length wasm < 2 ^ 64" by (rule less_usize_u64 [OF len t(2)])
  have ms: "ps_max_size ?p = 2 ^ 64 - 1"
    by (simp add: module_parser_new_def set_features_def parser_new_def)
  have st: "ps_state ?p = Header"
    by (simp add: module_parser_new_def set_features_def parser_new_def)
  have fits: "length wasm \<le> ps_max_size ?p" using len64 by (simp add: ms)
  obtain q r' where pr: "parse_reader t True ?p ?r = Ok (Inr ((payload, q), r'))"
    and c: "consumed = rd_position r'"
    and p: "p = q\<lparr>ps_offset := ps_offset q + consumed, ps_max_size := ps_max_size q - consumed\<rparr>"
    by (rule next_payload_steps [OF n fits])
  have ph: "parse_header t ?p ?r = Ok (Inr ((payload, q), r'))"
    using pr st by (simp add: parse_reader_def)
  obtain nn e where H: "payload = PVersion nn e" "q = ?p\<lparr>ps_encoding := e, ps_state := SectionStart\<rparr>"
    "rd_position r' = 8" "8 \<le> length (rd_buffer ?r)" "take 4 (rd_buffer ?r) = [0x00, 0x61, 0x73, 0x6D]"
    by (rule parse_header_steps [OF ph _ t(1)]) (simp_all add: start_reader_def)
  show ni: "\<not> is_import_section payload" using H(1) by simp
  have nn: "next_payload t (mp_buffer ?mp) ?p = Ok (Inr (consumed, payload, p))"
    using n by (simp add: module_parser_new_def)
  note S = header_step_continues [OF h nn]
  have "mp_imports ?mp = no_imports" "mp_buffer ?mp = wasm" by (simp_all add: module_parser_new_def)
  then have "mp_parser mp' = p" "mp_buffer mp' = drop 8 wasm" "mp_imports mp' = no_imports"
    using S ni c H(3) by simp_all
  moreover have "ps_max_size p + 8 = 2 ^ 64 - 1" "ps_state p = SectionStart"
    using p H(2,3) c ms by simp_all
  ultimately show "walk_inv t wasm mp'"
    using H(4,5) unfolding walk_inv_def by (intro exI [of _ 8]) (simp add: start_reader_def)
qed

lemma walk_inv_step:
  assumes inv: "walk_inv t wasm mp"
    and n: "next_payload t (mp_buffer mp) (mp_parser mp) = Ok (Inr (consumed, payload, p))"
    and ni: "\<not> is_import_section payload"
    and h: "header_step t process func_types mp = Ok (Inr (Inr mp'))"
    and len: "length wasm < 2 ^ usize_bits t" and t: "32 \<le> usize_bits t" "usize_bits t \<le> 64"
  shows "walk_inv t wasm mp'"
proof -
  obtain pos where I: "pos \<le> length wasm" "mp_buffer mp = drop pos wasm"
    "ps_max_size (mp_parser mp) + pos = 2 ^ 64 - 1" "ps_state (mp_parser mp) = SectionStart"
    "8 \<le> length wasm" "take 4 wasm = [0x00, 0x61, 0x73, 0x6D]" "mp_imports mp = no_imports"
    "ps_encoding (mp_parser mp) = EncModule \<longrightarrow> walk_sections t wasm 8 = walk_sections t wasm pos"
    using inv by (auto simp: walk_inv_def)
  let ?p = "mp_parser mp" and ?r = "start_reader t (drop pos wasm) (mp_parser mp)"
  have len64: "length wasm < 2 ^ 64" by (rule less_usize_u64 [OF len t(2)])
  have fits: "length (mp_buffer mp) \<le> ps_max_size ?p"
    using I(1,2,3) len64 by simp
  obtain q r' where pr: "parse_reader t True ?p (start_reader t (mp_buffer mp) ?p) = Ok (Inr ((payload, q), r'))"
    and c: "consumed = rd_position r'" and m: "moved (start_reader t (mp_buffer mp) ?p) r'"
    and p: "p = q\<lparr>ps_offset := ps_offset q + consumed, ps_max_size := ps_max_size q - consumed\<rparr>"
    by (rule next_payload_steps [OF n fits])
  note S = header_step_continues [OF h n]
  have ps: "parse_section t True ?p ?r = Ok (Inr ((payload, q), r'))"
    using pr I(2,4) by (simp add: parse_reader_def)
  have emb: "embedded wasm pos ?r" by (rule embedded_start [OF I(1)])
  have z: "rd_position ?r = 0" by (simp add: start_reader_def)
  have "consumed \<le> length wasm - pos" using S I(2) by simp
  then have le: "pos + consumed \<le> length wasm" using I(1) by linarith
  have q: "q = ?p"
  proof -
    obtain i s l u where "parse_content t ?p i l u = Ok (Inr ((payload, q), r'))"
      by (rule parse_section_steps [OF ps]) (use S in simp)
    then show ?thesis by (rule parse_content_span) (use S in auto)
  qed
  have walk: "walk_sections t wasm pos = walk_sections t wasm (pos + consumed)" if "ps_encoding ?p = EncModule"
  proof (rule walk_sections_Inr)
    show "section_step t wasm pos = Ok (Inr (pos + consumed))"
      using section_step_agrees(1) [OF emb ps _ ni that len t(1)] S z c by simp
  qed
  have "ps_max_size p + (pos + consumed) = 2 ^ 64 - 1" "ps_state p = SectionStart"
    "ps_encoding p = ps_encoding ?p"
    using p q I(3,4) le len64 by simp_all
  moreover have "mp_buffer mp' = drop (pos + consumed) wasm" using S I(2) by (simp add: add.commute)
  ultimately show ?thesis
    using S I le ni walk unfolding walk_inv_def by (intro exI [of _ "pos + consumed"]) simp
qed

lemma header_reaches_inv:
  assumes "header_reaches t process func_types (module_parser_new features wasm rest) mp"
    and len: "length wasm < 2 ^ usize_bits t" and t: "32 \<le> usize_bits t" "usize_bits t \<le> 64"
  shows "mp = module_parser_new features wasm rest \<or> walk_inv t wasm mp"
  using assms(1)
proof (induction rule: header_reaches.induct)
  case start
  then show ?case by simp
next
  case (step mp consumed payload p mp')
  show ?case
  proof (cases "mp = module_parser_new features wasm rest")
    case True
    have b: "mp_buffer mp = wasm" by (simp add: True module_parser_new_def)
    show ?thesis
      using walk_inv_first(1) [OF step(2) [unfolded b, unfolded True] step(4) [unfolded True] len t] by simp
  next
    case False
    then show ?thesis using walk_inv_step [OF _ step(2,3,4) len t] step.IH by blast
  qed
qed

text \<open>What the engine arrives at: an import section, with the imports in it.\<close>

definition engine_reads_imports ::
  "target \<Rightarrow> 's process \<Rightarrow> ('s \<Rightarrow> func_type list) \<Rightarrow> bool \<Rightarrow> 's \<Rightarrow> bytes \<Rightarrow> section_limited \<Rightarrow> bool" where
  "engine_reads_imports t process func_types features rest wasm sec \<longleftrightarrow>
     (\<exists>mp consumed p. header_reaches t process func_types (module_parser_new features wasm rest) mp
        \<and> next_payload t (mp_buffer mp) (mp_parser mp) = Ok (Inr (consumed, PSection 2 sec, p)))"

lemma first_payload_is_version:
  assumes "next_payload t (mp_buffer (module_parser_new features wasm rest))
      (mp_parser (module_parser_new features wasm rest)) = Ok (Inr (consumed, PSection i sec, p))"
    and "length wasm < 2 ^ 64" and "32 \<le> usize_bits t"
  shows False
proof -
  let ?mp = "module_parser_new features wasm rest"
  let ?p = "mp_parser ?mp"
  have pp: "ps_max_size ?p = 2 ^ 64 - 1" "ps_state ?p = Header" "mp_buffer ?mp = wasm"
    by (simp_all add: module_parser_new_def set_features_def parser_new_def)
  have fits: "length (mp_buffer ?mp) \<le> ps_max_size ?p" using pp assms(2) by simp
  obtain q r' where pr: "parse_reader t True ?p (start_reader t (mp_buffer ?mp) ?p) = Ok (Inr ((PSection i sec, q), r'))"
    by (rule next_payload_steps [OF assms(1) fits])
  have ph: "parse_header t ?p (start_reader t (mp_buffer ?mp) ?p) = Ok (Inr ((PSection i sec, q), r'))"
    using pr pp(2) by (simp add: parse_reader_def)
  show False by (rule parse_header_steps [OF ph _ assms(3)]) (simp_all add: start_reader_def)
qed

lemma validator_agreement:
  assumes "engine_reads_imports t process func_types features rest wasm sec"
    and "section_collect (read_import t) sec = Ok (Inr is)" and "\<forall>i \<in> set is. plain_type (wi_ty i)"
    and "length wasm < 2 ^ usize_bits t" and "32 \<le> usize_bits t" and "usize_bits t \<le> 64"
  shows "validate_wasm_imports t wasm =
    Ok \<lparr>valid = (refused_imports is = []), rejected_imports = refused_imports is\<rparr>"
proof -
  obtain mp consumed p where r: "header_reaches t process func_types (module_parser_new features wasm rest) mp"
    and n: "next_payload t (mp_buffer mp) (mp_parser mp) = Ok (Inr (consumed, PSection 2 sec, p))"
    using assms(1) by (auto simp: engine_reads_imports_def)
  have len64: "length wasm < 2 ^ 64" by (rule less_usize_u64 [OF assms(4,6)])
  have "mp \<noteq> module_parser_new features wasm rest"
  proof
    assume mp: "mp = module_parser_new features wasm rest"
    show False by (rule first_payload_is_version [OF n [unfolded mp] len64 assms(5)])
  qed
  then have "walk_inv t wasm mp" using header_reaches_inv [OF r assms(4-6)] by simp
  then obtain pos where I: "pos \<le> length wasm" "mp_buffer mp = drop pos wasm"
    "ps_max_size (mp_parser mp) + pos = 2 ^ 64 - 1" "ps_state (mp_parser mp) = SectionStart"
    "8 \<le> length wasm" "take 4 wasm = [0x00, 0x61, 0x73, 0x6D]"
    "ps_encoding (mp_parser mp) = EncModule \<longrightarrow> walk_sections t wasm 8 = walk_sections t wasm pos"
    by (auto simp: walk_inv_def)
  let ?p = "mp_parser mp" and ?r = "start_reader t (drop pos wasm) (mp_parser mp)"
  have fits: "length (mp_buffer mp) \<le> ps_max_size ?p" using I(1-3) len64 by simp
  obtain q r' where pr: "parse_reader t True ?p (start_reader t (mp_buffer mp) ?p)
      = Ok (Inr ((PSection 2 sec, q), r'))"
    by (rule next_payload_steps [OF n fits])
  have ps: "parse_section t True ?p ?r = Ok (Inr ((PSection 2 sec, q), r'))"
    using pr I(2,4) by (simp add: parse_reader_def)
  have enc: "ps_encoding ?p = EncModule"
  proof -
    obtain i s l u where "parse_content t ?p i l u = Ok (Inr ((PSection 2 sec, q), r'))"
      by (rule parse_section_steps [OF ps]) simp
    then show ?thesis by (rule parse_content_imports)
  qed
  have "section_step t wasm pos = Ok (Inl (refused_imports is))"
    using import_section_agrees [OF embedded_start [OF I(1)] ps assms(2,3,4,5)]
    by (simp add: start_reader_def)
  then have "walk_sections t wasm 8 = Ok (refused_imports is)"
    using walk_sections_Inl I(7) enc by simp
  then show ?thesis using I(5,6) by (simp add: validate_wasm_imports_def)
qed

text \<open>
  C5: the import check and the wasm engine agree on what a module imports. Whenever the engine's
  parser arrives at the import section of a module and decodes it, and all the imports are
  functions, ordinary memories or globals of number types, the check returns (it neither panics
  nor hangs), and its verdict is exactly the list of those function imports, in order, that are
  not in the alphabet.
\<close>
theorem validator_agrees_with_engine:
  assumes "engine_reads_imports t process func_types features rest wasm sec"
    and "section_collect (read_import t) sec = Ok (Inr is)" and "\<forall>i \<in> set is. plain_type (wi_ty i)"
    and "length wasm < 2 ^ usize_bits t" and "32 \<le> usize_bits t" and "usize_bits t \<le> 64"
  shows "validate_wasm_imports t wasm =
    Ok \<lparr>valid = (refused_imports is = []), rejected_imports = refused_imports is\<rparr>"
  by (rule validator_agreement [OF assms])

section \<open>A module, evaluated\<close>

text \<open>A module that imports one function, \<open>b\<close> of \<open>a\<close>.\<close>

definition import_module :: bytes where
  "import_module = [0x00, 0x61, 0x73, 0x6D, 1, 0, 0, 0, 2, 7, 1, 1, 0x61, 1, 0x62, 0, 0]"

lemmas reader_eval =
  rd_bind_def rd_return_def rd_fail_def read_u8_def read_bytes_def ensure_has_bytes_def
  read_u32_def read_var_u32_def rd_skip_def slice_range_def index_def slice_from_def
  original_position_def rd_eof_def bytes_remaining_def

lemma header_payload:
  "next_payload esp32c3_release import_module (set_features False (parser_new 0)) =
   Ok (Inr (8, PVersion 1 EncModule, set_features False (parser_new 0)\<lparr>ps_state := SectionStart, ps_offset := 8, ps_max_size := 2 ^ 64 - 9\<rparr>))"
  by (simp add: next_payload_def parse_def Let_def parse_reader_def parse_header_def read_magic_def parser_new_def set_features_def reader_eval esp32c3_release_def import_module_def from_le_bytes_def)

abbreviation "pass \<equiv> (\<lambda>_ s. Ok (Inr s)) :: unit process"
abbreviation "one_type \<equiv> (\<lambda>_. [\<lparr>ft_params = [], ft_results = []\<rparr>]) :: unit \<Rightarrow> func_type list"

definition section_reader :: reader where
  "section_reader = \<lparr>rd_buffer = [1, 1, 0x61, 1, 0x62, 0, 0], rd_position = 1, rd_original_offset = 10,
     rd_shared_everything_threads = False\<rparr>"

lemma imports_payload:
  "next_payload esp32c3_release (drop 8 import_module)
     (set_features False (parser_new 0)\<lparr>ps_state := SectionStart, ps_offset := 8, ps_max_size := 2 ^ 64 - 9\<rparr>) =
   Ok (Inr (9, PSection 2 \<lparr>sec_reader = section_reader, sec_count = 1\<rparr>,
     set_features False (parser_new 0)\<lparr>ps_state := SectionStart, ps_offset := 17, ps_max_size := 2 ^ 64 - 18\<rparr>))"
  by (simp add: next_payload_def parse_def Let_def parse_reader_def parse_section_def parse_content_def
      section_of_def section_limited_new_def section_reader_def
      parser_new_def set_features_def reader_eval esp32c3_release_def import_module_def)

lemma imports_read:
  "section_collect (read_import esp32c3_release) \<lparr>sec_reader = section_reader, sec_count = 1\<rparr>
   = Ok (Inr [\<lparr>wi_module = ''a'', wi_name = ''b'', wi_ty = TrFunc 0\<rparr>])"
  by (simp add: section_collect_def read_import_def read_string_def internal_read_string_def
     MAX_WASM_STRING_SIZE_def read_type_ref_def read_external_kind_def external_kind_from_byte_def
     reader_eval section_reader_def esp32c3_release_def from_utf8_def str_of_bytes_def Let_def char_of_def bit_0)

theorem validator_agrees_with_engine_witness:
  "validate_wasm_imports esp32c3_release import_module = Ok \<lparr>valid = False, rejected_imports = [''b'']\<rparr>"
proof -
  let ?mp = "module_parser_new False import_module ()"
  let ?p8 = "set_features False (parser_new 0)\<lparr>ps_state := SectionStart, ps_offset := 8, ps_max_size := 2 ^ 64 - 9\<rparr>"
  have p: "mp_parser ?mp = set_features False (parser_new 0)" "mp_buffer ?mp = import_module"
    "mp_rest ?mp = ()" by (simp_all add: module_parser_new_def)
  have l: "length import_module = 17" by (simp add: import_module_def)
  have n: "next_payload esp32c3_release (mp_buffer ?mp) (mp_parser ?mp) = Ok (Inr (8, PVersion 1 EncModule, ?p8))"
    unfolding p by (rule header_payload)
  have h: "header_step esp32c3_release pass one_type ?mp
      = Ok (Inr (Inr (?mp\<lparr>mp_parser := ?p8, mp_buffer := drop 8 import_module\<rparr>)))"
    by (simp add: header_step_def n [unfolded p] p consume_buffer_def slice_from_def l Let_def)
  have "header_reaches esp32c3_release pass one_type ?mp (?mp\<lparr>mp_parser := ?p8, mp_buffer := drop 8 import_module\<rparr>)"
    by (rule header_reaches.step [OF header_reaches.start n _ h]) simp
  then have e: "engine_reads_imports esp32c3_release pass one_type False () import_module
      \<lparr>sec_reader = section_reader, sec_count = 1\<rparr>"
    unfolding engine_reads_imports_def using imports_payload by (intro exI conjI) (assumption, simp)
  show ?thesis
    using validator_agrees_with_engine [OF e imports_read]
    by (simp add: import_module_def esp32c3_release_def refused_imports_def ALLOWED_IMPORTS_def)
qed

section \<open>Where they differ\<close>

text \<open>
  The parser takes the reference type \<open>funcref\<close> spelled out as \<open>ref null func\<close>, in two bytes,
  for which the check counts one: behind an import of a global of that type it reads at the wrong
  place, and the forbidden function \<open>x\<close> that follows passes.
\<close>

definition spelled_out_module :: bytes where
  "spelled_out_module = [0x00, 0x61, 0x73, 0x6D, 1, 0, 0, 0, 2, 15, 2, 1, 0x6D, 1, 0x67, 3, 0x63, 0x70, 0,
     1, 0x65, 1, 0x78, 0, 0]"

definition spelled_out_reader :: reader where
  "spelled_out_reader = \<lparr>rd_buffer = drop 10 spelled_out_module, rd_position = 1, rd_original_offset = 10,
     rd_shared_everything_threads = False\<rparr>"

lemma heap_type_70:
  "read_var_s33 \<lparr>rd_buffer = [2, 1, 0x6D, 1, 0x67, 3, 0x63, 0x70, 0, 1, 0x65, 1, 0x78, 0, 0],
      rd_position = 7, rd_original_offset = 10, rd_shared_everything_threads = False\<rparr>
   = Ok (Inr (0xFFFFFFFFFFFFFFF0, \<lparr>rd_buffer = [2, 1, 0x6D, 1, 0x67, 3, 0x63, 0x70, 0, 1, 0x65, 1, 0x78, 0, 0],
      rd_position = 8, rd_original_offset = 10, rd_shared_everything_threads = False\<rparr>))"
  by (simp add: read_var_s33_def reader_eval)

lemma spelled_out_global:
  "read_global_type \<lparr>rd_buffer = [2, 1, 0x6D, 1, 0x67, 3, 0x63, 0x70, 0, 1, 0x65, 1, 0x78, 0, 0],
      rd_position = 6, rd_original_offset = 10, rd_shared_everything_threads = False\<rparr>
   = Ok (Inr (\<lparr>wg_content_type = VtRef (RefType True (HtAbstract False HtFunc)), wg_mutable = False,
        wg_shared = False\<rparr>, \<lparr>rd_buffer = [2, 1, 0x6D, 1, 0x67, 3, 0x63, 0x70, 0, 1, 0x65, 1, 0x78, 0, 0],
      rd_position = 9, rd_original_offset = 10, rd_shared_everything_threads = False\<rparr>))"
  by (simp add: read_global_type_def read_val_type_def read_ref_type_def peek_def ensure_has_byte_def
      rd_map_err_def read_heap_type_def heap_type_70 read_abstract_heap_type_def reader_eval)

lemma spelled_out_read:
  "section_collect (read_import esp32c3_release) \<lparr>sec_reader = spelled_out_reader, sec_count = 2\<rparr>
   = Ok (Inr [\<lparr>wi_module = ''m'', wi_name = ''g'', wi_ty = TrGlobal
          \<lparr>wg_content_type = VtRef (RefType True (HtAbstract False HtFunc)), wg_mutable = False, wg_shared = False\<rparr>\<rparr>,
        \<lparr>wi_module = ''e'', wi_name = ''x'', wi_ty = TrFunc 0\<rparr>])"
proof -
  have b: "drop 10 spelled_out_module = [2, 1, 0x6D, 1, 0x67, 3, 0x63, 0x70, 0, 1, 0x65, 1, 0x78, 0, 0]"
    by (simp add: spelled_out_module_def)
  have c: "section_items p 2 r = section_items p (Suc (Suc 0)) r" for p :: "wp_import read" and r
    by (simp add: numeral_2_eq_2)
  have six: "(6 :: nat) = Suc (Suc (Suc (Suc (Suc (Suc 0)))))" by simp
  show ?thesis
    by (simp add: section_collect_def c read_import_def read_string_def internal_read_string_def
      MAX_WASM_STRING_SIZE_def read_type_ref_def read_external_kind_def external_kind_from_byte_def
      reader_eval spelled_out_reader_def b spelled_out_global [unfolded six] esp32c3_release_def from_utf8_def str_of_bytes_def
      Let_def char_of_def bit_0)
qed

lemma spelled_out_accepted:
  "validate_wasm_imports esp32c3_release spelled_out_module = Ok \<lparr>valid = True, rejected_imports = []\<rparr>"
proof -
  have two: "imports_loop t wasm 2 pos rej = imports_loop t wasm (Suc (Suc 0)) pos rej" for t wasm pos rej
    by (simp add: numeral_2_eq_2)
  have "section_step esp32c3_release spelled_out_module 8 = Ok (Inl [])"
    by (simp add: section_step_def section_header_def import_section_def two import_entry_def read_name_def
        skip_descriptor_def read_leb_at_def read_leb128_one slice_from_def slice_range_def index_def
        spelled_out_module_def esp32c3_release_def)
  then show ?thesis
    using walk_sections_Inl [of esp32c3_release spelled_out_module 8 "[]"]
    by (simp add: validate_wasm_imports_def spelled_out_module_def)
qed

text \<open>
  On the 32-bit boards a module that passes the check can panic the engine's parser: behind the
  import section, the length of the next section wraps the position around in the parser's own
  bounds check, and the slice after it panics.
\<close>

definition huge_section :: bytes where
  "huge_section = [0, 0xFA, 0xFF, 0xFF, 0xFF, 0x0F]"

lemma huge_section_passes:
  "validate_wasm_imports esp32c3_release ([0x00, 0x61, 0x73, 0x6D, 1, 0, 0, 0, 2, 1, 0] @ huge_section)
     = Ok \<lparr>valid = True, rejected_imports = []\<rparr>"
proof -
  let ?w = "[0x00, 0x61, 0x73, 0x6D, 1, 0, 0, 0, 2, 1, 0] @ huge_section"
  have "section_step esp32c3_release ?w 8 = Ok (Inl [])"
    by (simp add: section_step_def section_header_def import_section_def read_leb_at_def read_leb128_one
        slice_from_def index_def huge_section_def esp32c3_release_def)
  then show ?thesis
    using walk_sections_Inl [of esp32c3_release ?w 8 "[]"]
    by (simp add: validate_wasm_imports_def)
qed

lemma huge_section_panics_engine:
  assumes "ps_state p = SectionStart" and "ps_max_size p = 2 ^ 64 - 12"
  shows "next_payload esp32c3_release huge_section p = Panic"
proof -
  have v: "read_var_u32 \<lparr>rd_buffer = [0, 0xFA, 0xFF, 0xFF, 0xFF, 0x0F], rd_position = Suc 0,
      rd_original_offset = k, rd_shared_everything_threads = f\<rparr> = Ok (Inr (0xFFFFFFFA,
      \<lparr>rd_buffer = [0, 0xFA, 0xFF, 0xFF, 0xFF, 0x0F], rd_position = 6,
      rd_original_offset = k, rd_shared_everything_threads = f\<rparr>))" for k f
    by (simp add: read_var_u32_def reader_eval var_u32_loop.simps)
  show ?thesis
    using assms
    by (simp add: next_payload_def parse_def Let_def parse_reader_def parse_section_def v
      parse_content_def section_of_def rd_bind_def read_u8_def rd_skip_def read_bytes_def ensure_has_bytes_def
      usize_add_def slice_range_def original_position_def bytes_remaining_def
      esp32c3_release_def huge_section_def)
qed

end
