(* ===== verification/Header_Termination.thy ===== *)
theory Header_Termination
  imports Import_Agreement
begin

text \<open>
  The engine's loop over the header of a module ends on every input, whatever its validator and builder
  do with the payloads: each payload takes at least one byte of the buffer, and no reader diverges.
\<close>

section \<open>The engine's parser returns\<close>

definition loop_inv :: "'s module_parser \<Rightarrow> bool" where
  "loop_inv mp \<longleftrightarrow> length (mp_buffer mp) \<le> ps_max_size (mp_parser mp)
     \<and> ps_state (mp_parser mp) \<in> {Header, SectionStart}"

lemma header_step_progress:
  assumes inv: "loop_inv mp" and h: "header_step t process func_types mp = Ok (Inr (Inr mp'))"
    and t: "32 \<le> usize_bits t"
  shows "loop_inv mp' \<and> length (mp_buffer mp') < length (mp_buffer mp)"
proof -
  let ?p = "mp_parser mp" and ?r = "start_reader t (mp_buffer mp) (mp_parser mp)"
  have fits: "length (mp_buffer mp) \<le> ps_max_size ?p" using inv by (simp add: loop_inv_def)
  obtain consumed payload p where n: "next_payload t (mp_buffer mp) ?p = Ok (Inr (consumed, payload, p))"
    using h by (auto simp: header_step_def and_then_try_Ok)
  note S = header_step_continues [OF h n]
  obtain q r' where pr: "parse_reader t True ?p ?r = Ok (Inr ((payload, q), r'))"
    and c: "consumed = rd_position r'"
    and p: "p = q\<lparr>ps_offset := ps_offset q + consumed, ps_max_size := ps_max_size q - consumed\<rparr>"
    by (rule next_payload_steps [OF n fits])
  have z: "rd_position ?r = 0" by (simp add: start_reader_def)
  have "ps_max_size q = ps_max_size ?p \<and> ps_state q = SectionStart \<and> 0 < consumed"
  proof (cases "ps_state ?p = Header")
    case True
    then have ph: "parse_header t ?p ?r = Ok (Inr ((payload, q), r'))"
      using pr by (simp add: parse_reader_def)
    show ?thesis
      by (rule parse_header_steps [OF ph z t]) (simp add: c)
  next
    case False
    then have st: "ps_state ?p = SectionStart" using inv by (simp add: loop_inv_def)
    then have ps: "parse_section t True ?p ?r = Ok (Inr ((payload, q), r'))"
      using pr by (simp add: parse_reader_def)
    obtain i s l u where i: "read_u8 ?r = Ok (Inr (i, s))" and l: "read_var_u32 s = Ok (Inr (l, u))"
      and pc: "parse_content t ?p i l u = Ok (Inr ((payload, q), r'))"
      by (rule parse_section_steps [OF ps]) (use S in simp)
    have "rd_position s = 1" using read_u8_step [OF i] z by simp
    moreover have "rd_position s \<le> rd_position u"
      using moves_read_var(1) [of s] l by (simp add: moved_fields(4))
    moreover have "rd_position u \<le> rd_position r'"
      using moves_parse_content [of u t ?p i l] pc by (simp add: moved_fields(4))
    ultimately have "0 < consumed" by (simp add: c)
    moreover have "q = ?p" by (rule parse_content_span [OF pc]) (use S in auto)
    ultimately show ?thesis using st by simp
  qed
  then have q: "ps_max_size q = ps_max_size ?p" "ps_state q = SectionStart" "0 < consumed" by simp_all
  show ?thesis using S p fits q by (simp add: loop_inv_def) (insert S q(3) fits, linarith)
qed

lemma parse_not_Diverges: "parse t buffer True p \<noteq> Diverges"
proof -
  have "parse_reader t e p r \<noteq> Diverges" for e r
    using moves_parse_reader [of r t e p] by auto
  then show ?thesis by (auto simp: parse_def Let_def and_then_eq_Diverges split: prod.split sum.splits)
qed

lemma next_payload_not_Diverges: "next_payload t buffer p \<noteq> Diverges"
  using parse_not_Diverges [of t buffer p]
  by (auto simp: next_payload_def and_then_eq_Diverges split: sum.splits chunk.splits)

lemma import_from_not_Diverges: "import_from i \<noteq> Diverges"
  by (auto simp: import_from_def and_then_eq_Diverges table_type_from_def core_of_ref_type_def
      table_type_new_def table_type_new64_def table_type_new_impl_def memory_type_from_def Let_def
      global_type_from_def core_of_val_type_def
      split: type_ref.splits val_type.splits if_splits option.splits sum.splits)

lemma push_imports_loop_not_Diverges: "push_imports_loop t func_types n r h \<noteq> Diverges"
proof (induction n arbitrary: r h)
  case (Suc n)
  have "read_import t r \<noteq> Diverges" using moves_read_import [of r t] by auto
  then show ?case
    using Suc import_from_not_Diverges
    by (auto simp: and_then_eq_Diverges push_import_def split: sum.splits prod.splits extern_type_idx.splits)
qed simp

lemma header_step_not_Diverges:
  assumes "\<And>payload s. process payload s \<noteq> Diverges"
  shows "header_step t process func_types mp \<noteq> Diverges"
proof -
  have "process_imports t process func_types s h rest \<noteq> Diverges" for s h rest
    using assms push_imports_loop_not_Diverges
    by (auto simp: process_imports_def and_then_eq_Diverges push_imports_def split: sum.splits)
  moreover have "consume_buffer n b \<noteq> Diverges" for n b
    by (simp add: consume_buffer_def slice_from_def)
  ultimately show ?thesis
    using assms next_payload_not_Diverges
    by (auto simp: header_step_def and_then_eq_Diverges Let_def split: sum.splits prod.splits parsed.splits)
qed

lemma header_loop_returns:
  assumes "32 \<le> usize_bits t" and "loop_inv mp"
  shows "\<exists>r. header_loop t process func_types mp = Some r
    \<and> (r = Diverges \<longrightarrow> (\<exists>payload s. process payload s = Diverges))"
  using assms(2)
proof (induction "length (mp_buffer mp)" arbitrary: mp rule: less_induct)
  case less
  show ?case
  proof (cases "header_step t process func_types mp")
    case (Ok x)
    consider e where "x = Inl e" | mp' where "x = Inr (Inl mp')" | mp' where "x = Inr (Inr mp')"
      by (metis sum.exhaust)
    then show ?thesis
    proof cases
      case (3 mp')
      note G = header_step_progress [OF less.prems Ok [unfolded 3] assms(1)]
      obtain r where "header_loop t process func_types mp' = Some r"
          "r = Diverges \<longrightarrow> (\<exists>payload s. process payload s = Diverges)"
        using less.hyps [of mp'] G by blast
      then show ?thesis by (subst header_loop.simps) (simp add: Ok 3)
    qed (subst header_loop.simps, simp add: Ok)+
  next
    case Panic
    then show ?thesis by (subst header_loop.simps) simp
  next
    case Diverges
    then show ?thesis using header_step_not_Diverges [of process t func_types mp]
      by (subst header_loop.simps) auto
  qed
qed

text \<open>
  C31: on every input that fits in memory, and with every overflow of the 32-bit boards, the engine's
  loop over the header of a module comes to an end, whatever the engine's validator and builder do with
  the payloads: it does not run forever, as the import check can. If anything there does not return,
  it is the handling of a single payload.
\<close>
theorem engine_header_returns:
  assumes "32 \<le> usize_bits t" and "length wasm < 2 ^ 64"
  shows "header_loop t process func_types (module_parser_new features wasm rest) \<noteq> None
    \<and> (parse_buffered_header t process func_types features wasm rest = Diverges
         \<longrightarrow> (\<exists>payload s. process payload s = Diverges))"
proof -
  have "loop_inv (module_parser_new features wasm rest)"
    using assms(2) by (simp add: loop_inv_def module_parser_new_def set_features_def parser_new_def)
  from header_loop_returns [OF assms(1) this, of process func_types]
  show ?thesis by (auto simp: parse_buffered_header_def)
qed

theorem engine_header_returns_witness:
  "\<forall>process :: unit process.
     header_loop esp32c3_release process one_type (module_parser_new False wrapping_module ()) \<noteq> None"
proof
  fix process :: "unit process"
  have "32 \<le> usize_bits esp32c3_release" "length wrapping_module < 2 ^ 64"
    by (simp_all add: esp32c3_release_def wrapping_module_def wasm_header_def)
  then show "header_loop esp32c3_release process one_type (module_parser_new False wrapping_module ()) \<noteq> None"
    by (rule engine_header_returns [THEN conjunct1])
qed

end
