(* ===== verification/Interning.thy ===== *)
theory Interning
  imports Ordered_Map
begin

text \<open>
  The arenas of \<open>patches/wasmi_collections/src/arena\<close>: entities that are only ever added, named by
  their index, and the arena that gives equal entities one index. The interface of such a
  deduplication is a locale, which the registry of function types and the string interner of the
  linker both implement.
\<close>

section \<open>Arenas\<close>

type_synonym 'a arena = "'a list"

text \<open>\<open>from_usize\<close> of a 32-bit index, and of one that is kept as a non-zero number, panics beyond its range.\<close>

definition index32 :: "nat \<Rightarrow> nat outcome" where
  "index32 value = (if value < 2 ^ 32 then Ok value else Panic)"

definition index_nonzero32 :: "nat \<Rightarrow> nat outcome" where
  "index_nonzero32 value = (if value < 2 ^ 32 - 1 then Ok value else Panic)"

definition arena_alloc :: "(nat \<Rightarrow> nat outcome) \<Rightarrow> 'a \<Rightarrow> 'a arena \<Rightarrow> (nat \<times> 'a arena) outcome" where
  "arena_alloc from_usize x xs = and_then (from_usize (length xs)) (\<lambda>i. Ok (i, xs @ [x]))"

definition arena_get :: "nat \<Rightarrow> 'a arena \<Rightarrow> 'a option" where
  "arena_get i xs = (if i < length xs then Some (xs ! i) else None)"

text \<open>Two different entities at once; their order does not matter.\<close>

definition arena_get_pair :: "nat \<Rightarrow> nat \<Rightarrow> 'a arena \<Rightarrow> ('a \<times> 'a) option" where
  "arena_get_pair i j xs =
     (if i = j then None
      else case (arena_get i xs, arena_get j xs) of (Some x, Some y) \<Rightarrow> Some (x, y) | _ \<Rightarrow> None)"

lemma index32_Ok [simp]: "index32 n = Ok i \<longleftrightarrow> n = i \<and> n < 2 ^ 32"
  by (auto simp: index32_def)

lemma index_nonzero32_Ok [simp]: "index_nonzero32 n = Ok i \<longleftrightarrow> n = i \<and> n < 2 ^ 32 - 1"
  by (auto simp: index_nonzero32_def)

lemma arena_get_append:
  "arena_get i (xs @ ys) = (if i < length xs then arena_get i xs else arena_get (i - length xs) ys)"
  by (auto simp: arena_get_def nth_append)

lemma arena_get_Some: "arena_get i xs = Some x \<longleftrightarrow> i < length xs \<and> xs ! i = x"
  by (auto simp: arena_get_def)

lemma arena_alloc_Ok:
  assumes "\<And>n i. from_usize n = Ok i \<Longrightarrow> i = n"
  shows "arena_alloc from_usize x xs = Ok (i, xs') \<Longrightarrow> i = length xs \<and> xs' = xs @ [x]"
  using assms by (auto simp: arena_alloc_def and_then_eq_Ok)

section \<open>The interface of a deduplication\<close>

text \<open>
  Interning gives a value a symbol that resolves to it, keeps every symbol there was, and adds at
  most one value.
\<close>

locale interning =
  fixes fresh :: 'm
    and intern :: "'a \<Rightarrow> 'm \<Rightarrow> (nat \<times> 'm) outcome"
    and look_up :: "'a \<Rightarrow> 'm \<Rightarrow> nat option"
    and resolve :: "nat \<Rightarrow> 'm \<Rightarrow> 'a option"
    and well_formed :: "'m \<Rightarrow> bool"
  assumes wf_fresh: "well_formed fresh"
    and look_up_fresh: "look_up x fresh = None"
    and wf_intern: "well_formed m \<Longrightarrow> intern x m = Ok (i, m') \<Longrightarrow> well_formed m'"
    and look_up_resolve: "well_formed m \<Longrightarrow> look_up x m = Some i \<longleftrightarrow> resolve i m = Some x"
    and intern_known: "well_formed m \<Longrightarrow> look_up x m = Some i \<Longrightarrow> intern x m = Ok (i, m)"
    and intern_new: "well_formed m \<Longrightarrow> look_up x m = None \<Longrightarrow> intern x m = Ok (i, m') \<Longrightarrow>
      resolve i m = None \<and> (\<forall>j. resolve j m' = (if j = i then Some x else resolve j m))"
begin

lemma resolve_intern: "well_formed m \<Longrightarrow> intern x m = Ok (i, m') \<Longrightarrow> resolve i m' = Some x"
  using intern_known [of m x] intern_new [of m x i m'] look_up_resolve [of m x]
  by (cases "look_up x m") auto

lemma intern_keeps:
  "well_formed m \<Longrightarrow> intern x m = Ok (i, m') \<Longrightarrow> resolve j m = Some y \<Longrightarrow> resolve j m' = Some y"
  using intern_known [of m x] intern_new [of m x i m']
  by (cases "look_up x m") (auto split: if_splits)

lemma look_up_intern:
  assumes "well_formed m" and "intern x m = Ok (i, m')"
  shows "look_up y m' = (if y = x then Some i else look_up y m)"
proof (cases "look_up x m")
  case None
  have wf: "well_formed m'" by (rule wf_intern [OF assms])
  have n: "resolve i m = None" "\<And>j. resolve j m' = (if j = i then Some x else resolve j m)"
    using intern_new [OF assms(1) None assms(2)] by auto
  have "look_up y m' = Some j \<longleftrightarrow> (if y = x then Some i else look_up y m) = Some j" for j
    using n look_up_resolve [OF wf, of y j] look_up_resolve [OF assms(1), of y j]
      look_up_resolve [OF assms(1), of x j] None
    by auto
  then show ?thesis by (metis not_None_eq)
qed (use assms intern_known [OF assms(1)] in auto)

text \<open>Symbols tell values apart.\<close>

lemma symbols_distinct:
  "well_formed m \<Longrightarrow> look_up x m = Some i \<Longrightarrow> look_up y m = Some j \<Longrightarrow> i = j \<longleftrightarrow> x = y"
  using look_up_resolve [of m x i] look_up_resolve [of m y j] by auto

lemma intern_twice:
  assumes "well_formed m" and "intern x m = Ok (i, m')" and "intern y m' = Ok (j, m'')"
  shows "i = j \<longleftrightarrow> x = y"
proof -
  have wf: "well_formed m'" and wf2: "well_formed m''"
    using wf_intern [OF assms(1,2)] wf_intern [OF _ assms(3)] by auto
  have "look_up x m'' = Some i"
    using look_up_resolve [OF wf2] intern_keeps [OF wf assms(3)] resolve_intern [OF assms(1,2)] by blast
  moreover have "look_up y m'' = Some j"
    using look_up_resolve [OF wf2] resolve_intern [OF wf assms(3)] by blast
  ultimately show ?thesis by (rule symbols_distinct [OF wf2])
qed

end

section \<open>The deduplicating arena\<close>

record 'a dedup_arena =
  da_entity2idx :: "('a, nat) btree"
  da_entities :: "'a arena"

definition dedup_new :: "'a dedup_arena" where
  "dedup_new = \<lparr>da_entity2idx = [], da_entities = []\<rparr>"

definition dedup_alloc ::
  "(nat \<Rightarrow> nat outcome) \<Rightarrow> 'a::linorder \<Rightarrow> 'a dedup_arena \<Rightarrow> (nat \<times> 'a dedup_arena) outcome" where
  "dedup_alloc from_usize x m =
     (case bt_get x (da_entity2idx m) of
        Some i \<Rightarrow> Ok (i, m)
      | None \<Rightarrow>
          and_then (from_usize (length (da_entities m))) (\<lambda>i.
          and_then (arena_alloc from_usize x (da_entities m)) (\<lambda>(_, entities).
            Ok (i, \<lparr>da_entity2idx = bt_insert x i (da_entity2idx m), da_entities = entities\<rparr>))))"

definition dedup_get :: "nat \<Rightarrow> 'a dedup_arena \<Rightarrow> 'a option" where
  "dedup_get i m = arena_get i (da_entities m)"

text \<open>The map and the arena describe the same numbering.\<close>

definition dedup_ok :: "'a::linorder dedup_arena \<Rightarrow> bool" where
  "dedup_ok m \<longleftrightarrow> bt_sorted (da_entity2idx m) \<and>
     (\<forall>x i. bt_get x (da_entity2idx m) = Some i \<longleftrightarrow> arena_get i (da_entities m) = Some x)"

lemma dedup_alloc_new:
  assumes "bt_get x (da_entity2idx m) = None" and "dedup_alloc index32 x m = Ok (i, m')"
  shows "i = length (da_entities m) \<and> m' = \<lparr>da_entity2idx = bt_insert x i (da_entity2idx m),
    da_entities = da_entities m @ [x]\<rparr>"
  using assms by (auto simp: dedup_alloc_def arena_alloc_def and_then_eq_Ok)

interpretation dedup: interning dedup_new "dedup_alloc index32"
  "\<lambda>x m. bt_get x (da_entity2idx m)" dedup_get dedup_ok
proof
  show "dedup_ok (dedup_new :: 'a dedup_arena)"
    by (simp add: dedup_ok_def dedup_new_def bt_sorted_def bt_get_def arena_get_def)
next
  fix x :: 'a
  show "bt_get x (da_entity2idx dedup_new) = None" by (simp add: dedup_new_def bt_get_def)
next
  fix m :: "'a dedup_arena" and x i m'
  assume ok: "dedup_ok m" and a: "dedup_alloc index32 x m = Ok (i, m')"
  show "dedup_ok m'"
  proof (cases "bt_get x (da_entity2idx m)")
    case None
    have m': "i = length (da_entities m)"
      "m' = \<lparr>da_entity2idx = bt_insert x i (da_entity2idx m), da_entities = da_entities m @ [x]\<rparr>"
      using dedup_alloc_new [OF None a] by auto
    have "\<not> (\<exists>j. arena_get j (da_entities m) = Some x)"
      using ok None unfolding dedup_ok_def by (metis option.distinct(1))
    then show ?thesis
      using ok m' by (auto simp: dedup_ok_def bt_insert_sorted bt_get_def map_of_bt_insert
          arena_get_append arena_get_Some split: if_splits)
  qed (use ok a in \<open>simp add: dedup_alloc_def\<close>)
next
  fix m :: "'a dedup_arena" and x i
  assume "dedup_ok m"
  then show "bt_get x (da_entity2idx m) = Some i \<longleftrightarrow> dedup_get i m = Some x"
    by (simp add: dedup_ok_def dedup_get_def)
next
  fix m :: "'a dedup_arena" and x i
  assume "bt_get x (da_entity2idx m) = Some i"
  then show "dedup_alloc index32 x m = Ok (i, m)" by (simp add: dedup_alloc_def)
next
  fix m :: "'a dedup_arena" and x i m'
  assume "bt_get x (da_entity2idx m) = None" and "dedup_alloc index32 x m = Ok (i, m')"
  from dedup_alloc_new [OF this]
  show "dedup_get i m = None \<and> (\<forall>j. dedup_get j m' = (if j = i then Some x else dedup_get j m))"
    by (auto simp: dedup_get_def arena_get_append) (auto simp: arena_get_def)
qed

end
