(* ===== verification/Func_Types.thy ===== *)
theory Func_Types
  imports Interning Module_Imports "HOL-Library.List_Lexorder"
begin

text \<open>
  Function types as the engine keeps them: the compact representation of
  \<open>patches/wasmi_core/src/func_type.rs\<close>, and the registry of \<open>wasmi/src/engine/func_types.rs\<close>,
  which gives every type of an engine a number. Indirect calls and imports compare these
  representations and numbers instead of the lists of parameters and results. The rest of the
  development speaks of \<open>func_type\<close>, the two lists.
\<close>

section \<open>The compact representation\<close>

datatype func_type_error = TooManyFunctionParams | TooManyFunctionResults

definition func_type_error_display :: "func_type_error \<Rightarrow> string" where
  "func_type_error_display e = (case e of
     TooManyFunctionParams \<Rightarrow> ''encountered a function with too many parameters''
   | TooManyFunctionResults \<Rightarrow> ''encountered a function with too many results'')"

datatype func_type_inner =
    Inline u8 u8 "core_val_type list"
  | Big u16 "core_val_type list"

definition INLINE_SIZE :: "target \<Rightarrow> nat" where
  "INLINE_SIZE t = (if usize_bits t = 32 then 14 else 21)"

definition MAX_LEN_PARAMS :: nat where
  "MAX_LEN_PARAMS = 1000"

definition MAX_LEN_RESULTS :: nat where
  "MAX_LEN_RESULTS = 1000"

text \<open>The unused cells of the small form are \<open>I32\<close>.\<close>

definition try_new_small ::
  "target \<Rightarrow> core_val_type list \<Rightarrow> core_val_type list \<Rightarrow> func_type_inner option" where
  "try_new_small t params results =
     (let len_params = length params; len_results = length results
      in if len_params \<ge> 256 \<or> len_results \<ge> 256 \<or> len_params + len_results \<ge> 256 then None
         else if len_params + len_results > INLINE_SIZE t then None
         else Some (Inline (word_of_nat len_params) (word_of_nat len_results)
                (params @ results @ replicate (INLINE_SIZE t - (len_params + len_results)) TyI32)))"

definition func_type_inner_new ::
  "target \<Rightarrow> core_val_type list \<Rightarrow> core_val_type list \<Rightarrow> func_type_error + func_type_inner" where
  "func_type_inner_new t params results =
     (if length params > MAX_LEN_PARAMS then Inl TooManyFunctionParams
      else if length results > MAX_LEN_RESULTS then Inl TooManyFunctionResults
      else (case try_new_small t params results of
              Some small \<Rightarrow> Inr small
            | None \<Rightarrow> Inr (Big (word_of_nat (length params)) (params @ results))))"

text \<open>The accessors; the slices of a representation made by \<open>new\<close> are in range.\<close>

fun fti_params :: "func_type_inner \<Rightarrow> core_val_type list" where
  "fti_params (Inline len_params len_results cells) = take (unat len_params) cells"
| "fti_params (Big len_params cells) = take (unat len_params) cells"

fun fti_results :: "func_type_inner \<Rightarrow> core_val_type list" where
  "fti_results (Inline len_params len_results cells) =
     take (unat len_results) (drop (unat len_params) cells)"
| "fti_results (Big len_params cells) = drop (unat len_params) cells"

fun fti_len_params :: "func_type_inner \<Rightarrow> u16" where
  "fti_len_params (Inline len_params len_results cells) = ucast len_params"
| "fti_len_params (Big len_params cells) = len_params"

fun fti_len_results :: "func_type_inner \<Rightarrow> u16 outcome" where
  "fti_len_results (Inline len_params len_results cells) = Ok (ucast len_results)"
| "fti_len_results (Big len_params cells) =
     (if length cells < 2 ^ 16 then Ok (word_of_nat (length cells) - len_params) else Panic)"

text \<open>The two lists.\<close>

definition lists_of :: "func_type_inner \<Rightarrow> func_type" where
  "lists_of ft = \<lparr>ft_params = fti_params ft, ft_results = fti_results ft\<rparr>"

lemma func_type_inner_new_cases:
  assumes "func_type_inner_new t params results = Inr ft"
  obtains "length params + length results \<le> INLINE_SIZE t" "INLINE_SIZE t < 256"
      "ft = Inline (word_of_nat (length params)) (word_of_nat (length results))
         (params @ results @ replicate (INLINE_SIZE t - (length params + length results)) TyI32)"
    | "INLINE_SIZE t < length params + length results" "length params \<le> 1000" "length results \<le> 1000"
      "ft = Big (word_of_nat (length params)) (params @ results)"
proof -
  have s: "INLINE_SIZE t < 256" by (simp add: INLINE_SIZE_def)
  show thesis
    using assms that s
    by (auto simp: func_type_inner_new_def try_new_small_def Let_def MAX_LEN_PARAMS_def
        MAX_LEN_RESULTS_def split: if_splits)
qed

lemma unat_u8_small: "n < 256 \<Longrightarrow> unat (word_of_nat n :: u8) = n"
  by (simp add: unat_of_nat_u8)

lemma unat_u16_small: "n < 2 ^ 16 \<Longrightarrow> unat (word_of_nat n :: u16) = n"
  by (simp add: unat_of_nat)

lemma lists_of_new:
  assumes "func_type_inner_new t params results = Inr ft"
  shows "lists_of ft = \<lparr>ft_params = params, ft_results = results\<rparr>"
    and "unat (fti_len_params ft) = length params"
    and "\<exists>n. fti_len_results ft = Ok n \<and> unat n = length results"
proof -
  have "lists_of ft = \<lparr>ft_params = params, ft_results = results\<rparr>
    \<and> unat (fti_len_params ft) = length params
    \<and> (\<exists>n. fti_len_results ft = Ok n \<and> unat n = length results)"
  proof (rule func_type_inner_new_cases [OF assms])
    assume "length params + length results \<le> INLINE_SIZE t" "INLINE_SIZE t < 256"
      "ft = Inline (word_of_nat (length params)) (word_of_nat (length results))
         (params @ results @ replicate (INLINE_SIZE t - (length params + length results)) TyI32)"
    then show ?thesis
      by (simp add: lists_of_def unat_u8_small unsigned_ucast_eq take_bit_nat_eq_self_iff)
  next
    assume b: "length params \<le> 1000" "length results \<le> 1000"
      "ft = Big (word_of_nat (length params)) (params @ results)"
    have "(word_of_nat (length params + length results) :: u16) - word_of_nat (length params)
      = word_of_nat (length results)" by simp
    then show ?thesis using b by (simp add: lists_of_def unat_u16_small)
  qed
  then show "lists_of ft = \<lparr>ft_params = params, ft_results = results\<rparr>"
    "unat (fti_len_params ft) = length params"
    "\<exists>n. fti_len_results ft = Ok n \<and> unat n = length results" by auto
qed

text \<open>Equal lists have equal representations: the comparison of representations is the right one.\<close>

lemma representation_canonical:
  assumes "func_type_inner_new t p r = Inr ft" and "func_type_inner_new t p' r' = Inr ft'"
  shows "ft = ft' \<longleftrightarrow> lists_of ft = lists_of ft'"
  using assms lists_of_new(1) [OF assms(1)] lists_of_new(1) [OF assms(2)] by auto

section \<open>Order\<close>

text \<open>
  The derived order of the representations, which the registry sorts its map by: by constructor
  and then field by field, value types in the order of their declaration.
\<close>

definition val_type_rank :: "core_val_type \<Rightarrow> nat" where
  "val_type_rank ty = (case ty of
     TyI32 \<Rightarrow> 0 | TyI64 \<Rightarrow> 1 | TyF32 \<Rightarrow> 2 | TyF64 \<Rightarrow> 3 | TyV128 \<Rightarrow> 4 | TyFuncRef \<Rightarrow> 5 | TyExternRef \<Rightarrow> 6)"

fun order_key :: "func_type_inner \<Rightarrow> nat list" where
  "order_key (Inline len_params len_results cells) =
     0 # unat len_params # unat len_results # map val_type_rank cells"
| "order_key (Big len_params cells) = 1 # unat len_params # map val_type_rank cells"

lemma val_type_rank_inj: "val_type_rank a = val_type_rank b \<longleftrightarrow> a = b"
  by (cases a; cases b) (simp_all add: val_type_rank_def)

lemma order_key_inj: "order_key a = order_key b \<longleftrightarrow> a = b"
  by (cases a; cases b) (auto simp: inj_map_eq_map inj_def val_type_rank_inj word_unat_eq_iff)

instantiation func_type_inner :: linorder
begin

definition less_eq_func_type_inner :: "func_type_inner \<Rightarrow> func_type_inner \<Rightarrow> bool" where
  "less_eq_func_type_inner a b \<longleftrightarrow> order_key a \<le> order_key b"

definition less_func_type_inner :: "func_type_inner \<Rightarrow> func_type_inner \<Rightarrow> bool" where
  "less_func_type_inner a b \<longleftrightarrow> order_key a < order_key b"

instance
  by standard (auto simp: less_eq_func_type_inner_def less_func_type_inner_def order_key_inj
      dest: antisym)

end

section \<open>The registry\<close>

record func_type_registry =
  fr_engine_idx :: nat
  fr_func_types :: "func_type_inner dedup_arena"

text \<open>The handle of a type: the engine it belongs to and its number there.\<close>

type_synonym dedup_func_type = "nat \<times> nat"

definition registry_new :: "nat \<Rightarrow> func_type_registry" where
  "registry_new engine_idx = \<lparr>fr_engine_idx = engine_idx, fr_func_types = dedup_new\<rparr>"

definition alloc_func_type ::
  "func_type_inner \<Rightarrow> func_type_registry \<Rightarrow> (dedup_func_type \<times> func_type_registry) outcome" where
  "alloc_func_type ft fr =
     and_then (dedup_alloc index32 ft (fr_func_types fr)) (\<lambda>(i, types).
       Ok ((fr_engine_idx fr, i), fr\<lparr>fr_func_types := types\<rparr>))"

definition unwrap_index :: "dedup_func_type \<Rightarrow> func_type_registry \<Rightarrow> nat outcome" where
  "unwrap_index h fr = (if fst h = fr_engine_idx fr then Ok (snd h) else Panic)"

definition resolve_func_type :: "dedup_func_type \<Rightarrow> func_type_registry \<Rightarrow> func_type_inner outcome" where
  "resolve_func_type h fr =
     and_then (unwrap_index h fr) (\<lambda>i.
       case dedup_get i (fr_func_types fr) of Some ft \<Rightarrow> Ok ft | None \<Rightarrow> Panic)"

text \<open>Allocating the types of a module, one after the other.\<close>

fun alloc_func_types ::
  "func_type_inner list \<Rightarrow> func_type_registry \<Rightarrow> (dedup_func_type list \<times> func_type_registry) outcome" where
  "alloc_func_types [] fr = Ok ([], fr)"
| "alloc_func_types (ft # fts) fr =
     and_then (alloc_func_type ft fr) (\<lambda>(h, fr).
     and_then (alloc_func_types fts fr) (\<lambda>(hs, fr). Ok (h # hs, fr)))"

lemma alloc_func_type_Ok:
  assumes "alloc_func_type ft fr = Ok (h, fr')"
  obtains i types where "dedup_alloc index32 ft (fr_func_types fr) = Ok (i, types)"
    "h = (fr_engine_idx fr, i)" "fr' = fr\<lparr>fr_func_types := types\<rparr>"
  using assms by (auto simp: alloc_func_type_def and_then_eq_Ok)

definition registry_ok :: "func_type_registry \<Rightarrow> bool" where
  "registry_ok fr \<longleftrightarrow> dedup_ok (fr_func_types fr)"

lemma registry_ok_alloc: "registry_ok fr \<Longrightarrow> alloc_func_type ft fr = Ok (h, fr') \<Longrightarrow> registry_ok fr'"
  by (erule alloc_func_type_Ok) (auto simp: registry_ok_def intro: dedup.wf_intern)

lemma resolve_after_alloc:
  assumes "registry_ok fr" and "alloc_func_type ft fr = Ok (h, fr')"
  shows "resolve_func_type h fr' = Ok ft"
    and "resolve_func_type g fr = Ok gt \<Longrightarrow> resolve_func_type g fr' = Ok gt"
proof -
  obtain i types where a: "dedup_alloc index32 ft (fr_func_types fr) = Ok (i, types)"
    "h = (fr_engine_idx fr, i)" "fr' = fr\<lparr>fr_func_types := types\<rparr>"
    by (rule alloc_func_type_Ok [OF assms(2)])
  have ok: "dedup_ok (fr_func_types fr)" using assms(1) by (simp add: registry_ok_def)
  show "resolve_func_type h fr' = Ok ft"
    using dedup.resolve_intern [OF ok a(1)] a(2,3) by (simp add: resolve_func_type_def unwrap_index_def)
  show "resolve_func_type g fr' = Ok gt" if "resolve_func_type g fr = Ok gt"
    using that dedup.intern_keeps [OF ok a(1)] a(3)
    by (auto simp: resolve_func_type_def unwrap_index_def split: if_splits option.splits)
qed

lemma handle_iff_type:
  assumes "registry_ok fr" and "alloc_func_type ft fr = Ok (h, fr')" and "registry_ok fr'"
    and "resolve_func_type g fr' = Ok gt"
  shows "h = g \<longleftrightarrow> ft = gt"
proof -
  obtain i types where a: "dedup_alloc index32 ft (fr_func_types fr) = Ok (i, types)"
    "h = (fr_engine_idx fr, i)" "fr' = fr\<lparr>fr_func_types := types\<rparr>"
    by (rule alloc_func_type_Ok [OF assms(2)])
  have g: "fst g = fr_engine_idx fr" "dedup_get (snd g) types = Some gt"
    using assms(4) a(3) by (auto simp: resolve_func_type_def unwrap_index_def split: if_splits option.splits)
  have ok: "dedup_ok types" using assms(3) a(3) by (simp add: registry_ok_def)
  have f: "dedup_get i types = Some ft"
    using resolve_after_alloc(1) [OF assms(1,2)] a
    by (auto simp: resolve_func_type_def unwrap_index_def split: option.splits)
  have "i = snd g \<longleftrightarrow> ft = gt"
    using dedup.look_up_resolve [OF ok] f g(2) by (metis option.inject)
  then show ?thesis using a(2) g(1) by (cases g) auto
qed

section \<open>Handles tell types apart\<close>

lemma alloc_func_types_ok:
  "alloc_func_types fts fr = Ok (hs, fr') \<Longrightarrow> registry_ok fr \<Longrightarrow>
     registry_ok fr' \<and> (\<forall>g gt. resolve_func_type g fr = Ok gt \<longrightarrow> resolve_func_type g fr' = Ok gt)
     \<and> list_all2 (\<lambda>h ft. resolve_func_type h fr' = Ok ft) hs fts"
proof (induction fts arbitrary: fr hs)
  case (Cons ft fts)
  obtain h fr1 hs1 where a: "alloc_func_type ft fr = Ok (h, fr1)"
    and b: "alloc_func_types fts fr1 = Ok (hs1, fr')" and hs: "hs = h # hs1"
    using Cons.prems(1) by (auto simp: and_then_eq_Ok)
  have ok: "registry_ok fr1" by (rule registry_ok_alloc [OF Cons.prems(2) a])
  note IH = Cons.IH [OF b ok] and R = resolve_after_alloc [OF Cons.prems(2) a]
  have "resolve_func_type h fr' = Ok ft" using IH R(1) by (cases h) blast
  then show ?case using IH R(2) hs by auto
qed simp

text \<open>
  C36: The engine compares the signatures of functions by number, at every indirect call and every
  linked import, and that is sound: whatever function types it registers in whatever order, with
  the compact representations of the build target, two of them get the same number exactly when
  they have the same parameters and the same results.
\<close>
theorem signatures_by_number:
  assumes "\<forall>k < length sigs. func_type_inner_new t (fst (sigs ! k)) (snd (sigs ! k)) = Inr (fts ! k)"
    and "length fts = length sigs" and "alloc_func_types fts (registry_new e) = Ok (hs, fr)"
    and "i < length sigs" and "j < length sigs"
  shows "hs ! i = hs ! j \<longleftrightarrow> sigs ! i = sigs ! j"
proof -
  have "registry_ok (registry_new e)"
    by (simp add: registry_ok_def registry_new_def dedup.wf_fresh)
  from alloc_func_types_ok [OF assms(3) this]
  have ok: "registry_ok fr" and hs: "list_all2 (\<lambda>h ft. resolve_func_type h fr = Ok ft) hs fts" by auto
  have r: "resolve_func_type (hs ! k) fr = Ok (fts ! k)" if "k < length sigs" for k
    using that list_all2_nthD2 [OF hs] assms(2) by auto
  have "hs ! i = hs ! j \<longleftrightarrow> fts ! i = fts ! j"
  proof
    assume e: "fts ! i = fts ! j"
    have d: "dedup_ok (fr_func_types fr)" using ok by (simp add: registry_ok_def)
    have g: "fst (hs ! k) = fr_engine_idx fr \<and> dedup_get (snd (hs ! k)) (fr_func_types fr) = Some (fts ! k)"
      if "k < length sigs" for k
      using r [OF that] by (auto simp: resolve_func_type_def unwrap_index_def split: if_splits option.splits)
    have "snd (hs ! i) = snd (hs ! j)"
      using dedup.look_up_resolve [OF d, of "fts ! i"] g [OF assms(4)] g [OF assms(5)] e
      by (metis option.inject)
    then show "hs ! i = hs ! j" using g [OF assms(4)] g [OF assms(5)] by (simp add: prod_eq_iff)
  qed (use r [OF assms(4)] r [OF assms(5)] in auto)
  also have "\<dots> \<longleftrightarrow> lists_of (fts ! i) = lists_of (fts ! j)"
    using assms(1,4,5) by (intro representation_canonical) blast+
  also have "\<dots> \<longleftrightarrow> sigs ! i = sigs ! j"
    using lists_of_new(1) [OF assms(1) [rule_format, OF assms(4)]]
      lists_of_new(1) [OF assms(1) [rule_format, OF assms(5)]]
    by (simp add: prod_eq_iff)
  finally show ?thesis .
qed

theorem signatures_by_number_witness:
  "\<exists>hs fr. alloc_func_types [Inline 1 0 (TyI32 # replicate 13 TyI32), Inline 0 1 (TyI32 # replicate 13 TyI32)]
     (registry_new 0) = Ok (hs, fr) \<and> hs ! 0 \<noteq> hs ! 1"
proof -
  let ?sigs = "[([TyI32], []), ([], [TyI32])] :: (core_val_type list \<times> core_val_type list) list"
  let ?fts = "[Inline 1 0 (TyI32 # replicate 13 TyI32), Inline 0 1 (TyI32 # replicate 13 TyI32)]"
  have n: "\<forall>k < length ?sigs. func_type_inner_new esp32c3_release (fst (?sigs ! k)) (snd (?sigs ! k)) = Inr (?fts ! k)"
    by (auto simp: less_Suc_eq func_type_inner_new_def try_new_small_def INLINE_SIZE_def
        MAX_LEN_PARAMS_def MAX_LEN_RESULTS_def esp32c3_release_def)
  obtain hs fr where a: "alloc_func_types ?fts (registry_new 0) = Ok (hs, fr)"
    by (simp add: alloc_func_type_def dedup_alloc_def arena_alloc_def registry_new_def dedup_new_def
        bt_get_def index32_def)
  show ?thesis
    using a signatures_by_number [OF n _ a, of 0 1] by simp
qed

end
