(* ===== verification/Guest_Store.thy ===== *)
theory Guest_Store
  imports Func_Types "HOL-Library.Char_ord"
begin

text \<open>
  The store of the wasm engine: values (\<open>patches/wasmi/src/value.rs\<close>, \<open>reftype.rs\<close>), globals
  (\<open>wasmi_core/src/global.rs\<close>), functions (\<open>func/mod.rs\<close>), instances (\<open>instance/mod.rs\<close>), externals
  (\<open>instance/exports.rs\<close>) and the arenas that own them (\<open>store/inner.rs\<close>, \<open>store/mod.rs\<close>), each named
  by a handle that also says which store it belongs to. A function type stands for its number in
  the registry (\<open>Func_Types.signatures_by_number\<close>); the trampolines of host functions are an
  argument, and so is the way a handle is written into 64 bits, which the compiler chooses.
  External objects are not kept: the receiver makes none.
\<close>

section \<open>Handles and values\<close>

type_synonym handle = "nat \<times> nat"

definition entity_index :: "nat \<Rightarrow> handle \<Rightarrow> nat option" where
  "entity_index guard_index h = (if fst h \<noteq> guard_index then None else Some (snd h))"

datatype val =
    VI32 u32 | VI64 u64 | VF32 u32 | VF64 u64 | VV128 bytes
  | VFuncRef "handle option" | VExternRef "handle option"

fun val_ty :: "val \<Rightarrow> core_val_type" where
  "val_ty (VI32 _) = TyI32"
| "val_ty (VI64 _) = TyI64"
| "val_ty (VF32 _) = TyF32"
| "val_ty (VF64 _) = TyF64"
| "val_ty (VV128 _) = TyV128"
| "val_ty (VFuncRef _) = TyFuncRef"
| "val_ty (VExternRef _) = TyExternRef"

fun val_default :: "core_val_type \<Rightarrow> val" where
  "val_default TyI32 = VI32 0"
| "val_default TyI64 = VI64 0"
| "val_default TyF32 = VF32 0"
| "val_default TyF64 = VF64 0"
| "val_default TyV128 = VV128 (replicate 16 0)"
| "val_default TyFuncRef = VFuncRef None"
| "val_default TyExternRef = VExternRef None"

text \<open>\<open>transmute\<close> of a handle to 64 bits and back.\<close>

record ref_layout =
  rl_bits :: "handle \<Rightarrow> u64"
  rl_handle :: "u64 \<Rightarrow> handle"

definition untyped_of_ref :: "ref_layout \<Rightarrow> handle option \<Rightarrow> untyped_val" where
  "untyped_of_ref rl r = (case r of Some h \<Rightarrow> rl_bits rl h | None \<Rightarrow> 0)"

definition ref_of_untyped :: "ref_layout \<Rightarrow> untyped_val \<Rightarrow> handle option" where
  "ref_of_untyped rl u = (if u = 0 then None else Some (rl_handle rl u))"

text \<open>Without the feature \<open>simd\<close> a vector has no untyped form.\<close>

fun untyped_of_val :: "ref_layout \<Rightarrow> val \<Rightarrow> untyped_val outcome" where
  "untyped_of_val rl (VI32 x) = Ok (ucast x)"
| "untyped_of_val rl (VI64 x) = Ok x"
| "untyped_of_val rl (VF32 x) = Ok (ucast x)"
| "untyped_of_val rl (VF64 x) = Ok x"
| "untyped_of_val rl (VV128 _) = Panic"
| "untyped_of_val rl (VFuncRef r) = Ok (untyped_of_ref rl r)"
| "untyped_of_val rl (VExternRef r) = Ok (untyped_of_ref rl r)"

fun with_type :: "ref_layout \<Rightarrow> untyped_val \<Rightarrow> core_val_type \<Rightarrow> val outcome" where
  "with_type rl u TyI32 = Ok (VI32 (ucast u))"
| "with_type rl u TyI64 = Ok (VI64 u)"
| "with_type rl u TyF32 = Ok (VF32 (ucast u))"
| "with_type rl u TyF64 = Ok (VF64 u)"
| "with_type rl u TyV128 = Panic"
| "with_type rl u TyFuncRef = Ok (VFuncRef (ref_of_untyped rl u))"
| "with_type rl u TyExternRef = Ok (VExternRef (ref_of_untyped rl u))"

definition typed_of_val :: "ref_layout \<Rightarrow> val \<Rightarrow> typed_val outcome" where
  "typed_of_val rl v =
     and_then (untyped_of_val rl v) (\<lambda>u. Ok \<lparr>tv_ty = val_ty v, tv_value = u\<rparr>)"

definition val_of_typed :: "ref_layout \<Rightarrow> typed_val \<Rightarrow> val outcome" where
  "val_of_typed rl tv = with_type rl (tv_value tv) (tv_ty tv)"

section \<open>Globals\<close>

datatype global_error = ImmutableWrite | TypeMismatch

definition global_error_display :: "global_error \<Rightarrow> string" where
  "global_error_display e = (case e of
     ImmutableWrite \<Rightarrow> ''tried to write to immutable global variable''
   | TypeMismatch \<Rightarrow> ''tried to write value of non-matching type to global variable'')"

record core_global =
  gl_value :: untyped_val
  gl_ty :: global_type

definition core_global_new :: "typed_val \<Rightarrow> mutability \<Rightarrow> core_global" where
  "core_global_new initial_value m =
     \<lparr>gl_value = tv_value initial_value, gl_ty = \<lparr>gt_content = tv_ty initial_value, gt_mutability = m\<rparr>\<rparr>"

definition core_global_set :: "typed_val \<Rightarrow> core_global \<Rightarrow> (global_error + unit) \<times> core_global" where
  "core_global_set new_value g =
     (if gt_mutability (gl_ty g) \<noteq> Var then (Inl ImmutableWrite, g)
      else if gt_content (gl_ty g) \<noteq> tv_ty new_value then (Inl TypeMismatch, g)
      else (Inr (), g\<lparr>gl_value := tv_value new_value\<rparr>))"

definition core_global_get :: "core_global \<Rightarrow> typed_val" where
  "core_global_get g = \<lparr>tv_ty = gt_content (gl_ty g), tv_value = gl_value g\<rparr>"

section \<open>Entities\<close>

record host_func_entity =
  hfe_len_params :: u16
  hfe_len_results :: u16
  hfe_ty :: func_type
  hfe_func :: handle

record wasm_func_entity =
  wfe_ty :: func_type
  wfe_body :: nat
  wfe_instance :: handle

datatype func_entity = WasmFunc wasm_func_entity | HostFunc host_func_entity

definition host_func_entity_new :: "func_type \<Rightarrow> handle \<Rightarrow> host_func_entity" where
  "host_func_entity_new ty func =
     \<lparr>hfe_len_params = word_of_nat (length (ft_params ty)),
      hfe_len_results = word_of_nat (length (ft_results ty)), hfe_ty = ty, hfe_func = func\<rparr>"

fun func_entity_ty :: "func_entity \<Rightarrow> func_type" where
  "func_entity_ty (WasmFunc f) = wfe_ty f"
| "func_entity_ty (HostFunc f) = hfe_ty f"

datatype extern =
    ExGlobal handle | ExTable handle | ExMemory handle | ExFunc handle

datatype extern_type =
    EtGlobal global_type | EtTable table_type | EtMemory memory_type | EtFunc func_type

fun into_global :: "extern \<Rightarrow> handle option" where
  "into_global (ExGlobal h) = Some h"
| "into_global _ = None"

fun into_table :: "extern \<Rightarrow> handle option" where
  "into_table (ExTable h) = Some h"
| "into_table _ = None"

fun into_memory :: "extern \<Rightarrow> handle option" where
  "into_memory (ExMemory h) = Some h"
| "into_memory _ = None"

fun into_func :: "extern \<Rightarrow> handle option" where
  "into_func (ExFunc h) = Some h"
| "into_func _ = None"

type_synonym data_segment_entity = "bytes option"

definition data_segment_bytes :: "data_segment_entity \<Rightarrow> bytes" where
  "data_segment_bytes s = (case s of Some bs \<Rightarrow> bs | None \<Rightarrow> [])"

definition drop_bytes :: "data_segment_entity \<Rightarrow> data_segment_entity" where
  "drop_bytes s = None"

record instance_entity =
  ie_initialized :: bool
  ie_func_types :: "func_type list"
  ie_tables :: "handle list"
  ie_funcs :: "handle list"
  ie_memories :: "handle list"
  ie_globals :: "handle list"
  ie_exports :: "(string, extern) btree"
  ie_data_segments :: "handle list"
  ie_elem_segments :: "handle list"

definition uninitialized :: instance_entity where
  "uninitialized =
     \<lparr>ie_initialized = False, ie_func_types = [], ie_tables = [], ie_funcs = [], ie_memories = [],
      ie_globals = [], ie_exports = [], ie_data_segments = [], ie_elem_segments = []\<rparr>"

section \<open>The store\<close>

record ('h, 'l) store =
  so_idx :: nat
  so_engine :: nat
  so_funcs :: "func_entity arena"
  so_memories :: "memory arena"
  so_tables :: "table arena"
  so_globals :: "core_global arena"
  so_instances :: "instance_entity arena"
  so_datas :: "data_segment_entity arena"
  so_elems :: "element_segment arena"
  so_fuel :: fuel
  so_trampolines :: "'h arena"
  so_limiter :: "'l limiter option"
  so_limiter_state :: 'l

definition store_new :: "nat \<Rightarrow> nat \<Rightarrow> fuel \<Rightarrow> 'l \<Rightarrow> ('h, 'l) store" where
  "store_new idx engine fu l =
     \<lparr>so_idx = idx, so_engine = engine, so_funcs = [], so_memories = [], so_tables = [], so_globals = [],
      so_instances = [], so_datas = [], so_elems = [], so_fuel = fu, so_trampolines = [],
      so_limiter = None, so_limiter_state = l\<rparr>"

text \<open>Resolving a handle: an error, or a panic where the code insists.\<close>

datatype internal_store_error = StoreMismatch | EntityNotFound

definition internal_store_error_display :: "internal_store_error \<Rightarrow> string" where
  "internal_store_error_display e = ''failed to resolve entity: '' @ (case e of
     StoreMismatch \<Rightarrow> ''store owner mismatch'' | EntityNotFound \<Rightarrow> ''entity not found'')"

definition unwrap_stored :: "nat \<Rightarrow> handle \<Rightarrow> internal_store_error + nat" where
  "unwrap_stored idx h = (case entity_index idx h of Some i \<Rightarrow> Inr i | None \<Rightarrow> Inl StoreMismatch)"

definition try_resolve :: "nat \<Rightarrow> handle \<Rightarrow> 'a arena \<Rightarrow> internal_store_error + 'a" where
  "try_resolve idx h entities =
     (case unwrap_stored idx h of
        Inl e \<Rightarrow> Inl e
      | Inr i \<Rightarrow> (case arena_get i entities of Some x \<Rightarrow> Inr x | None \<Rightarrow> Inl EntityNotFound))"

definition resolve_in :: "nat \<Rightarrow> handle \<Rightarrow> 'a arena \<Rightarrow> 'a outcome" where
  "resolve_in idx h entities = (case try_resolve idx h entities of Inr x \<Rightarrow> Ok x | Inl _ \<Rightarrow> Panic)"

definition resolve_func :: "('h, 'l) store \<Rightarrow> handle \<Rightarrow> func_entity outcome" where
  "resolve_func st h = resolve_in (so_idx st) h (so_funcs st)"

definition resolve_memory :: "('h, 'l) store \<Rightarrow> handle \<Rightarrow> memory outcome" where
  "resolve_memory st h = resolve_in (so_idx st) h (so_memories st)"

definition resolve_table :: "('h, 'l) store \<Rightarrow> handle \<Rightarrow> table outcome" where
  "resolve_table st h = resolve_in (so_idx st) h (so_tables st)"

definition resolve_global :: "('h, 'l) store \<Rightarrow> handle \<Rightarrow> core_global outcome" where
  "resolve_global st h = resolve_in (so_idx st) h (so_globals st)"

definition resolve_instance :: "('h, 'l) store \<Rightarrow> handle \<Rightarrow> instance_entity outcome" where
  "resolve_instance st h = resolve_in (so_idx st) h (so_instances st)"

definition resolve_element :: "('h, 'l) store \<Rightarrow> handle \<Rightarrow> element_segment outcome" where
  "resolve_element st h = resolve_in (so_idx st) h (so_elems st)"

text \<open>Adding entities.\<close>

definition alloc_func :: "func_entity \<Rightarrow> ('h, 'l) store \<Rightarrow> (handle \<times> ('h, 'l) store) outcome" where
  "alloc_func x st = and_then (arena_alloc index_nonzero32 x (so_funcs st)) (\<lambda>(i, xs).
     Ok ((so_idx st, i), st\<lparr>so_funcs := xs\<rparr>))"

definition alloc_memory :: "memory \<Rightarrow> ('h, 'l) store \<Rightarrow> (handle \<times> ('h, 'l) store) outcome" where
  "alloc_memory x st = and_then (arena_alloc index32 x (so_memories st)) (\<lambda>(i, xs).
     Ok ((so_idx st, i), st\<lparr>so_memories := xs\<rparr>))"

definition alloc_table :: "table \<Rightarrow> ('h, 'l) store \<Rightarrow> (handle \<times> ('h, 'l) store) outcome" where
  "alloc_table x st = and_then (arena_alloc index32 x (so_tables st)) (\<lambda>(i, xs).
     Ok ((so_idx st, i), st\<lparr>so_tables := xs\<rparr>))"

definition alloc_global :: "core_global \<Rightarrow> ('h, 'l) store \<Rightarrow> (handle \<times> ('h, 'l) store) outcome" where
  "alloc_global x st = and_then (arena_alloc index32 x (so_globals st)) (\<lambda>(i, xs).
     Ok ((so_idx st, i), st\<lparr>so_globals := xs\<rparr>))"

definition alloc_data_segment ::
  "data_segment_entity \<Rightarrow> ('h, 'l) store \<Rightarrow> (handle \<times> ('h, 'l) store) outcome" where
  "alloc_data_segment x st = and_then (arena_alloc index32 x (so_datas st)) (\<lambda>(i, xs).
     Ok ((so_idx st, i), st\<lparr>so_datas := xs\<rparr>))"

definition alloc_element_segment ::
  "element_segment \<Rightarrow> ('h, 'l) store \<Rightarrow> (handle \<times> ('h, 'l) store) outcome" where
  "alloc_element_segment x st = and_then (arena_alloc index32 x (so_elems st)) (\<lambda>(i, xs).
     Ok ((so_idx st, i), st\<lparr>so_elems := xs\<rparr>))"

definition alloc_trampoline :: "'h \<Rightarrow> ('h, 'l) store \<Rightarrow> (handle \<times> ('h, 'l) store) outcome" where
  "alloc_trampoline x st = and_then (arena_alloc Ok x (so_trampolines st)) (\<lambda>(i, xs).
     Ok ((so_idx st, i), st\<lparr>so_trampolines := xs\<rparr>))"

definition alloc_instance :: "('h, 'l) store \<Rightarrow> (handle \<times> ('h, 'l) store) outcome" where
  "alloc_instance st = and_then (arena_alloc index32 uninitialized (so_instances st)) (\<lambda>(i, xs).
     Ok ((so_idx st, i), st\<lparr>so_instances := xs\<rparr>))"

text \<open>Writing an instance once.\<close>

definition initialize_instance ::
  "handle \<Rightarrow> instance_entity \<Rightarrow> ('h, 'l) store \<Rightarrow> ('h, 'l) store outcome" where
  "initialize_instance h init st =
     (if \<not> ie_initialized init then Panic
      else and_then (resolve_instance st h) (\<lambda>uninit.
        if ie_initialized uninit then Panic
        else Ok (st\<lparr>so_instances := (so_instances st)[snd h := init]\<rparr>)))"

text \<open>What the limiter of the store, if there is one, has room for.\<close>

definition saturating_add :: "target \<Rightarrow> nat \<Rightarrow> nat \<Rightarrow> nat" where
  "saturating_add t a b = min (a + b) (2 ^ usize_bits t - 1)"

definition can_create_more ::
  "target \<Rightarrow> ('l limiter \<Rightarrow> 'l \<Rightarrow> nat) \<Rightarrow> nat \<Rightarrow> nat \<Rightarrow> ('h, 'l) store \<Rightarrow> bool" where
  "can_create_more t limit len additional st =
     (case so_limiter st of
        None \<Rightarrow> True
      | Some f \<Rightarrow> \<not> saturating_add t len additional > limit f (so_limiter_state st))"

definition can_create_more_instances :: "target \<Rightarrow> nat \<Rightarrow> ('h, 'l) store \<Rightarrow> bool" where
  "can_create_more_instances t n st = can_create_more t lim_instances (length (so_instances st)) n st"

definition can_create_more_memories :: "target \<Rightarrow> nat \<Rightarrow> ('h, 'l) store \<Rightarrow> bool" where
  "can_create_more_memories t n st = can_create_more t lim_memories (length (so_memories st)) n st"

definition can_create_more_tables :: "target \<Rightarrow> nat \<Rightarrow> ('h, 'l) store \<Rightarrow> bool" where
  "can_create_more_tables t n st = can_create_more t lim_tables (length (so_tables st)) n st"

section \<open>Objects of the embedder\<close>

text \<open>A function of the host: its trampoline and its entity.\<close>

definition host_func_wrap ::
  "func_type \<Rightarrow> 'h \<Rightarrow> ('h, 'l) store \<Rightarrow> (handle \<times> ('h, 'l) store) outcome" where
  "host_func_wrap ty trampoline st =
     and_then (alloc_trampoline trampoline st) (\<lambda>(func, st).
       alloc_func (HostFunc (host_func_entity_new ty func)) st)"

definition memory_object_new ::
  "target \<Rightarrow> allocator \<Rightarrow> memory_type \<Rightarrow> ('h, 'l) store \<Rightarrow>
   ((memory_error + handle) \<times> ('h, 'l) store) outcome" where
  "memory_object_new t al ty st =
     and_then (memory_new t al (so_limiter st) ty (so_limiter_state st)) (\<lambda>(r, l).
       let st = st\<lparr>so_limiter_state := l\<rparr>
       in case r of
            Inl e \<Rightarrow> Ok (Inl e, st)
          | Inr m \<Rightarrow> and_then (alloc_memory m st) (\<lambda>(h, st). Ok (Inr h, st)))"

definition table_object_new ::
  "target \<Rightarrow> ref_layout \<Rightarrow> allocator \<Rightarrow> table_type \<Rightarrow> val \<Rightarrow> ('h, 'l) store \<Rightarrow>
   ((table_error + handle) \<times> ('h, 'l) store) outcome" where
  "table_object_new t rl al ty init st =
     and_then (typed_of_val rl init) (\<lambda>init.
     and_then (table_new t al (so_limiter st) ty init (so_limiter_state st)) (\<lambda>(r, l).
       let st = st\<lparr>so_limiter_state := l\<rparr>
       in case r of
            Inl e \<Rightarrow> Ok (Inl e, st)
          | Inr tab \<Rightarrow> and_then (alloc_table tab st) (\<lambda>(h, st). Ok (Inr h, st))))"

definition global_object_new ::
  "ref_layout \<Rightarrow> val \<Rightarrow> mutability \<Rightarrow> ('h, 'l) store \<Rightarrow> (handle \<times> ('h, 'l) store) outcome" where
  "global_object_new rl init m st =
     and_then (typed_of_val rl init) (\<lambda>init. alloc_global (core_global_new init m) st)"

definition global_object_get :: "ref_layout \<Rightarrow> ('h, 'l) store \<Rightarrow> handle \<Rightarrow> val outcome" where
  "global_object_get rl st h =
     and_then (resolve_global st h) (\<lambda>g. val_of_typed rl (core_global_get g))"

definition global_object_set ::
  "ref_layout \<Rightarrow> handle \<Rightarrow> val \<Rightarrow> ('h, 'l) store \<Rightarrow> ((global_error + unit) \<times> ('h, 'l) store) outcome" where
  "global_object_set rl h v st =
     and_then (typed_of_val rl v) (\<lambda>v.
     and_then (resolve_global st h) (\<lambda>g.
       case core_global_set v g of (r, g) \<Rightarrow> Ok (r, st\<lparr>so_globals := (so_globals st)[snd h := g]\<rparr>)))"

text \<open>The type an external has now, for linking, and the one it was made with.\<close>

definition func_ty :: "('h, 'l) store \<Rightarrow> handle \<Rightarrow> func_type outcome" where
  "func_ty st h = and_then (resolve_func st h) (\<lambda>f. Ok (func_entity_ty f))"

definition extern_ty :: "('h, 'l) store \<Rightarrow> extern \<Rightarrow> extern_type outcome" where
  "extern_ty st x = (case x of
     ExGlobal h \<Rightarrow> and_then (resolve_global st h) (\<lambda>g. Ok (EtGlobal (gl_ty g)))
   | ExTable h \<Rightarrow> and_then (resolve_table st h) (\<lambda>tab. Ok (EtTable (tab_ty tab)))
   | ExMemory h \<Rightarrow> and_then (resolve_memory st h) (\<lambda>m. Ok (EtMemory (mem_type m)))
   | ExFunc h \<Rightarrow> and_then (func_ty st h) (\<lambda>ty. Ok (EtFunc ty)))"

definition get_export :: "('h, 'l) store \<Rightarrow> handle \<Rightarrow> string \<Rightarrow> extern option outcome" where
  "get_export st h name = and_then (resolve_instance st h) (\<lambda>i. Ok (bt_get name (ie_exports i)))"

section \<open>Resolving what was added\<close>

lemma resolve_in_Ok:
  "resolve_in idx h xs = Ok x \<longleftrightarrow> fst h = idx \<and> snd h < length xs \<and> xs ! snd h = x"
  by (auto simp: resolve_in_def try_resolve_def unwrap_stored_def entity_index_def arena_get_def
      split: sum.splits)

lemma resolve_in_not_Diverges [simp]: "resolve_in idx h xs \<noteq> Diverges"
  by (simp add: resolve_in_def split: sum.split)

lemma index32_not_Diverges [simp]: "index32 n \<noteq> Diverges" "index_nonzero32 n \<noteq> Diverges"
  by (simp_all add: index32_def index_nonzero32_def)

lemma arena_alloc_index32: "arena_alloc index32 x xs = Ok r \<longleftrightarrow> r = (length xs, xs @ [x]) \<and> length xs < 2 ^ 32"
  by (auto simp: arena_alloc_def and_then_eq_Ok)

lemma arena_alloc_nonzero32:
  "arena_alloc index_nonzero32 x xs = Ok r \<longleftrightarrow> r = (length xs, xs @ [x]) \<and> length xs < 2 ^ 32 - 1"
  by (auto simp: arena_alloc_def and_then_eq_Ok)

lemmas alloc_defs = alloc_func_def alloc_memory_def alloc_table_def alloc_global_def
  alloc_data_segment_def alloc_element_segment_def alloc_instance_def alloc_trampoline_def

text \<open>
  A value survives being stored untyped, whatever the layout of handles, if handles are never
  written as zero and can be read back.
\<close>

definition layout_ok :: "ref_layout \<Rightarrow> bool" where
  "layout_ok rl \<longleftrightarrow> (\<forall>h. rl_bits rl h \<noteq> 0 \<and> rl_handle rl (rl_bits rl h) = h)"

lemma ucast_back [simp]: "ucast (ucast (x :: u32) :: u64) = x"
  by (simp add: bit_eq_iff bit_ucast_iff)

lemma val_roundtrip:
  assumes "layout_ok rl" and "untyped_of_val rl v = Ok u"
  shows "with_type rl u (val_ty v) = Ok v"
  using assms
  by (cases v) (auto simp: layout_ok_def untyped_of_ref_def ref_of_untyped_def 
      split: option.splits)

end
