(* ===== verification/Const_Expr.thy ===== *)
theory Const_Expr
  imports Guest_Store
begin

text \<open>
  Constant expressions of a module (\<open>patches/wasmi/src/module/init_expr.rs\<close>): how the operators of
  an initialiser are compiled once into a closure and evaluated on every instantiation, against a
  stack machine that runs the operators. The operators are what successive reads of the parser's
  operator reader return; \<open>simd\<close> is off, so a vector constant is not one of them.
\<close>

section \<open>Expressions\<close>

record eval_context =
  ec_global :: "u32 \<Rightarrow> val option outcome"
  ec_func :: "u32 \<Rightarrow> handle option option outcome"

definition empty_eval_context :: eval_context where
  "empty_eval_context = \<lparr>ec_global = (\<lambda>_. Ok None), ec_func = (\<lambda>_. Ok None)\<rparr>"

type_synonym closure = "ref_layout \<Rightarrow> eval_context \<Rightarrow> untyped_val option outcome"

datatype op = OpConst untyped_val | OpGlobal u32 | OpFuncRef u32 | OpExpr closure

definition op_constant :: "ref_layout \<Rightarrow> val \<Rightarrow> op outcome" where
  "op_constant rl v = and_then (untyped_of_val rl v) (\<lambda>u. Ok (OpConst u))"

text \<open>\<open>Option::map\<close> and the question mark, below a panic.\<close>

definition opt_then :: "'a option outcome \<Rightarrow> ('a \<Rightarrow> 'b option outcome) \<Rightarrow> 'b option outcome" where
  "opt_then m f = and_then m (\<lambda>x. case x of None \<Rightarrow> Ok None | Some a \<Rightarrow> f a)"

fun op_eval :: "ref_layout \<Rightarrow> eval_context \<Rightarrow> op \<Rightarrow> untyped_val option outcome" where
  "op_eval rl ctx (OpConst u) = Ok (Some u)"
| "op_eval rl ctx (OpGlobal i) =
     opt_then (ec_global ctx i) (\<lambda>v. and_then (untyped_of_val rl v) (\<lambda>u. Ok (Some u)))"
| "op_eval rl ctx (OpFuncRef i) = opt_then (ec_func ctx i) (\<lambda>r. Ok (Some (untyped_of_ref rl r)))"
| "op_eval rl ctx (OpExpr f) = f rl ctx"

section \<open>Compiling\<close>

record const_expr_stack =
  cs_top :: "op option"
  cs_ops :: "op list"

definition cs_new :: const_expr_stack where
  "cs_new = \<lparr>cs_top = None, cs_ops = []\<rparr>"

definition cs_push :: "op \<Rightarrow> const_expr_stack \<Rightarrow> const_expr_stack" where
  "cs_push x s = (case cs_top s of
     None \<Rightarrow> s\<lparr>cs_top := Some x\<rparr>
   | Some old_top \<Rightarrow> s\<lparr>cs_top := Some x, cs_ops := cs_ops s @ [old_top]\<rparr>)"

definition cs_pop :: "const_expr_stack \<Rightarrow> op option \<times> const_expr_stack" where
  "cs_pop s =
     (if cs_ops s = [] then (cs_top s, s\<lparr>cs_top := None\<rparr>)
      else (cs_top s, s\<lparr>cs_top := Some (last (cs_ops s)), cs_ops := butlast (cs_ops s)\<rparr>))"

definition cs_pop2 :: "const_expr_stack \<Rightarrow> (op \<times> op) option \<times> const_expr_stack" where
  "cs_pop2 s =
     (case cs_pop s of
        (None, s) \<Rightarrow> (None, s)
      | (Some rhs, s) \<Rightarrow>
          (case cs_pop s of (None, s) \<Rightarrow> (None, s) | (Some lhs, s) \<Rightarrow> (Some (lhs, rhs), s)))"

text \<open>The operations of \<open>wasm.rs\<close> on untyped values, between the conversions.\<close>

definition on_i32 :: "(u32 \<Rightarrow> u32 \<Rightarrow> u32) \<Rightarrow> untyped_val \<Rightarrow> untyped_val \<Rightarrow> untyped_val" where
  "on_i32 f lhs rhs = ucast (f (ucast lhs) (ucast rhs))"

definition on_i64 :: "(u64 \<Rightarrow> u64 \<Rightarrow> u64) \<Rightarrow> untyped_val \<Rightarrow> untyped_val \<Rightarrow> untyped_val" where
  "on_i64 f lhs rhs = f lhs rhs"

definition def_expr :: "(untyped_val \<Rightarrow> untyped_val \<Rightarrow> untyped_val) \<Rightarrow> op \<Rightarrow> op \<Rightarrow> op" where
  "def_expr f lhs rhs = OpExpr (\<lambda>rl ctx.
     opt_then (op_eval rl ctx lhs) (\<lambda>l. opt_then (op_eval rl ctx rhs) (\<lambda>r. Ok (Some (f l r)))))"

definition expr_op ::
  "(untyped_val \<Rightarrow> untyped_val \<Rightarrow> untyped_val) \<Rightarrow> const_expr_stack \<Rightarrow> (op \<times> const_expr_stack) outcome" where
  "expr_op f s = (case cs_pop2 s of
     (None, _) \<Rightarrow> Panic
   | (Some (lhs, rhs), s) \<Rightarrow> Ok (def_expr f lhs rhs, s))"

datatype wp_operator =
    I32Const u32 | I64Const u64 | F32Const u32 | F64Const u64 | GlobalGet u32 | RefNull heap_type
  | RefFunc u32 | I32Add | I32Sub | I32Mul | I64Add | I64Sub | I64Mul | EndOp | OtherOp nat

fun operator_op ::
  "ref_layout \<Rightarrow> wp_operator \<Rightarrow> const_expr_stack \<Rightarrow> (op \<times> const_expr_stack) outcome" where
  "operator_op rl (I32Const x) s = and_then (op_constant rl (VI32 x)) (\<lambda>c. Ok (c, s))"
| "operator_op rl (I64Const x) s = and_then (op_constant rl (VI64 x)) (\<lambda>c. Ok (c, s))"
| "operator_op rl (F32Const x) s = and_then (op_constant rl (VF32 x)) (\<lambda>c. Ok (c, s))"
| "operator_op rl (F64Const x) s = and_then (op_constant rl (VF64 x)) (\<lambda>c. Ok (c, s))"
| "operator_op rl (GlobalGet i) s = Ok (OpGlobal i, s)"
| "operator_op rl (RefNull hty) s =
     (if hty = HtAbstract False HtFunc then and_then (op_constant rl (VFuncRef None)) (\<lambda>c. Ok (c, s))
      else if hty = HtAbstract False HtExtern
      then and_then (op_constant rl (VExternRef None)) (\<lambda>c. Ok (c, s))
      else Panic)"
| "operator_op rl (RefFunc i) s = Ok (OpFuncRef i, s)"
| "operator_op rl I32Add s = expr_op (on_i32 (+)) s"
| "operator_op rl I32Sub s = expr_op (on_i32 (-)) s"
| "operator_op rl I32Mul s = expr_op (on_i32 (*)) s"
| "operator_op rl I64Add s = expr_op (on_i64 (+)) s"
| "operator_op rl I64Sub s = expr_op (on_i64 (-)) s"
| "operator_op rl I64Mul s = expr_op (on_i64 (*)) s"
| "operator_op rl EndOp s = Panic"
| "operator_op rl (OtherOp _) s = Panic"

text \<open>The loop over the reads; behind the end there is nothing, or a panic.\<close>

fun const_expr_loop ::
  "ref_layout \<Rightarrow> (reader_error + wp_operator) list \<Rightarrow> const_expr_stack \<Rightarrow> const_expr_stack outcome" where
  "const_expr_loop rl [] s = Panic"
| "const_expr_loop rl (Inl e # rs) s = Panic"
| "const_expr_loop rl (Inr wasm_op # rs) s =
     (if wasm_op = EndOp then (if rs = [] then Ok s else Panic)
      else and_then (operator_op rl wasm_op s) (\<lambda>(x, s). const_expr_loop rl rs (cs_push x s)))"

definition const_expr_new :: "ref_layout \<Rightarrow> (reader_error + wp_operator) list \<Rightarrow> op outcome" where
  "const_expr_new rl reads =
     and_then (const_expr_loop rl reads cs_new) (\<lambda>s.
       case fst (cs_pop s) of None \<Rightarrow> Panic | Some x \<Rightarrow> Ok x)"

definition const_expr_new_funcref :: "u32 \<Rightarrow> op" where
  "const_expr_new_funcref i = OpFuncRef i"

definition const_expr_funcref :: "op \<Rightarrow> u32 option" where
  "const_expr_funcref x = (case x of OpFuncRef i \<Rightarrow> Some i | _ \<Rightarrow> None)"

definition eval_const :: "ref_layout \<Rightarrow> op \<Rightarrow> untyped_val option outcome" where
  "eval_const rl x = op_eval rl empty_eval_context x"

definition eval_with_context ::
  "ref_layout \<Rightarrow> (u32 \<Rightarrow> val outcome) \<Rightarrow> (u32 \<Rightarrow> handle option outcome) \<Rightarrow> op \<Rightarrow> untyped_val option outcome" where
  "eval_with_context rl global_get func_get x =
     op_eval rl \<lparr>ec_global = (\<lambda>i. and_then (global_get i) (\<lambda>v. Ok (Some v))),
                  ec_func = (\<lambda>i. and_then (func_get i) (\<lambda>r. Ok (Some r)))\<rparr> x"

section \<open>The stack machine\<close>

text \<open>The meaning of the operators, run on a stack of values with its top in front.\<close>

fun machine_step ::
  "ref_layout \<Rightarrow> eval_context \<Rightarrow> wp_operator \<Rightarrow> untyped_val list \<Rightarrow> untyped_val list option" where
  "machine_step rl ctx (I32Const x) st = Some (ucast x # st)"
| "machine_step rl ctx (I64Const x) st = Some (x # st)"
| "machine_step rl ctx (F32Const x) st = Some (ucast x # st)"
| "machine_step rl ctx (F64Const x) st = Some (x # st)"
| "machine_step rl ctx (GlobalGet i) st = (case ec_global ctx i of
     Ok (Some v) \<Rightarrow> (case untyped_of_val rl v of Ok u \<Rightarrow> Some (u # st) | _ \<Rightarrow> None) | _ \<Rightarrow> None)"
| "machine_step rl ctx (RefNull hty) st =
     (if hty \<in> {HtAbstract False HtFunc, HtAbstract False HtExtern} then Some (0 # st) else None)"
| "machine_step rl ctx (RefFunc i) st = (case ec_func ctx i of
     Ok (Some r) \<Rightarrow> Some (untyped_of_ref rl r # st) | _ \<Rightarrow> None)"
| "machine_step rl ctx I32Add (b # a # st) = Some (ucast (ucast a + ucast b :: u32) # st)"
| "machine_step rl ctx I32Sub (b # a # st) = Some (ucast (ucast a - ucast b :: u32) # st)"
| "machine_step rl ctx I32Mul (b # a # st) = Some (ucast (ucast a * ucast b :: u32) # st)"
| "machine_step rl ctx I64Add (b # a # st) = Some ((a + b) # st)"
| "machine_step rl ctx I64Sub (b # a # st) = Some ((a - b) # st)"
| "machine_step rl ctx I64Mul (b # a # st) = Some ((a * b) # st)"
| "machine_step rl ctx _ st = None"

fun machine ::
  "ref_layout \<Rightarrow> eval_context \<Rightarrow> wp_operator list \<Rightarrow> untyped_val list \<Rightarrow> untyped_val list option" where
  "machine rl ctx [] st = Some st"
| "machine rl ctx (x # xs) st = Option.bind (machine_step rl ctx x st) (machine rl ctx xs)"

text \<open>The operators on the stack of the compiler, top first.\<close>

definition cs_list :: "const_expr_stack \<Rightarrow> op list" where
  "cs_list s = (case cs_top s of None \<Rightarrow> [] | Some x \<Rightarrow> x # rev (cs_ops s))"

definition cs_ok :: "const_expr_stack \<Rightarrow> bool" where
  "cs_ok s \<longleftrightarrow> (cs_top s = None \<longrightarrow> cs_ops s = [])"

lemma cs_new_list [simp]: "cs_list cs_new = []" "cs_ok cs_new"
  by (simp_all add: cs_list_def cs_new_def cs_ok_def)

lemma cs_push_list [simp]:
  assumes "cs_ok s"
  shows "cs_list (cs_push x s) = x # cs_list s" "cs_ok (cs_push x s)"
  using assms by (auto simp: cs_list_def cs_push_def cs_ok_def split: option.split)

lemma cs_pop_list:
  assumes "cs_ok s"
  shows "fst (cs_pop s) = (case cs_list s of [] \<Rightarrow> None | x # _ \<Rightarrow> Some x)
    \<and> cs_list (snd (cs_pop s)) = tl (cs_list s) \<and> cs_ok (snd (cs_pop s))"
proof (cases "cs_ops s" rule: rev_cases)
  case Nil
  then show ?thesis by (auto simp: cs_list_def cs_pop_def cs_ok_def split: option.split)
next
  case (snoc ops x)
  then obtain y where "cs_top s = Some y" using assms by (auto simp: cs_ok_def)
  then show ?thesis using snoc by (simp add: cs_list_def cs_pop_def cs_ok_def)
qed

lemma expr_op_list:
  assumes "cs_ok s" and "cs_list s = rhs # lhs # xs"
  shows "\<exists>s'. expr_op f s = Ok (def_expr f lhs rhs, s') \<and> cs_list s' = xs \<and> cs_ok s'"
proof -
  obtain s1 where s1: "cs_pop s = (Some rhs, s1)" "cs_list s1 = lhs # xs" "cs_ok s1"
    using cs_pop_list [OF assms(1)] assms(2) by (cases "cs_pop s") auto
  obtain s2 where "cs_pop s1 = (Some lhs, s2)" "cs_list s2 = xs" "cs_ok s2"
    using cs_pop_list [OF s1(3)] s1(2) by (cases "cs_pop s1") auto
  then show ?thesis using s1 by (simp add: expr_op_def cs_pop2_def)
qed

text \<open>Values of the machine against operators of the compiler.\<close>

abbreviation evaluates :: "ref_layout \<Rightarrow> eval_context \<Rightarrow> op \<Rightarrow> untyped_val \<Rightarrow> bool" where
  "evaluates rl ctx x u \<equiv> op_eval rl ctx x = Ok (Some u)"

lemma def_expr_eval:
  "evaluates rl ctx lhs a \<Longrightarrow> evaluates rl ctx rhs b \<Longrightarrow> evaluates rl ctx (def_expr f lhs rhs) (f a b)"
  by (simp add: def_expr_def opt_then_def)

lemma expr_op_machine:
  assumes "cs_ok s" and "list_all2 (evaluates rl ctx) (cs_list s) (b # a # st)" and "v = f a b"
  shows "\<exists>c s'. expr_op f s = Ok (c, s') \<and> cs_ok s' \<and> evaluates rl ctx c v
    \<and> list_all2 (evaluates rl ctx) (cs_list s') st"
proof -
  obtain rhs lhs xs where l: "cs_list s = rhs # lhs # xs" and e: "evaluates rl ctx rhs b" "evaluates rl ctx lhs a"
    "list_all2 (evaluates rl ctx) xs st"
    using assms(2) by (auto simp: list_all2_Cons2)
  show ?thesis using expr_op_list [OF assms(1) l, of f] e assms(3) def_expr_eval by fastforce
qed

lemma operator_op_machine:
  assumes "machine_step rl ctx x st = Some st'" and "cs_ok s" and "list_all2 (evaluates rl ctx) (cs_list s) st"
  shows "\<exists>c s'. operator_op rl x s = Ok (c, s') \<and> x \<noteq> EndOp \<and> cs_ok s'
    \<and> list_all2 (evaluates rl ctx) (c # cs_list s') st'"
  using assms
  by (cases "(rl, ctx, x, st)" rule: machine_step.cases)
    (auto simp: op_constant_def opt_then_def on_i32_def on_i64_def untyped_of_ref_def
      intro!: expr_op_machine split: outcome.splits option.splits if_splits)

lemma const_expr_loop_machine:
  assumes "machine rl ctx body st = Some st'" and "cs_ok s" and "list_all2 (evaluates rl ctx) (cs_list s) st"
  shows "\<exists>s'. const_expr_loop rl (map Inr body @ [Inr EndOp]) s = Ok s' \<and> cs_ok s'
    \<and> list_all2 (evaluates rl ctx) (cs_list s') st'"
  using assms
proof (induction body arbitrary: st s)
  case (Cons x body)
  obtain st1 where m: "machine_step rl ctx x st = Some st1" "machine rl ctx body st1 = Some st'"
    using Cons.prems(1) by (auto simp: bind_eq_Some_conv)
  obtain c s1 where c: "operator_op rl x s = Ok (c, s1)" "x \<noteq> EndOp" "cs_ok s1"
    "list_all2 (evaluates rl ctx) (c # cs_list s1) st1"
    using operator_op_machine [OF m(1) Cons.prems(2,3)] by blast
  have "list_all2 (evaluates rl ctx) (cs_list (cs_push c s1)) st1" "cs_ok (cs_push c s1)"
    using c by simp_all
  from Cons.IH [OF m(2) this(2,1)] c show ?case by simp
qed auto

text \<open>
  C34: compiling a constant expression to closures keeps its meaning. Whenever the stack machine
  runs the operators of an expression to a value, in any context of globals and functions, the
  compiler accepts the expression without a panic, and what it compiles evaluates to that very
  value in that context, with the wrap-around of 32-bit and 64-bit arithmetic.
\<close>
theorem const_expr_computes:
  assumes "machine rl ctx body [] = Some (v # rest)"
  shows "\<exists>x. const_expr_new rl (map Inr body @ [Inr EndOp]) = Ok x \<and> op_eval rl ctx x = Ok (Some v)"
proof -
  obtain s where l: "const_expr_loop rl (map Inr body @ [Inr EndOp]) cs_new = Ok s" "cs_ok s"
    "list_all2 (evaluates rl ctx) (cs_list s) (v # rest)"
    using const_expr_loop_machine [OF assms, of cs_new] by auto
  then obtain x xs where "cs_list s = x # xs" "evaluates rl ctx x v" by (auto simp: list_all2_Cons2)
  then show ?thesis using l(1) cs_pop_list [OF l(2)] by (simp add: const_expr_new_def)
qed

definition witness_layout :: ref_layout where
  "witness_layout = \<lparr>rl_bits = (\<lambda>h. word_of_nat (Suc (snd h))), rl_handle = (\<lambda>u. (0, unat u - 1))\<rparr>"

text \<open>65537, read from global 0, times 65536: in 32 bits the product wraps around.\<close>

theorem const_expr_computes_witness:
  "\<exists>x. const_expr_new witness_layout (map Inr [GlobalGet 0, I32Const 0x10000, I32Mul] @ [Inr EndOp]) = Ok x
    \<and> op_eval witness_layout \<lparr>ec_global = (\<lambda>_. Ok (Some (VI32 0x10001))), ec_func = (\<lambda>_. Ok None)\<rparr> x
      = Ok (Some 0x10000)"
  by (rule const_expr_computes [where rest = "[]"]) simp

end
