(* ===== verification/String_Interner.thy ===== *)
theory String_Interner
  imports Interning "HOL-Library.List_Lexorder"
begin

text \<open>
  The string interner of \<open>patches/wasmi_collections/src/string_interner\<close> as it is built without
  hash collections: a map from strings, ordered by length first, to symbols, and the vector of the
  strings. A Rust string is the list of its bytes, and the bytes compare as numbers.
\<close>

section \<open>Strings ordered by length first\<close>

datatype cmp_ordering = Less | Equal | Greater

definition cmp_nat :: "nat \<Rightarrow> nat \<Rightarrow> cmp_ordering" where
  "cmp_nat a b = (if a < b then Less else if a = b then Equal else Greater)"

text \<open>The loop over the zipped bytes, for short strings, and the comparison of slices.\<close>

fun zip_cmp :: "nat list \<Rightarrow> nat list \<Rightarrow> cmp_ordering" where
  "zip_cmp (l # lhs) (r # rhs) = (case cmp_nat l r of Equal \<Rightarrow> zip_cmp lhs rhs | c \<Rightarrow> c)"
| "zip_cmp _ _ = Equal"

fun slice_cmp :: "nat list \<Rightarrow> nat list \<Rightarrow> cmp_ordering" where
  "slice_cmp [] [] = Equal"
| "slice_cmp [] (r # rhs) = Less"
| "slice_cmp (l # lhs) [] = Greater"
| "slice_cmp (l # lhs) (r # rhs) = (case cmp_nat l r of Equal \<Rightarrow> slice_cmp lhs rhs | c \<Rightarrow> c)"

datatype len_order = LenOrder (len_order_str: string)

definition str_bytes :: "string \<Rightarrow> nat list" where
  "str_bytes s = map of_char s"

definition len_order_cmp :: "len_order \<Rightarrow> len_order \<Rightarrow> cmp_ordering" where
  "len_order_cmp a b =
     (let lhs = str_bytes (len_order_str a); rhs = str_bytes (len_order_str b)
      in case cmp_nat (length lhs) (length rhs) of
           Equal \<Rightarrow> (if length lhs < 8 then zip_cmp lhs rhs else slice_cmp lhs rhs)
         | c \<Rightarrow> c)"

text \<open>It is the order of the lists that start with the length.\<close>

definition len_key :: "len_order \<Rightarrow> nat list" where
  "len_key a = (let lhs = str_bytes (len_order_str a) in length lhs # lhs)"

lemma len_key_inj: "len_key a = len_key b \<longleftrightarrow> a = b"
  by (cases a; cases b) (auto simp: len_key_def str_bytes_def inj_map_eq_map inj_def)

lemma slice_cmp_less: "slice_cmp xs ys = Less \<longleftrightarrow> xs < ys"
  by (induction xs ys rule: slice_cmp.induct) (auto simp: cmp_nat_def split: cmp_ordering.split)

lemma zip_cmp_slice: "length xs = length ys \<Longrightarrow> zip_cmp xs ys = slice_cmp xs ys"
  by (induction xs ys rule: slice_cmp.induct) (auto split: cmp_ordering.split)

lemma len_order_cmp_less: "len_order_cmp a b = Less \<longleftrightarrow> len_key a < len_key b"
  by (auto simp: len_order_cmp_def len_key_def Let_def cmp_nat_def zip_cmp_slice slice_cmp_less)

instantiation len_order :: linorder
begin

definition less_len_order :: "len_order \<Rightarrow> len_order \<Rightarrow> bool" where
  "less_len_order a b \<longleftrightarrow> len_order_cmp a b = Less"

definition less_eq_len_order :: "len_order \<Rightarrow> len_order \<Rightarrow> bool" where
  "less_eq_len_order a b \<longleftrightarrow> a < b \<or> a = (b :: len_order)"

instance
proof
  fix a b c :: len_order
  show "a \<le> b \<or> b \<le> a"
    using len_key_inj [of a b] by (auto simp: less_eq_len_order_def less_len_order_def len_order_cmp_less)
qed (auto simp: less_eq_len_order_def less_len_order_def len_order_cmp_less)

end

section \<open>The interner\<close>

text \<open>A symbol is a \<open>u32\<close>; \<open>from_usize\<close> panics beyond.\<close>

type_synonym sym = nat

definition sym_from_usize :: "nat \<Rightarrow> sym outcome" where
  "sym_from_usize value = (if value < 2 ^ 32 then Ok value else Panic)"

record string_interner =
  si_string2symbol :: "(len_order, sym) btree"
  si_strings :: "string list"

datatype intern_hint = HintNone | LikelyExists | LikelyNew

definition interner_new :: string_interner where
  "interner_new = \<lparr>si_string2symbol = [], si_strings = []\<rparr>"

definition interner_get :: "string \<Rightarrow> string_interner \<Rightarrow> sym option" where
  "interner_get s m = bt_get (LenOrder s) (si_string2symbol m)"

definition interner_resolve :: "sym \<Rightarrow> string_interner \<Rightarrow> string option" where
  "interner_resolve i m = (if i < length (si_strings m) then Some (si_strings m ! i) else None)"

text \<open>\<open>intern\<close> asserts that the string was not there.\<close>

definition interner_intern :: "string \<Rightarrow> string_interner \<Rightarrow> (sym \<times> string_interner) outcome" where
  "interner_intern s m =
     and_then (sym_from_usize (length (si_strings m))) (\<lambda>symbol.
       let old = interner_get s m;
           m = m\<lparr>si_string2symbol := bt_insert (LenOrder s) symbol (si_string2symbol m)\<rparr>
       in if old \<noteq> None then Panic
          else Ok (symbol, m\<lparr>si_strings := si_strings m @ [s]\<rparr>))"

definition hint_existing :: "string \<Rightarrow> string_interner \<Rightarrow> (sym \<times> string_interner) outcome" where
  "hint_existing s m =
     (case interner_get s m of Some symbol \<Rightarrow> Ok (symbol, m) | None \<Rightarrow> interner_intern s m)"

definition hint_new :: "string \<Rightarrow> string_interner \<Rightarrow> (sym \<times> string_interner) outcome" where
  "hint_new s m =
     (case interner_get s m of
        None \<Rightarrow>
          and_then (sym_from_usize (length (si_strings m))) (\<lambda>symbol.
            Ok (symbol, \<lparr>si_string2symbol = bt_insert (LenOrder s) symbol (si_string2symbol m),
                         si_strings = si_strings m @ [s]\<rparr>))
      | Some symbol \<Rightarrow> Ok (symbol, m))"

definition get_or_intern_with_hint ::
  "intern_hint \<Rightarrow> string \<Rightarrow> string_interner \<Rightarrow> (sym \<times> string_interner) outcome" where
  "get_or_intern_with_hint hint s m = (case hint of
     LikelyExists \<Rightarrow> hint_existing s m | LikelyNew \<Rightarrow> hint_new s m | HintNone \<Rightarrow> hint_new s m)"

text \<open>The hint changes the path only.\<close>

lemma hint_irrelevant: "get_or_intern_with_hint hint s m = hint_new s m"
  by (cases hint; cases m) (auto simp: get_or_intern_with_hint_def hint_existing_def hint_new_def
      interner_intern_def Let_def split: option.split)

definition interner_ok :: "string_interner \<Rightarrow> bool" where
  "interner_ok m \<longleftrightarrow> bt_sorted (si_string2symbol m) \<and> length (si_strings m) \<le> 2 ^ 32
     \<and> (\<forall>s i. interner_get s m = Some i \<longleftrightarrow> interner_resolve i m = Some s)"

lemma hint_new_fresh:
  assumes "interner_get s m = None" and "hint_new s m = Ok (i, m')"
  shows "i = length (si_strings m) \<and> i < 2 ^ 32 \<and> m' =
    \<lparr>si_string2symbol = bt_insert (LenOrder s) i (si_string2symbol m), si_strings = si_strings m @ [s]\<rparr>"
  using assms by (auto simp: hint_new_def sym_from_usize_def split: if_splits)

interpretation interner: interning interner_new "get_or_intern_with_hint hint" interner_get
  interner_resolve interner_ok for hint
proof
  show "interner_ok interner_new"
    by (simp add: interner_ok_def interner_new_def bt_sorted_def interner_get_def bt_get_def
        interner_resolve_def)
  show "interner_get s interner_new = None" for s
    by (simp add: interner_new_def interner_get_def bt_get_def)
next
  fix m s i m'
  assume ok: "interner_ok m" and a: "get_or_intern_with_hint hint s m = Ok (i, m')"
  show "interner_ok m'"
  proof (cases "interner_get s m")
    case None
    have m': "i = length (si_strings m)" "i < 2 ^ 32"
      "m' = \<lparr>si_string2symbol = bt_insert (LenOrder s) i (si_string2symbol m), si_strings = si_strings m @ [s]\<rparr>"
      using hint_new_fresh [OF None] a by (auto simp: hint_irrelevant)
    have n: "interner_resolve j m \<noteq> Some s" for j
      using ok None unfolding interner_ok_def by (metis option.distinct(1))
    have "interner_get r m' = (if r = s then Some i else interner_get r m)" for r
      using ok m'(3) by (auto simp: interner_ok_def interner_get_def bt_get_def map_of_bt_insert)
    moreover have "interner_resolve j m' = (if j = i then Some s else interner_resolve j m)" for j
      using m'(1,3) by (auto simp: interner_resolve_def nth_append)
    moreover have "interner_resolve i m = None" using m'(1) by (simp add: interner_resolve_def)
    ultimately show ?thesis
      using ok n m' by (auto simp: interner_ok_def bt_insert_sorted split: if_splits)
  qed (use ok a in \<open>simp add: hint_irrelevant hint_new_def\<close>)
next
  show "interner_ok m \<Longrightarrow> interner_get s m = Some i \<longleftrightarrow> interner_resolve i m = Some s" for m s i
    by (simp add: interner_ok_def)
  show "interner_get s m = Some i \<Longrightarrow> get_or_intern_with_hint hint s m = Ok (i, m)" for m s i
    by (simp add: hint_irrelevant hint_new_def)
next
  fix m s i m'
  assume "interner_get s m = None" and "get_or_intern_with_hint hint s m = Ok (i, m')"
  then show "interner_resolve i m = None
    \<and> (\<forall>j. interner_resolve j m' = (if j = i then Some s else interner_resolve j m))"
    using hint_new_fresh [of s m i m'] by (auto simp: hint_irrelevant interner_resolve_def nth_append)
qed

lemma hint_new_bound:
  "interner_ok m \<Longrightarrow> hint_new s m = Ok (i, m') \<Longrightarrow> i < 2 ^ 32"
  using hint_new_fresh [of s m i m']
  by (cases "interner_get s m")
    (auto simp: hint_new_def interner_ok_def interner_resolve_def split: if_splits)

lemma interner_get_bound: "interner_ok m \<Longrightarrow> interner_get s m = Some i \<Longrightarrow> i < 2 ^ 32"
  by (auto simp: interner_ok_def interner_resolve_def split: if_splits)

end
