(* ===== verification/Linker.thy ===== *)
theory Linker
  imports Guest_Store String_Interner
begin

unbundle bit_operations_syntax

text \<open>
  The linker of the wasm engine (\<open>patches/wasmi/src/linker.rs\<close>): definitions under interned names,
  their errors, aliases, and resolving the imports of a module against them. The abstract
  specification is a map from module and field names to definitions.
\<close>

section \<open>Errors\<close>

text \<open>The derived debug texts of the types an error shows.\<close>

fun comma_sep :: "string list \<Rightarrow> string" where
  "comma_sep [] = []"
| "comma_sep [x] = x"
| "comma_sep (x # xs) = x @ '', '' @ comma_sep xs"

definition debug_struct :: "string \<Rightarrow> (string \<times> string) list \<Rightarrow> string" where
  "debug_struct name fs =
     name @ '' { '' @ comma_sep (map (\<lambda>(f, v). f @ '': '' @ v) fs) @ '' }''"

definition debug_option :: "('a \<Rightarrow> string) \<Rightarrow> 'a option \<Rightarrow> string" where
  "debug_option f x = (case x of None \<Rightarrow> ''None'' | Some y \<Rightarrow> ''Some('' @ f y @ '')'')"

fun val_type_debug :: "core_val_type \<Rightarrow> string" where
  "val_type_debug TyI32 = ''I32''"
| "val_type_debug TyI64 = ''I64''"
| "val_type_debug TyF32 = ''F32''"
| "val_type_debug TyF64 = ''F64''"
| "val_type_debug TyV128 = ''V128''"
| "val_type_debug TyFuncRef = ''FuncRef''"
| "val_type_debug TyExternRef = ''ExternRef''"

definition index_type_debug :: "index_type \<Rightarrow> string" where
  "index_type_debug it = (case it of I32 \<Rightarrow> ''I32'' | I64 \<Rightarrow> ''I64'')"

definition val_types_debug :: "core_val_type list \<Rightarrow> string" where
  "val_types_debug tys = ''['' @ comma_sep (map val_type_debug tys) @ '']''"

definition func_type_debug :: "func_type \<Rightarrow> string" where
  "func_type_debug ty = debug_struct ''FuncType''
     [(''core'', debug_struct ''FuncType'' [(''params'', val_types_debug (ft_params ty)),
        (''results'', val_types_debug (ft_results ty))])]"

definition table_type_debug :: "table_type \<Rightarrow> string" where
  "table_type_debug ty = debug_struct ''TableType''
     [(''core'', debug_struct ''TableType'' [(''element'', val_type_debug (tt_element ty)),
        (''min'', dec (unat (tt_min ty))),
        (''max'', debug_option (\<lambda>n. dec (unat n)) (tt_max ty)),
        (''index_ty'', index_type_debug (tt_index_ty ty))])]"

definition memory_type_debug :: "memory_type \<Rightarrow> string" where
  "memory_type_debug ty = debug_struct ''MemoryType''
     [(''core'', debug_struct ''MemoryType'' [(''inner'', debug_struct ''MemoryTypeInner''
        [(''minimum'', dec (unat (mt_minimum ty))),
         (''maximum'', debug_option (\<lambda>n. dec (unat n)) (mt_maximum ty)),
         (''page_size_log2'', dec (unat (mt_page_size_log2 ty))),
         (''index_type'', index_type_debug (mt_index_type ty))])])]"

definition global_type_debug :: "global_type \<Rightarrow> string" where
  "global_type_debug ty = debug_struct ''GlobalType''
     [(''content'', val_type_debug (gt_content ty)),
      (''mutability'', case gt_mutability ty of Const \<Rightarrow> ''Const'' | Var \<Rightarrow> ''Var'')]"

fun extern_type_debug :: "extern_type \<Rightarrow> string" where
  "extern_type_debug (EtGlobal ty) = ''Global('' @ global_type_debug ty @ '')''"
| "extern_type_debug (EtTable ty) = ''Table('' @ table_type_debug ty @ '')''"
| "extern_type_debug (EtMemory ty) = ''Memory('' @ memory_type_debug ty @ '')''"
| "extern_type_debug (EtFunc ty) = ''Func('' @ func_type_debug ty @ '')''"

datatype linker_error =
    DuplicateDefinition import_name
  | MissingDefinition import_name extern_type
  | InvalidTypeDefinition import_name extern_type extern_type

definition linker_error_display :: "linker_error \<Rightarrow> string" where
  "linker_error_display e = (case e of
     DuplicateDefinition name \<Rightarrow>
       ''encountered duplicate definition with name `'' @ import_name_display name @ ''`''
   | MissingDefinition name ty \<Rightarrow>
       ''cannot find definition for import '' @ import_name_display name @ '' with type '' @
       extern_type_debug ty
   | InvalidTypeDefinition name expected found \<Rightarrow>
       ''found definition for import '' @ import_name_display name @ '' with type '' @
       extern_type_debug expected @ '' but found type '' @ extern_type_debug found)"

section \<open>Names and definitions\<close>

text \<open>Two symbols in one number.\<close>

definition import_key_new :: "sym \<Rightarrow> sym \<Rightarrow> u64" where
  "import_key_new module name =
     push_bit 32 (ucast (word_of_nat module :: u32)) OR ucast (word_of_nat name :: u32)"

definition key_module :: "u64 \<Rightarrow> sym" where
  "key_module k = unat (ucast (drop_bit 32 k) :: u32)"

definition key_name :: "u64 \<Rightarrow> sym" where
  "key_name k = unat (ucast k :: u32)"

text \<open>An external of the store, or a host function that is added to the store when it is linked.\<close>

datatype 'h link_def = DefExtern extern | DefHostFunc func_type 'h

definition as_extern :: "'h link_def \<Rightarrow> extern option" where
  "as_extern d = (case d of DefExtern item \<Rightarrow> Some item | DefHostFunc _ _ \<Rightarrow> None)"

definition def_ty :: "('h, 'l) store \<Rightarrow> 'h link_def \<Rightarrow> extern_type outcome" where
  "def_ty st d = (case d of DefExtern item \<Rightarrow> extern_ty st item | DefHostFunc ty _ \<Rightarrow> Ok (EtFunc ty))"

definition as_func :: "'h link_def \<Rightarrow> ('h, 'l) store \<Rightarrow> (handle option \<times> ('h, 'l) store) outcome" where
  "as_func d st = (case d of
     DefExtern (ExFunc func) \<Rightarrow> Ok (Some func, st)
   | DefHostFunc ty trampoline \<Rightarrow>
       and_then (host_func_wrap ty trampoline st) (\<lambda>(func, st). Ok (Some func, st))
   | _ \<Rightarrow> Ok (None, st))"

record 'h linker_inner =
  li_strings :: string_interner
  li_definitions :: "(u64, 'h link_def) btree"
  li_allow_shadowing :: bool

definition linker_inner_default :: "'h linker_inner" where
  "linker_inner_default = \<lparr>li_strings = interner_new, li_definitions = [], li_allow_shadowing = False\<rparr>"

definition allow_shadowing :: "bool \<Rightarrow> 'h linker_inner \<Rightarrow> 'h linker_inner" where
  "allow_shadowing allow li = li\<lparr>li_allow_shadowing := allow\<rparr>"

definition new_import_key :: "string \<Rightarrow> string \<Rightarrow> 'h linker_inner \<Rightarrow> (u64 \<times> 'h linker_inner) outcome" where
  "new_import_key module name li =
     and_then (get_or_intern_with_hint LikelyExists module (li_strings li)) (\<lambda>(m, strings).
     and_then (get_or_intern_with_hint LikelyNew name strings) (\<lambda>(n, strings).
       Ok (import_key_new m n, li\<lparr>li_strings := strings\<rparr>)))"

definition get_import_key :: "string \<Rightarrow> string \<Rightarrow> 'h linker_inner \<Rightarrow> u64 option" where
  "get_import_key module name li =
     (case interner_get module (li_strings li) of
        None \<Rightarrow> None
      | Some m \<Rightarrow> map_option (import_key_new m) (interner_get name (li_strings li)))"

definition resolve_import_key :: "u64 \<Rightarrow> 'h linker_inner \<Rightarrow> (string \<times> string) option" where
  "resolve_import_key k li =
     (case interner_resolve (key_module k) (li_strings li) of
        None \<Rightarrow> None
      | Some m \<Rightarrow> map_option (Pair m) (interner_resolve (key_name k) (li_strings li)))"

definition linker_insert ::
  "u64 \<Rightarrow> 'h link_def \<Rightarrow> 'h linker_inner \<Rightarrow> ((linker_error + unit) \<times> 'h linker_inner) outcome" where
  "linker_insert k item li =
     (if bt_get k (li_definitions li) = None \<or> li_allow_shadowing li
      then Ok (Inr (), li\<lparr>li_definitions := bt_insert k item (li_definitions li)\<rparr>)
      else
        (case resolve_import_key k li of
           None \<Rightarrow> Panic
         | Some (m, f) \<Rightarrow> Ok (Inl (DuplicateDefinition \<lparr>in_module = m, in_field = f\<rparr>), li)))"

fun insert_items ::
  "sym \<Rightarrow> (sym \<times> 'h link_def) list \<Rightarrow> 'h linker_inner \<Rightarrow>
   ((linker_error + unit) \<times> 'h linker_inner) outcome" where
  "insert_items as_module [] li = Ok (Inr (), li)"
| "insert_items as_module ((name, item) # items) li =
     and_then (linker_insert (import_key_new as_module name) item li) (\<lambda>(r, li). case r of
       Inl e \<Rightarrow> Ok (Inl e, li)
     | Inr _ \<Rightarrow> insert_items as_module items li)"

definition alias_module ::
  "string \<Rightarrow> string \<Rightarrow> 'h linker_inner \<Rightarrow> ((linker_error + unit) \<times> 'h linker_inner) outcome" where
  "alias_module module as_module li =
     and_then (get_or_intern_with_hint LikelyExists module (li_strings li)) (\<lambda>(m, strings).
     and_then (get_or_intern_with_hint LikelyNew as_module strings) (\<lambda>(a, strings).
       let li = li\<lparr>li_strings := strings\<rparr>
       in insert_items a (map (\<lambda>(k, d). (key_name k, d))
            (filter (\<lambda>(k, d). key_module k = m) (li_definitions li))) li))"

definition get_definition :: "string \<Rightarrow> string \<Rightarrow> 'h linker_inner \<Rightarrow> 'h link_def option" where
  "get_definition module name li =
     (case get_import_key module name li of None \<Rightarrow> None | Some k \<Rightarrow> bt_get k (li_definitions li))"

section \<open>The linker\<close>

record 'h linker =
  ln_engine :: nat
  ln_inner :: "'h linker_inner"

definition linker_new :: "nat \<Rightarrow> 'h linker" where
  "linker_new engine = \<lparr>ln_engine = engine, ln_inner = linker_inner_default\<rparr>"

text \<open>\<open>define\<close>, \<open>func_new\<close> and \<open>func_wrap\<close> differ in the definition they make.\<close>

definition linker_define ::
  "string \<Rightarrow> string \<Rightarrow> 'h link_def \<Rightarrow> 'h linker \<Rightarrow> ((linker_error + unit) \<times> 'h linker) outcome" where
  "linker_define module name item ln =
     and_then (new_import_key module name (ln_inner ln)) (\<lambda>(k, li).
     and_then (linker_insert k item li) (\<lambda>(r, li). Ok (r, ln\<lparr>ln_inner := li\<rparr>)))"

definition linker_get_definition ::
  "('h, 'l) store \<Rightarrow> string \<Rightarrow> string \<Rightarrow> 'h linker \<Rightarrow> 'h link_def option outcome" where
  "linker_get_definition st module name ln =
     (if so_engine st \<noteq> ln_engine ln then Panic else Ok (get_definition module name (ln_inner ln)))"

definition linker_get :: "('h, 'l) store \<Rightarrow> string \<Rightarrow> string \<Rightarrow> 'h linker \<Rightarrow> extern option outcome" where
  "linker_get st module name ln =
     and_then (linker_get_definition st module name ln) (\<lambda>d. Ok (case d of
       Some (DefExtern item) \<Rightarrow> Some item | _ \<Rightarrow> None))"

fun define_exports ::
  "string \<Rightarrow> (string \<times> extern) list \<Rightarrow> 'h linker \<Rightarrow> ((linker_error + unit) \<times> 'h linker) outcome" where
  "define_exports module [] ln = Ok (Inr (), ln)"
| "define_exports module ((name, item) # es) ln =
     and_then (linker_define module name (DefExtern item) ln) (\<lambda>(r, ln). case r of
       Inl e \<Rightarrow> Ok (Inl e, ln)
     | Inr _ \<Rightarrow> define_exports module es ln)"

definition linker_instance ::
  "('h, 'l) store \<Rightarrow> string \<Rightarrow> handle \<Rightarrow> 'h linker \<Rightarrow> ((linker_error + unit) \<times> 'h linker) outcome" where
  "linker_instance st module h ln =
     (if so_engine st \<noteq> ln_engine ln then Panic
      else and_then (resolve_instance st h) (\<lambda>i. define_exports module (ie_exports i) ln))"

text \<open>An import of a module, and what it is resolved to.\<close>

type_synonym import_type = "import_name \<times> extern_type"

definition missing_definition :: "import_type \<Rightarrow> linker_error" where
  "missing_definition i = MissingDefinition (fst i) (snd i)"

definition invalid_type_definition :: "import_type \<Rightarrow> extern_type \<Rightarrow> linker_error" where
  "invalid_type_definition i found = InvalidTypeDefinition (fst i) (snd i) found"

definition process_import ::
  "'h linker \<Rightarrow> import_type \<Rightarrow> ('h, 'l) store \<Rightarrow> ((linker_error + extern) \<times> ('h, 'l) store) outcome" where
  "process_import ln i st =
     and_then (linker_get_definition st (in_module (fst i)) (in_field (fst i)) ln) (\<lambda>d. case d of
       None \<Rightarrow> Ok (Inl (missing_definition i), st)
     | Some resolved \<Rightarrow>
         (let invalid_type = and_then (def_ty st resolved) (\<lambda>found.
                Ok (Inl (invalid_type_definition i found), st));
              object = (\<lambda>into mk. case Option.bind (as_extern resolved) into of
                Some h \<Rightarrow> Ok (Inr (mk h), st) | None \<Rightarrow> invalid_type)
          in case snd i of
               EtFunc _ \<Rightarrow>
                 and_then (as_func resolved st) (\<lambda>(func, st). case func of
                   Some func \<Rightarrow> Ok (Inr (ExFunc func), st) | None \<Rightarrow> invalid_type)
             | EtTable _ \<Rightarrow> object into_table ExTable
             | EtMemory _ \<Rightarrow> object into_memory ExMemory
             | EtGlobal _ \<Rightarrow> object into_global ExGlobal))"

fun link_imports ::
  "'h linker \<Rightarrow> import_type list \<Rightarrow> ('h, 'l) store \<Rightarrow>
   ((linker_error + extern list) \<times> ('h, 'l) store) outcome" where
  "link_imports ln [] st = Ok (Inr [], st)"
| "link_imports ln (i # is) st =
     and_then (process_import ln i st) (\<lambda>(r, st). case r of
       Inl e \<Rightarrow> Ok (Inl e, st)
     | Inr x \<Rightarrow> and_then (link_imports ln is st) (\<lambda>(r, st). Ok (map_sum id ((#) x) r, st)))"

end
