(* ===== verification/Linker_Spec.thy ===== *)
theory Linker_Spec
  imports Linker
begin

unbundle bit_operations_syntax

text \<open>
  What the linker promises: a map from pairs of names to definitions. Defining adds to the map or
  reports a duplicate, an alias copies the definitions of a module, and looking up reads the map;
  symbols and keys do not show.
\<close>

section \<open>Keys\<close>

lemma key_parts:
  "(ucast (drop_bit 32 (push_bit 32 (ucast (a :: u32) :: u64) OR ucast (b :: u32))) :: u32) = a"
  "(ucast (push_bit 32 (ucast (a :: u32) :: u64) OR ucast (b :: u32)) :: u32) = b"
  by (auto simp: bit_eq_iff bit_simps dest: bit_imp_le_length)

lemma key_whole: "push_bit 32 (ucast (ucast (drop_bit 32 (k :: u64)) :: u32)) OR ucast (ucast k :: u32) = k"
  by (auto simp: bit_eq_iff bit_simps)

lemma key_module_new [simp]: "m < 2 ^ 32 \<Longrightarrow> key_module (import_key_new m n) = m"
  unfolding key_module_def import_key_new_def key_parts by (simp add: unat_of_nat_u32)

lemma key_name_new [simp]: "n < 2 ^ 32 \<Longrightarrow> key_name (import_key_new m n) = n"
  unfolding key_name_def import_key_new_def key_parts by (simp add: unat_of_nat_u32)

lemma key_of_parts [simp]: "import_key_new (key_module k) (key_name k) = k"
  by (simp add: key_module_def key_name_def import_key_new_def key_whole)

lemma key_bounds: "key_module k < 2 ^ 32" "key_name k < 2 ^ 32"
  by (simp_all add: key_module_def key_name_def)

lemma resolve_key_strings:
  "li_strings li' = li_strings li \<Longrightarrow> resolve_import_key k li' = resolve_import_key k li"
  by (simp only: resolve_import_key_def)

lemma get_key_iff_resolve:
  assumes "interner_ok (li_strings li)"
  shows "get_import_key m n li = Some k \<longleftrightarrow> resolve_import_key k li = Some (m, n)"
proof
  assume "get_import_key m n li = Some k"
  then obtain i j where g: "interner_get m (li_strings li) = Some i" "interner_get n (li_strings li) = Some j"
    and k: "k = import_key_new i j"
    by (auto simp: get_import_key_def split: option.splits)
  have "i < 2 ^ 32" "j < 2 ^ 32" using interner_get_bound [OF assms] g by auto
  then show "resolve_import_key k li = Some (m, n)"
    using g k interner.look_up_resolve [OF assms] by (simp add: resolve_import_key_def)
next
  assume "resolve_import_key k li = Some (m, n)"
  then have "interner_get m (li_strings li) = Some (key_module k)"
    "interner_get n (li_strings li) = Some (key_name k)"
    using interner.look_up_resolve [OF assms] by (auto simp: resolve_import_key_def split: option.splits)
  then show "get_import_key m n li = Some k" by (simp add: get_import_key_def)
qed

section \<open>The map\<close>

lemma map_eqI: "(\<And>q e. f q = Some e \<longleftrightarrow> g q = Some e) \<Longrightarrow> f = g"
proof
  fix q
  assume a: "\<And>q e. f q = Some e \<longleftrightarrow> g q = Some e"
  show "f q = g q" using a [of q] by (cases "f q") (metis not_Some_eq)+
qed

type_synonym 'h link_map = "string \<times> string \<Rightarrow> 'h link_def option"

definition linker_view :: "'h linker_inner \<Rightarrow> 'h link_map" where
  "linker_view li = (\<lambda>(m, n). get_definition m n li)"

lemma get_definition_view: "get_definition m n li = linker_view li (m, n)"
  by (simp add: linker_view_def)

definition linker_ok :: "'h linker_inner \<Rightarrow> bool" where
  "linker_ok li \<longleftrightarrow> interner_ok (li_strings li) \<and> bt_sorted (li_definitions li)
     \<and> (\<forall>k. bt_get k (li_definitions li) \<noteq> None \<longrightarrow> resolve_import_key k li \<noteq> None)"

lemma linker_ok_default: "linker_ok linker_inner_default"
  by (simp add: linker_ok_def linker_inner_default_def interner.wf_fresh bt_sorted_def bt_get_def)

lemma view_default: "linker_view linker_inner_default = Map.empty"
  by (auto simp: linker_view_def linker_inner_default_def get_definition_def get_import_key_def
      interner.look_up_fresh)

lemma linker_view_Some:
  assumes "linker_ok li"
  shows "linker_view li p = Some d \<longleftrightarrow>
    (\<exists>k. bt_get k (li_definitions li) = Some d \<and> resolve_import_key k li = Some p)"
proof -
  obtain m n where p: "p = (m, n)" by (cases p)
  have ok: "interner_ok (li_strings li)" using assms by (simp add: linker_ok_def)
  show ?thesis
    unfolding p get_key_iff_resolve [OF ok, symmetric]
    by (auto simp: linker_view_def get_definition_def split: option.splits)
qed

lemma resolve_key_inj:
  assumes "linker_ok li" and "resolve_import_key k li = Some p" and "resolve_import_key k' li = Some p"
  shows "k = k'"
proof -
  have "interner_ok (li_strings li)" using assms(1) by (simp add: linker_ok_def)
  note G = get_key_iff_resolve [OF this]
  show ?thesis using G [of "fst p" "snd p" k] G [of "fst p" "snd p" k'] assms(2,3) by simp
qed

text \<open>Interning names keeps the map.\<close>

definition strings_grow :: "'h linker_inner \<Rightarrow> 'h linker_inner \<Rightarrow> bool" where
  "strings_grow li li' \<longleftrightarrow> interner_ok (li_strings li')
     \<and> li_definitions li' = li_definitions li \<and> li_allow_shadowing li' = li_allow_shadowing li
     \<and> (\<forall>i s. interner_resolve i (li_strings li) = Some s \<longrightarrow> interner_resolve i (li_strings li') = Some s)"

lemma strings_grow_key:
  "strings_grow li li' \<Longrightarrow> resolve_import_key k li = Some p \<Longrightarrow> resolve_import_key k li' = Some p"
  by (auto simp: strings_grow_def resolve_import_key_def split: option.splits)

lemma strings_grow_view:
  assumes "linker_ok li" and "strings_grow li li'"
  shows "linker_ok li'" and "linker_view li' = linker_view li"
proof -
  have same: "resolve_import_key k li' = resolve_import_key k li"
    if "bt_get k (li_definitions li) \<noteq> None" for k
    using that assms strings_grow_key [OF assms(2)] by (fastforce simp: linker_ok_def)
  show ok: "linker_ok li'"
    using assms same by (auto simp: linker_ok_def strings_grow_def)
  have "linker_view li' p = Some d \<longleftrightarrow> linker_view li p = Some d" for p d
    unfolding linker_view_Some [OF ok] linker_view_Some [OF assms(1)]
    using assms(2) same by (auto simp: strings_grow_def)
  then show "linker_view li' = linker_view li" by (rule map_eqI)
qed

lemma intern_grows:
  assumes "interner_ok m" and "get_or_intern_with_hint hint s m = Ok (i, m')"
  shows "interner_ok m'" "interner_resolve i m' = Some s" "i < 2 ^ 32"
    "\<And>j r. interner_resolve j m = Some r \<Longrightarrow> interner_resolve j m' = Some r"
  using interner.wf_intern [OF assms] interner.resolve_intern [OF assms] interner.intern_keeps [OF assms]
    hint_new_bound [OF assms(1)] assms(2) by (auto simp: hint_irrelevant)

lemma new_key_grows:
  assumes "linker_ok li" and "new_import_key m n li = Ok (k, li')"
  shows "strings_grow li li'" and "resolve_import_key k li' = Some (m, n)"
proof -
  obtain i j s1 s2 where a: "get_or_intern_with_hint LikelyExists m (li_strings li) = Ok (i, s1)"
    and b: "get_or_intern_with_hint LikelyNew n s1 = Ok (j, s2)"
    and k: "k = import_key_new i j" "li' = li\<lparr>li_strings := s2\<rparr>"
    using assms(2) by (auto simp: new_import_key_def and_then_eq_Ok)
  have ok: "interner_ok (li_strings li)" using assms(1) by (simp add: linker_ok_def)
  note A = intern_grows [OF ok a]
  note B = intern_grows [OF A(1) b]
  show "strings_grow li li'" using A(4) B(1,4) k by (simp add: strings_grow_def)
  show "resolve_import_key k li' = Some (m, n)"
    using A(2,3) B(2-4) k by (simp add: resolve_import_key_def)
qed

text \<open>Inserting under a key that is named.\<close>

lemma insert_refines:
  assumes ok: "linker_ok li" and key: "resolve_import_key k li = Some p"
  shows "if linker_view li p \<noteq> None \<and> \<not> li_allow_shadowing li
    then linker_insert k d li = Ok (Inl (DuplicateDefinition \<lparr>in_module = fst p, in_field = snd p\<rparr>), li)
    else \<exists>li'. linker_insert k d li = Ok (Inr (), li') \<and> linker_ok li'
      \<and> linker_view li' = (linker_view li)(p \<mapsto> d)
      \<and> li_strings li' = li_strings li \<and> li_allow_shadowing li' = li_allow_shadowing li"
proof -
  have v: "linker_view li p = bt_get k (li_definitions li)"
  proof (cases "linker_view li p")
    case None
    then have "bt_get k (li_definitions li) \<noteq> Some e" for e
      using linker_view_Some [OF ok, of p e] key by auto
    then show ?thesis using None by (cases "bt_get k (li_definitions li)") auto
  next
    case (Some e)
    then obtain k' where "bt_get k' (li_definitions li) = Some e" "resolve_import_key k' li = Some p"
      using linker_view_Some [OF ok, of p e] by auto
    then show ?thesis using resolve_key_inj [OF ok key, of k'] Some by simp
  qed
  show ?thesis
  proof (cases "linker_view li p \<noteq> None \<and> \<not> li_allow_shadowing li")
    case True
    then show ?thesis using v key by (cases p) (simp add: linker_insert_def)
  next
    case False
    let ?li = "li\<lparr>li_definitions := bt_insert k d (li_definitions li)\<rparr>"
    have s: "bt_sorted (li_definitions li)" using ok by (simp add: linker_ok_def)
    have r: "resolve_import_key k' ?li = resolve_import_key k' li" for k'
      by (rule resolve_key_strings) simp
    have g: "bt_get k' (bt_insert k d (li_definitions li)) =
        (if k' = k then Some d else bt_get k' (li_definitions li))" for k'
      using s by (simp add: bt_get_def map_of_bt_insert)
    have ok': "linker_ok ?li"
      using ok key r g s by (auto simp: linker_ok_def bt_insert_sorted)
    have "linker_view ?li q = Some e \<longleftrightarrow> ((linker_view li)(p \<mapsto> d)) q = Some e" for q e
    proof (cases "q = p")
      case True
      have "linker_view ?li p = Some e \<longleftrightarrow> (\<exists>k'. bt_get k' (li_definitions ?li) = Some e \<and> k' = k)"
        unfolding linker_view_Some [OF ok'] r using key resolve_key_inj [OF ok key] by blast
      then show ?thesis using True g by simp
    next
      case q: False
      have "k' \<noteq> k" if "resolve_import_key k' li = Some q" for k' using that key q by auto
      then have "linker_view ?li q = Some e \<longleftrightarrow> linker_view li q = Some e"
        unfolding linker_view_Some [OF ok'] linker_view_Some [OF ok] r using g by auto
      then show ?thesis using q by simp
    qed
    then have "linker_view ?li = (linker_view li)(p \<mapsto> d)" by (rule map_eqI)
    then show ?thesis using False v ok' by (auto simp: linker_insert_def)
  qed
qed

section \<open>Reachable linkers\<close>

inductive linker_reachable :: "nat \<Rightarrow> 'h linker \<Rightarrow> bool" for e :: nat where
  created: "linker_reachable e (linker_new e)"
| shadowing: "linker_reachable e ln \<Longrightarrow>
    linker_reachable e (ln\<lparr>ln_inner := allow_shadowing b (ln_inner ln)\<rparr>)"
| defined: "linker_reachable e ln \<Longrightarrow> linker_define m n d ln = Ok (r, ln') \<Longrightarrow> linker_reachable e ln'"
| aliased: "linker_reachable e ln \<Longrightarrow> alias_module m a (ln_inner ln) = Ok (r, li) \<Longrightarrow>
    linker_reachable e (ln\<lparr>ln_inner := li\<rparr>)"

lemma linker_define_ok:
  assumes ok: "linker_ok (ln_inner ln)" and d: "linker_define m n d ln = Ok (r, ln')"
  shows "linker_ok (ln_inner ln') \<and> ln_engine ln' = ln_engine ln \<and>
    (if linker_view (ln_inner ln) (m, n) \<noteq> None \<and> \<not> li_allow_shadowing (ln_inner ln)
     then r = Inl (DuplicateDefinition \<lparr>in_module = m, in_field = n\<rparr>)
       \<and> linker_view (ln_inner ln') = linker_view (ln_inner ln)
     else r = Inr () \<and> linker_view (ln_inner ln') = (linker_view (ln_inner ln))((m, n) \<mapsto> d))"
proof -
  obtain k li where k: "new_import_key m n (ln_inner ln) = Ok (k, li)"
    and i: "and_then (linker_insert k d li) (\<lambda>(r, li). Ok (r, ln\<lparr>ln_inner := li\<rparr>)) = Ok (r, ln')"
    using d by (auto simp: linker_define_def and_then_eq_Ok)
  note G = new_key_grows [OF ok k]
  note V = strings_grow_view [OF ok G(1)]
  have sh: "li_allow_shadowing li = li_allow_shadowing (ln_inner ln)"
    using G(1) by (simp add: strings_grow_def)
  show ?thesis
    using insert_refines [OF V(1) G(2), of d] i V sh by (auto simp: and_then_eq_Ok split: if_splits)
qed

lemma insert_items_ok:
  assumes "linker_ok li" and "a < 2 ^ 32" and "interner_resolve a (li_strings li) = Some as_module"
    and "\<forall>(i, d) \<in> set items. i < 2 ^ 32 \<and> interner_resolve i (li_strings li) \<noteq> None"
    and "insert_items a items li = Ok (r, li')"
  shows "linker_ok li'"
  using assms
proof (induction items arbitrary: li)
  case (Cons item items)
  obtain i d where item: "item = (i, d)" by (cases item)
  obtain name where n: "i < 2 ^ 32" "interner_resolve i (li_strings li) = Some name"
    using Cons.prems(4) item by auto
  have key: "resolve_import_key (import_key_new a i) li = Some (as_module, name)"
    using Cons.prems(2,3) n by (simp add: resolve_import_key_def)
  from insert_refines [OF Cons.prems(1) key, of d] show ?case
    using Cons.prems Cons.IH item by (auto simp: and_then_eq_Ok split: if_splits sum.splits)
qed simp

lemma alias_module_ok:
  assumes ok: "linker_ok li" and a: "alias_module m as li = Ok (r, li')"
  shows "linker_ok li'"
proof -
  let ?li = "\<lambda>s. li\<lparr>li_strings := s\<rparr>"
  let ?items = "\<lambda>i. map (\<lambda>(k, d). (key_name k, d)) (filter (\<lambda>(k, d). key_module k = i) (li_definitions li))"
  obtain i j s1 s2 where g1: "get_or_intern_with_hint LikelyExists m (li_strings li) = Ok (i, s1)"
    and g2: "get_or_intern_with_hint LikelyNew as s1 = Ok (j, s2)"
    and ins: "insert_items j (?items i) (?li s2) = Ok (r, li')"
    using a by (auto simp: alias_module_def and_then_eq_Ok Let_def)
  have iok: "interner_ok (li_strings li)" using ok by (simp add: linker_ok_def)
  note A = intern_grows [OF iok g1]
  note B = intern_grows [OF A(1) g2]
  have grow: "strings_grow li (?li s2)" using A(4) B(1,4) by (simp add: strings_grow_def)
  have ok2: "linker_ok (?li s2)" by (rule strings_grow_view(1) [OF ok grow])
  have "interner_resolve (key_name k) s2 \<noteq> None" if "(k, d) \<in> set (li_definitions li)" for k d
  proof -
    have "bt_get k (li_definitions li) \<noteq> None"
      using that by (auto simp: bt_get_def map_of_eq_None_iff intro: rev_image_eqI)
    then have "resolve_import_key k (?li s2) \<noteq> None" using ok2 by (simp add: linker_ok_def)
    then show ?thesis by (auto simp: resolve_import_key_def split: option.splits)
  qed
  then show ?thesis
    using insert_items_ok [OF ok2 B(3) _ _ ins, of as] B(2) key_bounds by auto
qed

lemma linker_reachable_ok:
  "linker_reachable e ln \<Longrightarrow> linker_ok (ln_inner ln) \<and> ln_engine ln = e"
proof (induction rule: linker_reachable.induct)
  case created
  then show ?case by (simp add: linker_new_def linker_ok_default)
next
  case (shadowing ln b)
  have "resolve_import_key k (allow_shadowing b (ln_inner ln)) = resolve_import_key k (ln_inner ln)" for k
    by (rule resolve_key_strings) (simp add: allow_shadowing_def)
  then show ?case using shadowing by (simp add: linker_ok_def allow_shadowing_def)
next
  case (defined ln m n d r ln')
  then show ?case using linker_define_ok [of ln m n d r ln'] by simp
next
  case (aliased ln m a r li)
  then show ?case using alias_module_ok [of "ln_inner ln" m a r li] by simp
qed

text \<open>
  C33: The linker is a map from pairs of names to definitions. On every linker that can be built,
  defining a name that is taken, without shadowing, reports exactly that name and changes nothing;
  defining any other name adds just that definition; and a lookup returns what the map holds. No
  two different pairs of names are ever confused, however their symbols are packed.
\<close>
theorem linker_refines_map:
  assumes "linker_reachable e ln" and "linker_define m n d ln = Ok (r, ln')" and "so_engine st = e"
  shows "linker_get_definition st a b ln' = Ok (
      if linker_view (ln_inner ln) (m, n) \<noteq> None \<and> \<not> li_allow_shadowing (ln_inner ln)
      then linker_view (ln_inner ln) (a, b)
      else ((linker_view (ln_inner ln))((m, n) \<mapsto> d)) (a, b))
    \<and> (r = (if linker_view (ln_inner ln) (m, n) \<noteq> None \<and> \<not> li_allow_shadowing (ln_inner ln)
      then Inl (DuplicateDefinition \<lparr>in_module = m, in_field = n\<rparr>) else Inr ()))"
proof -
  have "linker_ok (ln_inner ln)" "ln_engine ln = e"
    using linker_reachable_ok [OF assms(1)] by simp_all
  with linker_define_ok [OF this(1) assms(2)] assms(3) show ?thesis
    unfolding linker_get_definition_def get_definition_view by (auto split: if_splits)
qed

lemmas linker_eval = linker_define_def linker_new_def linker_inner_default_def new_import_key_def
  hint_irrelevant hint_new_def interner_new_def interner_get_def bt_get_def sym_from_usize_def
  linker_insert_def Let_def

theorem linker_refines_map_witness:
  "\<exists>r ln. linker_define ''env'' ''gpio_set'' (DefExtern (ExFunc (0, 0))) (linker_new 0 :: unit linker) = Ok (r, ln)
     \<and> linker_get_definition (store_new 0 0 \<lparr>remaining = 7, enabled = True, costs = \<lparr>custom = None\<rparr>\<rparr> ())
         ''env'' ''gpio_set'' ln = Ok (Some (DefExtern (ExFunc (0, 0)))) \<and> r = Inr ()"
proof -
  let ?ln = "linker_new 0 :: unit linker" and ?d = "DefExtern (ExFunc (0, 0)) :: unit link_def"
  obtain r ln where d: "linker_define ''env'' ''gpio_set'' ?d ?ln = Ok (r, ln)"
    by (simp add: linker_eval)
  have "linker_view (ln_inner ?ln) = Map.empty" by (simp add: linker_new_def view_default)
  with linker_refines_map [OF linker_reachable.created d, of "store_new 0 0 _ ()"] d
  show ?thesis by (auto simp: store_new_def)
qed

end
