(* ===== verification/Receiver_Linker.thy ===== *)
theory Receiver_Linker
  imports Linker_Spec Import_Agreement
begin

text \<open>
  The receiver's linker: \<open>register_syscalls\<close> of \<open>receiver/src/lib.rs\<close> on the engine's linker and
  store, the imports of a module in the order the engine links them (\<open>module/builder.rs\<close>,
  \<open>module/mod.rs\<close>), and what follows for the modules that link.
\<close>

section \<open>Registering the syscalls\<close>

text \<open>The signature \<open>Func::wrap\<close> reads off each closure.\<close>

definition sig :: "core_val_type list \<Rightarrow> core_val_type list \<Rightarrow> func_type" where
  "sig params results = \<lparr>ft_params = params, ft_results = results\<rparr>"

definition syscall_signatures :: "(string \<times> func_type) list" where
  "syscall_signatures =
     [(''gpio_set'', sig [TyI32, TyI32] []),
      (''gpio_get'', sig [TyI32] [TyI32]),
      (''delay_ms'', sig [TyI32] []),
      (''get_uptime_us'', sig [] [TyI64]),
      (''i2c_transfer'', sig [TyI32, TyI32, TyI32, TyI32, TyI32] [TyI32]),
      (''log_msg'', sig [TyI32, TyI32] []),
      (''pwm_set'', sig [TyI32, TyI32] []),
      (''adc_read'', sig [TyI32] [TyI32]),
      (''spi_transfer'', sig [TyI32, TyI32, TyI32, TyI32, TyI32] [TyI32]),
      (''uart_write'', sig [TyI32, TyI32, TyI32] [TyI32]),
      (''uart_read'', sig [TyI32, TyI32, TyI32, TyI32] [TyI32]),
      (''get_param'', sig [TyI32] [TyI32])]"

fun wrap_all ::
  "(string \<Rightarrow> 'h) \<Rightarrow> (string \<times> func_type) list \<Rightarrow> ('h, 'l) store \<Rightarrow>
   ((string \<times> handle) list \<times> ('h, 'l) store) outcome" where
  "wrap_all tr [] st = Ok ([], st)"
| "wrap_all tr ((name, ty) # fs) st =
     and_then (host_func_wrap ty (tr name) st) (\<lambda>(func, st).
     and_then (wrap_all tr fs st) (\<lambda>(hs, st). Ok ((name, func) # hs, st)))"

fun define_all :: "(string \<times> handle) list \<Rightarrow> 'h linker \<Rightarrow> 'h linker outcome" where
  "define_all [] ln = Ok ln"
| "define_all ((name, func) # fs) ln =
     and_then (linker_define ''env'' name (DefExtern (ExFunc func)) ln) (\<lambda>(r, ln). case r of
       Inl _ \<Rightarrow> Panic
     | Inr _ \<Rightarrow> define_all fs ln)"

text \<open>The closure behind each name is an argument.\<close>

definition register_syscalls ::
  "(string \<Rightarrow> 'h) \<Rightarrow> 'h linker \<Rightarrow> ('h, 'l) store \<Rightarrow> ('h linker \<times> ('h, 'l) store) outcome" where
  "register_syscalls tr ln st =
     and_then (wrap_all tr syscall_signatures st) (\<lambda>(funcs, st).
     and_then (define_all funcs ln) (\<lambda>ln. Ok (ln, st)))"

lemma syscall_signatures_names:
  "map (\<lambda>(n, _). (''env'', n)) syscall_signatures = linker_definitions"
  by (simp add: syscall_signatures_def linker_definitions_def)

section \<open>The imports of a module\<close>

text \<open>\<open>ModuleImportsBuilder::finish\<close> and \<open>Module::imports\<close>: functions first.\<close>

definition module_imports :: "header_imports \<Rightarrow> import_type list" where
  "module_imports hi =
     map (\<lambda>(n, ty). (n, EtFunc ty)) (hi_funcs hi) @ map (\<lambda>(n, ty). (n, EtTable ty)) (hi_tables hi) @
     map (\<lambda>(n, ty). (n, EtMemory ty)) (hi_memories hi) @ map (\<lambda>(n, ty). (n, EtGlobal ty)) (hi_globals hi)"

section \<open>What the linker then holds\<close>

text \<open>A function of the store that is a given host closure.\<close>

definition is_host_func :: "('h, 'l) store \<Rightarrow> handle \<Rightarrow> func_type \<Rightarrow> 'h \<Rightarrow> bool" where
  "is_host_func st h ty c \<longleftrightarrow> (\<exists>f. resolve_func st h = Ok (HostFunc f) \<and> hfe_ty f = ty
     \<and> fst (hfe_func f) = so_idx st \<and> arena_get (snd (hfe_func f)) (so_trampolines st) = Some c)"

definition store_grows :: "('h, 'l) store \<Rightarrow> ('h, 'l) store \<Rightarrow> bool" where
  "store_grows st st' \<longleftrightarrow> so_idx st' = so_idx st \<and> so_engine st' = so_engine st
     \<and> (\<exists>fs. so_funcs st' = so_funcs st @ fs) \<and> (\<exists>ts. so_trampolines st' = so_trampolines st @ ts)"

lemma store_grows_refl [simp]: "store_grows st st"
  by (simp add: store_grows_def)

lemma store_grows_trans: "store_grows a b \<Longrightarrow> store_grows b c \<Longrightarrow> store_grows a c"
  by (auto simp: store_grows_def)

lemma is_host_func_grows: "is_host_func st h ty c \<Longrightarrow> store_grows st st' \<Longrightarrow> is_host_func st' h ty c"
  by (auto simp: is_host_func_def store_grows_def resolve_func_def resolve_in_Ok nth_append
      arena_get_append arena_get_Some)

lemma host_func_wrap_Ok:
  assumes "host_func_wrap ty c st = Ok (h, st')"
  shows "store_grows st st'" "is_host_func st' h ty c" "length (so_funcs st') = Suc (length (so_funcs st))"
  using assms
  by (auto simp: host_func_wrap_def alloc_trampoline_def alloc_func_def and_then_eq_Ok
      arena_alloc_nonzero32 arena_alloc_def store_grows_def is_host_func_def resolve_func_def
      resolve_in_Ok arena_get_def host_func_entity_new_def)

lemma host_func_wrap_returns:
  "length (so_funcs st) < 2 ^ 32 - 1 \<Longrightarrow> \<exists>r. host_func_wrap ty c st = Ok r"
  by (simp add: host_func_wrap_def alloc_trampoline_def alloc_func_def arena_alloc_def
      index_nonzero32_def)

lemma wrap_all_Ok:
  assumes "wrap_all tr fs st = Ok (hs, st')"
  shows "store_grows st st' \<and> list_all2 (\<lambda>(n, h) (n', ty). n = n' \<and> is_host_func st' h ty (tr n)) hs fs"
  using assms
proof (induction fs arbitrary: st hs)
  case (Cons f fs)
  obtain n ty where f: "f = (n, ty)" by (cases f)
  obtain h st1 hs1 where w: "host_func_wrap ty (tr n) st = Ok (h, st1)"
    and r: "wrap_all tr fs st1 = Ok (hs1, st')" and hs: "hs = (n, h) # hs1"
    using Cons.prems by (auto simp: f and_then_eq_Ok)
  note W = host_func_wrap_Ok [OF w] and I = Cons.IH [OF r]
  show ?case
    using I store_grows_trans [OF W(1)] is_host_func_grows [OF W(2)] by (auto simp: hs f)
qed simp

lemma wrap_all_returns:
  "length (so_funcs st) + length fs < 2 ^ 32 \<Longrightarrow> \<exists>r. wrap_all tr fs st = Ok r"
proof (induction fs arbitrary: st)
  case (Cons f fs)
  obtain n ty where f: "f = (n, ty)" by (cases f)
  obtain h st1 where w: "host_func_wrap ty (tr n) st = Ok (h, st1)"
    using host_func_wrap_returns [of st ty "tr n"] Cons.prems by force
  obtain hs st2 where "wrap_all tr fs st1 = Ok (hs, st2)"
    using Cons.IH [of st1] Cons.prems host_func_wrap_Ok(3) [OF w] by force
  then show ?case by (simp add: f w)
qed simp

lemma define_all_Cons:
  assumes "define_all ((n, h) # fs) ln = Ok ln'"
  obtains ln1 where "linker_define ''env'' n (DefExtern (ExFunc h)) ln = Ok (Inr (), ln1)"
    "define_all fs ln1 = Ok ln'"
proof -
  obtain r ln1 where d: "linker_define ''env'' n (DefExtern (ExFunc h)) ln = Ok (r, ln1)"
    and c: "(case r of Inl _ \<Rightarrow> Panic | Inr _ \<Rightarrow> define_all fs ln1) = Ok ln'"
    using assms by (auto simp: and_then_eq_Ok)
  show thesis by (rule that) (use c d in \<open>cases r; auto\<close>)+
qed

lemma define_all_Ok:
  assumes "define_all fs ln = Ok ln'" and "linker_reachable e ln"
  shows "linker_reachable e ln' \<and> linker_view (ln_inner ln') p = Some d \<longrightarrow>
    linker_view (ln_inner ln) p = Some d \<or> (\<exists>(n, h) \<in> set fs. p = (''env'', n) \<and> d = DefExtern (ExFunc h))"
  using assms
proof (induction fs arbitrary: ln)
  case (Cons f fs)
  obtain n h where f: "f = (n, h)" by (cases f)
  obtain ln1 where d: "linker_define ''env'' n (DefExtern (ExFunc h)) ln = Ok (Inr (), ln1)"
    and r: "define_all fs ln1 = Ok ln'"
    using Cons.prems(1) unfolding f by (rule define_all_Cons)
  have ok: "linker_ok (ln_inner ln)" using linker_reachable_ok [OF Cons.prems(2)] by simp
  have v: "linker_view (ln_inner ln1) = (linker_view (ln_inner ln))((''env'', n) \<mapsto> DefExtern (ExFunc h))"
    using linker_define_ok [OF ok d] by (auto split: if_splits)
  show ?case
    using Cons.IH [OF r linker_reachable.defined [OF Cons.prems(2) d]] v by (auto simp: f split: if_splits)
qed simp

lemma define_all_reachable:
  "define_all fs ln = Ok ln' \<Longrightarrow> linker_reachable e ln \<Longrightarrow> linker_reachable e ln'"
proof (induction fs arbitrary: ln)
  case (Cons f fs)
  then show ?case
    by (cases f) (blast elim: define_all_Cons dest: linker_reachable.defined)
qed simp

text \<open>Every definition of the registered linker is one of the twelve functions.\<close>

lemma registered_definition:
  assumes "register_syscalls tr (linker_new e) st0 = Ok (ln, st)"
    and "linker_view (ln_inner ln) (m, n) = Some d"
  shows "\<exists>h ty. m = ''env'' \<and> (n, ty) \<in> set syscall_signatures \<and> d = DefExtern (ExFunc h)
    \<and> is_host_func st h ty (tr n)"
proof -
  obtain fs where w: "wrap_all tr syscall_signatures st0 = Ok (fs, st)"
    and da: "define_all fs (linker_new e) = Ok ln"
    using assms(1) by (auto simp: register_syscalls_def and_then_eq_Ok)
  have r: "linker_reachable e ln" by (rule define_all_reachable [OF da linker_reachable.created])
  have "linker_view (ln_inner (linker_new e :: 'a linker)) = Map.empty"
    by (simp add: linker_new_def view_default)
  with define_all_Ok [OF da linker_reachable.created] r assms(2)
  obtain h where h: "(n, h) \<in> set fs" "m = ''env''" "d = DefExtern (ExFunc h)" by fastforce
  then obtain k where k: "k < length fs" "fs ! k = (n, h)" by (auto simp: in_set_conv_nth)
  have l: "list_all2 (\<lambda>(n, h) (n', ty). n = n' \<and> is_host_func st h ty (tr n)) fs syscall_signatures"
    using wrap_all_Ok [OF w] by simp
  obtain ty where t: "syscall_signatures ! k = (n, ty)" "is_host_func st h ty (tr n)"
    using list_all2_nthD [OF l k(1)] k(2) by (cases "syscall_signatures ! k") auto
  have "k < length syscall_signatures" using list_all2_lengthD [OF l] k(1) by simp
  then have "(n, ty) \<in> set syscall_signatures" using t(1) by (metis nth_mem)
  then show ?thesis using h t(2) by blast
qed

section \<open>Registration succeeds\<close>

lemma hint_new_returns:
  assumes "length (si_strings m) < 2 ^ 32"
  shows "\<exists>i m'. get_or_intern_with_hint hint s m = Ok (i, m') \<and> length (si_strings m') \<le> Suc (length (si_strings m))"
  using assms by (auto simp: hint_irrelevant hint_new_def sym_from_usize_def split: option.split)

lemma linker_define_returns:
  assumes ok: "linker_ok (ln_inner ln)" and room: "length (si_strings (li_strings (ln_inner ln))) + 2 \<le> 2 ^ 32"
  shows "\<exists>r ln'. linker_define m n d ln = Ok (r, ln')
    \<and> length (si_strings (li_strings (ln_inner ln'))) \<le> length (si_strings (li_strings (ln_inner ln))) + 2
    \<and> li_allow_shadowing (ln_inner ln') = li_allow_shadowing (ln_inner ln)"
proof -
  let ?li = "ln_inner ln"
  obtain i s1 where a: "get_or_intern_with_hint LikelyExists m (li_strings ?li) = Ok (i, s1)"
    and la: "length (si_strings s1) \<le> Suc (length (si_strings (li_strings ?li)))"
    using hint_new_returns [of "li_strings ?li" LikelyExists m] room by auto
  obtain j s2 where b: "get_or_intern_with_hint LikelyNew n s1 = Ok (j, s2)"
    and lb: "length (si_strings s2) \<le> Suc (length (si_strings s1))"
    using hint_new_returns [of s1 LikelyNew n] room la by auto
  let ?li2 = "?li\<lparr>li_strings := s2\<rparr>"
  have k: "new_import_key m n ?li = Ok (import_key_new i j, ?li2)" by (simp add: new_import_key_def a b)
  note G = new_key_grows [OF ok k]
  note V = strings_grow_view [OF ok G(1)]
  from insert_refines [OF V(1) G(2), of d] la lb show ?thesis
    by (auto simp: linker_define_def k split: if_splits)
qed

lemma define_all_returns:
  assumes "linker_reachable e ln" and "length (si_strings (li_strings (ln_inner ln))) + 2 * length fs \<le> 2 ^ 32"
    and "distinct (map fst fs)" and "\<forall>(n, h) \<in> set fs. linker_view (ln_inner ln) (''env'', n) = None"
  shows "\<exists>ln'. define_all fs ln = Ok ln'
    \<and> (\<forall>(n, h) \<in> set fs. linker_view (ln_inner ln') (''env'', n) = Some (DefExtern (ExFunc h)))
    \<and> (\<forall>p. linker_view (ln_inner ln) p \<noteq> None \<longrightarrow> linker_view (ln_inner ln') p = linker_view (ln_inner ln) p)"
  using assms
proof (induction fs arbitrary: ln)
  case (Cons f fs)
  obtain n h where f: "f = (n, h)" by (cases f)
  let ?d = "DefExtern (ExFunc h)"
  have ok: "linker_ok (ln_inner ln)" using linker_reachable_ok [OF Cons.prems(1)] by simp
  have "length (si_strings (li_strings (ln_inner ln))) + 2 \<le> 2 ^ 32" using Cons.prems(2) by simp
  then obtain r ln1 where d: "linker_define ''env'' n ?d ln = Ok (r, ln1)"
    and l: "length (si_strings (li_strings (ln_inner ln1))) \<le> length (si_strings (li_strings (ln_inner ln))) + 2"
    using linker_define_returns [OF ok, of "''env''" n ?d] by auto
  have "linker_view (ln_inner ln) (''env'', n) = None" using Cons.prems(4) f by auto
  then have r: "r = Inr ()" and v: "linker_view (ln_inner ln1) = (linker_view (ln_inner ln))((''env'', n) \<mapsto> ?d)"
    using linker_define_ok [OF ok d] by auto
  have "\<forall>(n', h') \<in> set fs. linker_view (ln_inner ln1) (''env'', n') = None"
    using Cons.prems(3,4) f v by force
  moreover have "length (si_strings (li_strings (ln_inner ln1))) + 2 * length fs \<le> 2 ^ 32"
    using l Cons.prems(2) by simp
  moreover have "distinct (map fst fs)" using Cons.prems(3) by simp
  ultimately obtain ln2 where i: "define_all fs ln1 = Ok ln2"
    and i1: "\<forall>(n, h) \<in> set fs. linker_view (ln_inner ln2) (''env'', n) = Some (DefExtern (ExFunc h))"
    and i2: "\<forall>p. linker_view (ln_inner ln1) p \<noteq> None \<longrightarrow> linker_view (ln_inner ln2) p = linker_view (ln_inner ln1) p"
    using Cons.IH [OF linker_reachable.defined [OF Cons.prems(1) d]] by blast
  have "linker_view (ln_inner ln2) (''env'', n) = Some ?d" using i2 v by simp
  moreover have "linker_view (ln_inner ln2) p = linker_view (ln_inner ln) p"
    if "linker_view (ln_inner ln) p \<noteq> None" for p
  proof -
    have "p \<noteq> (''env'', n)" using that Cons.prems(4) f by auto
    then have "linker_view (ln_inner ln1) p = linker_view (ln_inner ln) p" by (simp add: v)
    then show ?thesis using i2 [rule_format, of p] that by simp
  qed
  ultimately show ?case using d i i1 by (simp add: f r)
qed simp

lemma registration_alphabet:
  assumes "length (so_funcs st0) + 12 < 2 ^ 32"
  shows "\<exists>ln st. register_syscalls tr (linker_new e) st0 = Ok (ln, st) \<and>
    (\<forall>m n. case linker_view (ln_inner ln) (m, n) of
       None \<Rightarrow> (m, n) \<notin> set linker_definitions
     | Some d \<Rightarrow> m = ''env'' \<and> n \<in> set ALLOWED_IMPORTS \<and>
         (\<exists>h ty. (n, ty) \<in> set syscall_signatures \<and> d = DefExtern (ExFunc h) \<and> is_host_func st h ty (tr n)))"
proof -
  have "length syscall_signatures = 12" by (simp add: syscall_signatures_def)
  then obtain fs st where w: "wrap_all tr syscall_signatures st0 = Ok (fs, st)"
    using wrap_all_returns [of st0 syscall_signatures tr] assms by force
  have l: "list_all2 (\<lambda>(n, h) (n', ty). n = n' \<and> is_host_func st h ty (tr n)) fs syscall_signatures"
    using wrap_all_Ok [OF w] by simp
  then have "list_all2 (\<lambda>x y. fst x = fst y) fs syscall_signatures"
    by (rule list_all2_mono) auto
  then have n: "map fst fs = map fst syscall_signatures"
    by (auto simp: list_all2_conv_all_nth intro: nth_equalityI)
  then have len: "length fs = 12" by (metis length_map \<open>length syscall_signatures = 12\<close>)
  let ?ln = "linker_new e :: 'a linker"
  have room: "length (si_strings (li_strings (ln_inner ?ln))) + 2 * length fs \<le> 2 ^ 32"
    by (simp add: linker_new_def linker_inner_default_def interner_new_def len)
  have fresh: "\<forall>(n, h) \<in> set fs. linker_view (ln_inner ?ln) (''env'', n) = None"
    by (simp add: linker_new_def view_default)
  have "distinct (map fst fs)" unfolding n by (simp add: syscall_signatures_def)
  with define_all_returns [OF linker_reachable.created room _ fresh]
  obtain ln where da: "define_all fs ?ln = Ok ln"
    and all: "\<forall>(n, h) \<in> set fs. linker_view (ln_inner ln) (''env'', n) = Some (DefExtern (ExFunc h))"
    by blast
  have reg: "register_syscalls tr (linker_new e) st0 = Ok (ln, st)"
    by (simp add: register_syscalls_def w da)
  have def: "linker_view (ln_inner ln) (''env'', n) \<noteq> None" if "n \<in> fst ` set syscall_signatures" for n
  proof -
    have "n \<in> set (map fst fs)" using that unfolding n by simp
    then show ?thesis using all by auto
  qed
  have allowed: "n \<in> set ALLOWED_IMPORTS" if "(n, ty) \<in> set syscall_signatures" for n ty
    using that by (auto simp: syscall_signatures_def ALLOWED_IMPORTS_def)
  have "case linker_view (ln_inner ln) (m, n) of
       None \<Rightarrow> (m, n) \<notin> set linker_definitions
     | Some d \<Rightarrow> m = ''env'' \<and> n \<in> set ALLOWED_IMPORTS \<and>
         (\<exists>h ty. (n, ty) \<in> set syscall_signatures \<and> d = DefExtern (ExFunc h) \<and> is_host_func st h ty (tr n))" for m n
  proof (cases "linker_view (ln_inner ln) (m, n)")
    case None
    have "n \<notin> fst ` set syscall_signatures" if "m = ''env''" using None def [of n] that by auto
    then have "(m, n) \<notin> set linker_definitions"
      by (force simp: syscall_signatures_names [symmetric])
    then show ?thesis using None by simp
  next
    case (Some d)
    then show ?thesis using registered_definition [OF reg Some] allowed by auto
  qed
  with reg show ?thesis by blast
qed

lemma registered_total:
  assumes "register_syscalls tr (linker_new e) st0 = Ok (ln, st)" and "length (so_funcs st0) + 12 < 2 ^ 32"
  shows "case linker_view (ln_inner ln) (m, n) of
       None \<Rightarrow> (m, n) \<notin> set linker_definitions
     | Some d \<Rightarrow> m = ''env'' \<and> n \<in> set ALLOWED_IMPORTS \<and>
         (\<exists>h ty. (n, ty) \<in> set syscall_signatures \<and> d = DefExtern (ExFunc h) \<and> is_host_func st h ty (tr n))"
proof -
  obtain ln' st' where r: "register_syscalls tr (linker_new e) st0 = Ok (ln', st')"
    and all: "\<forall>m n. case linker_view (ln_inner ln') (m, n) of
       None \<Rightarrow> (m, n) \<notin> set linker_definitions
     | Some d \<Rightarrow> m = ''env'' \<and> n \<in> set ALLOWED_IMPORTS \<and>
         (\<exists>h ty. (n, ty) \<in> set syscall_signatures \<and> d = DefExtern (ExFunc h) \<and> is_host_func st' h ty (tr n))"
    using registration_alphabet [OF assms(2)] by blast
  have "ln' = ln" "st' = st" using r assms(1) by simp_all
  then show ?thesis using all by blast
qed

text \<open>
  Registering the syscalls never panics (each of its twelve \<open>unwrap\<close>s sees a fresh name), and
  the linker then defines exactly the twelve functions of the alphabet, in module \<open>env\<close>: a lookup
  finds a definition for a pair of names exactly when it is one of them, and what it finds is the
  host function with that closure and the signature of its Rust parameters.
\<close>
theorem registration_defines_alphabet:
  assumes "length (so_funcs st0) + 12 < 2 ^ 32"
  shows "\<exists>ln st. register_syscalls tr (linker_new e) st0 = Ok (ln, st) \<and>
    (\<forall>m n. case linker_view (ln_inner ln) (m, n) of
       None \<Rightarrow> (m, n) \<notin> set linker_definitions
     | Some d \<Rightarrow> m = ''env'' \<and> n \<in> set ALLOWED_IMPORTS \<and>
         (\<exists>h ty. (n, ty) \<in> set syscall_signatures \<and> d = DefExtern (ExFunc h) \<and> is_host_func st h ty (tr n)))"
  by (rule registration_alphabet [OF assms])

theorem registration_defines_alphabet_witness:
  "\<exists>ln st. register_syscalls (\<lambda>n. n) (linker_new 0)
     (store_new 0 0 \<lparr>remaining = 7, enabled = True, costs = \<lparr>custom = None\<rparr>\<rparr> ()) = Ok (ln, st)
     \<and> linker_view (ln_inner ln) (''env'', ''reset'') = None"
proof -
  let ?st = "store_new 0 0 \<lparr>remaining = 7, enabled = True, costs = \<lparr>custom = None\<rparr>\<rparr> () :: (string, unit) store"
  have "length (so_funcs ?st) + 12 < 2 ^ 32" by (simp add: store_new_def)
  from registration_defines_alphabet [OF this, of "\<lambda>n. n" 0]
  obtain ln st where r: "register_syscalls (\<lambda>n. n) (linker_new 0) ?st = Ok (ln, st)"
    and v: "case linker_view (ln_inner ln) (''env'', ''reset'') of
       None \<Rightarrow> (''env'', ''reset'') \<notin> set linker_definitions
     | Some d \<Rightarrow> ''env'' = ''env'' \<and> ''reset'' \<in> set ALLOWED_IMPORTS \<and>
         (\<exists>h ty. (''reset'', ty) \<in> set syscall_signatures \<and> d = DefExtern (ExFunc h) \<and> is_host_func st h ty ''reset'')"
    by blast
  have "''reset'' \<notin> set ALLOWED_IMPORTS" by (simp add: ALLOWED_IMPORTS_def)
  then show ?thesis using r v by (auto split: option.splits)
qed

end
