(* ===== verification/Module_Builder.thy ===== *)
theory Module_Builder
  imports Const_Expr Receiver_Linker
begin

text \<open>
  A module under construction and finished: its header (\<open>patches/wasmi/src/module/builder.rs\<close>,
  \<open>module/mod.rs\<close>) with flat index spaces in which the imports come first, element segments
  (\<open>module/element.rs\<close>), exports (\<open>module/export.rs\<close>), globals (\<open>module/global.rs\<close>) and data
  segments, whose active bytes are kept in one vector (\<open>module/data.rs\<close>). The items a section
  reader returns are arguments. A function type stands for its number in the registry.
\<close>

section \<open>Segments, exports and globals\<close>

text \<open>\<open>collect\<close> and \<open>for\<close> over results: the first error ends the loop.\<close>

fun push_each :: "('a \<Rightarrow> 's \<Rightarrow> 's outcome) \<Rightarrow> (error_kind + 'a) list \<Rightarrow> 's \<Rightarrow> (error_kind + 's) outcome" where
  "push_each f [] s = Ok (Inr s)"
| "push_each f (Inl e # xs) s = Ok (Inl e)"
| "push_each f (Inr x # xs) s = and_then (f x s) (push_each f xs)"

type_synonym operator_reads = "(reader_error + wp_operator) list"

datatype element_segment_kind = EskPassive | EskActive u32 op | EskDeclared

record module_element =
  me_kind :: element_segment_kind
  me_ty :: core_val_type
  me_items :: "op list"

datatype wp_element_kind = WekPassive | WekActive "u32 option" operator_reads | WekDeclared

datatype wp_element_items =
    WeiFunctions "(reader_error + u32) list"
  | WeiExpressions ref_type "(reader_error + operator_reads) list"

record wp_element =
  we_kind :: wp_element_kind
  we_items :: wp_element_items

definition element_kind_from :: "ref_layout \<Rightarrow> wp_element_kind \<Rightarrow> element_segment_kind outcome" where
  "element_kind_from rl k = (case k of
     WekActive table_index offset_expr \<Rightarrow>
       and_then (const_expr_new rl offset_expr) (\<lambda>offset.
         Ok (EskActive (case table_index of Some i \<Rightarrow> i | None \<Rightarrow> 0) offset))
   | WekPassive \<Rightarrow> Ok EskPassive
   | WekDeclared \<Rightarrow> Ok EskDeclared)"

text \<open>\<open>is_func_ref\<close> looks at the kind of heap type only.\<close>

fun is_func_ref :: "ref_type \<Rightarrow> bool" where
  "is_func_ref (RefType _ (HtAbstract _ HtFunc)) = True"
| "is_func_ref _ = False"

fun is_extern_ref :: "ref_type \<Rightarrow> bool" where
  "is_extern_ref (RefType _ (HtAbstract _ HtExtern)) = True"
| "is_extern_ref _ = False"

fun map_reads :: "('a \<Rightarrow> 'b outcome) \<Rightarrow> (reader_error + 'a) list \<Rightarrow> 'b list outcome" where
  "map_reads f [] = Ok []"
| "map_reads f (Inl e # xs) = Panic"
| "map_reads f (Inr x # xs) = and_then (f x) (\<lambda>y. and_then (map_reads f xs) (\<lambda>ys. Ok (y # ys)))"

definition element_items_from :: "ref_layout \<Rightarrow> wp_element_items \<Rightarrow> (op list \<times> core_val_type) outcome" where
  "element_items_from rl items = (case items of
     WeiFunctions items \<Rightarrow>
       and_then (map_reads (\<lambda>i. Ok (const_expr_new_funcref i)) items) (\<lambda>items. Ok (items, TyFuncRef))
   | WeiExpressions ref_ty items \<Rightarrow>
       and_then (if is_func_ref ref_ty then Ok TyFuncRef
                 else if is_extern_ref ref_ty then Ok TyExternRef else Panic) (\<lambda>ty.
       and_then (map_reads (const_expr_new rl) items) (\<lambda>items. Ok (items, ty))))"

definition element_from :: "ref_layout \<Rightarrow> wp_element \<Rightarrow> module_element outcome" where
  "element_from rl e =
     and_then (element_kind_from rl (we_kind e)) (\<lambda>kind.
     and_then (element_items_from rl (we_items e)) (\<lambda>(items, ty).
       Ok \<lparr>me_kind = kind, me_ty = ty, me_items = items\<rparr>))"

datatype extern_idx = XiFunc u32 | XiTable u32 | XiMemory u32 | XiGlobal u32

definition extern_idx_new :: "external_kind \<Rightarrow> u32 \<Rightarrow> extern_idx outcome" where
  "extern_idx_new kind i = (case kind of
     KFunc \<Rightarrow> Ok (XiFunc i) | KTable \<Rightarrow> Ok (XiTable i) | KMemory \<Rightarrow> Ok (XiMemory i)
   | KGlobal \<Rightarrow> Ok (XiGlobal i) | KTag \<Rightarrow> Panic)"

record wp_export =
  wx_name :: string
  wx_kind :: external_kind
  wx_index :: u32

record wp_global =
  wgl_ty :: wp_global_type
  wgl_init_expr :: operator_reads

definition global_from :: "ref_layout \<Rightarrow> wp_global \<Rightarrow> (global_type \<times> op) outcome" where
  "global_from rl g =
     and_then (global_type_from (wgl_ty g)) (\<lambda>ty.
     and_then (const_expr_new rl (wgl_init_expr g)) (\<lambda>init_expr. Ok (ty, init_expr)))"

section \<open>Data segments\<close>

datatype module_data = DataActive u32 op u32 | DataPassive bytes

record data_segments =
  ds_segments :: "module_data list"
  ds_bytes :: bytes

definition data_segments_build :: data_segments where
  "data_segments_build = \<lparr>ds_segments = [], ds_bytes = []\<rparr>"

datatype wp_data_kind = WdPassive | WdActive u32 operator_reads

record wp_data =
  wd_kind :: wp_data_kind
  wd_data :: bytes

definition push_data_segment :: "ref_layout \<Rightarrow> wp_data \<Rightarrow> data_segments \<Rightarrow> data_segments outcome" where
  "push_data_segment rl segment b = (case wd_kind segment of
     WdPassive \<Rightarrow> Ok (b\<lparr>ds_segments := ds_segments b @ [DataPassive (wd_data segment)]\<rparr>)
   | WdActive memory_index offset_expr \<Rightarrow>
       and_then (const_expr_new rl offset_expr) (\<lambda>offset.
         if length (wd_data segment) < 2 ^ 32
         then Ok (b\<lparr>ds_bytes := ds_bytes b @ wd_data segment,
                    ds_segments := ds_segments b @
                      [DataActive memory_index offset (word_of_nat (length (wd_data segment)))]\<rparr>)
         else Panic))"

datatype init_data_segment = InitActive u32 op bytes | InitPassive bytes

text \<open>\<open>InitDataSegmentIter\<close>: each active segment takes its bytes off the front, \<open>split_at\<close>.\<close>

fun init_data_iter :: "module_data list \<Rightarrow> bytes \<Rightarrow> init_data_segment list outcome" where
  "init_data_iter [] bs = Ok []"
| "init_data_iter (DataActive memory_index offset len # ds) bs =
     (if unat len \<le> length bs
      then and_then (init_data_iter ds (drop (unat len) bs)) (\<lambda>xs.
             Ok (InitActive memory_index offset (take (unat len) bs) # xs))
      else Panic)"
| "init_data_iter (DataPassive b # ds) bs = and_then (init_data_iter ds bs) (\<lambda>xs. Ok (InitPassive b # xs))"

definition init_data_segments :: "data_segments \<Rightarrow> init_data_segment list outcome" where
  "init_data_segments b = init_data_iter (ds_segments b) (ds_bytes b)"

section \<open>The header\<close>

datatype imported = ImFunc import_name | ImTable import_name | ImMemory import_name | ImGlobal import_name

record imports_builder =
  ib_func_names :: "import_name list"
  ib_table_names :: "import_name list"
  ib_memory_names :: "import_name list"
  ib_global_names :: "import_name list"

record import_items =
  ii_items :: "imported list"
  ii_len_funcs :: nat
  ii_len_globals :: nat
  ii_len_memories :: nat
  ii_len_tables :: nat

definition imports_finish :: "imports_builder \<Rightarrow> import_items" where
  "imports_finish b =
     \<lparr>ii_items = map ImFunc (ib_func_names b) @ map ImTable (ib_table_names b) @
        map ImMemory (ib_memory_names b) @ map ImGlobal (ib_global_names b),
      ii_len_funcs = length (ib_func_names b), ii_len_globals = length (ib_global_names b),
      ii_len_memories = length (ib_memory_names b), ii_len_tables = length (ib_table_names b)\<rparr>"

record header_builder =
  hb_func_types :: "func_type list"
  hb_imports :: imports_builder
  hb_funcs :: "func_type list"
  hb_tables :: "table_type list"
  hb_memories :: "memory_type list"
  hb_globals :: "global_type list"
  hb_globals_init :: "op list"
  hb_exports :: "(string, extern_idx) btree"
  hb_start :: "u32 option"
  hb_engine_funcs :: "nat \<times> nat"
  hb_element_segments :: "module_element list"

definition header_builder_new :: header_builder where
  "header_builder_new =
     \<lparr>hb_func_types = [],
      hb_imports = \<lparr>ib_func_names = [], ib_table_names = [], ib_memory_names = [], ib_global_names = []\<rparr>,
      hb_funcs = [], hb_tables = [], hb_memories = [], hb_globals = [], hb_globals_init = [],
      hb_exports = [], hb_start = None, hb_engine_funcs = (0, 0), hb_element_segments = []\<rparr>"

definition hb_push_import :: "import_name \<times> extern_type_idx \<Rightarrow> header_builder \<Rightarrow> header_builder outcome" where
  "hb_push_import x h = (case x of (name, kind) \<Rightarrow>
     (let b = hb_imports h
      in case kind of
           EtiFunc i \<Rightarrow>
             and_then (index (hb_func_types h) (unat i)) (\<lambda>ty.
               Ok (h\<lparr>hb_imports := b\<lparr>ib_func_names := ib_func_names b @ [name]\<rparr>,
                     hb_funcs := hb_funcs h @ [ty]\<rparr>))
         | EtiTable ty \<Rightarrow> Ok (h\<lparr>hb_imports := b\<lparr>ib_table_names := ib_table_names b @ [name]\<rparr>,
                     hb_tables := hb_tables h @ [ty]\<rparr>)
         | EtiMemory ty \<Rightarrow> Ok (h\<lparr>hb_imports := b\<lparr>ib_memory_names := ib_memory_names b @ [name]\<rparr>,
                     hb_memories := hb_memories h @ [ty]\<rparr>)
         | EtiGlobal ty \<Rightarrow> Ok (h\<lparr>hb_imports := b\<lparr>ib_global_names := ib_global_names b @ [name]\<rparr>,
                     hb_globals := hb_globals h @ [ty]\<rparr>)))"

text \<open>
  The sections after the imports: \<open>assert\<close> keeps each of them from being pushed twice.
  \<open>alloc_funcs\<close> of the engine, which numbers the bodies, is an argument.
\<close>

definition hb_push_funcs ::
  "(nat \<Rightarrow> nat \<times> nat) \<Rightarrow> (error_kind + u32) list \<Rightarrow> header_builder \<Rightarrow> (error_kind + header_builder) outcome" where
  "hb_push_funcs alloc_funcs funcs h =
     (if length (hb_funcs h) \<noteq> length (ib_func_names (hb_imports h)) then Panic
      else push_each (\<lambda>i h. and_then (index (hb_func_types h) (unat i)) (\<lambda>ty.
               Ok (h\<lparr>hb_funcs := hb_funcs h @ [ty]\<rparr>))) funcs
             (h\<lparr>hb_engine_funcs := alloc_funcs (length funcs)\<rparr>))"

definition hb_push_tables ::
  "(error_kind + wp_table_type) list \<Rightarrow> header_builder \<Rightarrow> (error_kind + header_builder) outcome" where
  "hb_push_tables tables h =
     (if length (hb_tables h) \<noteq> length (ib_table_names (hb_imports h)) then Panic
      else push_each (\<lambda>ty h. and_then (table_type_from ty) (\<lambda>ty.
             Ok (h\<lparr>hb_tables := hb_tables h @ [ty]\<rparr>))) tables h)"

definition hb_push_memories ::
  "(error_kind + wp_memory_type) list \<Rightarrow> header_builder \<Rightarrow> (error_kind + header_builder) outcome" where
  "hb_push_memories memories h =
     (if length (hb_memories h) \<noteq> length (ib_memory_names (hb_imports h)) then Panic
      else push_each (\<lambda>ty h. and_then (memory_type_from ty) (\<lambda>ty.
             Ok (h\<lparr>hb_memories := hb_memories h @ [ty]\<rparr>))) memories h)"

definition hb_push_globals ::
  "ref_layout \<Rightarrow> (error_kind + wp_global) list \<Rightarrow> header_builder \<Rightarrow> (error_kind + header_builder) outcome" where
  "hb_push_globals rl globals h =
     (if length (hb_globals h) \<noteq> length (ib_global_names (hb_imports h)) then Panic
      else push_each (\<lambda>g h. and_then (global_from rl g) (\<lambda>(ty, init).
             Ok (h\<lparr>hb_globals := hb_globals h @ [ty], hb_globals_init := hb_globals_init h @ [init]\<rparr>)))
           globals h)"

definition hb_push_exports ::
  "(error_kind + wp_export) list \<Rightarrow> header_builder \<Rightarrow> (error_kind + header_builder) outcome" where
  "hb_push_exports exports h =
     (if hb_exports h \<noteq> [] then Panic
      else and_then (push_each (\<lambda>x m. and_then (extern_idx_new (wx_kind x) (wx_index x)) (\<lambda>i.
                       Ok (bt_insert (wx_name x) i m))) exports []) (\<lambda>r.
             Ok (map_sum id (\<lambda>m. h\<lparr>hb_exports := m\<rparr>) r)))"

definition hb_set_start :: "u32 \<Rightarrow> header_builder \<Rightarrow> header_builder outcome" where
  "hb_set_start start h = (case hb_start h of Some _ \<Rightarrow> Panic | None \<Rightarrow> Ok (h\<lparr>hb_start := Some start\<rparr>))"

definition hb_push_element_segments ::
  "ref_layout \<Rightarrow> (error_kind + wp_element) list \<Rightarrow> header_builder \<Rightarrow> (error_kind + header_builder) outcome" where
  "hb_push_element_segments rl elements h =
     (if hb_element_segments h \<noteq> [] then Panic
      else and_then (push_each (\<lambda>e es. and_then (element_from rl e) (\<lambda>e. Ok (es @ [e]))) elements []) (\<lambda>r.
             Ok (map_sum id (\<lambda>es. h\<lparr>hb_element_segments := es\<rparr>) r)))"

section \<open>The finished module\<close>

record module_header =
  mh_func_types :: "func_type list"
  mh_import_items :: import_items
  mh_funcs :: "func_type list"
  mh_tables :: "table_type list"
  mh_memories :: "memory_type list"
  mh_globals :: "global_type list"
  mh_globals_init :: "op list"
  mh_exports :: "(string, extern_idx) btree"
  mh_start :: "u32 option"
  mh_engine_funcs :: "nat \<times> nat"
  mh_element_segments :: "module_element list"

definition header_finish :: "header_builder \<Rightarrow> module_header" where
  "header_finish h =
     \<lparr>mh_func_types = hb_func_types h, mh_import_items = imports_finish (hb_imports h), mh_funcs = hb_funcs h,
      mh_tables = hb_tables h, mh_memories = hb_memories h, mh_globals = hb_globals h,
      mh_globals_init = hb_globals_init h, mh_exports = hb_exports h, mh_start = hb_start h,
      mh_engine_funcs = hb_engine_funcs h, mh_element_segments = hb_element_segments h\<rparr>"

record wasm_module =
  wm_header :: module_header
  wm_data_segments :: data_segments

text \<open>The next item of a slice iterator, or the panic of \<open>unwrap_or_else\<close>.\<close>

fun next_or_panic :: "'a list \<Rightarrow> ('a \<times> 'a list) outcome" where
  "next_or_panic [] = Panic"
| "next_or_panic (x # xs) = Ok (x, xs)"

fun imports_iter ::
  "imported list \<Rightarrow> func_type list \<Rightarrow> table_type list \<Rightarrow> memory_type list \<Rightarrow> global_type list \<Rightarrow>
   import_type list outcome" where
  "imports_iter [] fs ts ms gs = Ok []"
| "imports_iter (ImFunc name # is) fs ts ms gs =
     and_then (next_or_panic fs) (\<lambda>(ty, fs).
     and_then (imports_iter is fs ts ms gs) (\<lambda>xs. Ok ((name, EtFunc ty) # xs)))"
| "imports_iter (ImTable name # is) fs ts ms gs =
     and_then (next_or_panic ts) (\<lambda>(ty, ts).
     and_then (imports_iter is fs ts ms gs) (\<lambda>xs. Ok ((name, EtTable ty) # xs)))"
| "imports_iter (ImMemory name # is) fs ts ms gs =
     and_then (next_or_panic ms) (\<lambda>(ty, ms).
     and_then (imports_iter is fs ts ms gs) (\<lambda>xs. Ok ((name, EtMemory ty) # xs)))"
| "imports_iter (ImGlobal name # is) fs ts ms gs =
     and_then (next_or_panic gs) (\<lambda>(ty, gs).
     and_then (imports_iter is fs ts ms gs) (\<lambda>xs. Ok ((name, EtGlobal ty) # xs)))"

text \<open>\<open>[..n]\<close> and \<open>[n..]\<close> panic beyond the end.\<close>

definition slice_to :: "'a list \<Rightarrow> nat \<Rightarrow> 'a list outcome" where
  "slice_to xs n = (if n \<le> length xs then Ok (take n xs) else Panic)"

definition imports_of :: "wasm_module \<Rightarrow> import_type list outcome" where
  "imports_of m =
     (let h = wm_header m; i = mh_import_items h
      in and_then (slice_to (mh_funcs h) (ii_len_funcs i)) (\<lambda>funcs.
         and_then (slice_to (mh_globals h) (ii_len_globals i)) (\<lambda>globals.
           imports_iter (ii_items i) funcs (mh_tables h) (mh_memories h) globals)))"

definition engine_func_list :: "nat \<times> nat \<Rightarrow> nat list" where
  "engine_func_list span = [fst span ..< snd span]"

definition internal_funcs :: "wasm_module \<Rightarrow> (func_type \<times> nat) list outcome" where
  "internal_funcs m =
     (let h = wm_header m
      in and_then (slice_from (mh_funcs h) (ii_len_funcs (mh_import_items h))) (\<lambda>funcs.
           let engine_funcs = engine_func_list (mh_engine_funcs h)
           in if length funcs \<noteq> length engine_funcs then Panic else Ok (zip funcs engine_funcs)))"

definition internal_memories :: "wasm_module \<Rightarrow> memory_type list outcome" where
  "internal_memories m =
     slice_from (mh_memories (wm_header m)) (ii_len_memories (mh_import_items (wm_header m)))"

definition internal_tables :: "wasm_module \<Rightarrow> table_type list outcome" where
  "internal_tables m =
     slice_from (mh_tables (wm_header m)) (ii_len_tables (mh_import_items (wm_header m)))"

definition internal_globals :: "wasm_module \<Rightarrow> (global_type \<times> op) list outcome" where
  "internal_globals m =
     and_then (slice_from (mh_globals (wm_header m)) (ii_len_globals (mh_import_items (wm_header m)))) (\<lambda>gs.
       Ok (zip gs (mh_globals_init (wm_header m))))"

text \<open>The type of what a module exports, by name; an index out of range panics.\<close>

definition get_extern_type :: "wasm_module \<Rightarrow> extern_idx \<Rightarrow> extern_type outcome" where
  "get_extern_type m i = (let h = wm_header m in case i of
     XiFunc i \<Rightarrow> and_then (index (mh_funcs h) (unat i)) (\<lambda>ty. Ok (EtFunc ty))
   | XiTable i \<Rightarrow> and_then (index (mh_tables h) (unat i)) (\<lambda>ty. Ok (EtTable ty))
   | XiMemory i \<Rightarrow> and_then (index (mh_memories h) (unat i)) (\<lambda>ty. Ok (EtMemory ty))
   | XiGlobal i \<Rightarrow> and_then (index (mh_globals h) (unat i)) (\<lambda>ty. Ok (EtGlobal ty)))"

definition module_get_export :: "wasm_module \<Rightarrow> string \<Rightarrow> extern_type option outcome" where
  "module_get_export m name = (case bt_get name (mh_exports (wm_header m)) of
     None \<Rightarrow> Ok None
   | Some i \<Rightarrow> and_then (get_extern_type m i) (\<lambda>ty. Ok (Some ty)))"

section \<open>The imports of a finished module\<close>

text \<open>The flat index spaces of the builder against the imports with their types.\<close>

definition represents :: "header_imports \<Rightarrow> header_builder \<Rightarrow> bool" where
  "represents hi h \<longleftrightarrow>
     ib_func_names (hb_imports h) = map fst (hi_funcs hi) \<and> hb_funcs h = map snd (hi_funcs hi)
     \<and> ib_table_names (hb_imports h) = map fst (hi_tables hi) \<and> hb_tables h = map snd (hi_tables hi)
     \<and> ib_memory_names (hb_imports h) = map fst (hi_memories hi) \<and> hb_memories h = map snd (hi_memories hi)
     \<and> ib_global_names (hb_imports h) = map fst (hi_globals hi) \<and> hb_globals h = map snd (hi_globals hi)"

lemma represents_new: "represents no_imports header_builder_new"
  by (simp add: represents_def no_imports_def header_builder_new_def)

lemma push_import_represents:
  assumes "represents hi h"
  shows "case push_import (hb_func_types h) i hi of
      Ok hi' \<Rightarrow> (\<exists>h'. hb_push_import i h = Ok h' \<and> represents hi' h' \<and> hb_func_types h' = hb_func_types h)
    | r \<Rightarrow> hb_push_import i h = Panic"
proof -
  obtain name kind where i: "i = (name, kind)" by (cases i)
  show ?thesis
    using assms
    by (cases kind) (auto simp: i represents_def push_import_def hb_push_import_def Let_def index_def)
qed

text \<open>What a header has beyond its imports.\<close>

definition extends :: "header_imports \<Rightarrow> header_builder \<Rightarrow> bool" where
  "extends hi h \<longleftrightarrow>
     ib_func_names (hb_imports h) = map fst (hi_funcs hi) \<and> (\<exists>fs. hb_funcs h = map snd (hi_funcs hi) @ fs)
     \<and> ib_table_names (hb_imports h) = map fst (hi_tables hi) \<and> (\<exists>ts. hb_tables h = map snd (hi_tables hi) @ ts)
     \<and> ib_memory_names (hb_imports h) = map fst (hi_memories hi)
     \<and> (\<exists>ms. hb_memories h = map snd (hi_memories hi) @ ms)
     \<and> ib_global_names (hb_imports h) = map fst (hi_globals hi)
     \<and> (\<exists>gs. hb_globals h = map snd (hi_globals hi) @ gs)"

lemma represents_extends: "represents hi h \<Longrightarrow> extends hi h"
  by (simp add: represents_def extends_def)

lemma push_each_invariant:
  assumes "push_each f xs s = Ok (Inr s')" and "P s" and "\<And>x s s'. P s \<Longrightarrow> f x s = Ok s' \<Longrightarrow> P s'"
  shows "P s'"
  using assms(1,2)
proof (induction xs arbitrary: s)
  case (Cons y xs)
  obtain x s1 where "f x s = Ok s1" "push_each f xs s1 = Ok (Inr s')"
    using Cons.prems(1) by (cases y) (auto simp: and_then_eq_Ok)
  then show ?case using Cons.IH assms(3) [OF Cons.prems(2)] by blast
qed simp

text \<open>The sections behind the imports extend the index spaces at their ends.\<close>

lemma extends_append:
  assumes "extends hi h"
  shows "extends hi (h\<lparr>hb_funcs := hb_funcs h @ fs\<rparr>)" "extends hi (h\<lparr>hb_tables := hb_tables h @ ts\<rparr>)"
    "extends hi (h\<lparr>hb_memories := hb_memories h @ ms\<rparr>)"
    "extends hi (h\<lparr>hb_globals := hb_globals h @ gs, hb_globals_init := is\<rparr>)"
    "extends hi (h\<lparr>hb_engine_funcs := span\<rparr>)" "extends hi (h\<lparr>hb_exports := exports\<rparr>)"
    "extends hi (h\<lparr>hb_start := start\<rparr>)" "extends hi (h\<lparr>hb_element_segments := es\<rparr>)"
  using assms by (auto simp: extends_def)

lemma map_sum_eq_Inr: "map_sum f g r = Inr y \<longleftrightarrow> (\<exists>x. r = Inr x \<and> y = g x)"
  by (cases r) auto

lemma extends_sections:
  assumes e: "extends hi h"
  shows "hb_push_funcs alloc_funcs funcs h = Ok (Inr h') \<Longrightarrow> extends hi h'"
    and "hb_push_tables tables h = Ok (Inr h') \<Longrightarrow> extends hi h'"
    and "hb_push_memories memories h = Ok (Inr h') \<Longrightarrow> extends hi h'"
    and "hb_push_globals rl globals h = Ok (Inr h') \<Longrightarrow> extends hi h'"
    and "hb_push_exports exports h = Ok (Inr h') \<Longrightarrow> extends hi h'"
    and "hb_set_start start h = Ok h' \<Longrightarrow> extends hi h'"
    and "hb_push_element_segments rl elements h = Ok (Inr h') \<Longrightarrow> extends hi h'"
proof -
  show "hb_push_funcs alloc_funcs funcs h = Ok (Inr h') \<Longrightarrow> extends hi h'"
    using e by (auto simp: hb_push_funcs_def and_then_eq_Ok extends_append intro: extends_append
        elim!: push_each_invariant split: if_splits)
  show "hb_push_tables tables h = Ok (Inr h') \<Longrightarrow> extends hi h'"
    using e by (auto simp: hb_push_tables_def and_then_eq_Ok extends_append elim!: push_each_invariant split: if_splits)
  show "hb_push_memories memories h = Ok (Inr h') \<Longrightarrow> extends hi h'"
    using e by (auto simp: hb_push_memories_def and_then_eq_Ok extends_append elim!: push_each_invariant split: if_splits)
  show "hb_push_globals rl globals h = Ok (Inr h') \<Longrightarrow> extends hi h'"
    using e by (auto simp: hb_push_globals_def and_then_eq_Ok extends_append elim!: push_each_invariant split: if_splits)
  show "hb_set_start start h = Ok h' \<Longrightarrow> extends hi h'"
    using extends_append [OF e] by (auto simp: hb_set_start_def split: option.splits)
  show "hb_push_exports exports h = Ok (Inr h') \<Longrightarrow> extends hi h'"
    using extends_append [OF e]
    by (auto simp: hb_push_exports_def and_then_eq_Ok map_sum_eq_Inr split: if_splits)
  show "hb_push_element_segments rl elements h = Ok (Inr h') \<Longrightarrow> extends hi h'"
    using extends_append [OF e]
    by (auto simp: hb_push_element_segments_def and_then_eq_Ok map_sum_eq_Inr split: if_splits)
qed

text \<open>Then the imports of the finished module are those that were read, with their types.\<close>

lemma imports_iter_same:
  "imports_iter (map (\<lambda>x. ImFunc (fst x)) fs @ map (\<lambda>x. ImTable (fst x)) ts @
      map (\<lambda>x. ImMemory (fst x)) ms @ map (\<lambda>x. ImGlobal (fst x)) gs)
     (map snd fs) (map snd ts @ ts') (map snd ms @ ms') (map snd gs) =
   Ok (map (\<lambda>(n, ty). (n, EtFunc ty)) fs @ map (\<lambda>(n, ty). (n, EtTable ty)) ts @
     map (\<lambda>(n, ty). (n, EtMemory ty)) ms @ map (\<lambda>(n, ty). (n, EtGlobal ty)) gs)"
proof -
  have "imports_iter (map (\<lambda>x. ImGlobal (fst x)) gs) [] ts' ms' (map snd gs)
      = Ok (map (\<lambda>(n, ty). (n, EtGlobal ty)) gs)"
    by (induction gs) auto
  then have "imports_iter (map (\<lambda>x. ImMemory (fst x)) ms @ map (\<lambda>x. ImGlobal (fst x)) gs) [] ts'
      (map snd ms @ ms') (map snd gs)
      = Ok (map (\<lambda>(n, ty). (n, EtMemory ty)) ms @ map (\<lambda>(n, ty). (n, EtGlobal ty)) gs)"
    by (induction ms) auto
  then have "imports_iter (map (\<lambda>x. ImTable (fst x)) ts @ map (\<lambda>x. ImMemory (fst x)) ms @
      map (\<lambda>x. ImGlobal (fst x)) gs) [] (map snd ts @ ts') (map snd ms @ ms') (map snd gs)
      = Ok (map (\<lambda>(n, ty). (n, EtTable ty)) ts @ map (\<lambda>(n, ty). (n, EtMemory ty)) ms @
          map (\<lambda>(n, ty). (n, EtGlobal ty)) gs)"
    by (induction ts) auto
  then show ?thesis by (induction fs) auto
qed

lemma imports_of_finished:
  assumes "extends hi h"
  shows "imports_of \<lparr>wm_header = header_finish h, wm_data_segments = ds\<rparr> = Ok (module_imports hi)"
  using assms
  by (auto simp: extends_def imports_of_def header_finish_def imports_finish_def Let_def slice_to_def comp_def
      imports_iter_same module_imports_def)

section \<open>Data segments are read back\<close>

fun push_data_segments :: "ref_layout \<Rightarrow> wp_data list \<Rightarrow> data_segments \<Rightarrow> data_segments outcome" where
  "push_data_segments rl [] b = Ok b"
| "push_data_segments rl (d # ds) b = and_then (push_data_segment rl d b) (push_data_segments rl ds)"

text \<open>What a data segment of a module says.\<close>

definition data_means :: "ref_layout \<Rightarrow> wp_data \<Rightarrow> init_data_segment \<Rightarrow> bool" where
  "data_means rl d x = (case wd_kind d of
     WdPassive \<Rightarrow> x = InitPassive (wd_data d)
   | WdActive memory_index offset_expr \<Rightarrow>
       \<exists>offset. const_expr_new rl offset_expr = Ok offset \<and> x = InitActive memory_index offset (wd_data d))"

definition bytes_used :: "module_data list \<Rightarrow> nat" where
  "bytes_used ds = (\<Sum>d \<leftarrow> ds. case d of DataActive _ _ n \<Rightarrow> unat n | DataPassive _ \<Rightarrow> 0)"

lemma and_then_unit: "and_then m Ok = m"
  by (cases m) auto

lemma init_data_iter_append:
  assumes "init_data_iter xs bs = Ok as" and "length bs = bytes_used xs"
  shows "init_data_iter (xs @ ys) (bs @ cs) = and_then (init_data_iter ys cs) (\<lambda>zs. Ok (as @ zs))"
  using assms
proof (induction xs arbitrary: bs as)
  case (Cons x xs)
  show ?case
  proof (cases x)
    case (DataActive i offset len)
    then obtain zs where "init_data_iter xs (drop (unat len) bs) = Ok zs" "unat len \<le> length bs"
      and as: "as = InitActive i offset (take (unat len) bs) # zs"
      using Cons.prems(1) by (auto simp: and_then_eq_Ok split: if_splits)
    moreover have "length (drop (unat len) bs) = bytes_used xs"
      using Cons.prems(2) DataActive by (simp add: bytes_used_def)
    ultimately show ?thesis using Cons.IH DataActive by (simp add: and_then_assoc)
  next
    case (DataPassive b)
    then obtain zs where "init_data_iter xs bs = Ok zs" "as = InitPassive b # zs"
      using Cons.prems(1) by (auto simp: and_then_eq_Ok)
    then show ?thesis using Cons DataPassive by (simp add: and_then_assoc bytes_used_def)
  qed
qed (simp add: bytes_used_def and_then_unit)

lemma push_data_segment_reads:
  assumes "push_data_segment rl d b = Ok b'" and "init_data_segments b = Ok xs"
    and "length (ds_bytes b) = bytes_used (ds_segments b)"
  shows "\<exists>x. data_means rl d x \<and> init_data_segments b' = Ok (xs @ [x])
    \<and> length (ds_bytes b') = bytes_used (ds_segments b')"
proof (cases "wd_kind d")
  case WdPassive
  then have "b' = b\<lparr>ds_segments := ds_segments b @ [DataPassive (wd_data d)]\<rparr>"
    using assms(1) by (simp add: push_data_segment_def)
  then show ?thesis
    using init_data_iter_append [OF assms(2) [unfolded init_data_segments_def] assms(3), of _ "[]"] WdPassive assms(3)
    by (simp add: data_means_def init_data_segments_def bytes_used_def)
next
  case (WdActive i reads)
  obtain offset where o: "const_expr_new rl reads = Ok offset" and l: "length (wd_data d) < 2 ^ 32"
    and b': "b' = b\<lparr>ds_bytes := ds_bytes b @ wd_data d,
      ds_segments := ds_segments b @ [DataActive i offset (word_of_nat (length (wd_data d)))]\<rparr>"
    using assms(1) WdActive by (auto simp: push_data_segment_def and_then_eq_Ok split: if_splits)
  have u: "unat (word_of_nat (length (wd_data d)) :: u32) = length (wd_data d)" using l by (simp add: unat_of_nat_u32)
  show ?thesis
    using init_data_iter_append [OF assms(2) [unfolded init_data_segments_def] assms(3), of _ "wd_data d"]
      WdActive assms(3) o
    by (simp add: data_means_def init_data_segments_def bytes_used_def b' u)
qed

text \<open>
  C35: the data segments of a module are read back as they were. However active and passive
  segments are mixed, instantiation sees each of them once, in order, with its own memory, offset
  and bytes, although the bytes of all active ones lie in one vector without their positions.
\<close>
theorem data_segments_read_back:
  assumes "push_data_segments rl ds data_segments_build = Ok b"
  shows "\<exists>xs. init_data_segments b = Ok xs \<and> list_all2 (data_means rl) ds xs"
proof -
  have "\<exists>ys. init_data_segments b = Ok (xs @ ys) \<and> list_all2 (data_means rl) ds ys"
    if "push_data_segments rl ds b0 = Ok b" "init_data_segments b0 = Ok xs"
      "length (ds_bytes b0) = bytes_used (ds_segments b0)" for b0 xs
    using that
  proof (induction ds arbitrary: b0 xs)
    case (Cons d ds)
    obtain b1 where p: "push_data_segment rl d b0 = Ok b1" and r: "push_data_segments rl ds b1 = Ok b"
      using Cons.prems(1) by (auto simp: and_then_eq_Ok)
    obtain x where x: "data_means rl d x" "init_data_segments b1 = Ok (xs @ [x])"
      "length (ds_bytes b1) = bytes_used (ds_segments b1)"
      using push_data_segment_reads [OF p Cons.prems(2,3)] by blast
    from Cons.IH [OF r x(2,3)] x(1) show ?case by (metis append_Cons append_Nil append_assoc list.rel_intros(2))
  qed simp
  from this [OF assms, of "[]"] show ?thesis
    by (simp add: data_segments_build_def init_data_segments_def bytes_used_def)
qed

theorem data_segments_read_back_witness:
  "\<exists>b. push_data_segments witness_layout
      [\<lparr>wd_kind = WdActive 0 [Inr (I32Const 16), Inr EndOp], wd_data = [1, 2]\<rparr>,
       \<lparr>wd_kind = WdPassive, wd_data = [3]\<rparr>,
       \<lparr>wd_kind = WdActive 0 [Inr (I32Const 32), Inr EndOp], wd_data = [4]\<rparr>] data_segments_build = Ok b
    \<and> init_data_segments b = Ok [InitActive 0 (OpConst 16) [1, 2], InitPassive [3], InitActive 0 (OpConst 32) [4]]"
proof -
  let ?ds = "[\<lparr>wd_kind = WdActive 0 [Inr (I32Const 16), Inr EndOp], wd_data = [1, 2]\<rparr>,
     \<lparr>wd_kind = WdPassive, wd_data = [3]\<rparr>, \<lparr>wd_kind = WdActive 0 [Inr (I32Const 32), Inr EndOp], wd_data = [4]\<rparr>]"
  have c: "const_expr_new witness_layout [Inr (I32Const n), Inr EndOp] = Ok (OpConst (ucast n))" for n
    by (simp add: const_expr_new_def op_constant_def cs_new_def cs_push_def cs_pop_def)
  obtain b where b: "push_data_segments witness_layout ?ds data_segments_build = Ok b"
    by (simp add: push_data_segment_def c)
  from data_segments_read_back [OF b] obtain xs where
    "init_data_segments b = Ok xs" "list_all2 (data_means witness_layout) ?ds xs" by blast
  then show ?thesis using b by (auto simp: list_all2_Cons1 data_means_def c)
qed

end
