(* ===== verification/Instantiation.thy ===== *)
theory Instantiation
  imports Module_Builder
begin

text \<open>
  Instantiating a module (\<open>patches/wasmi/src/module/instantiate/mod.rs\<close>, \<open>error.rs\<close>) with the
  instance under construction (\<open>instance/builder.rs\<close>): imports against externals, allocation of
  functions, tables, memories and globals, exports, element and data segments, and the start
  function, in the order the engine has them. What a failed instantiation has put into the store
  stays there. Calling the start function is an argument.
\<close>

section \<open>Errors\<close>

datatype instantiation_error =
    InvalidNumberOfImports nat nat
  | ImportsExternalsMismatch extern_type extern
  | GlobalTypeMismatch global_type global_type
  | FuncTypeMismatch func_type func_type
  | TableTypeMismatch table_type table_type
  | MemoryTypeMismatch memory_type memory_type
  | ElementSegmentDoesNotFit handle u64 u32
  | UnexpectedStartFn u32
  | TooManyInstances
  | TooManyTables
  | TooManyMemories
  | FailedToInstantiateMemory memory_error
  | FailedToInstantiateTable table_error

text \<open>How handles print themselves is an argument.\<close>

fun instantiation_error_display ::
  "(extern \<Rightarrow> string) \<Rightarrow> (handle \<Rightarrow> string) \<Rightarrow> instantiation_error \<Rightarrow> string" where
  "instantiation_error_display extern_debug table_debug (InvalidNumberOfImports required given) =
     ''invalid number of imports: required = '' @ dec required @ '', given = '' @ dec given"
| "instantiation_error_display extern_debug table_debug (ImportsExternalsMismatch expected actual) =
     ''expected '' @ extern_type_debug expected @ '' external for import but found '' @ extern_debug actual"
| "instantiation_error_display extern_debug table_debug (GlobalTypeMismatch expected actual) =
     ''imported global type mismatch. expected '' @ global_type_debug expected @ '' but found '' @
       global_type_debug actual"
| "instantiation_error_display extern_debug table_debug (FuncTypeMismatch expected actual) =
     ''imported function type mismatch. expected '' @ func_type_debug expected @ '' but found '' @
       func_type_debug actual"
| "instantiation_error_display extern_debug table_debug (TableTypeMismatch expected actual) =
     ''imported table type mismatch. expected '' @ table_type_debug expected @ '' but found '' @
       table_type_debug actual"
| "instantiation_error_display extern_debug table_debug (MemoryTypeMismatch expected actual) =
     ''imported memory type mismatch. expected '' @ memory_type_debug expected @ '' but found '' @
       memory_type_debug actual"
| "instantiation_error_display extern_debug table_debug (ElementSegmentDoesNotFit h offset amount) =
     ''out of bounds table access: '' @ table_debug h @ '' does not fit '' @ dec (unat amount) @
       '' elements starting from offset '' @ dec (unat offset)"
| "instantiation_error_display extern_debug table_debug (UnexpectedStartFn i) =
     ''found an unexpected start function with index '' @ dec (unat i)"
| "instantiation_error_display extern_debug table_debug TooManyInstances =
     ''tried to instantiate too many instances''"
| "instantiation_error_display extern_debug table_debug TooManyTables = ''tried to instantiate too many tables''"
| "instantiation_error_display extern_debug table_debug TooManyMemories =
     ''tried to instantiate too many linear memories''"
| "instantiation_error_display extern_debug table_debug (FailedToInstantiateMemory e) =
     ''failed to instantiate memory: '' @ memory_error_display e"
| "instantiation_error_display extern_debug table_debug (FailedToInstantiateTable e) =
     ''failed to instantiate table: '' @ table_error_display e"

text \<open>The errors that meet in \<open>instantiate\<close>; \<open>Error::from\<close> turns each of them into an engine error.\<close>

datatype inst_failure =
  InstErr instantiation_error | InstTable table_error | InstMemory memory_error | InstCall error_kind
  | InstLinker linker_error

definition error_of_failure ::
  "(extern \<Rightarrow> string) \<Rightarrow> (handle \<Rightarrow> string) \<Rightarrow> inst_failure \<Rightarrow> error_kind" where
  "error_of_failure extern_debug table_debug f = (case f of
     InstErr e \<Rightarrow> EK_Instantiation (instantiation_error_display extern_debug table_debug e)
   | InstTable e \<Rightarrow> EK_Table e
   | InstMemory e \<Rightarrow> EK_Memory e
   | InstCall e \<Rightarrow> e
   | InstLinker e \<Rightarrow> EK_Linker (linker_error_display e))"

section \<open>The instance under construction\<close>

record instance_builder =
  nb_func_types :: "func_type list"
  nb_tables :: "handle list"
  nb_funcs :: "handle list"
  nb_memories :: "handle list"
  nb_globals :: "handle list"
  nb_start_fn :: "u32 option"
  nb_exports :: "(string, extern) btree"
  nb_data_segments :: "handle list"
  nb_elem_segments :: "handle list"

text \<open>\<open>new\<close> walks over the imports for its capacities.\<close>

definition nb_new :: "wasm_module \<Rightarrow> instance_builder outcome" where
  "nb_new m = and_then (imports_of m) (\<lambda>_.
     Ok \<lparr>nb_func_types = mh_func_types (wm_header m), nb_tables = [], nb_funcs = [], nb_memories = [],
         nb_globals = [], nb_start_fn = None, nb_exports = [], nb_data_segments = [], nb_elem_segments = []\<rparr>)"

definition nb_set_start :: "u32 \<Rightarrow> instance_builder \<Rightarrow> instance_builder outcome" where
  "nb_set_start f b = (case nb_start_fn b of Some _ \<Rightarrow> Panic | None \<Rightarrow> Ok (b\<lparr>nb_start_fn := Some f\<rparr>))"

definition nb_get_memory :: "instance_builder \<Rightarrow> u32 \<Rightarrow> handle outcome" where
  "nb_get_memory b i = index (nb_memories b) (unat i)"

definition nb_get_table :: "instance_builder \<Rightarrow> u32 \<Rightarrow> handle outcome" where
  "nb_get_table b i = index (nb_tables b) (unat i)"

definition nb_get_global :: "instance_builder \<Rightarrow> u32 \<Rightarrow> handle outcome" where
  "nb_get_global b i = index (nb_globals b) (unat i)"

definition nb_get_func :: "instance_builder \<Rightarrow> u32 \<Rightarrow> handle outcome" where
  "nb_get_func b i = index (nb_funcs b) (unat i)"

definition nb_push_export :: "string \<Rightarrow> extern \<Rightarrow> instance_builder \<Rightarrow> instance_builder outcome" where
  "nb_push_export name x b = (case bt_get name (nb_exports b) of
     Some _ \<Rightarrow> Panic | None \<Rightarrow> Ok (b\<lparr>nb_exports := bt_insert name x (nb_exports b)\<rparr>))"

definition nb_finish :: "instance_builder \<Rightarrow> instance_entity" where
  "nb_finish b =
     \<lparr>ie_initialized = True, ie_func_types = nb_func_types b, ie_tables = nb_tables b, ie_funcs = nb_funcs b,
      ie_memories = nb_memories b, ie_globals = nb_globals b, ie_exports = nb_exports b,
      ie_data_segments = nb_data_segments b, ie_elem_segments = nb_elem_segments b\<rparr>"

section \<open>The steps\<close>

text \<open>The question mark on a result beside the store.\<close>

definition st_then ::
  "((inst_failure + 'a) \<times> 's) outcome \<Rightarrow> ('a \<Rightarrow> 's \<Rightarrow> ((inst_failure + 'b) \<times> 's) outcome) \<Rightarrow>
   ((inst_failure + 'b) \<times> 's) outcome" where
  "st_then m f = and_then m (\<lambda>(r, st). case r of Inl e \<Rightarrow> Ok (Inl e, st) | Inr a \<Rightarrow> f a st)"

definition match_import ::
  "('h, 'l) store \<Rightarrow> extern_type \<Rightarrow> extern \<Rightarrow> instance_builder \<Rightarrow>
   (instantiation_error + instance_builder) outcome" where
  "match_import st ty x b = (case (ty, x) of
     (EtFunc expected, ExFunc h) \<Rightarrow>
       and_then (func_ty st h) (\<lambda>actual. Ok (
         if actual \<noteq> expected then Inl (FuncTypeMismatch expected actual)
         else Inr (b\<lparr>nb_funcs := nb_funcs b @ [h]\<rparr>)))
   | (EtTable required, ExTable h) \<Rightarrow>
       and_then (resolve_table st h) (\<lambda>tab. and_then (table_dynamic_ty tab) (\<lambda>imported. Ok (
         if \<not> table_is_subtype_of imported required then Inl (TableTypeMismatch required imported)
         else Inr (b\<lparr>nb_tables := nb_tables b @ [h]\<rparr>))))
   | (EtMemory required, ExMemory h) \<Rightarrow>
       and_then (resolve_memory st h) (\<lambda>mem. and_then (dynamic_ty mem) (\<lambda>imported. Ok (
         if \<not> is_subtype_of imported required then Inl (MemoryTypeMismatch required imported)
         else Inr (b\<lparr>nb_memories := nb_memories b @ [h]\<rparr>))))
   | (EtGlobal required, ExGlobal h) \<Rightarrow>
       and_then (resolve_global st h) (\<lambda>g. Ok (
         if gl_ty g \<noteq> required then Inl (GlobalTypeMismatch required (gl_ty g))
         else Inr (b\<lparr>nb_globals := nb_globals b @ [h]\<rparr>)))
   | (expected_import, actual) \<Rightarrow> Ok (Inl (ImportsExternalsMismatch expected_import actual)))"

fun match_imports ::
  "('h, 'l) store \<Rightarrow> (extern_type \<times> extern) list \<Rightarrow> instance_builder \<Rightarrow>
   (instantiation_error + instance_builder) outcome" where
  "match_imports st [] b = Ok (Inr b)"
| "match_imports st ((ty, x) # xs) b =
     and_then (match_import st ty x b) (\<lambda>r. case r of Inl e \<Rightarrow> Ok (Inl e) | Inr b \<Rightarrow> match_imports st xs b)"

definition extract_imports ::
  "wasm_module \<Rightarrow> ('h, 'l) store \<Rightarrow> instance_builder \<Rightarrow> extern list \<Rightarrow>
   (instantiation_error + instance_builder) outcome" where
  "extract_imports m st b externals =
     and_then (imports_of m) (\<lambda>imports.
       if length imports \<noteq> length externals
       then Ok (Inl (InvalidNumberOfImports (length imports) (length externals)))
       else match_imports st (zip (map snd imports) externals) b)"

fun alloc_internal_funcs ::
  "handle \<Rightarrow> (func_type \<times> nat) list \<Rightarrow> instance_builder \<Rightarrow> ('h, 'l) store \<Rightarrow>
   (instance_builder \<times> ('h, 'l) store) outcome" where
  "alloc_internal_funcs h [] b st = Ok (b, st)"
| "alloc_internal_funcs h ((func_type, func_body) # fs) b st =
     and_then (alloc_func (WasmFunc \<lparr>wfe_ty = func_type, wfe_body = func_body, wfe_instance = h\<rparr>) st)
       (\<lambda>(f, st). alloc_internal_funcs h fs (b\<lparr>nb_funcs := nb_funcs b @ [f]\<rparr>) st)"

definition extract_functions ::
  "wasm_module \<Rightarrow> handle \<Rightarrow> instance_builder \<Rightarrow> ('h, 'l) store \<Rightarrow> (instance_builder \<times> ('h, 'l) store) outcome" where
  "extract_functions m h b st = and_then (internal_funcs m) (\<lambda>fs. alloc_internal_funcs h fs b st)"

fun new_tables ::
  "target \<Rightarrow> ref_layout \<Rightarrow> allocator \<Rightarrow> table_type list \<Rightarrow> instance_builder \<Rightarrow> ('h, 'l) store \<Rightarrow>
   ((inst_failure + instance_builder) \<times> ('h, 'l) store) outcome" where
  "new_tables t rl al [] b st = Ok (Inr b, st)"
| "new_tables t rl al (ty # tys) b st =
     and_then (table_object_new t rl al ty (val_default (tt_element ty)) st) (\<lambda>(r, st). case r of
       Inl e \<Rightarrow> Ok (Inl (InstErr (FailedToInstantiateTable e)), st)
     | Inr h \<Rightarrow> new_tables t rl al tys (b\<lparr>nb_tables := nb_tables b @ [h]\<rparr>) st)"

definition extract_tables ::
  "target \<Rightarrow> ref_layout \<Rightarrow> allocator \<Rightarrow> wasm_module \<Rightarrow> instance_builder \<Rightarrow> ('h, 'l) store \<Rightarrow>
   ((inst_failure + instance_builder) \<times> ('h, 'l) store) outcome" where
  "extract_tables t rl al m b st =
     (if \<not> can_create_more_tables t (length (mh_tables (wm_header m))) st
      then Ok (Inl (InstErr TooManyTables), st)
      else and_then (internal_tables m) (\<lambda>tys. new_tables t rl al tys b st))"

fun new_memories ::
  "target \<Rightarrow> allocator \<Rightarrow> memory_type list \<Rightarrow> instance_builder \<Rightarrow> ('h, 'l) store \<Rightarrow>
   ((inst_failure + instance_builder) \<times> ('h, 'l) store) outcome" where
  "new_memories t al [] b st = Ok (Inr b, st)"
| "new_memories t al (ty # tys) b st =
     and_then (memory_object_new t al ty st) (\<lambda>(r, st). case r of
       Inl e \<Rightarrow> Ok (Inl (InstErr (FailedToInstantiateMemory e)), st)
     | Inr h \<Rightarrow> new_memories t al tys (b\<lparr>nb_memories := nb_memories b @ [h]\<rparr>) st)"

definition extract_memories ::
  "target \<Rightarrow> allocator \<Rightarrow> wasm_module \<Rightarrow> instance_builder \<Rightarrow> ('h, 'l) store \<Rightarrow>
   ((inst_failure + instance_builder) \<times> ('h, 'l) store) outcome" where
  "extract_memories t al m b st =
     (if \<not> can_create_more_memories t (length (mh_memories (wm_header m))) st
      then Ok (Inl (InstErr TooManyMemories), st)
      else and_then (internal_memories m) (\<lambda>tys. new_memories t al tys b st))"

definition eval_init_expr :: "ref_layout \<Rightarrow> ('h, 'l) store \<Rightarrow> instance_builder \<Rightarrow> op \<Rightarrow> untyped_val outcome" where
  "eval_init_expr rl st b init_expr =
     and_then (eval_with_context rl (\<lambda>i. and_then (nb_get_global b i) (global_object_get rl st))
         (\<lambda>i. and_then (nb_get_func b i) (\<lambda>h. Ok (Some h))) init_expr) (\<lambda>r.
       case r of None \<Rightarrow> Panic | Some u \<Rightarrow> Ok u)"

fun new_globals ::
  "ref_layout \<Rightarrow> (global_type \<times> op) list \<Rightarrow> instance_builder \<Rightarrow> ('h, 'l) store \<Rightarrow>
   (instance_builder \<times> ('h, 'l) store) outcome" where
  "new_globals rl [] b st = Ok (b, st)"
| "new_globals rl ((ty, init) # gs) b st =
     and_then (eval_init_expr rl st b init) (\<lambda>u.
     and_then (with_type rl u (gt_content ty)) (\<lambda>v.
     and_then (global_object_new rl v (gt_mutability ty) st) (\<lambda>(h, st).
       new_globals rl gs (b\<lparr>nb_globals := nb_globals b @ [h]\<rparr>) st)))"

definition extract_globals ::
  "ref_layout \<Rightarrow> wasm_module \<Rightarrow> instance_builder \<Rightarrow> ('h, 'l) store \<Rightarrow> (instance_builder \<times> ('h, 'l) store) outcome" where
  "extract_globals rl m b st = and_then (internal_globals m) (\<lambda>gs. new_globals rl gs b st)"

definition export_extern :: "instance_builder \<Rightarrow> extern_idx \<Rightarrow> extern outcome" where
  "export_extern b i = (case i of
     XiFunc i \<Rightarrow> and_then (nb_get_func b i) (\<lambda>h. Ok (ExFunc h))
   | XiTable i \<Rightarrow> and_then (nb_get_table b i) (\<lambda>h. Ok (ExTable h))
   | XiMemory i \<Rightarrow> and_then (nb_get_memory b i) (\<lambda>h. Ok (ExMemory h))
   | XiGlobal i \<Rightarrow> and_then (nb_get_global b i) (\<lambda>h. Ok (ExGlobal h)))"

fun push_exports :: "(string \<times> extern_idx) list \<Rightarrow> instance_builder \<Rightarrow> instance_builder outcome" where
  "push_exports [] b = Ok b"
| "push_exports ((field, i) # xs) b =
     and_then (export_extern b i) (\<lambda>x. and_then (nb_push_export field x b) (push_exports xs))"

definition extract_exports :: "wasm_module \<Rightarrow> instance_builder \<Rightarrow> instance_builder outcome" where
  "extract_exports m b = push_exports (mh_exports (wm_header m)) b"

definition extract_start_fn :: "wasm_module \<Rightarrow> instance_builder \<Rightarrow> instance_builder outcome" where
  "extract_start_fn m b = (case mh_start (wm_header m) of Some f \<Rightarrow> nb_set_start f b | None \<Rightarrow> Ok b)"

section \<open>Segments\<close>

fun eval_items :: "ref_layout \<Rightarrow> ('h, 'l) store \<Rightarrow> instance_builder \<Rightarrow> op list \<Rightarrow> untyped_val list outcome" where
  "eval_items rl st b [] = Ok []"
| "eval_items rl st b (x # xs) =
     and_then (eval_init_expr rl st b x) (\<lambda>u. and_then (eval_items rl st b xs) (\<lambda>us. Ok (u # us)))"

definition element_object_new ::
  "ref_layout \<Rightarrow> instance_builder \<Rightarrow> module_element \<Rightarrow> ('h, 'l) store \<Rightarrow> (handle \<times> ('h, 'l) store) outcome" where
  "element_object_new rl b segment st =
     and_then (case me_kind segment of
         EskDeclared \<Rightarrow> Ok [] | _ \<Rightarrow> eval_items rl st b (me_items segment)) (\<lambda>items.
     and_then (element_segment_new (me_ty segment) items) (\<lambda>entity. alloc_element_segment entity st))"

text \<open>What an active segment does to its table; then its items are dropped.\<close>

definition init_table ::
  "target \<Rightarrow> handle \<Rightarrow> handle \<Rightarrow> u64 \<Rightarrow> ('h, 'l) store \<Rightarrow> ((inst_failure + unit) \<times> ('h, 'l) store) outcome" where
  "init_table t h_table h_elem dst_index st =
     and_then (resolve_table st h_table) (\<lambda>tab.
     and_then (resolve_element st h_elem) (\<lambda>elem.
     and_then (element_segment_size elem) (\<lambda>len_items.
       case checked_add64 dst_index (ucast len_items) of
         None \<Rightarrow> Ok (Inl (InstErr (ElementSegmentDoesNotFit h_table dst_index len_items)), st)
       | Some max_index \<Rightarrow>
           if \<not> max_index \<le> table_size tab
           then Ok (Inl (InstErr (ElementSegmentDoesNotFit h_table dst_index len_items)), st)
           else and_then (table_init t elem dst_index 0 len_items tab None) (\<lambda>(r, tab, fu).
             let st = st\<lparr>so_tables := (so_tables st)[snd h_table := tab]\<rparr>
             in case r of
                  Inl e \<Rightarrow> Ok (Inl (InstTable e), st)
                | Inr _ \<Rightarrow> Ok (Inr (), st\<lparr>so_elems := (so_elems st)[snd h_elem := drop_items elem]\<rparr>)))))"

fun init_elements ::
  "target \<Rightarrow> ref_layout \<Rightarrow> module_element list \<Rightarrow> instance_builder \<Rightarrow> ('h, 'l) store \<Rightarrow>
   ((inst_failure + instance_builder) \<times> ('h, 'l) store) outcome" where
  "init_elements t rl [] b st = Ok (Inr b, st)"
| "init_elements t rl (segment # segments) b st =
     and_then (element_object_new rl b segment st) (\<lambda>(element, st).
     st_then (case me_kind segment of
         EskActive table_index offset \<Rightarrow>
           and_then (eval_init_expr rl st b offset) (\<lambda>dst_index.
           and_then (nb_get_table b table_index) (\<lambda>h_table. init_table t h_table element dst_index st))
       | _ \<Rightarrow> Ok (Inr (), st)) (\<lambda>_ st.
       init_elements t rl segments (b\<lparr>nb_elem_segments := nb_elem_segments b @ [element]\<rparr>) st))"

definition memory_object_write ::
  "target \<Rightarrow> handle \<Rightarrow> nat \<Rightarrow> bytes \<Rightarrow> ('h, 'l) store \<Rightarrow> ((memory_error + unit) \<times> ('h, 'l) store) outcome" where
  "memory_object_write t h offset bs st =
     and_then (resolve_memory st h) (\<lambda>mem. case memory_write t offset bs mem of (r, mem) \<Rightarrow>
       Ok (r, st\<lparr>so_memories := (so_memories st)[snd h := mem]\<rparr>))"

definition init_data ::
  "target \<Rightarrow> ref_layout \<Rightarrow> init_data_segment \<Rightarrow> instance_builder \<Rightarrow> ('h, 'l) store \<Rightarrow>
   ((inst_failure + handle) \<times> ('h, 'l) store) outcome" where
  "init_data t rl segment b st = (case segment of
     InitActive memory_index offset bs \<Rightarrow>
       and_then (nb_get_memory b memory_index) (\<lambda>h.
       and_then (eval_init_expr rl st b offset) (\<lambda>offset.
         case try_usize t offset of
           None \<Rightarrow> Ok (Inl (InstMemory OutOfBoundsAccess), st)
         | Some offset \<Rightarrow>
             and_then (memory_object_write t h offset bs st) (\<lambda>(r, st). case r of
               Inl e \<Rightarrow> Ok (Inl (InstMemory e), st)
             | Inr _ \<Rightarrow> and_then (alloc_data_segment None st) (\<lambda>(h, st). Ok (Inr h, st)))))
   | InitPassive bs \<Rightarrow> and_then (alloc_data_segment (Some bs) st) (\<lambda>(h, st). Ok (Inr h, st)))"

fun init_datas ::
  "target \<Rightarrow> ref_layout \<Rightarrow> init_data_segment list \<Rightarrow> instance_builder \<Rightarrow> ('h, 'l) store \<Rightarrow>
   ((inst_failure + instance_builder) \<times> ('h, 'l) store) outcome" where
  "init_datas t rl [] b st = Ok (Inr b, st)"
| "init_datas t rl (segment # segments) b st =
     st_then (init_data t rl segment b st) (\<lambda>h st.
       init_datas t rl segments (b\<lparr>nb_data_segments := nb_data_segments b @ [h]\<rparr>) st)"

section \<open>The whole\<close>

type_synonym ('h, 'l) call_func = "handle \<Rightarrow> ('h, 'l) store \<Rightarrow> ((error_kind + unit) \<times> ('h, 'l) store) outcome"

definition start_instance ::
  "('h, 'l) call_func \<Rightarrow> instance_builder \<Rightarrow> handle \<Rightarrow> ('h, 'l) store \<Rightarrow>
   ((inst_failure + unit) \<times> ('h, 'l) store) outcome" where
  "start_instance call b h st =
     and_then (initialize_instance h (nb_finish b) st) (\<lambda>st.
       case nb_start_fn b of
         None \<Rightarrow> Ok (Inr (), st)
       | Some start_index \<Rightarrow>
           and_then (resolve_instance st h) (\<lambda>i.
             if unat start_index < length (ie_funcs i)
             then and_then (call (ie_funcs i ! unat start_index) st) (\<lambda>(r, st). case r of
                    Inl e \<Rightarrow> Ok (Inl (InstCall e), st) | Inr _ \<Rightarrow> Ok (Inr (), st))
             else Panic))"

definition instantiate ::
  "target \<Rightarrow> ref_layout \<Rightarrow> allocator \<Rightarrow> ('h, 'l) call_func \<Rightarrow> wasm_module \<Rightarrow> extern list \<Rightarrow> ('h, 'l) store \<Rightarrow>
   ((inst_failure + handle) \<times> ('h, 'l) store) outcome" where
  "instantiate t rl al call m externals st =
     (if \<not> can_create_more_instances t 1 st then Ok (Inl (InstErr TooManyInstances), st)
      else
        and_then (alloc_instance st) (\<lambda>(h, st).
        and_then (nb_new m) (\<lambda>b.
        and_then (extract_imports m st b externals) (\<lambda>r. case r of
          Inl e \<Rightarrow> Ok (Inl (InstErr e), st)
        | Inr b \<Rightarrow>
            and_then (extract_functions m h b st) (\<lambda>(b, st).
            st_then (extract_tables t rl al m b st) (\<lambda>b st.
            st_then (extract_memories t al m b st) (\<lambda>b st.
            and_then (extract_globals rl m b st) (\<lambda>(b, st).
            and_then (extract_exports m b) (\<lambda>b.
            and_then (extract_start_fn m b) (\<lambda>b.
            st_then (init_elements t rl (mh_element_segments (wm_header m)) b st) (\<lambda>b st.
            and_then (init_data_segments (wm_data_segments m)) (\<lambda>segments.
            st_then (init_datas t rl segments b st) (\<lambda>b st.
            st_then (start_instance call b h st) (\<lambda>_ st. Ok (Inr h, st)))))))))))))))"

definition linker_instantiate_and_start ::
  "target \<Rightarrow> ref_layout \<Rightarrow> allocator \<Rightarrow> ('h, 'l) call_func \<Rightarrow> 'h linker \<Rightarrow> wasm_module \<Rightarrow> ('h, 'l) store \<Rightarrow>
   ((inst_failure + handle) \<times> ('h, 'l) store) outcome" where
  "linker_instantiate_and_start t rl al call ln m st =
     (if so_engine st \<noteq> ln_engine ln then Panic
      else
        and_then (imports_of m) (\<lambda>imports.
        and_then (link_imports ln imports st) (\<lambda>(r, st). case r of
          Inl e \<Rightarrow> Ok (Inl (InstLinker e), st)
        | Inr externals \<Rightarrow> instantiate t rl al call m externals st)))"

end
