(* ===== verification/Link_Safety.thy ===== *)
theory Link_Safety
  imports Receiver_Linker
begin

text \<open>
  What the receiver's linker guarantees for a module on its way to execution: a module whose
  imports link on the registered linker imports only syscalls of the alphabet, each resolved to the
  closure registered under its name, and it is one the receiver's import check accepts. The modules
  on which the check reads other imports than the engine do not get past the linker.
\<close>

section \<open>Imports on the registered linker\<close>

definition registered :: "(string \<Rightarrow> 'h) \<Rightarrow> nat \<Rightarrow> 'h linker \<Rightarrow> ('h, 'l) store \<Rightarrow> bool" where
  "registered tr e ln st \<longleftrightarrow>
     (\<exists>st0 st1. register_syscalls tr (linker_new e) st0 = Ok (ln, st1) \<and> store_grows st1 st)"

text \<open>An import, and the syscall it resolves to.\<close>

definition resolves_to_syscall ::
  "(string \<Rightarrow> 'h) \<Rightarrow> ('h, 'l) store \<Rightarrow> import_type \<Rightarrow> extern \<Rightarrow> bool" where
  "resolves_to_syscall tr st i x \<longleftrightarrow> in_module (fst i) = ''env'' \<and> in_field (fst i) \<in> set ALLOWED_IMPORTS
     \<and> (\<exists>ty. snd i = EtFunc ty)
     \<and> (\<exists>h ty. x = ExFunc h \<and> (in_field (fst i), ty) \<in> set syscall_signatures
          \<and> is_host_func st h ty (tr (in_field (fst i))))"

lemma signature_allowed: "(n, ty) \<in> set syscall_signatures \<Longrightarrow> n \<in> set ALLOWED_IMPORTS"
  by (auto simp: syscall_signatures_def ALLOWED_IMPORTS_def)

lemma registered_lookup:
  assumes "registered tr e ln st" and "get_definition m n (ln_inner ln) = Some d"
  shows "\<exists>h ty. m = ''env'' \<and> (n, ty) \<in> set syscall_signatures \<and> d = DefExtern (ExFunc h)
    \<and> is_host_func st h ty (tr n)"
proof -
  obtain st0 st1 where r: "register_syscalls tr (linker_new e) st0 = Ok (ln, st1)" and g: "store_grows st1 st"
    using assms(1) by (auto simp: registered_def)
  show ?thesis
    using registered_definition [OF r, of m n d] assms(2) is_host_func_grows [OF _ g]
    unfolding get_definition_view by blast
qed

lemma process_import_func:
  assumes "get_definition (in_module name) (in_field name) (ln_inner ln) = Some (DefExtern (ExFunc h))"
  shows "process_import ln (name, ty) st =
    (if so_engine st \<noteq> ln_engine ln then Panic
     else if \<exists>f. ty = EtFunc f then Ok (Inr (ExFunc h), st)
     else and_then (extern_ty st (ExFunc h)) (\<lambda>found. Ok (Inl (invalid_type_definition (name, ty) found), st)))"
  using assms
  by (cases ty) (simp_all add: process_import_def linker_get_definition_def as_func_def as_extern_def
      def_ty_def Let_def)

lemma process_import_registered:
  assumes r: "registered tr e ln st" and p: "process_import ln i st = Ok (Inr x, st')"
  shows "st' = st \<and> resolves_to_syscall tr st i x"
proof -
  obtain name ty where i: "i = (name, ty)" by (cases i)
  have "get_definition (in_module name) (in_field name) (ln_inner ln) \<noteq> None"
  proof
    assume "get_definition (in_module name) (in_field name) (ln_inner ln) = None"
    then show False using p by (auto simp: process_import_def linker_get_definition_def i split: if_splits)
  qed
  then obtain d where g: "get_definition (in_module name) (in_field name) (ln_inner ln) = Some d" by blast
  obtain h sty where d: "in_module name = ''env''" "(in_field name, sty) \<in> set syscall_signatures"
    "d = DefExtern (ExFunc h)" "is_host_func st h sty (tr (in_field name))"
    using registered_lookup [OF r g] by blast
  have f: "\<exists>f. ty = EtFunc f" and x: "x = ExFunc h" "st' = st"
    using p unfolding i process_import_func [OF g [unfolded d(3)]]
    by (auto simp: and_then_eq_Ok split: if_splits)
  show ?thesis
    using d(1,2,4) f x signature_allowed [OF d(2)] by (auto simp: resolves_to_syscall_def i)
qed

lemma link_imports_Cons:
  assumes "link_imports ln (i # is) st = Ok (Inr xs, st')"
  obtains x st1 ys where "process_import ln i st = Ok (Inr x, st1)"
    "link_imports ln is st1 = Ok (Inr ys, st')" "xs = x # ys"
proof -
  obtain r st1 where p: "process_import ln i st = Ok (r, st1)"
    and c: "(case r of Inl e \<Rightarrow> Ok (Inl e, st1)
       | Inr x \<Rightarrow> and_then (link_imports ln is st1) (\<lambda>(r, st). Ok (map_sum id ((#) x) r, st))) = Ok (Inr xs, st')"
    using assms unfolding link_imports.simps and_then_eq_Ok by auto
  obtain x where r: "r = Inr x" using c by (cases r) auto
  then obtain q st2 where l: "link_imports ln is st1 = Ok (q, st2)"
    and q: "map_sum id ((#) x) q = Inr xs" "st2 = st'"
    using c by (auto simp: and_then_eq_Ok)
  obtain ys where ys: "q = Inr ys" "xs = x # ys" using q(1) by (cases q) auto
  show thesis by (rule that) (use p r l ys q(2) in simp_all)
qed

lemma link_imports_registered:
  assumes "registered tr e ln st" and "link_imports ln is st = Ok (Inr xs, st')"
  shows "st' = st \<and> list_all2 (resolves_to_syscall tr st) is xs"
  using assms(2)
proof (induction "is" arbitrary: xs)
  case (Cons i "is")
  obtain x st1 ys where "process_import ln i st = Ok (Inr x, st1)"
    "link_imports ln is st1 = Ok (Inr ys, st')" "xs = x # ys"
    by (rule link_imports_Cons [OF Cons.prems])
  moreover from process_import_registered [OF assms(1) this(1)]
  have "st1 = st" "resolves_to_syscall tr st i x" by simp_all
  ultimately show ?case using Cons.IH by simp
qed simp

section \<open>The imports the engine reads\<close>

abbreviation wp_import_name :: "wp_import \<Rightarrow> import_name" where
  "wp_import_name i \<equiv> \<lparr>in_module = wi_module i, in_field = wi_name i\<rparr>"

lemma push_imports_loop_reads:
  assumes "push_imports_loop t fts n r h = Ok (Inr h')"
  shows "\<exists>is. section_items (read_import t) n r = Ok (Inr is)
    \<and> map fst (hi_funcs h') = map fst (hi_funcs h) @ map wp_import_name (filter (\<lambda>i. is_func_type (wi_ty i)) is)
    \<and> length (hi_tables h') + length (hi_memories h') + length (hi_globals h')
      = length (hi_tables h) + length (hi_memories h) + length (hi_globals h)
        + length (filter (\<lambda>i. \<not> is_func_type (wi_ty i)) is)"
  using assms
proof (induction n arbitrary: r h)
  case 0
  then show ?case by (auto split: if_splits)
next
  case (Suc n)
  obtain y where y: "read_import t r = Ok y"
    and c: "(case y of Inl e \<Rightarrow> Ok (Inl (wasm_error_of e))
      | Inr (i, s) \<Rightarrow> and_then (import_from i) (\<lambda>i. and_then (push_import fts i h) (\<lambda>h.
          push_imports_loop t fts n s h))) = Ok (Inr h')"
    using Suc.prems unfolding push_imports_loop.simps and_then_eq_Ok by auto
  obtain i s where "y = Inr (i, s)" using c by (cases y) auto
  then have i: "read_import t r = Ok (Inr (i, s))"
    and rest: "and_then (import_from i) (\<lambda>i. and_then (push_import fts i h) (\<lambda>h. push_imports_loop t fts n s h))
      = Ok (Inr h')"
    using y c by simp_all
  obtain k h1 where k: "import_from i = Ok k" and p: "push_import fts k h = Ok h1"
    and l: "push_imports_loop t fts n s h1 = Ok (Inr h')"
    using rest by (auto simp: and_then_eq_Ok)
  obtain js where js: "section_items (read_import t) n s = Ok (Inr js)"
    and J: "map fst (hi_funcs h') = map fst (hi_funcs h1) @ map wp_import_name (filter (\<lambda>i. is_func_type (wi_ty i)) js)"
      "length (hi_tables h') + length (hi_memories h') + length (hi_globals h')
      = length (hi_tables h1) + length (hi_memories h1) + length (hi_globals h1)
        + length (filter (\<lambda>i. \<not> is_func_type (wi_ty i)) js)"
    using Suc.IH [OF l] by blast
  have "if is_func_type (wi_ty i)
    then map fst (hi_funcs h1) = map fst (hi_funcs h) @ [wp_import_name i]
      \<and> hi_tables h1 = hi_tables h \<and> hi_memories h1 = hi_memories h \<and> hi_globals h1 = hi_globals h
    else hi_funcs h1 = hi_funcs h
      \<and> length (hi_tables h1) + length (hi_memories h1) + length (hi_globals h1)
        = Suc (length (hi_tables h) + length (hi_memories h) + length (hi_globals h))"
    using k p by (cases "wi_ty i") (auto simp: import_from_def push_import_def and_then_eq_Ok)
  then show ?case using i js J by (auto split: if_splits)
qed

section \<open>What links\<close>

lemma no_element: "\<forall>x \<in> set xs. False \<Longrightarrow> xs = []"
  by (cases xs) auto

lemma module_imports_syscalls:
  assumes "list_all2 (resolves_to_syscall tr st) (module_imports hi) xs"
  shows "hi_tables hi = [] \<and> hi_memories hi = [] \<and> hi_globals hi = []
    \<and> (\<forall>n \<in> fst ` set (hi_funcs hi). in_module n = ''env'' \<and> in_field n \<in> set ALLOWED_IMPORTS)"
proof -
  let ?P = "\<lambda>i :: import_type. (\<exists>ty. snd i = EtFunc ty) \<and> in_module (fst i) = ''env'' \<and> in_field (fst i) \<in> set ALLOWED_IMPORTS"
  have "list_all2 (\<lambda>i x. ?P i) (module_imports hi) xs"
    by (rule list_all2_mono [OF assms]) (auto simp: resolves_to_syscall_def)
  then have each: "\<forall>i \<in> set (module_imports hi). ?P i"
    by (fastforce simp: list_all2_conv_all_nth in_set_conv_nth)
  then have f: "\<forall>p \<in> set (hi_funcs hi). in_module (fst p) = ''env'' \<and> in_field (fst p) \<in> set ALLOWED_IMPORTS"
    and none: "\<forall>p \<in> set (hi_tables hi). False" "\<forall>p \<in> set (hi_memories hi). False"
      "\<forall>p \<in> set (hi_globals hi). False"
    by (simp_all add: module_imports_def ball_Un case_prod_beta)
  show ?thesis using f by (simp add: no_element [OF none(1)] no_element [OF none(2)] no_element [OF none(3)])
qed

lemma linked_imports_read:
  assumes "registered tr e ln st" and "push_imports t fts sec no_imports = Ok (Inr hi)"
    and "link_imports ln (module_imports hi) st = Ok (Inr xs, st')"
  obtains "is" where "section_collect (read_import t) sec = Ok (Inr is)"
    "\<forall>i \<in> set is. is_func_type (wi_ty i) \<and> wi_module i = ''env'' \<and> wi_name i \<in> set ALLOWED_IMPORTS"
    "map fst (module_imports hi) = map wp_import_name is"
proof -
  obtain "is" where i: "section_collect (read_import t) sec = Ok (Inr is)"
    and f: "map fst (hi_funcs hi) = map wp_import_name (filter (\<lambda>i. is_func_type (wi_ty i)) is)"
    and o: "length (hi_tables hi) + length (hi_memories hi) + length (hi_globals hi)
      = length (filter (\<lambda>i. \<not> is_func_type (wi_ty i)) is)"
    using push_imports_loop_reads [OF assms(2) [unfolded push_imports_def]]
    by (auto simp: section_collect_def no_imports_def)
  have "list_all2 (resolves_to_syscall tr st) (module_imports hi) xs"
    using link_imports_registered [OF assms(1,3)] by simp
  note S = module_imports_syscalls [OF this]
  have "filter (\<lambda>i. \<not> is_func_type (wi_ty i)) is = []" using S o by simp
  then have all: "\<forall>i \<in> set is. is_func_type (wi_ty i)" by (simp add: filter_empty_conv)
  then have fs: "map fst (hi_funcs hi) = map wp_import_name is" using f by simp
  have "fst ` set (hi_funcs hi) = wp_import_name ` set is"
    using arg_cong [OF fs, of set] by simp
  then have "\<forall>i \<in> set is. wi_module i = ''env'' \<and> wi_name i \<in> set ALLOWED_IMPORTS" using S by force
  then show thesis
    using that [OF i] all fs S by (simp add: module_imports_def comp_def case_prod_beta)
qed

text \<open>Conversely, an import of the alphabet links.\<close>

lemma registered_engine:
  assumes "register_syscalls tr (linker_new e) st0 = Ok (ln, st)"
  shows "ln_engine ln = e" and "so_engine st = so_engine st0"
proof -
  obtain fs where w: "wrap_all tr syscall_signatures st0 = Ok (fs, st)"
    and da: "define_all fs (linker_new e) = Ok ln"
    using assms by (auto simp: register_syscalls_def and_then_eq_Ok)
  show "so_engine st = so_engine st0" using wrap_all_Ok [OF w] by (simp add: store_grows_def)
  show "ln_engine ln = e"
    using linker_reachable_ok [OF define_all_reachable [OF da linker_reachable.created]] by simp
qed

lemma allowed_definition:
  assumes "register_syscalls tr (linker_new e) st0 = Ok (ln, st)"
    and "length (so_funcs st0) + 12 < 2 ^ 32" and "n \<in> set ALLOWED_IMPORTS"
  shows "\<exists>h. get_definition ''env'' n (ln_inner ln) = Some (DefExtern (ExFunc h))"
proof -
  have "(''env'', n) \<in> set linker_definitions"
    using assms(3) by (auto simp: linker_definitions_def ALLOWED_IMPORTS_def)
  then obtain d where v: "linker_view (ln_inner ln) (''env'', n) = Some d"
    using registered_total [OF assms(1,2), of "''env''" n] by (auto split: option.splits)
  then show ?thesis using registered_definition [OF assms(1) v] unfolding get_definition_view by blast
qed

lemma allowed_import_links:
  assumes "register_syscalls tr (linker_new e) st0 = Ok (ln, st)" and "so_engine st0 = e"
    and "length (so_funcs st0) + 12 < 2 ^ 32"
    and "in_module name = ''env''" and "in_field name \<in> set ALLOWED_IMPORTS"
  shows "\<exists>h. process_import ln (name, EtFunc ty) st = Ok (Inr (ExFunc h), st)"
proof -
  obtain h where "get_definition ''env'' (in_field name) (ln_inner ln) = Some (DefExtern (ExFunc h))"
    using allowed_definition [OF assms(1,3,5)] by blast
  then have g: "get_definition (in_module name) (in_field name) (ln_inner ln) = Some (DefExtern (ExFunc h))"
    using assms(4) by simp
  show ?thesis using registered_engine [OF assms(1)] assms(2) by (simp add: process_import_func [OF g])
qed

lemma allowed_imports_link:
  assumes "register_syscalls tr (linker_new e) st0 = Ok (ln, st)" and "so_engine st0 = e"
    and "length (so_funcs st0) + 12 < 2 ^ 32"
    and "\<forall>i \<in> set is. (\<exists>ty. snd i = EtFunc ty) \<and> in_module (fst i) = ''env'' \<and> in_field (fst i) \<in> set ALLOWED_IMPORTS"
  shows "\<exists>xs. link_imports ln is st = Ok (Inr xs, st)"
  using assms(4)
proof (induction "is")
  case (Cons i "is")
  obtain name ty where i: "i = (name, EtFunc ty)" using Cons.prems by (cases i) auto
  obtain h where "process_import ln i st = Ok (Inr (ExFunc h), st)"
    using allowed_import_links [OF assms(1-3), of name ty] Cons.prems i by auto
  moreover obtain xs where "link_imports ln is st = Ok (Inr xs, st)" using Cons by auto
  ultimately show ?case by simp
qed simp

lemma func_type_plain: "is_func_type ty \<Longrightarrow> plain_type ty"
  by (cases ty) auto

lemma linked_functions:
  assumes r: "registered tr e ln st" and "engine_reads_imports t process func_types features rest wasm sec"
    and "push_imports t fts sec no_imports = Ok (Inr hi)"
    and "link_imports ln (module_imports hi) st = Ok (Inr xs, st')"
    and "length wasm < 2 ^ usize_bits t" and "32 \<le> usize_bits t" and "usize_bits t \<le> 64"
  shows "list_all2 (resolves_to_syscall tr st') (module_imports hi) xs"
    and "validate_wasm_imports t wasm = Ok \<lparr>valid = True, rejected_imports = []\<rparr>"
proof -
  obtain "is" where i: "section_collect (read_import t) sec = Ok (Inr is)"
    and all: "\<forall>i \<in> set is. is_func_type (wi_ty i) \<and> wi_module i = ''env'' \<and> wi_name i \<in> set ALLOWED_IMPORTS"
    by (rule linked_imports_read [OF r assms(3,4)])
  have "\<forall>i \<in> set is. plain_type (wi_ty i)" using all func_type_plain by blast
  moreover have "refused_imports is = []" using all by (auto simp: refused_imports_def filter_empty_conv)
  ultimately show "validate_wasm_imports t wasm = Ok \<lparr>valid = True, rejected_imports = []\<rparr>"
    using validator_agreement [OF assms(2) i _ assms(5-7)] by simp
  show "list_all2 (resolves_to_syscall tr st') (module_imports hi) xs"
    using link_imports_registered [OF r assms(4)] by simp
qed

text \<open>
  The linker is behind the import check, and stronger than it. Whenever the engine reads the
  imports of a module and they link on the receiver's linker, every one of them is a function of
  module \<open>env\<close> with a name of the alphabet, it is bound to the very closure registered under that
  name, and the import check accepts the module. So the modules on which the check and the engine
  disagree are never linked.
\<close>
theorem linked_imports_are_syscalls:
  assumes "register_syscalls tr (linker_new e) st0 = Ok (ln, st)"
    and "engine_reads_imports t process func_types features rest wasm sec"
    and "push_imports t fts sec no_imports = Ok (Inr hi)"
    and "link_imports ln (module_imports hi) st = Ok (Inr xs, st')"
    and "length wasm < 2 ^ usize_bits t" and "32 \<le> usize_bits t" and "usize_bits t \<le> 64"
  shows "list_all2 (resolves_to_syscall tr st') (module_imports hi) xs
    \<and> validate_wasm_imports t wasm = Ok \<lparr>valid = True, rejected_imports = []\<rparr>"
proof -
  have r: "registered tr e ln st" unfolding registered_def using assms(1) store_grows_refl by blast
  show ?thesis using linked_functions [OF r assms(2-7)] by blast
qed

text \<open>The modules that link are those the check accepts, among those that import functions of \<open>env\<close>.\<close>

definition imports_only_env_functions :: "header_imports \<Rightarrow> bool" where
  "imports_only_env_functions hi \<longleftrightarrow> hi_tables hi = [] \<and> hi_memories hi = [] \<and> hi_globals hi = []
     \<and> (\<forall>n \<in> fst ` set (hi_funcs hi). in_module n = ''env'')"

text \<open>
  C7: For a module the engine can read, linking succeeds exactly when the import check accepts it
  and it imports nothing but functions of module \<open>env\<close>: the check never accepts a name that the
  linker then misses, and refuses none that it has. (The check does not look at the module a
  function is imported from; the linker does.)
\<close>
theorem linkable_iff_accepted:
  assumes "register_syscalls tr (linker_new e) st0 = Ok (ln, st)" and "so_engine st0 = e"
    and "length (so_funcs st0) + 12 < 2 ^ 32"
    and "engine_reads_imports t process func_types features rest wasm sec"
    and "push_imports t fts sec no_imports = Ok (Inr hi)"
    and "length wasm < 2 ^ usize_bits t" and "32 \<le> usize_bits t" and "usize_bits t \<le> 64"
  shows "(\<exists>xs st'. link_imports ln (module_imports hi) st = Ok (Inr xs, st')) \<longleftrightarrow>
    validate_wasm_imports t wasm = Ok \<lparr>valid = True, rejected_imports = []\<rparr> \<and> imports_only_env_functions hi"
    (is "?links \<longleftrightarrow> ?accepted")
proof
  assume ?links
  then obtain xs st' where l: "link_imports ln (module_imports hi) st = Ok (Inr xs, st')" by blast
  have r: "registered tr e ln st" unfolding registered_def using assms(1) store_grows_refl by blast
  note L = linked_functions [OF r assms(4,5) l assms(6-8)]
  show ?accepted using module_imports_syscalls [OF L(1)] L(2) by (simp add: imports_only_env_functions_def)
next
  assume acc: ?accepted
  obtain "is" where i: "section_collect (read_import t) sec = Ok (Inr is)"
    and f: "map fst (hi_funcs hi) = map wp_import_name (filter (\<lambda>i. is_func_type (wi_ty i)) is)"
    and o: "length (hi_tables hi) + length (hi_memories hi) + length (hi_globals hi)
      = length (filter (\<lambda>i. \<not> is_func_type (wi_ty i)) is)"
    using push_imports_loop_reads [OF assms(5) [unfolded push_imports_def]]
    by (auto simp: section_collect_def no_imports_def)
  have e: "hi_tables hi = []" "hi_memories hi = []" "hi_globals hi = []"
    using acc by (simp_all add: imports_only_env_functions_def)
  then have all: "\<forall>i \<in> set is. is_func_type (wi_ty i)" using o by (simp add: filter_empty_conv)
  have plain: "\<forall>i \<in> set is. plain_type (wi_ty i)" using all func_type_plain by blast
  have "refused_imports is = []"
    using validator_agreement [OF assms(4) i plain assms(6-8)] acc by simp
  then have names: "\<forall>i \<in> set is. wi_name i \<in> set ALLOWED_IMPORTS"
    using all by (auto simp: refused_imports_def filter_empty_conv)
  have "fst ` set (hi_funcs hi) = wp_import_name ` set is"
    using arg_cong [OF f, of set] all by auto
  then have "\<forall>n \<in> fst ` set (hi_funcs hi). in_module n = ''env'' \<and> in_field n \<in> set ALLOWED_IMPORTS"
    using acc names by (auto simp: imports_only_env_functions_def)
  then have "\<forall>i \<in> set (module_imports hi). (\<exists>ty. snd i = EtFunc ty) \<and> in_module (fst i) = ''env''
      \<and> in_field (fst i) \<in> set ALLOWED_IMPORTS"
    using e by (auto simp: module_imports_def)
  then show ?links using allowed_imports_link [OF assms(1-3)] by blast
qed

section \<open>A module that links\<close>

text \<open>It imports \<open>env::log_msg\<close>.\<close>

definition log_module :: bytes where
  "log_module = [0x00, 0x61, 0x73, 0x6D, 1, 0, 0, 0, 2, 15, 1, 3, 0x65, 0x6E, 0x76,
     7, 0x6C, 0x6F, 0x67, 0x5F, 0x6D, 0x73, 0x67, 0, 0]"

definition log_reader :: reader where
  "log_reader = \<lparr>rd_buffer = drop 10 log_module, rd_position = 1, rd_original_offset = 10,
     rd_shared_everything_threads = False\<rparr>"

definition log_imports :: header_imports where
  "log_imports = no_imports\<lparr>hi_funcs := [(\<lparr>in_module = ''env'', in_field = ''log_msg''\<rparr>,
     \<lparr>ft_params = [], ft_results = []\<rparr>)]\<rparr>"

abbreviation log_section :: section_limited where
  "log_section \<equiv> \<lparr>sec_reader = log_reader, sec_count = 1\<rparr>"

lemma log_header_payload:
  "next_payload esp32c3_release log_module (set_features False (parser_new 0)) =
   Ok (Inr (8, PVersion 1 EncModule, set_features False (parser_new 0)\<lparr>ps_state := SectionStart, ps_offset := 8, ps_max_size := 2 ^ 64 - 9\<rparr>))"
  by (simp add: next_payload_def parse_def Let_def parse_reader_def parse_header_def read_magic_def parser_new_def set_features_def reader_eval esp32c3_release_def log_module_def from_le_bytes_def)

lemma log_section_payload:
  "next_payload esp32c3_release (drop 8 log_module)
     (set_features False (parser_new 0)\<lparr>ps_state := SectionStart, ps_offset := 8, ps_max_size := 2 ^ 64 - 9\<rparr>) =
   Ok (Inr (17, PSection 2 log_section,
     set_features False (parser_new 0)\<lparr>ps_state := SectionStart, ps_offset := 25, ps_max_size := 2 ^ 64 - 26\<rparr>))"
  by (simp add: next_payload_def parse_def Let_def parse_reader_def parse_section_def parse_content_def
      section_of_def section_limited_new_def log_reader_def
      parser_new_def set_features_def reader_eval esp32c3_release_def log_module_def)

lemma log_imports_read:
  "push_imports esp32c3_release [\<lparr>ft_params = [], ft_results = []\<rparr>] log_section no_imports = Ok (Inr log_imports)"
  by (simp add: push_imports_def read_import_def read_string_def internal_read_string_def
     MAX_WASM_STRING_SIZE_def read_type_ref_def read_external_kind_def external_kind_from_byte_def
     import_from_def push_import_def log_imports_def log_module_def no_imports_def
     reader_eval log_reader_def esp32c3_release_def from_utf8_def str_of_bytes_def Let_def char_of_def bit_0)

lemma log_module_reads:
  "engine_reads_imports esp32c3_release pass one_type False () log_module log_section"
proof -
  let ?mp = "module_parser_new False log_module ()"
  let ?p8 = "set_features False (parser_new 0)\<lparr>ps_state := SectionStart, ps_offset := 8, ps_max_size := 2 ^ 64 - 9\<rparr>"
  have p: "mp_parser ?mp = set_features False (parser_new 0)" "mp_buffer ?mp = log_module"
    "mp_rest ?mp = ()" by (simp_all add: module_parser_new_def)
  have l: "length log_module = 25" by (simp add: log_module_def)
  have n: "next_payload esp32c3_release (mp_buffer ?mp) (mp_parser ?mp) = Ok (Inr (8, PVersion 1 EncModule, ?p8))"
    unfolding p by (rule log_header_payload)
  have h: "header_step esp32c3_release pass one_type ?mp
      = Ok (Inr (Inr (?mp\<lparr>mp_parser := ?p8, mp_buffer := drop 8 log_module\<rparr>)))"
    by (simp add: header_step_def n [unfolded p] p consume_buffer_def slice_from_def l Let_def)
  have "header_reaches esp32c3_release pass one_type ?mp (?mp\<lparr>mp_parser := ?p8, mp_buffer := drop 8 log_module\<rparr>)"
    by (rule header_reaches.step [OF header_reaches.start n _ h]) simp
  then show ?thesis
    unfolding engine_reads_imports_def using log_section_payload by (intro exI conjI) (assumption, simp)
qed

abbreviation fresh_store :: "(string, unit) store" where
  "fresh_store \<equiv> store_new 0 0 \<lparr>remaining = 7, enabled = True, costs = \<lparr>custom = None\<rparr>\<rparr> ()"

lemma fresh_store_registers:
  obtains ln st where "register_syscalls (\<lambda>n. n) (linker_new 0) fresh_store = Ok (ln, st)"
proof -
  have "length (so_funcs fresh_store) + 12 < 2 ^ 32" by (simp add: store_new_def)
  from registration_alphabet [OF this, of "\<lambda>n. n" 0] that show thesis by blast
qed

lemma log_module_accepted:
  "validate_wasm_imports esp32c3_release log_module = Ok \<lparr>valid = True, rejected_imports = []\<rparr>"
proof -
  have utf8: "from_utf8 [0x6C, 0x6F, 0x67, 0x5F, 0x6D, 0x73, 0x67] = Some ''log_msg''"
    by (simp add: from_utf8_def str_of_bytes_def Let_def char_of_def bit_0)
  have "section_step esp32c3_release log_module 8 = Ok (Inl [])"
    by (simp add: section_step_def section_header_def import_section_def import_entry_def read_name_def
        skip_descriptor_def read_leb_at_def read_leb128_one slice_from_def slice_range_def index_def
        ALLOWED_IMPORTS_def log_module_def esp32c3_release_def utf8)
  then show ?thesis
    using walk_sections_Inl [of esp32c3_release log_module 8 "[]"]
    by (simp add: validate_wasm_imports_def log_module_def)
qed

lemma log_module_size: "length log_module < 2 ^ usize_bits esp32c3_release"
  "32 \<le> usize_bits esp32c3_release" "usize_bits esp32c3_release \<le> 64"
  by (simp_all add: log_module_def esp32c3_release_def)

theorem linkable_iff_accepted_witness:
  "\<exists>ln st xs. register_syscalls (\<lambda>n. n) (linker_new 0) fresh_store = Ok (ln, st)
     \<and> link_imports ln (module_imports log_imports) st = Ok (Inr xs, st)"
proof -
  obtain ln st where r: "register_syscalls (\<lambda>n. n) (linker_new 0) fresh_store = Ok (ln, st)"
    by (rule fresh_store_registers)
  have "so_engine fresh_store = 0" "length (so_funcs fresh_store) + 12 < 2 ^ 32" by (simp_all add: store_new_def)
  moreover have "imports_only_env_functions log_imports"
    by (simp add: imports_only_env_functions_def log_imports_def no_imports_def)
  ultimately obtain xs st' where l: "link_imports ln (module_imports log_imports) st = Ok (Inr xs, st')"
    using linkable_iff_accepted [OF r _ _ log_module_reads log_imports_read log_module_size]
      log_module_accepted by blast
  moreover have "registered (\<lambda>n. n) 0 ln st" unfolding registered_def using r store_grows_refl by blast
  ultimately show ?thesis using r link_imports_registered by blast
qed

theorem linked_imports_are_syscalls_witness:
  "\<exists>ln st xs st'. link_imports ln (module_imports log_imports) (st :: (string, unit) store) = Ok (Inr xs, st')
     \<and> list_all2 (resolves_to_syscall (\<lambda>n. n) st') (module_imports log_imports) xs"
proof -
  obtain ln st where r: "register_syscalls (\<lambda>n. n) (linker_new 0) fresh_store = Ok (ln, st)"
    by (rule fresh_store_registers)
  have "so_engine fresh_store = 0" "length (so_funcs fresh_store) + 12 < 2 ^ 32" by (simp_all add: store_new_def)
  moreover have "\<forall>i \<in> set (module_imports log_imports). (\<exists>ty. snd i = EtFunc ty)
      \<and> in_module (fst i) = ''env'' \<and> in_field (fst i) \<in> set ALLOWED_IMPORTS"
    by (simp add: module_imports_def log_imports_def no_imports_def ALLOWED_IMPORTS_def)
  ultimately obtain xs where l: "link_imports ln (module_imports log_imports) st = Ok (Inr xs, st)"
    using allowed_imports_link [OF r, of "module_imports log_imports"] by blast
  from linked_imports_are_syscalls [OF r log_module_reads log_imports_read l log_module_size] l show ?thesis by blast
qed

end
