(* ===== verification/Instance_Safety.thy ===== *)
theory Instance_Safety
  imports Instantiation Link_Safety "HOL-Library.Sublist"
begin

text \<open>
  What an instance of a module holds on the receiver: the functions it imports are the closures of
  the syscalls, at the types the module declares for them, in the order of its imports. Between
  them, instantiation only adds to the store and to the instance under construction.
\<close>

section \<open>What the steps keep\<close>

definition grows :: "instance_builder \<times> ('h, 'l) store \<Rightarrow> instance_builder \<times> ('h, 'l) store \<Rightarrow> bool" where
  "grows x y \<longleftrightarrow> store_grows (snd x) (snd y) \<and> so_instances (snd y) = so_instances (snd x)
     \<and> (\<exists>fs. nb_funcs (fst y) = nb_funcs (fst x) @ fs)"

lemma grows_refl [simp]: "grows x x"
  by (simp add: grows_def)

lemma grows_trans [trans]: "grows x y \<Longrightarrow> grows y z \<Longrightarrow> grows x z"
  by (auto simp: grows_def intro: store_grows_trans)

lemma st_then_Inr:
  "st_then m f = Ok (Inr y, st') \<longleftrightarrow> (\<exists>a st. m = Ok (Inr a, st) \<and> f a st = Ok (Inr y, st'))"
proof (cases m)
  case (Ok x)
  obtain r st where "x = (r, st)" by (cases x)
  with Ok show ?thesis by (cases r) (auto simp: st_then_def)
qed (auto simp: st_then_def)

lemma case_result_Inr:
  "(case r of Inl e \<Rightarrow> Ok (Inl (g e), st) | Inr a \<Rightarrow> f a) = Ok (Inr y, st') \<longleftrightarrow> (\<exists>a. r = Inr a \<and> f a = Ok (Inr y, st'))"
  by (cases r) auto

definition same_funcs :: "('h, 'l) store \<Rightarrow> ('h, 'l) store \<Rightarrow> bool" where
  "same_funcs st st' \<longleftrightarrow> so_idx st' = so_idx st \<and> so_engine st' = so_engine st \<and> so_funcs st' = so_funcs st
     \<and> so_trampolines st' = so_trampolines st \<and> so_instances st' = so_instances st"

lemma same_funcs_refl [simp]: "same_funcs st st"
  by (simp add: same_funcs_def)

lemma same_funcs_trans: "same_funcs a b \<Longrightarrow> same_funcs b c \<Longrightarrow> same_funcs a c"
  by (simp add: same_funcs_def)

lemma same_funcs_grows: "same_funcs st st' \<Longrightarrow> nb_funcs b' = nb_funcs b \<Longrightarrow> grows (b, st) (b', st')"
  by (simp add: same_funcs_def grows_def store_grows_def)

lemma alloc_same_funcs:
  "alloc_table tab st = Ok (h, st') \<Longrightarrow> same_funcs st st'"
  "alloc_memory mem st = Ok (h, st') \<Longrightarrow> same_funcs st st'"
  "alloc_global g st = Ok (h, st') \<Longrightarrow> same_funcs st st'"
  "alloc_data_segment d st = Ok (h, st') \<Longrightarrow> same_funcs st st'"
  "alloc_element_segment e st = Ok (h, st') \<Longrightarrow> same_funcs st st'"
  by (auto simp: alloc_table_def alloc_memory_def alloc_global_def alloc_data_segment_def
      alloc_element_segment_def and_then_eq_Ok same_funcs_def)

lemma same_funcs_update:
  "same_funcs st (st\<lparr>so_limiter_state := l\<rparr>)" "same_funcs st (st\<lparr>so_tables := ts\<rparr>)"
  "same_funcs st (st\<lparr>so_memories := ms\<rparr>)" "same_funcs st (st\<lparr>so_elems := es\<rparr>)"
  by (simp_all add: same_funcs_def)

lemma table_object_new_same_funcs:
  assumes "table_object_new t rl al ty v st = Ok (r, st')"
  shows "same_funcs st st'"
proof -
  obtain r1 l where c: "(case r1 of Inl e \<Rightarrow> Ok (Inl e, st\<lparr>so_limiter_state := l\<rparr>)
      | Inr tab \<Rightarrow> and_then (alloc_table tab (st\<lparr>so_limiter_state := l\<rparr>)) (\<lambda>(h, st). Ok (Inr h, st))) = Ok (r, st')"
    using assms by (auto simp: table_object_new_def and_then_eq_Ok Let_def)
  then show ?thesis
    by (cases r1) (auto simp: and_then_eq_Ok dest!: alloc_same_funcs
        intro: same_funcs_trans [OF same_funcs_update(1)] same_funcs_update)
qed

lemma memory_object_new_same_funcs:
  assumes "memory_object_new t al ty st = Ok (r, st')"
  shows "same_funcs st st'"
proof -
  obtain r1 l where c: "(case r1 of Inl e \<Rightarrow> Ok (Inl e, st\<lparr>so_limiter_state := l\<rparr>)
      | Inr m \<Rightarrow> and_then (alloc_memory m (st\<lparr>so_limiter_state := l\<rparr>)) (\<lambda>(h, st). Ok (Inr h, st))) = Ok (r, st')"
    using assms by (auto simp: memory_object_new_def and_then_eq_Ok Let_def)
  then show ?thesis
    by (cases r1) (auto simp: and_then_eq_Ok dest!: alloc_same_funcs
        intro: same_funcs_trans [OF same_funcs_update(1)] same_funcs_update)
qed

lemma global_object_new_same_funcs: "global_object_new rl v mut st = Ok (h, st') \<Longrightarrow> same_funcs st st'"
  by (auto simp: global_object_new_def and_then_eq_Ok dest: alloc_same_funcs)

lemma new_tables_grows: "new_tables t rl al tys b st = Ok (Inr b', st') \<Longrightarrow> grows (b, st) (b', st')"
proof (induction tys arbitrary: b st)
  case (Cons ty tys)
  obtain h st1 where h: "table_object_new t rl al ty (val_default (tt_element ty)) st = Ok (Inr h, st1)"
    and r: "new_tables t rl al tys (b\<lparr>nb_tables := nb_tables b @ [h]\<rparr>) st1 = Ok (Inr b', st')"
    using Cons.prems by (auto simp: and_then_eq_Ok case_result_Inr)
  show ?case
    by (rule grows_trans [OF same_funcs_grows [OF table_object_new_same_funcs [OF h]] Cons.IH [OF r]]) simp
qed simp

lemma new_memories_grows: "new_memories t al tys b st = Ok (Inr b', st') \<Longrightarrow> grows (b, st) (b', st')"
proof (induction tys arbitrary: b st)
  case (Cons ty tys)
  obtain h st1 where h: "memory_object_new t al ty st = Ok (Inr h, st1)"
    and r: "new_memories t al tys (b\<lparr>nb_memories := nb_memories b @ [h]\<rparr>) st1 = Ok (Inr b', st')"
    using Cons.prems by (auto simp: and_then_eq_Ok case_result_Inr)
  show ?case
    by (rule grows_trans [OF same_funcs_grows [OF memory_object_new_same_funcs [OF h]] Cons.IH [OF r]]) simp
qed simp

lemma new_globals_grows: "new_globals rl gs b st = Ok (b', st') \<Longrightarrow> grows (b, st) (b', st')"
proof (induction gs arbitrary: b st)
  case (Cons g gs)
  obtain ty init where g: "g = (ty, init)" by (cases g)
  obtain v h st1 where h: "global_object_new rl v (gt_mutability ty) st = Ok (h, st1)"
    and r: "new_globals rl gs (b\<lparr>nb_globals := nb_globals b @ [h]\<rparr>) st1 = Ok (b', st')"
    using Cons.prems by (auto simp: g and_then_eq_Ok)
  show ?case
    by (rule grows_trans [OF same_funcs_grows [OF global_object_new_same_funcs [OF h]] Cons.IH [OF r]]) simp
qed simp

lemma alloc_func_grows:
  assumes "alloc_func f st = Ok (h, st')"
  shows "grows (b, st) (b\<lparr>nb_funcs := nb_funcs b @ [h]\<rparr>, st')"
  using assms by (auto simp: alloc_func_def and_then_eq_Ok arena_alloc_nonzero32 grows_def store_grows_def)

lemma alloc_internal_funcs_grows: "alloc_internal_funcs h fs b st = Ok (b', st') \<Longrightarrow> grows (b, st) (b', st')"
proof (induction fs arbitrary: b st)
  case (Cons f fs)
  obtain ty body where f: "f = (ty, body)" by (cases f)
  obtain k st1 where k: "alloc_func (WasmFunc \<lparr>wfe_ty = ty, wfe_body = body, wfe_instance = h\<rparr>) st = Ok (k, st1)"
    and r: "alloc_internal_funcs h fs (b\<lparr>nb_funcs := nb_funcs b @ [k]\<rparr>) st1 = Ok (b', st')"
    using Cons.prems by (auto simp: f and_then_eq_Ok)
  show ?case by (rule grows_trans [OF alloc_func_grows [OF k] Cons.IH [OF r]])
qed simp

lemma push_exports_grows: "push_exports xs b = Ok b' \<Longrightarrow> nb_funcs b' = nb_funcs b"
proof (induction xs arbitrary: b)
  case (Cons x xs)
  obtain n i where x: "x = (n, i)" by (cases x)
  obtain e b1 where p: "nb_push_export n e b = Ok b1" and r: "push_exports xs b1 = Ok b'"
    using Cons.prems by (auto simp: x and_then_eq_Ok)
  have "nb_funcs b1 = nb_funcs b" using p by (auto simp: nb_push_export_def split: option.splits)
  then show ?case using Cons.IH [OF r] by simp
qed simp

lemma init_table_same_funcs:
  assumes "init_table t h_table h_elem i st = Ok (r, st')"
  shows "same_funcs st st'"
proof -
  obtain tab elem len where c: "(case checked_add64 i (ucast (len :: u32)) of
         None \<Rightarrow> Ok (Inl (InstErr (ElementSegmentDoesNotFit h_table i len)), st)
       | Some max_index \<Rightarrow>
           if \<not> max_index \<le> table_size tab
           then Ok (Inl (InstErr (ElementSegmentDoesNotFit h_table i len)), st)
           else and_then (table_init t elem i 0 len tab None) (\<lambda>(r, tab, fu).
             let st = st\<lparr>so_tables := (so_tables st)[snd h_table := tab]\<rparr>
             in case r of
                  Inl e \<Rightarrow> Ok (Inl (InstTable e), st)
                | Inr _ \<Rightarrow> Ok (Inr (), st\<lparr>so_elems := (so_elems st)[snd h_elem := drop_items elem]\<rparr>)))
      = Ok (r, st')"
    using assms by (auto simp: init_table_def and_then_eq_Ok)
  have last: "same_funcs st st'"
    if "(case q of Inl e \<Rightarrow> Ok (Inl (InstTable e), st\<lparr>so_tables := ts\<rparr>)
      | Inr _ \<Rightarrow> Ok (Inr (), st\<lparr>so_tables := ts, so_elems := es\<rparr>)) = Ok (r, st')"
    for q :: "table_error + unit" and ts es
    using that by (cases q) (auto simp: same_funcs_def)
  show ?thesis
    using c last by (auto simp: and_then_eq_Ok Let_def split: option.splits if_splits)
qed

lemma init_elements_grows: "init_elements t rl segments b st = Ok (Inr b', st') \<Longrightarrow> grows (b, st) (b', st')"
proof (induction segments arbitrary: b st)
  case (Cons segment segments)
  obtain k st1 st2 where k: "element_object_new rl b segment st = Ok (k, st1)"
    and i: "(case me_kind segment of
         EskActive table_index offset \<Rightarrow>
           and_then (eval_init_expr rl st1 b offset) (\<lambda>dst_index.
           and_then (nb_get_table b table_index) (\<lambda>h_table. init_table t h_table k dst_index st1))
       | _ \<Rightarrow> Ok (Inr (), st1)) = Ok (Inr (), st2)"
    and r: "init_elements t rl segments (b\<lparr>nb_elem_segments := nb_elem_segments b @ [k]\<rparr>) st2 = Ok (Inr b', st')"
    using Cons.prems by (auto simp: and_then_eq_Ok st_then_Inr)
  have "same_funcs st st1"
    using k by (auto simp: element_object_new_def and_then_eq_Ok dest: alloc_same_funcs)
  moreover have "same_funcs st1 st2"
    using i by (cases "me_kind segment") (auto simp: and_then_eq_Ok dest: init_table_same_funcs)
  ultimately have "same_funcs st st2" by (rule same_funcs_trans)
  then show ?case
    by (rule grows_trans [OF same_funcs_grows Cons.IH [OF r]]) simp
qed simp

lemma init_data_same_funcs:
  assumes "init_data t rl segment b st = Ok (Inr h, st')"
  shows "same_funcs st st'"
proof (cases segment)
  case (InitActive i offset bs)
  obtain n m r st1 where w: "memory_object_write t m n bs st = Ok (r, st1)"
    and a: "alloc_data_segment None st1 = Ok (h, st')"
    using assms by (auto simp: InitActive init_data_def and_then_eq_Ok case_result_Inr split: option.splits)
  have "same_funcs st st1"
    using w by (auto simp: memory_object_write_def and_then_eq_Ok case_prod_unfold same_funcs_def)
  then show ?thesis using alloc_same_funcs(4) [OF a] by (rule same_funcs_trans)
next
  case (InitPassive bs)
  then show ?thesis using assms by (auto simp: init_data_def and_then_eq_Ok dest: alloc_same_funcs)
qed

lemma init_datas_grows: "init_datas t rl segments b st = Ok (Inr b', st') \<Longrightarrow> grows (b, st) (b', st')"
proof (induction segments arbitrary: b st)
  case (Cons segment segments)
  obtain h st1 where h: "init_data t rl segment b st = Ok (Inr h, st1)"
    and r: "init_datas t rl segments (b\<lparr>nb_data_segments := nb_data_segments b @ [h]\<rparr>) st1 = Ok (Inr b', st')"
    using Cons.prems by (auto simp: st_then_Inr)
  show ?case
    by (rule grows_trans [OF same_funcs_grows [OF init_data_same_funcs [OF h]] Cons.IH [OF r]]) simp
qed simp

section \<open>The functions an instance imports\<close>

text \<open>An import and the handle the instance has for it: the syscall, at its type.\<close>

definition typed_syscall :: "(string \<Rightarrow> 'h) \<Rightarrow> ('h, 'l) store \<Rightarrow> import_type \<Rightarrow> handle \<Rightarrow> bool" where
  "typed_syscall tr st i h \<longleftrightarrow> (\<exists>n ty. i = (\<lparr>in_module = ''env'', in_field = n\<rparr>, EtFunc ty)
     \<and> (n, ty) \<in> set syscall_signatures \<and> is_host_func st h ty (tr n))"

lemma typed_syscall_grows: "typed_syscall tr st i h \<Longrightarrow> store_grows st st' \<Longrightarrow> typed_syscall tr st' i h"
  by (auto simp: typed_syscall_def intro: is_host_func_grows)

lemma resolves_to_syscall_grows:
  assumes "resolves_to_syscall tr st i x" and "store_grows st st'"
  shows "resolves_to_syscall tr st' i x"
  using assms is_host_func_grows [OF _ assms(2)] unfolding resolves_to_syscall_def by blast

lemma match_import_syscall:
  assumes "resolves_to_syscall tr st i x" and "match_import st (snd i) x b = Ok (Inr b')"
  shows "\<exists>h. typed_syscall tr st i h \<and> nb_funcs b' = nb_funcs b @ [h]"
proof -
  obtain h ty ty' f where r: "in_module (fst i) = ''env''" "snd i = EtFunc ty'" "x = ExFunc h"
    "(in_field (fst i), ty) \<in> set syscall_signatures" "is_host_func st h ty (tr (in_field (fst i)))"
    "resolve_func st h = Ok (HostFunc f)" "hfe_ty f = ty"
    using assms(1) by (auto simp: resolves_to_syscall_def is_host_func_def)
  then have "ty' = ty" and b: "b' = b\<lparr>nb_funcs := nb_funcs b @ [h]\<rparr>"
    using assms(2) by (auto simp: match_import_def func_ty_def split: if_splits)
  then have "i = (\<lparr>in_module = ''env'', in_field = in_field (fst i)\<rparr>, EtFunc ty)"
    using r(1,2) by (cases i) simp
  then have "typed_syscall tr st i h" using r unfolding typed_syscall_def by blast
  then show ?thesis using b by (intro exI [of _ h]) simp
qed

lemma match_imports_syscalls:
  assumes "list_all2 (resolves_to_syscall tr st) is xs"
    and "match_imports st (zip (map snd is) xs) b = Ok (Inr b')"
  shows "\<exists>hs. list_all2 (typed_syscall tr st) is hs \<and> nb_funcs b' = nb_funcs b @ hs"
  using assms
proof (induction arbitrary: b rule: list_all2_induct)
  case (Cons i "is" x xs)
  obtain r where m: "match_import st (snd i) x b = Ok r"
    and c: "(case r of Inl e \<Rightarrow> Ok (Inl e) | Inr b \<Rightarrow> match_imports st (zip (map snd is) xs) b) = Ok (Inr b')"
    using Cons.prems by (auto simp: and_then_eq_Ok)
  obtain b1 where r: "r = Inr b1" using c by (cases r) auto
  obtain h where "typed_syscall tr st i h" "nb_funcs b1 = nb_funcs b @ [h]"
    using match_import_syscall [OF Cons.hyps(1) m [unfolded r]] by blast
  moreover obtain hs where "list_all2 (typed_syscall tr st) is hs" "nb_funcs b' = nb_funcs b1 @ hs"
    using Cons.IH c r by auto
  ultimately show ?case by (intro exI [of _ "h # hs"]) simp
qed simp

text \<open>
  From the matched imports on, the instance only grows; then it is written once. A call of the
  start function makes no instances and takes nothing out of the store: no syscall does.
\<close>

definition call_keeps :: "('h, 'l) call_func \<Rightarrow> bool" where
  "call_keeps call \<longleftrightarrow>
     (\<forall>f s r s'. call f s = Ok (r, s') \<longrightarrow> store_grows s s' \<and> so_instances s' = so_instances s)"

lemma call_keepsD: "call_keeps call \<Longrightarrow> call f s = Ok (r, s') \<Longrightarrow> store_grows s s' \<and> so_instances s' = so_instances s"
  unfolding call_keeps_def by blast

lemma start_instance_Inr:
  assumes "start_instance call b h st = Ok (Inr (), st')"
    and call: "call_keeps call"
  shows "store_grows st st' \<and> resolve_instance st' h = Ok (nb_finish b)"
proof -
  obtain st1 where i: "initialize_instance h (nb_finish b) st = Ok st1"
    and c: "(case nb_start_fn b of None \<Rightarrow> Ok (Inr (), st1)
       | Some start_index \<Rightarrow> and_then (resolve_instance st1 h) (\<lambda>i.
             if unat start_index < length (ie_funcs i)
             then and_then (call (ie_funcs i ! unat start_index) st1) (\<lambda>(r, st). case r of
                    Inl e \<Rightarrow> Ok (Inl (InstCall e), st) | Inr _ \<Rightarrow> Ok (Inr (), st))
             else Panic)) = Ok (Inr (), st')"
    using assms(1) by (auto simp: start_instance_def and_then_eq_Ok)
  have st1: "store_grows st st1" "resolve_instance st1 h = Ok (nb_finish b)"
    using i by (auto simp: initialize_instance_def and_then_eq_Ok store_grows_def resolve_instance_def resolve_in_Ok
        split: if_splits)
  have "store_grows st1 st' \<and> so_instances st' = so_instances st1"
    using c by (auto simp: and_then_eq_Ok case_result_Inr dest: call_keepsD [OF call] split: option.splits if_splits)
  then show ?thesis using st1 store_grows_trans by (auto simp: resolve_instance_def store_grows_def)
qed

lemma instantiate_functions:
  assumes "instantiate t rl al call m xs st = Ok (Inr h, st')"
    and call: "call_keeps call"
  obtains b0 b1 st1 inst fs where "nb_new m = Ok b0" "extract_imports m st1 b0 xs = Ok (Inr b1)"
    "store_grows st st1" "store_grows st1 st'" "resolve_instance st' h = Ok inst" "ie_funcs inst = nb_funcs b1 @ fs"
proof -
  obtain st1 b0 b1 b2 st2 b3 st3 b4 st4 b5 st5 b6 b7 b8 st8 segments b9 st9 where
    s: "alloc_instance st = Ok (h, st1)" "nb_new m = Ok b0" "extract_imports m st1 b0 xs = Ok (Inr b1)"
    "extract_functions m h b1 st1 = Ok (b2, st2)" "extract_tables t rl al m b2 st2 = Ok (Inr b3, st3)"
    "extract_memories t al m b3 st3 = Ok (Inr b4, st4)" "extract_globals rl m b4 st4 = Ok (b5, st5)"
    "extract_exports m b5 = Ok b6" "extract_start_fn m b6 = Ok b7"
    "init_elements t rl (mh_element_segments (wm_header m)) b7 st5 = Ok (Inr b8, st8)"
    "init_datas t rl segments b8 st8 = Ok (Inr b9, st9)" "start_instance call b9 h st9 = Ok (Inr (), st')"
    using assms(1) by (auto simp: instantiate_def and_then_eq_Ok st_then_Inr case_result_Inr split: if_splits)
  have "grows (b1, st1) (b2, st2)"
    using s(4) by (auto simp: extract_functions_def and_then_eq_Ok intro: alloc_internal_funcs_grows)
  also have "grows (b2, st2) (b3, st3)"
    using s(5) by (auto simp: extract_tables_def and_then_eq_Ok intro: new_tables_grows split: if_splits)
  also have "grows (b3, st3) (b4, st4)"
    using s(6) by (auto simp: extract_memories_def and_then_eq_Ok intro: new_memories_grows split: if_splits)
  also have "grows (b4, st4) (b5, st5)"
    using s(7) by (auto simp: extract_globals_def and_then_eq_Ok intro: new_globals_grows)
  also have "grows (b5, st5) (b7, st5)"
    using s(8,9) push_exports_grows [of _ b5 b6]
    by (auto simp: extract_exports_def extract_start_fn_def nb_set_start_def grows_def split: option.splits)
  also have "grows (b7, st5) (b8, st8)" by (rule init_elements_grows [OF s(10)])
  also have "grows (b8, st8) (b9, st9)" by (rule init_datas_grows [OF s(11)])
  finally have g: "grows (b1, st1) (b9, st9)" .
  have "store_grows st st1" using s(1) by (auto simp: alloc_instance_def and_then_eq_Ok store_grows_def)
  moreover have "store_grows st1 st'"
    using g start_instance_Inr [OF s(12) call] unfolding grows_def by (auto intro: store_grows_trans)
  moreover obtain fs where "nb_funcs b9 = nb_funcs b1 @ fs" using g by (auto simp: grows_def)
  ultimately show thesis
    using that [OF s(2,3)] start_instance_Inr [OF s(12) call] by (simp add: nb_finish_def)
qed

text \<open>
  C6: the functions an instance imports are the syscalls. Whenever the receiver's linker
  instantiates a module, on the store it was set up with or any later one, the function index
  space of the instance begins with one function for each import, in order, and that function is
  the host closure registered under the imported name, declared by the module with exactly the
  signature of its Rust parameters. A module that declares a syscall at another type, or imports
  anything else, is never instantiated.
\<close>
theorem instance_functions_are_syscalls:
  assumes "register_syscalls tr (linker_new e) st0 = Ok (ln, st1)" and "store_grows st1 st"
    and "call_keeps call"
    and "linker_instantiate_and_start t rl al call ln m st = Ok (Inr h, st')"
  shows "\<exists>is inst hs. imports_of m = Ok is \<and> resolve_instance st' h = Ok inst
    \<and> prefix hs (ie_funcs inst) \<and> list_all2 (typed_syscall tr st') is hs"
proof -
  have reg: "registered tr e ln st" using assms(1,2) by (auto simp: registered_def)
  obtain "is" xs st2 where i: "imports_of m = Ok is" and l: "link_imports ln is st = Ok (Inr xs, st2)"
    and n: "instantiate t rl al call m xs st2 = Ok (Inr h, st')"
    using assms(4) by (auto simp: linker_instantiate_and_start_def and_then_eq_Ok case_result_Inr split: if_splits)
  have st2: "st2 = st" and r: "list_all2 (resolves_to_syscall tr st) is xs"
    using link_imports_registered [OF reg l] by simp_all
  obtain b0 b1 st3 inst fs where b0: "nb_new m = Ok b0" and x: "extract_imports m st3 b0 xs = Ok (Inr b1)"
    and g: "store_grows st2 st3" "store_grows st3 st'"
    and inst: "resolve_instance st' h = Ok inst" "ie_funcs inst = nb_funcs b1 @ fs"
    by (rule instantiate_functions [OF n assms(3)])
  have "list_all2 (resolves_to_syscall tr st3) is xs"
    using r by (rule list_all2_mono) (use g(1) st2 resolves_to_syscall_grows in blast)
  moreover have "match_imports st3 (zip (map snd is) xs) b0 = Ok (Inr b1)"
    using x i by (auto simp: extract_imports_def split: if_splits)
  ultimately obtain hs where hs: "list_all2 (typed_syscall tr st3) is hs" "nb_funcs b1 = nb_funcs b0 @ hs"
    using match_imports_syscalls by blast
  have "nb_funcs b0 = []" using b0 by (auto simp: nb_new_def and_then_eq_Ok)
  then have "prefix hs (ie_funcs inst)" using hs(2) inst(2) by simp
  moreover have "list_all2 (typed_syscall tr st') is hs"
    using hs(1) by (rule list_all2_mono) (rule typed_syscall_grows [OF _ g(2)])
  ultimately show ?thesis using i inst(1) by blast
qed

text \<open>A module that imports \<open>log_msg\<close> at its type, and nothing else.\<close>

definition log_importer :: wasm_module where
  "log_importer =
     \<lparr>wm_header = header_finish (header_builder_new
        \<lparr>hb_func_types := [sig [TyI32, TyI32] []], hb_funcs := [sig [TyI32, TyI32] []],
         hb_imports := \<lparr>ib_func_names = [\<lparr>in_module = ''env'', in_field = ''log_msg''\<rparr>], ib_table_names = [],
           ib_memory_names = [], ib_global_names = []\<rparr>\<rparr>),
      wm_data_segments = data_segments_build\<rparr>"

abbreviation log_import :: import_type where
  "log_import \<equiv> (\<lparr>in_module = ''env'', in_field = ''log_msg''\<rparr>, EtFunc (sig [TyI32, TyI32] []))"

lemmas log_importer_eval = log_importer_def header_finish_def header_builder_new_def imports_finish_def Let_def

lemma log_importer_imports: "imports_of log_importer = Ok [log_import]"
  by (simp add: imports_of_def log_importer_eval slice_to_def)

lemma log_importer_fields:
  "mh_func_types (wm_header log_importer) = [sig [TyI32, TyI32] []]"
  "mh_funcs (wm_header log_importer) = [sig [TyI32, TyI32] []]" "mh_tables (wm_header log_importer) = []"
  "mh_memories (wm_header log_importer) = []" "mh_globals (wm_header log_importer) = []"
  "mh_globals_init (wm_header log_importer) = []" "mh_exports (wm_header log_importer) = []"
  "mh_start (wm_header log_importer) = None" "mh_engine_funcs (wm_header log_importer) = (0, 0)"
  "mh_element_segments (wm_header log_importer) = []" "wm_data_segments log_importer = data_segments_build"
  "ii_len_funcs (mh_import_items (wm_header log_importer)) = 1"
  "ii_len_tables (mh_import_items (wm_header log_importer)) = 0"
  "ii_len_memories (mh_import_items (wm_header log_importer)) = 0"
  "ii_len_globals (mh_import_items (wm_header log_importer)) = 0"
  by (simp_all add: log_importer_eval)

lemma log_importer_instantiates:
  assumes "resolves_to_syscall tr st log_import x" and "so_instances st = []" and "so_limiter st = None"
  shows "\<exists>h st'. instantiate t rl al (\<lambda>_ s. Ok (Inr (), s)) log_importer [x] st = Ok (Inr h, st')"
proof -
  let ?st = "st\<lparr>so_instances := [uninitialized]\<rparr>"
  have a: "alloc_instance st = Ok ((so_idx st, 0), ?st)"
    using assms(2) by (simp add: alloc_instance_def arena_alloc_def index32_def)
  obtain ty h where h: "x = ExFunc h" "(''log_msg'', ty) \<in> set syscall_signatures" "is_host_func st h ty (tr ''log_msg'')"
    using assms(1) by (auto simp: resolves_to_syscall_def)
  have "ty = sig [TyI32, TyI32] []" using h(2) by (auto simp: syscall_signatures_def)
  moreover have "func_ty ?st h = Ok ty"
    using h(3) by (auto simp: is_host_func_def func_ty_def resolve_func_def)
  ultimately have m: "match_import ?st (EtFunc (sig [TyI32, TyI32] [])) x b = Ok (Inr (b\<lparr>nb_funcs := nb_funcs b @ [h]\<rparr>))" for b
    by (simp add: match_import_def h(1))
  have u: "\<not> ie_initialized uninitialized" by (simp add: uninitialized_def)
  show ?thesis
    using assms(3)
    by (simp add: instantiate_def can_create_more_instances_def can_create_more_def a nb_new_def
        log_importer_imports extract_imports_def m extract_functions_def internal_funcs_def slice_from_def
        engine_func_list_def extract_tables_def can_create_more_tables_def internal_tables_def
        extract_memories_def can_create_more_memories_def internal_memories_def extract_globals_def
        internal_globals_def extract_exports_def extract_start_fn_def st_then_def init_data_segments_def
        data_segments_build_def start_instance_def initialize_instance_def nb_finish_def resolve_instance_def
        resolve_in_def try_resolve_def unwrap_stored_def entity_index_def arena_get_def u
        log_importer_fields)
qed

theorem instance_functions_are_syscalls_witness:
  "\<exists>ln st h st' inst f. linker_instantiate_and_start esp32c3_release witness_layout (\<lambda>_. True)
      (\<lambda>_ s. Ok (Inr (), s)) ln log_importer (st :: (string, unit) store) = Ok (Inr h, st')
    \<and> resolve_instance st' h = Ok inst \<and> prefix [f] (ie_funcs inst)
    \<and> typed_syscall (\<lambda>n. n) st' log_import f"
proof -
  let ?call = "(\<lambda>_ s. Ok (Inr (), s)) :: (string, unit) call_func"
  obtain ln st1 where r: "register_syscalls (\<lambda>n. n) (linker_new 0) fresh_store = Ok (ln, st1)"
    by (rule fresh_store_registers)
  let ?st = "st1\<lparr>so_instances := [], so_limiter := None\<rparr>"
  have g: "store_grows st1 ?st" by (simp add: store_grows_def)
  have reg: "registered (\<lambda>n. n) 0 ln ?st" using r g by (auto simp: registered_def)
  have e: "ln_engine ln = 0" "so_engine st1 = 0" using registered_engine [OF r] by (simp_all add: store_new_def)
  have room: "length (so_funcs fresh_store) + 12 < 2 ^ 32" by (simp add: store_new_def)
  have "''log_msg'' \<in> set ALLOWED_IMPORTS" by (simp add: ALLOWED_IMPORTS_def)
  then obtain f where "get_definition ''env'' ''log_msg'' (ln_inner ln) = Some (DefExtern (ExFunc f))"
    using allowed_definition [OF r room] by blast
  then have d: "get_definition (in_module (fst log_import)) (in_field (fst log_import)) (ln_inner ln)
      = Some (DefExtern (ExFunc f))" by simp
  have "process_import ln log_import ?st = Ok (Inr (ExFunc f), ?st)"
    using e process_import_func [OF d, of "snd log_import" ?st] by simp
  then have l: "link_imports ln [log_import] ?st = Ok (Inr [ExFunc f], ?st)" by simp
  have x: "resolves_to_syscall (\<lambda>n. n) ?st log_import (ExFunc f)"
    using link_imports_registered [OF reg l] by simp
  have "so_instances ?st = []" "so_limiter ?st = None" by simp_all
  from log_importer_instantiates [OF x this] obtain h st' where
    i: "instantiate esp32c3_release witness_layout (\<lambda>_. True) ?call log_importer [ExFunc f] ?st = Ok (Inr h, st')"
    by blast
  have all: "linker_instantiate_and_start esp32c3_release witness_layout (\<lambda>_. True) ?call ln log_importer ?st = Ok (Inr h, st')"
    using e l i log_importer_imports by (simp add: linker_instantiate_and_start_def)
  have "call_keeps ?call" by (simp add: call_keeps_def)
  from instance_functions_are_syscalls [OF r g this all] obtain inst hs where
    inst: "resolve_instance st' h = Ok inst" "prefix hs (ie_funcs inst)"
    and "list_all2 (typed_syscall (\<lambda>n. n) st') [log_import] hs"
    unfolding log_importer_imports by auto
  then obtain f where "hs = [f]" "typed_syscall (\<lambda>n. n) st' log_import f" by (auto simp: list_all2_Cons1)
  with all inst show ?thesis by blast
qed

end
