(* ===== verification/Wasm_Integers.thy ===== *)
theory Wasm_Integers
  imports Engine_Errors "HOL-Library.Signed_Division"
begin

unbundle bit_operations_syntax

text \<open>
  The integer instructions of guest code: the trait \<open>Integer\<close> of \<open>patches/wasmi_core/src/value.rs\<close>
  and the functions of \<open>wasmi_core/src/wasm.rs\<close> built from it. One definition serves both widths,
  as \<open>impl_integer!\<close> does; signed and unsigned values are the same words, read by \<open>sint\<close> and \<open>uint\<close>.
  Against them stand the numbers: division on integers rounding towards zero, counting of bits,
  products of twice the width.
\<close>

section \<open>The standard library's integers\<close>

text \<open>\<open>wrapping_shl\<close> and \<open>wrapping_shr\<close> take the amount modulo the width.\<close>

definition shift_amount :: "'a::len itself \<Rightarrow> u32 \<Rightarrow> nat" where
  "shift_amount _ n = unat n mod LENGTH('a)"

definition wrapping_shl :: "'a::len word \<Rightarrow> u32 \<Rightarrow> 'a word" where
  "wrapping_shl x n = push_bit (shift_amount TYPE('a) n) x"

definition wrapping_shr_unsigned :: "'a::len word \<Rightarrow> u32 \<Rightarrow> 'a word" where
  "wrapping_shr_unsigned x n = drop_bit (shift_amount TYPE('a) n) x"

definition wrapping_shr_signed :: "'a::len word \<Rightarrow> u32 \<Rightarrow> 'a word" where
  "wrapping_shr_signed x n = signed_drop_bit (shift_amount TYPE('a) n) x"

definition rotate_left :: "'a::len word \<Rightarrow> u32 \<Rightarrow> 'a word" where
  "rotate_left x n = word_rotl (unat n) x"

definition rotate_right :: "'a::len word \<Rightarrow> u32 \<Rightarrow> 'a word" where
  "rotate_right x n = word_rotr (unat n) x"

definition bits_low_first :: "'a::len word \<Rightarrow> bool list" where
  "bits_low_first x = map (bit x) [0..<LENGTH('a)]"

definition count_leading_zeros :: "'a::len word \<Rightarrow> nat" where
  "count_leading_zeros x = length (takeWhile Not (rev (bits_low_first x)))"

definition count_trailing_zeros :: "'a::len word \<Rightarrow> nat" where
  "count_trailing_zeros x = length (takeWhile Not (bits_low_first x))"

definition count_set_bits :: "'a::len word \<Rightarrow> nat" where
  "count_set_bits x = length (filter (\<lambda>b. b) (bits_low_first x))"

text \<open>\<open>iN::MIN\<close>, and the divisions with their overflow flag; the divisor is not zero.\<close>

definition int_min :: "'a::len word" where
  "int_min = push_bit (LENGTH('a) - 1) 1"

definition overflowing_div_signed :: "'a::len word \<Rightarrow> 'a word \<Rightarrow> 'a word \<times> bool" where
  "overflowing_div_signed lhs rhs =
     (if lhs = int_min \<and> rhs = - 1 then (lhs, True)
      else (word_of_int (sint lhs sdiv sint rhs), False))"

definition overflowing_div_unsigned :: "'a::len word \<Rightarrow> 'a word \<Rightarrow> 'a word \<times> bool" where
  "overflowing_div_unsigned lhs rhs = (lhs div rhs, False)"

definition wrapping_rem_signed :: "'a::len word \<Rightarrow> 'a word \<Rightarrow> 'a word" where
  "wrapping_rem_signed lhs rhs =
     (if rhs = - 1 then 0 else word_of_int (sint lhs smod sint rhs))"

section \<open>The trait \<open>Integer\<close>\<close>

definition integer_is_zero :: "'a::len word \<Rightarrow> bool" where
  "integer_is_zero x = (x = 0)"

definition integer_leading_zeros :: "'a::len word \<Rightarrow> 'a word" where
  "integer_leading_zeros x = word_of_nat (count_leading_zeros x)"

definition integer_trailing_zeros :: "'a::len word \<Rightarrow> 'a word" where
  "integer_trailing_zeros x = word_of_nat (count_trailing_zeros x)"

definition integer_count_ones :: "'a::len word \<Rightarrow> 'a word" where
  "integer_count_ones x = word_of_nat (count_set_bits x)"

definition integer_shl :: "'a::len word \<Rightarrow> 'a word \<Rightarrow> 'a word" where
  "integer_shl lhs rhs = wrapping_shl lhs (ucast rhs)"

definition integer_shr_s :: "'a::len word \<Rightarrow> 'a word \<Rightarrow> 'a word" where
  "integer_shr_s lhs rhs = wrapping_shr_signed lhs (ucast rhs)"

definition integer_shr_u :: "'a::len word \<Rightarrow> 'a word \<Rightarrow> 'a word" where
  "integer_shr_u lhs rhs = wrapping_shr_unsigned lhs (ucast rhs)"

definition integer_rotl :: "'a::len word \<Rightarrow> 'a word \<Rightarrow> 'a word" where
  "integer_rotl lhs rhs = rotate_left lhs (ucast rhs)"

definition integer_rotr :: "'a::len word \<Rightarrow> 'a word \<Rightarrow> 'a word" where
  "integer_rotr lhs rhs = rotate_right lhs (ucast rhs)"

definition integer_div_s :: "'a::len word \<Rightarrow> 'a word \<Rightarrow> trap_code + 'a word" where
  "integer_div_s lhs rhs =
     (if rhs = 0 then Inl IntegerDivisionByZero
      else let (result, overflow) = overflowing_div_signed lhs rhs in
        if overflow then Inl IntegerOverflow else Inr result)"

definition integer_div_u :: "'a::len word \<Rightarrow> 'a word \<Rightarrow> trap_code + 'a word" where
  "integer_div_u lhs rhs =
     (if rhs = 0 then Inl IntegerDivisionByZero
      else let (result, overflow) = overflowing_div_unsigned lhs rhs in
        if overflow then Inl IntegerOverflow else Inr result)"

definition integer_rem_s :: "'a::len word \<Rightarrow> 'a word \<Rightarrow> trap_code + 'a word" where
  "integer_rem_s lhs rhs =
     (if rhs = 0 then Inl IntegerDivisionByZero else Inr (wrapping_rem_signed lhs rhs))"

definition integer_rem_u :: "'a::len word \<Rightarrow> 'a word \<Rightarrow> trap_code + 'a word" where
  "integer_rem_u lhs rhs =
     (if rhs = 0 then Inl IntegerDivisionByZero else Inr (lhs mod rhs))"

text \<open>\<open>SignExtendFrom\<close>: through the narrow signed type and back.\<close>

definition sign_extend_from :: "'b::len itself \<Rightarrow> 'a::len word \<Rightarrow> 'a word" where
  "sign_extend_from _ x = scast (ucast x :: 'b word)"

section \<open>The instructions\<close>

text \<open>Each pair of functions of \<open>wasm.rs\<close>, for \<open>i32\<close> and \<open>i64\<close>, is one definition.\<close>

definition wasm_add :: "'a::len word \<Rightarrow> 'a word \<Rightarrow> 'a word" where
  "wasm_add lhs rhs = lhs + rhs"

definition wasm_sub :: "'a::len word \<Rightarrow> 'a word \<Rightarrow> 'a word" where
  "wasm_sub lhs rhs = lhs - rhs"

definition wasm_mul :: "'a::len word \<Rightarrow> 'a word \<Rightarrow> 'a word" where
  "wasm_mul lhs rhs = lhs * rhs"

definition wasm_bitand :: "'a::len word \<Rightarrow> 'a word \<Rightarrow> 'a word" where
  "wasm_bitand lhs rhs = lhs AND rhs"

definition wasm_bitor :: "'a::len word \<Rightarrow> 'a word \<Rightarrow> 'a word" where
  "wasm_bitor lhs rhs = lhs OR rhs"

definition wasm_bitxor :: "'a::len word \<Rightarrow> 'a word \<Rightarrow> 'a word" where
  "wasm_bitxor lhs rhs = lhs XOR rhs"

definition wasm_eq :: "'a::len word \<Rightarrow> 'a word \<Rightarrow> bool" where
  "wasm_eq lhs rhs = (lhs = rhs)"

definition wasm_ne :: "'a::len word \<Rightarrow> 'a word \<Rightarrow> bool" where
  "wasm_ne lhs rhs = (lhs \<noteq> rhs)"

definition wasm_lt_s :: "'a::len word \<Rightarrow> 'a word \<Rightarrow> bool" where
  "wasm_lt_s lhs rhs = (lhs <s rhs)"

definition wasm_lt_u :: "'a::len word \<Rightarrow> 'a word \<Rightarrow> bool" where
  "wasm_lt_u lhs rhs = (lhs < rhs)"

definition wasm_le_s :: "'a::len word \<Rightarrow> 'a word \<Rightarrow> bool" where
  "wasm_le_s lhs rhs = (lhs \<le>s rhs)"

definition wasm_le_u :: "'a::len word \<Rightarrow> 'a word \<Rightarrow> bool" where
  "wasm_le_u lhs rhs = (lhs \<le> rhs)"

definition wasm_gt_s :: "'a::len word \<Rightarrow> 'a word \<Rightarrow> bool" where
  "wasm_gt_s lhs rhs = (rhs <s lhs)"

definition wasm_gt_u :: "'a::len word \<Rightarrow> 'a word \<Rightarrow> bool" where
  "wasm_gt_u lhs rhs = (rhs < lhs)"

definition wasm_ge_s :: "'a::len word \<Rightarrow> 'a word \<Rightarrow> bool" where
  "wasm_ge_s lhs rhs = (rhs \<le>s lhs)"

definition wasm_ge_u :: "'a::len word \<Rightarrow> 'a word \<Rightarrow> bool" where
  "wasm_ge_u lhs rhs = (rhs \<le> lhs)"

lemmas wasm_integer_defs = wasm_add_def wasm_sub_def wasm_mul_def wasm_bitand_def wasm_bitor_def
  wasm_bitxor_def wasm_eq_def wasm_ne_def wasm_lt_s_def wasm_lt_u_def wasm_le_s_def wasm_le_u_def
  wasm_gt_s_def wasm_gt_u_def wasm_ge_s_def wasm_ge_u_def

text \<open>Between the widths.\<close>

definition i32_wrap_i64 :: "u64 \<Rightarrow> u32" where
  "i32_wrap_i64 v = ucast v"

definition i64_extend_i32_s :: "u32 \<Rightarrow> u64" where
  "i64_extend_i32_s v = scast v"

definition i64_extend_i32_u :: "u32 \<Rightarrow> u64" where
  "i64_extend_i32_u v = ucast v"

definition i32_extend8_s :: "u32 \<Rightarrow> u32" where
  "i32_extend8_s v = sign_extend_from TYPE(8) v"

definition i32_extend16_s :: "u32 \<Rightarrow> u32" where
  "i32_extend16_s v = sign_extend_from TYPE(16) v"

definition i64_extend8_s :: "u64 \<Rightarrow> u64" where
  "i64_extend8_s v = sign_extend_from TYPE(8) v"

definition i64_extend16_s :: "u64 \<Rightarrow> u64" where
  "i64_extend16_s v = sign_extend_from TYPE(16) v"

definition i64_extend32_s :: "u64 \<Rightarrow> u64" where
  "i64_extend32_s v = sign_extend_from TYPE(32) v"

text \<open>Values of 128 bits in two halves.\<close>

type_synonym u128 = "128 word"

definition combine128 :: "u64 \<Rightarrow> u64 \<Rightarrow> u128" where
  "combine128 lo hi = push_bit 64 (ucast hi) OR ucast lo"

definition split128 :: "u128 \<Rightarrow> u64 \<times> u64" where
  "split128 v = (ucast v, ucast (signed_drop_bit 64 v))"

definition i64_add128 :: "u64 \<Rightarrow> u64 \<Rightarrow> u64 \<Rightarrow> u64 \<Rightarrow> u64 \<times> u64" where
  "i64_add128 lhs_lo lhs_hi rhs_lo rhs_hi =
     split128 (combine128 lhs_lo lhs_hi + combine128 rhs_lo rhs_hi)"

definition i64_sub128 :: "u64 \<Rightarrow> u64 \<Rightarrow> u64 \<Rightarrow> u64 \<Rightarrow> u64 \<times> u64" where
  "i64_sub128 lhs_lo lhs_hi rhs_lo rhs_hi =
     split128 (combine128 lhs_lo lhs_hi - combine128 rhs_lo rhs_hi)"

definition i64_mul_wide_s :: "u64 \<Rightarrow> u64 \<Rightarrow> u64 \<times> u64" where
  "i64_mul_wide_s lhs rhs = split128 (scast lhs * scast rhs)"

definition i64_mul_wide_u :: "u64 \<Rightarrow> u64 \<Rightarrow> u64 \<times> u64" where
  "i64_mul_wide_u lhs rhs = split128 (ucast lhs * ucast rhs)"

section \<open>Division\<close>

lemma sint_of_small_int:
  assumes "- (2 ^ (LENGTH('a) - 1)) \<le> k" and "k < 2 ^ (LENGTH('a) - 1)"
  shows "sint (word_of_int k :: 'a::len word) = k"
  using assms by (simp add: signed_of_int signed_take_bit_int_eq_self)

lemma sint_int_min: "sint (int_min :: 'a::len word) = - (2 ^ (LENGTH('a) - 1))"
proof -
  have "sint (int_min :: 'a word) = sint (word_of_int (2 ^ (LENGTH('a) - 1)) :: 'a word)"
    by (simp add: int_min_def push_bit_eq_mult)
  also have "\<dots> = signed_take_bit (LENGTH('a) - 1) (2 ^ (LENGTH('a) - 1))"
    by (rule sint_sbintrunc')
  also have "\<dots> = - (2 ^ (LENGTH('a) - 1))"
    by (simp add: signed_take_bit_eq_take_bit_minus bit_simps flip: power_Suc)
  finally show ?thesis .
qed

lemma sint_inject: "sint x = sint y \<longleftrightarrow> x = y"
  by (auto intro: signed_word_eqI)

lemma sint_minus_one: "sint b = - 1 \<longleftrightarrow> b = (- 1 :: 'a::len word)"
  using sint_inject [of b "- 1"] by simp

lemma sdiv_at_most:
  fixes a b p :: int
  assumes "- p \<le> a" and "a < p" and "a sdiv b = p" and "0 < p"
  shows "a = - p \<and> b = - 1"
proof -
  have e: "sgn a * sgn b * (\<bar>a\<bar> div \<bar>b\<bar>) = p" using assms(3) by (simp add: signed_divide_int_def)
  then have b: "b \<noteq> 0" using assms(4) by auto
  have q: "\<bar>a\<bar> div \<bar>b\<bar> = p" and s: "sgn a * sgn b = 1"
    using e assms(4) b by (auto simp: sgn_if pos_imp_zdiv_neg_iff split: if_splits)
  have le: "\<bar>a\<bar> \<le> p" using assms(1,2) by linarith
  have one: "\<bar>b\<bar> = 1"
  proof (rule ccontr)
    assume "\<bar>b\<bar> \<noteq> 1"
    then have "1 < \<bar>b\<bar>" using b by linarith
    then have "\<bar>a\<bar> div \<bar>b\<bar> < \<bar>a\<bar>" by (rule int_div_less_self [rotated]) (use q assms(4) in auto)
    then show False using q le by linarith
  qed
  then show ?thesis using q s assms(1,2,4) by (auto simp: sgn_if split: if_splits)
qed

lemma sdiv_small:
  fixes a b :: "'a::len word"
  assumes "\<not> (a = int_min \<and> b = - 1)"
  shows "sint (word_of_int (sint a sdiv sint b) :: 'a word) = sint a sdiv sint b"
proof (rule sint_of_small_int)
  let ?p = "2 ^ (LENGTH('a) - 1) :: int"
  have a: "- ?p \<le> sint a" "sint a < ?p" by (rule sint_ge) (rule sint_lt)
  then have r: "- ?p \<le> sint a sdiv sint b" "sint a sdiv sint b \<le> ?p"
    using sdiv_int_range [of "sint a" "sint b"] by auto
  then show "- ?p \<le> sint a sdiv sint b" by simp
  have "sint a sdiv sint b \<noteq> ?p"
  proof
    assume "sint a sdiv sint b = ?p"
    then have "sint a = - ?p \<and> sint b = - 1" by (rule sdiv_at_most [OF a]) simp
    then have "sint a = sint (int_min :: 'a word) \<and> b = - 1"
      by (simp only: sint_int_min sint_minus_one simp_thms)
    then show False using assms by (simp only: sint_inject simp_thms)
  qed
  then show "sint a sdiv sint b < ?p" using r(2) by simp
qed

lemma smod_small:
  fixes a b :: "'a::len word"
  assumes "b \<noteq> 0"
  shows "sint (word_of_int (sint a smod sint b) :: 'a word) = sint a smod sint b"
proof (rule sint_of_small_int)
  let ?p = "2 ^ (LENGTH('a) - 1) :: int"
  have "sint b \<noteq> 0" using assms sint_inject [of b 0] by simp
  then have r: "- \<bar>sint b\<bar> + 1 \<le> sint a smod sint b" "sint a smod sint b \<le> \<bar>sint b\<bar> - 1"
    using smod_int_range [of "sint b" "sint a"] by auto
  have "- ?p \<le> sint b" "sint b < ?p" by (rule sint_ge) (rule sint_lt)
  then have "\<bar>sint b\<bar> \<le> ?p" by linarith
  then show "- ?p \<le> sint a smod sint b" "sint a smod sint b < ?p" using r by linarith+
qed

lemma div_s_spec:
  "integer_div_s a b = Inr q \<longleftrightarrow> b \<noteq> 0 \<and> sint q = sint a sdiv sint b"
proof (cases "a = int_min \<and> b = - 1")
  case True
  then have "sint a sdiv sint b = 2 ^ (LENGTH('a) - 1)" by (simp add: sint_int_min)
  moreover have "sint q \<noteq> 2 ^ (LENGTH('a) - 1)" using sint_lt [of q] by linarith
  ultimately show ?thesis using True
    by (auto simp: integer_div_s_def overflowing_div_signed_def)
next
  case False
  then show ?thesis
    using sdiv_small [OF False] sint_inject [of "word_of_int (sint a sdiv sint b)" q]
    by (auto simp: integer_div_s_def overflowing_div_signed_def)
qed

lemma div_s_overflow:
  "integer_div_s a b = Inl IntegerOverflow \<longleftrightarrow> a = int_min \<and> b = - 1"
  by (auto simp: integer_div_s_def overflowing_div_signed_def)

lemma div_u_spec: "integer_div_u a b = Inr q \<longleftrightarrow> b \<noteq> 0 \<and> uint q = uint a div uint b"
  by (auto simp: integer_div_u_def overflowing_div_unsigned_def word_uint_eq_iff uint_div)

lemma rem_s_spec: "integer_rem_s a b = Inr r \<longleftrightarrow> b \<noteq> 0 \<and> sint r = sint a smod sint b"
proof (cases "b = 0")
  case True
  then show ?thesis by (simp add: integer_rem_s_def)
next
  case False
  have "wrapping_rem_signed a b = word_of_int (sint a smod sint b)"
    by (simp add: wrapping_rem_signed_def smod_int_alt_def sgn_if signed_modulo_int_def)
  then show ?thesis
    using False smod_small [OF False, of a] sint_inject [of "word_of_int (sint a smod sint b)" r]
    by (auto simp: integer_rem_s_def)
qed

lemma rem_u_spec: "integer_rem_u a b = Inr r \<longleftrightarrow> b \<noteq> 0 \<and> uint r = uint a mod uint b"
  by (auto simp: integer_rem_u_def word_uint_eq_iff uint_mod)

text \<open>
  C15: Division and remainder of guest integers, signed and unsigned, are those of the numbers
  rounded towards zero: a value comes out exactly when the divisor is not zero and the quotient
  fits the type, and it is the quotient or remainder of the numbers. A zero divisor always traps as
  such, and the only overflow is the least number divided by -1; a remainder never overflows.
\<close>
theorem division_meets_numbers:
  "(integer_div_s a b = Inr q) = (b \<noteq> 0 \<and> sint q = sint a sdiv sint b)
   \<and> (integer_div_u a b = Inr q) = (b \<noteq> 0 \<and> uint q = uint a div uint b)
   \<and> (integer_rem_s a b = Inr r) = (b \<noteq> 0 \<and> sint r = sint a smod sint b)
   \<and> (integer_rem_u a b = Inr r) = (b \<noteq> 0 \<and> uint r = uint a mod uint b)
   \<and> (integer_div_s a b = Inl e) =
       (b = 0 \<and> e = IntegerDivisionByZero \<or> a = int_min \<and> b = - 1 \<and> e = IntegerOverflow)
   \<and> (integer_rem_s a b = Inl e) = (b = 0 \<and> e = IntegerDivisionByZero)
   \<and> (integer_div_u a b = Inl e) = (b = 0 \<and> e = IntegerDivisionByZero)
   \<and> (integer_rem_u a b = Inl e) = (b = 0 \<and> e = IntegerDivisionByZero)"
  unfolding div_s_spec div_u_spec rem_s_spec rem_u_spec
  by (auto simp: integer_div_s_def integer_div_u_def integer_rem_s_def integer_rem_u_def
      overflowing_div_signed_def overflowing_div_unsigned_def)

section \<open>Shifts and rotations\<close>

text \<open>A shift by an amount is one by the amount modulo the width, for both widths of guest code.\<close>

lemma shift_amount_32 [simp]: "shift_amount TYPE(32) (ucast (n :: u32)) = unat n mod 32"
  by (simp add: shift_amount_def)

lemma shift_amount_64 [simp]: "shift_amount TYPE(64) (ucast (n :: u64)) = unat n mod 64"
proof -
  have "unat (ucast n :: u32) mod 64 = unat n mod 2 ^ 32 mod 64"
    by (simp add: unsigned_ucast_eq take_bit_eq_mod)
  also have "\<dots> = unat n mod 64" by (rule mod_mod_cancel) simp
  finally show ?thesis by (simp add: shift_amount_def)
qed

lemma rotations_are_inverse:
  "integer_rotr (integer_rotl x n) n = x" "integer_rotl (integer_rotr x n) n = x"
  by (simp_all add: integer_rotl_def integer_rotr_def rotate_left_def rotate_right_def)

section \<open>Counting bits\<close>

lemma length_bits_low_first [simp]: "length (bits_low_first (x :: 'a::len word)) = LENGTH('a)"
  by (simp add: bits_low_first_def)

lemma counts_bounded:
  "count_leading_zeros (x :: 'a::len word) \<le> LENGTH('a)"
  "count_trailing_zeros x \<le> LENGTH('a)"
  "count_set_bits x \<le> LENGTH('a)"
  using length_takeWhile_le [of Not "rev (bits_low_first x)"]
    length_takeWhile_le [of Not "bits_low_first x"] length_filter_le [of "\<lambda>b. b" "bits_low_first x"]
  by (simp_all add: count_leading_zeros_def count_trailing_zeros_def count_set_bits_def)

lemma leading_zero_bits:
  fixes x :: "'a::len word"
  shows "j < count_leading_zeros x \<Longrightarrow> \<not> bit x (LENGTH('a) - 1 - j)"
    and "count_leading_zeros x < LENGTH('a) \<Longrightarrow> bit x (LENGTH('a) - 1 - count_leading_zeros x)"
proof -
  let ?l = "rev (bits_low_first x)"
  have nth: "j < LENGTH('a) \<Longrightarrow> ?l ! j = bit x (LENGTH('a) - 1 - j)" for j
    by (simp add: rev_nth bits_low_first_def)
  show "\<not> bit x (LENGTH('a) - 1 - j)" if "j < count_leading_zeros x"
    using that nth [of j] nth_length_takeWhile [of Not ?l] takeWhile_nth [of j Not ?l]
      set_takeWhileD [of "?l ! j" Not ?l] counts_bounded(1) [of x] nth_mem [of j "takeWhile Not ?l"]
    by (auto simp: count_leading_zeros_def)
  show "bit x (LENGTH('a) - 1 - count_leading_zeros x)" if "count_leading_zeros x < LENGTH('a)"
    using that nth [of "count_leading_zeros x"] nth_length_takeWhile [of Not ?l]
    by (simp add: count_leading_zeros_def)
qed

lemma leading_zeros_bound:
  fixes x :: "'a::len word"
  shows "uint x < 2 ^ (LENGTH('a) - count_leading_zeros x)"
    and "x \<noteq> 0 \<Longrightarrow> 2 ^ (LENGTH('a) - 1 - count_leading_zeros x) \<le> uint x"
proof -
  let ?n = "LENGTH('a) - count_leading_zeros x"
  have z: "\<not> bit x i" if "?n \<le> i" for i
  proof (cases "i < LENGTH('a)")
    case True
    then show ?thesis
      using that leading_zero_bits(1) [of "LENGTH('a) - 1 - i" x] by auto
  next
    case False
    then show ?thesis using bit_imp_le_length [of x i] by auto
  qed
  have "take_bit ?n x = x"
  proof (rule bit_eqI)
    fix i
    show "bit (take_bit ?n x) i = bit x i" using z [of i] by (cases "?n \<le> i") (auto simp: bit_simps)
  qed
  then have "uint x = take_bit ?n (uint x)" by (metis unsigned_take_bit_eq)
  then show "uint x < 2 ^ ?n" by (metis take_bit_int_less_exp)
  assume "x \<noteq> 0"
  then obtain i where "bit x i" using bit_eqI [of x 0] by auto
  then have "\<not> ?n \<le> i" using z by blast
  then have "count_leading_zeros x < LENGTH('a)" by linarith
  then have "bit x (LENGTH('a) - 1 - count_leading_zeros x)" by (rule leading_zero_bits(2))
  then have "bit (uint x) (LENGTH('a) - 1 - count_leading_zeros x)" by (simp add: bit_uint_iff)
  then have "drop_bit (LENGTH('a) - 1 - count_leading_zeros x) (uint x) \<noteq> 0"
    by (metis bit_0_eq bit_iff_and_drop_bit_eq_1 bot_apply bot_bool_def drop_bit_of_0)
  then show "2 ^ (LENGTH('a) - 1 - count_leading_zeros x) \<le> uint x"
    by (metis drop_bit_eq_div div_pos_pos_trivial linorder_not_le uint_ge_0)
qed

lemma trailing_zeros_divide:
  fixes x :: "'a::len word"
  shows "2 ^ count_trailing_zeros x dvd uint x"
    and "x \<noteq> 0 \<Longrightarrow> \<not> 2 ^ Suc (count_trailing_zeros x) dvd uint x"
proof -
  let ?n = "count_trailing_zeros x" and ?l = "bits_low_first x"
  have nth: "j < LENGTH('a) \<Longrightarrow> ?l ! j = bit x j" for j by (simp add: bits_low_first_def)
  have z: "\<not> bit x j" if "j < ?n" for j
    using that nth [of j] takeWhile_nth [of j Not ?l] set_takeWhileD [of "?l ! j" Not ?l]
      counts_bounded(2) [of x] nth_mem [of j "takeWhile Not ?l"]
    by (auto simp: count_trailing_zeros_def)
  have "take_bit ?n (uint x) = 0"
    by (rule bit_eqI) (use z in \<open>auto simp: bit_simps bit_uint_iff\<close>)
  then show "2 ^ ?n dvd uint x" by (simp add: take_bit_eq_0_iff)
  assume "x \<noteq> 0"
  then obtain i where i: "bit x i" using bit_eqI [of x 0] by auto
  then have "\<not> i < ?n" "i < LENGTH('a)" using z bit_imp_le_length by blast+
  then have n: "?n < LENGTH('a)" by linarith
  then have "bit x ?n"
    using nth [OF n] nth_length_takeWhile [of Not ?l] by (simp add: count_trailing_zeros_def)
  then have "bit (take_bit (Suc ?n) (uint x)) ?n" by (simp add: bit_simps bit_uint_iff)
  then have "take_bit (Suc ?n) (uint x) \<noteq> 0" by auto
  then show "\<not> 2 ^ Suc ?n dvd uint x" by (simp only: take_bit_eq_0_iff simp_thms)
qed

section \<open>Wide arithmetic\<close>

lemma combine_split: "combine128 (fst (split128 v)) (snd (split128 v)) = v"
  by (rule bit_eqI) (auto simp: combine128_def split128_def bit_simps not_less)

lemma split_combine: "split128 (combine128 lo hi) = (lo, hi)"
proof -
  have "\<not> bit lo (64 + n)" for n using bit_imp_le_length [of lo "64 + n"] by auto
  then show ?thesis
    by (auto simp: combine128_def split128_def bit_simps intro!: bit_eqI dest: bit_imp_le_length)
qed

lemma sint_bounds_64: "- (2 ^ 63) \<le> sint (a :: u64)" "sint (a :: u64) < 2 ^ 63"
  using sint_ge [of a] sint_lt [of a] by simp_all

lemma product_fits:
  fixes x y :: int
  assumes "- (2 ^ 63) \<le> x" "x < 2 ^ 63" "- (2 ^ 63) \<le> y" "y < 2 ^ 63"
  shows "- (2 ^ 127) \<le> x * y" "x * y < 2 ^ 127"
proof -
  have "\<bar>x\<bar> * \<bar>y\<bar> \<le> 2 ^ 63 * 2 ^ 63" by (rule mult_mono) (use assms in auto)
  then have "\<bar>x * y\<bar> \<le> 2 ^ 126" by (simp add: abs_mult)
  then show "- (2 ^ 127) \<le> x * y" "x * y < 2 ^ 127" by auto
qed

lemma signed_product: "sint (scast a * scast b :: u128) = sint (a :: u64) * sint (b :: u64)"
proof -
  have e: "(scast a * scast b :: u128) = word_of_int (sint a * sint b)"
    by (simp only: of_int_mult of_int_sint)
  have "- (2 ^ (LENGTH(128) - 1)) \<le> sint a * sint b" "sint a * sint b < 2 ^ (LENGTH(128) - 1)"
    using product_fits [OF sint_bounds_64 [of a] sint_bounds_64 [of b]] by simp_all
  then show ?thesis unfolding e by (rule sint_of_small_int)
qed

lemma unsigned_product: "uint (ucast a * ucast b :: u128) = uint (a :: u64) * uint (b :: u64)"
proof -
  have "uint a * uint b \<le> (2 ^ 64 - 1) * (2 ^ 64 - 1)"
    by (rule mult_mono) (use uint_lt2p [of a] uint_lt2p [of b] in auto)
  then have "uint a * uint b < 2 ^ 128" by simp
  moreover have "uint (ucast a :: u128) = uint a" "uint (ucast b :: u128) = uint b"
    by (simp_all add: unsigned_ucast_eq take_bit_int_eq_self order_less_trans [OF uint_lt2p])
  ultimately show ?thesis by (simp add: uint_word_ariths)
qed

text \<open>
  C17: The wide instructions lose nothing: read as one number of 128 bits, the two results of a
  product are the product of the two 64-bit operands, signed or unsigned, and the two results of a
  sum or a difference are the sum or difference of the operands modulo two to the 128.
\<close>
theorem wide_arithmetic_is_exact:
  "sint (case_prod combine128 (i64_mul_wide_s a b)) = sint a * sint b
   \<and> uint (case_prod combine128 (i64_mul_wide_u a b)) = uint a * uint b
   \<and> case_prod combine128 (i64_add128 a0 a1 b0 b1) = combine128 a0 a1 + combine128 b0 b1
   \<and> case_prod combine128 (i64_sub128 a0 a1 b0 b1) = combine128 a0 a1 - combine128 b0 b1"
  by (simp add: i64_mul_wide_s_def i64_mul_wide_u_def i64_add128_def i64_sub128_def
      case_prod_beta combine_split signed_product unsigned_product)

end
