(* ===== verification/Wasm_Floats.thy ===== *)
theory Wasm_Floats
  imports Complex_Main Wasm_Integers
begin

unbundle bit_operations_syntax

text \<open>
  The floating-point numbers of guest code as far as \<open>patches/wasmi_core/src/value.rs\<close> works on them
  itself: a float is its bits, read as a class and a rational value; comparisons, minimum and
  maximum, the operations on the sign, and the conversions to integers with the bounds written down
  as literals there. What the hardware or \<open>libm\<close> computes (sums, roots, roundings of conversions)
  is not defined here.
\<close>

section \<open>The format\<close>

text \<open>
  A float of width \<open>LENGTH('a)\<close> with \<open>m\<close> bits of mantissa: 32 bits with 23, 64 bits with 52.
\<close>

definition f_sign :: "'a::len word \<Rightarrow> bool" where
  "f_sign x = bit x (LENGTH('a) - 1)"

definition f_exponent_bits :: "nat \<Rightarrow> 'a::len itself \<Rightarrow> nat" where
  "f_exponent_bits m _ = LENGTH('a) - 1 - m"

definition f_exponent :: "nat \<Rightarrow> 'a::len word \<Rightarrow> nat" where
  "f_exponent m x = unat (take_bit (f_exponent_bits m TYPE('a)) (drop_bit m x))"

definition f_mantissa :: "nat \<Rightarrow> 'a::len word \<Rightarrow> nat" where
  "f_mantissa m x = unat (take_bit m x)"

definition f_bias :: "nat \<Rightarrow> 'a::len itself \<Rightarrow> int" where
  "f_bias m T = 2 ^ (f_exponent_bits m T - 1) - 1"

definition f_special :: "nat \<Rightarrow> 'a::len word \<Rightarrow> bool" where
  "f_special m x = (f_exponent m x = 2 ^ f_exponent_bits m TYPE('a) - 1)"

definition is_nan :: "nat \<Rightarrow> 'a::len word \<Rightarrow> bool" where
  "is_nan m x = (f_special m x \<and> f_mantissa m x \<noteq> 0)"

definition is_infinite :: "nat \<Rightarrow> 'a::len word \<Rightarrow> bool" where
  "is_infinite m x = (f_special m x \<and> f_mantissa m x = 0)"

text \<open>The number of units and the unit of a finite float; subnormals have no leading bit.\<close>

definition f_significand :: "nat \<Rightarrow> 'a::len word \<Rightarrow> nat" where
  "f_significand m x = (if f_exponent m x = 0 then f_mantissa m x else 2 ^ m + f_mantissa m x)"

definition f_scale :: "nat \<Rightarrow> 'a::len word \<Rightarrow> int" where
  "f_scale m x = int (max 1 (f_exponent m x)) - f_bias m TYPE('a) - int m"

definition f_value :: "nat \<Rightarrow> 'a::len word \<Rightarrow> rat" where
  "f_value m x = (if f_sign x then - 1 else 1) * of_nat (f_significand m x) * 2 powi f_scale m x"

section \<open>Comparisons\<close>

text \<open>\<open>PartialOrd\<close> of the primitive floats: nothing compares with a NaN.\<close>

definition f_less :: "nat \<Rightarrow> 'a::len word \<Rightarrow> 'a word \<Rightarrow> bool" where
  "f_less m x y =
     (\<not> is_nan m x \<and> \<not> is_nan m y
      \<and> (if is_infinite m x then f_sign x \<and> \<not> (is_infinite m y \<and> f_sign y)
         else if is_infinite m y then \<not> f_sign y
         else f_value m x < f_value m y))"

definition f_equal :: "nat \<Rightarrow> 'a::len word \<Rightarrow> 'a word \<Rightarrow> bool" where
  "f_equal m x y =
     (\<not> is_nan m x \<and> \<not> is_nan m y
      \<and> (if is_infinite m x \<or> is_infinite m y
         then is_infinite m x \<and> is_infinite m y \<and> f_sign x = f_sign y
         else f_value m x = f_value m y))"

definition float_eq :: "nat \<Rightarrow> 'a::len word \<Rightarrow> 'a word \<Rightarrow> bool" where
  "float_eq m lhs rhs = f_equal m lhs rhs"

definition float_ne :: "nat \<Rightarrow> 'a::len word \<Rightarrow> 'a word \<Rightarrow> bool" where
  "float_ne m lhs rhs = (\<not> f_equal m lhs rhs)"

definition float_lt :: "nat \<Rightarrow> 'a::len word \<Rightarrow> 'a word \<Rightarrow> bool" where
  "float_lt m lhs rhs = f_less m lhs rhs"

definition float_le :: "nat \<Rightarrow> 'a::len word \<Rightarrow> 'a word \<Rightarrow> bool" where
  "float_le m lhs rhs = (f_less m lhs rhs \<or> f_equal m lhs rhs)"

definition float_gt :: "nat \<Rightarrow> 'a::len word \<Rightarrow> 'a word \<Rightarrow> bool" where
  "float_gt m lhs rhs = f_less m rhs lhs"

definition float_ge :: "nat \<Rightarrow> 'a::len word \<Rightarrow> 'a word \<Rightarrow> bool" where
  "float_ge m lhs rhs = (f_less m rhs lhs \<or> f_equal m lhs rhs)"

section \<open>Signs, minimum and maximum\<close>

definition float_abs :: "'a::len word \<Rightarrow> 'a word" where
  "float_abs x = unset_bit (LENGTH('a) - 1) x"

definition float_neg :: "'a::len word \<Rightarrow> 'a word" where
  "float_neg x = flip_bit (LENGTH('a) - 1) x"

definition float_copysign :: "'a::len word \<Rightarrow> 'a word \<Rightarrow> 'a word" where
  "float_copysign lhs rhs =
     (if f_sign rhs then set_bit (LENGTH('a) - 1) lhs else unset_bit (LENGTH('a) - 1) lhs)"

text \<open>The sum that quiets a NaN is the hardware's, an argument.\<close>

definition float_min :: "nat \<Rightarrow> ('a::len word \<Rightarrow> 'a word \<Rightarrow> 'a word) \<Rightarrow> 'a word \<Rightarrow> 'a word \<Rightarrow> 'a word" where
  "float_min m add lhs rhs =
     (if f_less m lhs rhs then lhs
      else if f_less m rhs lhs then rhs
      else if f_equal m lhs rhs then (if f_sign lhs \<and> \<not> f_sign rhs then lhs else rhs)
      else add lhs rhs)"

definition float_max :: "nat \<Rightarrow> ('a::len word \<Rightarrow> 'a word \<Rightarrow> 'a word) \<Rightarrow> 'a word \<Rightarrow> 'a word \<Rightarrow> 'a word" where
  "float_max m add lhs rhs =
     (if f_less m rhs lhs then lhs
      else if f_less m lhs rhs then rhs
      else if f_equal m lhs rhs then (if \<not> f_sign lhs \<and> f_sign rhs then lhs else rhs)
      else add lhs rhs)"

section \<open>Conversion to integers\<close>

text \<open>
  Rounding towards zero, and Rust's cast \<open>as\<close>: it saturates, and a NaN becomes zero.
\<close>

definition truncate_rat :: "rat \<Rightarrow> int" where
  "truncate_rat r = (if 0 \<le> r then \<lfloor>r\<rfloor> else - \<lfloor>- r\<rfloor>)"

definition float_as_int :: "nat \<Rightarrow> int \<Rightarrow> int \<Rightarrow> 'a::len word \<Rightarrow> int" where
  "float_as_int m lo hi x =
     (if is_nan m x then 0
      else if is_infinite m x then (if f_sign x then lo else hi)
      else max lo (min hi (truncate_rat (f_value m x))))"

text \<open>\<open>self <= rmin\<close> and \<open>self >= rmax\<close> against a finite literal, \<open>self\<close> not a NaN.\<close>

definition f_at_most :: "nat \<Rightarrow> 'a::len word \<Rightarrow> rat \<Rightarrow> bool" where
  "f_at_most m x r = (if is_infinite m x then f_sign x else f_value m x \<le> r)"

definition f_at_least :: "nat \<Rightarrow> 'a::len word \<Rightarrow> rat \<Rightarrow> bool" where
  "f_at_least m x r = (if is_infinite m x then \<not> f_sign x else r \<le> f_value m x)"

text \<open>The macro's parameters: the range of the integer type and the two literals.\<close>

record trunc_target =
  tr_lo :: int
  tr_hi :: int
  tr_rmin :: rat
  tr_rmax :: rat

definition try_truncate_into :: "nat \<Rightarrow> trunc_target \<Rightarrow> 'a::len word \<Rightarrow> trap_code + int" where
  "try_truncate_into m tt x =
     (if is_nan m x then Inl BadConversionToInteger
      else if f_at_most m x (tr_rmin tt) \<or> f_at_least m x (tr_rmax tt) then Inl IntegerOverflow
      else Inr (float_as_int m (tr_lo tt) (tr_hi tt) x))"

definition truncate_saturate_into :: "nat \<Rightarrow> trunc_target \<Rightarrow> 'a::len word \<Rightarrow> int" where
  "truncate_saturate_into m tt x =
     (if is_nan m x then 0
      else if is_infinite m x \<and> \<not> f_sign x then tr_hi tt
      else if is_infinite m x \<and> f_sign x then tr_lo tt
      else float_as_int m (tr_lo tt) (tr_hi tt) x)"

definition f32_to_i32 :: trunc_target where
  "f32_to_i32 = \<lparr>tr_lo = - 2147483648, tr_hi = 2147483647,
     tr_rmin = - 2147483904, tr_rmax = 2147483648\<rparr>"

definition f32_to_u32 :: trunc_target where
  "f32_to_u32 = \<lparr>tr_lo = 0, tr_hi = 4294967295, tr_rmin = - 1, tr_rmax = 4294967296\<rparr>"

definition f64_to_i32 :: trunc_target where
  "f64_to_i32 = \<lparr>tr_lo = - 2147483648, tr_hi = 2147483647,
     tr_rmin = - 2147483649, tr_rmax = 2147483648\<rparr>"

definition f64_to_u32 :: trunc_target where
  "f64_to_u32 = \<lparr>tr_lo = 0, tr_hi = 4294967295, tr_rmin = - 1, tr_rmax = 4294967296\<rparr>"

definition f32_to_i64 :: trunc_target where
  "f32_to_i64 = \<lparr>tr_lo = - 9223372036854775808, tr_hi = 9223372036854775807,
     tr_rmin = - 9223373136366403584, tr_rmax = 9223372036854775808\<rparr>"

definition f32_to_u64 :: trunc_target where
  "f32_to_u64 = \<lparr>tr_lo = 0, tr_hi = 18446744073709551615,
     tr_rmin = - 1, tr_rmax = 18446744073709551616\<rparr>"

definition f64_to_i64 :: trunc_target where
  "f64_to_i64 = \<lparr>tr_lo = - 9223372036854775808, tr_hi = 9223372036854775807,
     tr_rmin = - 9223372036854777856, tr_rmax = 9223372036854775808\<rparr>"

definition f64_to_u64 :: trunc_target where
  "f64_to_u64 = \<lparr>tr_lo = 0, tr_hi = 18446744073709551615,
     tr_rmin = - 1, tr_rmax = 18446744073709551616\<rparr>"

section \<open>The literals are the right bounds\<close>

lemma truncate_fits:
  assumes "lo \<le> 0" and "0 \<le> hi"
  shows "lo \<le> truncate_rat v \<and> truncate_rat v \<le> hi \<longleftrightarrow>
     of_int lo - 1 < v \<and> v < of_int hi + 1"
proof (cases "0 \<le> v")
  case True
  then have "truncate_rat v = \<lfloor>v\<rfloor>" "0 \<le> \<lfloor>v\<rfloor>" by (simp_all add: truncate_rat_def)
  moreover have "\<lfloor>v\<rfloor> \<le> hi \<longleftrightarrow> v < of_int hi + 1" by (rule floor_le_iff)
  moreover have "(of_int lo :: rat) \<le> 0" using assms(1) by simp
  then have "of_int lo - 1 < v" using True by linarith
  moreover have "lo \<le> truncate_rat v" using assms(1) \<open>truncate_rat v = _\<close> \<open>0 \<le> \<lfloor>v\<rfloor>\<close> by linarith
  ultimately show ?thesis by auto
next
  case False
  then have t: "truncate_rat v = - \<lfloor>- v\<rfloor>" by (simp add: truncate_rat_def)
  moreover have "0 \<le> \<lfloor>- v\<rfloor>" using False by simp
  ultimately have "truncate_rat v \<le> hi" using assms(2) by linarith
  moreover have "lo \<le> truncate_rat v \<longleftrightarrow> \<lfloor>- v\<rfloor> \<le> - lo" using t by linarith
  moreover have "\<lfloor>- v\<rfloor> \<le> - lo \<longleftrightarrow> - v < of_int (- lo) + 1" by (rule floor_le_iff)
  moreover have "(0 :: rat) \<le> of_int hi" using assms(2) by simp
  then have "v < of_int hi + 1" using False by linarith
  ultimately show ?thesis by auto
qed

lemma significand_bound: "f_significand m x < 2 ^ Suc m"
proof -
  have "f_mantissa m x < 2 ^ m"
    by (simp add: f_mantissa_def unsigned_take_bit_eq)
  then show ?thesis by (simp add: f_significand_def)
qed

text \<open>Beyond a power of two, the floats are multiples of the unit that still holds the mantissa.\<close>

lemma floats_are_granular:
  assumes "f_value m x < - (2 ^ p)" and "m \<le> p"
  shows "f_value m x \<le> - (2 ^ p) - 2 ^ (p - m)"
proof -
  let ?n = "f_significand m x" and ?k = "f_scale m x"
  have pos: "(0 :: rat) \<le> of_nat ?n * 2 powi ?k" by simp
  have v: "f_value m x = - (of_nat ?n * 2 powi ?k)"
  proof (cases "f_sign x")
    case False
    then have "0 \<le> f_value m x" using pos by (simp add: f_value_def)
    moreover have "f_value m x < 0" using assms(1) by (rule order_less_trans) simp
    ultimately show ?thesis by linarith
  qed (simp add: f_value_def)
  have big: "2 ^ p < of_nat ?n * (2 powi ?k :: rat)" using assms(1) v by simp
  have "of_nat ?n * (2 powi ?k :: rat) < 2 ^ Suc m * 2 powi ?k"
    using significand_bound [of m x]
    by (intro mult_strict_right_mono) (simp_all flip: of_nat_less_iff [where 'a = rat])
  with big have "2 ^ p < 2 ^ Suc m * (2 powi ?k :: rat)" by (rule order_less_trans)
  then have "(2 powi int p :: rat) < 2 powi (int (Suc m) + ?k)"
    by (simp add: power_int_add power_int_of_nat del: of_nat_Suc)
  then have "\<not> int (Suc m) + ?k \<le> int p"
    using power_int_increasing [of "int (Suc m) + ?k" "int p" "2 :: rat"] by auto
  then have "0 \<le> ?k - int (p - m)" using assms(2) by simp
  then obtain d where "?k - int (p - m) = int d" by (rule nonneg_int_cases)
  then have d: "?k = int d + int (p - m)" by simp
  have k: "(2 powi ?k :: rat) = 2 ^ d * 2 ^ (p - m)"
    unfolding d by (simp add: power_int_add)
  have "(2 :: rat) ^ p = 2 ^ m * 2 ^ (p - m)" using assms(2) by (simp flip: power_add)
  then have "of_nat (2 ^ m) < (of_nat (?n * 2 ^ d) :: rat)" using big k by simp
  then have "2 ^ m + 1 \<le> ?n * 2 ^ d" by (simp only: of_nat_less_iff)
  then have "(of_nat (2 ^ m + 1) :: rat) \<le> of_nat (?n * 2 ^ d)" by (simp only: of_nat_le_iff)
  then have "(2 ^ m + 1) * 2 ^ (p - m) \<le> of_nat ?n * (2 powi ?k :: rat)"
    unfolding k by simp
  then show ?thesis using v \<open>(2 :: rat) ^ p = _\<close> by (simp add: algebra_simps)
qed

text \<open>The macro's literals: the maximum is exact; the minimum is the float below the range, or one less.\<close>

definition right_bounds :: "nat \<Rightarrow> trunc_target \<Rightarrow> bool" where
  "right_bounds m tt =
     (tr_lo tt \<le> 0 \<and> 0 \<le> tr_hi tt \<and> tr_rmax tt = of_int (tr_hi tt) + 1
      \<and> (tr_rmin tt = of_int (tr_lo tt) - 1
         \<or> (\<exists>p \<ge> m. tr_lo tt = - (2 ^ p) \<and> tr_rmin tt = - (2 ^ p) - 2 ^ (p - m))))"

lemma lower_bound_exact:
  assumes "right_bounds m tt"
  shows "tr_rmin tt < f_value m x \<longleftrightarrow> of_int (tr_lo tt) - 1 < f_value m x"
proof (cases "tr_rmin tt = of_int (tr_lo tt) - 1")
  case True
  then show ?thesis by simp
next
  case False
  then obtain p where p: "m \<le> p" "tr_lo tt = - (2 ^ p)" "tr_rmin tt = - (2 ^ p) - 2 ^ (p - m)"
    using assms by (auto simp: right_bounds_def)
  have "(1 :: rat) \<le> 2 ^ (p - m)" by simp
  moreover have "\<not> f_value m x < - (2 ^ p)" if "tr_rmin tt < f_value m x"
    using that floats_are_granular [OF _ p(1), of x] p(3) by linarith
  moreover have "(of_int (tr_lo tt) :: rat) = - (2 ^ p)" using p(2) by simp
  ultimately show ?thesis using p(3) by linarith
qed

lemma try_truncate_spec:
  assumes "right_bounds m tt"
  shows "try_truncate_into m tt x =
    (if is_nan m x then Inl BadConversionToInteger
     else if is_infinite m x \<or> truncate_rat (f_value m x) \<notin> {tr_lo tt..tr_hi tt}
     then Inl IntegerOverflow
     else Inr (truncate_rat (f_value m x)))"
proof -
  have b: "tr_lo tt \<le> 0" "0 \<le> tr_hi tt" "tr_rmax tt = of_int (tr_hi tt) + 1"
    using assms by (simp_all add: right_bounds_def)
  have "truncate_rat (f_value m x) \<in> {tr_lo tt..tr_hi tt} \<longleftrightarrow>
      tr_rmin tt < f_value m x \<and> f_value m x < tr_rmax tt"
    unfolding atLeastAtMost_iff truncate_fits [OF b(1,2)] lower_bound_exact [OF assms] b(3) ..
  then show ?thesis
    by (auto simp: try_truncate_into_def f_at_most_def f_at_least_def float_as_int_def)
qed

lemma right_bounds_f32:
  "list_all (right_bounds 23) [f32_to_i32, f32_to_u32, f32_to_i64, f32_to_u64]"
  by (auto simp: right_bounds_def f32_to_i32_def f32_to_u32_def f32_to_i64_def f32_to_u64_def
      intro: exI [of _ 31] exI [of _ 63])

lemma right_bounds_f64:
  "list_all (right_bounds 52) [f64_to_i32, f64_to_u32, f64_to_i64, f64_to_u64]"
  by (auto simp: right_bounds_def f64_to_i32_def f64_to_u32_def f64_to_i64_def f64_to_u64_def
      intro: exI [of _ 63])

text \<open>
  C16: Converting a float of guest code to an integer traps exactly when it should: as a bad
  conversion on a NaN, as an overflow on an infinity or when the number rounded towards zero does
  not fit, and otherwise gives the number rounded towards zero. The eight pairs of literals the code
  compares with are right for both float types, also where the float just outside the range is
  hundreds of units away.
\<close>
theorem truncation_traps_exactly:
  assumes "tt \<in> {f32_to_i32, f32_to_u32, f32_to_i64, f32_to_u64}"
    and "uu \<in> {f64_to_i32, f64_to_u32, f64_to_i64, f64_to_u64}"
  shows "try_truncate_into 23 tt (x :: u32) =
      (if is_nan 23 x then Inl BadConversionToInteger
       else if is_infinite 23 x \<or> truncate_rat (f_value 23 x) \<notin> {tr_lo tt..tr_hi tt}
       then Inl IntegerOverflow
       else Inr (truncate_rat (f_value 23 x)))
    \<and> try_truncate_into 52 uu (y :: u64) =
      (if is_nan 52 y then Inl BadConversionToInteger
       else if is_infinite 52 y \<or> truncate_rat (f_value 52 y) \<notin> {tr_lo uu..tr_hi uu}
       then Inl IntegerOverflow
       else Inr (truncate_rat (f_value 52 y)))"
proof -
  have "right_bounds 23 tt" "right_bounds 52 uu"
    using assms right_bounds_f32 right_bounds_f64 by auto
  then show ?thesis by (intro conjI try_truncate_spec)
qed

text \<open>The float \<open>0xCF000000\<close> is -2147483648 and converts; the next one below it, \<open>0xCF000001\<close>, does not.\<close>

lemma truncation_traps_exactly_witness:
  "try_truncate_into 23 f32_to_i32 (0xCF000000 :: u32) = Inr (- 2147483648)
   \<and> try_truncate_into 23 f32_to_i32 (0xCF000001 :: u32) = Inl IntegerOverflow
   \<and> try_truncate_into 52 f64_to_u64 (0x7FF8000000000000 :: u64) = Inl BadConversionToInteger"
proof -
  have v: "f_value 23 (0xCF000000 :: u32) = - 2147483648" "f_value 23 (0xCF000001 :: u32) = - 2147483904"
    by (simp_all add: f_value_def f_sign_def f_significand_def f_scale_def f_exponent_def f_bias_def
        f_mantissa_def f_exponent_bits_def)
  have n: "\<not> is_nan 23 (0xCF000000 :: u32)" "\<not> is_nan 23 (0xCF000001 :: u32)"
    "\<not> is_infinite 23 (0xCF000000 :: u32)" "is_nan 52 (0x7FF8000000000000 :: u64)"
    by (simp_all add: is_nan_def is_infinite_def f_special_def f_mantissa_def f_exponent_def f_exponent_bits_def)
  show ?thesis
    using truncation_traps_exactly [of f32_to_i32 f64_to_u64 "0xCF000000" "0x7FF8000000000000"]
      truncation_traps_exactly [of f32_to_i32 f64_to_u64 "0xCF000001" "0x7FF8000000000000"]
    by (simp add: v n truncate_rat_def f32_to_i32_def)
qed

end
