(* ===== verification/Value_Stack.thy ===== *)
theory Value_Stack
  imports Engine_Errors Guest_Table
begin

text \<open>
  The stacks of the interpreter (\<open>patches/wasmi/src/engine/executor/stack\<close>, \<open>engine/limits/stack.rs\<close>,
  \<open>wasmi_collections/src/head_vec.rs\<close>): the value stack with its raw pointers, the call stack with
  its frames and instances, and what a call, a tail call and a return do to them. The code is unsafe;
  what its contract forbids is the outcome \<open>Undefined\<close>, so that its absence can be proved. A
  pointer names the heap buffer it was made for: after the vector moved to another buffer it dangles.
\<close>

section \<open>Outcomes of unsafe code\<close>

datatype 'a exec = Done 'a | Aborts | Undefined

fun ex_then :: "'a exec \<Rightarrow> ('a \<Rightarrow> 'b exec) \<Rightarrow> 'b exec" where
  "ex_then (Done x) f = f x"
| "ex_then Aborts f = Aborts"
| "ex_then Undefined f = Undefined"

lemma ex_then_cong [fundef_cong]:
  "m = m' \<Longrightarrow> (\<And>x. m' = Done x \<Longrightarrow> f x = g x) \<Longrightarrow> ex_then m f = ex_then m' g"
  by (cases m') auto

lemma ex_then_Done_iff: "ex_then m f = Done y \<longleftrightarrow> (\<exists>x. m = Done x \<and> f x = Done y)"
  by (cases m) auto

lemma ex_then_assoc: "ex_then (ex_then m f) g = ex_then m (\<lambda>x. ex_then (f x) g)"
  by (cases m) auto

lemma ex_then_Done_right [simp]: "ex_then m Done = m"
  by (cases m) auto

section \<open>A vector with its last item at hand\<close>

record 'a head_vec =
  hv_head :: "'a option"
  hv_rest :: "'a list"

definition hv_default :: "'a head_vec" where
  "hv_default = \<lparr>hv_head = None, hv_rest = []\<rparr>"

definition hv_push :: "'a \<Rightarrow> 'a head_vec \<Rightarrow> 'a head_vec" where
  "hv_push x v =
     \<lparr>hv_head = Some x,
      hv_rest = (case hv_head v of Some prev \<Rightarrow> hv_rest v @ [prev] | None \<Rightarrow> hv_rest v)\<rparr>"

definition hv_pop :: "'a head_vec \<Rightarrow> 'a option \<times> 'a head_vec" where
  "hv_pop v =
     (hv_head v,
      (if hv_rest v = [] then \<lparr>hv_head = None, hv_rest = []\<rparr>
       else \<lparr>hv_head = Some (last (hv_rest v)), hv_rest = butlast (hv_rest v)\<rparr>))"

text \<open>It is the list of its items, last one first, as long as an empty head means empty.\<close>

definition hv_items :: "'a head_vec \<Rightarrow> 'a list" where
  "hv_items v = (case hv_head v of Some x \<Rightarrow> x # rev (hv_rest v) | None \<Rightarrow> [])"

definition hv_ok :: "'a head_vec \<Rightarrow> bool" where
  "hv_ok v = (hv_head v = None \<longrightarrow> hv_rest v = [])"

lemma hv_push_items: "hv_ok v \<Longrightarrow> hv_items (hv_push x v) = x # hv_items v \<and> hv_ok (hv_push x v)"
  by (auto simp: hv_items_def hv_push_def hv_ok_def split: option.split)

lemma hv_pop_items:
  "hv_ok v \<Longrightarrow> hv_ok (snd (hv_pop v)) \<and>
     (case hv_items v of [] \<Rightarrow> fst (hv_pop v) = None \<and> hv_items (snd (hv_pop v)) = []
      | x # xs \<Rightarrow> fst (hv_pop v) = Some x \<and> hv_items (snd (hv_pop v)) = xs)"
  by (cases "hv_rest v" rule: rev_cases)
    (auto simp: hv_items_def hv_pop_def hv_ok_def split: option.split)

section \<open>Configuration\<close>

record stack_config =
  sk_max_recursion_depth :: nat
  sk_min_stack_height :: nat
  sk_max_stack_height :: nat
  sk_max_cached_stacks :: nat

definition stack_config_default :: stack_config where
  "stack_config_default =
     \<lparr>sk_max_recursion_depth = 1000, sk_min_stack_height = 1000, sk_max_stack_height = 1000000,
      sk_max_cached_stacks = 2\<rparr>"

datatype stack_config_error = MinStackHeightExceedsMax

definition set_max_recursion_depth :: "nat \<Rightarrow> stack_config \<Rightarrow> stack_config" where
  "set_max_recursion_depth v c = c\<lparr>sk_max_recursion_depth := v\<rparr>"

definition set_min_stack_height :: "nat \<Rightarrow> stack_config \<Rightarrow> (stack_config_error + unit) \<times> stack_config" where
  "set_min_stack_height v c =
     (if v > sk_max_stack_height c then (Inl MinStackHeightExceedsMax, c)
      else (Inr (), c\<lparr>sk_min_stack_height := v\<rparr>))"

definition set_max_stack_height :: "nat \<Rightarrow> stack_config \<Rightarrow> (stack_config_error + unit) \<times> stack_config" where
  "set_max_stack_height v c =
     (if v < sk_min_stack_height c then (Inl MinStackHeightExceedsMax, c)
      else (Inr (), c\<lparr>sk_max_stack_height := v\<rparr>))"

section \<open>The value stack\<close>

text \<open>
  A cell is \<open>None\<close> until it is written for the first time. \<open>vs_buffer\<close> counts the heap buffers the
  vector has had; a pointer into it is valid for one of them.
\<close>

record value_stack =
  vs_values :: "untyped_val option list"
  vs_max_len :: nat
  vs_capacity :: nat
  vs_buffer :: nat

record frame_slots =
  fp_buffer :: nat
  fp_at :: int

record frame_params =
  fr_buffer :: nat
  fr_start :: nat
  fr_end :: nat

definition value_stack_new :: "nat \<Rightarrow> nat \<Rightarrow> value_stack exec" where
  "value_stack_new initial_len maximum_len =
     (if initial_len = 0 then Aborts
      else if initial_len > maximum_len then Aborts
      else Done \<lparr>vs_values = [], vs_max_len = maximum_len, vs_capacity = initial_len, vs_buffer = 0\<rparr>)"

definition value_stack_empty :: value_stack where
  "value_stack_empty = \<lparr>vs_values = [], vs_max_len = 0, vs_capacity = 0, vs_buffer = 0\<rparr>"

definition value_stack_reset :: "value_stack \<Rightarrow> value_stack" where
  "value_stack_reset vs = vs\<lparr>vs_values := []\<rparr>"

definition vs_len :: "value_stack \<Rightarrow> nat" where
  "vs_len vs = length (vs_values vs)"

definition stack_ptr_at :: "value_stack \<Rightarrow> nat \<Rightarrow> frame_slots" where
  "stack_ptr_at vs offset = \<lparr>fp_buffer = vs_buffer vs, fp_at = int offset\<rparr>"

definition root_stack_ptr :: "value_stack \<Rightarrow> frame_slots" where
  "root_stack_ptr vs = stack_ptr_at vs 0"

text \<open>
  \<open>Vec::reserve\<close>: enough room, or a larger buffer, whose size is the standard library's choice
  \<open>grow\<close>; a heap that cannot serve it aborts. A cell has eight bytes.
\<close>

definition vs_reserve :: "target \<Rightarrow> (nat \<Rightarrow> nat \<Rightarrow> nat) \<Rightarrow> nat \<Rightarrow> value_stack \<Rightarrow> value_stack exec" where
  "vs_reserve t grow additional vs =
     (let required = vs_len vs + additional in
      if required \<le> vs_capacity vs then Done vs
      else let new_capacity = max required (grow (vs_capacity vs) required) in
        if 8 * new_capacity \<le> heap_bytes t
        then Done (vs\<lparr>vs_capacity := new_capacity, vs_buffer := Suc (vs_buffer vs)\<rparr>)
        else Aborts)"

text \<open>
  \<open>on_resize\<close> is called when the buffer has moved; what it updates is the second component of the
  state. The length never exceeds the maximum, so the subtraction is exact.
\<close>

definition extend_by ::
  "target \<Rightarrow> (nat \<Rightarrow> nat \<Rightarrow> nat) \<Rightarrow> nat \<Rightarrow> (value_stack \<Rightarrow> 's \<Rightarrow> 's) \<Rightarrow> value_stack \<times> 's \<Rightarrow>
   ((trap_code + frame_params) \<times> value_stack \<times> 's) exec" where
  "extend_by t grow additional on_resize vss = (case vss of (vs, s) \<Rightarrow>
     if additional \<ge> vs_max_len vs - vs_len vs then Done (Inl StackOverflow, vs, s)
     else ex_then (vs_reserve t grow additional vs) (\<lambda>vs'.
       let s = (if vs_capacity vs \<noteq> vs_capacity vs' then on_resize vs' s else s)
       in Done (Inr \<lparr>fr_buffer = vs_buffer vs', fr_start = vs_len vs, fr_end = vs_len vs + additional\<rparr>,
                vs'\<lparr>vs_values := vs_values vs' @ replicate additional None\<rparr>, s)))"

definition vs_drop :: "nat \<Rightarrow> value_stack \<Rightarrow> value_stack exec" where
  "vs_drop amount vs =
     (if amount \<le> vs_len vs
      then Done (vs\<lparr>vs_values := take (vs_len vs - amount) (vs_values vs)\<rparr>) else Aborts)"

definition vs_drop_return :: "nat \<Rightarrow> value_stack \<Rightarrow> (untyped_val option list \<times> value_stack) exec" where
  "vs_drop_return amount vs =
     (if amount \<le> vs_len vs
      then ex_then (vs_drop amount vs) (\<lambda>vs'.
        Done (drop (vs_len vs - amount) (vs_values vs), vs'))
      else Undefined)"

definition vs_truncate :: "nat \<Rightarrow> value_stack \<Rightarrow> value_stack exec" where
  "vs_truncate new_len vs =
     (if new_len \<le> vs_len vs then Done (vs\<lparr>vs_values := take new_len (vs_values vs)\<rparr>) else Aborts)"

definition vs_drain :: "nat \<Rightarrow> nat \<Rightarrow> value_stack \<Rightarrow> (nat \<times> value_stack) exec" where
  "vs_drain from to vs =
     (if from \<le> to \<and> to \<le> vs_len vs
      then Done (to - from, vs\<lparr>vs_values := take from (vs_values vs) @ drop to (vs_values vs)\<rparr>)
      else Aborts)"

section \<open>Raw access\<close>

definition slot_at :: "value_stack \<Rightarrow> frame_slots \<Rightarrow> int \<Rightarrow> nat option" where
  "slot_at vs sp slot =
     (if fp_buffer sp = vs_buffer vs \<and> 0 \<le> fp_at sp + slot \<and> fp_at sp + slot < int (vs_len vs)
      then Some (nat (fp_at sp + slot)) else None)"

definition slots_get :: "value_stack \<Rightarrow> frame_slots \<Rightarrow> int \<Rightarrow> untyped_val exec" where
  "slots_get vs sp slot =
     (case slot_at vs sp slot of
        Some i \<Rightarrow> (case vs_values vs ! i of Some v \<Rightarrow> Done v | None \<Rightarrow> Undefined)
      | None \<Rightarrow> Undefined)"

definition slots_set :: "frame_slots \<Rightarrow> int \<Rightarrow> untyped_val \<Rightarrow> value_stack \<Rightarrow> value_stack exec" where
  "slots_set sp slot v vs =
     (case slot_at vs sp slot of
        Some i \<Rightarrow> Done (vs\<lparr>vs_values := (vs_values vs)[i := Some v]\<rparr>)
      | None \<Rightarrow> Undefined)"

text \<open>Parameters are written one after the other through a raw range.\<close>

definition init_next :: "untyped_val \<Rightarrow> frame_params \<Rightarrow> value_stack \<Rightarrow> (frame_params \<times> value_stack) exec" where
  "init_next v fr vs =
     (if fr_buffer fr = vs_buffer vs \<and> fr_start fr < fr_end fr \<and> fr_end fr \<le> vs_len vs
      then Done (fr\<lparr>fr_start := fr_start fr + 1\<rparr>, vs\<lparr>vs_values := (vs_values vs)[fr_start fr := Some v]\<rparr>)
      else Undefined)"

text \<open>The loop runs until the start meets the end; beyond it, it would run away.\<close>

fun init_zeroes_upto :: "nat \<Rightarrow> frame_params \<Rightarrow> value_stack \<Rightarrow> value_stack exec" where
  "init_zeroes_upto 0 fr vs = Done vs"
| "init_zeroes_upto (Suc n) fr vs =
     ex_then (init_next 0 fr vs) (\<lambda>(fr, vs). init_zeroes_upto n fr vs)"

definition init_zeroes :: "frame_params \<Rightarrow> value_stack \<Rightarrow> value_stack exec" where
  "init_zeroes fr vs =
     (if fr_start fr \<le> fr_end fr then init_zeroes_upto (fr_end fr - fr_start fr) fr vs else Undefined)"

section \<open>Frames\<close>

text \<open>What the code map has for a function: its instructions, its slots, its constants.\<close>

record 'op compiled_func =
  cfn_instrs :: "'op list"
  cfn_len_stack_slots :: nat
  cfn_consts :: "untyped_val list"

record 'op instr_ptr =
  ip_code :: "'op list"
  ip_at :: int

record stack_offsets =
  off_base :: nat
  off_frame :: nat

record 'op call_frame =
  cf_instr_ptr :: "'op instr_ptr"
  cf_offsets :: stack_offsets
  cf_results :: int
  cf_changed_instance :: bool

definition call_frame_new :: "'op instr_ptr \<Rightarrow> stack_offsets \<Rightarrow> int \<Rightarrow> 'op call_frame" where
  "call_frame_new ip offsets results =
     \<lparr>cf_instr_ptr = ip, cf_offsets = offsets, cf_results = results, cf_changed_instance = False\<rparr>"

abbreviation cf_frame :: "'op call_frame \<Rightarrow> nat" where
  "cf_frame f \<equiv> off_frame (cf_offsets f)"

abbreviation cf_base :: "'op call_frame \<Rightarrow> nat" where
  "cf_base f \<equiv> off_base (cf_offsets f)"

definition update_instr_ptr :: "'op instr_ptr \<Rightarrow> 'op call_frame \<Rightarrow> 'op call_frame" where
  "update_instr_ptr ip f = f\<lparr>cf_instr_ptr := ip\<rparr>"

text \<open>An offset below zero would be a wild one.\<close>

definition move_down :: "nat \<Rightarrow> 'op call_frame \<Rightarrow> 'op call_frame exec" where
  "move_down delta f =
     (if delta \<le> cf_base f \<and> delta \<le> cf_frame f
      then Done (f\<lparr>cf_offsets := \<lparr>off_base = cf_base f - delta, off_frame = cf_frame f - delta\<rparr>\<rparr>)
      else Undefined)"

text \<open>
  The constants of the function go to the first cells of its frame, as many as there is room
  for, and the parameters after them.
\<close>

definition write_consts :: "nat \<Rightarrow> nat \<Rightarrow> untyped_val list \<Rightarrow> value_stack \<Rightarrow> value_stack" where
  "write_consts from n consts vs =
     vs\<lparr>vs_values := take from (vs_values vs) @ map Some (take n consts)
                     @ drop (from + length (take n consts)) (vs_values vs)\<rparr>"

definition alloc_call_frame ::
  "target \<Rightarrow> (nat \<Rightarrow> nat \<Rightarrow> nat) \<Rightarrow> 'op compiled_func \<Rightarrow> (value_stack \<Rightarrow> 's \<Rightarrow> 's) \<Rightarrow> value_stack \<times> 's \<Rightarrow>
   ((trap_code + frame_params \<times> stack_offsets) \<times> value_stack \<times> 's) exec" where
  "alloc_call_frame t grow func on_resize vss =
     (let len_stack_slots = cfn_len_stack_slots func;
          len_consts = length (cfn_consts func);
          len = vs_len (fst vss)
      in ex_then (extend_by t grow len_stack_slots on_resize vss) (\<lambda>(r, vs, s).
        case r of
          Inl e \<Rightarrow> Done (Inl e, vs, s)
        | Inr spare \<Rightarrow>
            Done (Inr (spare\<lparr>fr_start := fr_start spare + min len_consts len_stack_slots\<rparr>,
                       \<lparr>off_base = len + len_consts, off_frame = len\<rparr>),
                  write_consts len len_stack_slots (cfn_consts func) vs, s)))"

section \<open>The call stack\<close>

text \<open>The frames are listed with the top one first.\<close>

record 'op call_stack =
  cs_frames :: "'op call_frame list"
  cs_instances :: "(nat \<times> nat) head_vec"
  cs_recursion_limit :: nat

definition call_stack_new :: "nat \<Rightarrow> 'op call_stack" where
  "call_stack_new limit = \<lparr>cs_frames = [], cs_instances = hv_default, cs_recursion_limit = limit\<rparr>"

definition call_stack_reset :: "'op call_stack \<Rightarrow> 'op call_stack" where
  "call_stack_reset cs = cs\<lparr>cs_frames := [], cs_instances := hv_default\<rparr>"

definition cs_instance :: "'op call_stack \<Rightarrow> (nat \<times> nat) option" where
  "cs_instance cs = hv_head (cs_instances cs)"

definition cs_peek :: "'op call_stack \<Rightarrow> 'op call_frame option" where
  "cs_peek cs = (case cs_frames cs of [] \<Rightarrow> None | f # _ \<Rightarrow> Some f)"

definition cs_peek_2 :: "'op call_stack \<Rightarrow> ('op call_frame \<times> 'op call_frame option) option" where
  "cs_peek_2 cs = (case cs_frames cs of
     [] \<Rightarrow> None
   | callee # rest \<Rightarrow> Some (callee, (case rest of [] \<Rightarrow> None | caller # _ \<Rightarrow> Some caller)))"

definition cs_update_top :: "('op call_frame \<Rightarrow> 'op call_frame) \<Rightarrow> 'op call_stack \<Rightarrow> 'op call_stack" where
  "cs_update_top f cs =
     cs\<lparr>cs_frames := (case cs_frames cs of [] \<Rightarrow> [] | x # xs \<Rightarrow> f x # xs)\<rparr>"

definition push_instance :: "nat \<times> nat \<Rightarrow> 'op call_stack \<Rightarrow> bool \<times> 'op call_stack" where
  "push_instance inst cs =
     (if hv_head (cs_instances cs) = Some inst then (False, cs)
      else (True, cs\<lparr>cs_instances := hv_push inst (cs_instances cs)\<rparr>))"

definition cs_push ::
  "'op call_frame \<Rightarrow> (nat \<times> nat) option \<Rightarrow> 'op call_stack \<Rightarrow> (trap_code + unit) \<times> 'op call_stack" where
  "cs_push call inst cs =
     (if length (cs_frames cs) = cs_recursion_limit cs then (Inl StackOverflow, cs)
      else let (call, cs) = (case inst of
             None \<Rightarrow> (call, cs)
           | Some i \<Rightarrow> (let (changed, cs) = push_instance i cs in (call\<lparr>cf_changed_instance := changed\<rparr>, cs)))
        in (Inr (), cs\<lparr>cs_frames := call # cs_frames cs\<rparr>))"

definition cs_pop ::
  "'op call_stack \<Rightarrow> ('op call_frame \<times> (nat \<times> nat) option) option \<times> 'op call_stack" where
  "cs_pop cs = (case cs_frames cs of
     [] \<Rightarrow> (None, cs)
   | frame # rest \<Rightarrow>
       (let (inst, instances) =
              (if cf_changed_instance frame then hv_pop (cs_instances cs) else (None, cs_instances cs))
        in (Some (frame, inst), cs\<lparr>cs_frames := rest, cs_instances := instances\<rparr>)))"

section \<open>Both together\<close>

record 'op stack =
  sk_calls :: "'op call_stack"
  sk_values :: value_stack

definition stack_new :: "stack_config \<Rightarrow> 'op stack exec" where
  "stack_new config =
     ex_then (value_stack_new (sk_min_stack_height config) (sk_max_stack_height config)) (\<lambda>vs.
       Done \<lparr>sk_calls = call_stack_new (sk_max_recursion_depth config), sk_values = vs\<rparr>)"

definition stack_reset :: "'op stack \<Rightarrow> 'op stack" where
  "stack_reset sk =
     sk\<lparr>sk_calls := call_stack_reset (sk_calls sk), sk_values := value_stack_reset (sk_values sk)\<rparr>"

definition stack_empty :: "'op stack" where
  "stack_empty = \<lparr>sk_calls = call_stack_new 0, sk_values = value_stack_empty\<rparr>"

definition merge_call_frames ::
  "'op call_frame \<Rightarrow> 'op stack \<Rightarrow> ('op call_frame \<times> (nat \<times> nat) option \<times> 'op stack) exec" where
  "merge_call_frames callee sk =
     (case cs_pop (sk_calls sk) of
        (None, _) \<Rightarrow> Aborts
      | (Some (caller, inst), calls) \<Rightarrow>
          ex_then (vs_drain (cf_frame caller) (cf_frame callee) (sk_values sk)) (\<lambda>(len_drained, values).
          ex_then (move_down len_drained callee) (\<lambda>callee.
            Done (callee, inst, \<lparr>sk_calls = calls, sk_values = values\<rparr>))))"

text \<open>The stacks an engine keeps for reuse.\<close>

record 'op engine_stacks =
  est_stacks :: "'op stack list"
  est_config :: stack_config

definition engine_stacks_new :: "stack_config \<Rightarrow> 'op engine_stacks" where
  "engine_stacks_new config = \<lparr>est_stacks = [], est_config = config\<rparr>"

definition reuse_or_new :: "'op engine_stacks \<Rightarrow> ('op stack \<times> 'op engine_stacks) exec" where
  "reuse_or_new es =
     (if est_stacks es = [] then ex_then (stack_new (est_config es)) (\<lambda>sk. Done (sk, es))
      else Done (last (est_stacks es), es\<lparr>est_stacks := butlast (est_stacks es)\<rparr>))"

definition recycle :: "'op stack \<Rightarrow> 'op engine_stacks \<Rightarrow> 'op engine_stacks" where
  "recycle sk es =
     (if vs_capacity (sk_values sk) > 0
         \<and> length (est_stacks es) < sk_max_cached_stacks (est_config es)
      then es\<lparr>est_stacks := est_stacks es @ [sk]\<rparr> else es)"

end
