(* ===== verification/Instructions.thy ===== *)
theory Instructions
  imports Wasm_Floats Memory_Access Value_Stack
begin

text \<open>
  The instruction words of the interpreter and the operations they name. The type of the words
  (\<open>Op\<close>) is in a crate outside the repository; the variants and fields here are those the
  dispatch (\<open>patches/wasmi/src/engine/executor/instrs.rs\<close>) matches, with the families its macros
  make from one handler folded into one constructor with the operation as an argument, and an
  immediate given as the value its conversion yields. The tables (\<open>instrs/binary.rs\<close>, \<open>unary.rs\<close>,
  \<open>comparison.rs\<close>, \<open>conversion.rs\<close>, \<open>branch.rs\<close>, \<open>load.rs\<close>, \<open>store.rs\<close>) say what each operation computes.
\<close>

section \<open>Values in cells\<close>

text \<open>\<open>ReadAs\<close> and \<open>WriteAs\<close> of \<open>wasmi_core/src/untyped.rs\<close>: 32-bit values are zero-extended.\<close>

definition read_as32 :: "untyped_val \<Rightarrow> u32" where
  "read_as32 u = ucast u"

definition read_as64 :: "untyped_val \<Rightarrow> u64" where
  "read_as64 u = u"

definition write_as32 :: "u32 \<Rightarrow> untyped_val" where
  "write_as32 x = ucast x"

definition write_as64 :: "u64 \<Rightarrow> untyped_val" where
  "write_as64 x = x"

definition write_as_bool :: "bool \<Rightarrow> untyped_val" where
  "write_as_bool b = (if b then 1 else 0)"

lemma read_write [simp]: "read_as32 (write_as32 x) = x" "read_as64 (write_as64 y) = y"
  by (auto simp: read_as32_def write_as32_def read_as64_def write_as64_def bit_simps intro!: bit_eqI)

section \<open>Operations\<close>

datatype width = W32 | W64

datatype int_op =
    OpAdd | OpSub | OpMul | OpBitAnd | OpBitOr | OpBitXor | OpShl | OpShrU | OpShrS | OpRotl | OpRotr

datatype div_op = OpDivS | OpDivU | OpRemS | OpRemU

datatype int_cmp =
    CmpAnd | CmpOr | CmpNand | CmpNor | CmpEq | CmpNe | CmpLtS | CmpLtU | CmpLeS | CmpLeU

datatype float_cmp = FCmpEq | FCmpNe | FCmpLt | FCmpLe | FCmpNotLt | FCmpNotLe

datatype comparator = IntCmp width int_cmp | FloatCmp width float_cmp

datatype float_bin = FAdd | FSub | FMul | FDiv | FMin | FMax | FCopysign

datatype float_un = FAbs | FNeg | FCeil | FFloor | FTrunc | FNearest | FSqrt

datatype bin_op = BinInt width int_op | BinCmp comparator | BinFloat width float_bin

text \<open>\<open>UnConvert\<close> goes from an integer to a float; \<open>UnTruncSat\<close> the other way; the flag is the sign.\<close>

datatype un_op =
    UnClz width | UnCtz width | UnPopcnt width
  | UnWrap | UnExtend8 width | UnExtend16 width | UnExtend32
  | UnFloat width float_un
  | UnTruncSat width bool width
  | UnDemote | UnPromote
  | UnConvert width width bool

datatype try_un_op = UnTrunc width bool width

datatype load_op =
    Load32 | Load64 | I32Load8s | I32Load8u | I32Load16s | I32Load16u
  | I64Load8s | I64Load8u | I64Load16s | I64Load16u | I64Load32s | I64Load32u

datatype store_op =
    Store32 | Store64 | I32Store8 | I32Store16 | I64Store8 | I64Store16 | I64Store32

text \<open>What the hardware computes on floats: arithmetic, rounding, conversion.\<close>

record float_unit =
  fu_arith :: "width \<Rightarrow> float_bin \<Rightarrow> u64 \<Rightarrow> u64 \<Rightarrow> u64"
  fu_round :: "width \<Rightarrow> float_un \<Rightarrow> u64 \<Rightarrow> u64"
  fu_demote :: "u64 \<Rightarrow> u32"
  fu_promote :: "u32 \<Rightarrow> u64"
  fu_convert :: "width \<Rightarrow> width \<Rightarrow> bool \<Rightarrow> u64 \<Rightarrow> u64"

fun int_op_fn :: "int_op \<Rightarrow> 'a::len word \<Rightarrow> 'a word \<Rightarrow> 'a word" where
  "int_op_fn OpAdd = wasm_add"
| "int_op_fn OpSub = wasm_sub"
| "int_op_fn OpMul = wasm_mul"
| "int_op_fn OpBitAnd = wasm_bitand"
| "int_op_fn OpBitOr = wasm_bitor"
| "int_op_fn OpBitXor = wasm_bitxor"
| "int_op_fn OpShl = integer_shl"
| "int_op_fn OpShrU = integer_shr_u"
| "int_op_fn OpShrS = integer_shr_s"
| "int_op_fn OpRotl = integer_rotl"
| "int_op_fn OpRotr = integer_rotr"

fun div_op_fn :: "div_op \<Rightarrow> 'a::len word \<Rightarrow> 'a word \<Rightarrow> trap_code + 'a word" where
  "div_op_fn OpDivS = integer_div_s"
| "div_op_fn OpDivU = integer_div_u"
| "div_op_fn OpRemS = integer_rem_s"
| "div_op_fn OpRemU = integer_rem_u"

text \<open>\<open>DivRemExt\<close>, for a divisor known not to be zero.\<close>

definition checked_div :: "'a::len word \<Rightarrow> 'a word \<Rightarrow> 'a word option" where
  "checked_div lhs rhs =
     (if rhs = 0 then None
      else case overflowing_div_signed lhs rhs of (q, overflow) \<Rightarrow> if overflow then None else Some q)"

fun divrem_ext :: "div_op \<Rightarrow> 'a::len word \<Rightarrow> 'a word \<Rightarrow> trap_code + 'a word" where
  "divrem_ext OpDivS lhs rhs =
     (case checked_div lhs rhs of Some q \<Rightarrow> Inr q | None \<Rightarrow> Inl IntegerOverflow)"
| "divrem_ext OpDivU lhs rhs = Inr (lhs div rhs)"
| "divrem_ext OpRemS lhs rhs = integer_rem_s lhs rhs"
| "divrem_ext OpRemU lhs rhs = Inr (lhs mod rhs)"

lemma divrem_ext_agrees: "rhs \<noteq> 0 \<Longrightarrow> divrem_ext op lhs rhs = div_op_fn op lhs rhs"
  by (cases op) (auto simp: checked_div_def integer_div_s_def integer_div_u_def
      integer_rem_u_def overflowing_div_unsigned_def split: prod.split)

text \<open>\<open>UntypedValueExt\<close>: the logical connectives fused with their test.\<close>

fun int_cmp_fn :: "int_cmp \<Rightarrow> 'a::len word \<Rightarrow> 'a word \<Rightarrow> bool" where
  "int_cmp_fn CmpAnd x y = (wasm_bitand x y \<noteq> 0)"
| "int_cmp_fn CmpOr x y = (wasm_bitor x y \<noteq> 0)"
| "int_cmp_fn CmpNand x y = (\<not> wasm_bitand x y \<noteq> 0)"
| "int_cmp_fn CmpNor x y = (\<not> wasm_bitor x y \<noteq> 0)"
| "int_cmp_fn CmpEq x y = wasm_eq x y"
| "int_cmp_fn CmpNe x y = wasm_ne x y"
| "int_cmp_fn CmpLtS x y = wasm_lt_s x y"
| "int_cmp_fn CmpLtU x y = wasm_lt_u x y"
| "int_cmp_fn CmpLeS x y = wasm_le_s x y"
| "int_cmp_fn CmpLeU x y = wasm_le_u x y"

fun float_cmp_fn :: "nat \<Rightarrow> float_cmp \<Rightarrow> 'a::len word \<Rightarrow> 'a word \<Rightarrow> bool" where
  "float_cmp_fn m FCmpEq x y = float_eq m x y"
| "float_cmp_fn m FCmpNe x y = float_ne m x y"
| "float_cmp_fn m FCmpLt x y = float_lt m x y"
| "float_cmp_fn m FCmpLe x y = float_le m x y"
| "float_cmp_fn m FCmpNotLt x y = (\<not> float_lt m x y)"
| "float_cmp_fn m FCmpNotLe x y = (\<not> float_le m x y)"

fun comparator_fn :: "comparator \<Rightarrow> untyped_val \<Rightarrow> untyped_val \<Rightarrow> bool" where
  "comparator_fn (IntCmp W32 c) x y = int_cmp_fn c (read_as32 x) (read_as32 y)"
| "comparator_fn (IntCmp W64 c) x y = int_cmp_fn c (read_as64 x) (read_as64 y)"
| "comparator_fn (FloatCmp W32 c) x y = float_cmp_fn 23 c (read_as32 x) (read_as32 y)"
| "comparator_fn (FloatCmp W64 c) x y = float_cmp_fn 52 c (read_as64 x) (read_as64 y)"

text \<open>Minimum, maximum and the sign are computed by the crate; the rest is the hardware's.\<close>

fun float_bin_fn ::
  "nat \<Rightarrow> ('a::len word \<Rightarrow> 'a word \<Rightarrow> 'a word) \<Rightarrow> (float_bin \<Rightarrow> 'a word \<Rightarrow> 'a word \<Rightarrow> 'a word) \<Rightarrow>
   float_bin \<Rightarrow> 'a word \<Rightarrow> 'a word \<Rightarrow> 'a word" where
  "float_bin_fn m add hw FMin x y = float_min m add x y"
| "float_bin_fn m add hw FMax x y = float_max m add x y"
| "float_bin_fn m add hw FCopysign x y = float_copysign x y"
| "float_bin_fn m add hw op x y = hw op x y"

fun float_un_fn :: "(float_un \<Rightarrow> 'a::len word \<Rightarrow> 'a word) \<Rightarrow> float_un \<Rightarrow> 'a word \<Rightarrow> 'a word" where
  "float_un_fn hw FAbs x = float_abs x"
| "float_un_fn hw FNeg x = float_neg x"
| "float_un_fn hw op x = hw op x"

definition arith32 :: "float_unit \<Rightarrow> float_bin \<Rightarrow> u32 \<Rightarrow> u32 \<Rightarrow> u32" where
  "arith32 fu op x y = ucast (fu_arith fu W32 op (ucast x) (ucast y))"

fun bin_op_fn :: "float_unit \<Rightarrow> bin_op \<Rightarrow> untyped_val \<Rightarrow> untyped_val \<Rightarrow> untyped_val" where
  "bin_op_fn fu (BinInt W32 op) x y = write_as32 (int_op_fn op (read_as32 x) (read_as32 y))"
| "bin_op_fn fu (BinInt W64 op) x y = write_as64 (int_op_fn op (read_as64 x) (read_as64 y))"
| "bin_op_fn fu (BinCmp c) x y = write_as_bool (comparator_fn c x y)"
| "bin_op_fn fu (BinFloat W32 op) x y =
     write_as32 (float_bin_fn 23 (arith32 fu FAdd) (arith32 fu) op (read_as32 x) (read_as32 y))"
| "bin_op_fn fu (BinFloat W64 op) x y =
     write_as64 (float_bin_fn 52 (fu_arith fu W64 FAdd) (fu_arith fu W64) op (read_as64 x) (read_as64 y))"

fun try_bin_fn :: "width \<Rightarrow> div_op \<Rightarrow> untyped_val \<Rightarrow> untyped_val \<Rightarrow> trap_code + untyped_val" where
  "try_bin_fn W32 op x y = map_sum id write_as32 (div_op_fn op (read_as32 x) (read_as32 y))"
| "try_bin_fn W64 op x y = map_sum id write_as64 (div_op_fn op (read_as64 x) (read_as64 y))"

fun divrem_imm_fn :: "width \<Rightarrow> div_op \<Rightarrow> untyped_val \<Rightarrow> untyped_val \<Rightarrow> trap_code + untyped_val" where
  "divrem_imm_fn W32 op x y = map_sum id write_as32 (divrem_ext op (read_as32 x) (read_as32 y))"
| "divrem_imm_fn W64 op x y = map_sum id write_as64 (divrem_ext op (read_as64 x) (read_as64 y))"

fun trunc_target_of :: "width \<Rightarrow> bool \<Rightarrow> width \<Rightarrow> trunc_target" where
  "trunc_target_of W32 True W32 = f32_to_i32"
| "trunc_target_of W32 False W32 = f32_to_u32"
| "trunc_target_of W64 True W32 = f32_to_i64"
| "trunc_target_of W64 False W32 = f32_to_u64"
| "trunc_target_of W32 True W64 = f64_to_i32"
| "trunc_target_of W32 False W64 = f64_to_u32"
| "trunc_target_of W64 True W64 = f64_to_i64"
| "trunc_target_of W64 False W64 = f64_to_u64"

text \<open>An integer result of the given width, two's complement, as a cell.\<close>

fun int_to_cell :: "width \<Rightarrow> int \<Rightarrow> untyped_val" where
  "int_to_cell W32 k = write_as32 (word_of_int k)"
| "int_to_cell W64 k = write_as64 (word_of_int k)"

fun trunc_sat_fn :: "width \<Rightarrow> bool \<Rightarrow> width \<Rightarrow> untyped_val \<Rightarrow> untyped_val" where
  "trunc_sat_fn w s W32 x =
     int_to_cell w (truncate_saturate_into 23 (trunc_target_of w s W32) (read_as32 x))"
| "trunc_sat_fn w s W64 x =
     int_to_cell w (truncate_saturate_into 52 (trunc_target_of w s W64) (read_as64 x))"

fun try_un_fn :: "try_un_op \<Rightarrow> untyped_val \<Rightarrow> trap_code + untyped_val" where
  "try_un_fn (UnTrunc w s W32) x =
     map_sum id (int_to_cell w) (try_truncate_into 23 (trunc_target_of w s W32) (read_as32 x))"
| "try_un_fn (UnTrunc w s W64) x =
     map_sum id (int_to_cell w) (try_truncate_into 52 (trunc_target_of w s W64) (read_as64 x))"

fun un_op_fn :: "float_unit \<Rightarrow> un_op \<Rightarrow> untyped_val \<Rightarrow> untyped_val" where
  "un_op_fn fu (UnClz W32) x = write_as32 (integer_leading_zeros (read_as32 x))"
| "un_op_fn fu (UnClz W64) x = write_as64 (integer_leading_zeros (read_as64 x))"
| "un_op_fn fu (UnCtz W32) x = write_as32 (integer_trailing_zeros (read_as32 x))"
| "un_op_fn fu (UnCtz W64) x = write_as64 (integer_trailing_zeros (read_as64 x))"
| "un_op_fn fu (UnPopcnt W32) x = write_as32 (integer_count_ones (read_as32 x))"
| "un_op_fn fu (UnPopcnt W64) x = write_as64 (integer_count_ones (read_as64 x))"
| "un_op_fn fu UnWrap x = write_as32 (i32_wrap_i64 (read_as64 x))"
| "un_op_fn fu (UnExtend8 W32) x = write_as32 (i32_extend8_s (read_as32 x))"
| "un_op_fn fu (UnExtend8 W64) x = write_as64 (i64_extend8_s (read_as64 x))"
| "un_op_fn fu (UnExtend16 W32) x = write_as32 (i32_extend16_s (read_as32 x))"
| "un_op_fn fu (UnExtend16 W64) x = write_as64 (i64_extend16_s (read_as64 x))"
| "un_op_fn fu UnExtend32 x = write_as64 (i64_extend32_s (read_as64 x))"
| "un_op_fn fu (UnFloat W32 op) x =
     write_as32 (float_un_fn (\<lambda>rd v. ucast (fu_round fu W32 rd (ucast v))) op (read_as32 x))"
| "un_op_fn fu (UnFloat W64 op) x = write_as64 (float_un_fn (fu_round fu W64) op (read_as64 x))"
| "un_op_fn fu (UnTruncSat w s f) x = trunc_sat_fn w s f x"
| "un_op_fn fu UnDemote x = write_as32 (fu_demote fu (read_as64 x))"
| "un_op_fn fu UnPromote x = write_as64 (fu_promote fu (read_as32 x))"
| "un_op_fn fu (UnConvert f w s) x = fu_convert fu f w s x"

text \<open>Loads widen what they read to the type on the stack; stores wrap it.\<close>

fun load_fn :: "load_op \<Rightarrow> target \<Rightarrow> bytes \<Rightarrow> u64 \<Rightarrow> u64 \<Rightarrow> trap_code + untyped_val" where
  "load_fn Load32 t m p off = map_sum id write_as32 (load32 t m p off)"
| "load_fn Load64 t m p off = map_sum id write_as64 (load64 t m p off)"
| "load_fn I32Load8s t m p off = map_sum id write_as32 (i32_load8_s t m p off)"
| "load_fn I32Load8u t m p off = map_sum id write_as32 (i32_load8_u t m p off)"
| "load_fn I32Load16s t m p off = map_sum id write_as32 (i32_load16_s t m p off)"
| "load_fn I32Load16u t m p off = map_sum id write_as32 (i32_load16_u t m p off)"
| "load_fn I64Load8s t m p off = map_sum id write_as64 (i64_load8_s t m p off)"
| "load_fn I64Load8u t m p off = map_sum id write_as64 (i64_load8_u t m p off)"
| "load_fn I64Load16s t m p off = map_sum id write_as64 (i64_load16_s t m p off)"
| "load_fn I64Load16u t m p off = map_sum id write_as64 (i64_load16_u t m p off)"
| "load_fn I64Load32s t m p off = map_sum id write_as64 (i64_load32_s t m p off)"
| "load_fn I64Load32u t m p off = map_sum id write_as64 (i64_load32_u t m p off)"

fun load_at_fn :: "load_op \<Rightarrow> bytes \<Rightarrow> nat \<Rightarrow> trap_code + untyped_val" where
  "load_at_fn Load32 m a = map_sum id write_as32 (load_at m a)"
| "load_at_fn Load64 m a = map_sum id write_as64 (load_at m a)"
| "load_at_fn I32Load8s m a = map_sum id write_as32 (load_extend_at (scast :: 8 word \<Rightarrow> u32) m a)"
| "load_at_fn I32Load8u m a = map_sum id write_as32 (load_extend_at (ucast :: 8 word \<Rightarrow> u32) m a)"
| "load_at_fn I32Load16s m a = map_sum id write_as32 (load_extend_at (scast :: 16 word \<Rightarrow> u32) m a)"
| "load_at_fn I32Load16u m a = map_sum id write_as32 (load_extend_at (ucast :: 16 word \<Rightarrow> u32) m a)"
| "load_at_fn I64Load8s m a = map_sum id write_as64 (load_extend_at (scast :: 8 word \<Rightarrow> u64) m a)"
| "load_at_fn I64Load8u m a = map_sum id write_as64 (load_extend_at (ucast :: 8 word \<Rightarrow> u64) m a)"
| "load_at_fn I64Load16s m a = map_sum id write_as64 (load_extend_at (scast :: 16 word \<Rightarrow> u64) m a)"
| "load_at_fn I64Load16u m a = map_sum id write_as64 (load_extend_at (ucast :: 16 word \<Rightarrow> u64) m a)"
| "load_at_fn I64Load32s m a = map_sum id write_as64 (load_extend_at (scast :: 32 word \<Rightarrow> u64) m a)"
| "load_at_fn I64Load32u m a = map_sum id write_as64 (load_extend_at (ucast :: 32 word \<Rightarrow> u64) m a)"

fun store_fn :: "store_op \<Rightarrow> target \<Rightarrow> bytes \<Rightarrow> u64 \<Rightarrow> u64 \<Rightarrow> untyped_val \<Rightarrow> trap_code + bytes" where
  "store_fn Store32 t m p off v = store32 t m p off (read_as32 v)"
| "store_fn Store64 t m p off v = store64 t m p off (read_as64 v)"
| "store_fn I32Store8 t m p off v = i32_store8 t m p off (read_as32 v)"
| "store_fn I32Store16 t m p off v = i32_store16 t m p off (read_as32 v)"
| "store_fn I64Store8 t m p off v = i64_store8 t m p off (read_as64 v)"
| "store_fn I64Store16 t m p off v = i64_store16 t m p off (read_as64 v)"
| "store_fn I64Store32 t m p off v = i64_store32 t m p off (read_as64 v)"

fun store_at_fn :: "store_op \<Rightarrow> bytes \<Rightarrow> nat \<Rightarrow> untyped_val \<Rightarrow> trap_code + bytes" where
  "store_at_fn Store32 m a v = store_at m a (read_as32 v)"
| "store_at_fn Store64 m a v = store_at m a (read_as64 v)"
| "store_at_fn I32Store8 m a v = store_wrap_at (ucast :: u32 \<Rightarrow> 8 word) m a (read_as32 v)"
| "store_at_fn I32Store16 m a v = store_wrap_at (ucast :: u32 \<Rightarrow> 16 word) m a (read_as32 v)"
| "store_at_fn I64Store8 m a v = store_wrap_at (ucast :: u64 \<Rightarrow> 8 word) m a (read_as64 v)"
| "store_at_fn I64Store16 m a v = store_wrap_at (ucast :: u64 \<Rightarrow> 16 word) m a (read_as64 v)"
| "store_at_fn I64Store32 m a v = store_wrap_at (ucast :: u64 \<Rightarrow> 32 word) m a (read_as64 v)"

section \<open>Words\<close>

text \<open>
  Slots are signed offsets from the first register of a frame, branch offsets signed numbers of
  words. The words are grouped as the handlers are in files; the last group are words that only
  carry operands of the one before them. \<open>Binop128 True\<close> subtracts, \<open>MulWide True\<close> is signed.
\<close>

datatype return_instr =
    Return
  | ReturnSlot int
  | ReturnSlot2 int int
  | ReturnSlot3 int int int
  | ReturnImm32 u32
  | ReturnI64Imm32 u64
  | ReturnF64Imm32 u64
  | ReturnSpan int nat
  | ReturnMany int int int

datatype branch_instr =
    Branch int
  | BranchTable0 int u32
  | BranchTableSpan int u32
  | BranchCmpFallback int int int
  | BranchCmp comparator int int int
  | BranchCmpImmRhs comparator int untyped_val int
  | BranchCmpImmLhs comparator untyped_val int int

datatype copy_instr =
    Copy int int
  | Copy2 int int int
  | CopyImm32 int u32
  | CopyI64Imm32 int u64
  | CopyF64Imm32 int u64
  | CopySpan int int nat
  | CopyMany int int int

datatype call_target =
    Internal nat | Imported nat | Indirect nat | IndirectImm16 nat

datatype global_instr =
    GlobalGet int nat
  | GlobalSet int nat
  | GlobalSetI32Imm16 nat u32
  | GlobalSetI64Imm16 nat u64
  | RefFunc int nat

datatype memory_instr =
    Load load_op int u32
  | LoadAt load_op int nat
  | LoadOffset16 load_op int int u64
  | Store store_op int u32
  | StoreImm store_op int u32
  | StoreOffset16 store_op int int u64
  | StoreOffset16Imm store_op int u64 untyped_val
  | StoreAt store_op int nat
  | StoreAtImm store_op nat untyped_val

datatype bulk_instr =
    TableGet int int
  | TableGetImm int u64
  | TableSize int nat
  | TableSet int int
  | TableSetAt u64 int
  | TableCopy int int int
  | TableInit int int int
  | TableFill int int int
  | TableGrow int int int
  | ElemDrop nat
  | DataDrop nat
  | MemorySize int nat
  | MemoryGrow int int
  | MemoryCopy int int int
  | MemoryFill int int int
  | MemoryFillImm int u8 int
  | MemoryInit int int int

datatype compute_instr =
    Unary un_op int int
  | TryUnary try_un_op int int
  | Binary bin_op int int int
  | BinaryImmRhs bin_op int int untyped_val
  | BinaryImmLhs bin_op int untyped_val int
  | ShiftBy bin_op int int untyped_val
  | TryBinary width div_op int int int
  | DivRemSImmRhs width div_op int int untyped_val
  | DivRemUImmRhs width div_op int int untyped_val
  | TryBinaryImmLhs width div_op int untyped_val int
  | Binop128 bool int int int
  | MulWide bool int int int
  | Select comparator int int int
  | SelectImmRhs comparator int int untyped_val

datatype param_word =
    MemoryIndex nat
  | TableIndex nat
  | DataIndex nat
  | ElemIndex nat
  | BranchTableTarget int int
  | PSlot int
  | PSlot2 int int
  | PSlot3 int int int
  | SlotAndImm32 int u32
  | Imm16AndImm32 untyped_val u32
  | PSlotSpan int nat
  | SlotList int int int
  | CallIndirectParams int nat
  | CallIndirectParamsImm16 u64 nat

text \<open>
  Calls name their target, whether parameters follow, and where the results go; a tail call names
  no results.
\<close>

datatype instr =
    ITrap trap_code
  | IConsumeFuel u64
  | IReturn return_instr
  | IBranch branch_instr
  | ICopy copy_instr
  | ICall int call_target bool
  | IReturnCall call_target bool
  | IGlobal global_instr
  | IMemory memory_instr
  | IBulk bulk_instr
  | ICompute compute_instr
  | IParam param_word

end
