(* ===== verification/Register_Machine.thy ===== *)
theory Register_Machine
  imports Instructions Guest_Store Error_Reports
begin

text \<open>
  The machine that runs compiled functions (\<open>patches/wasmi/src/engine/executor/instrs.rs\<close> without
  the dispatch, \<open>instr_ptr.rs\<close>, \<open>cache.rs\<close>): its state, access to registers and instruction
  words, and the handlers of computations, copies, selects, branches, globals, loads and stores
  (\<open>instrs/\<close>). The pointers the cache of an instance keeps are read through the instance, since
  the code refreshes them wherever they could have changed.
\<close>

section \<open>State\<close>

record ('h, 'l) machine =
  m_sp :: frame_slots
  m_ip :: "instr instr_ptr"
  m_instance :: handle
  m_stack :: "instr stack"
  m_store :: "('h, 'l) store"

text \<open>
  What the machine is given: the target, the growth policy of vectors, the allocator, the floating-point unit, the
  bits of references, the functions of the instruction crate that take a comparator or a
  64-bit offset apart, the code map, and the functions of the host, which answer with an error of
  the interpreter (\<open>None\<close>), an error of their own, or their results.
\<close>

record ('h, 'l) engine_env =
  ev_target :: target
  ev_grow :: "nat \<Rightarrow> nat \<Rightarrow> nat"
  ev_alloc :: allocator
  ev_floats :: float_unit
  ev_layout :: ref_layout
  ev_comparator :: "u64 \<Rightarrow> (comparator \<times> int) option"
  ev_offset :: "u32 \<Rightarrow> u32 \<Rightarrow> u64"
  ev_code :: "nat \<Rightarrow> fuel \<Rightarrow> (error_kind + instr compiled_func) \<times> fuel"
  ev_host :: "host_func_entity \<Rightarrow> handle option \<Rightarrow> untyped_val list \<Rightarrow> ('h, 'l) store \<Rightarrow>
              (error_kind + untyped_val list) option \<times> ('h, 'l) store"

abbreviation m_values :: "('h, 'l) machine \<Rightarrow> value_stack" where
  "m_values m \<equiv> sk_values (m_stack m)"

abbreviation m_calls :: "('h, 'l) machine \<Rightarrow> instr call_stack" where
  "m_calls m \<equiv> sk_calls (m_stack m)"

definition with_values :: "value_stack \<Rightarrow> ('h, 'l) machine \<Rightarrow> ('h, 'l) machine" where
  "with_values vs m = m\<lparr>m_stack := (m_stack m)\<lparr>sk_values := vs\<rparr>\<rparr>"

definition with_calls :: "instr call_stack \<Rightarrow> ('h, 'l) machine \<Rightarrow> ('h, 'l) machine" where
  "with_calls cs m = m\<lparr>m_stack := (m_stack m)\<lparr>sk_calls := cs\<rparr>\<rparr>"

section \<open>Instruction words\<close>

definition ip_get :: "'op instr_ptr \<Rightarrow> 'op exec" where
  "ip_get ip =
     (if 0 \<le> ip_at ip \<and> ip_at ip < int (length (ip_code ip))
      then Done (ip_code ip ! nat (ip_at ip)) else Undefined)"

definition ip_offset :: "int \<Rightarrow> 'op instr_ptr \<Rightarrow> 'op instr_ptr" where
  "ip_offset by ip = ip\<lparr>ip_at := ip_at ip + by\<rparr>"

definition ip_new :: "'op list \<Rightarrow> 'op instr_ptr" where
  "ip_new code = \<lparr>ip_code = code, ip_at = 0\<rparr>"

text \<open>The word \<open>delta\<close> after the current one, which must be a parameter.\<close>

definition param_at :: "int \<Rightarrow> ('h, 'l) machine \<Rightarrow> param_word option exec" where
  "param_at delta m =
     ex_then (ip_get (ip_offset delta (m_ip m))) (\<lambda>w.
       Done (case w of IParam p \<Rightarrow> Some p | _ \<Rightarrow> None))"

definition next_instr_at :: "nat \<Rightarrow> ('h, 'l) machine \<Rightarrow> ('h, 'l) machine" where
  "next_instr_at skip m = m\<lparr>m_ip := ip_offset (int skip) (m_ip m)\<rparr>"

definition next_instr :: "('h, 'l) machine \<Rightarrow> ('h, 'l) machine" where
  "next_instr m = next_instr_at 1 m"

section \<open>Registers\<close>

definition get_stack_slot :: "int \<Rightarrow> ('h, 'l) machine \<Rightarrow> untyped_val exec" where
  "get_stack_slot slot m = slots_get (m_values m) (m_sp m) slot"

definition set_stack_slot :: "int \<Rightarrow> untyped_val \<Rightarrow> ('h, 'l) machine \<Rightarrow> ('h, 'l) machine exec" where
  "set_stack_slot slot v m =
     ex_then (slots_set (m_sp m) slot v (m_values m)) (\<lambda>vs. Done (with_values vs m))"

definition init_call_frame :: "instr call_frame \<Rightarrow> ('h, 'l) machine \<Rightarrow> ('h, 'l) machine" where
  "init_call_frame frame m =
     m\<lparr>m_sp := stack_ptr_at (m_values m) (cf_base frame), m_ip := cf_instr_ptr frame\<rparr>"

text \<open>The result of a fallible handler: the error, or the machine to go on with.\<close>

type_synonym ('h, 'l) handled = "(error_kind \<times> ('h, 'l) machine + ('h, 'l) machine) exec"

definition goes_on :: "('h, 'l) machine exec \<Rightarrow> ('h, 'l) handled" where
  "goes_on r = ex_then r (\<lambda>m. Done (Inr m))"

definition traps :: "trap_code \<Rightarrow> ('h, 'l) machine \<Rightarrow> ('h, 'l) handled" where
  "traps e m = Done (Inl (EK_TrapCode e, m))"

section \<open>Computations\<close>

definition execute_unary ::
  "int \<Rightarrow> int \<Rightarrow> (untyped_val \<Rightarrow> untyped_val) \<Rightarrow> ('h, 'l) machine \<Rightarrow> ('h, 'l) machine exec" where
  "execute_unary result input f m =
     ex_then (get_stack_slot input m) (\<lambda>v.
     ex_then (set_stack_slot result (f v) m) (\<lambda>m. Done (next_instr m)))"

definition try_execute_unary ::
  "int \<Rightarrow> int \<Rightarrow> (untyped_val \<Rightarrow> trap_code + untyped_val) \<Rightarrow> ('h, 'l) machine \<Rightarrow> ('h, 'l) handled" where
  "try_execute_unary result input f m =
     ex_then (get_stack_slot input m) (\<lambda>v. case f v of
       Inl e \<Rightarrow> traps e m
     | Inr r \<Rightarrow> goes_on (ex_then (set_stack_slot result r m) (\<lambda>m. Done (next_instr m))))"

definition execute_binary ::
  "int \<Rightarrow> int \<Rightarrow> int \<Rightarrow> (untyped_val \<Rightarrow> untyped_val \<Rightarrow> untyped_val) \<Rightarrow> ('h, 'l) machine \<Rightarrow> ('h, 'l) machine exec" where
  "execute_binary result lhs rhs f m =
     ex_then (get_stack_slot lhs m) (\<lambda>x.
     ex_then (get_stack_slot rhs m) (\<lambda>y.
     ex_then (set_stack_slot result (f x y) m) (\<lambda>m. Done (next_instr m))))"

definition execute_binary_imm16_rhs ::
  "int \<Rightarrow> int \<Rightarrow> untyped_val \<Rightarrow> (untyped_val \<Rightarrow> untyped_val \<Rightarrow> untyped_val) \<Rightarrow> ('h, 'l) machine \<Rightarrow> ('h, 'l) machine exec" where
  "execute_binary_imm16_rhs result lhs rhs f m =
     ex_then (get_stack_slot lhs m) (\<lambda>x.
     ex_then (set_stack_slot result (f x rhs) m) (\<lambda>m. Done (next_instr m)))"

definition execute_binary_imm16_lhs ::
  "int \<Rightarrow> untyped_val \<Rightarrow> int \<Rightarrow> (untyped_val \<Rightarrow> untyped_val \<Rightarrow> untyped_val) \<Rightarrow> ('h, 'l) machine \<Rightarrow> ('h, 'l) machine exec" where
  "execute_binary_imm16_lhs result lhs rhs f m =
     ex_then (get_stack_slot rhs m) (\<lambda>y.
     ex_then (set_stack_slot result (f lhs y) m) (\<lambda>m. Done (next_instr m)))"

definition execute_shift_by ::
  "int \<Rightarrow> int \<Rightarrow> untyped_val \<Rightarrow> (untyped_val \<Rightarrow> untyped_val \<Rightarrow> untyped_val) \<Rightarrow> ('h, 'l) machine \<Rightarrow> ('h, 'l) machine exec" where
  "execute_shift_by result lhs rhs f m =
     ex_then (get_stack_slot lhs m) (\<lambda>x.
     ex_then (set_stack_slot result (f x rhs) m) (\<lambda>m. Done (next_instr m)))"

definition try_execute_binary ::
  "int \<Rightarrow> int \<Rightarrow> int \<Rightarrow> (untyped_val \<Rightarrow> untyped_val \<Rightarrow> trap_code + untyped_val) \<Rightarrow> ('h, 'l) machine \<Rightarrow> ('h, 'l) handled" where
  "try_execute_binary result lhs rhs f m =
     ex_then (get_stack_slot lhs m) (\<lambda>x.
     ex_then (get_stack_slot rhs m) (\<lambda>y. case f x y of
       Inl e \<Rightarrow> traps e m
     | Inr r \<Rightarrow> goes_on (ex_then (set_stack_slot result r m) (\<lambda>m. Done (next_instr m)))))"

definition try_execute_divrem_imm16_rhs ::
  "int \<Rightarrow> int \<Rightarrow> untyped_val \<Rightarrow> (untyped_val \<Rightarrow> untyped_val \<Rightarrow> trap_code + untyped_val) \<Rightarrow> ('h, 'l) machine \<Rightarrow> ('h, 'l) handled" where
  "try_execute_divrem_imm16_rhs result lhs rhs f m =
     ex_then (get_stack_slot lhs m) (\<lambda>x. case f x rhs of
       Inl e \<Rightarrow> traps e m
     | Inr r \<Rightarrow> goes_on (ex_then (set_stack_slot result r m) (\<lambda>m. Done (next_instr m))))"

definition try_execute_binary_imm16_lhs ::
  "int \<Rightarrow> untyped_val \<Rightarrow> int \<Rightarrow> (untyped_val \<Rightarrow> untyped_val \<Rightarrow> trap_code + untyped_val) \<Rightarrow> ('h, 'l) machine \<Rightarrow> ('h, 'l) handled" where
  "try_execute_binary_imm16_lhs result lhs rhs f m =
     ex_then (get_stack_slot rhs m) (\<lambda>y. case f lhs y of
       Inl e \<Rightarrow> traps e m
     | Inr r \<Rightarrow> goes_on (ex_then (set_stack_slot result r m) (\<lambda>m. Done (next_instr m))))"

text \<open>The unsigned variants cannot fail; the model's table gives them as values.\<close>

definition execute_divrem_imm16_rhs ::
  "int \<Rightarrow> int \<Rightarrow> untyped_val \<Rightarrow> (untyped_val \<Rightarrow> untyped_val \<Rightarrow> trap_code + untyped_val) \<Rightarrow> ('h, 'l) machine \<Rightarrow> ('h, 'l) handled" where
  "execute_divrem_imm16_rhs result lhs rhs f m =
     ex_then (get_stack_slot lhs m) (\<lambda>x. case f x rhs of
       Inl e \<Rightarrow> Undefined
     | Inr r \<Rightarrow> goes_on (ex_then (set_stack_slot result r m) (\<lambda>m. Done (next_instr m))))"

text \<open>Wide arithmetic: two results, and two more parameters in the next word.\<close>

definition execute_i64_binop128 ::
  "int \<Rightarrow> int \<Rightarrow> int \<Rightarrow> (u64 \<Rightarrow> u64 \<Rightarrow> u64 \<Rightarrow> u64 \<Rightarrow> u64 \<times> u64) \<Rightarrow> ('h, 'l) machine \<Rightarrow> ('h, 'l) machine exec" where
  "execute_i64_binop128 result0 result1 lhs_lo binop m =
     ex_then (param_at 1 m) (\<lambda>p. case p of
       Some (PSlot3 lhs_hi rhs_lo rhs_hi) \<Rightarrow>
         ex_then (get_stack_slot lhs_lo m) (\<lambda>a0.
         ex_then (get_stack_slot lhs_hi m) (\<lambda>a1.
         ex_then (get_stack_slot rhs_lo m) (\<lambda>b0.
         ex_then (get_stack_slot rhs_hi m) (\<lambda>b1.
         (case binop a0 a1 b0 b1 of (lo, hi) \<Rightarrow>
           ex_then (set_stack_slot result0 lo m) (\<lambda>m.
           ex_then (set_stack_slot result1 hi m) (\<lambda>m. Done (next_instr_at 2 m))))))))
     | _ \<Rightarrow> Undefined)"

definition execute_i64_mul_wide_sx ::
  "int \<Rightarrow> int \<Rightarrow> int \<Rightarrow> (u64 \<Rightarrow> u64 \<Rightarrow> u64 \<times> u64) \<Rightarrow> ('h, 'l) machine \<Rightarrow> ('h, 'l) machine exec" where
  "execute_i64_mul_wide_sx results lhs rhs mul_wide m =
     ex_then (get_stack_slot lhs m) (\<lambda>a.
     ex_then (get_stack_slot rhs m) (\<lambda>b.
     (case mul_wide a b of (lo, hi) \<Rightarrow>
       ex_then (set_stack_slot results lo m) (\<lambda>m.
       ex_then (set_stack_slot (results + 1) hi m) (\<lambda>m. Done (next_instr m))))))"

text \<open>Comparisons fused with a select, whose two values are in the next word.\<close>

definition select_values :: "int \<Rightarrow> bool \<Rightarrow> int \<Rightarrow> int \<Rightarrow> ('h, 'l) machine \<Rightarrow> ('h, 'l) machine exec" where
  "select_values result c true_val false_val m =
     ex_then (get_stack_slot (if c then true_val else false_val) m) (\<lambda>selected.
     ex_then (set_stack_slot result selected m) (\<lambda>m. Done (next_instr_at 2 m)))"

definition execute_cmp_select_impl ::
  "int \<Rightarrow> int \<Rightarrow> int \<Rightarrow> (untyped_val \<Rightarrow> untyped_val \<Rightarrow> bool) \<Rightarrow> ('h, 'l) machine \<Rightarrow> ('h, 'l) machine exec" where
  "execute_cmp_select_impl result lhs rhs f m =
     ex_then (param_at 1 m) (\<lambda>p. case p of
       Some (PSlot2 true_val false_val) \<Rightarrow>
         ex_then (get_stack_slot lhs m) (\<lambda>x.
         ex_then (get_stack_slot rhs m) (\<lambda>y. select_values result (f x y) true_val false_val m))
     | _ \<Rightarrow> Undefined)"

definition execute_cmp_select_imm_rhs_impl ::
  "int \<Rightarrow> int \<Rightarrow> untyped_val \<Rightarrow> (untyped_val \<Rightarrow> untyped_val \<Rightarrow> bool) \<Rightarrow> ('h, 'l) machine \<Rightarrow> ('h, 'l) machine exec" where
  "execute_cmp_select_imm_rhs_impl result lhs rhs f m =
     ex_then (param_at 1 m) (\<lambda>p. case p of
       Some (PSlot2 true_val false_val) \<Rightarrow>
         ex_then (get_stack_slot lhs m) (\<lambda>x. select_values result (f x rhs) true_val false_val m)
     | _ \<Rightarrow> Undefined)"

fun execute_compute ::
  "('h, 'l) engine_env \<Rightarrow> compute_instr \<Rightarrow> ('h, 'l) machine \<Rightarrow> ('h, 'l) handled" where
  "execute_compute ev (Unary op r x) m = goes_on (execute_unary r x (un_op_fn (ev_floats ev) op) m)"
| "execute_compute ev (TryUnary op r x) m = try_execute_unary r x (try_un_fn op) m"
| "execute_compute ev (Binary op r x y) m =
     goes_on (execute_binary r x y (bin_op_fn (ev_floats ev) op) m)"
| "execute_compute ev (BinaryImmRhs op r x c) m =
     goes_on (execute_binary_imm16_rhs r x c (bin_op_fn (ev_floats ev) op) m)"
| "execute_compute ev (BinaryImmLhs op r c y) m =
     goes_on (execute_binary_imm16_lhs r c y (bin_op_fn (ev_floats ev) op) m)"
| "execute_compute ev (ShiftBy op r x c) m =
     goes_on (execute_shift_by r x c (bin_op_fn (ev_floats ev) op) m)"
| "execute_compute ev (TryBinary w op r x y) m = try_execute_binary r x y (try_bin_fn w op) m"
| "execute_compute ev (DivRemSImmRhs w op r x c) m =
     try_execute_divrem_imm16_rhs r x c (divrem_imm_fn w op) m"
| "execute_compute ev (DivRemUImmRhs w op r x c) m =
     execute_divrem_imm16_rhs r x c (divrem_imm_fn w op) m"
| "execute_compute ev (TryBinaryImmLhs w op r c y) m =
     try_execute_binary_imm16_lhs r c y (try_bin_fn w op) m"
| "execute_compute ev (Binop128 subtract r0 r1 x) m =
     goes_on (execute_i64_binop128 r0 r1 x (if subtract then i64_sub128 else i64_add128) m)"
| "execute_compute ev (MulWide sgnd r x y) m =
     goes_on (execute_i64_mul_wide_sx r x y (if sgnd then i64_mul_wide_s else i64_mul_wide_u) m)"
| "execute_compute ev (Select c r x y) m = goes_on (execute_cmp_select_impl r x y (comparator_fn c) m)"
| "execute_compute ev (SelectImmRhs c r x v) m =
     goes_on (execute_cmp_select_imm_rhs_impl r x v (comparator_fn c) m)"

section \<open>Copies\<close>

definition span_slots :: "int \<Rightarrow> nat \<Rightarrow> int list" where
  "span_slots head len = map (\<lambda>i. head + int i) [0..<len]"

text \<open>
  A list of slots in the words after an instruction: full words of three and a last one. Only
  the code is read, so the list can be collected before the values are moved; the number is that of
  the words before the last one.
\<close>

fun slot_words :: "instr list \<Rightarrow> (int list \<times> nat) option" where
  "slot_words (IParam (SlotList a b c) # ws) =
     (case slot_words ws of Some (rs, n) \<Rightarrow> Some ([a, b, c] @ rs, Suc n) | None \<Rightarrow> None)"
| "slot_words (IParam (PSlot a) # ws) = Some ([a], 0)"
| "slot_words (IParam (PSlot2 a b) # ws) = Some ([a, b], 0)"
| "slot_words (IParam (PSlot3 a b c) # ws) = Some ([a, b, c], 0)"
| "slot_words _ = None"

definition slots_from :: "instr instr_ptr \<Rightarrow> (int list \<times> nat) exec" where
  "slots_from ip =
     (if 0 \<le> ip_at ip then
        (case slot_words (drop (nat (ip_at ip)) (ip_code ip)) of Some r \<Rightarrow> Done r | None \<Rightarrow> Undefined)
      else Undefined)"

fun copy_slots :: "int \<Rightarrow> int list \<Rightarrow> ('h, 'l) machine \<Rightarrow> ('h, 'l) machine exec" where
  "copy_slots result [] m = Done m"
| "copy_slots result (v # vs) m =
     ex_then (get_stack_slot v m) (\<lambda>x.
     ex_then (set_stack_slot result x m) (\<lambda>m. copy_slots (result + 1) vs m))"

definition execute_copy :: "int \<Rightarrow> int \<Rightarrow> ('h, 'l) machine \<Rightarrow> ('h, 'l) machine exec" where
  "execute_copy result v m =
     ex_then (get_stack_slot v m) (\<lambda>x.
     ex_then (set_stack_slot result x m) (\<lambda>m. Done (next_instr m)))"

definition execute_copy_const :: "int \<Rightarrow> untyped_val \<Rightarrow> ('h, 'l) machine \<Rightarrow> ('h, 'l) machine exec" where
  "execute_copy_const result v m =
     ex_then (set_stack_slot result v m) (\<lambda>m. Done (next_instr m))"

definition execute_copy_2 :: "int \<Rightarrow> int \<Rightarrow> int \<Rightarrow> ('h, 'l) machine \<Rightarrow> ('h, 'l) machine exec" where
  "execute_copy_2 results v0 v1 m =
     ex_then (get_stack_slot v1 m) (\<lambda>tmp.
     ex_then (get_stack_slot v0 m) (\<lambda>x.
     ex_then (set_stack_slot results x m) (\<lambda>m.
     ex_then (set_stack_slot (results + 1) tmp m) (\<lambda>m. Done (next_instr m)))))"

definition execute_copy_span_impl :: "int \<Rightarrow> int \<Rightarrow> nat \<Rightarrow> ('h, 'l) machine \<Rightarrow> ('h, 'l) machine exec" where
  "execute_copy_span_impl results vals len m = copy_slots results (span_slots vals len) m"

definition execute_copy_span :: "int \<Rightarrow> int \<Rightarrow> nat \<Rightarrow> ('h, 'l) machine \<Rightarrow> ('h, 'l) machine exec" where
  "execute_copy_span results vals len m =
     ex_then (execute_copy_span_impl results vals len m) (\<lambda>m. Done (next_instr m))"

definition execute_copy_many :: "int \<Rightarrow> int \<Rightarrow> int \<Rightarrow> ('h, 'l) machine \<Rightarrow> ('h, 'l) machine exec" where
  "execute_copy_many results v0 v1 m =
     (let m = next_instr m in
      ex_then (slots_from (m_ip m)) (\<lambda>(slots, n).
      ex_then (copy_slots results ([v0, v1] @ slots) m) (\<lambda>m. Done (next_instr (next_instr_at n m)))))"

fun execute_copies :: "copy_instr \<Rightarrow> ('h, 'l) machine \<Rightarrow> ('h, 'l) machine exec" where
  "execute_copies (Copy r v) m = execute_copy r v m"
| "execute_copies (Copy2 r v0 v1) m = execute_copy_2 r v0 v1 m"
| "execute_copies (CopyImm32 r c) m = execute_copy_const r (ucast c) m"
| "execute_copies (CopyI64Imm32 r c) m = execute_copy_const r c m"
| "execute_copies (CopyF64Imm32 r c) m = execute_copy_const r c m"
| "execute_copies (CopySpan r v len) m = execute_copy_span r v len m"
| "execute_copies (CopyMany r v0 v1) m = execute_copy_many r v0 v1 m"

section \<open>Branches\<close>

definition branch_to :: "int \<Rightarrow> ('h, 'l) machine \<Rightarrow> ('h, 'l) machine" where
  "branch_to offset m = m\<lparr>m_ip := ip_offset offset (m_ip m)\<rparr>"

text \<open>The number of targets is not zero; for zero, \<open>len_targets - 1\<close> overflows.\<close>

definition fetch_branch_table_offset ::
  "('h, 'l) engine_env \<Rightarrow> int \<Rightarrow> u32 \<Rightarrow> ('h, 'l) machine \<Rightarrow> nat exec" where
  "fetch_branch_table_offset ev idx len_targets m =
     ex_then (get_stack_slot idx m) (\<lambda>u.
       if len_targets = 0 \<and> overflow_checks (ev_target ev) then Aborts
       else Done (unat (min (read_as32 u) (len_targets - 1)) + 1))"

definition execute_branch_table_0 ::
  "('h, 'l) engine_env \<Rightarrow> int \<Rightarrow> u32 \<Rightarrow> ('h, 'l) machine \<Rightarrow> ('h, 'l) machine exec" where
  "execute_branch_table_0 ev idx len_targets m =
     ex_then (fetch_branch_table_offset ev idx len_targets m) (\<lambda>offset.
       Done (next_instr_at offset m))"

definition execute_branch_table_span ::
  "('h, 'l) engine_env \<Rightarrow> int \<Rightarrow> u32 \<Rightarrow> ('h, 'l) machine \<Rightarrow> ('h, 'l) machine exec" where
  "execute_branch_table_span ev idx len_targets m =
     ex_then (fetch_branch_table_offset ev idx len_targets m) (\<lambda>offset.
     let m = next_instr m in
     ex_then (param_at 0 m) (\<lambda>p. case p of
       Some (PSlotSpan vals len) \<Rightarrow>
         (let m = next_instr_at offset m in
          ex_then (param_at 0 m) (\<lambda>p. case p of
            Some (BranchTableTarget results offset) \<Rightarrow>
              ex_then (execute_copy_span_impl results vals len m) (\<lambda>m. Done (branch_to offset m))
          | _ \<Rightarrow> Undefined))
     | _ \<Rightarrow> Undefined))"

definition execute_branch_binop ::
  "int \<Rightarrow> int \<Rightarrow> int \<Rightarrow> (untyped_val \<Rightarrow> untyped_val \<Rightarrow> bool) \<Rightarrow> ('h, 'l) machine \<Rightarrow> ('h, 'l) machine exec" where
  "execute_branch_binop lhs rhs offset f m =
     ex_then (get_stack_slot lhs m) (\<lambda>x.
     ex_then (get_stack_slot rhs m) (\<lambda>y.
       Done (if f x y then branch_to offset m else next_instr m)))"

definition execute_branch_binop_imm16_rhs ::
  "int \<Rightarrow> untyped_val \<Rightarrow> int \<Rightarrow> (untyped_val \<Rightarrow> untyped_val \<Rightarrow> bool) \<Rightarrow> ('h, 'l) machine \<Rightarrow> ('h, 'l) machine exec" where
  "execute_branch_binop_imm16_rhs lhs rhs offset f m =
     ex_then (get_stack_slot lhs m) (\<lambda>x.
       Done (if f x rhs then branch_to offset m else next_instr m))"

definition execute_branch_binop_imm16_lhs ::
  "untyped_val \<Rightarrow> int \<Rightarrow> int \<Rightarrow> (untyped_val \<Rightarrow> untyped_val \<Rightarrow> bool) \<Rightarrow> ('h, 'l) machine \<Rightarrow> ('h, 'l) machine exec" where
  "execute_branch_binop_imm16_lhs lhs rhs offset f m =
     ex_then (get_stack_slot rhs m) (\<lambda>y.
       Done (if f lhs y then branch_to offset m else next_instr m))"

definition execute_branch_cmp_fallback ::
  "('h, 'l) engine_env \<Rightarrow> int \<Rightarrow> int \<Rightarrow> int \<Rightarrow> ('h, 'l) machine \<Rightarrow> ('h, 'l) machine exec" where
  "execute_branch_cmp_fallback ev lhs rhs params m =
     ex_then (get_stack_slot params m) (\<lambda>p. case ev_comparator ev p of
       None \<Rightarrow> Aborts
     | Some (cmp, offset) \<Rightarrow> execute_branch_binop lhs rhs offset (comparator_fn cmp) m)"

fun execute_branches ::
  "('h, 'l) engine_env \<Rightarrow> branch_instr \<Rightarrow> ('h, 'l) machine \<Rightarrow> ('h, 'l) machine exec" where
  "execute_branches ev (Branch offset) m = Done (branch_to offset m)"
| "execute_branches ev (BranchTable0 i n) m = execute_branch_table_0 ev i n m"
| "execute_branches ev (BranchTableSpan i n) m = execute_branch_table_span ev i n m"
| "execute_branches ev (BranchCmpFallback x y p) m = execute_branch_cmp_fallback ev x y p m"
| "execute_branches ev (BranchCmp c x y offset) m = execute_branch_binop x y offset (comparator_fn c) m"
| "execute_branches ev (BranchCmpImmRhs c x v offset) m =
     execute_branch_binop_imm16_rhs x v offset (comparator_fn c) m"
| "execute_branches ev (BranchCmpImmLhs c v y offset) m =
     execute_branch_binop_imm16_lhs v y offset (comparator_fn c) m"

end
