(* ===== verification/Machine_Memory.thy ===== *)
theory Machine_Memory
  imports Register_Machine
begin

text \<open>
  The handlers of the machine that reach the store
  (\<open>patches/wasmi/src/engine/executor/instrs/global.rs\<close>, \<open>load.rs\<close>, \<open>store.rs\<close>, \<open>utils.rs\<close>, and the
  lookups of \<open>cache.rs\<close>): globals, references to functions, loads and stores.
\<close>

section \<open>Entities of the current instance\<close>

fun ex_of_outcome :: "'a outcome \<Rightarrow> 'a exec" where
  "ex_of_outcome (Ok x) = Done x"
| "ex_of_outcome Panic = Aborts"
| "ex_of_outcome Diverges = Aborts"

definition cached_instance :: "('h, 'l) machine \<Rightarrow> instance_entity exec" where
  "cached_instance m =
     (case resolve_instance (m_store m) (m_instance m) of Ok i \<Rightarrow> Done i | _ \<Rightarrow> Undefined)"

text \<open>\<open>get_entity!\<close>: a missing entity is \<open>unreachable_unchecked\<close>.\<close>

definition get_entity :: "(instance_entity \<Rightarrow> 'a list) \<Rightarrow> nat \<Rightarrow> ('h, 'l) machine \<Rightarrow> 'a exec" where
  "get_entity sel i m =
     ex_then (cached_instance m) (\<lambda>inst. if i < length (sel inst) then Done (sel inst ! i) else Undefined)"

text \<open>
  The bytes of a memory. The default memory is the cached one, which is empty where the instance
  has none.
\<close>

definition fetch_memory_bytes :: "nat \<Rightarrow> ('h, 'l) machine \<Rightarrow> (handle option \<times> bytes) exec" where
  "fetch_memory_bytes i m =
     (if i = 0 then
        ex_then (cached_instance m) (\<lambda>inst.
          case ie_memories inst of
            [] \<Rightarrow> Done (None, [])
          | h # _ \<Rightarrow> ex_then (ex_of_outcome (resolve_memory (m_store m) h)) (\<lambda>mem. Done (Some h, mem_data mem)))
      else
        ex_then (get_entity ie_memories i m) (\<lambda>h.
        ex_then (ex_of_outcome (resolve_memory (m_store m) h)) (\<lambda>mem. Done (Some h, mem_data mem))))"

definition put_memory_bytes :: "handle \<Rightarrow> bytes \<Rightarrow> ('h, 'l) store \<Rightarrow> ('h, 'l) store" where
  "put_memory_bytes h bs st =
     (let mem = so_memories st ! snd h in
      st\<lparr>so_memories := (so_memories st)[snd h := mem\<lparr>mem_buffer := (mem_buffer mem)\<lparr>buf_bytes := bs\<rparr>\<rparr>]\<rparr>)"

text \<open>
  \<open>fetch_optional_memory\<close>: a \<open>MemoryIndex\<close> word at the place bumps the instruction pointer.
\<close>

definition fetch_optional_memory :: "nat \<Rightarrow> ('h, 'l) machine \<Rightarrow> (nat \<times> ('h, 'l) machine) exec" where
  "fetch_optional_memory delta m =
     ex_then (param_at (int delta) m) (\<lambda>p.
       Done (case p of Some (MemoryIndex i) \<Rightarrow> (i, next_instr m) | _ \<Rightarrow> (0, m)))"

definition fetch_reg_and_offset_hi :: "('h, 'l) machine \<Rightarrow> (int \<times> u32) exec" where
  "fetch_reg_and_offset_hi m =
     ex_then (param_at 1 m) (\<lambda>p. case p of Some (SlotAndImm32 s hi) \<Rightarrow> Done (s, hi) | _ \<Rightarrow> Undefined)"

definition fetch_value_and_offset_imm :: "('h, 'l) machine \<Rightarrow> (untyped_val \<times> u32) exec" where
  "fetch_value_and_offset_imm m =
     ex_then (param_at 1 m) (\<lambda>p. case p of Some (Imm16AndImm32 v hi) \<Rightarrow> Done (v, hi) | _ \<Rightarrow> Undefined)"

section \<open>Globals\<close>

definition global_at :: "nat \<Rightarrow> ('h, 'l) machine \<Rightarrow> (handle \<times> core_global) exec" where
  "global_at i m =
     ex_then (get_entity ie_globals i m) (\<lambda>h.
     ex_then (ex_of_outcome (resolve_global (m_store m) h)) (\<lambda>g. Done (h, g)))"

definition execute_global_get :: "int \<Rightarrow> nat \<Rightarrow> ('h, 'l) machine \<Rightarrow> ('h, 'l) machine exec" where
  "execute_global_get result i m =
     ex_then (global_at i m) (\<lambda>(_, g).
     ex_then (set_stack_slot result (gl_value g) m) (\<lambda>m. Done (next_instr m)))"

definition execute_global_set_impl :: "nat \<Rightarrow> untyped_val \<Rightarrow> ('h, 'l) machine \<Rightarrow> ('h, 'l) machine exec" where
  "execute_global_set_impl i new_value m =
     ex_then (global_at i m) (\<lambda>(h, g).
       Done (next_instr (m\<lparr>m_store :=
         (m_store m)\<lparr>so_globals := (so_globals (m_store m))[snd h := g\<lparr>gl_value := new_value\<rparr>]\<rparr>\<rparr>)))"

definition execute_global_set :: "nat \<Rightarrow> int \<Rightarrow> ('h, 'l) machine \<Rightarrow> ('h, 'l) machine exec" where
  "execute_global_set i input m =
     ex_then (get_stack_slot input m) (\<lambda>v. execute_global_set_impl i v m)"

definition execute_ref_func ::
  "('h, 'l) engine_env \<Rightarrow> int \<Rightarrow> nat \<Rightarrow> ('h, 'l) machine \<Rightarrow> ('h, 'l) machine exec" where
  "execute_ref_func ev result i m =
     ex_then (get_entity ie_funcs i m) (\<lambda>h.
     ex_then (set_stack_slot result (untyped_of_ref (ev_layout ev) (Some h)) m) (\<lambda>m. Done (next_instr m)))"

fun execute_globals :: "('h, 'l) engine_env \<Rightarrow> global_instr \<Rightarrow> ('h, 'l) machine \<Rightarrow> ('h, 'l) machine exec" where
  "execute_globals ev (GlobalGet r i) m = execute_global_get r i m"
| "execute_globals ev (GlobalSet x i) m = execute_global_set i x m"
| "execute_globals ev (GlobalSetI32Imm16 i c) m = execute_global_set_impl i (ucast c) m"
| "execute_globals ev (GlobalSetI64Imm16 i c) m = execute_global_set_impl i c m"
| "execute_globals ev (RefFunc r i) m = execute_ref_func ev r i m"

section \<open>Loads\<close>

definition execute_load_extend ::
  "nat \<Rightarrow> int \<Rightarrow> (bytes \<Rightarrow> trap_code + untyped_val) \<Rightarrow> ('h, 'l) machine \<Rightarrow> ('h, 'l) handled" where
  "execute_load_extend memory result f m =
     ex_then (fetch_memory_bytes memory m) (\<lambda>(_, bs). case f bs of
       Inl e \<Rightarrow> traps e m
     | Inr v \<Rightarrow> goes_on (set_stack_slot result v m))"

definition then_next :: "nat \<Rightarrow> ('h, 'l) handled \<Rightarrow> ('h, 'l) handled" where
  "then_next skip r = ex_then r (\<lambda>x. case x of
     Inl e \<Rightarrow> Done (Inl e) | Inr m \<Rightarrow> Done (Inr (next_instr_at skip m)))"

definition execute_load_impl ::
  "('h, 'l) engine_env \<Rightarrow> load_op \<Rightarrow> int \<Rightarrow> u32 \<Rightarrow> ('h, 'l) machine \<Rightarrow> ('h, 'l) handled" where
  "execute_load_impl ev op result offset_lo m =
     ex_then (fetch_reg_and_offset_hi m) (\<lambda>(ptr, offset_hi).
     ex_then (fetch_optional_memory 2 m) (\<lambda>(memory, m).
     ex_then (get_stack_slot ptr m) (\<lambda>address.
       then_next 2 (execute_load_extend memory result
         (\<lambda>bs. load_fn op (ev_target ev) bs (read_as64 address) (ev_offset ev offset_hi offset_lo)) m))))"

definition execute_load_at_impl ::
  "load_op \<Rightarrow> int \<Rightarrow> nat \<Rightarrow> ('h, 'l) machine \<Rightarrow> ('h, 'l) handled" where
  "execute_load_at_impl op result address m =
     ex_then (fetch_optional_memory 1 m) (\<lambda>(memory, m).
       then_next 1 (execute_load_extend memory result (\<lambda>bs. load_at_fn op bs address) m))"

definition execute_load_offset16_impl ::
  "('h, 'l) engine_env \<Rightarrow> load_op \<Rightarrow> int \<Rightarrow> int \<Rightarrow> u64 \<Rightarrow> ('h, 'l) machine \<Rightarrow> ('h, 'l) handled" where
  "execute_load_offset16_impl ev op result ptr offset m =
     ex_then (get_stack_slot ptr m) (\<lambda>address.
       then_next 1 (execute_load_extend 0 result
         (\<lambda>bs. load_fn op (ev_target ev) bs (read_as64 address) offset) m))"

section \<open>Stores\<close>

definition execute_store_wrap ::
  "nat \<Rightarrow> (bytes \<Rightarrow> trap_code + bytes) \<Rightarrow> ('h, 'l) machine \<Rightarrow> ('h, 'l) handled" where
  "execute_store_wrap memory f m =
     ex_then (fetch_memory_bytes memory m) (\<lambda>(h, bs). case f bs of
       Inl e \<Rightarrow> traps e m
     | Inr bs' \<Rightarrow> Done (Inr (case h of
           Some h \<Rightarrow> m\<lparr>m_store := put_memory_bytes h bs' (m_store m)\<rparr> | None \<Rightarrow> m)))"

definition execute_store ::
  "('h, 'l) engine_env \<Rightarrow> store_op \<Rightarrow> int \<Rightarrow> u32 \<Rightarrow> ('h, 'l) machine \<Rightarrow> ('h, 'l) handled" where
  "execute_store ev op ptr offset_lo m =
     ex_then (fetch_reg_and_offset_hi m) (\<lambda>(val, offset_hi).
     ex_then (fetch_optional_memory 2 m) (\<lambda>(memory, m).
     ex_then (get_stack_slot ptr m) (\<lambda>p.
     ex_then (get_stack_slot val m) (\<lambda>v.
       then_next 2 (execute_store_wrap memory
         (\<lambda>bs. store_fn op (ev_target ev) bs (read_as64 p) (ev_offset ev offset_hi offset_lo) v) m)))))"

definition execute_store_imm ::
  "('h, 'l) engine_env \<Rightarrow> store_op \<Rightarrow> int \<Rightarrow> u32 \<Rightarrow> ('h, 'l) machine \<Rightarrow> ('h, 'l) handled" where
  "execute_store_imm ev op ptr offset_lo m =
     ex_then (fetch_value_and_offset_imm m) (\<lambda>(v, offset_hi).
     ex_then (fetch_optional_memory 2 m) (\<lambda>(memory, m).
     ex_then (get_stack_slot ptr m) (\<lambda>p.
       then_next 2 (execute_store_wrap memory
         (\<lambda>bs. store_fn op (ev_target ev) bs (read_as64 p) (ev_offset ev offset_hi offset_lo) v) m))))"

definition execute_store_offset16 ::
  "('h, 'l) engine_env \<Rightarrow> store_op \<Rightarrow> int \<Rightarrow> int \<Rightarrow> u64 \<Rightarrow> ('h, 'l) machine \<Rightarrow> ('h, 'l) handled" where
  "execute_store_offset16 ev op ptr val offset m =
     ex_then (get_stack_slot ptr m) (\<lambda>p.
     ex_then (get_stack_slot val m) (\<lambda>v.
       then_next 1 (execute_store_wrap 0
         (\<lambda>bs. store_fn op (ev_target ev) bs (read_as64 p) offset v) m)))"

definition execute_store_offset16_imm16 ::
  "('h, 'l) engine_env \<Rightarrow> store_op \<Rightarrow> int \<Rightarrow> u64 \<Rightarrow> untyped_val \<Rightarrow> ('h, 'l) machine \<Rightarrow> ('h, 'l) handled" where
  "execute_store_offset16_imm16 ev op ptr offset v m =
     ex_then (get_stack_slot ptr m) (\<lambda>p.
       then_next 1 (execute_store_wrap 0
         (\<lambda>bs. store_fn op (ev_target ev) bs (read_as64 p) offset v) m))"

definition execute_store_at :: "store_op \<Rightarrow> int \<Rightarrow> nat \<Rightarrow> ('h, 'l) machine \<Rightarrow> ('h, 'l) handled" where
  "execute_store_at op val address m =
     ex_then (fetch_optional_memory 1 m) (\<lambda>(memory, m).
     ex_then (get_stack_slot val m) (\<lambda>v.
       then_next 1 (execute_store_wrap memory (\<lambda>bs. store_at_fn op bs address v) m)))"

definition execute_store_at_imm16 ::
  "store_op \<Rightarrow> nat \<Rightarrow> untyped_val \<Rightarrow> ('h, 'l) machine \<Rightarrow> ('h, 'l) handled" where
  "execute_store_at_imm16 op address v m =
     ex_then (fetch_optional_memory 1 m) (\<lambda>(memory, m).
       then_next 1 (execute_store_wrap memory (\<lambda>bs. store_at_fn op bs address v) m))"

fun execute_memory :: "('h, 'l) engine_env \<Rightarrow> memory_instr \<Rightarrow> ('h, 'l) machine \<Rightarrow> ('h, 'l) handled" where
  "execute_memory ev (Load op r lo) m = execute_load_impl ev op r lo m"
| "execute_memory ev (LoadAt op r a) m = execute_load_at_impl op r a m"
| "execute_memory ev (LoadOffset16 op r p off) m = execute_load_offset16_impl ev op r p off m"
| "execute_memory ev (Store op p lo) m = execute_store ev op p lo m"
| "execute_memory ev (StoreImm op p lo) m = execute_store_imm ev op p lo m"
| "execute_memory ev (StoreOffset16 op p v off) m = execute_store_offset16 ev op p v off m"
| "execute_memory ev (StoreOffset16Imm op p off v) m = execute_store_offset16_imm16 ev op p off v m"
| "execute_memory ev (StoreAt op v a) m = execute_store_at op v a m"
| "execute_memory ev (StoreAtImm op a v) m = execute_store_at_imm16 op a v m"

end
