(* ===== verification/Machine_Bulk.thy ===== *)
theory Machine_Bulk
  imports Machine_Memory Memory_Ops Table_Ops
begin

text \<open>
  The bulk instructions as the machine runs them (\<open>patches/wasmi/src/engine/executor/instrs/memory.rs\<close>
  and \<open>table.rs\<close>): operands from registers and from the words after the instruction, the memories,
  tables and segments they name in the current instance, and what is written back to the store. What
  is done with the bytes and elements is \<open>Memory_Ops\<close> and \<open>Table_Ops\<close>.
\<close>

section \<open>Operands\<close>

fun memory_index :: "param_word \<Rightarrow> nat option" where
  "memory_index (MemoryIndex i) = Some i"
| "memory_index _ = None"

fun table_index :: "param_word \<Rightarrow> nat option" where
  "table_index (TableIndex i) = Some i"
| "table_index _ = None"

fun data_index :: "param_word \<Rightarrow> nat option" where
  "data_index (DataIndex i) = Some i"
| "data_index _ = None"

fun elem_index :: "param_word \<Rightarrow> nat option" where
  "elem_index (ElemIndex i) = Some i"
| "elem_index _ = None"

text \<open>\<open>fetch_memory_index\<close> and its like: any other word is \<open>unreachable_unchecked\<close>.\<close>

definition fetch_index :: "(param_word \<Rightarrow> nat option) \<Rightarrow> nat \<Rightarrow> ('h, 'l) machine \<Rightarrow> nat exec" where
  "fetch_index sel offset m =
     ex_then (param_at (int offset) m) (\<lambda>p. case p of
       Some w \<Rightarrow> (case sel w of Some i \<Rightarrow> Done i | None \<Rightarrow> Undefined) | None \<Rightarrow> Undefined)"

definition memory_of :: "handle \<Rightarrow> ('h, 'l) machine \<Rightarrow> memory exec" where
  "memory_of h m = ex_of_outcome (resolve_memory (m_store m) h)"

definition table_of :: "handle \<Rightarrow> ('h, 'l) machine \<Rightarrow> table exec" where
  "table_of h m = ex_of_outcome (resolve_table (m_store m) h)"

definition data_of :: "handle \<Rightarrow> ('h, 'l) machine \<Rightarrow> data_segment_entity exec" where
  "data_of h m = ex_of_outcome (resolve_in (so_idx (m_store m)) h (so_datas (m_store m)))"

definition element_of :: "handle \<Rightarrow> ('h, 'l) machine \<Rightarrow> element_segment exec" where
  "element_of h m = ex_of_outcome (resolve_element (m_store m) h)"

text \<open>\<open>get_pair_mut\<close> of an arena has no pair for one and the same entity, and then the store panics.\<close>

definition distinct_pair :: "handle \<Rightarrow> handle \<Rightarrow> unit exec" where
  "distinct_pair h h' = (if snd h = snd h' then Aborts else Done ())"

text \<open>Writing back.\<close>

definition with_fuel :: "fuel \<Rightarrow> ('h, 'l) machine \<Rightarrow> ('h, 'l) machine" where
  "with_fuel fu m = m\<lparr>m_store := (m_store m)\<lparr>so_fuel := fu\<rparr>\<rparr>"

definition with_fuel_option :: "fuel option \<Rightarrow> ('h, 'l) machine \<Rightarrow> ('h, 'l) machine" where
  "with_fuel_option fu m = (case fu of Some f \<Rightarrow> with_fuel f m | None \<Rightarrow> m)"

definition with_memory_at :: "handle \<Rightarrow> memory \<Rightarrow> ('h, 'l) machine \<Rightarrow> ('h, 'l) machine" where
  "with_memory_at h mem m =
     m\<lparr>m_store := (m_store m)\<lparr>so_memories := (so_memories (m_store m))[snd h := mem]\<rparr>\<rparr>"

definition with_table_at :: "handle \<Rightarrow> table \<Rightarrow> ('h, 'l) machine \<Rightarrow> ('h, 'l) machine" where
  "with_table_at h tab m =
     m\<lparr>m_store := (m_store m)\<lparr>so_tables := (so_tables (m_store m))[snd h := tab]\<rparr>\<rparr>"

definition with_limiter_state :: "'l \<Rightarrow> ('h, 'l) machine \<Rightarrow> ('h, 'l) machine" where
  "with_limiter_state l m = m\<lparr>m_store := (m_store m)\<lparr>so_limiter_state := l\<rparr>\<rparr>"

text \<open>The two ways an operation on bytes and one on a table end.\<close>

definition bytes_done ::
  "handle \<Rightarrow> (error_kind + bytes) \<times> fuel \<Rightarrow> ('h, 'l) machine \<Rightarrow> ('h, 'l) handled" where
  "bytes_done h r m = (case r of (r, fu) \<Rightarrow> (case r of
       Inl e \<Rightarrow> Done (Inl (e, with_fuel fu m))
     | Inr bs \<Rightarrow> Done (Inr ((with_fuel fu m)\<lparr>m_store := put_memory_bytes h bs (m_store (with_fuel fu m))\<rparr>))))"

definition table_done ::
  "handle \<Rightarrow> (error_kind + unit) \<times> table \<times> fuel option \<Rightarrow> ('h, 'l) machine \<Rightarrow> ('h, 'l) handled" where
  "table_done h r m = (case r of (r, tab, fu) \<Rightarrow>
     (let m = with_table_at h tab (with_fuel_option fu m) in
      case r of Inl e \<Rightarrow> Done (Inl (e, m)) | Inr _ \<Rightarrow> Done (Inr m)))"

definition fits_usize :: "target \<Rightarrow> u64 \<Rightarrow> bool" where
  "fits_usize t x \<longleftrightarrow> unat x < 2 ^ usize_bits t"

section \<open>Memories\<close>

definition execute_data_drop :: "nat \<Rightarrow> ('h, 'l) machine \<Rightarrow> ('h, 'l) machine exec" where
  "execute_data_drop i m =
     ex_then (get_entity ie_data_segments i m) (\<lambda>h.
     ex_then (data_of h m) (\<lambda>s.
       Done (next_instr (m\<lparr>m_store := (m_store m)\<lparr>so_datas := (so_datas (m_store m))[snd h := drop_bytes s]\<rparr>\<rparr>))))"

definition execute_memory_size_impl :: "int \<Rightarrow> nat \<Rightarrow> ('h, 'l) machine \<Rightarrow> ('h, 'l) machine exec" where
  "execute_memory_size_impl result i m =
     ex_then (get_entity ie_memories i m) (\<lambda>h.
     ex_then (memory_of h m) (\<lambda>mem. set_stack_slot result (exec_memory_size mem) m))"

definition execute_memory_grow ::
  "('h, 'l) engine_env \<Rightarrow> int \<Rightarrow> int \<Rightarrow> ('h, 'l) machine \<Rightarrow> ('h, 'l) handled" where
  "execute_memory_grow ev result delta m =
     ex_then (get_stack_slot delta m) (\<lambda>d.
     ex_then (fetch_index memory_index 1 m) (\<lambda>i.
       if read_as64 d = 0 then then_next 2 (goes_on (execute_memory_size_impl result i m))
       else
         ex_then (get_entity ie_memories i m) (\<lambda>h.
         ex_then (memory_of h m) (\<lambda>mem.
         ex_then (ex_of_outcome (exec_memory_grow (ev_target ev) (ev_alloc ev) (so_limiter (m_store m))
                    (read_as64 d) mem (so_fuel (m_store m)) (so_limiter_state (m_store m))))
           (\<lambda>(r, mem, fu, l).
              let m = with_limiter_state l (with_memory_at h mem (with_fuel_option fu m)) in
              case r of
                Inl e \<Rightarrow> Done (Inl (e, m))
              | Inr v \<Rightarrow> then_next 2 (goes_on (set_stack_slot result v m)))))))"

definition execute_memory_copy ::
  "('h, 'l) engine_env \<Rightarrow> int \<Rightarrow> int \<Rightarrow> int \<Rightarrow> ('h, 'l) machine \<Rightarrow> ('h, 'l) handled" where
  "execute_memory_copy ev dst src len m =
     ex_then (get_stack_slot dst m) (\<lambda>d.
     ex_then (get_stack_slot src m) (\<lambda>s.
     ex_then (get_stack_slot len m) (\<lambda>n.
       if \<not> (fits_usize (ev_target ev) d \<and> fits_usize (ev_target ev) s \<and> fits_usize (ev_target ev) n)
       then traps MemoryOutOfBounds m
       else
         ex_then (fetch_index memory_index 1 m) (\<lambda>dst_memory.
         ex_then (fetch_index memory_index 2 m) (\<lambda>src_memory.
           if src_memory = dst_memory then
             ex_then (get_entity ie_memories src_memory m) (\<lambda>h.
             ex_then (memory_of h m) (\<lambda>mem.
             ex_then (ex_of_outcome (exec_memory_copy_within (ev_target ev) d s n (mem_data mem) (so_fuel (m_store m))))
               (\<lambda>r. then_next 3 (bytes_done h r m))))
           else
             ex_then (get_entity ie_memories src_memory m) (\<lambda>hs.
             ex_then (get_entity ie_memories dst_memory m) (\<lambda>hd.
             ex_then (distinct_pair hs hd) (\<lambda>_.
             ex_then (memory_of hs m) (\<lambda>src_mem.
             ex_then (memory_of hd m) (\<lambda>dst_mem.
               then_next 3 (bytes_done hd (exec_memory_copy (ev_target ev) d s n (mem_data src_mem)
                 (mem_data dst_mem) (so_fuel (m_store m))) m)))))))))))"

definition execute_memory_fill_impl ::
  "('h, 'l) engine_env \<Rightarrow> u64 \<Rightarrow> u8 \<Rightarrow> u64 \<Rightarrow> ('h, 'l) machine \<Rightarrow> ('h, 'l) handled" where
  "execute_memory_fill_impl ev d v n m =
     (if \<not> (fits_usize (ev_target ev) d \<and> fits_usize (ev_target ev) n) then traps MemoryOutOfBounds m
      else
        ex_then (fetch_index memory_index 1 m) (\<lambda>i.
        ex_then (get_entity ie_memories i m) (\<lambda>h.
        ex_then (memory_of h m) (\<lambda>mem.
          then_next 2 (bytes_done h (exec_memory_fill (ev_target ev) d v n (mem_data mem) (so_fuel (m_store m))) m)))))"

definition execute_memory_fill ::
  "('h, 'l) engine_env \<Rightarrow> int \<Rightarrow> int \<Rightarrow> int \<Rightarrow> ('h, 'l) machine \<Rightarrow> ('h, 'l) handled" where
  "execute_memory_fill ev dst v len m =
     ex_then (get_stack_slot dst m) (\<lambda>d.
     ex_then (get_stack_slot v m) (\<lambda>x.
     ex_then (get_stack_slot len m) (\<lambda>n. execute_memory_fill_impl ev d (ucast x) n m)))"

definition execute_memory_fill_imm ::
  "('h, 'l) engine_env \<Rightarrow> int \<Rightarrow> u8 \<Rightarrow> int \<Rightarrow> ('h, 'l) machine \<Rightarrow> ('h, 'l) handled" where
  "execute_memory_fill_imm ev dst v len m =
     ex_then (get_stack_slot dst m) (\<lambda>d.
     ex_then (get_stack_slot len m) (\<lambda>n. execute_memory_fill_impl ev d v n m))"

definition execute_memory_init ::
  "('h, 'l) engine_env \<Rightarrow> int \<Rightarrow> int \<Rightarrow> int \<Rightarrow> ('h, 'l) machine \<Rightarrow> ('h, 'l) handled" where
  "execute_memory_init ev dst src len m =
     ex_then (get_stack_slot dst m) (\<lambda>d.
     ex_then (get_stack_slot src m) (\<lambda>s.
     ex_then (get_stack_slot len m) (\<lambda>n.
       if \<not> fits_usize (ev_target ev) d then traps MemoryOutOfBounds m
       else
         ex_then (fetch_index memory_index 1 m) (\<lambda>i.
         ex_then (fetch_index data_index 2 m) (\<lambda>j.
         ex_then (get_entity ie_memories i m) (\<lambda>h.
         ex_then (get_entity ie_data_segments j m) (\<lambda>hd.
         ex_then (data_of hd m) (\<lambda>seg.
         ex_then (memory_of h m) (\<lambda>mem.
           then_next 3 (bytes_done h (exec_memory_init (ev_target ev) d (read_as32 s) (read_as32 n)
             (mem_data mem) (data_segment_bytes seg) (so_fuel (m_store m))) m))))))))))"

section \<open>Tables\<close>

definition execute_table_get_impl ::
  "('h, 'l) engine_env \<Rightarrow> int \<Rightarrow> u64 \<Rightarrow> ('h, 'l) machine \<Rightarrow> ('h, 'l) handled" where
  "execute_table_get_impl ev result i m =
     ex_then (fetch_index table_index 1 m) (\<lambda>t.
     ex_then (get_entity ie_tables t m) (\<lambda>h.
     ex_then (table_of h m) (\<lambda>tab. case exec_table_get (ev_target ev) i tab of
       Inl e \<Rightarrow> Done (Inl (e, m))
     | Inr v \<Rightarrow> then_next 2 (goes_on (set_stack_slot result v m)))))"

definition execute_table_get ::
  "('h, 'l) engine_env \<Rightarrow> int \<Rightarrow> int \<Rightarrow> ('h, 'l) machine \<Rightarrow> ('h, 'l) handled" where
  "execute_table_get ev result i m =
     ex_then (get_stack_slot i m) (\<lambda>i. execute_table_get_impl ev result (read_as64 i) m)"

definition execute_table_size_impl :: "int \<Rightarrow> nat \<Rightarrow> ('h, 'l) machine \<Rightarrow> ('h, 'l) machine exec" where
  "execute_table_size_impl result t m =
     ex_then (get_entity ie_tables t m) (\<lambda>h.
     ex_then (table_of h m) (\<lambda>tab. set_stack_slot result (exec_table_size tab) m))"

definition execute_table_set_impl ::
  "('h, 'l) engine_env \<Rightarrow> u64 \<Rightarrow> int \<Rightarrow> ('h, 'l) machine \<Rightarrow> ('h, 'l) handled" where
  "execute_table_set_impl ev i v m =
     ex_then (fetch_index table_index 1 m) (\<lambda>t.
     ex_then (get_entity ie_tables t m) (\<lambda>h.
     ex_then (get_stack_slot v m) (\<lambda>x.
     ex_then (table_of h m) (\<lambda>tab. case exec_table_set (ev_target ev) i x tab of (r, tab) \<Rightarrow>
       then_next 2 (table_done h (r, tab, None) m)))))"

definition execute_table_set ::
  "('h, 'l) engine_env \<Rightarrow> int \<Rightarrow> int \<Rightarrow> ('h, 'l) machine \<Rightarrow> ('h, 'l) handled" where
  "execute_table_set ev i v m =
     ex_then (get_stack_slot i m) (\<lambda>i. execute_table_set_impl ev (read_as64 i) v m)"

definition execute_table_copy ::
  "('h, 'l) engine_env \<Rightarrow> int \<Rightarrow> int \<Rightarrow> int \<Rightarrow> ('h, 'l) machine \<Rightarrow> ('h, 'l) handled" where
  "execute_table_copy ev dst src len m =
     ex_then (get_stack_slot dst m) (\<lambda>d.
     ex_then (get_stack_slot src m) (\<lambda>s.
     ex_then (get_stack_slot len m) (\<lambda>n.
     ex_then (fetch_index table_index 1 m) (\<lambda>dst_table.
     ex_then (fetch_index table_index 2 m) (\<lambda>src_table.
       if dst_table = src_table then
         ex_then (get_entity ie_tables dst_table m) (\<lambda>h.
         ex_then (table_of h m) (\<lambda>tab.
         ex_then (ex_of_outcome (exec_table_copy_within (ev_target ev) d s n tab (so_fuel (m_store m))))
           (\<lambda>r. then_next 3 (table_done h r m))))
       else
         ex_then (get_entity ie_tables dst_table m) (\<lambda>hd.
         ex_then (get_entity ie_tables src_table m) (\<lambda>hs.
         ex_then (distinct_pair hd hs) (\<lambda>_.
         ex_then (table_of hd m) (\<lambda>dst_tab.
         ex_then (table_of hs m) (\<lambda>src_tab.
         ex_then (ex_of_outcome (exec_table_copy (ev_target ev) d s n src_tab dst_tab (so_fuel (m_store m))))
           (\<lambda>r. then_next 3 (table_done hd r m))))))))))))"

definition execute_table_init ::
  "('h, 'l) engine_env \<Rightarrow> int \<Rightarrow> int \<Rightarrow> int \<Rightarrow> ('h, 'l) machine \<Rightarrow> ('h, 'l) handled" where
  "execute_table_init ev dst src len m =
     ex_then (get_stack_slot dst m) (\<lambda>d.
     ex_then (get_stack_slot src m) (\<lambda>s.
     ex_then (get_stack_slot len m) (\<lambda>n.
     ex_then (fetch_index table_index 1 m) (\<lambda>t.
     ex_then (fetch_index elem_index 2 m) (\<lambda>j.
     ex_then (get_entity ie_tables t m) (\<lambda>h.
     ex_then (get_entity ie_elem_segments j m) (\<lambda>he.
     ex_then (element_of he m) (\<lambda>seg.
     ex_then (table_of h m) (\<lambda>tab.
     ex_then (ex_of_outcome (exec_table_init (ev_target ev) d (read_as32 s) (read_as32 n) seg tab (so_fuel (m_store m))))
       (\<lambda>r. then_next 3 (table_done h r m)))))))))))"

definition execute_table_fill ::
  "('h, 'l) engine_env \<Rightarrow> int \<Rightarrow> int \<Rightarrow> int \<Rightarrow> ('h, 'l) machine \<Rightarrow> ('h, 'l) handled" where
  "execute_table_fill ev dst len v m =
     ex_then (get_stack_slot dst m) (\<lambda>d.
     ex_then (get_stack_slot len m) (\<lambda>n.
     ex_then (fetch_index table_index 1 m) (\<lambda>t.
     ex_then (get_stack_slot v m) (\<lambda>x.
     ex_then (get_entity ie_tables t m) (\<lambda>h.
     ex_then (table_of h m) (\<lambda>tab.
     ex_then (ex_of_outcome (exec_table_fill (ev_target ev) d n x tab (so_fuel (m_store m))))
       (\<lambda>r. then_next 2 (table_done h r m))))))))"

definition execute_table_grow ::
  "('h, 'l) engine_env \<Rightarrow> int \<Rightarrow> int \<Rightarrow> int \<Rightarrow> ('h, 'l) machine \<Rightarrow> ('h, 'l) handled" where
  "execute_table_grow ev result delta v m =
     ex_then (get_stack_slot delta m) (\<lambda>d.
     ex_then (fetch_index table_index 1 m) (\<lambda>t.
       if read_as64 d = 0 then then_next 2 (goes_on (execute_table_size_impl result t m))
       else
         ex_then (get_entity ie_tables t m) (\<lambda>h.
         ex_then (get_stack_slot v m) (\<lambda>x.
         ex_then (table_of h m) (\<lambda>tab.
         ex_then (ex_of_outcome (exec_table_grow (ev_target ev) (ev_alloc ev) (so_limiter (m_store m))
                    (read_as64 d) x tab (so_fuel (m_store m)) (so_limiter_state (m_store m))))
           (\<lambda>(r, tab, fu, l).
              let m = with_limiter_state l (with_table_at h tab (with_fuel_option fu m)) in
              case r of
                Inl e \<Rightarrow> Done (Inl (e, m))
              | Inr n \<Rightarrow> then_next 2 (goes_on (set_stack_slot result n m))))))))"

definition execute_element_drop :: "nat \<Rightarrow> ('h, 'l) machine \<Rightarrow> ('h, 'l) machine exec" where
  "execute_element_drop i m =
     ex_then (get_entity ie_elem_segments i m) (\<lambda>h.
     ex_then (element_of h m) (\<lambda>s.
       Done (next_instr (m\<lparr>m_store := (m_store m)\<lparr>so_elems := (so_elems (m_store m))[snd h := exec_element_drop s]\<rparr>\<rparr>))))"

fun execute_bulk :: "('h, 'l) engine_env \<Rightarrow> bulk_instr \<Rightarrow> ('h, 'l) machine \<Rightarrow> ('h, 'l) handled" where
  "execute_bulk ev (TableGet r i) m = execute_table_get ev r i m"
| "execute_bulk ev (TableGetImm r i) m = execute_table_get_impl ev r i m"
| "execute_bulk ev (TableSize r t) m = then_next 1 (goes_on (execute_table_size_impl r t m))"
| "execute_bulk ev (TableSet i v) m = execute_table_set ev i v m"
| "execute_bulk ev (TableSetAt i v) m = execute_table_set_impl ev i v m"
| "execute_bulk ev (TableCopy d s n) m = execute_table_copy ev d s n m"
| "execute_bulk ev (TableInit d s n) m = execute_table_init ev d s n m"
| "execute_bulk ev (TableFill d n v) m = execute_table_fill ev d n v m"
| "execute_bulk ev (TableGrow r d v) m = execute_table_grow ev r d v m"
| "execute_bulk ev (ElemDrop i) m = goes_on (execute_element_drop i m)"
| "execute_bulk ev (DataDrop i) m = goes_on (execute_data_drop i m)"
| "execute_bulk ev (MemorySize r i) m = then_next 1 (goes_on (execute_memory_size_impl r i m))"
| "execute_bulk ev (MemoryGrow r d) m = execute_memory_grow ev r d m"
| "execute_bulk ev (MemoryCopy d s n) m = execute_memory_copy ev d s n m"
| "execute_bulk ev (MemoryFill d v n) m = execute_memory_fill ev d v n m"
| "execute_bulk ev (MemoryFillImm d v n) m = execute_memory_fill_imm ev d v n m"
| "execute_bulk ev (MemoryInit d s n) m = execute_memory_init ev d s n m"

end
