(* ===== verification/Machine_Calls.thy ===== *)
theory Machine_Calls
  imports Machine_Bulk
begin

text \<open>
  Calls and returns (\<open>patches/wasmi/src/engine/executor/instrs/call.rs\<close>, \<open>return_.rs\<close>): nested
  and tail calls to compiled functions, to imported and indirect ones, and to the host; the
  results a return leaves in the registers of the caller; and one step and one run of the
  dispatch loop over all instructions (\<open>instrs.rs\<close>, \<open>executor/mod.rs\<close>).
\<close>

section \<open>Returning\<close>

datatype control = Go_On | Break

text \<open>The new instance, if the frame that returns had its own: the one below it.\<close>

definition restore_instance :: "handle option \<Rightarrow> ('h, 'l) machine \<Rightarrow> ('h, 'l) machine" where
  "restore_instance popped m =
     (case popped of
        None \<Rightarrow> m
      | Some _ \<Rightarrow> (case cs_instance (m_calls m) of None \<Rightarrow> m | Some i \<Rightarrow> m\<lparr>m_instance := i\<rparr>))"

definition return_impl :: "('h, 'l) machine \<Rightarrow> (control \<times> ('h, 'l) machine) exec" where
  "return_impl m =
     (case cs_pop (m_calls m) of
        (None, _) \<Rightarrow> Aborts
      | (Some (returned, popped), calls) \<Rightarrow>
          ex_then (vs_truncate (cf_frame returned) (m_values m)) (\<lambda>vs.
            let m = restore_instance popped (with_calls calls (with_values vs m))
            in case cs_peek (m_calls m) of
                 Some caller \<Rightarrow> Done (Go_On, init_call_frame caller m)
               | None \<Rightarrow> Done (Break, m)))"

text \<open>
  The registers results go to: those of the caller, or the first cells of the stack for the root.
\<close>

definition return_caller_results :: "('h, 'l) machine \<Rightarrow> (frame_slots \<times> int) exec" where
  "return_caller_results m =
     (case cs_peek_2 (m_calls m) of
        None \<Rightarrow> Aborts
      | Some (callee, Some caller) \<Rightarrow> Done (stack_ptr_at (m_values m) (cf_base caller), cf_results callee)
      | Some (callee, None) \<Rightarrow> Done (root_stack_ptr (m_values m), 0))"

fun write_slots :: "frame_slots \<Rightarrow> int \<Rightarrow> untyped_val list \<Rightarrow> value_stack \<Rightarrow> value_stack exec" where
  "write_slots sp result [] vs = Done vs"
| "write_slots sp result (v # vals) vs =
     ex_then (slots_set sp result v vs) (\<lambda>vs. write_slots sp (result + 1) vals vs)"

definition execute_return_value ::
  "untyped_val \<Rightarrow> ('h, 'l) machine \<Rightarrow> (control \<times> ('h, 'l) machine) exec" where
  "execute_return_value v m =
     ex_then (return_caller_results m) (\<lambda>(caller_sp, results).
     ex_then (slots_set caller_sp results v (m_values m)) (\<lambda>vs. return_impl (with_values vs m)))"

text \<open>Values are read from the callee and written to the caller one after the other.\<close>

fun return_slots ::
  "frame_slots \<Rightarrow> int \<Rightarrow> int list \<Rightarrow> ('h, 'l) machine \<Rightarrow> ('h, 'l) machine exec" where
  "return_slots caller_sp result [] m = Done m"
| "return_slots caller_sp result (v # vs) m =
     ex_then (get_stack_slot v m) (\<lambda>x.
     ex_then (slots_set caller_sp result x (m_values m)) (\<lambda>vals.
       return_slots caller_sp (result + 1) vs (with_values vals m)))"

definition execute_return_reg_n ::
  "int list \<Rightarrow> ('h, 'l) machine \<Rightarrow> (control \<times> ('h, 'l) machine) exec" where
  "execute_return_reg_n vals m =
     ex_then (return_caller_results m) (\<lambda>(caller_sp, results).
     ex_then (return_slots caller_sp results vals m) return_impl)"

definition execute_return_many ::
  "int list \<Rightarrow> ('h, 'l) machine \<Rightarrow> (control \<times> ('h, 'l) machine) exec" where
  "execute_return_many vals m =
     (let m = next_instr m in
      ex_then (slots_from (m_ip m)) (\<lambda>(slots, _). execute_return_reg_n (vals @ slots) m))"

fun execute_returns :: "return_instr \<Rightarrow> ('h, 'l) machine \<Rightarrow> (control \<times> ('h, 'l) machine) exec" where
  "execute_returns Return m = return_impl m"
| "execute_returns (ReturnSlot v) m = ex_then (return_caller_results m) (\<lambda>_.
     ex_then (get_stack_slot v m) (\<lambda>x. execute_return_value x m))"
| "execute_returns (ReturnSlot2 a b) m = execute_return_reg_n [a, b] m"
| "execute_returns (ReturnSlot3 a b c) m = execute_return_reg_n [a, b, c] m"
| "execute_returns (ReturnImm32 c) m = execute_return_value (ucast c) m"
| "execute_returns (ReturnI64Imm32 c) m = execute_return_value c m"
| "execute_returns (ReturnF64Imm32 c) m = execute_return_value c m"
| "execute_returns (ReturnSpan head len) m = execute_return_reg_n (span_slots head len) m"
| "execute_returns (ReturnMany a b c) m = execute_return_many [a, b, c] m"

section \<open>Calling compiled functions\<close>

datatype call_kind = Nested | Tail

definition update_instr_ptr_at :: "nat \<Rightarrow> ('h, 'l) machine \<Rightarrow> ('h, 'l) machine exec" where
  "update_instr_ptr_at offset m =
     (let m = next_instr_at offset m in
      case cs_peek (m_calls m) of
        None \<Rightarrow> Aborts
      | Some _ \<Rightarrow> Done (with_calls (cs_update_top (update_instr_ptr (m_ip m)) (m_calls m)) m))"

fun copy_regs ::
  "int list \<Rightarrow> frame_params \<Rightarrow> ('h, 'l) machine \<Rightarrow> (frame_params \<times> ('h, 'l) machine) exec" where
  "copy_regs [] fr m = Done (fr, m)"
| "copy_regs (s # ss) fr m =
     ex_then (get_stack_slot s m) (\<lambda>v.
     ex_then (init_next v fr (m_values m)) (\<lambda>(fr, vs). copy_regs ss fr (with_values vs m)))"

text \<open>The instruction pointer ends on the last word of the parameters.\<close>

definition copy_call_params ::
  "frame_params \<Rightarrow> ('h, 'l) machine \<Rightarrow> (frame_params \<times> ('h, 'l) machine) exec" where
  "copy_call_params fr m =
     (let m = next_instr m in
      ex_then (slots_from (m_ip m)) (\<lambda>(slots, n). copy_regs slots fr (next_instr_at n m)))"

text \<open>The pointer to the registers is renewed when the value stack moved.\<close>

definition renew_sp :: "instr call_frame \<Rightarrow> value_stack \<Rightarrow> frame_slots \<Rightarrow> frame_slots" where
  "renew_sp caller vs sp = stack_ptr_at vs (cf_base caller)"

definition dispatch_compiled_func ::
  "('h, 'l) engine_env \<Rightarrow> bool \<Rightarrow> int \<Rightarrow> instr compiled_func \<Rightarrow> ('h, 'l) machine \<Rightarrow>
   ((error_kind + instr call_frame) \<times> ('h, 'l) machine) exec" where
  "dispatch_compiled_func ev has_params results func m =
     (case cs_peek (m_calls m) of
        None \<Rightarrow> Aborts
      | Some caller \<Rightarrow>
          ex_then (alloc_call_frame (ev_target ev) (ev_grow ev) func (renew_sp caller) (m_values m, m_sp m))
            (\<lambda>(r, vs, sp).
              let m = (with_values vs m)\<lparr>m_sp := sp\<rparr> in
              case r of
                Inl e \<Rightarrow> Done (Inl (EK_TrapCode e), m)
              | Inr (uninit_params, offsets) \<Rightarrow>
                  ex_then (if has_params then copy_call_params uninit_params m else Done (uninit_params, m))
                    (\<lambda>(uninit_params, m).
                  ex_then (init_zeroes uninit_params (m_values m)) (\<lambda>vs.
                    Done (Inr (call_frame_new (ip_new (cfn_instrs func)) offsets results),
                          with_values vs m)))))"

definition prepare_compiled_func_call ::
  "('h, 'l) engine_env \<Rightarrow> call_kind \<Rightarrow> bool \<Rightarrow> int \<Rightarrow> nat \<Rightarrow> handle option \<Rightarrow> ('h, 'l) machine \<Rightarrow>
   ('h, 'l) handled" where
  "prepare_compiled_func_call ev kind has_params results func inst m =
     (case ev_code ev func (so_fuel (m_store m)) of
        (Inl e, fu) \<Rightarrow> Done (Inl (e, m\<lparr>m_store := (m_store m)\<lparr>so_fuel := fu\<rparr>\<rparr>))
      | (Inr code, fu) \<Rightarrow>
          ex_then (dispatch_compiled_func ev has_params results code
                     (m\<lparr>m_store := (m_store m)\<lparr>so_fuel := fu\<rparr>\<rparr>)) (\<lambda>(r, m).
            case r of
              Inl e \<Rightarrow> Done (Inl (e, m))
            | Inr called \<Rightarrow>
                ex_then
                  (case kind of
                     Nested \<Rightarrow> ex_then (update_instr_ptr_at 1 m) (\<lambda>m. Done (called, inst, m))
                   | Tail \<Rightarrow>
                       ex_then (merge_call_frames called (m_stack m)) (\<lambda>(called, caller_inst, sk).
                         Done (called, (case inst of Some i \<Rightarrow> Some i | None \<Rightarrow> caller_inst),
                               m\<lparr>m_stack := sk\<rparr>)))
                  (\<lambda>(called, inst, m).
                     let m = init_call_frame called m in
                     (case cs_push called inst (m_calls m) of
                        (Inl e, cs) \<Rightarrow> traps e (with_calls cs m)
                      | (Inr _, cs) \<Rightarrow> Done (Inr (with_calls cs m))))))"

definition caller_results :: "('h, 'l) machine \<Rightarrow> int exec" where
  "caller_results m =
     (case cs_peek (m_calls m) of None \<Rightarrow> Aborts | Some f \<Rightarrow> Done (cf_results f))"

section \<open>Calling the host\<close>

text \<open>
  \<open>dispatch_host_func\<close>: the last cells of the value stack hold the parameters and take the
  results. Unwritten parameters are not to be read; a host function answers as many results
  as its type says.
\<close>

definition dispatch_host_func ::
  "('h, 'l) engine_env \<Rightarrow> host_func_entity \<Rightarrow> handle option \<Rightarrow> value_stack \<Rightarrow> ('h, 'l) store \<Rightarrow>
   ((error_kind + unit) \<times> value_stack \<times> ('h, 'l) store) exec" where
  "dispatch_host_func ev hf inst vs st =
     (let len_params = unat (hfe_len_params hf);
          len_results = unat (hfe_len_results hf);
          max_inout = max len_params len_results
      in if vs_len vs < max_inout then Aborts
         else
           let start = vs_len vs - max_inout;
               params = take len_params (drop start (vs_values vs))
           in if None \<in> set params then Undefined
              else case ev_host ev hf inst (map the params) st of
                (None, st) \<Rightarrow> Aborts
              | (Some (Inl e), st) \<Rightarrow>
                  ex_then (vs_drop max_inout vs) (\<lambda>vs. Done (Inl e, vs, st))
              | (Some (Inr results), st) \<Rightarrow>
                  if length results \<noteq> len_results then Aborts
                  else Done (Inr (),
                    vs\<lparr>vs_values := take start (vs_values vs) @ map Some results
                                   @ drop (start + len_results) (vs_values vs)\<rparr>, st))"

definition take_results :: "nat \<Rightarrow> untyped_val option list \<Rightarrow> untyped_val list exec" where
  "take_results n cells =
     (if None \<in> set (take n cells) then Undefined else Done (map the (take n cells)))"

text \<open>After a tail call to the host: the results go where the caller's own were to go.\<close>

definition finish_host_tail ::
  "instr call_frame \<Rightarrow> handle option \<Rightarrow> nat \<Rightarrow> nat \<Rightarrow> int \<Rightarrow> ('h, 'l) machine \<Rightarrow> (control \<times> ('h, 'l) machine) exec" where
  "finish_host_tail caller popped max_inout len_results results m =
     (let (regs, cf) = (case cs_peek (m_calls m) of
            Some frame \<Rightarrow> (stack_ptr_at (m_values m) (cf_base frame), Go_On)
          | None \<Rightarrow> (root_stack_ptr (m_values m), Break))
      in ex_then (vs_drop_return max_inout (m_values m)) (\<lambda>(returned, vs).
         ex_then (take_results len_results returned) (\<lambda>vals.
         ex_then (write_slots regs results vals vs) (\<lambda>vs.
         ex_then (vs_truncate (cf_frame caller) vs) (\<lambda>vs.
           let m = restore_instance popped (with_values vs m)
           in Done (cf, case cs_peek (m_calls m) of Some f \<Rightarrow> init_call_frame f m | None \<Rightarrow> m))))))"

definition execute_host_func ::
  "('h, 'l) engine_env \<Rightarrow> call_kind \<Rightarrow> bool \<Rightarrow> int option \<Rightarrow> host_func_entity \<Rightarrow> ('h, 'l) machine \<Rightarrow>
   ((error_kind + control) \<times> ('h, 'l) machine) exec" where
  "execute_host_func ev kind has_params results hf m =
     (let len_params = unat (hfe_len_params hf);
          len_results = unat (hfe_len_results hf);
          max_inout = max len_params len_results
      in case cs_instance (m_calls m) of None \<Rightarrow> Aborts | Some inst \<Rightarrow>
         (case (case kind of
             Nested \<Rightarrow> (map_option (\<lambda>f. (f, None)) (cs_peek (m_calls m)), m_calls m)
           | Tail \<Rightarrow> cs_pop (m_calls m)) of
            (None, _) \<Rightarrow> Aborts
          | (Some (caller, popped), calls) \<Rightarrow>
              let m = with_calls calls m in
              ex_then (extend_by (ev_target ev) (ev_grow ev) max_inout (renew_sp caller) (m_values m, m_sp m))
                (\<lambda>(r, vs, sp).
                  let m = (with_values vs m)\<lparr>m_sp := sp\<rparr> in
                  case r of
                    Inl e \<Rightarrow> Done (Inl (EK_TrapCode e), m)
                  | Inr buffer \<Rightarrow>
                      ex_then (if has_params then copy_call_params buffer m else Done (buffer, m)) (\<lambda>(_, m).
                      ex_then (if kind = Nested then update_instr_ptr_at 1 m else Done m) (\<lambda>m.
                      let results = (case results of Some r \<Rightarrow> r | None \<Rightarrow> cf_results caller) in
                      ex_then (dispatch_host_func ev hf (Some inst) (m_values m) (m_store m)) (\<lambda>(r, vs, st).
                        let m = (with_values vs m)\<lparr>m_store := st\<rparr> in
                        case r of
                          Inl e \<Rightarrow>
                            Done (Inl (if cs_frames (m_calls m) = [] then e else EK_ResumableHostTrap e), m)
                        | Inr _ \<Rightarrow>
                            (let m = m\<lparr>m_instance := inst\<rparr> in
                             case kind of
                               Nested \<Rightarrow>
                                 ex_then (vs_drop_return max_inout (m_values m)) (\<lambda>(returned, vs).
                                 ex_then (take_results len_results returned) (\<lambda>vals.
                                 ex_then (write_slots (m_sp m) results vals vs) (\<lambda>vs.
                                   Done (Inr Go_On, with_values vs m))))
                             | Tail \<Rightarrow>
                                 ex_then (finish_host_tail caller popped max_inout len_results results m)
                                   (\<lambda>(cf, m). Done (Inr cf, m)))))))))"

section \<open>Imported and indirect calls\<close>

definition execute_call_imported_impl ::
  "('h, 'l) engine_env \<Rightarrow> call_kind \<Rightarrow> bool \<Rightarrow> int option \<Rightarrow> handle \<Rightarrow> ('h, 'l) machine \<Rightarrow>
   ((error_kind + control) \<times> ('h, 'l) machine) exec" where
  "execute_call_imported_impl ev kind has_params results func m =
     ex_then (ex_of_outcome (resolve_func (m_store m) func)) (\<lambda>f. case f of
       WasmFunc w \<Rightarrow>
         ex_then (case results of Some r \<Rightarrow> Done r | None \<Rightarrow> caller_results m) (\<lambda>results.
         ex_then (prepare_compiled_func_call ev kind has_params results (wfe_body w) (Some (wfe_instance w)) m)
           (\<lambda>r. case r of
              Inl (e, m) \<Rightarrow> Done (Inl e, m)
            | Inr m \<Rightarrow> Done (Inr Go_On, m\<lparr>m_instance := wfe_instance w\<rparr>)))
     | HostFunc h \<Rightarrow> execute_host_func ev kind has_params results h m)"

definition pull_call_indirect_params :: "('h, 'l) machine \<Rightarrow> (u64 \<times> nat \<times> ('h, 'l) machine) exec" where
  "pull_call_indirect_params m =
     (let m = next_instr m in
      ex_then (param_at 0 m) (\<lambda>p. case p of
        Some (CallIndirectParams i table) \<Rightarrow> ex_then (get_stack_slot i m) (\<lambda>v. Done (read_as64 v, table, m))
      | _ \<Rightarrow> Undefined))"

definition pull_call_indirect_params_imm16 :: "('h, 'l) machine \<Rightarrow> (u64 \<times> nat \<times> ('h, 'l) machine) exec" where
  "pull_call_indirect_params_imm16 m =
     (let m = next_instr m in
      ex_then (param_at 0 m) (\<lambda>p. case p of
        Some (CallIndirectParamsImm16 i table) \<Rightarrow> Done (i, table, m)
      | _ \<Rightarrow> Undefined))"

definition execute_call_indirect_impl ::
  "('h, 'l) engine_env \<Rightarrow> call_kind \<Rightarrow> bool \<Rightarrow> int option \<Rightarrow> nat \<Rightarrow> u64 \<Rightarrow> nat \<Rightarrow> ('h, 'l) machine \<Rightarrow>
   ((error_kind + control) \<times> ('h, 'l) machine) exec" where
  "execute_call_indirect_impl ev kind has_params results func_type i table m =
     ex_then (get_entity ie_tables table m) (\<lambda>table.
     ex_then (ex_of_outcome (resolve_table (m_store m) table)) (\<lambda>tab.
       case table_get_untyped (ev_target ev) i tab of
         None \<Rightarrow> Done (Inl (EK_TrapCode TableOutOfBounds), m)
       | Some u \<Rightarrow> (case ref_of_untyped (ev_layout ev) u of
           None \<Rightarrow> Done (Inl (EK_TrapCode IndirectCallToNull), m)
         | Some func \<Rightarrow>
             ex_then (ex_of_outcome (resolve_func (m_store m) func)) (\<lambda>f.
             ex_then (get_entity ie_func_types func_type m) (\<lambda>expected_signature.
               if func_entity_ty f \<noteq> expected_signature
               then Done (Inl (EK_TrapCode BadSignature), m)
               else execute_call_imported_impl ev kind has_params results func m)))))"

text \<open>
  Every call instruction: the results are the caller's own for a tail call.
\<close>

fun execute_call ::
  "('h, 'l) engine_env \<Rightarrow> call_kind \<Rightarrow> int option \<Rightarrow> call_target \<Rightarrow> bool \<Rightarrow> ('h, 'l) machine \<Rightarrow>
   ((error_kind + control) \<times> ('h, 'l) machine) exec" where
  "execute_call ev kind results (Internal func) has_params m =
     ex_then (case results of Some r \<Rightarrow> Done r | None \<Rightarrow> caller_results m) (\<lambda>results.
     ex_then (prepare_compiled_func_call ev kind has_params results func None m) (\<lambda>r. case r of
       Inl (e, m) \<Rightarrow> Done (Inl e, m)
     | Inr m \<Rightarrow> Done (Inr Go_On, m)))"
| "execute_call ev kind results (Imported i) has_params m =
     ex_then (get_entity ie_funcs i m) (\<lambda>func.
       execute_call_imported_impl ev kind has_params results func m)"
| "execute_call ev kind results (Indirect func_type) has_params m =
     ex_then (pull_call_indirect_params m) (\<lambda>(i, table, m).
       execute_call_indirect_impl ev kind has_params results func_type i table m)"
| "execute_call ev kind results (IndirectImm16 func_type) has_params m =
     ex_then (pull_call_indirect_params_imm16 m) (\<lambda>(i, table, m).
       execute_call_indirect_impl ev kind has_params results func_type i table m)"

section \<open>One instruction\<close>

datatype ('h, 'l) step_result =
    Goes_On "('h, 'l) machine"
  | Finishes "('h, 'l) machine"
  | Fails error_kind "('h, 'l) machine"

definition of_machine :: "('h, 'l) machine exec \<Rightarrow> ('h, 'l) step_result exec" where
  "of_machine r = ex_then r (\<lambda>m. Done (Goes_On m))"

definition of_handled :: "('h, 'l) handled \<Rightarrow> ('h, 'l) step_result exec" where
  "of_handled r = ex_then r (\<lambda>x. Done (case x of Inl (e, m) \<Rightarrow> Fails e m | Inr m \<Rightarrow> Goes_On m))"

definition of_control :: "control \<Rightarrow> ('h, 'l) machine \<Rightarrow> ('h, 'l) step_result" where
  "of_control c m = (case c of Go_On \<Rightarrow> Goes_On m | Break \<Rightarrow> Finishes m)"

definition of_called :: "((error_kind + control) \<times> ('h, 'l) machine) exec \<Rightarrow> ('h, 'l) step_result exec" where
  "of_called r = ex_then r (\<lambda>(x, m). Done (case x of Inl e \<Rightarrow> Fails e m | Inr c \<Rightarrow> of_control c m))"

definition execute_consume_fuel :: "u64 \<Rightarrow> ('h, 'l) machine \<Rightarrow> ('h, 'l) step_result" where
  "execute_consume_fuel block_fuel m =
     (case consume_fuel_unchecked block_fuel (so_fuel (m_store m)) of
        (r, fu) \<Rightarrow>
          (let m = m\<lparr>m_store := (m_store m)\<lparr>so_fuel := fu\<rparr>\<rparr>
           in case r of Inl e \<Rightarrow> Fails (EK_Fuel e) m | Inr _ \<Rightarrow> Goes_On (next_instr m)))"

fun execute_instr :: "('h, 'l) engine_env \<Rightarrow> instr \<Rightarrow> ('h, 'l) machine \<Rightarrow> ('h, 'l) step_result exec" where
  "execute_instr ev (ITrap trap_code) m = Done (Fails (EK_TrapCode trap_code) m)"
| "execute_instr ev (IConsumeFuel block_fuel) m = Done (execute_consume_fuel block_fuel m)"
| "execute_instr ev (IReturn r) m =
     ex_then (execute_returns r m) (\<lambda>(c, m). Done (of_control c m))"
| "execute_instr ev (IBranch b) m = of_machine (execute_branches ev b m)"
| "execute_instr ev (ICopy c) m = of_machine (execute_copies c m)"
| "execute_instr ev (ICall results target has_params) m =
     of_called (execute_call ev Nested (Some results) target has_params m)"
| "execute_instr ev (IReturnCall target has_params) m =
     of_called (execute_call ev Tail None target has_params m)"
| "execute_instr ev (IGlobal g) m = of_machine (execute_globals ev g m)"
| "execute_instr ev (IMemory mi) m = of_handled (execute_memory ev mi m)"
| "execute_instr ev (IBulk b) m = of_handled (execute_bulk ev b m)"
| "execute_instr ev (ICompute c) m = of_handled (execute_compute ev c m)"
| "execute_instr ev (IParam _) m = Undefined"

definition step :: "('h, 'l) engine_env \<Rightarrow> ('h, 'l) machine \<Rightarrow> ('h, 'l) step_result exec" where
  "step ev m = ex_then (ip_get (m_ip m)) (\<lambda>i. execute_instr ev i m)"

end
