(* ===== verification/Code_Contract.thy ===== *)
theory Code_Contract
  imports Machine_Calls
begin

text \<open>
  What the unsafe machine relies on: the contract between the translator, which the comments of the
  interpreter name as the guarantee behind each unchecked access, and the machine. A predicate
  on the code of a function says that every register, parameter word, branch target and index it
  names exists; an invariant of the machine says that the stacks, the pointers and the
  current instance belong together.
\<close>

section \<open>What a module offers its code\<close>

text \<open>
  Numbers of parameters and results of the functions and types, and how many globals, memories,
  tables and segments there are. The contract of a body names the shape of the module it belongs to and its
  own arity; what else the translator promises of the code, if anything, is its \<open>cx_promise\<close>.
\<close>

record shape =
  sh_funcs :: "(nat \<times> nat) list"
  sh_types :: "(nat \<times> nat) list"
  sh_globals :: nat
  sh_memories :: nat
  sh_tables :: nat
  sh_datas :: nat
  sh_elems :: nat

record contract =
  cx_arity :: "nat \<Rightarrow> nat \<times> nat"
  cx_shape :: "nat \<Rightarrow> shape"
  cx_promise :: "instr compiled_func \<Rightarrow> bool"

section \<open>Code\<close>

definition start :: "instr list \<Rightarrow> int \<Rightarrow> bool" where
  "start c q \<longleftrightarrow> 0 \<le> q \<and> q < int (length c) \<and> (\<forall>w. c ! nat q \<noteq> IParam w)"

definition word_at :: "instr list \<Rightarrow> int \<Rightarrow> param_word option" where
  "word_at c q =
     (if 0 \<le> q \<and> q < int (length c) then (case c ! nat q of IParam w \<Rightarrow> Some w | _ \<Rightarrow> None) else None)"

text \<open>Registers a function may read, which include its constants, and those it may write.\<close>

record regs =
  rg_consts :: nat
  rg_slots :: nat

definition rd :: "regs \<Rightarrow> int \<Rightarrow> bool" where
  "rd g s \<longleftrightarrow> - int (rg_consts g) \<le> s \<and> s < int (rg_slots g) - int (rg_consts g)"

definition wr :: "regs \<Rightarrow> int \<Rightarrow> bool" where
  "wr g s \<longleftrightarrow> 0 \<le> s \<and> s < int (rg_slots g) - int (rg_consts g)"

lemma wr_rd: "wr g s \<Longrightarrow> rd g s"
  by (simp add: wr_def rd_def)

definition slots_after :: "instr list \<Rightarrow> int \<Rightarrow> (int list \<times> nat) option" where
  "slots_after c q = (if 0 \<le> q then slot_words (drop (nat q) c) else None)"

fun return_ok :: "instr list \<Rightarrow> int \<Rightarrow> regs \<Rightarrow> nat \<Rightarrow> return_instr \<Rightarrow> bool" where
  "return_ok c p g k Return = (k = 0)"
| "return_ok c p g k (ReturnSlot a) = (k = 1 \<and> rd g a)"
| "return_ok c p g k (ReturnSlot2 a b) = (k = 2 \<and> rd g a \<and> rd g b)"
| "return_ok c p g k (ReturnSlot3 a b d) = (k = 3 \<and> rd g a \<and> rd g b \<and> rd g d)"
| "return_ok c p g k (ReturnImm32 _) = (k = 1)"
| "return_ok c p g k (ReturnI64Imm32 _) = (k = 1)"
| "return_ok c p g k (ReturnF64Imm32 _) = (k = 1)"
| "return_ok c p g k (ReturnSpan head len) = (k = len \<and> list_all (rd g) (span_slots head len))"
| "return_ok c p g k (ReturnMany a b d) =
     (case slots_after c (p + 1) of
        None \<Rightarrow> False
      | Some (ss, _) \<Rightarrow> k = 3 + length ss \<and> list_all (rd g) ([a, b, d] @ ss))"

definition table_target_ok :: "instr list \<Rightarrow> regs \<Rightarrow> nat \<Rightarrow> int \<Rightarrow> bool" where
  "table_target_ok c g len q =
     (case word_at c q of
        Some (BranchTableTarget results offset) \<Rightarrow>
          start c (q + offset) \<and> list_all (wr g) (span_slots results len)
      | _ \<Rightarrow> False)"

text \<open>The parameters of a fallback comparison are one of the constants.\<close>

fun branch_ok ::
  "(u64 \<Rightarrow> (comparator \<times> int) option) \<Rightarrow> instr list \<Rightarrow> int \<Rightarrow> regs \<Rightarrow> untyped_val list \<Rightarrow> branch_instr \<Rightarrow> bool" where
  "branch_ok cmp_of c p g cs (Branch off) = start c (p + off)"
| "branch_ok cmp_of c p g cs (BranchTable0 i n) =
     (rd g i \<and> n \<noteq> 0 \<and> list_all (\<lambda>j. start c (p + 1 + int j)) [0..<unat n])"
| "branch_ok cmp_of c p g cs (BranchTableSpan i n) =
     (rd g i \<and> n \<noteq> 0 \<and> (case word_at c (p + 1) of
        Some (PSlotSpan vals len) \<Rightarrow>
          list_all (rd g) (span_slots vals len)
          \<and> list_all (\<lambda>j. table_target_ok c g len (p + 2 + int j)) [0..<unat n]
      | _ \<Rightarrow> False))"
| "branch_ok cmp_of c p g cs (BranchCmpFallback x y ps) =
     (rd g x \<and> rd g y \<and> rd g ps \<and> ps < 0 \<and> start c (p + 1)
      \<and> (case cmp_of (cs ! nat (int (rg_consts g) + ps)) of
           Some (_, off) \<Rightarrow> start c (p + off) | None \<Rightarrow> False))"
| "branch_ok cmp_of c p g cs (BranchCmp _ x y off) = (rd g x \<and> rd g y \<and> start c (p + off) \<and> start c (p + 1))"
| "branch_ok cmp_of c p g cs (BranchCmpImmRhs _ x _ off) = (rd g x \<and> start c (p + off) \<and> start c (p + 1))"
| "branch_ok cmp_of c p g cs (BranchCmpImmLhs _ _ y off) = (rd g y \<and> start c (p + off) \<and> start c (p + 1))"

fun copy_ok :: "instr list \<Rightarrow> int \<Rightarrow> regs \<Rightarrow> copy_instr \<Rightarrow> bool" where
  "copy_ok c p g (Copy r v) = (wr g r \<and> rd g v \<and> start c (p + 1))"
| "copy_ok c p g (Copy2 r a b) = (wr g r \<and> wr g (r + 1) \<and> rd g a \<and> rd g b \<and> start c (p + 1))"
| "copy_ok c p g (CopyImm32 r _) = (wr g r \<and> start c (p + 1))"
| "copy_ok c p g (CopyI64Imm32 r _) = (wr g r \<and> start c (p + 1))"
| "copy_ok c p g (CopyF64Imm32 r _) = (wr g r \<and> start c (p + 1))"
| "copy_ok c p g (CopySpan r v len) =
     (list_all (wr g) (span_slots r len) \<and> list_all (rd g) (span_slots v len) \<and> start c (p + 1))"
| "copy_ok c p g (CopyMany r a b) =
     (case slots_after c (p + 1) of
        None \<Rightarrow> False
      | Some (ss, n) \<Rightarrow>
          list_all (wr g) (span_slots r (2 + length ss)) \<and> list_all (rd g) ([a, b] @ ss)
          \<and> start c (p + 2 + int n))"

text \<open>Where the parameters of a call end, if they are as many as they should be.\<close>

definition call_params :: "instr list \<Rightarrow> int \<Rightarrow> regs \<Rightarrow> bool \<Rightarrow> nat \<Rightarrow> int option" where
  "call_params c p g has_params np =
     (if has_params then
        (case slots_after c (p + 1) of
           Some (ss, n) \<Rightarrow> if length ss = np \<and> list_all (rd g) ss then Some (p + 1 + int n) else None
         | None \<Rightarrow> None)
      else if np = 0 then Some p else None)"

definition call_arity ::
  "contract \<Rightarrow> shape \<Rightarrow> instr list \<Rightarrow> int \<Rightarrow> regs \<Rightarrow> call_target \<Rightarrow> (int \<times> nat \<times> nat) option" where
  "call_arity cx sh c p g target =
     (case target of
        Internal b \<Rightarrow> if cx_shape cx b = sh then Some (p, cx_arity cx b) else None
      | Imported i \<Rightarrow> if i < length (sh_funcs sh) then Some (p, sh_funcs sh ! i) else None
      | Indirect ty \<Rightarrow> (case word_at c (p + 1) of
            Some (CallIndirectParams i t) \<Rightarrow>
              if rd g i \<and> t < sh_tables sh \<and> ty < length (sh_types sh)
              then Some (p + 1, sh_types sh ! ty) else None
          | _ \<Rightarrow> None)
      | IndirectImm16 ty \<Rightarrow> (case word_at c (p + 1) of
            Some (CallIndirectParamsImm16 i t) \<Rightarrow>
              if t < sh_tables sh \<and> ty < length (sh_types sh) then Some (p + 1, sh_types sh ! ty) else None
          | _ \<Rightarrow> None))"

definition call_ok ::
  "contract \<Rightarrow> shape \<Rightarrow> instr list \<Rightarrow> int \<Rightarrow> regs \<Rightarrow> int \<Rightarrow> call_target \<Rightarrow> bool \<Rightarrow> bool" where
  "call_ok cx sh c p g results target has_params =
     (case call_arity cx sh c p g target of
        None \<Rightarrow> False
      | Some (q, np, nr) \<Rightarrow> list_all (wr g) (span_slots results nr)
          \<and> (case call_params c q g has_params np of Some q' \<Rightarrow> start c (q' + 1) | None \<Rightarrow> False))"

definition tail_call_ok ::
  "contract \<Rightarrow> shape \<Rightarrow> instr list \<Rightarrow> int \<Rightarrow> regs \<Rightarrow> nat \<Rightarrow> call_target \<Rightarrow> bool \<Rightarrow> bool" where
  "tail_call_ok cx sh c p g k target has_params =
     (case call_arity cx sh c p g target of
        None \<Rightarrow> False
      | Some (q, np, nr) \<Rightarrow> nr = k \<and> call_params c q g has_params np \<noteq> None)"

fun global_ok :: "shape \<Rightarrow> instr list \<Rightarrow> int \<Rightarrow> regs \<Rightarrow> global_instr \<Rightarrow> bool" where
  "global_ok sh c p g (GlobalGet r i) = (wr g r \<and> i < sh_globals sh \<and> start c (p + 1))"
| "global_ok sh c p g (GlobalSet x i) = (rd g x \<and> i < sh_globals sh \<and> start c (p + 1))"
| "global_ok sh c p g (GlobalSetI32Imm16 i _) = (i < sh_globals sh \<and> start c (p + 1))"
| "global_ok sh c p g (GlobalSetI64Imm16 i _) = (i < sh_globals sh \<and> start c (p + 1))"
| "global_ok sh c p g (RefFunc r i) = (wr g r \<and> i < length (sh_funcs sh) \<and> start c (p + 1))"

definition optional_memory_ok :: "shape \<Rightarrow> instr list \<Rightarrow> int \<Rightarrow> bool" where
  "optional_memory_ok sh c q =
     (case word_at c q of
        Some (MemoryIndex i) \<Rightarrow> (i = 0 \<or> i < sh_memories sh) \<and> start c (q + 1)
      | _ \<Rightarrow> start c q)"

definition reg_word_ok :: "instr list \<Rightarrow> int \<Rightarrow> regs \<Rightarrow> bool" where
  "reg_word_ok c q g = (case word_at c q of Some (SlotAndImm32 s _) \<Rightarrow> rd g s | _ \<Rightarrow> False)"

fun memory_ok_at :: "shape \<Rightarrow> instr list \<Rightarrow> int \<Rightarrow> regs \<Rightarrow> memory_instr \<Rightarrow> bool" where
  "memory_ok_at sh c p g (Load _ r _) =
     (wr g r \<and> reg_word_ok c (p + 1) g \<and> optional_memory_ok sh c (p + 2))"
| "memory_ok_at sh c p g (LoadAt _ r _) = (wr g r \<and> optional_memory_ok sh c (p + 1))"
| "memory_ok_at sh c p g (LoadOffset16 _ r ptr _) = (wr g r \<and> rd g ptr \<and> start c (p + 1))"
| "memory_ok_at sh c p g (Store _ ptr _) =
     (rd g ptr \<and> reg_word_ok c (p + 1) g \<and> optional_memory_ok sh c (p + 2))"
| "memory_ok_at sh c p g (StoreImm _ ptr _) =
     (rd g ptr \<and> (case word_at c (p + 1) of Some (Imm16AndImm32 _ _) \<Rightarrow> True | _ \<Rightarrow> False)
      \<and> optional_memory_ok sh c (p + 2))"
| "memory_ok_at sh c p g (StoreOffset16 _ ptr v _) = (rd g ptr \<and> rd g v \<and> start c (p + 1))"
| "memory_ok_at sh c p g (StoreOffset16Imm _ ptr _ _) = (rd g ptr \<and> start c (p + 1))"
| "memory_ok_at sh c p g (StoreAt _ v _) = (rd g v \<and> optional_memory_ok sh c (p + 1))"
| "memory_ok_at sh c p g (StoreAtImm _ _ _) = optional_memory_ok sh c (p + 1)"

text \<open>The words after a bulk instruction, which name what it works on.\<close>

definition index_word :: "(param_word \<Rightarrow> nat option) \<Rightarrow> nat \<Rightarrow> instr list \<Rightarrow> int \<Rightarrow> bool" where
  "index_word sel n c q = (case word_at c q of Some w \<Rightarrow> (case sel w of Some i \<Rightarrow> i < n | None \<Rightarrow> False) | None \<Rightarrow> False)"

fun bulk_ok :: "shape \<Rightarrow> instr list \<Rightarrow> int \<Rightarrow> regs \<Rightarrow> bulk_instr \<Rightarrow> bool" where
  "bulk_ok sh c p g (TableGet r i) =
     (wr g r \<and> rd g i \<and> index_word table_index (sh_tables sh) c (p + 1) \<and> start c (p + 2))"
| "bulk_ok sh c p g (TableGetImm r i) =
     (wr g r \<and> index_word table_index (sh_tables sh) c (p + 1) \<and> start c (p + 2))"
| "bulk_ok sh c p g (TableSize r t) = (wr g r \<and> t < sh_tables sh \<and> start c (p + 1))"
| "bulk_ok sh c p g (TableSet i v) =
     (rd g i \<and> rd g v \<and> index_word table_index (sh_tables sh) c (p + 1) \<and> start c (p + 2))"
| "bulk_ok sh c p g (TableSetAt i v) =
     (rd g v \<and> index_word table_index (sh_tables sh) c (p + 1) \<and> start c (p + 2))"
| "bulk_ok sh c p g (TableCopy d s n) =
     (rd g d \<and> rd g s \<and> rd g n \<and> index_word table_index (sh_tables sh) c (p + 1)
      \<and> index_word table_index (sh_tables sh) c (p + 2) \<and> start c (p + 3))"
| "bulk_ok sh c p g (TableInit d s n) =
     (rd g d \<and> rd g s \<and> rd g n \<and> index_word table_index (sh_tables sh) c (p + 1)
      \<and> index_word elem_index (sh_elems sh) c (p + 2) \<and> start c (p + 3))"
| "bulk_ok sh c p g (TableFill d n v) =
     (rd g d \<and> rd g n \<and> rd g v \<and> index_word table_index (sh_tables sh) c (p + 1) \<and> start c (p + 2))"
| "bulk_ok sh c p g (TableGrow r d v) =
     (wr g r \<and> rd g d \<and> rd g v \<and> index_word table_index (sh_tables sh) c (p + 1) \<and> start c (p + 2))"
| "bulk_ok sh c p g (ElemDrop i) = (i < sh_elems sh \<and> start c (p + 1))"
| "bulk_ok sh c p g (DataDrop i) = (i < sh_datas sh \<and> start c (p + 1))"
| "bulk_ok sh c p g (MemorySize r i) = (wr g r \<and> i < sh_memories sh \<and> start c (p + 1))"
| "bulk_ok sh c p g (MemoryGrow r d) =
     (wr g r \<and> rd g d \<and> index_word memory_index (sh_memories sh) c (p + 1) \<and> start c (p + 2))"
| "bulk_ok sh c p g (MemoryCopy d s n) =
     (rd g d \<and> rd g s \<and> rd g n \<and> index_word memory_index (sh_memories sh) c (p + 1)
      \<and> index_word memory_index (sh_memories sh) c (p + 2) \<and> start c (p + 3))"
| "bulk_ok sh c p g (MemoryFill d v n) =
     (rd g d \<and> rd g v \<and> rd g n \<and> index_word memory_index (sh_memories sh) c (p + 1) \<and> start c (p + 2))"
| "bulk_ok sh c p g (MemoryFillImm d v n) =
     (rd g d \<and> rd g n \<and> index_word memory_index (sh_memories sh) c (p + 1) \<and> start c (p + 2))"
| "bulk_ok sh c p g (MemoryInit d s n) =
     (rd g d \<and> rd g s \<and> rd g n \<and> index_word memory_index (sh_memories sh) c (p + 1)
      \<and> index_word data_index (sh_datas sh) c (p + 2) \<and> start c (p + 3))"

definition select_word_ok :: "instr list \<Rightarrow> int \<Rightarrow> regs \<Rightarrow> bool" where
  "select_word_ok c q g = (case word_at c q of Some (PSlot2 a b) \<Rightarrow> rd g a \<and> rd g b | _ \<Rightarrow> False)"

fun compute_ok :: "instr list \<Rightarrow> int \<Rightarrow> regs \<Rightarrow> compute_instr \<Rightarrow> bool" where
  "compute_ok c p g (Unary _ r x) = (wr g r \<and> rd g x \<and> start c (p + 1))"
| "compute_ok c p g (TryUnary _ r x) = (wr g r \<and> rd g x \<and> start c (p + 1))"
| "compute_ok c p g (Binary _ r x y) = (wr g r \<and> rd g x \<and> rd g y \<and> start c (p + 1))"
| "compute_ok c p g (BinaryImmRhs _ r x _) = (wr g r \<and> rd g x \<and> start c (p + 1))"
| "compute_ok c p g (BinaryImmLhs _ r _ y) = (wr g r \<and> rd g y \<and> start c (p + 1))"
| "compute_ok c p g (ShiftBy _ r x _) = (wr g r \<and> rd g x \<and> start c (p + 1))"
| "compute_ok c p g (TryBinary _ _ r x y) = (wr g r \<and> rd g x \<and> rd g y \<and> start c (p + 1))"
| "compute_ok c p g (DivRemSImmRhs _ _ r x _) = (wr g r \<and> rd g x \<and> start c (p + 1))"
| "compute_ok c p g (DivRemUImmRhs _ op r x _) =
     (op \<in> {OpDivU, OpRemU} \<and> wr g r \<and> rd g x \<and> start c (p + 1))"
| "compute_ok c p g (TryBinaryImmLhs _ _ r _ y) = (wr g r \<and> rd g y \<and> start c (p + 1))"
| "compute_ok c p g (Binop128 _ r0 r1 x) =
     (wr g r0 \<and> wr g r1 \<and> rd g x \<and> (case word_at c (p + 1) of
        Some (PSlot3 a b d) \<Rightarrow> rd g a \<and> rd g b \<and> rd g d | _ \<Rightarrow> False) \<and> start c (p + 2))"
| "compute_ok c p g (MulWide _ r x y) =
     (wr g r \<and> wr g (r + 1) \<and> rd g x \<and> rd g y \<and> start c (p + 1))"
| "compute_ok c p g (Select _ r x y) =
     (wr g r \<and> rd g x \<and> rd g y \<and> select_word_ok c (p + 1) g \<and> start c (p + 2))"
| "compute_ok c p g (SelectImmRhs _ r x _) =
     (wr g r \<and> rd g x \<and> select_word_ok c (p + 1) g \<and> start c (p + 2))"

record code_context =
  cc_contract :: contract
  cc_shape :: shape
  cc_code :: "instr list"
  cc_regs :: regs
  cc_consts :: "untyped_val list"
  cc_results :: nat
  cc_comparator :: "u64 \<Rightarrow> (comparator \<times> int) option"

fun instr_ok :: "code_context \<Rightarrow> int \<Rightarrow> instr \<Rightarrow> bool" where
  "instr_ok cc p (ITrap _) = True"
| "instr_ok cc p (IConsumeFuel _) = start (cc_code cc) (p + 1)"
| "instr_ok cc p (IReturn r) = return_ok (cc_code cc) p (cc_regs cc) (cc_results cc) r"
| "instr_ok cc p (IBranch b) =
     branch_ok (cc_comparator cc) (cc_code cc) p (cc_regs cc) (cc_consts cc) b"
| "instr_ok cc p (ICopy i) = copy_ok (cc_code cc) p (cc_regs cc) i"
| "instr_ok cc p (ICall results target has_params) =
     call_ok (cc_contract cc) (cc_shape cc) (cc_code cc) p (cc_regs cc) results target has_params"
| "instr_ok cc p (IReturnCall target has_params) =
     tail_call_ok (cc_contract cc) (cc_shape cc) (cc_code cc) p (cc_regs cc) (cc_results cc) target has_params"
| "instr_ok cc p (IGlobal i) = global_ok (cc_shape cc) (cc_code cc) p (cc_regs cc) i"
| "instr_ok cc p (IMemory i) = memory_ok_at (cc_shape cc) (cc_code cc) p (cc_regs cc) i"
| "instr_ok cc p (IBulk i) = bulk_ok (cc_shape cc) (cc_code cc) p (cc_regs cc) i"
| "instr_ok cc p (ICompute i) = compute_ok (cc_code cc) p (cc_regs cc) i"
| "instr_ok cc p (IParam _) = True"

text \<open>The context of a body, and a body that keeps the contract.\<close>

definition context_of ::
  "('h, 'l) engine_env \<Rightarrow> contract \<Rightarrow> shape \<Rightarrow> nat \<Rightarrow> instr compiled_func \<Rightarrow> code_context" where
  "context_of ev cx sh k f =
     \<lparr>cc_contract = cx, cc_shape = sh, cc_code = cfn_instrs f,
      cc_regs = \<lparr>rg_consts = length (cfn_consts f), rg_slots = cfn_len_stack_slots f\<rparr>,
      cc_consts = cfn_consts f, cc_results = k, cc_comparator = ev_comparator ev\<rparr>"

definition code_ok ::
  "('h, 'l) engine_env \<Rightarrow> contract \<Rightarrow> shape \<Rightarrow> nat \<Rightarrow> instr compiled_func \<Rightarrow> bool" where
  "code_ok ev cx sh k f \<longleftrightarrow>
     cx_promise cx f \<and> length (cfn_consts f) \<le> cfn_len_stack_slots f \<and> start (cfn_instrs f) 0
     \<and> list_all (\<lambda>p. instr_ok (context_of ev cx sh k f) (int p) (cfn_instrs f ! p))
         [0..<length (cfn_instrs f)]"

lemma code_ok_at:
  assumes "code_ok ev cx sh k f" and "start (cfn_instrs f) p"
  shows "instr_ok (context_of ev cx sh k f) p (cfn_instrs f ! nat p)"
proof -
  have p: "nat p < length (cfn_instrs f)" "int (nat p) = p" using assms(2) by (auto simp: start_def)
  then have "nat p \<in> set [0..<length (cfn_instrs f)]" by simp
  then have "instr_ok (context_of ev cx sh k f) (int (nat p)) (cfn_instrs f ! nat p)"
    using assms(1) unfolding code_ok_def list_all_iff by blast
  then show ?thesis using p by simp
qed

end
