(* ===== verification/Machine_Invariant.thy ===== *)
theory Machine_Invariant
  imports Code_Contract
begin

text \<open>
  The invariant of the machine. Every frame on the call stack describes cells of the value
  stack that lie on top of those of its caller, hold its constants and have been written; the
  code of the frame keeps the contract of \<open>Code_Contract\<close>; the instances belong to the code; the
  pointers are those of the frame on top. The lemmas give, for the primitives of the machine, what
  they need and what they leave of it.
\<close>

section \<open>Runs without undefined behaviour\<close>

fun safely :: "('a \<Rightarrow> bool) \<Rightarrow> 'a exec \<Rightarrow> bool" where
  "safely P (Done x) = P x"
| "safely P Aborts = True"
| "safely P Undefined = False"

lemma safely_then: "safely P (ex_then r f) \<longleftrightarrow> safely (\<lambda>x. safely P (f x)) r"
  by (cases r) auto

lemma safely_mono: "safely P r \<Longrightarrow> (\<And>x. P x \<Longrightarrow> Q x) \<Longrightarrow> safely Q r"
  by (cases r) auto

lemma safely_bind: "safely P r \<Longrightarrow> (\<And>x. P x \<Longrightarrow> safely Q (f x)) \<Longrightarrow> safely Q (ex_then r f)"
  by (cases r) auto

lemma safely_if: "(c \<Longrightarrow> safely P a) \<Longrightarrow> (\<not> c \<Longrightarrow> safely P b) \<Longrightarrow> safely P (if c then a else b)"
  by simp

section \<open>Instances and functions of the store\<close>

definition ty_arity :: "func_type \<Rightarrow> nat \<times> nat" where
  "ty_arity ty = (length (ft_params ty), length (ft_results ty))"

definition inst_fits :: "('h, 'l) store \<Rightarrow> handle \<Rightarrow> shape \<Rightarrow> bool" where
  "inst_fits st h sh \<longleftrightarrow> (\<exists>ie. resolve_instance st h = Ok ie
     \<and> list_all2 (\<lambda>f a. \<exists>e. resolve_func st f = Ok e \<and> ty_arity (func_entity_ty e) = a)
         (ie_funcs ie) (sh_funcs sh)
     \<and> map ty_arity (ie_func_types ie) = sh_types sh
     \<and> sh_globals sh \<le> length (ie_globals ie) \<and> sh_memories sh \<le> length (ie_memories ie)
     \<and> sh_tables sh \<le> length (ie_tables ie)
     \<and> sh_datas sh \<le> length (ie_data_segments ie) \<and> sh_elems sh \<le> length (ie_elem_segments ie))"

fun entity_fits :: "contract \<Rightarrow> ('h, 'l) store \<Rightarrow> func_entity \<Rightarrow> bool" where
  "entity_fits cx st (WasmFunc w) \<longleftrightarrow>
     cx_arity cx (wfe_body w) = ty_arity (wfe_ty w)
     \<and> inst_fits st (wfe_instance w) (cx_shape cx (wfe_body w))"
| "entity_fits cx st (HostFunc h) \<longleftrightarrow>
     (unat (hfe_len_params h), unat (hfe_len_results h)) = ty_arity (hfe_ty h)"

definition store_ok :: "contract \<Rightarrow> ('h, 'l) store \<Rightarrow> bool" where
  "store_ok cx st \<longleftrightarrow> (\<forall>h e. resolve_func st h = Ok e \<longrightarrow> entity_fits cx st e)"

text \<open>What a store may become: instances and functions that there are stay.\<close>

definition grows :: "('h, 'l) store \<Rightarrow> ('h, 'l) store \<Rightarrow> bool" where
  "grows st st' \<longleftrightarrow>
     (\<forall>h x. resolve_instance st h = Ok x \<longrightarrow> resolve_instance st' h = Ok x)
     \<and> (\<forall>h f. resolve_func st h = Ok f \<longrightarrow> resolve_func st' h = Ok f)"

lemma inst_fits_grows:
  assumes "inst_fits st h sh" and "grows st st'"
  shows "inst_fits st' h sh"
proof -
  obtain ie where ie: "resolve_instance st h = Ok ie"
      "list_all2 (\<lambda>f a. \<exists>e. resolve_func st f = Ok e \<and> ty_arity (func_entity_ty e) = a)
         (ie_funcs ie) (sh_funcs sh)"
      "map ty_arity (ie_func_types ie) = sh_types sh"
      "sh_globals sh \<le> length (ie_globals ie)" "sh_memories sh \<le> length (ie_memories ie)"
      "sh_tables sh \<le> length (ie_tables ie)" "sh_datas sh \<le> length (ie_data_segments ie)"
      "sh_elems sh \<le> length (ie_elem_segments ie)"
    using assms(1) unfolding inst_fits_def by blast
  have "resolve_instance st' h = Ok ie" using ie(1) assms(2) unfolding grows_def by blast
  moreover have "list_all2 (\<lambda>f a. \<exists>e. resolve_func st' f = Ok e \<and> ty_arity (func_entity_ty e) = a)
         (ie_funcs ie) (sh_funcs sh)"
    using ie(2) by (rule list_all2_mono) (use assms(2) in \<open>unfold grows_def, blast\<close>)
  ultimately show ?thesis unfolding inst_fits_def using ie(3-8) by blast
qed

lemma store_same:
  assumes "so_idx st' = so_idx st" "so_instances st' = so_instances st" "so_funcs st' = so_funcs st"
  shows "grows st st'" and "store_ok cx st \<Longrightarrow> store_ok cx st'"
proof -
  have r: "resolve_instance st' = resolve_instance st" "resolve_func st' = resolve_func st"
    using assms by (auto simp: resolve_instance_def resolve_func_def fun_eq_iff)
  then show "grows st st'" by (simp add: grows_def)
  have "inst_fits st' h sh = inst_fits st h sh" for h sh by (simp add: inst_fits_def r)
  then have "entity_fits cx st' e = entity_fits cx st e" for e by (cases e) auto
  then show "store_ok cx st \<Longrightarrow> store_ok cx st'" by (simp add: store_ok_def r)
qed

section \<open>Frames\<close>

text \<open>What the root of a run fixes: the number of its results, and the limits of both stacks.\<close>

record root_frame =
  rt_results :: nat
  rt_height :: nat
  rt_depth :: nat

definition height_ok :: "root_frame \<Rightarrow> value_stack \<Rightarrow> bool" where
  "height_ok K vs \<longleftrightarrow> vs_max_len vs = rt_height K \<and> vs_len vs \<le> rt_height K"

definition depth_ok :: "root_frame \<Rightarrow> 'op call_stack \<Rightarrow> bool" where
  "depth_ok K cs \<longleftrightarrow> cs_recursion_limit cs = rt_depth K \<and> length (cs_frames cs) \<le> rt_depth K"

definition cells_ok :: "instr compiled_func \<Rightarrow> nat \<Rightarrow> untyped_val option list \<Rightarrow> bool" where
  "cells_ok cf b vals \<longleftrightarrow>
     length (cfn_consts cf) \<le> cfn_len_stack_slots cf
     \<and> b + cfn_len_stack_slots cf \<le> length vals
     \<and> (\<forall>i < cfn_len_stack_slots cf. vals ! (b + i) \<noteq> None)
     \<and> (\<forall>i < length (cfn_consts cf). vals ! (b + i) = Some (cfn_consts cf ! i))"

definition regs_of :: "instr compiled_func \<Rightarrow> regs" where
  "regs_of cf = \<lparr>rg_consts = length (cfn_consts cf), rg_slots = cfn_len_stack_slots cf\<rparr>"

definition offsets_ok :: "instr compiled_func \<Rightarrow> nat \<Rightarrow> 'op call_frame \<Rightarrow> bool" where
  "offsets_ok cf b f \<longleftrightarrow> cf_frame f = b \<and> cf_base f = b + length (cfn_consts cf)"

definition below_instances :: "'op call_frame \<Rightarrow> handle list \<Rightarrow> handle list" where
  "below_instances f insts = (if cf_changed_instance f then tl insts else insts)"

text \<open>
  The frames below one whose cells begin at \<open>roof\<close> and whose \<open>k\<close> results go to \<open>r\<close>. Under the last
  one are the cells for the results of the root \<open>K\<close>.
\<close>

fun frames_ok ::
  "('h, 'l) engine_env \<Rightarrow> contract \<Rightarrow> root_frame \<Rightarrow> ('h, 'l) store \<Rightarrow> untyped_val option list \<Rightarrow>
   instr call_frame list \<Rightarrow> handle list \<Rightarrow> nat \<Rightarrow> int \<Rightarrow> nat \<Rightarrow> bool" where
  "frames_ok ev cx K st vals [] insts roof r k \<longleftrightarrow> insts = [] \<and> roof = rt_results K \<and> r = 0 \<and> k = rt_results K"
| "frames_ok ev cx K st vals (f # fs) insts roof r k \<longleftrightarrow> (\<exists>cf sh kf b.
     offsets_ok cf b f \<and> roof = b + cfn_len_stack_slots cf \<and> cells_ok cf b vals
     \<and> code_ok ev cx sh kf cf \<and> insts \<noteq> [] \<and> inst_fits st (hd insts) sh
     \<and> ip_code (cf_instr_ptr f) = cfn_instrs cf \<and> start (cfn_instrs cf) (ip_at (cf_instr_ptr f))
     \<and> list_all (wr (regs_of cf)) (span_slots r k)
     \<and> frames_ok ev cx K st vals fs (below_instances f insts) b (cf_results f) kf)"

lemma frames_ok_ConsI:
  "offsets_ok cf b f \<Longrightarrow> roof = b + cfn_len_stack_slots cf \<Longrightarrow> cells_ok cf b vals \<Longrightarrow>
    code_ok ev cx sh kf cf \<Longrightarrow> insts \<noteq> [] \<Longrightarrow> inst_fits st (hd insts) sh \<Longrightarrow>
    ip_code (cf_instr_ptr f) = cfn_instrs cf \<Longrightarrow> start (cfn_instrs cf) (ip_at (cf_instr_ptr f)) \<Longrightarrow>
    list_all (wr (regs_of cf)) (span_slots r k) \<Longrightarrow>
    frames_ok ev cx K st vals fs (below_instances f insts) b (cf_results f) kf \<Longrightarrow>
    frames_ok ev cx K st vals (f # fs) insts roof r k"
  unfolding frames_ok.simps by (intro exI conjI)

lemma frames_ok_agree:
  "frames_ok ev cx K st vals fs insts roof r k \<Longrightarrow> roof \<le> length vals' \<Longrightarrow> \<forall>i < roof. vals' ! i = vals ! i
    \<Longrightarrow> frames_ok ev cx K st vals' fs insts roof r k"
proof (induction fs arbitrary: insts roof r k)
  case (Cons f fs)
  then obtain cf sh kf b where f: "offsets_ok cf b f" "roof = b + cfn_len_stack_slots cf"
      "cells_ok cf b vals" "code_ok ev cx sh kf cf" "insts \<noteq> []" "inst_fits st (hd insts) sh"
      "ip_code (cf_instr_ptr f) = cfn_instrs cf" "start (cfn_instrs cf) (ip_at (cf_instr_ptr f))"
      "list_all (wr (regs_of cf)) (span_slots r k)"
      "frames_ok ev cx K st vals fs (below_instances f insts) b (cf_results f) kf" by auto
  have "frames_ok ev cx K st vals' fs (below_instances f insts) b (cf_results f) kf"
    using Cons.IH [OF f(10)] Cons.prems f(2) by simp
  moreover have "cells_ok cf b vals'"
    using f(2,3) Cons.prems(2,3) by (auto simp: cells_ok_def)
  ultimately show ?case using f by auto
qed simp

lemma frames_ok_grows:
  "frames_ok ev cx K st vals fs insts roof r k \<Longrightarrow> grows st st'
    \<Longrightarrow> frames_ok ev cx K st' vals fs insts roof r k"
  by (induction fs arbitrary: insts roof r k) (auto; blast intro: inst_fits_grows)+

lemma frames_ok_bottom: "frames_ok ev cx K st vals fs insts roof r k \<Longrightarrow> rt_results K \<le> roof"
  by (induction fs arbitrary: insts roof r k) fastforce+

section \<open>The running frame\<close>

text \<open>\<open>n\<close> more cells may lie above those of the running function.\<close>

definition locals_ok :: "instr compiled_func \<Rightarrow> nat \<Rightarrow> nat \<Rightarrow> ('h, 'l) machine \<Rightarrow> bool" where
  "locals_ok cf b n m \<longleftrightarrow>
     m_sp m = stack_ptr_at (m_values m) (b + length (cfn_consts cf))
     \<and> vs_len (m_values m) = b + cfn_len_stack_slots cf + n
     \<and> cells_ok cf b (vs_values (m_values m))
     \<and> ip_code (m_ip m) = cfn_instrs cf"

text \<open>The rest: the frames, the instances, the store and the limits of both stacks.\<close>

definition context_ok ::
  "('h, 'l) engine_env \<Rightarrow> contract \<Rightarrow> root_frame \<Rightarrow> instr compiled_func \<Rightarrow> shape \<Rightarrow> nat \<Rightarrow> nat \<Rightarrow>
   ('h, 'l) machine \<Rightarrow> bool" where
  "context_ok ev cx K cf sh k b m \<longleftrightarrow>
     (\<exists>f fs insts. cs_frames (m_calls m) = f # fs \<and> offsets_ok cf b f
        \<and> hv_ok (cs_instances (m_calls m)) \<and> hv_items (cs_instances (m_calls m)) = insts
        \<and> insts \<noteq> [] \<and> hd insts = m_instance m
        \<and> frames_ok ev cx K (m_store m) (vs_values (m_values m)) fs (below_instances f insts) b
            (cf_results f) k)
     \<and> inst_fits (m_store m) (m_instance m) sh \<and> code_ok ev cx sh k cf
     \<and> store_ok cx (m_store m)
     \<and> height_ok K (m_values m) \<and> depth_ok K (m_calls m)"

definition running ::
  "('h, 'l) engine_env \<Rightarrow> contract \<Rightarrow> root_frame \<Rightarrow> instr compiled_func \<Rightarrow> shape \<Rightarrow> nat \<Rightarrow> nat \<Rightarrow> nat \<Rightarrow>
   ('h, 'l) machine \<Rightarrow> bool" where
  "running ev cx K cf sh k b n m \<longleftrightarrow> locals_ok cf b n m \<and> context_ok ev cx K cf sh k b m"

definition machine_ok :: "('h, 'l) engine_env \<Rightarrow> contract \<Rightarrow> root_frame \<Rightarrow> ('h, 'l) machine \<Rightarrow> bool" where
  "machine_ok ev cx K m \<longleftrightarrow>
     (\<exists>cf sh k b. running ev cx K cf sh k b 0 m \<and> start (cfn_instrs cf) (ip_at (m_ip m)))"

lemma running_locals: "running ev cx K cf sh k b n m \<Longrightarrow> locals_ok cf b n m"
  by (simp add: running_def)

lemma running_instance: "running ev cx K cf sh k b n m \<Longrightarrow> inst_fits (m_store m) (m_instance m) sh"
  by (simp add: running_def context_ok_def)

lemma machine_okI:
  "running ev cx K cf sh k b 0 m \<Longrightarrow> start (cfn_instrs cf) (ip_at (m_ip m)) \<Longrightarrow> machine_ok ev cx K m"
  by (auto simp: machine_ok_def)

section \<open>Primitives\<close>

lemma slot_at_rd:
  assumes "locals_ok cf b n m" and "rd (regs_of cf) s"
  shows "slot_at (m_values m) (m_sp m) s = Some (nat (int (b + length (cfn_consts cf)) + s))"
    and "b \<le> nat (int (b + length (cfn_consts cf)) + s)"
    and "nat (int (b + length (cfn_consts cf)) + s) < b + cfn_len_stack_slots cf"
  using assms by (auto simp: locals_ok_def rd_def regs_of_def slot_at_def stack_ptr_at_def)

lemma get_slot_Done:
  assumes "locals_ok cf b n m" and "rd (regs_of cf) s"
  shows "\<exists>v. get_stack_slot s m = Done v"
proof -
  let ?i = "nat (int (b + length (cfn_consts cf)) + s)"
  obtain j where j: "?i = b + j" "j < cfn_len_stack_slots cf"
    using slot_at_rd(2,3) [OF assms] by (metis add_diff_inverse_nat diff_add_inverse leD nat_add_left_cancel_less)
  then have "vs_values (m_values m) ! ?i \<noteq> None"
    using assms(1) by (auto simp: locals_ok_def cells_ok_def)
  then show ?thesis
    using slot_at_rd(1) [OF assms] by (auto simp: get_stack_slot_def slots_get_def)
qed

lemma safely_get:
  assumes "locals_ok cf b n m" and "rd (regs_of cf) s" and "\<And>v. safely P (f v)"
  shows "safely P (ex_then (get_stack_slot s m) f)"
  using get_slot_Done [OF assms(1,2)] assms(3) by (elim exE) simp

lemma get_const:
  assumes "locals_ok cf b n m" and "rd (regs_of cf) s" and "s < 0"
  shows "get_stack_slot s m = Done (cfn_consts cf ! nat (int (length (cfn_consts cf)) + s))"
proof -
  let ?j = "nat (int (length (cfn_consts cf)) + s)"
  have "nat (int (b + length (cfn_consts cf)) + s) = b + ?j" "?j < length (cfn_consts cf)"
    using assms(2,3) by (auto simp: rd_def regs_of_def nat_add_distrib)
  then have "vs_values (m_values m) ! nat (int (b + length (cfn_consts cf)) + s) = Some (cfn_consts cf ! ?j)"
    using assms(1) by (simp add: locals_ok_def cells_ok_def)
  then show ?thesis
    using slot_at_rd(1) [OF assms(1,2)] by (simp add: get_stack_slot_def slots_get_def)
qed

lemma with_values_simps [simp]:
  "m_sp (with_values vs m) = m_sp m" "m_ip (with_values vs m) = m_ip m"
  "m_instance (with_values vs m) = m_instance m" "m_store (with_values vs m) = m_store m"
  "m_values (with_values vs m) = vs" "m_calls (with_values vs m) = m_calls m"
  "with_values vs (with_values vs' m) = with_values vs m"
  by (simp_all add: with_values_def)

lemma with_calls_simps [simp]:
  "m_sp (with_calls cs m) = m_sp m" "m_ip (with_calls cs m) = m_ip m"
  "m_instance (with_calls cs m) = m_instance m" "m_store (with_calls cs m) = m_store m"
  "m_values (with_calls cs m) = m_values m" "m_calls (with_calls cs m) = cs"
  by (simp_all add: with_calls_def)

text \<open>Writing cells from \<open>j\<close> on keeps the context of a frame that begins at or below \<open>j\<close>.\<close>

lemma context_ok_values:
  assumes "context_ok ev cx K cf sh k b m"
    and "height_ok K vs" and "b \<le> vs_len vs"
    and "\<forall>i < b. vs_values vs ! i = vs_values (m_values m) ! i"
  shows "context_ok ev cx K cf sh k b (with_values vs m)"
proof -
  obtain f fs insts where f: "cs_frames (m_calls m) = f # fs" "offsets_ok cf b f"
      "hv_ok (cs_instances (m_calls m))" "hv_items (cs_instances (m_calls m)) = insts"
      "insts \<noteq> []" "hd insts = m_instance m"
      "frames_ok ev cx K (m_store m) (vs_values (m_values m)) fs (below_instances f insts) b (cf_results f) k"
    and rest: "inst_fits (m_store m) (m_instance m) sh" "code_ok ev cx sh k cf" "store_ok cx (m_store m)"
      "depth_ok K (m_calls m)"
    using assms(1) unfolding context_ok_def by blast
  have "frames_ok ev cx K (m_store m) (vs_values vs) fs (below_instances f insts) b (cf_results f) k"
    using frames_ok_agree [OF f(7)] assms(3,4) by (simp add: vs_len_def)
  then show ?thesis unfolding context_ok_def using f rest assms(2) by auto
qed

lemma cells_ok_write:
  assumes "cells_ok cf b vals" and "b + length (cfn_consts cf) \<le> j"
  shows "cells_ok cf b (vals[j := Some v])"
proof -
  have "vals[j := Some v] ! i \<noteq> None" if "vals ! i \<noteq> None" for i
    using that by (cases "i = j"; cases "j < length vals") (simp_all add: not_less list_update_beyond)
  then show ?thesis using assms by (auto simp: cells_ok_def)
qed

lemma running_set:
  assumes "running ev cx K cf sh k b n m" and "wr (regs_of cf) s"
  shows "\<exists>vs. set_stack_slot s v m = Done (with_values vs m)
           \<and> running ev cx K cf sh k b n (with_values vs m)"
proof -
  let ?i = "nat (int (b + length (cfn_consts cf)) + s)"
  let ?vs = "(m_values m)\<lparr>vs_values := (vs_values (m_values m))[?i := Some v]\<rparr>"
  have l: "locals_ok cf b n m" and c: "context_ok ev cx K cf sh k b m"
    using assms(1) by (auto simp: running_def)
  note at = slot_at_rd [OF l wr_rd [OF assms(2)]]
  have j: "b + length (cfn_consts cf) \<le> ?i" using assms(2) by (simp add: wr_def le_nat_iff)
  have "set_stack_slot s v m = Done (with_values ?vs m)"
    using at(1) by (simp add: set_stack_slot_def slots_set_def)
  moreover have "locals_ok cf b n (with_values ?vs m)"
    using l cells_ok_write [OF _ j] by (auto simp: locals_ok_def vs_len_def stack_ptr_at_def)
  moreover have "context_ok ev cx K cf sh k b (with_values ?vs m)"
  proof (rule context_ok_values [OF c])
    show "height_ok K ?vs" using c by (auto simp: context_ok_def height_ok_def vs_len_def)
    show "b \<le> vs_len ?vs" using l by (simp add: locals_ok_def vs_len_def)
    show "\<forall>i < b. vs_values ?vs ! i = vs_values (m_values m) ! i" using j by auto
  qed
  ultimately show ?thesis by (auto simp: running_def)
qed

lemma safely_set:
  assumes "running ev cx K cf sh k b n m" and "wr (regs_of cf) s"
    and "\<And>m'. running ev cx K cf sh k b n m' \<Longrightarrow> m_ip m' = m_ip m \<Longrightarrow> m_store m' = m_store m \<Longrightarrow>
           safely P (f m')"
  shows "safely P (ex_then (set_stack_slot s v m) f)"
proof -
  obtain vs where "set_stack_slot s v m = Done (with_values vs m)"
      "running ev cx K cf sh k b n (with_values vs m)" using running_set [OF assms(1,2)] by blast
  then show ?thesis using assms(3) by simp
qed

lemma running_jump:
  "running ev cx K cf sh k b n m \<Longrightarrow> ip_code ip = ip_code (m_ip m) \<Longrightarrow>
    running ev cx K cf sh k b n (m\<lparr>m_ip := ip\<rparr>)"
  by (simp add: running_def locals_ok_def context_ok_def)

lemma running_next: "running ev cx K cf sh k b n m \<Longrightarrow> running ev cx K cf sh k b n (next_instr_at d m)"
  unfolding next_instr_at_def by (rule running_jump) (simp_all add: ip_offset_def)

lemma running_branch: "running ev cx K cf sh k b n m \<Longrightarrow> running ev cx K cf sh k b n (branch_to d m)"
  unfolding branch_to_def by (rule running_jump) (simp_all add: ip_offset_def)

lemma ip_simps [simp]:
  "ip_at (m_ip (next_instr_at d m)) = ip_at (m_ip m) + int d"
  "ip_at (m_ip (next_instr m)) = ip_at (m_ip m) + 1"
  "ip_at (m_ip (branch_to off m)) = ip_at (m_ip m) + off"
  by (simp_all add: next_instr_def next_instr_at_def branch_to_def ip_offset_def)

lemma next_store [simp]: "m_store (next_instr_at d m) = m_store m"
  by (simp add: next_instr_at_def)

lemma running_store:
  assumes "running ev cx K cf sh k b n m" and "grows (m_store m) st" and "store_ok cx st"
  shows "running ev cx K cf sh k b n (m\<lparr>m_store := st\<rparr>)"
proof -
  have c: "context_ok ev cx K cf sh k b m" using assms(1) by (simp add: running_def)
  then obtain f fs insts where f: "cs_frames (m_calls m) = f # fs" "offsets_ok cf b f"
      "hv_ok (cs_instances (m_calls m))" "hv_items (cs_instances (m_calls m)) = insts"
      "insts \<noteq> []" "hd insts = m_instance m"
      "frames_ok ev cx K (m_store m) (vs_values (m_values m)) fs (below_instances f insts) b (cf_results f) k"
    unfolding context_ok_def by blast
  then have "frames_ok ev cx K st (vs_values (m_values m)) fs (below_instances f insts) b (cf_results f) k"
    using frames_ok_grows assms(2) by blast
  then have "context_ok ev cx K cf sh k b (m\<lparr>m_store := st\<rparr>)"
    using c f inst_fits_grows [OF _ assms(2)] assms(3) unfolding context_ok_def by auto
  then show ?thesis using assms(1) by (simp add: running_def locals_ok_def)
qed

section \<open>Words of the code\<close>

lemma param_at_Done:
  assumes "locals_ok cf b n m" and "word_at (cfn_instrs cf) (ip_at (m_ip m) + d) = Some w"
  shows "param_at d m = Done (Some w)"
  using assms by (auto simp: word_at_def param_at_def ip_get_def ip_offset_def locals_ok_def
      split: if_splits instr.splits)

lemma param_at_start:
  assumes "locals_ok cf b n m" and "start (cfn_instrs cf) (ip_at (m_ip m) + d)"
  shows "param_at d m = Done None"
  using assms by (auto simp: start_def param_at_def ip_get_def ip_offset_def locals_ok_def
      split: instr.splits)

lemma slots_from_Done:
  assumes "ip_code ip = c" and "slots_after c (ip_at ip) = Some (ss, n)"
  shows "slots_from ip = Done (ss, n)"
  using assms by (auto simp: slots_after_def slots_from_def split: if_splits)

end
