(* ===== verification/Machine_Locals.thy ===== *)
theory Machine_Locals
  imports Machine_Invariant
begin

text \<open>
  Handlers that stay in their frame: computations, copies, selects, branches, globals, loads and
  stores keep the invariant of the machine and never leave what the code may do.
\<close>

section \<open>Handlers of machines\<close>

text \<open>The postcondition of a handler that may fail: where it does not, the machine is in order.\<close>

definition handled_ok :: "(('h, 'l) machine \<Rightarrow> bool) \<Rightarrow> (error_kind \<times> ('h, 'l) machine + ('h, 'l) machine) \<Rightarrow> bool" where
  "handled_ok P r = (case r of Inl _ \<Rightarrow> True | Inr m \<Rightarrow> P m)"

lemma safely_goes_on: "safely P r \<Longrightarrow> safely (handled_ok P) (goes_on r)"
  by (cases r) (auto simp: goes_on_def handled_ok_def)

lemma safely_traps: "safely (handled_ok P) (traps e m)"
  by (simp add: traps_def handled_ok_def)

lemma machine_ok_next:
  assumes "running ev cx K cf sh k b 0 m" and "start (cfn_instrs cf) (ip_at (m_ip m) + int d)"
  shows "machine_ok ev cx K (next_instr_at d m)"
  using machine_okI [OF running_next [OF assms(1)]] assms(2) by simp

lemma machine_ok_next1:
  assumes "running ev cx K cf sh k b 0 m" and "start (cfn_instrs cf) (ip_at (m_ip m) + 1)"
  shows "machine_ok ev cx K (next_instr m)"
  using machine_ok_next [of ev cx K cf sh k b m 1] assms by (simp add: next_instr_def)

lemma machine_ok_branch:
  assumes "running ev cx K cf sh k b 0 m" and "start (cfn_instrs cf) (ip_at (m_ip m) + off)"
  shows "machine_ok ev cx K (branch_to off m)"
  using machine_okI [OF running_branch [OF assms(1)]] assms(2) by simp

lemma store_then_next:
  assumes "running ev cx K cf sh k b 0 m" and "wr (regs_of cf) r"
    and "start (cfn_instrs cf) (ip_at (m_ip m) + int d)"
  shows "safely (machine_ok ev cx K) (ex_then (set_stack_slot r v m) (\<lambda>m. Done (next_instr_at d m)))"
  by (rule safely_set [OF assms(1,2)]) (use assms(3) in \<open>simp add: machine_ok_next\<close>)

lemma store_then_next1:
  assumes "running ev cx K cf sh k b 0 m" and "wr (regs_of cf) r"
    and "start (cfn_instrs cf) (ip_at (m_ip m) + 1)"
  shows "safely (machine_ok ev cx K) (ex_then (set_stack_slot r v m) (\<lambda>m. Done (next_instr m)))"
  using store_then_next [of ev cx K cf sh k b m r 1 v] assms by (simp add: next_instr_def)

section \<open>Computations\<close>

lemma unary_safe:
  assumes "running ev cx K cf sh k b 0 m" and "wr (regs_of cf) r" and "rd (regs_of cf) x"
    and "start (cfn_instrs cf) (ip_at (m_ip m) + 1)"
  shows "safely (machine_ok ev cx K) (execute_unary r x f m)"
    and "safely (handled_ok (machine_ok ev cx K)) (try_execute_unary r x g m)"
  unfolding execute_unary_def try_execute_unary_def
  by (rule safely_get [OF running_locals [OF assms(1)] assms(3)],
      simp add: store_then_next1 [OF assms(1,2,4)] safely_traps safely_goes_on split: sum.split)+

lemma binary_safe:
  assumes "running ev cx K cf sh k b 0 m" and "wr (regs_of cf) r" and "rd (regs_of cf) x" "rd (regs_of cf) y"
    and "start (cfn_instrs cf) (ip_at (m_ip m) + 1)"
  shows "safely (machine_ok ev cx K) (execute_binary r x y f m)"
    and "safely (handled_ok (machine_ok ev cx K)) (try_execute_binary r x y g m)"
  unfolding execute_binary_def try_execute_binary_def
  by (rule safely_get [OF running_locals [OF assms(1)] assms(3)],
      rule safely_get [OF running_locals [OF assms(1)] assms(4)],
      simp add: store_then_next1 [OF assms(1,2,5)] safely_traps safely_goes_on split: sum.split)+

lemma immediate_safe:
  assumes "running ev cx K cf sh k b 0 m" and "wr (regs_of cf) r" and "rd (regs_of cf) x"
    and "start (cfn_instrs cf) (ip_at (m_ip m) + 1)"
  shows "safely (machine_ok ev cx K) (execute_binary_imm16_rhs r x c f m)"
    and "safely (machine_ok ev cx K) (execute_binary_imm16_lhs r c x f m)"
    and "safely (machine_ok ev cx K) (execute_shift_by r x c f m)"
    and "safely (handled_ok (machine_ok ev cx K)) (try_execute_divrem_imm16_rhs r x c g m)"
    and "safely (handled_ok (machine_ok ev cx K)) (try_execute_binary_imm16_lhs r c x g m)"
  unfolding execute_binary_imm16_rhs_def execute_binary_imm16_lhs_def execute_shift_by_def
    try_execute_divrem_imm16_rhs_def try_execute_binary_imm16_lhs_def
  by (rule safely_get [OF running_locals [OF assms(1)] assms(3)],
      simp add: store_then_next1 [OF assms(1,2,4)] safely_traps safely_goes_on split: sum.split)+

text \<open>An unsigned division by a constant has no failing case.\<close>

lemma unsigned_division_total:
  assumes "op \<in> {OpDivU, OpRemU}"
  shows "\<exists>v. divrem_imm_fn w op x y = Inr v"
  using assms by (cases w) auto

lemma unsigned_division_safe:
  assumes "running ev cx K cf sh k b 0 m" and "wr (regs_of cf) r" and "rd (regs_of cf) x"
    and "start (cfn_instrs cf) (ip_at (m_ip m) + 1)" and "op \<in> {OpDivU, OpRemU}"
  shows "safely (handled_ok (machine_ok ev cx K)) (execute_divrem_imm16_rhs r x c (divrem_imm_fn w op) m)"
  unfolding execute_divrem_imm16_rhs_def
proof (rule safely_get [OF running_locals [OF assms(1)] assms(3)])
  fix v
  obtain q where "divrem_imm_fn w op v c = Inr q" using unsigned_division_total [OF assms(5)] by blast
  then show "safely (handled_ok (machine_ok ev cx K)) (case divrem_imm_fn w op v c of
       Inl e \<Rightarrow> Undefined
     | Inr q \<Rightarrow> goes_on (ex_then (set_stack_slot r q m) (\<lambda>m. Done (next_instr m))))"
    by (simp add: safely_goes_on store_then_next1 [OF assms(1,2,4)])
qed

lemma wide_safe:
  assumes "running ev cx K cf sh k b 0 m" and "compute_ok (cfn_instrs cf) (ip_at (m_ip m)) (regs_of cf) (Binop128 s r0 r1 x)"
  shows "safely (machine_ok ev cx K) (execute_i64_binop128 r0 r1 x f m)"
proof -
  obtain a d c where w: "word_at (cfn_instrs cf) (ip_at (m_ip m) + 1) = Some (PSlot3 a d c)"
      "rd (regs_of cf) a" "rd (regs_of cf) d" "rd (regs_of cf) c"
    using assms(2) by (auto split: option.splits param_word.splits)
  have g: "wr (regs_of cf) r0" "wr (regs_of cf) r1" "rd (regs_of cf) x"
      "start (cfn_instrs cf) (ip_at (m_ip m) + 2)" using assms(2) by simp_all
  note l = running_locals [OF assms(1)]
  show ?thesis
    unfolding execute_i64_binop128_def param_at_Done [OF l w(1)]
    apply (simp)
    apply (rule safely_get [OF l w(3)] safely_get [OF l g(3)] safely_get [OF l w(2)] safely_get [OF l w(4)])+
    apply (simp split: prod.split)
    apply (intro allI impI)
    apply (rule safely_set [OF assms(1) g(1)])
    apply (rule store_then_next [of ev cx K cf sh k b _ r1 2, simplified])
    using g by simp_all
qed

lemma mul_wide_safe:
  assumes "running ev cx K cf sh k b 0 m" and "compute_ok (cfn_instrs cf) (ip_at (m_ip m)) (regs_of cf) (MulWide s r x y)"
  shows "safely (machine_ok ev cx K) (execute_i64_mul_wide_sx r x y f m)"
proof -
  note l = running_locals [OF assms(1)]
  have g: "wr (regs_of cf) r" "wr (regs_of cf) (r + 1)" "rd (regs_of cf) x" "rd (regs_of cf) y"
      "start (cfn_instrs cf) (ip_at (m_ip m) + 1)" using assms(2) by simp_all
  show ?thesis
    unfolding execute_i64_mul_wide_sx_def
    apply (rule safely_get [OF l g(3)])
    apply (rule safely_get [OF l g(4)])
    apply (simp split: prod.split)
    apply (intro allI impI)
    apply (rule safely_set [OF assms(1) g(1)])
    apply (rule store_then_next1)
    using g by simp_all
qed

lemma select_values_safe:
  assumes "running ev cx K cf sh k b 0 m" and "wr (regs_of cf) r" "rd (regs_of cf) x" "rd (regs_of cf) y"
    and "start (cfn_instrs cf) (ip_at (m_ip m) + 2)"
  shows "safely (machine_ok ev cx K) (select_values r c x y m)"
  unfolding select_values_def
  by (rule safely_get [OF running_locals [OF assms(1)]])
    (use assms store_then_next [OF assms(1,2), of 2] in \<open>auto\<close>)

lemma select_safe:
  assumes "running ev cx K cf sh k b 0 m" and "wr (regs_of cf) r" "rd (regs_of cf) x"
    and "select_word_ok (cfn_instrs cf) (ip_at (m_ip m) + 1) (regs_of cf)"
    and "start (cfn_instrs cf) (ip_at (m_ip m) + 2)"
  shows "rd (regs_of cf) y \<Longrightarrow> safely (machine_ok ev cx K) (execute_cmp_select_impl r x y f m)"
    and "safely (machine_ok ev cx K) (execute_cmp_select_imm_rhs_impl r x c f m)"
proof -
  note l = running_locals [OF assms(1)]
  obtain a d where w: "word_at (cfn_instrs cf) (ip_at (m_ip m) + 1) = Some (PSlot2 a d)"
      "rd (regs_of cf) a" "rd (regs_of cf) d"
    using assms(4) by (auto simp: select_word_ok_def split: option.splits param_word.splits)
  note sel = select_values_safe [OF assms(1,2) w(2,3) assms(5)]
  show "safely (machine_ok ev cx K) (execute_cmp_select_impl r x y f m)" if "rd (regs_of cf) y"
    using safely_get [OF l assms(3), OF safely_get [OF l that], OF sel]
    by (simp add: execute_cmp_select_impl_def param_at_Done [OF l w(1)])
  show "safely (machine_ok ev cx K) (execute_cmp_select_imm_rhs_impl r x c f m)"
    using safely_get [OF l assms(3), OF sel]
    by (simp add: execute_cmp_select_imm_rhs_impl_def param_at_Done [OF l w(1)])
qed

lemma compute_safe:
  assumes "running ev cx K cf sh k b 0 m"
    and "compute_ok (cfn_instrs cf) (ip_at (m_ip m)) (regs_of cf) i"
  shows "safely (handled_ok (machine_ok ev cx K)) (execute_compute ev i m)"
proof (cases i)
  case (Binop128 s r0 r1 x)
  then show ?thesis using wide_safe [OF assms(1)] assms(2) by (simp add: safely_goes_on)
next
  case (MulWide s r x y)
  then show ?thesis using mul_wide_safe [OF assms(1)] assms(2) by (simp add: safely_goes_on)
next
  case (Select c r x y)
  then show ?thesis using select_safe(1) [OF assms(1)] assms(2) by (simp add: safely_goes_on)
next
  case (SelectImmRhs c r x v)
  then show ?thesis using select_safe(2) [OF assms(1)] assms(2) by (simp add: safely_goes_on)
next
  case (DivRemUImmRhs w op r x c)
  then show ?thesis using unsigned_division_safe [OF assms(1)] assms(2) by simp
qed (use assms(2) in \<open>simp_all add: unary_safe [OF assms(1)] binary_safe [OF assms(1)]
      immediate_safe [OF assms(1)] safely_goes_on\<close>)

section \<open>Copies\<close>

lemma span_slots_Suc [simp]: "span_slots r (Suc n) = r # span_slots (r + 1) n"
  by (simp add: span_slots_def map_upt_Suc algebra_simps del: upt_Suc)

lemma span_slots_0 [simp]: "span_slots r 0 = []"
  by (simp add: span_slots_def)

lemma copy_slots_safe:
  assumes "running ev cx K cf sh k b n m" and "list_all (rd (regs_of cf)) vs"
    and "list_all (wr (regs_of cf)) (span_slots r (length vs))"
  shows "safely (\<lambda>m'. running ev cx K cf sh k b n m' \<and> m_ip m' = m_ip m) (copy_slots r vs m)"
  using assms
proof (induction r vs m rule: copy_slots.induct)
  case (2 r v vs m)
  have v: "rd (regs_of cf) v" "list_all (rd (regs_of cf)) vs" "wr (regs_of cf) r"
    "list_all (wr (regs_of cf)) (span_slots (r + 1) (length vs))" using 2 by auto
  obtain x where x: "get_stack_slot v m = Done x" using get_slot_Done [OF running_locals [OF "2.prems"(1)] v(1)] ..
  obtain w where w: "set_stack_slot r x m = Done (with_values w m)" "running ev cx K cf sh k b n (with_values w m)"
    using running_set [OF "2.prems"(1) v(3)] by blast
  show ?case using "2.IH" [OF x w(1) w(2) v(2,4)] x w(1) by simp
qed simp

lemma copies_safe:
  assumes "running ev cx K cf sh k b 0 m"
    and "copy_ok (cfn_instrs cf) (ip_at (m_ip m)) (regs_of cf) i"
  shows "safely (machine_ok ev cx K) (execute_copies i m)"
proof -
  note l = running_locals [OF assms(1)]
  show ?thesis
  proof (cases i)
    case (Copy r v)
    then show ?thesis using assms
      by (auto simp: execute_copy_def intro!: safely_get [OF l] store_then_next1)
  next
    case (Copy2 r v0 v1)
    then have g: "wr (regs_of cf) r" "wr (regs_of cf) (r + 1)" "rd (regs_of cf) v0" "rd (regs_of cf) v1"
        "start (cfn_instrs cf) (ip_at (m_ip m) + 1)" using assms(2) by auto
    have "safely (machine_ok ev cx K) (execute_copy_2 r v0 v1 m)"
      unfolding execute_copy_2_def
      apply (rule safely_get [OF l g(4)])
      apply (rule safely_get [OF l g(3)])
      apply (rule safely_set [OF assms(1) g(1)])
      apply (rule store_then_next1)
      using g by simp_all
    then show ?thesis using Copy2 by simp
  next
    case (CopySpan r v len)
    then have "safely (\<lambda>m'. running ev cx K cf sh k b 0 m' \<and> m_ip m' = m_ip m) (copy_slots r (span_slots v len) m)"
      using copy_slots_safe [OF assms(1)] assms(2) by (simp add: span_slots_def)
    then show ?thesis using CopySpan assms(2)
      by (auto simp: execute_copy_span_def execute_copy_span_impl_def intro!: safely_bind machine_ok_next1)
  next
    case (CopyMany r v0 v1)
    then obtain ss n where ss: "slots_after (cfn_instrs cf) (ip_at (m_ip m) + 1) = Some (ss, n)"
        "list_all (wr (regs_of cf)) (span_slots r (2 + length ss))" "list_all (rd (regs_of cf)) ([v0, v1] @ ss)"
        "start (cfn_instrs cf) (ip_at (m_ip m) + 2 + int n)"
      using assms(2) by (auto split: option.splits)
    have r: "running ev cx K cf sh k b 0 (next_instr m)"
      using running_next [OF assms(1)] by (simp add: next_instr_def)
    have "slots_from (m_ip (next_instr m)) = Done (ss, n)"
      by (rule slots_from_Done [OF _ ss(1) [folded ip_simps(2)]])
        (use running_locals [OF r] in \<open>simp add: locals_ok_def\<close>)
    moreover have "safely (\<lambda>m'. running ev cx K cf sh k b 0 m' \<and> m_ip m' = m_ip (next_instr m))
        (copy_slots r ([v0, v1] @ ss) (next_instr m))"
      using copy_slots_safe [OF r ss(3)] ss(2) by simp
    then have "safely (machine_ok ev cx K) (ex_then (copy_slots r ([v0, v1] @ ss) (next_instr m))
        (\<lambda>m. Done (next_instr (next_instr_at n m))))"
      by (rule safely_bind) (use ss(4) in \<open>auto simp: algebra_simps intro!: machine_ok_next1 [OF running_next]\<close>)
    ultimately show ?thesis using CopyMany
      by (simp add: execute_copy_many_def Let_def del: copy_slots.simps)
  qed (use assms in \<open>simp_all add: execute_copy_const_def store_then_next1\<close>)
qed

section \<open>Branches\<close>

lemma branch_binop_safe:
  assumes "running ev cx K cf sh k b 0 m" and "rd (regs_of cf) x"
    and "start (cfn_instrs cf) (ip_at (m_ip m) + off)" and "start (cfn_instrs cf) (ip_at (m_ip m) + 1)"
  shows "rd (regs_of cf) y \<Longrightarrow> safely (machine_ok ev cx K) (execute_branch_binop x y off f m)"
    and "safely (machine_ok ev cx K) (execute_branch_binop_imm16_rhs x c off f m)"
    and "safely (machine_ok ev cx K) (execute_branch_binop_imm16_lhs c x off f m)"
  unfolding execute_branch_binop_def execute_branch_binop_imm16_rhs_def execute_branch_binop_imm16_lhs_def
  using machine_ok_branch [OF assms(1,3)] machine_ok_next1 [OF assms(1,4)]
  by (auto intro!: safely_get [OF running_locals [OF assms(1)]] simp: assms(2))

lemma fetch_branch_table_offset_safe:
  assumes "locals_ok cf b n m" and "rd (regs_of cf) i" and "len \<noteq> 0"
    and "\<And>j. j < unat len \<Longrightarrow> safely P (f (Suc j))"
  shows "safely P (ex_then (fetch_branch_table_offset ev i len m) f)"
  unfolding fetch_branch_table_offset_def ex_then_assoc
proof (rule safely_get [OF assms(1,2)])
  fix u :: untyped_val
  have "unat (min (read_as32 u) (len - 1)) \<le> unat (len - 1)" by (simp add: word_le_nat_alt [symmetric])
  moreover have "unat (len - 1) < unat len"
    using assms(3) by (metis diff_less unat_gt_0 unat_minus_one zero_less_one)
  ultimately have "unat (min (read_as32 u) (len - 1)) < unat len" by simp
  then show "safely P (ex_then (if len = 0 \<and> overflow_checks (ev_target ev) then Aborts
      else Done (unat (min (read_as32 u) (len - 1)) + 1)) f)"
    using assms(3,4) by simp
qed

lemma branch_table_span_safe:
  assumes "running ev cx K cf sh k b 0 m"
    and "branch_ok (ev_comparator ev) (cfn_instrs cf) (ip_at (m_ip m)) (regs_of cf) cs (BranchTableSpan i len)"
  shows "safely (machine_ok ev cx K) (execute_branch_table_span ev i len m)"
proof -
  note l = running_locals [OF assms(1)]
  obtain vals n where w: "word_at (cfn_instrs cf) (ip_at (m_ip m) + 1) = Some (PSlotSpan vals n)"
      and i: "rd (regs_of cf) i" "len \<noteq> 0" and v: "list_all (rd (regs_of cf)) (span_slots vals n)"
      and t: "\<And>j. j < unat len \<Longrightarrow> table_target_ok (cfn_instrs cf) (regs_of cf) n (ip_at (m_ip m) + 2 + int j)"
    using assms(2) by (auto split: option.splits param_word.splits simp: list_all_iff)
  have r1: "running ev cx K cf sh k b 0 (next_instr m)"
    using running_next [OF assms(1)] by (simp add: next_instr_def)
  have p1: "param_at 0 (next_instr m) = Done (Some (PSlotSpan vals n))"
    by (rule param_at_Done [OF running_locals [OF r1]]) (simp add: w)
  show ?thesis unfolding execute_branch_table_span_def Let_def
  proof (rule fetch_branch_table_offset_safe [OF l i])
    fix j assume "j < unat len"
    let ?m = "next_instr_at (Suc j) (next_instr m)"
    obtain res off where tt: "word_at (cfn_instrs cf) (ip_at (m_ip m) + 2 + int j) = Some (BranchTableTarget res off)"
        "start (cfn_instrs cf) (ip_at (m_ip m) + 2 + int j + off)"
        "list_all (wr (regs_of cf)) (span_slots res n)"
      using t [OF \<open>j < unat len\<close>] by (auto simp: table_target_ok_def split: option.splits param_word.splits)
    have at: "ip_at (m_ip ?m) = ip_at (m_ip m) + 2 + int j" by simp
    have r: "running ev cx K cf sh k b 0 ?m" by (rule running_next [OF r1])
    have p: "param_at 0 ?m = Done (Some (BranchTableTarget res off))"
      by (rule param_at_Done [OF running_locals [OF r]]) (simp add: at tt(1) del: ip_simps)
    have "safely (\<lambda>m'. running ev cx K cf sh k b 0 m' \<and> m_ip m' = m_ip ?m)
        (copy_slots res (span_slots vals n) ?m)"
      using copy_slots_safe [OF r v] tt(3) by (simp add: span_slots_def)
    then have "safely (machine_ok ev cx K)
        (ex_then (execute_copy_span_impl res vals n ?m) (\<lambda>m. Done (branch_to off m)))"
      unfolding execute_copy_span_impl_def
      by (rule safely_bind) (use tt(2) in \<open>auto simp: algebra_simps intro!: machine_ok_branch\<close>)
    then show "safely (machine_ok ev cx K) (ex_then (param_at 0 (next_instr m)) (\<lambda>p. case p of
       Some (PSlotSpan vals len) \<Rightarrow>
          ex_then (param_at 0 (next_instr_at (Suc j) (next_instr m))) (\<lambda>p. case p of
            Some (BranchTableTarget results offset) \<Rightarrow>
              ex_then (execute_copy_span_impl results vals len (next_instr_at (Suc j) (next_instr m)))
                (\<lambda>m. Done (branch_to offset m))
          | _ \<Rightarrow> Undefined)
     | _ \<Rightarrow> Undefined))" by (simp add: p1 p)
  qed
qed

lemma branches_safe:
  assumes "running ev cx K cf sh k b 0 m"
    and "branch_ok (ev_comparator ev) (cfn_instrs cf) (ip_at (m_ip m)) (regs_of cf) (cfn_consts cf) i"
  shows "safely (machine_ok ev cx K) (execute_branches ev i m)"
proof -
  note l = running_locals [OF assms(1)]
  show ?thesis
  proof (cases i)
    case (Branch off)
    then show ?thesis using assms by (simp add: machine_ok_branch)
  next
    case (BranchTable0 j len)
    have "safely (machine_ok ev cx K) (execute_branch_table_0 ev j len m)"
      unfolding execute_branch_table_0_def
      by (rule fetch_branch_table_offset_safe [OF l])
        (use assms BranchTable0 in \<open>auto simp: list_all_iff algebra_simps intro!: machine_ok_next\<close>)
    then show ?thesis using BranchTable0 by simp
  next
    case (BranchTableSpan j len)
    then show ?thesis using branch_table_span_safe [OF assms(1)] assms(2) by simp
  next
    case (BranchCmpFallback x y ps)
    then obtain c off where g: "rd (regs_of cf) x" "rd (regs_of cf) y" "rd (regs_of cf) ps" "ps < 0"
        "start (cfn_instrs cf) (ip_at (m_ip m) + 1)"
        "ev_comparator ev (cfn_consts cf ! nat (int (rg_consts (regs_of cf)) + ps)) = Some (c, off)"
        "start (cfn_instrs cf) (ip_at (m_ip m) + off)"
      using assms(2) by (auto split: option.splits)
    have "get_stack_slot ps m = Done (cfn_consts cf ! nat (int (rg_consts (regs_of cf)) + ps))"
      using get_const [OF l g(3,4)] by (simp add: regs_of_def)
    then show ?thesis using BranchCmpFallback branch_binop_safe(1) [OF assms(1) g(1,7,5,2)] g(6)
      by (simp add: execute_branch_cmp_fallback_def)
  qed (use assms in \<open>simp_all add: branch_binop_safe\<close>)
qed

section \<open>Entities\<close>

lemma get_entity_Done:
  assumes "inst_fits (m_store m) (m_instance m) sh"
  obtains ie where "resolve_instance (m_store m) (m_instance m) = Ok ie" "cached_instance m = Done ie"
    and "\<And>sel i. get_entity sel i m = (if i < length (sel ie) then Done (sel ie ! i) else Undefined)"
    and "sh_globals sh \<le> length (ie_globals ie)" "sh_memories sh \<le> length (ie_memories ie)"
    and "sh_tables sh \<le> length (ie_tables ie)" "sh_datas sh \<le> length (ie_data_segments ie)"
    and "sh_elems sh \<le> length (ie_elem_segments ie)"
    and "list_all2 (\<lambda>f a. \<exists>e. resolve_func (m_store m) f = Ok e \<and> ty_arity (func_entity_ty e) = a)
           (ie_funcs ie) (sh_funcs sh)"
    and "map ty_arity (ie_func_types ie) = sh_types sh"
proof -
  obtain ie where ie: "resolve_instance (m_store m) (m_instance m) = Ok ie"
      "list_all2 (\<lambda>f a. \<exists>e. resolve_func (m_store m) f = Ok e \<and> ty_arity (func_entity_ty e) = a)
         (ie_funcs ie) (sh_funcs sh)"
      "map ty_arity (ie_func_types ie) = sh_types sh"
      "sh_globals sh \<le> length (ie_globals ie)" "sh_memories sh \<le> length (ie_memories ie)"
      "sh_tables sh \<le> length (ie_tables ie)" "sh_datas sh \<le> length (ie_data_segments ie)"
      "sh_elems sh \<le> length (ie_elem_segments ie)"
    using assms unfolding inst_fits_def by blast
  have "cached_instance m = Done ie" using ie(1) by (simp add: cached_instance_def)
  then show thesis using that [OF ie(1) _ _ ie(4,5,6,7,8,2,3)] by (simp add: get_entity_def)
qed

lemma safely_entity:
  assumes "inst_fits (m_store m) (m_instance m) sh"
  shows "i < sh_globals sh \<Longrightarrow> safely (\<lambda>_. True) (get_entity ie_globals i m)"
    and "i < sh_memories sh \<Longrightarrow> safely (\<lambda>_. True) (get_entity ie_memories i m)"
    and "i < sh_tables sh \<Longrightarrow> safely (\<lambda>_. True) (get_entity ie_tables i m)"
    and "i < length (sh_funcs sh) \<Longrightarrow> safely (\<lambda>_. True) (get_entity ie_funcs i m)"
    and "i < sh_datas sh \<Longrightarrow> safely (\<lambda>_. True) (get_entity ie_data_segments i m)"
    and "i < sh_elems sh \<Longrightarrow> safely (\<lambda>_. True) (get_entity ie_elem_segments i m)"
proof -
  obtain ie where e: "\<And>(sel :: instance_entity \<Rightarrow> handle list) i.
        get_entity sel i m = (if i < length (sel ie) then Done (sel ie ! i) else Undefined)"
      and len: "sh_globals sh \<le> length (ie_globals ie)" "sh_memories sh \<le> length (ie_memories ie)"
      "sh_tables sh \<le> length (ie_tables ie)" "sh_datas sh \<le> length (ie_data_segments ie)"
      "sh_elems sh \<le> length (ie_elem_segments ie)"
      and fs: "list_all2 (\<lambda>f a. \<exists>e. resolve_func (m_store m) f = Ok e \<and> ty_arity (func_entity_ty e) = a)
           (ie_funcs ie) (sh_funcs sh)"
    by (rule get_entity_Done [OF assms]) (rule that)
  have "length (ie_funcs ie) = length (sh_funcs sh)" using fs by (rule list_all2_lengthD)
  then show "i < sh_globals sh \<Longrightarrow> safely (\<lambda>_. True) (get_entity ie_globals i m)"
    "i < sh_memories sh \<Longrightarrow> safely (\<lambda>_. True) (get_entity ie_memories i m)"
    "i < sh_tables sh \<Longrightarrow> safely (\<lambda>_. True) (get_entity ie_tables i m)"
    "i < length (sh_funcs sh) \<Longrightarrow> safely (\<lambda>_. True) (get_entity ie_funcs i m)"
    "i < sh_datas sh \<Longrightarrow> safely (\<lambda>_. True) (get_entity ie_data_segments i m)"
    "i < sh_elems sh \<Longrightarrow> safely (\<lambda>_. True) (get_entity ie_elem_segments i m)" using e len by simp_all
qed

lemma safely_outcome: "safely (\<lambda>_. True) (ex_of_outcome r)"
  by (cases r) simp_all

lemma safely_free: "safely (\<lambda>_. True) r \<Longrightarrow> (\<And>x. safely P (f x)) \<Longrightarrow> safely P (ex_then r f)"
  by (rule safely_bind)

section \<open>Globals\<close>

lemma safely_global:
  assumes "running ev cx K cf sh k b n m" and "i < sh_globals sh" and "\<And>h g. safely P (f (h, g))"
  shows "safely P (ex_then (global_at i m) f)"
  unfolding global_at_def ex_then_assoc
  by (rule safely_free [OF safely_entity(1) [OF running_instance [OF assms(1)] assms(2)]],
      rule safely_free [OF safely_outcome]) (simp add: assms(3))

lemma global_set_safe:
  assumes "running ev cx K cf sh k b 0 m" and "i < sh_globals sh"
    and "start (cfn_instrs cf) (ip_at (m_ip m) + 1)"
  shows "safely (machine_ok ev cx K) (execute_global_set_impl i v m)"
  unfolding execute_global_set_impl_def
proof (rule safely_global [OF assms(1,2)], simp, rule machine_ok_next1)
  fix h g
  let ?st = "(m_store m)\<lparr>so_globals := (so_globals (m_store m))[snd h := g\<lparr>gl_value := v\<rparr>]\<rparr>"
  show "running ev cx K cf sh k b 0 (m\<lparr>m_store := ?st\<rparr>)"
    using running_store [OF assms(1)] store_same [of ?st "m_store m"] assms(1)
    by (simp add: running_def context_ok_def)
qed (use assms(3) in simp)

lemma globals_safe:
  assumes "running ev cx K cf sh k b 0 m"
    and "global_ok sh (cfn_instrs cf) (ip_at (m_ip m)) (regs_of cf) i"
  shows "safely (machine_ok ev cx K) (execute_globals ev i m)"
proof (cases i)
  case (GlobalGet r j)
  then show ?thesis using assms
    by (auto simp: execute_global_get_def intro!: safely_global [OF assms(1)] store_then_next1)
next
  case (GlobalSet x j)
  then show ?thesis using assms
    by (auto simp: execute_global_set_def intro!: safely_get [OF running_locals [OF assms(1)]] global_set_safe)
next
  case (RefFunc r j)
  then show ?thesis using assms
    by (auto simp: execute_ref_func_def intro!: store_then_next1
        safely_free [OF safely_entity(4) [OF running_instance [OF assms(1)]]])
qed (use assms in \<open>simp_all add: global_set_safe\<close>)

section \<open>Loads and stores\<close>

lemma safely_memory:
  assumes "running ev cx K cf sh k b n m" and "i = 0 \<or> i < sh_memories sh" and "\<And>h bs. safely P (f (h, bs))"
  shows "safely P (ex_then (fetch_memory_bytes i m) f)"
proof -
  obtain ie where ie: "cached_instance m = Done ie"
    using get_entity_Done [OF running_instance [OF assms(1)]] by metis
  show ?thesis unfolding fetch_memory_bytes_def
    using assms(2) by (auto simp: ie ex_then_assoc assms(3) split: list.split
        intro!: safely_free [OF safely_outcome]
          safely_free [OF safely_entity(2) [OF running_instance [OF assms(1)]]])
qed

lemma safely_optional_memory:
  assumes "running ev cx K cf sh k b 0 m"
    and "optional_memory_ok sh (cfn_instrs cf) (ip_at (m_ip m) + int d)"
    and "\<And>i m'. running ev cx K cf sh k b 0 m' \<Longrightarrow> i = 0 \<or> i < sh_memories sh \<Longrightarrow>
           start (cfn_instrs cf) (ip_at (m_ip m') + int d) \<Longrightarrow> safely P (f (i, m'))"
  shows "safely P (ex_then (fetch_optional_memory d m) f)"
proof -
  note l = running_locals [OF assms(1)]
  show ?thesis
  proof (cases "\<exists>i. word_at (cfn_instrs cf) (ip_at (m_ip m) + int d) = Some (MemoryIndex i)")
    case True
    then obtain i where i: "word_at (cfn_instrs cf) (ip_at (m_ip m) + int d) = Some (MemoryIndex i)" ..
    have "running ev cx K cf sh k b 0 (next_instr m)"
      using running_next [OF assms(1)] by (simp add: next_instr_def)
    then show ?thesis using assms(2,3) i
      by (simp add: fetch_optional_memory_def param_at_Done [OF l i] optional_memory_ok_def algebra_simps)
  next
    case False
    then have s: "start (cfn_instrs cf) (ip_at (m_ip m) + int d)"
      using assms(2) by (auto simp: optional_memory_ok_def split: option.splits param_word.splits)
    then show ?thesis using assms(1,3)
      by (simp add: fetch_optional_memory_def param_at_start [OF l s])
  qed
qed

lemma then_next_safe:
  "safely (handled_ok (\<lambda>m'. running ev cx K cf sh k b 0 m' \<and> m_ip m' = m_ip m)) r \<Longrightarrow>
    start (cfn_instrs cf) (ip_at (m_ip m) + int d) \<Longrightarrow>
    safely (handled_ok (machine_ok ev cx K)) (then_next d r)"
  by (cases r) (auto simp: then_next_def handled_ok_def intro!: machine_ok_next split: sum.splits)

lemma load_extend_safe:
  assumes "running ev cx K cf sh k b 0 m" and "i = 0 \<or> i < sh_memories sh" and "wr (regs_of cf) r"
  shows "safely (handled_ok (\<lambda>m'. running ev cx K cf sh k b 0 m' \<and> m_ip m' = m_ip m)) (execute_load_extend i r f m)"
  unfolding execute_load_extend_def
proof (rule safely_memory [OF assms(1,2)])
  fix h bs
  have "safely (\<lambda>m'. running ev cx K cf sh k b 0 m' \<and> m_ip m' = m_ip m) (set_stack_slot r v m)" for v
    using running_set [OF assms(1,3), of v] by (elim exE conjE) simp
  then show "safely (handled_ok (\<lambda>m'. running ev cx K cf sh k b 0 m' \<and> m_ip m' = m_ip m))
     (case (h, bs) of (_, bs) \<Rightarrow> case f bs of Inl e \<Rightarrow> traps e m | Inr v \<Rightarrow> goes_on (set_stack_slot r v m))"
    by (simp add: safely_traps safely_goes_on split: sum.split)
qed

lemma store_wrap_safe:
  assumes "running ev cx K cf sh k b 0 m" and "i = 0 \<or> i < sh_memories sh"
  shows "safely (handled_ok (\<lambda>m'. running ev cx K cf sh k b 0 m' \<and> m_ip m' = m_ip m)) (execute_store_wrap i f m)"
  unfolding execute_store_wrap_def
proof (rule safely_memory [OF assms])
  fix h bs
  have "running ev cx K cf sh k b 0 (m\<lparr>m_store := put_memory_bytes g bs' (m_store m)\<rparr>)" for g bs'
    using running_store [OF assms(1)] store_same [of "put_memory_bytes g bs' (m_store m)" "m_store m"] assms(1)
    by (simp add: running_def context_ok_def put_memory_bytes_def Let_def)
  then show "safely (handled_ok (\<lambda>m'. running ev cx K cf sh k b 0 m' \<and> m_ip m' = m_ip m))
     (case (h, bs) of (h, bs) \<Rightarrow> case f bs of Inl e \<Rightarrow> traps e m
       | Inr bs' \<Rightarrow> Done (Inr (case h of Some h \<Rightarrow> m\<lparr>m_store := put_memory_bytes h bs' (m_store m)\<rparr> | None \<Rightarrow> m)))"
    using assms(1) by (simp add: safely_traps handled_ok_def split: sum.split option.split)
qed

lemma reg_and_offset_Done:
  assumes "locals_ok cf b n m" and "reg_word_ok (cfn_instrs cf) (ip_at (m_ip m) + 1) (regs_of cf)"
  obtains s hi where "fetch_reg_and_offset_hi m = Done (s, hi)" "rd (regs_of cf) s"
proof -
  obtain s hi where "word_at (cfn_instrs cf) (ip_at (m_ip m) + 1) = Some (SlotAndImm32 s hi)" "rd (regs_of cf) s"
    using assms(2) by (auto simp: reg_word_ok_def split: option.splits param_word.splits)
  then show thesis
    using that param_at_Done [OF assms(1)] by (simp add: fetch_reg_and_offset_hi_def)
qed

lemma value_and_offset_Done:
  assumes "locals_ok cf b n m"
    and "case word_at (cfn_instrs cf) (ip_at (m_ip m) + 1) of Some (Imm16AndImm32 _ _) \<Rightarrow> True | _ \<Rightarrow> False"
  obtains v hi where "fetch_value_and_offset_imm m = Done (v, hi)"
proof -
  obtain v hi where "word_at (cfn_instrs cf) (ip_at (m_ip m) + 1) = Some (Imm16AndImm32 v hi)"
    using assms(2) by (auto split: option.splits param_word.splits)
  then show thesis
    using that param_at_Done [OF assms(1)] by (simp add: fetch_value_and_offset_imm_def)
qed

lemma memory_safe:
  assumes "running ev cx K cf sh k b 0 m"
    and "memory_ok_at sh (cfn_instrs cf) (ip_at (m_ip m)) (regs_of cf) i"
  shows "safely (handled_ok (machine_ok ev cx K)) (execute_memory ev i m)"
proof -
  note l = running_locals [OF assms(1)]
  show ?thesis
  proof (cases i)
    case (Load op r lo)
    then have g: "wr (regs_of cf) r" "reg_word_ok (cfn_instrs cf) (ip_at (m_ip m) + 1) (regs_of cf)"
        "optional_memory_ok sh (cfn_instrs cf) (ip_at (m_ip m) + int 2)" using assms(2) by simp_all
    obtain s hi where s: "fetch_reg_and_offset_hi m = Done (s, hi)" "rd (regs_of cf) s"
      by (rule reg_and_offset_Done [OF l g(2)])
    have "safely (handled_ok (machine_ok ev cx K)) (execute_load_impl ev op r lo m)"
      unfolding execute_load_impl_def s(1)
      apply simp
      apply (rule safely_optional_memory [OF assms(1) g(3)])
      apply (simp only: prod.case)
      apply (rule safely_get [OF running_locals s(2)], assumption)
      apply (rule then_next_safe [OF load_extend_safe [OF _ _ g(1)]], assumption+)
      done
    then show ?thesis using Load by simp
  next
    case (LoadAt op r a)
    then have g: "wr (regs_of cf) r" "optional_memory_ok sh (cfn_instrs cf) (ip_at (m_ip m) + int 1)"
      using assms(2) by simp_all
    have "safely (handled_ok (machine_ok ev cx K)) (execute_load_at_impl op r a m)"
      unfolding execute_load_at_impl_def
      apply (rule safely_optional_memory [OF assms(1) g(2)])
      apply (simp only: prod.case)
      apply (rule then_next_safe [OF load_extend_safe [OF _ _ g(1)]], assumption+)
      done
    then show ?thesis using LoadAt by simp
  next
    case (LoadOffset16 op r ptr off)
    then show ?thesis using assms
      by (auto simp: execute_load_offset16_impl_def intro!: safely_get [OF l] then_next_safe load_extend_safe)
  next
    case (Store op ptr lo)
    then have g: "rd (regs_of cf) ptr" "reg_word_ok (cfn_instrs cf) (ip_at (m_ip m) + 1) (regs_of cf)"
        "optional_memory_ok sh (cfn_instrs cf) (ip_at (m_ip m) + int 2)" using assms(2) by simp_all
    obtain s hi where s: "fetch_reg_and_offset_hi m = Done (s, hi)" "rd (regs_of cf) s"
      by (rule reg_and_offset_Done [OF l g(2)])
    have "safely (handled_ok (machine_ok ev cx K)) (execute_store ev op ptr lo m)"
      unfolding execute_store_def s(1)
      apply simp
      apply (rule safely_optional_memory [OF assms(1) g(3)])
      apply (simp only: prod.case)
      apply (rule safely_get [OF running_locals g(1)], assumption)
      apply (rule safely_get [OF running_locals s(2)], assumption)
      apply (rule then_next_safe [OF store_wrap_safe], assumption+)
      done
    then show ?thesis using Store by simp
  next
    case (StoreImm op ptr lo)
    then have g: "rd (regs_of cf) ptr"
        "case word_at (cfn_instrs cf) (ip_at (m_ip m) + 1) of Some (Imm16AndImm32 _ _) \<Rightarrow> True | _ \<Rightarrow> False"
        "optional_memory_ok sh (cfn_instrs cf) (ip_at (m_ip m) + int 2)" using assms(2) by simp_all
    obtain v hi where v: "fetch_value_and_offset_imm m = Done (v, hi)"
      by (rule value_and_offset_Done [OF l g(2)])
    have "safely (handled_ok (machine_ok ev cx K)) (execute_store_imm ev op ptr lo m)"
      unfolding execute_store_imm_def v
      apply simp
      apply (rule safely_optional_memory [OF assms(1) g(3)])
      apply (simp only: prod.case)
      apply (rule safely_get [OF running_locals g(1)], assumption)
      apply (rule then_next_safe [OF store_wrap_safe], assumption+)
      done
    then show ?thesis using StoreImm by simp
  next
    case (StoreOffset16 op ptr v off)
    then show ?thesis using assms
      by (auto simp: execute_store_offset16_def intro!: safely_get [OF l] then_next_safe store_wrap_safe)
  next
    case (StoreOffset16Imm op ptr off v)
    then show ?thesis using assms
      by (auto simp: execute_store_offset16_imm16_def intro!: safely_get [OF l] then_next_safe store_wrap_safe)
  next
    case (StoreAt op v a)
    then have g: "rd (regs_of cf) v" "optional_memory_ok sh (cfn_instrs cf) (ip_at (m_ip m) + int 1)"
      using assms(2) by simp_all
    have "safely (handled_ok (machine_ok ev cx K)) (execute_store_at op v a m)"
      unfolding execute_store_at_def
      apply (rule safely_optional_memory [OF assms(1) g(2)])
      apply (simp only: prod.case)
      apply (rule safely_get [OF running_locals g(1)], assumption)
      apply (rule then_next_safe [OF store_wrap_safe], assumption+)
      done
    then show ?thesis using StoreAt by simp
  next
    case (StoreAtImm op a v)
    then have g: "optional_memory_ok sh (cfn_instrs cf) (ip_at (m_ip m) + int 1)"
      using assms(2) by simp_all
    have "safely (handled_ok (machine_ok ev cx K)) (execute_store_at_imm16 op a v m)"
      unfolding execute_store_at_imm16_def
      apply (rule safely_optional_memory [OF assms(1) g])
      apply (simp only: prod.case)
      apply (rule then_next_safe [OF store_wrap_safe], assumption+)
      done
    then show ?thesis using StoreAtImm by simp
  qed
qed

end
