(* ===== verification/Machine_Returns.thy ===== *)
theory Machine_Returns
  imports Machine_Locals
begin

text \<open>
  Returns keep the invariant of the machine: the results go to cells of the caller, which are its
  registers, or to the cells reserved for the root; then the frame of the caller is the one on top.
  When the root returns, exactly its results are on the stack, all of them written.
\<close>

section \<open>The frame that returns\<close>

lemma running_frame:
  assumes "running ev cx K cf sh k b n m"
  obtains f fs where "cs_frames (m_calls m) = f # fs" "offsets_ok cf b f"
    "hv_ok (cs_instances (m_calls m))" "hv_items (cs_instances (m_calls m)) \<noteq> []"
    "hd (hv_items (cs_instances (m_calls m))) = m_instance m"
    "frames_ok ev cx K (m_store m) (vs_values (m_values m)) fs
       (below_instances f (hv_items (cs_instances (m_calls m)))) b (cf_results f) k"
  using assms unfolding running_def context_ok_def by blast

lemma running_values:
  assumes "running ev cx K cf sh k b n m" and "cs_frames (m_calls m) = f # fs"
    and "vs = (m_values m)\<lparr>vs_values := vals\<rparr>" and "length vals = vs_len (m_values m)"
    and "cells_ok cf b vals"
    and "frames_ok ev cx K (m_store m) vals fs
           (below_instances f (hv_items (cs_instances (m_calls m)))) b (cf_results f) k"
  shows "running ev cx K cf sh k b n (with_values vs m)"
proof -
  have "locals_ok cf b n m" "context_ok ev cx K cf sh k b m" using assms(1) by (simp_all add: running_def)
  then show ?thesis using assms(2-6)
    unfolding running_def locals_ok_def context_ok_def by (auto simp: vs_len_def stack_ptr_at_def height_ok_def)
qed

text \<open>The cell result \<open>j\<close> of the running function goes to.\<close>

lemma result_cell:
  assumes "frames_ok ev cx K st vals fs insts b r k" and "j < k" and "b \<le> length vals"
  shows "\<exists>i. (case fs of [] \<Rightarrow> int i = int j | g # _ \<Rightarrow> int i = int (cf_base g) + (r + int j))
           \<and> i < b \<and> (\<forall>v. frames_ok ev cx K st (vals[i := Some v]) fs insts b r k)"
proof (cases fs)
  case Nil
  then show ?thesis using assms by auto
next
  case (Cons g gs)
  then obtain cg sg kg bg where g: "offsets_ok cg bg g" "b = bg + cfn_len_stack_slots cg" "cells_ok cg bg vals"
      "code_ok ev cx sg kg cg" "insts \<noteq> []" "inst_fits st (hd insts) sg"
      "ip_code (cf_instr_ptr g) = cfn_instrs cg" "start (cfn_instrs cg) (ip_at (cf_instr_ptr g))"
      "list_all (wr (regs_of cg)) (span_slots r k)"
      "frames_ok ev cx K st vals gs (below_instances g insts) bg (cf_results g) kg"
    using assms(1) by auto
  have "wr (regs_of cg) (r + int j)" using g(9) assms(2) by (simp add: span_slots_def list_all_iff)
  then obtain i where i: "int i = int (bg + length (cfn_consts cg)) + (r + int j)"
      "bg + length (cfn_consts cg) \<le> i" "i < b"
    using g(2) by (auto simp: wr_def regs_of_def intro!: that [of "nat (int (bg + length (cfn_consts cg)) + (r + int j))"])
  have "frames_ok ev cx K st (vals[i := Some v]) gs (below_instances g insts) bg (cf_results g) kg" for v
    using frames_ok_agree [OF g(10)] assms(3) g(2) i(2) by auto
  then have "frames_ok ev cx K st (vals[i := Some v]) fs insts b r k" for v
    unfolding Cons by (intro frames_ok_ConsI [OF g(1,2) cells_ok_write [OF g(3) i(2)] g(4-9)])
  then show ?thesis using Cons i g(1) by (auto simp: offsets_ok_def)
qed

text \<open>The first \<open>j\<close> results of the root are there.\<close>

definition delivered :: "nat \<Rightarrow> ('h, 'l) machine \<Rightarrow> bool" where
  "delivered j m \<longleftrightarrow>
     (length (cs_frames (m_calls m)) = 1 \<longrightarrow> (\<forall>i < j. vs_values (m_values m) ! i \<noteq> None))"

lemma caller_results_Done:
  assumes "cs_frames (m_calls m) = f # fs"
  shows "return_caller_results m =
    Done (case fs of [] \<Rightarrow> (root_stack_ptr (m_values m), 0)
          | g # _ \<Rightarrow> (stack_ptr_at (m_values m) (cf_base g), cf_results f))"
  using assms by (simp add: return_caller_results_def cs_peek_2_def split: list.split)

lemma write_result:
  assumes "running ev cx K cf sh k b n m" and "return_caller_results m = Done (sp, res)"
    and "j < k" and "delivered j m"
  shows "\<exists>vs. slots_set sp (res + int j) v (m_values m) = Done vs
    \<and> running ev cx K cf sh k b n (with_values vs m)
    \<and> return_caller_results (with_values vs m) = Done (sp, res) \<and> delivered (Suc j) (with_values vs m)"
proof -
  obtain f fs where f: "cs_frames (m_calls m) = f # fs" "frames_ok ev cx K (m_store m) (vs_values (m_values m)) fs
       (below_instances f (hv_items (cs_instances (m_calls m)))) b (cf_results f) k"
    using assms(1) by (rule running_frame)
  have l: "locals_ok cf b n m" by (rule running_locals [OF assms(1)])
  then have b: "b \<le> vs_len (m_values m)" by (simp add: locals_ok_def)
  then obtain i where i: "case fs of [] \<Rightarrow> int i = int j | g # _ \<Rightarrow> int i = int (cf_base g) + (cf_results f + int j)"
      "i < b" "\<And>v. frames_ok ev cx K (m_store m) ((vs_values (m_values m))[i := Some v]) fs
         (below_instances f (hv_items (cs_instances (m_calls m)))) b (cf_results f) k"
    using result_cell [OF f(2) assms(3)] by (auto simp: vs_len_def)
  let ?vs = "(m_values m)\<lparr>vs_values := (vs_values (m_values m))[i := Some v]\<rparr>"
  have at: "slot_at (m_values m) sp (res + int j) = Some i"
    using assms(2) i(1,2) b caller_results_Done [OF f(1)]
    by (cases fs) (auto simp: slot_at_def root_stack_ptr_def stack_ptr_at_def)
  have cells: "cells_ok cf b ((vs_values (m_values m))[i := Some v])"
    using l i(2) by (auto simp: locals_ok_def cells_ok_def)
  have r: "running ev cx K cf sh k b n (with_values ?vs m)"
    by (rule running_values [OF assms(1) f(1) refl _ cells i(3)]) (simp add: vs_len_def)
  have "return_caller_results (with_values ?vs m) = return_caller_results m"
    using caller_results_Done [of m f fs] caller_results_Done [of "with_values ?vs m" f fs] f(1)
    by (cases fs) (simp_all add: root_stack_ptr_def stack_ptr_at_def)
  moreover have "delivered (Suc j) (with_values ?vs m)"
    unfolding delivered_def
  proof (intro impI allI)
    fix q assume "length (cs_frames (m_calls (with_values ?vs m))) = 1" "q < Suc j"
    then have "fs = []" using f(1) by simp
    then have "i = j" using i(1) by simp
    have "j < length (vs_values (m_values m))" using \<open>i = j\<close> i(2) b by (simp add: vs_len_def)
    moreover have "vs_values (m_values m) ! q \<noteq> None" if "q < j"
      using assms(4) that f(1) \<open>fs = []\<close> by (simp add: delivered_def)
    ultimately show "vs_values (m_values (with_values ?vs m)) ! q \<noteq> None"
      using \<open>q < Suc j\<close> \<open>i = j\<close> by (cases "q = j") auto
  qed
  ultimately show ?thesis using at r assms(2) by (auto simp: slots_set_def)
qed

lemma return_slots_safe:
  assumes "running ev cx K cf sh k b n m" and "return_caller_results m = Done (sp, res)"
    and "j + length vs \<le> k" and "delivered j m" and "list_all (rd (regs_of cf)) vs"
  shows "safely (\<lambda>m'. running ev cx K cf sh k b n m' \<and> delivered (j + length vs) m')
    (return_slots sp (res + int j) vs m)"
  using assms
proof (induction vs arbitrary: j m)
  case (Cons v vs)
  obtain x where x: "get_stack_slot v m = Done x"
    using get_slot_Done [OF running_locals [OF Cons.prems(1)]] Cons.prems(5) by auto
  obtain w where w: "slots_set sp (res + int j) x (m_values m) = Done w"
      "running ev cx K cf sh k b n (with_values w m)"
      "return_caller_results (with_values w m) = Done (sp, res)" "delivered (Suc j) (with_values w m)"
    using write_result [OF Cons.prems(1,2) _ Cons.prems(4)] Cons.prems(3) by force
  have "safely (\<lambda>m'. running ev cx K cf sh k b n m' \<and> delivered (Suc j + length vs) m')
      (return_slots sp (res + int (Suc j)) vs (with_values w m))"
    by (rule Cons.IH [OF w(2,3) _ w(4)]) (use Cons.prems in simp_all)
  then show ?case using x w(1) by (simp add: algebra_simps)
qed simp

section \<open>Popping the frame\<close>

definition finished :: "contract \<Rightarrow> root_frame \<Rightarrow> ('h, 'l) machine \<Rightarrow> bool" where
  "finished cx K m \<longleftrightarrow>
     cs_frames (m_calls m) = [] \<and> length (vs_values (m_values m)) = rt_results K
     \<and> None \<notin> set (vs_values (m_values m)) \<and> store_ok cx (m_store m)"

fun control_ok :: "('h, 'l) engine_env \<Rightarrow> contract \<Rightarrow> root_frame \<Rightarrow> control \<times> ('h, 'l) machine \<Rightarrow> bool" where
  "control_ok ev cx K (Go_On, m) = machine_ok ev cx K m"
| "control_ok ev cx K (Break, m) = finished cx K m"

text \<open>The frame of the caller takes over, with the registers and the instance that are its own.\<close>

lemma resume_caller:
  assumes "frames_ok ev cx K (m_store m) (vs_values vs) (g # gs) insts b r k"
    and "cs_frames cs = g # gs" and "hv_ok (cs_instances cs)" and "hv_items (cs_instances cs) = insts"
    and "vs_len vs = b" and "height_ok K vs" and "depth_ok K cs"
    and "store_ok cx (m_store m)" and "m_values m = vs" and "m_calls m = cs" and "m_instance m = hd insts"
  shows "machine_ok ev cx K (init_call_frame g m)"
proof -
  obtain cg sg kg bg where g: "offsets_ok cg bg g" "b = bg + cfn_len_stack_slots cg" "cells_ok cg bg (vs_values vs)"
      "code_ok ev cx sg kg cg" "insts \<noteq> []" "inst_fits (m_store m) (hd insts) sg"
      "ip_code (cf_instr_ptr g) = cfn_instrs cg" "start (cfn_instrs cg) (ip_at (cf_instr_ptr g))"
      "list_all (wr (regs_of cg)) (span_slots r k)"
      "frames_ok ev cx K (m_store m) (vs_values vs) gs (below_instances g insts) bg (cf_results g) kg"
    using assms(1) by auto
  have "running ev cx K cg sg kg bg 0 (init_call_frame g m)"
    unfolding running_def locals_ok_def context_ok_def init_call_frame_def
    using g assms(2-11) by (auto simp: offsets_ok_def)
  then show ?thesis by (rule machine_okI) (use g(8) in \<open>simp add: init_call_frame_def\<close>)
qed

lemma pop_instances:
  assumes "hv_ok v" and "hv_items v \<noteq> []"
  shows "fst (hv_pop v) = Some (hd (hv_items v))" "hv_items (snd (hv_pop v)) = tl (hv_items v)"
    "hv_ok (snd (hv_pop v))"
  using hv_pop_items [OF assms(1)] assms(2) by (auto split: list.splits)

text \<open>What popping the running frame gives, in one fact.\<close>

lemma pop_frame:
  assumes "running ev cx K cf sh k b n m" and "cs_frames (m_calls m) = f # fs"
  obtains calls popped where "cs_pop (m_calls m) = (Some (f, popped), calls)"
    "cs_frames calls = fs" "hv_ok (cs_instances calls)"
    "hv_items (cs_instances calls) = below_instances f (hv_items (cs_instances (m_calls m)))"
    "cs_recursion_limit calls = cs_recursion_limit (m_calls m)"
    "popped = (if cf_changed_instance f then Some (m_instance m) else None)"
proof -
  have h: "hv_ok (cs_instances (m_calls m))" "hv_items (cs_instances (m_calls m)) \<noteq> []"
    "hd (hv_items (cs_instances (m_calls m))) = m_instance m"
    using assms(1) by (meson running_frame)+
  let ?i = "if cf_changed_instance f then hv_pop (cs_instances (m_calls m)) else (None, cs_instances (m_calls m))"
  let ?calls = "(m_calls m)\<lparr>cs_frames := fs, cs_instances := snd ?i\<rparr>"
  have "cs_pop (m_calls m) = (Some (f, fst ?i), ?calls)"
    using assms(2) by (simp add: cs_pop_def split: prod.split)
  moreover have "fst ?i = (if cf_changed_instance f then Some (m_instance m) else None)"
    using pop_instances(1) [OF h(1,2)] h(3) by simp
  moreover have "hv_ok (cs_instances ?calls)"
      "hv_items (cs_instances ?calls) = below_instances f (hv_items (cs_instances (m_calls m)))"
    using pop_instances(2,3) [OF h(1,2)] h(1) by (simp_all add: below_instances_def)
  ultimately show thesis by (intro that [of "fst ?i" ?calls]) simp_all
qed

lemma return_impl_safe:
  assumes "running ev cx K cf sh k b n m" and "delivered k m"
  shows "safely (control_ok ev cx K) (return_impl m)"
proof -
  obtain f fs where f: "cs_frames (m_calls m) = f # fs" "offsets_ok cf b f"
    "hd (hv_items (cs_instances (m_calls m))) = m_instance m"
    "frames_ok ev cx K (m_store m) (vs_values (m_values m)) fs
       (below_instances f (hv_items (cs_instances (m_calls m)))) b (cf_results f) k"
    using assms(1) by (rule running_frame)
  obtain calls popped where p: "cs_pop (m_calls m) = (Some (f, popped), calls)"
    "cs_frames calls = fs" "hv_ok (cs_instances calls)"
    "hv_items (cs_instances calls) = below_instances f (hv_items (cs_instances (m_calls m)))"
    "cs_recursion_limit calls = cs_recursion_limit (m_calls m)"
    "popped = (if cf_changed_instance f then Some (m_instance m) else None)"
    by (rule pop_frame [OF assms(1) f(1)])
  have c: "store_ok cx (m_store m)" "height_ok K (m_values m)" "depth_ok K (m_calls m)"
    using assms(1) by (simp_all add: running_def context_ok_def)
  have b: "cf_frame f = b" "b \<le> vs_len (m_values m)"
    using f(2) running_locals [OF assms(1)] by (auto simp: offsets_ok_def locals_ok_def)
  let ?vs = "(m_values m)\<lparr>vs_values := take b (vs_values (m_values m))\<rparr>"
  have vs: "vs_truncate (cf_frame f) (m_values m) = Done ?vs" using b by (simp add: vs_truncate_def)
  have len: "vs_len ?vs = b" using b by (simp add: vs_len_def)
  let ?m = "restore_instance popped (with_calls calls (with_values ?vs m))"
  have m: "m_values ?m = ?vs" "m_calls ?m = calls" "m_store ?m = m_store m"
    by (simp_all add: restore_instance_def split: option.split)
  have fr: "frames_ok ev cx K (m_store ?m) (vs_values ?vs) fs (hv_items (cs_instances calls)) b (cf_results f) k"
    unfolding m(3) p(4) using frames_ok_agree [OF f(4)] b(2) by (simp add: vs_len_def)
  show ?thesis
  proof (cases fs)
    case Nil
    then have "b = rt_results K" "k = rt_results K" using f(4) by simp_all
    then have "finished cx K ?m"
      using Nil p(2) m c(1) len assms(2) f(1) by (auto simp: finished_def vs_len_def delivered_def in_set_conv_nth)
    then show ?thesis using Nil p(1,2) vs m(2) by (simp add: return_impl_def cs_peek_def Let_def)
  next
    case (Cons g gs)
    then have ne: "hv_items (cs_instances calls) \<noteq> []" using fr by auto
    have "cs_instance calls = Some (hd (hv_items (cs_instances calls)))"
      using ne by (simp add: cs_instance_def hv_items_def split: option.splits)
    then have "m_instance ?m = hd (hv_items (cs_instances calls))"
      using p(4,6) f(3) by (auto simp: restore_instance_def below_instances_def)
    then have "machine_ok ev cx K (init_call_frame g ?m)"
      using resume_caller [OF fr [unfolded Cons] _ p(3) refl len _ _ _ m(1,2)] Cons p(2,5) c m(3) f(1) len b(2)
      by (simp add: vs_len_def height_ok_def depth_ok_def)
    then show ?thesis using Cons p(1,2) vs m(2) by (simp add: return_impl_def cs_peek_def Let_def)
  qed
qed

section \<open>Return instructions\<close>

lemma return_reg_n_safe:
  assumes "running ev cx K cf sh k b n m" and "list_all (rd (regs_of cf)) vs" and "length vs = k"
  shows "safely (control_ok ev cx K) (execute_return_reg_n vs m)"
proof -
  obtain f fs where "cs_frames (m_calls m) = f # fs" using assms(1) by (rule running_frame)
  then obtain sp res where c: "return_caller_results m = Done (sp, res)"
    using caller_results_Done by (metis surj_pair)
  have "safely (\<lambda>m'. running ev cx K cf sh k b n m' \<and> delivered (0 + length vs) m')
      (return_slots sp (res + int 0) vs m)"
    by (rule return_slots_safe [OF assms(1) c]) (use assms in \<open>simp_all add: delivered_def\<close>)
  then have "safely (control_ok ev cx K) (ex_then (return_slots sp (res + int 0) vs m) return_impl)"
    by (rule safely_bind) (use assms(3) in \<open>auto intro: return_impl_safe\<close>)
  then show ?thesis using c by (simp add: execute_return_reg_n_def)
qed

lemma return_value_safe:
  assumes "running ev cx K cf sh 1 b n m"
  shows "safely (control_ok ev cx K) (execute_return_value v m)"
proof -
  obtain f fs where "cs_frames (m_calls m) = f # fs" using assms(1) by (rule running_frame)
  then obtain sp res where c: "return_caller_results m = Done (sp, res)"
    using caller_results_Done by (metis surj_pair)
  obtain vs where "slots_set sp res v (m_values m) = Done vs" "running ev cx K cf sh 1 b n (with_values vs m)"
      "delivered 1 (with_values vs m)"
    using write_result [OF assms c, of 0 v] by (auto simp: delivered_def)
  then show ?thesis using c return_impl_safe by (simp add: execute_return_value_def)
qed

lemma returns_safe:
  assumes "running ev cx K cf sh k b 0 m"
    and "return_ok (cfn_instrs cf) (ip_at (m_ip m)) (regs_of cf) k i"
  shows "safely (control_ok ev cx K) (execute_returns i m)"
proof (cases i)
  case Return
  then show ?thesis using assms return_impl_safe [OF assms(1)] by (simp add: delivered_def)
next
  case (ReturnSlot a)
  obtain f fs where "cs_frames (m_calls m) = f # fs" using assms(1) by (rule running_frame)
  then obtain c where c: "return_caller_results m = Done c" using caller_results_Done by metis
  have a: "k = 1" "rd (regs_of cf) a" using ReturnSlot assms(2) by simp_all
  have "safely (control_ok ev cx K) (ex_then (get_stack_slot a m) (\<lambda>x. execute_return_value x m))"
    by (rule safely_get [OF running_locals [OF assms(1)] a(2)])
      (rule return_value_safe [OF assms(1) [unfolded a(1)]])
  then show ?thesis using ReturnSlot c by simp
next
  case (ReturnMany a d e)
  then obtain ss n where ss: "slots_after (cfn_instrs cf) (ip_at (m_ip m) + 1) = Some (ss, n)"
      "k = 3 + length ss" "list_all (rd (regs_of cf)) ([a, d, e] @ ss)"
    using assms(2) by (auto split: option.splits)
  have r: "running ev cx K cf sh k b 0 (next_instr m)"
    using running_next [OF assms(1)] by (simp add: next_instr_def)
  have "slots_from (m_ip (next_instr m)) = Done (ss, n)"
    by (rule slots_from_Done [OF _ ss(1) [folded ip_simps(2)]])
      (use running_locals [OF r] in \<open>simp add: locals_ok_def\<close>)
  then show ?thesis using ReturnMany return_reg_n_safe [OF r ss(3)] ss(2)
    by (simp add: execute_return_many_def Let_def)
qed (use assms in \<open>auto intro!: return_value_safe return_reg_n_safe simp: span_slots_def\<close>)

end
