(* ===== verification/Machine_Frames.thy ===== *)
theory Machine_Frames
  imports Machine_Returns
begin

text \<open>
  The cells of a call: room for the frame of the callee, its constants, its parameters read from the
  registers of the caller, zeroes for the rest. Extending the value stack may move its buffer; the
  pointer to the registers is then renewed, so that no pointer of the machine dangles.
\<close>

section \<open>Room on the value stack\<close>

lemma locals_ok_extend:
  assumes "locals_ok cf b 0 m" and "vs_values vs = vs_values (m_values m) @ xs"
    and "sp = stack_ptr_at vs (b + length (cfn_consts cf))"
  shows "locals_ok cf b (length xs) ((with_values vs m)\<lparr>m_sp := sp\<rparr>)"
  using assms by (auto simp: locals_ok_def cells_ok_def vs_len_def nth_append)

lemma stack_ptr_at_same: "vs_buffer vs = vs_buffer vs' \<Longrightarrow> stack_ptr_at vs i = stack_ptr_at vs' i"
  by (simp add: stack_ptr_at_def)

text \<open>Extending keeps the values, counts one more buffer exactly when the registers' pointer is renewed.\<close>

lemma safely_extend:
  assumes "locals_ok cf b 0 m" and "cf_base caller = b + length (cfn_consts cf)"
    and "height_ok K (m_values m)"
    and "\<And>e. safely P (F (Inl e, m_values m, m_sp m))"
    and "\<And>vs sp. vs_values vs = vs_values (m_values m) @ replicate n None \<Longrightarrow>
           sp = stack_ptr_at vs (b + length (cfn_consts cf)) \<Longrightarrow>
           height_ok K vs \<Longrightarrow>
           safely P (F (Inr \<lparr>fr_buffer = vs_buffer vs, fr_start = vs_len (m_values m),
                            fr_end = vs_len (m_values m) + n\<rparr>, vs, sp))"
  shows "safely P (ex_then (extend_by t grow n (renew_sp caller) (m_values m, m_sp m)) F)"
proof (cases "n \<ge> vs_max_len (m_values m) - vs_len (m_values m)")
  case True
  then show ?thesis using assms(4) by (simp add: extend_by_def)
next
  case room: False
  have sp: "m_sp m = stack_ptr_at (m_values m) (b + length (cfn_consts cf))"
    using assms(1) by (simp add: locals_ok_def)
  show ?thesis
  proof (cases "vs_reserve t grow n (m_values m)")
    case (Done vs)
    then have vs: "vs_values vs = vs_values (m_values m)" "vs_max_len vs = vs_max_len (m_values m)"
      "vs_capacity (m_values m) = vs_capacity vs \<longrightarrow> vs_buffer vs = vs_buffer (m_values m)"
      by (auto simp: vs_reserve_def Let_def split: if_splits)
    let ?sp = "if vs_capacity (m_values m) \<noteq> vs_capacity vs then renew_sp caller vs (m_sp m) else m_sp m"
    let ?vs = "vs\<lparr>vs_values := vs_values vs @ replicate n None\<rparr>"
    have "?sp = stack_ptr_at ?vs (b + length (cfn_consts cf))"
      using vs(3) sp assms(2) by (auto simp: renew_sp_def stack_ptr_at_def)
    moreover have "height_ok K ?vs" using room vs assms(3) by (simp add: height_ok_def vs_len_def)
    ultimately have "safely P (F (Inr \<lparr>fr_buffer = vs_buffer vs, fr_start = vs_len (m_values m),
                            fr_end = vs_len (m_values m) + n\<rparr>, ?vs, ?sp))"
      using assms(5) [of ?vs ?sp] vs by simp
    then show ?thesis using room Done by (simp add: extend_by_def)
  next
    case Aborts
    then show ?thesis using room by (simp add: extend_by_def)
  next
    case Undefined
    then show ?thesis by (simp add: vs_reserve_def Let_def split: if_splits)
  qed
qed

lemma safely_alloc:
  assumes "locals_ok cf b 0 m" and "cf_base caller = b + length (cfn_consts cf)"
    and "length (cfn_consts func) \<le> cfn_len_stack_slots func" and "height_ok K (m_values m)"
    and "\<And>e. safely P (F (Inl e, m_values m, m_sp m))"
    and "\<And>vs sp. vs_values vs = vs_values (m_values m) @ map Some (cfn_consts func)
             @ replicate (cfn_len_stack_slots func - length (cfn_consts func)) None \<Longrightarrow>
           sp = stack_ptr_at vs (b + length (cfn_consts cf)) \<Longrightarrow>
           height_ok K vs \<Longrightarrow>
           safely P (F (Inr (\<lparr>fr_buffer = vs_buffer vs,
                              fr_start = vs_len (m_values m) + length (cfn_consts func),
                              fr_end = vs_len (m_values m) + cfn_len_stack_slots func\<rparr>,
                             \<lparr>off_base = vs_len (m_values m) + length (cfn_consts func),
                              off_frame = vs_len (m_values m)\<rparr>), vs, sp))"
  shows "safely P (ex_then (alloc_call_frame t grow func (renew_sp caller) (m_values m, m_sp m)) F)"
  unfolding alloc_call_frame_def Let_def ex_then_assoc
proof (rule safely_extend [OF assms(1,2,4)], goal_cases)
  case (1 e)
  then show ?case using assms(5) by simp
next
  case (2 vs sp)
  let ?vs = "write_consts (vs_len (m_values m)) (cfn_len_stack_slots func) (cfn_consts func) vs"
  have v: "vs_values ?vs = vs_values (m_values m) @ map Some (cfn_consts func)
             @ replicate (cfn_len_stack_slots func - length (cfn_consts func)) None"
    using 2(1) assms(3) by (simp add: write_consts_def vs_len_def)
  moreover have "sp = stack_ptr_at ?vs (b + length (cfn_consts cf))"
    using 2(2) by (simp add: write_consts_def stack_ptr_at_def)
  moreover have "height_ok K ?vs"
    using 2(1,3) v assms(3) by (simp add: height_ok_def vs_len_def write_consts_def)
  moreover have "vs_buffer ?vs = vs_buffer vs" by (simp add: write_consts_def)
  ultimately show ?case using assms(6) [of ?vs sp] assms(3) by simp
qed

section \<open>Parameters\<close>

text \<open>\<open>vals'\<close> has the cells of \<open>vals\<close> outside \<open>i..<j\<close>, and written cells inside.\<close>

definition filled :: "nat \<Rightarrow> nat \<Rightarrow> untyped_val option list \<Rightarrow> untyped_val option list \<Rightarrow> bool" where
  "filled i j vals vals' \<longleftrightarrow> length vals' = length vals
     \<and> (\<forall>q. q < i \<or> j \<le> q \<longrightarrow> vals' ! q = vals ! q) \<and> (\<forall>q. i \<le> q \<longrightarrow> q < j \<longrightarrow> vals' ! q \<noteq> None)"

lemma filled_refl: "filled i i vals vals"
  by (auto simp: filled_def)

lemma filled_one: "i < length vals \<Longrightarrow> filled i (Suc i) vals (vals[i := Some v])"
  by (auto simp: filled_def nth_list_update)

lemma filled_trans: "filled i j vals vals' \<Longrightarrow> filled j l vals' vals'' \<Longrightarrow> i \<le> j \<Longrightarrow> j \<le> l \<Longrightarrow> filled i l vals vals''"
  unfolding filled_def by (metis leI le_trans less_le_trans)

lemma locals_ok_filled:
  assumes "locals_ok cf b n m" and "filled i j (vs_values (m_values m)) vals"
    and "b + cfn_len_stack_slots cf \<le> i"
  shows "locals_ok cf b n (with_values ((m_values m)\<lparr>vs_values := vals\<rparr>) m)"
  using assms by (auto simp: locals_ok_def cells_ok_def filled_def vs_len_def stack_ptr_at_def)

lemma init_next_filled:
  assumes "fr_buffer fr = vs_buffer vs" and "fr_start fr < fr_end fr" and "fr_end fr \<le> vs_len vs"
  shows "init_next v fr vs = Done (fr\<lparr>fr_start := fr_start fr + 1\<rparr>,
           vs\<lparr>vs_values := (vs_values vs)[fr_start fr := Some v]\<rparr>)"
  using assms by (simp add: init_next_def)

lemma copy_regs_filled:
  assumes "locals_ok cf b n m" and "list_all (rd (regs_of cf)) ss"
    and "fr_buffer fr = vs_buffer (m_values m)" and "b + cfn_len_stack_slots cf \<le> fr_start fr"
    and "fr_start fr + length ss \<le> fr_end fr" and "fr_end fr \<le> vs_len (m_values m)"
  shows "\<exists>vals. copy_regs ss fr m =
      Done (fr\<lparr>fr_start := fr_start fr + length ss\<rparr>, with_values ((m_values m)\<lparr>vs_values := vals\<rparr>) m)
    \<and> filled (fr_start fr) (fr_start fr + length ss) (vs_values (m_values m)) vals"
  using assms
proof (induction ss arbitrary: fr m)
  case Nil
  have "with_values (m_values m) m = m" by (simp add: with_values_def)
  then show ?case using filled_refl by (intro exI [of _ "vs_values (m_values m)"]) simp
next
  case (Cons s ss)
  obtain v where v: "get_stack_slot s m = Done v"
    using get_slot_Done [OF Cons.prems(1)] Cons.prems(2) by auto
  let ?vals = "(vs_values (m_values m))[fr_start fr := Some v]"
  let ?vs = "(m_values m)\<lparr>vs_values := ?vals\<rparr>"
  let ?fr = "fr\<lparr>fr_start := fr_start fr + 1\<rparr>"
  have i: "init_next v fr (m_values m) = Done (?fr, ?vs)"
    by (rule init_next_filled) (use Cons.prems in simp_all)
  have one: "filled (fr_start fr) (Suc (fr_start fr)) (vs_values (m_values m)) ?vals"
    by (rule filled_one) (use Cons.prems in \<open>simp add: vs_len_def\<close>)
  have "locals_ok cf b n (with_values ?vs m)"
    by (rule locals_ok_filled [OF Cons.prems(1) one Cons.prems(4)])
  then obtain vals where vals: "copy_regs ss ?fr (with_values ?vs m) =
      Done (?fr\<lparr>fr_start := fr_start ?fr + length ss\<rparr>, with_values (?vs\<lparr>vs_values := vals\<rparr>) m)"
      "filled (fr_start ?fr) (fr_start ?fr + length ss) ?vals vals"
    using Cons.IH [of "with_values ?vs m" ?fr] Cons.prems by (auto simp: vs_len_def)
  have "filled (fr_start fr) (fr_start fr + length (s # ss)) (vs_values (m_values m)) vals"
    by (rule filled_trans [OF one]) (use vals(2) in simp_all)
  then show ?case using v i vals(1) by (intro exI [of _ vals]) simp
qed

lemma init_zeroes_upto_filled:
  assumes "fr_buffer fr = vs_buffer vs" and "fr_start fr + n \<le> fr_end fr" and "fr_end fr \<le> vs_len vs"
  shows "\<exists>vals. init_zeroes_upto n fr vs = Done (vs\<lparr>vs_values := vals\<rparr>)
    \<and> filled (fr_start fr) (fr_start fr + n) (vs_values vs) vals"
  using assms
proof (induction n arbitrary: fr vs)
  case 0
  then show ?case using filled_refl by (intro exI [of _ "vs_values vs"]) simp
next
  case (Suc n)
  let ?vals = "(vs_values vs)[fr_start fr := Some 0]"
  let ?fr = "fr\<lparr>fr_start := fr_start fr + 1\<rparr>"
  have i: "init_next 0 fr vs = Done (?fr, vs\<lparr>vs_values := ?vals\<rparr>)"
    by (rule init_next_filled) (use Suc.prems in simp_all)
  obtain vals where vals: "init_zeroes_upto n ?fr (vs\<lparr>vs_values := ?vals\<rparr>) = Done (vs\<lparr>vs_values := vals\<rparr>)"
      "filled (Suc (fr_start fr)) (Suc (fr_start fr) + n) ?vals vals"
    using Suc.IH [of ?fr "vs\<lparr>vs_values := ?vals\<rparr>"] Suc.prems by (auto simp: vs_len_def)
  have "filled (fr_start fr) (fr_start fr + Suc n) (vs_values vs) vals"
    by (rule filled_trans [OF filled_one]) (use vals(2) Suc.prems in \<open>simp_all add: vs_len_def\<close>)
  then show ?case using i vals(1) by (intro exI [of _ vals]) simp
qed

lemma init_zeroes_filled:
  assumes "fr_buffer fr = vs_buffer vs" and "fr_start fr \<le> fr_end fr" and "fr_end fr \<le> vs_len vs"
  shows "\<exists>vals. init_zeroes fr vs = Done (vs\<lparr>vs_values := vals\<rparr>)
    \<and> filled (fr_start fr) (fr_end fr) (vs_values vs) vals"
  using init_zeroes_upto_filled [of fr vs "fr_end fr - fr_start fr"] assms
  by (auto simp: init_zeroes_def)

text \<open>The parameters of a call, if it has any, and where they leave the instruction pointer.\<close>

lemma call_params_filled:
  assumes "locals_ok cf b n m"
    and "call_params (cfn_instrs cf) (ip_at (m_ip m)) (regs_of cf) has_params np = Some q"
    and "fr_buffer fr = vs_buffer (m_values m)" and "b + cfn_len_stack_slots cf \<le> fr_start fr"
    and "fr_start fr + np \<le> fr_end fr" and "fr_end fr \<le> vs_len (m_values m)"
  shows "\<exists>vals. (if has_params then copy_call_params fr m else Done (fr, m)) =
      Done (fr\<lparr>fr_start := fr_start fr + np\<rparr>,
        (with_values ((m_values m)\<lparr>vs_values := vals\<rparr>) m)\<lparr>m_ip := (m_ip m)\<lparr>ip_at := q\<rparr>\<rparr>)
    \<and> filled (fr_start fr) (fr_start fr + np) (vs_values (m_values m)) vals"
proof (cases has_params)
  case True
  then obtain ss d where ss: "slots_after (cfn_instrs cf) (ip_at (m_ip m) + 1) = Some (ss, d)"
      "length ss = np" "list_all (rd (regs_of cf)) ss" "q = ip_at (m_ip m) + 1 + int d"
    using assms(2) by (auto simp: call_params_def split: option.splits if_splits)
  let ?m = "next_instr_at d (next_instr m)"
  have code: "ip_code (m_ip m) = cfn_instrs cf" using assms(1) by (simp add: locals_ok_def)
  have "slots_from (m_ip (next_instr m)) = Done (ss, d)"
    by (rule slots_from_Done [OF _ ss(1) [folded ip_simps(2)]])
      (use code in \<open>simp add: next_instr_def next_instr_at_def ip_offset_def\<close>)
  moreover have m: "m_values ?m = m_values m" "m_ip ?m = (m_ip m)\<lparr>ip_at := q\<rparr>"
    "?m = m\<lparr>m_ip := (m_ip m)\<lparr>ip_at := q\<rparr>\<rparr>"
    using ss(4) by (simp_all add: next_instr_def next_instr_at_def ip_offset_def)
  have l: "locals_ok cf b n ?m" unfolding m(3) using assms(1) by (simp add: locals_ok_def)
  then obtain vals where "copy_regs ss fr ?m =
      Done (fr\<lparr>fr_start := fr_start fr + np\<rparr>, with_values ((m_values m)\<lparr>vs_values := vals\<rparr>) ?m)"
      "filled (fr_start fr) (fr_start fr + np) (vs_values (m_values m)) vals"
    using copy_regs_filled [OF l ss(3)] assms(3-6) ss(2) m(1) by auto
  ultimately show ?thesis using True m(3)
    by (intro exI [of _ vals]) (simp add: copy_call_params_def Let_def with_values_def)
next
  case False
  then have "np = 0" "q = ip_at (m_ip m)" using assms(2) by (auto simp: call_params_def split: if_splits)
  then show ?thesis using False filled_refl
    by (intro exI [of _ "vs_values (m_values m)"]) (simp add: with_values_def)
qed

end
