(* ===== verification/Machine_Compiled_Calls.thy ===== *)
theory Machine_Compiled_Calls
  imports Machine_Frames
begin

text \<open>
  Calls to compiled functions keep the invariant of the machine: a nested call puts a frame on top of
  the caller's, a tail call puts it in its place.
\<close>

section \<open>The new frame\<close>

definition called_frame :: "instr compiled_func \<Rightarrow> nat \<Rightarrow> int \<Rightarrow> instr call_frame" where
  "called_frame func b results =
     call_frame_new (ip_new (cfn_instrs func)) \<lparr>off_base = b + length (cfn_consts func), off_frame = b\<rparr> results"

lemma called_frame_simps [simp]:
  "cf_frame (called_frame func b r) = b" "cf_base (called_frame func b r) = b + length (cfn_consts func)"
  "cf_results (called_frame func b r) = r" "cf_changed_instance (called_frame func b r) = False"
  "cf_instr_ptr (called_frame func b r) = ip_new (cfn_instrs func)"
  by (simp_all add: called_frame_def call_frame_new_def)

lemma new_frame_cells:
  assumes "filled (len + length (cfn_consts func)) (len + cfn_len_stack_slots func)
             (old @ map Some (cfn_consts func) @ replicate d None) vals"
    and "length old = len" and "length (cfn_consts func) + d = cfn_len_stack_slots func"
  shows "cells_ok func len vals" and "\<forall>i < len. vals ! i = old ! i"
proof -
  have same: "vals ! q = (old @ map Some (cfn_consts func) @ replicate d None) ! q"
    if "q < len + length (cfn_consts func)" for q using assms(1) that by (auto simp: filled_def)
  have c: "vals ! (len + i) = Some (cfn_consts func ! i)" if "i < length (cfn_consts func)" for i
    using same [of "len + i"] that assms(2) by (simp add: nth_append)
  have "vals ! (len + i) \<noteq> None" if "i < cfn_len_stack_slots func" for i
    using assms(1) that c by (cases "i < length (cfn_consts func)") (auto simp: filled_def)
  moreover have "length vals = len + cfn_len_stack_slots func" using assms by (simp add: filled_def)
  ultimately show "cells_ok func len vals" using c assms(3) by (auto simp: cells_ok_def)
  show "\<forall>i < len. vals ! i = old ! i" using same assms(2) by (auto simp: nth_append)
qed

definition dispatched ::
  "root_frame \<Rightarrow> instr compiled_func \<Rightarrow> int \<Rightarrow> int \<Rightarrow> ('h, 'l) machine \<Rightarrow>
   (error_kind + instr call_frame) \<times> ('h, 'l) machine \<Rightarrow> bool" where
  "dispatched K func results q m x \<longleftrightarrow> (case x of
     (Inl _, _) \<Rightarrow> True
   | (Inr called, m') \<Rightarrow> called = called_frame func (vs_len (m_values m)) results
       \<and> m_ip m' = (m_ip m)\<lparr>ip_at := q\<rparr> \<and> m_calls m' = m_calls m \<and> m_store m' = m_store m
       \<and> m_instance m' = m_instance m
       \<and> vs_len (m_values m') = vs_len (m_values m) + cfn_len_stack_slots func
       \<and> height_ok K (m_values m')
       \<and> cells_ok func (vs_len (m_values m)) (vs_values (m_values m'))
       \<and> (\<forall>i < vs_len (m_values m). vs_values (m_values m') ! i = vs_values (m_values m) ! i))"

lemma dispatch_compiled_safe:
  assumes "running ev cx K cf sh k b 0 m"
    and "call_params (cfn_instrs cf) (ip_at (m_ip m)) (regs_of cf) has_params np = Some q"
    and "np + length (cfn_consts func) \<le> cfn_len_stack_slots func"
  shows "safely (dispatched K func results q m) (dispatch_compiled_func ev has_params results func m)"
proof -
  obtain f fs where f: "cs_frames (m_calls m) = f # fs" "offsets_ok cf b f"
    using assms(1) by (rule running_frame)
  note l = running_locals [OF assms(1)]
  let ?len = "vs_len (m_values m)" and ?d = "cfn_len_stack_slots func - length (cfn_consts func)"
  let ?c = "length (cfn_consts func)"
  have len: "b + cfn_len_stack_slots cf = ?len" using l by (simp add: locals_ok_def)
  show ?thesis
    unfolding dispatch_compiled_func_def
    apply (simp only: cs_peek_def f(1) list.case option.case Let_def)
  proof (rule safely_alloc [OF l, where K = K], goal_cases)
    case 1
    then show ?case using f(2) by (simp add: offsets_ok_def)
  next
    case 2
    then show ?case using assms(3) by simp
  next
    case 3
    then show ?case using assms(1) by (simp add: running_def context_ok_def)
  next
    case (4 e)
    then show ?case by (simp add: dispatched_def)
  next
    case (5 vs sp)
    let ?m = "(with_values vs m)\<lparr>m_sp := sp\<rparr>"
    let ?fr = "\<lparr>fr_buffer = vs_buffer vs, fr_start = ?len + ?c, fr_end = ?len + cfn_len_stack_slots func\<rparr>"
    let ?xs = "map Some (cfn_consts func) @ replicate ?d None"
    have xs: "length ?xs = cfn_len_stack_slots func" using assms(3) by simp
    have lm: "locals_ok cf b (cfn_len_stack_slots func) ?m"
      using locals_ok_extend [OF l 5(1,2)] xs by simp
    have vl: "vs_len vs = ?len + cfn_len_stack_slots func" using 5(1) assms(3) by (simp add: vs_len_def)
    have mv: "m_values ?m = vs" "m_ip ?m = m_ip m" by (simp_all add: with_values_def)
    obtain vals where vals: "(if has_params then copy_call_params ?fr ?m else Done (?fr, ?m)) =
        Done (?fr\<lparr>fr_start := ?len + ?c + np\<rparr>,
          (with_values (vs\<lparr>vs_values := vals\<rparr>) ?m)\<lparr>m_ip := (m_ip m)\<lparr>ip_at := q\<rparr>\<rparr>)"
        "filled (?len + ?c) (?len + ?c + np) (vs_values vs) vals"
      using call_params_filled [OF lm, of has_params np q ?fr] assms(2,3) vl len mv by auto
    have lv: "length vals = ?len + cfn_len_stack_slots func" using vals(2) vl by (simp add: filled_def vs_len_def)
    obtain vals2 where v2: "init_zeroes (?fr\<lparr>fr_start := ?len + ?c + np\<rparr>) (vs\<lparr>vs_values := vals\<rparr>) =
        Done (vs\<lparr>vs_values := vals2\<rparr>)"
        "filled (?len + ?c + np) (?len + cfn_len_stack_slots func) vals vals2"
      using init_zeroes_filled [of "?fr\<lparr>fr_start := ?len + ?c + np\<rparr>" "vs\<lparr>vs_values := vals\<rparr>"] assms(3) lv
      by (auto simp: vs_len_def)
    have fl: "filled (?len + ?c) (?len + cfn_len_stack_slots func) (vs_values vs) vals2"
      by (rule filled_trans [OF vals(2) v2(2)]) (use assms(3) in simp_all)
    note cells = new_frame_cells [OF fl [unfolded 5(1)]]
    have "cells_ok func ?len vals2" "\<forall>i < ?len. vals2 ! i = vs_values (m_values m) ! i"
      using cells assms(3) by (simp_all add: vs_len_def)
    moreover have "vs_len (vs\<lparr>vs_values := vals2\<rparr>) = ?len + cfn_len_stack_slots func"
      using v2(2) lv by (simp add: filled_def vs_len_def)
    moreover have "m_values ((with_values (vs\<lparr>vs_values := vals\<rparr>) ?m)\<lparr>m_ip := (m_ip m)\<lparr>ip_at := q\<rparr>\<rparr>)
        = vs\<lparr>vs_values := vals\<rparr>" by (simp add: with_values_def)
    moreover have "height_ok K (vs\<lparr>vs_values := vals2\<rparr>)"
      using 5(3) vl v2(2) lv by (simp add: height_ok_def vs_len_def filled_def)
    ultimately show ?case
      apply (simp only: prod.case sum.case vals(1) v2(1) ex_then.simps safely.simps dispatched_def)
      apply (simp add: called_frame_def with_values_def)
      done
  qed
qed

section \<open>Pushing it\<close>

lemma enter_safe:
  assumes "frames_ok ev cx K (m_store m) (vs_values (m_values m)) fs insts b r k"
    and "cs_frames (m_calls m) = fs" and "hv_ok (cs_instances (m_calls m))"
    and "hv_items (cs_instances (m_calls m)) = insts"
    and "depth_ok K (m_calls m)"
    and "cells_ok func b (vs_values (m_values m))" and "vs_len (m_values m) = b + cfn_len_stack_slots func"
    and "height_ok K (m_values m)"
    and "code_ok ev cx sh k func" and "inst_fits (m_store m) h sh" and "store_ok cx (m_store m)"
    and "inst = Some h \<or> inst = None \<and> insts \<noteq> [] \<and> hd insts = h"
  shows "case cs_push (called_frame func b r) inst (m_calls m) of
      (Inl e, cs) \<Rightarrow> True
    | (Inr _, cs) \<Rightarrow> machine_ok ev cx K ((with_calls cs (init_call_frame (called_frame func b r) m))\<lparr>m_instance := h\<rparr>)"
proof (cases "length fs = cs_recursion_limit (m_calls m)")
  case True
  then show ?thesis using assms(2) by (simp add: cs_push_def)
next
  case False
  let ?called = "called_frame func b r"
  have pushed: "\<exists>called cs. cs_push ?called inst (m_calls m) = (Inr (), cs)
      \<and> cs_frames cs = called # fs \<and> hv_ok (cs_instances cs) \<and> hv_items (cs_instances cs) \<noteq> []
      \<and> hd (hv_items (cs_instances cs)) = h
      \<and> below_instances called (hv_items (cs_instances cs)) = insts
      \<and> cs_recursion_limit cs = cs_recursion_limit (m_calls m)
      \<and> offsets_ok func b called \<and> cf_results called = r"
  proof (cases "inst = None \<or> hv_head (cs_instances (m_calls m)) = inst")
    case True
    have items: "insts \<noteq> []" "hd insts = h"
      using True assms(4,12) by (auto simp: hv_items_def split: option.splits)
    then have "cs_push ?called inst (m_calls m) = (Inr (), (m_calls m)\<lparr>cs_frames := ?called # fs\<rparr>)"
      using True False assms(2,12) by (auto simp: cs_push_def push_instance_def called_frame_def call_frame_new_def)
    then show ?thesis using items assms(3,4)
      by (intro exI [of _ ?called]) (simp add: below_instances_def offsets_ok_def)
  next
    case new: False
    then have h: "inst = Some h" "hv_head (cs_instances (m_calls m)) \<noteq> Some h" using assms(12) by auto
    let ?called' = "?called\<lparr>cf_changed_instance := True\<rparr>"
    have "cs_push ?called inst (m_calls m) =
        (Inr (), (m_calls m)\<lparr>cs_instances := hv_push h (cs_instances (m_calls m)), cs_frames := ?called' # fs\<rparr>)"
      using h False assms(2) by (auto simp: cs_push_def push_instance_def)
    then show ?thesis using hv_push_items [OF assms(3), of h] assms(4)
      by (intro exI [of _ ?called']) (simp add: below_instances_def offsets_ok_def)
  qed
  then obtain called cs where c: "cs_push ?called inst (m_calls m) = (Inr (), cs)"
      "cs_frames cs = called # fs" "hv_ok (cs_instances cs)" "hv_items (cs_instances cs) \<noteq> []"
      "hd (hv_items (cs_instances cs)) = h"
      "below_instances called (hv_items (cs_instances cs)) = insts"
      "cs_recursion_limit cs = cs_recursion_limit (m_calls m)"
      "offsets_ok func b called" "cf_results called = r" by blast
  let ?m = "(with_calls cs (init_call_frame ?called m))\<lparr>m_instance := h\<rparr>"
  have m: "m_values ?m = m_values m" "m_calls ?m = cs" "m_store ?m = m_store m" "m_instance ?m = h"
    "m_sp ?m = stack_ptr_at (m_values m) (b + length (cfn_consts func))" "m_ip ?m = ip_new (cfn_instrs func)"
    by (simp_all add: init_call_frame_def with_calls_def)
  have "locals_ok func b 0 ?m" unfolding locals_ok_def m using assms(6,7) by (simp add: ip_new_def)
  moreover have "context_ok ev cx K func sh k b ?m"
    unfolding context_ok_def m using c assms(1,2,5,8-11) False
    by (intro conjI exI [of _ called] exI [of _ fs]) (auto simp: depth_ok_def)
  ultimately have "running ev cx K func sh k b 0 ?m" by (simp add: running_def)
  then have "machine_ok ev cx K ?m"
    by (rule machine_okI) (use assms(9) m(6) in \<open>simp add: code_ok_def ip_new_def\<close>)
  then show ?thesis using c(1) by simp
qed

section \<open>What the environment promises\<close>

text \<open>
  The code map delivers bodies that keep the contract and have room for their parameters; a host
  function leaves the functions and instances of the store in place.
\<close>

definition code_map_ok :: "('h, 'l) engine_env \<Rightarrow> contract \<Rightarrow> bool" where
  "code_map_ok ev cx \<longleftrightarrow> (\<forall>body fu code fu'. ev_code ev body fu = (Inr code, fu') \<longrightarrow>
     code_ok ev cx (cx_shape cx body) (snd (cx_arity cx body)) code
     \<and> fst (cx_arity cx body) + length (cfn_consts code) \<le> cfn_len_stack_slots code)"

definition host_ok :: "('h, 'l) engine_env \<Rightarrow> contract \<Rightarrow> bool" where
  "host_ok ev cx \<longleftrightarrow> (\<forall>hf inst vals st r st'. store_ok cx st \<longrightarrow> ev_host ev hf inst vals st = (r, st') \<longrightarrow>
     grows st st' \<and> store_ok cx st')"

lemma code_map_okD:
  "code_map_ok ev cx \<Longrightarrow> ev_code ev body fu = (Inr code, fu') \<Longrightarrow>
    code_ok ev cx (cx_shape cx body) (snd (cx_arity cx body)) code
    \<and> fst (cx_arity cx body) + length (cfn_consts code) \<le> cfn_len_stack_slots code"
  unfolding code_map_ok_def by blast

lemma host_okD:
  "host_ok ev cx \<Longrightarrow> store_ok cx st \<Longrightarrow> ev_host ev hf inst vals st = (r, st') \<Longrightarrow>
    grows st st' \<and> store_ok cx st'"
  unfolding host_ok_def by blast

section \<open>Nested calls\<close>

text \<open>The frame of the caller as the one below, with the instruction after its call.\<close>

lemma caller_below:
  assumes "running ev cx K cf sh k b 0 m" and "cs_frames (m_calls m) = f # fs"
    and "list_all (wr (regs_of cf)) (span_slots r nr)" and "start (cfn_instrs cf) (q + 1)"
    and "ip = \<lparr>ip_code = cfn_instrs cf, ip_at = q + 1\<rparr>"
  shows "frames_ok ev cx K (m_store m) (vs_values (m_values m)) (update_instr_ptr ip f # fs)
    (hv_items (cs_instances (m_calls m))) (vs_len (m_values m)) r nr"
proof -
  obtain f' fs' where "cs_frames (m_calls m) = f' # fs'" "offsets_ok cf b f'"
    "hv_items (cs_instances (m_calls m)) \<noteq> []" "hd (hv_items (cs_instances (m_calls m))) = m_instance m"
    "frames_ok ev cx K (m_store m) (vs_values (m_values m)) fs'
       (below_instances f' (hv_items (cs_instances (m_calls m)))) b (cf_results f') k"
    using assms(1) by (rule running_frame)
  then have f: "offsets_ok cf b f" "hv_items (cs_instances (m_calls m)) \<noteq> []"
    "hd (hv_items (cs_instances (m_calls m))) = m_instance m"
    "frames_ok ev cx K (m_store m) (vs_values (m_values m)) fs
       (below_instances f (hv_items (cs_instances (m_calls m)))) b (cf_results f) k"
    using assms(2) by auto
  have c: "cells_ok cf b (vs_values (m_values m))" "vs_len (m_values m) = b + cfn_len_stack_slots cf"
    using running_locals [OF assms(1)] by (simp_all add: locals_ok_def)
  have k: "code_ok ev cx sh k cf" "inst_fits (m_store m) (m_instance m) sh"
    using assms(1) by (simp_all add: running_def context_ok_def)
  show ?thesis
    by (rule frames_ok_ConsI [where cf = cf and b = b and sh = sh and kf = k])
      (use f c k assms(3-5) in \<open>simp_all add: update_instr_ptr_def offsets_ok_def below_instances_def\<close>)
qed

lemma update_instr_ptr_at_Done:
  assumes "cs_frames (m_calls m) = f # fs"
  shows "update_instr_ptr_at 1 m = Done (with_calls
    ((m_calls m)\<lparr>cs_frames := update_instr_ptr (ip_offset 1 (m_ip m)) f # fs\<rparr>) (next_instr m))"
  using assms by (simp add: update_instr_ptr_at_def next_instr_def next_instr_at_def cs_peek_def
      cs_update_top_def Let_def)

text \<open>The result of a call, with the instance the handler leaves.\<close>

definition entered :: "('h, 'l) engine_env \<Rightarrow> contract \<Rightarrow> root_frame \<Rightarrow> handle option \<Rightarrow> ('h, 'l) machine \<Rightarrow> bool" where
  "entered ev cx K inst m =
     machine_ok ev cx K (case inst of Some i \<Rightarrow> m\<lparr>m_instance := i\<rparr> | None \<Rightarrow> m)"

lemma pushed_safe:
  assumes "case cs_push called inst' (m_calls m) of
      (Inl e, cs) \<Rightarrow> True
    | (Inr _, cs) \<Rightarrow> machine_ok ev cx K ((with_calls cs (init_call_frame called m))\<lparr>m_instance := h\<rparr>)"
    and "h = (case inst of Some i \<Rightarrow> i | None \<Rightarrow> m_instance m)"
  shows "safely (handled_ok (entered ev cx K inst)) (let m = init_call_frame called m in
     (case cs_push called inst' (m_calls m) of
        (Inl e, cs) \<Rightarrow> traps e (with_calls cs m)
      | (Inr _, cs) \<Rightarrow> Done (Inr (with_calls cs m))))"
proof -
  have same: "(with_calls cs (init_call_frame called m))\<lparr>m_instance := m_instance m\<rparr> =
      with_calls cs (init_call_frame called m)" for cs
    by (simp add: with_calls_def init_call_frame_def)
  have "m_calls (init_call_frame called m) = m_calls m" by (simp add: init_call_frame_def)
  then show ?thesis using assms
    by (auto simp: Let_def safely_traps handled_ok_def entered_def same split: prod.splits sum.splits option.splits)
qed

lemma nested_call_safe:
  assumes "running ev cx K cf sh k b 0 m" and "store_ok cx (m_store m)"
    and "dispatched K func r q m (Inr called, m')"
    and "list_all (wr (regs_of cf)) (span_slots r nr)" and "start (cfn_instrs cf) (q + 1)"
    and "code_ok ev cx sh' nr func"
    and "case inst of None \<Rightarrow> sh' = sh | Some i \<Rightarrow> inst_fits (m_store m) i sh'"
  shows "safely (handled_ok (entered ev cx K inst))
    (ex_then (ex_then (update_instr_ptr_at 1 m') (\<lambda>m. Done (called, inst, m))) (\<lambda>(called, inst, m).
       let m = init_call_frame called m in
       (case cs_push called inst (m_calls m) of
          (Inl e, cs) \<Rightarrow> traps e (with_calls cs m)
        | (Inr _, cs) \<Rightarrow> Done (Inr (with_calls cs m)))))"
proof -
  obtain f fs where f: "cs_frames (m_calls m) = f # fs" "hv_ok (cs_instances (m_calls m))"
    "hv_items (cs_instances (m_calls m)) \<noteq> []" "hd (hv_items (cs_instances (m_calls m))) = m_instance m"
    using assms(1) by (rule running_frame)
  have d: "called = called_frame func (vs_len (m_values m)) r" "m_ip m' = (m_ip m)\<lparr>ip_at := q\<rparr>"
    "m_calls m' = m_calls m" "m_store m' = m_store m" "m_instance m' = m_instance m"
    "vs_len (m_values m') = vs_len (m_values m) + cfn_len_stack_slots func"
    "height_ok K (m_values m')"
    "cells_ok func (vs_len (m_values m)) (vs_values (m_values m'))"
    "\<forall>i < vs_len (m_values m). vs_values (m_values m') ! i = vs_values (m_values m) ! i"
    using assms(3) by (simp_all add: dispatched_def)
  let ?ip = "\<lparr>ip_code = cfn_instrs cf, ip_at = q + 1\<rparr>"
  let ?f = "update_instr_ptr ?ip f"
  let ?m = "with_calls ((m_calls m)\<lparr>cs_frames := ?f # fs\<rparr>) (next_instr m')"
  have "ip_code (m_ip m) = cfn_instrs cf" using running_locals [OF assms(1)] by (simp add: locals_ok_def)
  then have ip: "ip_offset 1 (m_ip m') = ?ip" using d(2) by (simp add: ip_offset_def)
  have u: "update_instr_ptr_at 1 m' = Done ?m"
    using update_instr_ptr_at_Done [of m' f fs] d(3) f(1) ip by simp
  have m: "m_values ?m = m_values m'" "m_store ?m = m_store m" "m_instance ?m = m_instance m"
    "m_calls ?m = (m_calls m)\<lparr>cs_frames := ?f # fs\<rparr>"
    using d(4,5) by (simp_all add: next_instr_def next_instr_at_def)
  let ?h = "case inst of Some i \<Rightarrow> i | None \<Rightarrow> m_instance m"
  have below: "frames_ok ev cx K (m_store ?m) (vs_values (m_values ?m)) (?f # fs)
      (hv_items (cs_instances (m_calls m))) (vs_len (m_values m)) r nr"
    unfolding m using frames_ok_agree [OF caller_below [OF assms(1) f(1) assms(4,5) refl]] d(6,9)
    by (simp add: vs_len_def)
  have "case cs_push (called_frame func (vs_len (m_values m)) r) inst (m_calls ?m) of
      (Inl e, cs) \<Rightarrow> True
    | (Inr _, cs) \<Rightarrow> machine_ok ev cx K
        ((with_calls cs (init_call_frame (called_frame func (vs_len (m_values m)) r) ?m))\<lparr>m_instance := ?h\<rparr>)"
  proof (rule enter_safe [OF below])
    show "inst_fits (m_store ?m) ?h sh'"
      using assms(7) running_instance [OF assms(1)] m(2) by (auto split: option.splits)
    show "inst = Some ?h \<or> inst = None \<and> hv_items (cs_instances (m_calls m)) \<noteq> []
        \<and> hd (hv_items (cs_instances (m_calls m))) = ?h"
      using f(3,4) by (cases inst) simp_all
    show "depth_ok K (m_calls ?m)"
      using assms(1) f(1) m(4) by (simp add: running_def context_ok_def depth_ok_def)
  qed (use d m f(2) assms(2,6) in simp_all)
  note pushed = pushed_safe [OF this, of inst]
  show ?thesis
    unfolding u d(1) ex_then.simps prod.case by (rule pushed) (simp only: m(3))
qed

section \<open>Tail calls\<close>

text \<open>Closing the gap the frame of the caller leaves.\<close>

lemma cells_ok_drain:
  assumes "cells_ok func len vals" and "b \<le> len"
  shows "cells_ok func b (take b vals @ drop len vals)"
proof -
  have "len + cfn_len_stack_slots func \<le> length vals" using assms(1) by (simp add: cells_ok_def)
  then have "(take b vals @ drop len vals) ! (b + i) = vals ! (len + i)" if "i < cfn_len_stack_slots func" for i
    using assms(2) that by (simp add: nth_append)
  then show ?thesis using assms by (auto simp: cells_ok_def)
qed

lemma move_down_called:
  "b \<le> len \<Longrightarrow> move_down (len - b) (called_frame func len r) = Done (called_frame func b r)"
  by (simp add: move_down_def called_frame_def call_frame_new_def)

lemma tail_call_safe:
  assumes "running ev cx K cf sh k b 0 m" and "store_ok cx (m_store m)"
    and "dispatched K func r q m (Inr called, m')"
    and "cs_frames (m_calls m) = f # fs" and "r = cf_results f"
    and "code_ok ev cx sh' k func"
    and "case inst of None \<Rightarrow> sh' = sh | Some i \<Rightarrow> inst_fits (m_store m) i sh'"
  shows "safely (handled_ok (entered ev cx K inst))
    (ex_then (ex_then (merge_call_frames called (m_stack m')) (\<lambda>(called, caller_inst, sk).
         Done (called, (case inst of Some i \<Rightarrow> Some i | None \<Rightarrow> caller_inst), m'\<lparr>m_stack := sk\<rparr>)))
      (\<lambda>(called, inst, m).
       let m = init_call_frame called m in
       (case cs_push called inst (m_calls m) of
          (Inl e, cs) \<Rightarrow> traps e (with_calls cs m)
        | (Inr _, cs) \<Rightarrow> Done (Inr (with_calls cs m)))))"
proof -
  obtain f' fs' where "cs_frames (m_calls m) = f' # fs'" "offsets_ok cf b f'"
    "hv_items (cs_instances (m_calls m)) \<noteq> []" "hd (hv_items (cs_instances (m_calls m))) = m_instance m"
    "frames_ok ev cx K (m_store m) (vs_values (m_values m)) fs'
       (below_instances f' (hv_items (cs_instances (m_calls m)))) b (cf_results f') k"
    using assms(1) by (rule running_frame)
  then have f: "offsets_ok cf b f" "hv_items (cs_instances (m_calls m)) \<noteq> []"
    "hd (hv_items (cs_instances (m_calls m))) = m_instance m"
    "frames_ok ev cx K (m_store m) (vs_values (m_values m)) fs
       (below_instances f (hv_items (cs_instances (m_calls m)))) b (cf_results f) k"
    using assms(4) by auto
  let ?len = "vs_len (m_values m)"
  have d: "called = called_frame func ?len r" "m_calls m' = m_calls m" "m_store m' = m_store m"
    "m_instance m' = m_instance m"
    "vs_len (m_values m') = ?len + cfn_len_stack_slots func"
    "height_ok K (m_values m')"
    "cells_ok func ?len (vs_values (m_values m'))"
    "\<forall>i < ?len. vs_values (m_values m') ! i = vs_values (m_values m) ! i"
    using assms(3) by (simp_all add: dispatched_def)
  have b: "b \<le> ?len" "cf_frame f = b"
    using running_locals [OF assms(1)] f(1) by (simp_all add: locals_ok_def offsets_ok_def)
  obtain calls popped where p: "cs_pop (m_calls m) = (Some (f, popped), calls)"
    "cs_frames calls = fs" "hv_ok (cs_instances calls)"
    "hv_items (cs_instances calls) = below_instances f (hv_items (cs_instances (m_calls m)))"
    "cs_recursion_limit calls = cs_recursion_limit (m_calls m)"
    "popped = (if cf_changed_instance f then Some (m_instance m) else None)"
    by (rule pop_frame [OF assms(1,4)])
  let ?vals = "take b (vs_values (m_values m')) @ drop ?len (vs_values (m_values m'))"
  let ?vs = "(m_values m')\<lparr>vs_values := ?vals\<rparr>"
  let ?sk = "\<lparr>sk_calls = calls, sk_values = ?vs\<rparr>"
  let ?m = "m'\<lparr>m_stack := ?sk\<rparr>"
  let ?inst = "case inst of Some i \<Rightarrow> Some i | None \<Rightarrow> popped"
  let ?h = "case inst of Some i \<Rightarrow> i | None \<Rightarrow> m_instance m"
  have merged: "merge_call_frames called (m_stack m') = Done (called_frame func b r, popped, ?sk)"
    unfolding merge_call_frames_def d(1) d(2) p(1)
    using b d(5) move_down_called [OF b(1)] by (simp add: vs_drain_def)
  have m: "m_values ?m = ?vs" "m_calls ?m = calls" "m_store ?m = m_store m" "m_instance ?m = m_instance m"
    using d(3,4) by simp_all
  have len: "vs_len ?vs = b + cfn_len_stack_slots func" using b d(5) by (simp add: vs_len_def)
  have "\<forall>i < b. ?vals ! i = vs_values (m_values m) ! i"
    using d(5,8) b(1) by (simp add: nth_append vs_len_def)
  then have below: "frames_ok ev cx K (m_store ?m) (vs_values (m_values ?m)) fs
      (below_instances f (hv_items (cs_instances (m_calls m)))) b r k"
    unfolding m assms(5) using frames_ok_agree [OF f(4)] len by (simp add: vs_len_def)
  have "case cs_push (called_frame func b r) ?inst (m_calls ?m) of
      (Inl e, cs) \<Rightarrow> True
    | (Inr _, cs) \<Rightarrow> machine_ok ev cx K
        ((with_calls cs (init_call_frame (called_frame func b r) ?m))\<lparr>m_instance := ?h\<rparr>)"
  proof (rule enter_safe [OF below])
    show "inst_fits (m_store ?m) ?h sh'"
      using assms(7) running_instance [OF assms(1)] m(3) by (auto split: option.splits)
    show "?inst = Some ?h \<or> ?inst = None
        \<and> below_instances f (hv_items (cs_instances (m_calls m))) \<noteq> []
        \<and> hd (below_instances f (hv_items (cs_instances (m_calls m)))) = ?h"
      using f(2,3) p(6) by (cases inst) (simp_all add: below_instances_def)
    show "depth_ok K (m_calls ?m)"
      using assms(1,4) m(2) p(2,5) by (simp add: running_def context_ok_def depth_ok_def)
    show "cells_ok func b (vs_values (m_values ?m))"
      unfolding m using cells_ok_drain [OF d(7) b(1)] by simp
    show "height_ok K (m_values ?m)"
      unfolding m using len d(5,6) b(1) by (simp add: height_ok_def)
  qed (use m p len assms(2,6) in simp_all)
  note pushed = pushed_safe [OF this, of inst]
  show ?thesis
    unfolding merged ex_then.simps prod.case by (rule pushed) (simp only: m(4))
qed

section \<open>Both\<close>

lemma prepare_safe:
  assumes "running ev cx K cf sh k b 0 m" and "code_map_ok ev cx"
    and "call_params (cfn_instrs cf) (ip_at (m_ip m)) (regs_of cf) has_params np = Some q"
    and "cx_arity cx func = (np, nr)"
    and "case inst of None \<Rightarrow> cx_shape cx func = sh | Some i \<Rightarrow> inst_fits (m_store m) i (cx_shape cx func)"
    and "kind = Nested \<Longrightarrow> list_all (wr (regs_of cf)) (span_slots r nr) \<and> start (cfn_instrs cf) (q + 1)"
    and "kind = Tail \<Longrightarrow> nr = k \<and> caller_results m = Done r"
  shows "safely (handled_ok (entered ev cx K inst))
    (prepare_compiled_func_call ev kind has_params r func inst m)"
proof (cases "ev_code ev func (so_fuel (m_store m))")
  case (Pair res fu)
  let ?m = "m\<lparr>m_store := (m_store m)\<lparr>so_fuel := fu\<rparr>\<rparr>"
  let ?st = "(m_store m)\<lparr>so_fuel := fu\<rparr>"
  have st: "grows (m_store m) ?st" "store_ok cx ?st"
    using store_same [of ?st "m_store m"] assms(1) by (simp_all add: running_def context_ok_def)
  have run: "running ev cx K cf sh k b 0 ?m" by (rule running_store [OF assms(1) st])
  show ?thesis
  proof (cases res)
    case (Inl e)
    then show ?thesis using Pair by (simp add: prepare_compiled_func_call_def handled_ok_def)
  next
    case (Inr code)
    have code: "code_ok ev cx (cx_shape cx func) nr code" "np + length (cfn_consts code) \<le> cfn_len_stack_slots code"
      using code_map_okD [OF assms(2) Pair [unfolded Inr]] assms(4) by simp_all
    have dis: "safely (dispatched K code r q ?m) (dispatch_compiled_func ev has_params r code ?m)"
      by (rule dispatch_compiled_safe [OF run _ code(2)]) (use assms(3) in simp)
    have inst: "case inst of None \<Rightarrow> cx_shape cx func = sh | Some i \<Rightarrow> inst_fits (m_store ?m) i (cx_shape cx func)"
      using assms(5) inst_fits_grows [OF _ st(1)] by (auto split: option.splits)
    obtain f fs where f: "cs_frames (m_calls ?m) = f # fs" using run by (rule running_frame)
    show ?thesis
      unfolding prepare_compiled_func_call_def Pair Inr prod.case sum.case
    proof (rule safely_bind [OF dis], clarify)
      fix x and m' :: "('a, 'b) machine"
      assume x: "dispatched K code r q ?m (x, m')"
      show "safely (handled_ok (entered ev cx K inst))
        (case x of Inl e \<Rightarrow> Done (Inl (e, m'))
         | Inr called \<Rightarrow> ex_then
                  (case kind of
                     Nested \<Rightarrow> ex_then (update_instr_ptr_at 1 m') (\<lambda>m. Done (called, inst, m))
                   | Tail \<Rightarrow>
                       ex_then (merge_call_frames called (m_stack m')) (\<lambda>(called, caller_inst, sk).
                         Done (called, (case inst of Some i \<Rightarrow> Some i | None \<Rightarrow> caller_inst),
                               m'\<lparr>m_stack := sk\<rparr>)))
                  (\<lambda>(called, inst, m).
                     let m = init_call_frame called m in
                     (case cs_push called inst (m_calls m) of
                        (Inl e, cs) \<Rightarrow> traps e (with_calls cs m)
                      | (Inr _, cs) \<Rightarrow> Done (Inr (with_calls cs m)))))"
      proof (cases x)
        case (Inl e)
        then show ?thesis by (simp add: handled_ok_def)
      next
        case called: (Inr called)
        have s: "store_ok cx (m_store ?m)" using st(2) by simp
        show ?thesis
        proof (cases kind)
          case Nested
          note n = assms(6) [OF Nested]
          show ?thesis unfolding called sum.case Nested call_kind.case
            by (rule nested_call_safe [OF run s x [unfolded called] _ _ code(1) inst]) (use n in simp_all)
        next
          case Tail
          note t = assms(7) [OF Tail]
          have "r = cf_results f" "nr = k" using t f by (simp_all add: caller_results_def cs_peek_def)
          then show ?thesis unfolding called sum.case Tail call_kind.case
            by (intro tail_call_safe [OF run s x [unfolded called] f _ _ inst]) (use code(1) in simp_all)
        qed
      qed
    qed
  qed
qed

end
