(* ===== verification/Machine_Host_Calls.thy ===== *)
theory Machine_Host_Calls
  imports Machine_Compiled_Calls
begin

text \<open>
  Calls to the host keep the invariant of the machine: the parameters the host reads have been
  written, its results go to registers of the caller or, after a tail call, to where the results
  of the caller were to go.
\<close>

section \<open>The host\<close>

lemma take_results_Done:
  assumes "n \<le> length cells" and "\<forall>i < n. cells ! i \<noteq> None"
  shows "\<exists>vals. take_results n cells = Done vals \<and> length vals = n"
proof -
  have "None \<notin> set (take n cells)" using assms by (auto simp: in_set_conv_nth)
  then show ?thesis using assms(1) by (simp add: take_results_def)
qed

lemma safely_dispatch:
  assumes "host_ok ev cx" and "store_ok cx st"
    and "vs_len vs = len + max (unat (hfe_len_params hf)) (unat (hfe_len_results hf))"
    and "\<forall>i < unat (hfe_len_params hf). vs_values vs ! (len + i) \<noteq> None"
    and "\<And>e vs st. safely P (F (Inl e, vs, st))"
    and "\<And>vals st'. grows st st' \<Longrightarrow> store_ok cx st' \<Longrightarrow> length vals = vs_len vs \<Longrightarrow>
           \<forall>i < len. vals ! i = vs_values vs ! i \<Longrightarrow>
           \<forall>i < unat (hfe_len_results hf). vals ! (len + i) \<noteq> None \<Longrightarrow>
           safely P (F (Inr (), vs\<lparr>vs_values := vals\<rparr>, st'))"
  shows "safely P (ex_then (dispatch_host_func ev hf inst vs st) F)"
proof -
  let ?np = "unat (hfe_len_params hf)" and ?nr = "unat (hfe_len_results hf)"
  have start: "vs_len vs - max ?np ?nr = len" using assms(3) by simp
  have lv: "length (vs_values vs) = len + max ?np ?nr" using assms(3) by (simp add: vs_len_def)
  have "None \<notin> set (take ?np (drop len (vs_values vs)))"
    using assms(4) lv by (auto simp: in_set_conv_nth)
  then have d: "dispatch_host_func ev hf inst vs st =
     (case ev_host ev hf inst (map the (take ?np (drop len (vs_values vs)))) st of
                (None, st) \<Rightarrow> Aborts
              | (Some (Inl e), st) \<Rightarrow>
                  ex_then (vs_drop (max ?np ?nr) vs) (\<lambda>vs. Done (Inl e, vs, st))
              | (Some (Inr results), st) \<Rightarrow>
                  if length results \<noteq> ?nr then Aborts
                  else Done (Inr (),
                    vs\<lparr>vs_values := take len (vs_values vs) @ map Some results
                                   @ drop (len + ?nr) (vs_values vs)\<rparr>, st))"
    using assms(3) by (simp add: dispatch_host_func_def Let_def start)
  obtain r st' where h: "ev_host ev hf inst (map the (take ?np (drop len (vs_values vs)))) st = (r, st')"
    by (cases "ev_host ev hf inst (map the (take ?np (drop len (vs_values vs)))) st")
  have st': "grows st st'" "store_ok cx st'" using host_okD [OF assms(1,2) h] by simp_all
  show ?thesis
  proof (cases r)
    case None
    then show ?thesis by (simp add: d h)
  next
    case (Some o')
    show ?thesis
    proof (cases o')
      case (Inl e)
      then show ?thesis using Some assms(3,5) by (simp add: d h vs_drop_def)
    next
      case (Inr results)
      let ?vals = "take len (vs_values vs) @ map Some results @ drop (len + ?nr) (vs_values vs)"
      show ?thesis
      proof (cases "length results = ?nr")
        case True
        have "length ?vals = vs_len vs" using True lv by (simp add: vs_len_def)
        moreover have "\<forall>i < len. ?vals ! i = vs_values vs ! i" using lv by (simp add: nth_append)
        moreover have "\<forall>i < ?nr. ?vals ! (len + i) \<noteq> None" using True lv by (simp add: nth_append)
        ultimately have "safely P (F (Inr (), vs\<lparr>vs_values := ?vals\<rparr>, st'))" using assms(6) st' by blast
        then show ?thesis using Some Inr True by (simp add: d h)
      qed (use Some Inr in \<open>simp add: d h\<close>)
    qed
  qed
qed

section \<open>Results\<close>

lemma write_slots_safe:
  assumes "running ev cx K cf sh k b n m" and "list_all (wr (regs_of cf)) (span_slots r (length vals))"
  shows "\<exists>vs. write_slots (m_sp m) r vals (m_values m) = Done vs \<and> running ev cx K cf sh k b n (with_values vs m)"
  using assms
proof (induction vals arbitrary: r m)
  case Nil
  have "with_values (m_values m) m = m" by (simp add: with_values_def)
  then show ?case using Nil(1) by (intro exI [of _ "m_values m"]) (simp only: write_slots.simps simp_thms)
next
  case (Cons v vals)
  then obtain vs where vs: "set_stack_slot r v m = Done (with_values vs m)"
      "running ev cx K cf sh k b n (with_values vs m)"
    using running_set [OF Cons.prems(1), of r v] by auto
  have "slots_set (m_sp m) r v (m_values m) = Done vs"
    using vs(1) by (cases "slots_set (m_sp m) r v (m_values m)")
      (auto simp: set_stack_slot_def with_values_def dest: arg_cong [where f = "\<lambda>m. sk_values (m_stack m)"])
  then show ?case using Cons.IH [OF vs(2), of "r + 1"] Cons.prems(2) by simp
qed

text \<open>Writing results below a popped frame.\<close>

lemma write_below:
  assumes "frames_ok ev cx K st (vs_values vs) fs insts b r k" and "b \<le> vs_len vs"
    and "j + length vals \<le> k" and "sp = (case fs of [] \<Rightarrow> root_stack_ptr vs | g # _ \<Rightarrow> stack_ptr_at vs (cf_base g))"
    and "fs = [] \<longrightarrow> (\<forall>q < j. vs_values vs ! q \<noteq> None)"
  shows "\<exists>cells. write_slots sp (r + int j) vals vs = Done (vs\<lparr>vs_values := cells\<rparr>)
    \<and> length cells = vs_len vs \<and> frames_ok ev cx K st cells fs insts b r k
    \<and> (fs = [] \<longrightarrow> (\<forall>q < j + length vals. cells ! q \<noteq> None))"
  using assms
proof (induction vals arbitrary: j vs)
  case Nil
  then show ?case by (intro exI [of _ "vs_values vs"]) (simp add: vs_len_def)
next
  case (Cons v vals)
  obtain i where i: "case fs of [] \<Rightarrow> int i = int j | g # _ \<Rightarrow> int i = int (cf_base g) + (r + int j)"
      "i < b" "\<And>v. frames_ok ev cx K st ((vs_values vs)[i := Some v]) fs insts b r k"
    using result_cell [OF Cons.prems(1), of j] Cons.prems(2,3) by (auto simp: vs_len_def)
  have r0: "r = 0" if "fs = []" using Cons.prems(1) that by simp
  have at: "slot_at vs sp (r + int j) = Some i"
    using i(1,2) Cons.prems(2,4) r0
    by (cases fs) (auto simp: slot_at_def root_stack_ptr_def stack_ptr_at_def)
  let ?vs = "vs\<lparr>vs_values := (vs_values vs)[i := Some v]\<rparr>"
  have lt: "i < length (vs_values vs)" using i(2) Cons.prems(2) by (simp add: vs_len_def)
  have "sp = (case fs of [] \<Rightarrow> root_stack_ptr ?vs | g # _ \<Rightarrow> stack_ptr_at ?vs (cf_base g))"
    using Cons.prems(4) by (simp add: root_stack_ptr_def stack_ptr_at_def split: list.splits)
  moreover have "fs = [] \<longrightarrow> (\<forall>q < Suc j. vs_values ?vs ! q \<noteq> None)"
    using Cons.prems(5) i(1) lt by (auto simp: nth_list_update less_Suc_eq)
  ultimately obtain cells where c: "write_slots sp (r + int (Suc j)) vals ?vs = Done (?vs\<lparr>vs_values := cells\<rparr>)"
      "length cells = vs_len ?vs" "frames_ok ev cx K st cells fs insts b r k"
      "fs = [] \<longrightarrow> (\<forall>q < Suc j + length vals. cells ! q \<noteq> None)"
    using Cons.IH [of ?vs "Suc j"] i(3) Cons.prems(2,3) by (auto simp: vs_len_def)
  then show ?case using at
    by (intro exI [of _ cells]) (simp add: slots_set_def vs_len_def algebra_simps)
qed

section \<open>Nested calls of the host\<close>

definition called_ok ::
  "('h, 'l) engine_env \<Rightarrow> contract \<Rightarrow> root_frame \<Rightarrow> (error_kind + control) \<times> ('h, 'l) machine \<Rightarrow> bool" where
  "called_ok ev cx K x \<longleftrightarrow> (case x of (Inl _, _) \<Rightarrow> True | (Inr c, m) \<Rightarrow> control_ok ev cx K (c, m))"

lemma called_ok_simps [simp]:
  "called_ok ev cx K (Inl e, m)" "called_ok ev cx K (Inr c, m) = control_ok ev cx K (c, m)"
  by (simp_all add: called_ok_def)

lemma cs_instance_running:
  assumes "running ev cx K cf sh k b n m"
  shows "cs_instance (m_calls m) = Some (m_instance m)"
proof -
  have "hv_items (cs_instances (m_calls m)) \<noteq> []" "hd (hv_items (cs_instances (m_calls m))) = m_instance m"
    using assms by (meson running_frame)+
  then show ?thesis by (simp add: cs_instance_def hv_items_def split: option.splits)
qed

text \<open>The state of a machine that has read the parameters of a host call.\<close>

lemma host_room:
  assumes "locals_ok cf b 0 m" and "cf_base caller = b + length (cfn_consts cf)"
    and "call_params (cfn_instrs cf) (ip_at (m_ip m)) (regs_of cf) has_params np = Some q"
    and "np \<le> n" and "height_ok K (m_values m)"
    and "\<And>e m. safely P (E e m)"
    and "\<And>m'. locals_ok cf b n m' \<Longrightarrow> ip_at (m_ip m') = q \<Longrightarrow> m_calls m' = m_calls m \<Longrightarrow>
           m_store m' = m_store m \<Longrightarrow> m_instance m' = m_instance m \<Longrightarrow>
           height_ok K (m_values m') \<Longrightarrow>
           \<forall>i < vs_len (m_values m). vs_values (m_values m') ! i = vs_values (m_values m) ! i \<Longrightarrow>
           \<forall>i < np. vs_values (m_values m') ! (vs_len (m_values m) + i) \<noteq> None \<Longrightarrow>
           safely P (G m')"
  shows "safely P (ex_then (extend_by t grow n (renew_sp caller) (m_values m, m_sp m)) (\<lambda>(r, vs, sp).
     let m = (with_values vs m)\<lparr>m_sp := sp\<rparr> in
     case r of
       Inl e \<Rightarrow> E e m
     | Inr buffer \<Rightarrow> ex_then (if has_params then copy_call_params buffer m else Done (buffer, m))
                       (\<lambda>(_, m). G m)))"
proof (rule safely_extend [OF assms(1,2,5)], goal_cases)
  case (1 e)
  show ?case using assms(6) by (simp add: Let_def)
next
  case (2 vs sp)
  let ?len = "vs_len (m_values m)"
  let ?m = "(with_values vs m)\<lparr>m_sp := sp\<rparr>"
  let ?fr = "\<lparr>fr_buffer = vs_buffer vs, fr_start = ?len, fr_end = ?len + n\<rparr>"
  have len: "b + cfn_len_stack_slots cf = ?len" using assms(1) by (simp add: locals_ok_def)
  have l: "locals_ok cf b n ?m" using locals_ok_extend [OF assms(1) 2(1,2)] by simp
  have vl: "vs_len vs = ?len + n" using 2(1) by (simp add: vs_len_def)
  have mv: "m_values ?m = vs" "m_ip ?m = m_ip m" by (simp_all add: with_values_def)
  obtain vals where vals: "(if has_params then copy_call_params ?fr ?m else Done (?fr, ?m)) =
      Done (?fr\<lparr>fr_start := ?len + np\<rparr>,
        (with_values (vs\<lparr>vs_values := vals\<rparr>) ?m)\<lparr>m_ip := (m_ip m)\<lparr>ip_at := q\<rparr>\<rparr>)"
      "filled ?len (?len + np) (vs_values vs) vals"
    using call_params_filled [OF l, of has_params np q ?fr] assms(3,4) vl len mv by auto
  let ?m' = "(with_values (vs\<lparr>vs_values := vals\<rparr>) ?m)\<lparr>m_ip := (m_ip m)\<lparr>ip_at := q\<rparr>\<rparr>"
  have mv': "m_values ?m' = vs\<lparr>vs_values := vals\<rparr>" by (simp add: with_values_def)
  have "locals_ok cf b n (with_values (vs\<lparr>vs_values := vals\<rparr>) ?m)"
    using locals_ok_filled [OF l, of ?len "?len + np" vals] vals(2) len mv(1) by simp
  then have l': "locals_ok cf b n ?m'" by (simp add: locals_ok_def)
  have "\<forall>i < ?len. vals ! i = vs_values (m_values m) ! i"
    using vals(2) 2(1) by (simp add: filled_def vs_len_def nth_append)
  moreover have "\<forall>i < np. vals ! (?len + i) \<noteq> None" using vals(2) by (simp add: filled_def)
  moreover have "height_ok K (vs\<lparr>vs_values := vals\<rparr>)"
    using 2(3) vals(2) by (simp add: height_ok_def filled_def vs_len_def)
  ultimately have "safely P (G ?m')"
    by (intro assms(7) [OF l']) (simp_all add: mv' with_values_def)
  then show ?case by (simp only: prod.case sum.case Let_def vals(1) ex_then.simps)
qed

text \<open>The frame of the caller is in order again once the cells of the call are gone.\<close>

lemma running_back:
  assumes "running ev cx K cf sh k b 0 m" and "cs_frames (m_calls m) = f # fs"
    and "vs_len (m_values m') = vs_len (m_values m)"
    and "\<forall>i < vs_len (m_values m). vs_values (m_values m') ! i = vs_values (m_values m) ! i"
    and "height_ok K (m_values m')"
    and "grows (m_store m) (m_store m')" and "store_ok cx (m_store m')"
    and "m_sp m' = stack_ptr_at (m_values m') (b + length (cfn_consts cf))"
    and "m_instance m' = m_instance m"
    and "m_calls m' = (m_calls m)\<lparr>cs_frames := update_instr_ptr ip f # fs\<rparr>"
    and "ip_code (m_ip m') = cfn_instrs cf"
  shows "running ev cx K cf sh k b 0 m'"
proof -
  obtain f' fs' where "cs_frames (m_calls m) = f' # fs'" "offsets_ok cf b f'"
    "hv_ok (cs_instances (m_calls m))"
    "hv_items (cs_instances (m_calls m)) \<noteq> []" "hd (hv_items (cs_instances (m_calls m))) = m_instance m"
    "frames_ok ev cx K (m_store m) (vs_values (m_values m)) fs'
       (below_instances f' (hv_items (cs_instances (m_calls m)))) b (cf_results f') k"
    using assms(1) by (rule running_frame)
  then have f: "offsets_ok cf b f" "hv_ok (cs_instances (m_calls m))"
    "hv_items (cs_instances (m_calls m)) \<noteq> []" "hd (hv_items (cs_instances (m_calls m))) = m_instance m"
    "frames_ok ev cx K (m_store m) (vs_values (m_values m)) fs
       (below_instances f (hv_items (cs_instances (m_calls m)))) b (cf_results f) k"
    using assms(2) by auto
  have l: "vs_len (m_values m) = b + cfn_len_stack_slots cf" "cells_ok cf b (vs_values (m_values m))"
    using running_locals [OF assms(1)] by (simp_all add: locals_ok_def)
  have "frames_ok ev cx K (m_store m') (vs_values (m_values m')) fs
       (below_instances f (hv_items (cs_instances (m_calls m)))) b (cf_results f) k"
    using frames_ok_grows [OF frames_ok_agree [OF f(5)] assms(6)] assms(3,4) l(1) by (simp add: vs_len_def)
  moreover have "cells_ok cf b (vs_values (m_values m'))"
    using l assms(3,4) by (simp add: cells_ok_def vs_len_def)
  moreover have "inst_fits (m_store m') (m_instance m) sh" "code_ok ev cx sh k cf"
    "depth_ok K (m_calls m')"
    using assms(1,2,10) inst_fits_grows [OF _ assms(6)] by (simp_all add: running_def context_ok_def depth_ok_def)
  ultimately show ?thesis
    unfolding running_def locals_ok_def context_ok_def
    using assms(3-11) f l by (auto simp: update_instr_ptr_def offsets_ok_def below_instances_def)
qed

lemma host_call_nested_safe:
  assumes "running ev cx K cf sh k b 0 m" and "host_ok ev cx"
    and "call_params (cfn_instrs cf) (ip_at (m_ip m)) (regs_of cf) has_params (unat (hfe_len_params hf)) = Some q"
    and "list_all (wr (regs_of cf)) (span_slots r (unat (hfe_len_results hf)))"
    and "start (cfn_instrs cf) (q + 1)"
  shows "safely (called_ok ev cx K) (execute_host_func ev Nested has_params (Some r) hf m)"
proof -
  obtain f fs where f: "cs_frames (m_calls m) = f # fs" "offsets_ok cf b f"
    using assms(1) by (rule running_frame)
  have same: "with_calls (m_calls m) m = m" by (simp add: with_calls_def)
  have st: "store_ok cx (m_store m)" using assms(1) by (simp add: running_def context_ok_def)
  note l = running_locals [OF assms(1)]
  let ?np = "unat (hfe_len_params hf)" and ?nr = "unat (hfe_len_results hf)"
  let ?len = "vs_len (m_values m)"
  have lenb: "?len = b + cfn_len_stack_slots cf" using l by (simp add: locals_ok_def)
  show ?thesis
    unfolding execute_host_func_def Let_def cs_instance_running [OF assms(1)] option.case call_kind.case
      cs_peek_def f(1) list.case option.map prod.case same if_True simp_thms
  proof (rule host_room [OF l _ assms(3), where K = K, unfolded Let_def], goal_cases)
    case 1
    then show ?case using f(2) by (simp add: offsets_ok_def)
  next
    case 2
    then show ?case by simp
  next
    case 3
    then show ?case using assms(1) by (simp add: running_def context_ok_def)
  next
    case (4 e m)
    then show ?case by simp
  next
    case (5 m1)
    have f1: "cs_frames (m_calls m1) = f # fs" using 5(3) f(1) by simp
    let ?m2 = "with_calls ((m_calls m1)\<lparr>cs_frames := update_instr_ptr (ip_offset 1 (m_ip m1)) f # fs\<rparr>) (next_instr m1)"
    have m2: "m_values ?m2 = m_values m1" "m_store ?m2 = m_store m" "m_instance ?m2 = m_instance m"
      "m_sp ?m2 = m_sp m1" "m_ip ?m2 = ip_offset 1 (m_ip m1)"
      "m_calls ?m2 = (m_calls m)\<lparr>cs_frames := update_instr_ptr (ip_offset 1 (m_ip m1)) f # fs\<rparr>"
      using 5(3-5) by (simp_all add: next_instr_def next_instr_at_def)
    have l1: "vs_len (m_values m1) = ?len + max ?np ?nr"
      "m_sp m1 = stack_ptr_at (m_values m1) (b + length (cfn_consts cf))" "ip_code (m_ip m1) = cfn_instrs cf"
      using 5(1) lenb by (simp_all add: locals_ok_def)
    note m1q = 5(2) and m16 = 5(6,7)
    show ?case
      unfolding update_instr_ptr_at_Done [OF f1] ex_then.simps
    proof (rule safely_dispatch [OF assms(2), where len = ?len], goal_cases)
      case 1
      then show ?case using st m2(2) by simp
    next
      case 2
      then show ?case using l1(1) m2(1) by simp
    next
      case 3
      then show ?case using 5(8) m2(1) by simp
    next
      case (4 e vs st)
      then show ?case by simp
    next
      case (5 vals st')
      let ?vs = "(m_values m1)\<lparr>vs_values := vals\<rparr>"
      let ?m3 = "((with_values ?vs ?m2)\<lparr>m_store := st'\<rparr>)\<lparr>m_instance := m_instance m\<rparr>"
      let ?vs4 = "(m_values m1)\<lparr>vs_values := take ?len vals\<rparr>"
      let ?m4 = "with_values ?vs4 ?m3"
      have lv: "length vals = ?len + max ?np ?nr" using 5(3) l1(1) m2(1) by simp
      have drop: "vs_drop_return (max ?np ?nr) (m_values ?m3) = Done (drop ?len vals, ?vs4)"
        using lv by (simp add: vs_drop_return_def vs_drop_def vs_len_def with_values_def)
      have "\<forall>i < ?nr. drop ?len vals ! i \<noteq> None" using 5(5) lv by simp
      then obtain rs where rs: "take_results ?nr (drop ?len vals) = Done rs" "length rs = ?nr"
        using take_results_Done [of ?nr "drop ?len vals"] lv by auto
      have run: "running ev cx K cf sh k b 0 ?m4"
        by (rule running_back [OF assms(1) f(1)])
          (use m16 5 m2 l1 lv in \<open>simp_all add: height_ok_def vs_len_def ip_offset_def stack_ptr_at_def\<close>)
      have sp: "m_sp ?m4 = m_sp ?m3" "m_values ?m4 = ?vs4" by simp_all
      obtain vs where w: "write_slots (m_sp ?m3) r rs ?vs4 = Done vs" "running ev cx K cf sh k b 0 (with_values vs ?m4)"
        using write_slots_safe [OF run, of r rs] assms(4) rs(2) sp by auto
      have "machine_ok ev cx K (with_values vs ?m4)"
        by (rule machine_okI [OF w(2)]) (use assms(5) m1q in \<open>simp add: m2(5) ip_offset_def\<close>)
      then have "machine_ok ev cx K (with_values vs ?m3)" by simp
      then show ?case
        using drop rs(1) w(1) m2(1) by simp
    qed
  qed
qed

section \<open>Tail calls of the host\<close>

text \<open>After a frame has been popped: its caller goes on, or the root is done.\<close>

lemma control_after_pop:
  assumes "frames_ok ev cx K (m_store m) (vs_values (m_values m)) fs (hv_items (cs_instances (m_calls m))) b r k"
    and "cs_frames (m_calls m) = fs" and "hv_ok (cs_instances (m_calls m))"
    and "vs_len (m_values m) = b" and "height_ok K (m_values m)"
    and "depth_ok K (m_calls m)" and "store_ok cx (m_store m)"
    and "fs \<noteq> [] \<Longrightarrow> m_instance m = hd (hv_items (cs_instances (m_calls m)))"
    and "fs = [] \<Longrightarrow> \<forall>i < k. vs_values (m_values m) ! i \<noteq> None"
  shows "control_ok ev cx K (case fs of g # _ \<Rightarrow> Go_On | [] \<Rightarrow> Break,
    case cs_peek (m_calls m) of Some g \<Rightarrow> init_call_frame g m | None \<Rightarrow> m)"
proof (cases fs)
  case Nil
  then have "b = rt_results K" "k = rt_results K" using assms(1) by simp_all
  then have "finished cx K m"
    using Nil assms(2,4,7,9) by (auto simp: finished_def vs_len_def in_set_conv_nth)
  then show ?thesis using Nil assms(2) by (simp add: cs_peek_def)
next
  case (Cons g gs)
  have "machine_ok ev cx K (init_call_frame g m)"
    by (rule resume_caller [OF assms(1) [unfolded Cons] _ assms(3) refl assms(4)])
      (use Cons assms in simp_all)
  then show ?thesis using Cons assms(2) by (simp add: cs_peek_def)
qed

lemma finish_host_tail_safe:
  assumes "frames_ok ev cx K (m_store m) (vs_values (m_values m)) fs (hv_items (cs_instances (m_calls m))) b r k"
    and "cs_frames (m_calls m) = fs" and "hv_ok (cs_instances (m_calls m))"
    and "cf_frame caller = b" and "vs_len (m_values m) = len + max_inout" and "b \<le> len"
    and "k \<le> max_inout" and "\<forall>i < k. vs_values (m_values m) ! (len + i) \<noteq> None"
    and "height_ok K (m_values m)"
    and "depth_ok K (m_calls m)" and "store_ok cx (m_store m)"
    and "if popped = None then fs \<noteq> [] \<longrightarrow> m_instance m = hd (hv_items (cs_instances (m_calls m))) else True"
  shows "safely (control_ok ev cx K) (finish_host_tail caller popped max_inout k r m)"
proof -
  let ?vs1 = "(m_values m)\<lparr>vs_values := take len (vs_values (m_values m))\<rparr>"
  let ?sp = "case fs of [] \<Rightarrow> root_stack_ptr (m_values m) | g # _ \<Rightarrow> stack_ptr_at (m_values m) (cf_base g)"
  have regs: "(case cs_peek (m_calls m) of
        Some frame \<Rightarrow> (stack_ptr_at (m_values m) (cf_base frame), Go_On)
      | None \<Rightarrow> (root_stack_ptr (m_values m), Break)) = (?sp, case fs of g # _ \<Rightarrow> Go_On | [] \<Rightarrow> Break)"
    using assms(2) by (simp add: cs_peek_def split: list.split)
  have drop: "vs_drop_return max_inout (m_values m) = Done (drop len (vs_values (m_values m)), ?vs1)"
    using assms(5) by (simp add: vs_drop_return_def vs_drop_def)
  obtain vals where vals: "take_results k (drop len (vs_values (m_values m))) = Done vals" "length vals = k"
    using take_results_Done [of k "drop len (vs_values (m_values m))"] assms(5,7,8) by (auto simp: vs_len_def)
  have fr: "frames_ok ev cx K (m_store m) (vs_values ?vs1) fs (hv_items (cs_instances (m_calls m))) b r k"
    using frames_ok_agree [OF assms(1)] assms(5,6) by (simp add: vs_len_def)
  have b1: "b \<le> vs_len ?vs1" using assms(5,6) by (simp add: vs_len_def)
  have sp1: "?sp = (case fs of [] \<Rightarrow> root_stack_ptr ?vs1 | g # _ \<Rightarrow> stack_ptr_at ?vs1 (cf_base g))"
    by (simp add: root_stack_ptr_def stack_ptr_at_def split: list.split)
  obtain cells where c: "write_slots ?sp r vals ?vs1 = Done (?vs1\<lparr>vs_values := cells\<rparr>)"
      "length cells = vs_len ?vs1"
      "frames_ok ev cx K (m_store m) cells fs (hv_items (cs_instances (m_calls m))) b r k"
      "fs = [] \<longrightarrow> (\<forall>q < k. cells ! q \<noteq> None)"
    using write_below [OF fr b1, of 0 vals ?sp] vals(2) sp1 by auto
  let ?vs2 = "(m_values m)\<lparr>vs_values := take b cells\<rparr>"
  have trunc: "vs_truncate (cf_frame caller) (?vs1\<lparr>vs_values := cells\<rparr>) = Done ?vs2"
    using assms(4) c(2) b1 by (simp add: vs_truncate_def vs_len_def)
  let ?m = "restore_instance popped (with_values ?vs2 m)"
  have m: "m_values ?m = ?vs2" "m_calls ?m = m_calls m" "m_store ?m = m_store m"
    by (simp_all add: restore_instance_def split: option.split)
  have len: "vs_len ?vs2 = b" using c(2) b1 by (simp add: vs_len_def)
  have kK: "fs = [] \<Longrightarrow> k = b" using assms(1) by auto
  have ctl: "control_ok ev cx K (case fs of g # _ \<Rightarrow> Go_On | [] \<Rightarrow> Break,
    case cs_peek (m_calls ?m) of Some g \<Rightarrow> init_call_frame g ?m | None \<Rightarrow> ?m)"
  proof (rule control_after_pop)
    show "frames_ok ev cx K (m_store ?m) (vs_values (m_values ?m)) fs (hv_items (cs_instances (m_calls ?m))) b r k"
      unfolding m using frames_ok_agree [OF c(3)] c(2) b1 by simp
    show "m_instance ?m = hd (hv_items (cs_instances (m_calls ?m)))" if "fs \<noteq> []"
    proof -
      have "hv_items (cs_instances (m_calls m)) \<noteq> []" using assms(1) that by (cases fs) auto
      then have "cs_instance (m_calls m) = Some (hd (hv_items (cs_instances (m_calls m))))"
        by (simp add: cs_instance_def hv_items_def split: option.splits)
      then show ?thesis using assms(12) that by (simp add: restore_instance_def m(2) split: option.splits)
    qed
    show "\<forall>i < k. vs_values (m_values ?m) ! i \<noteq> None" if "fs = []"
      using c(4) that kK m(1) by simp
    show "height_ok K (m_values ?m)"
      using len assms(5,6,9) m(1) by (simp add: height_ok_def)
  qed (use assms m len in simp_all)
  show ?thesis
    unfolding finish_host_tail_def Let_def regs prod.case
    using drop vals(1) c(1) trunc ctl m(2) by simp
qed

lemma host_call_tail_safe:
  assumes "running ev cx K cf sh k b 0 m" and "host_ok ev cx"
    and "call_params (cfn_instrs cf) (ip_at (m_ip m)) (regs_of cf) has_params (unat (hfe_len_params hf)) = Some q"
    and "unat (hfe_len_results hf) = k"
  shows "safely (called_ok ev cx K) (execute_host_func ev Tail has_params None hf m)"
proof -
  obtain f fs where f: "cs_frames (m_calls m) = f # fs" "offsets_ok cf b f"
    "hd (hv_items (cs_instances (m_calls m))) = m_instance m"
    "frames_ok ev cx K (m_store m) (vs_values (m_values m)) fs
       (below_instances f (hv_items (cs_instances (m_calls m)))) b (cf_results f) k"
    using assms(1) by (rule running_frame)
  obtain calls popped where p: "cs_pop (m_calls m) = (Some (f, popped), calls)"
    "cs_frames calls = fs" "hv_ok (cs_instances calls)"
    "hv_items (cs_instances calls) = below_instances f (hv_items (cs_instances (m_calls m)))"
    "cs_recursion_limit calls = cs_recursion_limit (m_calls m)"
    "popped = (if cf_changed_instance f then Some (m_instance m) else None)"
    by (rule pop_frame [OF assms(1) f(1)])
  have st: "store_ok cx (m_store m)" "depth_ok K calls" "height_ok K (m_values m)"
    using assms(1) f(1) p(2,5) by (simp_all add: running_def context_ok_def depth_ok_def)
  let ?m = "with_calls calls m"
  have l: "locals_ok cf b 0 ?m" using running_locals [OF assms(1)] by (simp add: locals_ok_def)
  let ?np = "unat (hfe_len_params hf)"
  let ?len = "vs_len (m_values m)"
  have lenb: "?len = b + cfn_len_stack_slots cf" using l by (simp add: locals_ok_def)
  have kinds: "(Tail = Nested) = False" by simp
  have vm: "m_values m = m_values ?m" "m_sp m = m_sp ?m" by simp_all
  show ?thesis
    unfolding execute_host_func_def Let_def cs_instance_running [OF assms(1)] option.case call_kind.case
      p(1) prod.case kinds if_False ex_then.simps assms(4)
  proof (rule host_room [OF l, where np = ?np and q = q and K = K, unfolded Let_def], goal_cases)
    case 1
    then show ?case using f(2) by (simp add: offsets_ok_def)
  next
    case 2
    show ?case using assms(3) by simp
  next
    case 3
    then show ?case by simp
  next
    case 4
    then show ?case using st(3) by simp
  next
    case (5 e m)
    then show ?case by simp
  next
    case (6 m1)
    have l1: "vs_len (m_values m1) = ?len + max ?np k"
      using 6(1) lenb by (simp add: locals_ok_def)
    show ?case
    proof (rule safely_dispatch [OF assms(2), where len = ?len], goal_cases)
      case 1
      then show ?case using st 6(4) by simp
    next
      case 2
      then show ?case using l1 assms(4) by simp
    next
      case 3
      then show ?case using 6(8) by simp
    next
      case (4 e vs st)
      then show ?case by simp
    next
      case (5 vals st')
      note dis = 5
      let ?m3 = "((with_values ((m_values m1)\<lparr>vs_values := vals\<rparr>) m1)\<lparr>m_store := st'\<rparr>)\<lparr>m_instance := m_instance m\<rparr>"
      have m1: "m_calls m1 = calls" "m_store m1 = m_store m"
        "\<forall>i < ?len. vs_values (m_values m1) ! i = vs_values (m_values m) ! i"
        "height_ok K (m_values m1)"
        using \<open>m_calls m1 = m_calls ?m\<close> \<open>m_store m1 = m_store ?m\<close> 
          \<open>\<forall>i < vs_len (m_values ?m). vs_values (m_values m1) ! i = vs_values (m_values ?m) ! i\<close>
          \<open>height_ok K (m_values m1)\<close> by simp_all
      have fr: "frames_ok ev cx K st' vals fs (hv_items (cs_instances calls)) b (cf_results f) k"
        unfolding p(4)
        by (rule frames_ok_grows [OF frames_ok_agree [OF f(4)]])
          (use dis m1 l1 lenb in \<open>simp_all add: vs_len_def\<close>)
      have "safely (control_ok ev cx K) (finish_host_tail f popped (max ?np k) k (cf_results f) ?m3)"
      proof (rule finish_host_tail_safe)
        show "frames_ok ev cx K (m_store ?m3) (vs_values (m_values ?m3)) fs
            (hv_items (cs_instances (m_calls ?m3))) b (cf_results f) k"
          using fr m1(1) by simp
        show "if popped = None then fs \<noteq> [] \<longrightarrow> m_instance ?m3 = hd (hv_items (cs_instances (m_calls ?m3))) else True"
          using p(4,6) f(3) m1(1) by (simp add: below_instances_def)
      qed (use p m1 dis l1 lenb f(2) st assms(4) in \<open>simp_all add: vs_len_def offsets_ok_def height_ok_def\<close>)
      then have "safely (\<lambda>(cf, m). called_ok ev cx K (Inr cf, m))
          (finish_host_tail f popped (max ?np k) k (cf_results f) ?m3)"
        by (rule safely_mono) auto
      then show ?case
        by (simp add: safely_then case_prod_unfold)
    qed
  qed
qed

end
