(* ===== verification/Machine_Bulk_Safety.thy ===== *)
theory Machine_Bulk_Safety
  imports Machine_Locals
begin

text \<open>
  The bulk instructions keep the invariant: the words that name their memories, tables and segments
  are there, and what they write back to the store leaves its instances and functions alone.
\<close>

section \<open>What is written back\<close>

definition rewrites_store :: "('h, 'l) machine \<Rightarrow> ('h, 'l) machine \<Rightarrow> bool" where
  "rewrites_store m m' \<longleftrightarrow> (\<exists>st. m' = m\<lparr>m_store := st\<rparr> \<and> so_idx st = so_idx (m_store m)
     \<and> so_instances st = so_instances (m_store m) \<and> so_funcs st = so_funcs (m_store m))"

lemma rewrites_refl: "rewrites_store m m"
  unfolding rewrites_store_def by (intro exI [of _ "m_store m"]) simp

lemma rewrites_trans: "rewrites_store m m' \<Longrightarrow> rewrites_store m' m'' \<Longrightarrow> rewrites_store m m''"
  by (auto simp: rewrites_store_def)

lemma rewritesI:
  "so_idx st = so_idx (m_store m) \<Longrightarrow> so_instances st = so_instances (m_store m) \<Longrightarrow>
    so_funcs st = so_funcs (m_store m) \<Longrightarrow> rewrites_store m (m\<lparr>m_store := st\<rparr>)"
  unfolding rewrites_store_def by blast

lemma rewrites_fuel: "rewrites_store m (with_fuel fu m)"
  unfolding with_fuel_def by (rule rewritesI) simp_all

lemma rewrites_fuel_option: "rewrites_store m (with_fuel_option fu m)"
  by (simp add: with_fuel_option_def rewrites_fuel rewrites_refl split: option.split)

lemma rewrites_memory: "rewrites_store m (with_memory_at h mem m)"
  unfolding with_memory_at_def by (rule rewritesI) simp_all

lemma rewrites_table: "rewrites_store m (with_table_at h tab m)"
  unfolding with_table_at_def by (rule rewritesI) simp_all

lemma rewrites_limiter: "rewrites_store m (with_limiter_state l m)"
  unfolding with_limiter_state_def by (rule rewritesI) simp_all

lemma rewrites_bytes: "rewrites_store m (m\<lparr>m_store := put_memory_bytes h bs (m_store m)\<rparr>)"
  by (rule rewritesI) (simp_all add: put_memory_bytes_def Let_def)

lemma rewrites_grown:
  "rewrites_store m (with_limiter_state l (with_memory_at h mem (with_fuel_option fu m)))"
  "rewrites_store m (with_limiter_state l (with_table_at h tab (with_fuel_option fu m)))"
  "rewrites_store m (with_table_at h tab (with_fuel_option fu m))"
  by (rule rewrites_trans [OF rewrites_trans [OF rewrites_fuel_option rewrites_memory] rewrites_limiter],
      rule rewrites_trans [OF rewrites_trans [OF rewrites_fuel_option rewrites_table] rewrites_limiter],
      rule rewrites_trans [OF rewrites_fuel_option rewrites_table])

lemma running_rewrites:
  assumes "running ev cx K cf sh k b n m" and "rewrites_store m m'"
  shows "running ev cx K cf sh k b n m'" and "m_ip m' = m_ip m"
proof -
  obtain st where st: "m' = m\<lparr>m_store := st\<rparr>" "so_idx st = so_idx (m_store m)"
      "so_instances st = so_instances (m_store m)" "so_funcs st = so_funcs (m_store m)"
    using assms(2) by (auto simp: rewrites_store_def)
  have "store_ok cx (m_store m)" using assms(1) by (simp add: running_def context_ok_def)
  then show "running ev cx K cf sh k b n m'"
    using running_store [OF assms(1)] store_same [OF st(2-4)] by (simp add: st(1))
  show "m_ip m' = m_ip m" using st(1) by simp
qed

lemma bytes_done_safe:
  assumes "running ev cx K cf sh k b 0 m"
  shows "safely (handled_ok (\<lambda>m'. running ev cx K cf sh k b 0 m' \<and> m_ip m' = m_ip m)) (bytes_done h r m)"
proof -
  have "rewrites_store m ((with_fuel fu m)\<lparr>m_store := put_memory_bytes h bs (m_store (with_fuel fu m))\<rparr>)" for fu bs
    by (rule rewrites_trans [OF rewrites_fuel rewrites_bytes])
  from running_rewrites [OF assms this] show ?thesis
    by (simp add: bytes_done_def handled_ok_def split: prod.split sum.split)
qed

lemma table_done_safe:
  assumes "running ev cx K cf sh k b 0 m"
  shows "safely (handled_ok (\<lambda>m'. running ev cx K cf sh k b 0 m' \<and> m_ip m' = m_ip m)) (table_done h r m)"
  using running_rewrites [OF assms rewrites_grown(3)]
  by (simp add: table_done_def handled_ok_def Let_def split: prod.split sum.split)

lemma set_then_safe:
  assumes "running ev cx K cf sh k b 0 m" and "wr (regs_of cf) r" and "start (cfn_instrs cf) (ip_at (m_ip m) + int d)"
  shows "safely (handled_ok (machine_ok ev cx K)) (then_next d (goes_on (set_stack_slot r v m)))"
proof (rule then_next_safe [OF _ assms(3)])
  have "safely (\<lambda>m'. running ev cx K cf sh k b 0 m' \<and> m_ip m' = m_ip m) (set_stack_slot r v m)"
    using running_set [OF assms(1,2), of v] by (elim exE conjE) simp
  then show "safely (handled_ok (\<lambda>m'. running ev cx K cf sh k b 0 m' \<and> m_ip m' = m_ip m)) (goes_on (set_stack_slot r v m))"
    by (simp add: safely_goes_on)
qed

section \<open>Operands\<close>

lemma safely_index:
  assumes "locals_ok cf b n m" and "index_word sel len (cfn_instrs cf) (ip_at (m_ip m) + int d)"
    and "\<And>i. i < len \<Longrightarrow> safely P (f i)"
  shows "safely P (ex_then (fetch_index sel d m) f)"
proof -
  obtain w i where "word_at (cfn_instrs cf) (ip_at (m_ip m) + int d) = Some w" "sel w = Some i" "i < len"
    using assms(2) by (auto simp: index_word_def split: option.splits)
  then show ?thesis using param_at_Done [OF assms(1)] assms(3) by (simp add: fetch_index_def)
qed

lemma safely_entity_of:
  "(\<And>x. safely P (f x)) \<Longrightarrow> safely P (ex_then (memory_of h m) f)"
  "(\<And>x. safely P (g x)) \<Longrightarrow> safely P (ex_then (table_of h m) g)"
  "(\<And>x. safely P (i x)) \<Longrightarrow> safely P (ex_then (data_of h m) i)"
  "(\<And>x. safely P (j x)) \<Longrightarrow> safely P (ex_then (element_of h m) j)"
  "(\<And>x. safely P (k x)) \<Longrightarrow> safely P (ex_then (distinct_pair h h') k)"
  by (simp_all add: memory_of_def table_of_def data_of_def element_of_def distinct_pair_def
      safely_free [OF safely_outcome])

lemma safely_named:
  assumes "running ev cx K cf sh k b 0 m"
  shows "index_word memory_index (sh_memories sh) (cfn_instrs cf) (ip_at (m_ip m) + int d) \<Longrightarrow>
      (\<And>i. i < sh_memories sh \<Longrightarrow> safely P (f i)) \<Longrightarrow> safely P (ex_then (fetch_index memory_index d m) f)"
    and "index_word table_index (sh_tables sh) (cfn_instrs cf) (ip_at (m_ip m) + int d) \<Longrightarrow>
      (\<And>i. i < sh_tables sh \<Longrightarrow> safely P (f i)) \<Longrightarrow> safely P (ex_then (fetch_index table_index d m) f)"
    and "index_word data_index (sh_datas sh) (cfn_instrs cf) (ip_at (m_ip m) + int d) \<Longrightarrow>
      (\<And>i. i < sh_datas sh \<Longrightarrow> safely P (f i)) \<Longrightarrow> safely P (ex_then (fetch_index data_index d m) f)"
    and "index_word elem_index (sh_elems sh) (cfn_instrs cf) (ip_at (m_ip m) + int d) \<Longrightarrow>
      (\<And>i. i < sh_elems sh \<Longrightarrow> safely P (f i)) \<Longrightarrow> safely P (ex_then (fetch_index elem_index d m) f)"
  by (blast intro: safely_index [OF running_locals [OF assms]])+

lemmas bulk_steps = safely_get [OF running_locals] safely_named
  safely_free [OF safely_entity(2) [OF running_instance]] safely_free [OF safely_entity(3) [OF running_instance]]
  safely_free [OF safely_entity(5) [OF running_instance]] safely_free [OF safely_entity(6) [OF running_instance]]
  then_next_safe [OF bytes_done_safe] then_next_safe [OF table_done_safe] set_then_safe

section \<open>Handlers\<close>

lemma size_then_safe:
  assumes "running ev cx K cf sh k b 0 m" and "wr (regs_of cf) r"
    and "start (cfn_instrs cf) (ip_at (m_ip m) + int d)"
  shows "i < sh_memories sh \<Longrightarrow>
      safely (handled_ok (machine_ok ev cx K)) (then_next d (goes_on (execute_memory_size_impl r i m)))"
    and "i < sh_tables sh \<Longrightarrow>
      safely (handled_ok (machine_ok ev cx K)) (then_next d (goes_on (execute_table_size_impl r i m)))"
proof -
  have set: "safely (\<lambda>m'. running ev cx K cf sh k b 0 m' \<and> m_ip m' = m_ip m) (set_stack_slot r v m)" for v
    using running_set [OF assms(1,2), of v] by (elim exE conjE) simp
  note r = running_instance [OF assms(1)]
  show "safely (handled_ok (machine_ok ev cx K)) (then_next d (goes_on (execute_memory_size_impl r i m)))"
    if "i < sh_memories sh"
    unfolding execute_memory_size_impl_def
    by (rule then_next_safe [OF _ assms(3)], rule safely_goes_on, rule safely_free [OF safely_entity(2) [OF r that]],
        rule safely_entity_of, rule set)
  show "safely (handled_ok (machine_ok ev cx K)) (then_next d (goes_on (execute_table_size_impl r i m)))"
    if "i < sh_tables sh"
    unfolding execute_table_size_impl_def
    by (rule then_next_safe [OF _ assms(3)], rule safely_goes_on, rule safely_free [OF safely_entity(3) [OF r that]],
        rule safely_entity_of, rule set)
qed

lemma grown_then_safe:
  assumes "running ev cx K cf sh k b 0 m" and "rewrites_store m m'" and "wr (regs_of cf) r"
    and "start (cfn_instrs cf) (ip_at (m_ip m) + int d)"
  shows "safely (handled_ok (machine_ok ev cx K)) (then_next d (goes_on (set_stack_slot r v m')))"
  using set_then_safe [OF running_rewrites(1) [OF assms(1,2)] assms(3)] assms(4)
  by (simp add: running_rewrites(2) [OF assms(1,2)])

lemma drop_then_safe:
  assumes "running ev cx K cf sh k b 0 m" and "rewrites_store m m'" and "start (cfn_instrs cf) (ip_at (m_ip m) + 1)"
  shows "machine_ok ev cx K (next_instr m')"
  using machine_ok_next1 [OF running_rewrites(1) [OF assms(1,2)]] assms(3)
  by (simp add: running_rewrites(2) [OF assms(1,2)])

lemma memory_bulk_safe:
  assumes r: "running ev cx K cf sh k b 0 m"
    and ok: "bulk_ok sh (cfn_instrs cf) (ip_at (m_ip m)) (regs_of cf) i"
    and i: "i = MemoryGrow x y \<or> i = MemoryCopy x y z \<or> i = MemoryFill x y z \<or> i = MemoryFillImm x v z \<or> i = MemoryInit x y z"
  shows "safely (handled_ok (machine_ok ev cx K)) (execute_bulk ev i m)"
  using i ok
  by (elim disjE)
    (auto simp: execute_memory_grow_def execute_memory_copy_def execute_memory_fill_def
        execute_memory_fill_imm_def execute_memory_fill_impl_def execute_memory_init_def safely_traps Let_def
        handled_ok_def [of _ "Inl _"]
      intro!: bulk_steps [OF r] safely_entity_of safely_free [OF safely_outcome] size_then_safe [OF r]
        grown_then_safe [OF r rewrites_grown(1)]
      split: sum.split)

lemma table_bulk_safe:
  assumes r: "running ev cx K cf sh k b 0 m"
    and ok: "bulk_ok sh (cfn_instrs cf) (ip_at (m_ip m)) (regs_of cf) i"
    and i: "i = TableGet x y \<or> i = TableGetImm x v \<or> i = TableSet x y \<or> i = TableSetAt v y \<or> i = TableCopy x y z
      \<or> i = TableInit x y z \<or> i = TableFill x y z \<or> i = TableGrow x y z"
  shows "safely (handled_ok (machine_ok ev cx K)) (execute_bulk ev i m)"
  using i ok
  by (elim disjE)
    (auto simp: execute_table_get_def execute_table_get_impl_def execute_table_set_def execute_table_set_impl_def
        execute_table_copy_def execute_table_init_def execute_table_fill_def execute_table_grow_def Let_def
        handled_ok_def [of _ "Inl _"]
      intro!: bulk_steps [OF r] safely_entity_of safely_free [OF safely_outcome] size_then_safe [OF r]
        grown_then_safe [OF r rewrites_grown(2)]
      split: sum.split prod.split)

lemma bulk_safe:
  assumes r: "running ev cx K cf sh k b 0 m"
    and ok: "bulk_ok sh (cfn_instrs cf) (ip_at (m_ip m)) (regs_of cf) i"
  shows "safely (handled_ok (machine_ok ev cx K)) (execute_bulk ev i m)"
proof (cases i)
  case (TableSize x t)
  then show ?thesis using ok by (auto intro!: size_then_safe [OF r])
next
  case (MemorySize x t)
  then show ?thesis using ok by (auto intro!: size_then_safe [OF r])
next
  case (ElemDrop j)
  then have j: "j < sh_elems sh" "start (cfn_instrs cf) (ip_at (m_ip m) + 1)" using ok by simp_all
  have "machine_ok ev cx K (next_instr (m\<lparr>m_store := (m_store m)\<lparr>so_elems := es\<rparr>\<rparr>))" for es
    by (rule drop_then_safe [OF r rewritesI j(2)]) simp_all
  then show ?thesis using ElemDrop
    by (auto simp: execute_element_drop_def
        intro!: safely_goes_on safely_entity_of safely_free [OF safely_entity(6) [OF running_instance [OF r] j(1)]])
next
  case (DataDrop j)
  then have j: "j < sh_datas sh" "start (cfn_instrs cf) (ip_at (m_ip m) + 1)" using ok by simp_all
  have "machine_ok ev cx K (next_instr (m\<lparr>m_store := (m_store m)\<lparr>so_datas := ds\<rparr>\<rparr>))" for ds
    by (rule drop_then_safe [OF r rewritesI j(2)]) simp_all
  then show ?thesis using DataDrop
    by (auto simp: execute_data_drop_def
        intro!: safely_goes_on safely_entity_of safely_free [OF safely_entity(5) [OF running_instance [OF r] j(1)]])
qed (use table_bulk_safe [OF r ok] memory_bulk_safe [OF r ok] in blast)+

end
