(* ===== verification/Machine_Safety.thy ===== *)
theory Machine_Safety
  imports Machine_Host_Calls Machine_Bulk_Safety
begin

text \<open>
  The machine on code that keeps the contract: no step is undefined, and every step that goes on
  leaves the machine in order. A run of the machine, as the dispatch loop makes it, ends with exactly
  the results of the root function on the value stack, in an error, or in an abort of the program;
  it may also not end.
\<close>

section \<open>Calls\<close>

lemma imported_call_safe:
  assumes "running ev cx K cf sh k b 0 m" and "code_map_ok ev cx" and "host_ok ev cx"
    and "call_params (cfn_instrs cf) (ip_at (m_ip m)) (regs_of cf) has_params np = Some q"
    and "\<And>e. resolve_func (m_store m) func = Ok e \<Longrightarrow> ty_arity (func_entity_ty e) = (np, nr)"
    and "case results of
        Some r \<Rightarrow> kind = Nested \<and> list_all (wr (regs_of cf)) (span_slots r nr) \<and> start (cfn_instrs cf) (q + 1)
      | None \<Rightarrow> kind = Tail \<and> nr = k"
  shows "safely (called_ok ev cx K) (execute_call_imported_impl ev kind has_params results func m)"
  unfolding execute_call_imported_impl_def
proof (cases "resolve_func (m_store m) func")
  case (Ok e)
  have st: "store_ok cx (m_store m)" using assms(1) by (simp add: running_def context_ok_def)
  then have fits: "entity_fits cx (m_store m) e" using Ok unfolding store_ok_def by blast
  obtain f fs where f: "cs_frames (m_calls m) = f # fs" using assms(1) by (rule running_frame)
  show "safely (called_ok ev cx K) (ex_then (ex_of_outcome (resolve_func (m_store m) func)) (\<lambda>f. case f of
       WasmFunc w \<Rightarrow>
         ex_then (case results of Some r \<Rightarrow> Done r | None \<Rightarrow> caller_results m) (\<lambda>results.
         ex_then (prepare_compiled_func_call ev kind has_params results (wfe_body w) (Some (wfe_instance w)) m)
           (\<lambda>r. case r of
              Inl (e, m) \<Rightarrow> Done (Inl e, m)
            | Inr m \<Rightarrow> Done (Inr Go_On, m\<lparr>m_instance := wfe_instance w\<rparr>)))
     | HostFunc h \<Rightarrow> execute_host_func ev kind has_params results h m))"
  proof (cases e)
    case (WasmFunc w)
    have a: "cx_arity cx (wfe_body w) = (np, nr)"
      "inst_fits (m_store m) (wfe_instance w) (cx_shape cx (wfe_body w))"
      using fits assms(5) [OF Ok] WasmFunc by simp_all
    obtain r where r: "(case results of Some r \<Rightarrow> Done r | None \<Rightarrow> caller_results m) = Done r"
        "\<And>x. results = Some x \<Longrightarrow> x = r" "results = None \<Longrightarrow> caller_results m = Done r"
      using f by (cases results) (auto simp: caller_results_def cs_peek_def)
    have "safely (handled_ok (entered ev cx K (Some (wfe_instance w))))
        (prepare_compiled_func_call ev kind has_params r (wfe_body w) (Some (wfe_instance w)) m)"
      by (rule prepare_safe [OF assms(1,2,4) a(1)])
        (use a(2) assms(6) r(2,3) in \<open>auto split: option.splits\<close>)
    then show ?thesis
      using Ok WasmFunc r(1)
      by (cases "prepare_compiled_func_call ev kind has_params r (wfe_body w) (Some (wfe_instance w)) m")
        (auto simp: handled_ok_def entered_def split: sum.splits)
  next
    case (HostFunc h)
    have a: "unat (hfe_len_params h) = np" "unat (hfe_len_results h) = nr"
      using fits assms(5) [OF Ok] HostFunc by simp_all
    show ?thesis
    proof (cases results)
      case None
      then have "kind = Tail" "nr = k" using assms(6) by simp_all
      then show ?thesis using None Ok HostFunc host_call_tail_safe [OF assms(1,3)] assms(4) a by simp
    next
      case (Some r)
      then have n: "kind = Nested" "list_all (wr (regs_of cf)) (span_slots r nr)" "start (cfn_instrs cf) (q + 1)"
        using assms(6) by simp_all
      then show ?thesis using Some Ok HostFunc host_call_nested_safe [OF assms(1,3)] assms(4) a by simp
    qed
  qed
qed (simp_all add: called_ok_def)

lemma internal_call_safe:
  assumes "running ev cx K cf sh k b 0 m" and "code_map_ok ev cx"
    and "call_params (cfn_instrs cf) (ip_at (m_ip m)) (regs_of cf) has_params np = Some q"
    and "cx_arity cx func = (np, nr)" and "cx_shape cx func = sh"
    and "case results of
        Some r \<Rightarrow> kind = Nested \<and> list_all (wr (regs_of cf)) (span_slots r nr) \<and> start (cfn_instrs cf) (q + 1)
      | None \<Rightarrow> kind = Tail \<and> nr = k"
  shows "safely (called_ok ev cx K) (execute_call ev kind results (Internal func) has_params m)"
proof -
  obtain f fs where f: "cs_frames (m_calls m) = f # fs" using assms(1) by (rule running_frame)
  obtain r where r: "(case results of Some r \<Rightarrow> Done r | None \<Rightarrow> caller_results m) = Done r"
      "\<And>x. results = Some x \<Longrightarrow> x = r" "results = None \<Longrightarrow> caller_results m = Done r"
    using f by (cases results) (auto simp: caller_results_def cs_peek_def)
  have "safely (handled_ok (entered ev cx K None))
      (prepare_compiled_func_call ev kind has_params r func None m)"
    by (rule prepare_safe [OF assms(1,2,3,4)])
      (use assms(5,6) r(2,3) in \<open>auto split: option.splits\<close>)
  then show ?thesis using r(1)
    by (cases "prepare_compiled_func_call ev kind has_params r func None m")
      (auto simp: handled_ok_def entered_def split: sum.splits)
qed

lemma func_in_range:
  assumes "inst_fits (m_store m) (m_instance m) sh" and "i < length (sh_funcs sh)"
  shows "\<exists>h. get_entity ie_funcs i m = Done h
    \<and> (\<forall>e. resolve_func (m_store m) h = Ok e \<longrightarrow> ty_arity (func_entity_ty e) = sh_funcs sh ! i)"
proof -
  obtain ie where ie: "resolve_instance (m_store m) (m_instance m) = Ok ie"
      "list_all2 (\<lambda>f a. \<exists>e. resolve_func (m_store m) f = Ok e \<and> ty_arity (func_entity_ty e) = a)
         (ie_funcs ie) (sh_funcs sh)"
    using assms(1) unfolding inst_fits_def by blast
  then show ?thesis using assms(2)
    by (auto simp: get_entity_def cached_instance_def list_all2_conv_all_nth)
qed

lemma type_in_range:
  assumes "inst_fits (m_store m) (m_instance m) sh" and "i < length (sh_types sh)"
  shows "\<exists>ty. get_entity ie_func_types i m = Done ty \<and> ty_arity ty = sh_types sh ! i"
proof -
  obtain ie where ie: "resolve_instance (m_store m) (m_instance m) = Ok ie"
      "map ty_arity (ie_func_types ie) = sh_types sh"
    using assms(1) unfolding inst_fits_def by blast
  have "i < length (ie_func_types ie)" using assms(2) unfolding ie(2) [symmetric] by simp
  then have "ty_arity (ie_func_types ie ! i) = sh_types sh ! i"
    unfolding ie(2) [symmetric] by simp
  then show ?thesis using ie(1) \<open>i < length (ie_func_types ie)\<close>
    by (simp add: get_entity_def cached_instance_def)
qed

text \<open>The signature is checked before an indirect call, so that its arity is the expected one.\<close>

lemma indirect_call_safe:
  assumes "running ev cx K cf sh k b 0 m" and "code_map_ok ev cx" and "host_ok ev cx"
    and "call_params (cfn_instrs cf) (ip_at (m_ip m)) (regs_of cf) has_params np = Some q"
    and "table < sh_tables sh" and "ty < length (sh_types sh)" and "sh_types sh ! ty = (np, nr)"
    and "case results of
        Some r \<Rightarrow> kind = Nested \<and> list_all (wr (regs_of cf)) (span_slots r nr) \<and> start (cfn_instrs cf) (q + 1)
      | None \<Rightarrow> kind = Tail \<and> nr = k"
  shows "safely (called_ok ev cx K) (execute_call_indirect_impl ev kind has_params results ty i table m)"
  unfolding execute_call_indirect_impl_def
proof (rule safely_free [OF safely_entity(3) [OF running_instance [OF assms(1)] assms(5)]],
    rule safely_free [OF safely_outcome], goal_cases)
  case (1 h tab)
  obtain t where t: "get_entity ie_func_types ty m = Done t" "ty_arity t = (np, nr)"
    using type_in_range [OF running_instance [OF assms(1)] assms(6)] assms(7) by auto
  have "safely (called_ok ev cx K) (ex_then (ex_of_outcome (resolve_func (m_store m) func)) (\<lambda>f.
      if func_entity_ty f \<noteq> t then Done (Inl (EK_TrapCode BadSignature), m)
      else execute_call_imported_impl ev kind has_params results func m))" for func
  proof (cases "resolve_func (m_store m) func")
    case (Ok e)
    have "safely (called_ok ev cx K) (execute_call_imported_impl ev kind has_params results func m)"
      if "func_entity_ty e = t"
      by (rule imported_call_safe [OF assms(1-4) _ assms(8)]) (use Ok t(2) that in simp)
    then show ?thesis using Ok by simp
  qed simp_all
  then show ?case by (simp add: t(1) split: option.split)
qed

lemma call_safe:
  assumes "running ev cx K cf sh k b 0 m" and "code_map_ok ev cx" and "host_ok ev cx"
    and "call_arity cx sh (cfn_instrs cf) (ip_at (m_ip m)) (regs_of cf) target = Some (p, np, nr)"
    and "call_params (cfn_instrs cf) p (regs_of cf) has_params np = Some q"
    and "case results of
        Some r \<Rightarrow> kind = Nested \<and> list_all (wr (regs_of cf)) (span_slots r nr) \<and> start (cfn_instrs cf) (q + 1)
      | None \<Rightarrow> kind = Tail \<and> nr = k"
  shows "safely (called_ok ev cx K) (execute_call ev kind results target has_params m)"
proof -
  have r1: "running ev cx K cf sh k b 0 (next_instr m)"
    using running_next [OF assms(1)] by (simp add: next_instr_def)
  note l1 = running_locals [OF r1]
  show ?thesis
  proof (cases target)
    case (Internal func)
    then have "p = ip_at (m_ip m)" "cx_arity cx func = (np, nr)" "cx_shape cx func = sh"
      using assms(4) by (simp_all add: call_arity_def split: if_splits)
    then show ?thesis using Internal internal_call_safe [OF assms(1,2) _ _ _ assms(6)] assms(5) by blast
  next
    case (Imported i)
    then have a: "p = ip_at (m_ip m)" "i < length (sh_funcs sh)" "sh_funcs sh ! i = (np, nr)"
      using assms(4) by (simp_all add: call_arity_def split: if_splits)
    obtain h where h: "get_entity ie_funcs i m = Done h"
        "\<And>e. resolve_func (m_store m) h = Ok e \<Longrightarrow> ty_arity (func_entity_ty e) = (np, nr)"
      using func_in_range [OF running_instance [OF assms(1)] a(2)] a(3) by auto
    show ?thesis using Imported imported_call_safe [OF assms(1-3) _ h(2) assms(6)] assms(5) a(1) h(1) by simp
  next
    case (Indirect ty)
    then obtain s t where w: "word_at (cfn_instrs cf) (ip_at (m_ip m) + 1) = Some (CallIndirectParams s t)"
        "rd (regs_of cf) s" "t < sh_tables sh" "ty < length (sh_types sh)" "sh_types sh ! ty = (np, nr)"
        "p = ip_at (m_ip m) + 1"
      using assms(4) by (auto simp: call_arity_def split: option.splits param_word.splits if_splits)
    have p: "param_at 0 (next_instr m) = Done (Some (CallIndirectParams s t))"
      by (rule param_at_Done [OF l1]) (simp add: w(1))
    obtain v where v: "get_stack_slot s (next_instr m) = Done v" using get_slot_Done [OF l1 w(2)] ..
    show ?thesis
      using Indirect p v indirect_call_safe [OF r1 assms(2,3) _ w(3,4,5) assms(6)] assms(5) w(6)
      by (simp add: pull_call_indirect_params_def Let_def)
  next
    case (IndirectImm16 ty)
    then obtain s t where w: "word_at (cfn_instrs cf) (ip_at (m_ip m) + 1) = Some (CallIndirectParamsImm16 s t)"
        "t < sh_tables sh" "ty < length (sh_types sh)" "sh_types sh ! ty = (np, nr)"
        "p = ip_at (m_ip m) + 1"
      using assms(4) by (auto simp: call_arity_def split: option.splits param_word.splits if_splits)
    have p: "param_at 0 (next_instr m) = Done (Some (CallIndirectParamsImm16 s t))"
      by (rule param_at_Done [OF l1]) (simp add: w(1))
    show ?thesis
      using IndirectImm16 p indirect_call_safe [OF r1 assms(2,3) _ w(2,3,4) assms(6)] assms(5) w(5)
      by (simp add: pull_call_indirect_params_imm16_def Let_def)
  qed
qed

section \<open>One step\<close>

fun step_ok :: "('h, 'l) engine_env \<Rightarrow> contract \<Rightarrow> root_frame \<Rightarrow> ('h, 'l) step_result \<Rightarrow> bool" where
  "step_ok ev cx K (Goes_On m) = machine_ok ev cx K m"
| "step_ok ev cx K (Finishes m) = finished cx K m"
| "step_ok ev cx K (Fails e m) = True"

lemma step_ok_control: "control_ok ev cx K (c, m) \<Longrightarrow> step_ok ev cx K (of_control c m)"
  by (cases c) (simp_all add: of_control_def)

lemma of_machine_safe: "safely (machine_ok ev cx K) r \<Longrightarrow> safely (step_ok ev cx K) (of_machine r)"
  by (cases r) (simp_all add: of_machine_def)

lemma of_handled_safe: "safely (handled_ok (machine_ok ev cx K)) r \<Longrightarrow> safely (step_ok ev cx K) (of_handled r)"
  by (cases r) (auto simp: of_handled_def handled_ok_def split: sum.splits)

lemma of_called_safe: "safely (called_ok ev cx K) r \<Longrightarrow> safely (step_ok ev cx K) (of_called r)"
  by (cases r) (auto simp: of_called_def called_ok_def step_ok_control split: sum.splits)

lemma consume_fuel_safe:
  assumes "running ev cx K cf sh k b 0 m" and "start (cfn_instrs cf) (ip_at (m_ip m) + 1)"
  shows "step_ok ev cx K (execute_consume_fuel block_fuel m)"
proof -
  have "machine_ok ev cx K (next_instr (m\<lparr>m_store := (m_store m)\<lparr>so_fuel := fu\<rparr>\<rparr>))" for fu
  proof (rule machine_ok_next1)
    let ?st = "(m_store m)\<lparr>so_fuel := fu\<rparr>"
    show "running ev cx K cf sh k b 0 (m\<lparr>m_store := ?st\<rparr>)"
      using running_store [OF assms(1)] store_same [of ?st "m_store m"] assms(1)
      by (simp add: running_def context_ok_def)
  qed (use assms(2) in simp)
  then show ?thesis by (simp add: execute_consume_fuel_def Let_def split: prod.split sum.split)
qed

lemma instr_safe:
  assumes "running ev cx K cf sh k b 0 m" and "code_map_ok ev cx" and "host_ok ev cx"
    and "instr_ok (context_of ev cx sh k cf) (ip_at (m_ip m)) i" and "\<forall>w. i \<noteq> IParam w"
  shows "safely (step_ok ev cx K) (execute_instr ev i m)"
proof -
  have c: "cc_contract (context_of ev cx sh k cf) = cx" "cc_shape (context_of ev cx sh k cf) = sh"
    "cc_code (context_of ev cx sh k cf) = cfn_instrs cf" "cc_regs (context_of ev cx sh k cf) = regs_of cf"
    "cc_consts (context_of ev cx sh k cf) = cfn_consts cf" "cc_results (context_of ev cx sh k cf) = k"
    "cc_comparator (context_of ev cx sh k cf) = ev_comparator ev"
    by (simp_all add: context_of_def regs_of_def)
  show ?thesis
  proof (cases i)
    case (IConsumeFuel n)
    then show ?thesis using consume_fuel_safe [OF assms(1)] assms(4) c by simp
  next
    case (IReturn r)
    have "safely (control_ok ev cx K) (execute_returns r m)"
      using returns_safe [OF assms(1)] assms(4) c IReturn by simp
    then show ?thesis using IReturn
      by (cases "execute_returns r m") (auto intro: step_ok_control)
  next
    case (ICall r target has_params)
    then obtain p np nr q where a:
        "call_arity cx sh (cfn_instrs cf) (ip_at (m_ip m)) (regs_of cf) target = Some (p, np, nr)"
        "list_all (wr (regs_of cf)) (span_slots r nr)"
        "call_params (cfn_instrs cf) p (regs_of cf) has_params np = Some q" "start (cfn_instrs cf) (q + 1)"
      using assms(4) c by (auto simp: call_ok_def split: option.splits)
    then show ?thesis
      using ICall call_safe [OF assms(1-3) a(1,3), where results = "Some r" and kind = Nested, simplified] a(2,4) by (simp add: of_called_safe)
  next
    case (IReturnCall target has_params)
    then obtain p np q where a:
        "call_arity cx sh (cfn_instrs cf) (ip_at (m_ip m)) (regs_of cf) target = Some (p, np, k)"
        "call_params (cfn_instrs cf) p (regs_of cf) has_params np = Some q"
      using assms(4) c by (auto simp: tail_call_ok_def split: option.splits)
    then show ?thesis
      using IReturnCall call_safe [OF assms(1-3) a(1,2), where results = None and kind = Tail, simplified] by (simp add: of_called_safe)
  qed (use assms(4,5) c in \<open>simp_all add: of_machine_safe of_handled_safe branches_safe [OF assms(1)]
      copies_safe [OF assms(1)] globals_safe [OF assms(1)] memory_safe [OF assms(1)] bulk_safe [OF assms(1)] compute_safe [OF assms(1)]\<close>)
qed

lemma step_safe:
  assumes "machine_ok ev cx K m" and "code_map_ok ev cx" and "host_ok ev cx"
  shows "safely (step_ok ev cx K) (step ev m)"
proof -
  obtain cf sh k b where r: "running ev cx K cf sh k b 0 m" and s: "start (cfn_instrs cf) (ip_at (m_ip m))"
    using assms(1) by (auto simp: machine_ok_def)
  let ?i = "cfn_instrs cf ! nat (ip_at (m_ip m))"
  have "ip_code (m_ip m) = cfn_instrs cf" using running_locals [OF r] by (simp add: locals_ok_def)
  then have "ip_get (m_ip m) = Done ?i" using s by (simp add: ip_get_def start_def)
  moreover have "safely (step_ok ev cx K) (execute_instr ev ?i m)"
  proof (rule instr_safe [OF r assms(2,3)])
    have "code_ok ev cx sh k cf" using r by (simp add: running_def context_ok_def)
    from code_ok_at [OF this s] show "instr_ok (context_of ev cx sh k cf) (ip_at (m_ip m)) ?i" .
    show "\<forall>w. ?i \<noteq> IParam w" using s by (simp add: start_def)
  qed
  ultimately show ?thesis by (simp add: step_def)
qed

end
