(* ===== verification/Root_Calls.thy ===== *)
theory Root_Calls
  imports Machine_Safety
begin

text \<open>
  Calls from outside (\<open>patches/wasmi/src/engine/executor/mod.rs\<close>, the dispatch loop of
  \<open>executor/instrs.rs\<close>): a stack is taken from those the engine keeps, the root frame is set up,
  the machine runs until the root returns, and the results are read from the bottom of the value stack.
  \<open>None\<close> is a run that does not end. No call hook is set, as the receiver sets none.
\<close>

section \<open>Runs\<close>

type_synonym 'a run = "'a exec option"

definition run_then :: "'a exec \<Rightarrow> ('a \<Rightarrow> 'b run) \<Rightarrow> 'b run" where
  "run_then r f = (case r of Done x \<Rightarrow> f x | Aborts \<Rightarrow> Some Aborts | Undefined \<Rightarrow> Some Undefined)"

lemma run_then_simps [simp]:
  "run_then (Done x) f = f x" "run_then Aborts f = Some Aborts" "run_then Undefined f = Some Undefined"
  by (simp_all add: run_then_def)

definition map_run :: "('a \<Rightarrow> 'b exec) \<Rightarrow> 'a run \<Rightarrow> 'b run" where
  "map_run f r = map_option (\<lambda>x. ex_then x f) r"

text \<open>\<open>Executor::execute\<close>: the dispatch loop.\<close>

partial_function (option) execute_loop ::
  "('h, 'l) engine_env \<Rightarrow> ('h, 'l) machine \<Rightarrow> ((error_kind \<times> ('h, 'l) machine + ('h, 'l) machine) exec) option" where
  "execute_loop ev m =
     (case step ev m of
        Aborts \<Rightarrow> Some Aborts
      | Undefined \<Rightarrow> Some Undefined
      | Done s \<Rightarrow> (case s of
          Goes_On m' \<Rightarrow> execute_loop ev m'
        | Finishes m' \<Rightarrow> Some (Done (Inr m'))
        | Fails e m' \<Rightarrow> Some (Done (Inl (e, m')))))"

definition executor_new :: "instr stack \<Rightarrow> ('h, 'l) store \<Rightarrow> ('h, 'l) machine exec" where
  "executor_new sk st =
     (case cs_instance (sk_calls sk) of None \<Rightarrow> Aborts | Some inst \<Rightarrow>
        ex_then (ex_of_outcome (resolve_instance st inst)) (\<lambda>_.
        case cs_peek (sk_calls sk) of None \<Rightarrow> Aborts | Some frame \<Rightarrow>
          Done \<lparr>m_sp = stack_ptr_at (sk_values sk) (cf_base frame), m_ip = cf_instr_ptr frame,
                m_instance = inst, m_stack = sk, m_store = st\<rparr>))"

text \<open>
  After the fuel has run out the frame on top remembers where, for a resumption.
\<close>

definition remember_ip :: "error_kind \<Rightarrow> ('h, 'l) machine \<Rightarrow> instr stack" where
  "remember_ip e m =
     (if is_out_of_fuel e
      then (m_stack m)\<lparr>sk_calls := cs_update_top (update_instr_ptr (m_ip m)) (m_calls m)\<rparr>
      else m_stack m)"

definition execute_instrs ::
  "('h, 'l) engine_env \<Rightarrow> instr stack \<Rightarrow> ('h, 'l) store \<Rightarrow>
   ((error_kind + unit) \<times> instr stack \<times> ('h, 'l) store) run" where
  "execute_instrs ev sk st =
     run_then (executor_new sk st) (\<lambda>m.
       map_run (\<lambda>r. Done (case r of
           Inl (e, m) \<Rightarrow> (Inl e, remember_ip e m, m_store m)
         | Inr m \<Rightarrow> (Inr (), m_stack m, m_store m))) (execute_loop ev m))"

section \<open>The root function\<close>

definition do_nothing :: "value_stack \<Rightarrow> unit \<Rightarrow> unit" where
  "do_nothing vs u = u"

fun init_params :: "untyped_val list \<Rightarrow> frame_params \<Rightarrow> value_stack \<Rightarrow> (frame_params \<times> value_stack) exec" where
  "init_params [] fr vs = Done (fr, vs)"
| "init_params (p # ps) fr vs = ex_then (init_next p fr vs) (\<lambda>(fr, vs). init_params ps fr vs)"

text \<open>The zip of the new cells with the parameters.\<close>

definition write_zip :: "nat \<Rightarrow> nat \<Rightarrow> untyped_val list \<Rightarrow> value_stack \<Rightarrow> value_stack" where
  "write_zip from n params vs =
     vs\<lparr>vs_values := take from (vs_values vs) @ map Some (take n params)
                     @ drop (from + length (take n params)) (vs_values vs)\<rparr>"

definition write_results_back :: "nat \<Rightarrow> value_stack \<Rightarrow> untyped_val list exec" where
  "write_results_back len_results vs =
     (if len_results \<le> vs_len vs then take_results len_results (vs_values vs) else Aborts)"

text \<open>The frame of the root, before it runs.\<close>

definition prepare_root ::
  "('h, 'l) engine_env \<Rightarrow> wasm_func_entity \<Rightarrow> untyped_val list \<Rightarrow> nat \<Rightarrow> instr stack \<Rightarrow> ('h, 'l) store \<Rightarrow>
   ((error_kind + unit) \<times> instr stack \<times> ('h, 'l) store) exec" where
  "prepare_root ev w params len_results sk st =
     ex_then (extend_by (ev_target ev) (ev_grow ev) len_results do_nothing (sk_values sk, ()))
       (\<lambda>(r, vs, _). let sk = sk\<lparr>sk_values := vs\<rparr> in case r of
         Inl e \<Rightarrow> Done (Inl (EK_TrapCode e), sk, st)
       | Inr _ \<Rightarrow> (case ev_code ev (wfe_body w) (so_fuel st) of
           (Inl e, fu) \<Rightarrow> Done (Inl e, sk, st\<lparr>so_fuel := fu\<rparr>)
         | (Inr code, fu) \<Rightarrow> (let st = st\<lparr>so_fuel := fu\<rparr> in
             ex_then (alloc_call_frame (ev_target ev) (ev_grow ev) code do_nothing (vs, ())) (\<lambda>(r, vs, _).
             let sk = sk\<lparr>sk_values := vs\<rparr> in case r of
               Inl e \<Rightarrow> Done (Inl (EK_TrapCode e), sk, st)
             | Inr (uninit_params, offsets) \<Rightarrow>
                 ex_then (init_params params uninit_params vs) (\<lambda>(uninit_params, vs).
                 ex_then (init_zeroes uninit_params vs) (\<lambda>vs.
                   let (r, cs) = cs_push (call_frame_new (ip_new (cfn_instrs code)) offsets 0)
                                   (Some (wfe_instance w)) (sk_calls sk);
                       sk = \<lparr>sk_calls = cs, sk_values = vs\<rparr>
                   in Done (case r of Inl e \<Rightarrow> Inl (EK_TrapCode e) | Inr _ \<Rightarrow> Inr (), sk, st)))))))"

definition call_host_root ::
  "('h, 'l) engine_env \<Rightarrow> host_func_entity \<Rightarrow> untyped_val list \<Rightarrow> instr stack \<Rightarrow> ('h, 'l) store \<Rightarrow>
   ((error_kind + unit) \<times> instr stack \<times> ('h, 'l) store) exec" where
  "call_host_root ev hf params sk st =
     (let max_inout = max (unat (hfe_len_params hf)) (unat (hfe_len_results hf));
          len = vs_len (sk_values sk)
      in ex_then (extend_by (ev_target ev) (ev_grow ev) max_inout do_nothing (sk_values sk, ()))
        (\<lambda>(r, vs, _). case r of
          Inl e \<Rightarrow> Done (Inl (EK_TrapCode e), sk\<lparr>sk_values := vs\<rparr>, st)
        | Inr _ \<Rightarrow> ex_then (dispatch_host_func ev hf None (write_zip len max_inout params vs) st)
            (\<lambda>(r, vs, st). Done (r, sk\<lparr>sk_values := vs\<rparr>, st))))"

text \<open>\<open>execute_root_func\<close>.\<close>

definition execute_root_func ::
  "('h, 'l) engine_env \<Rightarrow> handle \<Rightarrow> untyped_val list \<Rightarrow> nat \<Rightarrow> instr stack \<Rightarrow> ('h, 'l) store \<Rightarrow>
   ((error_kind + untyped_val list) \<times> instr stack \<times> ('h, 'l) store) run" where
  "execute_root_func ev func params len_results sk st =
     (let sk = stack_reset sk;
          write_back = (\<lambda>(r, sk, st). case r of
            Inl e \<Rightarrow> Done (Inl e, sk, st)
          | Inr _ \<Rightarrow> ex_then (write_results_back len_results (sk_values sk)) (\<lambda>vals. Done (Inr vals, sk, st)))
      in run_then (ex_of_outcome (resolve_func st func)) (\<lambda>f. case f of
           WasmFunc w \<Rightarrow>
             run_then (prepare_root ev w params len_results sk st) (\<lambda>(r, sk, st). case r of
               Inl e \<Rightarrow> Some (Done (Inl e, sk, st))
             | Inr _ \<Rightarrow> map_run write_back (execute_instrs ev sk st))
         | HostFunc h \<Rightarrow> Some (ex_then (call_host_root ev h params sk st) write_back)))"

text \<open>\<open>EngineInner::execute_func\<close>: with a stack of the engine, which is kept again in any case.\<close>

definition execute_func ::
  "('h, 'l) engine_env \<Rightarrow> handle \<Rightarrow> untyped_val list \<Rightarrow> nat \<Rightarrow> ('h, 'l) store \<Rightarrow> instr engine_stacks \<Rightarrow>
   ((error_kind + untyped_val list) \<times> ('h, 'l) store \<times> instr engine_stacks) run" where
  "execute_func ev func params len_results st es =
     run_then (reuse_or_new es) (\<lambda>(sk, es).
       map_run (\<lambda>(r, sk, st). Done (map_sum call_error id r, st, recycle sk es))
         (execute_root_func ev func params len_results sk st))"

section \<open>Runs are safe\<close>

definition run_safely :: "('a \<Rightarrow> bool) \<Rightarrow> 'a run \<Rightarrow> bool" where
  "run_safely P r = (case r of None \<Rightarrow> True | Some x \<Rightarrow> safely P x)"

lemma run_safely_then: "safely Q r \<Longrightarrow> (\<And>x. Q x \<Longrightarrow> run_safely P (f x)) \<Longrightarrow> run_safely P (run_then r f)"
  by (cases r) (simp_all add: run_safely_def)

lemma run_safely_map: "run_safely Q r \<Longrightarrow> (\<And>x. Q x \<Longrightarrow> safely P (f x)) \<Longrightarrow> run_safely P (map_run f r)"
  by (cases r) (auto simp: run_safely_def map_run_def intro: safely_bind)

definition loop_ok ::
  "contract \<Rightarrow> root_frame \<Rightarrow> (error_kind \<times> ('h, 'l) machine + ('h, 'l) machine) \<Rightarrow> bool" where
  "loop_ok cx K r = (case r of Inl _ \<Rightarrow> True | Inr m \<Rightarrow> finished cx K m)"

lemma loop_safe_aux:
  assumes "execute_loop ev m = Some r"
  shows "machine_ok ev cx K m \<Longrightarrow> code_map_ok ev cx \<Longrightarrow> host_ok ev cx \<Longrightarrow> safely (loop_ok cx K) r"
proof (rule execute_loop.raw_induct [where P = "\<lambda>ev m r. machine_ok ev cx K m \<longrightarrow> code_map_ok ev cx \<longrightarrow>
      host_ok ev cx \<longrightarrow> safely (loop_ok cx K) r", OF _ assms, rule_format], goal_cases)
  case (1 loop ev m r)
  note s = step_safe [OF 1(6-8)]
  show ?case
  proof (cases "step ev m")
    case (Done x)
    then show ?thesis using 1(4,5,7,8) s by (cases x) (auto simp: loop_ok_def)
  next
    case Aborts
    then show ?thesis using 1(5) by auto
  next
    case Undefined
    then show ?thesis using s by simp
  qed
qed

lemma loop_safe:
  "machine_ok ev cx K m \<Longrightarrow> code_map_ok ev cx \<Longrightarrow> host_ok ev cx \<Longrightarrow> run_safely (loop_ok cx K) (execute_loop ev m)"
  by (auto simp: run_safely_def intro: loop_safe_aux split: option.split)

section \<open>The root frame\<close>

lemma safely_extend_root:
  assumes "vs_len vs \<le> vs_max_len vs" and "\<And>e. safely P (F (Inl e, vs, u))"
    and "\<And>vs'. vs_values vs' = vs_values vs @ replicate n None \<Longrightarrow> vs_max_len vs' = vs_max_len vs \<Longrightarrow>
           vs_len vs' \<le> vs_max_len vs' \<Longrightarrow>
           safely P (F (Inr \<lparr>fr_buffer = vs_buffer vs', fr_start = vs_len vs, fr_end = vs_len vs + n\<rparr>, vs', u))"
  shows "safely P (ex_then (extend_by t grow n do_nothing (vs, u)) F)"
proof (cases "n \<ge> vs_max_len vs - vs_len vs")
  case True
  then show ?thesis using assms(2) by (simp add: extend_by_def)
next
  case room: False
  show ?thesis
  proof (cases "vs_reserve t grow n vs")
    case (Done vs')
    then have v: "vs_values vs' = vs_values vs" "vs_max_len vs' = vs_max_len vs"
      by (auto simp: vs_reserve_def Let_def split: if_splits)
    let ?vs = "vs'\<lparr>vs_values := vs_values vs' @ replicate n None\<rparr>"
    have "vs_len ?vs \<le> vs_max_len ?vs" using room v by (simp add: vs_len_def)
    then have "safely P (F (Inr \<lparr>fr_buffer = vs_buffer vs', fr_start = vs_len vs, fr_end = vs_len vs + n\<rparr>, ?vs, u))"
      using assms(3) [of ?vs] v by simp
    then show ?thesis using room Done by (simp add: extend_by_def do_nothing_def)
  next
    case Undefined
    then show ?thesis by (simp add: vs_reserve_def Let_def split: if_splits)
  qed (use room in \<open>simp add: extend_by_def\<close>)
qed

lemma safely_alloc_root:
  assumes "length (cfn_consts func) \<le> cfn_len_stack_slots func"
    and "vs_len vs \<le> vs_max_len vs" and "\<And>e. safely P (F (Inl e, vs, u))"
    and "\<And>vs'. vs_values vs' = vs_values vs @ map Some (cfn_consts func)
             @ replicate (cfn_len_stack_slots func - length (cfn_consts func)) None \<Longrightarrow>
           vs_max_len vs' = vs_max_len vs \<Longrightarrow> vs_len vs' \<le> vs_max_len vs' \<Longrightarrow>
           safely P (F (Inr (\<lparr>fr_buffer = vs_buffer vs', fr_start = vs_len vs + length (cfn_consts func),
                              fr_end = vs_len vs + cfn_len_stack_slots func\<rparr>,
                             \<lparr>off_base = vs_len vs + length (cfn_consts func), off_frame = vs_len vs\<rparr>), vs', u))"
  shows "safely P (ex_then (alloc_call_frame t grow func do_nothing (vs, u)) F)"
  unfolding alloc_call_frame_def Let_def ex_then_assoc
proof (rule safely_extend_root [OF assms(2)], goal_cases)
  case (1 e)
  then show ?case using assms(3) by simp
next
  case (2 vs')
  let ?vs = "write_consts (vs_len vs) (cfn_len_stack_slots func) (cfn_consts func) vs'"
  have v: "vs_values ?vs = vs_values vs @ map Some (cfn_consts func)
             @ replicate (cfn_len_stack_slots func - length (cfn_consts func)) None"
    using 2(1) assms(1) by (simp add: write_consts_def vs_len_def)
  moreover have "vs_len ?vs \<le> vs_max_len ?vs"
    using 2 v assms(1) by (simp add: vs_len_def write_consts_def)
  moreover have "vs_buffer ?vs = vs_buffer vs'" by (simp add: write_consts_def)
  ultimately show ?case using assms(4) [of ?vs] 2(2) assms(1) by (simp add: write_consts_def)
qed

lemma init_params_filled:
  assumes "fr_buffer fr = vs_buffer vs" and "fr_start fr + length ps \<le> fr_end fr" and "fr_end fr \<le> vs_len vs"
  shows "\<exists>vals. init_params ps fr vs = Done (fr\<lparr>fr_start := fr_start fr + length ps\<rparr>, vs\<lparr>vs_values := vals\<rparr>)
    \<and> filled (fr_start fr) (fr_start fr + length ps) (vs_values vs) vals"
  using assms
proof (induction ps arbitrary: fr vs)
  case Nil
  then show ?case using filled_refl by (intro exI [of _ "vs_values vs"]) simp
next
  case (Cons p ps)
  let ?vals = "(vs_values vs)[fr_start fr := Some p]"
  let ?fr = "fr\<lparr>fr_start := fr_start fr + 1\<rparr>"
  have i: "init_next p fr vs = Done (?fr, vs\<lparr>vs_values := ?vals\<rparr>)"
    by (rule init_next_filled) (use Cons.prems in simp_all)
  obtain vals where vals: "init_params ps ?fr (vs\<lparr>vs_values := ?vals\<rparr>) =
      Done (?fr\<lparr>fr_start := fr_start ?fr + length ps\<rparr>, vs\<lparr>vs_values := vals\<rparr>)"
      "filled (Suc (fr_start fr)) (Suc (fr_start fr) + length ps) ?vals vals"
    using Cons.IH [of ?fr "vs\<lparr>vs_values := ?vals\<rparr>"] Cons.prems by (auto simp: vs_len_def)
  have "filled (fr_start fr) (fr_start fr + length (p # ps)) (vs_values vs) vals"
    by (rule filled_trans [OF filled_one]) (use vals(2) Cons.prems in \<open>simp_all add: vs_len_def\<close>)
  then show ?case using i vals(1) by (intro exI [of _ vals]) simp
qed

definition fresh :: "instr stack \<Rightarrow> bool" where
  "fresh sk \<longleftrightarrow> cs_frames (sk_calls sk) = [] \<and> cs_instances (sk_calls sk) = hv_default
     \<and> vs_values (sk_values sk) = []"

definition root_of :: "nat \<Rightarrow> instr stack \<Rightarrow> root_frame" where
  "root_of len_results sk =
     \<lparr>rt_results = len_results, rt_height = vs_max_len (sk_values sk),
      rt_depth = cs_recursion_limit (sk_calls sk)\<rparr>"

lemma fresh_reset: "fresh (stack_reset sk)"
  by (simp add: fresh_def stack_reset_def call_stack_reset_def value_stack_reset_def)

lemma prepare_root_safe:
  assumes "code_map_ok ev cx" and "store_ok cx st" and "entity_fits cx st (WasmFunc w)"
    and "ty_arity (wfe_ty w) = (length params, len_results)" and "fresh sk"
  shows "safely (\<lambda>(r, sk', st). case r of Inl _ \<Rightarrow> True
      | Inr _ \<Rightarrow> \<exists>m. executor_new sk' st = Done m \<and> machine_ok ev cx (root_of len_results sk) m)
    (prepare_root ev w params len_results sk st)"
  unfolding prepare_root_def
proof (rule safely_extend_root, goal_cases)
  case 1
  then show ?case using assms(5) by (simp add: fresh_def vs_len_def)
next
  case (2 e)
  then show ?case by (simp add: Let_def)
next
  case (3 vs)
  note ext = 3(2,3)
  have vs: "vs_values vs = replicate len_results None" "vs_len vs = len_results"
    using 3(1) assms(5) by (simp_all add: fresh_def vs_len_def)
  show ?case
  proof (cases "ev_code ev (wfe_body w) (so_fuel st)")
    case (Pair res fu)
    let ?st = "st\<lparr>so_fuel := fu\<rparr>"
    have st: "grows st ?st" "store_ok cx ?st" using store_same [of ?st st] assms(2) by simp_all
    show ?thesis
    proof (cases res)
      case (Inl e)
      then show ?thesis using Pair by (simp add: Let_def)
    next
      case (Inr code)
      have code: "code_ok ev cx (cx_shape cx (wfe_body w)) len_results code"
          "length params + length (cfn_consts code) \<le> cfn_len_stack_slots code"
        using code_map_okD [OF assms(1) Pair [unfolded Inr]] assms(3,4) by simp_all
      have h: "inst_fits ?st (wfe_instance w) (cx_shape cx (wfe_body w))"
        using assms(3) inst_fits_grows [OF _ st(1)] by simp
      show ?thesis
        unfolding prod.case Let_def sum.case Pair Inr
      proof (rule safely_alloc_root, goal_cases)
        case 1
        then show ?case using code(2) by simp
      next
        case 2
        then show ?case using ext by simp
      next
        case (3 e)
        then show ?case by simp
      next
        case (4 vs')
        let ?c = "length (cfn_consts code)" and ?d = "cfn_len_stack_slots code - length (cfn_consts code)"
        let ?fr = "\<lparr>fr_buffer = vs_buffer vs', fr_start = len_results + ?c, fr_end = len_results + cfn_len_stack_slots code\<rparr>"
        have l: "vs_len vs' = len_results + cfn_len_stack_slots code"
          using 4(1) vs code(2) by (simp add: vs_len_def)
        obtain vals where v: "init_params params ?fr vs' =
            Done (?fr\<lparr>fr_start := len_results + ?c + length params\<rparr>, vs'\<lparr>vs_values := vals\<rparr>)"
            "filled (len_results + ?c) (len_results + ?c + length params) (vs_values vs') vals"
          using init_params_filled [of ?fr vs' params] l code(2) by auto
        have lv: "length vals = len_results + cfn_len_stack_slots code"
          using v(2) l by (simp add: filled_def vs_len_def)
        obtain vals2 where v2: "init_zeroes (?fr\<lparr>fr_start := len_results + ?c + length params\<rparr>) (vs'\<lparr>vs_values := vals\<rparr>) =
            Done (vs'\<lparr>vs_values := vals2\<rparr>)"
            "filled (len_results + ?c + length params) (len_results + cfn_len_stack_slots code) vals vals2"
          using init_zeroes_filled [of "?fr\<lparr>fr_start := len_results + ?c + length params\<rparr>" "vs'\<lparr>vs_values := vals\<rparr>"]
            code(2) lv by (auto simp: vs_len_def)
        have fl: "filled (len_results + ?c) (len_results + cfn_len_stack_slots code)
            (replicate len_results None @ map Some (cfn_consts code) @ replicate ?d None) vals2"
          using filled_trans [OF v(2) v2(2)] code(2) 4(1) vs(1) by simp
        have cells: "cells_ok code len_results vals2"
          using new_frame_cells(1) [OF fl] code(2) by simp
        have lv2: "length vals2 = len_results + cfn_len_stack_slots code" using v2(2) lv by (simp add: filled_def)
        let ?vs2 = "vs'\<lparr>vs_values := vals2\<rparr>"
        let ?m = "\<lparr>m_sp = stack_ptr_at ?vs2 0, m_ip = ip_new (cfn_instrs code), m_instance = wfe_instance w,
                   m_stack = \<lparr>sk_calls = sk_calls sk, sk_values = ?vs2\<rparr>, m_store = ?st\<rparr>"
        have items: "hv_ok (cs_instances (sk_calls sk))" "hv_items (cs_instances (sk_calls sk)) = []"
          using assms(5) by (simp_all add: fresh_def hv_default_def hv_ok_def hv_items_def)
        have pushed: "case cs_push (called_frame code len_results 0) (Some (wfe_instance w)) (m_calls ?m) of
            (Inl e, cs) \<Rightarrow> True
          | (Inr _, cs) \<Rightarrow> machine_ok ev cx (root_of len_results sk)
              ((with_calls cs (init_call_frame (called_frame code len_results 0) ?m))\<lparr>m_instance := wfe_instance w\<rparr>)"
        proof (rule enter_safe [where fs = "[]" and insts = "[]" and k = len_results])
          show "inst_fits (m_store ?m) (wfe_instance w) (cx_shape cx (wfe_body w))" using h by simp
        qed (use assms(5) items cells lv2 l 4(2,3) ext code(1) st(2) in \<open>simp_all add: fresh_def vs_len_def height_ok_def depth_ok_def root_of_def\<close>)
        obtain r cs where push: "cs_push (called_frame code len_results 0) (Some (wfe_instance w)) (sk_calls sk) = (r, cs)"
          by (cases "cs_push (called_frame code len_results 0) (Some (wfe_instance w)) (sk_calls sk)")
        have run: "\<exists>m. executor_new \<lparr>sk_calls = cs, sk_values = ?vs2\<rparr> ?st = Done m \<and> machine_ok ev cx (root_of len_results sk) m"
          if "r = Inr u" for u
        proof -
          have f: "cs_frames (sk_calls sk) = []" "cs_instances (sk_calls sk) = hv_default"
            using assms(5) by (simp_all add: fresh_def)
          have cs: "cs_instance cs = Some (wfe_instance w)"
              "cs_peek cs = Some ((called_frame code len_results 0)\<lparr>cf_changed_instance := True\<rparr>)"
            using push f that by (auto simp: cs_push_def push_instance_def hv_default_def hv_push_def
                cs_instance_def cs_peek_def Let_def split: if_splits)
          obtain ie where ie: "resolve_instance ?st (wfe_instance w) = Ok ie"
            using h unfolding inst_fits_def by blast
          let ?m' = "(with_calls cs (init_call_frame (called_frame code len_results 0) ?m))\<lparr>m_instance := wfe_instance w\<rparr>"
          have "executor_new \<lparr>sk_calls = cs, sk_values = ?vs2\<rparr> ?st = Done ?m'"
            using cs ie by (simp add: executor_new_def init_call_frame_def with_calls_def)
          moreover have "machine_ok ev cx (root_of len_results sk) ?m'" using pushed push that by simp
          ultimately show ?thesis by blast
        qed
        have cf: "call_frame_new (ip_new (cfn_instrs code)) \<lparr>off_base = len_results + ?c, off_frame = len_results\<rparr> 0
            = called_frame code len_results 0" by (simp add: called_frame_def)
        show ?case
          using v(1) v2(1) run vs(2) by (simp add: cf push split: sum.split)
      qed
    qed
  qed
qed

section \<open>The host as the root\<close>

lemma call_host_root_safe:
  assumes "host_ok ev cx" and "store_ok cx st" and "entity_fits cx st (HostFunc hf)"
    and "ty_arity (hfe_ty hf) = (length params, len_results)" and "fresh sk"
  shows "safely (\<lambda>(r, sk, st). case r of Inl _ \<Rightarrow> True
      | Inr _ \<Rightarrow> store_ok cx st \<and> len_results \<le> vs_len (sk_values sk)
          \<and> (\<forall>i < len_results. vs_values (sk_values sk) ! i \<noteq> None))
    (call_host_root ev hf params sk st)"
  unfolding call_host_root_def Let_def
proof (rule safely_extend_root, goal_cases)
  case 1
  then show ?case using assms(5) by (simp add: fresh_def vs_len_def)
next
  case (2 e)
  then show ?case by simp
next
  case (3 vs)
  let ?n = "max (unat (hfe_len_params hf)) (unat (hfe_len_results hf))"
  have ar: "unat (hfe_len_params hf) = length params" "unat (hfe_len_results hf) = len_results"
    using assms(3,4) by simp_all
  have len: "vs_len (sk_values sk) = 0" using assms(5) by (simp add: fresh_def vs_len_def)
  let ?vs = "write_zip 0 ?n params vs"
  have vs: "vs_values vs = replicate ?n None" using 3(1) assms(5) by (simp add: fresh_def)
  have v: "vs_values ?vs = map Some params @ replicate (?n - length params) None"
    using vs ar(1) by (simp add: write_zip_def)
  show ?case unfolding prod.case sum.case len
  proof (rule safely_dispatch [OF assms(1,2), where len = 0], goal_cases)
    case 1
    then show ?case using v ar by (simp add: vs_len_def)
  next
    case 2
    then show ?case using v ar by (simp add: nth_append)
  next
    case (3 e vs st)
    then show ?case by simp
  next
    case (4 vals st')
    then show ?case using v ar by (simp add: vs_len_def)
  qed
qed

lemma write_results_back_Done:
  assumes "len_results \<le> vs_len vs" and "\<forall>i < len_results. vs_values vs ! i \<noteq> None"
  shows "\<exists>vals. write_results_back len_results vs = Done vals \<and> length vals = len_results"
  using take_results_Done [of len_results "vs_values vs"] assms
  by (simp add: write_results_back_def vs_len_def)

section \<open>Calls are safe\<close>

lemma execute_root_func_safe:
  assumes "code_map_ok ev cx" and "host_ok ev cx" and "store_ok cx st"
    and "\<And>e. resolve_func st func = Ok e \<Longrightarrow> ty_arity (func_entity_ty e) = (length params, len_results)"
  shows "run_safely (\<lambda>(r, sk, st). case r of Inl _ \<Rightarrow> True
      | Inr vals \<Rightarrow> length vals = len_results \<and> store_ok cx st)
    (execute_root_func ev func params len_results sk st)"
proof (cases "resolve_func st func")
  case (Ok e)
  let ?sk = "stack_reset sk"
  let ?wb = "\<lambda>(r, sk, st). case r of
            Inl e \<Rightarrow> Done (Inl e, sk, st)
          | Inr _ \<Rightarrow> ex_then (write_results_back len_results (sk_values sk)) (\<lambda>vals. Done (Inr vals, sk, st))"
  have fits: "entity_fits cx st e" using assms(3) Ok unfolding store_ok_def by blast
  show ?thesis
  proof (cases e)
    case (WasmFunc w)
    have ar: "ty_arity (wfe_ty w) = (length params, len_results)" using assms(4) [OF Ok] WasmFunc by simp
    have "run_safely (\<lambda>(r, sk, st). case r of Inl _ \<Rightarrow> True
          | Inr vals \<Rightarrow> length vals = len_results \<and> store_ok cx st)
        (run_then (prepare_root ev w params len_results ?sk st) (\<lambda>(r, sk, st). case r of
               Inl e \<Rightarrow> Some (Done (Inl e, sk, st))
             | Inr _ \<Rightarrow> map_run ?wb (execute_instrs ev sk st)))"
    proof (rule run_safely_then [OF prepare_root_safe [OF assms(1,3) fits [unfolded WasmFunc] ar fresh_reset]], clarify)
      fix r :: "error_kind + unit" and sk' and st' :: "('a, 'b) store"
      assume r: "case r of Inl _ \<Rightarrow> True
        | Inr _ \<Rightarrow> \<exists>m. executor_new sk' st' = Done m \<and> machine_ok ev cx (root_of len_results ?sk) m"
      show "run_safely (\<lambda>(r, sk, st). case r of Inl _ \<Rightarrow> True
          | Inr vals \<Rightarrow> length vals = len_results \<and> store_ok cx st)
        (case r of Inl e \<Rightarrow> Some (Done (Inl e, sk', st')) | Inr _ \<Rightarrow> map_run ?wb (execute_instrs ev sk' st'))"
      proof (cases r)
        case (Inl e)
        then show ?thesis by (simp add: run_safely_def)
      next
        case (Inr u)
        then obtain m where m: "executor_new sk' st' = Done m" "machine_ok ev cx (root_of len_results ?sk) m" using r by auto
        have "run_safely (\<lambda>(r, sk, st). case r of Inl _ \<Rightarrow> True
            | Inr _ \<Rightarrow> store_ok cx st \<and> len_results \<le> vs_len (sk_values sk)
                \<and> (\<forall>i < len_results. vs_values (sk_values sk) ! i \<noteq> None)) (execute_instrs ev sk' st')"
          unfolding execute_instrs_def m(1) run_then_simps
          by (rule run_safely_map [OF loop_safe [OF m(2) assms(1,2)]])
            (auto simp: loop_ok_def finished_def vs_len_def in_set_conv_nth root_of_def split: sum.splits)
        then show ?thesis unfolding Inr sum.case
          by (rule run_safely_map)
            (auto split: sum.splits dest!: write_results_back_Done)
      qed
    qed
    then show ?thesis using Ok WasmFunc by (simp add: execute_root_func_def Let_def)
  next
    case (HostFunc h)
    have ar: "ty_arity (hfe_ty h) = (length params, len_results)" using assms(4) [OF Ok] HostFunc by simp
    have "safely (\<lambda>(r, sk, st). case r of Inl _ \<Rightarrow> True
          | Inr vals \<Rightarrow> length vals = len_results \<and> store_ok cx st)
        (ex_then (call_host_root ev h params ?sk st) ?wb)"
      by (rule safely_bind [OF call_host_root_safe [OF assms(2,3) fits [unfolded HostFunc] ar fresh_reset]])
        (auto split: sum.splits dest!: write_results_back_Done)
    then show ?thesis using Ok HostFunc by (simp add: execute_root_func_def Let_def run_safely_def)
  qed
qed (simp_all add: execute_root_func_def run_safely_def)

end
