(* ===== verification/Metered_Code.thy ===== *)
theory Metered_Code
  imports Root_Calls
begin

text \<open>
  Metered code: the translator puts a charge of fuel, an \<open>IConsumeFuel\<close>, at the entry of every
  function and at every target of a backward branch. The measure by which such code ends, and the
  handlers that stay in their frame and move on: computations, copies, globals, loads and stores.
\<close>

section \<open>Metered code\<close>

definition charge_at :: "instr list \<Rightarrow> int \<Rightarrow> bool" where
  "charge_at c q \<longleftrightarrow> 0 \<le> q \<and> q < int (length c)
     \<and> (case c ! nat q of IConsumeFuel n \<Rightarrow> True | _ \<Rightarrow> False)"

definition jump_metered :: "instr list \<Rightarrow> int \<Rightarrow> int \<Rightarrow> bool" where
  "jump_metered c p off \<longleftrightarrow> 0 < off \<or> charge_at c (p + off)"

fun word_metered ::
  "(u64 \<Rightarrow> (comparator \<times> int) option) \<Rightarrow> instr compiled_func \<Rightarrow> int \<Rightarrow> instr \<Rightarrow> bool" where
  "word_metered cmp_of f p (IConsumeFuel n) = (n \<noteq> 0)"
| "word_metered cmp_of f p (IBranch (Branch off)) = jump_metered (cfn_instrs f) p off"
| "word_metered cmp_of f p (IBranch (BranchCmp _ _ _ off)) = jump_metered (cfn_instrs f) p off"
| "word_metered cmp_of f p (IBranch (BranchCmpImmRhs _ _ _ off)) = jump_metered (cfn_instrs f) p off"
| "word_metered cmp_of f p (IBranch (BranchCmpImmLhs _ _ _ off)) = jump_metered (cfn_instrs f) p off"
| "word_metered cmp_of f p (IBranch (BranchCmpFallback _ _ ps)) =
     (case cmp_of (cfn_consts f ! nat (int (length (cfn_consts f)) + ps)) of
        Some (_, off) \<Rightarrow> jump_metered (cfn_instrs f) p off | None \<Rightarrow> True)"
| "word_metered cmp_of f p (IParam (BranchTableTarget _ off)) = jump_metered (cfn_instrs f) p off"
| "word_metered cmp_of f p _ = True"

definition metered :: "('h, 'l) engine_env \<Rightarrow> instr compiled_func \<Rightarrow> bool" where
  "metered ev f \<longleftrightarrow> charge_at (cfn_instrs f) 0
     \<and> list_all (\<lambda>p. word_metered (ev_comparator ev) f (int p) (cfn_instrs f ! p)) [0..<length (cfn_instrs f)]"

text \<open>Neither the compilation of a function nor the host puts fuel back.\<close>

definition fuel_left :: "('h, 'l) store \<Rightarrow> nat" where
  "fuel_left st = unat (remaining (so_fuel st))"

definition fuel_monotone :: "('h, 'l) engine_env \<Rightarrow> bool" where
  "fuel_monotone ev \<longleftrightarrow>
     (\<forall>body fu code fu'. ev_code ev body fu = (Inr code, fu') \<longrightarrow> remaining fu' \<le> remaining fu)
     \<and> (\<forall>hf inst vals st r st'. ev_host ev hf inst vals st = (r, st') \<longrightarrow> fuel_left st' \<le> fuel_left st)"

lemma fuel_monotoneD:
  "fuel_monotone ev \<Longrightarrow> ev_code ev body fu = (Inr code, fu') \<Longrightarrow> unat (remaining fu') \<le> unat (remaining fu)"
  "fuel_monotone ev \<Longrightarrow> ev_host ev hf inst vals st = (r, st') \<Longrightarrow> fuel_left st' \<le> fuel_left st"
  unfolding fuel_monotone_def word_le_nat_alt by blast+

lemma metered_word:
  assumes "metered ev f" and "0 \<le> p" and "p < int (length (cfn_instrs f))"
  shows "word_metered (ev_comparator ev) f p (cfn_instrs f ! nat p)"
proof -
  have "nat p \<in> set [0..<length (cfn_instrs f)]" using assms(2,3) by auto
  then have "word_metered (ev_comparator ev) f (int (nat p)) (cfn_instrs f ! nat p)"
    using assms(1) unfolding metered_def list_all_iff by blast
  then show ?thesis using assms(2) by simp
qed

section \<open>What decreases\<close>

definition words_ahead :: "instr instr_ptr \<Rightarrow> nat" where
  "words_ahead ip = nat (int (length (ip_code ip)) - ip_at ip)"

definition ahead :: "('h, 'l) machine \<Rightarrow> nat" where
  "ahead m = words_ahead (m_ip m) + sum_list (map (\<lambda>f. words_ahead (cf_instr_ptr f)) (tl (cs_frames (m_calls m))))"

definition charge_next :: "('h, 'l) machine \<Rightarrow> bool" where
  "charge_next m \<longleftrightarrow> charge_at (ip_code (m_ip m)) (ip_at (m_ip m))"

definition left_and_ahead :: "('h, 'l) machine \<Rightarrow> nat \<times> nat" where
  "left_and_ahead m = (2 * fuel_left (m_store m) + (if charge_next m then 0 else 1), ahead m)"

text \<open>What an instruction other than a charge does.\<close>

definition goes_well :: "('h, 'l) machine \<Rightarrow> ('h, 'l) machine \<Rightarrow> bool" where
  "goes_well m m' \<longleftrightarrow> fuel_left (m_store m') \<le> fuel_left (m_store m) \<and> (ahead m' < ahead m \<or> charge_next m')"

definition stays :: "('h, 'l) machine \<Rightarrow> ('h, 'l) machine \<Rightarrow> bool" where
  "stays m m' \<longleftrightarrow> m_calls m' = m_calls m \<and> so_fuel (m_store m') = so_fuel (m_store m)
     \<and> ip_code (m_ip m') = ip_code (m_ip m)"

definition advances :: "('h, 'l) machine \<Rightarrow> ('h, 'l) machine \<Rightarrow> bool" where
  "advances m m' \<longleftrightarrow> stays m m' \<and> ip_at (m_ip m) < ip_at (m_ip m')"

definition on_word :: "('h, 'l) machine \<Rightarrow> bool" where
  "on_word m \<longleftrightarrow> 0 \<le> ip_at (m_ip m) \<and> ip_at (m_ip m) < int (length (ip_code (m_ip m)))"

lemma advances_well: "advances m m' \<Longrightarrow> on_word m \<Longrightarrow> goes_well m m'"
  by (auto simp: advances_def stays_def on_word_def goes_well_def ahead_def words_ahead_def fuel_left_def)

lemma jumps_well:
  assumes "stays m m'" and "on_word m" and "ip_at (m_ip m) < ip_at (m_ip m') \<or> charge_at (ip_code (m_ip m)) (ip_at (m_ip m'))"
  shows "goes_well m m'"
  using assms advances_well [of m m']
  by (auto simp: advances_def stays_def goes_well_def charge_next_def fuel_left_def)

section \<open>Handlers that stay in their frame\<close>

definition yields :: "('a \<Rightarrow> bool) \<Rightarrow> 'a exec \<Rightarrow> bool" where
  "yields P r \<longleftrightarrow> (\<forall>x. r = Done x \<longrightarrow> P x)"

lemma yields_simps [simp]:
  "yields P (Done x) = P x" "yields P Aborts" "yields P Undefined"
  by (simp_all add: yields_def)

lemma yields_bind: "yields Q r \<Longrightarrow> (\<And>x. Q x \<Longrightarrow> yields P (f x)) \<Longrightarrow> yields P (ex_then r f)"
  by (cases r) simp_all

lemma yields_free: "(\<And>x. yields P (f x)) \<Longrightarrow> yields P (ex_then r f)"
  by (cases r) simp_all

lemma yields_mono: "yields Q r \<Longrightarrow> (\<And>x. Q x \<Longrightarrow> P x) \<Longrightarrow> yields P r"
  by (cases r) simp_all

text \<open>Writing a register changes values only.\<close>

definition revalues :: "('h, 'l) machine \<Rightarrow> ('h, 'l) machine \<Rightarrow> bool" where
  "revalues m m' \<longleftrightarrow> (\<exists>vs. m' = with_values vs m)"

lemma revalues_refl: "revalues m m"
  unfolding revalues_def by (intro exI [of _ "m_values m"]) (simp add: with_values_def)

lemma revalues_trans: "revalues m m' \<Longrightarrow> revalues m' m'' \<Longrightarrow> revalues m m''"
  by (auto simp: revalues_def)

lemma set_revalues: "yields (revalues m) (set_stack_slot s v m)"
  unfolding set_stack_slot_def by (rule yields_free) (auto simp: revalues_def)

lemma revalues_stays: "revalues m m' \<Longrightarrow> stays m m' \<and> ip_at (m_ip m') = ip_at (m_ip m)"
  by (auto simp: revalues_def stays_def)

lemma next_advances: "revalues m m' \<Longrightarrow> 0 < d \<Longrightarrow> advances m (next_instr_at d m')"
  by (auto simp: revalues_def advances_def stays_def next_instr_at_def ip_offset_def)

lemma set_next_yields: "0 < d \<Longrightarrow> yields (advances m) (ex_then (set_stack_slot s v m) (\<lambda>m. Done (next_instr_at d m)))"
  by (rule yields_bind [OF set_revalues]) (simp add: next_advances)

definition handled_yields :: "(('h, 'l) machine \<Rightarrow> bool) \<Rightarrow> ('h, 'l) handled \<Rightarrow> bool" where
  "handled_yields P r \<longleftrightarrow> yields (\<lambda>x. case x of Inl _ \<Rightarrow> True | Inr m \<Rightarrow> P m) r"

lemma handled_yields_simps:
  "handled_yields P (goes_on r) = yields P r" "handled_yields P (traps e m)"
  by (cases r) (simp_all add: handled_yields_def goes_on_def traps_def)

lemma handled_free: "(\<And>x. handled_yields P (f x)) \<Longrightarrow> handled_yields P (ex_then r f)"
  unfolding handled_yields_def by (rule yields_free)

lemma handled_bind: "yields Q r \<Longrightarrow> (\<And>x. Q x \<Longrightarrow> handled_yields P (f x)) \<Longrightarrow> handled_yields P (ex_then r f)"
  unfolding handled_yields_def by (rule yields_bind)

lemma set_next1_yields: "yields (advances m) (ex_then (set_stack_slot s v m) (\<lambda>m. Done (next_instr m)))"
  using set_next_yields [of 1 m s v] by (simp add: next_instr_def)

lemma compute_yields: "handled_yields (advances m) (execute_compute ev i m)"
proof -
  have sel: "yields (advances m) (select_values r c x y m)" for r c x y
    unfolding select_values_def by (rule yields_free, rule set_next_yields) simp
  have wide: "yields (advances m) (execute_i64_binop128 r0 r1 x f m)" for r0 r1 x f
    unfolding execute_i64_binop128_def
    by (auto intro!: yields_free yields_bind [OF set_revalues] next_advances [OF revalues_trans]
        split: option.split param_word.split prod.split)
  have mul: "yields (advances m) (execute_i64_mul_wide_sx r x y f m)" for r x y f
    unfolding execute_i64_mul_wide_sx_def next_instr_def
    by (auto intro!: yields_free yields_bind [OF set_revalues] next_advances [OF revalues_trans] split: prod.split)
  show ?thesis
    by (cases i)
      (auto simp: handled_yields_simps execute_unary_def try_execute_unary_def execute_binary_def
        try_execute_binary_def execute_binary_imm16_rhs_def execute_binary_imm16_lhs_def execute_shift_by_def
        try_execute_divrem_imm16_rhs_def execute_divrem_imm16_rhs_def try_execute_binary_imm16_lhs_def
        execute_cmp_select_impl_def execute_cmp_select_imm_rhs_impl_def handled_yields_def [of _ Undefined]
        intro!: yields_free handled_free set_next1_yields sel wide mul
        split: sum.split option.split param_word.split)
qed

lemma copy_slots_yields: "yields (revalues m) (copy_slots r vs m)"
proof (induction r vs m rule: copy_slots.induct)
  case (1 r m)
  then show ?case by (simp add: revalues_refl)
next
  case (2 r v vs m)
  show ?case
    by (auto simp: yields_def ex_then_Done_iff dest: set_revalues [unfolded yields_def, rule_format]
        "2.IH" [unfolded yields_def, rule_format] intro: revalues_trans)
qed

lemma copies_yields: "yields (advances m) (execute_copies i m)"
proof -
  have two: "yields (advances m) (execute_copy_2 r v0 v1 m)" for r v0 v1
    unfolding execute_copy_2_def next_instr_def
    by (auto intro!: yields_free yields_bind [OF set_revalues] next_advances [OF revalues_trans])
  have span: "yields (advances m) (execute_copy_span r vs len m)" for r vs len
    unfolding execute_copy_span_def execute_copy_span_impl_def next_instr_def
    by (rule yields_bind [OF copy_slots_yields]) (simp add: next_advances)
  have many: "yields (advances m) (execute_copy_many r v0 v1 m)" for r v0 v1
    unfolding execute_copy_many_def Let_def
  proof (rule yields_free, clarify, rule yields_bind [OF copy_slots_yields])
    fix n m' assume "revalues (next_instr m) m'"
    then show "yields (advances m) (Done (next_instr (next_instr_at n m')))"
      by (auto simp: revalues_def advances_def stays_def next_instr_def next_instr_at_def ip_offset_def)
  qed
  show ?thesis
    by (cases i) (auto simp: execute_copy_def execute_copy_const_def two span many
        intro!: yields_free set_next1_yields)
qed

lemma globals_yields: "yields (advances m) (execute_globals ev i m)"
proof -
  have set: "yields (advances m) (execute_global_set_impl j v m)" for j v
    unfolding execute_global_set_impl_def
    by (rule yields_free) (auto simp: advances_def stays_def next_instr_def next_instr_at_def ip_offset_def)
  show ?thesis
    by (cases i) (auto simp: execute_global_get_def execute_global_set_def execute_ref_func_def set
        intro!: yields_free set_next1_yields)
qed

lemma then_next_yields:
  assumes "handled_yields (\<lambda>m'. stays m m' \<and> ip_at (m_ip m) \<le> ip_at (m_ip m')) r" and "0 < d"
  shows "handled_yields (advances m) (then_next d r)"
  using assms by (cases r) (auto simp: handled_yields_def then_next_def advances_def stays_def
      next_instr_at_def ip_offset_def split: sum.splits)

lemma optional_memory_yields:
  "yields (\<lambda>(_, m'). stays m m' \<and> ip_at (m_ip m) \<le> ip_at (m_ip m')) (fetch_optional_memory d m)"
  unfolding fetch_optional_memory_def
  by (rule yields_free) (auto simp: stays_def next_instr_def next_instr_at_def ip_offset_def
      split: option.split param_word.split)

lemma load_extend_yields:
  assumes "stays m m1" and "ip_at (m_ip m) \<le> ip_at (m_ip m1)"
  shows "handled_yields (\<lambda>m'. stays m m' \<and> ip_at (m_ip m) \<le> ip_at (m_ip m')) (execute_load_extend mem r f m1)"
  unfolding execute_load_extend_def
  using assms by (auto intro!: handled_free yields_mono [OF set_revalues]
      simp: handled_yields_simps revalues_def stays_def split: sum.split)

lemma store_wrap_yields:
  assumes "stays m m1" and "ip_at (m_ip m) \<le> ip_at (m_ip m1)"
  shows "handled_yields (\<lambda>m'. stays m m' \<and> ip_at (m_ip m) \<le> ip_at (m_ip m')) (execute_store_wrap mem f m1)"
  unfolding execute_store_wrap_def
  using assms by (auto intro!: handled_free simp: handled_yields_simps handled_yields_def [of _ "Done _"] stays_def
      put_memory_bytes_def Let_def split: sum.split option.split)

lemma stays_refl: "stays m m"
  by (simp add: stays_def)

lemma memory_yields: "handled_yields (advances m) (execute_memory ev i m)"
  by (cases i)
    (auto simp: execute_load_impl_def execute_load_at_impl_def execute_load_offset16_impl_def execute_store_def
      execute_store_imm_def execute_store_offset16_def execute_store_offset16_imm16_def execute_store_at_def
      execute_store_at_imm16_def
      intro!: handled_free handled_bind [OF optional_memory_yields] then_next_yields load_extend_yields
        store_wrap_yields stays_refl)

end
