(* ===== verification/Machine_Bulk_Metering.thy ===== *)
theory Machine_Bulk_Metering
  imports Metered_Code
begin

text \<open>
  The bulk instructions move on in their frame, and the fuel they charge for bytes and elements
  only shrinks the counter.
\<close>

section \<open>Charges\<close>

definition shrinks :: "fuel \<Rightarrow> fuel \<Rightarrow> bool" where
  "shrinks fu fu' \<longleftrightarrow> unat (remaining fu') \<le> unat (remaining fu)"

definition shrinks_option :: "fuel \<Rightarrow> fuel option \<Rightarrow> bool" where
  "shrinks_option fu fu' \<longleftrightarrow> (case fu' of Some f \<Rightarrow> shrinks fu f | None \<Rightarrow> True)"

lemma shrinks_refl [simp]: "shrinks fu fu"
  by (simp add: shrinks_def)

lemma shrinks_option_simps [simp]:
  "shrinks_option fu (Some f) = shrinks fu f" "shrinks_option fu None"
  by (simp_all add: shrinks_option_def)

lemma consume_if_shrinks: "consume_fuel_if g fu = (r, fu') \<Longrightarrow> shrinks fu fu'"
  by (auto simp: consume_fuel_if_def consume_fuel_unchecked_def shrinks_def word_le_nat_alt unat_sub
      split: if_splits)

lemma consume_shrinks: "consume_fuel g fu = (r, fu') \<Longrightarrow> shrinks fu fu'"
  by (auto simp: consume_fuel_def check_fuel_metering_enabled_def consume_fuel_unchecked_def shrinks_def
      word_le_nat_alt unat_sub split: if_splits sum.splits)

lemma charge_bytes_shrinks: "charge_bytes len fu = (r, fu') \<Longrightarrow> shrinks fu fu'"
  by (auto simp: charge_bytes_def dest: consume_if_shrinks split: prod.splits sum.splits)

lemma charge_values_shrinks: "charge_values n (Some fu) = (r, fu') \<Longrightarrow> shrinks_option fu fu'"
  by (auto simp: charge_values_def dest: consume_shrinks split: prod.splits sum.splits fuel_error.splits)

section \<open>Operations\<close>

text \<open>What an outcome promises of its value, if it has one.\<close>

definition promises :: "('a \<Rightarrow> bool) \<Rightarrow> 'a outcome \<Rightarrow> bool" where
  "promises P r \<longleftrightarrow> (\<forall>x. r = Ok x \<longrightarrow> P x)"

lemma promises_simps [simp]:
  "promises P (Ok x) = P x" "promises P Panic" "promises P Diverges"
  by (simp_all add: promises_def)

lemma promises_bind: "promises Q r \<Longrightarrow> (\<And>x. Q x \<Longrightarrow> promises P (f x)) \<Longrightarrow> promises P (and_then r f)"
  by (cases r) simp_all

lemma promises_free: "(\<And>x. promises P (f x)) \<Longrightarrow> promises P (and_then r f)"
  by (cases r) simp_all

lemma pay_values_shrinks: "promises (\<lambda>(r, fu'). shrinks_option fu fu') (pay_values n (Some fu))"
  by (auto simp: pay_values_def dest: consume_if_shrinks intro!: promises_free split: prod.split sum.split)

lemma charge_growth_shrinks: "promises (\<lambda>(r, fu'). shrinks_option fu fu') (charge_growth mem n (Some fu))"
  by (auto simp: charge_growth_def dest: consume_if_shrinks
      split: prod.split sum.split fuel_error.split option.split)

lemma memory_ops_shrink:
  "promises (\<lambda>(r, fu'). shrinks fu fu') (exec_memory_copy_within t d s n mem fu)"
  "shrinks fu (snd (exec_memory_copy t d s n src mem fu))"
  "shrinks fu (snd (exec_memory_fill t d v n mem fu))"
  "shrinks fu (snd (exec_memory_init t d s32 n32 mem src fu))"
  by (auto simp: exec_memory_copy_within_def exec_copy_within_impl_def dest: charge_bytes_shrinks
        intro!: promises_free split: sum.split prod.split)
    (auto simp: exec_memory_copy_def exec_memory_fill_def exec_memory_init_def dest: charge_bytes_shrinks
        split: sum.split prod.split)

lemma memory_grow_shrinks:
  "promises (\<lambda>(r, mem', fu', l'). shrinks_option fu fu') (memory_grow t al limiter delta mem (Some fu) l)"
proof -
  have buf: "promises (\<lambda>(r, mem', fu', l'). shrinks_option fu fu') (grow_buffer t al limiter n mem fu2 l2)"
    if "shrinks_option fu fu2" for n fu2 l2
    unfolding grow_buffer_def using that
    by (intro promises_free) (auto intro!: promises_free split: sum.split)
  have paid: "promises (\<lambda>(r, mem', fu', l'). shrinks_option fu fu') (grow_paid t al limiter delta n mem (Some fu) l2)"
    for n l2
    unfolding grow_paid_def
    by (rule promises_bind [OF charge_growth_shrinks]) (auto intro!: promises_free buf split: sum.split)
  show ?thesis unfolding memory_grow_def
    by (auto intro!: promises_free paid split: sum.split prod.split)
qed

lemma exec_memory_grow_shrinks:
  "promises (\<lambda>(r, mem', fu', l'). shrinks_option fu fu') (exec_memory_grow t al limiter delta mem fu l)"
  unfolding exec_memory_grow_def
  by (auto intro!: promises_bind [OF memory_grow_shrinks] split: sum.split memory_error.split)

lemma table_ops_shrink:
  "promises (\<lambda>(r, tab', fu'). shrinks_option fu fu') (exec_table_copy_within t d s n tab fu)"
  "promises (\<lambda>(r, tab', fu'). shrinks_option fu fu') (exec_table_copy t d s n src tab fu)"
  "promises (\<lambda>(r, tab', fu'). shrinks_option fu fu') (exec_table_init t d s32 n32 seg tab fu)"
  "promises (\<lambda>(r, tab', fu'). shrinks_option fu fu') (exec_table_fill t d n v tab fu)"
proof -
  have raise: "promises (\<lambda>(r, tab', fu'). shrinks_option fu fu') (raise_table_error x)"
    if "promises (\<lambda>(r, tab', fu'). shrinks_option fu fu') x" for x
    unfolding raise_table_error_def by (rule promises_bind [OF that]) auto
  have paid: "promises (\<lambda>(r, tab', fu'). shrinks_option fu fu') (and_then (pay_values n (Some fu)) (\<lambda>(r, fu). case r of
      Inl e \<Rightarrow> Ok (Inl e, tab, fu) | Inr _ \<Rightarrow> and_then x (\<lambda>elements. Ok (Inr (), tab\<lparr>tab_elements := elements\<rparr>, fu))))"
    for x
    by (rule promises_bind [OF pay_values_shrinks]) (auto intro!: promises_free split: sum.split)
  show "promises (\<lambda>(r, tab', fu'). shrinks_option fu fu') (exec_table_copy_within t d s n tab fu)"
    unfolding exec_table_copy_within_def table_copy_within_def Let_def
    by (intro raise) (auto intro!: paid split: option.split)
  show "promises (\<lambda>(r, tab', fu'). shrinks_option fu fu') (exec_table_copy t d s n src tab fu)"
    unfolding exec_table_copy_def table_copy_def Let_def
    by (intro raise) (auto intro!: promises_bind [OF pay_values_shrinks] split: option.split sum.split)
  show "promises (\<lambda>(r, tab', fu'). shrinks_option fu fu') (exec_table_init t d s32 n32 seg tab fu)"
    unfolding exec_table_init_def table_init_def Let_def
    by (intro raise) (auto intro!: promises_bind [OF pay_values_shrinks] split: option.split sum.split)
  show "promises (\<lambda>(r, tab', fu'). shrinks_option fu fu') (exec_table_fill t d n v tab fu)"
    unfolding exec_table_fill_def table_fill_untyped_def Let_def
    by (intro raise) (auto intro!: promises_bind [OF pay_values_shrinks] split: option.split sum.split)
qed

lemma exec_table_grow_shrinks:
  "promises (\<lambda>(r, tab', fu', l'). shrinks_option fu fu') (exec_table_grow t al limiter delta v tab fu l)"
proof -
  have granted: "promises (\<lambda>(r, tab', fu', l'). shrinks_option fu fu')
      (table_grow_granted t al limiter delta v sizes tab (Some fu) l2)" for sizes l2
    unfolding table_grow_granted_def Let_def
    by (auto intro!: promises_free dest: charge_values_shrinks split: prod.split option.split)
  have "promises (\<lambda>(r, tab', fu', l'). shrinks_option fu fu') (table_grow_untyped t al limiter delta v tab (Some fu) l)"
    unfolding table_grow_untyped_def by (auto intro!: granted split: sum.split prod.split)
  then show ?thesis
    unfolding exec_table_grow_def by (auto elim!: promises_bind split: sum.split table_error.split)
qed

section \<open>Machines\<close>

text \<open>What a handler has done to the machine when it has only the instruction pointer left to move.\<close>

definition spends :: "('h, 'l) machine \<Rightarrow> ('h, 'l) machine \<Rightarrow> bool" where
  "spends m m' \<longleftrightarrow> m_calls m' = m_calls m \<and> m_ip m' = m_ip m \<and> shrinks (so_fuel (m_store m)) (so_fuel (m_store m'))"

lemma spends_refl: "spends m m"
  by (simp add: spends_def)

lemma spends_values: "spends m m1 \<Longrightarrow> revalues m1 m' \<Longrightarrow> spends m m'"
  by (auto simp: revalues_def spends_def)

lemma spends_next: "spends m m' \<Longrightarrow> on_word m \<Longrightarrow> 0 < d \<Longrightarrow> goes_well m (next_instr_at d m')"
  by (auto simp: spends_def goes_well_def shrinks_def fuel_left_def ahead_def words_ahead_def on_word_def
      next_instr_at_def ip_offset_def)

lemma spends_store:
  "shrinks (so_fuel (m_store m)) (so_fuel st) \<Longrightarrow> spends m (m\<lparr>m_store := st\<rparr>)"
  by (simp add: spends_def)

lemma spends_bytes:
  assumes "r = (x, fu)" and "shrinks (so_fuel (m_store m)) fu"
  shows "handled_yields (spends m) (bytes_done h r m)"
  using assms by (auto simp: bytes_done_def handled_yields_def with_fuel_def spends_def put_memory_bytes_def
      Let_def split: sum.split)

lemma spends_table:
  assumes "r = (x, tab, fu)" and "shrinks_option (so_fuel (m_store m)) fu"
  shows "handled_yields (spends m) (table_done h r m)"
  using assms by (auto simp: table_done_def handled_yields_def with_fuel_option_def with_fuel_def with_table_at_def
      spends_def Let_def split: sum.split option.split)

lemma spends_grown:
  assumes "shrinks_option (so_fuel (m_store m)) fu"
  shows "spends m (with_limiter_state l (with_memory_at h mem (with_fuel_option fu m)))"
    and "spends m (with_limiter_state l (with_table_at h tab (with_fuel_option fu m)))"
  using assms by (auto simp: spends_def with_limiter_state_def with_memory_at_def with_table_at_def
      with_fuel_option_def with_fuel_def split: option.split)

lemma then_next_well:
  assumes "handled_yields (spends m) r" and "on_word m" and "0 < d"
  shows "handled_yields (goes_well m) (then_next d r)"
  using assms by (cases r) (auto simp: handled_yields_def then_next_def spends_next split: sum.splits)

lemma set_then_well:
  assumes "spends m m1" and "on_word m" and "0 < d"
  shows "handled_yields (goes_well m) (then_next d (goes_on (set_stack_slot r v m1)))"
  by (rule then_next_well [OF _ assms(2,3)])
    (simp add: handled_yields_simps yields_mono [OF set_revalues] spends_values [OF assms(1)])

lemma size_then_well:
  assumes "on_word m" and "0 < d"
  shows "handled_yields (goes_well m) (then_next d (goes_on (execute_memory_size_impl r i m)))"
    and "handled_yields (goes_well m) (then_next d (goes_on (execute_table_size_impl r i m)))"
  unfolding execute_memory_size_impl_def execute_table_size_impl_def
  by (rule then_next_well [OF _ assms],
      auto simp: handled_yields_simps intro!: yields_free yields_mono [OF set_revalues] spends_values [OF spends_refl])+

lemma drop_well:
  assumes "on_word m" and "so_fuel st = so_fuel (m_store m)"
  shows "goes_well m (next_instr (m\<lparr>m_store := st\<rparr>))"
  unfolding next_instr_def by (rule spends_next [OF spends_store assms(1)]) (simp_all add: assms(2))

section \<open>Handlers\<close>

lemma handled_outcome:
  "promises Q r \<Longrightarrow> (\<And>x. Q x \<Longrightarrow> handled_yields P (f x)) \<Longrightarrow> handled_yields P (ex_then (ex_of_outcome r) f)"
  by (cases r) (simp_all add: handled_yields_def)

lemma memory_bulk_well:
  assumes on: "on_word m" and i: "i = MemoryGrow x y \<or> i = MemoryCopy x y z \<or> i = MemoryFill x y z \<or> i = MemoryFillImm x v z \<or> i = MemoryInit x y z"
  shows "handled_yields (goes_well m) (execute_bulk ev i m)"
proof -
  have bytes: "handled_yields (goes_well m) (then_next d (bytes_done h r m))"
    if "shrinks (so_fuel (m_store m)) (snd r)" "0 < d" for d h r
    by (rule then_next_well [OF _ on that(2)], rule spends_bytes [where x = "fst r", OF _ that(1)]) simp
  have copy: "handled_yields (goes_well m) (ex_then (ex_of_outcome (exec_memory_copy_within t d s n mem (so_fuel (m_store m))))
      (\<lambda>r. then_next 3 (bytes_done h r m)))" for t d s n mem h
    by (rule handled_outcome [OF memory_ops_shrink(1)]) (auto intro!: bytes)
  have grow: "handled_yields (goes_well m) (ex_then (ex_of_outcome (exec_memory_grow t al limiter d mem (so_fuel (m_store m)) l))
      (\<lambda>(r, mem, fu, l). let m = with_limiter_state l (with_memory_at h mem (with_fuel_option fu m)) in
         case r of Inl e \<Rightarrow> Done (Inl (e, m)) | Inr n \<Rightarrow> then_next 2 (goes_on (set_stack_slot result n m))))"
    for t al limiter d mem l h result
    by (rule handled_outcome [OF exec_memory_grow_shrinks])
      (auto simp: Let_def handled_yields_def [of _ "Done _"] intro!: set_then_well [OF spends_grown(1) on] split: sum.split)
  show ?thesis using i
    by (elim disjE)
      (auto simp: execute_memory_grow_def execute_memory_copy_def execute_memory_fill_def execute_memory_fill_imm_def
        execute_memory_fill_impl_def execute_memory_init_def handled_yields_simps
        intro!: handled_free size_then_well [OF on] memory_ops_shrink copy grow bytes)
qed

lemma table_bulk_well:
  assumes on: "on_word m" and i: "i = TableGet x y \<or> i = TableGetImm x v \<or> i = TableSet x y \<or> i = TableSetAt v y
      \<or> i = TableCopy x y z \<or> i = TableInit x y z \<or> i = TableFill x y z \<or> i = TableGrow x y z"
  shows "handled_yields (goes_well m) (execute_bulk ev i m)"
proof -
  have table: "handled_yields (goes_well m) (then_next d (table_done h (r, tab, fu) m))"
    if "shrinks_option (so_fuel (m_store m)) fu" "0 < d" for d h r tab fu
    by (rule then_next_well [OF spends_table [OF refl that(1)] on that(2)])
  have after: "handled_yields (goes_well m) (ex_then (ex_of_outcome o1) (\<lambda>r. then_next d (table_done h r m)))"
    if "promises (\<lambda>(r, tab', fu'). shrinks_option (so_fuel (m_store m)) fu') o1" "0 < d" for o1 d h
    by (rule handled_outcome [OF that(1)]) (use that(2) in \<open>auto intro!: table\<close>)
  note ops = after [OF table_ops_shrink(1), of 3, simplified] after [OF table_ops_shrink(2), of 3, simplified]
    after [OF table_ops_shrink(3), of 3, simplified] after [OF table_ops_shrink(4), of 2, simplified]
  have grow: "handled_yields (goes_well m) (ex_then (ex_of_outcome (exec_table_grow t al limiter d v tab (so_fuel (m_store m)) l))
      (\<lambda>(r, tab, fu, l). let m = with_limiter_state l (with_table_at h tab (with_fuel_option fu m)) in
         case r of Inl e \<Rightarrow> Done (Inl (e, m)) | Inr n \<Rightarrow> then_next 2 (goes_on (set_stack_slot result n m))))"
    for t al limiter d v tab l h result
    by (rule handled_outcome [OF exec_table_grow_shrinks])
      (auto simp: Let_def handled_yields_def [of _ "Done _"] intro!: set_then_well [OF spends_grown(2) on] split: sum.split)
  show ?thesis using i
    by (elim disjE)
      (auto simp: execute_table_get_def execute_table_get_impl_def execute_table_set_def execute_table_set_impl_def
        execute_table_copy_def execute_table_init_def execute_table_fill_def execute_table_grow_def
        handled_yields_def [of _ "Done _"]
        intro!: handled_free size_then_well [OF on] ops grow table set_then_well [OF spends_refl on]
        split: sum.split prod.split)
qed

lemma bulk_well:
  assumes on: "on_word m"
  shows "handled_yields (goes_well m) (execute_bulk ev i m)"
proof (cases i)
  case (TableSize x t)
  then show ?thesis by (simp add: size_then_well [OF on])
next
  case (MemorySize x t)
  then show ?thesis by (simp add: size_then_well [OF on])
next
  case (ElemDrop j)
  then show ?thesis by (auto simp: execute_element_drop_def handled_yields_simps intro!: yields_free drop_well [OF on])
next
  case (DataDrop j)
  then show ?thesis by (auto simp: execute_data_drop_def handled_yields_simps intro!: yields_free drop_well [OF on])
qed ((rule table_bulk_well [OF on], blast) | (rule memory_bulk_well [OF on], blast))+

end
