(* ===== verification/Machine_Termination.thy ===== *)
theory Machine_Termination
  imports Machine_Bulk_Metering
begin

text \<open>
  Metered code ends. Twice the fuel that is left, less one when a charge is next, and then the
  number of words ahead in the frames, decrease with every step that goes on: branches go forward or
  to a charge, a return resumes a caller with fewer words ahead, a call lands on a charge. So the
  dispatch loop ends whatever the guest does.
\<close>

section \<open>Branches\<close>

lemma jump_well:
  assumes "on_word m" and "jump_metered (ip_code (m_ip m)) (ip_at (m_ip m)) off"
  shows "goes_well m (branch_to off m)"
  by (rule jumps_well [OF _ assms(1)])
    (use assms(2) in \<open>auto simp: jump_metered_def stays_def branch_to_def ip_offset_def\<close>)

lemma next_well: "on_word m \<Longrightarrow> goes_well m (next_instr m)"
  using next_advances [OF revalues_refl, of 1 m] by (auto intro: advances_well simp: next_instr_def)

lemma branch_binop_yields:
  assumes "on_word m" and "jump_metered (ip_code (m_ip m)) (ip_at (m_ip m)) off"
  shows "yields (goes_well m) (execute_branch_binop x y off f m)"
    and "yields (goes_well m) (execute_branch_binop_imm16_rhs x c off f m)"
    and "yields (goes_well m) (execute_branch_binop_imm16_lhs c y off f m)"
  unfolding execute_branch_binop_def execute_branch_binop_imm16_rhs_def execute_branch_binop_imm16_lhs_def
  using jump_well [OF assms] next_well [OF assms(1)] by (auto intro!: yields_free)

lemma branch_table_0_yields: "yields (advances m) (execute_branch_table_0 ev i len m)"
  unfolding execute_branch_table_0_def fetch_branch_table_offset_def ex_then_assoc
  by (rule yields_free) (simp add: next_advances revalues_refl)

lemma branch_table_span_yields:
  assumes "on_word m" and "ip_code (m_ip m) = cfn_instrs cf" and "metered ev cf"
  shows "yields (goes_well m) (execute_branch_table_span ev i len m)"
proof -
  have at: "yields (goes_well m)
      (ex_then (param_at 0 m1) (\<lambda>p. case p of
            Some (BranchTableTarget results offset) \<Rightarrow>
              ex_then (execute_copy_span_impl results vals n m1) (\<lambda>m. Done (branch_to offset m))
          | _ \<Rightarrow> Undefined))"
    if m1: "stays m m1" "ip_at (m_ip m) < ip_at (m_ip m1)" for m1 vals n
  proof (cases "ip_get (m_ip m1)")
    case (Done w)
    then have w: "0 \<le> ip_at (m_ip m1)" "ip_at (m_ip m1) < int (length (cfn_instrs cf))"
      "w = cfn_instrs cf ! nat (ip_at (m_ip m1))"
      using m1(1) assms(2) by (auto simp: ip_get_def stays_def split: if_splits)
    have ww: "word_metered (ev_comparator ev) cf (ip_at (m_ip m1)) w"
      using metered_word [OF assms(3) w(1,2)] w(3) by simp
    then have off: "jump_metered (cfn_instrs cf) (ip_at (m_ip m1)) off" if "w = IParam (BranchTableTarget res off)" for res off
      using that by simp
    have "yields (goes_well m) (ex_then (execute_copy_span_impl res vals n m1) (\<lambda>m. Done (branch_to off m)))"
      if t: "w = IParam (BranchTableTarget res off)" for res off
      unfolding execute_copy_span_impl_def
    proof (rule yields_bind [OF copy_slots_yields], simp)
      fix m2 assume "revalues m1 m2"
      then have m2: "stays m (branch_to off m2)" "ip_at (m_ip (branch_to off m2)) = ip_at (m_ip m1) + off"
        using m1(1) by (auto simp: revalues_def stays_def branch_to_def ip_offset_def)
      show "goes_well m (branch_to off m2)"
        by (rule jumps_well [OF m2(1) assms(1)])
          (use m2(2) m1(2) off [OF t] assms(2) in \<open>auto simp: jump_metered_def\<close>)
    qed
    moreover have "ip_offset 0 (m_ip m1) = m_ip m1" by (simp add: ip_offset_def)
    ultimately show ?thesis using Done
      by (auto simp: param_at_def split: instr.split param_word.split)
  qed (simp_all add: param_at_def ip_offset_def)
  show ?thesis
    unfolding execute_branch_table_span_def fetch_branch_table_offset_def ex_then_assoc Let_def
    by (rule yields_free, rule yields_free, rule yields_free)
      (auto intro!: at split: option.split param_word.split
        simp: stays_def next_instr_def next_instr_at_def ip_offset_def)
qed

lemma branches_yields:
  assumes "running ev cx K cf sh k b 0 m" and "metered ev cf" and "on_word m"
    and "branch_ok (ev_comparator ev) (cfn_instrs cf) (ip_at (m_ip m)) (regs_of cf) (cfn_consts cf) i"
    and "cfn_instrs cf ! nat (ip_at (m_ip m)) = IBranch i"
  shows "yields (goes_well m) (execute_branches ev i m)"
proof -
  have c: "ip_code (m_ip m) = cfn_instrs cf" using running_locals [OF assms(1)] by (simp add: locals_ok_def)
  have w: "word_metered (ev_comparator ev) cf (ip_at (m_ip m)) (IBranch i)"
    using metered_word [OF assms(2), of "ip_at (m_ip m)"] assms(3,5) c by (simp add: on_word_def)
  show ?thesis
  proof (cases i)
    case (BranchTable0 j len)
    have "yields (goes_well m) (execute_branch_table_0 ev j len m)"
      by (rule yields_mono [OF branch_table_0_yields]) (rule advances_well [OF _ assms(3)])
    then show ?thesis using BranchTable0 by simp
  next
    case (BranchTableSpan j len)
    then show ?thesis using branch_table_span_yields [OF assms(3) c assms(2)] by simp
  next
    case (BranchCmpFallback x y ps)
    then obtain cmp off where g: "rd (regs_of cf) ps" "ps < 0"
        "ev_comparator ev (cfn_consts cf ! nat (int (length (cfn_consts cf)) + ps)) = Some (cmp, off)"
      using assms(4) by (auto simp: regs_of_def split: option.splits)
    have "jump_metered (ip_code (m_ip m)) (ip_at (m_ip m)) off" using w BranchCmpFallback g(3) c by simp
    then show ?thesis
      using BranchCmpFallback get_const [OF running_locals [OF assms(1)] g(1,2)] g(3)
        branch_binop_yields(1) [OF assms(3)]
      by (simp add: execute_branch_cmp_fallback_def)
  qed (use w c branch_binop_yields [OF assms(3)] jump_well [OF assms(3)] in simp_all)
qed

section \<open>Returns\<close>

text \<open>The frame on top is gone and the one below it goes on where it stopped.\<close>

definition resumes :: "('h, 'l) machine \<Rightarrow> ('h, 'l) machine \<Rightarrow> bool" where
  "resumes m m' \<longleftrightarrow> fuel_left (m_store m') \<le> fuel_left (m_store m)
     \<and> (\<exists>f g gs. cs_frames (m_calls m) = f # g # gs \<and> cs_frames (m_calls m') = g # gs
          \<and> m_ip m' = cf_instr_ptr g)"

lemma resumes_well: "resumes m m' \<Longrightarrow> on_word m \<Longrightarrow> goes_well m m'"
  by (auto simp: resumes_def on_word_def goes_well_def ahead_def words_ahead_def)

lemma restore_instance_simps [simp]:
  "m_calls (restore_instance popped m) = m_calls m" "m_store (restore_instance popped m) = m_store m"
  "m_values (restore_instance popped m) = m_values m"
  by (simp_all add: restore_instance_def split: option.split)

lemma init_call_frame_simps [simp]:
  "m_calls (init_call_frame f m) = m_calls m" "m_store (init_call_frame f m) = m_store m"
  "m_ip (init_call_frame f m) = cf_instr_ptr f" "m_values (init_call_frame f m) = m_values m"
  by (simp_all add: init_call_frame_def)

lemma cs_pop_frames:
  "cs_pop cs = (Some (f, popped), cs') \<Longrightarrow> cs_frames cs = f # cs_frames cs'"
  by (auto simp: cs_pop_def split: list.splits prod.splits)

definition control_yields :: "('h, 'l) machine \<Rightarrow> control \<times> ('h, 'l) machine \<Rightarrow> bool" where
  "control_yields m x \<longleftrightarrow> (case x of (Go_On, m') \<Rightarrow> resumes m m' | (Break, _) \<Rightarrow> True)"

lemma return_impl_yields:
  assumes "m_calls m = m_calls m0" and "m_store m = m_store m0"
  shows "yields (control_yields m0) (return_impl m)"
proof (cases "cs_pop (m_calls m)")
  case (Pair r calls)
  show ?thesis
  proof (cases r)
    case (Some x)
    then obtain f popped where x: "cs_pop (m_calls m) = (Some (f, popped), calls)"
      using Pair by (cases x) simp
    have "cs_frames (m_calls m) = f # cs_frames calls" by (rule cs_pop_frames [OF x])
    then show ?thesis
      unfolding return_impl_def x Let_def
      using assms by (auto intro!: yields_free simp: control_yields_def resumes_def cs_peek_def
          split: option.split list.splits)
  qed (simp add: return_impl_def Pair)
qed

lemma return_slots_yields:
  "yields (\<lambda>m'. m_calls m' = m_calls m \<and> m_store m' = m_store m) (return_slots sp r vs m)"
proof (induction sp r vs m rule: return_slots.induct)
  case (2 sp r v vs m)
  show ?case
    by (auto simp: yields_def ex_then_Done_iff dest: "2.IH" [unfolded yields_def, rule_format])
qed simp

lemma return_reg_n_yields:
  assumes "m_calls m = m_calls m0" and "m_store m = m_store m0"
  shows "yields (control_yields m0) (execute_return_reg_n vs m)"
  unfolding execute_return_reg_n_def
  using assms by (auto intro!: yields_free yields_bind [OF return_slots_yields] return_impl_yields)

lemma return_value_yields: "yields (control_yields m) (execute_return_value v m)"
  unfolding execute_return_value_def by (auto intro!: yields_free return_impl_yields)

lemma returns_yields: "yields (control_yields m) (execute_returns i m)"
  by (cases i) (auto intro!: yields_free return_impl_yields return_reg_n_yields return_value_yields
      simp: execute_return_many_def Let_def next_instr_def next_instr_at_def)

section \<open>Calls of compiled functions\<close>

lemma copy_regs_yields: "yields (\<lambda>(_, m'). revalues m m') (copy_regs ss fr m)"
proof (induction ss fr m rule: copy_regs.induct)
  case (1 fr m)
  then show ?case by (simp add: revalues_refl)
next
  case (2 s ss fr m)
  show ?case
    by (fastforce simp: yields_def ex_then_Done_iff revalues_def dest: "2.IH" [unfolded yields_def, rule_format])
qed

lemma call_params_yields:
  "yields (\<lambda>(_, m'). stays m m' \<and> m_store m' = m_store m \<and> ip_at (m_ip m) \<le> ip_at (m_ip m'))
     (if has_params then copy_call_params fr m else Done (fr, m))"
proof (cases has_params)
  case True
  show ?thesis
    unfolding copy_call_params_def Let_def using True
    by (auto intro!: yields_free yields_mono [OF copy_regs_yields]
        simp: revalues_def stays_def next_instr_def next_instr_at_def ip_offset_def)
qed (simp add: stays_def)

lemma dispatch_compiled_yields:
  "yields (\<lambda>(r, m'). m_store m' = m_store m \<and> m_calls m' = m_calls m
      \<and> (case r of Inl _ \<Rightarrow> True | Inr called \<Rightarrow> cf_instr_ptr called = ip_new (cfn_instrs func)))
     (dispatch_compiled_func ev has_params results func m)"
proof -
  have "yields (\<lambda>(r, m'). m_store m' = m_store m \<and> m_calls m' = m_calls m
      \<and> (case r of Inl _ \<Rightarrow> True | Inr called \<Rightarrow> cf_instr_ptr called = ip_new (cfn_instrs func)))
     (ex_then (if has_params then copy_call_params fr m1 else Done (fr, m1)) (\<lambda>(fr, m).
        ex_then (init_zeroes fr (m_values m)) (\<lambda>vs.
          Done (Inr (call_frame_new (ip_new (cfn_instrs func)) offsets results), with_values vs m))))"
    if "m_store m1 = m_store m" "m_calls m1 = m_calls m" for fr m1 offsets
    by (rule yields_bind [OF call_params_yields])
      (use that in \<open>auto intro!: yields_free simp: stays_def call_frame_new_def\<close>)
  note filled = this
  show ?thesis
  proof (cases "cs_peek (m_calls m)")
    case (Some caller)
    show ?thesis
      unfolding dispatch_compiled_func_def Let_def Some option.case
    proof (rule yields_free, clarify)
      fix r :: "trap_code + frame_params \<times> stack_offsets" and vs sp
      let ?m = "(with_values vs m)\<lparr>m_sp := sp\<rparr>"
      have m: "m_store ?m = m_store m" "m_calls ?m = m_calls m" by simp_all
      show "yields (\<lambda>(r, m'). m_store m' = m_store m \<and> m_calls m' = m_calls m
          \<and> (case r of Inl _ \<Rightarrow> True | Inr called \<Rightarrow> cf_instr_ptr called = ip_new (cfn_instrs func)))
        (case r of
            Inl e \<Rightarrow> Done (Inl (EK_TrapCode e), ?m)
          | Inr (uninit_params, offsets) \<Rightarrow>
              ex_then (if has_params then copy_call_params uninit_params ?m else Done (uninit_params, ?m))
                (\<lambda>(uninit_params, m).
              ex_then (init_zeroes uninit_params (m_values m)) (\<lambda>vs.
                Done (Inr (call_frame_new (ip_new (cfn_instrs func)) offsets results), with_values vs m))))"
      proof (cases r)
        case (Inl e)
        then show ?thesis using m by simp
      next
        case (Inr x)
        then show ?thesis using filled [OF m, of "fst x" "snd x"] by (simp only: sum.case case_prod_unfold)
      qed
    qed
  qed (simp add: dispatch_compiled_func_def)
qed

definition enters :: "('h, 'l) machine \<Rightarrow> ('h, 'l) machine \<Rightarrow> bool" where
  "enters m m' \<longleftrightarrow> fuel_left (m_store m') \<le> fuel_left (m_store m) \<and> charge_next m'"

lemma enters_well: "enters m m' \<Longrightarrow> goes_well m m'"
  by (simp add: enters_def goes_well_def)

lemma prepare_yields:
  assumes "code_map_ok ev cx" and "cx_promise cx = metered ev" and "fuel_monotone ev"
    and "m_store m = m_store m0"
  shows "handled_yields (enters m0) (prepare_compiled_func_call ev kind has_params results func inst m)"
proof (cases "ev_code ev func (so_fuel (m_store m))")
  case (Pair res fu)
  show ?thesis
  proof (cases res)
    case (Inl e)
    then show ?thesis using Pair by (simp add: prepare_compiled_func_call_def handled_yields_def)
  next
    case (Inr code)
    note c = Pair [unfolded Inr]
    have "metered ev code" using code_map_okD [OF assms(1) c] assms(2) by (simp add: code_ok_def)
    then have charge: "charge_at (cfn_instrs code) 0" by (simp add: metered_def)
    have fuel: "unat (remaining fu) \<le> fuel_left (m_store m0)"
      using fuel_monotoneD(1) [OF assms(3) c] assms(4) by (simp add: fuel_left_def)
    let ?m = "m\<lparr>m_store := (m_store m)\<lparr>so_fuel := fu\<rparr>\<rparr>"
    have push: "handled_yields (enters m0) (let m = init_call_frame called m2 in
         (case cs_push called inst' (m_calls m) of
            (Inl e, cs) \<Rightarrow> traps e (with_calls cs m)
          | (Inr _, cs) \<Rightarrow> Done (Inr (with_calls cs m))))"
      if "m_store m2 = m_store ?m" "cf_instr_ptr called = ip_new (cfn_instrs code)" for called inst' m2
      using that charge fuel
      by (auto simp: Let_def handled_yields_simps handled_yields_def [of _ "Done _"] enters_def charge_next_def
          fuel_left_def ip_new_def split: prod.split sum.split)
    show ?thesis
      unfolding prepare_compiled_func_call_def c prod.case sum.case
    proof (rule handled_bind [OF dispatch_compiled_yields], clarify)
      fix r :: "error_kind + instr call_frame" and m1 :: "('a, 'b) machine"
      assume r: "m_store m1 = m_store ?m" "m_calls m1 = m_calls ?m"
        "case r of Inl _ \<Rightarrow> True | Inr called \<Rightarrow> cf_instr_ptr called = ip_new (cfn_instrs code)"
      have moved: "cf_instr_ptr called' = cf_instr_ptr called"
        if "merge_call_frames called sk = Done (called', x)" for called called' :: "instr call_frame" and sk x
        using that by (auto simp: merge_call_frames_def ex_then_Done_iff move_down_def
            split: prod.splits option.splits if_splits)
      show "handled_yields (enters m0)
        (case r of Inl e \<Rightarrow> Done (Inl (e, m1))
         | Inr called \<Rightarrow> ex_then
                  (case kind of
                     Nested \<Rightarrow> ex_then (update_instr_ptr_at 1 m1) (\<lambda>m. Done (called, inst, m))
                   | Tail \<Rightarrow>
                       ex_then (merge_call_frames called (m_stack m1)) (\<lambda>(called, caller_inst, sk).
                         Done (called, (case inst of Some i \<Rightarrow> Some i | None \<Rightarrow> caller_inst),
                               m1\<lparr>m_stack := sk\<rparr>)))
                  (\<lambda>(called, inst, m).
                     let m = init_call_frame called m in
                     (case cs_push called inst (m_calls m) of
                        (Inl e, cs) \<Rightarrow> traps e (with_calls cs m)
                      | (Inr _, cs) \<Rightarrow> Done (Inr (with_calls cs m)))))"
      proof (cases r)
        case (Inl e)
        then show ?thesis by (simp add: handled_yields_def)
      next
        case called: (Inr called)
        have "yields (\<lambda>(called', inst', m2). m_store m2 = m_store ?m \<and> cf_instr_ptr called' = ip_new (cfn_instrs code))
          (case kind of
             Nested \<Rightarrow> ex_then (update_instr_ptr_at 1 m1) (\<lambda>m. Done (called, inst, m))
           | Tail \<Rightarrow>
               ex_then (merge_call_frames called (m_stack m1)) (\<lambda>(called, caller_inst, sk).
                 Done (called, (case inst of Some i \<Rightarrow> Some i | None \<Rightarrow> caller_inst), m1\<lparr>m_stack := sk\<rparr>)))"
          using r called
          by (cases kind) (auto simp: yields_def ex_then_Done_iff update_instr_ptr_at_def next_instr_at_def Let_def
              dest!: moved split: option.splits)
        then have "handled_yields (enters m0) (ex_then
                  (case kind of
                     Nested \<Rightarrow> ex_then (update_instr_ptr_at 1 m1) (\<lambda>m. Done (called, inst, m))
                   | Tail \<Rightarrow>
                       ex_then (merge_call_frames called (m_stack m1)) (\<lambda>(called, caller_inst, sk).
                         Done (called, (case inst of Some i \<Rightarrow> Some i | None \<Rightarrow> caller_inst),
                               m1\<lparr>m_stack := sk\<rparr>)))
                  (\<lambda>(called, inst, m).
                     let m = init_call_frame called m in
                     (case cs_push called inst (m_calls m) of
                        (Inl e, cs) \<Rightarrow> traps e (with_calls cs m)
                      | (Inr _, cs) \<Rightarrow> Done (Inr (with_calls cs m)))))"
          by (rule handled_bind) (clarify, rule push)
        then show ?thesis unfolding called sum.case .
      qed
    qed
  qed
qed

section \<open>Calls of the host\<close>

text \<open>The frame on top goes on further ahead; the ones below are as they were.\<close>

definition moves :: "('h, 'l) machine \<Rightarrow> ('h, 'l) machine \<Rightarrow> bool" where
  "moves m m' \<longleftrightarrow> fuel_left (m_store m') \<le> fuel_left (m_store m)
     \<and> tl (cs_frames (m_calls m')) = tl (cs_frames (m_calls m))
     \<and> ip_code (m_ip m') = ip_code (m_ip m) \<and> ip_at (m_ip m) < ip_at (m_ip m')"

lemma moves_well: "moves m m' \<Longrightarrow> on_word m \<Longrightarrow> goes_well m m'"
  by (auto simp: moves_def on_word_def goes_well_def ahead_def words_ahead_def)

definition called_well :: "('h, 'l) machine \<Rightarrow> (error_kind + control) \<times> ('h, 'l) machine \<Rightarrow> bool" where
  "called_well m x \<longleftrightarrow> (case x of (Inr Go_On, m') \<Rightarrow> goes_well m m' | _ \<Rightarrow> True)"

lemma dispatch_host_yields:
  assumes "fuel_monotone ev"
  shows "yields (\<lambda>(_, _, st'). fuel_left st' \<le> fuel_left st) (dispatch_host_func ev hf inst vs st)"
  unfolding dispatch_host_func_def Let_def
  using fuel_monotoneD(2) [OF assms]
  by (auto intro!: yields_free split: option.split sum.split prod.split)

lemma update_instr_ptr_yields:
  "yields (\<lambda>m'. m_store m' = m_store m \<and> tl (cs_frames (m_calls m')) = tl (cs_frames (m_calls m))
      \<and> ip_code (m_ip m') = ip_code (m_ip m) \<and> ip_at (m_ip m') = ip_at (m_ip m) + 1)
    (update_instr_ptr_at 1 m)"
  by (auto simp: update_instr_ptr_at_def Let_def next_instr_at_def ip_offset_def cs_update_top_def
      split: option.split list.split)

lemma host_nested_yields:
  assumes "fuel_monotone ev" and "on_word m0" and "stays m0 m" and "ip_at (m_ip m0) \<le> ip_at (m_ip m)"
  shows "yields (called_well m0) (execute_host_func ev Nested has_params results hf m)"
proof (cases "cs_instance (m_calls m)")
  case (Some inst)
  show ?thesis
  proof (cases "cs_peek (m_calls m)")
    case caller: (Some caller)
    have same: "with_calls (m_calls m) m = m" by (simp add: with_calls_def)
    show ?thesis
      unfolding execute_host_func_def Let_def Some caller option.case call_kind.case option.map same prod.case
    proof (rule yields_free, clarify)
      fix r :: "trap_code + frame_params" and vs sp
      let ?m = "(with_values vs m)\<lparr>m_sp := sp\<rparr>"
      have m: "m_store ?m = m_store m" "m_calls ?m = m_calls m" "m_ip ?m = m_ip m" by simp_all
      have fuel: "fuel_left (m_store m) = fuel_left (m_store m0)" "m_calls m = m_calls m0"
        using assms(3) by (simp_all add: stays_def fuel_left_def)
      have last: "called_well m0 (Inr Go_On, mb)"
        if "m_ip mb = m_ip ma" "m_calls mb = m_calls ma" "fuel_left (m_store mb) \<le> fuel_left (m_store m)"
          "tl (cs_frames (m_calls ma)) = tl (cs_frames (m_calls m))"
          "ip_code (m_ip ma) = ip_code (m_ip m)" "ip_at (m_ip m) < ip_at (m_ip ma)" for ma mb
      proof -
        have "moves m0 mb" using that assms(3,4) fuel by (simp add: moves_def stays_def)
        then show ?thesis using moves_well [OF _ assms(2)] by (simp add: called_well_def)
      qed
      show "yields (called_well m0)
         (case r of
            Inl e \<Rightarrow> Done (Inl (EK_TrapCode e), ?m)
          | Inr buffer \<Rightarrow>
              ex_then (if has_params then copy_call_params buffer ?m else Done (buffer, ?m)) (\<lambda>(_, m).
              ex_then (if Nested = Nested then update_instr_ptr_at 1 m else Done m) (\<lambda>m.
              ex_then (dispatch_host_func ev hf (Some inst) (m_values m) (m_store m)) (\<lambda>(r, vs, st).
                case r of
                  Inl e \<Rightarrow>
                    Done (Inl (if cs_frames (m_calls ((with_values vs m)\<lparr>m_store := st\<rparr>)) = [] then e
                               else EK_ResumableHostTrap e), (with_values vs m)\<lparr>m_store := st\<rparr>)
                | Inr _ \<Rightarrow>
                    ex_then (vs_drop_return (max (unat (hfe_len_params hf)) (unat (hfe_len_results hf)))
                               (m_values ((with_values vs m)\<lparr>m_store := st, m_instance := inst\<rparr>))) (\<lambda>(returned, vs').
                    ex_then (take_results (unat (hfe_len_results hf)) returned) (\<lambda>vals.
                    ex_then (write_slots (m_sp ((with_values vs m)\<lparr>m_store := st, m_instance := inst\<rparr>))
                               (case results of Some r \<Rightarrow> r | None \<Rightarrow> cf_results caller) vals vs') (\<lambda>vs'.
                      Done (Inr Go_On, with_values vs' ((with_values vs m)\<lparr>m_store := st, m_instance := inst\<rparr>)))))))))"
      proof (cases r)
        case (Inl e)
        then show ?thesis by (simp add: called_well_def)
      next
        case (Inr buffer)
        show ?thesis
          unfolding Inr sum.case
        proof (rule yields_bind [OF call_params_yields], clarify)
          fix m1 :: "('a, 'b) machine"
          assume m1: "stays ?m m1" "m_store m1 = m_store ?m" "ip_at (m_ip ?m) \<le> ip_at (m_ip m1)"
          show "yields (called_well m0)
            (ex_then (if Nested = Nested then update_instr_ptr_at 1 m1 else Done m1) (\<lambda>m.
              ex_then (dispatch_host_func ev hf (Some inst) (m_values m) (m_store m)) (\<lambda>(r, vs, st).
                case r of
                  Inl e \<Rightarrow>
                    Done (Inl (if cs_frames (m_calls ((with_values vs m)\<lparr>m_store := st\<rparr>)) = [] then e
                               else EK_ResumableHostTrap e), (with_values vs m)\<lparr>m_store := st\<rparr>)
                | Inr _ \<Rightarrow>
                    ex_then (vs_drop_return (max (unat (hfe_len_params hf)) (unat (hfe_len_results hf)))
                               (m_values ((with_values vs m)\<lparr>m_store := st, m_instance := inst\<rparr>))) (\<lambda>(returned, vs').
                    ex_then (take_results (unat (hfe_len_results hf)) returned) (\<lambda>vals.
                    ex_then (write_slots (m_sp ((with_values vs m)\<lparr>m_store := st, m_instance := inst\<rparr>))
                               (case results of Some r \<Rightarrow> r | None \<Rightarrow> cf_results caller) vals vs') (\<lambda>vs'.
                      Done (Inr Go_On, with_values vs' ((with_values vs m)\<lparr>m_store := st, m_instance := inst\<rparr>))))))))"
            unfolding if_True simp_thms
          proof (rule yields_bind [OF update_instr_ptr_yields], rule yields_bind [OF dispatch_host_yields [OF assms(1)]],
              clarify)
            fix m2 :: "('a, 'b) machine" and r :: "error_kind + unit" and vs2 and st2 :: "('a, 'b) store"
            assume m2: "m_store m2 = m_store m1" "tl (cs_frames (m_calls m2)) = tl (cs_frames (m_calls m1))"
              "ip_code (m_ip m2) = ip_code (m_ip m1)" "ip_at (m_ip m2) = ip_at (m_ip m1) + 1"
              "fuel_left st2 \<le> fuel_left (m_store m2)"
            show "yields (called_well m0) (case r of
                  Inl e \<Rightarrow>
                    Done (Inl (if cs_frames (m_calls ((with_values vs2 m2)\<lparr>m_store := st2\<rparr>)) = [] then e
                               else EK_ResumableHostTrap e), (with_values vs2 m2)\<lparr>m_store := st2\<rparr>)
                | Inr _ \<Rightarrow>
                    ex_then (vs_drop_return (max (unat (hfe_len_params hf)) (unat (hfe_len_results hf)))
                               (m_values ((with_values vs2 m2)\<lparr>m_store := st2, m_instance := inst\<rparr>))) (\<lambda>(returned, vs').
                    ex_then (take_results (unat (hfe_len_results hf)) returned) (\<lambda>vals.
                    ex_then (write_slots (m_sp ((with_values vs2 m2)\<lparr>m_store := st2, m_instance := inst\<rparr>))
                               (case results of Some r \<Rightarrow> r | None \<Rightarrow> cf_results caller) vals vs') (\<lambda>vs'.
                      Done (Inr Go_On, with_values vs' ((with_values vs2 m2)\<lparr>m_store := st2, m_instance := inst\<rparr>))))))"
              using m1 m2 m
              by (cases r) (auto intro!: yields_free last [where ma = m2] simp: stays_def called_well_def [of _ "(Inl _, _)"])
          qed
        qed
      qed
    qed
  qed (simp add: execute_host_func_def Some Let_def)
qed (simp add: execute_host_func_def Let_def)

lemma yields_sum:
  "(\<And>e. yields P (f e)) \<Longrightarrow> (\<And>x. yields P (g x)) \<Longrightarrow> yields P (case r of Inl e \<Rightarrow> f e | Inr x \<Rightarrow> g x)"
  by (cases r) simp_all

lemma finish_host_tail_yields:
  "yields (\<lambda>(c, m'). c = Go_On \<longrightarrow> (\<exists>g gs. cs_frames (m_calls m) = g # gs \<and> m_calls m' = m_calls m
      \<and> m_ip m' = cf_instr_ptr g \<and> m_store m' = m_store m))
     (finish_host_tail caller popped max_inout n results m)"
proof (cases "cs_frames (m_calls m)")
  case Nil
  then show ?thesis
    unfolding finish_host_tail_def cs_peek_def Let_def
    by (auto intro!: yields_free)
next
  case (Cons g gs)
  then show ?thesis
    unfolding finish_host_tail_def cs_peek_def Let_def
    by (auto intro!: yields_free)
qed

lemma host_tail_yields:
  assumes "fuel_monotone ev" and "on_word m0" and "stays m0 m"
  shows "yields (called_well m0) (execute_host_func ev Tail has_params results hf m)"
proof (cases "cs_instance (m_calls m)")
  case (Some inst)
  show ?thesis
  proof (cases "cs_pop (m_calls m)")
    case (Pair r calls)
    show ?thesis
    proof (cases r)
      case None
      then show ?thesis by (simp add: execute_host_func_def Some Let_def Pair)
    next
      case popped: (Some x)
      obtain caller popped where x: "cs_pop (m_calls m) = (Some (caller, popped), calls)"
        using Pair popped by (cases x) simp
      have fr: "cs_frames (m_calls m0) = caller # cs_frames calls"
        using cs_pop_frames [OF x] assms(3) by (simp add: stays_def)
      have fuel: "fuel_left (m_store m) = fuel_left (m_store m0)" using assms(3) by (simp add: stays_def fuel_left_def)
      have last: "called_well m0 (Inr c, mb)"
        if "c = Go_On \<longrightarrow> (\<exists>g gs. cs_frames (m_calls ma) = g # gs \<and> m_calls mb = m_calls ma
            \<and> m_ip mb = cf_instr_ptr g \<and> m_store mb = m_store ma)"
          "m_calls ma = calls" "fuel_left (m_store ma) \<le> fuel_left (m_store m)" for c ma mb
      proof (cases c)
        case Go_On
        then have "resumes m0 mb" using that fr fuel by (auto simp: resumes_def)
        then show ?thesis using Go_On resumes_well [OF _ assms(2)] by (simp add: called_well_def)
      qed (simp add: called_well_def)
      have kinds: "(Tail = Nested) = False" by simp
      show ?thesis
        unfolding execute_host_func_def Let_def Some x option.case call_kind.case prod.case kinds if_False
          ex_then.simps
        apply (rule yields_free, clarify)
        apply (rule yields_sum)
         apply (simp add: called_well_def)
        apply (rule yields_bind [OF call_params_yields], clarify)
        apply (rule yields_bind [OF dispatch_host_yields [OF assms(1)]], clarify)
        apply (rule yields_sum)
         apply (simp add: called_well_def)
        apply (rule yields_bind [OF finish_host_tail_yields], clarify)
        apply (simp only: yields_simps prod.case)
        apply (rule last, assumption)
         apply (simp add: stays_def)
        apply (simp add: stays_def fuel_left_def)
        done
    qed
  qed
qed (simp add: execute_host_func_def Let_def)

section \<open>Every call\<close>

lemma imported_yields:
  assumes "code_map_ok ev cx" and "cx_promise cx = metered ev" and "fuel_monotone ev"
    and "on_word m0" and "stays m0 m" and "m_store m = m_store m0" and "ip_at (m_ip m0) \<le> ip_at (m_ip m)"
  shows "yields (called_well m0) (execute_call_imported_impl ev kind has_params results func m)"
  unfolding execute_call_imported_impl_def
proof (rule yields_free)
  fix f
  show "yields (called_well m0) (case f of
       WasmFunc w \<Rightarrow>
         ex_then (case results of Some r \<Rightarrow> Done r | None \<Rightarrow> caller_results m) (\<lambda>results.
         ex_then (prepare_compiled_func_call ev kind has_params results (wfe_body w) (Some (wfe_instance w)) m)
           (\<lambda>r. case r of
              Inl (e, m) \<Rightarrow> Done (Inl e, m)
            | Inr m \<Rightarrow> Done (Inr Go_On, m\<lparr>m_instance := wfe_instance w\<rparr>)))
     | HostFunc h \<Rightarrow> execute_host_func ev kind has_params results h m)"
  proof (cases f)
    case (WasmFunc w)
    have inst: "goes_well m0 (m'\<lparr>m_instance := i\<rparr>)" if "enters m0 m'" for m' i
      using enters_well [OF that] by (simp add: goes_well_def ahead_def charge_next_def)
    show ?thesis
      unfolding WasmFunc func_entity.case
      by (rule yields_free, rule yields_bind [OF prepare_yields [OF assms(1-3,6), unfolded handled_yields_def]])
        (auto simp: called_well_def inst split: sum.splits)
  next
    case (HostFunc h)
    then show ?thesis
      using host_nested_yields [OF assms(3,4,5,7)] host_tail_yields [OF assms(3,4,5)] by (cases kind) simp_all
  qed
qed

lemma indirect_yields:
  assumes "code_map_ok ev cx" and "cx_promise cx = metered ev" and "fuel_monotone ev"
    and "on_word m0" and "stays m0 m" and "m_store m = m_store m0" and "ip_at (m_ip m0) \<le> ip_at (m_ip m)"
  shows "yields (called_well m0) (execute_call_indirect_impl ev kind has_params results ty i table m)"
  unfolding execute_call_indirect_impl_def
  by (auto intro!: yields_free imported_yields [OF assms] simp: called_well_def split: option.split)

lemma pull_yields:
  "yields (\<lambda>(_, _, m'). stays m m' \<and> m_store m' = m_store m \<and> ip_at (m_ip m) \<le> ip_at (m_ip m'))
     (pull_call_indirect_params m)"
  "yields (\<lambda>(_, _, m'). stays m m' \<and> m_store m' = m_store m \<and> ip_at (m_ip m) \<le> ip_at (m_ip m'))
     (pull_call_indirect_params_imm16 m)"
  unfolding pull_call_indirect_params_def pull_call_indirect_params_imm16_def Let_def
  by (auto intro!: yields_free split: option.split param_word.split
      simp: stays_def next_instr_def next_instr_at_def ip_offset_def)

lemma call_yields:
  assumes "code_map_ok ev cx" and "cx_promise cx = metered ev" and "fuel_monotone ev" and "on_word m"
  shows "yields (called_well m) (execute_call ev kind results target has_params m)"
proof (cases target)
  case (Internal func)
  show ?thesis
    unfolding Internal execute_call.simps
    by (rule yields_free, rule yields_bind [OF prepare_yields [OF assms(1-3) refl, unfolded handled_yields_def]])
      (auto simp: called_well_def enters_well split: sum.splits)
next
  case (Imported i)
  then show ?thesis
    by (auto intro!: yields_free imported_yields [OF assms] stays_refl)
next
  case (Indirect ty)
  show ?thesis
    unfolding Indirect execute_call.simps
    by (rule yields_bind [OF pull_yields(1)], clarify, rule indirect_yields [OF assms]) simp_all
next
  case (IndirectImm16 ty)
  show ?thesis
    unfolding IndirectImm16 execute_call.simps
    by (rule yields_bind [OF pull_yields(2)], clarify, rule indirect_yields [OF assms]) simp_all
qed

section \<open>Every step, and the whole run\<close>

lemma of_called_well: "yields (called_well m) r \<Longrightarrow> of_called r = Done (Goes_On m') \<Longrightarrow> goes_well m m'"
  by (auto simp: of_called_def ex_then_Done_iff yields_def called_well_def of_control_def
      split: sum.splits control.splits)

lemma of_machine_well: "yields (goes_well m) r \<Longrightarrow> of_machine r = Done (Goes_On m') \<Longrightarrow> goes_well m m'"
  by (auto simp: of_machine_def ex_then_Done_iff yields_def)

lemma of_handled_well:
  "handled_yields (advances m) r \<Longrightarrow> on_word m \<Longrightarrow> of_handled r = Done (Goes_On m') \<Longrightarrow> goes_well m m'"
  by (auto simp: of_handled_def ex_then_Done_iff handled_yields_def yields_def intro: advances_well
      split: sum.splits)

lemma instr_well:
  assumes "running ev cx K cf sh k b 0 m" and "on_word m" and "code_map_ok ev cx"
    and "cx_promise cx = metered ev" and "fuel_monotone ev"
    and "instr_ok (context_of ev cx sh k cf) (ip_at (m_ip m)) i"
    and "cfn_instrs cf ! nat (ip_at (m_ip m)) = i" and "\<forall>n. i \<noteq> IConsumeFuel n"
    and "execute_instr ev i m = Done (Goes_On m')"
  shows "goes_well m m'"
proof (cases i)
  case (IReturn r)
  have "yields (control_yields m) (execute_returns r m)" by (rule returns_yields)
  then have "resumes m m'" using assms(9) IReturn
    by (auto simp: ex_then_Done_iff yields_def control_yields_def of_control_def split: control.splits)
  then show ?thesis by (rule resumes_well [OF _ assms(2)])
next
  case (IBranch br)
  have "metered ev cf" using assms(1,4) by (simp add: running_def context_ok_def code_ok_def)
  then have "yields (goes_well m) (execute_branches ev br m)"
    by (rule branches_yields [OF assms(1) _ assms(2)])
      (use assms(6,7) IBranch in \<open>simp_all add: context_of_def regs_of_def\<close>)
  then show ?thesis using of_machine_well assms(9) IBranch by auto
next
  case (ICopy c)
  have "yields (goes_well m) (execute_copies c m)"
    by (rule yields_mono [OF copies_yields]) (rule advances_well [OF _ assms(2)])
  then show ?thesis using of_machine_well assms(9) ICopy by auto
next
  case (IGlobal g)
  have "yields (goes_well m) (execute_globals ev g m)"
    by (rule yields_mono [OF globals_yields]) (rule advances_well [OF _ assms(2)])
  then show ?thesis using of_machine_well assms(9) IGlobal by auto
next
  case (ICall r target hp)
  then show ?thesis using of_called_well [OF call_yields [OF assms(3,4,5,2)]] assms(9) by auto
next
  case (IReturnCall target hp)
  then show ?thesis using of_called_well [OF call_yields [OF assms(3,4,5,2)]] assms(9) by auto
next
  case (IMemory mi)
  then show ?thesis using of_handled_well [OF memory_yields assms(2)] assms(9) by auto
next
  case (IBulk bi)
  have "handled_yields (goes_well m) (execute_bulk ev bi m)" by (rule bulk_well [OF assms(2)])
  then show ?thesis using assms(9) IBulk
    by (auto simp: of_handled_def ex_then_Done_iff handled_yields_def yields_def split: sum.splits)
next
  case (ICompute c)
  then show ?thesis using of_handled_well [OF compute_yields assms(2)] assms(9) by auto
qed (use assms(8,9) in auto)

lemma step_decreases:
  assumes "machine_ok ev cx K m" and "code_map_ok ev cx" and "cx_promise cx = metered ev"
    and "fuel_monotone ev" and "step ev m = Done (Goes_On m')"
  shows "(left_and_ahead m', left_and_ahead m) \<in> less_than <*lex*> less_than"
proof -
  obtain cf sh k b where r: "running ev cx K cf sh k b 0 m" and s: "start (cfn_instrs cf) (ip_at (m_ip m))"
    using assms(1) by (auto simp: machine_ok_def)
  let ?i = "cfn_instrs cf ! nat (ip_at (m_ip m))"
  have c: "ip_code (m_ip m) = cfn_instrs cf" using running_locals [OF r] by (simp add: locals_ok_def)
  have on: "on_word m" using s c by (simp add: on_word_def start_def)
  have code: "code_ok ev cx sh k cf" using r by (simp add: running_def context_ok_def)
  have "ip_get (m_ip m) = Done ?i" using s c by (simp add: ip_get_def start_def)
  then have ex: "execute_instr ev ?i m = Done (Goes_On m')" using assms(5) by (simp add: step_def)
  show ?thesis
  proof (cases "\<exists>n. ?i = IConsumeFuel n")
    case True
    then obtain n where n: "?i = IConsumeFuel n" ..
    have "metered ev cf" using code assms(3) by (simp add: code_ok_def)
    then have "n \<noteq> 0" using metered_word [of ev cf "ip_at (m_ip m)"] on c n by (simp add: on_word_def)
    moreover have "n \<le> remaining (so_fuel (m_store m))"
        "remaining (so_fuel (m_store m')) = remaining (so_fuel (m_store m)) - n"
      using ex n by (auto simp: execute_consume_fuel_def consume_fuel_unchecked_def Let_def next_instr_def
          split: if_splits)
    ultimately have "fuel_left (m_store m') < fuel_left (m_store m)"
      by (auto simp: fuel_left_def unat_sub word_le_nat_alt unat_gt_0 [symmetric])
    then show ?thesis by (auto simp: left_and_ahead_def)
  next
    case False
    have "goes_well m m'"
      by (rule instr_well [OF r on assms(2-4) code_ok_at [OF code s] refl _ ex]) (use False in auto)
    moreover have "\<not> charge_next m"
      using False c on by (auto simp: charge_next_def charge_at_def on_word_def split: instr.splits)
    ultimately show ?thesis by (auto simp: goes_well_def left_and_ahead_def)
  qed
qed

lemma loop_terminates:
  assumes "machine_ok ev cx K m" and "code_map_ok ev cx" and "host_ok ev cx"
    and "cx_promise cx = metered ev" and "fuel_monotone ev"
  shows "execute_loop ev m \<noteq> None"
  using assms(1)
proof (induction "left_and_ahead m" arbitrary: m rule: wf_induct_rule [OF wf_lex_prod [OF wf_less_than wf_less_than]])
  case (1 m)
  note s = step_safe [OF 1(2) assms(2,3)]
  show ?case
  proof (cases "step ev m")
    case (Done x)
    show ?thesis
    proof (cases x)
      case (Goes_On m')
      have "machine_ok ev cx K m'" using s Done Goes_On by simp
      moreover have "(left_and_ahead m', left_and_ahead m) \<in> less_than <*lex*> less_than"
        by (rule step_decreases [OF 1(2) assms(2,4,5)]) (use Done Goes_On in simp)
      ultimately have "execute_loop ev m' \<noteq> None" using 1(1) by blast
      then show ?thesis using Done Goes_On by (subst execute_loop.simps) simp
    qed (use Done in \<open>simp_all add: execute_loop.simps\<close>)
  qed (simp_all add: execute_loop.simps)
qed

end
