(* ===== verification/Tail_Calls.thy ===== *)
theory Tail_Calls
  imports Machine_Termination
begin

text \<open>
  Where the callee of a tail call goes: for a compiled function, called directly, through an import or
  through a table, its frame and its cells are where those of the caller were; for a function of the
  host the frame of the caller is gone when the call is over.
\<close>

section \<open>The callee\<close>

text \<open>What the target of a call names: the body of a compiled function, or a function of the host.\<close>

definition entity_callee :: "func_entity \<Rightarrow> nat + host_func_entity" where
  "entity_callee e = (case e of WasmFunc w \<Rightarrow> Inl (wfe_body w) | HostFunc h \<Rightarrow> Inr h)"

definition func_callee :: "handle \<Rightarrow> ('h, 'l) machine \<Rightarrow> (nat + host_func_entity) exec" where
  "func_callee func m = ex_then (ex_of_outcome (resolve_func (m_store m) func)) (\<lambda>e. Done (entity_callee e))"

definition table_callee ::
  "('h, 'l) engine_env \<Rightarrow> u64 \<Rightarrow> nat \<Rightarrow> ('h, 'l) machine \<Rightarrow> (nat + host_func_entity) exec" where
  "table_callee ev i table m =
     ex_then (get_entity ie_tables table m) (\<lambda>table.
     ex_then (ex_of_outcome (resolve_table (m_store m) table)) (\<lambda>tab.
       case Option.bind (table_get_untyped (ev_target ev) i tab) (ref_of_untyped (ev_layout ev)) of
         Some func \<Rightarrow> func_callee func m
       | None \<Rightarrow> Undefined))"

fun callee ::
  "('h, 'l) engine_env \<Rightarrow> call_target \<Rightarrow> ('h, 'l) machine \<Rightarrow> (nat + host_func_entity) exec" where
  "callee ev (Internal func) m = Done (Inl func)"
| "callee ev (Imported i) m = ex_then (get_entity ie_funcs i m) (\<lambda>func. func_callee func m)"
| "callee ev (Indirect ty) m =
     ex_then (pull_call_indirect_params m) (\<lambda>(i, table, _). table_callee ev i table m)"
| "callee ev (IndirectImm16 ty) m =
     ex_then (pull_call_indirect_params_imm16 m) (\<lambda>(i, table, _). table_callee ev i table m)"

text \<open>The machine after a tail call from a frame \<open>f\<close> on top of \<open>fs\<close>.\<close>

definition takes_place ::
  "('h, 'l) engine_env \<Rightarrow> instr call_frame \<Rightarrow> instr call_frame list \<Rightarrow> fuel \<Rightarrow> nat + host_func_entity \<Rightarrow>
   control \<times> ('h, 'l) machine \<Rightarrow> bool" where
  "takes_place ev f fs fu c x \<longleftrightarrow> (case x of (cf, m') \<Rightarrow> (case c of
     Inl func \<Rightarrow> cf = Go_On \<and> (\<exists>g code fu'. ev_code ev func fu = (Inr code, fu')
       \<and> cs_frames (m_calls m') = g # fs \<and> cf_frame g = cf_frame f
       \<and> vs_len (m_values m') = cf_frame f + cfn_len_stack_slots code)
   | Inr h \<Rightarrow> cs_frames (m_calls m') = fs \<and> vs_len (m_values m') = cf_frame f \<and> (cf = Break) = (fs = [])))"

section \<open>The cells of the callee\<close>

lemma sum_case_Done:
  "(case x of Inl e \<Rightarrow> a e | Inr y \<Rightarrow> b y) = Done z \<longleftrightarrow>
     (\<exists>e. x = Inl e \<and> a e = Done z) \<or> (\<exists>y. x = Inr y \<and> b y = Done z)"
  by (cases x) auto

lemma ex_of_outcome_Done: "ex_of_outcome r = Done x \<longleftrightarrow> r = Ok x"
  by (cases r) simp_all

lemma option_case_Done:
  "(case x of None \<Rightarrow> a | Some y \<Rightarrow> b y) = Done z \<longleftrightarrow>
     (x = None \<and> a = Done z) \<or> (\<exists>y. x = Some y \<and> b y = Done z)"
  by (cases x) auto

lemmas done_iffs = ex_then_Done_iff sum_case_Done ex_of_outcome_Done Let_def

text \<open>Parameters and zeroes are written into cells there are.\<close>

lemma init_next_len: "init_next v fr vs = Done (fr', vs') \<Longrightarrow> vs_len vs' = vs_len vs"
  by (auto simp: init_next_def vs_len_def split: if_splits)

lemma init_zeroes_upto_len: "init_zeroes_upto n fr vs = Done vs' \<Longrightarrow> vs_len vs' = vs_len vs"
  by (induction n fr vs rule: init_zeroes_upto.induct) (auto simp: ex_then_Done_iff dest: init_next_len)

lemma init_zeroes_len: "init_zeroes fr vs = Done vs' \<Longrightarrow> vs_len vs' = vs_len vs"
  by (auto simp: init_zeroes_def dest: init_zeroes_upto_len split: if_splits)

lemma copy_regs_len:
  "copy_regs ss fr m = Done (fr', m') \<Longrightarrow> m_calls m' = m_calls m \<and> vs_len (m_values m') = vs_len (m_values m)"
proof (induction ss fr m rule: copy_regs.induct)
  case (2 s ss fr m)
  then show ?case by (fastforce simp: ex_then_Done_iff dest: init_next_len)
qed simp

lemma call_params_len:
  "(if has_params then copy_call_params fr m else Done (fr, m)) = Done (fr', m') \<Longrightarrow>
     m_calls m' = m_calls m \<and> vs_len (m_values m') = vs_len (m_values m)"
  by (auto simp: copy_call_params_def Let_def ex_then_Done_iff next_instr_def next_instr_at_def
      dest!: copy_regs_len split: if_splits)

lemma write_consts_len: "from + n \<le> vs_len vs \<Longrightarrow> vs_len (write_consts from n consts vs) = vs_len vs"
  by (auto simp: write_consts_def vs_len_def)

lemma extend_by_len:
  "extend_by t grow n f (vs, s) = Done (Inr fr, vs', s') \<Longrightarrow> vs_len vs' = vs_len vs + n"
  by (auto simp: extend_by_def vs_reserve_def vs_len_def Let_def ex_then_Done_iff split: if_splits)

lemma alloc_call_frame_len:
  assumes "alloc_call_frame t grow func f (vs, s) = Done (Inr (fr, offsets), vs', s')"
  shows "off_frame offsets = vs_len vs \<and> vs_len vs' = vs_len vs + cfn_len_stack_slots func"
proof -
  obtain spare vs1 where e: "extend_by t grow (cfn_len_stack_slots func) f (vs, s) = Done (Inr spare, vs1, s')"
      "offsets = \<lparr>off_base = vs_len vs + length (cfn_consts func), off_frame = vs_len vs\<rparr>"
      "vs' = write_consts (vs_len vs) (cfn_len_stack_slots func) (cfn_consts func) vs1"
    using assms by (auto simp: alloc_call_frame_def done_iffs)
  show ?thesis using e extend_by_len [OF e(1)] write_consts_len [of "vs_len vs" _ vs1] by simp
qed

lemma dispatch_compiled_len:
  assumes "dispatch_compiled_func ev has_params results func m = Done (Inr called, m')"
  shows "m_calls m' = m_calls m \<and> cf_frame called = vs_len (m_values m)
    \<and> vs_len (m_values m') = vs_len (m_values m) + cfn_len_stack_slots func"
proof -
  obtain caller where "cs_peek (m_calls m) = Some caller"
    using assms by (cases "cs_peek (m_calls m)") (simp_all add: dispatch_compiled_func_def)
  then obtain fr offsets vs sp fr' m1 vs' where
      a: "alloc_call_frame (ev_target ev) (ev_grow ev) func (renew_sp caller) (m_values m, m_sp m)
         = Done (Inr (fr, offsets), vs, sp)"
    and p: "(if has_params then copy_call_params fr ((with_values vs m)\<lparr>m_sp := sp\<rparr>)
         else Done (fr, (with_values vs m)\<lparr>m_sp := sp\<rparr>)) = Done (fr', m1)"
    and z: "init_zeroes fr' (m_values m1) = Done vs'"
    and r: "called = call_frame_new (ip_new (cfn_instrs func)) offsets results" "m' = with_values vs' m1"
    using assms by (auto simp: dispatch_compiled_func_def done_iffs)
  show ?thesis
    using alloc_call_frame_len [OF a] call_params_len [OF p] init_zeroes_len [OF z] r
    by (simp add: call_frame_new_def)
qed

lemma merge_call_frames_place:
  assumes "merge_call_frames called sk = Done (called', inst, sk')" and "cs_frames (sk_calls sk) = f # fs"
  shows "cs_frames (sk_calls sk') = fs \<and> cf_frame called' = cf_frame f \<and> cf_frame f \<le> cf_frame called
    \<and> vs_len (sk_values sk') + cf_frame called = vs_len (sk_values sk) + cf_frame f"
proof -
  obtain popped calls n vs where p: "cs_pop (sk_calls sk) = (Some (f, popped), calls)" "cs_frames calls = fs"
      and d: "vs_drain (cf_frame f) (cf_frame called) (sk_values sk) = Done (n, vs)"
      and c: "move_down n called = Done called'" and sk': "sk' = \<lparr>sk_calls = calls, sk_values = vs\<rparr>"
    using assms by (auto simp: merge_call_frames_def ex_then_Done_iff cs_pop_def split: prod.splits)
  have n: "cf_frame f \<le> cf_frame called" "cf_frame called \<le> vs_len (sk_values sk)" "n = cf_frame called - cf_frame f"
      "vs_len vs = cf_frame f + (vs_len (sk_values sk) - cf_frame called)"
    using d by (auto simp: vs_drain_def vs_len_def split: if_splits)
  have "cf_frame called' = cf_frame called - n" using c by (auto simp: move_down_def split: if_splits)
  then show ?thesis using p(2) n sk' by simp
qed

lemma cs_push_top:
  "cs_push called inst cs = (Inr u, cs') \<Longrightarrow>
     \<exists>g. cs_frames cs' = g # cs_frames cs \<and> cf_frame g = cf_frame called"
  by (auto simp: cs_push_def push_instance_def Let_def split: if_splits option.splits prod.splits)

section \<open>Tail calls of compiled functions\<close>

lemma prepare_tail_place:
  assumes "prepare_compiled_func_call ev Tail has_params results func inst m = Done (Inr m')"
    and "cs_frames (m_calls m) = f # fs"
  shows "takes_place ev f fs (so_fuel (m_store m)) (Inl func) (Go_On, m')"
proof -
  obtain code fu where code: "ev_code ev func (so_fuel (m_store m)) = (Inr code, fu)"
    using assms(1) by (cases "ev_code ev func (so_fuel (m_store m))", cases "fst (ev_code ev func (so_fuel (m_store m)))")
      (auto simp: prepare_compiled_func_call_def)
  let ?m = "m\<lparr>m_store := (m_store m)\<lparr>so_fuel := fu\<rparr>\<rparr>"
  obtain called m1 where d: "dispatch_compiled_func ev has_params results code ?m = Done (Inr called, m1)"
    using assms(1) code by (cases "dispatch_compiled_func ev has_params results code ?m")
      (auto simp: prepare_compiled_func_call_def split: sum.splits)
  obtain called' caller_inst sk where g: "merge_call_frames called (m_stack m1) = Done (called', caller_inst, sk)"
    using assms(1) code d by (cases "merge_call_frames called (m_stack m1)")
      (auto simp: prepare_compiled_func_call_def)
  obtain inst' cs where p: "cs_push called' inst' (sk_calls sk) = (Inr (), cs)"
      "m' = with_calls cs (init_call_frame called' (m1\<lparr>m_stack := sk\<rparr>))"
    using assms(1) code d g
    by (cases "cs_push called' (case inst of Some i \<Rightarrow> Some i | None \<Rightarrow> caller_inst) (sk_calls sk)")
      (auto simp: prepare_compiled_func_call_def Let_def traps_def init_call_frame_def split: sum.splits)
  have D: "m_calls m1 = m_calls m" "cf_frame called = vs_len (m_values m)"
      "vs_len (m_values m1) = vs_len (m_values m) + cfn_len_stack_slots code"
    using dispatch_compiled_len [OF d] by simp_all
  have "cs_frames (sk_calls (m_stack m1)) = f # fs" using D(1) assms(2) by simp
  note M = merge_call_frames_place [OF g this]
  obtain g' where "cs_frames cs = g' # fs" "cf_frame g' = cf_frame f"
    using cs_push_top [OF p(1)] M by auto
  moreover have "vs_len (sk_values sk) = cf_frame f + cfn_len_stack_slots code" using M D by simp
  ultimately show ?thesis using code p(2) by (simp add: takes_place_def)
qed

section \<open>Tail calls of the host\<close>

lemma slots_set_len: "slots_set sp r v vs = Done vs' \<Longrightarrow> vs_len vs' = vs_len vs"
  by (auto simp: slots_set_def vs_len_def split: option.splits)

lemma finish_host_tail_place:
  assumes "finish_host_tail caller popped n len_results results m = Done (cf, m')"
  shows "cs_frames (m_calls m') = cs_frames (m_calls m) \<and> vs_len (m_values m') = cf_frame caller
    \<and> (cf = Break) = (cs_frames (m_calls m) = [])"
proof -
  obtain vs vs' where t: "vs_truncate (cf_frame caller) vs = Done vs'"
      and m': "m' = (case cs_peek (m_calls (restore_instance popped (with_values vs' m))) of
          Some f \<Rightarrow> init_call_frame f (restore_instance popped (with_values vs' m))
        | None \<Rightarrow> restore_instance popped (with_values vs' m))"
      and cf: "cf = (case cs_peek (m_calls m) of Some f \<Rightarrow> Go_On | None \<Rightarrow> Break)"
    using assms
    by (auto simp: finish_host_tail_def Let_def ex_then_Done_iff split: option.splits)
  have "vs_len vs' = cf_frame caller" using t by (auto simp: vs_truncate_def vs_len_def split: if_splits)
  then show ?thesis using m' cf
    by (auto simp: cs_peek_def split: list.splits)
qed

lemma host_tail_place:
  assumes "execute_host_func ev Tail has_params results h m = Done (Inr cf, m')"
    and "cs_frames (m_calls m) = f # fs"
  shows "takes_place ev f fs fu (Inr h) (cf, m')"
proof -
  let ?n = "max (unat (hfe_len_params h)) (unat (hfe_len_results h))"
  obtain popped calls where p: "cs_pop (m_calls m) = (Some (f, popped), calls)" "cs_frames calls = fs"
    using assms(2) by (cases "if cf_changed_instance f then hv_pop (cs_instances (m_calls m)) else (None, cs_instances (m_calls m))")
      (auto simp: cs_pop_def)
  obtain inst where i: "cs_instance (m_calls m) = Some inst"
    using assms(1) by (cases "cs_instance (m_calls m)") (simp_all add: execute_host_func_def)
  let ?m = "with_calls calls m"
  obtain fr vs sp fr' m1 vs1 st r where
      c: "(if has_params then copy_call_params fr ((with_values vs ?m)\<lparr>m_sp := sp\<rparr>)
         else Done (fr, (with_values vs ?m)\<lparr>m_sp := sp\<rparr>)) = Done (fr', m1)"
    and t: "finish_host_tail f popped ?n (unat (hfe_len_results h)) r
         (((with_values vs1 m1)\<lparr>m_store := st\<rparr>)\<lparr>m_instance := inst\<rparr>) = Done (cf, m')"
    using assms(1) p(1) i
    by (auto simp: execute_host_func_def done_iffs)
  have "cs_frames (m_calls m1) = fs" using call_params_len [OF c] p(2) by simp
  then show ?thesis using finish_host_tail_place [OF t] by (simp add: takes_place_def)
qed

section \<open>Every tail call\<close>

lemma imported_tail_place:
  assumes "execute_call_imported_impl ev Tail has_params None func m = Done (Inr cf, m')"
    and "cs_frames (m_calls m) = f # fs"
  shows "\<exists>c. func_callee func m = Done c \<and> takes_place ev f fs (so_fuel (m_store m)) c (cf, m')"
proof (cases "resolve_func (m_store m) func")
  case (Ok e)
  show ?thesis
  proof (cases e)
    case (WasmFunc w)
    then obtain res m1 where
        "prepare_compiled_func_call ev Tail has_params res (wfe_body w) (Some (wfe_instance w)) m = Done (Inr m1)"
        "cf = Go_On" "m' = m1\<lparr>m_instance := wfe_instance w\<rparr>"
      using assms(1) Ok by (auto simp: execute_call_imported_impl_def done_iffs)
    then have "takes_place ev f fs (so_fuel (m_store m)) (Inl (wfe_body w)) (cf, m')"
      using prepare_tail_place [OF _ assms(2)] by (fastforce simp: takes_place_def)
    then show ?thesis using Ok WasmFunc by (simp add: func_callee_def entity_callee_def)
  next
    case (HostFunc h)
    then have "execute_host_func ev Tail has_params None h m = Done (Inr cf, m')"
      using assms(1) Ok by (simp add: execute_call_imported_impl_def)
    from host_tail_place [OF this assms(2)] show ?thesis
      using Ok HostFunc by (auto simp: func_callee_def entity_callee_def)
  qed
qed (use assms(1) in \<open>simp_all add: execute_call_imported_impl_def\<close>)

lemma indirect_tail_place:
  assumes "execute_call_indirect_impl ev Tail has_params None ty i table m = Done (Inr cf, m')"
    and "cs_frames (m_calls m) = f # fs"
  shows "\<exists>c. table_callee ev i table m = Done c \<and> takes_place ev f fs (so_fuel (m_store m)) c (cf, m')"
proof -
  obtain h tab u func where t: "get_entity ie_tables table m = Done h" "resolve_table (m_store m) h = Ok tab"
      "table_get_untyped (ev_target ev) i tab = Some u" "ref_of_untyped (ev_layout ev) u = Some func"
    and c: "execute_call_imported_impl ev Tail has_params None func m = Done (Inr cf, m')"
    using assms(1)
    by (auto simp: execute_call_indirect_impl_def done_iffs option_case_Done split: if_splits)
  from imported_tail_place [OF c assms(2)] show ?thesis using t by (simp add: table_callee_def)
qed

lemma pull_params_next:
  assumes "pull_call_indirect_params m = Done (i, table, m') \<or> pull_call_indirect_params_imm16 m = Done (i, table, m')"
  shows "m' = next_instr m"
proof -
  obtain p where "param_at 0 (next_instr m) = Done (Some p)"
    using assms
    by (auto simp: pull_call_indirect_params_def pull_call_indirect_params_imm16_def done_iffs option_case_Done)
  then show ?thesis using assms
    by (cases p) (auto simp: pull_call_indirect_params_def pull_call_indirect_params_imm16_def done_iffs)
qed

lemma indirect_after_pull:
  assumes "execute_call_indirect_impl ev Tail has_params None ty i table (next_instr m) = Done (Inr cf, m')"
    and "cs_frames (m_calls m) = f # fs"
  shows "\<exists>c. table_callee ev i table m = Done c \<and> takes_place ev f fs (so_fuel (m_store m)) c (cf, m')"
proof -
  have same: "m_stack (next_instr m) = m_stack m" "m_store (next_instr m) = m_store m"
    by (simp_all add: next_instr_def next_instr_at_def)
  have "func_callee func (next_instr m) = func_callee func m" for func by (simp add: func_callee_def same)
  moreover have "get_entity ie_tables table (next_instr m) = get_entity ie_tables table m"
    by (simp add: get_entity_def cached_instance_def next_instr_def next_instr_at_def)
  ultimately have "table_callee ev i table (next_instr m) = table_callee ev i table m"
    by (simp add: table_callee_def same cong: option.case_cong)
  then show ?thesis using indirect_tail_place [OF assms(1)] assms(2) by (simp add: same)
qed

lemma tail_call_place:
  assumes "execute_call ev Tail None target has_params m = Done (Inr cf, m')"
    and "cs_frames (m_calls m) = f # fs"
  shows "\<exists>c. callee ev target m = Done c \<and> takes_place ev f fs (so_fuel (m_store m)) c (cf, m')"
proof (cases target)
  case (Internal func)
  then show ?thesis using assms(1) prepare_tail_place [OF _ assms(2)]
    by (auto simp: done_iffs)
next
  case (Imported i)
  then obtain func where "get_entity ie_funcs i m = Done func"
      "execute_call_imported_impl ev Tail has_params None func m = Done (Inr cf, m')"
    using assms(1) by (auto simp: ex_then_Done_iff)
  then show ?thesis using imported_tail_place [OF _ assms(2)] Imported by auto
next
  case (Indirect ty)
  then obtain i table m1 where p: "pull_call_indirect_params m = Done (i, table, m1)"
      "execute_call_indirect_impl ev Tail has_params None ty i table m1 = Done (Inr cf, m')"
    using assms(1) by (auto simp: ex_then_Done_iff)
  have "m1 = next_instr m" using pull_params_next p(1) by blast
  with p(2) indirect_after_pull [OF _ assms(2)] show ?thesis using p(1) Indirect by simp
next
  case (IndirectImm16 ty)
  then obtain i table m1 where p: "pull_call_indirect_params_imm16 m = Done (i, table, m1)"
      "execute_call_indirect_impl ev Tail has_params None ty i table m1 = Done (Inr cf, m')"
    using assms(1) by (auto simp: ex_then_Done_iff)
  have "m1 = next_instr m" using pull_params_next p(1) by blast
  with p(2) indirect_after_pull [OF _ assms(2)] show ?thesis using p(1) IndirectImm16 by simp
qed

end
