(* ===== verification/Interpreter.thy ===== *)
theory Interpreter
  imports Tail_Calls
begin

text \<open>
  What the interpreter promises: calls into a guest whose code keeps the contract never do what unsafe
  code must not do, they end when the code is metered, both stacks stay within their limits, tail
  calls take the place of their caller. The example guest at the end calls the host and adds.
\<close>

section \<open>Reachable machines\<close>

inductive reaches :: "('h, 'l) engine_env \<Rightarrow> ('h, 'l) machine \<Rightarrow> ('h, 'l) machine \<Rightarrow> bool" for ev m where
  here: "reaches ev m m"
| on: "reaches ev m m' \<Longrightarrow> step ev m' = Done (Goes_On m'') \<Longrightarrow> reaches ev m m''"

lemma reachable_ok:
  assumes "reaches ev m m'" and "machine_ok ev cx K m" and "code_map_ok ev cx" and "host_ok ev cx"
  shows "machine_ok ev cx K m'"
  using assms(1)
proof induction
  case (on m' m'')
  then show ?case using step_safe [OF on.IH assms(3,4)] by simp
qed (rule assms(2))

lemma machine_ok_limits:
  "machine_ok ev cx K m \<Longrightarrow> vs_len (m_values m) \<le> rt_height K \<and> length (cs_frames (m_calls m)) \<le> rt_depth K"
  by (auto simp: machine_ok_def running_def context_ok_def height_ok_def depth_ok_def)

section \<open>Calls end\<close>

lemma execute_instrs_ends:
  assumes "executor_new sk st = Done m" and "execute_loop ev m \<noteq> None"
  shows "execute_instrs ev sk st \<noteq> None"
  using assms by (simp add: execute_instrs_def map_run_def)

lemma execute_root_func_ends:
  assumes "code_map_ok ev cx" and "host_ok ev cx" and "store_ok cx st"
    and "\<And>e. resolve_func st func = Ok e \<Longrightarrow> ty_arity (func_entity_ty e) = (length params, len_results)"
    and "cx_promise cx = metered ev" and "fuel_monotone ev"
  shows "execute_root_func ev func params len_results sk st \<noteq> None"
proof (cases "resolve_func st func")
  case (Ok e)
  have fits: "entity_fits cx st e" using assms(3) Ok unfolding store_ok_def by blast
  show ?thesis
  proof (cases e)
    case (WasmFunc w)
    have ar: "ty_arity (wfe_ty w) = (length params, len_results)" using assms(4) [OF Ok] WasmFunc by simp
    note p = prepare_root_safe [OF assms(1,3) fits [unfolded WasmFunc] ar fresh_reset, of sk]
    show ?thesis
    proof (cases "prepare_root ev w params len_results (stack_reset sk) st")
      case (Done x)
      obtain r sk' st' where x: "x = (r, sk', st')" by (cases x)
      show ?thesis
      proof (cases r)
        case (Inr u)
        then obtain m where "executor_new sk' st' = Done m"
            "machine_ok ev cx (root_of len_results (stack_reset sk)) m"
          using p Done x by auto
        then have "execute_instrs ev sk' st' \<noteq> None"
          using execute_instrs_ends loop_terminates [OF _ assms(1,2,5,6)] by blast
        then show ?thesis using Ok WasmFunc Done x Inr by (simp add: execute_root_func_def Let_def map_run_def)
      qed (use Ok WasmFunc Done x in \<open>simp add: execute_root_func_def Let_def\<close>)
    qed (use Ok WasmFunc in \<open>simp_all add: execute_root_func_def Let_def\<close>)
  qed (use Ok in \<open>simp add: execute_root_func_def Let_def\<close>)
qed (simp_all add: execute_root_func_def)

lemma map_sum_Inr: "map_sum f id r = Inr x \<longleftrightarrow> r = Inr x"
  by (cases r) auto

lemma execute_func_safe:
  assumes "code_map_ok ev cx" and "host_ok ev cx" and "store_ok cx st"
    and "\<And>e. resolve_func st func = Ok e \<Longrightarrow> ty_arity (func_entity_ty e) = (length params, len_results)"
  shows "run_safely (\<lambda>(r, st, es). case r of Inl _ \<Rightarrow> True
      | Inr vals \<Rightarrow> length vals = len_results \<and> store_ok cx st)
    (execute_func ev func params len_results st es)"
proof -
  have reuse: "safely (\<lambda>_. True) (reuse_or_new es)"
    by (simp add: reuse_or_new_def stack_new_def value_stack_new_def)
  show ?thesis
    unfolding execute_func_def
    by (rule run_safely_then [OF reuse], clarify, rule run_safely_map [OF execute_root_func_safe [OF assms]])
      (auto split: sum.splits simp: map_sum_Inr)
qed

section \<open>An example guest\<close>

text \<open>
  One module, whose function 1 takes an integer, calls the imported function 0 with it, adds what it
  answers, and returns the sum. The host doubles.
\<close>

definition int_to_int :: func_type where
  "int_to_int = \<lparr>ft_params = [TyI32], ft_results = [TyI32]\<rparr>"

definition example_code :: "instr compiled_func" where
  "example_code =
     \<lparr>cfn_instrs = [IConsumeFuel 3, ICall 1 (Imported 0) True, IParam (PSlot 0),
                    ICompute (Binary (BinInt W32 OpAdd) 2 0 1), IReturn (ReturnSlot 2)],
      cfn_len_stack_slots = 3, cfn_consts = []\<rparr>"

definition example_shape :: shape where
  "example_shape = \<lparr>sh_funcs = [(1, 1), (1, 1)], sh_types = [(1, 1)], sh_globals = 0, sh_memories = 0, sh_tables = 0,
     sh_datas = 0, sh_elems = 0\<rparr>"

definition example_env :: "(unit, unit) engine_env" where
  "example_env =
     \<lparr>ev_target = esp32c3_release, ev_grow = (\<lambda>_ required. required), ev_alloc = (\<lambda>_. True),
      ev_floats = \<lparr>fu_arith = (\<lambda>_ _ x _. x), fu_round = (\<lambda>_ _ x. x), fu_demote = (\<lambda>_. 0),
                   fu_promote = (\<lambda>_. 0), fu_convert = (\<lambda>_ _ _ x. x)\<rparr>,
      ev_layout = \<lparr>rl_bits = (\<lambda>_. 1), rl_handle = (\<lambda>_. (0, 0))\<rparr>,
      ev_comparator = (\<lambda>_. None), ev_offset = (\<lambda>_ lo. ucast lo),
      ev_code = (\<lambda>body fu. (if body = 0 then Inr example_code else Inl (EK_Translation []), fu)),
      ev_host = (\<lambda>_ _ vals st. (Some (Inr (map (\<lambda>v. 2 * v) vals)), st))\<rparr>"

definition example_contract :: contract where
  "example_contract =
     \<lparr>cx_arity = (\<lambda>_. (1, 1)), cx_shape = (\<lambda>_. example_shape), cx_promise = metered example_env\<rparr>"

definition example_store :: "(unit, unit) store" where
  "example_store = (store_new 0 0 \<lparr>remaining = 100, enabled = True, costs = \<lparr>custom = None\<rparr>\<rparr> ())
     \<lparr>so_funcs := [HostFunc \<lparr>hfe_len_params = 1, hfe_len_results = 1, hfe_ty = int_to_int, hfe_func = (0, 0)\<rparr>,
                   WasmFunc \<lparr>wfe_ty = int_to_int, wfe_body = 0, wfe_instance = (0, 0)\<rparr>],
      so_instances := [uninitialized\<lparr>ie_initialized := True, ie_func_types := [int_to_int],
                                     ie_funcs := [(0, 0), (0, 1)]\<rparr>]\<rparr>"

definition example_stacks :: "instr engine_stacks" where
  "example_stacks = engine_stacks_new stack_config_default"

lemma example_metered: "metered example_env example_code"
  unfolding metered_def example_code_def by (simp add: charge_at_def)

lemma example_code_ok: "code_ok example_env example_contract example_shape 1 example_code"
proof -
  have "cx_promise example_contract example_code" using example_metered by (simp add: example_contract_def)
  then show ?thesis
    unfolding code_ok_def by (simp add: example_code_def start_def call_ok_def call_arity_def call_params_def
      slots_after_def context_of_def example_shape_def example_contract_def rd_def wr_def)
qed

lemma example_code_map: "code_map_ok example_env example_contract"
  unfolding code_map_ok_def
  using example_code_ok by (auto simp: example_env_def example_contract_def example_code_def split: if_splits)

lemma example_host: "host_ok example_env example_contract"
  by (auto simp: host_ok_def example_env_def grows_def)

lemma example_fuel: "fuel_monotone example_env"
  by (auto simp: fuel_monotone_def example_env_def split: if_splits)

lemma example_resolve:
  "resolve_func example_store h = (if h = (0, 0) then Ok (so_funcs example_store ! 0)
     else if h = (0, 1) then Ok (so_funcs example_store ! 1) else Panic)"
  by (cases h) (auto simp: resolve_func_def resolve_in_def try_resolve_def unwrap_stored_def entity_index_def
      example_store_def store_new_def arena_get_def less_Suc_eq)

lemma example_inst: "inst_fits example_store (0, 0) example_shape"
  by (simp add: inst_fits_def resolve_instance_def resolve_in_def try_resolve_def unwrap_stored_def
      entity_index_def arena_get_def example_resolve)
    (simp add: example_store_def store_new_def example_shape_def uninitialized_def ty_arity_def int_to_int_def)

lemma example_store_ok: "store_ok example_contract example_store"
  unfolding store_ok_def
proof (intro allI impI)
  fix h e assume "resolve_func example_store h = Ok e"
  then consider "e = so_funcs example_store ! 0" | "e = so_funcs example_store ! 1"
    by (auto simp: example_resolve split: if_splits)
  then show "entity_fits example_contract example_store e"
    using example_inst
    by cases (simp_all add: example_contract_def example_store_def store_new_def ty_arity_def int_to_int_def)
qed

text \<open>A machine in the middle of a call with the argument 5, and a function that only calls itself again.\<close>

definition machine_in :: "instr compiled_func \<Rightarrow> (unit, unit) machine" where
  "machine_in code =
     \<lparr>m_sp = \<lparr>fp_buffer = 0, fp_at = 1\<rparr>, m_ip = ip_new (cfn_instrs code), m_instance = (0, 0),
      m_stack = \<lparr>sk_calls = \<lparr>cs_frames = [\<lparr>cf_instr_ptr = ip_new (cfn_instrs code),
                                           cf_offsets = \<lparr>off_base = 1, off_frame = 1\<rparr>, cf_results = 0,
                                           cf_changed_instance = True\<rparr>],
                           cs_instances = \<lparr>hv_head = Some (0, 0), hv_rest = []\<rparr>, cs_recursion_limit = 1000\<rparr>,
                sk_values = \<lparr>vs_values = [None, Some 5, Some 0, Some 0], vs_max_len = 1000000,
                             vs_capacity = 1000, vs_buffer = 0\<rparr>\<rparr>,
      m_store = example_store\<rparr>"

definition again_code :: "instr compiled_func" where
  "again_code = \<lparr>cfn_instrs = [IReturnCall (Internal 0) True, IParam (PSlot 0)], cfn_len_stack_slots = 3, cfn_consts = []\<rparr>"

definition again_env :: "(unit, unit) engine_env" where
  "again_env = example_env
     \<lparr>ev_code := (\<lambda>body fu. (if body = 0 then Inr again_code else Inl (EK_Translation []), fu))\<rparr>"

definition example_root :: root_frame where
  "example_root = \<lparr>rt_results = 1, rt_height = 1000000, rt_depth = 1000\<rparr>"

lemma machine_in_ok:
  assumes "code_ok ev cx example_shape 1 code" and "store_ok cx example_store"
    and "cfn_len_stack_slots code = 3" and "cfn_consts code = []"
  shows "machine_ok ev cx example_root (machine_in code)"
proof (rule machine_okI)
  have cells: "cells_ok code 1 [None, Some 5, Some 0, Some 0]"
    unfolding cells_ok_def assms(3,4) by (auto simp: less_Suc_eq numeral_3_eq_3)
  have "locals_ok code 1 0 (machine_in code)"
    using cells assms(3,4) by (simp add: locals_ok_def machine_in_def stack_ptr_at_def vs_len_def ip_new_def)
  moreover have "context_ok ev cx example_root code example_shape 1 1 (machine_in code)"
    unfolding context_ok_def
    by (simp add: machine_in_def offsets_ok_def hv_ok_def hv_items_def below_instances_def example_root_def
        height_ok_def depth_ok_def vs_len_def example_inst assms(2-) assms(1) [unfolded One_nat_def])
  ultimately show "running ev cx example_root code example_shape 1 1 0 (machine_in code)"
    by (simp add: running_def)
  show "start (cfn_instrs code) (ip_at (m_ip (machine_in code)))"
    using assms(1) by (simp add: code_ok_def machine_in_def ip_new_def)
qed

section \<open>Calls are defined\<close>

text \<open>The function, if there is one, has as many parameters and results as the caller says.\<close>

definition answers :: "('h, 'l) store \<Rightarrow> handle \<Rightarrow> nat \<Rightarrow> nat \<Rightarrow> bool" where
  "answers st func np nr \<longleftrightarrow> (\<forall>e. resolve_func st func = Ok e \<longrightarrow> ty_arity (func_entity_ty e) = (np, nr))"

lemma answersD: "answers st func np nr \<Longrightarrow> resolve_func st func = Ok e \<Longrightarrow> ty_arity (func_entity_ty e) = (np, nr)"
  unfolding answers_def by blast

lemma example_answers: "answers example_store (0, 1) 1 1"
  by (simp add: answers_def example_resolve) (simp add: example_store_def store_new_def ty_arity_def int_to_int_def)

text \<open>
  C3: A call into a guest is never undefined: with code that keeps the contract, every register, parameter
  word, branch target, table of an instance and pointer into the value stack that the interpreter
  uses without a check is there, the cells it reads have been written, and no pointer dangles after the
  stack has moved. If the call succeeds it answers as many values as the function has results, and
  the store is in order for the next call.
\<close>
theorem guest_calls_are_defined:
  assumes "code_map_ok ev cx" and "host_ok ev cx" and "store_ok cx st"
    and "answers st func (length params) len_results"
  shows "execute_func ev func params len_results st es \<noteq> Some Undefined
    \<and> (\<forall>vals st' es'. execute_func ev func params len_results st es = Some (Done (Inr vals, st', es')) \<longrightarrow>
        length vals = len_results \<and> store_ok cx st')"
proof -
  have "run_safely (\<lambda>(r, st, es). case r of Inl _ \<Rightarrow> True
      | Inr vals \<Rightarrow> length vals = len_results \<and> store_ok cx st)
    (execute_func ev func params len_results st es)"
    by (rule execute_func_safe [OF assms(1-3)]) (rule answersD [OF assms(4)])
  then show ?thesis by (auto simp: run_safely_def)
qed

theorem guest_calls_are_defined_witness:
  "execute_func example_env (0, 1) [5] 1 example_store example_stacks \<noteq> Some Undefined"
  using guest_calls_are_defined [OF example_code_map example_host example_store_ok, of "(0, 1)" "[5]" 1 example_stacks]
    example_answers by simp

section \<open>Metered calls end\<close>

text \<open>
  C4: A call into a guest whose code is metered ends, however the guest loops, branches or recurses:
  the translator puts a charge at the entry of each function and at each target of a backward
  branch, and neither the compiler nor the host puts fuel back.
\<close>
theorem metered_guest_calls_end:
  assumes "code_map_ok ev cx" and "host_ok ev cx" and "store_ok cx st"
    and "answers st func (length params) len_results"
    and "cx_promise cx = metered ev" and "fuel_monotone ev"
  shows "\<exists>r. execute_func ev func params len_results st es = Some r"
proof (cases "reuse_or_new es")
  case (Done x)
  then show ?thesis
    using execute_root_func_ends [OF assms(1-3) answersD [OF assms(4)] assms(5,6)]
    by (cases x) (auto simp: execute_func_def map_run_def)
qed (simp_all add: execute_func_def)

theorem metered_guest_calls_end_witness:
  "\<exists>r. execute_func example_env (0, 1) [5] 1 example_store example_stacks = Some r"
  by (rule metered_guest_calls_end [OF example_code_map example_host example_store_ok])
    (use example_answers in \<open>simp_all add: example_contract_def example_fuel\<close>)

section \<open>Reachable machines are in order\<close>

text \<open>
  C13: Whatever a guest does, every machine the dispatch loop reaches keeps the invariant: the next step is
  defined, the value stack is no higher and the call stack no deeper than configured.
\<close>
theorem reachable_machines_are_in_order:
  assumes "machine_ok ev cx K m" and "code_map_ok ev cx" and "host_ok ev cx" and "reaches ev m m'"
  shows "machine_ok ev cx K m' \<and> step ev m' \<noteq> Undefined
    \<and> vs_len (m_values m') \<le> rt_height K \<and> length (cs_frames (m_calls m')) \<le> rt_depth K"
proof -
  have ok: "machine_ok ev cx K m'" by (rule reachable_ok [OF assms(4,1-3)])
  moreover have "step ev m' \<noteq> Undefined" using step_safe [OF ok assms(2,3)] by auto
  ultimately show ?thesis using machine_ok_limits by blast
qed

theorem reachable_machines_are_in_order_witness:
  "machine_ok example_env example_contract example_root (machine_in example_code)
    \<and> step example_env (machine_in example_code) \<noteq> Undefined"
proof -
  have "machine_ok example_env example_contract example_root (machine_in example_code)"
    by (rule machine_in_ok [OF example_code_ok example_store_ok]) (simp_all add: example_code_def)
  from reachable_machines_are_in_order [OF this example_code_map example_host reaches.here]
  show ?thesis by simp
qed

section \<open>Tail calls\<close>

text \<open>
  C14: A tail call takes the place of its caller, whatever it names: a compiled function, directly, through an
  import or through a table, gets a frame where the caller's was, on a call stack as deep as before and with
  the frames below untouched, and its cells begin where those of the caller did. After a tail call of a
  function of the host the caller's frame and cells are gone, and the run ends if it was the root. A
  guest that recurses by tail calls needs no more stack than one that loops.
\<close>
theorem tail_calls_take_the_callers_place:
  assumes "cs_frames (m_calls m) = f # fs" and "ip_get (m_ip m) = Done (IReturnCall target has_params)"
    and "step ev m = Done r" and "r = Goes_On m' \<or> r = Finishes m'"
  shows "\<exists>c. callee ev target m = Done c \<and> (case c of
     Inl func \<Rightarrow> r = Goes_On m' \<and> (\<exists>g code fu. ev_code ev func (so_fuel (m_store m)) = (Inr code, fu)
       \<and> cs_frames (m_calls m') = g # fs \<and> cf_frame g = cf_frame f
       \<and> vs_len (m_values m') = cf_frame f + cfn_len_stack_slots code)
   | Inr h \<Rightarrow> r = (if fs = [] then Finishes m' else Goes_On m')
       \<and> cs_frames (m_calls m') = fs \<and> vs_len (m_values m') = cf_frame f)"
proof -
  obtain y m1 where y: "execute_call ev Tail None target has_params m = Done (y, m1)"
      "r = (case y of Inl e \<Rightarrow> Fails e m1 | Inr c \<Rightarrow> of_control c m1)"
    using assms(2,3) by (auto simp: step_def of_called_def ex_then_Done_iff)
  then obtain cf1 where "y = Inr cf1" "m1 = m'"
    using assms(4) by (cases y) (auto simp: of_control_def split: control.splits)
  then have x: "execute_call ev Tail None target has_params m = Done (Inr cf1, m')" "of_control cf1 m' = r"
    using y by simp_all
  obtain c where c: "callee ev target m = Done c" "takes_place ev f fs (so_fuel (m_store m)) c (cf1, m')"
    using tail_call_place [OF x(1) assms(1)] by blast
  then show ?thesis using x(2)
    by (intro exI [of _ c]) (cases cf1; auto simp: takes_place_def of_control_def split: sum.splits)
qed

lemma again_step: "\<exists>m'. step again_env (machine_in again_code) = Done (Goes_On m')"
  by (simp add: step_def machine_in_def again_code_def ip_new_def ip_get_def caller_results_def cs_peek_def
      prepare_compiled_func_call_def again_env_def example_env_def dispatch_compiled_func_def alloc_call_frame_def
      extend_by_def vs_reserve_def vs_len_def with_values_def copy_call_params_def slots_from_def next_instr_def
      next_instr_at_def ip_offset_def get_stack_slot_def slots_get_def slot_at_def init_next_def init_zeroes_def
      write_consts_def merge_call_frames_def cs_pop_def hv_pop_def vs_drain_def move_down_def init_call_frame_def
      cs_push_def push_instance_def hv_push_def with_calls_def of_called_def of_control_def call_frame_new_def
      Let_def numeral_2_eq_2 numeral_3_eq_3)

theorem tail_calls_take_the_callers_place_witness:
  "\<exists>m' g. step again_env (machine_in again_code) = Done (Goes_On m')
     \<and> cs_frames (m_calls m') = [g] \<and> cf_frame g = 1 \<and> vs_len (m_values m') = 4"
proof -
  let ?m = "machine_in again_code"
  obtain m' where m': "step again_env ?m = Done (Goes_On m')" using again_step ..
  have ip: "ip_get (m_ip ?m) = Done (IReturnCall (Internal 0) True)"
    by (simp add: machine_in_def again_code_def ip_new_def ip_get_def)
  have "cs_frames (m_calls ?m) = hd (cs_frames (m_calls ?m)) # []" by (simp add: machine_in_def)
  then show ?thesis using tail_calls_take_the_callers_place [OF _ ip m'] m'
    by (fastforce simp: machine_in_def again_env_def again_code_def)
qed

section \<open>The limit of the value stack\<close>

text \<open>
  The maximum height of the value stack is documented in bytes and given to the stack as a number
  of cells of eight bytes each. By default it is therefore eight times what it says, and more than
  the heap of the boards: a guest that asks for a frame of 26000 cells is far below the limit, and
  does not get the trap for too deep a stack but brings the whole program down.
\<close>
theorem default_stack_limit_exceeds_the_heap:
  "\<exists>sk. stack_new stack_config_default = Done sk
     \<and> 26000 < vs_max_len (sk_values sk) - vs_len (sk_values sk)
     \<and> extend_by esp32c3_release grow 26000 on_resize (sk_values sk, s) = Aborts"
  by (simp add: stack_new_def value_stack_new_def stack_config_default_def extend_by_def vs_reserve_def
      vs_len_def Let_def esp32c3_release_def)

section \<open>One memory under two names\<close>

text \<open>
  A module that imports one memory twice has two indices for it. The code tells copying within a
  memory from copying between two by the indices, and then asks the arena for a pair of distinct
  entities: a copy from one name to the other, even of no bytes, panics instead of copying.
\<close>

definition two_names_code :: "instr compiled_func" where
  "two_names_code = \<lparr>cfn_instrs = [IBulk (MemoryCopy 1 1 1), IParam (MemoryIndex 0), IParam (MemoryIndex 1), IReturn (ReturnSlot 0)],
     cfn_len_stack_slots = 3, cfn_consts = []\<rparr>"

definition two_names_store :: "memory \<Rightarrow> (unit, unit) store" where
  "two_names_store mem = example_store
     \<lparr>so_memories := [mem],
      so_instances := [uninitialized\<lparr>ie_initialized := True, ie_memories := [(0, 0), (0, 0)]\<rparr>]\<rparr>"

lemma copy_between_two_names_panics:
  "step example_env ((machine_in two_names_code)\<lparr>m_store := two_names_store mem\<rparr>) = Aborts"
  by (simp add: step_def ip_get_def machine_in_def two_names_code_def ip_new_def execute_memory_copy_def
      get_stack_slot_def slots_get_def slot_at_def stack_ptr_at_def vs_len_def fits_usize_def example_env_def
      fetch_index_def param_at_def ip_offset_def get_entity_def cached_instance_def two_names_store_def example_store_def
      store_new_def resolve_instance_def resolve_in_def try_resolve_def unwrap_stored_def entity_index_def arena_get_def
      uninitialized_def distinct_pair_def of_handled_def)

end
