(* ===== verification/Spec2Isabelle.thy ===== *)
theory Spec2Isabelle
  imports Dual_Core Esp32_Entry Pico_Entry Laptop_Entry Memory_Ops Header_Termination Instance_Safety Interpreter
begin

text \<open>
  MILO receiver firmware.

  MILO sends small WebAssembly modules to boards that run them on a sandboxed interpreter. The
  receiver (\<open>receiver/src\<close>) reads frames from a transport, checks each module, runs it with the
  wasm engine in \<open>patches\<close> (patched copies of wasmi and wasmparser) under a budget of gas, lets it
  reach the hardware through twelve syscalls only, and answers every frame. This library models
  the receiver completely and the parts of the engine its safety rests on. Paths below are under
  \<open>src/\<close>; \<open>receiver/src\<close> is left out where the file name is clear.

  \<^bold>\<open>How the parts interact.\<close> A transport (\<open>transport/\<close>: \<open>Transports\<close>) delivers
  MILO-Link frames (\<open>engine/link.rs\<close>: \<open>Link\<close>). The main loop (\<open>lib.rs\<close>: \<open>Main_Loop\<close>, replies in
  \<open>Replies\<close> and \<open>Json\<close>) asks the security policy, which splits a signed payload
  (\<open>engine/signing.rs\<close>: \<open>Signing\<close>) and reads the imports of the module
  (\<open>engine/validation.rs\<close>: \<open>Validation\<close>). What passes goes to an executor
  (\<open>engine/executor*.rs\<close>: \<open>Executor\<close>, \<open>Threaded\<close>, \<open>Dual_Core\<close>; the parameter slots are \<open>Params\<close>),
  which makes a runtime (\<open>lib.rs\<close>: \<open>Runtime\<close>), and that one calls the engine with the syscalls
  (\<open>Syscalls\<close>) over a backend. A backend implements the trait \<open>MiloHardware\<close> (\<open>Hardware\<close>): the
  mock (\<open>Mock\<close>), the simulated machines (\<open>Sim\<close>, with the arithmetic of \<open>f64\<close> in \<open>F64\<close>), or the
  adapter over registered drivers (\<open>hal/adapter.rs\<close>: \<open>Adapter\<close>, maps in \<open>Ordered_Map\<close>) that the
  boards assemble (\<open>Esp32c3\<close>, \<open>Rp2040\<close>). The manifest (\<open>engine/manifest.rs\<close>: \<open>Manifest\<close>) tells the
  host what a board offers. The entry points of \<open>main.rs\<close> (\<open>Esp32_Entry\<close>, \<open>Pico_Entry\<close>,
  \<open>Laptop_Entry\<close>; keys in \<open>Provisioning\<close>) put these together; the Pico has a loop of its own, whose
  buffers live on its heap (\<open>Board_Heap\<close>).

  \<^bold>\<open>The wasm engine.\<close> Its crates are modelled from the bytes of a module to the instance
  that runs. \<open>patches/wasmparser\<close>: the byte reader (\<open>Wasm_Reader\<close>), the section readers
  (\<open>Wasm_Sections\<close>) and the payload parser (\<open>Wasm_Parser\<close>). \<open>patches/wasmi_collections\<close>: arenas
  (\<open>Interning\<close>) and the string interner (\<open>String_Interner\<close>). \<open>patches/wasmi/src/module\<close>: the loop
  over the header and the imports (\<open>Module_Imports\<close>), constant expressions (\<open>Const_Expr\<close>), the
  module and its builder (\<open>Module_Builder\<close>), and instantiation (\<open>Instantiation\<close>). Function types
  are in \<open>Func_Types\<close>, the linker in \<open>Linker\<close>, the registration of the syscalls with it in
  \<open>Receiver_Linker\<close>, the store with its entities in \<open>Guest_Store\<close>. \<open>patches/wasmi_core\<close>: gas
  (\<open>Fuel\<close>), linear memory (\<open>Linear_Memory\<close>), loads and stores (\<open>Memory_Access\<close>), tables
  (\<open>Guest_Table\<close>), the integer and floating-point instructions of \<open>value.rs\<close> (\<open>Wasm_Integers\<close>,
  \<open>Wasm_Floats\<close>), and errors (\<open>Engine_Errors\<close>, \<open>Error_Reports\<close>).

  \<^bold>\<open>The interpreter.\<close> \<open>patches/wasmi/src/engine/executor\<close> runs register code with pointers
  into a value stack it does not check. The stacks and their limits are in \<open>Value_Stack\<close>. The type of the
  instruction words is in a crate outside the repository; \<open>Instructions\<close> has the variants and fields that the
  handlers use, in groups. The handlers, one definition each, are in \<open>Register_Machine\<close> (computing,
  copying, branching), \<open>Machine_Memory\<close> (globals, loads, stores, sizes), \<open>Machine_Bulk\<close> (memories,
  tables and segments in bulk, over the operations of \<open>Memory_Ops\<close> and \<open>Table_Ops\<close>) and
  \<open>Machine_Calls\<close> (calls, returns, the dispatch \<open>step\<close>). \<open>Root_Calls\<close> has the dispatch loop and the calls
  from outside. An access the code leaves unchecked is \<open>Undefined\<close> where its target is not there, so that
  undefined behaviour is a value that the theorems rule out. What the translator guarantees, by the
  comments at each such access, is the contract \<open>Code_Contract\<close>; \<open>Machine_Invariant\<close> says how stacks,
  pointers and instances belong together, \<open>Machine_Locals\<close>, \<open>Machine_Bulk_Safety\<close>, \<open>Machine_Returns\<close>,
  \<open>Machine_Frames\<close>, \<open>Machine_Compiled_Calls\<close> and \<open>Machine_Host_Calls\<close> that each group of handlers keeps it,
  and \<open>Machine_Safety\<close> that the machine does. \<open>Metered_Code\<close>, \<open>Machine_Bulk_Metering\<close> and
  \<open>Machine_Termination\<close> show that metered code ends, \<open>Tail_Calls\<close> where the callee of a tail call
  goes. \<open>Interpreter\<close> states the properties, on an
  example guest that calls the host.

  \<^bold>\<open>How the code is rendered.\<close> A struct is a record, an enum a datatype, a machine integer
  a word of its width; \<open>usize\<close> is a natural number with the arithmetic of its target written out
  (\<open>Prelude\<close>: a \<open>target\<close> says how wide an address is and whether overflow is checked), so that a
  32-bit release build wraps and a debug build panics. A Rust function that can panic or loop
  returns an \<open>outcome\<close> (\<open>Ok\<close>, \<open>Panic\<close>, \<open>Diverges\<close>); an \<open>Err\<close> of the code is \<open>Inl\<close> of an error datatype.
  Mutable state is passed and returned. A trait is a record of operations over the state of the
  implementation, and what a client relies on is a locale, interpreted on every implementation:
  \<open>milo_hardware\<close> (mock, simulation, adapter, both boards), \<open>executor_keeps\<close> (the three
  executors), \<open>ordered_map\<close>, \<open>interning\<close> (both interners), \<open>rounding\<close>. The world outside (drivers,
  sockets, the allocator, the clock, Ed25519, the chips' HAL crates) is an argument, as a function
  or as a script of answers.

  \<^bold>\<open>What the lemmas show.\<close>
  \<^item> Safety from end to end: under a signed-only policy nothing unsigned reaches an executor
    (\<open>Main_Loop\<close>); what the import check accepts is what the engine links (\<open>Import_Agreement\<close>,
    \<open>Link_Safety\<close>, with the modules on which they part), and an instance imports nothing but the
    syscalls (\<open>Instance_Safety\<close>); a syscall stays inside the memory window it was lent (\<open>Syscalls\<close>).
  \<^item> Termination: for an engine that charges for its work a run returns, unless a syscall panics
    (\<open>Runtime\<close>), the import check returns except for the wrap-around shown there (\<open>Validation\<close>), the
    engine's loop over a header goes through finitely many payloads (\<open>Header_Termination\<close>).
  \<^item> Contracts: the threaded executor refines sequential runs (\<open>Threaded\<close>), the linker a map
    from pairs of names (\<open>Linker_Spec\<close>), the Pico's frame assembly the frames sent, on a heap with enough room (\<open>Pico_Entry\<close>);
    memories, tables, function types and constant expressions compute what they promise; division
    and truncation trap exactly where the result does not exist.
  \<^item> The interpreter (\<open>Interpreter\<close>): a call into a guest whose code keeps the contract is never
    undefined and answers as many values as its type has; it ends when the code is metered; both
    stacks stay within their limits, and tail calls of every kind take the place of their caller.
  \<^item> Round trips: frames, the manifest, JSON replies, data segments, loads after stores.
  \<^item> Where the code does otherwise than it means to, the lemma states what it does: the
    manifest's findings name them.

  \<^bold>\<open>Loops and fuel.\<close> Loops that consume a list or count down are structural recursion or have a
  measure. Loops that the code does not bound are \<open>partial_function (option)\<close>, None being a run
  that never ends: the walk over sections in \<open>Validation\<close> (it ends without wrap-around, and with it
  one module loops forever), \<open>header_loop\<close> in \<open>Module_Imports\<close> (always ends), \<open>run_guest\<close> in
  \<open>Runtime\<close> (ends with metering), the polling loops of the boards and the belt of the simulation
  (ends: each round takes one item length off the position), and the dispatch loop \<open>execute_loop\<close> in
  \<open>Root_Calls\<close> (ends for metered code: every step that goes on takes fuel, or keeps it and leaves fewer
  words ahead in the frames). The gas of the program itself is modelled as it is,
  a 64-bit counter in \<open>Fuel\<close>; no other fuel is used. The main loops that never return are
  step functions with lists of steps.

  \<^bold>\<open>Not modelled.\<close> Of the engine: its validator, the readers of function bodies and of the
  sections after the imports, and the translation of function bodies to register code. The code map
  is an argument of the interpreter, with \<open>Code_Contract\<close> as its hypothesis. Resuming a call that the host
  suspended is left out. \<open>Runtime\<close> takes what a call of the guest does next as an argument, and
  \<open>Instantiation\<close> the running of a start function: they are not joined to the interpreter. What the
  hardware computes on floats (sums, roots, rounded conversions) is an argument; the vector
  instructions are left out (the receiver builds without SIMD). Allocations of the firmware itself
  are taken to succeed, but for those whose sizes a host or guest chooses: the buffers of the
  syscalls and transports, and those of the Pico's loop.
  The host tools in Python, demos and examples are outside the firmware. Bringing up
  a chip (clocks, pins, USB) is calls into its HAL crates only. Banners on standard error are left
  out.
\<close>

section \<open>One alphabet\<close>

text \<open>
  The list of syscalls is written down three times: the whitelist of the validator, the
  functions the linker defines, and the alphabet of the discovery manifest.
\<close>

text \<open>
  The three lists of syscalls agree: a function passes the import check exactly when the
  runtime defines it, and exactly when the manifest tells the host of it.
\<close>
theorem alphabet_in_sync:
  "(name \<in> set ALLOWED_IMPORTS) = ((''env'', name) \<in> set linker_definitions)
   \<and> (name \<in> set ALLOWED_IMPORTS) = (name \<in> set ALPHABET)"
  by (simp add: ALLOWED_IMPORTS_def linker_definitions_def ALPHABET_def)

end
